(* ===== verification/Prelude.thy ===== *)
theory Prelude
  imports
    Complex_Main
    "HOL-Library.Multiset"
    "HOL-Library.AList"
    "HOL-Library.List_Lexorder"
    "HOL-Library.Product_Lexorder"
    "HOL-Library.Char_ord"
begin

text \<open>
  Shared vocabulary of the development. A Python \<open>dict\<close> keeps its insertion order, and
  the code depends on it (\<open>next(iter(d))\<close> evicts the oldest entry, the first of several
  equally good providers wins), so a dict is an association list: \<open>dict_set\<close> overwrites
  in place or appends, \<open>dict_pop\<close> removes a key, \<open>map_of\<close> looks one up. The locale
  \<open>keyed_map\<close> states what the components that keep one value per key rely on. A SQL
  table is the list of its rows in rowid order. A \<open>deque(maxlen=n)\<close> keeps the last
  \<open>n\<close> elements. Text is \<open>string\<close>; the case operations are those of ASCII.
\<close>

named_theorems dict_simps \<open>rewriting of lookups after dict updates\<close>
named_theorems row_simps \<open>rewriting of row selections after SQL updates\<close>

section \<open>Dicts in insertion order\<close>

type_synonym ('k, 'v) dict = "('k \<times> 'v) list"

abbreviation dict_set :: "'k \<Rightarrow> 'v \<Rightarrow> ('k, 'v) dict \<Rightarrow> ('k, 'v) dict" where
  "dict_set \<equiv> AList.update"

abbreviation dict_pop :: "'k \<Rightarrow> ('k, 'v) dict \<Rightarrow> ('k, 'v) dict" where
  "dict_pop \<equiv> AList.delete"

abbreviation dict_keys :: "('k, 'v) dict \<Rightarrow> 'k list" where
  "dict_keys d \<equiv> map fst d"

definition dict_ok :: "('k, 'v) dict \<Rightarrow> bool" where
  "dict_ok d \<longleftrightarrow> distinct (dict_keys d)"

definition dict_get :: "('k, 'v) dict \<Rightarrow> 'k \<Rightarrow> 'v \<Rightarrow> 'v" where
  "dict_get d k v = (case map_of d k of Some x \<Rightarrow> x | None \<Rightarrow> v)"

lemma dict_ok_Nil [simp, intro]: "dict_ok []"
  by (simp add: dict_ok_def)

lemma dict_ok_set [simp, intro]: "dict_ok d \<Longrightarrow> dict_ok (dict_set k v d)"
  by (simp add: dict_ok_def distinct_update)

lemma dict_ok_pop [simp, intro]: "dict_ok d \<Longrightarrow> dict_ok (dict_pop k d)"
  by (simp add: dict_ok_def distinct_delete)

lemma map_of_dict_set [dict_simps, simp]:
  "map_of (dict_set k v d) k' = (if k' = k then Some v else map_of d k')"
  by (simp add: update_conv')

lemma map_of_dict_pop [dict_simps, simp]:
  "map_of (dict_pop k d) k' = (if k' = k then None else map_of d k')"
  by (simp add: delete_conv')

lemma dict_keys_pop: "set (dict_keys (dict_pop k d)) = set (dict_keys d) - {k}"
  by (simp add: delete_keys)

lemma dict_keys_set: "set (dict_keys (dict_set k v d)) = insert k (set (dict_keys d))"
  by (simp add: dom_update)

lemma dict_set_new:
  "k \<notin> set (dict_keys d) \<Longrightarrow> dict_set k v d = d @ [(k, v)]"
  by (induction d) auto

lemma length_dict_set:
  "length (dict_set k v d) = (if k \<in> set (dict_keys d) then length d else Suc (length d))"
  by (induction d) auto

lemma length_dict_pop_le: "length (dict_pop k d) \<le> length d"
  by (simp add: length_delete_le)

lemma map_of_Some_in_keys: "map_of d k = Some v \<Longrightarrow> k \<in> set (dict_keys d)"
  by (metis domI dom_map_of_conv_image_fst image_set)

lemma map_of_None_notin_keys: "map_of d k = None \<longleftrightarrow> k \<notin> set (dict_keys d)"
  by (simp add: map_of_eq_None_iff)

lemma dict_ok_value:
  "dict_ok d \<Longrightarrow> (k, v) \<in> set d \<Longrightarrow> map_of d k = Some v"
  by (simp add: dict_ok_def)

lemma set_dict_set_subset: "set (dict_set k v d) \<subseteq> insert (k, v) (set d)"
  by (induction d) auto

lemma set_dict_pop_subset: "set (dict_pop k d) \<subseteq> set d"
  by (induction d) auto

subsection \<open>The interface of a per-key store\<close>

locale keyed_map =
  fixes get :: "'m \<Rightarrow> 'k \<Rightarrow> 'v option"
    and put :: "'k \<Rightarrow> 'v \<Rightarrow> 'm \<Rightarrow> 'm"
    and drop_key :: "'k \<Rightarrow> 'm \<Rightarrow> 'm"
    and invar :: "'m \<Rightarrow> bool"
  assumes get_put: "invar m \<Longrightarrow> get (put k v m) k' = (if k' = k then Some v else get m k')"
    and get_drop: "invar m \<Longrightarrow> get (drop_key k m) k' = (if k' = k then None else get m k')"
    and invar_put: "invar m \<Longrightarrow> invar (put k v m)"
    and invar_drop: "invar m \<Longrightarrow> invar (drop_key k m)"
begin

definition entry :: "'v \<Rightarrow> 'm \<Rightarrow> 'k \<Rightarrow> 'v" where
  "entry d m k = (case get m k of Some v \<Rightarrow> v | None \<Rightarrow> d)"

lemma entry_put: "invar m \<Longrightarrow> entry d (put k v m) k' = (if k' = k then v else entry d m k')"
  by (simp add: entry_def get_put)

lemma entry_put_same: "invar m \<Longrightarrow> entry d (put k v m) k = v"
  by (simp add: entry_put)

lemma entry_put_other: "invar m \<Longrightarrow> k' \<noteq> k \<Longrightarrow> entry d (put k v m) k' = entry d m k'"
  by (simp add: entry_put)

lemma entry_drop: "invar m \<Longrightarrow> entry d (drop_key k m) k' = (if k' = k then d else entry d m k')"
  by (simp add: entry_def get_drop)

lemma put_frame: "invar m \<Longrightarrow> k' \<noteq> k \<Longrightarrow> get (put k v m) k' = get m k'"
  by (simp add: get_put)

lemma drop_frame: "invar m \<Longrightarrow> k' \<noteq> k \<Longrightarrow> get (drop_key k m) k' = get m k'"
  by (simp add: get_drop)

lemma all_entries_put:
  assumes "invar m" "P v" "\<And>k' v'. get m k' = Some v' \<Longrightarrow> P v'" "get (put k v m) k'' = Some v''"
  shows "P v''"
  using assms by (auto simp: get_put split: if_splits)

end

interpretation dict: keyed_map map_of dict_set dict_pop dict_ok
  by unfold_locales simp_all

lemma dict_get_entry: "dict_get d k v = dict.entry v d k"
  by (simp add: dict_get_def dict.entry_def)

lemma dict_get_set [dict_simps, simp]:
  "dict_get (dict_set k x d) k' v = (if k' = k then x else dict_get d k' v)"
  by (simp add: dict_get_def)

lemma dict_get_pop [dict_simps, simp]:
  "dict_get (dict_pop k d) k' v = (if k' = k then v else dict_get d k' v)"
  by (simp add: dict_get_def)

section \<open>Rows of SQL tables\<close>

definition sql_update :: "('r \<Rightarrow> bool) \<Rightarrow> ('r \<Rightarrow> 'r) \<Rightarrow> 'r list \<Rightarrow> 'r list" where
  "sql_update p f rows = map (\<lambda>r. if p r then f r else r) rows"

definition sql_delete :: "('r \<Rightarrow> bool) \<Rightarrow> 'r list \<Rightarrow> 'r list" where
  "sql_delete p rows = filter (\<lambda>r. \<not> p r) rows"

definition sql_exists :: "('r \<Rightarrow> bool) \<Rightarrow> 'r list \<Rightarrow> bool" where
  "sql_exists p rows = list_ex p rows"

definition sql_count :: "('r \<Rightarrow> bool) \<Rightarrow> 'r list \<Rightarrow> nat" where
  "sql_count p rows = length (filter p rows)"

text \<open>\<open>ORDER BY key DESC\<close>, rows with equal keys in rowid order.\<close>

definition sql_desc :: "('r \<Rightarrow> 'k :: linorder) \<Rightarrow> 'r list \<Rightarrow> 'r list" where
  "sql_desc key rows = rev (sort_key key (rev rows))"

lemma set_sql_update: "set (sql_update p f rows) = (\<lambda>r. if p r then f r else r) ` set rows"
  by (simp add: sql_update_def)

lemma length_sql_update [row_simps, simp]: "length (sql_update p f rows) = length rows"
  by (simp add: sql_update_def)

lemma set_sql_delete [row_simps]: "set (sql_delete p rows) = {r \<in> set rows. \<not> p r}"
  by (auto simp: sql_delete_def)

lemma map_sql_update [row_simps]:
  "(\<And>r. p r \<Longrightarrow> g (f r) = g r) \<Longrightarrow> map g (sql_update p f rows) = map g rows"
  by (simp add: sql_update_def)

lemma sql_update_append [row_simps]:
  "sql_update p f (xs @ ys) = sql_update p f xs @ sql_update p f ys"
  by (simp add: sql_update_def)

lemma sql_update_Nil [row_simps, simp]: "sql_update p f [] = []"
  by (simp add: sql_update_def)

lemma sql_update_absent: "\<not> sql_exists p rows \<Longrightarrow> sql_update p f rows = rows"
  by (induction rows) (auto simp: sql_update_def sql_exists_def)

lemma sql_exists_iff: "sql_exists p rows \<longleftrightarrow> (\<exists>r \<in> set rows. p r)"
  by (simp add: sql_exists_def list_ex_iff)

lemma find_None_exists: "find p rows = None \<longleftrightarrow> \<not> sql_exists p rows"
  by (auto simp: find_None_iff sql_exists_iff)

lemma find_Some_in: "find p rows = Some r \<Longrightarrow> r \<in> set rows \<and> p r"
  by (auto simp: find_Some_iff)

lemma find_sql_update_other:
  "(\<And>r. q (f r) = q r) \<Longrightarrow> (\<And>r. q r \<Longrightarrow> \<not> p r) \<Longrightarrow> find q (sql_update p f rows) = find q rows"
  by (induction rows) (auto simp: sql_update_def)

lemma find_sql_update:
  "(\<And>r. q (f r) = q r) \<Longrightarrow>
   find q (sql_update p f rows) = map_option (\<lambda>r. if p r then f r else r) (find q rows)"
  by (induction rows) (auto simp: sql_update_def)

lemma find_append:
  "find p (xs @ ys) = (case find p xs of Some x \<Rightarrow> Some x | None \<Rightarrow> find p ys)"
  by (induction xs) auto

lemma find_key_unique:
  assumes "distinct (map key rows)" "r \<in> set rows"
  shows "find (\<lambda>r'. key r' = key r) rows = Some r"
  using assms by (induction rows) (auto simp: rev_image_eqI)

lemma mset_sql_desc [simp]: "mset (sql_desc key rows) = mset rows"
  by (simp add: sql_desc_def)

lemma set_sql_desc [simp]: "set (sql_desc key rows) = set rows"
  by (simp add: sql_desc_def)

lemma length_sql_desc [simp]: "length (sql_desc key rows) = length rows"
  by (simp add: sql_desc_def)

lemma sorted_sql_desc: "sorted_wrt (\<lambda>a b. key b \<le> key a) (sql_desc key rows)"
proof -
  have "sorted_wrt (\<lambda>a b. key a \<le> key b) (sort_key key (rev rows))"
    using sorted_sort_key [of key "rev rows"] by (simp add: sorted_map)
  then show ?thesis by (simp add: sql_desc_def sorted_wrt_rev)
qed

section \<open>Bounded histories\<close>

text \<open>\<open>deque(maxlen=n).append\<close>: the oldest element goes when the deque is full.\<close>

definition deque_append :: "nat \<Rightarrow> 'a \<Rightarrow> 'a list \<Rightarrow> 'a list" where
  "deque_append n x q = (let q' = q @ [x] in drop (length q' - n) q')"

definition last_n :: "nat \<Rightarrow> 'a list \<Rightarrow> 'a list" where
  "last_n n xs = drop (length xs - n) xs"

lemma deque_append_last_n: "deque_append n x q = last_n n (q @ [x])"
  by (simp add: deque_append_def last_n_def Let_def)

lemma last_n_append [simp]: "last_n n (last_n n xs @ ys) = last_n n (xs @ ys)"
proof (cases "length xs \<le> n")
  case False
  then have "xs @ ys = take (length xs - n) xs @ (last_n n xs @ ys)" by (simp add: last_n_def)
  moreover have "n \<le> length (last_n n xs @ ys)" using False by (simp add: last_n_def)
  moreover have "last_n n (as @ bs) = last_n n bs" if "n \<le> length bs" for as bs :: "'a list"
    using that by (simp add: last_n_def)
  ultimately show ?thesis by metis
qed (simp add: last_n_def)

lemma length_deque_append: "length (deque_append n x q) = min n (Suc (length q))"
  by (simp add: deque_append_def Let_def)

lemma length_deque_append_le [simp]: "length (deque_append n x q) \<le> n"
  by (simp add: length_deque_append)

lemma set_deque_append: "set (deque_append n x q) \<subseteq> insert x (set q)"
proof -
  have "set (drop k (q @ [x])) \<subseteq> set (q @ [x])" for k
    by (rule set_drop_subset)
  then show ?thesis by (fastforce simp: deque_append_def Let_def)
qed

lemma last_deque_append: "0 < n \<Longrightarrow> last (deque_append n x q) = x"
  by (simp add: deque_append_def Let_def last_drop)

section \<open>Text\<close>

text \<open>Text is a list of code points below 256 (Latin-1).\<close>

definition lower_char :: "char \<Rightarrow> char" where
  "lower_char c = (let n = (of_char c :: nat) in
     if 65 \<le> n \<and> n \<le> 90 \<or> 192 \<le> n \<and> n \<le> 222 \<and> n \<noteq> 215 then char_of (n + 32) else c)"

definition str_lower :: "string \<Rightarrow> string" where
  "str_lower s = map lower_char s"

text \<open>The characters that \<open>str.strip()\<close> removes: tab to carriage return, the separators 28 to 31,
  space, next line and the no-break space.\<close>

definition is_space :: "char \<Rightarrow> bool" where
  "is_space c = (let n = (of_char c :: nat) in 9 \<le> n \<and> n \<le> 13 \<or> 28 \<le> n \<and> n \<le> 32 \<or> n = 133 \<or> n = 160)"

definition str_strip :: "string \<Rightarrow> string" where
  "str_strip s = rev (dropWhile is_space (rev (dropWhile is_space s)))"

definition starts_with :: "string \<Rightarrow> string \<Rightarrow> bool" where
  "starts_with p s = (take (length p) s = p)"

fun str_contains :: "string \<Rightarrow> string \<Rightarrow> bool" where
  "str_contains p [] = (p = [])"
| "str_contains p (c # s) = (starts_with p (c # s) \<or> str_contains p s)"

definition ends_with :: "string \<Rightarrow> string \<Rightarrow> bool" where
  "ends_with p s = starts_with (rev p) (rev s)"

lemma starts_with_append: "starts_with p (p @ s)"
  by (simp add: starts_with_def)

lemma starts_with_iff: "starts_with p s \<longleftrightarrow> (\<exists>r. s = p @ r)"
  by (metis append_eq_conv_conj append_take_drop_id starts_with_def)

text \<open>\<open>str(n)\<close> of an int.\<close>

definition digit_char :: "nat \<Rightarrow> char" where
  "digit_char n = char_of (48 + n)"

fun nat_str :: "nat \<Rightarrow> string" where
  "nat_str n = (if n < 10 then [digit_char n] else nat_str (n div 10) @ [digit_char (n mod 10)])"

declare nat_str.simps [simp del]

definition int_str :: "int \<Rightarrow> string" where
  "int_str i = (if i < 0 then CHR ''-'' # nat_str (nat (- i)) else nat_str (nat i))"

section \<open>Results\<close>

definition dflt :: "'a \<Rightarrow> 'a option \<Rightarrow> 'a" where
  "dflt d x = (case x of None \<Rightarrow> d | Some y \<Rightarrow> y)"

lemma dflt_simps [simp]: "dflt d None = d" "dflt d (Some y) = y"
  by (simp_all add: dflt_def)

text \<open>A sequence of checks where the first failing one raises: \<open>None\<close> is "no error".\<close>

fun first_error :: "(bool \<times> 'e) list \<Rightarrow> 'e option" where
  "first_error [] = None"
| "first_error ((b, e) # cs) = (if b then Some e else first_error cs)"

lemma first_error_None: "first_error cs = None \<longleftrightarrow> (\<forall>(b, e) \<in> set cs. \<not> b)"
  by (induction cs rule: first_error.induct) auto

end
