(* ===== verification/Base64.thy ===== *)
theory Base64
  imports Prelude
begin

text \<open>
  The base64url text of \<open>routes_auth.py\<close>: \<open>_b64url\<close> and \<open>_b64url_decode\<close> with what they use of
  Python's \<open>base64\<close> and \<open>binascii\<close>. A byte is a character. The decoder is CPython's lenient
  one, which skips characters outside the alphabet and stops at sufficient padding.
\<close>

section \<open>Encoding\<close>

definition b64_alphabet :: string where
  "b64_alphabet = ''ABCDEFGHIJKLMNOPQRSTUVWXYZabcdefghijklmnopqrstuvwxyz0123456789-_''"

definition b64_char :: "nat \<Rightarrow> char" where
  "b64_char n = b64_alphabet ! n"

definition byte :: "char \<Rightarrow> nat" where
  "byte c = of_char c"

fun urlsafe_b64encode :: "string \<Rightarrow> string" where
  "urlsafe_b64encode [] = []"
| "urlsafe_b64encode [a] = [b64_char (byte a div 4), b64_char (byte a mod 4 * 16), CHR ''='', CHR ''='']"
| "urlsafe_b64encode [a, b] = [b64_char (byte a div 4), b64_char (byte a mod 4 * 16 + byte b div 16),
     b64_char (byte b mod 16 * 4), CHR ''='']"
| "urlsafe_b64encode (a # b # c # xs) = b64_char (byte a div 4) # b64_char (byte a mod 4 * 16 + byte b div 16)
     # b64_char (byte b mod 16 * 4 + byte c div 64) # b64_char (byte c mod 64) # urlsafe_b64encode xs"

definition rstrip_char :: "char \<Rightarrow> string \<Rightarrow> string" where
  "rstrip_char x s = rev (dropWhile (\<lambda>c. c = x) (rev s))"

definition b64url :: "string \<Rightarrow> string" where
  "b64url s = rstrip_char (CHR ''='') (urlsafe_b64encode s)"

section \<open>Decoding\<close>

text \<open>The value of a character; \<open>-\<close> and \<open>_\<close> are first translated to \<open>+\<close> and \<open>/\<close>, which are accepted too.\<close>

fun index_of :: "'a \<Rightarrow> 'a list \<Rightarrow> nat option" where
  "index_of x [] = None"
| "index_of x (y # ys) = (if x = y then Some 0 else map_option Suc (index_of x ys))"

definition b64_value :: "char \<Rightarrow> nat option" where
  "b64_value c = index_of (if c = CHR ''+'' then CHR ''-'' else if c = CHR ''/'' then CHR ''_'' else c) b64_alphabet"

text \<open>\<open>binascii.a2b_base64\<close>: the position in the group of four, the bits left over and the padding seen.\<close>

fun a2b :: "nat \<Rightarrow> nat \<Rightarrow> nat \<Rightarrow> string \<Rightarrow> string option" where
  "a2b q left pads [] = (if q = 0 then Some [] else None)"
| "a2b q left pads (c # cs) = (
     if c = CHR ''='' then
       (if 2 \<le> q \<and> 4 \<le> q + Suc pads then Some [] else a2b q left (if 2 \<le> q then Suc pads else pads) cs)
     else (case b64_value c of
       None \<Rightarrow> a2b q left pads cs
     | Some v \<Rightarrow>
         if q = 0 then a2b 1 v 0 cs
         else if q = 1 then map_option (Cons (char_of (left * 4 + v div 16))) (a2b 2 (v mod 16) 0 cs)
         else if q = 2 then map_option (Cons (char_of (left * 16 + v div 4))) (a2b 3 (v mod 4) 0 cs)
         else map_option (Cons (char_of (left * 64 + v))) (a2b 0 0 0 cs)))"

definition b64url_decode :: "string \<Rightarrow> string option" where
  "b64url_decode s = (if \<exists>c \<in> set s. 128 \<le> byte c then None
     else a2b 0 0 0 (s @ replicate (4 - length s mod 4) (CHR ''='')))"

section \<open>Round trip\<close>

lemma byte_less [simp]: "byte c < 256"
  by (simp add: byte_def)

lemma char_of_byte [simp]: "char_of (byte c) = c"
  by (simp add: byte_def)

lemma b64_values: "list_all (\<lambda>n. b64_value (b64_char n) = Some n \<and> b64_char n \<noteq> CHR ''='' \<and> b64_char n \<noteq> CHR ''.''
    \<and> byte (b64_char n) < 128) [0..<64]"
  by code_simp

lemma b64_char_simps [simp]:
  assumes "n < 64"
  shows "b64_value (b64_char n) = Some n" "b64_char n \<noteq> CHR ''=''" "b64_char n \<noteq> CHR ''.''" "byte (b64_char n) < 128"
  using b64_values assms by (simp_all add: list_all_iff)

text \<open>What the encoding yields without its padding.\<close>

fun sextets :: "string \<Rightarrow> nat list" where
  "sextets [] = []"
| "sextets [a] = [byte a div 4, byte a mod 4 * 16]"
| "sextets [a, b] = [byte a div 4, byte a mod 4 * 16 + byte b div 16, byte b mod 16 * 4]"
| "sextets (a # b # c # xs) = (byte a div 4) # (byte a mod 4 * 16 + byte b div 16)
     # (byte b mod 16 * 4 + byte c div 64) # (byte c mod 64) # sextets xs"

lemma sextet_bounds:
  "byte a div 4 < 64" "byte a mod 4 * 16 < 64" "byte a mod 4 * 16 + byte b div 16 < 64" "byte b mod 16 * 4 < 64"
  "byte b mod 16 * 4 + byte c div 64 < 64" "byte c mod 64 < 64"
proof -
  have b: "byte a < 256" "byte b < 256" "byte c < 256" by simp_all
  show "byte a div 4 < 64" using b by linarith
  show "byte a mod 4 * 16 < 64" using b by simp
  have "byte b div 16 < 16" using b by linarith
  then show "byte a mod 4 * 16 + byte b div 16 < 64" by simp
  show "byte b mod 16 * 4 < 64" by simp
  have "byte c div 64 < 4" using b by linarith
  then show "byte b mod 16 * 4 + byte c div 64 < 64" by simp
  show "byte c mod 64 < 64" by simp
qed

lemma sextets_less: "n \<in> set (sextets s) \<Longrightarrow> n < 64"
  by (induction s rule: sextets.induct) (auto simp: sextet_bounds simp del: mult_less_cancel2)

lemma encode_sextets: "\<exists>k. urlsafe_b64encode s = map b64_char (sextets s) @ replicate k (CHR ''='')"
proof (induction s rule: urlsafe_b64encode.induct)
  case 1
  then show ?case by simp
next
  case (2 a)
  then show ?case by (intro exI [of _ 2]) (simp add: numeral_2_eq_2)
next
  case (3 a b)
  then show ?case by (intro exI [of _ 1]) simp
next
  case (4 a b c xs)
  then show ?case by auto
qed

lemma b64url_sextets: "b64url s = map b64_char (sextets s)"
proof -
  obtain k where k: "urlsafe_b64encode s = map b64_char (sextets s) @ replicate k (CHR ''='')" using encode_sextets by blast
  have "rev (map b64_char (sextets s)) = [] \<or> hd (rev (map b64_char (sextets s))) \<noteq> CHR ''=''"
    using sextets_less [of _ s] by (cases "rev (sextets s)") (auto simp: rev_map [symmetric] dest: arg_cong [of _ _ set])
  then have "dropWhile (\<lambda>c. c = CHR ''='') (rev (map b64_char (sextets s))) = rev (map b64_char (sextets s))"
    by (cases "rev (map b64_char (sextets s))") auto
  moreover have "dropWhile (\<lambda>c. c = CHR ''='') (replicate k (CHR ''='') @ xs) = dropWhile (\<lambda>c. c = CHR ''='') xs" for xs
    by (induction k) auto
  ultimately show ?thesis by (simp add: b64url_def rstrip_char_def k)
qed

lemma a2b_group:
  assumes "v1 < 64" "v2 < 64" "v3 < 64" "v4 < 64"
  shows "a2b 0 0 0 (b64_char v1 # b64_char v2 # b64_char v3 # b64_char v4 # s)
    = map_option (\<lambda>r. char_of (v1 * 4 + v2 div 16) # char_of (v2 mod 16 * 16 + v3 div 4) # char_of (v3 mod 4 * 64 + v4) # r) (a2b 0 0 0 s)"
  using assms by (simp add: option.map_comp comp_def)

lemma regroup:
  "byte a div 4 * 4 + (byte a mod 4 * 16 + byte b div 16) div 16 = byte a"
  "(byte a mod 4 * 16 + byte b div 16) mod 16 * 16 + (byte b mod 16 * 4 + byte c div 64) div 4 = byte b"
  "(byte b mod 16 * 4 + byte c div 64) mod 4 * 64 + byte c mod 64 = byte c"
proof -
  have "byte b div 16 < 16" "byte c div 64 < 4" using byte_less [of b] byte_less [of c] by linarith+
  then show "byte a div 4 * 4 + (byte a mod 4 * 16 + byte b div 16) div 16 = byte a"
    "(byte a mod 4 * 16 + byte b div 16) mod 16 * 16 + (byte b mod 16 * 4 + byte c div 64) div 4 = byte b"
    "(byte b mod 16 * 4 + byte c div 64) mod 4 * 64 + byte c mod 64 = byte c" by simp_all
qed

lemma regroup_last:
  "byte a div 4 * 4 + byte a mod 4 * 16 div 16 = byte a"
  "(byte a mod 4 * 16 + byte b div 16) mod 16 * 16 + byte b mod 16 * 4 div 4 = byte b"
proof -
  show "byte a div 4 * 4 + byte a mod 4 * 16 div 16 = byte a" by simp
  have "byte b div 16 < 16" using byte_less [of b] by linarith
  then show "(byte a mod 4 * 16 + byte b div 16) mod 16 * 16 + byte b mod 16 * 4 div 4 = byte b" by simp
qed

lemma byte_bits [simp]:
  "byte b div 16 div 16 = 0" "byte b div 16 mod 16 = byte b div 16"
  "byte b div 64 div 4 = 0" "byte b div 64 mod 4 = byte b div 64"
proof -
  have "byte b div 16 < 16" "byte b div 64 < 4" using byte_less [of b] by linarith+
  then show "byte b div 16 div 16 = 0" "byte b div 16 mod 16 = byte b div 16"
    "byte b div 64 div 4 = 0" "byte b div 64 mod 4 = byte b div 64" by (metis div_less, metis mod_less, metis div_less, metis mod_less)
qed

lemma a2b_padding: "a2b 0 0 0 (replicate k (CHR ''='')) = Some []"
  by (induction k) simp_all

lemma a2b_sextets:
  "length (sextets s) mod 4 = 0 \<longrightarrow> a2b 0 0 0 (map b64_char (sextets s) @ replicate 4 (CHR ''='')) = Some s"
  "length (sextets s) mod 4 \<noteq> 0 \<longrightarrow>
    a2b 0 0 0 (map b64_char (sextets s) @ replicate (4 - length (sextets s) mod 4) (CHR ''='')) = Some s"
proof (induction s rule: sextets.induct)
  case 1
  { case 1 then show ?case by (simp add: a2b_padding)
  next case 2 then show ?case by simp }
next
  case (2 a)
  { case 1 then show ?case by simp
  next case 2 then show ?case by (simp add: sextet_bounds numeral_2_eq_2 regroup_last del: mult_less_cancel2) }
next
  case (3 a b)
  { case 1 then show ?case by simp
  next case 2 then show ?case by (simp add: sextet_bounds regroup regroup_last del: mult_less_cancel2) }
next
  case (4 a b c xs)
  { case 1 with 4 show ?case by (simp add: a2b_group sextet_bounds regroup del: a2b.simps mult_less_cancel2 replicate.simps)
  next case 2 with 4 show ?case by (simp add: a2b_group sextet_bounds regroup del: a2b.simps mult_less_cancel2) }
qed

lemma b64url_chars: "c \<in> set (b64url s) \<Longrightarrow> c \<noteq> CHR ''.'' \<and> c \<noteq> CHR ''='' \<and> byte c < 128"
  by (auto simp: b64url_sextets dest: sextets_less)

lemma b64url_decode_encode: "b64url_decode (b64url s) = Some s"
proof -
  have "\<not> (\<exists>c \<in> set (b64url s). 128 \<le> byte c)" using b64url_chars by (meson not_le)
  moreover have "a2b 0 0 0 (map b64_char (sextets s) @ replicate (4 - length (sextets s) mod 4) (CHR ''='')) = Some s"
    using a2b_sextets [of s] by (cases "length (sextets s) mod 4 = 0") simp_all
  ultimately show ?thesis by (simp add: b64url_decode_def b64url_sextets)
qed

end
