(* ===== verification/PyFloat.thy ===== *)
theory PyFloat
  imports Prelude "HOL-Library.Log_Nat"
begin

text \<open>
  Python's \<open>float\<close> is IEEE-754 binary64. A finite float is the rational it denotes
  (type \<open>flt\<close>), and \<open>rnd\<close> rounds a rational to the nearest float, ties to even, with
  subnormals: every float operation of the code is \<open>rnd\<close> of the exact operation.
  Overflow to infinity and NaN are outside the model (the magnitudes the code meets are
  far below \<open>2 ^ 1024\<close>); an infinite bound such as \<open>float("inf")\<close> is an
  \<open>option\<close>. The locale \<open>rounding\<close> names the facts about rounding that the
  components use (monotone, odd, exact on a set of values holding 0 and 1); its
  interpretation discharges them for \<open>rnd\<close>.
\<close>

type_synonym flt = rat

section \<open>Rounding to binary64\<close>

text \<open>The binary exponent \<open>\<lfloor>log2 x\<rfloor>\<close> of a positive rational.\<close>

definition ilog2 :: "rat \<Rightarrow> int" where
  "ilog2 x = (let (p, q) = quotient_of x; k = bitlen p - bitlen q in
     if 2 powi k \<le> x then k else k - 1)"

definition round_even :: "rat \<Rightarrow> int" where
  "round_even y = (let f = \<lfloor>y\<rfloor>; d = y - of_int f in
     if d < 1/2 then f else if 1/2 < d then f + 1 else if even f then f else f + 1)"

definition ulp_exp :: "rat \<Rightarrow> int" where
  "ulp_exp x = max (ilog2 x - 52) (- 1074)"

definition rnd :: "rat \<Rightarrow> flt" where
  "rnd x = (if x = 0 then 0 else
     let e = ulp_exp \<bar>x\<bar> in of_int (round_even (x / 2 powi e)) * 2 powi e)"

text \<open>The values that are floats.\<close>

definition representable :: "rat \<Rightarrow> bool" where
  "representable x \<longleftrightarrow> (\<exists>m e. x = of_int m * 2 powi e \<and> \<bar>m\<bar> \<le> 2 ^ 53 \<and> -1074 \<le> e)"

lemma powi2_pos [simp]: "(0 :: rat) < 2 powi k"
  by simp

lemma powi2_not_neg [simp]: "\<not> (2 :: rat) powi k < 0"
  by (simp add: not_less less_imp_le)

lemma powi2_mono: "i \<le> j \<Longrightarrow> (2 :: rat) powi i \<le> 2 powi j"
  by (rule power_int_increasing) auto

lemma powi2_le_iff [simp]: "(2 :: rat) powi i \<le> 2 powi j \<longleftrightarrow> i \<le> j"
  by (meson linorder_not_less one_less_numeral_iff power_int_strict_increasing powi2_mono
      semiring_norm(76))

lemma powi2_less_iff [simp]: "(2 :: rat) powi i < 2 powi j \<longleftrightarrow> i < j"
  by (meson linorder_not_less powi2_le_iff)

lemma powi2_add: "(2 :: rat) powi (i + j) = 2 powi i * 2 powi j"
  by (simp add: power_int_add)

lemma powi2_nat: "0 \<le> k \<Longrightarrow> (2 :: rat) powi k = 2 ^ nat k"
  by (simp add: power_int_def)

lemma powi2_quotient:
  assumes "d \<le> e" shows "of_int m * 2 powi e / 2 powi d = (of_int (m * 2 ^ nat (e - d)) :: rat)"
proof -
  have "(2 :: rat) powi e = 2 powi d * 2 ^ nat (e - d)"
    using assms by (simp flip: powi2_nat powi2_add)
  then show ?thesis by simp
qed

lemma bitlen_bounds_rat:
  assumes "0 < p" shows "2 powi (bitlen p - 1) \<le> (of_int p :: rat)" "of_int p < (2 powi bitlen p :: rat)"
proof -
  have b: "2 ^ nat (bitlen p - 1) \<le> p \<and> p < 2 ^ nat (bitlen p)"
    by (rule bitlen_bounds) (rule assms)
  have pos: "0 < bitlen p" using assms bitlen_bounds [of p] by (cases "bitlen p = 0") (auto simp: bitlen_def)
  have "(2 ^ nat (bitlen p - 1) :: rat) \<le> of_int p"
    using b by (metis of_int_le_iff of_int_numeral of_int_power)
  with pos show "2 powi (bitlen p - 1) \<le> (of_int p :: rat)" by (simp add: powi2_nat)
  have "(of_int p :: rat) < 2 ^ nat (bitlen p)"
    using b by (metis of_int_less_iff of_int_numeral of_int_power)
  with pos show "of_int p < (2 powi bitlen p :: rat)" by (simp add: powi2_nat)
qed

lemma ilog2_bounds:
  assumes "0 < x" shows "2 powi ilog2 x \<le> x \<and> x < 2 powi (ilog2 x + 1)"
proof -
  obtain p q where pq: "quotient_of x = (p, q)" by force
  have q: "0 < q" using pq by (rule quotient_of_denom_pos)
  have x: "x = of_int p / of_int q" using pq by (rule quotient_of_div)
  have p: "0 < p" using assms x q by (simp add: zero_less_divide_iff)
  let ?k = "bitlen p - bitlen q"
  note bp = bitlen_bounds_rat [OF p] and bq = bitlen_bounds_rat [OF q]
  have q': "(0 :: rat) < of_int q" using q by simp
  have "2 powi (?k - 1) * of_int q \<le> (2 powi (?k - 1) * 2 powi bitlen q :: rat)"
    using bq(2) by simp
  also have "\<dots> = 2 powi (bitlen p - 1)" by (simp flip: powi2_add)
  also have "\<dots> \<le> of_int p" by (rule bp(1))
  finally have lo: "2 powi (?k - 1) \<le> x" using q' by (simp add: x field_simps)
  have "of_int p < (2 powi bitlen p :: rat)" by (rule bp(2))
  also have "\<dots> = 2 powi (?k + 1) * 2 powi (bitlen q - 1)" by (simp flip: powi2_add)
  also have "\<dots> \<le> 2 powi (?k + 1) * of_int q" using bq(1) by simp
  finally have hi: "x < 2 powi (?k + 1)" using q' by (simp add: x field_simps)
  show ?thesis using lo hi by (auto simp: ilog2_def pq Let_def)
qed

lemma ilog2_unique:
  assumes "0 < x" "2 powi k \<le> x" "x < 2 powi (k + 1)" shows "ilog2 x = k"
proof -
  note b = ilog2_bounds [OF assms(1)]
  from b assms have "2 powi k < (2 powi (ilog2 x + 1) :: rat)" by linarith
  moreover from b assms have "2 powi ilog2 x < (2 powi (k + 1) :: rat)" by linarith
  ultimately show ?thesis by simp
qed

lemma ilog2_mono: assumes "0 < x" "x \<le> y" shows "ilog2 x \<le> ilog2 y"
proof -
  have "2 powi ilog2 x < (2 powi (ilog2 y + 1) :: rat)"
    using ilog2_bounds [OF assms(1)] ilog2_bounds [of y] assms by linarith
  then show ?thesis by simp
qed

lemma ulp_exp_mono: "0 < x \<Longrightarrow> x \<le> y \<Longrightarrow> ulp_exp x \<le> ulp_exp y"
  using ilog2_mono [of x y] by (auto simp: ulp_exp_def)

lemma ulp_exp_upper: assumes "0 < x" shows "x < 2 powi (ulp_exp x + 53)"
proof -
  have "x < 2 powi (ilog2 x + 1)" using ilog2_bounds [OF assms] by simp
  also have "\<dots> \<le> 2 powi (ulp_exp x + 53)" by (simp add: ulp_exp_def)
  finally show ?thesis .
qed

lemma ulp_exp_lower:
  assumes "0 < x" "-1074 < ulp_exp x" shows "2 powi (ulp_exp x + 52) \<le> x"
  using ilog2_bounds [OF assms(1)] assms(2) by (simp add: ulp_exp_def max_def split: if_splits)

subsection \<open>Rounding to the nearest integer\<close>

lemma round_even_of_int [simp]: "round_even (of_int n) = n"
  by (simp add: round_even_def Let_def)

lemma round_even_bounds: "\<lfloor>y\<rfloor> \<le> round_even y \<and> round_even y \<le> \<lfloor>y\<rfloor> + 1"
  by (simp add: round_even_def Let_def)

lemma round_even_mono: assumes "x \<le> y" shows "round_even x \<le> round_even y"
proof (cases "\<lfloor>x\<rfloor> = \<lfloor>y\<rfloor>")
  case True
  with assms show ?thesis by (auto simp: round_even_def Let_def)
next
  case False
  with assms have "\<lfloor>x\<rfloor> + 1 \<le> \<lfloor>y\<rfloor>" using floor_mono [OF assms] by linarith
  then show ?thesis using round_even_bounds [of x] round_even_bounds [of y] by linarith
qed

lemma round_even_error: "\<bar>of_int (round_even y) - y\<bar> \<le> 1/2"
proof -
  define f where "f = (of_int \<lfloor>y\<rfloor> :: rat)"
  have "f \<le> y" "y < f + 1" unfolding f_def by linarith+
  then show ?thesis by (auto simp: round_even_def Let_def abs_if simp flip: f_def)
qed

lemma round_even_minus: "round_even (- y) = - round_even y"
proof (cases "y = of_int \<lfloor>y\<rfloor>")
  case True
  then obtain n where "y = of_int n" by blast
  then show ?thesis by (metis of_int_minus round_even_of_int)
next
  case False
  then have "\<lfloor>- y\<rfloor> = - \<lfloor>y\<rfloor> - 1"
    by (simp add: floor_minus ceiling_altdef)
  then show ?thesis by (auto simp: round_even_def Let_def)
qed

subsection \<open>The laws of rounding\<close>

lemma rnd_0 [simp]: "rnd 0 = 0"
  by (simp add: rnd_def)

lemma rnd_minus: "rnd (- x) = - rnd x"
  by (simp add: rnd_def Let_def round_even_minus)

lemma rnd_pos_eq: "0 < x \<Longrightarrow> rnd x = of_int (round_even (x / 2 powi ulp_exp x)) * 2 powi ulp_exp x"
  by (simp add: rnd_def Let_def)

lemma rnd_pos_mono: assumes "0 < x" "x \<le> y" shows "rnd x \<le> rnd y"
proof -
  let ?e = "ulp_exp x" and ?d = "ulp_exp y"
  have y: "0 < y" using assms by simp
  have ed: "?e \<le> ?d" using assms by (rule ulp_exp_mono)
  show ?thesis
  proof (cases "?e = ?d")
    case True
    have "round_even (x / 2 powi ?e) \<le> round_even (y / 2 powi ?e)"
      by (rule round_even_mono) (simp add: assms divide_right_mono)
    with True show ?thesis by (simp add: rnd_pos_eq assms(1) y)
  next
    case False
    with ed have lt: "?e < ?d" by simp
    have "x / 2 powi ?e \<le> of_int (2 ^ 53)"
      using ulp_exp_upper [OF assms(1)] by (simp add: powi2_add field_simps)
    then have "round_even (x / 2 powi ?e) \<le> 2 ^ 53"
      by (metis round_even_mono round_even_of_int)
    then have "(of_int (round_even (x / 2 powi ?e)) :: rat) \<le> 2 ^ 53"
      by (metis of_int_le_iff of_int_numeral of_int_power)
    then have "rnd x \<le> 2 ^ 53 * 2 powi ?e"
      by (simp add: rnd_pos_eq assms(1))
    also have "\<dots> = 2 powi (?e + 53)" by (simp add: powi2_add)
    also have "\<dots> \<le> 2 powi (?d + 52)" using lt by simp
    finally have *: "rnd x \<le> 2 powi (?d + 52)" .
    have "-1074 < ?d" using lt by (simp add: ulp_exp_def)
    then have "of_int (2 ^ 52) \<le> y / 2 powi ?d"
      using ulp_exp_lower [OF y] by (simp add: powi2_add field_simps)
    then have "2 ^ 52 \<le> round_even (y / 2 powi ?d)"
      by (metis round_even_mono round_even_of_int)
    then have "(2 ^ 52 :: rat) \<le> of_int (round_even (y / 2 powi ?d))"
      by (metis of_int_le_iff of_int_numeral of_int_power)
    then have "2 ^ 52 * 2 powi ?d \<le> rnd y"
      by (simp add: rnd_pos_eq y)
    with * show ?thesis by (simp add: powi2_add)
  qed
qed

lemma rnd_nonneg: "0 \<le> x \<Longrightarrow> 0 \<le> rnd x"
proof (cases "x = 0")
  case False
  assume "0 \<le> x"
  with False have x: "0 < x" by simp
  have "0 \<le> round_even (x / 2 powi ulp_exp x)"
    using round_even_mono [of 0 "x / 2 powi ulp_exp x"] round_even_of_int [of 0] x by simp
  then show ?thesis by (simp add: rnd_pos_eq x)
qed simp

lemma rnd_monotone: assumes "x \<le> y" shows "rnd x \<le> rnd y"
proof -
  consider "0 < x" | "x \<le> 0" "0 \<le> y" | "y < 0" by linarith
  then show ?thesis
  proof cases
    case 1 then show ?thesis using assms by (rule rnd_pos_mono)
  next
    case 2 then show ?thesis
      using rnd_nonneg [of y] rnd_nonneg [of "- x"] by (simp add: rnd_minus)
  next
    case 3 then show ?thesis
      using rnd_pos_mono [of "- y" "- x"] assms by (simp add: rnd_minus)
  qed
qed

lemma rnd_exact_pos: assumes "0 < x" "representable x" shows "rnd x = x"
proof -
  obtain m e where x: "x = of_int m * 2 powi e" and m: "\<bar>m\<bar> \<le> 2 ^ 53" and e: "-1074 \<le> e"
    using assms(2) by (auto simp: representable_def)
  let ?d = "ulp_exp x"
  have mpos: "0 < m" using assms(1) unfolding x by (simp add: zero_less_mult_iff)
  have "\<exists>n. x / 2 powi ?d = of_int n"
  proof (cases "?d \<le> e")
    case True
    then have "x / 2 powi ?d = of_int (m * 2 ^ nat (e - ?d))"
      unfolding x by (rule powi2_quotient)
    then show ?thesis by blast
  next
    case False
    then have d: "-1074 < ?d" using e by linarith
    have "of_int m \<le> (2 ^ 53 :: rat)"
      using m mpos by (metis abs_of_pos of_int_le_iff of_int_numeral of_int_power)
    then have "x \<le> 2 ^ 53 * 2 powi e" by (simp add: x)
    also have "\<dots> = 2 powi (e + 53)" by (simp add: powi2_add)
    also have "\<dots> \<le> 2 powi (?d + 52)" using False by simp
    finally have "x = 2 powi (?d + 52)" using ulp_exp_lower [OF assms(1) d] by simp
    then have "x / 2 powi ?d = 2 powi (?d + 52) / 2 powi ?d" by simp
    then have "x / 2 powi ?d = of_int (2 ^ 52)" by (simp add: powi2_add)
    then show ?thesis by blast
  qed
  then obtain n where n: "x / 2 powi ?d = of_int n" by blast
  then have "x = of_int n * 2 powi ?d" by (simp add: divide_eq_eq)
  with n show ?thesis by (simp add: rnd_pos_eq assms(1))
qed

lemma representable_minus: "representable x \<Longrightarrow> representable (- x)"
proof -
  assume "representable x"
  then obtain m e where "x = of_int m * 2 powi e" "\<bar>m\<bar> \<le> 2 ^ 53" "-1074 \<le> e"
    by (auto simp: representable_def)
  then have "- x = of_int (- m) * 2 powi e \<and> \<bar>- m\<bar> \<le> 2 ^ 53 \<and> -1074 \<le> e" by simp
  then show ?thesis unfolding representable_def by blast
qed

lemma rnd_exact: assumes "representable x" shows "rnd x = x"
proof -
  consider "0 < x" | "x = 0" | "0 < - x" by linarith
  then show ?thesis
  proof cases
    case 1 then show ?thesis using assms by (rule rnd_exact_pos)
  next
    case 2 then show ?thesis by simp
  next
    case 3
    then have "rnd (- x) = - x" using assms by (simp add: rnd_exact_pos representable_minus)
    then show ?thesis by (simp add: rnd_minus)
  qed
qed

lemma representable_of_int: "\<bar>n\<bar> \<le> 2 ^ 53 \<Longrightarrow> representable (of_int n)"
  unfolding representable_def by (rule exI [of _ n], rule exI [of _ 0]) simp

lemma representable_dyadic: "\<bar>n\<bar> \<le> 2 ^ 53 \<Longrightarrow> k \<le> 1074 \<Longrightarrow> representable (of_int n / 2 ^ k)"
  unfolding representable_def
  by (rule exI [of _ n], rule exI [of _ "- int k"]) (simp add: power_int_minus field_simps)

lemma rnd_idem: "rnd (rnd x) = rnd x"
proof -
  have *: "representable (rnd y)" if y: "0 < y" for y
  proof -
    let ?e = "ulp_exp y"
    have "y / 2 powi ?e \<le> of_int (2 ^ 53)"
      using ulp_exp_upper [OF y] by (simp add: powi2_add field_simps)
    then have "round_even (y / 2 powi ?e) \<le> 2 ^ 53"
      by (metis round_even_mono round_even_of_int)
    moreover have "0 \<le> round_even (y / 2 powi ?e)"
      using round_even_mono [of 0 "y / 2 powi ?e"] round_even_of_int [of 0] y by simp
    ultimately show ?thesis
      unfolding representable_def rnd_pos_eq [OF y]
      by (intro exI [of _ "round_even (y / 2 powi ?e)"] exI [of _ ?e]) (simp add: ulp_exp_def)
  qed
  consider "0 < x" | "x = 0" | "0 < - x" by linarith
  then show ?thesis
  proof cases
    case 1 then show ?thesis using * by (simp add: rnd_exact)
  next
    case 2 then show ?thesis by simp
  next
    case 3 then have "rnd (rnd (- x)) = rnd (- x)" using * by (simp add: rnd_exact)
    then show ?thesis by (simp add: rnd_minus)
  qed
qed

text \<open>In the normal range the relative error is at most \<open>2 ^ -53\<close>.\<close>

lemma rnd_error: assumes "2 powi (-1022) \<le> x" shows "\<bar>rnd x - x\<bar> \<le> x / 2 ^ 53"
proof -
  have x: "0 < x" using assms by (meson less_le_trans powi2_pos)
  let ?e = "ulp_exp x"
  have "-1022 \<le> ilog2 x"
    using ilog2_bounds [OF x] assms by (metis le_less_trans powi2_less_iff zle_add1_eq_le)
  then have e: "?e = ilog2 x - 52" by (simp add: ulp_exp_def)
  have "\<bar>rnd x - x\<bar> = \<bar>of_int (round_even (x / 2 powi ?e)) - x / 2 powi ?e\<bar> * 2 powi ?e"
  proof -
    have "rnd x - x = (of_int (round_even (x / 2 powi ?e)) - x / 2 powi ?e) * 2 powi ?e"
      by (simp add: rnd_pos_eq x left_diff_distrib)
    then show ?thesis by (simp add: abs_mult)
  qed
  also have "\<dots> \<le> 1/2 * 2 powi ?e"
    by (rule mult_right_mono [OF round_even_error]) simp
  also have "\<dots> = 2 powi ilog2 x / 2 ^ 53" by (simp add: e power_int_diff)
  also have "\<dots> \<le> x / 2 ^ 53" using ilog2_bounds [OF x] by (simp add: divide_right_mono)
  finally show ?thesis .
qed

section \<open>The interface the components use\<close>

locale rounding =
  fixes r :: "rat \<Rightarrow> rat" and exact :: "rat \<Rightarrow> bool"
  assumes mono: "x \<le> y \<Longrightarrow> r x \<le> r y"
    and odd: "r (- x) = - r x"
    and r_exact: "exact x \<Longrightarrow> r x = x"
    and exact_int: "\<bar>n\<bar> \<le> 2 ^ 53 \<Longrightarrow> exact (of_int n)"
    and idem: "r (r x) = r x"
begin

lemma r_0: "r 0 = 0"
  using r_exact [OF exact_int [of 0]] by simp

lemma r_1: "r 1 = 1"
  using r_exact [OF exact_int [of 1]] by simp

lemma ge_exact: "exact c \<Longrightarrow> c \<le> x \<Longrightarrow> c \<le> r x"
  using mono [of c x] by (simp add: r_exact)

lemma le_exact: "exact c \<Longrightarrow> x \<le> c \<Longrightarrow> r x \<le> c"
  using mono [of x c] by (simp add: r_exact)

lemma ge_rounded: "r c = c \<Longrightarrow> c \<le> x \<Longrightarrow> c \<le> r x"
  using mono [of c x] by simp

lemma le_rounded: "r c = c \<Longrightarrow> x \<le> c \<Longrightarrow> r x \<le> c"
  using mono [of x c] by simp

lemma nonneg: "0 \<le> x \<Longrightarrow> 0 \<le> r x"
  using mono [of 0 x] by (simp add: r_0)

lemma nonpos: "x \<le> 0 \<Longrightarrow> r x \<le> 0"
  using mono [of x 0] by (simp add: r_0)

lemma le_1: "x \<le> 1 \<Longrightarrow> r x \<le> 1"
  using mono [of x 1] by (simp add: r_1)

lemma ge_1: "1 \<le> x \<Longrightarrow> 1 \<le> r x"
  using mono [of 1 x] by (simp add: r_1)

lemma unit_interval: "0 \<le> x \<Longrightarrow> x \<le> 1 \<Longrightarrow> 0 \<le> r x \<and> r x \<le> 1"
  by (simp add: nonneg le_1)

text \<open>A product with a factor in the unit interval does not exceed the other factor.\<close>

lemma mult_unit_le:
  assumes "r y = y" "0 \<le> y" "x \<le> 1" shows "r (x * y) \<le> y"
proof -
  have "x * y \<le> 1 * y" by (rule mult_right_mono) (use assms in auto)
  then have "r (x * y) \<le> r y" by (simp add: mono)
  with assms(1) show ?thesis by simp
qed

text \<open>Adding a nonnegative amount, rounded, does not go below a float.\<close>

lemma add_ge: "r x = x \<Longrightarrow> 0 \<le> y \<Longrightarrow> x \<le> r (x + y)"
  using mono [of x "x + y"] by simp

lemma sub_nonneg: "y \<le> x \<Longrightarrow> 0 \<le> r (x - y)"
  by (simp add: nonneg)

lemma sub_le: "r x = x \<Longrightarrow> 0 \<le> y \<Longrightarrow> r (x - y) \<le> x"
  using mono [of "x - y" x] by simp

end

interpretation fl: rounding rnd representable
  by unfold_locales (simp_all add: rnd_monotone rnd_minus rnd_exact representable_of_int rnd_idem)

section \<open>Operations on floats\<close>

text \<open>A decimal literal of the source denotes the nearest float.\<close>

abbreviation (input) lit :: "rat \<Rightarrow> flt" where
  "lit q \<equiv> rnd q"

text \<open>\<open>int / int\<close> is correctly rounded; \<open>int(x)\<close> truncates towards zero.\<close>

definition int_div :: "int \<Rightarrow> int \<Rightarrow> flt" where
  "int_div a b = rnd (of_int a / of_int b)"

definition to_int :: "flt \<Rightarrow> int" where
  "to_int x = (if 0 \<le> x then \<lfloor>x\<rfloor> else \<lceil>x\<rceil>)"

text \<open>\<open>round(x, n)\<close> with \<open>n\<close> digits: the nearest decimal, ties to even, as a float;
  \<open>round(x)\<close> gives an int.\<close>

definition py_round :: "flt \<Rightarrow> nat \<Rightarrow> flt" where
  "py_round x n = rnd (of_int (round_even (x * 10 ^ n)) / 10 ^ n)"

lemma to_int_mono: "x \<le> y \<Longrightarrow> to_int x \<le> to_int y"
  by (auto simp: to_int_def floor_mono ceiling_mono intro: order_trans [of _ 0])

lemma to_int_nonneg: "0 \<le> x \<Longrightarrow> 0 \<le> to_int x"
  by (simp add: to_int_def)

lemma to_int_le: "0 \<le> x \<Longrightarrow> of_int (to_int x) \<le> x"
  by (simp add: to_int_def)

lemma to_int_0 [simp]: "to_int 0 = 0"
  by (simp add: to_int_def)

lemma to_int_of_int [simp]: "to_int (of_int n) = n"
  by (simp add: to_int_def)

lemma int_div_mono: "a \<le> b \<Longrightarrow> 0 < c \<Longrightarrow> int_div a c \<le> int_div b c"
  by (simp add: int_div_def fl.mono divide_right_mono)

lemma int_div_nonneg: "0 \<le> a \<Longrightarrow> 0 \<le> b \<Longrightarrow> 0 \<le> int_div a b"
  by (simp add: int_div_def fl.nonneg)

end
