(* ===== verification/Json.thy ===== *)
theory Json
  imports Prelude PyFloat
begin

text \<open>
  The JSON values that the exchange's messages and traces carry, as Python's \<open>json\<close>
  module delivers them: \<open>null\<close>, booleans, ints, floats, text, lists and dicts with text
  keys in their order. \<open>obj_get\<close> is \<open>d.get(k)\<close> on a dict, \<open>truthy\<close> is Python's
  truth value.
\<close>

datatype json =
    JNull
  | JBool bool
  | JInt int
  | JFloat rat
  | JStr string
  | JList "json list"
  | JObj "(string \<times> json) list"

type_synonym trace = "(string, json) dict"

fun truthy :: "json \<Rightarrow> bool" where
  "truthy JNull = False"
| "truthy (JBool b) = b"
| "truthy (JInt n) = (n \<noteq> 0)"
| "truthy (JFloat x) = (x \<noteq> 0)"
| "truthy (JStr s) = (s \<noteq> [])"
| "truthy (JList xs) = (xs \<noteq> [])"
| "truthy (JObj d) = (d \<noteq> [])"

fun obj_get :: "json \<Rightarrow> string \<Rightarrow> json option" where
  "obj_get (JObj d) k = map_of d k"
| "obj_get _ k = None"

lemma obj_get_set [dict_simps, simp]:
  "obj_get (JObj (dict_set k v d)) k' = (if k' = k then Some v else obj_get (JObj d) k')"
  by simp

text \<open>An optional value as a JSON value, \<open>None\<close> as \<open>null\<close>.\<close>

definition j_opt :: "('a \<Rightarrow> json) \<Rightarrow> 'a option \<Rightarrow> json" where
  "j_opt f x = (case x of None \<Rightarrow> JNull | Some y \<Rightarrow> f y)"

end
