(* ===== verification/StoreSchema.thy ===== *)
theory StoreSchema
  imports Json
begin

text \<open>
  The SQLite schema of \<open>coordinator/store.py\<close>: one record per table with the columns that
  \<open>SCHEMA\<close> and the migrations declare, the database as a record of row lists in rowid
  order, the inserts and deletes with the constraints SQLite checks (primary keys, UNIQUE
  indexes, foreign keys), and the two transaction wrappers. A statement that violates a
  constraint raises \<open>IntegrityError\<close>; a transaction that raises leaves the database as it
  was. \<open>db_ok\<close> is what the constraints promise of every state; since the inserts and deletes here check what
  SQLite checks, that it is kept says that no operation of the model gets around them, not that the code
  avoids violations.
\<close>

section \<open>Constants\<close>

definition MICRO_PER_DOLLAR :: int where "MICRO_PER_DOLLAR = 1000000"
definition MIN_CHARGE_MICRO :: int where "MIN_CHARGE_MICRO = 100"
definition PLATFORM_FEE_PERCENT :: int where "PLATFORM_FEE_PERCENT = 10"
definition TRACE_RETENTION_SECONDS :: flt where "TRACE_RETENTION_SECONDS = 604800"
definition TRACE_MAX_ROWS :: nat where "TRACE_MAX_ROWS = 10000"

definition KEY_PREFIX :: string where "KEY_PREFIX = ''sk-ie-''"
definition PROVIDER_TOKEN_PREFIX :: string where "PROVIDER_TOKEN_PREFIX = ''pt-ie-''"
definition PROVIDER_ACCT_PREFIX :: string where "PROVIDER_ACCT_PREFIX = ''provider-acct-''"
definition NODE_PREFIX :: string where "NODE_PREFIX = ''node-''"
definition TOKEN_ID_PREFIX :: string where "TOKEN_ID_PREFIX = ''ptok-''"
definition DEFAULT_CONSUMER_ID :: string where "DEFAULT_CONSUMER_ID = ''default-consumer''"

section \<open>Tables\<close>

record account =
  acc_id :: string
  acc_name :: string
  acc_balance :: int
  acc_spent :: int
  acc_earned :: int
  acc_requests :: int
  acc_tokens :: int
  acc_created :: flt

record api_key =
  key_hash :: string
  key_id :: string
  key_consumer :: string
  key_name :: string
  key_created :: flt
  key_last_used :: "flt option"
  key_requests :: int
  key_revoked :: "flt option"

record transaction =
  tx_id :: nat
  tx_request :: string
  tx_consumer :: string
  tx_provider :: string
  tx_connection :: string
  tx_provider_name :: string
  tx_model :: string
  tx_requested_model :: "string option"
  tx_served_model :: "string option"
  tx_input :: int
  tx_output :: int
  tx_cached :: int
  tx_cost :: int
  tx_cost_input :: int
  tx_cost_output :: int
  tx_cost_cache :: int
  tx_earning :: int
  tx_fee :: int
  tx_trust :: string
  tx_encrypted :: int
  tx_preference :: string
  tx_latency :: int
  tx_ttft :: int
  tx_tps :: flt
  tx_queued :: int
  tx_queue_wait :: int
  tx_time :: flt

record provider_history =
  his_id :: nat
  his_provider :: string
  his_account :: "string option"
  his_session :: "string option"
  his_name :: string
  his_hardware :: string
  his_trust :: string
  his_price :: flt
  his_tps :: flt
  his_connected :: flt
  his_disconnected :: "flt option"
  his_served :: int

record provider_token =
  tok_hash :: string
  tok_id :: string
  tok_name :: string
  tok_billing :: "string option"
  tok_node :: "string option"
  tok_source :: string
  tok_created :: flt
  tok_last_used :: "flt option"
  tok_connections :: int
  tok_revoked :: "flt option"

record user =
  usr_id :: string
  usr_email :: string
  usr_password :: string
  usr_name :: string
  usr_role :: string
  usr_created :: flt
  usr_last_login :: "flt option"
  usr_country :: "string option"
  usr_github :: "string option"
  usr_session :: int
  usr_suspended :: "flt option"
  usr_reason :: string

record provider_node =
  node_id :: string
  node_owner :: string
  node_billing :: string
  node_name :: string
  node_created :: flt
  node_profile :: string

record ownership_action =
  own_id :: nat
  own_node :: string
  own_billing :: string
  own_owner :: string
  own_actor :: string
  own_action :: string
  own_reason :: string
  own_time :: flt

record reference_price =
  ref_id :: nat
  ref_source :: string
  ref_model :: string
  ref_display :: string
  ref_family :: string
  ref_family_key :: string
  ref_input :: flt
  ref_output :: flt
  ref_cache :: flt
  ref_context :: int
  ref_fetched :: flt

record account_action =
  act_id :: nat
  act_user :: string
  act_action :: string
  act_reason :: string
  act_until :: "flt option"
  act_actor :: string
  act_time :: flt

text \<open>The \<open>payload\<close> column holds \<open>json.dumps(trace)\<close>; the row keeps the trace itself.\<close>

record outcome =
  out_request :: string
  out_consumer :: "string option"
  out_time :: flt
  out_status :: string
  out_payload :: trace
  out_provider_country :: "string option"
  out_caller_country :: "string option"

text \<open>The database. \<open>AUTOINCREMENT\<close> never reuses an id: the largest one handed out is kept.\<close>

record db =
  db_outcomes :: "outcome list"
  db_accounts :: "account list"
  db_keys :: "api_key list"
  db_txs :: "transaction list"
  db_history :: "provider_history list"
  db_tokens :: "provider_token list"
  db_users :: "user list"
  db_nodes :: "provider_node list"
  db_owns :: "ownership_action list"
  db_refs :: "reference_price list"
  db_acts :: "account_action list"
  seq_tx :: nat
  seq_history :: nat
  seq_own :: nat
  seq_ref :: nat
  seq_act :: nat

definition empty_db :: db where
  "empty_db = \<lparr>db_outcomes = [], db_accounts = [], db_keys = [], db_txs = [], db_history = [],
     db_tokens = [], db_users = [], db_nodes = [], db_owns = [], db_refs = [], db_acts = [],
     seq_tx = 0, seq_history = 0, seq_own = 0, seq_ref = 0, seq_act = 0\<rparr>"

section \<open>Errors and transactions\<close>

datatype store_error =
    IntegrityError
  | ValueError string
  | ProviderOwnershipError string nat
  | ProviderNodesExist
  | KeyError string

definition bindE :: "'e + 'a \<Rightarrow> ('a \<Rightarrow> 'e + 'b) \<Rightarrow> 'e + 'b" where
  "bindE m f = (case m of Inl e \<Rightarrow> Inl e | Inr x \<Rightarrow> f x)"

lemma bindE_simps [simp]:
  "bindE (Inl e) f = Inl e" "bindE (Inr x) f = f x"
  by (simp_all add: bindE_def)

lemma bindE_Inr_iff: "bindE m f = Inr y \<longleftrightarrow> (\<exists>x. m = Inr x \<and> f x = Inr y)"
  by (cases m) auto

lemma bindE_InrE:
  assumes "bindE m f = Inr y" obtains x where "m = Inr x" "f x = Inr y"
  using assms by (auto simp: bindE_Inr_iff)

text \<open>\<open>on_ok P m\<close>: whatever \<open>m\<close> returns without raising satisfies \<open>P\<close>. The rules follow the
  control flow of a method body.\<close>

definition on_ok :: "('b \<Rightarrow> bool) \<Rightarrow> 'e + 'b \<Rightarrow> bool" where
  "on_ok P m = (case m of Inl e \<Rightarrow> True | Inr y \<Rightarrow> P y)"

lemma on_ok_simps [simp]: "on_ok P (Inl e)" "on_ok P (Inr y) = P y"
  by (simp_all add: on_ok_def)

lemma on_okI: "(\<And>y. m = Inr y \<Longrightarrow> P y) \<Longrightarrow> on_ok P m"
  by (simp add: on_ok_def split: sum.split)

lemma on_okD: "on_ok P m \<Longrightarrow> m = Inr y \<Longrightarrow> P y"
  by simp

lemma on_ok_bind: "(\<And>x. m = Inr x \<Longrightarrow> on_ok P (f x)) \<Longrightarrow> on_ok P (bindE m f)"
  by (cases m) simp_all

lemma on_ok_if: "(c \<Longrightarrow> on_ok P a) \<Longrightarrow> (\<not> c \<Longrightarrow> on_ok P b) \<Longrightarrow> on_ok P (if c then a else b)"
  by simp

lemma on_ok_option:
  "(x = None \<Longrightarrow> on_ok P a) \<Longrightarrow> (\<And>y. x = Some y \<Longrightarrow> on_ok P (f y)) \<Longrightarrow>
   on_ok P (case x of None \<Rightarrow> a | Some y \<Rightarrow> f y)"
  by (simp split: option.split)

lemmas on_ok_intros = on_ok_bind on_ok_if on_ok_option on_ok_simps(1)

type_synonym 'a body = "db \<Rightarrow> store_error + ('a \<times> db)"

text \<open>\<open>serialized_write\<close>: the whole method under the lock, committed once after success,
  rolled back when it raises. \<open>ownership_write\<close> is the same contract on a connection of
  its own with \<open>BEGIN IMMEDIATE\<close>.\<close>

definition serialized_write :: "'a body \<Rightarrow> db \<Rightarrow> (store_error + 'a) \<times> db" where
  "serialized_write method db = (case method db of
     Inl e \<Rightarrow> (Inl e, db) | Inr (x, db') \<Rightarrow> (Inr x, db'))"

definition ownership_write :: "'a body \<Rightarrow> db \<Rightarrow> (store_error + 'a) \<times> db" where
  "ownership_write method db = (case method db of
     Inr (x, db') \<Rightarrow> (Inr x, db') | Inl e \<Rightarrow> (Inl e, db))"

locale transactional =
  fixes run :: "'a body \<Rightarrow> db \<Rightarrow> (store_error + 'a) \<times> db"
  assumes rollback: "m db = Inl e \<Longrightarrow> run m db = (Inl e, db)"
    and commit: "m db = Inr (x, db') \<Longrightarrow> run m db = (Inr x, db')"
begin

lemma run_cases:
  "(\<exists>e. m db = Inl e \<and> run m db = (Inl e, db)) \<or> (\<exists>x db'. m db = Inr (x, db') \<and> run m db = (Inr x, db'))"
  by (cases "m db") (auto simp: rollback commit)

lemma run_error: "fst (run m db) = Inl e \<Longrightarrow> snd (run m db) = db \<and> m db = Inl e"
  using run_cases [of m db] by auto

lemma run_ok: "fst (run m db) = Inr x \<Longrightarrow> m db = Inr (x, snd (run m db))"
  using run_cases [of m db] by auto

text \<open>What a method keeps when it succeeds, the transaction keeps always.\<close>

lemma run_preserves:
  assumes "I db" "\<And>x db'. m db = Inr (x, db') \<Longrightarrow> I db'"
  shows "I (snd (run m db))"
  using run_cases [of m db] assms by auto

lemma run_keeps: "I db \<Longrightarrow> on_ok (\<lambda>(x, db'). I db') (m db) \<Longrightarrow> I (snd (run m db))"
  using run_cases [of m db] by auto

lemma run_relates:
  assumes "R db db" "\<And>x db'. m db = Inr (x, db') \<Longrightarrow> R db db'"
  shows "R db (snd (run m db))"
  using run_cases [of m db] assms by auto

end

interpretation sw: transactional serialized_write
  by unfold_locales (simp_all add: serialized_write_def)

interpretation ow: transactional ownership_write
  by unfold_locales (simp_all add: ownership_write_def)

lemma serialized_write_eq: "serialized_write m db = (Inl e, db') \<Longrightarrow> db' = db"
  using sw.run_error [of m db e] by simp

section \<open>Constrained statements\<close>

text \<open>\<open>INSERT\<close> into each table. The key of a self-service token has a partial UNIQUE index;
  NULLs never clash in a UNIQUE index.\<close>

definition ins_account :: "account \<Rightarrow> db \<Rightarrow> store_error + db" where
  "ins_account r db = (if sql_exists (\<lambda>a. acc_id a = acc_id r) (db_accounts db) then Inl IntegrityError
     else Inr (db\<lparr>db_accounts := db_accounts db @ [r]\<rparr>))"

text \<open>\<open>INSERT OR IGNORE INTO accounts\<close>.\<close>

definition ins_account_or_ignore :: "account \<Rightarrow> db \<Rightarrow> db" where
  "ins_account_or_ignore r db = (if sql_exists (\<lambda>a. acc_id a = acc_id r) (db_accounts db) then db
     else db\<lparr>db_accounts := db_accounts db @ [r]\<rparr>)"

definition ins_key :: "api_key \<Rightarrow> db \<Rightarrow> store_error + db" where
  "ins_key r db = (if sql_exists (\<lambda>k. key_hash k = key_hash r) (db_keys db)
       \<or> \<not> sql_exists (\<lambda>a. acc_id a = key_consumer r) (db_accounts db) then Inl IntegrityError
     else Inr (db\<lparr>db_keys := db_keys db @ [r]\<rparr>))"

definition ins_tx :: "transaction \<Rightarrow> db \<Rightarrow> db" where
  "ins_tx r db = db\<lparr>db_txs := db_txs db @ [r\<lparr>tx_id := Suc (seq_tx db)\<rparr>], seq_tx := Suc (seq_tx db)\<rparr>"

definition ins_history :: "provider_history \<Rightarrow> db \<Rightarrow> db" where
  "ins_history r db = db\<lparr>db_history := db_history db @ [r\<lparr>his_id := Suc (seq_history db)\<rparr>],
     seq_history := Suc (seq_history db)\<rparr>"

definition ins_token :: "provider_token \<Rightarrow> db \<Rightarrow> store_error + db" where
  "ins_token r db = (if sql_exists (\<lambda>t. tok_hash t = tok_hash r) (db_tokens db)
       \<or> tok_billing r \<noteq> None \<and> sql_exists (\<lambda>t. tok_billing t = tok_billing r) (db_tokens db)
       \<or> tok_source r = ''self_service'' \<and>
           sql_exists (\<lambda>t. tok_source t = ''self_service'' \<and> tok_id t = tok_id r) (db_tokens db)
       \<or> (case tok_node r of None \<Rightarrow> False
          | Some n \<Rightarrow> \<not> sql_exists (\<lambda>x. node_id x = n) (db_nodes db)) then Inl IntegrityError
     else Inr (db\<lparr>db_tokens := db_tokens db @ [r]\<rparr>))"

definition ins_user :: "user \<Rightarrow> db \<Rightarrow> store_error + db" where
  "ins_user r db = (if sql_exists (\<lambda>u. usr_id u = usr_id r) (db_users db)
       \<or> sql_exists (\<lambda>u. usr_email u = usr_email r) (db_users db)
       \<or> usr_github r \<noteq> None \<and> sql_exists (\<lambda>u. usr_github u = usr_github r) (db_users db)
     then Inl IntegrityError
     else Inr (db\<lparr>db_users := db_users db @ [r]\<rparr>))"

definition ins_node :: "provider_node \<Rightarrow> db \<Rightarrow> store_error + db" where
  "ins_node r db = (if sql_exists (\<lambda>n. node_id n = node_id r) (db_nodes db)
       \<or> sql_exists (\<lambda>n. node_billing n = node_billing r) (db_nodes db)
       \<or> \<not> sql_exists (\<lambda>u. usr_id u = node_owner r) (db_users db) then Inl IntegrityError
     else Inr (db\<lparr>db_nodes := db_nodes db @ [r]\<rparr>))"

definition ins_own :: "ownership_action \<Rightarrow> db \<Rightarrow> store_error + db" where
  "ins_own r db = (if \<not> sql_exists (\<lambda>n. node_id n = own_node r) (db_nodes db) then Inl IntegrityError
     else Inr (db\<lparr>db_owns := db_owns db @ [r\<lparr>own_id := Suc (seq_own db)\<rparr>],
       seq_own := Suc (seq_own db)\<rparr>))"

definition ins_ref :: "reference_price \<Rightarrow> db \<Rightarrow> db" where
  "ins_ref r db = db\<lparr>db_refs := db_refs db @ [r\<lparr>ref_id := Suc (seq_ref db)\<rparr>], seq_ref := Suc (seq_ref db)\<rparr>"

definition ins_act :: "account_action \<Rightarrow> db \<Rightarrow> db" where
  "ins_act r db = db\<lparr>db_acts := db_acts db @ [r\<lparr>act_id := Suc (seq_act db)\<rparr>], seq_act := Suc (seq_act db)\<rparr>"

text \<open>\<open>INSERT INTO request_outcomes ... ON CONFLICT(request_id) DO NOTHING\<close>.\<close>

definition ins_outcome :: "outcome \<Rightarrow> db \<Rightarrow> db" where
  "ins_outcome r db = (if sql_exists (\<lambda>x. out_request x = out_request r) (db_outcomes db) then db
     else db\<lparr>db_outcomes := db_outcomes db @ [r]\<rparr>)"

text \<open>Deletes that a foreign key can refuse.\<close>

definition del_user :: "string \<Rightarrow> db \<Rightarrow> store_error + db" where
  "del_user u db = (if sql_exists (\<lambda>n. node_owner n = u) (db_nodes db)
       \<and> sql_exists (\<lambda>x. usr_id x = u) (db_users db) then Inl IntegrityError
     else Inr (db\<lparr>db_users := sql_delete (\<lambda>x. usr_id x = u) (db_users db)\<rparr>))"

definition del_account :: "string \<Rightarrow> db \<Rightarrow> store_error + db" where
  "del_account a db = (if sql_exists (\<lambda>k. key_consumer k = a) (db_keys db)
       \<and> sql_exists (\<lambda>x. acc_id x = a) (db_accounts db) then Inl IntegrityError
     else Inr (db\<lparr>db_accounts := sql_delete (\<lambda>x. acc_id x = a) (db_accounts db)\<rparr>))"

section \<open>What the constraints promise\<close>

definition non_null :: "'a option list \<Rightarrow> 'a list" where
  "non_null xs = map the (filter (\<lambda>x. x \<noteq> None) xs)"

lemma set_non_null: "set (non_null xs) = {x. Some x \<in> set xs}"
  by (auto simp: non_null_def image_iff) force

lemma non_null_append [simp]: "non_null (xs @ ys) = non_null xs @ non_null ys"
  by (simp add: non_null_def)

lemma non_null_simps [simp]:
  "non_null [] = []" "non_null (None # xs) = non_null xs" "non_null (Some x # xs) = x # non_null xs"
  by (simp_all add: non_null_def)

definition accounts_ok :: "db \<Rightarrow> bool" where
  "accounts_ok db \<longleftrightarrow> distinct (map acc_id (db_accounts db))"

definition keys_ok :: "db \<Rightarrow> bool" where
  "keys_ok db \<longleftrightarrow> distinct (map key_hash (db_keys db))
     \<and> key_consumer ` set (db_keys db) \<subseteq> acc_id ` set (db_accounts db)"

definition users_ok :: "db \<Rightarrow> bool" where
  "users_ok db \<longleftrightarrow> distinct (map usr_id (db_users db)) \<and> distinct (map usr_email (db_users db))
     \<and> distinct (non_null (map usr_github (db_users db)))"

definition nodes_ok :: "db \<Rightarrow> bool" where
  "nodes_ok db \<longleftrightarrow> distinct (map node_id (db_nodes db)) \<and> distinct (map node_billing (db_nodes db))
     \<and> node_owner ` set (db_nodes db) \<subseteq> usr_id ` set (db_users db)"

definition tokens_ok :: "db \<Rightarrow> bool" where
  "tokens_ok db \<longleftrightarrow> distinct (map tok_hash (db_tokens db))
     \<and> distinct (non_null (map tok_billing (db_tokens db)))
     \<and> distinct (map tok_id (filter (\<lambda>t. tok_source t = ''self_service'') (db_tokens db)))
     \<and> set (non_null (map tok_node (db_tokens db))) \<subseteq> node_id ` set (db_nodes db)"

definition owns_ok :: "db \<Rightarrow> bool" where
  "owns_ok db \<longleftrightarrow> own_node ` set (db_owns db) \<subseteq> node_id ` set (db_nodes db)"

definition txs_ok :: "db \<Rightarrow> bool" where
  "txs_ok db \<longleftrightarrow> sorted_wrt (<) (map tx_id (db_txs db)) \<and> (\<forall>t \<in> set (db_txs db). tx_id t \<le> seq_tx db)"

definition outcomes_ok :: "db \<Rightarrow> bool" where
  "outcomes_ok db \<longleftrightarrow> distinct (map out_request (db_outcomes db))"

definition db_ok :: "db \<Rightarrow> bool" where
  "db_ok db \<longleftrightarrow> accounts_ok db \<and> keys_ok db \<and> users_ok db \<and> nodes_ok db \<and> tokens_ok db
     \<and> owns_ok db \<and> txs_ok db \<and> outcomes_ok db"

lemmas db_ok_defs = db_ok_def accounts_ok_def keys_ok_def users_ok_def nodes_ok_def tokens_ok_def
  owns_ok_def txs_ok_def outcomes_ok_def

lemma empty_db_ok: "db_ok empty_db"
  by (simp add: db_ok_defs empty_db_def)

lemma image_sql_update:
  assumes "\<And>r. p r \<Longrightarrow> g (f r) = g r" shows "g ` set (sql_update p f rows) = g ` set rows"
proof -
  have "map g (sql_update p f rows) = map g rows" by (rule map_sql_update) (rule assms)
  then show ?thesis by (metis list.set_map)
qed

subsection \<open>Each part depends on its tables only\<close>

lemma accounts_ok_frame [simp]:
  "accounts_ok (db\<lparr>db_outcomes := v_db_outcomes\<rparr>) = accounts_ok db"
  "accounts_ok (db\<lparr>db_keys := v_db_keys\<rparr>) = accounts_ok db"
  "accounts_ok (db\<lparr>db_txs := v_db_txs\<rparr>) = accounts_ok db"
  "accounts_ok (db\<lparr>db_history := v_db_history\<rparr>) = accounts_ok db"
  "accounts_ok (db\<lparr>db_tokens := v_db_tokens\<rparr>) = accounts_ok db"
  "accounts_ok (db\<lparr>db_users := v_db_users\<rparr>) = accounts_ok db"
  "accounts_ok (db\<lparr>db_nodes := v_db_nodes\<rparr>) = accounts_ok db"
  "accounts_ok (db\<lparr>db_owns := v_db_owns\<rparr>) = accounts_ok db"
  "accounts_ok (db\<lparr>db_refs := v_db_refs\<rparr>) = accounts_ok db"
  "accounts_ok (db\<lparr>db_acts := v_db_acts\<rparr>) = accounts_ok db"
  "accounts_ok (db\<lparr>seq_tx := v_seq_tx\<rparr>) = accounts_ok db"
  "accounts_ok (db\<lparr>seq_history := v_seq_history\<rparr>) = accounts_ok db"
  "accounts_ok (db\<lparr>seq_own := v_seq_own\<rparr>) = accounts_ok db"
  "accounts_ok (db\<lparr>seq_ref := v_seq_ref\<rparr>) = accounts_ok db"
  "accounts_ok (db\<lparr>seq_act := v_seq_act\<rparr>) = accounts_ok db"
  by (simp_all add: accounts_ok_def)

lemma keys_ok_frame [simp]:
  "keys_ok (db\<lparr>db_outcomes := v_db_outcomes\<rparr>) = keys_ok db"
  "keys_ok (db\<lparr>db_txs := v_db_txs\<rparr>) = keys_ok db"
  "keys_ok (db\<lparr>db_history := v_db_history\<rparr>) = keys_ok db"
  "keys_ok (db\<lparr>db_tokens := v_db_tokens\<rparr>) = keys_ok db"
  "keys_ok (db\<lparr>db_users := v_db_users\<rparr>) = keys_ok db"
  "keys_ok (db\<lparr>db_nodes := v_db_nodes\<rparr>) = keys_ok db"
  "keys_ok (db\<lparr>db_owns := v_db_owns\<rparr>) = keys_ok db"
  "keys_ok (db\<lparr>db_refs := v_db_refs\<rparr>) = keys_ok db"
  "keys_ok (db\<lparr>db_acts := v_db_acts\<rparr>) = keys_ok db"
  "keys_ok (db\<lparr>seq_tx := v_seq_tx\<rparr>) = keys_ok db"
  "keys_ok (db\<lparr>seq_history := v_seq_history\<rparr>) = keys_ok db"
  "keys_ok (db\<lparr>seq_own := v_seq_own\<rparr>) = keys_ok db"
  "keys_ok (db\<lparr>seq_ref := v_seq_ref\<rparr>) = keys_ok db"
  "keys_ok (db\<lparr>seq_act := v_seq_act\<rparr>) = keys_ok db"
  by (simp_all add: keys_ok_def)

lemma users_ok_frame [simp]:
  "users_ok (db\<lparr>db_outcomes := v_db_outcomes\<rparr>) = users_ok db"
  "users_ok (db\<lparr>db_accounts := v_db_accounts\<rparr>) = users_ok db"
  "users_ok (db\<lparr>db_keys := v_db_keys\<rparr>) = users_ok db"
  "users_ok (db\<lparr>db_txs := v_db_txs\<rparr>) = users_ok db"
  "users_ok (db\<lparr>db_history := v_db_history\<rparr>) = users_ok db"
  "users_ok (db\<lparr>db_tokens := v_db_tokens\<rparr>) = users_ok db"
  "users_ok (db\<lparr>db_nodes := v_db_nodes\<rparr>) = users_ok db"
  "users_ok (db\<lparr>db_owns := v_db_owns\<rparr>) = users_ok db"
  "users_ok (db\<lparr>db_refs := v_db_refs\<rparr>) = users_ok db"
  "users_ok (db\<lparr>db_acts := v_db_acts\<rparr>) = users_ok db"
  "users_ok (db\<lparr>seq_tx := v_seq_tx\<rparr>) = users_ok db"
  "users_ok (db\<lparr>seq_history := v_seq_history\<rparr>) = users_ok db"
  "users_ok (db\<lparr>seq_own := v_seq_own\<rparr>) = users_ok db"
  "users_ok (db\<lparr>seq_ref := v_seq_ref\<rparr>) = users_ok db"
  "users_ok (db\<lparr>seq_act := v_seq_act\<rparr>) = users_ok db"
  by (simp_all add: users_ok_def)

lemma nodes_ok_frame [simp]:
  "nodes_ok (db\<lparr>db_outcomes := v_db_outcomes\<rparr>) = nodes_ok db"
  "nodes_ok (db\<lparr>db_accounts := v_db_accounts\<rparr>) = nodes_ok db"
  "nodes_ok (db\<lparr>db_keys := v_db_keys\<rparr>) = nodes_ok db"
  "nodes_ok (db\<lparr>db_txs := v_db_txs\<rparr>) = nodes_ok db"
  "nodes_ok (db\<lparr>db_history := v_db_history\<rparr>) = nodes_ok db"
  "nodes_ok (db\<lparr>db_tokens := v_db_tokens\<rparr>) = nodes_ok db"
  "nodes_ok (db\<lparr>db_owns := v_db_owns\<rparr>) = nodes_ok db"
  "nodes_ok (db\<lparr>db_refs := v_db_refs\<rparr>) = nodes_ok db"
  "nodes_ok (db\<lparr>db_acts := v_db_acts\<rparr>) = nodes_ok db"
  "nodes_ok (db\<lparr>seq_tx := v_seq_tx\<rparr>) = nodes_ok db"
  "nodes_ok (db\<lparr>seq_history := v_seq_history\<rparr>) = nodes_ok db"
  "nodes_ok (db\<lparr>seq_own := v_seq_own\<rparr>) = nodes_ok db"
  "nodes_ok (db\<lparr>seq_ref := v_seq_ref\<rparr>) = nodes_ok db"
  "nodes_ok (db\<lparr>seq_act := v_seq_act\<rparr>) = nodes_ok db"
  by (simp_all add: nodes_ok_def)

lemma tokens_ok_frame [simp]:
  "tokens_ok (db\<lparr>db_outcomes := v_db_outcomes\<rparr>) = tokens_ok db"
  "tokens_ok (db\<lparr>db_accounts := v_db_accounts\<rparr>) = tokens_ok db"
  "tokens_ok (db\<lparr>db_keys := v_db_keys\<rparr>) = tokens_ok db"
  "tokens_ok (db\<lparr>db_txs := v_db_txs\<rparr>) = tokens_ok db"
  "tokens_ok (db\<lparr>db_history := v_db_history\<rparr>) = tokens_ok db"
  "tokens_ok (db\<lparr>db_users := v_db_users\<rparr>) = tokens_ok db"
  "tokens_ok (db\<lparr>db_owns := v_db_owns\<rparr>) = tokens_ok db"
  "tokens_ok (db\<lparr>db_refs := v_db_refs\<rparr>) = tokens_ok db"
  "tokens_ok (db\<lparr>db_acts := v_db_acts\<rparr>) = tokens_ok db"
  "tokens_ok (db\<lparr>seq_tx := v_seq_tx\<rparr>) = tokens_ok db"
  "tokens_ok (db\<lparr>seq_history := v_seq_history\<rparr>) = tokens_ok db"
  "tokens_ok (db\<lparr>seq_own := v_seq_own\<rparr>) = tokens_ok db"
  "tokens_ok (db\<lparr>seq_ref := v_seq_ref\<rparr>) = tokens_ok db"
  "tokens_ok (db\<lparr>seq_act := v_seq_act\<rparr>) = tokens_ok db"
  by (simp_all add: tokens_ok_def)

lemma owns_ok_frame [simp]:
  "owns_ok (db\<lparr>db_outcomes := v_db_outcomes\<rparr>) = owns_ok db"
  "owns_ok (db\<lparr>db_accounts := v_db_accounts\<rparr>) = owns_ok db"
  "owns_ok (db\<lparr>db_keys := v_db_keys\<rparr>) = owns_ok db"
  "owns_ok (db\<lparr>db_txs := v_db_txs\<rparr>) = owns_ok db"
  "owns_ok (db\<lparr>db_history := v_db_history\<rparr>) = owns_ok db"
  "owns_ok (db\<lparr>db_tokens := v_db_tokens\<rparr>) = owns_ok db"
  "owns_ok (db\<lparr>db_users := v_db_users\<rparr>) = owns_ok db"
  "owns_ok (db\<lparr>db_refs := v_db_refs\<rparr>) = owns_ok db"
  "owns_ok (db\<lparr>db_acts := v_db_acts\<rparr>) = owns_ok db"
  "owns_ok (db\<lparr>seq_tx := v_seq_tx\<rparr>) = owns_ok db"
  "owns_ok (db\<lparr>seq_history := v_seq_history\<rparr>) = owns_ok db"
  "owns_ok (db\<lparr>seq_own := v_seq_own\<rparr>) = owns_ok db"
  "owns_ok (db\<lparr>seq_ref := v_seq_ref\<rparr>) = owns_ok db"
  "owns_ok (db\<lparr>seq_act := v_seq_act\<rparr>) = owns_ok db"
  by (simp_all add: owns_ok_def)

lemma txs_ok_frame [simp]:
  "txs_ok (db\<lparr>db_outcomes := v_db_outcomes\<rparr>) = txs_ok db"
  "txs_ok (db\<lparr>db_accounts := v_db_accounts\<rparr>) = txs_ok db"
  "txs_ok (db\<lparr>db_keys := v_db_keys\<rparr>) = txs_ok db"
  "txs_ok (db\<lparr>db_history := v_db_history\<rparr>) = txs_ok db"
  "txs_ok (db\<lparr>db_tokens := v_db_tokens\<rparr>) = txs_ok db"
  "txs_ok (db\<lparr>db_users := v_db_users\<rparr>) = txs_ok db"
  "txs_ok (db\<lparr>db_nodes := v_db_nodes\<rparr>) = txs_ok db"
  "txs_ok (db\<lparr>db_owns := v_db_owns\<rparr>) = txs_ok db"
  "txs_ok (db\<lparr>db_refs := v_db_refs\<rparr>) = txs_ok db"
  "txs_ok (db\<lparr>db_acts := v_db_acts\<rparr>) = txs_ok db"
  "txs_ok (db\<lparr>seq_history := v_seq_history\<rparr>) = txs_ok db"
  "txs_ok (db\<lparr>seq_own := v_seq_own\<rparr>) = txs_ok db"
  "txs_ok (db\<lparr>seq_ref := v_seq_ref\<rparr>) = txs_ok db"
  "txs_ok (db\<lparr>seq_act := v_seq_act\<rparr>) = txs_ok db"
  by (simp_all add: txs_ok_def)

lemma outcomes_ok_frame [simp]:
  "outcomes_ok (db\<lparr>db_accounts := v_db_accounts\<rparr>) = outcomes_ok db"
  "outcomes_ok (db\<lparr>db_keys := v_db_keys\<rparr>) = outcomes_ok db"
  "outcomes_ok (db\<lparr>db_txs := v_db_txs\<rparr>) = outcomes_ok db"
  "outcomes_ok (db\<lparr>db_history := v_db_history\<rparr>) = outcomes_ok db"
  "outcomes_ok (db\<lparr>db_tokens := v_db_tokens\<rparr>) = outcomes_ok db"
  "outcomes_ok (db\<lparr>db_users := v_db_users\<rparr>) = outcomes_ok db"
  "outcomes_ok (db\<lparr>db_nodes := v_db_nodes\<rparr>) = outcomes_ok db"
  "outcomes_ok (db\<lparr>db_owns := v_db_owns\<rparr>) = outcomes_ok db"
  "outcomes_ok (db\<lparr>db_refs := v_db_refs\<rparr>) = outcomes_ok db"
  "outcomes_ok (db\<lparr>db_acts := v_db_acts\<rparr>) = outcomes_ok db"
  "outcomes_ok (db\<lparr>seq_tx := v_seq_tx\<rparr>) = outcomes_ok db"
  "outcomes_ok (db\<lparr>seq_history := v_seq_history\<rparr>) = outcomes_ok db"
  "outcomes_ok (db\<lparr>seq_own := v_seq_own\<rparr>) = outcomes_ok db"
  "outcomes_ok (db\<lparr>seq_ref := v_seq_ref\<rparr>) = outcomes_ok db"
  "outcomes_ok (db\<lparr>seq_act := v_seq_act\<rparr>) = outcomes_ok db"
  by (simp_all add: outcomes_ok_def)

subsection \<open>Statements keep the constraints\<close>

lemma sql_exists_key: "sql_exists (\<lambda>r. g r = v) rows \<longleftrightarrow> v \<in> g ` set rows"
  by (auto simp: sql_exists_iff)

lemma sql_exists_key2:
  "sql_exists (\<lambda>r. q r \<and> g r = v) rows \<longleftrightarrow> v \<in> g ` set (filter q rows)"
  by (auto simp: sql_exists_iff)

lemma non_null_notin: "Some x \<notin> g ` set rows \<Longrightarrow> x \<notin> set (non_null (map g rows))"
  by (auto simp: set_non_null)

lemmas subset_grow = subset_insertI2

lemma ins_account_ok: "ins_account r db = Inr db' \<Longrightarrow> db_ok db \<Longrightarrow> db_ok db'"
  by (clarsimp simp: ins_account_def db_ok_def accounts_ok_def keys_ok_def sql_exists_key subset_grow
      split: if_splits)

lemma ins_account_or_ignore_ok: "db_ok db \<Longrightarrow> db_ok (ins_account_or_ignore r db)"
  by (simp add: ins_account_or_ignore_def db_ok_def accounts_ok_def keys_ok_def sql_exists_key subset_grow)

lemma ins_key_ok: "ins_key r db = Inr db' \<Longrightarrow> db_ok db \<Longrightarrow> db_ok db'"
  by (clarsimp simp: ins_key_def db_ok_def keys_ok_def sql_exists_key split: if_splits)

lemma ins_tx_ok: "db_ok db \<Longrightarrow> db_ok (ins_tx r db)"
  by (auto simp: ins_tx_def db_ok_def txs_ok_def sorted_wrt_append less_Suc_eq_le)

lemma ins_history_ok: "db_ok db \<Longrightarrow> db_ok (ins_history r db)"
  by (simp add: ins_history_def db_ok_def)

lemma ins_ref_ok: "db_ok db \<Longrightarrow> db_ok (ins_ref r db)"
  by (simp add: ins_ref_def db_ok_def)

lemma ins_act_ok: "db_ok db \<Longrightarrow> db_ok (ins_act r db)"
  by (simp add: ins_act_def db_ok_def)

lemma ins_own_ok: "ins_own r db = Inr db' \<Longrightarrow> db_ok db \<Longrightarrow> db_ok db'"
  by (clarsimp simp: ins_own_def db_ok_def owns_ok_def sql_exists_key split: if_splits)

lemma ins_outcome_ok: "db_ok db \<Longrightarrow> db_ok (ins_outcome r db)"
  by (simp add: ins_outcome_def db_ok_def outcomes_ok_def sql_exists_key)

lemma ins_user_ok: "ins_user r db = Inr db' \<Longrightarrow> db_ok db \<Longrightarrow> db_ok db'"
  by (cases "usr_github r"; clarsimp simp: ins_user_def db_ok_def users_ok_def nodes_ok_def sql_exists_key
      subset_grow non_null_notin split: if_splits)

lemma ins_node_ok: "ins_node r db = Inr db' \<Longrightarrow> db_ok db \<Longrightarrow> db_ok db'"
  by (clarsimp simp: ins_node_def db_ok_def nodes_ok_def tokens_ok_def owns_ok_def sql_exists_key
      subset_grow split: if_splits)

lemma ins_token_ok: "ins_token r db = Inr db' \<Longrightarrow> db_ok db \<Longrightarrow> db_ok db'"
  by (cases "tok_node r"; cases "tok_billing r"; clarsimp simp: ins_token_def db_ok_def tokens_ok_def
      sql_exists_key sql_exists_key2 non_null_notin split: if_splits)

text \<open>\<open>UPDATE\<close>s that leave the constrained columns alone.\<close>

lemma upd_accounts_ok:
  assumes "db_ok db" "\<And>r. acc_id (f r) = acc_id r"
  shows "db_ok (db\<lparr>db_accounts := sql_update p f (db_accounts db)\<rparr>)"
  using assms by (simp add: db_ok_def accounts_ok_def keys_ok_def map_sql_update image_sql_update)

lemma upd_keys_ok:
  assumes "db_ok db" "\<And>r. key_hash (f r) = key_hash r" "\<And>r. key_consumer (f r) = key_consumer r"
  shows "db_ok (db\<lparr>db_keys := sql_update p f (db_keys db)\<rparr>)"
  using assms by (simp add: db_ok_def keys_ok_def map_sql_update image_sql_update)

lemma upd_users_ok:
  assumes "db_ok db" "\<And>r. usr_id (f r) = usr_id r" "\<And>r. usr_email (f r) = usr_email r"
    "\<And>r. usr_github (f r) = usr_github r"
  shows "db_ok (db\<lparr>db_users := sql_update p f (db_users db)\<rparr>)"
  using assms by (simp add: db_ok_def users_ok_def nodes_ok_def map_sql_update image_sql_update)

lemma upd_outcomes_ok:
  assumes "db_ok db" "\<And>r. out_request (f r) = out_request r"
  shows "db_ok (db\<lparr>db_outcomes := sql_update p f (db_outcomes db)\<rparr>)"
  using assms by (simp add: db_ok_def outcomes_ok_def map_sql_update)

lemma filter_sql_update:
  "(\<And>r. q (f r) = q r) \<Longrightarrow> filter q (sql_update p f rows) = sql_update p f (filter q rows)"
  by (induction rows) (auto simp: sql_update_def)

text \<open>A token update may link the token to a node that exists.\<close>

lemma upd_tokens_ok:
  assumes "db_ok db" "\<And>r. tok_hash (f r) = tok_hash r" "\<And>r. tok_billing (f r) = tok_billing r"
    "\<And>r. tok_id (f r) = tok_id r" "\<And>r. tok_source (f r) = tok_source r"
    "\<And>r n. tok_node (f r) = Some n \<Longrightarrow> tok_node r = Some n \<or> n \<in> node_id ` set (db_nodes db)"
  shows "db_ok (db\<lparr>db_tokens := sql_update p f (db_tokens db)\<rparr>)"
proof -
  have "tokens_ok db" using assms(1) by (simp add: db_ok_def)
  then have "set (non_null (map tok_node (db_tokens db))) \<subseteq> node_id ` set (db_nodes db)"
    by (simp add: tokens_ok_def)
  then have "n \<in> node_id ` set (db_nodes db)"
    if N: "Some n \<in> set (map tok_node (sql_update p f (db_tokens db)))" for n
  proof -
    obtain t where t: "t \<in> set (db_tokens db)" "Some n = tok_node (if p t then f t else t)"
      using N unfolding set_map set_sql_update by blast
    then have "tok_node t = Some n \<or> n \<in> node_id ` set (db_nodes db)"
      using assms(6) [of t n] by (auto split: if_splits)
    moreover have "tok_node t = Some n \<Longrightarrow> n \<in> set (non_null (map tok_node (db_tokens db)))"
      using t(1) by (force simp: set_non_null)
    ultimately show ?thesis using \<open>set _ \<subseteq> _\<close> by blast
  qed
  then have "set (non_null (map tok_node (sql_update p f (db_tokens db)))) \<subseteq> node_id ` set (db_nodes db)"
    by (auto simp: set_non_null)
  with assms show ?thesis
    by (simp add: db_ok_def tokens_ok_def map_sql_update filter_sql_update)
qed

lemma upd_history_ok: "db_ok db \<Longrightarrow> db_ok (db\<lparr>db_history := h\<rparr>)"
  by (simp add: db_ok_def)

lemma upd_refs_ok: "db_ok db \<Longrightarrow> db_ok (db\<lparr>db_refs := h\<rparr>)"
  by (simp add: db_ok_def)

text \<open>Deletes.\<close>

lemma distinct_map_sql_delete: "distinct (map g rows) \<Longrightarrow> distinct (map g (sql_delete p rows))"
  by (simp add: sql_delete_def distinct_map_filter)

lemma del_keys_ok: "db_ok db \<Longrightarrow> db_ok (db\<lparr>db_keys := sql_delete p (db_keys db)\<rparr>)"
  by (auto simp: db_ok_def keys_ok_def distinct_map_sql_delete set_sql_delete)

lemma del_outcomes_ok: "db_ok db \<Longrightarrow> db_ok (db\<lparr>db_outcomes := sql_delete p (db_outcomes db)\<rparr>)"
  by (auto simp: db_ok_def outcomes_ok_def distinct_map_sql_delete)

lemma distinct_non_null_delete:
  "distinct (non_null (map g rows)) \<Longrightarrow> distinct (non_null (map g (sql_delete p rows)))"
proof (induction rows)
  case (Cons r rows)
  have "set (non_null (map g (sql_delete p rows))) \<subseteq> set (non_null (map g rows))"
    by (auto simp: set_non_null sql_delete_def)
  with Cons show ?case by (cases "g r") (auto simp: sql_delete_def)
qed (simp add: sql_delete_def)

lemma image_sql_delete: "g ` set (sql_delete (\<lambda>x. g x = a) rows) = g ` set rows - {a}"
  by (auto simp: sql_delete_def)

lemma subset_remove: "A \<subseteq> B \<Longrightarrow> a \<notin> A \<or> a \<notin> B \<Longrightarrow> A \<subseteq> B - {a}"
  by blast

lemma del_user_ok:
  assumes "del_user u db = Inr db'" "db_ok db" shows "db_ok db'"
proof -
  have db': "db' = db\<lparr>db_users := sql_delete (\<lambda>x. usr_id x = u) (db_users db)\<rparr>"
    and ref: "u \<notin> node_owner ` set (db_nodes db) \<or> u \<notin> usr_id ` set (db_users db)"
    using assms(1) by (simp_all add: del_user_def sql_exists_key split: if_splits)
  from assms(2) ref show ?thesis
    by (simp add: db' db_ok_def users_ok_def nodes_ok_def image_sql_delete subset_remove
        distinct_map_sql_delete distinct_non_null_delete)
qed

lemma del_account_ok:
  assumes "del_account a db = Inr db'" "db_ok db" shows "db_ok db'"
proof -
  have db': "db' = db\<lparr>db_accounts := sql_delete (\<lambda>x. acc_id x = a) (db_accounts db)\<rparr>"
    and ref: "a \<notin> key_consumer ` set (db_keys db) \<or> a \<notin> acc_id ` set (db_accounts db)"
    using assms(1) by (simp_all add: del_account_def sql_exists_key split: if_splits)
  from assms(2) ref show ?thesis
    by (simp add: db' db_ok_def accounts_ok_def keys_ok_def image_sql_delete subset_remove
        distinct_map_sql_delete)
qed

lemmas statement_ok = ins_account_ok ins_account_or_ignore_ok ins_key_ok ins_tx_ok ins_history_ok
  ins_token_ok ins_user_ok ins_node_ok ins_own_ok ins_ref_ok ins_act_ok ins_outcome_ok del_user_ok
  del_account_ok del_keys_ok del_outcomes_ok upd_history_ok upd_refs_ok

end
