(* ===== verification/StoreLedger.thy ===== *)
theory StoreLedger
  imports StoreSchema "HOL-Library.Option_ord"
begin

text \<open>
  The money ledger of \<open>coordinator/store.py\<close>: accounts, \<open>charge_request\<close>, the reports over
  \<open>transactions\<close>, reference prices and the provider connection history. Every clock read
  (\<open>time.time()\<close>) is an argument. The lemmas give the cost arithmetic (split, floor,
  minimum, monotonicity, distance from the exact price), the effect of a charge on every
  account, and what the ledger statements keep.
\<close>

section \<open>Accounts\<close>

definition new_account :: "string \<Rightarrow> string \<Rightarrow> flt \<Rightarrow> account" where
  "new_account i name now = \<lparr>acc_id = i, acc_name = name, acc_balance = 10 * MICRO_PER_DOLLAR,
     acc_spent = 0, acc_earned = 0, acc_requests = 0, acc_tokens = 0, acc_created = now\<rparr>"

definition ensure_account_in_transaction :: "string \<Rightarrow> string \<Rightarrow> flt \<Rightarrow> db \<Rightarrow> db" where
  "ensure_account_in_transaction i name now db = ins_account_or_ignore (new_account i name now) db"

definition ensure_account :: "string \<Rightarrow> string \<Rightarrow> flt \<Rightarrow> db \<Rightarrow> (store_error + unit) \<times> db" where
  "ensure_account i name now = serialized_write (\<lambda>db. Inr ((), ensure_account_in_transaction i name now db))"

definition get_account :: "string \<Rightarrow> db \<Rightarrow> account option" where
  "get_account i db = find (\<lambda>a. acc_id a = i) (db_accounts db)"

definition get_or_create_account :: "string \<Rightarrow> string \<Rightarrow> flt \<Rightarrow> db \<Rightarrow> account option \<times> db" where
  "get_or_create_account i name now db = (let db' = snd (ensure_account i name now db) in (get_account i db', db'))"

definition list_accounts :: "db \<Rightarrow> account list" where
  "list_accounts db = sort_key acc_created (db_accounts db)"

section \<open>Charging a request\<close>

record charge_args =
  ch_request :: string
  ch_consumer :: string
  ch_provider :: string
  ch_model :: string
  ch_input :: int
  ch_output :: int
  ch_price_input :: flt
  ch_price_output :: flt
  ch_cached :: int
  ch_price_cache :: flt
  ch_provider_name :: string
  ch_trust :: string
  ch_encrypted :: bool
  ch_preference :: string
  ch_latency :: int
  ch_ttft :: int
  ch_tps :: flt
  ch_queued :: bool
  ch_queue_wait :: int
  ch_connection :: string
  ch_requested_model :: "string option"
  ch_served_model :: "string option"

text \<open>\<open>int((tokens / 1_000_000) * price * MICRO_PER_DOLLAR)\<close>, one rounding per operation.\<close>

definition tier_cost :: "int \<Rightarrow> flt \<Rightarrow> int" where
  "tier_cost tokens price =
     to_int (rnd (rnd (int_div tokens 1000000 * price) * of_int MICRO_PER_DOLLAR))"

definition cache_rate :: "charge_args \<Rightarrow> flt" where
  "cache_rate a = (if 0 < ch_price_cache a then ch_price_cache a else ch_price_input a)"

definition cost_input :: "charge_args \<Rightarrow> int" where
  "cost_input a = tier_cost (max 0 (ch_input a - ch_cached a)) (ch_price_input a)"

definition cost_cache :: "charge_args \<Rightarrow> int" where
  "cost_cache a = tier_cost (ch_cached a) (cache_rate a)"

definition cost_output :: "charge_args \<Rightarrow> int" where
  "cost_output a = tier_cost (ch_output a) (ch_price_output a)"

definition total_cost :: "charge_args \<Rightarrow> int" where
  "total_cost a = max (cost_input a + cost_cache a + cost_output a) MIN_CHARGE_MICRO"

definition platform_fee :: "int \<Rightarrow> int" where
  "platform_fee tot = tot * PLATFORM_FEE_PERCENT div 100"

record charge_result =
  res_request :: string
  res_cost :: int
  res_earning :: int
  res_fee :: int

definition charge_row :: "charge_args \<Rightarrow> flt \<Rightarrow> transaction" where
  "charge_row a now = (let tot = total_cost a; fee = platform_fee tot in
    \<lparr>tx_id = 0, tx_request = ch_request a, tx_consumer = ch_consumer a, tx_provider = ch_provider a,
     tx_connection = ch_connection a, tx_provider_name = ch_provider_name a, tx_model = ch_model a,
     tx_requested_model = (case ch_requested_model a of Some m \<Rightarrow> Some m | None \<Rightarrow> Some (ch_model a)),
     tx_served_model = ch_served_model a, tx_input = ch_input a, tx_output = ch_output a,
     tx_cached = ch_cached a, tx_cost = tot, tx_cost_input = cost_input a,
     tx_cost_output = cost_output a, tx_cost_cache = cost_cache a, tx_earning = tot - fee,
     tx_fee = fee, tx_trust = ch_trust a, tx_encrypted = (if ch_encrypted a then 1 else 0),
     tx_preference = ch_preference a, tx_latency = ch_latency a, tx_ttft = ch_ttft a,
     tx_tps = ch_tps a, tx_queued = (if ch_queued a then 1 else 0),
     tx_queue_wait = ch_queue_wait a, tx_time = now\<rparr>)"

definition debit :: "int \<Rightarrow> int \<Rightarrow> account \<Rightarrow> account" where
  "debit tot tokens r = r\<lparr>acc_balance := acc_balance r - tot, acc_spent := acc_spent r + tot,
     acc_requests := acc_requests r + 1, acc_tokens := acc_tokens r + tokens\<rparr>"

definition credit :: "int \<Rightarrow> account \<Rightarrow> account" where
  "credit earning r = r\<lparr>acc_balance := acc_balance r + earning, acc_earned := acc_earned r + earning\<rparr>"

text \<open>The debit, the creation and credit of the provider account, and the log row, in one
  transaction. The \<open>UPDATE\<close> of the consumer touches no row when the account is absent.\<close>

definition charge_request :: "charge_args \<Rightarrow> flt \<Rightarrow> flt \<Rightarrow> db \<Rightarrow> (store_error + charge_result) \<times> db" where
  "charge_request a now1 now2 = serialized_write (\<lambda>db.
     let tot = total_cost a; fee = platform_fee tot; earning = tot - fee;
         db1 = db\<lparr>db_accounts := sql_update (\<lambda>r. acc_id r = ch_consumer a)
                  (debit tot (ch_input a + ch_output a)) (db_accounts db)\<rparr>;
         db2 = ensure_account_in_transaction (ch_provider a) (ch_provider a) now1 db1;
         db3 = db2\<lparr>db_accounts := sql_update (\<lambda>r. acc_id r = ch_provider a) (credit earning) (db_accounts db2)\<rparr>;
         db4 = ins_tx (charge_row a now2) db3
     in Inr (\<lparr>res_request = ch_request a, res_cost = tot, res_earning = earning, res_fee = fee\<rparr>, db4))"

section \<open>Reports\<close>

text \<open>\<open>LIMIT n\<close>: a negative limit is no limit.\<close>

definition sql_limit :: "int \<Rightarrow> 'r list \<Rightarrow> 'r list" where
  "sql_limit n rows = (if n < 0 then rows else take (nat n) rows)"

definition list_consumer_transactions :: "string \<Rightarrow> int \<Rightarrow> db \<Rightarrow> transaction list" where
  "list_consumer_transactions c limit db =
     sql_limit limit (sql_desc tx_time (filter (\<lambda>t. tx_consumer t = c) (db_txs db)))"

definition recent_transactions :: "int \<Rightarrow> db \<Rightarrow> transaction list" where
  "recent_transactions limit db = sql_limit limit (sql_desc tx_time (db_txs db))"

definition txs_of_provider :: "string \<Rightarrow> db \<Rightarrow> transaction list" where
  "txs_of_provider p db = filter (\<lambda>t. tx_provider t = p) (db_txs db)"

definition txs_of_consumer :: "string \<Rightarrow> db \<Rightarrow> transaction list" where
  "txs_of_consumer c db = filter (\<lambda>t. tx_consumer t = c) (db_txs db)"

definition usd :: "int \<Rightarrow> flt" where
  "usd micro = int_div micro MICRO_PER_DOLLAR"

datatype admin_earnings =
    UnknownProvider string
  | OneProvider string flt flt nat
  | AllProviders "(string \<times> flt \<times> nat) list"

text \<open>\<open>GROUP BY provider_id ORDER BY total DESC\<close>: the groups in key order, then by total.\<close>

definition admin_provider_earnings :: "string \<Rightarrow> db \<Rightarrow> admin_earnings" where
  "admin_provider_earnings p db = (
     if p \<noteq> [] then
       (case get_account p db of
          None \<Rightarrow> UnknownProvider p
        | Some a \<Rightarrow> (let rows = txs_of_provider p db in
            OneProvider p (py_round (usd (sum_list (map tx_earning rows))) 6)
              (py_round (usd (acc_balance a)) 6) (length rows)))
     else
       (let groups = map (\<lambda>q. (q, sum_list (map tx_earning (txs_of_provider q db)),
                length (txs_of_provider q db))) (remdups (sort (map tx_provider (db_txs db))))
        in AllProviders (map (\<lambda>(q, tot, n). (q, py_round (usd tot) 6, n))
             (sql_desc (\<lambda>(q, tot, n). tot) groups))))"

record billing_totals =
  sum_requests :: nat
  sum_volume :: flt
  sum_tokens :: int
  sum_accounts :: nat

definition billing_summary :: "db \<Rightarrow> billing_totals" where
  "billing_summary db = \<lparr>sum_requests = length (db_txs db),
     sum_volume = usd (sum_list (map tx_cost (db_txs db))),
     sum_tokens = sum_list (map (\<lambda>t. tx_input t + tx_output t) (db_txs db)),
     sum_accounts = length (db_accounts db)\<rparr>"

record model_usage =
  use_model :: "string option"
  use_requests :: nat
  use_cost :: int
  use_tokens :: int

record usage_report =
  rep_cost :: int
  rep_requests :: nat
  rep_tokens :: int
  rep_models :: "model_usage list"

definition usage_of_model :: "transaction list \<Rightarrow> string option \<Rightarrow> model_usage" where
  "usage_of_model rows m = (let g = filter (\<lambda>t. tx_served_model t = m) rows in
     \<lparr>use_model = m, use_requests = length g, use_cost = sum_list (map tx_cost g),
      use_tokens = sum_list (map (\<lambda>t. tx_input t + tx_output t) g)\<rparr>)"

definition consumer_usage :: "string \<Rightarrow> db \<Rightarrow> usage_report" where
  "consumer_usage c db = (let rows = txs_of_consumer c db;
       models = sql_desc use_cost (map (usage_of_model rows) (remdups (sort (map tx_served_model rows))))
     in \<lparr>rep_cost = sum_list (map use_cost models), rep_requests = sum_list (map use_requests models),
         rep_tokens = sum_list (map use_tokens models), rep_models = models\<rparr>)"

definition reset_dev_balance :: "string \<Rightarrow> db \<Rightarrow> (store_error + unit) \<times> db" where
  "reset_dev_balance c = serialized_write (\<lambda>db. Inr ((), db\<lparr>db_accounts :=
     sql_update (\<lambda>r. acc_id r = c) (\<lambda>r. r\<lparr>acc_balance := 10 * MICRO_PER_DOLLAR\<rparr>) (db_accounts db)\<rparr>))"

section \<open>Reference prices\<close>

definition list_reference_price_history :: "string \<Rightarrow> flt \<Rightarrow> db \<Rightarrow> reference_price list" where
  "list_reference_price_history family cutoff db =
     sort_key ref_fetched (filter (\<lambda>r. ref_family_key r = family \<and> cutoff < ref_fetched r) (db_refs db))"

definition save_reference_prices :: "reference_price list \<Rightarrow> db \<Rightarrow> (store_error + unit) \<times> db" where
  "save_reference_prices entries db = (if entries = [] then (Inr (), db)
     else serialized_write (\<lambda>db. Inr ((), fold ins_ref entries db)) db)"

definition prune_reference_prices :: "flt \<Rightarrow> db \<Rightarrow> (store_error + nat) \<times> db" where
  "prune_reference_prices cutoff = serialized_write (\<lambda>db.
     Inr (sql_count (\<lambda>r. ref_fetched r < cutoff) (db_refs db),
          db\<lparr>db_refs := sql_delete (\<lambda>r. ref_fetched r < cutoff) (db_refs db)\<rparr>))"

section \<open>Provider connection history\<close>

definition or_none :: "string \<Rightarrow> string option" where
  "or_none s = (if s = [] then None else Some s)"

definition log_provider_connect ::
  "string \<Rightarrow> string \<Rightarrow> string \<Rightarrow> string \<Rightarrow> flt \<Rightarrow> flt \<Rightarrow> string \<Rightarrow> string \<Rightarrow> flt \<Rightarrow> db \<Rightarrow> (store_error + unit) \<times> db" where
  "log_provider_connect p name hardware trust price tps account session now = serialized_write (\<lambda>db.
     Inr ((), ins_history \<lparr>his_id = 0, his_provider = p, his_account = or_none account,
       his_session = or_none session, his_name = name, his_hardware = hardware, his_trust = trust,
       his_price = price, his_tps = tps, his_connected = now, his_disconnected = None,
       his_served = 0\<rparr> db))"

definition log_provider_disconnect :: "string \<Rightarrow> string \<Rightarrow> flt \<Rightarrow> db \<Rightarrow> (store_error + unit) \<times> db" where
  "log_provider_disconnect p session now = serialized_write (\<lambda>db.
     let hit = (if session \<noteq> [] then (\<lambda>r. his_session r = Some session \<and> his_disconnected r = None)
                else (\<lambda>r. his_provider r = p \<and> his_disconnected r = None))
     in Inr ((), db\<lparr>db_history := sql_update hit (\<lambda>r. r\<lparr>his_disconnected := Some now\<rparr>) (db_history db)\<rparr>))"

section \<open>The arithmetic of a charge\<close>

lemma platform_fee_div: "platform_fee c = c div 10"
  using div_mult_mult2 [of 10 c 10] by (simp add: platform_fee_def PLATFORM_FEE_PERCENT_def)

lemma platform_fee_split: "c = 10 * platform_fee c + c mod 10" "0 \<le> c mod 10" "c mod 10 < 10"
  unfolding platform_fee_div by simp_all

lemma platform_fee_bounds:
  assumes "0 \<le> c" shows "0 \<le> platform_fee c" "platform_fee c \<le> c" "10 * platform_fee c \<le> c"
    "c < 10 * platform_fee c + 10"
  using assms platform_fee_split [of c] by linarith+

lemma platform_fee_mono: "c \<le> d \<Longrightarrow> platform_fee c \<le> platform_fee d"
  unfolding platform_fee_div by (rule zdiv_mono1) simp_all

lemma platform_earning_mono:
  assumes "c \<le> d" shows "c - platform_fee c \<le> d - platform_fee d"
proof (cases "platform_fee c = platform_fee d")
  case False
  with platform_fee_mono [OF assms] have "platform_fee c + 1 \<le> platform_fee d" by linarith
  then show ?thesis using platform_fee_split [of c] platform_fee_split [of d] by linarith
qed (use assms in simp)

lemma tier_cost_nonneg: "0 \<le> n \<Longrightarrow> 0 \<le> p \<Longrightarrow> 0 \<le> tier_cost n p"
  by (simp add: tier_cost_def MICRO_PER_DOLLAR_def to_int_nonneg fl.nonneg int_div_nonneg)

lemma tier_cost_mono:
  assumes "n \<le> m" "0 \<le> m" "p \<le> q" "0 \<le> p" shows "tier_cost n p \<le> tier_cost m q"
proof -
  have "int_div n 1000000 * p \<le> int_div m 1000000 * p"
    by (rule mult_right_mono) (use assms in \<open>auto intro: int_div_mono\<close>)
  also have "\<dots> \<le> int_div m 1000000 * q"
    by (rule mult_left_mono) (use assms in \<open>auto intro: int_div_nonneg\<close>)
  finally show ?thesis
    by (simp add: tier_cost_def MICRO_PER_DOLLAR_def to_int_mono fl.mono)
qed

lemma tier_cost_0 [simp]: "tier_cost 0 p = 0"
  by (simp add: tier_cost_def int_div_def)

lemma tier_cost_free [simp]: "tier_cost n 0 = 0"
  by (simp add: tier_cost_def)

lemma total_cost_min: "MIN_CHARGE_MICRO \<le> total_cost a"
  by (simp add: total_cost_def)

text \<open>Three roundings cost at most a relative \<open>2 ^ -51\<close>.\<close>

lemma rnd_rel:
  assumes "2 powi (-1022) \<le> x" shows "x * (1 - 1 / 2 ^ 53) \<le> rnd x" "rnd x \<le> x * (1 + 1 / 2 ^ 53)"
proof -
  have "\<bar>rnd x - x\<bar> \<le> x / 2 ^ 53" by (rule rnd_error) (rule assms)
  then have "x - x / 2 ^ 53 \<le> rnd x" "rnd x \<le> x + x / 2 ^ 53" by linarith+
  then show "x * (1 - 1 / 2 ^ 53) \<le> rnd x" "rnd x \<le> x * (1 + 1 / 2 ^ 53)"
    by (simp_all add: right_diff_distrib distrib_left)
qed

lemma tier_cost_near:
  assumes n: "0 < n" and p: "2 powi (-900) \<le> p" and le: "of_int n * p \<le> 2 ^ 49"
  shows "\<bar>tier_cost n p - \<lfloor>of_int n * p\<rfloor>\<bar> \<le> 1"
proof -
  let ?d = "1 / 2 ^ 53 :: rat"
  define x1 where "x1 = (of_int n / 1000000 :: rat)"
  define r1 where "r1 = rnd x1"
  define r2 where "r2 = rnd (r1 * p)"
  define r3 where "r3 = rnd (r2 * 1000000)"
  define e where "e = (of_int n * p :: rat)"
  have p0: "0 < p" using p by (meson less_le_trans powi2_pos)
  have n1: "(1 :: rat) \<le> of_int n" using n by simp
  have x1: "2 powi (-20) \<le> x1" using n1 by (simp add: x1_def power_int_minus field_simps)
  then have b1: "x1 * (1 - ?d) \<le> r1" "r1 \<le> x1 * (1 + ?d)"
    unfolding r1_def using rnd_rel [of x1] powi2_mono [of "-1022" "-20"] by linarith+
  have "2 powi (-21) \<le> x1 * (1 - ?d)" using x1 by (simp add: power_int_minus field_simps)
  with b1 have r1: "2 powi (-21) \<le> r1" by linarith
  have "2 powi (-21) * 2 powi (-900) \<le> r1 * p"
    by (rule mult_mono) (use r1 p p0 in auto)
  then have r1p: "2 powi (-921) \<le> r1 * p" by (simp flip: powi2_add)
  then have b2: "r1 * p * (1 - ?d) \<le> r2" "r2 \<le> r1 * p * (1 + ?d)"
    unfolding r2_def using rnd_rel [of "r1 * p"] powi2_mono [of "-1022" "-921"] by linarith+
  have "2 powi (-922) \<le> r1 * p * (1 - ?d)" using r1p by (simp add: power_int_minus field_simps)
  with b2 have r2: "2 powi (-922) \<le> r2" by linarith
  have r2m: "2 powi (-922) \<le> r2 * 1000000" using r2 powi2_pos [of "-922"] by linarith
  then have b3: "r2 * 1000000 * (1 - ?d) \<le> r3" "r3 \<le> r2 * 1000000 * (1 + ?d)"
    unfolding r3_def using rnd_rel [of "r2 * 1000000"] powi2_mono [of "-1022" "-922"] by linarith+
  have e0: "0 \<le> e" using n1 p0 by (simp add: e_def)
  have lo: "e * ((1 - ?d) * (1 - ?d) * (1 - ?d)) \<le> r3"
  proof -
    have "x1 * (1 - ?d) * p * (1 - ?d) * 1000000 * (1 - ?d) \<le> r1 * p * (1 - ?d) * 1000000 * (1 - ?d)"
      using b1(1) p0 by (intro mult_right_mono) auto
    also have "\<dots> \<le> r2 * 1000000 * (1 - ?d)" using b2(1) by (intro mult_right_mono) auto
    also have "\<dots> \<le> r3" by (rule b3(1))
    finally show ?thesis by (simp add: e_def x1_def ac_simps)
  qed
  have hi: "r3 \<le> e * ((1 + ?d) * (1 + ?d) * (1 + ?d))"
  proof -
    have "r3 \<le> r2 * 1000000 * (1 + ?d)" by (rule b3(2))
    also have "\<dots> \<le> r1 * p * (1 + ?d) * 1000000 * (1 + ?d)" using b2(2) by (intro mult_right_mono) auto
    also have "\<dots> \<le> x1 * (1 + ?d) * p * (1 + ?d) * 1000000 * (1 + ?d)"
      using b1(2) p0 by (intro mult_right_mono) auto
    finally show ?thesis by (simp add: e_def x1_def ac_simps)
  qed
  have "e * (1 - 4 / 2 ^ 53) \<le> e * ((1 - ?d) * (1 - ?d) * (1 - ?d))"
    using e0 by (intro mult_left_mono) auto
  with lo have lo': "e - e * (4 / 2 ^ 53) \<le> r3" by (simp add: algebra_simps)
  have "e * ((1 + ?d) * (1 + ?d) * (1 + ?d)) \<le> e * (1 + 4 / 2 ^ 53)"
    using e0 by (intro mult_left_mono) auto
  with hi have hi': "r3 \<le> e + e * (4 / 2 ^ 53)" by (simp add: algebra_simps)
  have "e * (4 / 2 ^ 53) \<le> 2 ^ 49 * (4 / 2 ^ 53)"
    using le by (intro mult_right_mono) (simp_all add: e_def)
  with lo' hi' have near: "\<bar>r3 - e\<bar> < 1" by (simp add: abs_less_iff)
  have r30: "0 \<le> r3" using r2m by (simp add: r3_def fl.nonneg order_trans [of 0 "2 powi (-922)"])
  have "tier_cost n p = \<lfloor>r3\<rfloor>"
    using r30 by (simp add: tier_cost_def int_div_def to_int_def r3_def r2_def r1_def x1_def MICRO_PER_DOLLAR_def)
  moreover have "\<bar>\<lfloor>r3\<rfloor> - \<lfloor>e\<rfloor>\<bar> \<le> 1" using near by linarith
  ultimately show ?thesis by (simp add: e_def)
qed

section \<open>The effect of a charge\<close>

lemma get_account_update:
  "(\<And>r. acc_id (f r) = acc_id r) \<Longrightarrow>
   get_account i (db\<lparr>db_accounts := sql_update (\<lambda>r. acc_id r = j) f (db_accounts db)\<rparr>)
     = (if i = j then map_option f (get_account i db) else get_account i db)"
proof -
  assume f: "\<And>r. acc_id (f r) = acc_id r"
  have "find (\<lambda>a. acc_id a = i) (sql_update (\<lambda>r. acc_id r = j) f rows)
      = (if i = j then map_option f (find (\<lambda>a. acc_id a = i) rows) else find (\<lambda>a. acc_id a = i) rows)" for rows
    by (induction rows) (auto simp: sql_update_def f)
  then show ?thesis by (simp add: get_account_def)
qed

lemma get_account_ensure:
  "get_account i (ensure_account_in_transaction j name now db)
     = (if i = j \<and> get_account i db = None then Some (new_account i name now) else get_account i db)"
proof (cases "sql_exists (\<lambda>a. acc_id a = j) (db_accounts db)")
  case True
  then have "find (\<lambda>a. acc_id a = j) (db_accounts db) \<noteq> None" by (simp add: find_None_exists)
  with True show ?thesis
    by (auto simp: get_account_def ensure_account_in_transaction_def ins_account_or_ignore_def new_account_def)
next
  case False
  then have "find (\<lambda>a. acc_id a = j) (db_accounts db) = None" by (simp add: find_None_exists)
  with False show ?thesis
    by (auto simp: get_account_def ensure_account_in_transaction_def ins_account_or_ignore_def
        new_account_def find_append split: option.split)
qed

lemma get_account_ins_tx [simp]: "get_account i (ins_tx r db) = get_account i db"
  by (simp add: get_account_def ins_tx_def)

lemma get_account_None: "get_account i db = None \<longleftrightarrow> i \<notin> acc_id ` set (db_accounts db)"
  by (auto simp: get_account_def find_None_iff)

lemma get_account_Some_id: "get_account i db = Some r \<Longrightarrow> acc_id r = i \<and> r \<in> set (db_accounts db)"
  by (auto simp: get_account_def dest: find_Some_in)

lemma acc_id_debit [simp]: "acc_id (debit c t r) = acc_id r"
  by (simp add: debit_def)

lemma acc_id_credit [simp]: "acc_id (credit e r) = acc_id r"
  by (simp add: credit_def)

lemma charge_result:
  "fst (charge_request a t1 t2 db) = Inr \<lparr>res_request = ch_request a, res_cost = total_cost a,
     res_earning = total_cost a - platform_fee (total_cost a), res_fee = platform_fee (total_cost a)\<rparr>"
  by (simp add: charge_request_def serialized_write_def Let_def)

lemma charge_txs:
  "db_txs (snd (charge_request a t1 t2 db)) = db_txs db @ [(charge_row a t2)\<lparr>tx_id := Suc (seq_tx db)\<rparr>]"
  by (simp add: charge_request_def serialized_write_def Let_def ins_tx_def
      ensure_account_in_transaction_def ins_account_or_ignore_def)

text \<open>The account a charge leaves, for every id.\<close>

definition debited :: "charge_args \<Rightarrow> string \<Rightarrow> account option \<Rightarrow> account option" where
  "debited a i acc = (if i = ch_consumer a
     then map_option (debit (total_cost a) (ch_input a + ch_output a)) acc else acc)"

lemma charge_account:
  "get_account i (snd (charge_request a t1 t2 db)) =
    (if i = ch_provider a
     then Some (credit (total_cost a - platform_fee (total_cost a))
            (case debited a i (get_account i db) of Some r \<Rightarrow> r | None \<Rightarrow> new_account i i t1))
     else debited a i (get_account i db))"
  by (auto simp: charge_request_def serialized_write_def Let_def get_account_update get_account_ensure
      debited_def split: option.splits)

lemma charge_ok: "db_ok db \<Longrightarrow> db_ok (snd (charge_request a t1 t2 db))"
  unfolding charge_request_def
  by (rule sw.run_preserves)
    (auto simp: Let_def ensure_account_in_transaction_def intro!: ins_tx_ok upd_accounts_ok
      ins_account_or_ignore_ok)

subsection \<open>Money is moved, not made\<close>

definition money :: "db \<Rightarrow> int" where
  "money db = sum_list (map acc_balance (db_accounts db))"

lemma money_update:
  assumes "distinct (map acc_id rows)" "\<And>r. acc_balance (f r) = acc_balance r + d"
  shows "sum_list (map acc_balance (sql_update (\<lambda>r. acc_id r = i) f rows))
    = sum_list (map acc_balance rows) + (if i \<in> acc_id ` set rows then d else 0)"
  using assms by (induction rows) (auto simp: sql_update_def map_idI)

lemma ensure_account_ids:
  "acc_id ` set (db_accounts (ensure_account_in_transaction i n t db)) = insert i (acc_id ` set (db_accounts db))"
  by (auto simp: ensure_account_in_transaction_def ins_account_or_ignore_def new_account_def sql_exists_key)

lemma money_ensure:
  "money (ensure_account_in_transaction i n t db)
     = money db + (if i \<in> acc_id ` set (db_accounts db) then 0 else 10 * MICRO_PER_DOLLAR)"
  by (auto simp: money_def ensure_account_in_transaction_def ins_account_or_ignore_def new_account_def
      sql_exists_key)

lemma charge_money:
  assumes "accounts_ok db"
  shows "money (snd (charge_request a t1 t2 db)) = money db
    - (if get_account (ch_consumer a) db = None then 0 else total_cost a)
    + (if get_account (ch_provider a) db = None then 10 * MICRO_PER_DOLLAR else 0)
    + (total_cost a - platform_fee (total_cost a))"
proof -
  let ?c = "total_cost a" and ?e = "total_cost a - platform_fee (total_cost a)"
  define db1 where "db1 = db\<lparr>db_accounts := sql_update (\<lambda>r. acc_id r = ch_consumer a)
    (debit ?c (ch_input a + ch_output a)) (db_accounts db)\<rparr>"
  define db2 where "db2 = ensure_account_in_transaction (ch_provider a) (ch_provider a) t1 db1"
  have d: "distinct (map acc_id (db_accounts db))" using assms by (simp add: accounts_ok_def)
  have ids1: "acc_id ` set (db_accounts db1) = acc_id ` set (db_accounts db)"
    by (simp add: db1_def image_sql_update)
  have d1: "distinct (map acc_id (db_accounts db1))" using d by (simp add: db1_def map_sql_update)
  have d2: "distinct (map acc_id (db_accounts db2))"
    using d1 by (auto simp: db2_def ensure_account_in_transaction_def ins_account_or_ignore_def
        new_account_def sql_exists_key)
  have m1: "money db1 = money db - (if ch_consumer a \<in> acc_id ` set (db_accounts db) then ?c else 0)"
    using money_update [OF d, of "debit ?c (ch_input a + ch_output a)" "- ?c" "ch_consumer a"]
    by (auto simp: money_def db1_def debit_def)
  have m2: "money db2 = money db1
      + (if ch_provider a \<in> acc_id ` set (db_accounts db) then 0 else 10 * MICRO_PER_DOLLAR)"
    by (simp add: db2_def money_ensure ids1)
  have in2: "ch_provider a \<in> acc_id ` set (db_accounts db2)"
    by (simp add: db2_def ensure_account_ids)
  have "money (snd (charge_request a t1 t2 db)) = money db2 + ?e"
    using money_update [OF d2, of "credit ?e" ?e "ch_provider a"] in2
    by (simp add: charge_request_def serialized_write_def Let_def ins_tx_def money_def db1_def db2_def
        credit_def)
  with m1 m2 show ?thesis by (simp add: get_account_None)
qed

section \<open>Properties\<close>

text \<open>C2: One charge moves money and makes none. With both accounts present, \<open>charge_request\<close>
  succeeds; the consumer is debited the cost, the provider credited the cost less the fee, every
  other account is untouched, the sum of all balances falls by exactly the platform fee, and one
  row with the same cost, earning and fee is appended to the log.\<close>

theorem charge_moves_money:
  assumes ok: "db_ok db"
    and con: "get_account (ch_consumer a) db = Some c" and pro: "get_account (ch_provider a) db = Some p"
    and other: "ch_consumer a \<noteq> ch_provider a"
  shows "let r = charge_request a t1 t2 db; db' = snd r; cost = total_cost a; fee = platform_fee cost in
      fst r = Inr \<lparr>res_request = ch_request a, res_cost = cost, res_earning = cost - fee, res_fee = fee\<rparr>
    \<and> get_account (ch_consumer a) db' = Some (debit cost (ch_input a + ch_output a) c)
    \<and> get_account (ch_provider a) db' = Some (credit (cost - fee) p)
    \<and> (\<forall>i. i \<noteq> ch_consumer a \<longrightarrow> i \<noteq> ch_provider a \<longrightarrow> get_account i db' = get_account i db)
    \<and> money db' = money db - fee
    \<and> (\<exists>row. db_txs db' = db_txs db @ [row] \<and> tx_cost row = cost \<and> tx_earning row = cost - fee
         \<and> tx_fee row = fee \<and> tx_consumer row = ch_consumer a \<and> tx_provider row = ch_provider a)"
  using assms charge_money [of db a t1 t2]
  by (simp add: Let_def charge_result charge_account charge_txs debited_def db_ok_def)
    (simp add: charge_row_def Let_def)

definition sample_charge :: charge_args where
  "sample_charge = \<lparr>ch_request = ''r1'', ch_consumer = ''user-1'', ch_provider = ''provider-acct-1'',
     ch_model = ''m'', ch_input = 1000, ch_output = 2000, ch_price_input = 1, ch_price_output = 2,
     ch_cached = 400, ch_price_cache = 0, ch_provider_name = ''n'', ch_trust = ''standard'',
     ch_encrypted = False, ch_preference = ''balanced'', ch_latency = 10, ch_ttft = 5, ch_tps = 20,
     ch_queued = False, ch_queue_wait = 0, ch_connection = '''', ch_requested_model = None,
     ch_served_model = None\<rparr>"

lemma sample_charge_simps [simp]:
  "ch_consumer sample_charge = ''user-1''" "ch_provider sample_charge = ''provider-acct-1''"
  "ch_input sample_charge = 1000" "ch_output sample_charge = 2000" "ch_cached sample_charge = 400"
  "ch_price_input sample_charge = 1" "ch_price_output sample_charge = 2"
  by (simp_all add: sample_charge_def)

definition sample_db :: db where
  "sample_db = empty_db\<lparr>db_accounts := [new_account ''user-1'' ''u'' 0, new_account ''provider-acct-1'' ''p'' 0]\<rparr>"

lemma sample_db_ok: "db_ok sample_db"
  by (simp add: db_ok_defs sample_db_def empty_db_def new_account_def)

lemma charge_moves_money_witness:
  "money (snd (charge_request sample_charge 1 2 sample_db))
     = money sample_db - platform_fee (total_cost sample_charge)"
  using charge_moves_money [OF sample_db_ok, of sample_charge "new_account ''user-1'' ''u'' 0"
      "new_account ''provider-acct-1'' ''p'' 0" 1 2]
  by (simp add: Let_def get_account_def sample_db_def new_account_def)

text \<open>What a request costs. The cost is at least the minimum charge of 100 micro-dollars, the
  platform keeps a tenth rounded down, the provider at least 90 micro-dollars; serving more output or
  fresh input tokens at the same nonnegative prices never costs less and never earns less.\<close>

theorem charge_cost_bounds:
  assumes "0 \<le> ch_price_input a" "0 \<le> ch_price_output a" "0 \<le> ch_cached a"
    and "ch_cached a \<le> ch_input a" "0 \<le> ch_output a" "ch_input a \<le> n" "ch_output a \<le> m"
  shows "let cost = total_cost a; more = total_cost (a\<lparr>ch_input := n, ch_output := m\<rparr>) in
      cost = max 100 (cost_input a + cost_cache a + cost_output a)
    \<and> 10 * platform_fee cost \<le> cost \<and> cost < 10 * platform_fee cost + 10
    \<and> 90 \<le> cost - platform_fee cost
    \<and> cost \<le> more \<and> cost - platform_fee cost \<le> more - platform_fee more"
proof -
  let ?b = "a\<lparr>ch_input := n, ch_output := m\<rparr>"
  have ge: "100 \<le> total_cost a" using total_cost_min [of a] by (simp add: MIN_CHARGE_MICRO_def)
  have "cost_input a \<le> cost_input ?b" "cost_output a \<le> cost_output ?b" "cost_cache a = cost_cache ?b"
    using assms by (auto simp: cost_input_def cost_output_def cost_cache_def cache_rate_def
        intro!: tier_cost_mono)
  then have le: "total_cost a \<le> total_cost ?b" by (simp add: total_cost_def)
  have "90 \<le> total_cost a - platform_fee (total_cost a)"
    using platform_earning_mono [OF ge] by (simp add: platform_fee_div)
  then show ?thesis
    using ge le platform_fee_bounds [of "total_cost a"] platform_earning_mono [OF le]
    by (simp add: Let_def total_cost_def MIN_CHARGE_MICRO_def max.commute)
qed

lemma charge_cost_bounds_witness:
  "total_cost sample_charge \<le> total_cost (sample_charge\<lparr>ch_input := 5000, ch_output := 2000\<rparr>)"
proof -
  note c = charge_cost_bounds [of sample_charge 5000 2000, unfolded Let_def]
  show ?thesis by (rule c [THEN conjunct2, THEN conjunct2, THEN conjunct2, THEN conjunct2, THEN conjunct1])
    simp_all
qed

text \<open>Float pricing is exact to a micro-dollar. For a positive token count and a price of at
  least \<open>2 ^ -900\<close> dollars per million tokens, the charged tier is within one micro-dollar of
  \<open>tokens * price\<close> rounded down, as long as that is at most \<open>2 ^ 49\<close> micro-dollars.\<close>

theorem tier_cost_accurate:
  assumes "0 < n" "2 powi (-900) \<le> p" "of_int n * p \<le> 2 ^ 49"
  shows "\<bar>tier_cost n p - \<lfloor>of_int n * p\<rfloor>\<bar> \<le> 1"
  by (rule tier_cost_near) (use assms in auto)

lemma tier_cost_accurate_witness: "\<bar>tier_cost 12345 (7/4) - \<lfloor>of_int 12345 * (7/4 :: rat)\<rfloor>\<bar> \<le> 1"
  by (rule tier_cost_accurate) (simp_all add: power_int_minus field_simps)

text \<open>A charge against an account that does not exist debits nobody but still pays the provider:
  the sum of all balances grows by the provider's earning.\<close>

theorem charge_unknown_consumer_mints:
  assumes "db_ok db" "get_account (ch_consumer a) db = None" "get_account (ch_provider a) db = Some p"
  shows "(\<exists>r. fst (charge_request a t1 t2 db) = Inr r)
    \<and> money (snd (charge_request a t1 t2 db)) = money db + (total_cost a - platform_fee (total_cost a))
    \<and> money db + 90 \<le> money (snd (charge_request a t1 t2 db))"
proof -
  have m: "money (snd (charge_request a t1 t2 db)) = money db + (total_cost a - platform_fee (total_cost a))"
    using assms charge_money [of db a t1 t2] by (simp add: db_ok_def)
  have "100 \<le> total_cost a" using total_cost_min [of a] by (simp add: MIN_CHARGE_MICRO_def)
  from platform_earning_mono [OF this] show ?thesis
    by (simp add: charge_result m platform_fee_div)
qed

lemma charge_unknown_consumer_mints_witness:
  "money sample_db + 90 \<le> money (snd (charge_request (sample_charge\<lparr>ch_consumer := ''ghost''\<rparr>) 1 2 sample_db))"
  using charge_unknown_consumer_mints [OF sample_db_ok, of "sample_charge\<lparr>ch_consumer := ''ghost''\<rparr>"
      "new_account ''provider-acct-1'' ''p'' 0" 1 2]
  by (simp add: get_account_def sample_db_def new_account_def)

end
