(* ===== verification/StoreNodes.thy ===== *)
theory StoreNodes
  imports StoreKeys
begin

text \<open>
  Provider ownership of \<open>coordinator/store.py\<close>: nodes, claims of legacy principals,
  self-service enrolment and revocation, credential re-check, and the deletion of users, each a
  transaction of \<open>_ownership_write\<close>. The lemmas give the admission conditions of a claim and of
  an enrolment as the code checks them, in order, and what a success writes.
\<close>

definition SELF_SERVICE_PROFILE :: string where
  "SELF_SERVICE_PROFILE = ''apple-silicon-macos-gguf-metal-l0''"
definition SELF_SERVICE_DAILY_ISSUANCE_LIMIT :: nat where
  "SELF_SERVICE_DAILY_ISSUANCE_LIMIT = 3"

section \<open>Claims\<close>

definition find_user :: "string \<Rightarrow> db \<Rightarrow> user option" where
  "find_user u db = find (\<lambda>x. usr_id x = u) (db_users db)"

text \<open>A nullable text column is truthy when it is neither NULL nor empty.\<close>

definition has_text :: "string option \<Rightarrow> bool" where
  "has_text x = (case x of None \<Rightarrow> False | Some s \<Rightarrow> s \<noteq> [])"

definition suspended_at :: "flt \<Rightarrow> flt option \<Rightarrow> bool" where
  "suspended_at now u = (case u of None \<Rightarrow> False | Some t \<Rightarrow> now < t)"

record claim_result =
  clm_node :: string
  clm_owner :: string
  clm_billing :: string
  clm_name :: string

text \<open>The transaction of \<open>claim_legacy_provider\<close>, after its two argument checks.\<close>

definition claim_body ::
  "string \<Rightarrow> string \<Rightarrow> string \<Rightarrow> string \<Rightarrow> string \<Rightarrow> flt \<Rightarrow> flt \<Rightarrow> claim_result body" where
  "claim_body billing owner actor reason hex16 now1 now2 db = (
       case find_user actor db of
         None \<Rightarrow> Inl (ProviderOwnershipError ''Authenticated administrator required'' 403)
       | Some _ \<Rightarrow>
       (case find_user owner db of
         None \<Rightarrow> Inl (ProviderOwnershipError ''IE user not found'' 404)
       | Some o_row \<Rightarrow>
         if \<not> has_text (usr_github o_row) then
           Inl (ProviderOwnershipError ''Owner must have a linked GitHub identity'' 409)
         else if suspended_at now1 (usr_suspended o_row) then
           Inl (ProviderOwnershipError ''Suspended users cannot claim provider nodes'' 409)
         else
       (case find (\<lambda>t. tok_billing t = Some billing) (db_tokens db) of
         None \<Rightarrow> Inl (ProviderOwnershipError ''Provider billing principal not found'' 404)
       | Some token \<Rightarrow>
         if tok_revoked token \<noteq> None then
           Inl (ProviderOwnershipError ''Revoked credentials cannot be claimed'' 409)
         else if tok_node token \<noteq> None \<or> sql_exists (\<lambda>n. node_billing n = billing) (db_nodes db) then
           Inl (ProviderOwnershipError ''Provider billing principal is already claimed'' 409)
         else (let node = NODE_PREFIX @ hex16;
                   hit = (\<lambda>t. tok_hash t = tok_hash token \<and> tok_node t = None \<and> tok_revoked t = None) in
           bindE (ins_node \<lparr>node_id = node, node_owner = owner, node_billing = billing,
                     node_name = tok_name token, node_created = now2, node_profile = ''''\<rparr> db) (\<lambda>db1.
           if sql_count hit (db_tokens db1) \<noteq> 1 then
             Inl (ProviderOwnershipError ''Provider claim changed concurrently'' 409)
           else
           bindE (ins_own \<lparr>own_id = 0, own_node = node, own_billing = billing, own_owner = owner,
                     own_actor = actor, own_action = ''claim'', own_reason = reason, own_time = now2\<rparr>
                   (db1\<lparr>db_tokens := sql_update hit (\<lambda>t. t\<lparr>tok_node := Some node\<rparr>) (db_tokens db1)\<rparr>)) (\<lambda>db2.
           Inr (\<lparr>clm_node = node, clm_owner = owner, clm_billing = billing,
                  clm_name = tok_name token\<rparr>, db2)))))))"

definition claim_legacy_provider ::
  "string \<Rightarrow> string \<Rightarrow> string \<Rightarrow> string \<Rightarrow> string \<Rightarrow> flt \<Rightarrow> flt \<Rightarrow> db \<Rightarrow> (store_error + claim_result) \<times> db" where
  "claim_legacy_provider billing owner actor reason0 hex16 now1 now2 db = (let reason = str_strip reason0 in
     if reason = [] \<or> 500 < length reason then
       (Inl (ProviderOwnershipError ''A reason of 1-500 characters is required'' 400), db)
     else if \<not> starts_with PROVIDER_ACCT_PREFIX billing then
       (Inl (ProviderOwnershipError ''Provider billing principal not found'' 404), db)
     else ownership_write (claim_body billing owner actor reason hex16 now1 now2) db)"

section \<open>Ownership queries\<close>

definition is_github_linked_user :: "string \<Rightarrow> db \<Rightarrow> bool" where
  "is_github_linked_user u db = (case find_user u db of None \<Rightarrow> False | Some r \<Rightarrow> has_text (usr_github r))"

definition get_provider_node_owner :: "string \<Rightarrow> string \<Rightarrow> db \<Rightarrow> string option" where
  "get_provider_node_owner node billing db =
     map_option node_owner (find (\<lambda>n. node_id n = node \<and> node_billing n = billing) (db_nodes db))"

definition provider_billing_principals_for_owner :: "string \<Rightarrow> db \<Rightarrow> string set" where
  "provider_billing_principals_for_owner owner db =
     set (map node_billing (filter (\<lambda>n. node_owner n = owner) (db_nodes db)))"

record owned_node =
  own_node_id :: string
  own_node_billing :: string
  own_node_name :: string
  own_node_created :: flt
  own_node_ledger :: int

definition ledger_earned :: "string \<Rightarrow> db \<Rightarrow> int" where
  "ledger_earned billing db = (case get_account billing db of None \<Rightarrow> 0 | Some a \<Rightarrow> acc_earned a)"

definition list_owned_provider_nodes :: "string \<Rightarrow> db \<Rightarrow> owned_node list" where
  "list_owned_provider_nodes owner db =
     map (\<lambda>n. \<lparr>own_node_id = node_id n, own_node_billing = node_billing n, own_node_name = node_name n,
        own_node_created = node_created n, own_node_ledger = ledger_earned (node_billing n) db\<rparr>)
     (sort_key (\<lambda>n. (node_created n, node_id n)) (filter (\<lambda>n. node_owner n = owner) (db_nodes db)))"

section \<open>Self-service enrolment\<close>

definition is_alnum :: "char \<Rightarrow> bool" where
  "is_alnum c = (let n = (of_char c :: nat) in
     48 \<le> n \<and> n \<le> 57 \<or> 65 \<le> n \<and> n \<le> 90 \<or> 97 \<le> n \<and> n \<le> 122)"

text \<open>\<open>re.fullmatch(r"[A-Za-z0-9][A-Za-z0-9 _.-]{0,63}", name)\<close>.\<close>

definition valid_node_name :: "string \<Rightarrow> bool" where
  "valid_node_name s = (case s of [] \<Rightarrow> False
     | c # cs \<Rightarrow> is_alnum c \<and> length cs \<le> 63 \<and> list_all (\<lambda>d. is_alnum d \<or> d \<in> set '' _.-'') cs)"

definition owned_self_service :: "string \<Rightarrow> db \<Rightarrow> provider_token list" where
  "owned_self_service owner db = filter (\<lambda>t. tok_source t = ''self_service'' \<and>
     (case tok_node t of None \<Rightarrow> False
      | Some n \<Rightarrow> sql_exists (\<lambda>x. node_id x = n \<and> node_owner x = owner) (db_nodes db))) (db_tokens db)"

record enroll_result =
  enr_node :: string
  enr_name :: string
  enr_status :: string
  enr_profile :: string
  enr_token_id :: string
  enr_token :: string

text \<open>The transaction of \<open>enroll_provider_node\<close>, after its two argument checks; \<open>raw\<close> is the
  credential, drawn before the transaction begins.\<close>

definition enroll_body ::
  "(string \<Rightarrow> string) \<Rightarrow> string \<Rightarrow> string \<Rightarrow> string \<Rightarrow> flt \<Rightarrow> string \<Rightarrow> string \<Rightarrow> string \<Rightarrow> string
    \<Rightarrow> enroll_result body" where
  "enroll_body sha owner name profile now raw hexN hexB hexT db = (
       case find_user owner db of
         None \<Rightarrow> Inl (ProviderOwnershipError ''Authenticated IE user required'' 403)
       | Some u \<Rightarrow>
         if \<not> has_text (usr_github u) then
           Inl (ProviderOwnershipError ''A linked GitHub identity is required'' 403)
         else if suspended_at now (usr_suspended u) then
           Inl (ProviderOwnershipError ''Account suspended'' 403)
         else if 1 \<le> sql_count (\<lambda>t. tok_revoked t = None) (owned_self_service owner db) then
           Inl (ProviderOwnershipError ''Active self-service provider node limit reached'' 409)
         else if SELF_SERVICE_DAILY_ISSUANCE_LIMIT
             \<le> sql_count (\<lambda>t. rnd (now - 86400) \<le> tok_created t) (owned_self_service owner db) then
           Inl (ProviderOwnershipError ''Daily provider enrollment limit reached'' 429)
         else (let node = NODE_PREFIX @ hexN; billing = PROVIDER_ACCT_PREFIX @ hexB; tid = TOKEN_ID_PREFIX @ hexT in
           bindE (ins_account (new_account billing name now) db) (\<lambda>db1.
           bindE (ins_node \<lparr>node_id = node, node_owner = owner, node_billing = billing,
                     node_name = name, node_created = now, node_profile = profile\<rparr> db1) (\<lambda>db2.
           bindE (ins_token \<lparr>tok_hash = sha raw, tok_id = tid, tok_name = name, tok_billing = Some billing,
                     tok_node = Some node, tok_source = ''self_service'', tok_created = now,
                     tok_last_used = None, tok_connections = 0, tok_revoked = None\<rparr> db2) (\<lambda>db3.
           bindE (ins_own \<lparr>own_id = 0, own_node = node, own_billing = billing, own_owner = owner,
                     own_actor = owner, own_action = ''enroll'',
                     own_reason = ''self-service L0 Apple Silicon enrollment'', own_time = now\<rparr> db3) (\<lambda>db4.
           Inr (\<lparr>enr_node = node, enr_name = name, enr_status = ''offline'', enr_profile = profile,
                  enr_token_id = tid, enr_token = raw\<rparr>, db4)))))))"

definition enroll_provider_node ::
  "(string \<Rightarrow> string) \<Rightarrow> string \<Rightarrow> string \<Rightarrow> string \<Rightarrow> flt \<Rightarrow> string \<Rightarrow> string \<Rightarrow> string \<Rightarrow> string \<Rightarrow> db
    \<Rightarrow> (store_error + enroll_result) \<times> db" where
  "enroll_provider_node sha owner name profile now hex32 hexN hexB hexT db = (
     if \<not> valid_node_name name then (Inl (ProviderOwnershipError ''Invalid provider name'' 400), db)
     else if profile \<noteq> SELF_SERVICE_PROFILE then
       (Inl (ProviderOwnershipError ''Unsupported provider profile'' 400), db)
     else ownership_write (enroll_body sha owner name profile now (PROVIDER_TOKEN_PREFIX @ hex32) hexN hexB hexT) db)"

text \<open>The join of a token with the node that has both its id and its billing principal.\<close>

definition node_of_token :: "provider_token \<Rightarrow> db \<Rightarrow> provider_node option" where
  "node_of_token t db = find (\<lambda>n. tok_node t = Some (node_id n) \<and> tok_billing t = Some (node_billing n)) (db_nodes db)"

definition owned_credential :: "string \<Rightarrow> db \<Rightarrow> provider_token \<Rightarrow> bool" where
  "owned_credential owner db t = (tok_source t = ''self_service'' \<and>
     (case node_of_token t db of None \<Rightarrow> False | Some n \<Rightarrow> node_owner n = owner))"

definition list_owned_self_service_credentials ::
  "string \<Rightarrow> db \<Rightarrow> (string \<times> string option \<times> string \<times> flt \<times> flt option \<times> int \<times> flt option) list" where
  "list_owned_self_service_credentials owner db =
     map (\<lambda>t. (tok_id t, tok_node t, tok_name t, tok_created t, tok_last_used t, tok_connections t, tok_revoked t))
       (sort_key (\<lambda>t. (tok_created t, tok_id t)) (filter (owned_credential owner db) (db_tokens db)))"

definition revoke_owned_self_service_credential ::
  "string \<Rightarrow> string \<Rightarrow> flt \<Rightarrow> db \<Rightarrow> (store_error + bool) \<times> db" where
  "revoke_owned_self_service_credential owner tid now db = (
     if \<not> starts_with TOKEN_ID_PREFIX tid \<or> 80 < length tid then (Inr False, db)
     else ownership_write (\<lambda>db.
       case find (\<lambda>t. tok_id t = tid \<and> tok_revoked t = None \<and> owned_credential owner db t) (db_tokens db) of
         None \<Rightarrow> Inr (False, db)
       | Some token \<Rightarrow> (let hit = (\<lambda>t. tok_hash t = tok_hash token \<and> tok_revoked t = None) in
           if sql_count hit (db_tokens db) \<noteq> 1 then
             Inl (ProviderOwnershipError ''Credential changed during revocation'' 409)
           else bindE (ins_own \<lparr>own_id = 0, own_node = dflt '''' (tok_node token),
                   own_billing = dflt '''' (tok_billing token), own_owner = owner, own_actor = owner,
                   own_action = ''revoke'', own_reason = ''owner revoked self-service credential'',
                   own_time = now\<rparr>
                 (db\<lparr>db_tokens := sql_update hit (\<lambda>t. t\<lparr>tok_revoked := Some now\<rparr>) (db_tokens db)\<rparr>)) (\<lambda>db1.
             Inr (True, db1)))) db)"

definition provider_credential_is_active :: "string \<Rightarrow> string \<Rightarrow> flt \<Rightarrow> db \<Rightarrow> bool" where
  "provider_credential_is_active hash tid now db =
    (case find (\<lambda>t. tok_hash t = hash \<and> tok_id t = tid \<and> tok_revoked t = None) (db_tokens db) of
       None \<Rightarrow> False
     | Some t \<Rightarrow> (case tok_node t of None \<Rightarrow> True
         | Some _ \<Rightarrow> (case node_of_token t db of None \<Rightarrow> False
             | Some n \<Rightarrow> node_owner n \<noteq> [] \<and>
                 \<not> suspended_at now (case find_user (node_owner n) db of None \<Rightarrow> None | Some u \<Rightarrow> usr_suspended u))))"

section \<open>Deleting a user\<close>

definition delete_user :: "string \<Rightarrow> db \<Rightarrow> (store_error + unit) \<times> db" where
  "delete_user u = ownership_write (\<lambda>db.
     if sql_exists (\<lambda>n. node_owner n = u) (db_nodes db) then Inl ProviderNodesExist
     else (let db1 = db\<lparr>db_keys := sql_delete (\<lambda>k. key_consumer k = u) (db_keys db)\<rparr>;
               db2 = db1\<lparr>db_outcomes := sql_delete (\<lambda>x. out_consumer x = Some u) (db_outcomes db1)\<rparr> in
       bindE (del_user u db2) (\<lambda>db3.
       bindE (del_account u db3) (\<lambda>db4. Inr ((), db4)))))"

section \<open>Earnings of an owner\<close>

record earnings_summary =
  es_earned :: int
  es_ledger :: int
  es_today :: int
  es_cost :: int
  es_fee :: int
  es_requests :: nat
  es_reconciled :: bool

record node_earnings = earnings_summary +
  ne_node :: string
  ne_name :: string

record earning_row =
  er_id :: nat
  er_node :: string
  er_time :: flt
  er_model :: string
  er_requested_model :: "string option"
  er_served_model :: "string option"
  er_input :: int
  er_output :: int
  er_cached :: int
  er_cost :: int
  er_earning :: int
  er_fee :: int

record earnings_report =
  ep_summary :: earnings_summary
  ep_by_node :: "node_earnings list"
  ep_rows :: "earning_row list"
  ep_next :: "nat option"

definition earnings_of_node :: "int \<Rightarrow> db \<Rightarrow> owned_node \<Rightarrow> node_earnings" where
  "earnings_of_node midnight db n = (let rows = txs_of_provider (own_node_billing n) db;
       earned = sum_list (map tx_earning rows) in
     \<lparr>es_earned = earned, es_ledger = own_node_ledger n,
      es_today = sum_list (map (\<lambda>t. if of_int midnight \<le> tx_time t then tx_earning t else 0) rows),
      es_cost = sum_list (map tx_cost rows), es_fee = sum_list (map tx_fee rows),
      es_requests = length rows, es_reconciled = (earned = own_node_ledger n),
      ne_node = own_node_id n, ne_name = own_node_name n\<rparr>)"

definition sum_earnings :: "node_earnings list \<Rightarrow> earnings_summary" where
  "sum_earnings xs = \<lparr>es_earned = sum_list (map es_earned xs), es_ledger = sum_list (map es_ledger xs),
     es_today = sum_list (map es_today xs), es_cost = sum_list (map es_cost xs),
     es_fee = sum_list (map es_fee xs), es_requests = sum_list (map es_requests xs),
     es_reconciled = list_all es_reconciled xs\<rparr>"

definition earning_row_of :: "transaction \<Rightarrow> provider_node \<Rightarrow> earning_row" where
  "earning_row_of t n = \<lparr>er_id = tx_id t, er_node = node_id n, er_time = tx_time t, er_model = tx_model t,
     er_requested_model = tx_requested_model t, er_served_model = tx_served_model t,
     er_input = tx_input t, er_output = tx_output t, er_cached = tx_cached t, er_cost = tx_cost t,
     er_earning = tx_earning t, er_fee = tx_fee t\<rparr>"

text \<open>The join of \<open>transactions\<close> with the owner's nodes, newest id first.\<close>

definition owned_rows :: "string \<Rightarrow> string option \<Rightarrow> db \<Rightarrow> earning_row list" where
  "owned_rows owner node db = sql_desc er_id (concat (map (\<lambda>t. map (earning_row_of t)
     (filter (\<lambda>n. node_billing n = tx_provider t \<and> node_owner n = owner
        \<and> (case node of None \<Rightarrow> True | Some x \<Rightarrow> node_id n = x)) (db_nodes db))) (db_txs db)))"

definition before :: "int option \<Rightarrow> earning_row list \<Rightarrow> earning_row list" where
  "before b rows = (case b of None \<Rightarrow> rows | Some i \<Rightarrow> filter (\<lambda>r. int (er_id r) < i) rows)"

text \<open>\<open>LIMIT limit + 1\<close>, the first \<open>limit\<close> rows, and the cursor of the next page.\<close>

definition page_of :: "nat \<Rightarrow> earning_row list \<Rightarrow> earning_row list \<times> nat option" where
  "page_of limit rows = (let fetched = take (limit + 1) rows; page = take limit fetched in
     (page, if limit < length fetched \<and> page \<noteq> [] then Some (er_id (last page)) else None))"

definition get_owned_provider_earnings ::
  "string \<Rightarrow> string option \<Rightarrow> int \<Rightarrow> int option \<Rightarrow> flt \<Rightarrow> db \<Rightarrow> store_error + earnings_report option" where
  "get_owned_provider_earnings owner node limit before_id now db = (
     let nodes0 = list_owned_provider_nodes owner db;
         nodes = (case node of None \<Rightarrow> nodes0 | Some x \<Rightarrow> filter (\<lambda>n. own_node_id n = x) nodes0) in
     if node \<noteq> None \<and> nodes = [] then Inr None
     else if \<not> (1 \<le> limit \<and> limit \<le> 100) \<or> (case before_id of None \<Rightarrow> False | Some b \<Rightarrow> b < 1) then
       Inl (ValueError ''Invalid pagination'')
     else if nodes = [] then Inr (Some \<lparr>ep_summary = sum_earnings [], ep_by_node = [], ep_rows = [], ep_next = None\<rparr>)
     else (let by_node = map (earnings_of_node (\<lfloor>now / 86400\<rfloor> * 86400) db) nodes;
               (page, nxt) = page_of (nat limit) (before before_id (owned_rows owner node db))
           in Inr (Some \<lparr>ep_summary = sum_earnings by_node, ep_by_node = by_node, ep_rows = page, ep_next = nxt\<rparr>)))"

section \<open>Every operation keeps the constraints\<close>

lemma link_node_ok:
  "ins_node r db = Inr db' \<Longrightarrow> db_ok db \<Longrightarrow>
   db_ok (db'\<lparr>db_tokens := sql_update p (\<lambda>t. t\<lparr>tok_node := Some (node_id r)\<rparr>) (db_tokens db')\<rparr>)"
  by (rule upd_tokens_ok) (auto intro: ins_node_ok simp: ins_node_def split: if_splits)

lemma revoke_tokens_ok:
  "db_ok db \<Longrightarrow> db_ok (db\<lparr>db_tokens := sql_update p (\<lambda>t. t\<lparr>tok_revoked := x\<rparr>) (db_tokens db)\<rparr>)"
  by (rule upd_tokens_ok) auto

lemma del_keys_outcomes_ok:
  "db_ok db \<Longrightarrow> db_ok (db\<lparr>db_keys := sql_delete p (db_keys db), db_outcomes := sql_delete q (db_outcomes db)\<rparr>)"
  using del_outcomes_ok [OF del_keys_ok, of db q p] by simp

lemmas ow_db_ok = ow.run_keeps [where I = db_ok]

lemma claim_legacy_provider_ok:
  assumes ok: "db_ok db" shows "db_ok (snd (claim_legacy_provider billing owner actor reason hex t1 t2 db))"
proof -
  have "db_ok d \<Longrightarrow> ins_node r d = Inr d1 \<Longrightarrow> node_id r = n \<Longrightarrow>
      ins_own w (d1\<lparr>db_tokens := sql_update p (\<lambda>t. t\<lparr>tok_node := Some n\<rparr>) (db_tokens d1)\<rparr>) = Inr d2 \<Longrightarrow> db_ok d2"
    for d r d1 n w p d2
    using link_node_ok [of r d d1 p] ins_own_ok by blast
  note step = this [OF ok]
  show ?thesis
    unfolding claim_legacy_provider_def claim_body_def Let_def
    apply (simp add: ok del: split_paired_All)
    apply (intro impI ow_db_ok [OF ok] on_ok_intros)
    apply (simp_all del: split_paired_All)
    apply (erule step, simp_all)
    done
qed

lemma enroll_provider_node_ok:
  assumes ok: "db_ok db" shows "db_ok (snd (enroll_provider_node sha owner name profile now h1 h2 h3 h4 db))"
  unfolding enroll_provider_node_def enroll_body_def Let_def
  apply (simp add: ok)
  apply (intro impI ow_db_ok [OF ok] on_ok_intros)
  apply simp_all
  apply (erule ins_own_ok, erule ins_token_ok, erule ins_node_ok, erule ins_account_ok, rule ok)
  done

lemma revoke_owned_ok:
  assumes ok: "db_ok db" shows "db_ok (snd (revoke_owned_self_service_credential owner tid now db))"
  unfolding revoke_owned_self_service_credential_def Let_def
  apply (simp add: ok)
  apply (intro impI ow_db_ok [OF ok] on_ok_intros)
  apply (simp_all add: ok)
  apply (blast intro: ins_own_ok revoke_tokens_ok ok)
  done

lemma delete_user_ok: assumes ok: "db_ok db" shows "db_ok (snd (delete_user u db))"
  unfolding delete_user_def Let_def
  apply (intro ow_db_ok [OF ok] on_ok_intros)
  apply simp
  apply (blast intro: del_account_ok del_user_ok del_keys_outcomes_ok ok)
  done

end
