(* ===== verification/StoreUsers.thy ===== *)
theory StoreUsers
  imports StoreNodes
begin

text \<open>
  User accounts of \<open>coordinator/store.py\<close>: registration, password and GitHub sign-in, session
  versions, suspension, and the operator's views. Digests, random hex and clock reads are
  arguments; a date is its UTC day number.
\<close>

definition PERMANENT_SUSPENSION :: flt where "PERMANENT_SUSPENSION = 10 ^ 18"

section \<open>Registration and sign-in\<close>

definition before_char :: "char \<Rightarrow> string \<Rightarrow> string" where
  "before_char c s = takeWhile (\<lambda>x. x \<noteq> c) s"

definition after_char :: "char \<Rightarrow> string \<Rightarrow> string" where
  "after_char c s = drop (Suc (length (before_char c s))) s"

definition or_else :: "string \<Rightarrow> string \<Rightarrow> string" where
  "or_else a b = (if a \<noteq> [] then a else b)"

record created_user =
  cu_id :: string
  cu_email :: string
  cu_name :: string
  cu_key :: string

definition new_user :: "string \<Rightarrow> string \<Rightarrow> string \<Rightarrow> string \<Rightarrow> flt \<Rightarrow> string option \<Rightarrow> user" where
  "new_user i email password name now country = \<lparr>usr_id = i, usr_email = email, usr_password = password,
     usr_name = name, usr_role = ''consumer'', usr_created = now, usr_last_login = None,
     usr_country = country, usr_github = None, usr_session = 0, usr_suspended = None, usr_reason = ''''\<rparr>"

text \<open>The salted digest kept for a password.\<close>

definition password_entry :: "(string \<Rightarrow> string) \<Rightarrow> string \<Rightarrow> string \<Rightarrow> string" where
  "password_entry sha salt password = salt @ '':'' @ sha (salt @ '':'' @ password)"

definition ins_user_or :: "string \<Rightarrow> user \<Rightarrow> db \<Rightarrow> store_error + db" where
  "ins_user_or msg r db = (case ins_user r db of Inl e \<Rightarrow> Inl (ValueError msg) | Inr db' \<Rightarrow> Inr db')"

definition create_user ::
  "(string \<Rightarrow> string) \<Rightarrow> string \<Rightarrow> string \<Rightarrow> string \<Rightarrow> string option \<Rightarrow> string \<Rightarrow> string \<Rightarrow> string
    \<Rightarrow> flt \<Rightarrow> flt \<Rightarrow> flt \<Rightarrow> db \<Rightarrow> (store_error + created_user) \<times> db" where
  "create_user sha email password name country hex4 salt hex16 t1 t2 t3 = serialized_write (\<lambda>db.
     let uid = ''user-'' @ hex4; mail = str_strip (str_lower email);
         nm = or_else name (before_char (CHR ''@'') email); raw = KEY_PREFIX @ hex16 in
     bindE (ins_user_or (''Email already registered: '' @ email)
       (new_user uid mail (password_entry sha salt password) nm t1 country) db) (\<lambda>db1.
     bindE (ins_account (new_account uid nm t2) db1) (\<lambda>db2.
     bindE (ins_key (new_key (sha raw) uid ''Default Key'' t3) db2) (\<lambda>db3.
     Inr (\<lparr>cu_id = uid, cu_email = mail, cu_name = nm, cu_key = raw\<rparr>, db3)))))"

record user_view =
  uv_id :: string
  uv_email :: string
  uv_name :: string
  uv_role :: string
  uv_session :: int

definition view_user :: "user \<Rightarrow> user_view" where
  "view_user u = \<lparr>uv_id = usr_id u, uv_email = usr_email u, uv_name = usr_name u, uv_role = usr_role u,
     uv_session = usr_session u\<rparr>"

definition touch_login :: "string \<Rightarrow> flt \<Rightarrow> db \<Rightarrow> db" where
  "touch_login u now db = db\<lparr>db_users := sql_update (\<lambda>x. usr_id x = u)
     (\<lambda>x. x\<lparr>usr_last_login := Some now\<rparr>) (db_users db)\<rparr>"

definition password_matches :: "(string \<Rightarrow> string) \<Rightarrow> string \<Rightarrow> string \<Rightarrow> bool" where
  "password_matches sha password stored = (CHR '':'' \<in> set stored \<and>
     (let salt = before_char (CHR '':'') stored in
      sha (salt @ '':'' @ password) = after_char (CHR '':'') stored))"

definition authenticate_user ::
  "(string \<Rightarrow> string) \<Rightarrow> string \<Rightarrow> string \<Rightarrow> flt \<Rightarrow> db \<Rightarrow> (store_error + user_view option) \<times> db" where
  "authenticate_user sha email password now = serialized_write (\<lambda>db.
     case find (\<lambda>u. usr_email u = str_strip (str_lower email)) (db_users db) of
       None \<Rightarrow> Inr (None, db)
     | Some row \<Rightarrow> if \<not> password_matches sha password (usr_password row) then Inr (None, db)
         else Inr (Some (view_user row), touch_login (usr_id row) now db))"

definition upsert_github_user ::
  "string \<Rightarrow> string \<Rightarrow> string \<Rightarrow> string \<Rightarrow> string option \<Rightarrow> string \<Rightarrow> flt \<Rightarrow> db
    \<Rightarrow> (store_error + user_view \<times> bool) \<times> db" where
  "upsert_github_user github login email0 name0 country hex4 now = serialized_write (\<lambda>db.
     case find (\<lambda>u. usr_github u = Some github) (db_users db) of
       Some row \<Rightarrow> Inr ((view_user row, False), touch_login (usr_id row) now db)
     | None \<Rightarrow> (let uid = ''user-'' @ hex4;
           email = str_strip (str_lower (or_else email0 (login @ ''@users.noreply.github.com'')));
           name = or_else name0 login;
           row = (new_user uid email '''' name now country)\<lparr>usr_last_login := Some now, usr_github := Some github\<rparr> in
         bindE (ins_user_or (''Email already registered with a password account: '' @ email) row db) (\<lambda>db1.
         bindE (ins_account (new_account uid name now) db1) (\<lambda>db2.
         Inr ((view_user row, True), db2)))))"

definition has_github_user :: "string \<Rightarrow> db \<Rightarrow> bool" where
  "has_github_user github db = sql_exists (\<lambda>u. usr_github u = Some github) (db_users db)"

definition get_session_version :: "string \<Rightarrow> db \<Rightarrow> int option" where
  "get_session_version u db = map_option usr_session (find_user u db)"

definition bump_session_version :: "string \<Rightarrow> db \<Rightarrow> (store_error + unit) \<times> db" where
  "bump_session_version u = serialized_write (\<lambda>db. Inr ((), db\<lparr>db_users :=
     sql_update (\<lambda>x. usr_id x = u) (\<lambda>x. x\<lparr>usr_session := usr_session x + 1\<rparr>) (db_users db)\<rparr>))"

section \<open>Suspension\<close>

record suspension =
  sus_user :: string
  sus_reason :: string
  sus_permanent :: bool
  sus_until :: "flt option"

definition get_suspension :: "string \<Rightarrow> flt \<Rightarrow> db \<Rightarrow> suspension option" where
  "get_suspension u now db = (case find_user u db of None \<Rightarrow> None
     | Some r \<Rightarrow> (case usr_suspended r of None \<Rightarrow> None
         | Some t \<Rightarrow> if t \<le> now then None
             else Some \<lparr>sus_user = u, sus_reason = usr_reason r, sus_permanent = (PERMANENT_SUSPENSION \<le> t),
               sus_until = (if PERMANENT_SUSPENSION \<le> t then None else Some t)\<rparr>))"

definition suspend_user ::
  "string \<Rightarrow> string \<Rightarrow> string \<Rightarrow> flt option \<Rightarrow> flt \<Rightarrow> flt \<Rightarrow> db \<Rightarrow> (store_error + suspension option) \<times> db" where
  "suspend_user u reason actor duration now now2 = serialized_write (\<lambda>db.
     if find_user u db = None then Inr (None, db)
     else (let until = (case duration of None \<Rightarrow> PERMANENT_SUSPENSION | Some d \<Rightarrow> rnd (now + d));
               db1 = db\<lparr>db_users := sql_update (\<lambda>x. usr_id x = u) (\<lambda>x. x\<lparr>usr_suspended := Some until,
                   usr_reason := reason, usr_session := usr_session x + 1\<rparr>) (db_users db)\<rparr>;
               db2 = ins_act \<lparr>act_id = 0, act_user = u,
                   act_action = (if duration = None then ''ban'' else ''suspend''), act_reason = reason,
                   act_until = Some until, act_actor = actor, act_time = now\<rparr> db1
           in Inr (get_suspension u now2 db2, db2)))"

definition unsuspend_user :: "string \<Rightarrow> string \<Rightarrow> string \<Rightarrow> flt \<Rightarrow> db \<Rightarrow> (store_error + bool) \<times> db" where
  "unsuspend_user u reason actor now = serialized_write (\<lambda>db.
     if sql_count (\<lambda>x. usr_id x = u) (db_users db) = 0 then Inr (False, db)
     else Inr (True, ins_act \<lparr>act_id = 0, act_user = u, act_action = ''unsuspend'', act_reason = reason,
         act_until = None, act_actor = actor, act_time = now\<rparr>
       (db\<lparr>db_users := sql_update (\<lambda>x. usr_id x = u)
          (\<lambda>x. x\<lparr>usr_suspended := None, usr_reason := ''''\<rparr>) (db_users db)\<rparr>)))"

section \<open>Operator and user views\<close>

record admin_user =
  adm_id :: string
  adm_email :: string
  adm_name :: string
  adm_role :: string
  adm_created :: flt
  adm_last_login :: "flt option"
  adm_reason :: string
  adm_active_keys :: nat
  adm_key_used :: "flt option"
  adm_requests :: "int option"
  adm_tokens :: "int option"
  adm_suspended :: bool
  adm_permanent :: bool
  adm_until :: "flt option"

definition max_opt :: "flt list \<Rightarrow> flt option" where
  "max_opt xs = (case xs of [] \<Rightarrow> None | y # ys \<Rightarrow> Some (foldl max y ys))"

definition admin_user_of :: "flt \<Rightarrow> db \<Rightarrow> user \<Rightarrow> admin_user" where
  "admin_user_of now db u = (let keys = filter (\<lambda>k. key_consumer k = usr_id u) (db_keys db);
       acc = get_account (usr_id u) db; sus = suspended_at now (usr_suspended u);
       permanent = (sus \<and> (case usr_suspended u of None \<Rightarrow> False | Some t \<Rightarrow> PERMANENT_SUSPENSION \<le> t)) in
     \<lparr>adm_id = usr_id u, adm_email = usr_email u, adm_name = usr_name u, adm_role = usr_role u,
      adm_created = usr_created u, adm_last_login = usr_last_login u,
      adm_reason = (if sus then usr_reason u else ''''),
      adm_active_keys = sql_count (\<lambda>k. key_revoked k = None) keys,
      adm_key_used = max_opt (non_null (map key_last_used keys)),
      adm_requests = map_option acc_requests acc, adm_tokens = map_option acc_tokens acc,
      adm_suspended = sus, adm_permanent = permanent,
      adm_until = (if sus \<and> \<not> permanent then usr_suspended u else None)\<rparr>)"

definition list_users_for_admin :: "int \<Rightarrow> flt \<Rightarrow> db \<Rightarrow> admin_user list" where
  "list_users_for_admin limit now db =
     map (admin_user_of now db) (sql_limit limit (sql_desc usr_created (db_users db)))"

definition list_account_actions :: "string option \<Rightarrow> int \<Rightarrow> db \<Rightarrow> account_action list" where
  "list_account_actions u limit db = sql_limit limit (sql_desc act_time
     (case u of None \<Rightarrow> db_acts db
      | Some i \<Rightarrow> if i = [] then db_acts db else filter (\<lambda>a. act_user a = i) (db_acts db)))"

definition get_user :: "string \<Rightarrow> db \<Rightarrow> (string \<times> string \<times> string \<times> string \<times> flt) option" where
  "get_user u db = map_option (\<lambda>x. (usr_id x, usr_email x, usr_name x, usr_role x, usr_created x)) (find_user u db)"

definition has_users :: "db \<Rightarrow> bool" where
  "has_users db = (db_users db \<noteq> [])"

subsection \<open>Signup analytics\<close>

text \<open>\<open>datetime.fromtimestamp(x, utc)\<close> rounds to microseconds; its date is this day number.\<close>

definition utc_day :: "flt \<Rightarrow> int" where
  "utc_day x = (\<lfloor>x\<rfloor> * 1000000 + round_even (rnd ((x - of_int \<lfloor>x\<rfloor>) * 1000000))) div 86400000000"

record signup_report =
  sig_total :: nat
  sig_today :: nat
  sig_30days :: nat
  sig_since :: int
  sig_through :: int
  sig_countries :: "(string \<times> nat) list"
  sig_daily :: "(int \<times> nat) list"

definition count_into :: "'k \<Rightarrow> ('k, nat) dict \<Rightarrow> ('k, nat) dict" where
  "count_into k d = dict_set k (dict_get d k 0 + 1) d"

definition signup_analytics :: "flt \<Rightarrow> db \<Rightarrow> signup_report" where
  "signup_analytics now db = (let today = utc_day now; start = of_int (today * 86400);
       since = start - 29 * 86400; rows = db_users db;
       countries = foldl (\<lambda>d u. count_into (or_else (dflt '''' (usr_country u)) ''unknown'') d) [] rows;
       daily = foldl (\<lambda>d u. if since \<le> usr_created u \<and> usr_created u < start + 86400
                 then count_into (utc_day (usr_created u)) d else d) [] rows in
     \<lparr>sig_total = length rows, sig_today = dict_get daily today 0,
      sig_30days = sum_list (map snd daily), sig_since = today - 29, sig_through = today,
      sig_countries = sort_key (\<lambda>x. x) countries,
      sig_daily = map (\<lambda>i. (today - 29 + int i, dict_get daily (today - 29 + int i) 0)) [0..<30]\<rparr>)"

section \<open>Every operation keeps the constraints\<close>

lemmas sw_db_ok = sw.run_keeps [where I = db_ok]

lemma ins_user_or_ok: "ins_user_or msg r db = Inr db' \<Longrightarrow> db_ok db \<Longrightarrow> db_ok db'"
  by (auto simp: ins_user_or_def intro: ins_user_ok split: sum.splits)

lemma touch_login_ok: "db_ok db \<Longrightarrow> db_ok (touch_login u now db)"
  unfolding touch_login_def by (rule upd_users_ok) auto

lemma create_user_ok:
  assumes ok: "db_ok db" shows "db_ok (snd (create_user sha e p n c h4 s h16 t1 t2 t3 db))"
  unfolding create_user_def Let_def
  apply (intro sw_db_ok [OF ok] on_ok_intros)
  apply simp
  apply (erule ins_key_ok, erule ins_account_ok, erule ins_user_or_ok, rule ok)
  done

lemma authenticate_user_ok: "db_ok db \<Longrightarrow> db_ok (snd (authenticate_user sha e p now db))"
  unfolding authenticate_user_def
  by (rule sw.run_preserves) (auto split: option.splits if_splits intro: touch_login_ok)

lemma upsert_github_user_ok:
  assumes ok: "db_ok db" shows "db_ok (snd (upsert_github_user g l e n c h now db))"
  unfolding upsert_github_user_def Let_def
  apply (intro sw_db_ok [OF ok] on_ok_intros)
   apply simp
   apply (erule ins_account_ok, erule ins_user_or_ok, rule ok)
  apply (simp add: touch_login_ok ok)
  done

lemma bump_session_version_ok: "db_ok db \<Longrightarrow> db_ok (snd (bump_session_version u db))"
  unfolding bump_session_version_def by (rule sw.run_preserves) (auto intro!: upd_users_ok)

lemma suspend_user_ok: "db_ok db \<Longrightarrow> db_ok (snd (suspend_user u r a d t1 t2 db))"
  unfolding suspend_user_def Let_def
  by (rule sw.run_preserves) (auto split: if_splits intro!: upd_users_ok ins_act_ok)

lemma unsuspend_user_ok: "db_ok db \<Longrightarrow> db_ok (snd (unsuspend_user u r a t db))"
  unfolding unsuspend_user_def
  by (rule sw.run_preserves) (auto split: if_splits intro!: upd_users_ok ins_act_ok)

end
