(* ===== verification/CountryActivity.thy ===== *)
theory CountryActivity
  imports Json
begin

text \<open>
  \<open>coordinator/country_activity.py\<close>: bounded daily counters of completed requests between
  countries. \<open>enabled()\<close> reads the environment and is the argument \<open>on\<close>; the keyed digest
  \<open>_hash\<close> is the argument \<open>mac day kind value\<close>; the clock is \<open>now\<close>. The lemmas bound the
  memory, show that a repeated request id counts once, and that a snapshot publishes only
  yesterday's routes above both thresholds.
\<close>

section \<open>Countries\<close>

fun split_words_aux :: "string \<Rightarrow> string \<Rightarrow> string list" where
  "split_words_aux w [] = (if w = [] then [] else [rev w])"
| "split_words_aux w (c # cs) = (if is_space c then (if w = [] then [] else [rev w]) @ split_words_aux [] cs
     else split_words_aux (c # w) cs)"

text \<open>\<open>str.split()\<close>.\<close>

definition split_words :: "string \<Rightarrow> string list" where
  "split_words s = split_words_aux [] s"

definition COUNTRIES :: "string list" where
  "COUNTRIES =
     split_words ''AD AE AF AG AI AL AM AO AQ AR AS AT AU AW AX AZ BA BB BD BE BF BG BH BI BJ BL BM BN BO'' @
     split_words ''BQ BR BS BT BV BW BY BZ CA CC CD CF CG CH CI CK CL CM CN CO CR CU CV CW CX CY CZ DE DJ'' @
     split_words ''DK DM DO DZ EC EE EG EH ER ES ET FI FJ FK FM FO FR GA GB GD GE GF GG GH GI GL GM GN GP'' @
     split_words ''GQ GR GS GT GU GW GY HK HM HN HR HT HU ID IE IL IM IN IO IQ IR IS IT JE JM JO JP KE KG'' @
     split_words ''KH KI KM KN KP KR KW KY KZ LA LB LC LI LK LR LS LT LU LV LY MA MC MD ME MF MG MH MK ML'' @
     split_words ''MM MN MO MP MQ MR MS MT MU MV MW MX MY MZ NA NC NE NF NG NI NL NO NP NR NU NZ OM PA PE'' @
     split_words ''PF PG PH PK PL PM PN PR PS PT PW PY QA RE RO RS RU RW SA SB SC SD SE SG SH SI SJ SK SL'' @
     split_words ''SM SN SO SR SS ST SV SX SY SZ TC TD TF TG TH TJ TK TL TM TN TO TR TT TV TW TZ UA UG UM'' @
     split_words ''US UY UZ VA VC VE VG VI VN VU WF WS YE YT ZA ZM ZW''"

definition is_country :: "string option \<Rightarrow> bool" where
  "is_country c = (case c of None \<Rightarrow> False | Some s \<Rightarrow> s \<in> set COUNTRIES)"

definition DAY :: int where "DAY = 86400"
definition MAX_COMPLETIONS_PER_DAY :: nat where "MAX_COMPLETIONS_PER_DAY = 30000"
definition MAX_ROUTES_PER_DAY :: nat where "MAX_ROUTES_PER_DAY = 1024"
definition MIN_REQUESTS :: nat where "MIN_REQUESTS = 5"
definition MIN_CONSUMERS :: nat where "MIN_CONSUMERS = 3"

text \<open>\<open>trusted_country\<close>: the headers as a dict with lower-case names, the ingress secret as
  \<open>secret\<close>.\<close>

definition trusted_country :: "bool \<Rightarrow> string \<Rightarrow> (string, string) dict \<Rightarrow> string option" where
  "trusted_country on secret headers = (
     if \<not> on \<or> str_lower (dict_get headers ''x-ie-exclude-geography'' '''') \<in> {''1'', ''true''} then None
     else (let marker = dict_get headers ''x-ie-geo-secret'' '''' in
       if 256 < length marker \<or> marker \<noteq> secret then None
       else (let c = dict_get headers ''cf-ipcountry'' '''' in if c \<in> set COUNTRIES then Some c else None)))"

definition geography_enabled :: "string \<Rightarrow> string \<Rightarrow> bool" where
  "geography_enabled flag secret = (flag = ''1'' \<and> 32 \<le> length secret)"

text \<open>The published band of a count, as its bounds; \<open>None\<close> as upper bound is "1,000+".\<close>

definition bands :: "(nat \<times> nat) list" where
  "bands = [(5, 9), (10, 24), (25, 49), (50, 99), (100, 249), (250, 499), (500, 999)]"

definition count_band :: "nat \<Rightarrow> nat \<times> nat option" where
  "count_band n = (case find (\<lambda>(low, high). n \<le> high) bands of
     Some (low, high) \<Rightarrow> (low, Some high) | None \<Rightarrow> (1000, None))"

section \<open>The counters\<close>

record route_counter =
  rc_count :: nat
  rc_consumers :: "string list"

record day_state =
  ds_seen :: "string list"
  ds_routes :: "(string \<times> string, route_counter) dict"

type_synonym activity = "(int, day_state) dict"

definition empty_day :: day_state where
  "empty_day = \<lparr>ds_seen = [], ds_routes = []\<rparr>"

definition prune_days :: "int \<Rightarrow> activity \<Rightarrow> activity" where
  "prune_days today a = filter (\<lambda>(d, _). today - 1 \<le> d \<and> d \<le> today) a"

definition day_of :: "flt \<Rightarrow> int" where
  "day_of now = \<lfloor>now / of_int DAY\<rfloor>"

definition expire :: "bool \<Rightarrow> flt \<Rightarrow> activity \<Rightarrow> activity" where
  "expire on now a = (if on then prune_days (day_of now) a else [])"

text \<open>The account ids that are never counted.\<close>

definition shared_consumers :: "string list" where
  "shared_consumers = [''anonymous'', ''default'', ''default-consumer'']"

definition count_route :: "string \<Rightarrow> (string \<times> string) \<Rightarrow> string \<Rightarrow> day_state \<Rightarrow> day_state" where
  "count_route request_hash route consumer_hash s = (
     let c = dict_get (ds_routes s) route \<lparr>rc_count = 0, rc_consumers = []\<rparr>;
         c' = \<lparr>rc_count = rc_count c + 1,
               rc_consumers = (if length (rc_consumers c) < MIN_CONSUMERS
                 then List.insert consumer_hash (rc_consumers c) else rc_consumers c)\<rparr>
     in \<lparr>ds_seen = List.insert request_hash (ds_seen s), ds_routes = dict_set route c' (ds_routes s)\<rparr>)"

text \<open>\<open>setdefault(today, ...)\<close> leaves an empty day behind even when the request is not counted.\<close>

definition record_activity ::
  "(int \<Rightarrow> string \<Rightarrow> string \<Rightarrow> string) \<Rightarrow> bool \<Rightarrow> string option \<Rightarrow> string option \<Rightarrow> string \<Rightarrow> string
    \<Rightarrow> flt \<Rightarrow> activity \<Rightarrow> activity" where
  "record_activity mac on provider caller consumer request now a0 = (
     let today = day_of now; a = prune_days today a0 in
     if \<not> on \<or> \<not> is_country provider \<or> \<not> is_country caller then a
     else if consumer = [] \<or> consumer \<in> set shared_consumers \<or> request = [] then a
     else (let s = dict_get a today empty_day; a1 = dict_set today s a;
               h = mac today ''request'' request; route = (dflt '''' provider, dflt '''' caller);
               prior = ds_seen (dict_get a1 (today - 1) empty_day) in
       if mac (today - 1) ''request'' request \<in> set prior then a1
       else if h \<in> set (ds_seen s) \<or> MAX_COMPLETIONS_PER_DAY \<le> length (ds_seen s) then a1
       else if map_of (ds_routes s) route = None \<and> MAX_ROUTES_PER_DAY \<le> length (ds_routes s) then a1
       else dict_set today (count_route h route (mac today ''consumer'' consumer) s) a1))"

record released_route =
  rel_provider :: string
  rel_caller :: string
  rel_band :: "nat \<times> nat option"

record activity_snapshot =
  snap_enabled :: bool
  snap_day :: "int option"
  snap_routes :: "released_route list"

definition snapshot :: "bool \<Rightarrow> flt \<Rightarrow> activity \<Rightarrow> activity_snapshot \<times> activity" where
  "snapshot on now a0 = (let today = day_of now; a = prune_days today a0 in
     if \<not> on then (\<lparr>snap_enabled = False, snap_day = None, snap_routes = []\<rparr>, [])
     else (\<lparr>snap_enabled = True, snap_day = Some (today - 1),
        snap_routes = map (\<lambda>((src, dst), c). \<lparr>rel_provider = src, rel_caller = dst, rel_band = count_band (rc_count c)\<rparr>)
          (filter (\<lambda>(_, c). MIN_REQUESTS \<le> rc_count c \<and> MIN_CONSUMERS \<le> length (rc_consumers c))
            (sort_key fst (ds_routes (dict_get a (today - 1) empty_day))))\<rparr>, a))"

section \<open>Bounds and counting\<close>

definition day_ok :: "day_state \<Rightarrow> bool" where
  "day_ok s \<longleftrightarrow> distinct (ds_seen s) \<and> length (ds_seen s) \<le> MAX_COMPLETIONS_PER_DAY
     \<and> dict_ok (ds_routes s) \<and> length (ds_routes s) \<le> MAX_ROUTES_PER_DAY
     \<and> sum_list (map (\<lambda>(_, c). rc_count c) (ds_routes s)) = length (ds_seen s)
     \<and> (\<forall>(r, c) \<in> set (ds_routes s). fst r \<in> set COUNTRIES \<and> snd r \<in> set COUNTRIES
          \<and> distinct (rc_consumers c) \<and> length (rc_consumers c) \<le> min MIN_CONSUMERS (rc_count c))"

definition activity_ok :: "activity \<Rightarrow> bool" where
  "activity_ok a \<longleftrightarrow> dict_ok a \<and> (\<forall>(d, s) \<in> set a. day_ok s)
     \<and> (\<exists>t. \<forall>(d, s) \<in> set a. t - 1 \<le> d \<and> d \<le> t)"

lemma empty_day_ok [simp]: "day_ok empty_day"
  by (simp add: day_ok_def empty_day_def)

lemma sum_dict_set:
  "dict_ok d \<Longrightarrow> sum_list (map (\<lambda>(_, c). g c) (dict_set k v d))
    + (case map_of d k of Some w \<Rightarrow> g w | None \<Rightarrow> 0) = sum_list (map (\<lambda>(_, c). g c) d) + (g v :: nat)"
  by (induction d) (auto simp: dict_ok_def split: option.splits dest: map_of_Some_in_keys)

lemma count_route_ok:
  assumes ok: "day_ok s" and new: "h \<notin> set (ds_seen s)" and room: "length (ds_seen s) < MAX_COMPLETIONS_PER_DAY"
    and route: "map_of (ds_routes s) r \<noteq> None \<or> length (ds_routes s) < MAX_ROUTES_PER_DAY"
    and countries: "fst r \<in> set COUNTRIES" "snd r \<in> set COUNTRIES"
  shows "day_ok (count_route h r u s)"
proof -
  let ?c0 = "dict_get (ds_routes s) r \<lparr>rc_count = 0, rc_consumers = []\<rparr>"
  define c where "c = \<lparr>rc_count = rc_count ?c0 + 1, rc_consumers = (if length (rc_consumers ?c0) < MIN_CONSUMERS
    then List.insert u (rc_consumers ?c0) else rc_consumers ?c0)\<rparr>"
  have cr: "count_route h r u s = \<lparr>ds_seen = h # ds_seen s, ds_routes = dict_set r c (ds_routes s)\<rparr>"
    using new by (simp add: count_route_def Let_def c_def List.insert_def)
  have cc: "rc_count c = rc_count ?c0 + 1" by (simp add: c_def)
  have d: "dict_ok (ds_routes s)" using ok by (simp add: day_ok_def)
  have all: "\<forall>(r, c) \<in> set (ds_routes s). fst r \<in> set COUNTRIES \<and> snd r \<in> set COUNTRIES
      \<and> distinct (rc_consumers c) \<and> length (rc_consumers c) \<le> min MIN_CONSUMERS (rc_count c)"
    using ok by (simp add: day_ok_def)
  have old: "distinct (rc_consumers ?c0) \<and> length (rc_consumers ?c0) \<le> min MIN_CONSUMERS (rc_count ?c0)"
  proof (cases "map_of (ds_routes s) r")
    case (Some w)
    then have "(r, w) \<in> set (ds_routes s)" by (rule map_of_SomeD)
    with all have "distinct (rc_consumers w) \<and> length (rc_consumers w) \<le> min MIN_CONSUMERS (rc_count w)" by auto
    with Some show ?thesis by (simp add: dict_get_def)
  qed (simp add: dict_get_def)
  have newc: "distinct (rc_consumers c) \<and> length (rc_consumers c) \<le> min MIN_CONSUMERS (rc_count c)"
    using old by (auto simp: c_def List.insert_def)
  have sum: "sum_list (map (\<lambda>(_, c). rc_count c) (dict_set r c (ds_routes s)))
      = Suc (sum_list (map (\<lambda>(_, c). rc_count c) (ds_routes s)))"
    using sum_dict_set [OF d, of rc_count r c] cc by (simp add: dict_get_def split: option.splits)
  have len: "length (dict_set r c (ds_routes s)) \<le> MAX_ROUTES_PER_DAY"
    using route ok by (auto simp: length_dict_set day_ok_def dest: map_of_Some_in_keys)
  have "\<forall>(r, c) \<in> set (dict_set r c (ds_routes s)). fst r \<in> set COUNTRIES \<and> snd r \<in> set COUNTRIES
      \<and> distinct (rc_consumers c) \<and> length (rc_consumers c) \<le> min MIN_CONSUMERS (rc_count c)"
    using all newc countries set_dict_set_subset [of r c "ds_routes s"] by blast
  then show ?thesis using ok new room d sum len by (simp add: cr day_ok_def)
qed

lemma prune_days_idem [simp]: "prune_days t (prune_days t a) = prune_days t a"
  by (simp add: prune_days_def)

lemma prune_days_get [dict_simps]:
  "map_of (prune_days t a) d = (if t - 1 \<le> d \<and> d \<le> t then map_of a d else None)"
  by (induction a) (auto simp: prune_days_def)

lemma dict_ok_filter: "dict_ok d \<Longrightarrow> dict_ok (filter P d)"
  by (simp add: dict_ok_def distinct_map_filter)

lemma prune_days_ok: "activity_ok a \<Longrightarrow> activity_ok (prune_days t a)"
  by (auto simp: activity_ok_def prune_days_def dict_ok_filter)

lemma set_day_ok:
  assumes "activity_ok a" "day_ok s" "\<forall>(d, s) \<in> set a. t - 1 \<le> d \<and> d \<le> t"
  shows "activity_ok (dict_set t s a) \<and> (\<forall>(d, s) \<in> set (dict_set t s a). t - 1 \<le> d \<and> d \<le> t)"
proof -
  have "\<forall>(d, s) \<in> set (dict_set t s a). t - 1 \<le> d \<and> d \<le> t"
    using assms(3) set_dict_set_subset [of t s a] by fastforce
  moreover have "\<forall>(d, s) \<in> set (dict_set t s a). day_ok s"
    using assms(1,2) set_dict_set_subset [of t s a] unfolding activity_ok_def by fastforce
  ultimately show ?thesis using assms(1) unfolding activity_ok_def by blast
qed

lemma day_lookup_ok: "activity_ok a \<Longrightarrow> day_ok (dict_get a d empty_day)"
  by (auto simp: dict_get_def activity_ok_def split: option.splits dest: map_of_SomeD)

lemma pruned_range: "\<forall>(d, s) \<in> set (prune_days t a). t - 1 \<le> d \<and> d \<le> t"
  by (auto simp: prune_days_def)

lemma record_activity_ok:
  assumes ok: "activity_ok a" shows "activity_ok (record_activity mac on p c u q now a)"
proof -
  define t where "t = day_of now"
  define b where "b = prune_days t a"
  define s where "s = dict_get b t empty_day"
  have b: "activity_ok b" unfolding b_def by (rule prune_days_ok) (rule ok)
  have s: "day_ok s" unfolding s_def by (rule day_lookup_ok) (rule b)
  have rng: "\<forall>(d, s) \<in> set b. t - 1 \<le> d \<and> d \<le> t" unfolding b_def by (rule pruned_range)
  note b1 = set_day_ok [OF b s rng]
  note b2 = set_day_ok [OF b1 [THEN conjunct1] _ b1 [THEN conjunct2]]
  have "day_ok (count_route (mac t ''request'' q) (dflt [] p, dflt [] c) v s)"
    if "is_country p" "is_country c" "mac t ''request'' q \<notin> set (ds_seen s)"
      "\<not> MAX_COMPLETIONS_PER_DAY \<le> length (ds_seen s)"
      "\<not> (map_of (ds_routes s) (dflt [] p, dflt [] c) = None \<and> MAX_ROUTES_PER_DAY \<le> length (ds_routes s))" for v
    using that by (intro count_route_ok [OF s]) (auto simp: is_country_def split: option.splits)
  then show ?thesis
    using b b1 b2 by (simp add: record_activity_def Let_def flip: t_def b_def s_def)
qed

section \<open>Properties\<close>

text \<open>The country counters stay bounded: from any bounded state, recording a request, expiring and
  taking a snapshot leave at most two consecutive days, at most 30000 distinct requests and 1024
  routes per day, at most three account digests per route, only known countries, and route counts
  that add up to the number of distinct requests of the day.\<close>

theorem activity_bounded:
  assumes "activity_ok a"
  shows "activity_ok (record_activity mac on p c u q now a) \<and> activity_ok (expire on now a)
    \<and> activity_ok (snd (snapshot on now a))
    \<and> (\<forall>d s. map_of (record_activity mac on p c u q now a) d = Some s \<longrightarrow>
          length (ds_seen s) \<le> 30000 \<and> length (ds_routes s) \<le> 1024
        \<and> sum_list (map (\<lambda>(_, c). rc_count c) (ds_routes s)) = length (ds_seen s))"
proof -
  have r: "activity_ok (record_activity mac on p c u q now a)" by (rule record_activity_ok) (rule assms)
  then have "day_ok s" if "map_of (record_activity mac on p c u q now a) d = Some s" for d s
    using that by (auto simp: activity_ok_def dest: map_of_SomeD)
  then have "\<forall>d s. map_of (record_activity mac on p c u q now a) d = Some s \<longrightarrow>
        length (ds_seen s) \<le> 30000 \<and> length (ds_routes s) \<le> 1024
        \<and> sum_list (map (\<lambda>(_, c). rc_count c) (ds_routes s)) = length (ds_seen s)"
    by (auto simp: day_ok_def MAX_COMPLETIONS_PER_DAY_def MAX_ROUTES_PER_DAY_def)
  moreover have "activity_ok []" by (simp add: activity_ok_def)
  ultimately show ?thesis
    using r assms by (simp add: expire_def snapshot_def Let_def prune_days_ok)
qed

lemma activity_bounded_witness:
  "activity_ok (record_activity (\<lambda>d k v. k @ v) True (Some ''US'') (Some ''DE'') ''user-1'' ''r1'' 90000 [])"
  using activity_bounded [of "[]"] by (simp add: activity_ok_def)

lemma update_same: "map_of d k = Some v \<Longrightarrow> dict_set k v d = d"
  by (induction d) (auto split: if_splits)

text \<open>A completed request counts once. When its digest is already among today's requests,
  recording it again, for any countries and any consumer, changes no counter of any kept day.\<close>

theorem activity_counts_once:
  assumes "map_of a (day_of now) = Some s" "mac (day_of now) ''request'' q \<in> set (ds_seen s)"
  shows "record_activity mac on p c u q now a = prune_days (day_of now) a"
  using assms
  by (simp add: record_activity_def Let_def prune_days_get dict_get_def update_same)

lemma activity_counts_once_witness:
  "record_activity (\<lambda>d k v. k @ v) True (Some ''US'') (Some ''DE'') ''user-2'' ''r1'' 90000
      [(1, \<lparr>ds_seen = [''requestr1''], ds_routes = []\<rparr>)] = [(1, \<lparr>ds_seen = [''requestr1''], ds_routes = []\<rparr>)]"
proof -
  have d: "day_of 90000 = 1" by (simp add: day_of_def DAY_def floor_eq_iff)
  show ?thesis
    by (subst activity_counts_once [where s = "\<lparr>ds_seen = [''requestr1''], ds_routes = []\<rparr>"])
      (simp_all add: d prune_days_def)
qed

text \<open>A snapshot publishes only yesterday. Every released route has at least five requests and at
  least three distinct account digests on the day before, its published band contains its count, and
  nothing recorded today can change what is published.\<close>

lemma count_band_contains: "5 \<le> n \<Longrightarrow> (case count_band n of (lo, hi) \<Rightarrow> lo \<le> n \<and> (case hi of None \<Rightarrow> True | Some h \<Rightarrow> n \<le> h))"
  by (auto simp: count_band_def bands_def)

theorem snapshot_suppresses:
  assumes "activity_ok a" "r \<in> set (snap_routes (fst (snapshot on now a)))"
  shows "\<exists>s c. map_of a (day_of now - 1) = Some s
      \<and> map_of (ds_routes s) (rel_provider r, rel_caller r) = Some c
      \<and> 5 \<le> rc_count c \<and> distinct (rc_consumers c) \<and> 3 \<le> length (rc_consumers c)
      \<and> (case rel_band r of (lo, hi) \<Rightarrow> lo \<le> rc_count c \<and> (case hi of None \<Rightarrow> True | Some h \<Rightarrow> rc_count c \<le> h))
      \<and> fst (snapshot on now (dict_set (day_of now) s' a)) = fst (snapshot on now a)"
proof -
  let ?t = "day_of now"
  define s where "s = dict_get (prune_days ?t a) (?t - 1) empty_day"
  have s0: "s = dict_get a (?t - 1) empty_day" by (simp add: s_def dict_get_def prune_days_get)
  have "snap_routes (fst (snapshot on now a)) \<noteq> []" using assms(2) by force
  then have on: on by (simp add: snapshot_def Let_def split: if_splits)
  from assms(2) on obtain c where c: "((rel_provider r, rel_caller r), c) \<in> set (ds_routes s)"
    "MIN_REQUESTS \<le> rc_count c" "MIN_CONSUMERS \<le> length (rc_consumers c)" "rel_band r = count_band (rc_count c)"
    by (auto simp: snapshot_def Let_def simp flip: s_def)
  have sok: "day_ok s" unfolding s0 by (rule day_lookup_ok) (rule assms(1))
  have "map_of a (?t - 1) = Some s"
    using c(1) by (auto simp: s0 dict_get_def empty_day_def split: option.splits)
  moreover have "map_of (ds_routes s) (rel_provider r, rel_caller r) = Some c"
    using sok c(1) by (auto simp: day_ok_def intro: dict_ok_value)
  moreover have "distinct (rc_consumers c)" using sok c(1) by (auto simp: day_ok_def)
  moreover have "fst (snapshot on now (dict_set ?t s' a)) = fst (snapshot on now a)"
    by (simp add: snapshot_def Let_def dict_get_def prune_days_get)
  ultimately show ?thesis
    using c(2-4) count_band_contains [of "rc_count c"] by (auto simp: MIN_REQUESTS_def MIN_CONSUMERS_def)
qed

lemma snapshot_suppresses_witness:
  "let s = \<lparr>ds_seen = [''1'', ''2'', ''3'', ''4'', ''5''],
          ds_routes = [((''US'', ''DE''), \<lparr>rc_count = 5, rc_consumers = [''a'', ''b'', ''c'']\<rparr>)]\<rparr>
   in fst (snapshot True 200000 (dict_set 2 empty_day [(1, s)])) = fst (snapshot True 200000 [(1, s)])"
proof -
  let ?s = "\<lparr>ds_seen = [''1'', ''2'', ''3'', ''4'', ''5''],
      ds_routes = [((''US'', ''DE''), \<lparr>rc_count = 5, rc_consumers = [''a'', ''b'', ''c'']\<rparr>)]\<rparr>"
  have d: "day_of 200000 = 2" by (simp add: day_of_def DAY_def floor_eq_iff)
  have c: "''US'' \<in> set COUNTRIES \<and> ''DE'' \<in> set COUNTRIES" by code_simp
  have ok: "activity_ok [(1, ?s)]"
    using c by (auto simp: activity_ok_def day_ok_def dict_ok_def MAX_COMPLETIONS_PER_DAY_def
        MAX_ROUTES_PER_DAY_def MIN_CONSUMERS_def intro: exI [of _ 2])
  show ?thesis
    using snapshot_suppresses [OF ok, of "\<lparr>rel_provider = ''US'', rel_caller = ''DE'', rel_band = count_band 5\<rparr>"
        True 200000 empty_day]
    by (simp add: d Let_def)
      (simp add: snapshot_def Let_def d prune_days_def dict_get_def MIN_REQUESTS_def MIN_CONSUMERS_def)
qed

end
