(* ===== verification/Auth.thy ===== *)
theory Auth
  imports Base64 Json StoreUsers CountryActivity
begin

text \<open>
  Who is calling: \<open>config.py\<close> and the credentials of \<open>routes_auth.py\<close>. A session is a signed token in a
  cookie or an Authorization header, an API key is looked up in the store, and a caller without any
  credential is the shared anonymous account. HMAC-SHA256 under the server's secret and the JSON text
  format are parameters; the environment, the cookies and the headers (with lower-case names) are dicts.
\<close>

section \<open>Configuration (\<open>config.py\<close>)\<close>

type_synonym environ = "(string, string) dict"

fun split_on :: "char \<Rightarrow> string \<Rightarrow> string list" where
  "split_on x [] = [[]]"
| "split_on x (c # s) = (if c = x then [] # split_on x s
     else (case split_on x s of p # ps \<Rightarrow> (c # p) # ps | [] \<Rightarrow> [[c]]))"

definition is_production :: "environ \<Rightarrow> bool" where
  "is_production e = (str_lower (str_strip (dict_get e ''IE_ENV'' ''dev'')) \<in> {''prod'', ''production''})"

definition admin_emails :: "environ \<Rightarrow> string list" where
  "admin_emails e = map (str_lower \<circ> str_strip)
     (filter (\<lambda>x. str_strip x \<noteq> '''') (split_on (CHR '','') (dict_get e ''IE_ADMIN_EMAILS'' '''')))"

definition role_for :: "environ \<Rightarrow> string \<Rightarrow> string \<Rightarrow> string" where
  "role_for e email stored = (if str_strip (str_lower email) \<in> set (admin_emails e) then ''admin'' else stored)"

definition password_auth_enabled :: "environ \<Rightarrow> bool" where
  "password_auth_enabled e = (dict_get e ''IE_PASSWORD_AUTH'' (if is_production e then ''0'' else ''1'') = ''1'')"

section \<open>Attempts per address\<close>

definition AUTH_RATE_LIMIT :: nat where "AUTH_RATE_LIMIT = 10"
definition AUTH_RATE_WINDOW :: flt where "AUTH_RATE_WINDOW = 300"

type_synonym auth_attempts = "(string, flt list) dict"

definition check_auth_rate :: "string \<Rightarrow> flt \<Rightarrow> auth_attempts \<Rightarrow> bool \<times> auth_attempts" where
  "check_auth_rate ip now a =
     (let attempts = filter (\<lambda>t. rnd (now - t) < AUTH_RATE_WINDOW) (dict_get a ip [])
      in if AUTH_RATE_LIMIT \<le> length attempts then (False, a) else (True, dict_set ip (attempts @ [now]) a))"

section \<open>Signed tokens\<close>

record token_env =
  te_mac :: "string \<Rightarrow> string"
  te_dumps :: "json \<Rightarrow> string"
  te_loads :: "string \<Rightarrow> json option"

definition jwt_signature :: "token_env \<Rightarrow> string \<Rightarrow> string \<Rightarrow> string" where
  "jwt_signature te header body = b64url (te_mac te (header @ ''.'' @ body))"

definition create_jwt :: "token_env \<Rightarrow> trace \<Rightarrow> int \<Rightarrow> flt \<Rightarrow> flt \<Rightarrow> string" where
  "create_jwt te payload ttl t1 t2 =
     (let header = b64url (te_dumps te (JObj [(''alg'', JStr ''HS256''), (''typ'', JStr ''JWT'')]));
          payload' = dict_set ''iat'' (JInt (to_int t2)) (dict_set ''exp'' (JInt (to_int t1 + ttl * 3600)) payload);
          body = b64url (te_dumps te (JObj payload'))
      in header @ ''.'' @ body @ ''.'' @ jwt_signature te header body)"

text \<open>The number a JSON value compares as; \<open>None\<close> when the comparison raises.\<close>

fun json_num :: "json \<Rightarrow> flt option" where
  "json_num (JBool b) = Some (if b then 1 else 0)"
| "json_num (JInt n) = Some (of_int n)"
| "json_num (JFloat x) = Some x"
| "json_num _ = None"

text \<open>Every exception of the body is caught and means \<open>None\<close>.\<close>

definition verify_jwt :: "token_env \<Rightarrow> flt \<Rightarrow> string \<Rightarrow> trace option" where
  "verify_jwt te now token = (case split_on (CHR ''.'') token of
     [header, body, sig] \<Rightarrow>
       if sig \<noteq> jwt_signature te header body then None
       else (case Option.bind (b64url_decode body) (te_loads te) of
         Some (JObj payload) \<Rightarrow> (case json_num (dict_get payload ''exp'' (JInt 0)) of
             Some x \<Rightarrow> if x < now then None else Some payload
           | None \<Rightarrow> None)
       | _ \<Rightarrow> None)
   | _ \<Rightarrow> None)"

section \<open>Sessions\<close>

record http_request =
  hr_cookies :: "(string, string) dict"
  hr_headers :: "(string, string) dict"
  hr_client :: "string option"

definition SESSION_COOKIE :: string where "SESSION_COOKIE = ''ie_session''"

text \<open>A text claim of a token. The server signs only text for these claims.\<close>

definition claim_text :: "trace \<Rightarrow> string \<Rightarrow> string" where
  "claim_text d k = (case map_of d k of Some (JStr s) \<Rightarrow> s | _ \<Rightarrow> '''')"

definition offered_session :: "http_request \<Rightarrow> string" where
  "offered_session rq = (let cookie = dict_get (hr_cookies rq) SESSION_COOKIE '''' in
     if cookie \<noteq> '''' then cookie
     else (let auth = dict_get (hr_headers rq) ''authorization'' '''' in
       if starts_with ''bearer '' (str_lower auth) \<and> \<not> starts_with KEY_PREFIX (drop 7 auth) then drop 7 auth else ''''))"

text \<open>\<open>resolve_user_from_request\<close>: the payload of a valid token of the current session version.\<close>

definition session_user :: "token_env \<Rightarrow> flt \<Rightarrow> http_request \<Rightarrow> db \<Rightarrow> trace option" where
  "session_user te now rq db = (let token = offered_session rq in
     if token = '''' then None
     else (case verify_jwt te now token of
       None \<Rightarrow> None
     | Some payload \<Rightarrow> if payload = [] then None
         else (case get_session_version (claim_text payload ''user_id'') db of
           None \<Rightarrow> None
         | Some current \<Rightarrow> if json_num (dict_get payload ''sv'' (JInt 0)) = Some (of_int current) then Some payload else None)))"

definition session_token :: "token_env \<Rightarrow> environ \<Rightarrow> string \<Rightarrow> string \<Rightarrow> string \<Rightarrow> string \<Rightarrow> int \<Rightarrow> flt \<Rightarrow> flt \<Rightarrow> string" where
  "session_token te e uid email name role version t1 t2 = create_jwt te
     [(''user_id'', JStr uid), (''email'', JStr email), (''name'', JStr name), (''role'', JStr (role_for e email role)),
      (''sv'', JInt version)] 24 t1 t2"

section \<open>The caller\<close>

datatype auth_error = InvalidCredentials | AccountSuspended suspension

text \<open>The clock readings of one resolution: of the token, of the key's use, of the suspension.\<close>

record auth_clock =
  ak_token :: flt
  ak_key :: flt
  ak_suspension :: flt

definition check_not_suspended :: "flt \<Rightarrow> string \<Rightarrow> db \<Rightarrow> auth_error + string" where
  "check_not_suspended now uid db = (case get_suspension uid now db of
     Some s \<Rightarrow> Inl (AccountSuspended s) | None \<Rightarrow> Inr uid)"

text \<open>The API key in the Authorization header, with or without the word Bearer; empty without a header.\<close>

definition offered_key :: "http_request \<Rightarrow> string" where
  "offered_key rq = (let authorization = str_strip (dict_get (hr_headers rq) ''authorization'' [])
     in if starts_with ''bearer '' (str_lower authorization) then str_strip (drop 7 authorization) else authorization)"

definition resolve_caller :: "(string \<Rightarrow> string) \<Rightarrow> token_env \<Rightarrow> auth_clock \<Rightarrow> http_request \<Rightarrow> db \<Rightarrow> (auth_error + string) \<times> db" where
  "resolve_caller sha te ck rq db = (case session_user te (ak_token ck) rq db of
     Some payload \<Rightarrow> (check_not_suspended (ak_suspension ck) (claim_text payload ''user_id'') db, db)
   | None \<Rightarrow>
      (if str_strip (dict_get (hr_headers rq) ''authorization'' '''') = '''' then
         ((if dict_get (hr_cookies rq) SESSION_COOKIE '''' \<noteq> '''' then Inl InvalidCredentials else Inr DEFAULT_CONSUMER_ID), db)
       else (case validate_key sha (offered_key rq) (ak_key ck) db of
              (Inr (Some key), db') \<Rightarrow> (check_not_suspended (ak_suspension ck) (key_consumer key) db', db')
            | (_, db') \<Rightarrow> (Inl InvalidCredentials, db'))))"

definition resolve_private_caller ::
  "(string \<Rightarrow> string) \<Rightarrow> token_env \<Rightarrow> environ \<Rightarrow> auth_clock \<Rightarrow> http_request \<Rightarrow> db \<Rightarrow> (auth_error + string) \<times> db" where
  "resolve_private_caller sha te e ck rq db = (case resolve_caller sha te ck rq db of
     (Inr c, db') \<Rightarrow> ((if is_production e \<and> c = DEFAULT_CONSUMER_ID then Inl InvalidCredentials else Inr c), db')
   | (Inl x, db') \<Rightarrow> (Inl x, db'))"

definition anonymous_inference_blocked :: "environ \<Rightarrow> string \<Rightarrow> bool" where
  "anonymous_inference_blocked e c = (is_production e \<and> c = DEFAULT_CONSUMER_ID)"

section \<open>Administrators\<close>

definition has_verified_admin_session :: "token_env \<Rightarrow> environ \<Rightarrow> auth_clock \<Rightarrow> http_request \<Rightarrow> db \<Rightarrow> bool" where
  "has_verified_admin_session te e ck rq db = (case session_user te (ak_token ck) rq db of
     None \<Rightarrow> False
   | Some payload \<Rightarrow> claim_text payload ''role'' = ''admin'' \<and>
       (case get_user (claim_text payload ''user_id'') db of
          None \<Rightarrow> False
        | Some (_, email, _, role, _) \<Rightarrow> str_lower email = str_lower (claim_text payload ''email'')
            \<and> get_suspension (claim_text payload ''user_id'') (ak_suspension ck) db = None
            \<and> role_for e email role = ''admin''))"

definition is_admin_request :: "token_env \<Rightarrow> environ \<Rightarrow> auth_clock \<Rightarrow> http_request \<Rightarrow> db \<Rightarrow> bool" where
  "is_admin_request te e ck rq db = (has_verified_admin_session te e ck rq db \<or> (\<not> is_production e \<and> \<not> has_users db))"

end
