(* ===== verification/AuthRoutes.thy ===== *)
theory AuthRoutes
  imports Auth
begin

text \<open>
  The endpoints of \<open>routes_auth.py\<close>: sign-up, sign-in, sign-out, the caller's account and API keys, with the
  responses and exception handlers they use. A handler returns its response, or the store error it does
  not catch, and the database after it. Random hex digits and clock readings are arguments.
\<close>

section \<open>Responses\<close>

datatype cookie_change = KeepCookie | SetSession string | ClearSession

record http_response =
  rs_status :: int
  rs_body :: json
  rs_cookie :: cookie_change

definition respond :: "int \<Rightarrow> trace \<Rightarrow> http_response" where
  "respond status body = \<lparr>rs_status = status, rs_body = JObj body, rs_cookie = KeepCookie\<rparr>"

definition error_text :: "string \<Rightarrow> trace" where
  "error_text s = [(''error'', JStr s)]"

text \<open>The date of a day number since 1970, as \<open>time.gmtime\<close> computes it.\<close>

definition civil_date :: "int \<Rightarrow> int \<times> int \<times> int" where
  "civil_date day =
     (let z = day + 719468; era = z div 146097; doe = z mod 146097;
          yoe = (doe - doe div 1460 + doe div 36524 - doe div 146096) div 365;
          doy = doe - (365 * yoe + yoe div 4 - yoe div 100); mp = (5 * doy + 2) div 153;
          m = (if mp < 10 then mp + 3 else mp - 9)
      in (yoe + era * 400 + (if m \<le> 2 then 1 else 0), m, doy - (153 * mp + 2) div 5 + 1))"

definition two_digits :: "int \<Rightarrow> string" where
  "two_digits n = (if n < 10 then ''0'' else '''') @ int_str n"

definition utc_minute :: "flt \<Rightarrow> string" where
  "utc_minute t = (let s = \<lfloor>t\<rfloor> in case civil_date (s div 86400) of (y, m, d) \<Rightarrow>
     int_str y @ ''-'' @ two_digits m @ ''-'' @ two_digits d @ '' '' @ two_digits (s mod 86400 div 3600) @ '':''
       @ two_digits (s mod 3600 div 60) @ '' UTC'')"

definition account_suspended_response :: "suspension \<Rightarrow> http_response" where
  "account_suspended_response s = respond 403 [(''error'', JObj [
     (''message'', JStr (if sus_permanent s then ''This account is suspended.''
        else ''This account is suspended until '' @ utc_minute (dflt 0 (sus_until s)) @ ''.'')),
     (''type'', JStr ''permission_error''), (''code'', JStr ''account_suspended'')])]"

definition invalid_credentials_response :: http_response where
  "invalid_credentials_response = respond 401 [(''error'', JObj [
     (''message'', JStr ''Invalid, revoked, or expired credentials. Sign in again or create a new API key.''),
     (''type'', JStr ''invalid_request_error''), (''code'', JStr ''invalid_api_key'')])]"

text \<open>The two exception handlers of \<open>main.py\<close>.\<close>

definition auth_error_response :: "auth_error \<Rightarrow> http_response" where
  "auth_error_response x = (case x of InvalidCredentials \<Rightarrow> invalid_credentials_response
     | AccountSuspended s \<Rightarrow> account_suspended_response s)"

definition sign_in_required_response :: http_response where
  "sign_in_required_response = respond 401 [(''error'', JObj [
     (''message'', JStr ''Sign in or use an API key to run inference.''), (''type'', JStr ''authentication_required'')])]"

definition admin_required_response :: http_response where
  "admin_required_response = respond 403 (error_text ''Admin access required'')"

definition signup_disabled_response :: http_response where
  "signup_disabled_response = respond 403 [(''error'', JStr ''New sign-ups are paused. Existing accounts can still sign in.''),
     (''code'', JStr ''signup_disabled'')]"

definition password_auth_disabled_response :: http_response where
  "password_auth_disabled_response = respond 403 (error_text ''Password sign-in is disabled. Use GitHub.'')"

definition too_many_attempts_response :: http_response where
  "too_many_attempts_response = respond 429 (error_text ''Too many attempts. Try again in a few minutes.'')"

definition usd6 :: "int \<Rightarrow> json" where
  "usd6 micro = JFloat (py_round (int_div micro 1000000) 6)"

section \<open>Sign-up and sign-in\<close>

text \<open>What both handlers take from outside: digest, token functions, environment, clock readings.\<close>

record auth_params =
  ap_sha :: "string \<Rightarrow> string"
  ap_token :: token_env
  ap_env :: environ
  ap_clock :: "nat \<Rightarrow> flt"

type_synonym handled = "(store_error + http_response) \<times> db"

definition caller_address :: "http_request \<Rightarrow> string" where
  "caller_address rq = dflt ''unknown'' (hr_client rq)"

definition signup ::
  "auth_params \<Rightarrow> bool \<Rightarrow> string option \<Rightarrow> string \<Rightarrow> string \<Rightarrow> string \<Rightarrow> string \<Rightarrow> string \<Rightarrow> string
    \<Rightarrow> http_request \<Rightarrow> auth_attempts \<Rightarrow> db \<Rightarrow> handled \<times> auth_attempts" where
  "signup ap signup_off country email password name hex4 salt hex16 rq a db =
     (if \<not> password_auth_enabled (ap_env ap) then ((Inr password_auth_disabled_response, db), a)
      else if signup_off then ((Inr signup_disabled_response, db), a)
      else (case check_auth_rate (caller_address rq) (ap_clock ap 0) a of
        (False, a') \<Rightarrow> ((Inr too_many_attempts_response, db), a')
      | (True, a') \<Rightarrow>
          ((if length password < 6 then (Inr (respond 400 (error_text ''Password must be at least 6 characters'')), db)
            else if CHR ''@'' \<notin> set email then (Inr (respond 400 (error_text ''Invalid email'')), db)
            else (case create_user (ap_sha ap) email password name country hex4 salt hex16
                (ap_clock ap 1) (ap_clock ap 2) (ap_clock ap 3) db of
              (Inl (ValueError msg), db') \<Rightarrow> (Inr (respond 409 (error_text msg)), db')
            | (Inl x, db') \<Rightarrow> (Inl x, db')
            | (Inr u, db') \<Rightarrow> (Inr ((respond 200 [(''user_id'', JStr (cu_id u)), (''email'', JStr (cu_email u)),
                (''name'', JStr (cu_name u)), (''api_key'', JStr (cu_key u)), (''balance_usd'', JFloat 10),
                (''note'', JStr ''Welcome! You have $10.00 in free credits.'')])
                \<lparr>rs_cookie := SetSession (session_token (ap_token ap) (ap_env ap) (cu_id u) (cu_email u) (cu_name u) ''consumer'' 0
                   (ap_clock ap 4) (ap_clock ap 5))\<rparr>), db'))), a')))"

definition login ::
  "auth_params \<Rightarrow> string \<Rightarrow> string \<Rightarrow> http_request \<Rightarrow> auth_attempts \<Rightarrow> db \<Rightarrow> handled \<times> auth_attempts" where
  "login ap email password rq a db =
     (if \<not> password_auth_enabled (ap_env ap) then ((Inr password_auth_disabled_response, db), a)
      else (case check_auth_rate (caller_address rq) (ap_clock ap 0) a of
        (False, a') \<Rightarrow> ((Inr too_many_attempts_response, db), a')
      | (True, a') \<Rightarrow>
          ((case authenticate_user (ap_sha ap) email password (ap_clock ap 1) db of
              (Inl x, db') \<Rightarrow> (Inl x, db')
            | (Inr None, db') \<Rightarrow> (Inr (respond 401 (error_text ''Invalid email or password'')), db')
            | (Inr (Some u), db') \<Rightarrow> (case get_suspension (uv_id u) (ap_clock ap 2) db' of
                Some s \<Rightarrow> (Inr (account_suspended_response s), db')
              | None \<Rightarrow> (Inr ((respond 200 [(''user_id'', JStr (uv_id u)), (''email'', JStr (uv_email u)),
                  (''name'', JStr (uv_name u)), (''balance_usd'', (case get_account (uv_id u) db' of
                      Some acc \<Rightarrow> usd6 (acc_balance acc) | None \<Rightarrow> JInt 0))])
                  \<lparr>rs_cookie := SetSession (session_token (ap_token ap) (ap_env ap) (uv_id u) (uv_email u) (uv_name u) (uv_role u)
                     (uv_session u) (ap_clock ap 3) (ap_clock ap 4))\<rparr>), db'))), a')))"

text \<open>Signing out bumps the session version, so every token issued before stops working.\<close>

definition logout :: "auth_params \<Rightarrow> http_request \<Rightarrow> db \<Rightarrow> handled" where
  "logout ap rq db =
     (let db' = (case session_user (ap_token ap) (ap_clock ap 0) rq db of
        Some payload \<Rightarrow> snd (bump_session_version (claim_text payload ''user_id'') db) | None \<Rightarrow> db)
      in (Inr ((respond 200 [(''ok'', JBool True)])\<lparr>rs_cookie := ClearSession\<rparr>), db'))"

definition auth_config :: "bool \<Rightarrow> environ \<Rightarrow> trace" where
  "auth_config github e = [(''github'', JBool github), (''password'', JBool (password_auth_enabled e))]"

section \<open>The caller's keys and account\<close>

definition signed_in_required :: http_response where
  "signed_in_required = respond 401 (error_text ''Sign in required'')"

definition revoke_key_route :: "auth_params \<Rightarrow> string \<Rightarrow> http_request \<Rightarrow> db \<Rightarrow> handled" where
  "revoke_key_route ap key rq db = (case session_user (ap_token ap) (ap_clock ap 0) rq db of
     None \<Rightarrow> (Inr signed_in_required, db)
   | Some payload \<Rightarrow> (case revoke_api_key (claim_text payload ''user_id'') key (ap_clock ap 1) db of
       (Inl x, db') \<Rightarrow> (Inl x, db')
     | (Inr hit, db') \<Rightarrow> (Inr (if hit then respond 200 [(''ok'', JBool True), (''key_id'', JStr key)]
                         else respond 404 (error_text ''Key not found'')), db')))"

definition delete_account :: "auth_params \<Rightarrow> http_request \<Rightarrow> db \<Rightarrow> handled" where
  "delete_account ap rq db = (case session_user (ap_token ap) (ap_clock ap 0) rq db of
     None \<Rightarrow> (Inr signed_in_required, db)
   | Some payload \<Rightarrow> (case check_not_suspended (ap_clock ap 1) (claim_text payload ''user_id'') db of
       Inl x \<Rightarrow> (Inr (auth_error_response x), db)
     | Inr uid \<Rightarrow> (case delete_user uid db of
         (Inl ProviderNodesExist, db') \<Rightarrow> (Inr (respond 409 [(''error'', JObj [(''code'', JStr ''provider_nodes_exist''),
            (''message'', JStr ''Remove owned provider nodes through a reviewed offboarding process before deleting this account.'')])]), db')
       | (Inl x, db') \<Rightarrow> (Inl x, db')
       | (Inr (), db') \<Rightarrow> (Inr ((respond 200 [(''ok'', JBool True)])\<lparr>rs_cookie := ClearSession\<rparr>), db'))))"

text \<open>The store always answers an account, so the branch for other ledgers is not reached.\<close>

definition get_current_user :: "auth_params \<Rightarrow> auth_clock \<Rightarrow> http_request \<Rightarrow> db \<Rightarrow> handled" where
  "get_current_user ap ck rq db = (case session_user (ap_token ap) (ak_token ck) rq db of
     Some payload \<Rightarrow> (case check_not_suspended (ak_suspension ck) (claim_text payload ''user_id'') db of
         Inl x \<Rightarrow> (Inr (auth_error_response x), db)
       | Inr uid \<Rightarrow> (let acc = get_account uid db; money = (\<lambda>f. case acc of Some a \<Rightarrow> usd6 (f a) | None \<Rightarrow> JInt 0);
             count = (\<lambda>f. case acc of Some a \<Rightarrow> JInt (f a) | None \<Rightarrow> JInt 0)
           in (Inr (respond 200 [(''user_id'', JStr uid), (''email'', dict_get payload ''email'' (JStr '''')),
                (''name'', dict_get payload ''name'' (JStr '''')),
                (''is_admin'', JBool (has_verified_admin_session (ap_token ap) (ap_env ap) ck rq db)),
                (''balance_usd'', money acc_balance), (''total_spent_usd'', money acc_spent),
                (''requests_made'', count acc_requests), (''tokens_consumed'', count acc_tokens),
                (''api_keys'', JInt (int (length (get_user_api_keys uid db))))]), db)))
   | None \<Rightarrow> (case resolve_private_caller (ap_sha ap) (ap_token ap) (ap_env ap) ck rq db of
         (Inl x, db') \<Rightarrow> (Inr (auth_error_response x), db')
       | (Inr c, db') \<Rightarrow> (case get_or_create_account c ''Consumer'' (ap_clock ap 0) db' of
             (None, db'') \<Rightarrow> (Inl (KeyError c), db'')
           | (Some a, db'') \<Rightarrow> (Inr (respond 200 [(''consumer_id'', JStr c), (''is_admin'', JBool False),
                (''balance_usd'', usd6 (acc_balance a)), (''total_spent_usd'', usd6 (acc_spent a)),
                (''requests_made'', JInt (acc_requests a)), (''tokens_consumed'', JInt (acc_tokens a))]), db''))))"

text \<open>Creating a key: \<open>name\<close> is the text of the request's body, \<open>None\<close> without one.\<close>

definition create_key_route :: "auth_params \<Rightarrow> string option \<Rightarrow> string \<Rightarrow> string \<Rightarrow> http_request \<Rightarrow> db \<Rightarrow> handled" where
  "create_key_route ap name0 hex4 hex16 rq db = (let name = dflt ''API Key'' name0 in
     case session_user (ap_token ap) (ap_clock ap 0) rq db of
       Some payload \<Rightarrow> (case check_not_suspended (ap_clock ap 1) (claim_text payload ''user_id'') db of
           Inl x \<Rightarrow> (Inr (auth_error_response x), db)
         | Inr uid \<Rightarrow> (case create_api_key_for_user (ap_sha ap) uid name hex16 (ap_clock ap 2) db of
             (Inl x, db') \<Rightarrow> (Inl x, db')
           | (Inr raw, db') \<Rightarrow> (Inr (respond 200 [(''api_key'', JStr raw), (''consumer_id'', JStr uid), (''name'', JStr name)]), db')))
     | None \<Rightarrow> if is_production (ap_env ap) then (Inr (respond 401 (error_text ''Sign in to create API keys'')), db)
         else (case create_api_key (ap_sha ap) name hex4 hex16 (ap_clock ap 1) (ap_clock ap 2) db of
             (Inl x, db') \<Rightarrow> (Inl x, db')
           | (Inr (raw, c), db') \<Rightarrow> (Inr (respond 200 [(''api_key'', JStr raw), (''consumer_id'', JStr c), (''name'', JStr name),
                (''balance_usd'', JFloat 10)]), snd (get_or_create_account c name (ap_clock ap 3) db'))))"

definition key_json :: "string \<times> string \<times> flt \<times> flt option \<times> int \<Rightarrow> json" where
  "key_json k = (case k of (i, name, created, used, n) \<Rightarrow> JObj [(''key_id'', JStr i), (''name'', JStr name),
     (''created_at'', JFloat created), (''last_used_at'', j_opt JFloat used), (''requests_made'', JInt n)])"

definition list_keys_route :: "auth_params \<Rightarrow> http_request \<Rightarrow> db \<Rightarrow> http_response" where
  "list_keys_route ap rq db = (case session_user (ap_token ap) (ap_clock ap 0) rq db of
     Some payload \<Rightarrow> respond 200 [(''keys'', JList (map key_json (get_user_api_keys (claim_text payload ''user_id'') db)))]
   | None \<Rightarrow> respond 200 [(''keys'', JList [])])"

definition reset_balance_route :: "auth_params \<Rightarrow> auth_clock \<Rightarrow> http_request \<Rightarrow> db \<Rightarrow> handled" where
  "reset_balance_route ap ck rq db =
     (if is_production (ap_env ap) then
        (case resolve_private_caller (ap_sha ap) (ap_token ap) (ap_env ap) ck rq db of
           (Inl x, db') \<Rightarrow> (Inr (auth_error_response x), db')
         | (Inr _, db') \<Rightarrow> (Inr (respond 403 (error_text ''Balance reset is disabled in production alpha.'')), db'))
      else (case resolve_caller (ap_sha ap) (ap_token ap) ck rq db of
           (Inl x, db') \<Rightarrow> (Inr (auth_error_response x), db')
         | (Inr c, db') \<Rightarrow> (case reset_dev_balance c db' of
             (Inl x, db'') \<Rightarrow> (Inl x, db'')
           | (Inr (), db'') \<Rightarrow> (Inr (respond 200 [(''ok'', JBool True), (''balance_usd'', JFloat 10),
               (''note'', JStr ''Balance reset to $10.00 (alpha dummy credits)'')]), db''))))"

section \<open>Cross-site requests (\<open>main.py\<close>)\<close>

definition allowed_origins :: "environ \<Rightarrow> string list" where
  "allowed_origins e = [''http://localhost:3000'', ''http://localhost:8000'']
     @ map (rstrip_char (CHR ''/'') \<circ> str_strip) (filter (\<lambda>o_str. str_strip o_str \<noteq> '''')
         (dict_get e ''IE_PUBLIC_URL'' '''' # split_on (CHR '','') (dict_get e ''IE_ALLOWED_ORIGINS'' '''')))"

text \<open>\<open>CSRFMiddleware\<close>: whether the request is passed on.\<close>

definition csrf_passes :: "environ \<Rightarrow> string \<Rightarrow> http_request \<Rightarrow> bool" where
  "csrf_passes e method_name rq = (
     if method_name \<in> {''POST'', ''PUT'', ''DELETE'', ''PATCH''} \<and> map_of (hr_cookies rq) SESSION_COOKIE \<noteq> None then
       (let origin = dict_get (hr_headers rq) ''origin'' ''''; referer = dict_get (hr_headers rq) ''referer'' ''''
        in origin = '''' \<or> origin \<in> set (allowed_origins e) \<or> (\<exists>x \<in> set (allowed_origins e). starts_with x referer))
     else True)"

end
