(* ===== verification/OAuth.thy ===== *)
theory OAuth
  imports AuthRoutes
begin

text \<open>
  GitHub sign-in, \<open>oauth_github.py\<close>: the authorization request with its state and PKCE challenge, the
  redirect target, and the callback. The HTTP answers of GitHub, the age of a GitHub account, the random
  state and the URL encoding are parameters.
\<close>

definition STATE_COOKIE :: string where "STATE_COOKIE = ''ie_oauth_state''"
definition NEXT_COOKIE :: string where "NEXT_COOKIE = ''ie_oauth_next''"
definition DEFAULT_NEXT :: string where "DEFAULT_NEXT = ''/chat''"

definition github_configured :: "environ \<Rightarrow> bool" where
  "github_configured e = (dict_get e ''IE_GITHUB_CLIENT_ID'' '''' \<noteq> '''' \<and> dict_get e ''IE_GITHUB_CLIENT_SECRET'' '''' \<noteq> '''')"

definition callback_url :: "environ \<Rightarrow> string \<Rightarrow> string" where
  "callback_url e base = (let public = rstrip_char (CHR ''/'') (dict_get e ''IE_PUBLIC_URL'' '''')
     in (if public \<noteq> '''' then public else rstrip_char (CHR ''/'') base) @ ''/v1/auth/github/callback'')"

definition backslash :: char where "backslash = CHR 0x5C"

definition control_char :: "char \<Rightarrow> bool" where
  "control_char c = (byte c < 0x20 \<or> byte c = 0x7F)"

definition safe_next_path :: "string option \<Rightarrow> string" where
  "safe_next_path value = (case value of
     None \<Rightarrow> DEFAULT_NEXT
   | Some v \<Rightarrow>
       if v = '''' \<or> 512 < length v \<or> \<not> starts_with ''/'' v \<or> starts_with ''//'' v then DEFAULT_NEXT
       else if backslash \<in> set v \<or> (\<exists>c \<in> set v. control_char c) then DEFAULT_NEXT
       else (let path = before_char (CHR ''?'') v in
         if starts_with ''/v1/'' path \<or> starts_with ''/ws/'' path \<or> v = ''/login'' then DEFAULT_NEXT else v))"

text \<open>The digest is the raw SHA-256 here.\<close>

definition pkce_challenge :: "(string \<Rightarrow> string) \<Rightarrow> string \<Rightarrow> string" where
  "pkce_challenge digest verifier = b64url (digest verifier)"

text \<open>The query parameters of the redirect and the two cookies; \<open>None\<close> when sign-in is not configured.\<close>

definition github_login :: "(string \<Rightarrow> string) \<Rightarrow> environ \<Rightarrow> string \<Rightarrow> string option \<Rightarrow> string \<Rightarrow> string
    \<Rightarrow> ((string, string) dict \<times> (string, string) dict) option" where
  "github_login digest e base target state verifier = (if \<not> github_configured e then None else Some
     ([(''client_id'', dict_get e ''IE_GITHUB_CLIENT_ID'' ''''), (''redirect_uri'', callback_url e base),
       (''scope'', ''read:user user:email''), (''state'', state), (''code_challenge'', pkce_challenge digest verifier),
       (''code_challenge_method'', ''S256''), (''allow_signup'', ''true'')],
      [(STATE_COOKIE, state @ ''.'' @ verifier), (NEXT_COOKIE, safe_next_path target)]))"

section \<open>The identity\<close>

text \<open>The answers to the three calls; \<open>ga_token\<close> is empty when the exchange gave no token.\<close>

record github_answers =
  ga_token :: string
  ga_user :: trace
  ga_emails :: "trace list"

text \<open>The first primary, verified address; an entry without one raises, and is caught like every failure here.\<close>

definition primary_email :: "trace list \<Rightarrow> string option" where
  "primary_email es = (case find (\<lambda>e. truthy (dict_get e ''primary'' JNull) \<and> truthy (dict_get e ''verified'' JNull)) es of
     Some e \<Rightarrow> (case map_of e ''email'' of Some (JStr s) \<Rightarrow> Some s | _ \<Rightarrow> None)
   | None \<Rightarrow> Some '''')"

definition fetch_github_identity :: "github_answers \<Rightarrow> trace option" where
  "fetch_github_identity ga = (if ga_token ga = '''' then None
     else (let email = claim_text (ga_user ga) ''email'' in
       map_option (\<lambda>x. dict_set ''email'' (JStr x) (ga_user ga)) (if email = '''' then primary_email (ga_emails ga) else Some email)))"

section \<open>The callback\<close>

datatype oauth_result = NotConfigured | LoginError string | SignedIn string string

definition github_id :: "trace \<Rightarrow> string option" where
  "github_id gh = (case map_of gh ''id'' of Some (JInt n) \<Rightarrow> Some (int_str n) | Some (JStr s) \<Rightarrow> Some s | _ \<Rightarrow> None)"

record oauth_params =
  oa_auth :: auth_params
  oa_fetch :: "string \<Rightarrow> string \<Rightarrow> github_answers option"
  oa_min_age :: flt
  oa_age :: "string \<Rightarrow> flt"
  oa_signup_off :: bool
  oa_country :: "string option"
  oa_hex :: string

definition too_new :: "oauth_params \<Rightarrow> trace \<Rightarrow> bool" where
  "too_new oa gh = (oa_min_age oa \<noteq> 0 \<and> claim_text gh ''created_at'' \<noteq> '''' \<and> oa_age oa (claim_text gh ''created_at'') < oa_min_age oa)"

definition github_callback :: "oauth_params \<Rightarrow> string \<Rightarrow> string \<Rightarrow> http_request \<Rightarrow> db \<Rightarrow> (store_error + oauth_result) \<times> db" where
  "github_callback oa code state rq db = (let ap = oa_auth oa in
     if \<not> github_configured (ap_env ap) then (Inr NotConfigured, db)
     else (let stored = dict_get (hr_cookies rq) STATE_COOKIE ''''; stored_state = before_char (CHR ''.'') stored;
               verifier = after_char (CHR ''.'') stored
       in if code = '''' \<or> state = '''' \<or> stored_state = '''' \<or> state \<noteq> stored_state then (Inr (LoginError ''state''), db)
       else (case Option.bind (oa_fetch oa code verifier) fetch_github_identity of
         None \<Rightarrow> (Inr (LoginError ''github''), db)
       | Some gh \<Rightarrow>
           if too_new oa gh then (Inr (LoginError ''account_too_new''), db)
           else (case github_id gh of
             None \<Rightarrow> (Inl (KeyError ''id''), db)
           | Some gid \<Rightarrow>
               if oa_signup_off oa \<and> \<not> has_github_user gid db then (Inr (LoginError ''signup_disabled''), db)
               else (case upsert_github_user gid (claim_text gh ''login'') (claim_text gh ''email'') (claim_text gh ''name'')
                   (oa_country oa) (oa_hex oa) (ap_clock ap 0) db of
                 (Inl (ValueError _), db') \<Rightarrow> (Inr (LoginError ''email_taken''), db')
               | (Inl x, db') \<Rightarrow> (Inl x, db')
               | (Inr (u, created), db') \<Rightarrow>
                   if get_suspension (uv_id u) (ap_clock ap 1) db' \<noteq> None then (Inr (LoginError ''suspended''), db')
                   else (Inr (SignedIn (safe_next_path (map_of (hr_cookies rq) NEXT_COOKIE))
                       (session_token (ap_token ap) (ap_env ap) (uv_id u) (uv_email u) (uv_name u) (uv_role u) (uv_session u)
                          (ap_clock ap 2) (ap_clock ap 3))), db'))))))"

end
