(* ===== verification/StoreOutcomes.thy ===== *)
theory StoreOutcomes
  imports StoreUsers CountryActivity
begin

text \<open>
  Request outcomes of \<open>coordinator/store.py\<close>: the bounded operational history beside the
  ledger. A row keeps the trace that \<open>json.dumps\<close> writes. The lemmas show that pruning keeps
  the newest rows inside the retention window, that a settled row is never rewritten, and what
  the owner's and the public views can contain.
\<close>

section \<open>Pruning\<close>

definition outcome_rank :: "outcome \<Rightarrow> flt \<times> string" where
  "outcome_rank r = (out_time r, out_request r)"

definition prune_outcomes :: "flt \<Rightarrow> db \<Rightarrow> db" where
  "prune_outcomes now db = (
     let kept = sql_delete (\<lambda>r. out_time r < rnd (now - TRACE_RETENTION_SECONDS)) (db_outcomes db);
         old = drop TRACE_MAX_ROWS (sql_desc outcome_rank kept)
     in db\<lparr>db_outcomes := sql_delete (\<lambda>r. out_request r \<in> set (map out_request old)) kept\<rparr>)"

section \<open>Writing outcomes\<close>

text \<open>\<open>trace["request_id"]\<close>, \<open>trace.get("timestamp", time.time())\<close> and \<open>trace.get("status",
  "unknown")\<close>; the callers put a text id, a float time and a text status.\<close>

definition trace_time :: "trace \<Rightarrow> flt \<Rightarrow> flt" where
  "trace_time t now = (case map_of t ''timestamp'' of
     Some (JFloat x) \<Rightarrow> x | Some (JInt n) \<Rightarrow> of_int n | _ \<Rightarrow> now)"

definition trace_status :: "trace \<Rightarrow> string" where
  "trace_status t = (case map_of t ''status'' of Some (JStr s) \<Rightarrow> s | _ \<Rightarrow> ''unknown'')"

definition save_request_outcome ::
  "trace \<Rightarrow> string option \<Rightarrow> flt \<Rightarrow> flt \<Rightarrow> db \<Rightarrow> (store_error + unit) \<times> db" where
  "save_request_outcome t consumer now1 now2 = serialized_write (\<lambda>db.
     case map_of t ''request_id'' of
       Some (JStr rid) \<Rightarrow> Inr ((), prune_outcomes now2 (ins_outcome
         \<lparr>out_request = rid, out_consumer = consumer, out_time = trace_time t now1,
          out_status = trace_status t, out_payload = t, out_provider_country = None,
          out_caller_country = None\<rparr> db))
     | _ \<Rightarrow> Inl (KeyError ''request_id''))"

definition open_statuses :: "string list" where
  "open_statuses = [''matched'', ''matched_from_queue'']"

record amendment =
  am_status :: string
  am_served_model :: "string option"
  am_latency :: "int option"
  am_provider_country :: "string option"
  am_caller_country :: "string option"

definition amend_trace :: "amendment \<Rightarrow> trace \<Rightarrow> trace" where
  "amend_trace m t = (
     let t1 = dict_set ''status'' (JStr (am_status m)) t;
         t2 = (case am_served_model m of None \<Rightarrow> t1 | Some s \<Rightarrow> dict_set ''served_model'' (JStr s) t1)
     in (case am_latency m of None \<Rightarrow> t2 | Some n \<Rightarrow> dict_set ''latency_ms'' (JInt n) t2))"

definition amend_row :: "amendment \<Rightarrow> outcome \<Rightarrow> outcome" where
  "amend_row m r = (
     let src = (if is_country (am_provider_country m) \<and> is_country (am_caller_country m)
                then am_provider_country m else None);
         dst = (if has_text src then am_caller_country m else None)
     in r\<lparr>out_status := am_status m, out_payload := amend_trace m (out_payload r),
          out_provider_country := src, out_caller_country := dst\<rparr>)"

definition amend_request_outcome ::
  "string \<Rightarrow> string option \<Rightarrow> amendment \<Rightarrow> flt \<Rightarrow> db \<Rightarrow> (store_error + unit) \<times> db" where
  "amend_request_outcome rid consumer m now = serialized_write (\<lambda>db.
     case find (\<lambda>r. out_request r = rid) (db_outcomes db) of
       None \<Rightarrow> Inr ((), db)
     | Some row \<Rightarrow>
         if consumer \<noteq> None \<and> out_consumer row \<noteq> consumer then Inr ((), db)
         else if out_status row \<notin> set open_statuses then Inr ((), db)
         else Inr ((), prune_outcomes now (db\<lparr>db_outcomes :=
                sql_update (\<lambda>r. out_request r = rid) (amend_row m) (db_outcomes db)\<rparr>)))"

definition interrupt_row :: "outcome \<Rightarrow> outcome" where
  "interrupt_row r = r\<lparr>out_status := ''interrupted'',
     out_payload := dict_set ''reason'' (JStr ''Coordinator restarted before completion was confirmed.'')
       (dict_set ''status'' (JStr ''interrupted'') (out_payload r))\<rparr>"

definition interrupt_request_outcomes :: "flt \<Rightarrow> db \<Rightarrow> (store_error + unit) \<times> db" where
  "interrupt_request_outcomes now = serialized_write (\<lambda>db. Inr ((), prune_outcomes now (db\<lparr>db_outcomes :=
     sql_update (\<lambda>r. out_status r \<in> set open_statuses) interrupt_row (db_outcomes db)\<rparr>)))"

section \<open>Reading outcomes\<close>

datatype outcome_view =
    CompletedView string flt "string option" "string option"
  | TraceView trace

definition public_trace :: "trace \<Rightarrow> trace" where
  "public_trace t = filter (\<lambda>(k, v). k \<noteq> ''_consumer_id'') t"

definition outcome_page :: "string option \<Rightarrow> int \<Rightarrow> bool \<Rightarrow> db \<Rightarrow> outcome list" where
  "outcome_page consumer limit completed db =
     take (nat (min (max limit 1) 100)) (sql_desc outcome_rank
       (filter (\<lambda>r. (consumer = None \<or> out_consumer r = consumer)
          \<and> (\<not> completed \<or> out_status r = ''completed'')) (db_outcomes db)))"

definition request_outcomes ::
  "string option \<Rightarrow> int \<Rightarrow> bool \<Rightarrow> flt \<Rightarrow> db \<Rightarrow> (store_error + outcome_view list) \<times> db" where
  "request_outcomes consumer limit completed now = serialized_write (\<lambda>db0.
     let db = prune_outcomes now db0 in Inr (map (\<lambda>r. if completed
         then CompletedView (out_request r) (out_time r) (out_provider_country r) (out_caller_country r)
         else TraceView (public_trace (out_payload r))) (outcome_page consumer limit completed db), db))"

definition request_outcome ::
  "string \<Rightarrow> string option \<Rightarrow> flt \<Rightarrow> db \<Rightarrow> (store_error + trace option) \<times> db" where
  "request_outcome rid consumer now = serialized_write (\<lambda>db0. let db = prune_outcomes now db0 in
     case find (\<lambda>r. out_request r = rid) (db_outcomes db) of
       None \<Rightarrow> Inr (None, db)
     | Some row \<Rightarrow> if consumer \<noteq> None \<and> out_consumer row \<noteq> consumer then Inr (None, db)
         else Inr (Some (public_trace (out_payload row)), db))"

subsection \<open>The public projection\<close>

definition public_statuses :: "string list" where
  "public_statuses = [''completed'', ''matched'', ''matched_from_queue'', ''interrupted'', ''failed'',
     ''no_compatible_provider'', ''no_provider_available'', ''model_not_available'',
     ''queue_full'', ''queue_timeout'', ''no_provider'']"

record public_row =
  pub_minute :: int
  pub_status :: string
  pub_model :: "string option"
  pub_provider_country :: "string option"
  pub_caller_country :: "string option"
  pub_input :: "int option"
  pub_output :: "int option"
  pub_cost :: "int option"
  pub_latency :: "int option"

definition minute_of :: "flt \<Rightarrow> int" where
  "minute_of t = \<lfloor>t / 60\<rfloor> * 60"

text \<open>\<open>(SELECT id FROM transactions WHERE request_id = ... ORDER BY id DESC LIMIT 1)\<close>.\<close>

definition latest_tx :: "string \<Rightarrow> db \<Rightarrow> transaction option" where
  "latest_tx rid db = (case sql_desc tx_id (filter (\<lambda>t. tx_request t = rid) (db_txs db)) of
     [] \<Rightarrow> None | t # _ \<Rightarrow> Some t)"

definition public_row_of :: "bool \<Rightarrow> db \<Rightarrow> outcome \<Rightarrow> public_row" where
  "public_row_of geo db r = (let settled = (out_status r = ''completed''); t = latest_tx (out_request r) db;
       src = (if geo \<and> settled \<and> is_country (out_provider_country r) then out_provider_country r else None);
       dst = (if has_text src \<and> is_country (out_caller_country r) then out_caller_country r else None) in
     \<lparr>pub_minute = minute_of (out_time r),
      pub_status = (if out_status r \<in> set public_statuses then out_status r else ''other''),
      pub_model = (if settled then (case t of None \<Rightarrow> None | Some x \<Rightarrow> tx_served_model x) else None),
      pub_provider_country = (if has_text dst then src else None),
      pub_caller_country = dst,
      pub_input = (if settled then map_option tx_input t else None),
      pub_output = (if settled then map_option tx_output t else None),
      pub_cost = (if settled then map_option tx_cost t else None),
      pub_latency = (if settled then map_option tx_latency t else None)\<rparr>)"

definition public_window :: "bool \<Rightarrow> bool \<Rightarrow> db \<Rightarrow> public_row list" where
  "public_window geo completed db = map (public_row_of geo db) (take 30 (sql_desc outcome_rank
     (filter (\<lambda>r. \<not> completed \<or> out_status r = ''completed'') (db_outcomes db))))"

text \<open>\<open>GROUP BY provider_country, caller_country ORDER BY latest DESC, ...\<close>, known countries, 30.\<close>

definition country_pairs :: "db \<Rightarrow> (string \<times> string \<times> flt) list" where
  "country_pairs db = concat (map (\<lambda>r. case (out_provider_country r, out_caller_country r) of
       (Some p, Some c) \<Rightarrow> if out_status r = ''completed'' then [(p, c, out_time r)] else []
     | _ \<Rightarrow> []) (db_outcomes db))"

definition public_routes :: "bool \<Rightarrow> db \<Rightarrow> (string \<times> string \<times> int) list" where
  "public_routes geo db = (if \<not> geo then [] else
     (let rows = country_pairs db;
          groups = map (\<lambda>(p, c). (p, c, dflt 0 (max_opt (map (\<lambda>(_, _, t). t) (filter (\<lambda>(p1, c1, _). p1 = p \<and> c1 = c) rows)))))
            (remdups (map (\<lambda>(p, c, _). (p, c)) rows)) in
      take 30 (map (\<lambda>(p, c, t). (p, c, minute_of t))
        (filter (\<lambda>(p, c, _). p \<in> set COUNTRIES \<and> c \<in> set COUNTRIES)
          (sort_key (\<lambda>(p, c, t). (- t, p, c)) groups)))))"

record network_activity =
  net_geography :: bool
  net_requests :: "public_row list"
  net_completions :: "public_row list"
  net_routes :: "(string \<times> string \<times> int) list"

definition public_network_activity :: "bool \<Rightarrow> flt \<Rightarrow> db \<Rightarrow> (store_error + network_activity) \<times> db" where
  "public_network_activity geo now = serialized_write (\<lambda>db0. let db = prune_outcomes now db0 in
     Inr (\<lparr>net_geography = geo, net_requests = public_window geo False db,
           net_completions = public_window geo True db, net_routes = public_routes geo db\<rparr>, db))"

section \<open>What pruning keeps\<close>

lemma prune_outcomes_only [simp]:
  "db_accounts (prune_outcomes now db) = db_accounts db" "db_txs (prune_outcomes now db) = db_txs db"
  "db_keys (prune_outcomes now db) = db_keys db" "db_tokens (prune_outcomes now db) = db_tokens db"
  "db_users (prune_outcomes now db) = db_users db" "db_nodes (prune_outcomes now db) = db_nodes db"
  "db_owns (prune_outcomes now db) = db_owns db" "seq_tx (prune_outcomes now db) = seq_tx db"
  by (simp_all add: prune_outcomes_def Let_def)

lemma prune_outcomes_subset: "set (db_outcomes (prune_outcomes now db)) \<subseteq> set (db_outcomes db)"
  by (auto simp: prune_outcomes_def Let_def sql_delete_def)

lemma prune_outcomes_ok: "db_ok db \<Longrightarrow> db_ok (prune_outcomes now db)"
  using del_outcomes_ok [OF del_outcomes_ok]
  by (simp add: prune_outcomes_def Let_def)

lemma distinct_keys_split:
  assumes "distinct (map g (xs @ ys))"
  shows "filter (\<lambda>r. g r \<notin> g ` set ys) (xs @ ys) = xs"
  using assms by (auto simp: filter_id_conv filter_empty_conv)

lemma mset_filter_perm: "mset xs = mset ys \<Longrightarrow> mset (filter P xs) = mset (filter P ys)"
  by simp

lemma pruned_rows:
  fixes now db
  defines "kept \<equiv> sql_delete (\<lambda>r. out_time r < rnd (now - TRACE_RETENTION_SECONDS)) (db_outcomes db)"
  assumes "outcomes_ok db"
  shows "mset (db_outcomes (prune_outcomes now db)) = mset (take TRACE_MAX_ROWS (sql_desc outcome_rank kept))"
proof -
  let ?s = "sql_desc outcome_rank kept"
  let ?old = "drop TRACE_MAX_ROWS ?s"
  have "distinct (map out_request kept)"
    using assms(2) by (simp add: kept_def outcomes_ok_def distinct_map_sql_delete)
  then have d: "distinct (map out_request ?s)"
    by (metis mset_eq_imp_distinct_iff mset_map mset_sql_desc)
  have "filter (\<lambda>r. out_request r \<notin> out_request ` set ?old) ?s = take TRACE_MAX_ROWS ?s"
    using distinct_keys_split [of out_request "take TRACE_MAX_ROWS ?s" ?old] d by simp
  moreover have "mset (filter (\<lambda>r. out_request r \<notin> out_request ` set ?old) kept)
      = mset (filter (\<lambda>r. out_request r \<notin> out_request ` set ?old) ?s)"
    by (rule mset_filter_perm) simp
  moreover have "db_outcomes (prune_outcomes now db) = filter (\<lambda>r. out_request r \<notin> out_request ` set ?old) kept"
    by (simp add: prune_outcomes_def Let_def kept_def sql_delete_def)
  ultimately show ?thesis by (simp only:)
qed

lemma prune_outcomes_length:
  "outcomes_ok db \<Longrightarrow> length (db_outcomes (prune_outcomes now db)) \<le> TRACE_MAX_ROWS"
proof -
  assume "outcomes_ok db"
  from pruned_rows [OF this, of now, THEN arg_cong, of size] show ?thesis by simp
qed

text \<open>Every dropped row is too old or ranked below every kept one.\<close>

lemma prune_outcomes_newest:
  assumes "outcomes_ok db" "r \<in> set (db_outcomes db)" "r \<notin> set (db_outcomes (prune_outcomes now db))"
    and "q \<in> set (db_outcomes (prune_outcomes now db))"
  shows "out_time r < rnd (now - TRACE_RETENTION_SECONDS) \<or> outcome_rank r \<le> outcome_rank q"
proof (cases "out_time r < rnd (now - TRACE_RETENTION_SECONDS)")
  case False
  define kept where "kept = sql_delete (\<lambda>r. out_time r < rnd (now - TRACE_RETENTION_SECONDS)) (db_outcomes db)"
  let ?s = "sql_desc outcome_rank kept"
  have set: "set (db_outcomes (prune_outcomes now db)) = set (take TRACE_MAX_ROWS ?s)"
    using pruned_rows [OF assms(1), of now, THEN arg_cong, of set_mset] by (simp add: kept_def)
  have "r \<in> set ?s" using False assms(2) by (simp add: kept_def sql_delete_def)
  then have "r \<in> set (take TRACE_MAX_ROWS ?s @ drop TRACE_MAX_ROWS ?s)" by simp
  then have "r \<in> set (drop TRACE_MAX_ROWS ?s)" using assms(3) unfolding set set_append by blast
  moreover have "q \<in> set (take TRACE_MAX_ROWS ?s)" using assms(4) set by simp
  moreover have "sorted_wrt (\<lambda>a b. outcome_rank b \<le> outcome_rank a) (take TRACE_MAX_ROWS ?s @ drop TRACE_MAX_ROWS ?s)"
    using sorted_sql_desc [of outcome_rank kept] by simp
  ultimately show ?thesis unfolding sorted_wrt_append by blast
qed simp

lemma prune_outcomes_recent:
  "r \<in> set (db_outcomes (prune_outcomes now db)) \<Longrightarrow> rnd (now - TRACE_RETENTION_SECONDS) \<le> out_time r"
  by (simp add: prune_outcomes_def Let_def sql_delete_def)

section \<open>Every operation keeps the constraints\<close>

lemma amend_row_request [simp]: "out_request (amend_row m r) = out_request r"
  by (simp add: amend_row_def Let_def)

lemma interrupt_row_request [simp]: "out_request (interrupt_row r) = out_request r"
  by (simp add: interrupt_row_def)

lemma save_request_outcome_ok:
  assumes ok: "db_ok db" shows "db_ok (snd (save_request_outcome t c t1 t2 db))"
  unfolding save_request_outcome_def
  by (rule sw_db_ok [OF ok])
    (auto split: option.splits json.splits intro!: prune_outcomes_ok ins_outcome_ok ok)

lemma amend_request_outcome_ok:
  assumes ok: "db_ok db" shows "db_ok (snd (amend_request_outcome rid c m now db))"
  unfolding amend_request_outcome_def
  by (rule sw_db_ok [OF ok])
    (auto split: option.splits simp: ok intro!: prune_outcomes_ok upd_outcomes_ok)

lemma interrupt_request_outcomes_ok:
  assumes ok: "db_ok db" shows "db_ok (snd (interrupt_request_outcomes now db))"
  unfolding interrupt_request_outcomes_def
  by (rule sw_db_ok [OF ok]) (auto simp: ok intro!: prune_outcomes_ok upd_outcomes_ok)

lemma request_outcomes_ok: assumes ok: "db_ok db" shows "db_ok (snd (request_outcomes c l k now db))"
  unfolding request_outcomes_def Let_def
  by (rule sw_db_ok [OF ok]) (simp add: prune_outcomes_ok ok)

lemma request_outcome_ok: assumes ok: "db_ok db" shows "db_ok (snd (request_outcome rid c now db))"
  unfolding request_outcome_def Let_def
  by (rule sw_db_ok [OF ok]) (auto split: option.splits simp: prune_outcomes_ok ok)

lemma public_network_activity_ok: assumes ok: "db_ok db" shows "db_ok (snd (public_network_activity g now db))"
  unfolding public_network_activity_def Let_def
  by (rule sw_db_ok [OF ok]) (simp add: prune_outcomes_ok ok)

section \<open>Properties\<close>

text \<open>The operational history is bounded. Saving an outcome leaves at most 10000 rows, all inside
  the seven-day window, keeps the constraints, and any row it dropped is outside the window or not
  newer than any row it kept.\<close>

theorem save_outcome_bounded:
  assumes "db_ok db" "map_of t ''request_id'' = Some (JStr rid)"
  shows "let db' = snd (save_request_outcome t c t1 t2 db) in
      db_ok db' \<and> length (db_outcomes db') \<le> 10000
    \<and> (\<forall>q \<in> set (db_outcomes db'). rnd (t2 - 604800) \<le> out_time q)
    \<and> (\<forall>r \<in> set (db_outcomes db). r \<notin> set (db_outcomes db') \<longrightarrow>
         out_time r < rnd (t2 - 604800) \<or> (\<forall>q \<in> set (db_outcomes db'). outcome_rank r \<le> outcome_rank q))"
proof -
  define row where "row = \<lparr>out_request = rid, out_consumer = c, out_time = trace_time t t1,
    out_status = trace_status t, out_payload = t, out_provider_country = None, out_caller_country = None\<rparr>"
  define db1 where "db1 = ins_outcome row db"
  have db': "snd (save_request_outcome t c t1 t2 db) = prune_outcomes t2 db1"
    using assms(2) by (simp add: save_request_outcome_def serialized_write_def db1_def row_def)
  have ok1: "db_ok db1" unfolding db1_def by (rule ins_outcome_ok) (rule assms(1))
  then have oo: "outcomes_ok db1" by (simp add: db_ok_def)
  have sub: "set (db_outcomes db) \<subseteq> set (db_outcomes db1)"
    by (auto simp: db1_def ins_outcome_def)
  show ?thesis
    unfolding db' Let_def
    using prune_outcomes_ok [OF ok1] prune_outcomes_length [OF oo, of t2] sub
      prune_outcomes_newest [OF oo, of _ t2] prune_outcomes_recent [of _ t2 db1]
    by (auto simp: TRACE_MAX_ROWS_def TRACE_RETENTION_SECONDS_def)
qed

lemma save_outcome_bounded_witness:
  "length (db_outcomes (snd (save_request_outcome [(''request_id'', JStr ''r1'')] None 5 6 empty_db))) \<le> 10000"
  using save_outcome_bounded [OF empty_db_ok, of "[(''request_id'', JStr ''r1'')]" "''r1''" None 5 6]
  by (simp add: Let_def)

lemma keep_or_prune:
  assumes "outcomes_ok db" "r \<in> set (db_outcomes db)"
    and "q \<in> set (db_outcomes (prune_outcomes now db))" "out_request q = out_request r"
  shows "q = r"
proof -
  have "q \<in> set (db_outcomes db)" using assms(3) prune_outcomes_subset by blast
  with assms show ?thesis by (auto simp: outcomes_ok_def distinct_map inj_on_def)
qed

text \<open>A settled outcome is final. Whatever a later amendment, a duplicate save or the restart
  sweep does, a row whose status is no longer open is either kept exactly as it was or pruned; no
  row with its request id and other contents appears.\<close>

theorem settled_outcome_final:
  assumes ok: "db_ok db" and r: "r \<in> set (db_outcomes db)"
    and settled: "out_status r \<noteq> ''matched''" "out_status r \<noteq> ''matched_from_queue''"
    and db': "db' \<in> {snd (amend_request_outcome rid c m now db), snd (save_request_outcome t c' now now' db),
      snd (interrupt_request_outcomes now db)}"
    and q: "q \<in> set (db_outcomes db')" "out_request q = out_request r"
  shows "q = r"
proof -
  have d: "distinct (map out_request (db_outcomes db))" using ok by (simp add: db_ok_def outcomes_ok_def)
  have inj: "x = r" if "x \<in> set (db_outcomes db)" "out_request x = out_request r" for x
    using d r that by (auto simp: distinct_map inj_on_def)
  have upd: "q = r" if "db_ok d" "d = db\<lparr>db_outcomes := sql_update p f (db_outcomes db)\<rparr>" "\<not> p r"
    "q \<in> set (db_outcomes (prune_outcomes now d))" for d p f
  proof (rule keep_or_prune [OF _ _ that(4) q(2)])
    show "outcomes_ok d" using that(1) by (simp add: db_ok_def)
    show "r \<in> set (db_outcomes d)" using that(2,3) r by (auto simp: set_sql_update image_iff intro: bexI [of _ r])
  qed
  from db' consider "db' = snd (amend_request_outcome rid c m now db)"
    | "db' = snd (save_request_outcome t c' now now' db)" | "db' = snd (interrupt_request_outcomes now db)" by auto
  then show ?thesis
  proof cases
    case 1
    show ?thesis
    proof (cases "db' = db")
      case False
      then obtain row where row: "find (\<lambda>r. out_request r = rid) (db_outcomes db) = Some row"
        "out_status row \<in> set open_statuses"
        and e: "db' = prune_outcomes now (db\<lparr>db_outcomes :=
          sql_update (\<lambda>r. out_request r = rid) (amend_row m) (db_outcomes db)\<rparr>)"
        using 1 by (auto simp: amend_request_outcome_def serialized_write_def split: option.splits if_splits)
      have "row \<noteq> r" using row(2) settled by (auto simp: open_statuses_def)
      moreover have "row \<in> set (db_outcomes db)" "out_request row = rid" using find_Some_in [OF row(1)] by auto
      ultimately have "out_request r \<noteq> rid" using inj by metis
      then show ?thesis
        using upd [OF upd_outcomes_ok [OF ok, of "amend_row m"] refl] q(1) unfolding e by simp
    qed (use inj q in auto)
  next
    case 2
    show ?thesis
    proof (cases "db' = db")
      case False
      then obtain row where "db' = prune_outcomes now' (ins_outcome row db)"
        using 2 by (auto simp: save_request_outcome_def serialized_write_def split: option.splits json.splits)
      moreover have "outcomes_ok (ins_outcome row db)" using ins_outcome_ok [OF ok] by (simp add: db_ok_def)
      moreover have "r \<in> set (db_outcomes (ins_outcome row db))" using r by (simp add: ins_outcome_def)
      ultimately show ?thesis using keep_or_prune q by blast
    qed (use inj q in auto)
  next
    case 3
    then have e: "db' = prune_outcomes now (db\<lparr>db_outcomes :=
        sql_update (\<lambda>r. out_status r \<in> set open_statuses) interrupt_row (db_outcomes db)\<rparr>)"
      by (simp add: interrupt_request_outcomes_def serialized_write_def)
    have np: "out_status r \<notin> set open_statuses" using settled by (simp add: open_statuses_def)
    show ?thesis
      by (rule upd [where p = "\<lambda>r. out_status r \<in> set open_statuses",
            OF upd_outcomes_ok [OF ok, of interrupt_row] refl np]) (use q(1) e in simp_all)
  qed
qed

lemma settled_outcome_final_witness:
  "let r = \<lparr>out_request = ''r1'', out_consumer = None, out_time = 100, out_status = ''completed'',
         out_payload = [], out_provider_country = None, out_caller_country = None\<rparr>;
       db = empty_db\<lparr>db_outcomes := [r]\<rparr>;
       m = \<lparr>am_status = ''failed'', am_served_model = None, am_latency = None, am_provider_country = None,
         am_caller_country = None\<rparr>
   in \<forall>q \<in> set (db_outcomes (snd (amend_request_outcome ''r1'' None m 120 db))). out_request q = ''r1'' \<longrightarrow> q = r"
proof -
  let ?r = "\<lparr>out_request = ''r1'', out_consumer = None, out_time = 100, out_status = ''completed'',
    out_payload = [], out_provider_country = None, out_caller_country = None\<rparr>"
  have ok: "db_ok (empty_db\<lparr>db_outcomes := [?r]\<rparr>)" by (simp add: db_ok_defs empty_db_def)
  show ?thesis
    unfolding Let_def
    by (intro ballI impI, rule settled_outcome_final [OF ok, where r = ?r, OF _ _ _ insertI1]) simp_all
qed

text \<open>A consumer sees only its own outcomes. The page for a consumer id holds at most 100 rows of
  that consumer, newest first, without the internal \<open>_consumer_id\<close> field; a single outcome of another
  consumer is reported as absent; and amending with a consumer id leaves other consumers' rows alone.\<close>

theorem outcomes_are_private:
  assumes ok: "db_ok db" and r: "r \<in> set (db_outcomes db)" and other: "out_consumer r \<noteq> Some c"
  shows "(\<forall>q \<in> set (outcome_page (Some c) limit k db). out_consumer q = Some c)
    \<and> length (outcome_page (Some c) limit k db) \<le> 100
    \<and> fst (request_outcome (out_request r) (Some c) now db) = Inr None
    \<and> snd (amend_request_outcome (out_request r) (Some c) m now db) = db
    \<and> map_of (public_trace t) ''_consumer_id'' = None"
proof -
  have d: "distinct (map out_request (db_outcomes db))" using ok by (simp add: db_ok_def outcomes_ok_def)
  then have f: "find (\<lambda>x. out_request x = out_request r) (db_outcomes db) = Some r"
    using r by (rule find_key_unique)
  have oo: "outcomes_ok (prune_outcomes now db)" using prune_outcomes_ok [OF ok] by (simp add: db_ok_def)
  have "q = r" if "find (\<lambda>x. out_request x = out_request r) (db_outcomes (prune_outcomes now db)) = Some q" for q
  proof -
    have "q \<in> set (db_outcomes db)" "out_request q = out_request r"
      using find_Some_in [OF that] prune_outcomes_subset by blast+
    with d r show ?thesis by (auto simp: distinct_map inj_on_def)
  qed
  then have "fst (request_outcome (out_request r) (Some c) now db) = Inr None"
    using other by (auto simp: request_outcome_def serialized_write_def Let_def split: option.splits)
  moreover have "snd (amend_request_outcome (out_request r) (Some c) m now db) = db"
    using f other by (simp add: amend_request_outcome_def serialized_write_def)
  moreover have "\<forall>q \<in> set (outcome_page (Some c) limit k db). out_consumer q = Some c"
    by (auto simp: outcome_page_def dest!: in_set_takeD)
  moreover have "length (outcome_page (Some c) limit k db) \<le> 100"
  proof -
    have "nat (min (max limit 1) 100) \<le> 100" by simp
    then show ?thesis unfolding outcome_page_def length_take by (rule min.coboundedI2)
  qed
  moreover have "map_of (public_trace t) ''_consumer_id'' = None"
    by (auto simp: public_trace_def map_of_eq_None_iff)
  ultimately show ?thesis by blast
qed

lemma outcomes_are_private_witness:
  "let r = \<lparr>out_request = ''r1'', out_consumer = Some ''alice'', out_time = 100, out_status = ''matched'',
         out_payload = [], out_provider_country = None, out_caller_country = None\<rparr>
   in fst (request_outcome ''r1'' (Some ''bob'') 120 (empty_db\<lparr>db_outcomes := [r]\<rparr>)) = Inr None"
proof -
  let ?r = "\<lparr>out_request = ''r1'', out_consumer = Some ''alice'', out_time = 100, out_status = ''matched'',
    out_payload = [], out_provider_country = None, out_caller_country = None\<rparr>"
  have ok: "db_ok (empty_db\<lparr>db_outcomes := [?r]\<rparr>)" by (simp add: db_ok_defs empty_db_def)
  show ?thesis
    using outcomes_are_private [OF ok, of ?r "''bob''" 1 False 120 undefined "[]"] by (simp add: Let_def)
qed

text \<open>The public projection reveals settled metadata only. Each public row shows a listed status or
  "other", a time rounded down to a minute, and no model, tokens, cost, latency or country unless the
  outcome is completed; countries appear only in pairs, only known ones, and only with geography on.\<close>

theorem public_row_reveals:
  "let p = public_row_of geo db r in
     (pub_status p \<in> set public_statuses \<or> pub_status p = ''other'')
   \<and> of_int (pub_minute p) \<le> out_time r \<and> out_time r < of_int (pub_minute p) + 60
   \<and> (out_status r \<noteq> ''completed'' \<longrightarrow> pub_model p = None \<and> pub_input p = None \<and> pub_output p = None
        \<and> pub_cost p = None \<and> pub_latency p = None \<and> pub_provider_country p = None \<and> pub_caller_country p = None)
   \<and> (pub_provider_country p = None \<longleftrightarrow> pub_caller_country p = None)
   \<and> (pub_caller_country p \<noteq> None \<longrightarrow> geo \<and> is_country (pub_provider_country p) \<and> is_country (pub_caller_country p))"
proof -
  have nonempty: "x \<noteq> []" if "x \<in> set COUNTRIES" for x
  proof -
    have "list_all (\<lambda>x. x \<noteq> []) COUNTRIES" by code_simp
    with that show ?thesis by (auto simp: list_all_iff)
  qed
  have min: "of_int (minute_of t) \<le> t \<and> t < of_int (minute_of t) + 60" for t
    using floor_correct [of "t / 60"] by (auto simp: minute_of_def field_simps)
  show ?thesis
    using min [of "out_time r"] nonempty
    by (auto simp: public_row_of_def Let_def has_text_def is_country_def split: option.splits)
qed

lemma public_row_reveals_witness:
  "let r = \<lparr>out_request = ''r1'', out_consumer = Some ''alice'', out_time = 100, out_status = ''completed'',
         out_payload = [], out_provider_country = Some ''US'', out_caller_country = Some ''DE''\<rparr>
   in is_country (pub_caller_country (public_row_of True empty_db r))"
proof -
  let ?r = "\<lparr>out_request = ''r1'', out_consumer = Some ''alice'', out_time = 100, out_status = ''completed'',
    out_payload = [], out_provider_country = Some ''US'', out_caller_country = Some ''DE''\<rparr>"
  have c: "''US'' \<in> set COUNTRIES" "''DE'' \<in> set COUNTRIES" by code_simp+
  then have "pub_caller_country (public_row_of True empty_db ?r) \<noteq> None"
    by (simp add: public_row_of_def Let_def has_text_def is_country_def)
  then show ?thesis
    using public_row_reveals [of True empty_db ?r] unfolding Let_def by blast
qed

end
