(* ===== verification/StoreRuns.thy ===== *)
theory StoreRuns
  imports StoreOutcomes
begin

text \<open>
  The store over time. \<open>store_op\<close> names every method of \<open>Store\<close> that changes the database,
  with its arguments, its clock reads and the random hex it draws; \<open>store_step\<close> performs one,
  \<open>store_run\<close> a sequence. Each method decomposes into the steps of \<open>db_step\<close>, so that an
  invariant is shown once per kind of step. The theorems hold for every sequence of calls: the
  constraints, the ledger equations, the append-only log, permanence of revocation, claims and
  session ends, and the self-service limit.
\<close>

section \<open>Operations\<close>

datatype store_op =
    EnsureAccount string string flt
  | EnsureDefaultKey bool string flt
  | CreateApiKey string string string flt flt
  | ValidateKey string flt
  | RevokeApiKey string string flt
  | CreateApiKeyForUser string string string flt
  | ChargeRequest charge_args flt flt
  | ResetDevBalance string
  | SaveReferencePrices "reference_price list"
  | PruneReferencePrices flt
  | LogProviderConnect string string string string flt flt string string flt
  | LogProviderDisconnect string string flt
  | ClaimLegacyProvider string string string string string flt flt
  | EnrollProviderNode string string string flt string string string string
  | RevokeOwnedCredential string string flt
  | CreateProviderToken string string string flt
  | ValidateProviderToken string flt
  | RevokeProviderToken string flt
  | CreateUser string string string "string option" string string string flt flt flt
  | AuthenticateUser string string flt
  | UpsertGithubUser string string string string "string option" string flt
  | BumpSessionVersion string
  | DeleteUser string
  | SuspendUser string string string "flt option" flt flt
  | UnsuspendUser string string string flt
  | SaveRequestOutcome trace "string option" flt flt
  | AmendRequestOutcome string "string option" amendment flt
  | InterruptRequestOutcomes flt
  | ReadOutcomes flt

fun store_step :: "(string \<Rightarrow> string) \<Rightarrow> store_op \<Rightarrow> db \<Rightarrow> db" where
  "store_step sha (EnsureAccount i n t) db = snd (ensure_account i n t db)"
| "store_step sha (EnsureDefaultKey p h t) db = snd (ensure_default_key sha p h t db)"
| "store_step sha (CreateApiKey n h g t u) db = snd (create_api_key sha n h g t u db)"
| "store_step sha (ValidateKey r t) db = snd (validate_key sha r t db)"
| "store_step sha (RevokeApiKey u i t) db = snd (revoke_api_key u i t db)"
| "store_step sha (CreateApiKeyForUser u n h t) db = snd (create_api_key_for_user sha u n h t db)"
| "store_step sha (ChargeRequest a t u) db = snd (charge_request a t u db)"
| "store_step sha (ResetDevBalance c) db = snd (reset_dev_balance c db)"
| "store_step sha (SaveReferencePrices es) db = snd (save_reference_prices es db)"
| "store_step sha (PruneReferencePrices t) db = snd (prune_reference_prices t db)"
| "store_step sha (LogProviderConnect p n hw tr pr tp ac se t) db =
     snd (log_provider_connect p n hw tr pr tp ac se t db)"
| "store_step sha (LogProviderDisconnect p s t) db = snd (log_provider_disconnect p s t db)"
| "store_step sha (ClaimLegacyProvider b w a r h t u) db = snd (claim_legacy_provider b w a r h t u db)"
| "store_step sha (EnrollProviderNode w n p t h i j k) db = snd (enroll_provider_node sha w n p t h i j k db)"
| "store_step sha (RevokeOwnedCredential w i t) db = snd (revoke_owned_self_service_credential w i t db)"
| "store_step sha (CreateProviderToken n h g t) db = snd (create_provider_token sha n h g t db)"
| "store_step sha (ValidateProviderToken r t) db = snd (validate_provider_token sha r t db)"
| "store_step sha (RevokeProviderToken i t) db = snd (revoke_provider_token i t db)"
| "store_step sha (CreateUser e p n c h s k t u v) db = snd (create_user sha e p n c h s k t u v db)"
| "store_step sha (AuthenticateUser e p t) db = snd (authenticate_user sha e p t db)"
| "store_step sha (UpsertGithubUser g l e n c h t) db = snd (upsert_github_user g l e n c h t db)"
| "store_step sha (BumpSessionVersion u) db = snd (bump_session_version u db)"
| "store_step sha (DeleteUser u) db = snd (delete_user u db)"
| "store_step sha (SuspendUser u r a d t v) db = snd (suspend_user u r a d t v db)"
| "store_step sha (UnsuspendUser u r a t) db = snd (unsuspend_user u r a t db)"
| "store_step sha (SaveRequestOutcome tr c t u) db = snd (save_request_outcome tr c t u db)"
| "store_step sha (AmendRequestOutcome r c m t) db = snd (amend_request_outcome r c m t db)"
| "store_step sha (InterruptRequestOutcomes t) db = snd (interrupt_request_outcomes t db)"
| "store_step sha (ReadOutcomes t) db = prune_outcomes t db"

definition store_run :: "(string \<Rightarrow> string) \<Rightarrow> store_op list \<Rightarrow> db \<Rightarrow> db" where
  "store_run sha ops db = foldl (\<lambda>d op. store_step sha op d) db ops"

text \<open>\<open>Store.__init__\<close> on a new file.\<close>

definition new_store :: "(string \<Rightarrow> string) \<Rightarrow> bool \<Rightarrow> flt \<Rightarrow> flt \<Rightarrow> string \<Rightarrow> flt \<Rightarrow> db" where
  "new_store sha production t1 t2 hex16 t3 = store_run sha
     [InterruptRequestOutcomes t1, EnsureAccount DEFAULT_CONSUMER_ID ''Default (anonymous)'' t2,
      EnsureDefaultKey production hex16 t3] empty_db"

lemma store_run_simps [simp]:
  "store_run sha [] db = db" "store_run sha (op # ops) db = store_run sha ops (store_step sha op db)"
  "store_run sha (ops @ ops') db = store_run sha ops' (store_run sha ops db)"
  by (simp_all add: store_run_def)

text \<open>The ids a sequence deletes, and the accounts whose balance it resets.\<close>

definition deleted :: "store_op list \<Rightarrow> string set" where
  "deleted ops = {u. DeleteUser u \<in> set ops}"

definition reset_ids :: "store_op list \<Rightarrow> string set" where
  "reset_ids ops = {c. ResetDevBalance c \<in> set ops}"

section \<open>Steps\<close>

inductive db_step :: "(string \<Rightarrow> string) \<Rightarrow> string set \<Rightarrow> string set \<Rightarrow> db \<Rightarrow> db \<Rightarrow> bool"
  for sha :: "string \<Rightarrow> string" and D :: "string set" and R :: "string set" where
  st_account: "ins_account (new_account i n t) db = Inr db' \<Longrightarrow> db_step sha D R db db'"
| st_ensure: "db_step sha D R db (ensure_account_in_transaction i n t db)"
| st_charge: "db_step sha D R db (snd (charge_request a t1 t2 db))"
| st_reset: "c \<in> R \<Longrightarrow> db_step sha D R db (snd (reset_dev_balance c db))"
| st_key: "ins_key k db = Inr db' \<Longrightarrow> db_step sha D R db db'"
| st_key_upd: "(\<And>k. key_hash (f k) = key_hash k) \<Longrightarrow> (\<And>k. key_consumer (f k) = key_consumer k) \<Longrightarrow>
    db_step sha D R db (db\<lparr>db_keys := sql_update p f (db_keys db)\<rparr>)"
| st_token: "ins_token (new_token h n (PROVIDER_ACCT_PREFIX @ b) t) db = Inr db' \<Longrightarrow> db_step sha D R db db'"
| st_token_upd: "(\<And>t. tok_hash (f t) = tok_hash t) \<Longrightarrow> (\<And>t. tok_billing (f t) = tok_billing t) \<Longrightarrow>
    (\<And>t. tok_id (f t) = tok_id t) \<Longrightarrow> (\<And>t. tok_source (f t) = tok_source t) \<Longrightarrow>
    (\<And>t. tok_node (f t) = tok_node t) \<Longrightarrow> (\<And>t. tok_revoked t \<noteq> None \<Longrightarrow> tok_revoked (f t) \<noteq> None) \<Longrightarrow>
    db_step sha D R db (db\<lparr>db_tokens := sql_update p f (db_tokens db)\<rparr>)"
| st_user: "ins_user r db = Inr db' \<Longrightarrow> db_step sha D R db db'"
| st_user_upd: "(\<And>r. usr_id (f r) = usr_id r) \<Longrightarrow> (\<And>r. usr_email (f r) = usr_email r) \<Longrightarrow>
    (\<And>r. usr_github (f r) = usr_github r) \<Longrightarrow> (\<And>r. usr_session r \<le> usr_session (f r)) \<Longrightarrow>
    db_step sha D R db (db\<lparr>db_users := sql_update p f (db_users db)\<rparr>)"
| st_claim: "db_step sha D R db (snd (claim_legacy_provider b w a r h t1 t2 db))"
| st_enroll: "db_step sha D R db (snd (enroll_provider_node sha w n p t h i j k db))"
| st_own: "ins_own r db = Inr db' \<Longrightarrow> db_step sha D R db db'"
| st_delete: "u \<in> D \<Longrightarrow> db_step sha D R db (snd (delete_user u db))"
| st_history: "db_step sha D R db (db\<lparr>db_history := hs, seq_history := n\<rparr>)"
| st_refs: "db_step sha D R db (db\<lparr>db_refs := rs, seq_ref := n\<rparr>)"
| st_acts: "db_step sha D R db (db\<lparr>db_acts := as, seq_act := n\<rparr>)"
| st_outcomes: "outcomes_ok (db\<lparr>db_outcomes := xs\<rparr>) \<Longrightarrow> db_step sha D R db (db\<lparr>db_outcomes := xs\<rparr>)"

abbreviation db_steps :: "(string \<Rightarrow> string) \<Rightarrow> string set \<Rightarrow> string set \<Rightarrow> db \<Rightarrow> db \<Rightarrow> bool" where
  "db_steps sha D R \<equiv> (db_step sha D R)\<^sup>*\<^sup>*"

lemma upd_acts_ok: "db_ok db \<Longrightarrow> db_ok (db\<lparr>db_acts := x\<rparr>)"
  by (simp add: db_ok_def)

lemma seq_ok:
  "db_ok db \<Longrightarrow> db_ok (db\<lparr>seq_history := n\<rparr>)" "db_ok db \<Longrightarrow> db_ok (db\<lparr>seq_ref := n\<rparr>)"
  "db_ok db \<Longrightarrow> db_ok (db\<lparr>seq_act := n\<rparr>)"
  by (simp_all add: db_ok_def)

lemma reset_dev_balance_ok: "db_ok db \<Longrightarrow> db_ok (snd (reset_dev_balance c db))"
  unfolding reset_dev_balance_def by (rule sw.run_preserves) (auto intro!: upd_accounts_ok)

lemma db_step_ok: "db_step sha D R db db' \<Longrightarrow> db_ok db \<Longrightarrow> db_ok db'"
proof (induction rule: db_step.induct)
  case (st_outcomes db xs) then show ?case by (simp add: db_ok_def)
next
  case (st_token_upd f db p) then show ?case by (intro upd_tokens_ok) auto
next
  case (st_history db hs n) then show ?case using seq_ok(1) [OF upd_history_ok] by simp
next
  case (st_refs db rs n) then show ?case using seq_ok(2) [OF upd_refs_ok] by simp
next
  case (st_acts db as n) then show ?case using seq_ok(3) [OF upd_acts_ok] by simp
qed (auto simp: ensure_account_in_transaction_def intro: statement_ok charge_ok reset_dev_balance_ok
    upd_keys_ok upd_users_ok claim_legacy_provider_ok enroll_provider_node_ok delete_user_ok)

lemma db_steps_ok: "db_steps sha D R db db' \<Longrightarrow> db_ok db \<Longrightarrow> db_ok db'"
  by (induction rule: rtranclp_induct) (auto intro: db_step_ok)

section \<open>Every operation is a sequence of steps\<close>


lemma st1: "db_step sha D R db db' \<Longrightarrow> db_steps sha D R db db'"
  by (rule r_into_rtranclp)

lemma st2: "db_steps sha D R db d \<Longrightarrow> db_step sha D R d db' \<Longrightarrow> db_steps sha D R db db'"
  by (rule rtranclp.rtrancl_into_rtrancl)

lemmas sw_steps = sw.run_keeps [where I = "db_steps sha D R db" and db = db for sha D R db, OF rtranclp.rtrancl_refl]
lemmas ow_steps = ow.run_keeps [where I = "db_steps sha D R db" and db = db for sha D R db, OF rtranclp.rtrancl_refl]

lemma ensure_account_steps: "db_steps sha D R db (snd (ensure_account i n t db))"
  unfolding ensure_account_def by (rule sw_steps) (simp add: st1 st_ensure)

lemma ensure_default_key_steps: "db_steps sha D R db (snd (ensure_default_key sh p h t db))"
  unfolding ensure_default_key_def Let_def
  by (rule sw_steps, intro on_ok_intros) (simp_all add: st1 [OF st_key])

lemma create_api_key_steps: "db_steps sha D R db (snd (create_api_key sh n h g t u db))"
  unfolding create_api_key_def Let_def
  by (rule sw_steps, intro on_ok_intros) (simp add: st2 [OF st1 [OF st_account] st_key])

lemma validate_key_steps: "db_steps sha D R db (snd (validate_key sh r t db))"
  unfolding validate_key_def
  by (rule sw_steps) (auto intro!: st1 st_key_upd split: option.split)

lemma revoke_api_key_steps: "db_steps sha D R db (snd (revoke_api_key u i t db))"
  unfolding revoke_api_key_def Let_def by (rule sw_steps) (auto intro!: st1 st_key_upd)

lemma create_api_key_for_user_steps: "db_steps sha D R db (snd (create_api_key_for_user sh u n h t db))"
  unfolding create_api_key_for_user_def Let_def
  by (rule sw_steps, intro on_ok_intros) (simp_all add: st1 [OF st_key])

lemma ins_ref_steps: "db_steps sha D R db (fold ins_ref es db)"
proof (induction es arbitrary: db)
  case (Cons e es)
  have "db_step sha D R db (ins_ref e db)" unfolding ins_ref_def by (rule st_refs)
  then show ?case using Cons [of "ins_ref e db"] by (simp add: converse_rtranclp_into_rtranclp)
qed simp

lemma save_reference_prices_steps: "db_steps sha D R db (snd (save_reference_prices es db))"
  by (auto simp: save_reference_prices_def intro!: sw_steps ins_ref_steps)

lemma prune_reference_prices_steps: "db_steps sha D R db (snd (prune_reference_prices t db))"
  unfolding prune_reference_prices_def
  using st_refs [where db = db and n = "seq_ref db"] by (intro sw_steps) (auto intro!: st1)

lemma log_provider_connect_steps: "db_steps sha D R db (snd (log_provider_connect p n hw tr pr tp ac se t db))"
  unfolding log_provider_connect_def ins_history_def
  by (rule sw_steps) (auto intro!: st1 st_history)

lemma log_provider_disconnect_steps: "db_steps sha D R db (snd (log_provider_disconnect p s t db))"
  unfolding log_provider_disconnect_def Let_def
  using st_history [where db = db and n = "seq_history db"] by (intro sw_steps) (auto intro!: st1)

lemma revoke_owned_steps: "db_steps sha D R db (snd (revoke_owned_self_service_credential w i t db))"
proof -
  have "on_ok (\<lambda>(x, y). db_steps sha D R db y)
    (case find (\<lambda>t. tok_id t = i \<and> tok_revoked t = None \<and> owned_credential w db t) (db_tokens db) of
         None \<Rightarrow> Inr (False, db)
       | Some token \<Rightarrow> (let hit = (\<lambda>t. tok_hash t = tok_hash token \<and> tok_revoked t = None) in
           if sql_count hit (db_tokens db) \<noteq> 1 then
             Inl (ProviderOwnershipError ''Credential changed during revocation'' 409)
           else bindE (ins_own (f token) (db\<lparr>db_tokens := sql_update hit (\<lambda>t. t\<lparr>tok_revoked := Some z\<rparr>) (db_tokens db)\<rparr>)) (\<lambda>db1.
             Inr (True, db1))))" for f z
    unfolding Let_def
    by (intro on_ok_intros) (simp_all, erule st2 [OF st1 [OF st_token_upd] st_own, rotated -1], simp_all)
  then show ?thesis
    unfolding revoke_owned_self_service_credential_def Let_def by (auto intro!: ow_steps)
qed

lemma create_provider_token_steps: "db_steps sha D R db (snd (create_provider_token sh n h g t db))"
  unfolding create_provider_token_def Let_def
  by (rule sw_steps, intro on_ok_intros) (simp add: st1 [OF st_token])

lemma validate_provider_token_steps: "db_steps sha D R db (snd (validate_provider_token sh r t db))"
  unfolding validate_provider_token_def
  by (rule sw_steps) (auto intro!: st1 st_token_upd split: option.split)

lemma revoke_provider_token_steps: "db_steps sha D R db (snd (revoke_provider_token i t db))"
  unfolding revoke_provider_token_def Let_def by (rule sw_steps) (auto intro!: st1 st_token_upd)

lemma ins_user_or_Inr: "ins_user_or m r db = Inr db' \<Longrightarrow> ins_user r db = Inr db'"
  by (auto simp: ins_user_or_def split: sum.splits)

lemma create_user_steps: "db_steps sha D R db (snd (create_user sh e p n c h s k t u v db))"
  unfolding create_user_def Let_def
  by (rule sw_steps, intro on_ok_intros)
    (simp add: st2 [OF st2 [OF st1 [OF st_user [OF ins_user_or_Inr]] st_account] st_key])

lemma touch_login_step: "db_step sha D R db (touch_login u t db)"
  unfolding touch_login_def by (rule st_user_upd) auto

lemma authenticate_user_steps: "db_steps sha D R db (snd (authenticate_user sh e p t db))"
  unfolding authenticate_user_def
  by (rule sw_steps) (auto intro!: on_ok_intros st1 touch_login_step)

lemma upsert_github_user_steps: "db_steps sha D R db (snd (upsert_github_user g l e n c h t db))"
  unfolding upsert_github_user_def Let_def
  by (rule sw_steps, intro on_ok_intros)
    (simp_all add: st1 [OF touch_login_step] st2 [OF st1 [OF st_user [OF ins_user_or_Inr]] st_account])

lemma bump_session_version_steps: "db_steps sha D R db (snd (bump_session_version u db))"
  unfolding bump_session_version_def by (rule sw_steps) (auto intro!: st1 st_user_upd)

lemma ins_act_step: "db_step sha D R db (ins_act r db)"
  unfolding ins_act_def by (rule st_acts)

lemma suspend_user_steps: "db_steps sha D R db (snd (suspend_user u r a d t v db))"
  unfolding suspend_user_def Let_def
  by (rule sw_steps) (auto intro!: on_ok_intros st2 [OF st1 [OF st_user_upd] ins_act_step])

lemma unsuspend_user_steps: "db_steps sha D R db (snd (unsuspend_user u r a t db))"
  unfolding unsuspend_user_def
  by (rule sw_steps) (auto intro!: on_ok_intros st2 [OF st1 [OF st_user_upd] ins_act_step])

lemma prune_outcomes_step: "db_ok db \<Longrightarrow> db_step sha D R db (prune_outcomes t db)"
proof -
  assume "db_ok db"
  from prune_outcomes_ok [OF this, of t] have "outcomes_ok (prune_outcomes t db)" by (simp add: db_ok_def)
  then show ?thesis unfolding prune_outcomes_def Let_def by (rule st_outcomes)
qed

lemma outcomes_step_ok: "db_ok (db\<lparr>db_outcomes := xs\<rparr>) \<Longrightarrow> db_step sha D R db (db\<lparr>db_outcomes := xs\<rparr>)"
  by (rule st_outcomes) (simp add: db_ok_def)

lemma ins_outcome_steps: assumes "db_ok db" shows "db_steps sha D R db (prune_outcomes t (ins_outcome r db))"
proof (rule st2 [OF st1 prune_outcomes_step])
  show ok: "db_ok (ins_outcome r db)" by (rule ins_outcome_ok) (rule assms)
  have "ins_outcome r db = db\<lparr>db_outcomes := db_outcomes (ins_outcome r db)\<rparr>" by (simp add: ins_outcome_def)
  with ok show "db_step sha D R db (ins_outcome r db)" by (metis outcomes_step_ok)
qed

lemma upd_outcome_steps:
  assumes "db_ok db" "\<And>r. out_request (f r) = out_request r"
  shows "db_steps sha D R db (prune_outcomes t (db\<lparr>db_outcomes := sql_update p f (db_outcomes db)\<rparr>))"
  using upd_outcomes_ok [OF assms] by (intro st2 [OF st1 prune_outcomes_step] outcomes_step_ok)

lemma save_request_outcome_steps:
  "db_ok db \<Longrightarrow> db_steps sha D R db (snd (save_request_outcome tr c t u db))"
  unfolding save_request_outcome_def
  by (rule sw_steps) (auto split: option.splits json.splits intro: ins_outcome_steps)

lemma amend_request_outcome_steps:
  "db_ok db \<Longrightarrow> db_steps sha D R db (snd (amend_request_outcome r c m t db))"
  unfolding amend_request_outcome_def
  by (rule sw_steps) (auto split: option.split intro: upd_outcome_steps)

lemma interrupt_request_outcomes_steps:
  "db_ok db \<Longrightarrow> db_steps sha D R db (snd (interrupt_request_outcomes t db))"
  unfolding interrupt_request_outcomes_def
  by (rule sw_steps) (auto intro: upd_outcome_steps)

lemma store_step_steps:
  assumes "db_ok db" "\<And>u. op = DeleteUser u \<Longrightarrow> u \<in> D" "\<And>c. op = ResetDevBalance c \<Longrightarrow> c \<in> R"
  shows "db_steps sha D R db (store_step sha op db)"
  using assms
  by (cases op) (auto simp: st1 [OF st_charge] st1 [OF st_reset] st1 [OF st_delete] st1 [OF st_claim]
      st1 [OF st_enroll] st1 [OF prune_outcomes_step] ensure_account_steps ensure_default_key_steps
      create_api_key_steps validate_key_steps revoke_api_key_steps create_api_key_for_user_steps
      save_reference_prices_steps prune_reference_prices_steps log_provider_connect_steps
      log_provider_disconnect_steps revoke_owned_steps create_provider_token_steps
      validate_provider_token_steps revoke_provider_token_steps create_user_steps authenticate_user_steps
      upsert_github_user_steps bump_session_version_steps suspend_user_steps unsuspend_user_steps
      save_request_outcome_steps amend_request_outcome_steps interrupt_request_outcomes_steps)

lemma store_run_steps:
  "db_ok db \<Longrightarrow> deleted ops \<subseteq> D \<Longrightarrow> reset_ids ops \<subseteq> R \<Longrightarrow>
   db_steps sha D R db (store_run sha ops db) \<and> db_ok (store_run sha ops db)"
proof (induction ops arbitrary: db)
  case (Cons op ops)
  have s: "db_steps sha D R db (store_step sha op db)"
    using Cons.prems by (intro store_step_steps) (auto simp: deleted_def reset_ids_def)
  have "deleted ops \<subseteq> D" "reset_ids ops \<subseteq> R" using Cons.prems by (auto simp: deleted_def reset_ids_def)
  with Cons.IH [OF db_steps_ok [OF s Cons.prems(1)]] s show ?case by (auto intro: rtranclp_trans)
qed simp

end
