(* ===== verification/StoreLaws.thy ===== *)
theory StoreLaws
  imports StoreRuns
begin

text \<open>
  The laws of the store over any sequence of calls: what a claim, an enrolment and a deletion
  write; the ledger equations and the append-only log; permanence of revocation, ownership and
  session ends; the self-service limit; the pages of an owner's earnings.
\<close>

section \<open>What a claim, an enrolment and a deletion write\<close>

lemma ins_account_InrD: "ins_account r db = Inr db' \<Longrightarrow>
    acc_id r \<notin> acc_id ` set (db_accounts db) \<and> db' = db\<lparr>db_accounts := db_accounts db @ [r]\<rparr>"
  by (simp add: ins_account_def sql_exists_key split: if_splits)

lemma ins_node_InrD: "ins_node r db = Inr db' \<Longrightarrow> node_id r \<notin> node_id ` set (db_nodes db)
    \<and> node_billing r \<notin> node_billing ` set (db_nodes db) \<and> db' = db\<lparr>db_nodes := db_nodes db @ [r]\<rparr>"
  by (simp add: ins_node_def sql_exists_key split: if_splits)

lemma ins_token_InrD: "ins_token r db = Inr db' \<Longrightarrow> tok_hash r \<notin> tok_hash ` set (db_tokens db)
    \<and> db' = db\<lparr>db_tokens := db_tokens db @ [r]\<rparr>"
  by (simp add: ins_token_def sql_exists_key split: if_splits)

lemma ins_own_InrD: "ins_own r db = Inr db' \<Longrightarrow>
    db' = db\<lparr>db_owns := db_owns db @ [r\<lparr>own_id := Suc (seq_own db)\<rparr>], seq_own := Suc (seq_own db)\<rparr>"
  by (simp add: ins_own_def split: if_splits)

definition enrolled_token :: "string \<Rightarrow> string \<Rightarrow> string \<Rightarrow> string \<Rightarrow> string \<Rightarrow> flt \<Rightarrow> provider_token" where
  "enrolled_token hash tid name billing node now = \<lparr>tok_hash = hash, tok_id = tid, tok_name = name,
     tok_billing = Some billing, tok_node = Some node, tok_source = ''self_service'', tok_created = now,
     tok_last_used = None, tok_connections = 0, tok_revoked = None\<rparr>"

lemma enroll_body_ok:
  assumes "enroll_body sha w n p t raw i j k db = Inr (r, db')"
  defines "node \<equiv> NODE_PREFIX @ i" and "billing \<equiv> PROVIDER_ACCT_PREFIX @ j"
  shows "\<exists>u act. find_user w db = Some u \<and> has_text (usr_github u) \<and> \<not> suspended_at t (usr_suspended u)
      \<and> sql_count (\<lambda>x. tok_revoked x = None) (owned_self_service w db) = 0
      \<and> sql_count (\<lambda>x. rnd (t - 86400) \<le> tok_created x) (owned_self_service w db) < 3
      \<and> node \<notin> node_id ` set (db_nodes db) \<and> billing \<notin> node_billing ` set (db_nodes db)
      \<and> billing \<notin> acc_id ` set (db_accounts db) \<and> sha raw \<notin> tok_hash ` set (db_tokens db)
      \<and> r = \<lparr>enr_node = node, enr_name = n, enr_status = ''offline'', enr_profile = p,
          enr_token_id = TOKEN_ID_PREFIX @ k, enr_token = raw\<rparr>
      \<and> db' = db\<lparr>db_accounts := db_accounts db @ [new_account billing n t],
          db_nodes := db_nodes db @ [\<lparr>node_id = node, node_owner = w, node_billing = billing,
             node_name = n, node_created = t, node_profile = p\<rparr>],
          db_tokens := db_tokens db @ [enrolled_token (sha raw) (TOKEN_ID_PREFIX @ k) n billing node t],
          db_owns := db_owns db @ [act], seq_own := Suc (seq_own db)\<rparr>"
  using assms(1)
  by (auto simp: enroll_body_def Let_def bindE_Inr_iff enrolled_token_def node_def billing_def
      SELF_SERVICE_DAILY_ISSUANCE_LIMIT_def new_account_def
      split: option.splits if_splits dest!: ins_account_InrD ins_node_InrD ins_token_InrD ins_own_InrD)

lemma claim_body_ok:
  assumes "claim_body b w a r h t1 t2 db = Inr (res, db')"
  defines "node \<equiv> NODE_PREFIX @ h"
  shows "\<exists>u tok act. find_user a db \<noteq> None \<and> find_user w db = Some u \<and> has_text (usr_github u)
      \<and> \<not> suspended_at t1 (usr_suspended u)
      \<and> find (\<lambda>t. tok_billing t = Some b) (db_tokens db) = Some tok
      \<and> tok_revoked tok = None \<and> tok_node tok = None
      \<and> node \<notin> node_id ` set (db_nodes db) \<and> b \<notin> node_billing ` set (db_nodes db)
      \<and> res = \<lparr>clm_node = node, clm_owner = w, clm_billing = b, clm_name = tok_name tok\<rparr>
      \<and> db' = db\<lparr>db_nodes := db_nodes db @ [\<lparr>node_id = node, node_owner = w, node_billing = b,
             node_name = tok_name tok, node_created = t2, node_profile = ''''\<rparr>],
          db_tokens := sql_update (\<lambda>t. tok_hash t = tok_hash tok \<and> tok_node t = None \<and> tok_revoked t = None)
             (\<lambda>t. t\<lparr>tok_node := Some node\<rparr>) (db_tokens db),
          db_owns := db_owns db @ [act], seq_own := Suc (seq_own db)\<rparr>"
  using assms(1)
  by (auto simp: claim_body_def Let_def bindE_Inr_iff node_def
      split: option.splits if_splits dest!: ins_node_InrD ins_own_InrD)

lemma enroll_runs:
  "snd (enroll_provider_node sha w n p t h i j k db) = db \<or>
   (\<exists>r db'. valid_node_name n \<and> p = SELF_SERVICE_PROFILE \<and>
      enroll_body sha w n p t (PROVIDER_TOKEN_PREFIX @ h) i j k db = Inr (r, db') \<and>
      enroll_provider_node sha w n p t h i j k db = (Inr r, db'))"
  using ow.run_cases [of "enroll_body sha w n p t (PROVIDER_TOKEN_PREFIX @ h) i j k" db]
  by (auto simp: enroll_provider_node_def)

lemma claim_runs:
  "snd (claim_legacy_provider b w a r h t1 t2 db) = db \<or>
   (\<exists>x db'. starts_with PROVIDER_ACCT_PREFIX b \<and>
      claim_body b w a (str_strip r) h t1 t2 db = Inr (x, db') \<and>
      claim_legacy_provider b w a r h t1 t2 db = (Inr x, db'))"
  using ow.run_cases [of "claim_body b w a (str_strip r) h t1 t2" db]
  by (auto simp: claim_legacy_provider_def Let_def)

lemma delete_user_runs:
  "snd (delete_user u db) = db \<or>
   u \<notin> node_owner ` set (db_nodes db) \<and> delete_user u db = (Inr (), db\<lparr>
       db_keys := sql_delete (\<lambda>k. key_consumer k = u) (db_keys db),
       db_outcomes := sql_delete (\<lambda>x. out_consumer x = Some u) (db_outcomes db),
       db_users := sql_delete (\<lambda>x. usr_id x = u) (db_users db),
       db_accounts := sql_delete (\<lambda>x. acc_id x = u) (db_accounts db)\<rparr>)"
  by (auto simp: delete_user_def ownership_write_def Let_def bindE_def del_user_def del_account_def
      sql_exists_key sql_delete_def split: sum.splits if_splits)

lemma ins_key_InrD: "ins_key r db = Inr db' \<Longrightarrow> key_hash r \<notin> key_hash ` set (db_keys db)
    \<and> db' = db\<lparr>db_keys := db_keys db @ [r]\<rparr>"
  by (simp add: ins_key_def sql_exists_key split: if_splits)

lemma ins_user_InrD: "ins_user r db = Inr db' \<Longrightarrow> usr_id r \<notin> usr_id ` set (db_users db)
    \<and> db' = db\<lparr>db_users := db_users db @ [r]\<rparr>"
  by (simp add: ins_user_def sql_exists_key split: if_splits)

text \<open>One rule for proving what every step keeps: a charge, a reset, an enrolment, a claim and a
  deletion by what they write, the other steps by the tables they touch.\<close>

lemma db_step_shape:
  assumes "db_step sha D R db db'"
  obtains (charge) a t1 t2 where "db' = snd (charge_request a t1 t2 db)"
  | (reset) c where "c \<in> R" "db' = snd (reset_dev_balance c db)"
  | (account) i n t where "i \<notin> acc_id ` set (db_accounts db)"
      "db' = db\<lparr>db_accounts := db_accounts db @ [new_account i n t]\<rparr>"
  | (enroll) w n p t raw i j k r where "enroll_body sha w n p t raw i j k db = Inr (r, db')"
  | (claim) b w a r h t1 t2 x where "starts_with PROVIDER_ACCT_PREFIX b" "claim_body b w a r h t1 t2 db = Inr (x, db')"
  | (delete) u where "u \<in> D" "u \<notin> node_owner ` set (db_nodes db)" "db' = db\<lparr>
       db_keys := sql_delete (\<lambda>k. key_consumer k = u) (db_keys db),
       db_outcomes := sql_delete (\<lambda>x. out_consumer x = Some u) (db_outcomes db),
       db_users := sql_delete (\<lambda>x. usr_id x = u) (db_users db),
       db_accounts := sql_delete (\<lambda>x. acc_id x = u) (db_accounts db)\<rparr>"
  | (token) h n b t where "h \<notin> tok_hash ` set (db_tokens db)"
      "db' = db\<lparr>db_tokens := db_tokens db @ [new_token h n (PROVIDER_ACCT_PREFIX @ b) t]\<rparr>"
  | (token_upd) f p where "\<And>t. tok_hash (f t) = tok_hash t" "\<And>t. tok_billing (f t) = tok_billing t"
      "\<And>t. tok_id (f t) = tok_id t" "\<And>t. tok_source (f t) = tok_source t"
      "\<And>t. tok_node (f t) = tok_node t" "\<And>t. tok_revoked t \<noteq> None \<Longrightarrow> tok_revoked (f t) \<noteq> None"
      "db' = db\<lparr>db_tokens := sql_update p f (db_tokens db)\<rparr>"
  | (user) r where "usr_id r \<notin> usr_id ` set (db_users db)" "db' = db\<lparr>db_users := db_users db @ [r]\<rparr>"
  | (user_upd) f p where "\<And>r. usr_id (f r) = usr_id r" "\<And>r. usr_session r \<le> usr_session (f r)"
      "db' = db\<lparr>db_users := sql_update p f (db_users db)\<rparr>"
  | (other) "db_accounts db' = db_accounts db" "db_txs db' = db_txs db" "db_tokens db' = db_tokens db"
      "db_nodes db' = db_nodes db" "db_users db' = db_users db" "seq_tx db' = seq_tx db"
  using assms
proof (cases rule: db_step.cases)
  case (st_account i n t)
  from ins_account_InrD [OF this] show ?thesis
    by (intro account [of i n t]) (simp_all add: new_account_def)
next
  case (st_ensure i n t)
  show ?thesis
  proof (cases "i \<in> acc_id ` set (db_accounts db)")
    case True
    with st_ensure show ?thesis
      by (intro other) (simp_all add: ensure_account_in_transaction_def ins_account_or_ignore_def
          sql_exists_key new_account_def)
  next
    case False
    with st_ensure show ?thesis
      by (intro account [of i n t]) (simp_all add: ensure_account_in_transaction_def
          ins_account_or_ignore_def sql_exists_key new_account_def)
  qed
next
  case (st_charge a t1 t2) then show ?thesis by (rule charge)
next
  case (st_reset c) show ?thesis by (rule reset) (rule st_reset)+
next
  case (st_claim b w a r h t1 t2)
  with claim_runs [of b w a r h t1 t2 db] consider "db' = db" |
    x where "starts_with PROVIDER_ACCT_PREFIX b" "claim_body b w a (str_strip r) h t1 t2 db = Inr (x, db')" by auto
  then show ?thesis
  proof cases
    case 1 then show ?thesis by (intro other) simp_all
  next
    case 2 then show ?thesis by (rule claim)
  qed
next
  case (st_enroll w n p t h i j k)
  with enroll_runs [of sha w n p t h i j k db] consider "db' = db" |
    r where "enroll_body sha w n p t (PROVIDER_TOKEN_PREFIX @ h) i j k db = Inr (r, db')" by auto
  then show ?thesis
  proof cases
    case 1 then show ?thesis by (intro other) simp_all
  next
    case 2 then show ?thesis by (rule enroll)
  qed
next
  case (st_delete u)
  show ?thesis
  proof (cases "db' = db")
    case True then show ?thesis by (intro other) simp_all
  next
    case False
    with st_delete delete_user_runs [of u db] show ?thesis by (intro delete [of u]) auto
  qed
next
  case (st_token h n b t)
  from ins_token_InrD [OF this] show ?thesis by (intro token [of h n b t]) (simp_all add: new_token_def)
next
  case (st_token_upd f p)
  show ?thesis by (rule token_upd [OF st_token_upd(2-7) st_token_upd(1)])
next
  case (st_key k)
  from ins_key_InrD [OF this] show ?thesis by (intro other) simp_all
next
  case (st_user r)
  from ins_user_InrD [OF this] show ?thesis by (intro user [of r]) simp_all
next
  case (st_user_upd f p)
  show ?thesis by (rule user_upd [OF st_user_upd(2,5,1)])
next
  case (st_own r)
  from ins_own_InrD [OF this] show ?thesis by (intro other) simp_all
next
  case st_key_upd then show ?thesis by (intro other) simp_all
next
  case st_history then show ?thesis by (intro other) simp_all
next
  case st_refs then show ?thesis by (intro other) simp_all
next
  case st_acts then show ?thesis by (intro other) simp_all
next
  case st_outcomes then show ?thesis by (intro other) simp_all
qed

section \<open>The ledger equations\<close>

definition earned_in_log :: "string \<Rightarrow> db \<Rightarrow> int" where
  "earned_in_log a db = sum_list (map tx_earning (txs_of_provider a db))"

lemma ledger_earned_append:
  "acc_earned r = 0 \<Longrightarrow> acc_id r \<notin> acc_id ` set (db_accounts db) \<Longrightarrow>
   ledger_earned a (db\<lparr>db_accounts := db_accounts db @ [r]\<rparr>) = ledger_earned a db"
  by (auto simp: ledger_earned_def get_account_def find_append split: option.splits)

lemma ledger_earned_cong:
  "db_accounts db' = db_accounts db \<Longrightarrow> ledger_earned a db' = ledger_earned a db"
  by (simp add: ledger_earned_def get_account_def)

lemma find_delete_key [simp]:
  "find (\<lambda>a. g a = i) (sql_delete (\<lambda>a. g a = u) rows) = (if i = u then None else find (\<lambda>a. g a = i) rows)"
  by (induction rows) (auto simp: sql_delete_def)

lemma earned_in_log_cong: "db_txs db' = db_txs db \<Longrightarrow> earned_in_log a db' = earned_in_log a db"
  by (simp add: earned_in_log_def txs_of_provider_def)

lemma charge_earned:
  "ledger_earned a (snd (charge_request c t1 t2 db)) = ledger_earned a db
     + (if a = ch_provider c then total_cost c - platform_fee (total_cost c) else 0)"
  by (auto simp: ledger_earned_def charge_account debited_def debit_def credit_def new_account_def
      split: option.splits)

lemma charge_earned_log:
  "earned_in_log a (snd (charge_request c t1 t2 db)) = earned_in_log a db
     + (if a = ch_provider c then total_cost c - platform_fee (total_cost c) else 0)"
  by (simp add: earned_in_log_def txs_of_provider_def charge_txs) (simp add: charge_row_def Let_def)

lemma reset_account:
  "get_account i (snd (reset_dev_balance c db)) = (if i = c
     then map_option (\<lambda>r. r\<lparr>acc_balance := 10 * MICRO_PER_DOLLAR\<rparr>) (get_account i db) else get_account i db)"
  by (simp add: reset_dev_balance_def serialized_write_def get_account_update)

lemma reset_frame [simp]:
  "db_txs (snd (reset_dev_balance c db)) = db_txs db" "db_tokens (snd (reset_dev_balance c db)) = db_tokens db"
  "db_nodes (snd (reset_dev_balance c db)) = db_nodes db" "db_users (snd (reset_dev_balance c db)) = db_users db"
  by (simp_all add: reset_dev_balance_def serialized_write_def)

lemma charge_frame [simp]:
  "db_tokens (snd (charge_request c t1 t2 db)) = db_tokens db"
  "db_nodes (snd (charge_request c t1 t2 db)) = db_nodes db" "db_users (snd (charge_request c t1 t2 db)) = db_users db"
  by (simp_all add: charge_request_def serialized_write_def Let_def ins_tx_def
      ensure_account_in_transaction_def ins_account_or_ignore_def)

text \<open>Except by a charge, earnings and the log stay, deleted accounts aside.\<close>

lemma db_step_money_cases:
  assumes "db_step sha D R db db'"
  shows "(\<exists>c t1 t2. db' = snd (charge_request c t1 t2 db)) \<or>
    db_txs db' = db_txs db \<and> (\<forall>a. a \<notin> D \<longrightarrow> ledger_earned a db' = ledger_earned a db)"
  using assms
proof (cases rule: db_step_shape)
  case (charge a t1 t2) then show ?thesis by blast
next
  case (reset c)
  then show ?thesis by (auto simp: ledger_earned_def reset_account split: option.split)
next
  case (account i n t)
  then show ?thesis by (auto simp: new_account_def ledger_earned_append)
next
  case (enroll w n p t raw i j k r)
  from enroll_body_ok [OF this] show ?thesis
    using ledger_earned_append [of "new_account (PROVIDER_ACCT_PREFIX @ j) n t" db]
    by (auto simp: new_account_def ledger_earned_def get_account_def)
next
  case (claim b w a r h t1 t2 x)
  from claim_body_ok [OF claim(2)] show ?thesis by (auto intro: ledger_earned_cong)
next
  case (delete u)
  then have "db_txs db' = db_txs db" "\<forall>a. a \<notin> D \<longrightarrow> ledger_earned a db' = ledger_earned a db"
    by (auto simp: ledger_earned_def get_account_def)
  then show ?thesis by blast
qed (auto intro: ledger_earned_cong)

lemma db_step_ledger:
  assumes "db_step sha D R db db'" "a \<notin> D" "ledger_earned a db = earned_in_log a db"
  shows "ledger_earned a db' = earned_in_log a db'"
  using db_step_money_cases [OF assms(1)]
proof
  assume "\<exists>c t1 t2. db' = snd (charge_request c t1 t2 db)"
  then obtain c t1 t2 where "db' = snd (charge_request c t1 t2 db)" by blast
  then show ?thesis using assms(3) by (simp only: charge_earned charge_earned_log)
next
  assume r: "db_txs db' = db_txs db \<and> (\<forall>a. a \<notin> D \<longrightarrow> ledger_earned a db' = ledger_earned a db)"
  then have "ledger_earned a db' = ledger_earned a db" using assms(2) by blast
  with earned_in_log_cong [of db' db a] r assms(3) show ?thesis by simp
qed

lemma db_steps_ledger:
  "db_steps sha D R db db' \<Longrightarrow> a \<notin> D \<Longrightarrow> ledger_earned a db = earned_in_log a db \<Longrightarrow>
   ledger_earned a db' = earned_in_log a db'"
  by (induction rule: rtranclp_induct) (auto intro: db_step_ledger)

lemma db_step_log: "db_step sha D R db db' \<Longrightarrow> \<exists>new. db_txs db' = db_txs db @ new"
  by (drule db_step_money_cases) (auto simp: charge_txs)

lemma db_steps_log: "db_steps sha D R db db' \<Longrightarrow> \<exists>new. db_txs db' = db_txs db @ new"
proof (induction rule: rtranclp_induct)
  case (step y z) then show ?case using db_step_log [OF step(2)] by fastforce
qed simp

text \<open>An account's balance is the opening credit less what it spent plus what it earned.\<close>

definition balanced :: "account \<Rightarrow> bool" where
  "balanced r \<longleftrightarrow> acc_balance r = 10 * MICRO_PER_DOLLAR - acc_spent r + acc_earned r"

definition books_balance :: "string set \<Rightarrow> db \<Rightarrow> bool" where
  "books_balance R db \<longleftrightarrow> (\<forall>i r. get_account i db = Some r \<longrightarrow> i \<notin> R \<longrightarrow> balanced r)"

lemma get_account_cong: "db_accounts db' = db_accounts db \<Longrightarrow> get_account i db' = get_account i db"
  by (simp add: get_account_def)

lemma books_balance_cong: "db_accounts db' = db_accounts db \<Longrightarrow> books_balance R db \<Longrightarrow> books_balance R db'"
  by (simp add: books_balance_def get_account_def)

lemma balanced_simps [simp]:
  "balanced (new_account i n t)" "balanced r \<Longrightarrow> balanced (debit c k r)" "balanced r \<Longrightarrow> balanced (credit e r)"
  by (simp_all add: balanced_def new_account_def debit_def credit_def)

lemma books_append:
  assumes "books_balance R db" "balanced r" "db_accounts db' = db_accounts db @ [r]" shows "books_balance R db'"
  using assms by (auto simp: books_balance_def get_account_def find_append split: option.splits if_splits)

lemma books_charge: "books_balance R db \<Longrightarrow> books_balance R (snd (charge_request c t1 t2 db))"
  unfolding books_balance_def
proof (intro allI impI)
  fix i r
  assume b: "\<forall>i r. get_account i db = Some r \<longrightarrow> i \<notin> R \<longrightarrow> balanced r"
    and r: "get_account i (snd (charge_request c t1 t2 db)) = Some r" and i: "i \<notin> R"
  have d: "balanced x" if "debited c i (get_account i db) = Some x" for x
    using that b i by (auto simp: debited_def split: if_splits)
  show "balanced r"
  proof (cases "debited c i (get_account i db)")
    case None
    with r show ?thesis by (simp add: charge_account split: if_splits) (auto simp: debited_def)
  next
    case (Some x)
    with r d [OF Some] show ?thesis by (auto simp: charge_account split: if_splits)
  qed
qed

lemma books_reset: "c \<in> R \<Longrightarrow> books_balance R db \<Longrightarrow> books_balance R (snd (reset_dev_balance c db))"
  by (auto simp: books_balance_def reset_account)

lemma books_delete:
  "db_accounts db' = sql_delete (\<lambda>x. acc_id x = u) (db_accounts db) \<Longrightarrow> books_balance R db \<Longrightarrow> books_balance R db'"
  by (simp add: books_balance_def get_account_def)

lemma db_step_books:
  assumes "db_step sha D R db db'" and b: "books_balance R db" shows "books_balance R db'"
  using assms(1)
proof (cases rule: db_step_shape)
  case (charge a t1 t2)
  show ?thesis unfolding charge by (rule books_charge) (rule b)
next
  case (reset c)
  show ?thesis unfolding reset(2) by (rule books_reset) (rule reset(1), rule b)
next
  case (account i n t)
  show ?thesis by (rule books_append [OF b balanced_simps(1)]) (simp add: account)
next
  case (enroll w n p t raw i j k r)
  then have "db_accounts db' = db_accounts db @ [new_account (PROVIDER_ACCT_PREFIX @ j) n t]"
    by (auto dest!: enroll_body_ok)
  then show ?thesis by (rule books_append [OF b balanced_simps(1)])
next
  case (claim b' w a r h t1 t2 x)
  from claim_body_ok [OF claim(2)] have "db_accounts db' = db_accounts db" by (elim exE conjE) simp
  then show ?thesis by (rule books_balance_cong) (rule b)
next
  case (delete u)
  show ?thesis by (rule books_delete [OF _ b]) (simp add: delete)
qed (rule books_balance_cong [OF _ b], simp)+

lemma db_steps_books: "db_steps sha D R db db' \<Longrightarrow> books_balance R db \<Longrightarrow> books_balance R db'"
  by (induction rule: rtranclp_induct) (auto intro: db_step_books)

section \<open>Tokens, nodes and sessions\<close>

text \<open>A node never changes hands and never disappears.\<close>

lemma db_step_nodes:
  assumes "db_step sha D R db db'" shows "\<exists>new. db_nodes db' = db_nodes db @ new"
  using assms
proof (cases rule: db_step_shape)
  case (enroll w n p t raw i j k r) then show ?thesis by (auto dest!: enroll_body_ok)
next
  case (claim b w a r h t1 t2 x) then show ?thesis by (auto dest!: claim_body_ok)
qed auto

lemma db_steps_nodes: "db_steps sha D R db db' \<Longrightarrow> \<exists>new. db_nodes db' = db_nodes db @ new"
proof (induction rule: rtranclp_induct)
  case (step y z) then show ?case using db_step_nodes [OF step(2)] by fastforce
qed simp

definition billing_prefixed :: "db \<Rightarrow> bool" where
  "billing_prefixed db \<longleftrightarrow> (\<forall>n \<in> set (db_nodes db). starts_with PROVIDER_ACCT_PREFIX (node_billing n))"

lemma db_step_prefixed:
  assumes "db_step sha D R db db'" "billing_prefixed db" shows "billing_prefixed db'"
  using assms(1)
proof (cases rule: db_step_shape)
  case (enroll w n p t raw i j k r)
  then show ?thesis using assms(2) by (auto dest!: enroll_body_ok simp: billing_prefixed_def starts_with_append)
next
  case (claim b w a r h t1 t2 x)
  then show ?thesis using assms(2) by (auto dest!: claim_body_ok simp: billing_prefixed_def)
qed (use assms(2) in \<open>simp_all add: billing_prefixed_def\<close>)

lemma db_steps_prefixed: "db_steps sha D R db db' \<Longrightarrow> billing_prefixed db \<Longrightarrow> billing_prefixed db'"
  by (induction rule: rtranclp_induct) (auto intro: db_step_prefixed)

text \<open>A revoked token stays revoked.\<close>

definition token_revoked :: "string \<Rightarrow> db \<Rightarrow> bool" where
  "token_revoked h db \<longleftrightarrow> (\<exists>t \<in> set (db_tokens db). tok_hash t = h \<and> tok_revoked t \<noteq> None)"

lemma token_revoked_update:
  assumes "token_revoked h db" "db_tokens db' = sql_update p f (db_tokens db)"
    "\<And>t. tok_hash (f t) = tok_hash t" "\<And>t. tok_revoked t \<noteq> None \<Longrightarrow> tok_revoked (f t) \<noteq> None"
  shows "token_revoked h db'"
proof -
  obtain t where t: "t \<in> set (db_tokens db)" "tok_hash t = h" "tok_revoked t \<noteq> None"
    using assms(1) by (auto simp: token_revoked_def)
  let ?t = "if p t then f t else t"
  have "?t \<in> set (db_tokens db')" using t(1) by (simp add: assms(2) set_sql_update)
  moreover have "tok_hash ?t = h" "tok_revoked ?t \<noteq> None" using t assms(3,4) by auto
  ultimately show ?thesis unfolding token_revoked_def by blast
qed

lemma db_step_revoked:
  assumes "db_step sha D R db db'" "token_revoked h db" shows "token_revoked h db'"
  using assms(1)
proof (cases rule: db_step_shape)
  case (enroll w n p t raw i j k r)
  then show ?thesis using assms(2) by (auto dest!: enroll_body_ok simp: token_revoked_def)
next
  case (claim b w a r h' t1 t2 x)
  then show ?thesis by (auto dest!: claim_body_ok intro!: token_revoked_update [OF assms(2)])
next
  case (token_upd f p)
  show ?thesis by (rule token_revoked_update [OF assms(2), of _ p f]) (simp_all add: token_upd)
qed (use assms(2) in \<open>auto simp: token_revoked_def\<close>)

lemma db_steps_revoked: "db_steps sha D R db db' \<Longrightarrow> token_revoked h db \<Longrightarrow> token_revoked h db'"
  by (induction rule: rtranclp_induct) (auto intro: db_step_revoked)

lemma token_revoked_dead:
  assumes "tokens_ok db" "token_revoked h db" shows "live_token h db = None"
proof -
  have d: "distinct (map tok_hash (db_tokens db))" using assms(1) by (simp add: tokens_ok_def)
  then show ?thesis using assms(2)
    by (fastforce simp: live_token_def token_revoked_def find_None_iff distinct_map inj_on_def)
qed

text \<open>Session versions only grow while the user exists.\<close>

lemma find_user_update:
  "(\<And>r. usr_id (f r) = usr_id r) \<Longrightarrow> db_users db' = sql_update p f (db_users db) \<Longrightarrow>
   find_user u db' = map_option (\<lambda>r. if p r then f r else r) (find_user u db)"
  by (simp add: find_user_def find_sql_update)

lemma db_step_session:
  assumes "db_step sha D R db db'" "u \<notin> D" "find_user u db = Some r"
  shows "\<exists>r'. find_user u db' = Some r' \<and> usr_session r \<le> usr_session r'"
  using assms(1)
proof (cases rule: db_step_shape)
  case (user x)
  then show ?thesis using assms(3) by (simp add: find_user_def find_append)
next
  case (user_upd f p)
  from find_user_update [OF user_upd(1) , of db' p db u] user_upd show ?thesis by (simp add: assms(3))
next
  case (delete x)
  then show ?thesis using assms(2,3) by (auto simp: find_user_def)
next
  case (enroll w n p t raw i j k x)
  then show ?thesis using assms(3) by (auto dest!: enroll_body_ok simp: find_user_def)
next
  case (claim b w a x h t1 t2 y)
  then show ?thesis using assms(3) by (auto dest!: claim_body_ok simp: find_user_def)
qed (use assms(3) in \<open>simp_all add: find_user_def\<close>)

lemma db_steps_session:
  "db_steps sha D R db db' \<Longrightarrow> u \<notin> D \<Longrightarrow> find_user u db = Some r \<Longrightarrow>
   \<exists>r'. find_user u db' = Some r' \<and> usr_session r \<le> usr_session r'"
proof (induction rule: rtranclp_induct)
  case (step y z)
  then obtain r' where "find_user u y = Some r'" "usr_session r \<le> usr_session r'" by blast
  with db_step_session [OF step(2) step(4)] show ?case by (meson order_trans)
qed auto

section \<open>The self-service limit\<close>

definition owned_by :: "string \<Rightarrow> provider_node list \<Rightarrow> provider_token \<Rightarrow> bool" where
  "owned_by w nodes t \<longleftrightarrow> (case tok_node t of None \<Rightarrow> False
     | Some n \<Rightarrow> sql_exists (\<lambda>x. node_id x = n \<and> node_owner x = w) nodes)"

definition active_self_service :: "string \<Rightarrow> db \<Rightarrow> nat" where
  "active_self_service w db = sql_count (\<lambda>t. tok_revoked t = None) (owned_self_service w db)"

lemma active_eq:
  "active_self_service w db = length (filter (\<lambda>t. tok_source t = ''self_service'' \<and> owned_by w (db_nodes db) t
     \<and> tok_revoked t = None) (db_tokens db))"
  by (simp add: active_self_service_def sql_count_def owned_self_service_def owned_by_def conj_assoc conj_commute)

definition self_service_linked :: "db \<Rightarrow> bool" where
  "self_service_linked db \<longleftrightarrow> (\<forall>t \<in> set (db_tokens db). tok_source t = ''self_service'' \<longrightarrow> tok_node t \<noteq> None)"

lemma length_filter_le_imp:
  "(\<And>x. x \<in> set xs \<Longrightarrow> P x \<Longrightarrow> Q x) \<Longrightarrow> length (filter P xs) \<le> length (filter Q xs)"
  by (induction xs) (auto simp: le_Suc_eq)

lemma owned_by_append:
  assumes "tokens_ok db" "t \<in> set (db_tokens db)" "node_id n \<notin> node_id ` set (db_nodes db)"
  shows "owned_by w (db_nodes db @ [n]) t = owned_by w (db_nodes db) t"
proof (cases "tok_node t")
  case (Some i)
  with assms(2) have "i \<in> set (non_null (map tok_node (db_tokens db)))" by (force simp: set_non_null)
  with assms(1,3) have "i \<noteq> node_id n" by (auto simp: tokens_ok_def)
  with Some show ?thesis by (auto simp: owned_by_def sql_exists_def)
qed (simp add: owned_by_def)

lemma active_le:
  assumes "\<And>t. t \<in> set (db_tokens db) \<Longrightarrow> tok_source (g t) = ''self_service'' \<Longrightarrow> owned_by w (db_nodes db') (g t) \<Longrightarrow>
      tok_revoked (g t) = None \<Longrightarrow>
      tok_source t = ''self_service'' \<and> owned_by w (db_nodes db) t \<and> tok_revoked t = None"
    and "db_tokens db' = map g (db_tokens db)"
  shows "active_self_service w db' \<le> active_self_service w db"
  unfolding active_eq assms(2) filter_map length_map comp_def
  using assms(1) by (intro length_filter_le_imp) auto

lemma active_cong:
  "db_tokens db' = db_tokens db \<Longrightarrow> db_nodes db' = db_nodes db \<Longrightarrow> active_self_service w db' = active_self_service w db"
  by (simp add: active_eq)

lemma active_enroll:
  assumes ok: "db_ok db" and e: "enroll_body sha w n p t raw i j k db = Inr (r, db')"
  shows "active_self_service v db' = (if v = w then 1 else active_self_service v db)"
proof -
  from enroll_body_ok [OF e] obtain act where none: "active_self_service w db = 0"
    and fresh: "NODE_PREFIX @ i \<notin> node_id ` set (db_nodes db)"
    and db': "db' = db\<lparr>db_accounts := db_accounts db @ [new_account (PROVIDER_ACCT_PREFIX @ j) n t],
          db_nodes := db_nodes db @ [\<lparr>node_id = NODE_PREFIX @ i, node_owner = w,
             node_billing = PROVIDER_ACCT_PREFIX @ j, node_name = n, node_created = t, node_profile = p\<rparr>],
          db_tokens := db_tokens db @ [enrolled_token (sha raw) (TOKEN_ID_PREFIX @ k) n (PROVIDER_ACCT_PREFIX @ j) (NODE_PREFIX @ i) t],
          db_owns := db_owns db @ [act], seq_own := Suc (seq_own db)\<rparr>"
    unfolding active_self_service_def by (elim exE conjE) blast
  let ?n = "\<lparr>node_id = NODE_PREFIX @ i, node_owner = w, node_billing = PROVIDER_ACCT_PREFIX @ j,
    node_name = n, node_created = t, node_profile = p\<rparr>"
  let ?t = "enrolled_token (sha raw) (TOKEN_ID_PREFIX @ k) n (PROVIDER_ACCT_PREFIX @ j) (NODE_PREFIX @ i) t"
  have tok: "tokens_ok db" using ok by (simp add: db_ok_def)
  have old: "owned_by v (db_nodes db @ [?n]) x = owned_by v (db_nodes db) x" if "x \<in> set (db_tokens db)" for x
    by (rule owned_by_append [OF tok that]) (use fresh in simp)
  have "owned_by v (db_nodes db @ [?n]) ?t \<longleftrightarrow> v = w"
  proof -
    have "\<not> sql_exists (\<lambda>x. node_id x = NODE_PREFIX @ i \<and> node_owner x = v) (db_nodes db)"
      using fresh by (force simp: sql_exists_iff)
    then show ?thesis by (auto simp: owned_by_def enrolled_token_def sql_exists_def)
  qed
  moreover have "filter (\<lambda>x. tok_source x = ''self_service'' \<and> owned_by v (db_nodes db @ [?n]) x \<and> tok_revoked x = None) (db_tokens db)
      = filter (\<lambda>x. tok_source x = ''self_service'' \<and> owned_by v (db_nodes db) x \<and> tok_revoked x = None) (db_tokens db)"
    by (rule filter_cong) (auto simp: old)
  ultimately show ?thesis
    using none by (auto simp: active_eq db' enrolled_token_def)
qed

lemma active_claim:
  assumes ok: "db_ok db" and link: "self_service_linked db"
    and c: "claim_body b w a r h t1 t2 db = Inr (x, db')"
  shows "active_self_service v db' \<le> active_self_service v db"
proof -
  from claim_body_ok [OF c] obtain tok :: provider_token and act where fresh: "NODE_PREFIX @ h \<notin> node_id ` set (db_nodes db)"
    and db': "db' = db\<lparr>db_nodes := db_nodes db @ [\<lparr>node_id = NODE_PREFIX @ h, node_owner = w, node_billing = b,
             node_name = tok_name tok, node_created = t2, node_profile = ''''\<rparr>],
          db_tokens := sql_update (\<lambda>t. tok_hash t = tok_hash tok \<and> tok_node t = None \<and> tok_revoked t = None)
             (\<lambda>t. t\<lparr>tok_node := Some (NODE_PREFIX @ h)\<rparr>) (db_tokens db),
          db_owns := db_owns db @ [act], seq_own := Suc (seq_own db)\<rparr>"
    by (elim exE conjE) (rule that)
  have n': "db_nodes db' = db_nodes db @ [\<lparr>node_id = NODE_PREFIX @ h, node_owner = w, node_billing = b,
             node_name = tok_name tok, node_created = t2, node_profile = ''''\<rparr>]"
    and t': "db_tokens db' = map (\<lambda>t. if tok_hash t = tok_hash tok \<and> tok_node t = None \<and> tok_revoked t = None
        then t\<lparr>tok_node := Some (NODE_PREFIX @ h)\<rparr> else t) (db_tokens db)"
    by (simp_all add: db' sql_update_def)
  have tk: "tokens_ok db" using ok by (simp add: db_ok_def)
  show ?thesis
  proof (rule active_le [OF _ t'], goal_cases)
    case (1 t)
    show ?case
    proof (cases "tok_hash t = tok_hash tok \<and> tok_node t = None \<and> tok_revoked t = None")
      case True
      with 1 link show ?thesis by (auto simp: self_service_linked_def)
    next
      case False
      then have "(if tok_hash t = tok_hash tok \<and> tok_node t = None \<and> tok_revoked t = None
        then t\<lparr>tok_node := Some (NODE_PREFIX @ h)\<rparr> else t) = t" by (rule if_not_P)
      with 1 show ?thesis using owned_by_append [OF tk 1(1)] fresh by (simp add: n')
    qed
  qed
qed

lemma db_step_linked:
  assumes "db_step sha D R db db'" and l: "self_service_linked db" shows "self_service_linked db'"
  using assms(1)
proof (cases rule: db_step_shape)
  case (enroll w n p t raw i j k r)
  from enroll_body_ok [OF this] l show ?thesis
    by (elim exE conjE) (simp add: self_service_linked_def enrolled_token_def)
next
  case (claim b w a r h t1 t2 x)
  from claim_body_ok [OF claim(2)] l show ?thesis
    by (elim exE conjE) (auto simp: self_service_linked_def set_sql_update)
next
  case (token_upd f p)
  then show ?thesis using l by (auto simp: self_service_linked_def set_sql_update)
next
  case (token h n b t)
  then show ?thesis using l by (simp add: self_service_linked_def new_token_def)
qed (use l in \<open>simp_all add: self_service_linked_def\<close>)

lemma db_step_active:
  assumes "db_step sha D R db db'" and ok: "db_ok db" and l: "self_service_linked db"
    and a: "\<forall>w. active_self_service w db \<le> 1"
  shows "\<forall>w. active_self_service w db' \<le> 1"
  using assms(1)
proof (cases rule: db_step_shape)
  case (enroll w n p t raw i j k r)
  show ?thesis using active_enroll [OF ok enroll] a by simp
next
  case (claim b w a' r h t1 t2 x)
  show ?thesis using active_claim [OF ok l claim(2)] a by (meson order_trans)
next
  case (token_upd f p)
  have "active_self_service w db' \<le> active_self_service w db" for w
  proof (rule active_le [where g = "\<lambda>t. if p t then f t else t"])
    show "db_tokens db' = map (\<lambda>t. if p t then f t else t) (db_tokens db)"
      by (simp add: token_upd(7) sql_update_def)
    show "tok_source t = ''self_service'' \<and> owned_by w (db_nodes db) t \<and> tok_revoked t = None"
      if "tok_source (if p t then f t else t) = ''self_service''"
        "owned_by w (db_nodes db') (if p t then f t else t)" "tok_revoked (if p t then f t else t) = None" for t
      using that token_upd(4,5) token_upd(6) [of t]
      by (cases "p t"; cases "tok_revoked t") (simp_all add: token_upd(7) owned_by_def)
  qed
  then show ?thesis using a by (meson order_trans)
next
  case (token h n b t)
  then have "active_self_service w db' = active_self_service w db" for w
    by (simp add: active_eq new_token_def)
  then show ?thesis using a by simp
qed (use a in \<open>simp_all add: active_eq\<close>)

lemma db_steps_active:
  assumes "db_steps sha D R db db'" "db_ok db" "self_service_linked db" "\<forall>w. active_self_service w db \<le> 1"
  shows "self_service_linked db' \<and> (\<forall>w. active_self_service w db' \<le> 1)"
  using assms
proof (induction rule: rtranclp_induct)
  case (step y z)
  then have "db_ok y" using db_steps_ok by blast
  with step show ?case using db_step_active db_step_linked by blast
qed auto

lemma store_run_ok: "db_ok (store_run sha ops empty_db)"
  using store_run_steps [OF empty_db_ok subset_refl subset_refl] by blast

section \<open>Properties\<close>

text \<open>Every sequence of store operations, in any order and with any arguments, clock readings and
  random draws, keeps every constraint of the schema: unique primary keys, e-mails, GitHub ids and
  billing principals, keys of existing accounts, nodes of existing users, tokens of existing nodes.\<close>

theorem store_integrity: "db_ok (store_run sha ops empty_db)"
  by (rule store_run_ok)

lemma run_from_empty:
  "db_steps sha (deleted ops) (reset_ids ops) empty_db (store_run sha ops empty_db)"
  using store_run_steps [OF empty_db_ok subset_refl subset_refl] by blast

lemma run_on:
  "db_ok db \<Longrightarrow> db_steps sha (deleted ops) (reset_ids ops) db (store_run sha ops db) \<and> db_ok (store_run sha ops db)"
  using store_run_steps [OF _ subset_refl subset_refl] by blast

text \<open>C5: The ledger equations over time. In every state reached from an empty database without
  deleting the account, the account's earned total is the sum of the earnings logged for it, and,
  unless its balance was reset, its balance is the ten dollars it opened with less what it spent plus
  what it earned; the transaction log is append-only.\<close>

theorem ledger_equations:
  assumes "a \<notin> deleted (xs @ ys)"
  shows "let db1 = store_run sha xs empty_db; db2 = store_run sha ys db1 in
      ledger_earned a db2 = sum_list (map tx_earning (txs_of_provider a db2))
    \<and> (a \<notin> reset_ids (xs @ ys) \<longrightarrow> (\<forall>r. get_account a db2 = Some r \<longrightarrow>
          acc_balance r = 10000000 - acc_spent r + acc_earned r))
    \<and> (\<exists>new. db_txs db2 = db_txs db1 @ new)"
proof -
  define db1 where "db1 = store_run sha xs empty_db"
  define db2 where "db2 = store_run sha ys db1"
  have s: "db_steps sha (deleted (xs @ ys)) (reset_ids (xs @ ys)) empty_db db2"
    using run_from_empty [of sha "xs @ ys"] by (simp add: db1_def db2_def)
  have "ledger_earned a db2 = earned_in_log a db2"
    by (rule db_steps_ledger [OF s assms])
      (simp add: ledger_earned_def get_account_def earned_in_log_def txs_of_provider_def empty_db_def)
  moreover have "books_balance (reset_ids (xs @ ys)) db2"
    by (rule db_steps_books [OF s]) (simp add: books_balance_def get_account_def empty_db_def)
  moreover have "\<exists>new. db_txs db2 = db_txs db1 @ new"
    using run_on [of db1 sha ys] store_run_ok [of sha xs] db_steps_log unfolding db1_def db2_def by blast
  ultimately show ?thesis
    unfolding Let_def db1_def [symmetric] db2_def [symmetric]
    by (auto simp: earned_in_log_def books_balance_def balanced_def MICRO_PER_DOLLAR_def)
qed

lemma ledger_equations_witness:
  "\<exists>new. db_txs (store_run id [ChargeRequest sample_charge 1 2] (store_run id [EnsureAccount ''user-1'' ''u'' 0] empty_db))
     = db_txs (store_run id [EnsureAccount ''user-1'' ''u'' 0] empty_db) @ new"
  using ledger_equations [of "''user-1''" "[EnsureAccount ''user-1'' ''u'' 0]" "[ChargeRequest sample_charge 1 2]" id]
  unfolding Let_def by (simp add: deleted_def)

lemma earnings_report_nodes:
  assumes "get_owned_provider_earnings w node limit b now db = Inr (Some rep)" "n \<in> set (ep_by_node rep)"
  shows "n \<in> earnings_of_node (\<lfloor>now / 86400\<rfloor> * 86400) db ` set (list_owned_provider_nodes w db)"
  using assms by (auto simp: get_owned_provider_earnings_def Let_def split: if_splits prod.splits option.splits)

lemma owned_node_ledger:
  "n \<in> set (list_owned_provider_nodes w db) \<Longrightarrow> own_node_ledger n = ledger_earned (own_node_billing n) db
     \<and> (\<exists>x \<in> set (db_nodes db). node_billing x = own_node_billing n)"
  by (auto simp: list_owned_provider_nodes_def)

lemma earnings_summary_shape:
  "get_owned_provider_earnings w node limit b now db = Inr (Some rep) \<Longrightarrow> ep_summary rep = sum_earnings (ep_by_node rep)"
  by (auto simp: get_owned_provider_earnings_def Let_def split: if_splits prod.splits option.splits)

text \<open>An owner's earnings reconcile. As long as only ids outside the billing namespace were
  deleted, the report of any owner shows every node reconciled: what the ledger account earned equals
  the sum of the logged earnings, node by node and in the summary.\<close>

theorem earnings_reconcile:
  assumes db: "db = store_run sha ops empty_db"
    and del: "\<And>u. u \<in> deleted ops \<Longrightarrow> \<not> starts_with PROVIDER_ACCT_PREFIX u"
    and rep: "get_owned_provider_earnings w node limit b now db = Inr (Some rep)"
  shows "(\<forall>n \<in> set (ep_by_node rep). es_reconciled n \<and> es_earned n = es_ledger n)
    \<and> es_reconciled (ep_summary rep) \<and> es_earned (ep_summary rep) = es_ledger (ep_summary rep)"
proof -
  have s: "db_steps sha (deleted ops) (reset_ids ops) empty_db db"
    unfolding db by (rule run_from_empty)
  have pre: "billing_prefixed db"
    by (rule db_steps_prefixed [OF s]) (simp add: billing_prefixed_def empty_db_def)
  have led: "ledger_earned a db = earned_in_log a db" if "starts_with PROVIDER_ACCT_PREFIX a" for a
    using del that by (intro db_steps_ledger [OF s])
      (auto simp: ledger_earned_def get_account_def earned_in_log_def txs_of_provider_def empty_db_def)
  have n: "es_reconciled n \<and> es_earned n = es_ledger n" if "n \<in> set (ep_by_node rep)" for n
  proof -
    from earnings_report_nodes [OF rep that] obtain x where x: "x \<in> set (list_owned_provider_nodes w db)"
      "n = earnings_of_node (\<lfloor>now / 86400\<rfloor> * 86400) db x" by blast
    with owned_node_ledger [OF x(1)] pre have "own_node_ledger x = earned_in_log (own_node_billing x) db"
      using led by (auto simp: billing_prefixed_def)
    then show ?thesis by (simp add: x(2) earnings_of_node_def Let_def earned_in_log_def)
  qed
  then have "map es_earned (ep_by_node rep) = map es_ledger (ep_by_node rep)" by simp
  with n earnings_summary_shape [OF rep] show ?thesis
    by (simp add: sum_earnings_def list_all_iff)
qed

lemma earnings_reconcile_witness:
  "es_reconciled (ep_summary (\<lparr>ep_summary = sum_earnings [], ep_by_node = [], ep_rows = [], ep_next = None\<rparr> :: earnings_report))"
proof -
  have r: "get_owned_provider_earnings ''user-1'' None 50 None 0 (store_run id [] empty_db)
      = Inr (Some \<lparr>ep_summary = sum_earnings [], ep_by_node = [], ep_rows = [], ep_next = None\<rparr>)"
    by (simp add: get_owned_provider_earnings_def list_owned_provider_nodes_def empty_db_def)
  show ?thesis using earnings_reconcile [OF refl _ r] by (simp add: deleted_def)
qed

lemma revoke_revokes:
  "t \<in> set (db_tokens db) \<Longrightarrow> tok_id t = i \<Longrightarrow> token_revoked (tok_hash t) (snd (revoke_provider_token i now db))"
  by (auto simp: revoke_provider_token_def serialized_write_def Let_def token_revoked_def set_sql_update
      intro!: bexI [of _ "if tok_revoked t = None then t\<lparr>tok_revoked := Some now\<rparr> else t"]) 

text \<open>Revoking a provider token is permanent. After an operator revokes a token id, no sequence of
  store operations makes a credential with that token's digest valid or routable again.\<close>

theorem revoked_token_stays_dead:
  assumes "db_ok db" "t \<in> set (db_tokens db)" "tok_id t = i" "sha raw = tok_hash t"
    and db': "db' = store_run sha ops (snd (revoke_provider_token i now db))"
  shows "validate_provider_token sha raw later db' = (Inr None, db')
    \<and> \<not> provider_credential_is_active (tok_hash t) j later db'"
proof -
  have ok: "db_ok (snd (revoke_provider_token i now db))" by (rule revoke_provider_token_ok) (rule assms(1))
  from run_on [OF ok, of sha ops] have s: "db_steps sha (deleted ops) (reset_ids ops) (snd (revoke_provider_token i now db)) db'"
    and ok': "db_ok db'" by (simp_all add: db')
  have "token_revoked (tok_hash t) db'"
    by (rule db_steps_revoked [OF s revoke_revokes]) (use assms in auto)
  then have dead: "live_token (tok_hash t) db' = None"
    using ok' by (intro token_revoked_dead) (simp add: db_ok_def)
  have "find (\<lambda>x. tok_hash x = tok_hash t \<and> tok_id x = j \<and> tok_revoked x = None) (db_tokens db') = None"
    using dead by (auto simp: live_token_def find_None_iff)
  with dead show ?thesis
    by (simp add: validate_provider_token_def serialized_write_def provider_credential_is_active_def assms(4))
qed

lemma revoked_token_stays_dead_witness:
  "fst (validate_provider_token id ''pt-ie-1'' 9 (snd (revoke_provider_token ''pt-ie-1'' 5
      (empty_db\<lparr>db_tokens := [new_token ''pt-ie-1'' ''n'' ''provider-acct-1'' 0]\<rparr>)))) = Inr None"
proof -
  have ok: "db_ok (empty_db\<lparr>db_tokens := [new_token ''pt-ie-1'' ''n'' ''provider-acct-1'' 0]\<rparr>)"
    by (simp add: db_ok_defs empty_db_def new_token_def)
  show ?thesis
    using revoked_token_stays_dead [OF ok _ _ _ refl, where ops = "[]" and raw = "''pt-ie-1''" and sha = id
        and i = "''pt-ie-1''" and now = 5 and later = 9 and t = "new_token ''pt-ie-1'' ''n'' ''provider-acct-1'' 0"]
    by (simp add: new_token_def)
qed

lemma owner_after:
  assumes "nodes_ok db" "n \<in> set (db_nodes db)"
  shows "get_provider_node_owner (node_id n) (node_billing n) db = Some (node_owner n)"
proof -
  have d: "distinct (map node_id (db_nodes db))" using assms(1) by (simp add: nodes_ok_def)
  have "find (\<lambda>x. node_id x = node_id n \<and> node_billing x = node_billing n) (db_nodes db) \<noteq> None"
    using assms(2) by (auto simp: find_None_iff)
  then obtain x where x: "find (\<lambda>x. node_id x = node_id n \<and> node_billing x = node_billing n) (db_nodes db) = Some x"
    by blast
  from find_Some_in [OF x] d assms(2) have "x = n" by (auto simp: distinct_map inj_on_def)
  with x show ?thesis by (simp add: get_provider_node_owner_def)
qed

lemma claimed_refuses:
  assumes "sql_exists (\<lambda>n. node_billing n = b) (db_nodes db)"
  shows "\<exists>e. claim_legacy_provider b w a r h t1 t2 db = (Inl e, db)"
proof -
  have "\<exists>e. claim_body b w a r' h t1 t2 db = Inl e" for r'
    using assms by (auto simp: claim_body_def split: option.split)
  then obtain e where "claim_body b w a (str_strip r) h t1 t2 db = Inl e" by blast
  then show ?thesis by (auto simp: claim_legacy_provider_def Let_def ow.rollback)
qed

text \<open>A billing principal is claimed at most once and never changes hands. After a successful claim,
  in every later state the node belongs to the claimed owner, and no further claim of the same
  principal, by any administrator for any owner, succeeds or changes anything.\<close>

theorem claim_is_final:
  assumes ok: "db_ok db" and c: "claim_legacy_provider b w a r h t1 t2 db = (Inr res, db1)"
    and db2: "db2 = store_run sha ops db1"
  shows "get_provider_node_owner (clm_node res) b db2 = Some w
    \<and> (\<exists>e. claim_legacy_provider b w' a' r' h' t1' t2' db2 = (Inl e, db2))"
proof -
  have cb: "claim_body b w a (str_strip r) h t1 t2 db = Inr (res, db1)"
    using c by (auto simp: claim_legacy_provider_def Let_def ownership_write_def split: if_splits sum.splits prod.splits)
  from claim_body_ok [OF cb] obtain nm where res: "res = \<lparr>clm_node = NODE_PREFIX @ h, clm_owner = w,
      clm_billing = b, clm_name = nm\<rparr>"
    and n1: "\<lparr>node_id = NODE_PREFIX @ h, node_owner = w, node_billing = b, node_name = nm,
      node_created = t2, node_profile = ''''\<rparr> \<in> set (db_nodes db1)" (is "?n \<in> _")
    by (elim exE conjE) (rule that, assumption, simp)
  have ok1: "db_ok db1" using claim_legacy_provider_ok [OF ok, of b w a r h t1 t2] by (simp add: c)
  from run_on [OF ok1, of sha ops] db_steps_nodes have ok2: "db_ok db2" and n2: "?n \<in> set (db_nodes db2)"
    unfolding db2 using n1 by fastforce+
  have "get_provider_node_owner (node_id ?n) (node_billing ?n) db2 = Some (node_owner ?n)"
    using ok2 n2 by (intro owner_after) (auto simp: db_ok_def)
  moreover have "sql_exists (\<lambda>n. node_billing n = b) (db_nodes db2)"
    using n2 by (force simp: sql_exists_iff)
  ultimately show ?thesis using claimed_refuses by (simp add: res)
qed

definition claim_db :: db where
  "claim_db = empty_db\<lparr>db_users := [(new_user ''admin'' ''a'' '''' ''A'' 0 None)\<lparr>usr_github := Some ''7''\<rparr>],
     db_tokens := [new_token ''h1'' ''n'' (PROVIDER_ACCT_PREFIX @ ''1'') 0]\<rparr>"

lemma claim_db_ok: "db_ok claim_db"
  by (simp add: db_ok_defs claim_db_def empty_db_def new_user_def new_token_def)

lemma claim_db_claim:
  "\<exists>res db1. claim_legacy_provider (PROVIDER_ACCT_PREFIX @ ''1'') ''admin'' ''admin'' ''because'' ''ab'' 1 2 claim_db = (Inr res, db1)"
  by (simp add: claim_legacy_provider_def claim_body_def claim_db_def empty_db_def new_user_def new_token_def
      str_strip_def is_space_def starts_with_append ownership_write_def find_user_def has_text_def suspended_at_def
      sql_exists_def sql_count_def ins_node_def ins_own_def bindE_def sql_update_def Let_def)

lemma claim_is_final_witness:
  "\<exists>db1 e. claim_legacy_provider (PROVIDER_ACCT_PREFIX @ ''1'') ''admin'' ''admin'' ''again'' ''cd'' 3 4 db1 = (Inl e, db1)"
proof -
  from claim_db_claim obtain res db1 where
    "claim_legacy_provider (PROVIDER_ACCT_PREFIX @ ''1'') ''admin'' ''admin'' ''because'' ''ab'' 1 2 claim_db = (Inr res, db1)"
    by blast
  from claim_is_final [OF claim_db_ok this refl, of id "[]"] show ?thesis by blast
qed

text \<open>Self-service credentials are limited. In every reachable state an owner has at most one active
  self-service credential; an enrolment succeeds only for a GitHub-linked, unsuspended user with
  none active and fewer than three issued in the last day, leaves exactly that one active, and the new
  token is linked to a new node of that owner with a billing account of its own.\<close>

theorem self_service_limited:
  assumes "db = store_run sha ops empty_db"
  shows "active_self_service v db \<le> 1
    \<and> (enroll_provider_node sha w n p t h i j k db = (Inr r, db') \<longrightarrow>
        active_self_service w db = 0 \<and> active_self_service w db' = 1
      \<and> sql_count (\<lambda>x. rnd (t - 86400) \<le> tok_created x) (owned_self_service w db) < 3
      \<and> (\<exists>u. find_user w db = Some u \<and> has_text (usr_github u) \<and> \<not> suspended_at t (usr_suspended u))
      \<and> get_account (PROVIDER_ACCT_PREFIX @ j) db' = Some (new_account (PROVIDER_ACCT_PREFIX @ j) n t)
      \<and> get_provider_node_owner (enr_node r) (PROVIDER_ACCT_PREFIX @ j) db' = Some w)"
proof -
  have ok: "db_ok db" unfolding assms by (rule store_run_ok)
  have s: "db_steps sha (deleted ops) (reset_ids ops) empty_db db" unfolding assms by (rule run_from_empty)
  have lim: "\<forall>w. active_self_service w db \<le> 1"
    using db_steps_active [OF s empty_db_ok]
    by (simp add: self_service_linked_def active_eq empty_db_def)
  show ?thesis
  proof (intro conjI impI)
    show "active_self_service v db \<le> 1" using lim by blast
    assume e: "enroll_provider_node sha w n p t h i j k db = (Inr r, db')"
    then have eb: "enroll_body sha w n p t (PROVIDER_TOKEN_PREFIX @ h) i j k db = Inr (r, db')"
      by (auto simp: enroll_provider_node_def ownership_write_def split: if_splits sum.splits prod.splits)
    note f = enroll_body_ok [OF eb]
    show "active_self_service w db' = 1" using active_enroll [OF ok eb] by simp
    show "active_self_service w db = 0" using f unfolding active_self_service_def by blast
    show "sql_count (\<lambda>x. rnd (t - 86400) \<le> tok_created x) (owned_self_service w db) < 3" using f by blast
    show "\<exists>u. find_user w db = Some u \<and> has_text (usr_github u) \<and> \<not> suspended_at t (usr_suspended u)" using f by blast
    from f have "db_accounts db' = db_accounts db @ [new_account (PROVIDER_ACCT_PREFIX @ j) n t]"
      and "get_account (PROVIDER_ACCT_PREFIX @ j) db = None"
      unfolding get_account_None by (elim exE conjE, simp)+
    then show "get_account (PROVIDER_ACCT_PREFIX @ j) db' = Some (new_account (PROVIDER_ACCT_PREFIX @ j) n t)"
      by (simp add: get_account_def find_append) (simp add: new_account_def)
    have ok': "db_ok db'" using enroll_provider_node_ok [OF ok, of sha w n p t h i j k] by (simp add: e)
    from f have m: "\<lparr>node_id = NODE_PREFIX @ i, node_owner = w, node_billing = PROVIDER_ACCT_PREFIX @ j,
        node_name = n, node_created = t, node_profile = p\<rparr> \<in> set (db_nodes db')" and "enr_node r = NODE_PREFIX @ i"
      by (elim exE conjE, simp)+
    with owner_after [OF _ m] ok' show "get_provider_node_owner (enr_node r) (PROVIDER_ACCT_PREFIX @ j) db' = Some w"
      by (simp add: db_ok_def)
  qed
qed

lemma self_service_limited_witness: "active_self_service ''u'' (store_run id [] empty_db) \<le> 1"
  using self_service_limited [of _ id "[]"] by blast

lemma find_user_act [simp]: "find_user u (ins_act r db) = find_user u db"
  by (simp add: find_user_def ins_act_def)

text \<open>Suspending a user ends every session for good. Whatever happens afterwards, short of deleting
  the account, its session version stays above the version any earlier session was issued with.\<close>

theorem suspension_ends_sessions:
  assumes "db_ok db" "get_session_version u db = Some v" "u \<notin> deleted ops"
  shows "\<exists>v'. get_session_version u (store_run sha ops (snd (suspend_user u reason actor d t1 t2 db))) = Some v' \<and> v < v'"
proof -
  from assms(2) obtain r where r: "find_user u db = Some r" "usr_session r = v"
    by (auto simp: get_session_version_def)
  define db1 where "db1 = snd (suspend_user u reason actor d t1 t2 db)"
  have ok: "db_ok db1" unfolding db1_def by (rule suspend_user_ok) (rule assms(1))
  obtain r1 where r1: "find_user u db1 = Some r1" "usr_session r1 = v + 1"
  proof -
    have "find_user u db1 = map_option (\<lambda>x. if usr_id x = u then x\<lparr>usr_suspended :=
        Some (case d of None \<Rightarrow> PERMANENT_SUSPENSION | Some d \<Rightarrow> rnd (t1 + d)), usr_reason := reason,
        usr_session := usr_session x + 1\<rparr> else x) (find_user u db)"
      using r(1) by (simp add: db1_def suspend_user_def serialized_write_def Let_def)
        (simp add: find_user_def find_sql_update)
    moreover have "usr_id r = u" using r(1) by (auto simp: find_user_def dest: find_Some_in)
    ultimately show ?thesis using that r by simp
  qed
  from run_on [OF ok, of sha ops] have s: "db_steps sha (deleted ops) (reset_ids ops) db1 (store_run sha ops db1)"
    by blast
  from db_steps_session [OF s assms(3) r1(1)] r1(2) show ?thesis
    by (auto simp: get_session_version_def db1_def)
qed

lemma suspension_ends_sessions_witness:
  "\<exists>v'. get_session_version ''admin'' (store_run id [] (snd (suspend_user ''admin'' ''abuse'' ''op'' None 5 6 claim_db))) = Some v' \<and> 0 < v'"
  by (rule suspension_ends_sessions [OF claim_db_ok])
    (simp_all add: get_session_version_def find_user_def claim_db_def new_user_def deleted_def)

end
