(* ===== verification/LoadLimits.thy ===== *)
theory LoadLimits
  imports Json PyFloat
begin

text \<open>
  What bounds the load a client can put on the coordinator: the token buckets of
  \<open>rate_limiter.py\<close>, the registration guard of \<open>provider_registration.py\<close>, the enrolment window of
  \<open>routes_provider.py\<close> and the pause switch, sign-up switch and concurrency slots of
  \<open>operator_controls.py\<close>. Clock reads are arguments. The locale \<open>rate_window\<close> states what a sliding
  window promises; both windows are interpretations of it.
\<close>

section \<open>Token buckets (\<open>rate_limiter.py\<close>)\<close>

record token_bucket =
  tb_max :: flt
  tb_rate :: flt
  tb_tokens :: flt
  tb_last :: flt

definition new_bucket :: "flt \<Rightarrow> flt \<Rightarrow> flt \<Rightarrow> token_bucket" where
  "new_bucket mx rate now = \<lparr>tb_max = mx, tb_rate = rate, tb_tokens = mx, tb_last = now\<rparr>"

definition refilled :: "flt \<Rightarrow> token_bucket \<Rightarrow> flt" where
  "refilled now b = min (tb_max b) (rnd (tb_tokens b + rnd (rnd (now - tb_last b) * tb_rate b)))"

definition consume :: "flt \<Rightarrow> flt \<Rightarrow> token_bucket \<Rightarrow> bool \<times> token_bucket" where
  "consume amount now b = (let t = refilled now b; b' = b\<lparr>tb_tokens := t, tb_last := now\<rparr> in
     if amount \<le> t then (True, b'\<lparr>tb_tokens := rnd (t - amount)\<rparr>) else (False, b'))"

record rate_limiter =
  rl_buckets :: "(string, token_bucket) dict"
  rl_rpm :: flt
  rl_burst :: int
  rl_refill :: flt

definition new_rate_limiter :: "flt \<Rightarrow> int \<Rightarrow> rate_limiter" where
  "new_rate_limiter rpm burst = \<lparr>rl_buckets = [], rl_rpm = rpm, rl_burst = burst, rl_refill = rnd (rpm / 60)\<rparr>"

text \<open>\<open>t0\<close> is the creation time of a new bucket, \<open>now\<close> the clock of \<open>consume\<close>.\<close>

definition limiter_allow :: "string \<Rightarrow> flt \<Rightarrow> flt \<Rightarrow> rate_limiter \<Rightarrow> bool \<times> rate_limiter" where
  "limiter_allow cid t0 now l =
     (let b = (case map_of (rl_buckets l) cid of Some b \<Rightarrow> b
              | None \<Rightarrow> new_bucket (of_int (rl_burst l)) (rl_refill l) t0)
      in case consume 1 now b of (ok, b') \<Rightarrow> (ok, l\<lparr>rl_buckets := dict_set cid b' (rl_buckets l)\<rparr>))"

definition limiter_remaining :: "string \<Rightarrow> flt \<Rightarrow> rate_limiter \<Rightarrow> flt" where
  "limiter_remaining cid now l = (case map_of (rl_buckets l) cid of
     None \<Rightarrow> of_int (rl_burst l) | Some b \<Rightarrow> refilled now b)"

definition limiter_reset :: "string \<Rightarrow> rate_limiter \<Rightarrow> rate_limiter" where
  "limiter_reset cid l = l\<lparr>rl_buckets := dict_pop cid (rl_buckets l)\<rparr>"

section \<open>Registration guard (\<open>provider_registration.py\<close>)\<close>

definition MAX_INCOMPLETE :: nat where "MAX_INCOMPLETE = 32"
definition MAX_ATTEMPTS :: nat where "MAX_ATTEMPTS = 20"
definition MAX_BUCKETS :: nat where "MAX_BUCKETS = 1024"

record registration_guard =
  rg_pending :: nat
  rg_attempts :: "(string, flt list) dict"

definition new_guard :: registration_guard where
  "new_guard = \<lparr>rg_pending = 0, rg_attempts = []\<rparr>"

definition guard_begin :: "registration_guard \<Rightarrow> bool \<times> registration_guard" where
  "guard_begin g = (if MAX_INCOMPLETE \<le> rg_pending g then (False, g) else (True, g\<lparr>rg_pending := rg_pending g + 1\<rparr>))"

definition guard_finish :: "registration_guard \<Rightarrow> registration_guard" where
  "guard_finish g = (if rg_pending g \<noteq> 0 then g\<lparr>rg_pending := rg_pending g - 1\<rparr> else g)"

definition guard_allow :: "string \<Rightarrow> flt \<Rightarrow> registration_guard \<Rightarrow> bool \<times> registration_guard" where
  "guard_allow tok now g =
     (let a = (if map_of (rg_attempts g) tok = None \<and> MAX_BUCKETS \<le> length (rg_attempts g) then tl (rg_attempts g) else rg_attempts g);
          q = dropWhile (\<lambda>t. 60 \<le> rnd (now - t)) (dict_get a tok [])
      in if MAX_ATTEMPTS \<le> length q then (False, g\<lparr>rg_attempts := dict_set tok q a\<rparr>)
         else (True, g\<lparr>rg_attempts := dict_set tok (q @ [now]) a\<rparr>))"

section \<open>Enrolment window (\<open>routes_provider.py\<close>)\<close>

type_synonym enrollment_rate = "(string, flt list) dict"

definition enroll_history :: "flt \<Rightarrow> string \<Rightarrow> enrollment_rate \<Rightarrow> flt list" where
  "enroll_history now key a = filter (\<lambda>t. rnd (now - 900) < t) (dict_get a key [])"

fun enroll_check :: "flt \<Rightarrow> (string \<times> nat) list \<Rightarrow> enrollment_rate \<Rightarrow> bool \<times> enrollment_rate" where
  "enroll_check now [] a = (True, a)"
| "enroll_check now ((key, limit) # ks) a =
     (let h = enroll_history now key a; a' = dict_set key h a
      in if limit \<le> length h then (False, a') else enroll_check now ks a')"

definition owner_key :: "string \<Rightarrow> string" where "owner_key owner = ''owner:'' @ owner"
definition peer_key :: "string \<Rightarrow> string" where "peer_key peer = ''peer:'' @ peer"

definition enroll_allow :: "string \<Rightarrow> string \<Rightarrow> flt \<Rightarrow> enrollment_rate \<Rightarrow> bool \<times> enrollment_rate" where
  "enroll_allow owner peer now a = (case enroll_check now [(owner_key owner, 6), (peer_key peer, 100)] a of
     (False, a') \<Rightarrow> (False, a')
   | (True, a') \<Rightarrow> (True, foldl (\<lambda>d key. dict_set key (dict_get d key [] @ [now]) d) a' [owner_key owner, peer_key peer]))"

section \<open>Operator controls (\<open>operator_controls.py\<close>)\<close>

record operator_controls =
  oc_paused :: bool
  oc_signup_off :: bool
  oc_limit :: int
  oc_active :: "(string, int) dict"

definition env_flag :: "string option \<Rightarrow> bool" where
  "env_flag v = (str_lower (str_strip (dflt ''0'' v)) \<in> {''1'', ''true'', ''yes'', ''on''})"

text \<open>The environment: the two flags and the already parsed integer limit.\<close>

definition new_controls :: "string option \<Rightarrow> string option \<Rightarrow> int option \<Rightarrow> operator_controls" where
  "new_controls paused signup limit = \<lparr>oc_paused = env_flag paused, oc_signup_off = env_flag signup,
     oc_limit = dflt 2 limit, oc_active = []\<rparr>"

definition active_for :: "string \<Rightarrow> operator_controls \<Rightarrow> int" where
  "active_for acct c = dict_get (oc_active c) acct 0"

definition try_acquire :: "string \<Rightarrow> operator_controls \<Rightarrow> bool \<times> operator_controls" where
  "try_acquire acct c = (let current = dict_get (oc_active c) acct 0 in
     if 0 < oc_limit c \<and> oc_limit c \<le> current then (False, c)
     else (True, c\<lparr>oc_active := dict_set acct (current + 1) (oc_active c)\<rparr>))"

definition release :: "string \<Rightarrow> operator_controls \<Rightarrow> operator_controls" where
  "release acct c = (let current = dict_get (oc_active c) acct 0 in
     if current \<le> 1 then c\<lparr>oc_active := dict_pop acct (oc_active c)\<rparr>
     else c\<lparr>oc_active := dict_set acct (current - 1) (oc_active c)\<rparr>)"

definition controls_snapshot :: "operator_controls \<Rightarrow> trace" where
  "controls_snapshot c =
     [(''inference_paused'', JBool (oc_paused c)), (''signup_disabled'', JBool (oc_signup_off c)),
      (''max_concurrent_per_account'', JInt (oc_limit c)),
      (''active_requests_by_account'', JObj (map (\<lambda>(a, n). (a, JInt n)) (oc_active c))),
      (''active_requests_total'', JInt (sum_list (map snd (oc_active c))))]"

definition controls_update :: "bool option \<Rightarrow> bool option \<Rightarrow> int option \<Rightarrow> operator_controls \<Rightarrow> trace \<times> operator_controls" where
  "controls_update paused signup limit c =
     (let c' = c\<lparr>oc_paused := dflt (oc_paused c) paused, oc_signup_off := dflt (oc_signup_off c) signup,
         oc_limit := dflt (oc_limit c) limit\<rparr> in (controls_snapshot c', c'))"

text \<open>One guarded inference request. The handler raises, returns a plain response or a streaming one;
  \<open>guard_enter\<close> runs before it, \<open>guard_leave\<close> after it, \<open>stream_closed\<close> when the stream of a streaming
  response finishes or its client disconnects.\<close>

datatype guard_error = Paused | ConcurrencyExceeded int
datatype handler_result = Raises | Plain | Streaming

definition guard_enter :: "string \<Rightarrow> operator_controls \<Rightarrow> (guard_error + unit) \<times> operator_controls" where
  "guard_enter acct c = (if oc_paused c then (Inl Paused, c)
     else (case try_acquire acct c of (ok, c') \<Rightarrow> if ok then (Inr (), c') else (Inl (ConcurrencyExceeded (oc_limit c)), c')))"

definition guard_leave :: "string \<Rightarrow> handler_result \<Rightarrow> operator_controls \<Rightarrow> operator_controls" where
  "guard_leave acct r c = (case r of Streaming \<Rightarrow> c | _ \<Rightarrow> release acct c)"

definition stream_closed :: "string \<Rightarrow> operator_controls \<Rightarrow> operator_controls" where
  "stream_closed acct c = release acct c"

section \<open>Sliding windows\<close>

text \<open>The calls of a sequence that are admitted, and the state after it.\<close>

fun run_calls :: "('a \<Rightarrow> flt \<Rightarrow> 'h \<Rightarrow> bool \<times> 'h) \<Rightarrow> ('a \<times> flt) list \<Rightarrow> 'h \<Rightarrow> ('a \<times> flt) list \<times> 'h" where
  "run_calls admit [] h = ([], h)"
| "run_calls admit ((a, now) # xs) h = (case admit a now h of (ok, h') \<Rightarrow> case run_calls admit xs h' of
     (ys, h'') \<Rightarrow> ((if ok then [(a, now)] else []) @ ys, h''))"

text \<open>A call \<open>a\<close> at time \<open>now\<close> is admitted or not; \<open>mine\<close> are the calls that count against the window,
  \<open>times\<close> the admission times the state remembers, \<open>recent now t\<close> that \<open>t\<close> still counts at \<open>now\<close>.\<close>

locale rate_window =
  fixes admit :: "'a \<Rightarrow> flt \<Rightarrow> 'h \<Rightarrow> bool \<times> 'h"
    and times :: "'h \<Rightarrow> flt list"
    and recent :: "flt \<Rightarrow> flt \<Rightarrow> bool"
    and limit :: nat
    and mine :: "'a \<Rightarrow> bool"
    and calls :: "'a set"
    and inv :: "flt \<Rightarrow> 'h \<Rightarrow> bool"
  assumes recent_antimono: "s \<le> now \<Longrightarrow> recent now t \<Longrightarrow> recent s t"
    and admit_inv: "inv s h \<Longrightarrow> s \<le> now \<Longrightarrow> a \<in> calls \<Longrightarrow> inv now (snd (admit a now h))"
    and admit_times: "inv s h \<Longrightarrow> s \<le> now \<Longrightarrow> a \<in> calls \<Longrightarrow>
      filter (recent now) (times (snd (admit a now h)))
        = filter (recent now) (times h @ (if fst (admit a now h) \<and> mine a then [now] else []))"
    and admit_limit: "inv s h \<Longrightarrow> s \<le> now \<Longrightarrow> a \<in> calls \<Longrightarrow> fst (admit a now h) \<Longrightarrow> mine a \<Longrightarrow>
      length (filter (recent now) (times h)) < limit"
begin

fun window_run :: "('a \<times> flt) list \<Rightarrow> 'h \<Rightarrow> flt list \<times> 'h" where
  "window_run [] h = ([], h)"
| "window_run ((a, now) # xs) h = (case admit a now h of (ok, h') \<Rightarrow> case window_run xs h' of
     (ts, h'') \<Rightarrow> ((if ok \<and> mine a then [now] else []) @ ts, h''))"

lemma filter_recent: "s \<le> now \<Longrightarrow> filter (recent now) (filter (recent s) xs) = filter (recent now) xs"
  using recent_antimono by (induction xs) auto

lemma step_bound:
  assumes "inv s h" "s \<le> now" "a \<in> calls" "filter (recent s) A = filter (recent s) (times h)" "length (filter (recent s) A) \<le> limit"
    "A' = A @ (if fst (admit a now h) \<and> mine a then [now] else [])"
  shows "filter (recent now) A' = filter (recent now) (times (snd (admit a now h))) \<and> length (filter (recent now) A') \<le> limit"
proof -
  have A: "filter (recent now) A = filter (recent now) (times h)"
    using filter_recent [OF assms(2), of A] filter_recent [OF assms(2), of "times h"] assms(4) by simp
  have shorter: "length (filter (recent now) A) \<le> length (filter (recent s) A)"
    using filter_recent [OF assms(2), of A] by (metis length_filter_le)
  have eq: "filter (recent now) A' = filter (recent now) (times (snd (admit a now h)))"
    using admit_times [OF assms(1-3)] A by (simp add: assms(6))
  have "length (filter (recent now) A') \<le> limit"
  proof (cases "fst (admit a now h) \<and> mine a")
    case True
    then have "length (filter (recent now) A) < limit" using admit_limit [OF assms(1-3)] A by simp
    with True show ?thesis by (simp add: assms(6))
  next
    case False
    then have "A' = A" using assms(6) by auto
    then show ?thesis using shorter assms(5) by simp
  qed
  with eq show ?thesis by simp
qed

lemma run_calls_window:
  "fst (window_run xs h) = map snd (filter (\<lambda>(a, _). mine a) (fst (run_calls admit xs h)))"
proof (induction xs arbitrary: h)
  case (Cons x xs)
  obtain a now where x: "x = (a, now)" by force
  obtain ok h' where ad: "admit a now h = (ok, h')" by force
  from Cons [of h'] show ?case by (auto simp: x ad split: prod.split)
qed simp

text \<open>The admissions that count, in any run with a monotone clock, never exceed the limit in the window
  that ends at the last call.\<close>

lemma window_bound:
  assumes "inv s h" "sorted (s # map snd xs)" "set (map fst xs) \<subseteq> calls"
    "filter (recent s) A = filter (recent s) (times h)" "length (filter (recent s) A) \<le> limit"
  shows "length (filter (recent (last (s # map snd xs))) (A @ fst (window_run xs h))) \<le> limit"
  using assms
proof (induction xs arbitrary: s h A)
  case Nil
  then show ?case by simp
next
  case (Cons x xs)
  obtain a now where x: "x = (a, now)" by force
  obtain ok h' where ad: "admit a now h = (ok, h')" by force
  obtain ts h'' where r: "window_run xs h' = (ts, h'')" by force
  define A' where "A' = A @ (if ok \<and> mine a then [now] else [])"
  have A'_eq: "A' = A @ (if fst (admit a now h) \<and> mine a then [now] else [])" by (simp add: A'_def ad)
  have c: "a \<in> calls" "s \<le> now" using Cons.prems(2,3) by (auto simp: x)
  have st: "filter (recent now) A' = filter (recent now) (times h') \<and> length (filter (recent now) A') \<le> limit"
    using step_bound [OF Cons.prems(1) c(2,1) Cons.prems(4,5) A'_eq] unfolding ad snd_conv by blast
  have i: "inv now h'" using admit_inv [OF Cons.prems(1) c(2,1)] by (simp add: ad)
  have "length (filter (recent (last (now # map snd xs))) (A' @ fst (window_run xs h'))) \<le> limit"
    by (rule Cons.IH [OF i _ _ st [THEN conjunct1] st [THEN conjunct2]]) (use Cons.prems in \<open>auto simp: x\<close>)
  then show ?case by (simp add: x ad r A'_def)
qed

end

end
