(* ===== verification/LoadLaws.thy ===== *)
theory LoadLaws
  imports LoadLimits
begin

text \<open>
  Properties of the limits: the two sliding windows keep their promises (interpretations of
  \<open>rate_window\<close>), the token bucket bounds what a consumer can send over any stretch of time,
  and the concurrency slots are neither leaked nor oversubscribed.
\<close>

section \<open>The registration guard\<close>

definition guard_times :: "string \<Rightarrow> registration_guard \<Rightarrow> flt list" where
  "guard_times tok g = dict_get (rg_attempts g) tok []"

definition guard_recent :: "flt \<Rightarrow> flt \<Rightarrow> bool" where
  "guard_recent now t \<longleftrightarrow> rnd (now - t) < 60"

definition guard_inv :: "string set \<Rightarrow> flt \<Rightarrow> registration_guard \<Rightarrow> bool" where
  "guard_inv toks s g \<longleftrightarrow> finite toks \<and> card toks \<le> MAX_BUCKETS \<and> dict_ok (rg_attempts g) \<and> set (dict_keys (rg_attempts g)) \<subseteq> toks
     \<and> (\<forall>tok. sorted (guard_times tok g) \<and> (\<forall>t \<in> set (guard_times tok g). t \<le> s))"

lemma guard_recent_antimono: "s \<le> now \<Longrightarrow> guard_recent now t \<Longrightarrow> guard_recent s t"
  unfolding guard_recent_def by (meson diff_right_mono le_less_trans rnd_monotone)

lemma dropWhile_sorted_recent:
  "sorted q \<Longrightarrow> dropWhile (\<lambda>t. 60 \<le> rnd (now - t)) q = filter (guard_recent now) q"
proof (induction q)
  case (Cons t q)
  show ?case
  proof (cases "guard_recent now t")
    case True
    have "guard_recent now u" if "u \<in> set q" for u
    proof -
      have "t \<le> u" using Cons.prems that by simp
      then have "rnd (now - u) \<le> rnd (now - t)" by (intro rnd_monotone) simp
      with True show ?thesis by (simp add: guard_recent_def)
    qed
    with True show ?thesis by (simp add: guard_recent_def)
  next
    case False
    then show ?thesis using Cons by (simp add: guard_recent_def not_less)
  qed
qed simp

lemma no_eviction:
  assumes "guard_inv toks s g" "tok \<in> toks"
  shows "\<not> (map_of (rg_attempts g) tok = None \<and> MAX_BUCKETS \<le> length (rg_attempts g))"
proof
  assume a: "map_of (rg_attempts g) tok = None \<and> MAX_BUCKETS \<le> length (rg_attempts g)"
  then have "tok \<notin> set (dict_keys (rg_attempts g))" by (simp add: map_of_None_notin_keys)
  then have "set (dict_keys (rg_attempts g)) \<subset> toks" using assms by (auto simp: guard_inv_def)
  then have "card (set (dict_keys (rg_attempts g))) < card toks" using assms(1) by (intro psubset_card_mono) (simp_all add: guard_inv_def)
  moreover have "card (set (dict_keys (rg_attempts g))) = length (rg_attempts g)"
    using assms(1) by (simp add: guard_inv_def dict_ok_def distinct_card del: set_map)
  ultimately show False using a assms(1) by (simp add: guard_inv_def)
qed

lemma guard_allow_eq:
  assumes "guard_inv toks s g" "tok \<in> toks"
  shows "guard_allow tok now g = (let q = filter (guard_recent now) (guard_times tok g) in
    if MAX_ATTEMPTS \<le> length q then (False, g\<lparr>rg_attempts := dict_set tok q (rg_attempts g)\<rparr>)
    else (True, g\<lparr>rg_attempts := dict_set tok (q @ [now]) (rg_attempts g)\<rparr>))"
proof -
  have "sorted (dict_get (rg_attempts g) tok [])" using assms(1) by (simp add: guard_inv_def guard_times_def)
  note d = dropWhile_sorted_recent [OF this]
  have e: "(if map_of (rg_attempts g) tok = None \<and> MAX_BUCKETS \<le> length (rg_attempts g) then tl (rg_attempts g) else rg_attempts g) = rg_attempts g"
    using no_eviction [OF assms] by (rule if_not_P)
  show ?thesis unfolding guard_allow_def guard_times_def Let_def e d by (rule refl)
qed

lemma guard_allow_times:
  assumes "guard_inv toks s g" "a \<in> toks"
  shows "guard_times tok (snd (guard_allow a now g)) = (if tok = a
    then filter (guard_recent now) (guard_times a g) @ (if fst (guard_allow a now g) then [now] else []) else guard_times tok g)"
  by (simp add: guard_allow_eq [OF assms] guard_times_def Let_def)

lemma guard_inv_step:
  assumes "guard_inv toks s g" "s \<le> now" "a \<in> toks" shows "guard_inv toks now (snd (guard_allow a now g))"
proof -
  have t: "sorted (guard_times tok g)" "\<forall>t \<in> set (guard_times tok g). t \<le> now" for tok
    using assms(1,2) unfolding guard_inv_def by (blast, meson order_trans)
  have "sorted (guard_times tok (snd (guard_allow a now g))) \<and> (\<forall>t \<in> set (guard_times tok (snd (guard_allow a now g))). t \<le> now)" for tok
    using t [of tok] by (auto simp: guard_allow_times [OF assms(1,3)] sorted_append sorted_filter [where f = id, simplified])
  moreover have "dict_ok (rg_attempts (snd (guard_allow a now g))) \<and> set (dict_keys (rg_attempts (snd (guard_allow a now g)))) \<subseteq> toks"
    using assms by (simp add: guard_allow_eq [OF assms(1,3)] guard_inv_def Let_def dict_keys_set del: set_map)
  ultimately show ?thesis using assms(1) by (simp add: guard_inv_def)
qed

interpretation guard: rate_window guard_allow "guard_times tok" guard_recent MAX_ATTEMPTS "\<lambda>a. a = tok" toks "guard_inv toks" for tok toks
proof unfold_locales
  fix s now t :: flt and a and h :: registration_guard
  show "s \<le> now \<Longrightarrow> guard_recent now t \<Longrightarrow> guard_recent s t" by (rule guard_recent_antimono)
  show "guard_inv toks s h \<Longrightarrow> s \<le> now \<Longrightarrow> a \<in> toks \<Longrightarrow> guard_inv toks now (snd (guard_allow a now h))" by (rule guard_inv_step)
  show "guard_inv toks s h \<Longrightarrow> s \<le> now \<Longrightarrow> a \<in> toks \<Longrightarrow> filter (guard_recent now) (guard_times tok (snd (guard_allow a now h)))
      = filter (guard_recent now) (guard_times tok h @ (if fst (guard_allow a now h) \<and> a = tok then [now] else []))"
    by (simp add: guard_allow_times)
  show "guard_inv toks s h \<Longrightarrow> s \<le> now \<Longrightarrow> a \<in> toks \<Longrightarrow> fst (guard_allow a now h) \<Longrightarrow> a = tok \<Longrightarrow>
      length (filter (guard_recent now) (guard_times tok h)) < MAX_ATTEMPTS"
    by (simp add: guard_allow_eq Let_def split: if_splits)
qed

lemma new_guard_inv: "finite toks \<Longrightarrow> card toks \<le> 1024 \<Longrightarrow> guard_inv toks s new_guard"
  by (simp add: guard_inv_def new_guard_def guard_times_def dict_get_def MAX_BUCKETS_def)

section \<open>The enrolment window\<close>

definition enroll_recent :: "flt \<Rightarrow> flt \<Rightarrow> bool" where
  "enroll_recent now t \<longleftrightarrow> rnd (now - 900) < t"

definition enroll_times :: "string \<Rightarrow> enrollment_rate \<Rightarrow> flt list" where
  "enroll_times key a = dict_get a key []"

lemma enroll_recent_antimono: "s \<le> now \<Longrightarrow> enroll_recent now t \<Longrightarrow> enroll_recent s t"
  unfolding enroll_recent_def by (meson diff_right_mono le_less_trans rnd_monotone)

lemma key_neq [simp]: "owner_key owner \<noteq> peer_key peer" "peer_key peer \<noteq> owner_key owner"
  by (simp_all add: owner_key_def peer_key_def)

lemma owner_key_inject [simp]: "owner_key a = owner_key b \<longleftrightarrow> a = b" "peer_key a = peer_key b \<longleftrightarrow> a = b"
  by (simp_all add: owner_key_def peer_key_def)

lemma enroll_history_times: "enroll_history now key a = filter (enroll_recent now) (enroll_times key a)"
  by (simp add: enroll_history_def enroll_recent_def [abs_def] enroll_times_def)

lemma enroll_times_set [simp]: "enroll_times k (dict_set k' h a) = (if k = k' then h else enroll_times k a)"
  by (simp add: enroll_times_def)

lemma enroll_allow_eq:
  "enroll_allow owner peer now a = (let ho = enroll_history now (owner_key owner) a; a1 = dict_set (owner_key owner) ho a;
      hp = enroll_history now (peer_key peer) a1; a2 = dict_set (peer_key peer) hp a1
    in if 6 \<le> length ho then (False, a1) else if 100 \<le> length hp then (False, a2)
       else (True, dict_set (peer_key peer) (hp @ [now]) (dict_set (owner_key owner) (ho @ [now]) a2)))"
  by (simp add: enroll_allow_def Let_def)

lemma enroll_allow_times:
  "enroll_times key (snd (enroll_allow owner peer now a)) =
     (let ok = fst (enroll_allow owner peer now a) in
      if key = owner_key owner then enroll_history now key a @ (if ok then [now] else [])
      else if key = peer_key peer \<and> length (enroll_history now (owner_key owner) a) < 6
        then enroll_history now key a @ (if ok then [now] else []) else enroll_times key a)"
  by (auto simp: enroll_allow_eq Let_def enroll_history_times)

lemma enroll_ok_counts:
  "fst (enroll_allow owner peer now a) \<Longrightarrow> length (enroll_history now (owner_key owner) a) < 6 \<and> length (enroll_history now (peer_key peer) a) < 100"
  by (auto simp: enroll_allow_eq Let_def enroll_history_times split: if_splits)

interpretation owner_window: rate_window "\<lambda>(owner, peer). enroll_allow owner peer" "enroll_times (owner_key who)" enroll_recent 6
  "\<lambda>(owner, peer). owner = who" UNIV "\<lambda>_ _. True" for who
proof unfold_locales
  fix s now t :: flt and a :: "string \<times> string" and h :: enrollment_rate
  obtain o' p' where a: "a = (o', p')" by force
  show "s \<le> now \<Longrightarrow> enroll_recent now t \<Longrightarrow> enroll_recent s t" by (rule enroll_recent_antimono)
  show "filter (enroll_recent now) (enroll_times (owner_key who) (snd ((case a of (owner, peer) \<Rightarrow> enroll_allow owner peer) now h)))
      = filter (enroll_recent now) (enroll_times (owner_key who) h @ (if fst ((case a of (owner, peer) \<Rightarrow> enroll_allow owner peer) now h) \<and> (case a of (owner, peer) \<Rightarrow> owner = who) then [now] else []))"
    by (auto simp: a enroll_allow_times enroll_history_times Let_def)
  show "fst ((case a of (owner, peer) \<Rightarrow> enroll_allow owner peer) now h) \<Longrightarrow> (case a of (owner, peer) \<Rightarrow> owner = who) \<Longrightarrow>
      length (filter (enroll_recent now) (enroll_times (owner_key who) h)) < 6"
    using enroll_ok_counts [of o' p' now h] by (simp add: a enroll_history_times)
qed simp

interpretation peer_window: rate_window "\<lambda>(owner, peer). enroll_allow owner peer" "enroll_times (peer_key who)" enroll_recent 100
  "\<lambda>(owner, peer). peer = who" UNIV "\<lambda>_ _. True" for who
proof unfold_locales
  fix s now t :: flt and a :: "string \<times> string" and h :: enrollment_rate
  obtain o' p' where a: "a = (o', p')" by force
  show "s \<le> now \<Longrightarrow> enroll_recent now t \<Longrightarrow> enroll_recent s t" by (rule enroll_recent_antimono)
  show "filter (enroll_recent now) (enroll_times (peer_key who) (snd ((case a of (owner, peer) \<Rightarrow> enroll_allow owner peer) now h)))
      = filter (enroll_recent now) (enroll_times (peer_key who) h @ (if fst ((case a of (owner, peer) \<Rightarrow> enroll_allow owner peer) now h) \<and> (case a of (owner, peer) \<Rightarrow> peer = who) then [now] else []))"
    using enroll_ok_counts [of o' p' now h] by (auto simp: a enroll_allow_times enroll_history_times Let_def)
  show "fst ((case a of (owner, peer) \<Rightarrow> enroll_allow owner peer) now h) \<Longrightarrow> (case a of (owner, peer) \<Rightarrow> peer = who) \<Longrightarrow>
      length (filter (enroll_recent now) (enroll_times (peer_key who) h)) < 100"
    using enroll_ok_counts [of o' p' now h] by (simp add: a enroll_history_times)
qed simp

section \<open>The windows hold\<close>

text \<open>A credential is admitted at most 20 times in any 60 seconds, however its attempts interleave with
  those of other credentials, as long as at most 1024 credentials are in use and the clock does not
  run back.\<close>

theorem registration_attempts_bounded:
  assumes "sorted (map snd xs)" "xs \<noteq> []" "card (set (map fst xs)) \<le> 1024"
  shows "length (filter (\<lambda>(c, t). c = tok \<and> rnd (snd (last xs) - t) < 60) (fst (run_calls guard_allow xs new_guard))) \<le> 20"
proof -
  let ?r = "fst (run_calls guard_allow xs new_guard)"
  let ?s = "snd (hd xs)"
  have i: "guard_inv (set (map fst xs)) ?s new_guard" using assms(3) by (intro new_guard_inv) simp_all
  have srt: "sorted (?s # map snd xs)" using assms(1,2) by (cases xs) auto
  have "length (filter (guard_recent (last (?s # map snd xs))) ([] @ fst (guard.window_run tok xs new_guard))) \<le> MAX_ATTEMPTS"
    by (rule guard.window_bound [OF i srt]) (simp_all add: new_guard_def guard_times_def dict_get_def)
  then have "length (filter (guard_recent (snd (last xs))) (map snd (filter (\<lambda>(a, _). a = tok) ?r))) \<le> 20"
    using assms(2) by (simp add: guard.run_calls_window last_map MAX_ATTEMPTS_def)
  moreover have "filter (\<lambda>(c, t). c = tok \<and> rnd (snd (last xs) - t) < 60) ?r
      = filter (\<lambda>x. guard_recent (snd (last xs)) (snd x)) (filter (\<lambda>(a, _). a = tok) ?r)"
    by (simp add: guard_recent_def case_prod_unfold conj_commute)
  ultimately show ?thesis by (simp add: filter_map comp_def)
qed

lemma registration_attempts_bounded_witness:
  "length (filter (\<lambda>(c, t). c = ''k'' \<and> rnd (0 - t) < 60) (fst (run_calls guard_allow (replicate 30 (''k'', 0)) new_guard))) \<le> 20"
  using registration_attempts_bounded [of "replicate 30 (''k'', 0)" "''k''"] by simp

text \<open>An owner is admitted to enrolment at most 6 times, and a network peer at most 100 times, in any
  900 seconds, whatever the interleaving of owners and peers, as long as the clock does not run back.\<close>

theorem enrollment_attempts_bounded:
  assumes "sorted (map snd xs)" "xs \<noteq> []"
  shows "length (filter (\<lambda>((o', p), t). o' = owner \<and> rnd (snd (last xs) - 900) < t)
        (fst (run_calls (\<lambda>(o', p). enroll_allow o' p) xs []))) \<le> 6
    \<and> length (filter (\<lambda>((o', p), t). p = peer \<and> rnd (snd (last xs) - 900) < t)
        (fst (run_calls (\<lambda>(o', p). enroll_allow o' p) xs []))) \<le> 100"
proof -
  let ?r = "fst (run_calls (\<lambda>(o', p). enroll_allow o' p) xs [])"
  let ?s = "snd (hd xs)"
  have srt: "sorted (?s # map snd xs)" using assms by (cases xs) auto
  have l: "last (?s # map snd xs) = snd (last xs)" using assms(2) by (simp add: last_map)
  have "length (filter (enroll_recent (last (?s # map snd xs))) ([] @ fst (owner_window.window_run owner xs []))) \<le> 6"
    by (rule owner_window.window_bound [OF _ srt]) (simp_all add: enroll_times_def dict_get_def)
  then have o: "length (filter (enroll_recent (snd (last xs))) (map snd (filter (\<lambda>(a, _). case a of (o', p) \<Rightarrow> o' = owner) ?r))) \<le> 6"
    unfolding l by (simp add: owner_window.run_calls_window)
  have "length (filter (enroll_recent (last (?s # map snd xs))) ([] @ fst (peer_window.window_run peer xs []))) \<le> 100"
    by (rule peer_window.window_bound [OF _ srt]) (simp_all add: enroll_times_def dict_get_def)
  then have p: "length (filter (enroll_recent (snd (last xs))) (map snd (filter (\<lambda>(a, _). case a of (o', p) \<Rightarrow> p = peer) ?r))) \<le> 100"
    unfolding l by (simp add: peer_window.run_calls_window)
  show ?thesis
    using o p by (simp add: filter_map comp_def case_prod_unfold enroll_recent_def conj_commute)
qed

lemma enrollment_attempts_bounded_witness:
  "length (filter (\<lambda>((o', p), t). o' = ''a'' \<and> rnd (0 - 900) < t)
      (fst (run_calls (\<lambda>(o', p). enroll_allow o' p) (replicate 9 ((''a'', ''p''), 0)) []))) \<le> 6"
  using enrollment_attempts_bounded [of "replicate 9 ((''a'', ''p''), 0)" "''a''"] by simp

section \<open>The token bucket\<close>

lemma rnd_up: assumes "0 \<le> x" shows "rnd x \<le> x + x / 2 ^ 53 + 1 / 2 ^ 100"
proof (cases "x \<le> 1 / 2 ^ 100")
  case True
  have "rnd (1 / 2 ^ 100) = (1 / 2 ^ 100 :: rat)" using rnd_exact [OF representable_dyadic [of 1 100]] by simp
  then have "rnd x \<le> 1 / 2 ^ 100" using rnd_monotone [OF True] by simp
  moreover have "0 \<le> x / 2 ^ 53" using assms by simp
  ultimately show ?thesis using assms by linarith
next
  case False
  have "2 powi (-1022) \<le> (2 :: rat) powi (-100)" by simp
  also have "(2 :: rat) powi (-100) = 1 / 2 ^ 100" by (simp add: power_int_minus inverse_eq_divide)
  finally have "2 powi (-1022) \<le> x" using False by simp
  from rnd_error [OF this] have "rnd x \<le> x + x / 2 ^ 53" by linarith
  moreover have "(0 :: rat) \<le> 1 / 2 ^ 100" by simp
  ultimately show ?thesis by linarith
qed

definition bucket_ok :: "flt \<Rightarrow> token_bucket \<Rightarrow> bool" where
  "bucket_ok s b \<longleftrightarrow> tb_max b = 10 \<and> tb_rate b = 1/2 \<and> 0 \<le> tb_tokens b \<and> tb_tokens b \<le> 10 \<and> tb_last b \<le> s"

text \<open>The rounding a single call can gain.\<close>

definition gain :: flt where "gain = 1 / 2 ^ 46"

definition fill_rate :: flt where "fill_rate = 1/2 + 1 / 2 ^ 52"

lemma refilled_bounds:
  assumes "bucket_ok s b" "s \<le> now"
  shows "0 \<le> refilled now b" "refilled now b \<le> 10" "refilled now b \<le> tb_tokens b + (now - tb_last b) * fill_rate + gain / 2"
proof -
  let ?e = "now - tb_last b"
  let ?y = "rnd (rnd ?e * (1/2))"
  have e: "0 \<le> ?e" using assms by (simp add: bucket_ok_def)
  have r: "0 \<le> rnd ?e" using e by (rule rnd_nonneg)
  then have y: "0 \<le> ?y" by (intro rnd_nonneg) simp
  have t: "0 \<le> tb_tokens b" "tb_tokens b \<le> 10" using assms(1) by (simp_all add: bucket_ok_def)
  have eq: "refilled now b = min 10 (rnd (tb_tokens b + ?y))" proof -
    have "tb_max b = 10" "tb_rate b = 1/2" using assms(1) by (simp_all add: bucket_ok_def)
    then show ?thesis by (simp only: refilled_def)
  qed
  show "0 \<le> refilled now b" using t y by (simp add: eq rnd_nonneg)
  show "refilled now b \<le> 10" by (simp add: eq)
  have re: "rnd ?e \<le> ?e + ?e / 2 ^ 53 + 1 / 2 ^ 100" by (rule rnd_up [OF e])
  have ry: "?y \<le> rnd ?e * (1/2) + rnd ?e * (1/2) / 2 ^ 53 + 1 / 2 ^ 100" by (rule rnd_up) (use r in simp)
  have yb: "?y \<le> ?e * fill_rate + 1 / 2 ^ 98"
  proof -
    have "rnd ?e * (1/2) + rnd ?e * (1/2) / 2 ^ 53 = rnd ?e * (1/2 + 1 / 2 ^ 54)" by (simp add: algebra_simps)
    also have "\<dots> \<le> (?e + ?e / 2 ^ 53 + 1 / 2 ^ 100) * (1/2 + 1 / 2 ^ 54)" by (rule mult_right_mono [OF re]) simp
    also have "\<dots> = ?e * ((1 + 1 / 2 ^ 53) * (1/2 + 1 / 2 ^ 54)) + 1 / 2 ^ 100 * (1/2 + 1 / 2 ^ 54)" by (simp add: field_simps)
    also have "\<dots> \<le> ?e * fill_rate + 1 / 2 ^ 100"
      by (intro add_mono mult_left_mono e) (simp_all add: fill_rate_def)
    finally show ?thesis using ry by simp
  qed
  have "refilled now b \<le> tb_tokens b + ?y + gain / 4"
  proof (cases "tb_tokens b + ?y \<le> 10")
    case True
    have "rnd (tb_tokens b + ?y) \<le> (tb_tokens b + ?y) + (tb_tokens b + ?y) / 2 ^ 53 + 1 / 2 ^ 100"
      by (rule rnd_up) (use t y in simp)
    also have "\<dots> \<le> tb_tokens b + ?y + 10 / 2 ^ 53 + 1 / 2 ^ 100" using True by (simp add: divide_right_mono)
    also have "\<dots> \<le> tb_tokens b + ?y + gain / 4" by (simp add: gain_def)
    finally show ?thesis by (simp add: eq min.coboundedI2)
  next
    case False
    then have "refilled now b \<le> tb_tokens b + ?y" by (simp add: eq)
    moreover have "(0 :: rat) \<le> gain / 4" by (simp add: gain_def)
    ultimately show ?thesis by linarith
  qed
  moreover have "1 / 2 ^ 98 \<le> gain / 4" by (simp add: gain_def)
  ultimately show "refilled now b \<le> tb_tokens b + ?e * fill_rate + gain / 2" using yb by (simp add: algebra_simps)
qed

lemma consume_bounds:
  assumes "bucket_ok s b" "s \<le> now" "consume 1 now b = (ok, b')"
  shows "bucket_ok now b'" "tb_last b' = now"
    "tb_tokens b' + of_bool ok \<le> 10 + gain" "tb_tokens b' + of_bool ok \<le> tb_tokens b + (now - tb_last b) * fill_rate + gain"
proof -
  note r = refilled_bounds [OF assms(1,2)]
  have b': "b' = (if ok then b\<lparr>tb_tokens := rnd (refilled now b - 1), tb_last := now\<rparr> else b\<lparr>tb_tokens := refilled now b, tb_last := now\<rparr>)"
    "ok = (1 \<le> refilled now b)"
    using assms(3) by (auto simp: consume_def Let_def split: if_splits)
  have sub: "0 \<le> rnd (refilled now b - 1) \<and> rnd (refilled now b - 1) \<le> 10 \<and> rnd (refilled now b - 1) + 1 \<le> refilled now b + gain / 2" if ok
  proof -
    have p: "0 \<le> refilled now b - 1" using that b'(2) by simp
    have "rnd (refilled now b - 1) \<le> (refilled now b - 1) + (refilled now b - 1) / 2 ^ 53 + 1 / 2 ^ 100" by (rule rnd_up [OF p])
    also have "\<dots> \<le> (refilled now b - 1) + 10 / 2 ^ 53 + 1 / 2 ^ 100" 
    proof -
      have "(refilled now b - 1) / 2 ^ 53 \<le> 10 / 2 ^ 53" by (rule divide_right_mono) (use r(2) in simp_all)
      then show ?thesis by linarith
    qed
    also have "\<dots> \<le> refilled now b - 1 + gain / 2" by (simp add: gain_def)
    finally have u: "rnd (refilled now b - 1) \<le> refilled now b - 1 + gain / 2" .
    have "gain / 2 \<le> 1" by (simp add: gain_def)
    with u r(2) rnd_nonneg [OF p] show ?thesis by linarith
  qed
  show "bucket_ok now b'" using assms(1) r sub by (auto simp: b'(1) bucket_ok_def)
  show "tb_last b' = now" by (simp add: b'(1))
  have g: "0 \<le> gain" by (simp add: gain_def)
  have t: "tb_tokens b' + of_bool ok \<le> refilled now b + gain / 2" using sub g by (simp add: b'(1))
  show "tb_tokens b' + of_bool ok \<le> 10 + gain" using t r(2) g by linarith
  show "tb_tokens b' + of_bool ok \<le> tb_tokens b + (now - tb_last b) * fill_rate + gain" using t r(3) by linarith
qed

lemma bucket_ok_later: "bucket_ok s b \<Longrightarrow> s \<le> t \<Longrightarrow> bucket_ok t b"
  by (simp add: bucket_ok_def)

text \<open>Calls of the limiter: consumer, creation clock, call clock.\<close>

definition limiter_call :: "string \<times> flt \<Rightarrow> flt \<Rightarrow> rate_limiter \<Rightarrow> bool \<times> rate_limiter" where
  "limiter_call a now l = limiter_allow (fst a) (snd a) now l"

definition limiter_ok :: "flt \<Rightarrow> rate_limiter \<Rightarrow> bool" where
  "limiter_ok s l \<longleftrightarrow> rl_burst l = 10 \<and> rl_refill l = 1/2 \<and> (\<forall>c b. map_of (rl_buckets l) c = Some b \<longrightarrow> bucket_ok s b)"

definition consumer_bucket :: "string \<Rightarrow> flt \<Rightarrow> rate_limiter \<Rightarrow> token_bucket" where
  "consumer_bucket c t0 l = (case map_of (rl_buckets l) c of Some b \<Rightarrow> b | None \<Rightarrow> new_bucket (of_int (rl_burst l)) (rl_refill l) t0)"

lemma consumer_bucket_ok:
  assumes "limiter_ok s l" "s \<le> t0" "t0 \<le> now" shows "bucket_ok now (consumer_bucket c t0 l)"
proof (cases "map_of (rl_buckets l) c")
  case None
  then show ?thesis using assms by (simp add: consumer_bucket_def new_bucket_def limiter_ok_def bucket_ok_def)
next
  case (Some b)
  then have "bucket_ok s b" using assms(1) by (simp add: limiter_ok_def)
  with Some assms show ?thesis by (auto simp: consumer_bucket_def intro: bucket_ok_later [of s])
qed

lemma limiter_call_eq:
  "limiter_call (c, t0) now l = (case consume 1 now (consumer_bucket c t0 l) of (ok, b') \<Rightarrow> (ok, l\<lparr>rl_buckets := dict_set c b' (rl_buckets l)\<rparr>))"
  by (simp add: limiter_call_def limiter_allow_def consumer_bucket_def)

lemma limiter_call_ok:
  assumes "limiter_ok s l" "s \<le> t0" "t0 \<le> now" shows "limiter_ok now (snd (limiter_call (c, t0) now l))"
proof -
  obtain ok b' where c: "consume 1 now (consumer_bucket c t0 l) = (ok, b')" by force
  have "bucket_ok now b'" using consume_bounds(1) [OF consumer_bucket_ok [OF assms] order_refl c] .
  then show ?thesis using assms bucket_ok_later [of s _ now] by (auto simp: limiter_call_eq c limiter_ok_def)
qed

text \<open>What a consumer has left, \<open>None\<close> when the limiter does not know it.\<close>

definition fuel :: "string \<Rightarrow> flt \<Rightarrow> rate_limiter \<Rightarrow> flt" where
  "fuel c now l = (case map_of (rl_buckets l) c of None \<Rightarrow> 10 | Some b \<Rightarrow> min 10 (tb_tokens b + (now - tb_last b) * fill_rate))"

fun clocked :: "flt \<Rightarrow> ((string \<times> flt) \<times> flt) list \<Rightarrow> bool" where
  "clocked s [] = True"
| "clocked s (((a, t0), now) # xs) \<longleftrightarrow> s \<le> t0 \<and> t0 \<le> now \<and> clocked now xs"

definition admissions :: "string \<Rightarrow> ((string \<times> flt) \<times> flt) list \<Rightarrow> rate_limiter \<Rightarrow> nat" where
  "admissions c xs l = length (filter (\<lambda>((c', _), _). c' = c) (fst (run_calls limiter_call xs l)))"

definition own_calls :: "string \<Rightarrow> ((string \<times> flt) \<times> flt) list \<Rightarrow> nat" where
  "own_calls c xs = length (filter (\<lambda>((c', _), _). c' = c) xs)"

lemma fill_rate_pos [simp]: "0 \<le> fill_rate" by (simp add: fill_rate_def)

lemma gain_pos [simp]: "0 \<le> gain" by (simp add: gain_def)

lemma fuel_later: "s \<le> now \<Longrightarrow> fuel c now l \<le> fuel c s l + (now - s) * fill_rate"
proof -
  assume "s \<le> now"
  then have p: "0 \<le> (now - s) * fill_rate" by simp
  show ?thesis
  proof (cases "map_of (rl_buckets l) c")
    case (Some b)
    have "(now - tb_last b) * fill_rate = (s - tb_last b) * fill_rate + (now - s) * fill_rate" by (simp add: algebra_simps)
    with Some p show ?thesis by (simp add: fuel_def)
  qed (use p in \<open>simp add: fuel_def\<close>)
qed

lemma call_fuel:
  assumes "limiter_ok s l" "s \<le> t0" "t0 \<le> now" "limiter_call (a, t0) now l = (ok, l')"
  shows "of_bool (ok \<and> a = c) + fuel c now l' \<le> fuel c now l + (if a = c then gain else 0)"
proof -
  let ?b = "consumer_bucket a t0 l"
  obtain b' where k: "consume 1 now ?b = (ok, b')" and l': "l' = l\<lparr>rl_buckets := dict_set a b' (rl_buckets l)\<rparr>"
    using assms(4) by (auto simp: limiter_call_eq split: prod.splits)
  note cb = consume_bounds [OF consumer_bucket_ok [OF assms(1-3)] order_refl k]
  show ?thesis
  proof (cases "a = c")
    case True
    have f': "fuel c now l' \<le> tb_tokens b'" using cb(2) True by (simp add: fuel_def l')
    have "tb_tokens b' + of_bool ok \<le> fuel c now l + gain"
    proof (cases "map_of (rl_buckets l) c")
      case None
      then show ?thesis using cb(3) by (simp add: fuel_def)
    next
      case (Some b)
      then have "?b = b" using True by (simp add: consumer_bucket_def)
      with Some cb(3,4) show ?thesis by (simp add: fuel_def)
    qed
    with f' True show ?thesis by simp
  qed (simp add: fuel_def l')
qed

lemma clocked_last: "clocked s xs \<Longrightarrow> s \<le> last (s # map snd xs)"
proof (induction xs arbitrary: s)
  case (Cons x xs)
  obtain a t0 now where x: "x = ((a, t0), now)" by (metis prod.exhaust)
  then have c: "s \<le> now" "clocked now xs" using Cons.prems by (auto simp:)
  from Cons.IH [OF c(2)] c(1) show ?case by (auto simp: x split: if_splits)
qed simp

lemma limiter_run_ok: "limiter_ok s l \<Longrightarrow> clocked s xs \<Longrightarrow> limiter_ok (last (s # map snd xs)) (snd (run_calls limiter_call xs l))"
proof (induction xs arbitrary: s l)
  case (Cons x xs)
  obtain a t0 now where x: "x = ((a, t0), now)" by (metis prod.exhaust)
  have c: "s \<le> t0" "t0 \<le> now" "clocked now xs" using Cons.prems(2) by (auto simp: x)
  obtain ok l' where k: "limiter_call (a, t0) now l = (ok, l')" by force
  have "limiter_ok now l'" using limiter_call_ok [OF Cons.prems(1) c(1,2)] k by (metis snd_conv)
  from Cons.IH [OF this c(3)] show ?case by (auto simp: x k split: prod.split)
qed simp

lemma run_fuel:
  assumes "limiter_ok s l" "clocked s xs"
  shows "of_nat (admissions c xs l) + fuel c (last (s # map snd xs)) (snd (run_calls limiter_call xs l))
    \<le> fuel c s l + (last (s # map snd xs) - s) * fill_rate + of_nat (own_calls c xs) * gain"
  using assms
proof (induction xs arbitrary: s l)
  case Nil
  then show ?case by (simp add: admissions_def own_calls_def)
next
  case (Cons x xs)
  obtain a t0 now where x: "x = ((a, t0), now)" by (metis prod.exhaust)
  obtain ok l' where k: "limiter_call (a, t0) now l = (ok, l')" by force
  obtain ys l'' where r: "run_calls limiter_call xs l' = (ys, l'')" by force
  have c: "s \<le> t0" "t0 \<le> now" "clocked now xs" using Cons.prems(2) by (auto simp: x)
  have ok': "limiter_ok now l'" using limiter_call_ok [OF Cons.prems(1) c(1,2)] k by (metis snd_conv)
  let ?z = "last (now # map snd xs)"
  have z: "last (s # map snd (x # xs)) = ?z" by (simp add: x)
  have adm: "(of_nat (admissions c (x # xs) l) :: rat) = of_bool (ok \<and> a = c) + of_nat (admissions c xs l')"
    by (simp add: admissions_def x k r)
  have own: "(of_nat (own_calls c (x # xs)) :: rat) * gain = (if a = c then gain else 0) + of_nat (own_calls c xs) * gain"
    by (simp add: own_calls_def x algebra_simps)
  have fin: "snd (run_calls limiter_call (x # xs) l) = snd (run_calls limiter_call xs l')" by (simp add: x k r)
  have IH: "of_nat (admissions c xs l') + fuel c ?z (snd (run_calls limiter_call xs l'))
      \<le> fuel c now l' + (?z - now) * fill_rate + of_nat (own_calls c xs) * gain"
    by (rule Cons.IH [OF ok' c(3)])
  have step: "of_bool (ok \<and> a = c) + fuel c now l' \<le> fuel c now l + (if a = c then gain else 0)"
    by (rule call_fuel [OF Cons.prems(1) c(1,2) k])
  have later: "fuel c now l \<le> fuel c s l + (now - s) * fill_rate" by (rule fuel_later) (use c in simp)
  have split: "(?z - s) * fill_rate = (now - s) * fill_rate + (?z - now) * fill_rate" by (simp add: algebra_simps)
  show ?case unfolding z adm own fin split using IH step later by linarith
qed

lemma new_limiter_ok: "limiter_ok s (new_rate_limiter 30 10)"
proof -
  have "rnd (30 / 60) = (1/2 :: rat)" using rnd_exact [OF representable_dyadic [of 1 1]] by simp
  then show ?thesis by (simp add: limiter_ok_def new_rate_limiter_def)
qed

text \<open>C32: With the default rate limiter (30 requests a minute, burst 10) and a clock that does not run back,
  over any stretch of calls a consumer is admitted at most 10 times plus half an admission per second
  (up to a relative 2^-51 and 2^-46 per call of rounding), whatever was called before and whatever
  other consumers do.\<close>

theorem rate_limit_holds:
  assumes "clocked s (before @ window)" "t = last (s # map snd before)"
  shows "of_nat (admissions c window (snd (run_calls limiter_call before (new_rate_limiter 30 10))))
    \<le> 10 + (last (t # map snd window) - t) * (1/2 + 1 / 2 ^ 52) + of_nat (own_calls c window) / 2 ^ 46"
proof -
  have split: "clocked s before \<and> clocked t window"
    unfolding assms(2) using assms(1)
  proof (induction before arbitrary: s)
    case Nil
    then show ?case by simp
  next
    case (Cons x xs)
    obtain a t0 now where x: "x = ((a, t0), now)" by (metis prod.exhaust)
    from Cons show ?case by (auto simp: x)
  qed
  let ?l = "snd (run_calls limiter_call before (new_rate_limiter 30 10))"
  have ok: "limiter_ok t ?l" using limiter_run_ok [OF new_limiter_ok, of s before] split assms(2) by simp
  have f: "fuel c t ?l \<le> 10" by (simp add: fuel_def split: option.split)
  let ?z = "last (t # map snd window)"
  have lz: "limiter_ok ?z (snd (run_calls limiter_call window ?l))" by (rule limiter_run_ok [OF ok]) (use split in simp)
  have "0 \<le> fuel c ?z (snd (run_calls limiter_call window ?l))"
  proof (cases "map_of (rl_buckets (snd (run_calls limiter_call window ?l))) c")
    case (Some b)
    then have b: "bucket_ok ?z b" using lz by (simp add: limiter_ok_def)
    then have "0 \<le> (?z - tb_last b) * fill_rate" by (intro mult_nonneg_nonneg) (simp_all add: bucket_ok_def)
    with b Some show ?thesis by (simp add: fuel_def bucket_ok_def)
  qed (simp add: fuel_def)
  with run_fuel [OF ok split [THEN conjunct2], of c] f show ?thesis by (simp add: fill_rate_def gain_def)
qed

lemma rate_limit_holds_witness:
  "of_nat (admissions ''c'' (replicate 50 ((''c'', 0), 0)) (new_rate_limiter 30 10)) \<le> (10 + 50 / 2 ^ 46 :: rat)"
proof -
  have c: "clocked 0 ([] @ replicate n ((''c'', 0), 0))" for n by (induction n) auto
  have l: "last (0 # map snd (replicate n ((''c'', 0 :: flt), 0 :: flt))) = 0" for n by (induction n) auto
  have o: "own_calls ''c'' (replicate n ((''c'', 0), 0)) = n" for n by (induction n) (simp_all add: own_calls_def)
  show ?thesis using rate_limit_holds [OF c [of 50], of 0 "''c''"] by (simp only: l o) simp
qed

section \<open>Concurrency slots\<close>

text \<open>The life of guarded requests: \<open>running\<close> holds the account of every request whose handler runs,
  \<open>streaming\<close> that of every open stream.\<close>

type_synonym slots_state = "operator_controls \<times> string multiset \<times> string multiset"

inductive slots_reachable :: "operator_controls \<Rightarrow> slots_state \<Rightarrow> bool" for c0 where
  start: "slots_reachable c0 (c0, {#}, {#})"
| enter: "slots_reachable c0 (c, r, s) \<Longrightarrow> guard_enter acct c = (Inr (), c') \<Longrightarrow> slots_reachable c0 (c', add_mset acct r, s)"
| refuse: "slots_reachable c0 (c, r, s) \<Longrightarrow> guard_enter acct c = (Inl e, c') \<Longrightarrow> slots_reachable c0 (c', r, s)"
| leave: "slots_reachable c0 (c, add_mset acct r, s) \<Longrightarrow>
    slots_reachable c0 (guard_leave acct res c, r, if res = Streaming then add_mset acct s else s)"
| close: "slots_reachable c0 (c, r, add_mset acct s) \<Longrightarrow> slots_reachable c0 (stream_closed acct c, r, s)"
| change: "slots_reachable c0 (c, r, s) \<Longrightarrow> slots_reachable c0 (snd (controls_update paused signup limit c), r, s)"

inductive_cases slots_reachableE: "slots_reachable c0 (c, r, s)"

lemma release_active: "active_for a (release acct c) = (if a = acct then max 0 (active_for acct c - 1) else active_for a c)"
  if "0 \<le> active_for acct c"
  using that by (auto simp: release_def active_for_def Let_def)

lemma enter_active:
  assumes "guard_enter acct c = (r, c')"
  shows "active_for a c' = active_for a c + (if r = Inr () \<and> a = acct then 1 else 0)"
    and "r = Inr () \<longleftrightarrow> \<not> oc_paused c \<and> (oc_limit c \<le> 0 \<or> active_for acct c < oc_limit c)"
    and "oc_limit c' = oc_limit c"
  using assms by (auto simp: guard_enter_def try_acquire_def active_for_def Let_def split: if_splits)

lemma slots_conserved:
  "slots_reachable c0 st \<Longrightarrow> oc_active c0 = [] \<Longrightarrow> (case st of (c, r, s) \<Rightarrow> \<forall>a. active_for a c = int (count r a) + int (count s a))"
proof (induction rule: slots_reachable.induct)
  case start
  then show ?case by (simp add: active_for_def dict_get_def)
next
  case (enter c r s acct c')
  then show ?case using enter_active(1) [OF enter.hyps(2)] by auto
next
  case (refuse c r s acct e c')
  then show ?case using enter_active(1) [OF refuse.hyps(2)] by auto
next
  case (leave c acct r s res)
  then have a: "active_for b c = int (count (add_mset acct r) b) + int (count s b)" for b by simp
  then have "active_for b (release acct c) = int (count r b) + int (count s b)" for b
    using release_active [of acct c b] by simp
  with a show ?case by (cases res) (auto simp: guard_leave_def)
next
  case (close c r acct s)
  then have a: "active_for b c = int (count r b) + int (count (add_mset acct s) b)" for b by simp
  then show ?case using release_active [of acct c] by (simp add: stream_closed_def)
next
  case (change c r s paused signup limit)
  then show ?case by (simp add: controls_update_def active_for_def Let_def)
qed

text \<open>Concurrency slots are neither leaked nor oversubscribed: at any time an account's count is the
  number of its requests whose handler runs or whose stream is open, however those ended (plain
  response, exception, end of stream or disconnect); a request enters exactly when inference is not
  paused and the count is below a positive limit, and then stays within it.\<close>

theorem slots_exact:
  assumes "slots_reachable c0 (c, r, s)" "oc_active c0 = []"
  shows "active_for acct c = int (count r acct) + int (count s acct)
    \<and> (fst (guard_enter acct c) = Inr () \<longleftrightarrow> \<not> oc_paused c \<and> (oc_limit c \<le> 0 \<or> int (count r acct) + int (count s acct) < oc_limit c))
    \<and> (fst (guard_enter acct c) = Inr () \<and> 0 < oc_limit c \<longrightarrow> active_for acct (snd (guard_enter acct c)) \<le> oc_limit c)
    \<and> (r = {#} \<and> s = {#} \<longrightarrow> active_for acct c = 0)"
proof -
  obtain q c' where e: "guard_enter acct c = (q, c')" by force
  show ?thesis using slots_conserved [OF assms] enter_active [OF e] by (auto simp: e)
qed

lemma slots_exact_witness:
  "active_for ''a'' (release ''a'' (snd (try_acquire ''a'' (new_controls None None None)))) = 0"
proof -
  let ?c = "new_controls None None None"
  have p: "oc_paused ?c = False" "oc_limit ?c = 2" "oc_active ?c = []"
    by (simp_all add: new_controls_def env_flag_def str_strip_def str_lower_def lower_char_def is_space_def)
  have e: "guard_enter ''a'' ?c = (Inr (), snd (try_acquire ''a'' ?c))"
    by (simp add: guard_enter_def p try_acquire_def dict_get_def)
  have "slots_reachable ?c (guard_leave ''a'' Plain (snd (try_acquire ''a'' ?c)), {#}, if Plain = Streaming then add_mset ''a'' {#} else {#})"
    by (rule slots_reachable.leave [OF slots_reachable.enter [OF slots_reachable.start e]])
  then have "slots_reachable ?c (release ''a'' (snd (try_acquire ''a'' ?c)), {#}, {#})" by (simp add: guard_leave_def)
  from slots_exact [OF this p(3), of "''a''"] show ?thesis by simp
qed

end
