(* ===== verification/AuthLaws.thy ===== *)
theory AuthLaws
  imports OAuth StoreLaws LoadLaws
begin

text \<open>
  What the credentials promise: base64url and signed tokens round-trip, a caller is resolved only through
  a live credential and never falls back to the anonymous account, a suspended account is refused whatever
  it presents, signing out ends every session for good, administrators are checked against the store, and
  the attempts per address are bounded.
\<close>

section \<open>Tokens\<close>

lemma split_on_plain: "x \<notin> set s \<Longrightarrow> split_on x s = [s]"
  by (induction s) auto

lemma split_on_append: "x \<notin> set p \<Longrightarrow> split_on x (p @ x # s) = p # split_on x s"
  by (induction p) auto

lemma split_on_nonempty [simp]: "split_on x s \<noteq> []"
  by (cases s) (auto split: list.split)

lemma split_on_join: "split_on x s = p # ps \<Longrightarrow> s = p @ concat (map (Cons x) ps)"
proof (induction s arbitrary: p ps)
  case (Cons c s)
  obtain q qs where q: "split_on x s = q # qs" by (cases "split_on x s") auto
  note ih = Cons.IH [OF q]
  show ?case
  proof (cases "c = x")
    case True
    with Cons.prems q have "p = []" "ps = q # qs" by auto
    with ih True show ?thesis by simp
  next
    case False
    with Cons.prems q have "p = c # q" "ps = qs" by auto
    with ih show ?thesis by simp
  qed
qed simp

lemma no_dot [simp]: "CHR ''.'' \<notin> set (b64url s)"
  using b64url_chars by blast

lemma b64url_no_dot: "split_on (CHR ''.'') (b64url a @ ''.'' @ b64url b @ ''.'' @ b64url c) = [b64url a, b64url b, b64url c]"
  by (simp add: split_on_append split_on_plain)

text \<open>The JSON text format reads back what it wrote.\<close>

definition json_ok :: "token_env \<Rightarrow> trace \<Rightarrow> bool" where
  "json_ok te d \<longleftrightarrow> te_loads te (te_dumps te (JObj d)) = Some (JObj d)"

definition issued :: "trace \<Rightarrow> int \<Rightarrow> flt \<Rightarrow> flt \<Rightarrow> trace" where
  "issued payload ttl t1 t2 = dict_set ''iat'' (JInt (to_int t2)) (dict_set ''exp'' (JInt (to_int t1 + ttl * 3600)) payload)"

lemma verify_create:
  assumes "json_ok te (issued payload ttl t1 t2)"
  shows "verify_jwt te now (create_jwt te payload ttl t1 t2)
    = (if of_int (to_int t1 + ttl * 3600) < now then None else Some (issued payload ttl t1 t2))"
proof -
  have "split_on (CHR ''.'') (create_jwt te payload ttl t1 t2)
      = [b64url (te_dumps te (JObj [(''alg'', JStr ''HS256''), (''typ'', JStr ''JWT'')])),
         b64url (te_dumps te (JObj (issued payload ttl t1 t2))),
         jwt_signature te (b64url (te_dumps te (JObj [(''alg'', JStr ''HS256''), (''typ'', JStr ''JWT'')])))
           (b64url (te_dumps te (JObj (issued payload ttl t1 t2))))]"
    unfolding create_jwt_def jwt_signature_def issued_def Let_def by (rule b64url_no_dot)
  then show ?thesis
    using assms by (simp add: verify_jwt_def b64url_decode_encode json_ok_def) (simp add: issued_def dict_get_def)
qed

text \<open>Signed tokens round-trip: base64url decodes what it encoded, and a token that the server made
  verifies, with its own claims, its expiry and its time of issue, exactly until it expires; any change of
  its signature part alone makes it invalid.\<close>

theorem token_roundtrip:
  assumes "json_ok te (issued payload ttl t1 t2)"
  shows "b64url_decode (b64url s) = Some s
    \<and> verify_jwt te now (create_jwt te payload ttl t1 t2)
      = (if of_int (to_int t1 + ttl * 3600) < now then None else Some (issued payload ttl t1 t2))
    \<and> (k \<notin> {''exp'', ''iat''} \<longrightarrow> map_of (issued payload ttl t1 t2) k = map_of payload k)
    \<and> (verify_jwt te now (h @ ''.'' @ b @ ''.'' @ sig) \<noteq> None \<longrightarrow> CHR ''.'' \<notin> set h \<longrightarrow> CHR ''.'' \<notin> set b \<longrightarrow> sig = jwt_signature te h b)"
proof -
  have "sig = jwt_signature te h b"
    if v: "verify_jwt te now (h @ ''.'' @ b @ ''.'' @ sig) \<noteq> None" "CHR ''.'' \<notin> set h" "CHR ''.'' \<notin> set b"
  proof -
    have "split_on (CHR ''.'') (h @ ''.'' @ b @ ''.'' @ sig) = h # b # split_on (CHR ''.'') sig"
      using v(2,3) by (simp add: split_on_append)
    with v(1) obtain s where s: "split_on (CHR ''.'') sig = [s]" "s = jwt_signature te h b"
      by (auto simp: verify_jwt_def split: list.splits if_splits)
    with split_on_join [OF s(1)] show ?thesis by simp
  qed
  then show ?thesis using verify_create [OF assms] by (simp add: b64url_decode_encode issued_def)
qed

definition sample_payload :: trace where
  "sample_payload = [(''user_id'', JStr ''user-1''), (''email'', JStr ''a@b''), (''name'', JStr ''a''), (''role'', JStr ''consumer''), (''sv'', JInt 0)]"

definition sample_tokens :: token_env where
  "sample_tokens = \<lparr>te_mac = (\<lambda>s. take 2 (rev s)), te_dumps = (\<lambda>_. ''claims''),
     te_loads = (\<lambda>_. Some (JObj (issued sample_payload 24 0 0)))\<rparr>"

lemma sample_json: "json_ok sample_tokens (issued sample_payload 24 0 0)"
  by (simp add: json_ok_def sample_tokens_def)

lemma token_roundtrip_witness:
  "verify_jwt sample_tokens 5 (create_jwt sample_tokens sample_payload 24 0 0) = Some (issued sample_payload 24 0 0)"
  using token_roundtrip [OF sample_json, of s 5] by (simp add: to_int_def)

section \<open>Sessions\<close>

lemma session_user_claims:
  assumes "session_user te now rq db = Some d"
  shows "offered_session rq \<noteq> '''' \<and> verify_jwt te now (offered_session rq) = Some d
    \<and> (\<exists>v. get_session_version (claim_text d ''user_id'') db = Some v \<and> json_num (dict_get d ''sv'' (JInt 0)) = Some (of_int v))"
  using assms by (auto simp: session_user_def Let_def split: if_splits option.splits)

text \<open>A key of the store that has not been revoked.\<close>

lemma validated_key:
  assumes "validate_key sha raw now db = (Inr (Some k), db')"
  shows "k \<in> set (db_keys db) \<and> key_hash k = sha raw \<and> key_revoked k = None"
proof -
  have "live_key (sha raw) db = Some k"
    using assms by (auto simp: validate_key_def serialized_write_def split: if_splits option.splits)
  from find_Some_in [OF this [unfolded live_key_def]] show ?thesis by simp
qed

lemma get_suspension_frame: "db_users db' = db_users db \<Longrightarrow> get_suspension u now db' = get_suspension u now db"
  by (simp add: get_suspension_def find_user_def)

lemma validate_key_users: "db_users (snd (validate_key sha raw now db)) = db_users db"
  by (auto simp: validate_key_def serialized_write_def split: option.split)

definition live_session :: "token_env \<Rightarrow> flt \<Rightarrow> http_request \<Rightarrow> db \<Rightarrow> string \<Rightarrow> bool" where
  "live_session te now rq db c \<longleftrightarrow> (\<exists>d v. verify_jwt te now (offered_session rq) = Some d \<and> d \<noteq> [] \<and> claim_text d ''user_id'' = c
     \<and> get_session_version c db = Some v \<and> json_num (dict_get d ''sv'' (JInt 0)) = Some (of_int v))"

definition live_api_key :: "(string \<Rightarrow> string) \<Rightarrow> http_request \<Rightarrow> db \<Rightarrow> string \<Rightarrow> bool" where
  "live_api_key sha rq db c \<longleftrightarrow> starts_with KEY_PREFIX (offered_key rq)
     \<and> (\<exists>k. live_key (sha (offered_key rq)) db = Some k \<and> key_consumer k = c)"

definition no_credential :: "http_request \<Rightarrow> bool" where
  "no_credential rq \<longleftrightarrow> str_strip (dict_get (hr_headers rq) ''authorization'' []) = [] \<and> dict_get (hr_cookies rq) SESSION_COOKIE [] = []"

lemma no_empty_token [simp]: "verify_jwt te now [] = None"
  by (simp add: verify_jwt_def)

lemma live_session_iff:
  "live_session te now rq db c \<longleftrightarrow> (\<exists>d. session_user te now rq db = Some d \<and> claim_text d ''user_id'' = c)"
  by (cases "offered_session rq = []") (auto simp: live_session_def session_user_def Let_def split: option.splits)

lemma live_api_key_iff:
  "live_api_key sha rq db c \<longleftrightarrow> (\<exists>k db'. validate_key sha (offered_key rq) now db = (Inr (Some k), db') \<and> key_consumer k = c)"
  by (cases "offered_key rq = []")
    (auto simp: live_api_key_def validate_key_def serialized_write_def starts_with_def KEY_PREFIX_def split: option.splits)

text \<open>C28: A caller is resolved only through a live credential. The result is the owner of a valid session of
  the current version or of an unrevoked API key, never while that account is suspended, or the shared
  anonymous account, and that only for a request with neither an Authorization header nor a session
  cookie; a suspended owner is refused as such, and a request is refused for its credentials only if it
  offers some and none of them is live. In production the anonymous account reads no private data.\<close>

theorem caller_resolution:
  assumes "resolve_caller sha te ck rq db = (res, db')"
  shows "(case res of
      Inr c \<Rightarrow> c = DEFAULT_CONSUMER_ID \<and> no_credential rq
        \<or> (live_session te (ak_token ck) rq db c \<or> live_api_key sha rq db c) \<and> get_suspension c (ak_suspension ck) db = None
    | Inl (AccountSuspended x) \<Rightarrow> \<exists>c. (live_session te (ak_token ck) rq db c \<or> live_api_key sha rq db c)
        \<and> get_suspension c (ak_suspension ck) db = Some x
    | Inl InvalidCredentials \<Rightarrow> \<not> no_credential rq \<and> (\<forall>c. \<not> live_session te (ak_token ck) rq db c \<and> \<not> live_api_key sha rq db c))
    \<and> db_users db' = db_users db
    \<and> (is_production e \<longrightarrow> fst (resolve_private_caller sha te e ck rq db) \<noteq> Inr DEFAULT_CONSUMER_ID)"
proof -
  have prv: "is_production e \<longrightarrow> fst (resolve_private_caller sha te e ck rq db) \<noteq> Inr DEFAULT_CONSUMER_ID"
    by (simp add: resolve_private_caller_def split: sum.split prod.split)
  have key_absent: "\<not> live_api_key sha rq db c" if "str_strip (dict_get (hr_headers rq) ''authorization'' []) = []" for c
    using that by (simp add: live_api_key_def offered_key_def starts_with_def KEY_PREFIX_def str_lower_def)
  show ?thesis
  proof (cases "session_user te (ak_token ck) rq db")
    case (Some d)
    then have live: "live_session te (ak_token ck) rq db (claim_text d ''user_id'')" by (auto simp: live_session_iff)
    from Some assms have "res = check_not_suspended (ak_suspension ck) (claim_text d ''user_id'') db" "db' = db"
      by (auto simp: resolve_caller_def)
    with live prv show ?thesis by (auto simp: check_not_suspended_def split: option.split)
  next
    case None
    then have none: "\<not> live_session te (ak_token ck) rq db c" for c by (simp add: live_session_iff)
    show ?thesis
    proof (cases "str_strip (dict_get (hr_headers rq) ''authorization'' []) = []")
      case True
      with None assms none key_absent prv show ?thesis
        by (auto simp: resolve_caller_def no_credential_def split: if_splits)
    next
      case False
      obtain y db1 where v: "validate_key sha (offered_key rq) (ak_key ck) db = (y, db1)" by force
      have users: "db_users db1 = db_users db" using validate_key_users [of sha "offered_key rq" "ak_key ck" db] by (simp add: v)
      note sus = get_suspension_frame [OF users]
      show ?thesis
      proof (cases "\<exists>k. y = Inr (Some k)")
        case True
        then obtain k where k: "y = Inr (Some k)" by blast
        then have live: "live_api_key sha rq db (key_consumer k)" using v live_api_key_iff by blast
        from None False v k assms have "res = check_not_suspended (ak_suspension ck) (key_consumer k) db1" "db' = db1"
          by (auto simp: resolve_caller_def)
        with live users prv show ?thesis by (auto simp: check_not_suspended_def sus split: option.split)
      next
        case no: False
        then have "\<not> live_api_key sha rq db c" for c using v by (auto simp: live_api_key_iff [where now = "ak_key ck"])
        moreover from None False v no assms have "res = Inl InvalidCredentials" "db' = db1"
          by (auto simp: resolve_caller_def split: sum.splits option.splits)
        ultimately show ?thesis using none users prv False by (simp add: no_credential_def)
      qed
    qed
  qed
qed

definition sample_clock :: auth_clock where
  "sample_clock = \<lparr>ak_token = 5, ak_key = 5, ak_suspension = 5\<rparr>"

definition bare_request :: http_request where
  "bare_request = \<lparr>hr_cookies = [], hr_headers = [], hr_client = None\<rparr>"

lemma caller_resolution_witness:
  "no_credential bare_request \<and> resolve_caller id sample_tokens sample_clock bare_request empty_db = (Inr DEFAULT_CONSUMER_ID, empty_db)"
proof -
  have "resolve_caller id sample_tokens sample_clock bare_request empty_db = (Inr DEFAULT_CONSUMER_ID, empty_db)"
    by (simp add: resolve_caller_def session_user_def offered_session_def bare_request_def dict_get_def starts_with_def str_lower_def str_strip_def)
  with caller_resolution [OF this, of "[]"] show ?thesis
    by (simp add: no_credential_def bare_request_def dict_get_def str_strip_def)
qed

lemma verify_fixed: "verify_jwt te s t = Some d \<Longrightarrow> verify_jwt te s' t = Some d' \<Longrightarrow> d = d'"
  by (auto simp: verify_jwt_def split: list.splits if_splits option.splits json.splits)

lemma bump_session:
  assumes "find_user u db = Some r"
  shows "\<exists>r'. find_user u (snd (bump_session_version u db)) = Some r' \<and> usr_session r' = usr_session r + 1"
proof -
  have "usr_id r = u" using assms by (auto simp: find_user_def dest: find_Some_in)
  then show ?thesis using assms
    by (simp add: bump_session_version_def serialized_write_def find_user_def find_sql_update)
qed

text \<open>Signing out ends every session of the user for good. A token that was accepted for the user when
  he signed out, on whatever device, is never accepted again, whatever the store does later short of
  deleting the account.\<close>

theorem logout_ends_sessions:
  assumes "db_ok db" "live_session (ap_token ap) (ap_clock ap 0) rq db u" "live_session (ap_token ap) now rq' db u" "u \<notin> deleted ops"
  shows "session_user (ap_token ap) later rq' (store_run sha ops (snd (logout ap rq db))) = None"
proof (rule ccontr)
  let ?te = "ap_token ap" and ?db = "store_run sha ops (snd (logout ap rq db))"
  assume "session_user ?te later rq' ?db \<noteq> None"
  then obtain d' where su: "session_user ?te later rq' ?db = Some d'" by blast
  from session_user_claims [OF su] obtain v' where v': "verify_jwt ?te later (offered_session rq') = Some d'"
    "get_session_version (claim_text d' ''user_id'') ?db = Some v'" "json_num (dict_get d' ''sv'' (JInt 0)) = Some (of_int v')" by blast
  from assms(3) obtain d v where v: "verify_jwt ?te now (offered_session rq') = Some d" "claim_text d ''user_id'' = u"
    "get_session_version u db = Some v" "json_num (dict_get d ''sv'' (JInt 0)) = Some (of_int v)"
    by (auto simp: live_session_def)
  from verify_fixed [OF v(1) v'(1)] have d: "d' = d" by simp
  with v v' have same: "get_session_version u ?db = Some v" by simp
  from assms(2) have lo: "snd (logout ap rq db) = snd (bump_session_version u db)"
    by (auto simp: live_session_iff logout_def)
  from v(3) obtain r where r: "find_user u db = Some r" "usr_session r = v" by (auto simp: get_session_version_def)
  from bump_session [OF r(1)] obtain r1 where r1: "find_user u (snd (logout ap rq db)) = Some r1" "usr_session r1 = v + 1"
    using r(2) by (auto simp: lo)
  have "db_ok (snd (logout ap rq db))" unfolding lo by (rule bump_session_version_ok) (rule assms(1))
  from run_on [OF this, of sha ops] have s: "db_steps sha (deleted ops) (reset_ids ops) (snd (logout ap rq db)) ?db" by blast
  from db_steps_session [OF s assms(4) r1(1)] r1(2) same show False by (auto simp: get_session_version_def)
qed

definition sample_users :: db where
  "sample_users = empty_db\<lparr>db_users := [new_user ''user-1'' ''a@b'' '''' ''a'' 0 None]\<rparr>"

lemma sample_users_ok: "db_ok sample_users"
  by (simp add: db_ok_defs sample_users_def empty_db_def new_user_def)

definition cookie_request :: "string \<Rightarrow> http_request" where
  "cookie_request t = \<lparr>hr_cookies = [(SESSION_COOKIE, t)], hr_headers = [], hr_client = None\<rparr>"

definition sample_session :: string where "sample_session = create_jwt sample_tokens sample_payload 24 0 0"

definition sample_params :: auth_params where
  "sample_params = \<lparr>ap_sha = id, ap_token = sample_tokens, ap_env = [], ap_clock = (\<lambda>_. 5)\<rparr>"

lemma offered_cookie: "offered_session (cookie_request t) = t" if "t \<noteq> []"
  using that by (simp add: offered_session_def cookie_request_def dict_get_def)

lemma sample_live: "live_session sample_tokens 5 (cookie_request sample_session) sample_users ''user-1''"
proof -
  have v: "verify_jwt sample_tokens 5 sample_session = Some (issued sample_payload 24 0 0)"
    unfolding sample_session_def verify_create [OF sample_json] by (simp add: to_int_def)
  then have "sample_session \<noteq> []" by auto
  with v show ?thesis
    by (simp add: live_session_def offered_cookie issued_def sample_payload_def claim_text_def dict_get_def get_session_version_def
        find_user_def sample_users_def new_user_def)
qed

lemma logout_ends_sessions_witness:
  "session_user sample_tokens 6 (cookie_request sample_session)
     (snd (logout sample_params (cookie_request sample_session) sample_users)) = None"
  using logout_ends_sessions [OF sample_users_ok, of sample_params "cookie_request sample_session" "''user-1''" 5 "cookie_request sample_session" "[]" 6 id] sample_live
  by (simp add: sample_params_def deleted_def)

section \<open>Credentials that sign-up hands out\<close>

definition session_claims :: "environ \<Rightarrow> string \<Rightarrow> string \<Rightarrow> string \<Rightarrow> string \<Rightarrow> int \<Rightarrow> trace" where
  "session_claims e uid email name role v = [(''user_id'', JStr uid), (''email'', JStr email), (''name'', JStr name),
     (''role'', JStr (role_for e email role)), (''sv'', JInt v)]"

lemma session_token_claims: "session_token te e uid email name role v t1 t2 = create_jwt te (session_claims e uid email name role v) 24 t1 t2"
  by (simp add: session_token_def session_claims_def)

lemma issued_claims:
  "claim_text (issued (session_claims e uid email name role v) 24 t1 t2) ''user_id'' = uid"
  "claim_text (issued (session_claims e uid email name role v) 24 t1 t2) ''role'' = role_for e email role"
  "claim_text (issued (session_claims e uid email name role v) 24 t1 t2) ''email'' = email"
  "dict_get (issued (session_claims e uid email name role v) 24 t1 t2) ''sv'' (JInt 0) = JInt v"
  "issued (session_claims e uid email name role v) 24 t1 t2 \<noteq> []"
  by (simp_all add: issued_def session_claims_def claim_text_def dict_get_def)

lemma token_accepted:
  assumes "json_ok te (issued (session_claims e uid email name role v) 24 t1 t2)" "now \<le> of_int (to_int t1 + 86400)"
    "get_session_version uid db = Some v"
  shows "session_user te now (cookie_request (session_token te e uid email name role v t1 t2)) db
    = Some (issued (session_claims e uid email name role v) 24 t1 t2)"
proof -
  let ?t = "session_token te e uid email name role v t1 t2"
  have vj: "verify_jwt te now ?t = Some (issued (session_claims e uid email name role v) 24 t1 t2)"
    unfolding session_token_claims verify_create [OF assms(1)] using assms(2) by simp
  then have "?t \<noteq> []" by auto
  then show ?thesis using vj assms(3) by (simp add: session_user_def offered_cookie issued_claims Let_def)
qed

lemma fresh_find: "f r \<notin> f ` set xs \<Longrightarrow> find (\<lambda>x. f x = f r \<and> P x) xs = None"
  by (induction xs) auto

lemma fresh_find_id: "f r \<notin> f ` set xs \<Longrightarrow> find (\<lambda>x. f x = f r) xs = None"
  by (induction xs) auto

lemma create_user_result:
  assumes "create_user sha email password name country hex4 salt hex16 t1 t2 t3 db = (Inr u, db')"
  shows "cu_id u = ''user-'' @ hex4 \<and> cu_key u = KEY_PREFIX @ hex16
    \<and> (\<exists>r. find_user (cu_id u) db' = Some r \<and> usr_session r = 0 \<and> usr_suspended r = None)
    \<and> (\<exists>k. live_key (sha (cu_key u)) db' = Some k \<and> key_consumer k = cu_id u)"
proof -
  let ?uid = "''user-'' @ hex4" and ?raw = "KEY_PREFIX @ hex16" and ?nm = "or_else name (before_char (CHR ''@'') email)"
  let ?r = "new_user ?uid (str_strip (str_lower email)) (password_entry sha salt password) ?nm t1 country"
  let ?k = "new_key (sha ?raw) ?uid ''Default Key'' t3"
  from assms obtain db1 db2 where b: "ins_user ?r db = Inr db1"
      "ins_account (new_account ?uid ?nm t2) db1 = Inr db2" "ins_key ?k db2 = Inr db'"
      "u = \<lparr>cu_id = ?uid, cu_email = str_strip (str_lower email), cu_name = ?nm, cu_key = ?raw\<rparr>"
    by (auto simp: create_user_def serialized_write_def Let_def bindE_def dest!: ins_user_or_Inr split: sum.splits)
  from ins_user_InrD [OF b(1)] ins_account_InrD [OF b(2)] ins_key_InrD [OF b(3)]
  have "usr_id ?r \<notin> usr_id ` set (db_users db)" "key_hash ?k \<notin> key_hash ` set (db_keys db2)"
    "db_users db' = db_users db @ [?r]" "db_keys db' = db_keys db2 @ [?k]" by auto
  with fresh_find [of key_hash ?k "db_keys db2" "\<lambda>k. key_revoked k = None"] fresh_find_id [of usr_id ?r "db_users db"] b(4)
  show ?thesis
    by (simp add: find_user_def live_key_def find_append) (simp add: new_user_def new_key_def)
qed

definition key_request :: "string \<Rightarrow> http_request" where
  "key_request k = \<lparr>hr_cookies = [], hr_headers = [(''authorization'', ''Bearer '' @ k)], hr_client = None\<rparr>"

lemma not_suspended:
  "find_user u db = Some r \<Longrightarrow> usr_suspended r = None \<Longrightarrow> get_suspension u now db = None"
  by (simp add: get_suspension_def)

lemma starts_KEY [simp]: "starts_with KEY_PREFIX (KEY_PREFIX @ s)"
  by (rule starts_with_append)

lemma key_request_session: "session_user te now (key_request (KEY_PREFIX @ s)) db = None"
  by (simp add: session_user_def offered_session_def key_request_def dict_get_def)

lemma lower_bearer: "str_lower (''Bearer '' @ k) = ''bearer '' @ str_lower k"
proof -
  have "str_lower ''Bearer '' = ''bearer ''" by code_simp
  then show ?thesis by (simp only: str_lower_def map_append)
qed

lemma key_request_key:
  assumes "str_strip (''Bearer '' @ k) = ''Bearer '' @ k" "str_strip k = k"
  shows "offered_key (key_request k) = k" "str_strip (dict_get (hr_headers (key_request k)) ''authorization'' []) \<noteq> []"
  using assms lower_bearer [of k] by (simp_all add: offered_key_def key_request_def dict_get_def starts_with_def Let_def)

lemma strip_plain:
  assumes "s \<noteq> []" "\<not> is_space (hd s)" "\<not> is_space (last s)"
  shows "str_strip s = s"
proof -
  have "dropWhile is_space s = s" "dropWhile is_space (rev s) = rev s"
    using assms by (simp_all add: dropWhile_eq_self_iff hd_rev)
  then show ?thesis by (simp add: str_strip_def)
qed

lemma strip_key:
  assumes "hex16 \<noteq> []" "\<not> is_space (last hex16)"
  shows "str_strip (KEY_PREFIX @ hex16) = KEY_PREFIX @ hex16" "str_strip (''Bearer '' @ KEY_PREFIX @ hex16) = ''Bearer '' @ KEY_PREFIX @ hex16"
  using assms by (intro strip_plain; simp add: KEY_PREFIX_def is_space_def; fail)+

lemma validate_live:
  assumes "live_key (sha raw) db = Some k" "starts_with KEY_PREFIX raw"
  shows "\<exists>db'. validate_key sha raw now db = (Inr (Some k), db')"
proof -
  have "raw \<noteq> []" using assms(2) by (auto simp: starts_with_def KEY_PREFIX_def)
  with assms show ?thesis by (simp add: validate_key_def serialized_write_def)
qed

text \<open>Sign-up hands out credentials that work. After an accepted registration the session cookie of the
  response, until it expires 24 hours later, and the API key of the response are both resolved to the
  new account; the attempt was counted, and registration was open.\<close>

theorem signup_credentials_work:
  assumes "signup ap off country email password name hex4 salt hex16 rq a db = ((Inr rs, db'), a')"
    "rs_cookie rs = SetSession tok"
    "json_ok (ap_token ap) (issued (session_claims (ap_env ap) (''user-'' @ hex4) (str_strip (str_lower email))
        (or_else name (before_char (CHR ''@'') email)) ''consumer'' 0) 24 (ap_clock ap 4) (ap_clock ap 5))"
    "ak_token ck \<le> of_int (to_int (ap_clock ap 4) + 86400)" "hex16 \<noteq> []" "\<not> is_space (last hex16)"
  shows "fst (resolve_caller (ap_sha ap) (ap_token ap) ck (cookie_request tok) db') = Inr (''user-'' @ hex4)
    \<and> fst (resolve_caller (ap_sha ap) (ap_token ap) ck (key_request (KEY_PREFIX @ hex16)) db') = Inr (''user-'' @ hex4)
    \<and> password_auth_enabled (ap_env ap) \<and> \<not> off \<and> check_auth_rate (caller_address rq) (ap_clock ap 0) a = (True, a')"
proof -
  obtain ok b where cr: "check_auth_rate (caller_address rq) (ap_clock ap 0) a = (ok, b)" by force
  obtain u where u: "create_user (ap_sha ap) email password name country hex4 salt hex16 (ap_clock ap 1) (ap_clock ap 2) (ap_clock ap 3) db = (Inr u, db')"
    "tok = session_token (ap_token ap) (ap_env ap) (cu_id u) (cu_email u) (cu_name u) ''consumer'' 0 (ap_clock ap 4) (ap_clock ap 5)"
    and g: "password_auth_enabled (ap_env ap)" "\<not> off" "ok" "a' = b"
    using assms(1,2) cr
    by (auto simp: signup_def respond_def password_auth_disabled_response_def signup_disabled_response_def too_many_attempts_response_def
        split: if_splits bool.splits prod.splits sum.splits store_error.splits)
  from create_user_result [OF u(1)] obtain r k where r: "cu_id u = ''user-'' @ hex4" "cu_key u = KEY_PREFIX @ hex16"
    "find_user (cu_id u) db' = Some r" "usr_session r = 0" "usr_suspended r = None"
    "live_key (ap_sha ap (cu_key u)) db' = Some k" "key_consumer k = cu_id u" by blast
  from u(1) have n: "cu_email u = str_strip (str_lower email)" "cu_name u = or_else name (before_char (CHR ''@'') email)"
    by (auto simp: create_user_def serialized_write_def Let_def bindE_def split: sum.splits)
  have gv: "get_session_version (cu_id u) db' = Some 0" using r by (simp add: get_session_version_def)
  have su: "session_user (ap_token ap) (ak_token ck) (cookie_request tok) db'
      = Some (issued (session_claims (ap_env ap) (cu_id u) (cu_email u) (cu_name u) ''consumer'' 0) 24 (ap_clock ap 4) (ap_clock ap 5))"
    unfolding u(2) by (rule token_accepted [OF _ assms(4) gv]) (use assms(3) r n in simp)
  have ns: "get_suspension (cu_id u) (ak_suspension ck) db' = None" using not_suspended r by blast
  have c: "fst (resolve_caller (ap_sha ap) (ap_token ap) ck (cookie_request tok) db') = Inr (''user-'' @ hex4)"
    using ns by (simp add: resolve_caller_def su issued_claims check_not_suspended_def r(1))
  note sk = key_request_key [OF strip_key(2,1) [OF assms(5,6)]]
  have lk: "live_key (ap_sha ap (KEY_PREFIX @ hex16)) db' = Some k" using r(2,6) by simp
  from validate_live [where sha = "ap_sha ap" and now = "ak_key ck", OF lk starts_KEY] obtain db2 where v:
    "validate_key (ap_sha ap) (KEY_PREFIX @ hex16) (ak_key ck) db' = (Inr (Some k), db2)" by blast
  have same: "db_users db2 = db_users db'" using validate_key_users [of "ap_sha ap" "KEY_PREFIX @ hex16" "ak_key ck" db'] v by simp
  have "get_suspension (cu_id u) (ak_suspension ck) db2 = None" unfolding get_suspension_frame [OF same] by (rule ns)
  then have "fst (resolve_caller (ap_sha ap) (ap_token ap) ck (key_request (KEY_PREFIX @ hex16)) db') = Inr (''user-'' @ hex4)"
    by (simp add: resolve_caller_def key_request_session sk v check_not_suspended_def r(1,7))
  with c g cr show ?thesis by simp
qed

definition signup_params :: auth_params where
  "signup_params = \<lparr>ap_sha = id, ap_token = \<lparr>te_mac = id, te_dumps = (\<lambda>_. ''claims''), te_loads = (\<lambda>_. Some (JObj (issued
      (session_claims [] ''user-ab'' ''a@b'' ''Ann'' ''consumer'' 0) 24 0 0)))\<rparr>, ap_env = [], ap_clock = (\<lambda>_. 0)\<rparr>"

definition sample_signup :: "handled \<times> auth_attempts" where
  "sample_signup = signup signup_params False None ''a@b'' ''secret1'' ''Ann'' ''ab'' ''5a17'' ''00ff'' bare_request [] empty_db"

lemma sample_signup_accepted: "case sample_signup of ((Inr rs, db'), a') \<Rightarrow> (\<exists>tok. rs_cookie rs = SetSession tok) | _ \<Rightarrow> False"
proof -
  have p: "password_auth_enabled []" by code_simp
  have l: "str_strip (str_lower ''a@b'') = ''a@b''" by code_simp
  have r: "role_for [] ''a@b'' ''consumer'' = ''consumer''" by code_simp
  show ?thesis
    by (simp add: sample_signup_def signup_def signup_params_def p check_auth_rate_def dict_get_def AUTH_RATE_LIMIT_def
        create_user_def serialized_write_def Let_def bindE_def ins_user_or_def ins_user_def ins_account_def ins_key_def
        empty_db_def sql_exists_def new_user_def new_key_def new_account_def respond_def)
qed

lemma signup_credentials_work_witness:
  "\<exists>tok db'. fst (resolve_caller id (ap_token signup_params) sample_clock (cookie_request tok) db') = Inr (''user-'' @ ''ab'')"
proof -
  from sample_signup_accepted obtain rs db' a' tok where s:
    "signup signup_params False None ''a@b'' ''secret1'' ''Ann'' ''ab'' ''5a17'' ''00ff'' bare_request [] empty_db = ((Inr rs, db'), a')"
    "rs_cookie rs = SetSession tok" by (auto simp: sample_signup_def split: prod.splits sum.splits)
  have c: "str_strip (str_lower ''a@b'') = ''a@b''" by code_simp
  have h: "\<not> is_space (last ''00ff'')" by code_simp
  have "fst (resolve_caller (ap_sha signup_params) (ap_token signup_params) sample_clock (cookie_request tok) db') = Inr (''user-'' @ ''ab'')"
    by (rule signup_credentials_work [OF s, THEN conjunct1])
      (use c h in \<open>simp_all add: signup_params_def json_ok_def sample_clock_def or_else_def to_int_def\<close>)
  then show ?thesis by (auto simp: signup_params_def)
qed

section \<open>Administrators\<close>

text \<open>Administrators are checked against the store. A request counts as an administrator's only through a
  live session of a user who exists now under the address in the token, who is not suspended, and whose
  address is on the configured list or whose stored role is admin at this moment; outside production
  an installation without users is open.\<close>

theorem admin_is_current:
  assumes "is_admin_request te e ck rq db"
  shows "(\<not> is_production e \<and> db_users db = [])
    \<or> (\<exists>u r. live_session te (ak_token ck) rq db u \<and> find_user u db = Some r \<and> get_suspension u (ak_suspension ck) db = None
        \<and> (str_strip (str_lower (usr_email r)) \<in> set (admin_emails e) \<or> usr_role r = ''admin''))"
proof (cases "has_verified_admin_session te e ck rq db")
  case True
  then obtain p where p: "session_user te (ak_token ck) rq db = Some p"
    "case get_user (claim_text p ''user_id'') db of None \<Rightarrow> False | Some (_, email, _, role, _) \<Rightarrow>
       str_lower email = str_lower (claim_text p ''email'') \<and> get_suspension (claim_text p ''user_id'') (ak_suspension ck) db = None
         \<and> role_for e email role = ''admin''"
    by (auto simp: has_verified_admin_session_def split: option.splits)
  then obtain r where r: "find_user (claim_text p ''user_id'') db = Some r"
    "get_suspension (claim_text p ''user_id'') (ak_suspension ck) db = None" "role_for e (usr_email r) (usr_role r) = ''admin''"
    by (auto simp: get_user_def split: option.splits)
  have "live_session te (ak_token ck) rq db (claim_text p ''user_id'')" using p(1) by (auto simp: live_session_iff)
  with r show ?thesis by (auto simp: role_for_def split: if_splits)
next
  case False
  with assms show ?thesis by (auto simp: is_admin_request_def has_users_def sql_exists_def)
qed

lemma admin_is_current_witness:
  "is_admin_request sample_tokens [] sample_clock bare_request empty_db \<and> \<not> is_production [] \<and> db_users empty_db = []"
proof -
  have p: "\<not> is_production []" by code_simp
  have a: "is_admin_request sample_tokens [] sample_clock bare_request empty_db"
    by (simp add: is_admin_request_def p has_users_def empty_db_def sql_exists_def)
  have "\<not> live_session sample_tokens 5 bare_request empty_db u" for u
    by (simp add: live_session_def get_session_version_def find_user_def empty_db_def)
  with admin_is_current [OF a] a p show ?thesis by (simp add: sample_clock_def empty_db_def)
qed

section \<open>Attempts per address\<close>

definition attempt_recent :: "flt \<Rightarrow> flt \<Rightarrow> bool" where
  "attempt_recent now t \<longleftrightarrow> rnd (now - t) < 300"

definition attempt_times :: "string \<Rightarrow> auth_attempts \<Rightarrow> flt list" where
  "attempt_times ip a = dict_get a ip []"

lemma attempt_recent_antimono: "s \<le> now \<Longrightarrow> attempt_recent now t \<Longrightarrow> attempt_recent s t"
  unfolding attempt_recent_def by (meson diff_right_mono le_less_trans rnd_monotone)

lemma check_auth_rate_eq:
  "check_auth_rate ip now a = (let h = filter (attempt_recent now) (attempt_times ip a)
     in if 10 \<le> length h then (False, a) else (True, dict_set ip (h @ [now]) a))"
  by (simp add: check_auth_rate_def attempt_recent_def [abs_def] attempt_times_def AUTH_RATE_LIMIT_def AUTH_RATE_WINDOW_def)

lemma attempt_times_set [simp]: "attempt_times k (dict_set k' h a) = (if k = k' then h else attempt_times k a)"
  by (simp add: attempt_times_def)

interpretation attempts: rate_window check_auth_rate "attempt_times who" attempt_recent 10 "\<lambda>ip. ip = who" UNIV "\<lambda>_ _. True" for who
proof unfold_locales
  fix s now t :: flt and ip and a :: auth_attempts
  show "s \<le> now \<Longrightarrow> attempt_recent now t \<Longrightarrow> attempt_recent s t" by (rule attempt_recent_antimono)
  show "filter (attempt_recent now) (attempt_times who (snd (check_auth_rate ip now a)))
      = filter (attempt_recent now) (attempt_times who a @ (if fst (check_auth_rate ip now a) \<and> ip = who then [now] else []))"
    by (auto simp: check_auth_rate_eq Let_def)
  show "fst (check_auth_rate ip now a) \<Longrightarrow> ip = who \<Longrightarrow> length (filter (attempt_recent now) (attempt_times who a)) < 10"
    by (simp add: check_auth_rate_eq Let_def split: if_splits)
qed simp

text \<open>Sign-up and sign-in together are tried at most ten times in any five minutes from one address,
  whatever the other addresses do, as long as the clock does not run back.\<close>

theorem auth_attempts_bounded:
  assumes "sorted (map snd xs)" "xs \<noteq> []"
  shows "length (filter (\<lambda>(a, t). a = ip \<and> rnd (snd (last xs) - t) < 300) (fst (run_calls check_auth_rate xs []))) \<le> 10"
proof -
  let ?r = "fst (run_calls check_auth_rate xs [])"
  have srt: "sorted (snd (hd xs) # map snd xs)" using assms by (cases xs) auto
  have "length (filter (attempt_recent (last (snd (hd xs) # map snd xs))) ([] @ fst (attempts.window_run ip xs []))) \<le> 10"
    by (rule attempts.window_bound [OF _ srt]) (simp_all add: attempt_times_def dict_get_def)
  then have "length (filter (attempt_recent (snd (last xs))) (map snd (filter (\<lambda>(a, _). a = ip) ?r))) \<le> 10"
    using assms(2) by (simp add: attempts.run_calls_window last_map)
  then show ?thesis by (simp add: filter_map comp_def case_prod_unfold attempt_recent_def conj_commute)
qed

lemma auth_attempts_bounded_witness:
  "length (filter (\<lambda>(a, t). a = ''ip'' \<and> rnd (0 - t) < 300) (fst (run_calls check_auth_rate (replicate 30 (''ip'', 0)) []))) \<le> 10"
  using auth_attempts_bounded [of "replicate 30 (''ip'', 0)" "''ip''"] by simp

section \<open>GitHub sign-in\<close>

definition safe_target :: "string \<Rightarrow> bool" where
  "safe_target p \<longleftrightarrow> starts_with ''/'' p \<and> \<not> starts_with ''//'' p \<and> backslash \<notin> set p \<and> \<not> (\<exists>c \<in> set p. control_char c)
     \<and> \<not> starts_with ''/v1/'' p \<and> \<not> starts_with ''/ws/'' p \<and> p \<noteq> ''/login'' \<and> length p \<le> 512"

lemma starts_before:
  assumes "starts_with q p" "c \<notin> set q"
  shows "starts_with q (before_char c p)"
proof -
  obtain r where "p = q @ r" using assms(1) by (auto simp: starts_with_iff)
  moreover have "takeWhile (\<lambda>x. x \<noteq> c) (q @ r) = q @ takeWhile (\<lambda>x. x \<noteq> c) r"
    using assms(2) by (intro takeWhile_append2) auto
  ultimately show ?thesis by (simp add: before_char_def starts_with_iff)
qed

lemma safe_next_path_safe: "safe_target (safe_next_path value)"
proof -
  have d: "safe_target DEFAULT_NEXT" by code_simp
  show ?thesis
  proof (cases "safe_next_path value = DEFAULT_NEXT")
    case True with d show ?thesis by simp
  next
    case False
    then obtain v where v: "value = Some v" by (cases "value") (auto simp: safe_next_path_def)
    with False have c: "length v \<le> 512" "starts_with ''/'' v" "\<not> starts_with ''//'' v" "backslash \<notin> set v" "\<not> (\<exists>c \<in> set v. control_char c)"
      "\<not> starts_with ''/v1/'' (before_char (CHR ''?'') v)" "\<not> starts_with ''/ws/'' (before_char (CHR ''?'') v)" "v \<noteq> ''/login''"
      and p: "safe_next_path value = v"
      by (auto simp: safe_next_path_def Let_def split: if_splits)
    have "\<not> starts_with ''/v1/'' v" "\<not> starts_with ''/ws/'' v"
      using c(6,7) starts_before [of _ v "CHR ''?''"] by auto
    with c p show ?thesis by (simp add: safe_target_def)
  qed
qed

lemma upsert_github_result:
  assumes "upsert_github_user gid lgn email name country hex now db = (Inr (u, created), db')"
  shows "\<exists>r \<in> set (db_users db'). usr_github r = Some gid \<and> u = view_user r"
proof (cases "find (\<lambda>u. usr_github u = Some gid) (db_users db)")
  case (Some row)
  with assms have u: "u = view_user row" "db' = touch_login (usr_id row) now db"
    by (auto simp: upsert_github_user_def serialized_write_def)
  from find_Some_in [OF Some] have "row\<lparr>usr_last_login := Some now\<rparr> \<in> set (db_users db') \<and> usr_github row = Some gid"
    by (auto simp: u(2) touch_login_def sql_update_def)
  then show ?thesis using u(1) by (intro bexI [of _ "row\<lparr>usr_last_login := Some now\<rparr>"]) (simp_all add: view_user_def)
next
  case None
  with assms obtain row where "u = view_user row" "usr_github row = Some gid" "row \<in> set (db_users db')"
    by (auto simp: upsert_github_user_def serialized_write_def Let_def bindE_def ins_user_or_def ins_user_def ins_account_def
        split: sum.splits if_splits)
  then show ?thesis by blast
qed

text \<open>GitHub sign-in is bound to its own start and to one identity. A session is issued only for a
  request whose state is non-empty and equals the one in the browser's cookie, for the GitHub identity
  that the exchange of this code and verifier returned, of a user who is not suspended and who existed
  before when registration is closed; the redirect that follows stays on this site, outside the API.\<close>

theorem github_sign_in_bound:
  assumes "github_callback oa code state rq db = (Inr (SignedIn target tok), db')"
  shows "code \<noteq> '''' \<and> state \<noteq> '''' \<and> state = before_char (CHR ''.'') (dict_get (hr_cookies rq) STATE_COOKIE '''')
    \<and> safe_target target
    \<and> (\<exists>ga gh gid. oa_fetch oa code (after_char (CHR ''.'') (dict_get (hr_cookies rq) STATE_COOKIE '''')) = Some ga
        \<and> fetch_github_identity ga = Some gh \<and> github_id gh = Some gid \<and> \<not> too_new oa gh \<and> (oa_signup_off oa \<longrightarrow> has_github_user gid db)
        \<and> (\<exists>r \<in> set (db_users db'). usr_github r = Some gid \<and> get_suspension (usr_id r) (ap_clock (oa_auth oa) 1) db' = None
            \<and> tok = session_token (ap_token (oa_auth oa)) (ap_env (oa_auth oa)) (usr_id r) (usr_email r) (usr_name r) (usr_role r) (usr_session r)
                (ap_clock (oa_auth oa) 2) (ap_clock (oa_auth oa) 3)))"
proof -
  let ?c = "dict_get (hr_cookies rq) STATE_COOKIE ''''" and ?ap = "oa_auth oa"
  have st: "code \<noteq> ''''" "state \<noteq> ''''" "state = before_char (CHR ''.'') ?c"
    using assms by (auto simp: github_callback_def Let_def split: if_splits)
  obtain ga gh where g: "oa_fetch oa code (after_char (CHR ''.'') ?c) = Some ga" "fetch_github_identity ga = Some gh"
    using assms by (auto simp: github_callback_def Let_def Option.bind_eq_Some_conv split: if_splits option.splits)
  have nt: "\<not> too_new oa gh" using assms st g by (auto simp: github_callback_def Let_def split: if_splits)
  obtain gid where i: "github_id gh = Some gid"
    using assms st g nt by (auto simp: github_callback_def Let_def split: if_splits option.splits)
  obtain u created where u: "upsert_github_user gid (claim_text gh ''login'') (claim_text gh ''email'') (claim_text gh ''name'')
        (oa_country oa) (oa_hex oa) (ap_clock ?ap 0) db = (Inr (u, created), db')"
    "oa_signup_off oa \<longrightarrow> has_github_user gid db" "get_suspension (uv_id u) (ap_clock ?ap 1) db' = None"
    "target = safe_next_path (map_of (hr_cookies rq) NEXT_COOKIE)"
    "tok = session_token (ap_token ?ap) (ap_env ?ap) (uv_id u) (uv_email u) (uv_name u) (uv_role u) (uv_session u) (ap_clock ?ap 2) (ap_clock ?ap 3)"
    using assms st g nt i by (auto simp: github_callback_def Let_def split: if_splits prod.splits sum.splits store_error.splits)
  from upsert_github_result [OF u(1)] u(3,5) have "\<exists>r \<in> set (db_users db'). usr_github r = Some gid
      \<and> get_suspension (usr_id r) (ap_clock ?ap 1) db' = None
      \<and> tok = session_token (ap_token ?ap) (ap_env ?ap) (usr_id r) (usr_email r) (usr_name r) (usr_role r) (usr_session r) (ap_clock ?ap 2) (ap_clock ?ap 3)"
    by (auto simp: view_user_def)
  moreover have "safe_target target" unfolding u(4) by (rule safe_next_path_safe)
  ultimately show ?thesis using st g nt i u(2) by blast
qed

definition sample_oauth :: oauth_params where
  "sample_oauth = \<lparr>oa_auth = sample_params\<lparr>ap_env := [(''IE_GITHUB_CLIENT_ID'', ''c''), (''IE_GITHUB_CLIENT_SECRET'', ''s'')]\<rparr>,
     oa_fetch = (\<lambda>code verifier. Some \<lparr>ga_token = ''t'', ga_user = [(''id'', JInt 7), (''login'', JStr ''ann''), (''email'', JStr ''a@b'')], ga_emails = []\<rparr>),
     oa_min_age = 0, oa_age = (\<lambda>_. 0), oa_signup_off = False, oa_country = None, oa_hex = ''ab''\<rparr>"

definition sample_callback :: http_request where
  "sample_callback = \<lparr>hr_cookies = [(STATE_COOKIE, ''st.ver''), (NEXT_COOKIE, ''//evil'')], hr_headers = [], hr_client = None\<rparr>"

lemma sample_callback_signs_in:
  "\<exists>tok db'. github_callback sample_oauth ''code'' ''st'' sample_callback empty_db = (Inr (SignedIn ''/chat'' tok), db')"
proof -
  have n: "safe_next_path (Some ''//evil'') = ''/chat''" by code_simp
  have s: "before_char (CHR ''.'') ''st.ver'' = ''st''" by code_simp
  have i: "int_str 7 = ''7''" by code_simp
  have k: "NEXT_COOKIE \<noteq> STATE_COOKIE" by code_simp
  show ?thesis
    by (simp add: github_callback_def sample_oauth_def sample_params_def sample_callback_def github_configured_def n s i k dict_get_def Let_def
        fetch_github_identity_def claim_text_def too_new_def github_id_def upsert_github_user_def serialized_write_def bindE_def
        ins_user_or_def ins_user_def ins_account_def empty_db_def sql_exists_def new_user_def or_else_def get_suspension_def find_user_def
        new_account_def view_user_def)
qed

lemma github_sign_in_bound_witness:
  "\<exists>tok db'. github_callback sample_oauth ''code'' ''st'' sample_callback empty_db = (Inr (SignedIn ''/chat'' tok), db') \<and> safe_target ''/chat''"
  using sample_callback_signs_in github_sign_in_bound by blast

section \<open>Cross-site requests\<close>

text \<open>A state-changing request with a session cookie and a foreign Origin is refused unless its Referer starts
  like an allowed origin. The comparison is a prefix, so a page of a host whose name continues an allowed
  one passes.\<close>

lemma csrf_rejects:
  "method_name \<in> {''POST'', ''PUT'', ''DELETE'', ''PATCH''} \<Longrightarrow> map_of (hr_cookies rq) SESSION_COOKIE \<noteq> None \<Longrightarrow>
   origin \<noteq> '''' \<Longrightarrow> dict_get (hr_headers rq) ''origin'' '''' = origin \<Longrightarrow> origin \<notin> set (allowed_origins e) \<Longrightarrow>
   csrf_passes e method_name rq \<longleftrightarrow> (\<exists>x \<in> set (allowed_origins e). starts_with x (dict_get (hr_headers rq) ''referer'' ''''))"
  by (simp add: csrf_passes_def Let_def)

lemma csrf_prefix_passes:
  "csrf_passes [] ''POST'' \<lparr>hr_cookies = [(SESSION_COOKIE, ''t'')],
     hr_headers = [(''origin'', ''http://localhost:3000.evil.example''), (''referer'', ''http://localhost:3000.evil.example/'')], hr_client = None\<rparr>"
  by (simp add: csrf_passes_def dict_get_def allowed_origins_def starts_with_def)

end
