(* ===== verification/Matching.thy ===== *)
theory Matching
  imports PyFloat
begin

text \<open>
  \<open>coordinator/matching/\<close>: orders, offers, the composite score and the two strategies. A clock
  read for an order is the argument \<open>clk\<close> applied to it (\<open>is_expired\<close> and \<open>queue_time_ms\<close>
  read the clock separately). The locale \<open>matching_strategy\<close> states what the engine relies on
  from any strategy; it is interpreted on the greedy and on the batch strategy.
\<close>

section \<open>Orders and offers (\<open>matching/models.py\<close>)\<close>

datatype routing_preference = CHEAPEST | FASTEST | MOST_SECURE | BALANCED

datatype confidence_level = OPEN | CONTAINED | HARDENED | CONFIDENTIAL

fun conf_value :: "confidence_level \<Rightarrow> int" where
  "conf_value OPEN = 0"
| "conf_value CONTAINED = 1"
| "conf_value HARDENED = 2"
| "conf_value CONFIDENTIAL = 3"

text \<open>\<open>max_price_per_mtok\<close> is \<open>None\<close> for the default \<open>float("inf")\<close>.\<close>

record inference_order =
  ord_id :: string
  ord_consumer :: string
  ord_model :: string
  ord_max_price :: "flt option"
  ord_min_conf :: confidence_level
  ord_pref :: routing_preference
  ord_min_tps :: flt
  ord_tokens :: int
  ord_submitted :: flt
  ord_timeout :: flt
  ord_affinity :: string

definition is_expired :: "flt \<Rightarrow> inference_order \<Rightarrow> bool" where
  "is_expired now o_ord = (ord_timeout o_ord < rnd (now - ord_submitted o_ord))"

record provider_offer =
  off_id :: string
  off_name :: string
  off_models :: "string list"
  off_price_in :: flt
  off_price_out :: flt
  off_conf :: confidence_level
  off_tps :: flt
  off_total :: int
  off_used :: int
  off_encrypted :: bool
  off_hardware :: string
  off_memory :: flt
  off_rep :: flt

definition available_slots :: "provider_offer \<Rightarrow> int" where
  "available_slots f = max 0 (off_total f - off_used f)"

definition load_factor :: "provider_offer \<Rightarrow> flt" where
  "load_factor f = (if off_total f = 0 then 1 else int_div (off_used f) (off_total f))"

definition is_available :: "provider_offer \<Rightarrow> bool" where
  "is_available f = (0 < available_slots f)"

record match_result =
  mr_order :: string
  mr_provider :: string
  mr_score :: flt
  mr_price :: flt
  mr_reason :: string
  mr_queue_ms :: flt

record match_failure =
  mf_order :: string
  mf_reason :: string
  mf_eligible :: nat
  mf_available :: nat

section \<open>The score\<close>

definition hard_ok :: "inference_order \<Rightarrow> provider_offer \<Rightarrow> bool" where
  "hard_ok o_ord f \<longleftrightarrow> (ord_model o_ord = ''default'' \<or> ord_model o_ord \<in> set (off_models f))
     \<and> (case ord_max_price o_ord of None \<Rightarrow> True | Some p \<Rightarrow> off_price_out f \<le> p)
     \<and> conf_value (ord_min_conf o_ord) \<le> conf_value (off_conf f) \<and> is_available f"

text \<open>The weights (price, speed, trust, load) of a preference.\<close>

fun weights :: "routing_preference \<Rightarrow> flt \<times> flt \<times> flt \<times> flt" where
  "weights CHEAPEST = (lit (6/10), lit (15/100), lit (1/10), lit (15/100))"
| "weights FASTEST = (lit (1/10), lit (6/10), lit (1/10), lit (2/10))"
| "weights MOST_SECURE = (lit (1/10), lit (1/10), lit (6/10), lit (2/10))"
| "weights BALANCED = (lit (35/100), lit (25/100), lit (2/10), lit (2/10))"

definition price_score :: "provider_offer \<Rightarrow> flt" where
  "price_score f = rnd (1 / rnd (1 + off_price_out f))"

definition speed_score :: "provider_offer \<Rightarrow> flt" where
  "speed_score f = rnd (off_tps f / rnd (10 + off_tps f))"

definition trust_score :: "provider_offer \<Rightarrow> flt" where
  "trust_score f = rnd (of_int (conf_value (off_conf f)) / 4)"

definition load_score :: "provider_offer \<Rightarrow> flt" where
  "load_score f = rnd (1 - load_factor f)"

definition soft_score :: "inference_order \<Rightarrow> provider_offer \<Rightarrow> flt" where
  "soft_score o_ord f = (case weights (ord_pref o_ord) of (wp, ws, wt, wl) \<Rightarrow>
     let score = rnd (rnd (rnd (rnd (wp * price_score f) + rnd (ws * speed_score f))
           + rnd (wt * trust_score f)) + rnd (wl * load_score f));
         scaled = rnd (score * rnd (1/2 + rnd (1/2 * off_rep f)))
     in if ord_affinity o_ord = off_id f then rnd (scaled * lit (12/10)) else scaled)"

definition compute_score :: "inference_order \<Rightarrow> provider_offer \<Rightarrow> flt" where
  "compute_score o_ord f = (
     if ord_model o_ord \<noteq> ''default'' \<and> ord_model o_ord \<notin> set (off_models f) then - 1
     else if (case ord_max_price o_ord of None \<Rightarrow> False | Some p \<Rightarrow> p < off_price_out f) then - 1
     else if conf_value (off_conf f) < conf_value (ord_min_conf o_ord) then - 1
     else if \<not> is_available f then - 1
     else soft_score o_ord f)"

section \<open>The greedy strategy\<close>

text \<open>The scan of the offers for one order: best offer, best score, eligible and available counts.\<close>

record scan_state =
  sc_best :: "provider_offer option"
  sc_score :: flt
  sc_eligible :: nat
  sc_available :: nat

definition scan_offer :: "(string, int) dict \<Rightarrow> inference_order \<Rightarrow> scan_state \<Rightarrow> provider_offer \<Rightarrow> scan_state" where
  "scan_offer slots o_ord s f = (
     if dict_get slots (off_id f) 0 \<le> 0 then s
     else (let score = compute_score o_ord f in
       if score < 0 then s
       else (let s' = s\<lparr>sc_eligible := sc_eligible s + 1,
                 sc_available := sc_available s + (if is_available f then 1 else 0)\<rparr> in
         if sc_score s < score then s'\<lparr>sc_best := Some f, sc_score := score\<rparr> else s')))"

definition scan_offers :: "(string, int) dict \<Rightarrow> inference_order \<Rightarrow> provider_offer list \<Rightarrow> scan_state" where
  "scan_offers slots o_ord offers = foldl (scan_offer slots o_ord)
     \<lparr>sc_best = None, sc_score = - 1, sc_eligible = 0, sc_available = 0\<rparr> offers"

type_synonym match_state = "match_result list \<times> match_failure list \<times> (string, int) dict"

definition queue_ms :: "flt \<Rightarrow> inference_order \<Rightarrow> flt" where
  "queue_ms now o_ord = rnd (rnd (now - ord_submitted o_ord) * 1000)"

definition greedy_step ::
  "(inference_order \<Rightarrow> flt) \<Rightarrow> (inference_order \<Rightarrow> flt) \<Rightarrow> provider_offer list \<Rightarrow> match_state \<Rightarrow> inference_order \<Rightarrow> match_state" where
  "greedy_step clk clk2 offers st o_ord = (case st of (ms, fs, slots) \<Rightarrow>
     if is_expired (clk o_ord) o_ord then
       (ms, fs @ [\<lparr>mf_order = ord_id o_ord, mf_reason = ''timeout'', mf_eligible = 0, mf_available = 0\<rparr>], slots)
     else (let s = scan_offers slots o_ord offers in
       case sc_best s of
         Some f \<Rightarrow> if 0 < sc_score s then
             (ms @ [\<lparr>mr_order = ord_id o_ord, mr_provider = off_id f, mr_score = sc_score s,
                mr_price = off_price_out f,
                mr_reason = ''greedy: best of '' @ nat_str (sc_eligible s) @ '' eligible'',
                mr_queue_ms = queue_ms (clk2 o_ord) o_ord\<rparr>],
              fs, dict_set (off_id f) (dict_get slots (off_id f) 0 - 1) slots)
           else (ms, fs @ [\<lparr>mf_order = ord_id o_ord,
              mf_reason = (if sc_eligible s = 0 then ''no_provider'' else ''no_capacity''),
              mf_eligible = sc_eligible s, mf_available = sc_available s\<rparr>], slots)
       | None \<Rightarrow> (ms, fs @ [\<lparr>mf_order = ord_id o_ord,
              mf_reason = (if sc_eligible s = 0 then ''no_provider'' else ''no_capacity''),
              mf_eligible = sc_eligible s, mf_available = sc_available s\<rparr>], slots)))"

definition initial_slots :: "provider_offer list \<Rightarrow> (string, int) dict" where
  "initial_slots offers = foldl (\<lambda>d f. dict_set (off_id f) (available_slots f) d) [] offers"

definition greedy_match ::
  "(inference_order \<Rightarrow> flt) \<Rightarrow> (inference_order \<Rightarrow> flt) \<Rightarrow> inference_order list \<Rightarrow> provider_offer list
    \<Rightarrow> match_result list \<times> match_failure list" where
  "greedy_match clk clk2 orders offers =
     (case foldl (greedy_step clk clk2 offers) ([], [], initial_slots offers) (sort_key ord_submitted orders) of
        (ms, fs, _) \<Rightarrow> (ms, fs))"

section \<open>The batch strategy\<close>

definition expand_offers :: "provider_offer list \<Rightarrow> provider_offer list" where
  "expand_offers offers = concat (map (\<lambda>f. replicate (nat (available_slots f)) f) offers)"

definition score_matrix :: "inference_order list \<Rightarrow> provider_offer list \<Rightarrow> flt list list" where
  "score_matrix orders slots = map (\<lambda>o_ord. map (compute_score o_ord) slots) orders"

text \<open>The best free slot of one row: index and score, \<open>(None, -1)\<close> when there is none.\<close>

definition pick_slot :: "nat set \<Rightarrow> flt list \<Rightarrow> nat option \<times> flt" where
  "pick_slot used row = foldl (\<lambda>(best, bs) (j, s). if j \<in> used then (best, bs)
       else if bs < s then (Some j, s) else (best, bs)) (None, - 1) (enumerate 0 row)"

definition assign_step :: "flt list list \<Rightarrow> (nat \<times> nat) list \<Rightarrow> nat \<times> nat \<Rightarrow> (nat \<times> nat) list" where
  "assign_step scores acc ci = (case pick_slot (snd ` set acc) (scores ! snd ci) of
       (Some j, s) \<Rightarrow> if 0 < s then acc @ [(snd ci, j)] else acc
     | (None, _) \<Rightarrow> acc)"

text \<open>Orders with fewer eligible slots are assigned first; ties in order of arrival.\<close>

definition solve_assignment :: "flt list list \<Rightarrow> (nat \<times> nat) list" where
  "solve_assignment scores = foldl (assign_step scores) []
     (sort (map (\<lambda>i. (length (filter (\<lambda>s. 0 < s) (scores ! i)), i)) [0..<length scores]))"

definition batch_take ::
  "(inference_order \<Rightarrow> flt) \<Rightarrow> inference_order list \<Rightarrow> provider_offer list \<Rightarrow> flt list list \<Rightarrow> string
    \<Rightarrow> match_result list \<times> (string, int) dict \<Rightarrow> nat \<times> nat \<Rightarrow> match_result list \<times> (string, int) dict" where
  "batch_take clk2 orders slots scores reason st ij = (case (st, ij) of ((ms, consumed), (i, j)) \<Rightarrow>
     let o_ord = orders ! i; f = slots ! j; n = dict_get consumed (off_id f) 0 + 1;
         consumed' = dict_set (off_id f) n consumed
     in if off_total f < n then (ms, consumed')
        else (ms @ [\<lparr>mr_order = ord_id o_ord, mr_provider = off_id f, mr_score = scores ! i ! j,
             mr_price = off_price_out f, mr_reason = reason, mr_queue_ms = queue_ms (clk2 o_ord) o_ord\<rparr>], consumed'))"

definition failed_all :: "string \<Rightarrow> inference_order list \<Rightarrow> match_failure list" where
  "failed_all reason orders = map (\<lambda>o_ord. \<lparr>mf_order = ord_id o_ord, mf_reason = reason, mf_eligible = 0, mf_available = 0\<rparr>) orders"

definition batch_match ::
  "(inference_order \<Rightarrow> flt) \<Rightarrow> (inference_order \<Rightarrow> flt) \<Rightarrow> inference_order list \<Rightarrow> provider_offer list
    \<Rightarrow> match_result list \<times> match_failure list" where
  "batch_match clk clk2 orders offers = (
     if orders = [] \<or> offers = [] then ([], failed_all ''no_provider'' orders)
     else (let slots = expand_offers offers in
       if slots = [] then ([], failed_all ''no_capacity'' orders)
       else (let scores = score_matrix orders slots;
           reason = ''batch: optimal of '' @ nat_str (length slots) @ '' slots across '' @ nat_str (length offers) @ '' providers'';
           ms = fst (foldl (batch_take clk2 orders slots scores reason) ([], []) (solve_assignment scores));
           fs = map (\<lambda>o_ord. \<lparr>mf_order = ord_id o_ord,
                  mf_reason = (if is_expired (clk o_ord) o_ord then ''timeout'' else ''no_capacity''),
                  mf_eligible = 0, mf_available = 0\<rparr>)
                (filter (\<lambda>o_ord. ord_id o_ord \<notin> mr_order ` set ms) orders)
         in (ms, fs))))"

section \<open>Bounds of the score\<close>

text \<open>What an offer built from a registered provider satisfies: finite nonnegative price below
  \<open>2 ^ 100\<close>, a float throughput, a reputation in the unit interval, no negative counts.\<close>

definition sane_offer :: "provider_offer \<Rightarrow> bool" where
  "sane_offer f \<longleftrightarrow> 0 \<le> off_price_out f \<and> off_price_out f \<le> 2 ^ 99 \<and> 0 \<le> off_tps f \<and> rnd (off_tps f) = off_tps f
     \<and> 0 \<le> off_rep f \<and> off_rep f \<le> 1 \<and> 0 \<le> off_used f"

lemma dyadic_exact:
  "\<bar>n\<bar> \<le> 2 ^ 53 \<Longrightarrow> k \<le> 1074 \<Longrightarrow> rnd (of_int n / 2 ^ k) = of_int n / 2 ^ k"
  by (rule rnd_exact) (rule representable_dyadic)

lemma pow2_exact: "k \<le> 971 \<Longrightarrow> rnd (2 ^ k) = 2 ^ k"
proof (rule rnd_exact, unfold representable_def)
  assume "k \<le> 971"
  show "\<exists>m e. (2 :: rat) ^ k = of_int m * 2 powi e \<and> \<bar>m\<bar> \<le> 2 ^ 53 \<and> - 1074 \<le> e"
    by (rule exI [of _ 1], rule exI [of _ "int k"]) simp
qed

lemma rnd_dyadics:
  "rnd (1/2) = 1/2" "rnd (1/4) = 1/4" "rnd (1/8) = 1/8" "rnd (3/32) = 3/32" "rnd (5/8) = 5/8" "rnd (5/32) = 5/32"
  "rnd (3/8) = 3/8" "rnd (9/8) = 9/8" "rnd (5/4) = 5/4" "rnd (45/32) = 45/32" "rnd (25/32) = 25/32"
  "rnd (3/4) = 3/4" "rnd (7/8) = 7/8" "rnd (29/32) = 29/32" "rnd (17/16) = 17/16"
  using dyadic_exact [of 1 1] dyadic_exact [of 1 2] dyadic_exact [of 1 3] dyadic_exact [of 3 5] dyadic_exact [of 5 3]
    dyadic_exact [of 5 5] dyadic_exact [of 3 3] dyadic_exact [of 9 3] dyadic_exact [of 5 2] dyadic_exact [of 45 5]
    dyadic_exact [of 25 5] dyadic_exact [of 3 2] dyadic_exact [of 7 3] dyadic_exact [of 29 5] dyadic_exact [of 17 4]
  by simp_all

lemma lit_bounds:
  "3/32 \<le> rnd (1/10)" "rnd (1/10) \<le> 1/8" "3/32 \<le> rnd (15/100)" "rnd (15/100) \<le> 5/32"
  "3/32 \<le> rnd (2/10)" "rnd (2/10) \<le> 1/4" "3/32 \<le> rnd (25/100)" "rnd (25/100) \<le> 1/4"
  "3/32 \<le> rnd (35/100)" "rnd (35/100) \<le> 3/8" "3/32 \<le> rnd (6/10)" "rnd (6/10) \<le> 5/8"
  "1 \<le> rnd (12/10)" "rnd (12/10) \<le> 5/4"
  by (rule fl.ge_rounded fl.le_rounded fl.ge_1; simp add: rnd_dyadics)+

lemma weights_bounds:
  assumes "weights p = (wp, ws, wt, wl)"
  shows "3/32 \<le> wp" "0 \<le> ws" "0 \<le> wt" "0 \<le> wl" "rnd wp = wp" "rnd ws = ws" "rnd wt = wt" "rnd wl = wl"
    "wp + ws + wt + wl \<le> 9/8"
  using assms lit_bounds
  by (cases p; auto simp: fl.idem; linarith)+

lemma weighted_sum_le:
  assumes "a \<le> A" "b \<le> B" "c \<le> C" "d \<le> D"
    and "rnd (A + B) = A + B" "rnd (A + B + C) = A + B + C" "rnd (A + B + C + D) = A + B + C + D"
  shows "rnd (rnd (rnd (a + b) + c) + d) \<le> A + B + C + D"
proof -
  have "rnd (a + b) \<le> A + B" by (rule fl.le_rounded) (use assms in auto)
  then have "rnd (rnd (a + b) + c) \<le> A + B + C" by (intro fl.le_rounded) (use assms in auto)
  then show ?thesis by (intro fl.le_rounded) (use assms in auto)
qed

lemma unit_scores:
  assumes "sane_offer f"
  shows "1 / 2 ^ 100 \<le> price_score f" "price_score f \<le> 1" "0 \<le> speed_score f" "speed_score f \<le> 1"
    "0 \<le> trust_score f" "trust_score f \<le> 1" "is_available f \<Longrightarrow> 0 \<le> load_score f" "is_available f \<Longrightarrow> load_score f \<le> 1"
proof -
  have p: "0 \<le> off_price_out f" "off_price_out f \<le> 2 ^ 99" and t: "0 \<le> off_tps f" "rnd (off_tps f) = off_tps f"
    and u: "0 \<le> off_used f" using assms by (auto simp: sane_offer_def)
  have lo: "1 \<le> rnd (1 + off_price_out f)" using p by (intro fl.ge_1) simp
  have hi: "rnd (1 + off_price_out f) \<le> 2 ^ 100" using p pow2_exact [of 100] by (intro fl.le_rounded) auto
  have "1 / 2 ^ 100 \<le> 1 / rnd (1 + off_price_out f)" using lo hi by (intro divide_left_mono) auto
  then show "1 / 2 ^ 100 \<le> price_score f"
    unfolding price_score_def using dyadic_exact [of 1 100] by (intro fl.ge_rounded) auto
  show "price_score f \<le> 1" unfolding price_score_def using lo by (intro fl.le_1) (simp add: divide_le_eq_1)
  have s: "off_tps f \<le> rnd (10 + off_tps f)" using t(2) by (intro fl.ge_rounded) auto
  have s0: "10 \<le> rnd (10 + off_tps f)" using t(1) fl.r_exact [OF fl.exact_int [of 10]] by (intro fl.ge_rounded) auto
  show "0 \<le> speed_score f" unfolding speed_score_def using t s0 by (intro fl.nonneg) auto
  show "speed_score f \<le> 1" unfolding speed_score_def using s s0 by (intro fl.le_1) (simp add: divide_le_eq_1)
  have "0 \<le> conf_value c \<and> conf_value c \<le> 3" for c by (cases c) auto
  then have "0 \<le> (of_int (conf_value (off_conf f)) :: rat) \<and> of_int (conf_value (off_conf f)) \<le> (3 :: rat)"
    by (metis of_int_0_le_iff of_int_le_iff of_int_numeral)
  then show "0 \<le> trust_score f" "trust_score f \<le> 1"
    unfolding trust_score_def by (auto intro!: fl.nonneg fl.le_1)
  show "0 \<le> load_score f" "load_score f \<le> 1" if a: "is_available f"
  proof -
    have tot: "off_used f < off_total f" using a by (auto simp: is_available_def available_slots_def)
    have "0 \<le> load_factor f" using u tot by (simp add: load_factor_def int_div_nonneg)
    moreover have "load_factor f \<le> 1"
    proof -
      have "(of_int (off_used f) / of_int (off_total f) :: rat) \<le> 1"
        using u tot by (simp add: divide_le_eq_1)
      then show ?thesis using tot u by (simp add: load_factor_def int_div_def fl.le_1)
    qed
    ultimately show "0 \<le> load_score f" "load_score f \<le> 1"
      unfolding load_score_def by (auto intro!: fl.nonneg fl.le_1)
  qed
qed

lemma rep_factor:
  assumes "sane_offer f" shows "1/2 \<le> rnd (1/2 + rnd (1/2 * off_rep f))" "rnd (1/2 + rnd (1/2 * off_rep f)) \<le> 1"
proof -
  have r: "0 \<le> off_rep f" "off_rep f \<le> 1" using assms by (auto simp: sane_offer_def)
  have lo: "0 \<le> rnd (1/2 * off_rep f)" using r by (intro fl.nonneg) simp
  have hi: "rnd (1/2 * off_rep f) \<le> 1/2" by (rule fl.le_rounded [OF rnd_dyadics(1)]) (use r in simp)
  show "1/2 \<le> rnd (1/2 + rnd (1/2 * off_rep f))" by (rule fl.ge_rounded [OF rnd_dyadics(1)]) (use lo in simp)
  show "rnd (1/2 + rnd (1/2 * off_rep f)) \<le> 1" by (rule fl.le_1) (use hi in simp)
qed

lemma soft_score_bounds:
  assumes f: "sane_offer f" "is_available f"
  shows "1 / 2 ^ 105 \<le> soft_score o_ord f" "soft_score o_ord f \<le> 45/32"
proof -
  obtain wp ws wt wl where w: "weights (ord_pref o_ord) = (wp, ws, wt, wl)" by (metis prod_cases4)
  note wb = weights_bounds [OF w] and us = unit_scores [OF f(1)]
  let ?a = "rnd (wp * price_score f)" and ?b = "rnd (ws * speed_score f)"
    and ?c = "rnd (wt * trust_score f)" and ?d = "rnd (wl * load_score f)"
  let ?s = "rnd (rnd (rnd (?a + ?b) + ?c) + ?d)"
  let ?r = "rnd (1/2 + rnd (1/2 * off_rep f))"
  have le: "?a \<le> wp" "?b \<le> ws" "?c \<le> wt" "?d \<le> wl"
    using fl.mult_unit_le [of wp "price_score f"] fl.mult_unit_le [of ws "speed_score f"]
      fl.mult_unit_le [of wt "trust_score f"] fl.mult_unit_le [of wl "load_score f"] wb us f(2)
    by (simp_all add: mult.commute)
  have hi: "?s \<le> 9/8"
  proof (cases "ord_pref o_ord")
    case CHEAPEST
    then show ?thesis
      using weighted_sum_le [of ?a "5/8" ?b "5/32" ?c "1/8" ?d "5/32"] le w lit_bounds rnd_dyadics by simp
  next
    case FASTEST
    then show ?thesis
      using weighted_sum_le [of ?a "1/8" ?b "5/8" ?c "1/8" ?d "1/4"] le w lit_bounds rnd_dyadics by simp
  next
    case MOST_SECURE
    then show ?thesis
      using weighted_sum_le [of ?a "1/8" ?b "1/8" ?c "5/8" ?d "1/4"] le w lit_bounds rnd_dyadics by simp
  next
    case BALANCED
    then show ?thesis
      using weighted_sum_le [of ?a "3/8" ?b "1/4" ?c "1/4" ?d "1/4"] le w lit_bounds rnd_dyadics by simp
  qed
  have e: "rnd (1 / 2 ^ 104) = 1 / 2 ^ 104" using dyadic_exact [of 1 104] by simp
  have "3/32 * (1 / 2 ^ 100) \<le> wp * price_score f"
    using wb(1) us(1) by (intro mult_mono) auto
  then have a: "1 / 2 ^ 104 \<le> ?a" by (intro fl.ge_rounded [OF e]) simp
  have nn: "0 \<le> ?b" "0 \<le> ?c" "0 \<le> ?d"
    using wb us f(2) by (auto intro!: fl.nonneg mult_nonneg_nonneg)
  then have "1 / 2 ^ 104 \<le> rnd (?a + ?b)" using a by (intro fl.ge_rounded [OF e]) simp
  then have "1 / 2 ^ 104 \<le> rnd (rnd (?a + ?b) + ?c)" using nn by (intro fl.ge_rounded [OF e]) simp
  then have lo: "1 / 2 ^ 104 \<le> ?s" using nn by (intro fl.ge_rounded [OF e]) simp
  note r = rep_factor [OF f(1)]
  have e': "rnd (1 / 2 ^ 105) = 1 / 2 ^ 105" using dyadic_exact [of 1 105] by simp
  have "1 / 2 ^ 104 * (1/2) \<le> ?s * ?r" using lo r(1) by (intro mult_mono) auto
  then have slo: "1 / 2 ^ 105 \<le> rnd (?s * ?r)" by (intro fl.ge_rounded [OF e']) simp
  have "?s * ?r \<le> 9/8 * 1" using hi r by (intro mult_mono) auto
  then have shi: "rnd (?s * ?r) \<le> 9/8" using rnd_dyadics by (intro fl.le_rounded) auto
  have "1 / 2 ^ 105 * 1 \<le> rnd (?s * ?r) * rnd (12/10)"
    using slo lit_bounds(13) by (intro mult_mono) auto
  then have alo: "1 / 2 ^ 105 \<le> rnd (rnd (?s * ?r) * rnd (12/10))" by (intro fl.ge_rounded [OF e']) simp
  have "rnd (?s * ?r) * rnd (12/10) \<le> 9/8 * (5/4)"
    using shi lit_bounds(13,14) by (intro mult_mono) auto
  then have ahi: "rnd (rnd (?s * ?r) * rnd (12/10)) \<le> 45/32" using rnd_dyadics by (intro fl.le_rounded) auto
  show "1 / 2 ^ 105 \<le> soft_score o_ord f" using slo alo by (simp add: soft_score_def w Let_def)
  show "soft_score o_ord f \<le> 45/32" using shi ahi by (simp add: soft_score_def w Let_def)
qed

lemma compute_score_hard: "hard_ok o_ord f \<Longrightarrow> compute_score o_ord f = soft_score o_ord f"
  by (auto simp: hard_ok_def compute_score_def split: option.splits)

lemma compute_score_not_hard: "\<not> hard_ok o_ord f \<Longrightarrow> compute_score o_ord f = - 1"
  by (auto simp: hard_ok_def compute_score_def split: option.splits)

lemma compute_score_pos: "0 < compute_score o_ord f \<Longrightarrow> hard_ok o_ord f"
  using compute_score_not_hard by fastforce

text \<open>The score decides eligibility. For an offer with sane fields the score is positive exactly
  when every hard constraint holds (model, maximum price, minimum confidence, a free slot), it is
  -1 otherwise, and a positive score lies between \<open>2 ^ -105\<close> and 45/32.\<close>

theorem score_decides_eligibility:
  assumes "sane_offer f"
  shows "(0 < compute_score o_ord f \<longleftrightarrow> hard_ok o_ord f) \<and> (\<not> hard_ok o_ord f \<longrightarrow> compute_score o_ord f = - 1)
    \<and> (hard_ok o_ord f \<longrightarrow> 1 / 2 ^ 105 \<le> compute_score o_ord f \<and> compute_score o_ord f \<le> 45/32)"
proof (cases "hard_ok o_ord f")
  case True
  then have a: "is_available f" by (simp add: hard_ok_def)
  note b = soft_score_bounds [OF assms a, of o_ord]
  have "(0 :: rat) < 1 / 2 ^ 105" by simp
  with b(1) have "0 < soft_score o_ord f" by (rule less_le_trans [rotated])
  with True b show ?thesis by (simp add: compute_score_hard)
qed (simp add: compute_score_not_hard)

definition sample_offer :: provider_offer where
  "sample_offer = \<lparr>off_id = ''p1'', off_name = ''n'', off_models = [''m''], off_price_in = 1, off_price_out = 2,
     off_conf = HARDENED, off_tps = 20, off_total = 2, off_used = 0, off_encrypted = True, off_hardware = ''h'',
     off_memory = 16, off_rep = 1\<rparr>"

definition sample_order :: inference_order where
  "sample_order = \<lparr>ord_id = ''o1'', ord_consumer = ''c'', ord_model = ''m'', ord_max_price = Some 3,
     ord_min_conf = HARDENED, ord_pref = BALANCED, ord_min_tps = 0, ord_tokens = 100, ord_submitted = 0,
     ord_timeout = 120, ord_affinity = ''''\<rparr>"

lemma sample_offer_sane: "sane_offer sample_offer"
  using fl.r_exact [OF fl.exact_int [of 20]] by (simp add: sane_offer_def sample_offer_def)

lemma sample_hard_ok: "hard_ok sample_order sample_offer"
  by (simp add: hard_ok_def sample_order_def sample_offer_def is_available_def available_slots_def)

lemma score_decides_eligibility_witness: "0 < compute_score sample_order sample_offer"
  using score_decides_eligibility [OF sample_offer_sane] sample_hard_ok by blast

end
