(* ===== verification/MatchingStrategies.thy ===== *)
theory MatchingStrategies
  imports Matching
begin

text \<open>
  What any matching strategy owes the engine, as the locale \<open>matching_strategy\<close>: every order is
  answered exactly once, every match satisfies the hard constraints at the offer's price, and no
  offer is matched beyond its free slots. The greedy and the batch strategy satisfy it; the
  consequences are proved once.
\<close>

lemma length_filter_keys:
  "length (filter (\<lambda>m. g m \<in> set ks) xs) \<le> sum_list (map (\<lambda>i. length (filter (\<lambda>m. g m = i) xs)) ks)"
proof (induction ks)
  case (Cons a ks)
  have "length (filter (\<lambda>m. g m \<in> set (a # ks)) xs)
      \<le> length (filter (\<lambda>m. g m = a) xs) + length (filter (\<lambda>m. g m \<in> set ks) xs)"
    by (induction xs) auto
  with Cons show ?case by simp
qed simp

locale matching_strategy =
  fixes run :: "inference_order list \<Rightarrow> provider_offer list \<Rightarrow> match_result list \<times> match_failure list"
  assumes answers: "distinct (map ord_id orders) \<Longrightarrow>
      mset (map mr_order (fst (run orders offers))) + mset (map mf_order (snd (run orders offers)))
        = mset (map ord_id orders)"
    and sound: "m \<in> set (fst (run orders offers)) \<Longrightarrow> \<exists>b \<in> set orders. \<exists>f \<in> set offers.
      ord_id b = mr_order m \<and> off_id f = mr_provider m \<and> mr_price m = off_price_out f
      \<and> mr_score m = compute_score b f \<and> 0 < mr_score m"
    and capacity: "distinct (map off_id offers) \<Longrightarrow> f \<in> set offers \<Longrightarrow>
      length (filter (\<lambda>m. mr_provider m = off_id f) (fst (run orders offers))) \<le> nat (available_slots f)"
begin

lemma answered_once:
  assumes "distinct (map ord_id orders)"
  shows "distinct (map mr_order (fst (run orders offers)) @ map mf_order (snd (run orders offers)))"
  using answers [OF assms, of offers] assms by (metis mset_append mset_eq_imp_distinct_iff)

lemma answered_ids:
  assumes "distinct (map ord_id orders)"
  shows "mr_order ` set (fst (run orders offers)) \<union> mf_order ` set (snd (run orders offers)) = ord_id ` set orders"
  using answers [OF assms, of offers, THEN arg_cong, of set_mset] by simp

lemma match_hard:
  assumes "m \<in> set (fst (run orders offers))"
  shows "\<exists>b \<in> set orders. \<exists>f \<in> set offers. ord_id b = mr_order m \<and> off_id f = mr_provider m \<and> hard_ok b f
    \<and> (case ord_max_price b of None \<Rightarrow> True | Some p \<Rightarrow> mr_price m \<le> p)"
proof -
  obtain b f where b: "b \<in> set orders" "f \<in> set offers" "ord_id b = mr_order m" "off_id f = mr_provider m"
    "mr_price m = off_price_out f" "mr_score m = compute_score b f" "0 < mr_score m"
    using sound [OF assms] by blast
  then have h: "hard_ok b f" by (intro compute_score_pos) simp
  then have "case ord_max_price b of None \<Rightarrow> True | Some p \<Rightarrow> mr_price m \<le> p"
    using b(5) by (auto simp: hard_ok_def split: option.splits)
  with b h show ?thesis by blast
qed

lemma matches_count:
  assumes "distinct (map off_id offers)"
  shows "length (fst (run orders offers)) \<le> sum_list (map (\<lambda>f. nat (available_slots f)) offers)"
proof -
  let ?ms = "fst (run orders offers)"
  have "mr_provider ` set ?ms \<subseteq> set (map off_id offers)"
  proof
    fix i assume "i \<in> mr_provider ` set ?ms"
    then obtain m where "m \<in> set ?ms" "i = mr_provider m" by blast
    with sound [OF this(1)] show "i \<in> set (map off_id offers)" by force
  qed
  then have "length ?ms = length (filter (\<lambda>m. mr_provider m \<in> set (map off_id offers)) ?ms)"
    by (simp add: filter_id_conv subset_iff image_subset_iff)
  also have "\<dots> \<le> sum_list (map (\<lambda>i. length (filter (\<lambda>m. mr_provider m = i) ?ms)) (map off_id offers))"
    by (rule length_filter_keys)
  also have "\<dots> \<le> sum_list (map (\<lambda>f. nat (available_slots f)) offers)"
    unfolding map_map comp_def by (rule sum_list_mono) (use capacity [OF assms] in blast)
  finally show ?thesis .
qed

end

section \<open>The greedy strategy\<close>

lemma scan_invariant:
  "let s = scan_offers slots b offers in
     (case sc_best s of
        None \<Rightarrow> sc_score s = - 1 \<and> (\<forall>g \<in> set offers. 0 < dict_get slots (off_id g) 0 \<longrightarrow> compute_score b g < 0)
      | Some f \<Rightarrow> f \<in> set offers \<and> 0 < dict_get slots (off_id f) 0 \<and> sc_score s = compute_score b f \<and> 0 \<le> sc_score s
          \<and> (\<forall>g \<in> set offers. 0 < dict_get slots (off_id g) 0 \<longrightarrow> compute_score b g \<le> sc_score s))
     \<and> sc_eligible s = length (filter (\<lambda>g. 0 < dict_get slots (off_id g) 0 \<and> 0 \<le> compute_score b g) offers)"
proof (induction offers rule: rev_induct)
  case Nil
  show ?case by (simp add: scan_offers_def)
next
  case (snoc g offers)
  have e: "scan_offers slots b (offers @ [g]) = scan_offer slots b (scan_offers slots b offers) g"
    by (simp add: scan_offers_def)
  show ?case
    using snoc unfolding e scan_offer_def Let_def
    by (cases "sc_best (scan_offers slots b offers)"; simp; fastforce)
qed

lemma scan_best:
  assumes "sc_best (scan_offers slots b offers) = Some f"
  shows "f \<in> set offers" "0 < dict_get slots (off_id f) 0" "sc_score (scan_offers slots b offers) = compute_score b f"
    "g \<in> set offers \<Longrightarrow> 0 < dict_get slots (off_id g) 0 \<Longrightarrow> compute_score b g \<le> compute_score b f"
  using scan_invariant [of slots b offers] assms by (auto simp: Let_def)

lemma scan_none:
  assumes "sc_best (scan_offers slots b offers) = None" "g \<in> set offers" "0 < dict_get slots (off_id g) 0"
  shows "compute_score b g < 0"
  using scan_invariant [of slots b offers] assms by (simp add: Let_def)

text \<open>The books of the pass: answered orders, sound matches, and slots used plus slots left.\<close>

definition pass_ok :: "inference_order list \<Rightarrow> provider_offer list \<Rightarrow> match_state \<Rightarrow> bool" where
  "pass_ok seen offers st \<longleftrightarrow> (case st of (ms, fs, slots) \<Rightarrow>
     mset (map mr_order ms) + mset (map mf_order fs) = mset (map ord_id seen)
   \<and> (\<forall>m \<in> set ms. \<exists>b \<in> set seen. \<exists>f \<in> set offers. ord_id b = mr_order m \<and> off_id f = mr_provider m
        \<and> mr_price m = off_price_out f \<and> mr_score m = compute_score b f \<and> 0 < mr_score m)
   \<and> (\<forall>f \<in> set offers. 0 \<le> dict_get slots (off_id f) 0
        \<and> int (length (filter (\<lambda>m. mr_provider m = off_id f) ms)) + dict_get slots (off_id f) 0 = dict_get (initial_slots offers) (off_id f) 0))"

lemma greedy_step_ok:
  assumes "pass_ok seen offers st" shows "pass_ok (seen @ [b]) offers (greedy_step clk clk2 offers st b)"
proof -
  obtain ms fs slots where st: "st = (ms, fs, slots)" by (metis prod_cases3)
  have fail: "pass_ok (seen @ [b]) offers (ms, fs @ [x], slots)" if "mf_order x = ord_id b" for x
    using assms that unfolding pass_ok_def st by (auto; metis)
  show ?thesis
  proof (cases "is_expired (clk b) b")
    case True
    then show ?thesis by (simp add: greedy_step_def st fail)
  next
    case False
    let ?s = "scan_offers slots b offers"
    show ?thesis
    proof (cases "\<exists>f. sc_best ?s = Some f \<and> 0 < sc_score ?s")
      case True
      then obtain f where f: "sc_best ?s = Some f" "0 < sc_score ?s" by blast
      note sb = scan_best [OF f(1)]
      define x where "x = \<lparr>mr_order = ord_id b, mr_provider = off_id f, mr_score = sc_score ?s,
        mr_price = off_price_out f, mr_reason = ''greedy: best of '' @ nat_str (sc_eligible ?s) @ '' eligible'',
        mr_queue_ms = queue_ms (clk2 b) b\<rparr>"
      have g: "greedy_step clk clk2 offers st b
          = (ms @ [x], fs, dict_set (off_id f) (dict_get slots (off_id f) 0 - 1) slots)"
        using False f by (simp add: greedy_step_def st x_def Let_def)
      have "\<exists>b' \<in> set (seen @ [b]). \<exists>f \<in> set offers. ord_id b' = mr_order m \<and> off_id f = mr_provider m
          \<and> mr_price m = off_price_out f \<and> mr_score m = compute_score b' f \<and> 0 < mr_score m" if "m \<in> set (ms @ [x])" for m
      proof (cases "m = x")
        case True
        then show ?thesis using sb(1,3) f(2) by (intro bexI [of _ b] bexI [of _ f]) (simp_all add: x_def)
      next
        case False
        then have "m \<in> set ms" using that by simp
        with assms show ?thesis unfolding pass_ok_def st by auto
      qed
      moreover have "mset (map mr_order (ms @ [x])) + mset (map mf_order fs) = mset (map ord_id (seen @ [b]))"
        using assms by (simp add: pass_ok_def st x_def)
      moreover have "0 \<le> dict_get (dict_set (off_id f) (dict_get slots (off_id f) 0 - 1) slots) (off_id g) 0
          \<and> int (length (filter (\<lambda>m. mr_provider m = off_id g) (ms @ [x])))
            + dict_get (dict_set (off_id f) (dict_get slots (off_id f) 0 - 1) slots) (off_id g) 0
            = dict_get (initial_slots offers) (off_id g) 0" if "g \<in> set offers" for g
      proof -
        have "0 \<le> dict_get slots (off_id g) 0 \<and> int (length (filter (\<lambda>m. mr_provider m = off_id g) ms))
            + dict_get slots (off_id g) 0 = dict_get (initial_slots offers) (off_id g) 0"
          using assms that by (auto simp: pass_ok_def st)
        then show ?thesis using sb(2) by (cases "off_id g = off_id f") (simp_all add: x_def)
      qed
      ultimately show ?thesis unfolding g pass_ok_def by blast
    next
      case no: False
      then show ?thesis
        using False by (auto simp: greedy_step_def st Let_def fail split: option.split)
    qed
  qed
qed

lemma greedy_pass_ok:
  "pass_ok seen offers st \<Longrightarrow> pass_ok (seen @ bs) offers (foldl (greedy_step clk clk2 offers) st bs)"
proof (induction bs arbitrary: seen st)
  case (Cons b bs)
  from Cons.IH [OF greedy_step_ok [OF Cons.prems, of b clk clk2]] show ?case by simp
qed simp

lemma initial_slots_get:
  "dict_get (initial_slots offers) i 0 = (case find (\<lambda>f. off_id f = i) (rev offers) of None \<Rightarrow> 0 | Some f \<Rightarrow> available_slots f)"
proof (induction offers rule: rev_induct)
  case Nil
  show ?case by (simp add: initial_slots_def dict_get_def)
next
  case (snoc f offers)
  have e: "initial_slots (offers @ [f]) = dict_set (off_id f) (available_slots f) (initial_slots offers)"
    by (simp add: initial_slots_def)
  show ?case using snoc unfolding e by (cases "i = off_id f") simp_all
qed

lemma available_slots_nonneg [simp]: "0 \<le> available_slots f"
  by (simp add: available_slots_def)

lemma greedy_result_ok:
  "pass_ok (sort_key ord_submitted orders) offers (foldl (greedy_step clk clk2 offers) ([], [], initial_slots offers) (sort_key ord_submitted orders))"
proof -
  have "pass_ok [] offers ([], [], initial_slots offers)"
    by (simp add: pass_ok_def initial_slots_get split: option.split)
  from greedy_pass_ok [OF this, of "sort_key ord_submitted orders"] show ?thesis by simp
qed

lemma greedy_match_eq:
  assumes "foldl (greedy_step clk clk2 offers) ([], [], initial_slots offers) (sort_key ord_submitted orders) = (ms, fs, slots)"
  shows "greedy_match clk clk2 orders offers = (ms, fs)"
  using assms by (simp add: greedy_match_def)

interpretation greedy: matching_strategy "greedy_match clk clk2" for clk clk2
proof unfold_locales
  fix orders :: "inference_order list" and offers :: "provider_offer list"
  obtain ms fs slots where r: "foldl (greedy_step clk clk2 offers) ([], [], initial_slots offers) (sort_key ord_submitted orders) = (ms, fs, slots)"
    by (metis prod_cases3)
  note ok = greedy_result_ok [of orders offers clk clk2, unfolded r]
  note eq = greedy_match_eq [OF r]
  show "mset (map mr_order (fst (greedy_match clk clk2 orders offers))) + mset (map mf_order (snd (greedy_match clk clk2 orders offers)))
      = mset (map ord_id orders)"
    using ok by (simp add: eq pass_ok_def)
  show "\<exists>b \<in> set orders. \<exists>f \<in> set offers. ord_id b = mr_order m \<and> off_id f = mr_provider m \<and> mr_price m = off_price_out f
      \<and> mr_score m = compute_score b f \<and> 0 < mr_score m" if "m \<in> set (fst (greedy_match clk clk2 orders offers))" for m
    using ok that by (auto simp: eq pass_ok_def)
  show "length (filter (\<lambda>m. mr_provider m = off_id f) (fst (greedy_match clk clk2 orders offers))) \<le> nat (available_slots f)"
    if d: "distinct (map off_id offers)" and f: "f \<in> set offers" for f
  proof -
    have "find (\<lambda>x. off_id x = off_id f) (rev offers) = Some f"
      by (rule find_key_unique) (use d f in \<open>simp_all flip: rev_map\<close>)
    then have i: "dict_get (initial_slots offers) (off_id f) 0 = available_slots f" by (simp add: initial_slots_get)
    have "0 \<le> dict_get slots (off_id f) 0 \<and> int (length (filter (\<lambda>m. mr_provider m = off_id f) ms))
        + dict_get slots (off_id f) 0 = dict_get (initial_slots offers) (off_id f) 0"
      using ok f by (simp add: pass_ok_def)
    then show ?thesis by (simp add: eq i le_nat_iff)
  qed
qed

end
