(* ===== verification/MatchingBatch.thy ===== *)
theory MatchingBatch
  imports MatchingStrategies "HOL-Library.Sublist"
begin

text \<open>
  The batch strategy of \<open>matching/strategy.py\<close> keeps the contract \<open>matching_strategy\<close> of theory
  MatchingStrategies: its assignment uses every order and every slot at most once, and every pair
  it takes has a positive score.
\<close>

lemma pick_slot_invariant:
  "case pick_slot used row of
     (None, s) \<Rightarrow> s = - 1 \<and> (\<forall>j < length row. j \<notin> used \<longrightarrow> row ! j \<le> - 1)
   | (Some j, s) \<Rightarrow> j < length row \<and> j \<notin> used \<and> s = row ! j \<and> - 1 < s \<and> (\<forall>i < length row. i \<notin> used \<longrightarrow> row ! i \<le> s)"
proof (induction row rule: rev_induct)
  case Nil
  show ?case by (simp add: pick_slot_def)
next
  case (snoc x row)
  have e: "pick_slot used (row @ [x]) = (case pick_slot used row of (best, bs) \<Rightarrow>
      if length row \<in> used then (best, bs) else if bs < x then (Some (length row), x) else (best, bs))"
    by (simp add: pick_slot_def enumerate_append_eq split: prod.split)
  show ?case
    using snoc unfolding e
    by (cases "pick_slot used row"; cases "fst (pick_slot used row)") (auto simp: nth_append less_Suc_eq)
qed

text \<open>An assignment: distinct orders, distinct slots, positive scores, indices in range.\<close>

definition assignment_ok :: "flt list list \<Rightarrow> nat \<Rightarrow> (nat \<times> nat) list \<Rightarrow> bool" where
  "assignment_ok scores n acc \<longleftrightarrow> distinct (map fst acc) \<and> distinct (map snd acc)
     \<and> (\<forall>(i, j) \<in> set acc. i < length scores \<and> j < n \<and> 0 < scores ! i ! j)"

lemma assign_step_ok:
  assumes "assignment_ok scores n acc" "\<forall>row \<in> set scores. length row = n" "snd ci < length scores"
    "snd ci \<notin> fst ` set acc"
  shows "assignment_ok scores n (assign_step scores acc ci)"
    "fst ` set (assign_step scores acc ci) \<subseteq> insert (snd ci) (fst ` set acc)"
proof -
  have len: "length (scores ! snd ci) = n" using assms(2,3) by simp
  obtain best s where p: "pick_slot (snd ` set acc) (scores ! snd ci) = (best, s)" by force
  show "assignment_ok scores n (assign_step scores acc ci)"
    using pick_slot_invariant [where used = "snd ` set acc" and row = "scores ! snd ci"] assms len p
    by (cases best) (auto simp: assign_step_def assignment_ok_def)
  show "fst ` set (assign_step scores acc ci) \<subseteq> insert (snd ci) (fst ` set acc)"
    by (cases best) (auto simp: assign_step_def p)
qed

lemma disjoint_insert_sub: "A \<subseteq> insert x B \<Longrightarrow> x \<notin> T \<Longrightarrow> B \<inter> T = {} \<Longrightarrow> A \<inter> T = {}"
  by blast

lemma assign_fold_ok:
  assumes "assignment_ok scores n acc" "\<forall>row \<in> set scores. length row = n"
    "\<forall>ci \<in> set todo. snd ci < length scores" "distinct (map snd todo)" "fst ` set acc \<inter> snd ` set todo = {}"
  shows "assignment_ok scores n (foldl (assign_step scores) acc todo)"
  using assms
proof (induction todo arbitrary: acc)
  case (Cons ci todo)
  note st = assign_step_ok [OF Cons.prems(1,2), of ci]
  have "snd ci < length scores" "snd ci \<notin> fst ` set acc" using Cons.prems by auto
  with st have ok: "assignment_ok scores n (assign_step scores acc ci)"
    and sub: "fst ` set (assign_step scores acc ci) \<subseteq> insert (snd ci) (fst ` set acc)" by blast+
  have "snd ci \<notin> snd ` set todo" "fst ` set acc \<inter> snd ` set todo = {}" using Cons.prems(4,5) by auto
  then have "fst ` set (assign_step scores acc ci) \<inter> snd ` set todo = {}" by (rule disjoint_insert_sub [OF sub])
  with Cons ok show ?case by simp
qed simp

lemma solve_assignment_ok:
  assumes "\<forall>row \<in> set scores. length row = n" shows "assignment_ok scores n (solve_assignment scores)"
  unfolding solve_assignment_def
proof (rule assign_fold_ok [OF _ assms])
  let ?l = "map (\<lambda>i. (length (filter (\<lambda>s. 0 < s) (scores ! i)), i)) [0..<length scores]"
  show "assignment_ok scores n []" by (simp add: assignment_ok_def)
  show "\<forall>ci \<in> set (sort ?l). snd ci < length scores" by auto
  have "image_mset snd (mset (sort ?l)) = image_mset snd (mset ?l)" by (simp only: mset_sort)
  then have "mset (map snd (sort ?l)) = mset (map snd ?l)" by (simp only: mset_map)
  moreover have "map snd ?l = [0..<length scores]" by (simp add: comp_def)
  ultimately show "distinct (map snd (sort ?l))" by (metis distinct_upt mset_eq_imp_distinct_iff)
  show "fst ` set [] \<inter> snd ` set (sort ?l) = {}" by simp
qed

text \<open>What taking an assignment produces.\<close>

definition taken_ok :: "inference_order list \<Rightarrow> provider_offer list \<Rightarrow> flt list list \<Rightarrow> (nat \<times> nat) list \<Rightarrow> match_result list \<Rightarrow> bool" where
  "taken_ok orders slots scores acc ms \<longleftrightarrow> (\<exists>sub. subseq sub acc \<and>
     list_all2 (\<lambda>m (i, j). mr_order m = ord_id (orders ! i) \<and> mr_provider m = off_id (slots ! j)
        \<and> mr_price m = off_price_out (slots ! j) \<and> mr_score m = scores ! i ! j) ms sub)"

lemma batch_take_ok:
  assumes "taken_ok orders slots scores acc ms"
  shows "taken_ok orders slots scores (acc @ [ij]) (fst (batch_take clk2 orders slots scores reason (ms, consumed) ij))"
proof -
  obtain sub where s: "subseq sub acc" "list_all2 (\<lambda>m (i, j). mr_order m = ord_id (orders ! i) \<and> mr_provider m = off_id (slots ! j)
        \<and> mr_price m = off_price_out (slots ! j) \<and> mr_score m = scores ! i ! j) ms sub"
    using assms by (auto simp: taken_ok_def)
  obtain i j where ij: "ij = (i, j)" by force
  show ?thesis
  proof (cases "off_total (slots ! j) < dict_get consumed (off_id (slots ! j)) 0 + 1")
    case True
    then show ?thesis using s by (auto simp: taken_ok_def batch_take_def ij Let_def intro: subseq_rev_drop_many)
  next
    case False
    then show ?thesis using s
      by (auto simp: taken_ok_def batch_take_def ij Let_def list_all2_appendI intro!: exI [of _ "sub @ [(i, j)]"])
  qed
qed

lemma batch_fold_ok:
  "taken_ok orders slots scores acc (fst st) \<Longrightarrow>
   taken_ok orders slots scores (acc @ ijs) (fst (foldl (batch_take clk2 orders slots scores reason) st ijs))"
proof (induction ijs arbitrary: acc st)
  case (Cons ij ijs)
  have "taken_ok orders slots scores (acc @ [ij]) (fst (batch_take clk2 orders slots scores reason st ij))"
    using batch_take_ok [OF Cons.prems, of ij clk2 reason "snd st"] by simp
  from Cons.IH [OF this] show ?case by simp
qed simp

lemma expand_count:
  "distinct (map off_id offers) \<Longrightarrow> f \<in> set offers \<Longrightarrow>
   length (filter (\<lambda>g. off_id g = off_id f) (expand_offers offers)) = nat (available_slots f)"
proof (induction offers)
  case (Cons a offers)
  have none: "filter (\<lambda>g. off_id g = off_id f) (expand_offers offers) = []" if "off_id f \<notin> off_id ` set offers"
  proof -
    have "off_id g \<noteq> off_id f" if "g \<in> set (expand_offers offers)" for g
      using that \<open>off_id f \<notin> off_id ` set offers\<close> by (auto simp: expand_offers_def image_iff; metis)
    then show ?thesis by (simp add: filter_empty_conv)
  qed
  show ?case
  proof (cases "f = a")
    case True
    with Cons none show ?thesis by (simp add: expand_offers_def)
  next
    case False
    with Cons.prems have "off_id a \<noteq> off_id f" by auto
    then have "filter (\<lambda>g. off_id g = off_id f) (replicate k a) = []" for k by simp
    with Cons False show ?thesis by (simp add: expand_offers_def)
  qed
qed simp

lemma set_expand: "f \<in> set (expand_offers offers) \<Longrightarrow> f \<in> set offers"
  by (auto simp: expand_offers_def)

lemma batch_shape:
  assumes ne: "orders \<noteq> []" "offers \<noteq> []" "expand_offers offers \<noteq> []"
  defines "slots \<equiv> expand_offers offers"
  defines "scores \<equiv> score_matrix orders slots"
  obtains ijs where "distinct (map fst ijs)" "distinct (map snd ijs)"
    "\<forall>(i, j) \<in> set ijs. i < length orders \<and> j < length slots \<and> 0 < compute_score (orders ! i) (slots ! j)"
    "list_all2 (\<lambda>m (i, j). mr_order m = ord_id (orders ! i) \<and> mr_provider m = off_id (slots ! j)
        \<and> mr_price m = off_price_out (slots ! j) \<and> mr_score m = compute_score (orders ! i) (slots ! j))
      (fst (batch_match clk clk2 orders offers)) ijs"
proof -
  have rows: "\<forall>row \<in> set scores. length row = length slots" by (auto simp: scores_def score_matrix_def)
  note a = solve_assignment_ok [OF rows]
  define reason where "reason = ''batch: optimal of '' @ nat_str (length slots) @ '' slots across '' @ nat_str (length offers) @ '' providers''"
  have "taken_ok orders slots scores [] []" by (simp add: taken_ok_def)
  from batch_fold_ok [of orders slots scores "[]" "([], [])" "solve_assignment scores" clk2 reason] this
  have t: "taken_ok orders slots scores (solve_assignment scores) (fst (batch_match clk clk2 orders offers))"
    using ne by (simp add: batch_match_def Let_def reason_def flip: slots_def scores_def)
  then obtain ijs where s: "subseq ijs (solve_assignment scores)" and
    l: "list_all2 (\<lambda>m (i, j). mr_order m = ord_id (orders ! i) \<and> mr_provider m = off_id (slots ! j)
        \<and> mr_price m = off_price_out (slots ! j) \<and> mr_score m = scores ! i ! j) (fst (batch_match clk clk2 orders offers)) ijs"
    by (auto simp: taken_ok_def)
  have sub: "set ijs \<subseteq> set (solve_assignment scores)" using s by (auto simp: subseq_conv_nths dest: in_set_nthsD)
  have cell: "scores ! i ! j = compute_score (orders ! i) (slots ! j)" if "i < length orders" "j < length slots" for i j
    using that by (simp add: scores_def score_matrix_def)
  have rng: "\<forall>(i, j) \<in> set ijs. i < length orders \<and> j < length slots \<and> 0 < compute_score (orders ! i) (slots ! j)"
  proof clarify
    fix i j assume "(i, j) \<in> set ijs"
    with sub a have "i < length scores \<and> j < length slots \<and> 0 < scores ! i ! j" by (auto simp: assignment_ok_def)
    moreover have "length scores = length orders" by (simp add: scores_def score_matrix_def)
    ultimately have "i < length orders" "j < length slots" "0 < scores ! i ! j" by simp_all
    then show "i < length orders \<and> j < length slots \<and> 0 < compute_score (orders ! i) (slots ! j)"
      using cell [of i j] by simp
  qed
  show ?thesis
  proof (rule that [of ijs])
    show "distinct (map fst ijs)" "distinct (map snd ijs)"
      using a s by (auto simp: assignment_ok_def subseq_conv_nths simp flip: nths_map intro: distinct_nthsI)
    show "list_all2 (\<lambda>m (i, j). mr_order m = ord_id (orders ! i) \<and> mr_provider m = off_id (slots ! j)
        \<and> mr_price m = off_price_out (slots ! j) \<and> mr_score m = compute_score (orders ! i) (slots ! j))
      (fst (batch_match clk clk2 orders offers)) ijs"
      using l rng cell by (auto simp: list_all2_conv_all_nth split: prod.splits) (metis nth_mem case_prodD)+
  qed (rule rng)
qed

lemma take_failures: "mset (map ord_id orders)
   = mset (map ord_id (filter (\<lambda>b. ord_id b \<in> S) orders)) + mset (map ord_id (filter (\<lambda>b. ord_id b \<notin> S) orders))"
  by (induction orders) auto

lemma batch_failures:
  "mset (map mf_order (snd (batch_match clk clk2 orders offers)))
     = mset (map ord_id (filter (\<lambda>b. ord_id b \<notin> mr_order ` set (fst (batch_match clk clk2 orders offers))) orders))"
proof (cases "orders = [] \<or> offers = []")
  case True
  then show ?thesis by (auto simp: batch_match_def failed_all_def comp_def)
next
  case False
  then show ?thesis by (cases "expand_offers offers = []") (simp_all add: batch_match_def failed_all_def comp_def Let_def)
qed

lemma batch_none:
  "orders = [] \<or> offers = [] \<or> expand_offers offers = [] \<Longrightarrow> fst (batch_match clk clk2 orders offers) = []"
  by (auto simp: batch_match_def Let_def)

interpretation batch: matching_strategy "batch_match clk clk2" for clk clk2
proof unfold_locales
  fix orders :: "inference_order list" and offers :: "provider_offer list"
  let ?ms = "fst (batch_match clk clk2 orders offers)"
  let ?slots = "expand_offers offers"
  obtain ijs where d: "distinct (map fst ijs)" "distinct (map snd ijs)"
    and rng: "\<And>i j. (i, j) \<in> set ijs \<Longrightarrow> i < length orders \<and> j < length ?slots \<and> 0 < compute_score (orders ! i) (?slots ! j)"
    and l: "list_all2 (\<lambda>m (i, j). mr_order m = ord_id (orders ! i) \<and> mr_provider m = off_id (?slots ! j)
        \<and> mr_price m = off_price_out (?slots ! j) \<and> mr_score m = compute_score (orders ! i) (?slots ! j)) ?ms ijs"
  proof (cases "orders = [] \<or> offers = [] \<or> ?slots = []")
    case True
    then show ?thesis by (intro that [of "[]"]) (simp_all add: batch_none)
  next
    case False
    then have "orders \<noteq> []" "offers \<noteq> []" "?slots \<noteq> []" by simp_all
    then show ?thesis
    proof (rule batch_shape [of orders offers clk clk2])
      fix ijs
      assume d: "distinct (map fst ijs)" "distinct (map snd ijs)"
        and r: "\<forall>(i, j) \<in> set ijs. i < length orders \<and> j < length ?slots \<and> 0 < compute_score (orders ! i) (?slots ! j)"
        and l: "list_all2 (\<lambda>m (i, j). mr_order m = ord_id (orders ! i) \<and> mr_provider m = off_id (?slots ! j)
          \<and> mr_price m = off_price_out (?slots ! j) \<and> mr_score m = compute_score (orders ! i) (?slots ! j)) ?ms ijs"
      show ?thesis by (rule that [OF d _ l]) (use r in \<open>simp add: case_prod_unfold\<close>, use r in \<open>blast\<close>)
    qed
  qed
  have ords: "map mr_order ?ms = map (\<lambda>ij. ord_id (orders ! fst ij)) ijs"
    and provs: "map mr_provider ?ms = map (\<lambda>ij. off_id (?slots ! snd ij)) ijs"
    using l by (auto simp: list_all2_conv_all_nth split_beta intro!: nth_equalityI)
  show "mset (map mr_order ?ms) + mset (map mf_order (snd (batch_match clk clk2 orders offers))) = mset (map ord_id orders)"
    if "distinct (map ord_id orders)"
  proof -
    let ?S = "mr_order ` set ?ms"
    have sub: "?S \<subseteq> set (map ord_id orders)"
    proof -
      have "?S = set (map (\<lambda>ij. ord_id (orders ! fst ij)) ijs)" by (metis ords set_map)
      then show ?thesis using rng by force
    qed
    have inj: "inj_on (\<lambda>i. map ord_id orders ! i) (set (map fst ijs))"
    proof (rule inj_onI)
      have len: "i < length (map ord_id orders)" if "i \<in> set (map fst ijs)" for i using that rng by auto
      fix x y assume "x \<in> set (map fst ijs)" "y \<in> set (map fst ijs)" "map ord_id orders ! x = map ord_id orders ! y"
      then show "x = y" using nth_eq_iff_index_eq [OF that len len] by blast
    qed
    have "map mr_order ?ms = map (\<lambda>i. map ord_id orders ! i) (map fst ijs)"
      unfolding ords map_map comp_def by (rule map_cong) (use rng in \<open>auto\<close>)
    then have dm: "distinct (map mr_order ?ms)" using d(1) inj by (simp only: distinct_map simp_thms)
    have df: "distinct (map ord_id (filter (\<lambda>b. ord_id b \<in> ?S) orders))"
      using that by (rule distinct_map_filter)
    have "set (map mr_order ?ms) = set (map ord_id (filter (\<lambda>b. ord_id b \<in> ?S) orders))"
      using sub by (simp add: set_eq_iff image_iff subset_iff) metis
    with dm df have "mset (map mr_order ?ms) = mset (map ord_id (filter (\<lambda>b. ord_id b \<in> ?S) orders))"
      by (simp only: set_eq_iff_mset_eq_distinct)
    then show ?thesis by (subst take_failures [of orders ?S]) (simp only: batch_failures)
  qed
  show "\<exists>b \<in> set orders. \<exists>f \<in> set offers. ord_id b = mr_order m \<and> off_id f = mr_provider m \<and> mr_price m = off_price_out f
      \<and> mr_score m = compute_score b f \<and> 0 < mr_score m" if "m \<in> set ?ms" for m
  proof -
    from that obtain k where k: "k < length ?ms" "?ms ! k = m" unfolding in_set_conv_nth by (elim exE conjE)
    obtain i j where ij: "ijs ! k = (i, j)" by force
    have "k < length ijs" using k(1) list_all2_lengthD [OF l] by simp
    then have "(i, j) \<in> set ijs" using ij nth_mem by metis
    note r = rng [OF this]
    have "mr_order m = ord_id (orders ! i) \<and> mr_provider m = off_id (?slots ! j)
        \<and> mr_price m = off_price_out (?slots ! j) \<and> mr_score m = compute_score (orders ! i) (?slots ! j)"
      using list_all2_nthD [OF l k(1)] ij k(2) by simp
    with r set_expand [of "?slots ! j" offers] show ?thesis
      by (intro bexI [of _ "orders ! i"] bexI [of _ "?slots ! j"]) simp_all
  qed
  show "length (filter (\<lambda>m. mr_provider m = off_id f) ?ms) \<le> nat (available_slots f)"
    if dist: "distinct (map off_id offers)" and f: "f \<in> set offers" for f
  proof -
    let ?is = "map snd (filter (\<lambda>ij. off_id (?slots ! snd ij) = off_id f) ijs)"
    have "length (filter (\<lambda>m. mr_provider m = off_id f) ?ms) = length (filter (\<lambda>i. i = off_id f) (map mr_provider ?ms))"
      by (simp add: filter_map comp_def)
    also have "\<dots> = length ?is" by (simp add: provs filter_map comp_def)
    also have "\<dots> = card (set ?is)" using distinct_map_filter [OF d(2)] by (simp only: distinct_card)
    also have "\<dots> \<le> card {j. j < length ?slots \<and> off_id (?slots ! j) = off_id f}"
      by (rule card_mono) (use rng in \<open>auto\<close>)
    also have "\<dots> = nat (available_slots f)"
      by (simp add: expand_count [OF dist f, symmetric] length_filter_conv_card)
    finally show ?thesis .
  qed
qed

end
