(* ===== verification/MatchingLaws.thy ===== *)
theory MatchingLaws
  imports MatchingBatch
begin

text \<open>
  Properties of the matching engine: what both strategies promise (from the interpretations
  \<open>greedy\<close> and \<open>batch\<close> of the contract \<open>matching_strategy\<close>), how the greedy pass chooses, and what
  the batch assignment is and is not.
\<close>

section \<open>The contract of both strategies\<close>

lemma sample_score: "0 < compute_score sample_order sample_offer"
  using soft_score_bounds(1) [OF sample_offer_sane, of sample_order] sample_hard_ok
  by (simp add: compute_score_hard hard_ok_def zero_less_power less_le_trans)

text \<open>Whatever the clock readings, each strategy answers every submitted order exactly once: the
  matched orders and the failed orders are distinct and together are the orders submitted.\<close>

theorem orders_answered_once:
  assumes "distinct (map ord_id orders)"
  shows "distinct (map mr_order (fst (greedy_match clk clk2 orders offers)) @ map mf_order (snd (greedy_match clk clk2 orders offers)))
    \<and> mr_order ` set (fst (greedy_match clk clk2 orders offers)) \<union> mf_order ` set (snd (greedy_match clk clk2 orders offers)) = ord_id ` set orders
    \<and> distinct (map mr_order (fst (batch_match clk clk2 orders offers)) @ map mf_order (snd (batch_match clk clk2 orders offers)))
    \<and> mr_order ` set (fst (batch_match clk clk2 orders offers)) \<union> mf_order ` set (snd (batch_match clk clk2 orders offers)) = ord_id ` set orders"
  using greedy.answered_once [OF assms] greedy.answered_ids [OF assms]
    batch.answered_once [OF assms] batch.answered_ids [OF assms] by simp

lemma orders_answered_once_witness:
  "distinct (map mr_order (fst (greedy_match (\<lambda>_. 0) (\<lambda>_. 0) [sample_order] [sample_offer]))
     @ map mf_order (snd (greedy_match (\<lambda>_. 0) (\<lambda>_. 0) [sample_order] [sample_offer])))"
  using orders_answered_once [of "[sample_order]" "\<lambda>_. 0" "\<lambda>_. 0" "[sample_offer]"] by simp

text \<open>Whatever the clock readings, a match of either strategy joins a submitted order to an offered
  provider that serves its model, meets its minimum confidence, has a free slot and asks at most the
  consumer's maximum price, and the match is made at the provider's own output price.\<close>

theorem matches_are_sound:
  assumes "m \<in> set (fst (greedy_match clk clk2 orders offers)) \<or> m \<in> set (fst (batch_match clk clk2 orders offers))"
  shows "\<exists>b \<in> set orders. \<exists>f \<in> set offers. ord_id b = mr_order m \<and> off_id f = mr_provider m \<and> hard_ok b f
    \<and> mr_price m = off_price_out f \<and> mr_score m = compute_score b f \<and> 0 < mr_score m"
proof -
  have "\<exists>b \<in> set orders. \<exists>f \<in> set offers. ord_id b = mr_order m \<and> off_id f = mr_provider m
      \<and> mr_price m = off_price_out f \<and> mr_score m = compute_score b f \<and> 0 < mr_score m"
    using assms by (elim disjE) (erule greedy.sound, erule batch.sound)
  then show ?thesis using compute_score_pos by metis
qed

lemma matches_are_sound_witness:
  "\<exists>m :: match_result. mr_provider m = off_id sample_offer \<and> hard_ok sample_order sample_offer"
proof -
  have live: "\<not> is_expired 0 sample_order" by (simp add: is_expired_def sample_order_def)
  let ?r = "fst (greedy_match (\<lambda>_. 0) (\<lambda>_. 0) [sample_order] [sample_offer])"
  have "0 < compute_score sample_order sample_offer" by (rule sample_score)
  then have "?r \<noteq> []"
    using live by (simp add: greedy_match_def greedy_step_def initial_slots_def scan_offers_def scan_offer_def
        dict_get_def available_slots_def Let_def) (simp add: sample_offer_def)
  then have "hd ?r \<in> set ?r" by simp
  with matches_are_sound [of "hd ?r" "\<lambda>_. 0" "\<lambda>_. 0" "[sample_order]" "[sample_offer]"]
  have "mr_provider (hd ?r) = off_id sample_offer \<and> hard_ok sample_order sample_offer" by simp
  then show ?thesis by (rule exI)
qed

text \<open>Neither strategy oversells: an offer is matched at most as often as it has free slots, and a
  round makes at most as many matches as all offers together have free slots.\<close>

theorem capacity_respected:
  assumes "distinct (map off_id offers)"
  shows "(f \<in> set offers \<longrightarrow> length (filter (\<lambda>m. mr_provider m = off_id f) (fst (greedy_match clk clk2 orders offers))) \<le> nat (available_slots f)
      \<and> length (filter (\<lambda>m. mr_provider m = off_id f) (fst (batch_match clk clk2 orders offers))) \<le> nat (available_slots f))
    \<and> length (fst (greedy_match clk clk2 orders offers)) \<le> sum_list (map (\<lambda>g. nat (available_slots g)) offers)
    \<and> length (fst (batch_match clk clk2 orders offers)) \<le> sum_list (map (\<lambda>g. nat (available_slots g)) offers)"
  using greedy.capacity [OF assms] batch.capacity [OF assms] greedy.matches_count [OF assms] batch.matches_count [OF assms]
  by blast

lemma capacity_respected_witness:
  "length (fst (batch_match (\<lambda>_. 0) (\<lambda>_. 0) (replicate 5 sample_order) [sample_offer])) \<le> 2"
  using capacity_respected [of "[sample_offer]" sample_offer "\<lambda>_. 0" "\<lambda>_. 0" "replicate 5 sample_order"]
  by (simp add: available_slots_def sample_offer_def)

section \<open>The choice of the greedy pass\<close>

lemma greedy_step_extends:
  "\<exists>ms' fs'. fst (greedy_step clk clk2 offers st b) = fst st @ ms' \<and> fst (snd (greedy_step clk clk2 offers st b)) = fst (snd st) @ fs'"
  by (cases st) (auto simp: greedy_step_def Let_def split: option.split)

lemma greedy_fold_extends:
  "\<exists>ms' fs'. fst (foldl (greedy_step clk clk2 offers) st bs) = fst st @ ms'
     \<and> fst (snd (foldl (greedy_step clk clk2 offers) st bs)) = fst (snd st) @ fs'"
proof (induction bs arbitrary: st)
  case (Cons b bs)
  from Cons [of "greedy_step clk clk2 offers st b"] greedy_step_extends [of clk clk2 offers st b]
  show ?case by (auto; metis append_assoc)
qed simp

lemma greedy_match_fold:
  "greedy_match clk clk2 orders offers
     = (let st = foldl (greedy_step clk clk2 offers) ([], [], initial_slots offers) (sort_key ord_submitted orders) in (fst st, fst (snd st)))"
  by (simp add: greedy_match_def Let_def split: prod.split)

text \<open>The slots of an offer taken by a greedy round on the orders \<open>pre\<close>.\<close>

definition greedy_taken ::
  "(inference_order \<Rightarrow> flt) \<Rightarrow> (inference_order \<Rightarrow> flt) \<Rightarrow> inference_order list \<Rightarrow> provider_offer list \<Rightarrow> provider_offer \<Rightarrow> int" where
  "greedy_taken clk clk2 pre offers f =
     int (length (filter (\<lambda>m. mr_provider m = off_id f) (fst (greedy_match clk clk2 pre offers))))"

lemma slots_left:
  assumes "distinct (map off_id offers)" "f \<in> set offers" "sort_key ord_submitted pre = pre"
    "foldl (greedy_step clk clk2 offers) ([], [], initial_slots offers) pre = (ms, fs, slots)"
  shows "dict_get slots (off_id f) 0 = available_slots f - greedy_taken clk clk2 pre offers f"
proof -
  have "find (\<lambda>x. off_id x = off_id f) (rev offers) = Some f"
    by (rule find_key_unique) (use assms(1,2) in \<open>simp_all flip: rev_map\<close>)
  then have i: "dict_get (initial_slots offers) (off_id f) 0 = available_slots f" by (simp add: initial_slots_get)
  have "pass_ok pre offers (ms, fs, slots)"
    using greedy_result_ok [of pre offers clk clk2] by (simp add: assms(3,4))
  then have "int (length (filter (\<lambda>m. mr_provider m = off_id f) ms)) + dict_get slots (off_id f) 0 = available_slots f"
    using assms(2) i by (simp add: pass_ok_def)
  moreover have "fst (greedy_match clk clk2 pre offers) = ms" by (simp add: greedy_match_fold assms(3,4) Let_def)
  ultimately show ?thesis by (simp add: greedy_taken_def)
qed

text \<open>The greedy strategy serves orders in order of arrival and each gets the best it can: an order
  that is still live when its turn comes is matched to an offer of the highest score among those
  with a slot left after all earlier orders, or fails and then no such offer scores above 0.\<close>

theorem greedy_best_choice:
  assumes "distinct (map off_id offers)" "sort_key ord_submitted orders = pre @ b # post" "\<not> is_expired (clk b) b"
  shows "(\<exists>m \<in> set (fst (greedy_match clk clk2 orders offers)). mr_order m = ord_id b \<and> (\<exists>f \<in> set offers. mr_provider m = off_id f
        \<and> greedy_taken clk clk2 pre offers f < available_slots f
        \<and> (\<forall>g \<in> set offers. greedy_taken clk clk2 pre offers g < available_slots g \<longrightarrow> compute_score b g \<le> compute_score b f)))
    \<or> (\<exists>x \<in> set (snd (greedy_match clk clk2 orders offers)). mf_order x = ord_id b
        \<and> (\<forall>g \<in> set offers. greedy_taken clk clk2 pre offers g < available_slots g \<longrightarrow> compute_score b g \<le> 0))"
proof -
  obtain ms fs slots where p: "foldl (greedy_step clk clk2 offers) ([], [], initial_slots offers) pre = (ms, fs, slots)"
    by (metis prod_cases3)
  have "sorted (map ord_submitted pre)"
    using sorted_sort_key [of ord_submitted orders] unfolding assms(2) by (simp add: sorted_append)
  then have sp: "sort_key ord_submitted pre = pre" by (rule sort_key_id_if_sorted)
  have left: "0 < dict_get slots (off_id g) 0 \<longleftrightarrow> greedy_taken clk clk2 pre offers g < available_slots g" if "g \<in> set offers" for g
    using slots_left [OF assms(1) that sp p] by simp
  let ?st = "greedy_step clk clk2 offers (ms, fs, slots) b"
  let ?s = "scan_offers slots b offers"
  obtain ms' fs' where ext: "fst (greedy_match clk clk2 orders offers) = fst ?st @ ms'" "snd (greedy_match clk clk2 orders offers) = fst (snd ?st) @ fs'"
    using greedy_fold_extends [of clk clk2 offers ?st post] by (auto simp: greedy_match_fold assms(2) p Let_def)
  show ?thesis
  proof (cases "\<exists>f. sc_best ?s = Some f \<and> 0 < sc_score ?s")
    case True
    then obtain f where f: "sc_best ?s = Some f" "0 < sc_score ?s" by blast
    note sb = scan_best [OF f(1)]
    have "\<exists>m \<in> set (fst ?st). mr_order m = ord_id b \<and> mr_provider m = off_id f"
      using f assms(3) by (simp add: greedy_step_def Let_def)
    then obtain m where m: "m \<in> set (fst ?st)" "mr_order m = ord_id b" "mr_provider m = off_id f" by blast
    have "\<forall>g \<in> set offers. greedy_taken clk clk2 pre offers g < available_slots g \<longrightarrow> compute_score b g \<le> compute_score b f"
      using sb(4) left by simp
    with m sb(1,2) left have "\<exists>m \<in> set (fst ?st). mr_order m = ord_id b \<and> (\<exists>f \<in> set offers. mr_provider m = off_id f
        \<and> greedy_taken clk clk2 pre offers f < available_slots f
        \<and> (\<forall>g \<in> set offers. greedy_taken clk clk2 pre offers g < available_slots g \<longrightarrow> compute_score b g \<le> compute_score b f))"
      by blast
    then show ?thesis unfolding ext set_append by blast
  next
    case False
    have "\<exists>x \<in> set (fst (snd ?st)). mf_order x = ord_id b"
      using False assms(3) by (auto simp: greedy_step_def Let_def split: option.split)
    moreover have "compute_score b g \<le> 0" if "g \<in> set offers" "0 < dict_get slots (off_id g) 0" for g
    proof (cases "sc_best ?s")
      case None
      from scan_none [OF None that] show ?thesis by simp
    next
      case (Some f)
      with False have "compute_score b f \<le> 0" using scan_best(3) [OF Some] by simp
      then show ?thesis using scan_best(4) [OF Some that] by simp
    qed
    ultimately show ?thesis using left unfolding ext by auto
  qed
qed

lemma greedy_best_choice_witness:
  "\<exists>m \<in> set (fst (greedy_match (\<lambda>_. 0) (\<lambda>_. 0) [sample_order] [sample_offer])). mr_order m = ord_id sample_order"
proof -
  have live: "\<not> is_expired 0 sample_order" by (simp add: is_expired_def sample_order_def)
  note pos = sample_score
  have "greedy_taken (\<lambda>_. 0) (\<lambda>_. 0) [] [sample_offer] sample_offer < available_slots sample_offer"
    by (simp add: greedy_taken_def greedy_match_def available_slots_def sample_offer_def)
  with pos greedy_best_choice [of "[sample_offer]" "[sample_order]" "[]" sample_order "[]" "\<lambda>_. 0" "\<lambda>_. 0"] live
  show ?thesis by auto
qed

lemma sane_score: "sane_offer f \<Longrightarrow> 0 \<le> compute_score b f \<Longrightarrow> 0 < compute_score b f"
  by (cases "hard_ok b f") (auto simp: compute_score_not_hard compute_score_hard hard_ok_def
      intro: less_le_trans [OF _ soft_score_bounds(1)])

lemma greedy_step_reasons:
  assumes "\<forall>f \<in> set offers. sane_offer f" "\<forall>x \<in> set (fst (snd st)). mf_reason x = ''timeout'' \<or> mf_reason x = ''no_provider''"
  shows "\<forall>x \<in> set (fst (snd (greedy_step clk clk2 offers st b))). mf_reason x = ''timeout'' \<or> mf_reason x = ''no_provider''"
proof -
  obtain ms fs slots where st: "st = (ms, fs, slots)" by (metis prod_cases3)
  let ?s = "scan_offers slots b offers"
  have none: "sc_eligible ?s = 0" if "sc_best ?s = None"
    using scan_invariant [of slots b offers] that by (auto simp: Let_def not_le filter_empty_conv)
  have some: "0 < sc_score ?s" if "sc_best ?s = Some f" for f
    using scan_invariant [of slots b offers] that assms(1) sane_score [of f b] by (simp add: Let_def)
  show ?thesis using assms(2) none some by (auto simp: greedy_step_def st Let_def split: option.split)
qed

text \<open>With offers of sane fields the greedy strategy gives up an order only as expired or for want
  of a provider: it never reports \<open>no_capacity\<close>, although earlier orders may have filled every
  provider that could have served the order.\<close>

theorem greedy_never_reports_capacity:
  assumes "\<forall>f \<in> set offers. sane_offer f" "x \<in> set (snd (greedy_match clk clk2 orders offers))"
  shows "mf_reason x = ''timeout'' \<or> mf_reason x = ''no_provider''"
proof -
  have "\<forall>x \<in> set (fst (snd (foldl (greedy_step clk clk2 offers) st bs))). mf_reason x = ''timeout'' \<or> mf_reason x = ''no_provider''"
    if "\<forall>x \<in> set (fst (snd st)). mf_reason x = ''timeout'' \<or> mf_reason x = ''no_provider''" for st bs
    using that
  proof (induction bs arbitrary: st)
    case (Cons b bs)
    from Cons.IH [OF greedy_step_reasons [OF assms(1) Cons.prems]] show ?case by simp
  qed simp
  from this [of "([], [], initial_slots offers)"] assms(2) show ?thesis by (simp add: greedy_match_fold Let_def)
qed

lemma greedy_never_reports_capacity_witness:
  "mf_reason (hd (snd (greedy_match (\<lambda>_. 0) (\<lambda>_. 0) [sample_order] [sample_offer\<lparr>off_used := 2\<rparr>]))) = ''no_provider''"
proof -
  let ?f = "sample_offer\<lparr>off_used := 2\<rparr>"
  have s: "\<forall>f \<in> set [?f]. sane_offer f" using sample_offer_sane by (simp add: sane_offer_def)
  have e: "snd (greedy_match (\<lambda>_. 0) (\<lambda>_. 0) [sample_order] [?f])
      = [\<lparr>mf_order = ''o1'', mf_reason = ''no_provider'', mf_eligible = 0, mf_available = 0\<rparr>]"
    by (simp add: greedy_match_def greedy_step_def initial_slots_def scan_offers_def scan_offer_def available_slots_def
        sample_offer_def sample_order_def is_expired_def Let_def dict_get_def)
  show ?thesis
    using greedy_never_reports_capacity [OF s, of "hd (snd (greedy_match (\<lambda>_. 0) (\<lambda>_. 0) [sample_order] [?f]))"
        "\<lambda>_. 0" "\<lambda>_. 0" "[sample_order]"] by (simp add: e)
qed

section \<open>The batch assignment\<close>

definition positive_used :: "flt list list \<Rightarrow> nat \<Rightarrow> (nat \<times> nat) list \<Rightarrow> nat \<Rightarrow> bool" where
  "positive_used scores n acc i \<longleftrightarrow> i \<in> fst ` set acc \<or> (\<forall>j < n. 0 < scores ! i ! j \<longrightarrow> j \<in> snd ` set acc)"

lemma assign_step_mono: "set acc \<subseteq> set (assign_step scores acc ci)"
  by (cases "pick_slot (snd ` set acc) (scores ! snd ci)"; cases "fst (pick_slot (snd ` set acc) (scores ! snd ci))")
    (auto simp: assign_step_def)

lemma assign_step_serves:
  assumes "length (scores ! snd ci) = n" shows "positive_used scores n (assign_step scores acc ci) (snd ci)"
proof -
  obtain best s where p: "pick_slot (snd ` set acc) (scores ! snd ci) = (best, s)" by force
  show ?thesis
    using pick_slot_invariant [where used = "snd ` set acc" and row = "scores ! snd ci"] assms p
    by (cases best) (force simp: assign_step_def positive_used_def)+
qed

lemma positive_used_mono: "positive_used scores n acc i \<Longrightarrow> set acc \<subseteq> set acc' \<Longrightarrow> positive_used scores n acc' i"
  unfolding positive_used_def by (metis image_mono subsetD)

lemma assign_fold_serves:
  assumes "\<forall>ci \<in> set todo. length (scores ! snd ci) = n"
  shows "(\<forall>ci \<in> set todo. positive_used scores n (foldl (assign_step scores) acc todo) (snd ci))
    \<and> set acc \<subseteq> set (foldl (assign_step scores) acc todo)"
  using assms
proof (induction todo arbitrary: acc)
  case (Cons ci todo)
  have IH: "(\<forall>x \<in> set todo. positive_used scores n (foldl (assign_step scores) (assign_step scores acc ci) todo) (snd x))
    \<and> set (assign_step scores acc ci) \<subseteq> set (foldl (assign_step scores) (assign_step scores acc ci) todo)"
    by (rule Cons.IH) (use Cons.prems in simp)
  moreover have "positive_used scores n (assign_step scores acc ci) (snd ci)"
    by (rule assign_step_serves) (use Cons.prems in simp)
  moreover have "positive_used scores n (foldl (assign_step scores) (assign_step scores acc ci) todo) (snd ci)"
    using calculation positive_used_mono by blast
  ultimately show ?case using assign_step_mono [of acc scores ci] by auto
qed simp

text \<open>The batch assignment is a maximal matching: it uses each order and each slot at most once, pairs
  them only at a positive score, and an order it leaves out could only be served by slots that are
  all taken.\<close>

theorem batch_assignment_maximal:
  assumes "\<forall>row \<in> set scores. length row = n"
  shows "distinct (map fst (solve_assignment scores)) \<and> distinct (map snd (solve_assignment scores))
    \<and> (\<forall>(i, j) \<in> set (solve_assignment scores). i < length scores \<and> j < n \<and> 0 < scores ! i ! j)
    \<and> (\<forall>i < length scores. i \<notin> fst ` set (solve_assignment scores) \<longrightarrow>
        (\<forall>j < n. 0 < scores ! i ! j \<longrightarrow> j \<in> snd ` set (solve_assignment scores)))"
proof -
  let ?l = "sort (map (\<lambda>i. (length (filter (\<lambda>s. 0 < s) (scores ! i)), i)) [0..<length scores])"
  have "\<forall>ci \<in> set ?l. length (scores ! snd ci) = n" using assms by auto
  from assign_fold_serves [OF this, of "[]", THEN conjunct1]
  have "\<forall>ci \<in> set ?l. positive_used scores n (solve_assignment scores) (snd ci)" unfolding solve_assignment_def .
  then have "\<forall>i < length scores. positive_used scores n (solve_assignment scores) i" by auto
  then show ?thesis using solve_assignment_ok [OF assms] unfolding assignment_ok_def positive_used_def by blast
qed

lemma batch_assignment_maximal_witness:
  "distinct (map snd (solve_assignment [[1, 2], [2, 1], [3, 3]]))"
  using batch_assignment_maximal [of "[[1, 2], [2, 1], [3, 3]]" 2] by simp

definition assignment_total :: "flt list list \<Rightarrow> (nat \<times> nat) list \<Rightarrow> flt" where
  "assignment_total scores acc = sum_list (map (\<lambda>(i, j). scores ! i ! j) acc)"

text \<open>The batch assignment is not always the one of maximal total score, which the strategy's
  description and its match reason call optimal: with two orders and two slots it reaches 4 where
  giving each order the other slot reaches 7.\<close>

theorem batch_not_optimal:
  "solve_assignment [[3, 2], [5, 1]] = [(0, 0), (1, 1)]
    \<and> assignment_total [[3, 2], [5, 1]] (solve_assignment [[3, 2], [5, 1]]) = 4
    \<and> assignment_total [[3, 2], [5, 1]] [(0, 1), (1, 0)] = 7"
proof -
  have "solve_assignment [[3, 2], [5, 1]] = [(0, 0), (1, 1)]"
    by (simp add: solve_assignment_def assign_step_def pick_slot_def upt_rec numeral_2_eq_2 enumerate_simps)
  then show ?thesis by (simp add: assignment_total_def)
qed

end
