(* ===== verification/Protocol.thy ===== *)
theory Protocol
  imports Json Matching
begin

text \<open>
  \<open>shared/protocol.py\<close>: the wire messages the coordinator exchanges with a provider, as records
  with the source's fields. The constant \<open>type\<close> field of a message is its constructor here, and the
  pydantic validators that build a message from a JSON object are collected in \<open>validators\<close>, a
  parameter of the handlers that parse messages.
\<close>

datatype message_type = REGISTER | HEARTBEAT | INFERENCE_RESPONSE | INFERENCE_DONE | INFERENCE_ERROR
  | ATTESTATION_RESPONSE | REGISTERED | INFERENCE_REQUEST | CANCEL_REQUEST | ATTESTATION_CHALLENGE | ADMISSION_RESULT

fun type_value :: "message_type \<Rightarrow> string" where
  "type_value REGISTER = ''register''"
| "type_value HEARTBEAT = ''heartbeat''"
| "type_value INFERENCE_RESPONSE = ''inference_response''"
| "type_value INFERENCE_DONE = ''inference_done''"
| "type_value INFERENCE_ERROR = ''inference_error''"
| "type_value ATTESTATION_RESPONSE = ''attestation_response''"
| "type_value REGISTERED = ''registered''"
| "type_value INFERENCE_REQUEST = ''inference_request''"
| "type_value CANCEL_REQUEST = ''cancel_request''"
| "type_value ATTESTATION_CHALLENGE = ''attestation_challenge''"
| "type_value ADMISSION_RESULT = ''admission_result''"

datatype trust_level = T_OPEN | T_CONTAINED | T_HARDENED | T_CONFIDENTIAL

fun trust_value :: "trust_level \<Rightarrow> string" where
  "trust_value T_OPEN = ''open''"
| "trust_value T_CONTAINED = ''contained''"
| "trust_value T_HARDENED = ''hardened''"
| "trust_value T_CONFIDENTIAL = ''confidential''"

lemma type_value_inject [simp]: "type_value a = type_value b \<longleftrightarrow> a = b"
  by (cases a; cases b) simp_all

lemma trust_value_inject [simp]: "trust_value a = trust_value b \<longleftrightarrow> a = b"
  by (cases a; cases b) simp_all

record model_capabilities =
  mc_context_length :: int
  mc_vision :: bool
  mc_tools :: bool
  mc_architecture :: string
  mc_model_type :: string
  mc_repo_id :: string
  mc_format :: string

record provider_capabilities =
  pc_models :: "string list"
  pc_max_concurrent :: int
  pc_trust :: trust_level
  pc_hardware :: string
  pc_memory :: flt
  pc_tps :: flt
  pc_price_in :: flt
  pc_price_out :: flt
  pc_price_cache :: flt
  pc_context_length :: int
  pc_tools :: bool
  pc_vision :: bool
  pc_repo_id :: string
  pc_format :: string

record register_message =
  reg_version :: string
  reg_name :: string
  reg_caps :: provider_capabilities
  reg_enc_key :: string
  reg_identity :: "trace option"
  reg_attest_key :: string
  reg_attest_app :: string
  reg_attest_env :: string
  reg_artifact :: string
  reg_identity_key :: string

record heartbeat_message =
  hb_active :: int
  hb_models :: "string list"
  hb_memory :: flt
  hb_cpu :: flt

record response_chunk =
  rc_request :: string
  rc_token :: string
  rc_encrypted :: "trace option"
  rc_finish :: "string option"

record inference_done =
  dn_request :: string
  dn_tokens :: int
  dn_input :: int
  dn_cached :: int
  dn_seconds :: flt
  dn_served :: "string option"

record inference_error =
  er_request :: string
  er_error :: string

record inference_request =
  ir_request :: string
  ir_model :: string
  ir_messages :: "trace list option"
  ir_encrypted :: "trace option"
  ir_max_tokens :: int
  ir_temperature :: flt
  ir_stream :: bool

record attestation_challenge =
  ac_nonce :: string
  ac_timestamp :: flt
  ac_purpose :: string
  ac_profile :: string

record attestation_response =
  ar_nonce :: string
  ar_key_id :: string
  ar_app_id :: string
  ar_environment :: string
  ar_object :: string
  ar_assertion :: string
  ar_client_data :: string
  ar_sip :: bool
  ar_secure_boot :: bool
  ar_hardware :: bool
  ar_os :: string
  ar_agent_hash :: string
  ar_server_hash :: string
  ar_hardened :: bool
  ar_deny_attach :: bool
  ar_platform :: string
  ar_enc_key :: string
  ar_artifact :: string
  ar_identity_key :: string
  ar_version :: string

text \<open>What a response queue carries.\<close>

datatype queue_message = Chunk response_chunk | Done inference_done | Failed inference_error

text \<open>The pydantic constructors \<open>Model(**data)\<close>; \<open>None\<close> is a \<open>ValidationError\<close>.\<close>

record validators =
  v_chunk :: "trace \<Rightarrow> response_chunk option"
  v_done :: "trace \<Rightarrow> inference_done option"
  v_error :: "trace \<Rightarrow> inference_error option"
  v_attestation :: "trace \<Rightarrow> attestation_response option"
  v_heartbeat :: "trace \<Rightarrow> heartbeat_message option"

text \<open>What the code relies on: the fields a validated message shares with its JSON object.\<close>

definition validators_ok :: "validators \<Rightarrow> bool" where
  "validators_ok v \<longleftrightarrow>
     (\<forall>d m. v_done v d = Some m \<longrightarrow> map_of d ''request_id'' = Some (JStr (dn_request m)))
   \<and> (\<forall>d m. v_chunk v d = Some m \<longrightarrow> map_of d ''request_id'' = Some (JStr (rc_request m)))
   \<and> (\<forall>d m. v_error v d = Some m \<longrightarrow> map_of d ''request_id'' = Some (JStr (er_request m)))"

section \<open>A sample registration\<close>

definition sample_caps :: provider_capabilities where
  "sample_caps = \<lparr>pc_models = [''m''], pc_max_concurrent = 2, pc_trust = T_OPEN, pc_hardware = ''h'', pc_memory = 16,
     pc_tps = 20, pc_price_in = 1, pc_price_out = 2, pc_price_cache = 0, pc_context_length = 0, pc_tools = False,
     pc_vision = False, pc_repo_id = '''', pc_format = ''gguf''\<rparr>"

definition sample_registration :: register_message where
  "sample_registration = \<lparr>reg_version = ''0.1.0'', reg_name = ''n'', reg_caps = sample_caps, reg_enc_key = '''',
     reg_identity = None, reg_attest_key = '''', reg_attest_app = '''', reg_attest_env = ''production'',
     reg_artifact = '''', reg_identity_key = ''''\<rparr>"

end
