(* ===== verification/HubState.thy ===== *)
theory HubState
  imports Protocol
begin

text \<open>
  \<open>coordinator/provider_hub.py\<close>, the connections: \<open>ConnectedProvider\<close>, the state of \<open>ProviderHub\<close>,
  registration, disconnection, quarantine, heartbeats and the attestation challenge. What a method
  does outside the hub (a WebSocket send or close, the store's outcome row, a billing callback, an
  \<open>asyncio.Event\<close>) is a value of \<open>hub_effect\<close>, returned in the order the code does it; a socket is
  named by the provider's routing id. Clock reads and random tokens are arguments. Log lines are
  left out. The type \<open>'cb\<close> stands for billing callbacks.
\<close>

section \<open>Connected providers\<close>

record connected_provider =
  cp_id :: string
  cp_name :: string
  cp_caps :: provider_capabilities
  cp_enc_key :: string
  cp_connected_at :: flt
  cp_active :: int
  cp_last_heartbeat :: flt
  cp_model_verified :: bool
  cp_model_identity :: trace
  cp_model_caps :: model_capabilities
  cp_att_status :: string
  cp_attest_verified :: bool
  cp_admission_expires :: flt
  cp_attest_key :: string
  cp_artifact :: string
  cp_last_attestation :: flt
  cp_nonce :: "string option"
  cp_challenge_sent :: flt
  cp_token :: string
  cp_billing :: string
  cp_session :: string
  cp_country :: "string option"
  cp_quarantined :: bool
  cp_quarantine_reason :: string

definition trust_claim :: "connected_provider \<Rightarrow> string" where
  "trust_claim p = trust_value (pc_trust (cp_caps p))"

definition requires_app_attest :: "connected_provider \<Rightarrow> bool" where
  "requires_app_attest p = (trust_claim p = ''confidential'')"

definition admitted :: "flt \<Rightarrow> connected_provider \<Rightarrow> bool" where
  "admitted now p = (if requires_app_attest p then cp_attest_verified p \<and> now < cp_admission_expires p else True)"

definition verified_trust_level :: "flt \<Rightarrow> connected_provider \<Rightarrow> string option" where
  "verified_trust_level now p = (if requires_app_attest p \<and> admitted now p then Some (trust_claim p) else None)"

definition cp_load_factor :: "connected_provider \<Rightarrow> flt" where
  "cp_load_factor p = (if pc_max_concurrent (cp_caps p) = 0 then 1 else int_div (cp_active p) (pc_max_concurrent (cp_caps p)))"

section \<open>The hub\<close>

record pending_request =
  pn_request :: string
  pn_infer :: inference_request
  pn_event :: bool
  pn_provider :: "string option"
  pn_queued_at :: flt
  pn_model :: string
  pn_pref :: string
  pn_min_conf :: string
  pn_max_price :: "flt option"
  pn_session :: "string option"
  pn_cleared :: bool

datatype 'cb hub_effect =
    SendRequest string inference_request
  | SendChallenge string attestation_challenge
  | CloseSocket string int string
  | OutcomeFailed string
  | Bill string 'cb inference_done
  | Wake pending_request
  | ScheduleDispatch string

datatype hub_error = ValidationError | TypeError | UnknownLevel string | NotAdmitted | SendFailed | QueueIsFull

record 'cb hub =
  hub_max_depth :: int
  hub_providers :: "(string, connected_provider) dict"
  hub_queues :: "(string, queue_message list) dict"
  hub_next :: nat
  hub_affinity :: "(string, string) dict"
  hub_routes :: "(string, string) dict"
  hub_pending :: "pending_request list"
  hub_callbacks :: "(string, 'cb) dict"

definition AFFINITY_MAX :: nat where "AFFINITY_MAX = 1000"

definition new_hub :: "int \<Rightarrow> 'cb hub" where
  "new_hub depth = \<lparr>hub_max_depth = depth, hub_providers = [], hub_queues = [], hub_next = 0,
     hub_affinity = [], hub_routes = [], hub_pending = [], hub_callbacks = []\<rparr>"

definition update_provider :: "string \<Rightarrow> (connected_provider \<Rightarrow> connected_provider) \<Rightarrow> 'cb hub \<Rightarrow> 'cb hub" where
  "update_provider pid f h = (case map_of (hub_providers h) pid of
     None \<Rightarrow> h | Some p \<Rightarrow> h\<lparr>hub_providers := dict_set pid (f p) (hub_providers h)\<rparr>)"

definition provider_count :: "'cb hub \<Rightarrow> nat" where
  "provider_count h = length (hub_providers h)"

definition available_models :: "'cb hub \<Rightarrow> string list" where
  "available_models h = sort (remdups (concat (map (\<lambda>(_, p). pc_models (cp_caps p)) (hub_providers h))))"

section \<open>Registration and disconnection\<close>

definition no_model_capabilities :: model_capabilities where
  "no_model_capabilities = \<lparr>mc_context_length = 0, mc_vision = False, mc_tools = False, mc_architecture = '''',
     mc_model_type = '''', mc_repo_id = '''', mc_format = ''''\<rparr>"

definition provider_name :: "nat \<Rightarrow> string" where
  "provider_name n = ''provider-'' @ nat_str n"

text \<open>\<open>t1\<close> and \<open>t2\<close> are the default clock reads of the dataclass, \<open>hex\<close> the random session token.\<close>

definition register_provider :: "register_message \<Rightarrow> string \<Rightarrow> flt \<Rightarrow> flt \<Rightarrow> 'cb hub \<Rightarrow> string \<times> 'cb hub" where
  "register_provider msg hex t1 t2 h =
     (let n = Suc (hub_next h); pid = provider_name n;
          p = \<lparr>cp_id = pid, cp_name = reg_name msg, cp_caps = reg_caps msg, cp_enc_key = reg_enc_key msg,
            cp_connected_at = t1, cp_active = 0, cp_last_heartbeat = t2, cp_model_verified = False,
            cp_model_identity = [], cp_model_caps = no_model_capabilities, cp_att_status = ''pending'',
            cp_attest_verified = False, cp_admission_expires = 0, cp_attest_key = reg_attest_key msg,
            cp_artifact = reg_artifact msg, cp_last_attestation = 0, cp_nonce = None, cp_challenge_sent = 0,
            cp_token = '''', cp_billing = '''', cp_session = ''conn-'' @ hex, cp_country = None,
            cp_quarantined = False, cp_quarantine_reason = ''''\<rparr>
      in (pid, h\<lparr>hub_next := n, hub_providers := dict_set pid p (hub_providers h)\<rparr>))"

text \<open>One orphaned request of a disconnecting provider.\<close>

definition put_queue :: "string \<Rightarrow> queue_message \<Rightarrow> 'cb hub \<Rightarrow> 'cb hub" where
  "put_queue rid m h = (case map_of (hub_queues h) rid of
     None \<Rightarrow> h | Some q \<Rightarrow> h\<lparr>hub_queues := dict_set rid (q @ [m]) (hub_queues h)\<rparr>)"

definition orphan_request :: "'cb hub \<Rightarrow> string \<Rightarrow> 'cb hub" where
  "orphan_request h rid = (let h' = put_queue rid (Failed \<lparr>er_request = rid, er_error = ''provider_disconnected''\<rparr>) h
     in h'\<lparr>hub_routes := dict_pop rid (hub_routes h')\<rparr>)"

definition routed_to :: "'cb hub \<Rightarrow> string \<Rightarrow> string list" where
  "routed_to h pid = map fst (filter (\<lambda>(_, q). q = pid) (hub_routes h))"

definition disconnect_provider :: "string \<Rightarrow> 'cb hub \<Rightarrow> string list \<times> 'cb hub \<times> 'cb hub_effect list" where
  "disconnect_provider pid h = (case map_of (hub_providers h) pid of
     None \<Rightarrow> ([], h, [])
   | Some _ \<Rightarrow> (let orphans = routed_to h pid; h' = foldl orphan_request h orphans
       in (orphans, h'\<lparr>hub_providers := dict_pop pid (hub_providers h')\<rparr>, map OutcomeFailed orphans)))"

definition set_quarantine :: "string \<Rightarrow> bool \<Rightarrow> string \<Rightarrow> 'cb hub \<Rightarrow> bool \<times> 'cb hub" where
  "set_quarantine pid on reason h = (if map_of (hub_providers h) pid = None then (False, h)
     else (True, update_provider pid (\<lambda>p. p\<lparr>cp_quarantined := on, cp_quarantine_reason := (if on then reason else '''')\<rparr>) h))"

text \<open>The close of the socket may fail; the failure is swallowed, so it is only an effect here.\<close>

definition force_disconnect :: "string \<Rightarrow> string \<Rightarrow> 'cb hub \<Rightarrow> bool \<times> 'cb hub \<times> 'cb hub_effect list" where
  "force_disconnect pid reason h = (if map_of (hub_providers h) pid = None then (False, h, [])
     else (case disconnect_provider pid h of (_, h', es) \<Rightarrow> (True, h', es @ [CloseSocket pid 4003 reason])))"

definition providers_with_token :: "string \<Rightarrow> 'cb hub \<Rightarrow> string list" where
  "providers_with_token tid h = map fst (filter (\<lambda>(_, p). tid \<noteq> '''' \<and> cp_token p = tid) (hub_providers h))"

definition handle_heartbeat :: "string \<Rightarrow> heartbeat_message \<Rightarrow> flt \<Rightarrow> 'cb hub \<Rightarrow> 'cb hub" where
  "handle_heartbeat pid msg now = update_provider pid (\<lambda>p. p\<lparr>cp_active := hb_active msg, cp_last_heartbeat := now\<rparr>)"

section \<open>Attestation\<close>

definition nonce_open :: "connected_provider \<Rightarrow> bool" where
  "nonce_open p = (case cp_nonce p of None \<Rightarrow> False | Some n \<Rightarrow> n \<noteq> '''')"

definition send_attestation_challenge ::
  "string \<Rightarrow> string \<Rightarrow> flt \<Rightarrow> flt \<Rightarrow> 'cb hub \<Rightarrow> 'cb hub \<times> 'cb hub_effect list" where
  "send_attestation_challenge pid nonce t1 t2 h = (case map_of (hub_providers h) pid of
     None \<Rightarrow> (h, [])
   | Some p \<Rightarrow> (update_provider pid (\<lambda>p. p\<lparr>cp_nonce := Some nonce, cp_challenge_sent := t2\<rparr>) h,
       [SendChallenge pid \<lparr>ac_nonce = nonce, ac_timestamp = t1, ac_purpose = ''provider-admission'',
          ac_profile = trust_claim p\<rparr>]))"

definition attestation_issues :: "string \<Rightarrow> attestation_response \<Rightarrow> string list" where
  "attestation_issues claim r =
     (if claim \<in> {''hardened'', ''confidential''} then
        (if ar_sip r then [] else [''SIP disabled''])
      @ (if ar_hardened r then [] else [''no Hardened Runtime''])
      @ (if ar_agent_hash r = '''' then [''agent not frozen''] else []) else [])
   @ (if claim = ''confidential'' \<and> ar_object r = '''' then [''missing cryptographic App Attest attestation''] else [])"

definition degrade :: "connected_provider \<Rightarrow> connected_provider" where
  "degrade p = p\<lparr>cp_att_status := ''degraded'', cp_attest_verified := False\<rparr>"

definition judge_attestation :: "attestation_response \<Rightarrow> flt \<Rightarrow> connected_provider \<Rightarrow> connected_provider" where
  "judge_attestation r now p = (
     if \<not> nonce_open p \<or> Some (ar_nonce r) \<noteq> cp_nonce p then degrade p
     else (let p' = p\<lparr>cp_nonce := None, cp_last_attestation := now\<rparr> in
       if attestation_issues (trust_claim p) r \<noteq> [] then degrade p'
       else p'\<lparr>cp_att_status := (if trust_claim p \<noteq> ''confidential'' then ''passed'' else ''pending''),
               cp_attest_verified := False\<rparr>))"

definition handle_attestation_response ::
  "validators \<Rightarrow> string \<Rightarrow> trace \<Rightarrow> flt \<Rightarrow> 'cb hub \<Rightarrow> (hub_error + unit) \<times> 'cb hub" where
  "handle_attestation_response v pid data now h = (
     if map_of (hub_providers h) pid = None then (Inr (), h)
     else (case v_attestation v data of
        None \<Rightarrow> (Inl ValidationError, h)
      | Some r \<Rightarrow> (Inr (), update_provider pid (judge_attestation r now) h)))"

definition time_out :: "flt \<Rightarrow> flt \<Rightarrow> connected_provider \<Rightarrow> connected_provider" where
  "time_out now limit p = (if nonce_open p \<and> limit < rnd (now - cp_challenge_sent p)
     then degrade (p\<lparr>cp_nonce := None\<rparr>) else p)"

definition check_attestation_timeouts :: "flt \<Rightarrow> flt \<Rightarrow> 'cb hub \<Rightarrow> 'cb hub" where
  "check_attestation_timeouts now limit h =
     h\<lparr>hub_providers := map (\<lambda>(pid, p). (pid, time_out now limit p)) (hub_providers h)\<rparr>"

end
