(* ===== verification/Registration.thy ===== *)
theory Registration
  imports HubState
begin

text \<open>
  \<open>coordinator/provider_registration.py\<close>, the admission of a registration message. Text is Latin-1
  (one \<open>char\<close> per code point below 256). The grammar of JSON is a parameter \<open>scan\<close>: it gives the raw
  value with the pairs of an object as written, or \<open>None\<close> on malformed text; the two hooks the code
  passes to \<open>json.loads\<close> (duplicate keys, non-finite constants) are modelled. A number too large for
  a float has no value here, so such a text scans to \<open>None\<close>; the code rejects it in every field. The
  final pydantic validation is the parameter \<open>validate\<close>.
\<close>

section \<open>Raw JSON and the hooks\<close>

datatype raw_json = RNull | RBool bool | RInt int | RFloat flt | RConst string | RStr string
  | RList "raw_json list" | RObj "(string \<times> raw_json) list"

fun all_some :: "'a option list \<Rightarrow> 'a list option" where
  "all_some [] = Some []"
| "all_some (x # xs) = (case (x, all_some xs) of (Some y, Some ys) \<Rightarrow> Some (y # ys) | _ \<Rightarrow> None)"

definition reject_duplicate_keys :: "(string \<times> json) list \<Rightarrow> json option" where
  "reject_duplicate_keys ps = (if distinct (map fst ps) then Some (JObj ps) else None)"

fun load :: "raw_json \<Rightarrow> json option" where
  "load RNull = Some JNull"
| "load (RBool b) = Some (JBool b)"
| "load (RInt n) = Some (JInt n)"
| "load (RFloat x) = Some (JFloat x)"
| "load (RConst _) = None"
| "load (RStr s) = Some (JStr s)"
| "load (RList xs) = map_option JList (all_some (map load xs))"
| "load (RObj ps) = (case all_some (map (\<lambda>(k, v). map_option (Pair k) (load v)) ps) of
     None \<Rightarrow> None | Some qs \<Rightarrow> reject_duplicate_keys qs)"

section \<open>Field checks\<close>

definition code :: "char \<Rightarrow> nat" where "code c = of_char c"

text \<open>Unicode category C below 256: the controls and the soft hyphen.\<close>

definition is_control :: "char \<Rightarrow> bool" where
  "is_control c \<longleftrightarrow> code c < 32 \<or> 127 \<le> code c \<and> code c < 160 \<or> code c = 173"

definition is_white :: "char \<Rightarrow> bool" where
  "is_white c \<longleftrightarrow> 9 \<le> code c \<and> code c \<le> 13 \<or> 28 \<le> code c \<and> code c \<le> 32 \<or> code c = 133 \<or> code c = 160"

definition utf8_length :: "string \<Rightarrow> nat" where
  "utf8_length s = sum_list (map (\<lambda>c. if code c < 128 then 1 else 2) s)"

definition bounded_text :: "json option \<Rightarrow> nat \<Rightarrow> bool \<Rightarrow> bool" where
  "bounded_text v mx allow_empty = (case v of
     Some (JStr s) \<Rightarrow> length s \<le> mx \<and> (allow_empty \<or> (s \<noteq> '''' \<and> \<not> list_all is_white s))
        \<and> \<not> list_ex (\<lambda>c. is_control c \<or> c \<in> {CHR ''<'', CHR ''>'', CHR ''&''}) s
   | _ \<Rightarrow> False)"

definition bounded_number :: "json \<Rightarrow> flt \<Rightarrow> bool" where
  "bounded_number v mx = (case v of JInt n \<Rightarrow> 0 \<le> n \<and> of_int n \<le> mx | JFloat x \<Rightarrow> 0 \<le> x \<and> x \<le> mx | _ \<Rightarrow> False)"

definition bounded_integer :: "json \<Rightarrow> int \<Rightarrow> int \<Rightarrow> bool" where
  "bounded_integer v lo hi = (case v of JInt n \<Rightarrow> lo \<le> n \<and> n \<le> hi | _ \<Rightarrow> False)"

definition identity_field :: "string \<times> json \<Rightarrow> bool" where
  "identity_field kv = (bounded_text (Some (JStr (fst kv))) 64 False \<and> (case snd kv of
     JStr s \<Rightarrow> bounded_text (Some (JStr s)) 512 True
   | JBool _ \<Rightarrow> True
   | JInt _ \<Rightarrow> bounded_number (snd kv) 1000000000000000
   | JFloat _ \<Rightarrow> bounded_number (snd kv) 1000000000000000
   | _ \<Rightarrow> False))"

definition identity_ok :: "json option \<Rightarrow> bool" where
  "identity_ok v = (case v of None \<Rightarrow> True | Some JNull \<Rightarrow> True
     | Some (JObj d) \<Rightarrow> length d \<le> 32 \<and> list_all identity_field d | _ \<Rightarrow> False)"

section \<open>The registration message\<close>

definition MAX_REGISTRATION_BYTES :: nat where "MAX_REGISTRATION_BYTES = 64 * 1024"

definition register_fields :: "string list" where
  "register_fields = [''type'', ''protocol_version'', ''provider_name'', ''capabilities'', ''encryption_public_key'',
     ''model_identity'', ''app_attest_key_id'', ''app_attest_app_id'', ''app_attest_environment'',
     ''provider_artifact_hash'', ''provider_identity_public_key'']"

definition capability_fields :: "string list" where
  "capability_fields = [''models'', ''max_concurrent'', ''trust_level'', ''hardware'', ''memory_gb'', ''measured_tps'',
     ''price_per_mtok_input'', ''price_per_mtok_output'', ''price_per_mtok_cache'', ''context_length'',
     ''supports_tool_calling'', ''supports_vision'', ''model_repo_id'', ''model_format'']"

text \<open>\<open>d.get(key, default)\<close>.\<close>

definition jget :: "trace \<Rightarrow> string \<Rightarrow> json \<Rightarrow> json" where
  "jget d k v = dflt v (map_of d k)"

fun json_strings :: "json list \<Rightarrow> string list option" where
  "json_strings [] = Some []"
| "json_strings (JStr s # xs) = map_option (Cons s) (json_strings xs)"
| "json_strings _ = None"

definition is_bool :: "json \<Rightarrow> bool" where
  "is_bool v = (case v of JBool _ \<Rightarrow> True | _ \<Rightarrow> False)"

definition models_ok :: "json option \<Rightarrow> bool" where
  "models_ok v = (case v of
     Some (JList ms) \<Rightarrow> 1 \<le> length ms \<and> length ms \<le> 8 \<and> list_all (\<lambda>m. bounded_text (Some m) 128 False) ms \<and> distinct ms
   | _ \<Rightarrow> False)"

definition capabilities_ok :: "trace \<Rightarrow> bool" where
  "capabilities_ok caps \<longleftrightarrow> set (map fst caps) \<subseteq> set capability_fields
   \<and> models_ok (map_of caps ''models'')
   \<and> bounded_integer (jget caps ''max_concurrent'' (JInt 2)) 1 16
   \<and> bounded_integer (jget caps ''context_length'' (JInt 0)) 0 1048576
   \<and> bounded_number (jget caps ''price_per_mtok_input'' (JFloat (lit (5/100)))) 100
   \<and> bounded_number (jget caps ''price_per_mtok_output'' (JFloat (lit (20/100)))) 100
   \<and> bounded_number (jget caps ''price_per_mtok_cache'' (JInt 0)) 100
   \<and> bounded_number (jget caps ''measured_tps'' (JInt 0)) 10000
   \<and> bounded_number (jget caps ''memory_gb'' (JInt 0)) 1024
   \<and> is_bool (jget caps ''supports_vision'' (JBool False)) \<and> is_bool (jget caps ''supports_tool_calling'' (JBool False))
   \<and> bounded_text (Some (jget caps ''hardware'' (JStr ''unknown''))) 128 False
   \<and> bounded_text (Some (jget caps ''model_format'' (JStr ''''))) 32 True
   \<and> bounded_text (Some (jget caps ''model_repo_id'' (JStr ''''))) 255 True"

definition key_fields :: "string list" where
  "key_fields = [''encryption_public_key'', ''app_attest_key_id'', ''app_attest_app_id'', ''app_attest_environment'',
     ''provider_artifact_hash'', ''provider_identity_public_key'']"

definition registration_ok :: "trace \<Rightarrow> bool" where
  "registration_ok d \<longleftrightarrow> set (map fst d) \<subseteq> set register_fields
   \<and> map_of d ''type'' = Some (JStr ''register'') \<and> jget d ''protocol_version'' (JStr ''0.1.0'') = JStr ''0.1.0''
   \<and> bounded_text (map_of d ''provider_name'') 64 False
   \<and> (case map_of d ''capabilities'' of Some (JObj caps) \<Rightarrow> capabilities_ok caps | _ \<Rightarrow> False)
   \<and> identity_ok (map_of d ''model_identity'')
   \<and> list_all (\<lambda>f. bounded_text (Some (jget d f (JStr ''''))) 1024 True) key_fields"

section \<open>Production hardware\<close>

definition is_lower_alnum :: "char \<Rightarrow> bool" where
  "is_lower_alnum c \<longleftrightarrow> 97 \<le> code c \<and> code c \<le> 122 \<or> 48 \<le> code c \<and> code c \<le> 57"

text \<open>The repetition \<open>(?:-[a-z0-9]+)*\<close> up to the end of the text.\<close>

function dash_groups :: "string \<Rightarrow> bool" where
  "dash_groups [] = True"
| "dash_groups (c # cs) = (c = CHR ''-'' \<and> takeWhile is_lower_alnum cs \<noteq> [] \<and> dash_groups (dropWhile is_lower_alnum cs))"
  by pat_completeness auto
termination by (relation "measure length") (auto simp: le_imp_less_Suc length_dropWhile_le)

definition apple_hardware :: "string \<Rightarrow> bool" where
  "apple_hardware s \<longleftrightarrow> s = ''apple-silicon'' \<or> s = ''apple-silicon-arm64''
     \<or> (starts_with ''apple-m'' s \<and> length s > 7 \<and> 49 \<le> code (s ! 7) \<and> code (s ! 7) \<le> 54 \<and> dash_groups (drop 8 s))"

definition parse_provider_registration ::
  "(string \<Rightarrow> raw_json option) \<Rightarrow> (trace \<Rightarrow> register_message option) \<Rightarrow> bool \<Rightarrow> string \<Rightarrow> register_message option" where
  "parse_provider_registration scan validate production raw = (
     if MAX_REGISTRATION_BYTES < utf8_length raw then None
     else (case Option.bind (scan raw) load of
       Some (JObj d) \<Rightarrow>
         if \<not> registration_ok d then None
         else (case validate d of None \<Rightarrow> None
           | Some reg \<Rightarrow>
               if production \<and> (pc_trust (reg_caps reg) \<noteq> T_OPEN \<or> \<not> apple_hardware (str_lower (pc_hardware (reg_caps reg)))
                  \<or> str_lower (pc_format (reg_caps reg)) \<noteq> ''gguf'') then None
               else Some reg)
     | _ \<Rightarrow> None))"

end
