(* ===== verification/HubRouting.thy ===== *)
theory HubRouting
  imports HubState
begin

text \<open>
  \<open>coordinator/provider_hub.py\<close>, the routing: which provider a request goes to
  (\<open>select_provider\<close>), why none ever could (\<open>explain_no_match\<close>) and the score shown in traces
  (\<open>score_for_request\<close>). The clock is read once per confidential provider and three times for the
  order; \<open>select_clock\<close> holds the readings.
\<close>

definition pref_map :: "string \<Rightarrow> routing_preference" where
  "pref_map s = (if s = ''cheapest'' then CHEAPEST else if s = ''fastest'' then FASTEST
     else if s = ''most_secure'' then MOST_SECURE else BALANCED)"

definition conf_map :: "string \<Rightarrow> confidence_level option" where
  "conf_map s = (if s = ''open'' then Some OPEN else if s = ''contained'' then Some CONTAINED
     else if s = ''hardened'' then Some HARDENED else if s = ''confidential'' then Some CONFIDENTIAL else None)"

definition claimed_conf :: "connected_provider \<Rightarrow> confidence_level" where
  "claimed_conf p = dflt OPEN (conf_map (trust_claim p))"

record select_clock =
  sk_admit :: "string \<Rightarrow> flt"
  sk_order :: flt
  sk_expire :: flt
  sk_match :: flt

definition routable :: "(string \<Rightarrow> flt) \<Rightarrow> connected_provider \<Rightarrow> bool" where
  "routable clk p \<longleftrightarrow> admitted (clk (cp_id p)) p \<and> \<not> cp_quarantined p"

definition offer_of :: "flt \<Rightarrow> connected_provider \<Rightarrow> provider_offer" where
  "offer_of rep p = (let c = cp_caps p in
     \<lparr>off_id = cp_id p, off_name = cp_name p, off_models = pc_models c, off_price_in = pc_price_in c,
      off_price_out = pc_price_out c, off_conf = claimed_conf p, off_tps = pc_tps c,
      off_total = pc_max_concurrent c, off_used = cp_active p, off_encrypted = (cp_enc_key p \<noteq> ''''),
      off_hardware = pc_hardware c, off_memory = 0, off_rep = rep\<rparr>)"

definition route_order :: "string \<Rightarrow> string \<Rightarrow> confidence_level \<Rightarrow> flt option \<Rightarrow> string \<Rightarrow> flt \<Rightarrow> inference_order" where
  "route_order model pref conf maxp affinity now =
     \<lparr>ord_id = ''select'', ord_consumer = '''', ord_model = model, ord_max_price = maxp, ord_min_conf = conf,
      ord_pref = pref_map pref, ord_min_tps = 0, ord_tokens = 100, ord_submitted = now, ord_timeout = 120,
      ord_affinity = affinity\<rparr>"

text \<open>The session's last provider. A session already known keeps its place in the dict; above the
  bound the oldest entry is evicted.\<close>

definition remember_affinity :: "string option \<Rightarrow> string \<Rightarrow> 'cb hub \<Rightarrow> 'cb hub" where
  "remember_affinity sid pid h = (case sid of
     None \<Rightarrow> h
   | Some s \<Rightarrow> if s = '''' then h
       else (let a = dict_set s pid (hub_affinity h)
         in h\<lparr>hub_affinity := (if AFFINITY_MAX < length a then tl a else a)\<rparr>))"

definition session_provider :: "string option \<Rightarrow> 'cb hub \<Rightarrow> string" where
  "session_provider sid h = (case sid of None \<Rightarrow> '''' | Some s \<Rightarrow> if s = '''' then '''' else dict_get (hub_affinity h) s '''')"

definition live_offers :: "(string \<Rightarrow> flt) \<Rightarrow> (string \<Rightarrow> flt) \<Rightarrow> 'cb hub \<Rightarrow> provider_offer list" where
  "live_offers clk rep h = map (\<lambda>(_, p). offer_of (rep (cp_id p)) p) (filter (\<lambda>(_, p). routable clk p) (hub_providers h))"

text \<open>\<open>rep\<close> is \<open>reputation_fn\<close>, constantly 1 when the caller passes none. The result is the routing id.\<close>

definition select_provider ::
  "select_clock \<Rightarrow> (string \<Rightarrow> flt) \<Rightarrow> string \<Rightarrow> string \<Rightarrow> string \<Rightarrow> flt option \<Rightarrow> string option
    \<Rightarrow> 'cb hub \<Rightarrow> (hub_error + string option) \<times> 'cb hub" where
  "select_provider sk rep model pref min_conf maxp sid h = (case conf_map min_conf of
     None \<Rightarrow> (Inl (UnknownLevel min_conf), h)
   | Some conf \<Rightarrow>
      (let ord = route_order model pref conf maxp (session_provider sid h) (sk_order sk)
       in case fst (greedy_match (\<lambda>_. sk_expire sk) (\<lambda>_. sk_match sk) [ord] (live_offers (sk_admit sk) rep h)) of
            [] \<Rightarrow> (Inr None, h)
          | m # _ \<Rightarrow> if map_of (hub_providers h) (mr_provider m) = None then (Inr None, h)
              else (Inr (Some (mr_provider m)), remember_affinity sid (mr_provider m) h)))"

section \<open>Why nothing can match\<close>

definition levels :: "string list" where
  "levels = [''open'', ''contained'', ''hardened'', ''confidential'']"

fun list_index :: "'a list \<Rightarrow> 'a \<Rightarrow> nat option" where
  "list_index [] x = None"
| "list_index (y # ys) x = (if y = x then Some 0 else map_option Suc (list_index ys x))"

definition serves :: "string \<Rightarrow> connected_provider \<Rightarrow> bool" where
  "serves model p \<longleftrightarrow> model = ''default'' \<or> model \<in> set (pc_models (cp_caps p))"

definition claim_index :: "connected_provider \<Rightarrow> nat" where
  "claim_index p = dflt 0 (list_index levels (trust_claim p))"

fun join_with :: "string \<Rightarrow> string list \<Rightarrow> string" where
  "join_with sep [] = ''''"
| "join_with sep [x] = x"
| "join_with sep (x # y # ys) = x @ sep @ join_with sep (y # ys)"

text \<open>\<open>max(..., key=levels.index)\<close> of a nonempty list: the first of the greatest.\<close>

definition best_claim :: "connected_provider list \<Rightarrow> string" where
  "best_claim ps = trust_claim (foldl (\<lambda>b p. if claim_index b < claim_index p then p else b) (hd ps) (tl ps))"

definition model_message :: "string \<Rightarrow> connected_provider list \<Rightarrow> string" where
  "model_message model ps = ''No online provider serves model '' @ [CHR 0x27] @ model @ [CHR 0x27] @ ''. Available models: ''
     @ join_with '', '' (sort (remdups (concat (map (\<lambda>p. pc_models (cp_caps p)) ps))))
     @ ''. Use model '' @ [CHR 0x27] @ ''default'' @ [CHR 0x27] @ '' to accept any model.''"

definition quoted :: "string \<Rightarrow> string" where
  "quoted s = [CHR 0x27] @ s @ [CHR 0x27]"

definition trust_message :: "string \<Rightarrow> string \<Rightarrow> string \<Rightarrow> string" where
  "trust_message min_conf model best = ''No online provider meets ocip_min_confidence='' @ quoted min_conf
     @ '' for model '' @ quoted model @ ''. The highest available level is '' @ quoted best
     @ '' (claimed by the provider, not verified). To accept it, set ocip_min_confidence to '' @ quoted best
     @ '' in the request.''"

definition price_message :: "(flt \<Rightarrow> string) \<Rightarrow> flt \<Rightarrow> string \<Rightarrow> string \<Rightarrow> flt \<Rightarrow> string" where
  "price_message fmt maxp model min_conf cheapest = ''No online provider meets ocip_max_price='' @ fmt maxp
     @ '' for model '' @ quoted model @ '' at ocip_min_confidence='' @ quoted min_conf
     @ ''. The lowest price is '' @ fmt cheapest @ '' per million output tokens.''"

text \<open>\<open>fmt\<close> is Python's \<open>repr\<close> of a float. The result is the code and the message of the error.\<close>

definition explain_no_match ::
  "(flt \<Rightarrow> string) \<Rightarrow> (string \<Rightarrow> flt) \<Rightarrow> string \<Rightarrow> string \<Rightarrow> flt option \<Rightarrow> 'cb hub
    \<Rightarrow> hub_error + (string \<times> string) option" where
  "explain_no_match fmt clk model min_conf maxp h = (case list_index levels min_conf of
     None \<Rightarrow> Inl (UnknownLevel min_conf)
   | Some need \<Rightarrow> Inr (
      let online = filter (routable clk) (map snd (hub_providers h));
          serving = filter (serves model) online;
          trusted = filter (\<lambda>p. need \<le> claim_index p) serving
      in if online = [] then Some (''no_provider_available'', ''No provider is online right now. Try again later.'')
         else if serving = [] then Some (''model_not_available'', model_message model online)
         else if trusted = [] then Some (''no_compatible_provider'', trust_message min_conf model (best_claim serving))
         else (case maxp of
            None \<Rightarrow> None
          | Some price \<Rightarrow> if filter (\<lambda>p. pc_price_out (cp_caps p) \<le> price) trusted \<noteq> [] then None
              else Some (''no_compatible_provider'', price_message fmt price model min_conf
                     (Min (set (map (\<lambda>p. pc_price_out (cp_caps p)) trusted)))))))"

section \<open>The score shown in traces\<close>

text \<open>The order is built with the default minimum level HARDENED and the default reputation 1 of the
  offer; its submission time is not read by the score.\<close>

definition score_for_request :: "string \<Rightarrow> string \<Rightarrow> connected_provider \<Rightarrow> flt" where
  "score_for_request model pref p = compute_score
     \<lparr>ord_id = ''trace'', ord_consumer = '''', ord_model = model, ord_max_price = None, ord_min_conf = HARDENED,
      ord_pref = pref_map pref, ord_min_tps = 0, ord_tokens = 100, ord_submitted = 0, ord_timeout = 120,
      ord_affinity = ''''\<rparr> (offer_of 1 p)"

end
