(* ===== verification/HubQueue.thy ===== *)
theory HubQueue
  imports HubRouting
begin

text \<open>
  \<open>coordinator/provider_hub.py\<close>, requests in flight: response queues, billing callbacks, sending a
  request to a provider, the bounded queue of requests that wait for a provider, and the messages a
  provider sends. A provider object is the argument \<open>p\<close>: while it is connected it is the hub's entry
  for its id, after that changes to it touch no hub state. A task created by \<open>ensure_future\<close> is the
  effect \<open>ScheduleDispatch\<close>; it runs later as \<open>try_dispatch_queued\<close>.
\<close>

type_synonym 'cb hub_result = "(hub_error + unit) \<times> 'cb hub \<times> 'cb hub_effect list"

section \<open>Response queues and callbacks\<close>

definition create_response_queue :: "string \<Rightarrow> 'cb hub \<Rightarrow> 'cb hub" where
  "create_response_queue rid h = h\<lparr>hub_queues := dict_set rid [] (hub_queues h)\<rparr>"

definition remove_response_queue :: "string \<Rightarrow> 'cb hub \<Rightarrow> 'cb hub" where
  "remove_response_queue rid h = h\<lparr>hub_queues := dict_pop rid (hub_queues h),
     hub_routes := dict_pop rid (hub_routes h), hub_callbacks := dict_pop rid (hub_callbacks h)\<rparr>"

definition register_billing_callback :: "string \<Rightarrow> 'cb \<Rightarrow> 'cb hub \<Rightarrow> 'cb hub" where
  "register_billing_callback rid cb h = h\<lparr>hub_callbacks := dict_set rid cb (hub_callbacks h)\<rparr>"

section \<open>Sending a request\<close>

definition bump_active :: "connected_provider \<Rightarrow> connected_provider" where
  "bump_active p = p\<lparr>cp_active := cp_active p + 1\<rparr>"

definition drop_active :: "connected_provider \<Rightarrow> connected_provider" where
  "drop_active p = p\<lparr>cp_active := max 0 (cp_active p - 1)\<rparr>"

text \<open>The method awaits the socket in its middle. \<open>begin_send\<close> is what runs before the await and
  \<open>end_send\<close> what runs after it; any other operation may come between. \<open>now\<close> is the clock of the
  admission test and \<open>ok\<close> tells whether the socket accepted the message. The provider is the object the
  caller holds: when it has left the hub its counter is no longer in the table, and nothing else tells
  the method so.\<close>

definition begin_send ::
  "flt \<Rightarrow> connected_provider \<Rightarrow> inference_request \<Rightarrow> 'cb hub \<Rightarrow> (hub_error + unit) \<times> 'cb hub" where
  "begin_send now p req h = (
     if \<not> admitted now p \<and> requires_app_attest p then (Inl NotAdmitted, h)
     else (let h1 = update_provider (cp_id p) bump_active h
       in (Inr (), h1\<lparr>hub_routes := dict_set (ir_request req) (cp_id p) (hub_routes h1)\<rparr>)))"

definition end_send :: "bool \<Rightarrow> connected_provider \<Rightarrow> inference_request \<Rightarrow> 'cb hub \<Rightarrow> 'cb hub_result" where
  "end_send ok p req h = (
     if ok then (Inr (), h, [SendRequest (cp_id p) req])
     else (let h1 = update_provider (cp_id p) drop_active h
       in (Inl SendFailed, h1\<lparr>hub_routes := dict_pop (ir_request req) (hub_routes h1)\<rparr>, [])))"

text \<open>The method without an interruption.\<close>

definition send_to_provider ::
  "flt \<Rightarrow> bool \<Rightarrow> connected_provider \<Rightarrow> inference_request \<Rightarrow> 'cb hub \<Rightarrow> 'cb hub_result" where
  "send_to_provider now ok p req h = (case begin_send now p req h of
     (Inl e, h1) \<Rightarrow> (Inl e, h1, []) | (Inr _, h1) \<Rightarrow> end_send ok p req h1)"

lemma send_to_provider_eq:
  "send_to_provider now ok p req h = (
     if \<not> admitted now p \<and> requires_app_attest p then (Inl NotAdmitted, h, [])
     else (let h1 = update_provider (cp_id p) bump_active h;
               h2 = h1\<lparr>hub_routes := dict_set (ir_request req) (cp_id p) (hub_routes h1)\<rparr>
       in if ok then (Inr (), h2, [SendRequest (cp_id p) req])
          else (let h3 = update_provider (cp_id p) drop_active h2
            in (Inl SendFailed, h3\<lparr>hub_routes := dict_pop (ir_request req) (hub_routes h3)\<rparr>, []))))"
  by (simp add: send_to_provider_def begin_send_def end_send_def Let_def)

section \<open>The queue of waiting requests\<close>

definition put_pending :: "pending_request \<Rightarrow> 'cb hub \<Rightarrow> (hub_error + unit) \<times> 'cb hub" where
  "put_pending p h = (if 0 < hub_max_depth h \<and> hub_max_depth h \<le> int (length (hub_pending h)) then (Inl QueueIsFull, h)
     else (Inr (), h\<lparr>hub_pending := hub_pending h @ [p]\<rparr>))"

definition enqueue_request ::
  "inference_request \<Rightarrow> string \<Rightarrow> string \<Rightarrow> string \<Rightarrow> flt option \<Rightarrow> string option \<Rightarrow> flt \<Rightarrow> 'cb hub
    \<Rightarrow> (hub_error + pending_request) \<times> 'cb hub" where
  "enqueue_request req model pref min_conf maxp sid now h =
     (let p = \<lparr>pn_request = ir_request req, pn_infer = req, pn_event = False, pn_provider = None, pn_queued_at = now,
         pn_model = model, pn_pref = pref, pn_min_conf = min_conf, pn_max_price = maxp, pn_session = sid, pn_cleared = False\<rparr>
      in case put_pending p h of (Inl e, h') \<Rightarrow> (Inl e, h') | (Inr _, h') \<Rightarrow> (Inr p, h'))"

definition pending_queue_size :: "'cb hub \<Rightarrow> nat" where
  "pending_queue_size h = length (hub_pending h)"

definition clear_queue :: "'cb hub \<Rightarrow> nat \<times> 'cb hub \<times> 'cb hub_effect list" where
  "clear_queue h = (length (hub_pending h), h\<lparr>hub_pending := []\<rparr>,
     map (\<lambda>p. Wake (p\<lparr>pn_cleared := True, pn_event := True\<rparr>)) (hub_pending h))"

definition select_for :: "(pending_request \<Rightarrow> select_clock) \<Rightarrow> pending_request \<Rightarrow> 'cb hub \<Rightarrow> (hub_error + string option) \<times> 'cb hub" where
  "select_for clk p = select_provider (clk p) (\<lambda>_. 1) (pn_model p) (pn_pref p) (pn_min_conf p) (pn_max_price p) (pn_session p)"

text \<open>The pass over the drained queue: the first request with a provider is woken, the others go back
  in order. A level that \<open>select_provider\<close> does not know ends the pass and loses the rest.\<close>

fun dispatch_items ::
  "(pending_request \<Rightarrow> select_clock) \<Rightarrow> pending_request list \<Rightarrow> bool \<Rightarrow> 'cb hub \<Rightarrow> 'cb hub_result" where
  "dispatch_items clk [] dispatched h = (Inr (), h, [])"
| "dispatch_items clk (p # ps) dispatched h = (
     if dispatched then
       (case put_pending p h of (Inl e, h') \<Rightarrow> (Inl e, h', []) | (Inr _, h') \<Rightarrow> dispatch_items clk ps True h')
     else (case select_for clk p h of
         (Inl e, h') \<Rightarrow> (Inl e, h', [])
       | (Inr (Some pid), h') \<Rightarrow> (case dispatch_items clk ps True h' of
            (r, h'', es) \<Rightarrow> (r, h'', Wake (p\<lparr>pn_provider := Some pid, pn_event := True\<rparr>) # es))
       | (Inr None, h') \<Rightarrow>
            (case put_pending p h' of (Inl e, h'') \<Rightarrow> (Inl e, h'', []) | (Inr _, h'') \<Rightarrow> dispatch_items clk ps False h'')))"

definition try_dispatch_queued :: "(pending_request \<Rightarrow> select_clock) \<Rightarrow> 'cb hub \<Rightarrow> 'cb hub_result" where
  "try_dispatch_queued clk h = (if hub_pending h = [] then (Inr (), h, [])
     else dispatch_items clk (hub_pending h) False (h\<lparr>hub_pending := []\<rparr>))"

section \<open>Messages of a provider\<close>

fun unhashable :: "json \<Rightarrow> bool" where
  "unhashable (JList _) = True"
| "unhashable (JObj _) = True"
| "unhashable _ = False"

definition handle_done :: "string \<Rightarrow> string \<Rightarrow> inference_done \<Rightarrow> 'cb hub \<Rightarrow> 'cb hub_result" where
  "handle_done pid rid m h =
     (let h1 = put_queue rid (Done m) h;
          es = (case map_of (hub_callbacks h1) rid of None \<Rightarrow> [] | Some cb \<Rightarrow> [Bill rid cb m]);
          h2 = h1\<lparr>hub_callbacks := dict_pop rid (hub_callbacks h1)\<rparr>
      in (Inr (), update_provider pid drop_active h2, es @ [ScheduleDispatch pid]))"

definition handle_error :: "string \<Rightarrow> string \<Rightarrow> inference_error \<Rightarrow> 'cb hub \<Rightarrow> 'cb hub_result" where
  "handle_error pid rid m h =
     (let h1 = put_queue rid (Failed m) h;
          h2 = h1\<lparr>hub_callbacks := dict_pop rid (hub_callbacks h1)\<rparr>
      in (Inr (), update_provider pid drop_active h2, [OutcomeFailed rid, ScheduleDispatch pid]))"

definition handle_other :: "validators \<Rightarrow> string \<Rightarrow> trace \<Rightarrow> string \<Rightarrow> 'cb hub \<Rightarrow> 'cb hub_result" where
  "handle_other v pid data rid h = (
     if map_of (hub_queues h) rid = None then (Inr (), h, [])
     else if map_of data ''type'' = Some (JStr (type_value INFERENCE_RESPONSE)) then
       (case v_chunk v data of None \<Rightarrow> (Inl ValidationError, h, [])
        | Some m \<Rightarrow> (Inr (), put_queue rid (Chunk m) h, []))
     else if map_of data ''type'' = Some (JStr (type_value INFERENCE_ERROR)) then
       (case v_error v data of None \<Rightarrow> (Inl ValidationError, h, [OutcomeFailed rid])
        | Some m \<Rightarrow> handle_error pid rid m h)
     else (Inr (), h, []))"

text \<open>A done message is validated before its id is used; pydantic accepts only a string there.\<close>

definition handle_provider_message :: "validators \<Rightarrow> string \<Rightarrow> trace \<Rightarrow> 'cb hub \<Rightarrow> 'cb hub_result" where
  "handle_provider_message v pid data h = (case map_of data ''request_id'' of
     None \<Rightarrow> (Inr (), h, [])
   | Some key \<Rightarrow>
       if \<not> truthy key then (Inr (), h, [])
       else if map_of data ''type'' = Some (JStr (type_value INFERENCE_DONE)) then
         (case (v_done v data, key) of
            (Some m, JStr rid) \<Rightarrow> handle_done pid rid m h
          | _ \<Rightarrow> (Inl ValidationError, h, []))
       else if unhashable key then (Inl TypeError, h, [])
       else (case key of JStr rid \<Rightarrow> handle_other v pid data rid h | _ \<Rightarrow> (Inr (), h, [])))"

end
