(* ===== verification/HubRoutingLaws.thy ===== *)
theory HubRoutingLaws
  imports HubRouting MatchingLaws
begin

text \<open>
  Properties of the routing: what a selected provider satisfies, when a provider is found, and that
  the explanation given to the consumer agrees with the selection.
\<close>

section \<open>One order against the offers\<close>

lemma initial_slots_distinct:
  assumes "distinct (map off_id offers)" "f \<in> set offers"
  shows "dict_get (initial_slots offers) (off_id f) 0 = available_slots f"
proof -
  have "find (\<lambda>x. off_id x = off_id f) (rev offers) = Some f"
    by (rule find_key_unique) (use assms in \<open>simp_all flip: rev_map\<close>)
  then show ?thesis by (simp add: initial_slots_get)
qed

lemma greedy_one:
  "fst (greedy_match clk clk2 [b] offers) =
     (if is_expired (clk b) b then []
      else (let s = scan_offers (initial_slots offers) b offers in
        case sc_best s of None \<Rightarrow> []
        | Some f \<Rightarrow> if 0 < sc_score s then [\<lparr>mr_order = ord_id b, mr_provider = off_id f, mr_score = sc_score s,
                mr_price = off_price_out f, mr_reason = ''greedy: best of '' @ nat_str (sc_eligible s) @ '' eligible'',
                mr_queue_ms = queue_ms (clk2 b) b\<rparr>] else []))"
  by (simp add: greedy_match_def greedy_step_def Let_def split: option.split)

lemma greedy_one_some:
  assumes "fst (greedy_match clk clk2 [b] offers) = m # ms" "distinct (map off_id offers)"
  shows "\<exists>f \<in> set offers. off_id f = mr_provider m \<and> hard_ok b f
    \<and> (\<forall>g \<in> set offers. is_available g \<longrightarrow> compute_score b g \<le> compute_score b f)"
proof -
  let ?s = "scan_offers (initial_slots offers) b offers"
  obtain f where f: "sc_best ?s = Some f" "0 < sc_score ?s" "mr_provider m = off_id f"
    using assms(1) by (auto simp: greedy_one Let_def split: if_splits option.splits)
  note sb = scan_best [OF f(1)]
  have "hard_ok b f" using sb(3) f(2) by (intro compute_score_pos) simp
  moreover have "\<forall>g \<in> set offers. is_available g \<longrightarrow> compute_score b g \<le> compute_score b f"
    using sb(4) initial_slots_distinct [OF assms(2)] by (simp add: is_available_def)
  ultimately show ?thesis using sb(1) f(3) by (intro bexI [of _ f]) simp_all
qed

lemma greedy_one_none:
  assumes "fst (greedy_match clk clk2 [b] offers) = []" "distinct (map off_id offers)" "\<not> is_expired (clk b) b"
    "f \<in> set offers" "sane_offer f"
  shows "\<not> hard_ok b f"
proof
  assume h: "hard_ok b f"
  let ?s = "scan_offers (initial_slots offers) b offers"
  have left: "0 < dict_get (initial_slots offers) (off_id f) 0"
    using h initial_slots_distinct [OF assms(2,4)] by (simp add: hard_ok_def is_available_def)
  have pos: "0 < compute_score b f"
    using sane_score [OF assms(5), of b] soft_score_bounds(1) [OF assms(5)] h
    by (simp add: compute_score_hard hard_ok_def less_le_trans [of 0 "1 / 2 ^ 105"])
  show False
  proof (cases "sc_best ?s")
    case None
    from scan_none [OF None assms(4) left] pos show False by simp
  next
    case (Some g)
    have "compute_score b f \<le> sc_score ?s" using scan_best(3,4) [OF Some] assms(4) left by simp
    with pos assms(1,3) Some show False by (simp add: greedy_one Let_def)
  qed
qed

section \<open>Offers of the connected providers\<close>

text \<open>The hub keeps each provider under its own routing id.\<close>

definition hub_keys_ok :: "'cb hub \<Rightarrow> bool" where
  "hub_keys_ok h \<longleftrightarrow> dict_ok (hub_providers h) \<and> (\<forall>(pid, p) \<in> set (hub_providers h). cp_id p = pid)"

lemma hub_key: "hub_keys_ok h \<Longrightarrow> (pid, p) \<in> set (hub_providers h) \<Longrightarrow> cp_id p = pid \<and> map_of (hub_providers h) pid = Some p"
  by (auto simp: hub_keys_ok_def dict_ok_def)

lemma offer_of_simps [simp]:
  "off_id (offer_of rep p) = cp_id p" "off_models (offer_of rep p) = pc_models (cp_caps p)"
  "off_price_out (offer_of rep p) = pc_price_out (cp_caps p)" "off_conf (offer_of rep p) = claimed_conf p"
  "off_tps (offer_of rep p) = pc_tps (cp_caps p)" "off_total (offer_of rep p) = pc_max_concurrent (cp_caps p)"
  "off_used (offer_of rep p) = cp_active p" "off_rep (offer_of rep p) = rep"
  by (simp_all add: offer_of_def Let_def)

lemma live_offers_ids:
  assumes "hub_keys_ok h" shows "distinct (map off_id (live_offers clk rep h))"
proof -
  have "map off_id (live_offers clk rep h) = map fst (filter (\<lambda>(_, p). routable clk p) (hub_providers h))"
    using assms by (auto simp: live_offers_def hub_keys_ok_def intro!: map_cong)
  then show ?thesis using assms by (simp add: hub_keys_ok_def dict_ok_def distinct_map_filter)
qed

lemma live_offer_iff:
  "f \<in> set (live_offers clk rep h) \<longleftrightarrow> (\<exists>pid p. (pid, p) \<in> set (hub_providers h) \<and> routable clk p \<and> f = offer_of (rep (cp_id p)) p)"
  by (force simp: live_offers_def)

text \<open>A provider fits a request when it meets every constraint except a free slot.\<close>

definition fits :: "string \<Rightarrow> confidence_level \<Rightarrow> flt option \<Rightarrow> connected_provider \<Rightarrow> bool" where
  "fits model conf maxp p \<longleftrightarrow> serves model p \<and> conf_value conf \<le> conf_value (claimed_conf p)
     \<and> (case maxp of None \<Rightarrow> True | Some x \<Rightarrow> pc_price_out (cp_caps p) \<le> x)"

definition has_slot :: "connected_provider \<Rightarrow> bool" where
  "has_slot p \<longleftrightarrow> cp_active p < pc_max_concurrent (cp_caps p)"

lemma hard_ok_route:
  "hard_ok (route_order model pref conf maxp aff now) (offer_of rep p) \<longleftrightarrow> fits model conf maxp p \<and> has_slot p"
  by (auto simp: hard_ok_def route_order_def fits_def has_slot_def serves_def is_available_def available_slots_def split: option.split)

definition sane_provider :: "connected_provider \<Rightarrow> bool" where
  "sane_provider p \<longleftrightarrow> 0 \<le> pc_price_out (cp_caps p) \<and> pc_price_out (cp_caps p) \<le> 100
     \<and> 0 \<le> pc_tps (cp_caps p) \<and> rnd (pc_tps (cp_caps p)) = pc_tps (cp_caps p) \<and> 0 \<le> cp_active p"

lemma sane_offer_of: "sane_provider p \<Longrightarrow> 0 \<le> rep \<Longrightarrow> rep \<le> 1 \<Longrightarrow> sane_offer (offer_of rep p)"
  by (simp add: sane_provider_def sane_offer_def)

lemma select_some:
  assumes "select_provider sk rep model pref mc maxp sid h = (Inr (Some pid), h')"
  obtains conf m ms where "conf_map mc = Some conf" "pid = mr_provider m" "map_of (hub_providers h) pid \<noteq> None"
    "h' = remember_affinity sid pid h"
    "fst (greedy_match (\<lambda>_. sk_expire sk) (\<lambda>_. sk_match sk) [route_order model pref conf maxp (session_provider sid h) (sk_order sk)]
       (live_offers (sk_admit sk) rep h)) = m # ms"
proof -
  obtain conf where c: "conf_map mc = Some conf"
    using assms by (auto simp: select_provider_def split: option.splits)
  show ?thesis
    using assms by (auto simp: select_provider_def c Let_def split: list.splits if_splits intro: that [OF c])
qed

text \<open>C23: A request is routed only to a connected provider that is admitted, not quarantined, serves the
  model, claims at least the requested level, asks at most the maximum output price and has a free
  slot; among the routable providers with a free slot it has the highest score. The session then
  remembers it.\<close>

theorem selected_provider_sound:
  assumes "hub_keys_ok h" "select_provider sk rep model pref mc maxp sid h = (Inr (Some pid), h')"
  shows "\<exists>p conf. map_of (hub_providers h) pid = Some p \<and> conf_map mc = Some conf
    \<and> admitted (sk_admit sk pid) p \<and> \<not> cp_quarantined p \<and> fits model conf maxp p \<and> has_slot p
    \<and> (\<forall>q qp. map_of (hub_providers h) q = Some qp \<and> routable (sk_admit sk) qp \<and> has_slot qp \<longrightarrow>
         compute_score (route_order model pref conf maxp (session_provider sid h) (sk_order sk)) (offer_of (rep q) qp)
         \<le> compute_score (route_order model pref conf maxp (session_provider sid h) (sk_order sk)) (offer_of (rep pid) p))
    \<and> h' = remember_affinity sid pid h"
proof -
  obtain conf m ms where s: "conf_map mc = Some conf" "pid = mr_provider m" "h' = remember_affinity sid pid h"
    "fst (greedy_match (\<lambda>_. sk_expire sk) (\<lambda>_. sk_match sk) [route_order model pref conf maxp (session_provider sid h) (sk_order sk)]
       (live_offers (sk_admit sk) rep h)) = m # ms"
    using assms(2) by (rule select_some)
  let ?o = "route_order model pref conf maxp (session_provider sid h) (sk_order sk)"
  from greedy_one_some [OF s(4) live_offers_ids [OF assms(1)]]
  obtain f where f: "f \<in> set (live_offers (sk_admit sk) rep h)" "off_id f = pid" "hard_ok ?o f"
    "\<forall>g \<in> set (live_offers (sk_admit sk) rep h). is_available g \<longrightarrow> compute_score ?o g \<le> compute_score ?o f"
    using s(2) by blast
  obtain k p where p: "(k, p) \<in> set (hub_providers h)" "routable (sk_admit sk) p" "f = offer_of (rep (cp_id p)) p"
    using f(1) live_offer_iff by metis
  have k: "cp_id p = pid" "k = pid" "map_of (hub_providers h) pid = Some p"
    using hub_key [OF assms(1) p(1)] f(2) p(3) by simp_all
  have best: "compute_score ?o (offer_of (rep q) qp) \<le> compute_score ?o (offer_of (rep pid) p)"
    if "map_of (hub_providers h) q = Some qp" "routable (sk_admit sk) qp" "has_slot qp" for q qp
  proof -
    have m: "(q, qp) \<in> set (hub_providers h)" using that(1) by (rule map_of_SomeD)
    then have "cp_id qp = q" using hub_key [OF assms(1)] by blast
    then have "offer_of (rep q) qp \<in> set (live_offers (sk_admit sk) rep h)" using live_offer_iff m that(2) by metis
    moreover have "is_available (offer_of (rep q) qp)" using that(3) by (simp add: is_available_def available_slots_def has_slot_def)
    ultimately show ?thesis using f(4) p(3) k(1) by simp
  qed
  show ?thesis
    using k s(1,3) p(2) f(3) best unfolding p(3) hard_ok_route
    by (intro exI [of _ p] exI [of _ conf]) (simp add: routable_def)
qed

section \<open>A sample hub\<close>

definition sample_hub :: "'cb hub" where
  "sample_hub = snd (register_provider sample_registration ''00'' 0 0 (new_hub 50))"

definition sample_provider :: connected_provider where
  "sample_provider = \<lparr>cp_id = provider_name 1, cp_name = ''n'', cp_caps = sample_caps, cp_enc_key = '''',
     cp_connected_at = 0, cp_active = 0, cp_last_heartbeat = 0, cp_model_verified = False,
     cp_model_identity = [], cp_model_caps = no_model_capabilities, cp_att_status = ''pending'',
     cp_attest_verified = False, cp_admission_expires = 0, cp_attest_key = '''',
     cp_artifact = '''', cp_last_attestation = 0, cp_nonce = None, cp_challenge_sent = 0,
     cp_token = '''', cp_billing = '''', cp_session = ''conn-00'', cp_country = None,
     cp_quarantined = False, cp_quarantine_reason = ''''\<rparr>"

definition sample_clock :: select_clock where
  "sample_clock = \<lparr>sk_admit = (\<lambda>_. 0), sk_order = 0, sk_expire = 0, sk_match = 0\<rparr>"

lemma sample_hub_providers: "hub_providers sample_hub = [(provider_name 1, sample_provider)]"
  by (simp add: sample_hub_def register_provider_def new_hub_def sample_registration_def sample_provider_def Let_def)

lemma sample_hub_keys: "hub_keys_ok sample_hub"
  by (simp add: hub_keys_ok_def sample_hub_providers dict_ok_def) (simp add: sample_provider_def)

lemma sample_routable: "routable clk sample_provider"
  by (simp add: routable_def admitted_def requires_app_attest_def trust_claim_def sample_provider_def sample_caps_def)

lemma sample_fits: "fits ''m'' OPEN None sample_provider" "has_slot sample_provider"
  by (simp_all add: fits_def serves_def has_slot_def claimed_conf_def trust_claim_def conf_map_def sample_provider_def sample_caps_def)

lemma sample_sane: "sane_provider sample_provider"
  using fl.r_exact [OF fl.exact_int [of 20]] by (simp add: sane_provider_def sample_provider_def sample_caps_def)

lemma conf_map_open: "conf_map ''open'' = Some OPEN"
  by (simp add: conf_map_def)

section \<open>When a provider is found\<close>

lemma select_cases [consumes 2, case_names found missing]:
  assumes "conf_map mc = Some conf" "hub_keys_ok h"
  obtains (found) pid where "fst (select_provider sk rep model pref mc maxp sid h) = Inr (Some pid)"
  | (missing) "fst (select_provider sk rep model pref mc maxp sid h) = Inr None"
      "snd (select_provider sk rep model pref mc maxp sid h) = h"
      "fst (greedy_match (\<lambda>_. sk_expire sk) (\<lambda>_. sk_match sk) [route_order model pref conf maxp (session_provider sid h) (sk_order sk)]
         (live_offers (sk_admit sk) rep h)) = []"
proof (cases "fst (greedy_match (\<lambda>_. sk_expire sk) (\<lambda>_. sk_match sk)
    [route_order model pref conf maxp (session_provider sid h) (sk_order sk)] (live_offers (sk_admit sk) rep h))")
  case Nil
  then show ?thesis by (intro missing) (simp_all add: select_provider_def assms(1) Let_def)
next
  case (Cons m ms)
  from greedy_one_some [OF Cons live_offers_ids [OF assms(2)]]
  obtain f where f: "f \<in> set (live_offers (sk_admit sk) rep h)" "off_id f = mr_provider m" by blast
  then obtain k p where "(k, p) \<in> set (hub_providers h)" "f = offer_of (rep (cp_id p)) p" using live_offer_iff by metis
  then have "map_of (hub_providers h) (mr_provider m) \<noteq> None" using hub_key [OF assms(2)] f(2) by force
  with Cons show ?thesis by (intro found [of "mr_provider m"]) (auto simp: select_provider_def assms(1) Let_def)
qed

lemma missing_no_slot:
  assumes "hub_keys_ok h" "rnd (sk_expire sk - sk_order sk) \<le> 120"
    "\<forall>pid p. map_of (hub_providers h) pid = Some p \<longrightarrow> sane_provider p \<and> 0 \<le> rep pid \<and> rep pid \<le> 1"
    "fst (greedy_match (\<lambda>_. sk_expire sk) (\<lambda>_. sk_match sk) [route_order model pref conf maxp (session_provider sid h) (sk_order sk)]
       (live_offers (sk_admit sk) rep h)) = []"
    "map_of (hub_providers h) pid = Some p" "routable (sk_admit sk) p"
  shows "\<not> (fits model conf maxp p \<and> has_slot p)"
proof -
  let ?o = "route_order model pref conf maxp (session_provider sid h) (sk_order sk)"
  have live: "\<not> is_expired (sk_expire sk) ?o" using assms(2) by (simp add: is_expired_def route_order_def)
  have m: "(pid, p) \<in> set (hub_providers h)" using assms(5) by (rule map_of_SomeD)
  then have "cp_id p = pid" using hub_key [OF assms(1)] by blast
  then have "offer_of (rep pid) p \<in> set (live_offers (sk_admit sk) rep h)" using live_offer_iff m assms(6) by metis
  moreover have "sane_offer (offer_of (rep pid) p)" using assms(3,5) sane_offer_of by blast
  ultimately have "\<not> hard_ok ?o (offer_of (rep pid) p)"
    using greedy_one_none [OF assms(4) live_offers_ids [OF assms(1)]] live by blast
  then show ?thesis by (simp add: hard_ok_route)
qed

text \<open>Selection is complete: for a known level, with registered capabilities and reputations in the
  unit interval and a selection that takes less than the order's 120 seconds, a provider is found
  exactly when some admitted, unquarantined provider meets every constraint and has a free slot;
  when none is found the hub is unchanged.\<close>

theorem selection_complete:
  assumes "hub_keys_ok h" "conf_map mc = Some conf" "rnd (sk_expire sk - sk_order sk) \<le> 120"
    "\<forall>pid p. map_of (hub_providers h) pid = Some p \<longrightarrow> sane_provider p \<and> 0 \<le> rep pid \<and> rep pid \<le> 1"
  shows "((\<exists>pid. fst (select_provider sk rep model pref mc maxp sid h) = Inr (Some pid))
        \<longleftrightarrow> (\<exists>pid p. map_of (hub_providers h) pid = Some p \<and> routable (sk_admit sk) p \<and> fits model conf maxp p \<and> has_slot p))
    \<and> (fst (select_provider sk rep model pref mc maxp sid h) = Inr None \<longrightarrow> snd (select_provider sk rep model pref mc maxp sid h) = h)"
  using assms(2,1)
proof (cases rule: select_cases [where sk = sk and rep = rep and model = model and pref = pref and maxp = maxp and sid = sid])
  case (found pid)
  then obtain h' where s: "select_provider sk rep model pref mc maxp sid h = (Inr (Some pid), h')" by (metis prod.collapse)
  obtain m ms where m: "pid = mr_provider m"
    "fst (greedy_match (\<lambda>_. sk_expire sk) (\<lambda>_. sk_match sk) [route_order model pref conf maxp (session_provider sid h) (sk_order sk)]
       (live_offers (sk_admit sk) rep h)) = m # ms"
    using s by (rule select_some) (use assms(2) in simp)
  from greedy_one_some [OF m(2) live_offers_ids [OF assms(1)]]
  obtain f where f: "f \<in> set (live_offers (sk_admit sk) rep h)"
    "hard_ok (route_order model pref conf maxp (session_provider sid h) (sk_order sk)) f" by blast
  then obtain k p where p: "(k, p) \<in> set (hub_providers h)" "routable (sk_admit sk) p" "f = offer_of (rep (cp_id p)) p"
    using live_offer_iff by metis
  then have "map_of (hub_providers h) k = Some p" "fits model conf maxp p \<and> has_slot p"
    using hub_key [OF assms(1)] f(2) by (simp_all add: hard_ok_route)
  with p(2) found show ?thesis by auto
next
  case missing
  then show ?thesis using missing_no_slot [OF assms(1,3,4) missing(3)] by auto
qed

lemma sample_selected:
  "(\<exists>pid p. map_of (hub_providers sample_hub) pid = Some p \<and> routable (sk_admit sample_clock) p \<and> fits ''m'' OPEN None p \<and> has_slot p)"
  by (intro exI [of _ "provider_name 1"] exI [of _ sample_provider]) (simp add: sample_hub_providers sample_routable sample_fits)

lemma selection_complete_witness:
  "\<exists>pid. fst (select_provider sample_clock (\<lambda>_. 1) ''m'' ''balanced'' ''open'' None None (sample_hub :: unit hub)) = Inr (Some pid)"
proof -
  have "\<forall>pid p. map_of (hub_providers (sample_hub :: unit hub)) pid = Some p \<longrightarrow> sane_provider p \<and> (0 :: flt) \<le> 1 \<and> (1 :: flt) \<le> 1"
    by (auto simp: sample_hub_providers sample_sane)
  with selection_complete [OF sample_hub_keys [where 'a = unit] conf_map_open, of sample_clock "\<lambda>_. 1" "''m''" "''balanced''" None None] sample_selected [where 'a = unit]
  show ?thesis by (simp add: sample_clock_def)
qed

lemma sample_selected_pid:
  "select_provider sample_clock (\<lambda>_. 1) ''m'' ''balanced'' ''open'' None None (sample_hub :: unit hub) = (Inr (Some (provider_name 1)), sample_hub)"
proof -
  have live: "\<not> is_expired 0 (route_order ''m'' ''balanced'' OPEN None '''' 0)" by (simp add: is_expired_def route_order_def)
  have offers: "live_offers (\<lambda>_. 0) (\<lambda>_. 1) (sample_hub :: unit hub) = [offer_of 1 sample_provider]"
    by (simp add: live_offers_def sample_hub_providers sample_routable)
  have h: "hard_ok (route_order ''m'' ''balanced'' OPEN None '''' 0) (offer_of 1 sample_provider)"
    by (simp add: hard_ok_route sample_fits)
  have i: "cp_id sample_provider = provider_name 1" by (simp add: sample_provider_def)
  have "fst (greedy_match (\<lambda>_. 0) (\<lambda>_. 0) [route_order ''m'' ''balanced'' OPEN None '''' 0] [offer_of 1 sample_provider]) \<noteq> []"
    using greedy_one_none [of "\<lambda>_. 0" "\<lambda>_. 0" "route_order ''m'' ''balanced'' OPEN None '''' 0" "[offer_of 1 sample_provider]"
        "offer_of 1 sample_provider"] live h sane_offer_of [OF sample_sane, of 1] by auto
  then obtain m ms where m: "fst (greedy_match (\<lambda>_. 0) (\<lambda>_. 0) [route_order ''m'' ''balanced'' OPEN None '''' 0] [offer_of 1 sample_provider]) = m # ms"
    by (auto simp: neq_Nil_conv)
  from greedy_one_some [OF this] have "mr_provider m = provider_name 1" by (simp add: i)
  with m show ?thesis
    by (simp add: select_provider_def conf_map_def sample_clock_def offers session_provider_def remember_affinity_def Let_def sample_hub_providers)
qed

lemma selected_provider_sound_witness:
  "\<not> cp_quarantined sample_provider \<and> has_slot sample_provider"
  using selected_provider_sound [OF sample_hub_keys sample_selected_pid] by (auto simp: sample_hub_providers)

section \<open>The explanation agrees with the selection\<close>

lemma list_index_levels: "list_index levels s = map_option (\<lambda>c. nat (conf_value c)) (conf_map s)"
  by (simp add: levels_def conf_map_def)

lemma claim_index_conf: "claim_index p = nat (conf_value (claimed_conf p))"
  by (cases "pc_trust (cp_caps p)") (simp_all add: claim_index_def claimed_conf_def trust_claim_def list_index_levels conf_map_def)

lemma conf_value_nonneg [simp]: "0 \<le> conf_value c"
  by (cases c) simp_all

lemma explain_None_iff:
  assumes "conf_map mc = Some conf"
  shows "explain_no_match fmt clk model mc maxp h = Inr None
    \<longleftrightarrow> (\<exists>p \<in> set (map snd (hub_providers h)). routable clk p \<and> fits model conf maxp p)"
  by (auto simp: explain_no_match_def list_index_levels assms Let_def claim_index_conf fits_def filter_empty_conv nat_le_eq_zle
      split: option.splits)

text \<open>The explanation is honest: with the same admission clock, \<open>explain_no_match\<close> gives no error
  exactly when some admitted, unquarantined provider meets every constraint (it may be busy), so an
  error is only given when no selection could succeed; and both refuse an unknown level instead of
  lowering it.\<close>

theorem explanation_agrees:
  assumes "hub_keys_ok h"
  shows "(conf_map mc = Some conf \<longrightarrow>
      (explain_no_match fmt (sk_admit sk) model mc maxp h = Inr None
        \<longleftrightarrow> (\<exists>pid p. map_of (hub_providers h) pid = Some p \<and> routable (sk_admit sk) p \<and> fits model conf maxp p))
      \<and> (explain_no_match fmt (sk_admit sk) model mc maxp h \<noteq> Inr None \<longrightarrow>
          fst (select_provider sk rep model pref mc maxp sid h) = Inr None))
    \<and> (conf_map mc = None \<longrightarrow> explain_no_match fmt (sk_admit sk) model mc maxp h = Inl (UnknownLevel mc)
        \<and> select_provider sk rep model pref mc maxp sid h = (Inl (UnknownLevel mc), h))"
proof (cases "conf_map mc")
  case None
  then show ?thesis by (simp add: explain_no_match_def list_index_levels select_provider_def)
next
  case (Some c)
  have vals: "p \<in> set (map snd (hub_providers h)) \<longleftrightarrow> (\<exists>pid. map_of (hub_providers h) pid = Some p)" for p
    using assms by (force simp: hub_keys_ok_def dict_ok_def dest: map_of_SomeD)
  have iff: "explain_no_match fmt (sk_admit sk) model mc maxp h = Inr None
      \<longleftrightarrow> (\<exists>pid p. map_of (hub_providers h) pid = Some p \<and> routable (sk_admit sk) p \<and> fits model c maxp p)"
    unfolding explain_None_iff [OF Some] using vals by blast
  have "fst (select_provider sk rep model pref mc maxp sid h) = Inr None"
    if "explain_no_match fmt (sk_admit sk) model mc maxp h \<noteq> Inr None"
    using Some assms
  proof (cases rule: select_cases [where sk = sk and rep = rep and model = model and pref = pref and maxp = maxp and sid = sid])
    case (found pid)
    then obtain h' where s: "select_provider sk rep model pref mc maxp sid h = (Inr (Some pid), h')" by (metis prod.collapse)
    then obtain m ms where m: "pid = mr_provider m"
      "fst (greedy_match (\<lambda>_. sk_expire sk) (\<lambda>_. sk_match sk) [route_order model pref c maxp (session_provider sid h) (sk_order sk)]
         (live_offers (sk_admit sk) rep h)) = m # ms"
      by (rule select_some) (use Some in simp)
    from greedy_one_some [OF m(2) live_offers_ids [OF assms]]
    obtain f where f: "f \<in> set (live_offers (sk_admit sk) rep h)"
      "hard_ok (route_order model pref c maxp (session_provider sid h) (sk_order sk)) f" by blast
    then obtain k p where p: "(k, p) \<in> set (hub_providers h)" "routable (sk_admit sk) p" "f = offer_of (rep (cp_id p)) p"
      using live_offer_iff by metis
    then have "map_of (hub_providers h) k = Some p" "fits model c maxp p"
      using hub_key [OF assms] f(2) by (simp_all add: hard_ok_route)
    with p(2) that iff show ?thesis by blast
  qed
  with iff Some show ?thesis by simp
qed

lemma explanation_agrees_witness:
  "explain_no_match (\<lambda>_. ''0'') (sk_admit sample_clock) ''m'' ''open'' None (sample_hub :: unit hub) = Inr None"
proof -
  note e = explanation_agrees [OF sample_hub_keys [where 'a = unit], where mc = "''open''" and conf = OPEN]
  show ?thesis using e [THEN conjunct1, rule_format, OF conf_map_open] sample_selected [where 'a = unit] by blast
qed

text \<open>The score shown in the decision trace is computed for the default minimum level: a provider
  claiming less than \<open>hardened\<close> is shown with -1 whatever level the request accepts, even when it is
  the one selected.\<close>

theorem trace_score_ignores_request:
  "trust_value (pc_trust (cp_caps p)) = ''open'' \<or> trust_value (pc_trust (cp_caps p)) = ''contained''
    \<Longrightarrow> score_for_request model pref p = - 1"
  by (cases "pc_trust (cp_caps p)")
    (simp_all add: score_for_request_def compute_score_def claimed_conf_def trust_claim_def conf_map_def Let_def)

lemma trace_score_ignores_request_witness:
  "fst (select_provider sample_clock (\<lambda>_. 1) ''m'' ''balanced'' ''open'' None None (sample_hub :: unit hub)) = Inr (Some (provider_name 1))
    \<and> score_for_request ''m'' ''balanced'' sample_provider = - 1"
  using trace_score_ignores_request [of sample_provider "''m''" "''balanced''"] sample_selected_pid
  by (simp add: sample_provider_def sample_caps_def)

end
