(* ===== verification/HubRuns.thy ===== *)
theory HubRuns
  imports HubQueue HubRoutingLaws
begin

text \<open>
  The hub over time: every state-changing method as an operation, the effects of a sequence of
  operations, and the invariant that every operation keeps. A dispatch task created by
  \<open>ensure_future\<close> may run at any later point, so \<open>Dispatch\<close> is an operation of its own. A send is two
  operations, before and after the await of the socket, on the provider object its caller holds,
  connected or not. \<open>BindConnection\<close> and \<open>RecordModel\<close> are the fields the WebSocket endpoint
  of \<open>main.py\<close> fills in after registration.
\<close>

datatype 'cb hub_op =
    Register register_message string flt flt
  | BindConnection string "string option" string string
  | RecordModel string bool trace "model_capabilities option"
  | Disconnect string
  | Quarantine string bool string
  | ForceDisconnect string string
  | Heartbeat string heartbeat_message flt
  | Challenge string string flt flt
  | AttestResponse validators string trace flt
  | CheckTimeouts flt flt
  | Select select_clock "string \<Rightarrow> flt" string string string "flt option" "string option"
  | CreateQueue string
  | RemoveQueue string
  | TakeMessage string
  | RegisterCallback string 'cb
  | SendStart flt connected_provider inference_request
  | SendEnd bool connected_provider inference_request
  | Enqueue inference_request string string string "flt option" "string option" flt
  | ClearQueue
  | Dispatch "pending_request \<Rightarrow> select_clock"
  | Message validators string trace

definition bind_connection :: "string \<Rightarrow> string option \<Rightarrow> string \<Rightarrow> string \<Rightarrow> 'cb hub \<Rightarrow> 'cb hub" where
  "bind_connection pid country token billing =
     update_provider pid (\<lambda>p. p\<lparr>cp_country := country, cp_token := token, cp_billing := billing\<rparr>)"

definition record_model :: "string \<Rightarrow> bool \<Rightarrow> trace \<Rightarrow> model_capabilities option \<Rightarrow> 'cb hub \<Rightarrow> 'cb hub" where
  "record_model pid ok ident caps = update_provider pid (\<lambda>p. p\<lparr>cp_model_verified := ok, cp_model_identity := ident,
     cp_model_caps := dflt (cp_model_caps p) caps\<rparr>)"

text \<open>The consumer's response task reads its queue from the front.\<close>

definition take_message :: "string \<Rightarrow> 'cb hub \<Rightarrow> 'cb hub" where
  "take_message rid h = (case map_of (hub_queues h) rid of
     Some (m # q) \<Rightarrow> h\<lparr>hub_queues := dict_set rid q (hub_queues h)\<rparr> | _ \<Rightarrow> h)"

fun hub_step :: "'cb hub_op \<Rightarrow> 'cb hub \<Rightarrow> 'cb hub \<times> 'cb hub_effect list" where
  "hub_step (Register msg hex t1 t2) h = (snd (register_provider msg hex t1 t2 h), [])"
| "hub_step (BindConnection pid country token billing) h = (bind_connection pid country token billing h, [])"
| "hub_step (RecordModel pid ok ident caps) h = (record_model pid ok ident caps h, [])"
| "hub_step (Disconnect pid) h = snd (disconnect_provider pid h)"
| "hub_step (Quarantine pid on reason) h = (snd (set_quarantine pid on reason h), [])"
| "hub_step (ForceDisconnect pid reason) h = snd (force_disconnect pid reason h)"
| "hub_step (Heartbeat pid msg now) h = (handle_heartbeat pid msg now h, [])"
| "hub_step (Challenge pid nonce t1 t2) h = send_attestation_challenge pid nonce t1 t2 h"
| "hub_step (AttestResponse v pid data now) h = (snd (handle_attestation_response v pid data now h), [])"
| "hub_step (CheckTimeouts now limit) h = (check_attestation_timeouts now limit h, [])"
| "hub_step (Select sk rep model pref mc maxp sid) h = (snd (select_provider sk rep model pref mc maxp sid h), [])"
| "hub_step (CreateQueue rid) h = (create_response_queue rid h, [])"
| "hub_step (RemoveQueue rid) h = (remove_response_queue rid h, [])"
| "hub_step (TakeMessage rid) h = (take_message rid h, [])"
| "hub_step (RegisterCallback rid cb) h = (register_billing_callback rid cb h, [])"
| "hub_step (SendStart now p req) h = (snd (begin_send now p req h), [])"
| "hub_step (SendEnd ok p req) h = snd (end_send ok p req h)"
| "hub_step (Enqueue req model pref mc maxp sid now) h = (snd (enqueue_request req model pref mc maxp sid now h), [])"
| "hub_step ClearQueue h = snd (clear_queue h)"
| "hub_step (Dispatch clk) h = snd (try_dispatch_queued clk h)"
| "hub_step (Message v pid data) h = snd (handle_provider_message v pid data h)"

fun hub_run :: "'cb hub_op list \<Rightarrow> 'cb hub \<Rightarrow> 'cb hub \<times> 'cb hub_effect list" where
  "hub_run [] h = (h, [])"
| "hub_run (x # xs) h = (case hub_step x h of (h', es) \<Rightarrow> case hub_run xs h' of (h'', es') \<Rightarrow> (h'', es @ es'))"

end
