(* ===== verification/HubInvariant.thy ===== *)
theory HubInvariant
  imports HubRuns
begin

text \<open>
  The invariant \<open>hub_ok\<close> of the hub and its preservation by every operation: one lemma per method,
  collected in \<open>hub_keeps\<close>, and the lift to sequences of operations.
\<close>

named_theorems hub_keeps \<open>operations keep the hub invariant\<close>

definition providers_ok :: "'cb hub \<Rightarrow> bool" where
  "providers_ok h \<longleftrightarrow> dict_ok (hub_providers h) \<and> (\<forall>pid p. map_of (hub_providers h) pid = Some p \<longrightarrow>
     cp_id p = pid \<and> \<not> cp_attest_verified p \<and> (\<exists>n \<le> hub_next h. pid = provider_name n))"

definition routes_ok :: "'cb hub \<Rightarrow> bool" where
  "routes_ok h \<longleftrightarrow> dict_ok (hub_routes h)"

definition tables_ok :: "'cb hub \<Rightarrow> bool" where
  "tables_ok h \<longleftrightarrow> dict_ok (hub_queues h) \<and> dict_ok (hub_callbacks h) \<and> dict_ok (hub_affinity h)"

definition bounds_ok :: "'cb hub \<Rightarrow> bool" where
  "bounds_ok h \<longleftrightarrow> length (hub_affinity h) \<le> AFFINITY_MAX
     \<and> (0 < hub_max_depth h \<longrightarrow> int (length (hub_pending h)) \<le> hub_max_depth h)"

definition hub_ok :: "'cb hub \<Rightarrow> bool" where
  "hub_ok h \<longleftrightarrow> providers_ok h \<and> routes_ok h \<and> tables_ok h \<and> bounds_ok h"

lemma hub_okI: "providers_ok h \<Longrightarrow> routes_ok h \<Longrightarrow> tables_ok h \<Longrightarrow> bounds_ok h \<Longrightarrow> hub_ok h"
  by (simp add: hub_ok_def)

lemma hub_okD: "hub_ok h \<Longrightarrow> providers_ok h" "hub_ok h \<Longrightarrow> routes_ok h" "hub_ok h \<Longrightarrow> tables_ok h" "hub_ok h \<Longrightarrow> bounds_ok h"
  by (simp_all add: hub_ok_def)

lemmas hub_parts = providers_ok_def routes_ok_def tables_ok_def bounds_ok_def

lemma hub_ok_keys: "hub_ok h \<Longrightarrow> hub_keys_ok h"
  by (auto simp: hub_ok_def providers_ok_def hub_keys_ok_def dict_ok_def)

lemma new_hub_ok: "hub_ok (new_hub depth)"
  by (simp add: hub_ok_def hub_parts new_hub_def)

section \<open>Routing names are never reused\<close>

lemma nat_str_digits: "set (nat_str n) \<subseteq> digit_char ` {0..<10}"
  by (induction n rule: nat_str.induct) (subst nat_str.simps, auto)

lemma digit_char_inject: "m < 10 \<Longrightarrow> n < 10 \<Longrightarrow> digit_char m = digit_char n \<Longrightarrow> m = n"
  by (simp add: digit_char_def char_of_eq_iff take_bit_nat_eq_self)

lemma nat_str_nonempty: "nat_str n \<noteq> []"
  by (subst nat_str.simps) simp

lemma nat_str_inject: "nat_str m = nat_str n \<Longrightarrow> m = n"
proof (induction m arbitrary: n rule: nat_str.induct)
  case (1 m)
  show ?case
  proof (cases "m < 10"; cases "n < 10")
    assume "m < 10" "n < 10"
    then show ?thesis using 1(2) digit_char_inject by (simp add: nat_str.simps [of m] nat_str.simps [of n])
  next
    assume c: "\<not> m < 10" "\<not> n < 10"
    have "nat_str (m div 10) = nat_str (n div 10) \<and> digit_char (m mod 10) = digit_char (n mod 10)"
      using 1(2) c by (simp add: nat_str.simps [of m] nat_str.simps [of n])
    then have "m div 10 = n div 10" "m mod 10 = n mod 10" using 1(1) c digit_char_inject by simp_all
    then show ?thesis by (metis div_mult_mod_eq)
  qed (use 1(2) nat_str_nonempty [of "n div 10"] nat_str_nonempty [of "m div 10"] in
      \<open>auto simp: nat_str.simps [of m] nat_str.simps [of n] append_eq_Cons_conv Cons_eq_append_conv\<close>)
qed

lemma provider_name_inject [simp]: "provider_name m = provider_name n \<longleftrightarrow> m = n"
  by (auto simp: provider_name_def dest: nat_str_inject)

section \<open>Updates of one provider\<close>

lemma update_provider_frame [simp]:
  "hub_max_depth (update_provider pid f h) = hub_max_depth h" "hub_queues (update_provider pid f h) = hub_queues h"
  "hub_next (update_provider pid f h) = hub_next h" "hub_affinity (update_provider pid f h) = hub_affinity h"
  "hub_routes (update_provider pid f h) = hub_routes h" "hub_pending (update_provider pid f h) = hub_pending h"
  "hub_callbacks (update_provider pid f h) = hub_callbacks h"
  by (simp_all add: update_provider_def split: option.split)

lemma map_of_update_provider [simp]:
  "map_of (hub_providers (update_provider pid f h)) q = (if q = pid then map_option f (map_of (hub_providers h) pid) else map_of (hub_providers h) q)"
  by (simp add: update_provider_def split: option.split)

lemma dict_ok_update_provider [simp]: "dict_ok (hub_providers h) \<Longrightarrow> dict_ok (hub_providers (update_provider pid f h))"
  by (simp add: update_provider_def split: option.split)

lemma update_provider_ok:
  assumes "hub_ok h" "\<And>p. cp_id (f p) = cp_id p" "\<And>p. \<not> cp_attest_verified p \<Longrightarrow> \<not> cp_attest_verified (f p)"
  shows "hub_ok (update_provider pid f h)"
  using assms by (auto simp: hub_ok_def hub_parts)

lemma handle_heartbeat_ok [hub_keeps]: "hub_ok h \<Longrightarrow> hub_ok (handle_heartbeat pid msg now h)"
  unfolding handle_heartbeat_def by (erule update_provider_ok) simp_all

lemma bind_connection_ok [hub_keeps]: "hub_ok h \<Longrightarrow> hub_ok (bind_connection pid country token billing h)"
  unfolding bind_connection_def by (erule update_provider_ok) simp_all

lemma record_model_ok [hub_keeps]: "hub_ok h \<Longrightarrow> hub_ok (record_model pid ok ident caps h)"
  unfolding record_model_def by (erule update_provider_ok) simp_all

lemma set_quarantine_ok [hub_keeps]: "hub_ok h \<Longrightarrow> hub_ok (snd (set_quarantine pid on reason h))"
  by (auto simp: set_quarantine_def intro: update_provider_ok)

lemma send_attestation_challenge_ok [hub_keeps]: "hub_ok h \<Longrightarrow> hub_ok (fst (send_attestation_challenge pid nonce t1 t2 h))"
  by (auto simp: send_attestation_challenge_def intro: update_provider_ok split: option.split)

lemma judge_attestation_frame: "cp_id (judge_attestation r now p) = cp_id p" "\<not> cp_attest_verified (judge_attestation r now p)"
  by (simp_all add: judge_attestation_def degrade_def Let_def)

lemma handle_attestation_response_ok [hub_keeps]: "hub_ok h \<Longrightarrow> hub_ok (snd (handle_attestation_response v pid data now h))"
  by (auto simp: handle_attestation_response_def judge_attestation_frame intro: update_provider_ok split: option.split)

lemma check_attestation_timeouts_ok [hub_keeps]:
  assumes "hub_ok h" shows "hub_ok (check_attestation_timeouts now limit h)"
proof -
  have m: "map_of (map (\<lambda>(pid, p). (pid, time_out now limit p)) d) q = map_option (time_out now limit) (map_of d q)" for d q
    by (induction d) auto
  have d: "dict_ok (map (\<lambda>(pid, p). (pid, time_out now limit p)) d) = dict_ok d" for d
    by (simp add: dict_ok_def comp_def split_beta)
  have t: "cp_id (time_out now limit p) = cp_id p" "\<not> cp_attest_verified p \<Longrightarrow> \<not> cp_attest_verified (time_out now limit p)" for p
    by (simp_all add: time_out_def degrade_def)
  show ?thesis using assms t by (auto simp: hub_ok_def hub_parts check_attestation_timeouts_def m d)
qed

section \<open>Registration and disconnection\<close>

lemma register_fresh: "hub_ok h \<Longrightarrow> map_of (hub_providers h) (provider_name (Suc (hub_next h))) = None"
  unfolding hub_ok_def providers_ok_def by (metis Suc_n_not_le_n not_None_eq provider_name_inject)

lemma register_provider_ok [hub_keeps]: "hub_ok h \<Longrightarrow> hub_ok (snd (register_provider msg hex t1 t2 h))"
  by (auto simp: hub_ok_def hub_parts register_provider_def Let_def; meson le_SucI)

lemma put_queue_frame [simp]:
  "hub_max_depth (put_queue rid m h) = hub_max_depth h" "hub_providers (put_queue rid m h) = hub_providers h"
  "hub_next (put_queue rid m h) = hub_next h" "hub_affinity (put_queue rid m h) = hub_affinity h"
  "hub_routes (put_queue rid m h) = hub_routes h" "hub_pending (put_queue rid m h) = hub_pending h"
  "hub_callbacks (put_queue rid m h) = hub_callbacks h"
  by (simp_all add: put_queue_def split: option.split)

lemma map_of_put_queue [simp]:
  "map_of (hub_queues (put_queue rid m h)) r = (if r = rid then map_option (\<lambda>q. q @ [m]) (map_of (hub_queues h) rid) else map_of (hub_queues h) r)"
  by (simp add: put_queue_def split: option.split)

lemma dict_ok_put_queue [simp]: "dict_ok (hub_queues h) \<Longrightarrow> dict_ok (hub_queues (put_queue rid m h))"
  by (simp add: put_queue_def split: option.split)

lemma orphans_frame [simp]:
  "hub_max_depth (foldl orphan_request h rs) = hub_max_depth h" "hub_providers (foldl orphan_request h rs) = hub_providers h"
  "hub_next (foldl orphan_request h rs) = hub_next h" "hub_affinity (foldl orphan_request h rs) = hub_affinity h"
  "hub_pending (foldl orphan_request h rs) = hub_pending h" "hub_callbacks (foldl orphan_request h rs) = hub_callbacks h"
  by (induction rs arbitrary: h) (simp_all add: orphan_request_def Let_def)

lemma orphans_routes [simp]:
  "map_of (hub_routes (foldl orphan_request h rs)) r = (if r \<in> set rs then None else map_of (hub_routes h) r)"
  by (induction rs arbitrary: h) (simp_all add: orphan_request_def Let_def)

lemma orphans_dict_ok:
  "dict_ok (hub_routes h) \<Longrightarrow> dict_ok (hub_routes (foldl orphan_request h rs))"
  "dict_ok (hub_queues h) \<Longrightarrow> dict_ok (hub_queues (foldl orphan_request h rs))"
  by (induction rs arbitrary: h) (simp_all add: orphan_request_def Let_def)

lemma orphans_queues:
  "distinct rs \<Longrightarrow> map_of (hub_queues (foldl orphan_request h rs)) r = (if r \<in> set rs
     then map_option (\<lambda>q. q @ [Failed \<lparr>er_request = r, er_error = ''provider_disconnected''\<rparr>]) (map_of (hub_queues h) r)
     else map_of (hub_queues h) r)"
  by (induction rs arbitrary: h) (auto simp: orphan_request_def Let_def)

lemma set_routed_to: "dict_ok (hub_routes h) \<Longrightarrow> rid \<in> set (routed_to h pid) \<longleftrightarrow> map_of (hub_routes h) rid = Some pid"
  by (force simp: routed_to_def dict_ok_def)

lemma distinct_routed_to: "dict_ok (hub_routes h) \<Longrightarrow> distinct (routed_to h pid)"
  by (simp add: routed_to_def dict_ok_def distinct_map_filter)

lemma disconnect_provider_ok [hub_keeps]: "hub_ok h \<Longrightarrow> hub_ok (fst (snd (disconnect_provider pid h)))"
  by (auto simp: disconnect_provider_def Let_def hub_ok_def hub_parts orphans_dict_ok set_routed_to split: option.split)

lemma force_disconnect_ok [hub_keeps]: "hub_ok h \<Longrightarrow> hub_ok (fst (snd (force_disconnect pid reason h)))"
  using disconnect_provider_ok [of h pid] by (auto simp: force_disconnect_def split: prod.split)

section \<open>Requests in flight\<close>

lemma create_response_queue_ok [hub_keeps]: "hub_ok h \<Longrightarrow> hub_ok (create_response_queue rid h)"
  by (simp add: hub_ok_def hub_parts create_response_queue_def)

lemma remove_response_queue_ok [hub_keeps]: "hub_ok h \<Longrightarrow> hub_ok (remove_response_queue rid h)"
  by (simp add: hub_ok_def hub_parts remove_response_queue_def)

lemma take_message_ok [hub_keeps]: "hub_ok h \<Longrightarrow> hub_ok (take_message rid h)"
  by (simp add: hub_ok_def hub_parts take_message_def split: option.split list.split)

lemma register_billing_callback_ok [hub_keeps]: "hub_ok h \<Longrightarrow> hub_ok (register_billing_callback rid cb h)"
  by (simp add: hub_ok_def hub_parts register_billing_callback_def)

lemma put_queue_ok: "hub_ok h \<Longrightarrow> hub_ok (put_queue rid m h)"
  by (simp add: hub_ok_def hub_parts)

lemma pop_callback_ok: "hub_ok h \<Longrightarrow> hub_ok (h\<lparr>hub_callbacks := dict_pop rid (hub_callbacks h)\<rparr>)"
  by (simp add: hub_ok_def hub_parts)

lemma pop_route_ok: "hub_ok h \<Longrightarrow> hub_ok (h\<lparr>hub_routes := dict_pop rid (hub_routes h)\<rparr>)"
  by (simp add: hub_ok_def hub_parts)

lemma set_route_ok: "hub_ok h \<Longrightarrow> hub_ok (h\<lparr>hub_routes := dict_set rid pid (hub_routes h)\<rparr>)"
  by (auto simp: hub_ok_def hub_parts)

lemma active_frame: "cp_id (bump_active p) = cp_id p" "cp_id (drop_active p) = cp_id p"
  "cp_attest_verified (bump_active p) = cp_attest_verified p" "cp_attest_verified (drop_active p) = cp_attest_verified p"
  by (simp_all add: bump_active_def drop_active_def)

lemma bump_ok: "hub_ok h \<Longrightarrow> hub_ok (update_provider pid bump_active h)"
  by (erule update_provider_ok) (simp_all add: active_frame)

lemma drop_ok: "hub_ok h \<Longrightarrow> hub_ok (update_provider pid drop_active h)"
  by (erule update_provider_ok) (simp_all add: active_frame)

lemma begin_send_ok [hub_keeps]: "hub_ok h \<Longrightarrow> hub_ok (snd (begin_send now p req h))"
  using set_route_ok [OF bump_ok, of h "ir_request req" "cp_id p" "cp_id p"] by (simp add: begin_send_def Let_def)

lemma end_send_ok [hub_keeps]: "hub_ok h \<Longrightarrow> hub_ok (fst (snd (end_send ok p req h)))"
  using pop_route_ok [OF drop_ok, of h "ir_request req" "cp_id p"] by (simp add: end_send_def Let_def)

lemma put_pending_ok: "hub_ok h \<Longrightarrow> hub_ok (snd (put_pending p h))"
  by (auto simp: hub_ok_def hub_parts put_pending_def)

lemma enqueue_request_ok [hub_keeps]: "hub_ok h \<Longrightarrow> hub_ok (snd (enqueue_request req model pref mc maxp sid now h))"
  by (auto simp: enqueue_request_def Let_def split: prod.split sum.split) (metis put_pending_ok snd_conv)+

lemma clear_queue_ok [hub_keeps]: "hub_ok h \<Longrightarrow> hub_ok (fst (snd (clear_queue h)))"
  by (simp add: hub_ok_def hub_parts clear_queue_def)

lemma remember_affinity_ok: "hub_ok h \<Longrightarrow> hub_ok (remember_affinity sid pid h)"
proof -
  have "distinct (map fst (tl a))" if "distinct (map fst a)" for a :: "(string \<times> string) list"
    using that by (cases a) auto
  then show "hub_ok h \<Longrightarrow> hub_ok (remember_affinity sid pid h)"
    using length_dict_set [of _ pid "hub_affinity h"]
    by (auto simp: hub_ok_def hub_parts remember_affinity_def Let_def dict_ok_def distinct_update split: option.split)
qed

lemma select_provider_state:
  "snd (select_provider sk rep model pref mc maxp sid h) = h
   \<or> (\<exists>pid. snd (select_provider sk rep model pref mc maxp sid h) = remember_affinity sid pid h)"
  by (auto simp: select_provider_def Let_def split: option.split list.split)

lemma remember_affinity_frame [simp]:
  "hub_max_depth (remember_affinity sid pid h) = hub_max_depth h" "hub_providers (remember_affinity sid pid h) = hub_providers h"
  "hub_queues (remember_affinity sid pid h) = hub_queues h" "hub_next (remember_affinity sid pid h) = hub_next h"
  "hub_routes (remember_affinity sid pid h) = hub_routes h" "hub_pending (remember_affinity sid pid h) = hub_pending h"
  "hub_callbacks (remember_affinity sid pid h) = hub_callbacks h"
  by (simp_all add: remember_affinity_def Let_def split: option.split)

lemma select_provider_frame:
  assumes "select_provider sk rep model pref mc maxp sid h = (r, h')"
  shows "hub_max_depth h' = hub_max_depth h" "hub_providers h' = hub_providers h" "hub_queues h' = hub_queues h"
    "hub_next h' = hub_next h" "hub_routes h' = hub_routes h" "hub_pending h' = hub_pending h" "hub_callbacks h' = hub_callbacks h"
  using select_provider_state [of sk rep model pref mc maxp sid h] assms by auto

lemma put_pending_frame:
  assumes "put_pending p h = (r, h')"
  shows "hub_max_depth h' = hub_max_depth h" "hub_providers h' = hub_providers h" "hub_queues h' = hub_queues h"
    "hub_next h' = hub_next h" "hub_routes h' = hub_routes h" "hub_affinity h' = hub_affinity h" "hub_callbacks h' = hub_callbacks h"
  using assms by (auto simp: put_pending_def split: if_splits)

lemma select_provider_ok [hub_keeps]: "hub_ok h \<Longrightarrow> hub_ok (snd (select_provider sk rep model pref mc maxp sid h))"
  using select_provider_state [of sk rep model pref mc maxp sid h] remember_affinity_ok by metis

lemma dispatch_items_ok: "hub_ok h \<Longrightarrow> hub_ok (fst (snd (dispatch_items clk ps d h)))"
proof (induction ps arbitrary: d h)
  case (Cons p ps)
  obtain r1 h1 where s: "select_for clk p h = (r1, h1)"
    by force
  obtain r2 h2 where p: "put_pending p h = (r2, h2)" by force
  obtain r3 h3 where q: "put_pending p h1 = (r3, h3)" by force
  have ok: "hub_ok h1" "hub_ok h2" "hub_ok h3"
    using select_provider_ok [OF Cons.prems] put_pending_ok [OF Cons.prems] put_pending_ok s p q unfolding select_for_def by (metis snd_conv)+
  show ?case
    using ok Cons.IH [OF ok(1), of True] Cons.IH [OF ok(2), of True] Cons.IH [OF ok(3), of False]
    by (auto simp: s p q split: prod.split sum.split option.split)
qed simp

lemma try_dispatch_queued_ok [hub_keeps]: "hub_ok h \<Longrightarrow> hub_ok (fst (snd (try_dispatch_queued clk h)))"
  by (auto simp: try_dispatch_queued_def intro!: dispatch_items_ok) (simp add: hub_ok_def hub_parts)

lemma handle_done_ok: "hub_ok h \<Longrightarrow> hub_ok (fst (snd (handle_done pid rid m h)))"
  by (simp add: handle_done_def Let_def, rule drop_ok) (simp add: hub_ok_def hub_parts)

lemma handle_error_ok: "hub_ok h \<Longrightarrow> hub_ok (fst (snd (handle_error pid rid m h)))"
  by (simp add: handle_error_def Let_def, rule drop_ok) (simp add: hub_ok_def hub_parts)

lemma handle_provider_message_ok [hub_keeps]: "hub_ok h \<Longrightarrow> hub_ok (fst (snd (handle_provider_message v pid data h)))"
  by (auto simp: handle_provider_message_def handle_other_def handle_done_ok handle_error_ok put_queue_ok
      split: option.split json.split)

section \<open>Sequences of operations\<close>

lemma hub_step_ok: "hub_ok h \<Longrightarrow> hub_ok (fst (hub_step x h))"
  by (cases x) (simp_all add: hub_keeps)

lemma hub_run_Cons:
  "fst (hub_run (x # xs) h) = fst (hub_run xs (fst (hub_step x h)))"
  "snd (hub_run (x # xs) h) = snd (hub_step x h) @ snd (hub_run xs (fst (hub_step x h)))"
  by (simp_all split: prod.split)

lemma hub_run_ok: "hub_ok h \<Longrightarrow> hub_ok (fst (hub_run xs h))"
proof (induction xs arbitrary: h)
  case (Cons x xs)
  from Cons.IH [OF hub_step_ok [OF Cons.prems, of x]] show ?case by (simp only: hub_run_Cons)
qed simp

lemma hub_run_append: "hub_run (xs @ ys) h = (case hub_run xs h of (h', es) \<Rightarrow> case hub_run ys h' of (h'', es') \<Rightarrow> (h'', es @ es'))"
  by (induction xs arbitrary: h) (simp_all split: prod.split)

text \<open>The states the hub can be in, as an inductive relation, and its agreement with the runs.\<close>

inductive hub_reachable :: "int \<Rightarrow> 'cb hub \<Rightarrow> bool" for depth where
  start: "hub_reachable depth (new_hub depth)"
| step: "hub_reachable depth h \<Longrightarrow> hub_reachable depth (fst (hub_step x h))"

inductive_cases hub_reachableE: "hub_reachable depth h"

lemma hub_reachable_run: "hub_reachable depth h \<Longrightarrow> hub_reachable depth (fst (hub_run xs h))"
proof (induction xs arbitrary: h)
  case (Cons x xs)
  from Cons.IH [OF hub_reachable.step [OF Cons.prems, of x]] show ?case by (simp only: hub_run_Cons)
qed simp

lemma hub_reachable_iff: "hub_reachable depth h \<longleftrightarrow> (\<exists>xs. h = fst (hub_run xs (new_hub depth)))"
proof
  show "hub_reachable depth h \<Longrightarrow> \<exists>xs. h = fst (hub_run xs (new_hub depth))"
  proof (induction rule: hub_reachable.induct)
    case start
    show ?case by (rule exI [of _ "[]"]) simp
  next
    case (step h x)
    then obtain xs where "h = fst (hub_run xs (new_hub depth))" by blast
    then show ?case by (intro exI [of _ "xs @ [x]"]) (auto simp: hub_run_append split: prod.split)
  qed
qed (auto intro: hub_reachable_run start)

lemma hub_reachable_ok: "hub_reachable depth h \<Longrightarrow> hub_ok h"
  by (induction rule: hub_reachable.induct) (simp_all add: new_hub_ok hub_step_ok)

end
