(* ===== verification/RegistrationLaws.thy ===== *)
theory RegistrationLaws
  imports Registration HubInvariant
begin

text \<open>
  Properties of the admission of registrations: the JSON hooks accept exactly the unambiguous
  finite documents and lose nothing, and an admitted registration yields a provider on which the
  routing properties rest.
\<close>

section \<open>The JSON hooks\<close>

lemma all_some_map: "all_some (map Some ys) = Some ys"
  by (induction ys) simp_all

lemma all_some_Some: "all_some xs = Some ys \<Longrightarrow> xs = map Some ys"
  by (induction xs arbitrary: ys) (auto split: option.splits)

lemma all_some_iff: "all_some xs = Some ys \<longleftrightarrow> xs = map Some ys"
  using all_some_map all_some_Some by blast

text \<open>No duplicate key and no non-finite constant at any depth.\<close>

fun clean :: "raw_json \<Rightarrow> bool" where
  "clean (RConst _) = False"
| "clean (RList xs) = list_all clean xs"
| "clean (RObj ps) = (distinct (map fst ps) \<and> list_all (\<lambda>(_, v). clean v) ps)"
| "clean _ = True"

fun unload :: "json \<Rightarrow> raw_json" where
  "unload JNull = RNull"
| "unload (JBool b) = RBool b"
| "unload (JInt n) = RInt n"
| "unload (JFloat x) = RFloat x"
| "unload (JStr s) = RStr s"
| "unload (JList xs) = RList (map unload xs)"
| "unload (JObj d) = RObj (map (\<lambda>(k, v). (k, unload v)) d)"

lemma load_unload: "load r = Some j \<Longrightarrow> unload j = r \<and> clean r"
proof (induction r arbitrary: j rule: load.induct)
  case (7 xs)
  then obtain ys where y: "map load xs = map Some ys" "j = JList ys" by (auto simp: all_some_iff)
  have l: "length xs = length ys" using y(1) by (metis length_map)
  have "unload (ys ! i) = xs ! i \<and> clean (xs ! i)" if "i < length xs" for i
  proof (rule "7.IH")
    show "xs ! i \<in> set xs" using that by simp
    show "load (xs ! i) = Some (ys ! i)" using y(1) that l by (metis nth_map)
  qed
  then show ?case using l by (auto simp: y(2) list_all_length intro!: nth_equalityI)
next
  case (8 ps)
  then obtain qs where q: "map (\<lambda>(k, v). map_option (Pair k) (load v)) ps = map Some qs" "distinct (map fst qs)" "j = JObj qs"
    by (auto simp: all_some_iff reject_duplicate_keys_def split: option.splits if_splits)
  have l: "length ps = length qs" using q(1) by (metis length_map)
  have e: "fst (qs ! i) = fst (ps ! i) \<and> unload (snd (qs ! i)) = snd (ps ! i) \<and> clean (snd (ps ! i))" if "i < length ps" for i
  proof -
    have "(case ps ! i of (k, v) \<Rightarrow> map_option (Pair k) (load v)) = Some (qs ! i)"
      using arg_cong [OF q(1), of "\<lambda>xs. xs ! i"] that l by simp
    then obtain v where v: "load (snd (ps ! i)) = Some v" "qs ! i = (fst (ps ! i), v)" by (auto split: prod.splits)
    have "ps ! i \<in> set ps" using that by simp
    with "8.IH" [of "ps ! i" "fst (ps ! i)" "snd (ps ! i)" v] v show ?thesis by simp
  qed
  have f: "map fst qs = map fst ps" using e l by (auto intro!: nth_equalityI)
  have "map (\<lambda>(k, v). (k, unload v)) qs = ps" using e l by (auto intro!: nth_equalityI simp: case_prod_unfold prod_eq_iff)
  then show ?case using q(2) e f by (simp add: q(3) list_all_length case_prod_unfold)
qed auto

lemma load_clean: "clean r \<Longrightarrow> \<exists>j. load r = Some j"
proof (induction r rule: load.induct)
  case (7 xs)
  then have "\<forall>x \<in> set xs. \<exists>j. load x = Some j" by (simp add: list_all_iff)
  then have "map load xs = map Some (map (\<lambda>x. the (load x)) xs)" by (auto simp: comp_def)
  then show ?case by (metis all_some_iff load.simps(7) option.map(2))
next
  case (8 ps)
  let ?qs = "map (\<lambda>(k, v). (k, the (load v))) ps"
  have "\<forall>kv \<in> set ps. \<exists>j. load (snd kv) = Some j" using 8 by (force simp: list_all_iff)
  then have "map (\<lambda>(k, v). map_option (Pair k) (load v)) ps = map Some ?qs" by (auto simp: comp_def)
  then have "all_some (map (\<lambda>(k, v). map_option (Pair k) (load v)) ps) = Some ?qs" by (simp only: all_some_iff)
  then have l: "load (RObj ps) = reject_duplicate_keys ?qs" by simp
  have "map fst ?qs = map fst ps" by (simp add: comp_def case_prod_unfold)
  then have "distinct (map fst ?qs)" using 8(2) by (simp only: clean.simps)
  then show ?case unfolding l reject_duplicate_keys_def by simp
qed auto

lemma unload_inject: "unload a = unload b \<Longrightarrow> a = b"
proof (induction a arbitrary: b rule: unload.induct)
  case (6 xs)
  then obtain ys where b: "b = JList ys" "map unload xs = map unload ys" by (cases b) auto
  have l: "length xs = length ys" using b(2) by (metis length_map)
  have "xs ! i = ys ! i" if "i < length xs" for i
    using "6.IH" [of "xs ! i" "ys ! i"] arg_cong [OF b(2), of "\<lambda>zs. zs ! i"] that l by simp
  with l show ?case by (simp add: b(1) list_eq_iff_nth_eq)
next
  case (7 d)
  then obtain e where b: "b = JObj e" "map (\<lambda>(k, v). (k, unload v)) d = map (\<lambda>(k, v). (k, unload v)) e" by (cases b) auto
  have l: "length d = length e" using b(2) by (metis length_map)
  have "d ! i = e ! i" if "i < length d" for i
  proof -
    have "fst (d ! i) = fst (e ! i) \<and> unload (snd (d ! i)) = unload (snd (e ! i))"
      using arg_cong [OF b(2), of "\<lambda>xs. xs ! i"] that l by (simp add: case_prod_unfold)
    moreover have "d ! i \<in> set d" using that by simp
    ultimately show ?thesis using "7.IH" [of "d ! i" "fst (d ! i)" "snd (d ! i)" "snd (e ! i)"] by (simp add: prod_eq_iff)
  qed
  with l show ?case by (simp add: b(1) list_eq_iff_nth_eq)
next
  case 1
  then show ?case by (cases b) simp_all
next
  case (2 x)
  then show ?case by (cases b) simp_all
next
  case (3 x)
  then show ?case by (cases b) simp_all
next
  case (4 x)
  then show ?case by (cases b) simp_all
next
  case (5 x)
  then show ?case by (cases b) simp_all
qed

text \<open>The decoder with its two hooks accepts exactly the documents without a repeated key and
  without a NaN or infinite constant at any depth, and what it returns determines the document:
  nothing is dropped, merged or reordered.\<close>

theorem json_hooks_exact:
  "((\<exists>j. load r = Some j) \<longleftrightarrow> clean r) \<and> (\<forall>j. load r = Some j \<longrightarrow> unload j = r) \<and> (clean (unload j) \<longrightarrow> load (unload j) = Some j)"
proof -
  have "load (unload j) = Some j" if c: "clean (unload j)"
  proof -
    obtain k where k: "load (unload j) = Some k" using load_clean [OF c] by blast
    then have "unload k = unload j" using load_unload by blast
    with k unload_inject show ?thesis by blast
  qed
  then show ?thesis using load_unload load_clean by blast
qed

lemma json_hooks_exact_witness:
  "load (RObj [(''a'', RInt 1), (''a'', RInt 2)]) = None \<and> load (unload (JObj [(''a'', JInt 1)])) = Some (JObj [(''a'', JInt 1)])"
  using json_hooks_exact [of "RObj [(''a'', RInt 1), (''a'', RInt 2)]" "JObj [(''a'', JInt 1)]"] by auto

section \<open>What an admitted registration gives\<close>

text \<open>What the code relies on from pydantic, on the messages that passed the field checks: the fields of the
  validated message are the values given or the defaults of the model classes, numbers converted to
  \<open>float\<close> where the class says so. On other messages pydantic may coerce, and nothing is assumed.\<close>

definition number_value :: "json \<Rightarrow> flt" where
  "number_value v = (case v of JInt n \<Rightarrow> rnd (of_int n) | JFloat x \<Rightarrow> rnd x | _ \<Rightarrow> 0)"

definition validate_ok :: "(trace \<Rightarrow> register_message option) \<Rightarrow> bool" where
  "validate_ok validate \<longleftrightarrow> (\<forall>d reg caps. registration_ok d \<and> validate d = Some reg
     \<and> map_of d ''capabilities'' = Some (JObj caps) \<longrightarrow>
     map_of d ''provider_name'' = Some (JStr (reg_name reg))
   \<and> map_of caps ''models'' = Some (JList (map JStr (pc_models (reg_caps reg))))
   \<and> jget caps ''max_concurrent'' (JInt 2) = JInt (pc_max_concurrent (reg_caps reg))
   \<and> pc_price_in (reg_caps reg) = number_value (jget caps ''price_per_mtok_input'' (JFloat (lit (5/100))))
   \<and> pc_price_out (reg_caps reg) = number_value (jget caps ''price_per_mtok_output'' (JFloat (lit (20/100))))
   \<and> pc_price_cache (reg_caps reg) = number_value (jget caps ''price_per_mtok_cache'' (JInt 0))
   \<and> pc_tps (reg_caps reg) = number_value (jget caps ''measured_tps'' (JInt 0))
   \<and> jget caps ''hardware'' (JStr ''unknown'') = JStr (pc_hardware (reg_caps reg))
   \<and> jget caps ''model_format'' (JStr '''') = JStr (pc_format (reg_caps reg)))"

lemma number_value_bounds:
  assumes "bounded_number v (of_int m)" "\<bar>m\<bar> \<le> 2 ^ 53"
  shows "0 \<le> number_value v \<and> number_value v \<le> of_int m \<and> rnd (number_value v) = number_value v"
proof -
  have m: "rnd (of_int m) = (of_int m :: rat)" by (rule rnd_exact) (rule representable_of_int [OF assms(2)])
  have b: "0 \<le> rnd x \<and> rnd x \<le> of_int m \<and> rnd (rnd x) = rnd x" if "0 \<le> x" "x \<le> of_int m" for x :: rat
    using rnd_nonneg [OF that(1)] rnd_monotone [OF that(2)] m rnd_idem by simp
  show ?thesis using assms(1) b by (cases v) (simp_all add: bounded_number_def number_value_def)
qed

lemma parse_some:
  assumes "parse_provider_registration scan validate production raw = Some reg"
  obtains d caps where "validate d = Some reg" "registration_ok d" "map_of d ''capabilities'' = Some (JObj caps)" "capabilities_ok caps"
    "production \<Longrightarrow> pc_trust (reg_caps reg) = T_OPEN \<and> apple_hardware (str_lower (pc_hardware (reg_caps reg))) \<and> str_lower (pc_format (reg_caps reg)) = ''gguf''"
    "utf8_length raw \<le> 65536"
proof -
  from assms obtain d where d: "validate d = Some reg" "registration_ok d"
    "production \<Longrightarrow> pc_trust (reg_caps reg) = T_OPEN \<and> apple_hardware (str_lower (pc_hardware (reg_caps reg))) \<and> str_lower (pc_format (reg_caps reg)) = ''gguf''"
    "utf8_length raw \<le> 65536"
    unfolding parse_provider_registration_def MAX_REGISTRATION_BYTES_def
    by (auto split: if_splits option.splits json.splits)
  moreover from d(2) obtain caps where "map_of d ''capabilities'' = Some (JObj caps)" "capabilities_ok caps"
    by (auto simp: registration_ok_def split: option.splits json.splits)
  ultimately show ?thesis using that by blast
qed

text \<open>The hardware of a production node, by its announced name.\<close>

definition apple_name :: "string \<Rightarrow> bool" where
  "apple_name s \<longleftrightarrow> s \<in> {''apple-silicon'', ''apple-silicon-arm64''} \<or> (\<exists>g rest. g \<in> set ''123456'' \<and> s = ''apple-m'' @ g # rest)"

lemma apple_hardware_name: "apple_hardware s \<Longrightarrow> apple_name s"
proof -
  assume a: "apple_hardware s"
  have g: "c \<in> set ''123456''" if "49 \<le> code c" "code c \<le> 54" for c
  proof -
    have "of_char c \<in> {49, 50, 51, 52, 53, 54 :: nat}" using that by (auto simp: code_def)
    then have "c \<in> char_of ` {49, 50, 51, 52, 53, 54 :: nat}" by (metis char_of_char imageI)
    then show ?thesis by (auto simp: char_of_def bit_iff_odd)
  qed
  show ?thesis
  proof (cases "s = ''apple-silicon'' \<or> s = ''apple-silicon-arm64''")
    case False
    with a have m: "starts_with ''apple-m'' s" "7 < length s" "49 \<le> code (s ! 7)" "code (s ! 7) \<le> 54" by (auto simp: apple_hardware_def)
    from m(1) obtain t where t: "s = ''apple-m'' @ t" unfolding starts_with_def by (metis append_take_drop_id)
    with m(2) obtain c rest where "t = c # rest" by (cases t) auto
    with t m(3,4) g [of c] show ?thesis by (auto simp: apple_name_def)
  qed (auto simp: apple_name_def)
qed

text \<open>C33: A registration is admitted only in bounds: one to eight distinct models, 1 to 16 slots, prices
  between 0 and 100 dollars, a throughput of at most 10,000 tokens per second, a visible name of at
  most 64 characters without markup, and in production only an unverified (\<open>open\<close>) node that announces
  Apple hardware and serves GGUF. The provider it registers satisfies the conditions the routing
  properties need and starts with a free slot.\<close>

theorem registration_admits_sane:
  assumes "parse_provider_registration scan validate production raw = Some reg" "validate_ok validate"
  shows "1 \<le> pc_max_concurrent (reg_caps reg) \<and> pc_max_concurrent (reg_caps reg) \<le> 16
    \<and> 1 \<le> length (pc_models (reg_caps reg)) \<and> length (pc_models (reg_caps reg)) \<le> 8 \<and> distinct (pc_models (reg_caps reg))
    \<and> bounded_text (Some (JStr (reg_name reg))) 64 False
    \<and> 0 \<le> pc_price_in (reg_caps reg) \<and> pc_price_in (reg_caps reg) \<le> 100
    \<and> 0 \<le> pc_price_out (reg_caps reg) \<and> pc_price_out (reg_caps reg) \<le> 100
    \<and> 0 \<le> pc_price_cache (reg_caps reg) \<and> pc_price_cache (reg_caps reg) \<le> 100
    \<and> 0 \<le> pc_tps (reg_caps reg) \<and> pc_tps (reg_caps reg) \<le> 10000
    \<and> bounded_text (Some (JStr (pc_hardware (reg_caps reg)))) 128 False
    \<and> (production \<longrightarrow> pc_trust (reg_caps reg) = T_OPEN \<and> apple_name (str_lower (pc_hardware (reg_caps reg)))
         \<and> str_lower (pc_format (reg_caps reg)) = ''gguf'')
    \<and> (case register_provider reg hex t1 t2 h of (pid, h') \<Rightarrow>
        \<exists>p. map_of (hub_providers h') pid = Some p \<and> cp_caps p = reg_caps reg \<and> sane_provider p \<and> has_slot p)"
proof -
  obtain d caps where d: "validate d = Some reg" "registration_ok d" "map_of d ''capabilities'' = Some (JObj caps)" "capabilities_ok caps"
    "production \<Longrightarrow> pc_trust (reg_caps reg) = T_OPEN \<and> apple_hardware (str_lower (pc_hardware (reg_caps reg))) \<and> str_lower (pc_format (reg_caps reg)) = ''gguf''"
    using assms(1) by (rule parse_some) blast
  note v = assms(2) [unfolded validate_ok_def, rule_format, OF conjI [OF d(2) conjI [OF d(1,3)]]]
  note c = d(4) [unfolded capabilities_ok_def]
  have slots: "1 \<le> pc_max_concurrent (reg_caps reg) \<and> pc_max_concurrent (reg_caps reg) \<le> 16"
    using c v by (simp add: bounded_integer_def)
  have models: "1 \<le> length (pc_models (reg_caps reg)) \<and> length (pc_models (reg_caps reg)) \<le> 8 \<and> distinct (pc_models (reg_caps reg))"
    using c v by (simp add: models_ok_def distinct_map)
  have name: "bounded_text (Some (JStr (reg_name reg))) 64 False"
    using d(2) v by (simp add: registration_ok_def)
  have hardware: "bounded_text (Some (JStr (pc_hardware (reg_caps reg)))) 128 False"
    using c v by simp
  have prod: "production \<longrightarrow> pc_trust (reg_caps reg) = T_OPEN \<and> apple_name (str_lower (pc_hardware (reg_caps reg)))
      \<and> str_lower (pc_format (reg_caps reg)) = ''gguf''"
    using d(5) apple_hardware_name by blast
  have price: "0 \<le> pc_price_in (reg_caps reg) \<and> pc_price_in (reg_caps reg) \<le> 100"
    "0 \<le> pc_price_out (reg_caps reg) \<and> pc_price_out (reg_caps reg) \<le> 100"
    "0 \<le> pc_price_cache (reg_caps reg) \<and> pc_price_cache (reg_caps reg) \<le> 100"
    using c v number_value_bounds [where m = 100] by simp_all
  have tps: "0 \<le> pc_tps (reg_caps reg) \<and> pc_tps (reg_caps reg) \<le> 10000 \<and> rnd (pc_tps (reg_caps reg)) = pc_tps (reg_caps reg)"
    using c v number_value_bounds [where m = 10000] by simp
  show ?thesis
    using slots models name hardware prod price tps
    by (simp add: register_provider_def Let_def sane_provider_def has_slot_def)
qed

text \<open>A registration on announced hardware, as raw JSON, decoded, and validated; one that only a
  development coordinator admits and one for production.\<close>

definition raw_on :: "string \<Rightarrow> raw_json" where
  "raw_on hw = RObj [(''type'', RStr ''register''), (''provider_name'', RStr ''n''),
     (''capabilities'', RObj [(''models'', RList [RStr ''m'']), (''max_concurrent'', RInt 2), (''measured_tps'', RInt 20),
        (''price_per_mtok_input'', RInt 1), (''price_per_mtok_output'', RInt 2), (''hardware'', RStr hw), (''model_format'', RStr ''gguf'')])]"

definition message_on :: "string \<Rightarrow> trace" where
  "message_on hw = [(''type'', JStr ''register''), (''provider_name'', JStr ''n''),
     (''capabilities'', JObj [(''models'', JList [JStr ''m'']), (''max_concurrent'', JInt 2), (''measured_tps'', JInt 20),
        (''price_per_mtok_input'', JInt 1), (''price_per_mtok_output'', JInt 2), (''hardware'', JStr hw), (''model_format'', JStr ''gguf'')])]"

definition registration_on :: "string \<Rightarrow> register_message" where
  "registration_on hw = sample_registration\<lparr>reg_caps := sample_caps\<lparr>pc_hardware := hw\<rparr>\<rparr>"

definition sample_raw :: raw_json where
  "sample_raw = raw_on ''h''"

definition sample_validate :: "trace \<Rightarrow> register_message option" where
  "sample_validate d = (if d = message_on ''h'' then Some (registration_on ''h'')
     else if d = message_on ''Apple-M2'' then Some (registration_on ''Apple-M2'') else None)"

lemma registration_on_h: "registration_on ''h'' = sample_registration"
  by (simp add: registration_on_def sample_registration_def sample_caps_def)

lemma load_on: "load (raw_on hw) = Some (JObj (message_on hw))"
  by (simp add: raw_on_def message_on_def reject_duplicate_keys_def)

lemma sample_text: "bounded_text (Some (JStr ''n'')) 64 False" "bounded_text (Some (JStr ''m'')) 128 False"
  "bounded_text (Some (JStr ''h'')) 128 False" "bounded_text (Some (JStr ''Apple-M2'')) 128 False"
  "bounded_text (Some (JStr ''gguf'')) 32 True" "bounded_text (Some (JStr '''')) n True"
  by (simp_all add: bounded_text_def is_control_def is_white_def code_def)

lemma message_on_ok: "bounded_text (Some (JStr hw)) 128 False \<Longrightarrow> registration_ok (message_on hw)"
proof -
  assume hw: "bounded_text (Some (JStr hw)) 128 False"
  have r: "rnd (1/20) \<le> 100" "0 \<le> rnd (1/20)"
    using rnd_monotone [of "1/20" 1] rnd_nonneg [of "1/20"] rnd_exact [OF representable_of_int [of 1]] by simp_all
  show ?thesis using sample_text r hw
    by (simp add: registration_ok_def message_on_def register_fields_def capabilities_ok_def capability_fields_def jget_def
        models_ok_def bounded_integer_def bounded_number_def is_bool_def identity_ok_def key_fields_def)
qed

lemma sample_validate_ok: "validate_ok sample_validate"
proof -
  have n: "rnd 20 = (20 :: rat)" "rnd 1 = (1 :: rat)" "rnd 2 = (2 :: rat)"
    using rnd_exact [OF representable_of_int [of 20]] rnd_exact [OF representable_of_int [of 1]] rnd_exact [OF representable_of_int [of 2]] by simp_all
  show ?thesis
    using n by (auto simp: validate_ok_def sample_validate_def message_on_def registration_on_def sample_registration_def sample_caps_def
        number_value_def jget_def split: if_splits)
qed

lemma sample_admitted: "parse_provider_registration (\<lambda>_. Some sample_raw) sample_validate False '''' = Some sample_registration"
  by (simp add: parse_provider_registration_def MAX_REGISTRATION_BYTES_def utf8_length_def sample_raw_def load_on message_on_ok
      sample_text sample_validate_def registration_on_h)

lemma apple_admitted: "parse_provider_registration (\<lambda>_. Some (raw_on ''Apple-M2'')) sample_validate True '''' = Some (registration_on ''Apple-M2'')"
proof -
  have "message_on ''Apple-M2'' \<noteq> message_on ''h''" by (simp add: message_on_def)
  moreover have "apple_hardware (str_lower ''Apple-M2'')" "str_lower ''gguf'' = ''gguf''" by code_simp+
  ultimately show ?thesis
    by (simp add: parse_provider_registration_def MAX_REGISTRATION_BYTES_def utf8_length_def load_on message_on_ok
        sample_text sample_validate_def) (simp add: registration_on_def sample_caps_def)
qed

lemma registration_admits_sane_witness:
  "apple_name (str_lower (pc_hardware (reg_caps (registration_on ''Apple-M2''))))"
  using registration_admits_sane [OF apple_admitted sample_validate_ok] by blast

end
