(* ===== verification/Quality.thy ===== *)
theory Quality
  imports Json PyFloat
begin

text \<open>
  The two trackers that feed routing: \<open>coordinator/reputation.py\<close> (an exponential average of the
  outcomes of a provider's requests) and \<open>coordinator/tps_tracker.py\<close> (measured throughput per
  provider and model, with a hardware table for the time before measurements). Timestamps of the
  kept records are arguments; the warning log of an anomaly is left out.
\<close>

section \<open>Reputation\<close>

datatype request_outcome = SUCCESS | ERROR | TIMEOUT | DISCONNECT

fun outcome_value :: "request_outcome \<Rightarrow> string" where
  "outcome_value SUCCESS = ''success''"
| "outcome_value ERROR = ''error''"
| "outcome_value TIMEOUT = ''timeout''"
| "outcome_value DISCONNECT = ''disconnect''"

record outcome_record =
  or_outcome :: request_outcome
  or_tokens :: int
  or_latency :: int
  or_time :: flt

record reputation =
  rp_id :: string
  rp_success :: flt
  rp_latency :: flt
  rp_total :: nat
  rp_successes :: nat
  rp_failures :: nat
  rp_timeouts :: nat
  rp_recent :: "outcome_record list"

definition new_reputation :: "string \<Rightarrow> reputation" where
  "new_reputation pid = \<lparr>rp_id = pid, rp_success = 1/2, rp_latency = 1/2, rp_total = 0, rp_successes = 0,
     rp_failures = 0, rp_timeouts = 0, rp_recent = []\<rparr>"

definition reputation_score :: "reputation \<Rightarrow> flt" where
  "reputation_score r = (if rp_total r < 3 then 1/2
     else rnd (rnd (lit (7/10) * rp_success r) + rnd (lit (3/10) * rp_latency r)))"

definition is_degraded :: "reputation \<Rightarrow> bool" where
  "is_degraded r \<longleftrightarrow> 5 \<le> rp_total r \<and> rp_success r < 1/2"

text \<open>\<open>alpha * x + (1 - alpha) * ema\<close> in floats.\<close>

definition ema :: "flt \<Rightarrow> flt \<Rightarrow> flt \<Rightarrow> flt" where
  "ema alpha x e = rnd (rnd (alpha * x) + rnd (rnd (1 - alpha) * e))"

definition ALPHA :: flt where "ALPHA = lit (2/10)"

definition latency_norm :: "int \<Rightarrow> flt" where
  "latency_norm ms = max 0 (rnd (1 - int_div ms 5000))"

definition record_outcome :: "request_outcome \<Rightarrow> int \<Rightarrow> int \<Rightarrow> flt \<Rightarrow> reputation \<Rightarrow> reputation" where
  "record_outcome oc tokens latency now r =
     (let r1 = r\<lparr>rp_total := rp_total r + 1, rp_recent := deque_append 50
            \<lparr>or_outcome = oc, or_tokens = tokens, or_latency = latency, or_time = now\<rparr> (rp_recent r)\<rparr>
      in case oc of
        SUCCESS \<Rightarrow> r1\<lparr>rp_successes := rp_successes r + 1, rp_success := ema ALPHA 1 (rp_success r),
            rp_latency := ema ALPHA (latency_norm latency) (rp_latency r)\<rparr>
      | ERROR \<Rightarrow> r1\<lparr>rp_failures := rp_failures r + 1, rp_success := ema ALPHA 0 (rp_success r)\<rparr>
      | TIMEOUT \<Rightarrow> r1\<lparr>rp_timeouts := rp_timeouts r + 1, rp_success := ema ALPHA 0 (rp_success r),
            rp_latency := ema ALPHA 0 (rp_latency r)\<rparr>
      | DISCONNECT \<Rightarrow> r1\<lparr>rp_failures := rp_failures r + 1, rp_success := ema ALPHA 0 (rp_success r)\<rparr>)"

definition reputation_dict :: "reputation \<Rightarrow> trace" where
  "reputation_dict r =
     [(''provider_id'', JStr (rp_id r)), (''score'', JFloat (py_round (reputation_score r) 3)),
      (''success_rate_ema'', JFloat (py_round (rp_success r) 3)), (''latency_score_ema'', JFloat (py_round (rp_latency r) 3)),
      (''total_requests'', JInt (int (rp_total r))), (''total_successes'', JInt (int (rp_successes r))),
      (''total_failures'', JInt (int (rp_failures r))), (''total_timeouts'', JInt (int (rp_timeouts r))),
      (''is_degraded'', JBool (is_degraded r)),
      (''recent'', JList (map (\<lambda>x. JObj [(''outcome'', JStr (outcome_value (or_outcome x))), (''tokens'', JInt (or_tokens x)),
          (''latency_ms'', JInt (or_latency x))]) (last_n 10 (rp_recent r))))]"

type_synonym reputation_tracker = "(string, reputation) dict"

definition rep_get_or_create :: "string \<Rightarrow> reputation_tracker \<Rightarrow> reputation \<times> reputation_tracker" where
  "rep_get_or_create pid t = (case map_of t pid of Some r \<Rightarrow> (r, t)
     | None \<Rightarrow> (new_reputation pid, dict_set pid (new_reputation pid) t))"

text \<open>\<open>record_success\<close>, \<open>record_error\<close>, \<open>record_timeout\<close> and \<open>record_disconnect\<close>; the last three pass
  no token count and no latency.\<close>

definition track_outcome :: "string \<Rightarrow> request_outcome \<Rightarrow> int \<Rightarrow> int \<Rightarrow> flt \<Rightarrow> reputation_tracker \<Rightarrow> reputation_tracker" where
  "track_outcome pid oc tokens latency now t = (case rep_get_or_create pid t of
     (r, t') \<Rightarrow> dict_set pid (record_outcome oc tokens latency now r) t')"

definition record_success :: "string \<Rightarrow> int \<Rightarrow> int \<Rightarrow> flt \<Rightarrow> reputation_tracker \<Rightarrow> reputation_tracker" where
  "record_success pid tokens latency = track_outcome pid SUCCESS tokens latency"

definition record_error :: "string \<Rightarrow> flt \<Rightarrow> reputation_tracker \<Rightarrow> reputation_tracker" where
  "record_error pid = track_outcome pid ERROR 0 0"

definition record_timeout :: "string \<Rightarrow> flt \<Rightarrow> reputation_tracker \<Rightarrow> reputation_tracker" where
  "record_timeout pid = track_outcome pid TIMEOUT 0 0"

definition record_disconnect :: "string \<Rightarrow> flt \<Rightarrow> reputation_tracker \<Rightarrow> reputation_tracker" where
  "record_disconnect pid = track_outcome pid DISCONNECT 0 0"

definition get_score :: "string \<Rightarrow> reputation_tracker \<Rightarrow> flt \<times> reputation_tracker" where
  "get_score pid t = (case rep_get_or_create pid t of (r, t') \<Rightarrow> (reputation_score r, t'))"

definition tracker_degraded :: "string \<Rightarrow> reputation_tracker \<Rightarrow> bool \<times> reputation_tracker" where
  "tracker_degraded pid t = (case rep_get_or_create pid t of (r, t') \<Rightarrow> (is_degraded r, t'))"

definition reputation_stats :: "reputation_tracker \<Rightarrow> trace list" where
  "reputation_stats t = map (\<lambda>(_, r). reputation_dict r) t"

section \<open>Throughput\<close>

text \<open>The hardware table, in the order the prefix search visits it.\<close>

definition EXPECTED_TPS :: "(string \<times> string, flt) dict" where
  "EXPECTED_TPS = [
     ((''apple-m1'', ''0.5b''), 80), ((''apple-m1'', ''3b''), 40), ((''apple-m1'', ''7b''), 20),
     ((''apple-m1'', ''8b''), 18), ((''apple-m1'', ''13b''), 10), ((''apple-m1-pro'', ''7b''), 35),
     ((''apple-m1-pro'', ''8b''), 32), ((''apple-m1-pro'', ''13b''), 18), ((''apple-m1-max'', ''7b''), 45),
     ((''apple-m1-max'', ''13b''), 25), ((''apple-m1-max'', ''70b''), 8), ((''apple-m2'', ''7b''), 30),
     ((''apple-m2-pro'', ''7b''), 45), ((''apple-m2-pro'', ''13b''), 25), ((''apple-m2-max'', ''7b''), 55),
     ((''apple-m2-max'', ''70b''), 12), ((''apple-m2-ultra'', ''7b''), 70),
     ((''apple-m2-ultra'', ''70b''), 20), ((''apple-m3'', ''7b''), 35), ((''apple-m3-pro'', ''7b''), 50),
     ((''apple-m3-max'', ''7b''), 65), ((''apple-m3-max'', ''70b''), 15), ((''apple-m4'', ''7b''), 40),
     ((''apple-m4-pro'', ''7b''), 60), ((''apple-m4-pro'', ''13b''), 35), ((''apple-m4-max'', ''7b''), 80),
     ((''apple-m4-max'', ''70b''), 22), ((''nvidia-rtx3060'', ''7b''), 40),
     ((''nvidia-rtx3070'', ''7b''), 55), ((''nvidia-rtx3080'', ''7b''), 70),
     ((''nvidia-rtx3090'', ''7b''), 90), ((''nvidia-rtx3090'', ''13b''), 50),
     ((''nvidia-rtx3090'', ''70b''), 12), ((''nvidia-rtx4060'', ''7b''), 50),
     ((''nvidia-rtx4070'', ''7b''), 65), ((''nvidia-rtx4080'', ''7b''), 85),
     ((''nvidia-rtx4090'', ''7b''), 130), ((''nvidia-rtx4090'', ''13b''), 75),
     ((''nvidia-rtx4090'', ''70b''), 20), ((''amd-ryzen-7'', ''7b''), 15), ((''amd-ryzen-9'', ''7b''), 25),
     ((''amd-epyc'', ''7b''), 30), ((''amd-epyc-sev'', ''7b''), 28), ((''intel-core-i7'', ''7b''), 12),
     ((''intel-core-i9'', ''7b''), 18), ((''intel-xeon'', ''7b''), 20), ((''unknown'', ''0.5b''), 30),
     ((''unknown'', ''3b''), 15), ((''unknown'', ''7b''), 10), ((''unknown'', ''8b''), 9),
     ((''unknown'', ''13b''), 5), ((''unknown'', ''70b''), 2)]"

definition SIZES :: "string list" where
  "SIZES = [''0.5b'', ''1b'', ''3b'', ''7b'', ''8b'', ''13b'', ''14b'', ''27b'', ''34b'', ''70b'', ''72b'', ''405b'']"

definition BARE_SIZES :: "string list" where
  "BARE_SIZES = [''0.5'', ''1'', ''3'', ''7'', ''8'', ''13'', ''14'', ''27'', ''34'', ''70'', ''72'', ''405'']"

definition extract_model_size :: "string \<Rightarrow> string" where
  "extract_model_size name = (let low = str_lower name in
     case find (\<lambda>s. str_contains s low) SIZES of Some s \<Rightarrow> s
     | None \<Rightarrow> (case find (\<lambda>s. str_contains (''-'' @ s @ ''-'') low \<or> str_contains ('' '' @ s @ '' '') low \<or> ends_with (''-'' @ s) low)
              BARE_SIZES of Some s \<Rightarrow> s @ ''b'' | None \<Rightarrow> ''7b''))"

definition estimate_initial_tps :: "string \<Rightarrow> string \<Rightarrow> flt" where
  "estimate_initial_tps hardware model = (let size = extract_model_size model; hw = str_lower hardware in
     case map_of EXPECTED_TPS (hw, size) of Some x \<Rightarrow> x
     | None \<Rightarrow> (case find (\<lambda>((khw, ksize), _). starts_with khw hw \<and> ksize = size) EXPECTED_TPS of
         Some (k, _) \<Rightarrow> dflt 0 (map_of EXPECTED_TPS k)
       | None \<Rightarrow> (case map_of EXPECTED_TPS (''unknown'', size) of Some x \<Rightarrow> x | None \<Rightarrow> 10)))"

record tps_measurement =
  ms_tokens :: int
  ms_seconds :: flt
  ms_tps :: flt
  ms_time :: flt

text \<open>\<open>min_observed\<close> is \<open>None\<close> for the initial infinity.\<close>

record model_tps =
  mt_provider :: string
  mt_model :: string
  mt_hardware :: string
  mt_estimated :: flt
  mt_ema :: flt
  mt_alpha :: flt
  mt_recent :: "tps_measurement list"
  mt_requests :: nat
  mt_tokens :: int
  mt_min :: "flt option"
  mt_max :: flt

definition new_model_tps :: "string \<Rightarrow> string \<Rightarrow> string \<Rightarrow> model_tps" where
  "new_model_tps pid model hw = \<lparr>mt_provider = pid, mt_model = model, mt_hardware = hw,
     mt_estimated = estimate_initial_tps hw model, mt_ema = 0, mt_alpha = lit (15/100), mt_recent = [],
     mt_requests = 0, mt_tokens = 0, mt_min = None, mt_max = 0\<rparr>"

definition record_tps :: "int \<Rightarrow> flt \<Rightarrow> flt \<Rightarrow> model_tps \<Rightarrow> model_tps" where
  "record_tps tokens seconds now m = (if seconds \<le> 0 \<or> tokens \<le> 0 then m
     else (let tps = rnd (of_int tokens / seconds) in
       m\<lparr>mt_recent := deque_append 100 \<lparr>ms_tokens = tokens, ms_seconds = seconds, ms_tps = tps, ms_time = now\<rparr> (mt_recent m),
         mt_requests := mt_requests m + 1, mt_tokens := mt_tokens m + tokens,
         mt_ema := (if mt_ema m = 0 then tps else ema (mt_alpha m) tps (mt_ema m)),
         mt_min := Some (case mt_min m of None \<Rightarrow> tps | Some x \<Rightarrow> min x tps), mt_max := max (mt_max m) tps\<rparr>))"

definition effective_tps :: "model_tps \<Rightarrow> flt" where
  "effective_tps m = (if 3 \<le> mt_requests m then mt_ema m
     else if 0 < mt_requests m then
       (let w = int_div (int (mt_requests m)) 3 in rnd (rnd (w * mt_ema m) + rnd (rnd (1 - w) * mt_estimated m)))
     else mt_estimated m)"

definition is_anomalous :: "model_tps \<Rightarrow> bool" where
  "is_anomalous m = (if mt_requests m < 5 then False
     else if mt_recent m \<noteq> [] then ms_tps (last (mt_recent m)) < rnd (mt_ema m * (1/2)) else False)"

definition model_tps_dict :: "model_tps \<Rightarrow> trace" where
  "model_tps_dict m =
     [(''provider_id'', JStr (mt_provider m)), (''model'', JStr (mt_model m)), (''hardware'', JStr (mt_hardware m)),
      (''estimated_tps'', JFloat (py_round (mt_estimated m) 1)), (''observed_tps_ema'', JFloat (py_round (mt_ema m) 1)),
      (''effective_tps'', JFloat (py_round (effective_tps m) 1)), (''total_requests'', JInt (int (mt_requests m))),
      (''total_tokens'', JInt (mt_tokens m)), (''is_anomalous'', JBool (is_anomalous m)),
      (''recent'', JList (map (\<lambda>x. JObj [(''tps'', JFloat (py_round (ms_tps x) 1)), (''tokens'', JInt (ms_tokens x))])
         (last_n 10 (mt_recent m))))]"

type_synonym tps_tracker = "(string \<times> string, model_tps) dict"

definition tps_get_or_create :: "string \<Rightarrow> string \<Rightarrow> string \<Rightarrow> tps_tracker \<Rightarrow> model_tps \<times> tps_tracker" where
  "tps_get_or_create pid model hw t = (case map_of t (pid, model) of Some m \<Rightarrow> (m, t)
     | None \<Rightarrow> (new_model_tps pid model hw, dict_set (pid, model) (new_model_tps pid model hw) t))"

definition tps_record_request :: "string \<Rightarrow> string \<Rightarrow> int \<Rightarrow> flt \<Rightarrow> string \<Rightarrow> flt \<Rightarrow> tps_tracker \<Rightarrow> tps_tracker" where
  "tps_record_request pid model tokens seconds hw now t = (case tps_get_or_create pid model hw t of
     (m, t') \<Rightarrow> dict_set (pid, model) (record_tps tokens seconds now m) t')"

definition get_effective_tps :: "string \<Rightarrow> string \<Rightarrow> string \<Rightarrow> tps_tracker \<Rightarrow> flt \<times> tps_tracker" where
  "get_effective_tps pid model hw t = (case tps_get_or_create pid model hw t of (m, t') \<Rightarrow> (effective_tps m, t'))"

definition tps_stats :: "tps_tracker \<Rightarrow> trace list" where
  "tps_stats t = map (\<lambda>(_, m). model_tps_dict m) t"

end
