(* ===== verification/QualityLaws.thy ===== *)
theory QualityLaws
  imports Quality
begin

text \<open>
  What the trackers promise: reputation averages are averages (they stay in the unit interval and
  react to the last few outcomes), the counters add up, and the throughput record only changes on a
  completed request.
\<close>

section \<open>Weighted averages in floats\<close>

lemma mix_unit:
  assumes "0 \<le> v" "0 \<le> w" "rnd v = v" "rnd w = w" "rnd (v + w) = 1" "0 \<le> x" "x \<le> 1" "0 \<le> y" "y \<le> 1"
  shows "0 \<le> rnd (rnd (v * x) + rnd (w * y)) \<and> rnd (rnd (v * x) + rnd (w * y)) \<le> 1"
proof -
  have "rnd (v * x) \<le> v" using fl.mult_unit_le [of v x] assms by (simp add: mult.commute)
  moreover have "rnd (w * y) \<le> w" using fl.mult_unit_le [of w y] assms by (simp add: mult.commute)
  ultimately have "rnd (rnd (v * x) + rnd (w * y)) \<le> rnd (v + w)" by (intro fl.mono add_mono)
  moreover have "0 \<le> rnd (v * x)" "0 \<le> rnd (w * y)" using assms by (simp_all add: fl.nonneg)
  ultimately show ?thesis using assms(5) by (simp add: fl.nonneg)
qed

lemma ema_mono: "alpha \<le> 1 \<Longrightarrow> e \<le> e' \<Longrightarrow> ema alpha x e \<le> ema alpha x e'"
  unfolding ema_def by (intro fl.mono add_left_mono mult_left_mono fl.nonneg) simp_all

lemma ALPHA_facts: "0 \<le> ALPHA" "ALPHA \<le> 1" "rnd ALPHA = ALPHA" "rnd (ALPHA + rnd (1 - ALPHA)) = 1"
  by code_simp+

lemma ema_unit: "0 \<le> x \<Longrightarrow> x \<le> 1 \<Longrightarrow> 0 \<le> e \<Longrightarrow> e \<le> 1 \<Longrightarrow> 0 \<le> ema ALPHA x e \<and> ema ALPHA x e \<le> 1"
  unfolding ema_def by (rule mix_unit) (simp_all add: ALPHA_facts fl.nonneg fl.idem)

lemma latency_norm_unit: "0 \<le> ms \<Longrightarrow> 0 \<le> latency_norm ms \<and> latency_norm ms \<le> 1"
  by (simp add: latency_norm_def int_div_def fl.nonneg fl.le_1)

section \<open>Reputation over a sequence of outcomes\<close>

text \<open>An outcome with its token count, latency and time.\<close>

type_synonym report = "request_outcome \<times> int \<times> int \<times> flt"

definition report_on :: "reputation \<Rightarrow> report \<Rightarrow> reputation" where
  "report_on r x = (case x of (oc, tokens, ms, now) \<Rightarrow> record_outcome oc tokens ms now r)"

definition history :: "string \<Rightarrow> report list \<Rightarrow> reputation" where
  "history pid xs = foldl report_on (new_reputation pid) xs"

lemma history_snoc [simp]: "history pid (xs @ [x]) = report_on (history pid xs) x"
  by (simp add: history_def)

definition succeeded :: "report \<Rightarrow> bool" where
  "succeeded x \<longleftrightarrow> fst x = SUCCESS"

definition averages_ok :: "reputation \<Rightarrow> bool" where
  "averages_ok r \<longleftrightarrow> 0 \<le> rp_success r \<and> rp_success r \<le> 1 \<and> 0 \<le> rp_latency r \<and> rp_latency r \<le> 1"

lemma record_outcome_averages: "0 \<le> ms \<Longrightarrow> averages_ok r \<Longrightarrow> averages_ok (record_outcome oc tokens ms now r)"
  by (cases oc) (simp_all add: averages_ok_def record_outcome_def Let_def ema_unit latency_norm_unit)

lemma report_success: "rp_success (report_on r x) = ema ALPHA (if succeeded x then 1 else 0) (rp_success r)"
  by (cases x; cases "fst x") (auto simp: report_on_def succeeded_def record_outcome_def Let_def)

lemma report_total: "rp_total (report_on r x) = Suc (rp_total r)"
  by (cases x; cases "fst x") (auto simp: report_on_def record_outcome_def Let_def)

lemma history_total [simp]: "rp_total (history pid xs) = length xs"
  by (induction xs rule: rev_induct) (simp_all add: report_total, simp add: history_def new_reputation_def)

lemma history_averages:
  assumes "\<forall>(oc, tokens, ms, now) \<in> set xs. 0 \<le> ms" shows "averages_ok (history pid xs)"
  using assms
proof (induction xs rule: rev_induct)
  case Nil
  then show ?case by (simp add: history_def new_reputation_def averages_ok_def)
next
  case (snoc x xs)
  obtain oc tokens ms now where x: "x = (oc, tokens, ms, now)" by (cases x) auto
  from snoc show ?case by (auto simp: x report_on_def intro: record_outcome_averages)
qed

lemma score_unit: "averages_ok r \<Longrightarrow> 0 \<le> reputation_score r \<and> reputation_score r \<le> 1"
proof (cases "rp_total r < 3")
  case False
  assume "averages_ok r"
  moreover have "rnd (lit (7/10) + lit (3/10)) = 1" "0 \<le> lit (7/10)" "0 \<le> lit (3/10)" by code_simp+
  ultimately show ?thesis
    using mix_unit [of "lit (7/10)" "lit (3/10)" "rp_success r" "rp_latency r"] False
    by (simp add: averages_ok_def reputation_score_def fl.idem)
qed (simp add: reputation_score_def)

definition counted :: "request_outcome set \<Rightarrow> report list \<Rightarrow> nat" where
  "counted A xs = length (filter (\<lambda>x. fst x \<in> A) xs)"

lemma history_counters:
  "rp_successes (history pid xs) = counted {SUCCESS} xs \<and> rp_timeouts (history pid xs) = counted {TIMEOUT} xs
   \<and> rp_failures (history pid xs) = counted {ERROR, DISCONNECT} xs"
proof (induction xs rule: rev_induct)
  case Nil
  then show ?case by (simp add: history_def new_reputation_def counted_def)
next
  case (snoc x xs)
  obtain oc tokens ms now where x: "x = (oc, tokens, ms, now)" by (cases x) auto
  from snoc show ?case by (cases oc) (simp_all add: x report_on_def record_outcome_def Let_def counted_def)
qed

text \<open>Over any sequence of outcomes with nonnegative latencies, the two averages and the composite
  score stay between 0 and 1, the success, failure and timeout counters add up to the number of
  outcomes, and fewer than three outcomes give the neutral score.\<close>

theorem reputation_in_range:
  assumes "\<forall>(oc, tokens, ms, now) \<in> set xs. 0 \<le> ms"
  shows "averages_ok (history pid xs) \<and> 0 \<le> reputation_score (history pid xs) \<and> reputation_score (history pid xs) \<le> 1
    \<and> rp_successes (history pid xs) + rp_failures (history pid xs) + rp_timeouts (history pid xs) = length xs
    \<and> (length xs < 3 \<longrightarrow> reputation_score (history pid xs) = 1/2)"
proof -
  have "counted {SUCCESS} xs + counted {ERROR, DISCONNECT} xs + counted {TIMEOUT} xs = length xs"
  proof (induction xs)
    case (Cons x xs)
    then show ?case by (cases "fst x") (auto simp: counted_def)
  qed (simp add: counted_def)
  moreover have "reputation_score (history pid xs) = 1/2" if "length xs < 3" using that by (simp add: reputation_score_def)
  ultimately show ?thesis
    using history_averages [OF assms, of pid] score_unit [OF history_averages [OF assms, of pid]] history_counters [of pid xs]
    by simp
qed

lemma reputation_in_range_witness:
  "averages_ok (history ''p'' [(SUCCESS, 5, 200, 0), (ERROR, 0, 0, 1), (TIMEOUT, 0, 0, 2)])"
  using reputation_in_range [of "[(SUCCESS, 5, 200, 0), (ERROR, 0, 0, 1), (TIMEOUT, 0, 0, 2)]" "''p''"] by simp

section \<open>How fast the score reacts\<close>

definition fade :: "bool \<Rightarrow> flt \<Rightarrow> flt" where
  "fade ok e = ema ALPHA (if ok then 1 else 0) e"

lemma fade_mono: "e \<le> e' \<Longrightarrow> fade ok e \<le> fade ok e'"
  unfolding fade_def by (rule ema_mono [OF ALPHA_facts(2)])

lemma four_failures: "e \<le> 1 \<Longrightarrow> fade False (fade False (fade False (fade False e))) < 1/2"
proof -
  assume "e \<le> 1"
  then have "fade False (fade False (fade False (fade False e))) \<le> fade False (fade False (fade False (fade False 1)))"
    by (intro fade_mono)
  also have "\<dots> < 1/2" by code_simp
  finally show ?thesis .
qed

lemma four_successes: "0 \<le> e \<Longrightarrow> 1/2 \<le> fade True (fade True (fade True (fade True e)))"
proof -
  assume "0 \<le> e"
  have "1/2 \<le> fade True (fade True (fade True (fade True 0)))" by code_simp
  also have "\<dots> \<le> fade True (fade True (fade True (fade True e)))"
    using \<open>0 \<le> e\<close> by (intro fade_mono)
  finally show ?thesis .
qed

text \<open>Four outcomes decide: after any history with at least one earlier outcome, four failures in a
  row (errors, timeouts or disconnects) mark the provider as degraded, and four successes in a row
  clear the mark, however bad the history was.\<close>

theorem reputation_reacts:
  assumes "\<forall>(oc, tokens, ms, now) \<in> set xs. 0 \<le> ms" "xs \<noteq> []"
  shows "(\<not> succeeded a \<and> \<not> succeeded b \<and> \<not> succeeded c \<and> \<not> succeeded d \<longrightarrow> is_degraded (history pid (xs @ [a, b, c, d])))
    \<and> (succeeded a \<and> succeeded b \<and> succeeded c \<and> succeeded d \<longrightarrow> \<not> is_degraded (history pid (xs @ [a, b, c, d])))"
proof -
  let ?r = "history pid (xs @ [a, b, c, d])"
  have eq: "?r = report_on (report_on (report_on (report_on (history pid xs) a) b) c) d" by (simp add: history_def)
  have "0 \<le> rp_success (history pid xs) \<and> rp_success (history pid xs) \<le> 1"
    using history_averages [OF assms(1)] by (simp add: averages_ok_def)
  moreover have "rp_success ?r = fade (succeeded d) (fade (succeeded c) (fade (succeeded b) (fade (succeeded a) (rp_success (history pid xs)))))"
    by (simp add: eq report_success fade_def)
  moreover have "5 \<le> rp_total ?r" using assms(2) by (cases xs) simp_all
  ultimately show ?thesis using four_failures four_successes
    by (auto simp: is_degraded_def not_less)
qed

lemma reputation_reacts_witness:
  "is_degraded (history ''p'' ([(SUCCESS, 9, 100, 0)] @ [(ERROR, 0, 0, 1), (TIMEOUT, 0, 0, 2), (DISCONNECT, 0, 0, 3), (ERROR, 0, 0, 4)]))"
  using reputation_reacts [of "[(SUCCESS, 9, 100, 0)]" "(ERROR, 0, 0, 1)" "(TIMEOUT, 0, 0, 2)" "(DISCONNECT, 0, 0, 3)" "(ERROR, 0, 0, 4)" "''p''"]
  by (simp add: succeeded_def)

section \<open>Throughput over a sequence of requests\<close>

text \<open>Completed requests of one provider and model: token count, seconds and time.\<close>

type_synonym completion = "int \<times> flt \<times> flt"

definition measured :: "string \<Rightarrow> string \<Rightarrow> string \<Rightarrow> completion list \<Rightarrow> model_tps" where
  "measured pid model hw xs = foldl (\<lambda>m (tokens, seconds, now). record_tps tokens seconds now m) (new_model_tps pid model hw) xs"

definition usable :: "completion \<Rightarrow> bool" where
  "usable x \<longleftrightarrow> 0 < fst x \<and> 0 < fst (snd x)"

definition rate :: "completion \<Rightarrow> flt" where
  "rate x = rnd (of_int (fst x) / fst (snd x))"

lemma measured_snoc [simp]:
  "measured pid model hw (xs @ [(tokens, seconds, now)]) = record_tps tokens seconds now (measured pid model hw xs)"
  by (simp add: measured_def)

definition tps_ok :: "completion list \<Rightarrow> model_tps \<Rightarrow> bool" where
  "tps_ok ys m \<longleftrightarrow> mt_requests m = length ys \<and> mt_tokens m = sum_list (map fst ys)
     \<and> mt_max m = foldr max (map rate (rev ys)) 0 \<and> length (mt_recent m) = min 100 (length ys)
     \<and> set (map ms_tps (mt_recent m)) \<subseteq> set (map rate ys)
     \<and> (ys \<noteq> [] \<longrightarrow> ms_tps (last (mt_recent m)) = rate (last ys))"

lemma measured_ok: "tps_ok (filter usable xs) (measured pid model hw xs)"
proof (induction xs rule: rev_induct)
  case Nil
  then show ?case by (simp add: tps_ok_def measured_def new_model_tps_def)
next
  case (snoc x xs)
  obtain tokens seconds now where x: "x = (tokens, seconds, now)" by (cases x) auto
  show ?case
  proof (cases "usable x")
    case False
    then have "record_tps tokens seconds now m = m" for m by (auto simp: x usable_def record_tps_def not_less)
    with False snoc show ?thesis by (simp add: x)
  next
    case True
    let ?m = "measured pid model hw xs"
    have r: "record_tps tokens seconds now ?m = ?m\<lparr>mt_recent := deque_append 100 \<lparr>ms_tokens = tokens, ms_seconds = seconds,
          ms_tps = rate x, ms_time = now\<rparr> (mt_recent ?m), mt_requests := mt_requests ?m + 1, mt_tokens := mt_tokens ?m + tokens,
         mt_ema := (if mt_ema ?m = 0 then rate x else ema (mt_alpha ?m) (rate x) (mt_ema ?m)),
         mt_min := Some (case mt_min ?m of None \<Rightarrow> rate x | Some y \<Rightarrow> min y (rate x)), mt_max := max (mt_max ?m) (rate x)\<rparr>"
      using True unfolding record_tps_def Let_def rate_def x usable_def fst_conv snd_conv by (simp only: not_less [symmetric] if_False simp_thms)
    have mem: "ms_tps ` set (deque_append 100 z (mt_recent ?m)) \<subseteq> insert (ms_tps z) (ms_tps ` set (mt_recent ?m))" for z
      using set_deque_append [of 100 z "mt_recent ?m"] by auto
    from snoc True show ?thesis
      using mem [of "\<lparr>ms_tokens = tokens, ms_seconds = seconds, ms_tps = rate x, ms_time = now\<rparr>"]
      by (simp only: x measured_snoc r) (auto simp: tps_ok_def x length_deque_append last_deque_append max.commute)
  qed
qed

lemma find_mem: "find P xs = Some y \<Longrightarrow> y \<in> set xs"
  by (auto simp: find_Some_iff)

lemma estimate_bounds: "2 \<le> estimate_initial_tps hw model \<and> estimate_initial_tps hw model \<le> 130"
proof -
  have *: "list_all (\<lambda>(_, x). 2 \<le> x \<and> x \<le> (130 :: flt)) EXPECTED_TPS" by (simp add: EXPECTED_TPS_def)
  have in_range: "2 \<le> x \<and> x \<le> 130" if "map_of EXPECTED_TPS k = Some x" for k x
    using * map_of_SomeD [OF that] by (auto simp: list_all_iff)
  have found: "2 \<le> dflt 0 (map_of EXPECTED_TPS k) \<and> dflt 0 (map_of EXPECTED_TPS k) \<le> 130" if "(k, y) \<in> set EXPECTED_TPS" for k y
    using that in_range by (cases "map_of EXPECTED_TPS k") (auto simp: map_of_eq_None_iff image_iff)
  show ?thesis
    by (auto simp: estimate_initial_tps_def Let_def split: option.splits prod.splits
        dest: in_range find_mem found)
qed

text \<open>The throughput record follows the completed requests: requests without output or duration are
  ignored, counters and the maximum are exact over the others, the history keeps the last hundred, and
  before the first measurement scoring uses the hardware estimate, which lies between 2 and 130 tokens
  per second whatever the hardware and model names are.\<close>

theorem throughput_tracked:
  "tps_ok (filter usable xs) (measured pid model hw xs)
   \<and> 2 \<le> estimate_initial_tps hw model \<and> estimate_initial_tps hw model \<le> 130
   \<and> effective_tps (new_model_tps pid model hw) = estimate_initial_tps hw model"
  using measured_ok [of xs pid model hw] estimate_bounds [of hw model]
  by (simp add: effective_tps_def new_model_tps_def)

end
