(* ===== verification/Events.thy ===== *)
theory Events
  imports Json
begin

text \<open>
  What the coordinator publishes and records: the event bus of \<open>event_bus.py\<close> behind the public
  dashboard feed, the hash-chained audit log of \<open>audit_log.py\<close>, and the in-memory request traces of
  \<open>dependencies.py\<close> that are kept while no store is set. Clock reads are arguments.
\<close>

section \<open>Event bus (\<open>event_bus.py\<close>)\<close>

definition MAX_HISTORY :: nat where "MAX_HISTORY = 50"

definition PRIVATE_EVENT_FIELDS :: "string list" where
  "PRIVATE_EVENT_FIELDS = [''consumer_id'', ''request_id'']"

definition public_event :: "trace \<Rightarrow> trace" where
  "public_event ev = filter (\<lambda>(k, _). k \<notin> set PRIVATE_EVENT_FIELDS) ev"

text \<open>A subscriber's queue is an object; it is named by the number it is created under.\<close>

record event_bus =
  eb_subscribers :: "(nat, trace list) dict"
  eb_next :: nat
  eb_history :: "trace list"

definition new_bus :: event_bus where
  "new_bus = \<lparr>eb_subscribers = [], eb_next = 0, eb_history = []\<rparr>"

definition subscribe :: "event_bus \<Rightarrow> nat \<times> event_bus" where
  "subscribe b = (eb_next b, b\<lparr>eb_subscribers := dict_set (eb_next b) [] (eb_subscribers b), eb_next := Suc (eb_next b)\<rparr>)"

definition unsubscribe :: "nat \<Rightarrow> event_bus \<Rightarrow> event_bus" where
  "unsubscribe q b = b\<lparr>eb_subscribers := dict_pop q (eb_subscribers b)\<rparr>"

definition subscriber_count :: "event_bus \<Rightarrow> nat" where
  "subscriber_count b = length (eb_subscribers b)"

definition stamped :: "flt \<Rightarrow> trace \<Rightarrow> trace" where
  "stamped now ev = (if map_of ev ''timestamp'' = None then dict_set ''timestamp'' (JFloat now) ev else ev)"

text \<open>The queues are unbounded, so \<open>put_nowait\<close> never raises \<open>QueueFull\<close>.\<close>

definition publish :: "flt \<Rightarrow> trace \<Rightarrow> event_bus \<Rightarrow> event_bus" where
  "publish now ev b = (let e = stamped now ev in b\<lparr>eb_history := deque_append MAX_HISTORY e (eb_history b),
     eb_subscribers := map (\<lambda>(q, es). (q, es @ [e])) (eb_subscribers b)\<rparr>)"

text \<open>\<open>items[-n:]\<close>, which is the whole list for \<open>n = 0\<close>.\<close>

definition recent_events :: "nat \<Rightarrow> event_bus \<Rightarrow> trace list" where
  "recent_events n b = (if n = 0 then eb_history b else drop (length (eb_history b) - n) (eb_history b))"

text \<open>The dashboard connection (\<open>events_websocket\<close> of \<open>main.py\<close>) takes the oldest queued event and
  sends its public copy; on an empty queue it waits.\<close>

definition feed_next :: "nat \<Rightarrow> event_bus \<Rightarrow> trace option \<times> event_bus" where
  "feed_next q b = (case map_of (eb_subscribers b) q of
     Some (e # es) \<Rightarrow> (Some (public_event e), b\<lparr>eb_subscribers := dict_set q es (eb_subscribers b)\<rparr>)
   | _ \<Rightarrow> (None, b))"

text \<open>The catch-up endpoint of \<open>routes_exchange.py\<close>.\<close>

definition get_recent_events :: "event_bus \<Rightarrow> trace list" where
  "get_recent_events b = map public_event (recent_events 50 b)"

datatype bus_op = Subscribe | Unsubscribe nat | Publish flt trace | Feed nat

text \<open>What one operation does to the bus, and the events it sends on a dashboard connection.\<close>

fun bus_step :: "bus_op \<Rightarrow> event_bus \<Rightarrow> event_bus \<times> (nat \<times> trace) list" where
  "bus_step Subscribe b = (snd (subscribe b), [])"
| "bus_step (Unsubscribe q) b = (unsubscribe q b, [])"
| "bus_step (Publish now ev) b = (publish now ev b, [])"
| "bus_step (Feed q) b = (case feed_next q b of (None, b') \<Rightarrow> (b', []) | (Some e, b') \<Rightarrow> (b', [(q, e)]))"

fun bus_run :: "bus_op list \<Rightarrow> event_bus \<Rightarrow> event_bus \<times> (nat \<times> trace) list" where
  "bus_run [] b = (b, [])"
| "bus_run (x # xs) b = (case bus_step x b of (b', s) \<Rightarrow> case bus_run xs b' of (b'', s') \<Rightarrow> (b'', s @ s'))"

section \<open>Audit log (\<open>audit_log.py\<close>)\<close>

text \<open>An entry is its JSON object with sorted keys; \<open>digest\<close> is SHA-256 in hex of the entry's line.
  \<open>au_file\<close> is the file, which outlives the process: a new \<open>AuditLog\<close> appends to it.\<close>

record audit_log =
  au_file :: "trace list"
  au_seq :: nat
  au_last :: string

definition GENESIS :: string where
  "GENESIS = replicate 64 (CHR ''0'')"

definition open_audit :: "trace list \<Rightarrow> audit_log" where
  "open_audit file = \<lparr>au_file = file, au_seq = 0, au_last = GENESIS\<rparr>"

definition audit_entry :: "nat \<Rightarrow> flt \<Rightarrow> string \<Rightarrow> string \<Rightarrow> trace \<Rightarrow> trace" where
  "audit_entry seq now event_type prev payload = sort_key fst (foldl (\<lambda>d (k, v). dict_set k v d)
     [(''seq'', JInt (int seq)), (''ts'', JFloat now), (''type'', JStr event_type), (''prev_hash'', JStr prev)] payload)"

definition audit :: "(trace \<Rightarrow> string) \<Rightarrow> flt \<Rightarrow> string \<Rightarrow> trace \<Rightarrow> audit_log \<Rightarrow> audit_log" where
  "audit digest now event_type payload a =
     (let entry = audit_entry (Suc (au_seq a)) now event_type (au_last a) payload
      in \<lparr>au_file = au_file a @ [entry], au_seq = Suc (au_seq a), au_last = digest entry\<rparr>)"

record billing_event =
  be_request :: string
  be_consumer :: string
  be_provider :: string
  be_model :: string
  be_input :: int
  be_output :: int
  be_cached :: int
  be_cost :: int
  be_earning :: int
  be_fee :: int

definition log_billing :: "(trace \<Rightarrow> string) \<Rightarrow> flt \<Rightarrow> billing_event \<Rightarrow> audit_log \<Rightarrow> audit_log" where
  "log_billing digest now e = audit digest now ''billing''
     [(''request_id'', JStr (be_request e)), (''consumer_id'', JStr (be_consumer e)), (''provider_id'', JStr (be_provider e)),
      (''model'', JStr (be_model e)), (''input_tokens'', JInt (be_input e)), (''output_tokens'', JInt (be_output e)),
      (''cached_tokens'', JInt (be_cached e)), (''cost_micro'', JInt (be_cost e)),
      (''provider_earning_micro'', JInt (be_earning e)), (''platform_fee_micro'', JInt (be_fee e))]"

record attestation_event =
  ae_provider :: string
  ae_name :: string
  ae_status :: string
  ae_sip :: bool
  ae_hardened :: bool
  ae_deny_attach :: bool
  ae_agent :: string
  ae_server :: string
  ae_platform :: string

definition log_attestation :: "(trace \<Rightarrow> string) \<Rightarrow> flt \<Rightarrow> attestation_event \<Rightarrow> audit_log \<Rightarrow> audit_log" where
  "log_attestation digest now e = audit digest now ''attestation''
     [(''provider_id'', JStr (ae_provider e)), (''provider_name'', JStr (ae_name e)), (''status'', JStr (ae_status e)),
      (''sip_enabled'', JBool (ae_sip e)), (''hardened_runtime'', JBool (ae_hardened e)),
      (''pt_deny_attach'', JBool (ae_deny_attach e)), (''agent_hash'', JStr (take 16 (ae_agent e))),
      (''server_hash'', JStr (take 16 (ae_server e))), (''platform'', JStr (ae_platform e))]"

definition log_provider_connect :: "(trace \<Rightarrow> string) \<Rightarrow> flt \<Rightarrow> string \<Rightarrow> string \<Rightarrow> string \<Rightarrow> audit_log \<Rightarrow> audit_log" where
  "log_provider_connect digest now pid name trust = audit digest now ''provider_connect''
     [(''provider_id'', JStr pid), (''name'', JStr name), (''trust_level'', JStr trust)]"

definition log_provider_disconnect :: "(trace \<Rightarrow> string) \<Rightarrow> flt \<Rightarrow> string \<Rightarrow> string \<Rightarrow> audit_log \<Rightarrow> audit_log" where
  "log_provider_disconnect digest now pid name = audit digest now ''provider_disconnect''
     [(''provider_id'', JStr pid), (''name'', JStr name)]"

datatype audit_op =
    Billing flt billing_event
  | Attestation flt attestation_event
  | ProviderConnect flt string string string
  | ProviderDisconnect flt string string
  | Restart

text \<open>\<open>Restart\<close> is a new coordinator process on the same file.\<close>

fun audit_step :: "(trace \<Rightarrow> string) \<Rightarrow> audit_log \<Rightarrow> audit_op \<Rightarrow> audit_log" where
  "audit_step digest a (Billing now e) = log_billing digest now e a"
| "audit_step digest a (Attestation now e) = log_attestation digest now e a"
| "audit_step digest a (ProviderConnect now pid name trust) = log_provider_connect digest now pid name trust a"
| "audit_step digest a (ProviderDisconnect now pid name) = log_provider_disconnect digest now pid name a"
| "audit_step digest a Restart = open_audit (au_file a)"

definition audit_run :: "(trace \<Rightarrow> string) \<Rightarrow> audit_op list \<Rightarrow> audit_log \<Rightarrow> audit_log" where
  "audit_run digest xs a = foldl (audit_step digest) a xs"

section \<open>Request traces without a store (\<open>dependencies.py\<close>)\<close>

definition MAX_TRACES :: nat where "MAX_TRACES = 100"
definition TRACE_OWNER_KEY :: string where "TRACE_OWNER_KEY = ''_consumer_id''"

definition add_trace :: "trace \<Rightarrow> string option \<Rightarrow> trace list \<Rightarrow> trace list" where
  "add_trace t consumer ts = (let ts' = ts @ [dict_set TRACE_OWNER_KEY (j_opt JStr consumer) t]
     in if MAX_TRACES < length ts' then tl ts' else ts')"

text \<open>The newest trace of the request is amended when it is a match, no other trace ever. The argument
  lists the traces newest first, as \<open>reversed\<close> does.\<close>

fun complete_newest :: "string \<Rightarrow> string \<Rightarrow> string option \<Rightarrow> int \<Rightarrow> trace list \<Rightarrow> trace list" where
  "complete_newest rid consumer served latency [] = []"
| "complete_newest rid consumer served latency (t # ts) =
     (if (map_of t ''request_id'' = Some (JStr rid) \<or> map_of t ''request_id'' = Some (JStr (take 8 rid)))
         \<and> map_of t TRACE_OWNER_KEY = Some (JStr consumer)
      then (if map_of t ''status'' = Some (JStr ''matched'') \<or> map_of t ''status'' = Some (JStr ''matched_from_queue'')
            then dict_set ''latency_ms'' (JInt latency) (dict_set ''served_model'' (j_opt JStr served)
                   (dict_set ''status'' (JStr ''completed'') t)) # ts
            else t # ts)
      else t # complete_newest rid consumer served latency ts)"

definition complete_trace :: "string \<Rightarrow> string \<Rightarrow> string option \<Rightarrow> int \<Rightarrow> trace list \<Rightarrow> trace list" where
  "complete_trace rid consumer served latency ts = rev (complete_newest rid consumer served latency (rev ts))"

text \<open>The loop appends before it compares, so a limit of 0 gives one trace.\<close>

definition traces_for :: "string option \<Rightarrow> nat \<Rightarrow> trace list \<Rightarrow> trace list" where
  "traces_for consumer limit ts = take (max 1 limit) (map (filter (\<lambda>(k, _). k \<noteq> TRACE_OWNER_KEY))
     (filter (\<lambda>t. case consumer of None \<Rightarrow> True | Some c \<Rightarrow> map_of t TRACE_OWNER_KEY = Some (JStr c)) (rev ts)))"

end
