(* ===== verification/EventLaws.thy ===== *)
theory EventLaws
  imports Events
begin

text \<open>
  Properties of the event bus and the audit log: the dashboard feed is a complete, ordered and
  redacted copy of what was published, and the audit chain binds every earlier entry to the head
  hash, within one process.
\<close>

section \<open>The dashboard feed\<close>

lemma map_of_public [simp]:
  "map_of (public_event ev) k = (if k \<in> set PRIVATE_EVENT_FIELDS then None else map_of ev k)"
  by (induction ev) (auto simp: public_event_def)

text \<open>The specification of the feed: the events published by a sequence of operations.\<close>

definition published :: "bus_op list \<Rightarrow> trace list" where
  "published xs = concat (map (\<lambda>x. case x of Publish now ev \<Rightarrow> [stamped now ev] | _ \<Rightarrow> []) xs)"

lemma published_simps [simp]:
  "published [] = []" "published (Publish now ev # xs) = stamped now ev # published xs"
  "published (Subscribe # xs) = published xs" "published (Unsubscribe q # xs) = published xs" "published (Feed q # xs) = published xs"
  by (simp_all add: published_def)

definition sent_on :: "nat \<Rightarrow> (nat \<times> trace) list \<Rightarrow> trace list" where
  "sent_on q s = map snd (filter (\<lambda>x. fst x = q) s)"

lemma sent_on_simps [simp]: "sent_on q [] = []" "sent_on q (s @ t) = sent_on q s @ sent_on q t"
  by (simp_all add: sent_on_def)

lemma bus_run_Cons:
  "fst (bus_run (x # xs) b) = fst (bus_run xs (fst (bus_step x b)))"
  "snd (bus_run (x # xs) b) = snd (bus_step x b) @ snd (bus_run xs (fst (bus_step x b)))"
  by (simp_all split: prod.split)

lemma map_of_publish: "map_of (map (\<lambda>(q, es). (q, es @ [e])) d) r = map_option (\<lambda>es. es @ [e]) (map_of d r)"
  by (induction d) auto

definition queue_of :: "nat \<Rightarrow> event_bus \<Rightarrow> trace list option" where
  "queue_of q b = map_of (eb_subscribers b) q"

text \<open>One operation moves events from the publications through the queue to the connection.\<close>

lemma bus_step_queue:
  assumes "queue_of q b = Some es" "q < eb_next b" "x \<noteq> Unsubscribe q"
  shows "\<exists>es'. queue_of q (fst (bus_step x b)) = Some es' \<and> q < eb_next (fst (bus_step x b))
    \<and> sent_on q (snd (bus_step x b)) @ map public_event es' = map public_event (es @ published [x])"
proof (cases x)
  case (Feed r)
  then show ?thesis using assms(1,2)
    by (auto simp: feed_next_def queue_of_def sent_on_def split: option.split list.split)
qed (use assms in \<open>auto simp: subscribe_def unsubscribe_def publish_def Let_def queue_of_def map_of_publish sent_on_def\<close>)

lemma bus_run_queue:
  assumes "queue_of q b = Some es" "q < eb_next b" "Unsubscribe q \<notin> set xs"
  shows "\<exists>es'. queue_of q (fst (bus_run xs b)) = Some es'
    \<and> sent_on q (snd (bus_run xs b)) @ map public_event es' = map public_event (es @ published xs)"
  using assms
proof (induction xs arbitrary: b es)
  case (Cons x xs)
  then have "x \<noteq> Unsubscribe q" by auto
  from bus_step_queue [OF Cons.prems(1,2) this] obtain es' where
    st: "queue_of q (fst (bus_step x b)) = Some es'" "q < eb_next (fst (bus_step x b))"
      "sent_on q (snd (bus_step x b)) @ map public_event es' = map public_event (es @ published [x])" by blast
  from Cons.prems(3) have "Unsubscribe q \<notin> set xs" by simp
  from Cons.IH [OF st(1,2) this] obtain es'' where
    r: "queue_of q (fst (bus_run xs (fst (bus_step x b)))) = Some es''"
      "sent_on q (snd (bus_run xs (fst (bus_step x b)))) @ map public_event es'' = map public_event (es' @ published xs)" by blast
  have "published (x # xs) = published [x] @ published xs" by (simp add: published_def)
  with st(3) r show ?case by (simp add: bus_run_Cons del: bus_run.simps)
qed simp

lemma length_last_n [simp]: "length (last_n n xs) \<le> n"
  by (simp add: last_n_def)

lemma last_n_short: "length xs \<le> n \<Longrightarrow> last_n n xs = xs"
  by (simp add: last_n_def)

lemma bus_step_history:
  assumes "length (eb_history b) \<le> 50"
  shows "eb_history (fst (bus_step x b)) = last_n 50 (eb_history b @ published [x]) \<and> length (eb_history (fst (bus_step x b))) \<le> 50"
proof (cases x)
  case (Publish now ev)
  then show ?thesis by (simp add: publish_def Let_def deque_append_last_n MAX_HISTORY_def)
next
  case (Feed q)
  have "eb_history (snd (feed_next q b)) = eb_history b" by (simp add: feed_next_def split: option.split list.split)
  with Feed assms show ?thesis by (auto simp: last_n_short split: prod.split option.split)
qed (use assms in \<open>auto simp: subscribe_def unsubscribe_def last_n_short\<close>)

lemma bus_run_history:
  "length (eb_history b) \<le> 50 \<Longrightarrow> eb_history (fst (bus_run xs b)) = last_n 50 (eb_history b @ published xs)
    \<and> length (eb_history (fst (bus_run xs b))) \<le> 50"
proof (induction xs arbitrary: b)
  case (Cons x xs)
  note st = bus_step_history [OF Cons.prems, of x]
  have "published (x # xs) = published [x] @ published xs" by (simp add: published_def)
  with Cons.IH [OF st [THEN conjunct2]] st show ?case unfolding bus_run_Cons by (simp add: append_assoc [symmetric] del: append_assoc bus_step.simps)
qed (simp add: last_n_short)

lemma feed_redacted: "(q, e) \<in> set (snd (bus_run xs b)) \<Longrightarrow> k \<in> set PRIVATE_EVENT_FIELDS \<Longrightarrow> map_of e k = None"
proof (induction xs arbitrary: b)
  case (Cons x xs)
  have "(q, e) \<in> set (snd (bus_step x b)) \<Longrightarrow> \<exists>ev. e = public_event ev"
    by (cases x) (auto simp: feed_next_def split: option.splits list.splits)
  with Cons show ?case by (auto simp: bus_run_Cons simp del: bus_run.simps)
qed simp

text \<open>The dashboard feed is a faithful public copy of the bus: from its subscription on, what a
  dashboard connection has been sent plus what still waits in its queue is exactly the sequence of
  events published since, in order, each without the private fields and with all others; whatever
  happens to other subscribers does not matter, no sent event has a private field, and the history is
  the last fifty events published.\<close>

theorem feed_is_faithful:
  assumes "bus_run xs new_bus = (b, s)" "subscribe b = (q, b')" "bus_run ys b' = (b'', s')" "Unsubscribe q \<notin> set ys"
  shows "(\<exists>es. map_of (eb_subscribers b'') q = Some es \<and> sent_on q s' @ map public_event es = map public_event (published ys))
    \<and> (\<forall>r e k. (r, e) \<in> set (s @ s') \<longrightarrow> k \<in> {''consumer_id'', ''request_id''} \<longrightarrow> map_of e k = None)
    \<and> eb_history b'' = last_n 50 (published (xs @ ys))"
proof -
  have q: "q = eb_next b" "b' = b\<lparr>eb_subscribers := dict_set (eb_next b) [] (eb_subscribers b), eb_next := Suc (eb_next b)\<rparr>"
    using assms(2) by (auto simp: subscribe_def)
  have "queue_of q b' = Some []" "q < eb_next b'" by (simp_all add: q queue_of_def)
  from bus_run_queue [OF this assms(4)] have feed:
    "\<exists>es. map_of (eb_subscribers b'') q = Some es \<and> sent_on q s' @ map public_event es = map public_event (published ys)"
    by (simp add: assms(3) queue_of_def)
  have priv: "map_of e k = None" if "(r, e) \<in> set (s @ s')" "k \<in> {''consumer_id'', ''request_id''}" for r e k
    using that feed_redacted [of r e xs new_bus k] feed_redacted [of r e ys b' k] assms(1,3) by (auto simp: PRIVATE_EVENT_FIELDS_def)
  have h: "eb_history b = last_n 50 (published xs) \<and> length (eb_history b) \<le> 50"
    using bus_run_history [of new_bus xs] assms(1) by (simp add: new_bus_def)
  moreover have e: "eb_history b' = eb_history b" by (simp add: q)
  moreover have "published (xs @ ys) = published xs @ published ys" by (simp add: published_def)
  ultimately have "eb_history b'' = last_n 50 (published (xs @ ys))"
    using bus_run_history [of b' ys] assms(3) by simp
  with feed priv show ?thesis by blast
qed

definition sample_event :: trace where
  "sample_event = [(''type'', JStr ''billing''), (''consumer_id'', JStr ''c''), (''tokens'', JInt 7)]"

lemma feed_is_faithful_witness:
  "eb_history (fst (bus_run [Publish 1 sample_event, Feed 0] (snd (subscribe new_bus)))) = last_n 50 (published [Publish 1 sample_event, Feed 0])"
proof -
  let ?ys = "[Publish 1 sample_event, Feed 0]"
  obtain b s where r: "bus_run ?ys (snd (subscribe new_bus)) = (b, s)" by force
  have "bus_run [] new_bus = (new_bus, [])" "subscribe new_bus = (0, snd (subscribe new_bus))" by (simp_all add: subscribe_def new_bus_def)
  from feed_is_faithful [OF this r] have "eb_history b = last_n 50 (published ([] @ ?ys))" by simp
  then show ?thesis unfolding r by simp
qed

section \<open>The audit chain\<close>

text \<open>What a reader of the file checks: each entry names the digest of the one before.\<close>

fun chained :: "(trace \<Rightarrow> string) \<Rightarrow> string \<Rightarrow> trace list \<Rightarrow> bool" where
  "chained digest prev [] = True"
| "chained digest prev (e # es) \<longleftrightarrow> map_of e ''prev_hash'' = Some (JStr prev) \<and> chained digest (digest e) es"

definition head_hash :: "(trace \<Rightarrow> string) \<Rightarrow> trace list \<Rightarrow> string" where
  "head_hash digest es = (if es = [] then GENESIS else digest (last es))"

lemma chained_append: "chained digest prev (xs @ ys) \<longleftrightarrow> chained digest prev xs
    \<and> chained digest (if xs = [] then prev else digest (last xs)) ys"
  by (induction xs arbitrary: prev) auto

lemma map_of_sort_key: "dict_ok d \<Longrightarrow> map_of (sort_key fst d) k = map_of d k"
proof -
  assume d: "dict_ok d"
  have "distinct (map fst (sort_key fst d))"
    using d by (simp add: dict_ok_def distinct_map)
  moreover have "map_of d k = None \<longleftrightarrow> map_of (sort_key fst d) k = None" unfolding map_of_eq_None_iff by simp
  ultimately show ?thesis using d
    by (cases "map_of d k") (auto simp: dict_ok_def dest: map_of_SomeD)
qed

lemma foldl_dict_set:
  "dict_ok d \<Longrightarrow> dict_ok (foldl (\<lambda>d (k, v). dict_set k v d) d ps)
    \<and> (k \<notin> fst ` set ps \<longrightarrow> map_of (foldl (\<lambda>d (k, v). dict_set k v d) d ps) k = map_of d k)"
proof (induction ps arbitrary: d)
  case (Cons p ps)
  from Cons.IH [of "dict_set (fst p) (snd p) d"] Cons.prems show ?case by (cases p) auto
qed simp

lemma audit_entry_field:
  assumes "k \<notin> fst ` set payload"
  shows "map_of (audit_entry seq now ty prev payload) k
    = map_of [(''seq'', JInt (int seq)), (''ts'', JFloat now), (''type'', JStr ty), (''prev_hash'', JStr prev)] k"
proof -
  have "dict_ok [(''seq'', JInt (int seq)), (''ts'', JFloat now), (''type'', JStr ty), (''prev_hash'', JStr prev)]"
    by (simp add: dict_ok_def)
  from foldl_dict_set [OF this, of payload k] assms show ?thesis
    unfolding audit_entry_def by (simp add: map_of_sort_key del: map_of.simps)
qed

text \<open>One call of a logging method appends one entry that names the head, its number and becomes the head.\<close>

definition appends :: "(trace \<Rightarrow> string) \<Rightarrow> audit_log \<Rightarrow> audit_log \<Rightarrow> bool" where
  "appends digest a a' \<longleftrightarrow> (\<exists>e. au_file a' = au_file a @ [e] \<and> map_of e ''prev_hash'' = Some (JStr (au_last a))
     \<and> map_of e ''seq'' = Some (JInt (int (au_seq a'))) \<and> au_seq a' = Suc (au_seq a) \<and> au_last a' = digest e)"

lemma audit_appends:
  assumes "{''prev_hash'', ''seq''} \<inter> fst ` set payload = {}"
  shows "appends digest a (audit digest now ty payload a)"
proof -
  have "''prev_hash'' \<notin> fst ` set payload" "''seq'' \<notin> fst ` set payload" using assms by blast+
  then show ?thesis unfolding appends_def audit_def Let_def
    by (intro exI [of _ "audit_entry (Suc (au_seq a)) now ty (au_last a) payload"]) (simp add: audit_entry_field)
qed

lemma audit_step_appends: "x \<noteq> Restart \<Longrightarrow> appends digest a (audit_step digest a x)"
  by (cases x) (simp_all add: log_billing_def log_attestation_def log_provider_connect_def log_provider_disconnect_def audit_appends)

lemma audit_run_snoc [simp]: "audit_run digest (xs @ [x]) a = audit_step digest (audit_run digest xs a) x"
  by (simp add: audit_run_def)

lemma audit_run_append: "audit_run digest (xs @ ys) a = audit_run digest ys (audit_run digest xs a)"
  by (simp add: audit_run_def)

lemma open_audit_fields [simp]:
  "au_file (open_audit f) = f" "au_seq (open_audit f) = 0" "au_last (open_audit f) = GENESIS"
  by (simp_all add: open_audit_def)

text \<open>What the operations of one process add to the file.\<close>

lemma audit_run_chain:
  assumes "Restart \<notin> set xs"
  shows "\<exists>es. au_file (audit_run digest xs a) = au_file a @ es \<and> length es = length xs \<and> chained digest (au_last a) es
    \<and> au_last (audit_run digest xs a) = (if es = [] then au_last a else digest (last es))
    \<and> au_seq (audit_run digest xs a) = au_seq a + length xs
    \<and> map (\<lambda>e. map_of e ''seq'') es = map (\<lambda>i. Some (JInt (int i))) [Suc (au_seq a)..<Suc (au_seq a + length xs)]"
  using assms
proof (induction xs rule: rev_induct)
  case Nil
  show ?case by (simp add: audit_run_def)
next
  case (snoc x xs)
  let ?a = "audit_run digest xs a"
  from snoc obtain es where es: "au_file ?a = au_file a @ es" "length es = length xs" "chained digest (au_last a) es"
    "au_last ?a = (if es = [] then au_last a else digest (last es))" "au_seq ?a = au_seq a + length xs"
    "map (\<lambda>e. map_of e ''seq'') es = map (\<lambda>i. Some (JInt (int i))) [Suc (au_seq a)..<Suc (au_seq a + length xs)]" by auto
  have "x \<noteq> Restart" using snoc.prems by auto
  from audit_step_appends [OF this, of digest ?a] obtain e where e: "au_file (audit_step digest ?a x) = au_file ?a @ [e]"
    "map_of e ''prev_hash'' = Some (JStr (au_last ?a))" "map_of e ''seq'' = Some (JInt (int (au_seq (audit_step digest ?a x))))"
    "au_seq (audit_step digest ?a x) = Suc (au_seq ?a)" "au_last (audit_step digest ?a x) = digest e" by (auto simp: appends_def)
  show ?case by (rule exI [of _ "es @ [e]"]) (use es e in \<open>simp add: chained_append split: if_splits\<close>)
qed

text \<open>Two valid files with the same head are equal, when no entries collide.\<close>

lemma chained_unique:
  assumes "chained digest p xs" "chained digest p ys" "(if xs = [] then p else digest (last xs)) = (if ys = [] then p else digest (last ys))"
    "\<forall>e \<in> set xs. \<forall>e' \<in> set ys. digest e = digest e' \<longrightarrow> e = e'" "\<forall>e \<in> set xs \<union> set ys. digest e \<noteq> p"
  shows "xs = ys"
  using assms
proof (induction xs arbitrary: ys rule: rev_induct)
  case Nil
  then show ?case by (cases ys rule: rev_cases) auto
next
  case (snoc x xs)
  show ?case
  proof (cases ys rule: rev_cases)
    case Nil
    with snoc.prems show ?thesis by auto
  next
    case (snoc ys' y)
    have eq: "x = y" using snoc.prems(3,4) by (simp add: snoc)
    moreover have "xs = ys'"
    proof (rule snoc.IH)
      have "(if xs = [] then p else digest (last xs)) = (if ys' = [] then p else digest (last ys'))"
        using snoc.prems(1,2) eq by (simp add: snoc chained_append)
      then show "(if xs = [] then p else digest (last xs)) = (if ys' = [] then p else digest (last ys'))" .
    qed (use snoc.prems in \<open>auto simp: snoc chained_append\<close>)
    ultimately show ?thesis by (simp add: snoc)
  qed
qed

text \<open>C34: The audit log is tamper-evident within one process: on a fresh file every logged event
  appends one entry, the entries are numbered from 1 and chained from the genesis hash, and any other
  validly chained file with the same head hash is identical, as long as the digest has no collision
  among their entries and never equals the genesis hash.\<close>

theorem audit_chain_binds:
  assumes "Restart \<notin> set xs" "a = audit_run digest xs (open_audit [])" "chained digest GENESIS other" "head_hash digest other = au_last a"
    "\<forall>e \<in> set (au_file a). \<forall>e' \<in> set other. digest e = digest e' \<longrightarrow> e = e'"
    "\<forall>e \<in> set (au_file a) \<union> set other. digest e \<noteq> GENESIS"
  shows "chained digest GENESIS (au_file a) \<and> length (au_file a) = length xs
    \<and> map (\<lambda>e. map_of e ''seq'') (au_file a) = map (\<lambda>i. Some (JInt (int i))) [1..<Suc (length xs)]
    \<and> other = au_file a"
proof -
  from audit_run_chain [OF assms(1), of digest "open_audit []"] assms(2)
  have f: "length (au_file a) = length xs" "chained digest GENESIS (au_file a)"
    "au_last a = (if au_file a = [] then GENESIS else digest (last (au_file a)))"
    "map (\<lambda>e. map_of e ''seq'') (au_file a) = map (\<lambda>i. Some (JInt (int i))) [1..<Suc (length xs)]"
    by auto
  have "au_file a = other" by (rule chained_unique [OF f(2) assms(3) _ assms(5,6)]) (use f(3) assms(4) in \<open>simp add: head_hash_def\<close>)
  with f show ?thesis by simp
qed

lemma audit_chain_binds_witness:
  "chained (\<lambda>e. CHR ''d'' # nat_str (length e)) GENESIS (au_file (audit_run (\<lambda>e. CHR ''d'' # nat_str (length e)) [ProviderConnect 1 ''p'' ''n'' ''open''] (open_audit [])))"
proof -
  let ?d = "\<lambda>e :: trace. CHR ''d'' # nat_str (length e)"
  let ?xs = "[ProviderConnect 1 ''p'' ''n'' ''open'']"
  let ?a = "audit_run ?d ?xs (open_audit [])"
  have e: "au_file ?a = [audit_entry 1 1 ''provider_connect'' GENESIS
     [(''provider_id'', JStr ''p''), (''name'', JStr ''n''), (''trust_level'', JStr ''open'')]]"
    by (simp add: audit_run_def log_provider_connect_def audit_def open_audit_def Let_def)
  have g: "?d e \<noteq> GENESIS" for e by (simp add: GENESIS_def numeral_eq_Suc)
  have c: "chained ?d GENESIS (au_file ?a)" "head_hash ?d (au_file ?a) = au_last ?a" "Restart \<notin> set ?xs"
    using audit_run_chain [of ?xs ?d "open_audit []"] by (auto simp: head_hash_def)
  from audit_chain_binds [OF c(3) refl c(1,2)] show ?thesis using g by (simp add: e)
qed

lemma first_numbers: "xs \<noteq> [] \<Longrightarrow> [Suc 0..<Suc (length xs)] = Suc 0 # [2..<Suc (length xs)]"
  by (simp add: upt_conv_Cons numeral_2_eq_2 del: upt_Suc)

text \<open>The chain does not survive a restart: after events, a restart and more events, every file has
  an entry that does not name the digest of its predecessor and two entries numbered 1.\<close>

theorem audit_restart_breaks_chain:
  assumes "xs \<noteq> []" "ys \<noteq> []" "Restart \<notin> set xs" "Restart \<notin> set ys" "\<forall>e. digest e \<noteq> GENESIS"
    "a = audit_run digest (xs @ [Restart] @ ys) (open_audit [])"
  shows "\<not> chained digest GENESIS (au_file a)
    \<and> map_of (au_file a ! 0) ''seq'' = Some (JInt 1) \<and> map_of (au_file a ! length xs) ''seq'' = Some (JInt 1)"
proof -
  let ?m = "audit_run digest xs (open_audit [])"
  obtain es where es: "au_file ?m = es" "length es = length xs" "map (\<lambda>e. map_of e ''seq'') es = map (\<lambda>i. Some (JInt (int i))) [1..<Suc (length xs)]"
    using audit_run_chain [OF assms(3), of digest "open_audit []"] by auto
  have a: "a = audit_run digest ys (open_audit (au_file ?m))" by (simp add: assms(6) audit_run_def)
  obtain fs where fs: "au_file a = es @ fs" "length fs = length ys" "chained digest GENESIS fs"
    "map (\<lambda>e. map_of e ''seq'') fs = map (\<lambda>i. Some (JInt (int i))) [1..<Suc (length ys)]"
    using audit_run_chain [OF assms(4), of digest "open_audit (au_file ?m)"] unfolding a es(1) by auto
  obtain e es' f fs' where ef: "es = e # es'" "fs = f # fs'" using es(2) fs(2) assms(1,2) by (cases es; cases fs) auto
  have "map_of f ''prev_hash'' = Some (JStr GENESIS)" using fs(3) by (simp add: ef)
  moreover have "es \<noteq> []" "digest (last es) \<noteq> GENESIS" using assms(5) by (simp_all add: ef)
  ultimately have "\<not> chained digest GENESIS (es @ fs)" by (auto simp: chained_append ef(2))
  moreover have "map_of e ''seq'' = Some (JInt 1)" using es(3) first_numbers [OF assms(1)] by (simp add: ef del: upt_Suc)
  moreover have "map_of f ''seq'' = Some (JInt 1)" using fs(4) first_numbers [OF assms(2)] by (simp add: ef del: upt_Suc)
  moreover have "(es @ fs) ! 0 = e" "(es @ fs) ! length es = f" by (simp_all add: ef)
  ultimately show ?thesis using es(2) by (simp only: fs(1) simp_thms)
qed

lemma audit_restart_breaks_chain_witness:
  "\<not> chained (\<lambda>_. ''d'') GENESIS (au_file (audit_run (\<lambda>_. ''d'') ([ProviderDisconnect 1 ''p'' ''n''] @ [Restart] @ [ProviderDisconnect 2 ''p'' ''n'']) (open_audit [])))"
proof -
  have "\<forall>e :: trace. ''d'' \<noteq> GENESIS" by (simp add: GENESIS_def numeral_eq_Suc)
  from audit_restart_breaks_chain [OF _ _ _ _ this refl, of "[ProviderDisconnect 1 ''p'' ''n'']" "[ProviderDisconnect 2 ''p'' ''n'']"]
  show ?thesis by simp
qed

end
