(* ===== verification/ModelRegistry.thy ===== *)
theory ModelRegistry
  imports Protocol
begin

text \<open>
  What the coordinator believes about a provider's model: \<open>model_attribution.py\<close> (which model served a
  request), \<open>model_registry.py\<close> and \<open>verify_model_hash\<close> of \<open>main.py\<close> (is the model file the published
  one), and \<open>capability_resolver.py\<close> (context length, vision and tool support, merged from three
  sources). The HuggingFace API is a parameter: \<open>hub_site\<close> gives the JSON files and the repository
  record, \<open>None\<close> when the call fails. Log lines are left out.
\<close>

section \<open>Served models (\<open>model_attribution.py\<close>)\<close>

definition advertised_models :: "provider_capabilities \<Rightarrow> string list" where
  "advertised_models caps = rev (remdups (rev (filter (\<lambda>m. m \<noteq> '''' \<and> m \<noteq> ''default'') (pc_models caps))))"

text \<open>\<open>dict.fromkeys\<close> keeps the first of equal names: \<open>rev o remdups o rev\<close>. \<open>confirmed\<close> is the
  \<open>served_model\<close> of the completion; a message without that field gives \<open>None\<close>.\<close>

definition served_model_for_request :: "string \<Rightarrow> provider_capabilities \<Rightarrow> string option \<Rightarrow> string option" where
  "served_model_for_request requested caps confirmed =
     (let adv = advertised_models caps in
      case confirmed of
        Some (c # cs) \<Rightarrow> if c # cs \<in> set adv \<and> (requested = ''default'' \<or> requested = c # cs) then Some (c # cs) else None
      | _ \<Rightarrow> if length adv = 1 \<and> (requested = ''default'' \<or> requested = hd adv) then Some (hd adv) else None)"

section \<open>The model site\<close>

datatype base_model = NoBase | OneBase string | ManyBases "string list"

record site_file =
  sf_name :: string
  sf_size :: "int option"
  sf_sha :: "string option"

record site_repo =
  sr_files :: "site_file list"
  sr_downloads :: "int option"
  sr_base :: base_model
  sr_tags :: "string list"
  sr_pipeline :: "string option"

record hub_site =
  hs_repo :: "string \<Rightarrow> site_repo option"
  hs_json :: "string \<Rightarrow> string \<Rightarrow> trace option"

section \<open>The registry (\<open>model_registry.py\<close>)\<close>

record model_info =
  mi_id :: string
  mi_name :: string
  mi_repo :: string
  mi_filename :: string
  mi_size :: int
  mi_quant :: string
  mi_sha :: string
  mi_downloads :: int

record provider_model =
  pm_provider :: string
  pm_model :: string
  pm_hash :: string
  pm_verified :: bool

record model_registry =
  mg_models :: "(string, model_info) dict"
  mg_provider :: "(string, provider_model list) dict"
  mg_aliases :: "(string, string) dict"

definition new_registry :: model_registry where
  "new_registry = \<lparr>mg_models = [], mg_provider = [], mg_aliases = []\<rparr>"

text \<open>\<open>s.replace(old, new)\<close> for a nonempty \<open>old\<close>.\<close>

function str_replace :: "string \<Rightarrow> string \<Rightarrow> string \<Rightarrow> string" where
  "str_replace old new [] = []"
| "str_replace old new (c # s) = (if old \<noteq> [] \<and> starts_with old (c # s) then new @ str_replace old new (drop (length old) (c # s))
     else c # str_replace old new s)"
  by pat_completeness auto
termination by (relation "measure (\<lambda>(_, _, s). length s)") auto

definition QUANTS :: "string list" where
  "QUANTS = [''Q2_K'', ''Q3_K_S'', ''Q3_K_M'', ''Q3_K_L'', ''Q4_0'', ''Q4_K_S'', ''Q4_K_M'', ''Q5_0'', ''Q5_K_S'', ''Q5_K_M'',
     ''Q6_K'', ''Q8_0'', ''F16'']"

definition register_model_from_hf :: "hub_site \<Rightarrow> string \<Rightarrow> string \<Rightarrow> model_registry \<Rightarrow> model_info option \<times> model_registry" where
  "register_model_from_hf site repo file g = (case hs_repo site repo of
     None \<Rightarrow> (None, g)
   | Some r \<Rightarrow> (case find (\<lambda>f. sf_name f = file) (sr_files r) of
       None \<Rightarrow> (None, g)
     | Some f \<Rightarrow> (let info = \<lparr>mi_id = repo @ ''/'' @ file,
           mi_name = str_replace ''-'' '' '' (str_lower (str_replace ''.gguf'' '''' file)),
           mi_repo = repo, mi_filename = file, mi_size = dflt 0 (sf_size f), mi_quant = dflt '''' (find (\<lambda>q. str_contains q file) QUANTS),
           mi_sha = dflt '''' (sf_sha f), mi_downloads = dflt 0 (sr_downloads r)\<rparr>
         in (Some info, g\<lparr>mg_models := dict_set (mi_id info) info (mg_models g)\<rparr>))))"

definition known_hash :: "string \<Rightarrow> model_registry \<Rightarrow> string" where
  "known_hash model g = (case map_of (mg_models g) model of Some i \<Rightarrow> mi_sha i | None \<Rightarrow> '''')"

definition register_provider_model :: "string \<Rightarrow> string \<Rightarrow> string \<Rightarrow> model_registry \<Rightarrow> provider_model \<times> model_registry" where
  "register_provider_model pid model hash g =
     (let pm = \<lparr>pm_provider = pid, pm_model = model, pm_hash = hash,
            pm_verified = (hash \<noteq> '''' \<and> known_hash model g \<noteq> '''' \<and> hash = known_hash model g)\<rparr>
      in (pm, g\<lparr>mg_provider := dict_set pid (dict_get (mg_provider g) pid [] @ [pm]) (mg_provider g)\<rparr>))"

definition get_providers_for_model :: "string \<Rightarrow> model_registry \<Rightarrow> string list" where
  "get_providers_for_model model g =
     map fst (filter (\<lambda>(_, pms). list_ex (\<lambda>pm. pm_model pm = model \<or> model = ''default'') pms) (mg_provider g))"

definition resolve_alias :: "string \<Rightarrow> model_registry \<Rightarrow> string" where
  "resolve_alias name g = dict_get (mg_aliases g) name name"

definition add_alias :: "string \<Rightarrow> string \<Rightarrow> model_registry \<Rightarrow> model_registry" where
  "add_alias a model g = g\<lparr>mg_aliases := dict_set a model (mg_aliases g)\<rparr>"

definition remove_provider :: "string \<Rightarrow> model_registry \<Rightarrow> model_registry" where
  "remove_provider pid g = g\<lparr>mg_provider := dict_pop pid (mg_provider g)\<rparr>"

text \<open>Per model: the number of listings and of verified ones.\<close>

definition count_listing :: "(string, nat \<times> nat) dict \<Rightarrow> provider_model \<Rightarrow> (string, nat \<times> nat) dict" where
  "count_listing d pm = (case dict_get d (pm_model pm) (0, 0) of
     (n, v) \<Rightarrow> dict_set (pm_model pm) (n + 1, if pm_verified pm then v + 1 else v) d)"

definition list_available_models :: "model_registry \<Rightarrow> (string, nat \<times> nat) dict" where
  "list_available_models g = foldl count_listing [] (concat (map snd (mg_provider g)))"

subsection \<open>Hash verification (\<open>verify_model_hash\<close>)\<close>

text \<open>The loop over the advertised models: the first verified one ends it.\<close>

fun verify_advertised :: "string list \<Rightarrow> string \<Rightarrow> model_registry \<Rightarrow> bool \<times> model_registry" where
  "verify_advertised [] hash g = (False, g)"
| "verify_advertised (m # ms) hash g = (if m = ''default'' then verify_advertised ms hash g
     else (case register_provider_model ''pending'' m hash g of
       (pm, g') \<Rightarrow> if pm_verified pm then (True, g') else verify_advertised ms hash g'))"

text \<open>A text field of the identity; \<open>None\<close> when the field has another type.\<close>

definition text_field :: "trace \<Rightarrow> string \<Rightarrow> string option" where
  "text_field d k = (case map_of d k of None \<Rightarrow> Some '''' | Some (JStr s) \<Rightarrow> Some s | _ \<Rightarrow> None)"

text \<open>\<open>None\<close> is the \<open>AttributeError\<close> of a truthy file hash that is not text. A falsy value is no hash.
  A repository or file name that is not text is never found on the site.\<close>

definition verify_model_hash :: "hub_site \<Rightarrow> register_message \<Rightarrow> model_registry \<Rightarrow> bool option \<times> model_registry" where
  "verify_model_hash site reg g = (case reg_identity reg of
     None \<Rightarrow> (Some False, g)
   | Some d \<Rightarrow> if d = [] then (Some False, g)
     else (case map_of d ''file_hash'' of
       Some (JStr hash) \<Rightarrow>
         if hash = '''' \<or> starts_with ''skipped-'' hash then (Some False, g)
         else (case verify_advertised (pc_models (reg_caps reg)) hash g of
           (True, g') \<Rightarrow> (Some True, g')
         | (False, g') \<Rightarrow> (case (text_field d ''repo_id'', text_field d ''filename'') of
             (Some repo, Some file) \<Rightarrow>
               if repo \<noteq> '''' \<and> file \<noteq> '''' then
                 (case register_model_from_hf site repo file g' of
                   (Some i, g'') \<Rightarrow> (Some (mi_sha i \<noteq> '''' \<and> mi_sha i = hash), g'')
                 | (None, g'') \<Rightarrow> (Some False, g''))
               else (Some False, g')
           | _ \<Rightarrow> (Some False, g')))
     | Some v \<Rightarrow> if truthy v then (None, g) else (Some False, g)
     | None \<Rightarrow> (Some False, g)))"

end
