(* ===== verification/Capabilities.thy ===== *)
theory Capabilities
  imports ModelRegistry
begin

text \<open>
  \<open>coordinator/capability_resolver.py\<close>: model capabilities merged from the provider's registration, the
  model site and the GGUF identity, with a cache per repository. The site and pydantic's coercion of
  JSON values to the fields of \<open>ModelCapabilities\<close> are parameters; an exception (a field of the wrong
  shape) is \<open>Inl ()\<close>, which the WebSocket endpoint catches.
\<close>

section \<open>Detection\<close>

text \<open>Pydantic's coercion to \<open>int\<close> and \<open>str\<close> fields, and Python's \<open>str\<close> of a value that is not text.\<close>

record coercion =
  co_int :: "json \<Rightarrow> int option"
  co_text :: "json \<Rightarrow> string option"
  co_show :: "json \<Rightarrow> string"

definition TOOL_KEYWORDS :: "string list" where
  "TOOL_KEYWORDS = [''tool_call'', ''tool_calls'', ''<tool_call>'', ''tools'', ''ipython'', ''function_call'', ''<|python_tag|>'', ''tool_use'']"

text \<open>\<open>archs[0] if archs else ""\<close>; a dict has no key 0 and a number no index.\<close>

definition first_arch :: "json \<Rightarrow> json option" where
  "first_arch v = (if \<not> truthy v then Some (JStr '''') else (case v of
     JList (x # _) \<Rightarrow> Some x | JStr (c # _) \<Rightarrow> Some (JStr [c]) | _ \<Rightarrow> None))"

text \<open>The context length; \<open>None\<close> when \<open>text_config\<close> is read and is not an object.\<close>

definition config_context :: "trace \<Rightarrow> json option" where
  "config_context d = (let v = dflt (JInt 0) (map_of d ''max_position_embeddings'') in
     if truthy v then Some v
     else (case map_of d ''text_config'' of None \<Rightarrow> Some v
       | Some (JObj t) \<Rightarrow> Some (dflt (JInt 0) (map_of t ''max_position_embeddings''))
       | Some _ \<Rightarrow> None))"

definition config_vision :: "hub_site \<Rightarrow> string \<Rightarrow> trace \<Rightarrow> bool" where
  "config_vision site repo d = (map_of d ''vision_config'' \<noteq> None \<or> (case hs_repo site repo of None \<Rightarrow> False
     | Some r \<Rightarrow> sr_pipeline r = Some ''image-text-to-text'' \<or> list_ex (\<lambda>t. str_contains ''vision'' (str_lower t)) (sr_tags r)))"

definition variant_text :: "string \<Rightarrow> json \<Rightarrow> string option" where
  "variant_text k v = (case v of JObj d \<Rightarrow> (case map_of d k of None \<Rightarrow> Some '''' | Some (JStr s) \<Rightarrow> Some s | _ \<Rightarrow> None) | _ \<Rightarrow> None)"

fun variant_texts :: "string \<Rightarrow> json list \<Rightarrow> string list option" where
  "variant_texts k [] = Some []"
| "variant_texts k (v # vs) = (case (variant_text k v, variant_texts k vs) of (Some s, Some ss) \<Rightarrow> Some (s # ss) | _ \<Rightarrow> None)"

definition has_tool_word :: "string \<Rightarrow> bool" where
  "has_tool_word text = list_ex (\<lambda>kw. str_contains kw (str_lower text)) TOOL_KEYWORDS"

text \<open>\<open>any(...)\<close> over the variant names stops at the first hit, so a malformed name after it is not read.\<close>

fun any_tool_name :: "json list \<Rightarrow> bool option" where
  "any_tool_name [] = Some False"
| "any_tool_name (v # vs) = (case variant_text ''name'' v of None \<Rightarrow> None
     | Some s \<Rightarrow> if str_contains ''tool'' (str_lower s) then Some True else any_tool_name vs)"

text \<open>\<open>" ".join(...)\<close> of the variants; a keyword holds no space, so it occurs in the joined text exactly
  when it occurs in a variant.\<close>

definition template_tools :: "coercion \<Rightarrow> trace option \<Rightarrow> bool option" where
  "template_tools co tok = (case tok of None \<Rightarrow> Some False | Some [] \<Rightarrow> Some False
     | Some d \<Rightarrow> (case dflt (JStr '''') (map_of d ''chat_template'') of
         JList vs \<Rightarrow> (case variant_texts ''template'' vs of None \<Rightarrow> None
           | Some ss \<Rightarrow> (case any_tool_name vs of None \<Rightarrow> None
             | Some True \<Rightarrow> Some True | Some False \<Rightarrow> Some (list_ex has_tool_word ss)))
       | JStr s \<Rightarrow> Some (has_tool_word s)
       | v \<Rightarrow> Some (has_tool_word (co_show co v))))"

definition detect_capabilities :: "hub_site \<Rightarrow> coercion \<Rightarrow> string \<Rightarrow> unit + model_capabilities option" where
  "detect_capabilities site co repo = (case hs_json site repo ''config.json'' of
     None \<Rightarrow> Inr None
   | Some d \<Rightarrow> (case (config_context d, first_arch (dflt (JList []) (map_of d ''architectures'')),
         template_tools co (hs_json site repo ''tokenizer_config.json'')) of
       (Some ctx, Some arch, Some tools) \<Rightarrow>
         (case (co_int co ctx, co_text co arch, co_text co (dflt (JStr '''') (map_of d ''model_type''))) of
           (Some n, Some a, Some m) \<Rightarrow> Inr (Some \<lparr>mc_context_length = n, mc_vision = config_vision site repo d, mc_tools = tools,
              mc_architecture = a, mc_model_type = m, mc_repo_id = repo, mc_format = ''''\<rparr>)
         | _ \<Rightarrow> Inl ())
     | _ \<Rightarrow> Inl ()))"

definition capabilities_from_gguf :: "coercion \<Rightarrow> trace \<Rightarrow> model_capabilities option" where
  "capabilities_from_gguf co d = (case (co_int co (dflt (JInt 0) (map_of d ''context_length'')),
       co_text co (dflt (JStr '''') (map_of d ''architecture''))) of
     (Some n, Some a) \<Rightarrow> Some \<lparr>mc_context_length = n, mc_vision = False, mc_tools = False, mc_architecture = a,
        mc_model_type = '''', mc_repo_id = '''', mc_format = ''''\<rparr>
   | _ \<Rightarrow> None)"

section \<open>Merging\<close>

definition first_truthy :: "('a \<Rightarrow> 'b) \<Rightarrow> 'b \<Rightarrow> 'a list \<Rightarrow> 'b" where
  "first_truthy f zero srcs = (case find (\<lambda>s. f s \<noteq> zero) srcs of Some s \<Rightarrow> f s | None \<Rightarrow> zero)"

definition opt_list :: "'a option \<Rightarrow> 'a list" where
  "opt_list x = (case x of None \<Rightarrow> [] | Some y \<Rightarrow> [y])"

definition merge_capabilities :: "model_capabilities \<Rightarrow> model_capabilities option \<Rightarrow> model_capabilities option \<Rightarrow> model_capabilities" where
  "merge_capabilities provider hf gguf = (let srcs = provider # opt_list hf @ opt_list gguf in
     \<lparr>mc_context_length = first_truthy mc_context_length 0 srcs, mc_vision = first_truthy mc_vision False srcs,
      mc_tools = first_truthy mc_tools False srcs, mc_architecture = first_truthy mc_architecture '''' srcs,
      mc_model_type = first_truthy mc_model_type '''' srcs, mc_repo_id = first_truthy mc_repo_id '''' srcs,
      mc_format = first_truthy mc_format '''' srcs\<rparr>)"

section \<open>The cache\<close>

definition RETRY_AFTER :: flt where "RETRY_AFTER = 3600"

record capability_cache =
  cc_cache :: "(string, model_capabilities) dict"
  cc_failed :: "(string, flt) dict"

definition new_cache :: capability_cache where
  "new_cache = \<lparr>cc_cache = [], cc_failed = []\<rparr>"

text \<open>\<open>t1\<close> is the clock of the retry test, \<open>t2\<close> the time recorded with a failure. The list names the
  repositories fetched from the site.\<close>

definition fetch_cached :: "hub_site \<Rightarrow> coercion \<Rightarrow> flt \<Rightarrow> flt \<Rightarrow> string \<Rightarrow> capability_cache
    \<Rightarrow> (unit + model_capabilities option) \<times> capability_cache \<times> string list" where
  "fetch_cached site co t1 t2 repo c = (case map_of (cc_cache c) repo of
     Some caps \<Rightarrow> (Inr (Some caps), c, [])
   | None \<Rightarrow> (case map_of (cc_failed c) repo of
       Some t \<Rightarrow> if rnd (t1 - t) < RETRY_AFTER then (Inr None, c, [])
         else (let c' = c\<lparr>cc_failed := dict_pop repo (cc_failed c)\<rparr> in
           case detect_capabilities site co repo of
             Inl e \<Rightarrow> (Inl e, c', [repo])
           | Inr (Some caps) \<Rightarrow> (Inr (Some caps), c'\<lparr>cc_cache := dict_set repo caps (cc_cache c')\<rparr>, [repo])
           | Inr None \<Rightarrow> (Inr None, c'\<lparr>cc_failed := dict_set repo t2 (cc_failed c')\<rparr>, [repo]))
     | None \<Rightarrow> (case detect_capabilities site co repo of
             Inl e \<Rightarrow> (Inl e, c, [repo])
           | Inr (Some caps) \<Rightarrow> (Inr (Some caps), c\<lparr>cc_cache := dict_set repo caps (cc_cache c)\<rparr>, [repo])
           | Inr None \<Rightarrow> (Inr None, c\<lparr>cc_failed := dict_set repo t2 (cc_failed c)\<rparr>, [repo]))))"

definition card_base :: "site_repo \<Rightarrow> string" where
  "card_base r = (case sr_base r of OneBase s \<Rightarrow> s | ManyBases (s # _) \<Rightarrow> s | _ \<Rightarrow> '''')"

definition plain_base_tag :: "string \<Rightarrow> bool" where
  "plain_base_tag t \<longleftrightarrow> starts_with ''base_model:'' t \<and> \<not> str_contains '':quantized:'' t \<and> \<not> str_contains '':finetune:'' t"

definition resolve_base_model :: "hub_site \<Rightarrow> string \<Rightarrow> string option" where
  "resolve_base_model site repo = (case hs_repo site repo of None \<Rightarrow> None
     | Some r \<Rightarrow> if card_base r \<noteq> '''' then Some (card_base r)
         else map_option (drop (length ''base_model:'')) (find plain_base_tag (sr_tags r)))"

definition try_resolve_base :: "hub_site \<Rightarrow> string \<Rightarrow> capability_cache \<Rightarrow> string option" where
  "try_resolve_base site repo c = (if map_of (cc_cache c) repo \<noteq> None then Some repo
     else (case resolve_base_model site repo of
       Some b \<Rightarrow> if b \<noteq> '''' \<and> b \<noteq> repo then Some b else None | None \<Rightarrow> None))"

text \<open>A \<open>repo_id\<close> of the identity that is not text is never found on the site; it is treated as absent.\<close>

definition lookup_repo :: "provider_capabilities \<Rightarrow> trace option \<Rightarrow> string" where
  "lookup_repo caps identity = (if pc_repo_id caps \<noteq> '''' then pc_repo_id caps
     else (case identity of None \<Rightarrow> '''' | Some d \<Rightarrow> dflt '''' (text_field d ''repo_id'')))"

definition resolve_from_hf :: "hub_site \<Rightarrow> coercion \<Rightarrow> (nat \<Rightarrow> flt) \<Rightarrow> provider_capabilities \<Rightarrow> trace option \<Rightarrow> capability_cache
    \<Rightarrow> (unit + model_capabilities option) \<times> capability_cache \<times> string list" where
  "resolve_from_hf site co clk caps identity c = (let repo = lookup_repo caps identity in
     if repo = '''' then (Inr None, c, [])
     else (case fetch_cached site co (clk 0) (clk 1) repo c of
       (Inr None, c', fs) \<Rightarrow>
         (case try_resolve_base site repo c' of
           Some base \<Rightarrow> if base \<noteq> '''' \<and> base \<noteq> repo
             then (case fetch_cached site co (clk 2) (clk 3) base c' of (r, c'', fs') \<Rightarrow> (r, c'', fs @ fs'))
             else (Inr None, c', fs)
         | None \<Rightarrow> (Inr None, c', fs))
     | other \<Rightarrow> other))"

definition provider_source :: "provider_capabilities \<Rightarrow> model_capabilities" where
  "provider_source caps = \<lparr>mc_context_length = pc_context_length caps, mc_vision = pc_vision caps, mc_tools = pc_tools caps,
     mc_architecture = '''', mc_model_type = '''', mc_repo_id = pc_repo_id caps, mc_format = pc_format caps\<rparr>"

definition resolve_capabilities :: "hub_site \<Rightarrow> coercion \<Rightarrow> (nat \<Rightarrow> flt) \<Rightarrow> provider_capabilities \<Rightarrow> trace option \<Rightarrow> capability_cache
    \<Rightarrow> (unit + model_capabilities) \<times> capability_cache \<times> string list" where
  "resolve_capabilities site co clk caps identity c = (
     let gguf = (case identity of None \<Rightarrow> Inr None | Some d \<Rightarrow> if d = [] then Inr None
           else (case capabilities_from_gguf co d of None \<Rightarrow> Inl () | Some g \<Rightarrow> Inr (Some g)))
     in case gguf of
          Inl e \<Rightarrow> (Inl e, c, [])
        | Inr g \<Rightarrow> (case resolve_from_hf site co clk caps identity c of
            (Inl e, c', fs) \<Rightarrow> (Inl e, c', fs)
          | (Inr hf, c', fs) \<Rightarrow> (Inr (merge_capabilities (provider_source caps) hf g), c', fs)))"

end
