(* ===== verification/ModelLaws.thy ===== *)
theory ModelLaws
  imports Capabilities
begin

text \<open>
  Properties of what the coordinator believes about models: attribution never guesses, a verified hash
  is a published hash (of the file the provider names, not of the model it advertises), the merge
  prefers its sources in order, and a repository is fetched once, or once an hour while it fails.
\<close>

section \<open>Attribution\<close>

lemma set_advertised: "m \<in> set (advertised_models caps) \<longleftrightarrow> m \<in> set (pc_models caps) \<and> m \<noteq> '''' \<and> m \<noteq> ''default''"
  by (auto simp: advertised_models_def)

lemma distinct_advertised: "distinct (advertised_models caps)"
  by (simp add: advertised_models_def)

lemma single_advertised: "length (advertised_models caps) = 1 \<and> hd (advertised_models caps) = m \<longleftrightarrow> set (advertised_models caps) = {m}"
proof
  assume s: "set (advertised_models caps) = {m}"
  have "length (advertised_models caps) = 1" using s distinct_card [OF distinct_advertised, of caps] by simp
  then obtain x where "advertised_models caps = [x]" by (auto simp: length_Suc_conv)
  with s show "length (advertised_models caps) = 1 \<and> hd (advertised_models caps) = m" by simp
next
  assume a: "length (advertised_models caps) = 1 \<and> hd (advertised_models caps) = m"
  then obtain x where "advertised_models caps = [x]" by (auto simp: length_Suc_conv)
  with a show "set (advertised_models caps) = {m}" by simp
qed

text \<open>A completion is attributed to a model exactly when the provider advertises that model by a
  concrete name, the request asked for it or for any model, and the provider either confirmed it or
  confirmed nothing and has no other concrete model; in every other case there is no attribution.\<close>

theorem attribution_never_guesses:
  "served_model_for_request requested caps confirmed = Some m \<longleftrightarrow>
     m \<in> set (pc_models caps) \<and> m \<noteq> '''' \<and> m \<noteq> ''default'' \<and> (requested = ''default'' \<or> requested = m)
     \<and> (if confirmed = None \<or> confirmed = Some '''' then {x \<in> set (pc_models caps). x \<noteq> '''' \<and> x \<noteq> ''default''} = {m}
        else confirmed = Some m)"
proof -
  have s: "set (advertised_models caps) = {x \<in> set (pc_models caps). x \<noteq> '''' \<and> x \<noteq> ''default''}" by (auto simp: set_advertised)
  have one: "(if length (advertised_models caps) = 1 \<and> (requested = ''default'' \<or> requested = hd (advertised_models caps))
      then Some (hd (advertised_models caps)) else None) = Some m
    \<longleftrightarrow> set (advertised_models caps) = {m} \<and> (requested = ''default'' \<or> requested = m)"
    using single_advertised [of caps m] by auto
  have in_set: "set (advertised_models caps) = {m} \<Longrightarrow> m \<in> set (pc_models caps) \<and> m \<noteq> '''' \<and> m \<noteq> ''default''"
    using set_advertised [of m caps] by blast
  show ?thesis
  proof (cases "confirmed = None \<or> confirmed = Some ''''")
    case True
    then have "served_model_for_request requested caps confirmed = (if length (advertised_models caps) = 1
        \<and> (requested = ''default'' \<or> requested = hd (advertised_models caps)) then Some (hd (advertised_models caps)) else None)"
      by (auto simp: served_model_for_request_def Let_def)
    with True one in_set s show ?thesis by (simp only:) auto
  next
    case False
    then obtain c cs where "confirmed = Some (c # cs)" by (cases confirmed; cases "the confirmed") auto
    then show ?thesis using set_advertised [of "c # cs" caps] by (auto simp: served_model_for_request_def Let_def)
  qed
qed

lemma attribution_never_guesses_witness:
  "served_model_for_request ''default'' (sample_caps\<lparr>pc_models := [''m'', ''default'', ''m'']\<rparr>) None = Some ''m''"
  using attribution_never_guesses [of "''default''" "sample_caps\<lparr>pc_models := [''m'', ''default'', ''m'']\<rparr>" None "''m''"] by auto

section \<open>Hash verification\<close>

definition publishes :: "hub_site \<Rightarrow> string \<Rightarrow> string \<Rightarrow> string \<Rightarrow> bool" where
  "publishes site repo fname hash \<longleftrightarrow> (\<exists>r f. hs_repo site repo = Some r \<and> f \<in> set (sr_files r) \<and> sf_name f = fname \<and> sf_sha f = Some hash)"

lemma known_hash_register [simp]: "known_hash m (snd (register_provider_model pid model hash g)) = known_hash m g"
  by (simp add: register_provider_model_def Let_def known_hash_def)

lemma verify_advertised_true:
  "fst (verify_advertised ms hash g) \<Longrightarrow> \<exists>m \<in> set ms. m \<noteq> ''default'' \<and> known_hash m g = hash \<and> hash \<noteq> ''''"
proof (induction ms arbitrary: g)
  case (Cons m ms)
  obtain pm g' where r: "register_provider_model ''pending'' m hash g = (pm, g')" by force
  have k: "known_hash x g' = known_hash x g" for x using known_hash_register [of x "''pending''" m hash g] by (simp add: r)
  have v: "pm_verified pm \<Longrightarrow> known_hash m g = hash \<and> hash \<noteq> ''''" using r by (auto simp: register_provider_model_def Let_def)
  show ?case using Cons.prems v Cons.IH [of g] Cons.IH [of g'] by (auto simp: r k split: if_splits)
qed simp

lemma register_from_hf_some:
  assumes "register_model_from_hf site repo fname g = (Some i, g')" "mi_sha i \<noteq> ''''"
  shows "publishes site repo fname (mi_sha i)"
proof -
  obtain r f where r: "hs_repo site repo = Some r" "find (\<lambda>f. sf_name f = fname) (sr_files r) = Some f" "mi_sha i = dflt '''' (sf_sha f)"
    using assms(1) by (auto simp: register_model_from_hf_def Let_def split: option.splits)
  from find_Some_in [OF r(2)] r assms(2) show ?thesis by (cases "sf_sha f") (auto simp: publishes_def)
qed

text \<open>A registration is marked verified only when its identity carries a usable file hash that is
  published: either as the known hash of a model it advertises, or as the hash of the file that the
  identity itself names on the model site.\<close>

theorem verified_hash_is_published:
  assumes "verify_model_hash site reg g = (Some True, g')"
  shows "\<exists>d hash. reg_identity reg = Some d \<and> map_of d ''file_hash'' = Some (JStr hash) \<and> hash \<noteq> '''' \<and> \<not> starts_with ''skipped-'' hash
    \<and> ((\<exists>m \<in> set (pc_models (reg_caps reg)). m \<noteq> ''default'' \<and> known_hash m g = hash)
       \<or> (\<exists>repo fname. map_of d ''repo_id'' = Some (JStr repo) \<and> map_of d ''filename'' = Some (JStr fname) \<and> publishes site repo fname hash))"
proof -
  obtain d hash where d: "reg_identity reg = Some d" "map_of d ''file_hash'' = Some (JStr hash)" "hash \<noteq> ''''" "\<not> starts_with ''skipped-'' hash"
    using assms by (auto simp: verify_model_hash_def split: option.splits json.splits if_splits)
  then have ne: "d \<noteq> []" by auto
  obtain b g1 where v: "verify_advertised (pc_models (reg_caps reg)) hash g = (b, g1)" by force
  show ?thesis
  proof (cases b)
    case True
    then show ?thesis using verify_advertised_true [of "pc_models (reg_caps reg)" hash g] d v by auto
  next
    case False
    then obtain repo fname i g2 where r: "text_field d ''repo_id'' = Some repo" "text_field d ''filename'' = Some fname" "repo \<noteq> ''''" "fname \<noteq> ''''"
        "register_model_from_hf site repo fname g1 = (Some i, g2)" "mi_sha i \<noteq> ''''" "mi_sha i = hash"
      using assms d ne v by (auto simp: verify_model_hash_def split: option.splits prod.splits if_splits)
    have "map_of d ''repo_id'' = Some (JStr repo)" "map_of d ''filename'' = Some (JStr fname)"
      using r(1-4) by (auto simp: text_field_def split: option.splits json.splits)
    with d register_from_hf_some [OF r(5,6)] r(7) show ?thesis by blast
  qed
qed

definition sample_site :: hub_site where
  "sample_site = \<lparr>hs_repo = (\<lambda>r. if r = ''org/tiny'' then Some \<lparr>sr_files = [\<lparr>sf_name = ''t.gguf'', sf_size = Some 1, sf_sha = Some ''ab''\<rparr>],
     sr_downloads = None, sr_base = NoBase, sr_tags = [], sr_pipeline = None\<rparr> else None), hs_json = (\<lambda>_ _. None)\<rparr>"

definition sample_identity :: trace where
  "sample_identity = [(''file_hash'', JStr ''ab''), (''repo_id'', JStr ''org/tiny''), (''filename'', JStr ''t.gguf'')]"

lemma sample_identity_facts: "map_of sample_identity ''file_hash'' = Some (JStr ''ab'')" "map_of sample_identity ''repo_id'' = Some (JStr ''org/tiny'')"
  "map_of sample_identity ''filename'' = Some (JStr ''t.gguf'')" "publishes sample_site ''org/tiny'' ''t.gguf'' ''ab''"
  by (simp_all add: sample_identity_def sample_site_def publishes_def)

text \<open>No advertised model has a known hash: the case of a fresh registry.\<close>

lemma verify_advertised_unknown:
  "(\<And>m. known_hash m g = '''') \<Longrightarrow> \<not> fst (verify_advertised ms hash g)"
  using verify_advertised_true [of ms hash g] by metis

lemma register_from_hf_sha:
  assumes "hs_repo site repo = Some r" "find (\<lambda>f. sf_name f = fname) (sr_files r) = Some f" "sf_sha f = Some hash"
  shows "\<exists>i g'. register_model_from_hf site repo fname g = (Some i, g') \<and> mi_sha i = hash"
  using assms by (simp add: register_model_from_hf_def Let_def)

text \<open>The verification does not bind the hash to the advertised model: with a fresh registry, a
  registration whose identity names a file the site publishes under the identity's own hash is marked
  verified whatever models it advertises.\<close>

theorem hash_ignores_advertised:
  assumes "reg_identity reg = Some d" "map_of d ''file_hash'' = Some (JStr hash)" "hash \<noteq> ''''" "\<not> starts_with ''skipped-'' hash"
    "map_of d ''repo_id'' = Some (JStr repo)" "map_of d ''filename'' = Some (JStr fname)" "repo \<noteq> ''''" "fname \<noteq> ''''"
    "hs_repo site repo = Some r" "find (\<lambda>f. sf_name f = fname) (sr_files r) = Some f" "sf_sha f = Some hash"
  shows "fst (verify_model_hash site (reg\<lparr>reg_caps := (reg_caps reg)\<lparr>pc_models := any_models\<rparr>\<rparr>) new_registry) = Some True"
proof -
  obtain b g1 where v: "verify_advertised any_models hash new_registry = (b, g1)" by force
  have "known_hash m new_registry = ''''" for m by (simp add: known_hash_def new_registry_def)
  from verify_advertised_unknown [OF this] v have nb: "\<not> b" by (metis fst_conv)
  from register_from_hf_sha [OF assms(9-11)] obtain i g2 where i: "register_model_from_hf site repo fname g1 = (Some i, g2)" "mi_sha i = hash" by blast
  have "d \<noteq> []" using assms(2) by auto
  with assms v nb i show ?thesis by (simp add: verify_model_hash_def text_field_def)
qed

lemma hash_ignores_advertised_witness:
  "fst (verify_model_hash sample_site (sample_registration\<lparr>reg_identity := Some sample_identity,
     reg_caps := (reg_caps sample_registration)\<lparr>pc_models := [''llama-405b'']\<rparr>\<rparr>) new_registry) = Some True"
proof -
  have "\<not> starts_with ''skipped-'' ''ab''" by (simp add: starts_with_def)
  note h = hash_ignores_advertised [of "sample_registration\<lparr>reg_identity := Some sample_identity\<rparr>" sample_identity "''ab''" "''org/tiny''" "''t.gguf''" sample_site _ _ "[''llama-405b'']",
      OF _ sample_identity_facts(1) _ this sample_identity_facts(2,3)]
  show ?thesis using h by (simp add: sample_site_def)
qed

lemma verified_hash_is_published_witness:
  "\<exists>d hash. reg_identity (sample_registration\<lparr>reg_identity := Some sample_identity\<rparr>) = Some d \<and> map_of d ''file_hash'' = Some (JStr hash)"
proof -
  let ?reg = "sample_registration\<lparr>reg_identity := Some sample_identity\<rparr>"
  obtain g' where "verify_model_hash sample_site ?reg new_registry = (Some True, g')"
  proof -
    have "fst (verify_model_hash sample_site ?reg new_registry) = Some True"
      by (simp add: verify_model_hash_def sample_identity_def sample_site_def sample_registration_def sample_caps_def starts_with_def
          register_provider_model_def known_hash_def new_registry_def text_field_def register_model_from_hf_def Let_def)
    then show thesis using that by (metis prod.collapse)
  qed
  from verified_hash_is_published [OF this] show ?thesis by blast
qed

section \<open>Merging\<close>

lemma first_truthy_cases:
  "first_truthy f zero [] = zero" "first_truthy f zero (s # ss) = (if f s \<noteq> zero then f s else first_truthy f zero ss)"
  by (simp_all add: first_truthy_def)

text \<open>The specification: the provider's value unless it is empty, else the site's, else the GGUF one.\<close>

definition choose_value :: "'a \<Rightarrow> 'a \<Rightarrow> 'a \<Rightarrow> 'a \<Rightarrow> 'a" where
  "choose_value zero a b c = (if a \<noteq> zero then a else if b \<noteq> zero then b else c)"

definition source_field :: "(model_capabilities \<Rightarrow> 'a) \<Rightarrow> 'a \<Rightarrow> model_capabilities option \<Rightarrow> 'a" where
  "source_field f zero x = (case x of None \<Rightarrow> zero | Some c \<Rightarrow> f c)"

lemma first_truthy_choose:
  "first_truthy f zero (p # opt_list a @ opt_list b) = choose_value zero (f p) (source_field f zero a) (source_field f zero b)"
  by (auto simp: first_truthy_cases choose_value_def source_field_def opt_list_def split: option.split)

text \<open>The merge takes every field from the provider's registration, else from the model site, else
  from the GGUF identity; so a flag is set exactly when some source sets it, and a provider's explicit
  \<open>False\<close> or 0 does not override the other sources.\<close>

theorem merge_precedence:
  "merge_capabilities p a b = \<lparr>
     mc_context_length = choose_value 0 (mc_context_length p) (source_field mc_context_length 0 a) (source_field mc_context_length 0 b),
     mc_vision = (mc_vision p \<or> source_field mc_vision False a \<or> source_field mc_vision False b),
     mc_tools = (mc_tools p \<or> source_field mc_tools False a \<or> source_field mc_tools False b),
     mc_architecture = choose_value '''' (mc_architecture p) (source_field mc_architecture '''' a) (source_field mc_architecture '''' b),
     mc_model_type = choose_value '''' (mc_model_type p) (source_field mc_model_type '''' a) (source_field mc_model_type '''' b),
     mc_repo_id = choose_value '''' (mc_repo_id p) (source_field mc_repo_id '''' a) (source_field mc_repo_id '''' b),
     mc_format = choose_value '''' (mc_format p) (source_field mc_format '''' a) (source_field mc_format '''' b)\<rparr>"
proof -
  have b: "choose_value False x y z = (x \<or> y \<or> z)" for x y z by (simp add: choose_value_def)
  show ?thesis by (simp add: merge_capabilities_def Let_def first_truthy_choose b)
qed

section \<open>Site lookups\<close>

text \<open>Lookups of any repositories, each with one clock reading; the list names those fetched from the site.\<close>

fun fetch_run :: "hub_site \<Rightarrow> coercion \<Rightarrow> (flt \<times> string) list \<Rightarrow> capability_cache \<Rightarrow> capability_cache \<times> string list" where
  "fetch_run site co [] c = (c, [])"
| "fetch_run site co ((now, repo) # xs) c = (case fetch_cached site co now now repo c of
     (_, c', fs) \<Rightarrow> case fetch_run site co xs c' of (c'', fs') \<Rightarrow> (c'', fs @ fs'))"

text \<open>A repository is settled until an hour after \<open>t\<close>: it is cached, or its failure is recorded at \<open>t\<close>.\<close>

definition settled :: "flt \<Rightarrow> string \<Rightarrow> capability_cache \<Rightarrow> bool" where
  "settled t repo c \<longleftrightarrow> map_of (cc_cache c) repo \<noteq> None \<or> map_of (cc_failed c) repo = Some t"

lemma fetch_cached_other:
  assumes "fetch_cached site co t1 t2 repo c = (r, c', fs)" "repo' \<noteq> repo"
  shows "map_of (cc_cache c') repo' = map_of (cc_cache c) repo' \<and> map_of (cc_failed c') repo' = map_of (cc_failed c) repo' \<and> repo' \<notin> set fs"
  using assms by (auto simp: fetch_cached_def Let_def split: option.splits sum.splits if_splits)

lemma fetch_cached_settled:
  assumes "settled t repo c" "rnd (t1 - t) < 3600" shows "fetch_cached site co t1 t2 repo c = (Inr (map_of (cc_cache c) repo), c, [])"
  using assms by (auto simp: settled_def fetch_cached_def RETRY_AFTER_def split: option.split)

lemma fetch_cached_settles:
  assumes "fetch_cached site co t1 t2 repo c = (Inr r, c', fs)" "fs \<noteq> []"
  shows "settled t2 repo c' \<and> (\<forall>caps. r = Some caps \<longrightarrow> map_of (cc_cache c') repo = Some caps)"
  using assms by (auto simp: settled_def fetch_cached_def Let_def split: option.splits sum.splits if_splits)

lemma fetch_run_settled:
  assumes "settled t repo c" "\<forall>(now, x) \<in> set xs. rnd (now - t) < 3600"
  shows "repo \<notin> set (snd (fetch_run site co xs c)) \<and> settled t repo (fst (fetch_run site co xs c))"
  using assms
proof (induction xs arbitrary: c)
  case (Cons x xs)
  obtain now y where x: "x = (now, y)" by force
  obtain r c' fs where f: "fetch_cached site co now now y c = (r, c', fs)" by (metis prod_cases3)
  have "settled t repo c' \<and> repo \<notin> set fs"
  proof (cases "y = repo")
    case True
    have "rnd (now - t) < 3600" using Cons.prems(2) by (auto simp: x)
    from fetch_cached_settled [OF Cons.prems(1) this, of site co now] f True Cons.prems(1) show ?thesis by simp
  next
    case False
    from fetch_cached_other [OF f, of repo] False Cons.prems(1) show ?thesis by (auto simp: settled_def)
  qed
  moreover from this Cons.IH [of c'] Cons.prems(2)
  have "repo \<notin> set (snd (fetch_run site co xs c')) \<and> settled t repo (fst (fetch_run site co xs c'))" by auto
  ultimately show ?case by (auto simp: x f split: prod.split)
qed simp

lemma fetch_run_cached:
  "map_of (cc_cache c) repo = Some caps \<Longrightarrow>
   map_of (cc_cache (fst (fetch_run site co xs c))) repo = Some caps \<and> repo \<notin> set (snd (fetch_run site co xs c))"
proof (induction xs arbitrary: c)
  case (Cons x xs)
  obtain now y where x: "x = (now, y)" by force
  obtain r c' fs where f: "fetch_cached site co now now y c = (r, c', fs)" by (metis prod_cases3)
  have "map_of (cc_cache c') repo = Some caps \<and> repo \<notin> set fs"
  proof (cases "y = repo")
    case True
    with f Cons.prems show ?thesis by (auto simp: fetch_cached_def)
  next
    case False
    from fetch_cached_other [OF f, of repo] False Cons.prems show ?thesis by auto
  qed
  with Cons.IH [of c'] show ?case by (auto simp: x f split: prod.split)
qed simp

text \<open>A lookup that reached the model site is not repeated: after a success the repository is served
  from the cache for good, and after a failure it is not fetched again by any lookup within the next
  hour, whatever other repositories are looked up in between.\<close>

theorem site_lookups_throttled:
  assumes "fetch_cached site co t t repo c = (Inr r, c', [repo])"
  shows "(r \<noteq> None \<longrightarrow> map_of (cc_cache (fst (fetch_run site co xs c'))) repo = r \<and> repo \<notin> set (snd (fetch_run site co xs c')))
    \<and> ((\<forall>(now, x) \<in> set xs. rnd (now - t) < 3600) \<longrightarrow> repo \<notin> set (snd (fetch_run site co xs c')))"
proof (intro conjI impI)
  note s = fetch_cached_settles [OF assms]
  show "repo \<notin> set (snd (fetch_run site co xs c'))" if "\<forall>(now, x) \<in> set xs. rnd (now - t) < 3600"
    using s fetch_run_settled [OF _ that] by simp
  assume "r \<noteq> None"
  then obtain caps where "r = Some caps" by blast
  with s fetch_run_cached [of c' repo caps]
  show "map_of (cc_cache (fst (fetch_run site co xs c'))) repo = r" "repo \<notin> set (snd (fetch_run site co xs c'))" by auto
qed

definition sample_coercion :: coercion where
  "sample_coercion = \<lparr>co_int = (\<lambda>v. case v of JInt n \<Rightarrow> Some n | _ \<Rightarrow> None), co_text = (\<lambda>v. case v of JStr s \<Rightarrow> Some s | _ \<Rightarrow> None),
     co_show = (\<lambda>_. '''')\<rparr>"

lemma site_lookups_throttled_witness:
  "''r'' \<notin> set (snd (fetch_run sample_site sample_coercion [(60, ''r'')] (fst (snd (fetch_cached sample_site sample_coercion 0 0 ''r'' new_cache)))))"
proof -
  have "fetch_cached sample_site sample_coercion 0 0 ''r'' new_cache
      = (Inr None, fst (snd (fetch_cached sample_site sample_coercion 0 0 ''r'' new_cache)), [''r''])"
    by (simp add: fetch_cached_def new_cache_def detect_capabilities_def sample_site_def)
  from site_lookups_throttled [OF this, of "[(60, ''r'')]"] fl.r_exact [OF fl.exact_int [of 60]] show ?thesis by simp
qed

end
