(* ===== verification/Settlement.thy ===== *)
theory Settlement
  imports HubRuns StoreOutcomes Quality Events ModelRegistry
begin

text \<open>
  Settlement: what the coordinator does when a request is over. The billing callback of
  \<open>routes_inference.py\<close> charges the store, counts the country pair, completes the outcome row, publishes
  the billing event and records the throughput; a failed request amends its outcome row
  (\<open>ProviderHub._record_failed_outcome\<close>). \<open>serve\<close> composes the hub with these services: it performs a hub
  operation and then its effects, in their order.
\<close>

section \<open>The services\<close>

record services =
  sv_db :: db
  sv_activity :: activity
  sv_bus :: event_bus
  sv_tps :: tps_tracker
  sv_reputation :: reputation_tracker

text \<open>The keyed hash and the switch of the country counters.\<close>

record country_params =
  cy_mac :: "int \<Rightarrow> string \<Rightarrow> string \<Rightarrow> string"
  cy_on :: bool

section \<open>The billing callback\<close>

text \<open>What the closure of \<open>_make_billing_callback\<close> captures. The provider is the connected provider at
  that time; the fields the callback reads do not change after registration.\<close>

record bill_callback =
  bc_request :: string
  bc_model :: string
  bc_provider :: connected_provider
  bc_consumer :: string
  bc_estimate :: int
  bc_start :: flt
  bc_preference :: string
  bc_queued :: bool
  bc_wait :: int
  bc_caller :: "string option"

text \<open>The clock readings of one invocation, in the order the code takes them.\<close>

record bill_clock =
  bk_done :: flt
  bk_account :: flt
  bk_charge :: flt
  bk_activity :: flt
  bk_amend :: flt
  bk_event :: flt
  bk_tps :: flt

definition bill_input :: "bill_callback \<Rightarrow> inference_done \<Rightarrow> int" where
  "bill_input cb m = (if 0 < dn_input m then dn_input m else bc_estimate cb)"

definition bill_elapsed :: "bill_clock \<Rightarrow> bill_callback \<Rightarrow> flt" where
  "bill_elapsed t cb = rnd (bk_done t - bc_start cb)"

definition bill_latency :: "bill_clock \<Rightarrow> bill_callback \<Rightarrow> int" where
  "bill_latency t cb = to_int (rnd (bill_elapsed t cb * 1000))"

definition bill_tps :: "bill_clock \<Rightarrow> bill_callback \<Rightarrow> inference_done \<Rightarrow> flt" where
  "bill_tps t cb m = (if 0 < bill_elapsed t cb \<and> 0 < dn_tokens m then rnd (of_int (dn_tokens m) / bill_elapsed t cb) else 0)"

definition bill_served :: "bill_callback \<Rightarrow> inference_done \<Rightarrow> string option" where
  "bill_served cb m = served_model_for_request (bc_model cb) (cp_caps (bc_provider cb)) (dn_served m)"

definition payee :: "connected_provider \<Rightarrow> string" where
  "payee p = (if cp_billing p \<noteq> '''' then cp_billing p else cp_id p)"

definition bill_args :: "bill_clock \<Rightarrow> bill_callback \<Rightarrow> inference_done \<Rightarrow> charge_args" where
  "bill_args t cb m = (let p = bc_provider cb; c = cp_caps p in
     \<lparr>ch_request = bc_request cb, ch_consumer = bc_consumer cb, ch_provider = payee p, ch_model = bc_model cb,
      ch_input = bill_input cb m, ch_output = dn_tokens m, ch_price_input = pc_price_in c, ch_price_output = pc_price_out c,
      ch_cached = dn_cached m, ch_price_cache = pc_price_cache c, ch_provider_name = cp_name p, ch_trust = trust_claim p,
      ch_encrypted = (cp_enc_key p \<noteq> ''''), ch_preference = bc_preference cb, ch_latency = bill_latency t cb, ch_ttft = 0,
      ch_tps = py_round (bill_tps t cb m) 2, ch_queued = bc_queued cb, ch_queue_wait = bc_wait cb,
      ch_connection = cp_session p, ch_requested_model = Some (bc_model cb), ch_served_model = bill_served cb m\<rparr>)"

definition bill_event :: "bill_clock \<Rightarrow> bill_callback \<Rightarrow> inference_done \<Rightarrow> int \<Rightarrow> trace" where
  "bill_event t cb m cost = (let p = bc_provider cb in
     [(''type'', JStr ''billing''), (''request_id'', JStr (bc_request cb)), (''consumer_id'', JStr (bc_consumer cb)),
      (''provider_id'', JStr (cp_id p)), (''provider_name'', JStr (cp_name p)), (''model'', JStr (bc_model cb)),
      (''requested_model'', JStr (bc_model cb)), (''served_model'', j_opt JStr (bill_served cb m)),
      (''cost_usd'', JFloat (int_div cost 1000000)), (''tokens'', JInt (dn_tokens m)), (''input_tokens'', JInt (bill_input cb m)),
      (''cached_tokens'', JInt (dn_cached m)), (''latency_ms'', JInt (bill_latency t cb)),
      (''tps'', JFloat (py_round (bill_tps t cb m) 2)), (''trust_level'', JStr (trust_claim p)),
      (''encrypted'', JBool (cp_enc_key p \<noteq> ''''))])"

definition completion_of :: "bill_clock \<Rightarrow> bill_callback \<Rightarrow> inference_done \<Rightarrow> amendment" where
  "completion_of t cb m = \<lparr>am_status = ''completed'', am_served_model = bill_served cb m, am_latency = Some (bill_latency t cb),
     am_provider_country = cp_country (bc_provider cb), am_caller_country = bc_caller cb\<rparr>"

text \<open>The charge raises \<open>OverflowError\<close> when a number it binds does not fit the 64 bits of an SQLite
  integer; the transaction is rolled back then. These are the numbers, in the order they are bound.\<close>

definition int64 :: "int \<Rightarrow> bool" where
  "int64 n \<longleftrightarrow> - (2 ^ 63) \<le> n \<and> n < 2 ^ 63"

definition charge_values :: "charge_args \<Rightarrow> int list" where
  "charge_values a = [total_cost a, ch_input a + ch_output a, total_cost a - platform_fee (total_cost a),
     ch_input a, ch_output a, ch_cached a, cost_input a, cost_output a, cost_cache a,
     platform_fee (total_cost a), ch_latency a, ch_ttft a, ch_queue_wait a]"

definition charge_raises :: "charge_args \<Rightarrow> bool" where
  "charge_raises a \<longleftrightarrow> \<not> list_all int64 (charge_values a)"

text \<open>The callback. When the charge raises nothing after it runs.\<close>

definition settle :: "country_params \<Rightarrow> bill_clock \<Rightarrow> bill_callback \<Rightarrow> inference_done \<Rightarrow> services \<Rightarrow> services" where
  "settle cy t cb m s = (if charge_raises (bill_args t cb m) then s else
    (case charge_request (bill_args t cb m) (bk_account t) (bk_charge t) (sv_db s) of
     (Inl e, db) \<Rightarrow> s\<lparr>sv_db := db\<rparr>
   | (Inr bill, db1) \<Rightarrow>
      (let act = record_activity (cy_mac cy) (cy_on cy) (cp_country (bc_provider cb)) (bc_caller cb) (bc_consumer cb)
             (bc_request cb) (bk_activity t) (sv_activity s);
           db2 = snd (amend_request_outcome (bc_request cb) (Some (bc_consumer cb)) (completion_of t cb m) (bk_amend t) db1);
           bus = publish (bk_event t) (bill_event t cb m (res_cost bill)) (sv_bus s);
           tps = (case bill_served cb m of
             Some model \<Rightarrow> if model \<noteq> '''' \<and> 0 < dn_tokens m \<and> 0 < bill_elapsed t cb
               then tps_record_request (cp_id (bc_provider cb)) model (dn_tokens m) (bill_elapsed t cb)
                      (pc_hardware (cp_caps (bc_provider cb))) (bk_tps t) (sv_tps s)
               else sv_tps s
           | None \<Rightarrow> sv_tps s)
       in s\<lparr>sv_db := db2, sv_activity := act, sv_bus := bus, sv_tps := tps\<rparr>)))"

section \<open>Failed requests\<close>

definition failure :: amendment where
  "failure = \<lparr>am_status = ''failed'', am_served_model = None, am_latency = None, am_provider_country = None, am_caller_country = None\<rparr>"

definition record_failed_outcome :: "flt \<Rightarrow> string \<Rightarrow> services \<Rightarrow> services" where
  "record_failed_outcome now rid s = s\<lparr>sv_db := snd (amend_request_outcome rid None failure now (sv_db s))\<rparr>"

section \<open>The hub with its services\<close>

text \<open>One effect of the hub. Sends, closes, wake-ups and scheduled tasks do not touch the services. A
  callback that raises is caught where it is invoked, and the request is recorded as failed.\<close>

fun perform :: "country_params \<Rightarrow> bill_clock \<Rightarrow> services \<Rightarrow> bill_callback hub_effect \<Rightarrow> services" where
  "perform cy t s (Bill rid cb m) = (if charge_raises (bill_args t cb m) then record_failed_outcome (bk_amend t) rid s
     else settle cy t cb m s)"
| "perform cy t s (OutcomeFailed rid) = record_failed_outcome (bk_amend t) rid s"
| "perform cy t s _ = s"

text \<open>Hub operations with the clock readings of their effects.\<close>

type_synonym served_op = "bill_callback hub_op \<times> bill_clock"

fun serve :: "country_params \<Rightarrow> served_op list \<Rightarrow> bill_callback hub \<Rightarrow> services \<Rightarrow> bill_callback hub \<times> services" where
  "serve cy [] h s = (h, s)"
| "serve cy ((x, t) # xs) h s = (case hub_step x h of (h', es) \<Rightarrow> serve cy xs h' (foldl (perform cy t) s es))"

end
