(* ===== verification/HubLaws.thy ===== *)
theory HubLaws
  imports HubInvariant
begin

text \<open>
  Properties of the hub over any sequence of operations: integrity of its tables, billing at most
  once, no routing to a provider without App Attest admission, first-come dispatch of the waiting
  requests, what a disconnection leaves behind, and the two gaps found in billing and capacity.
\<close>

section \<open>Integrity\<close>

lemma put_pending_tables:
  assumes "put_pending p h = (r, h')"
  shows "hub_providers h' = hub_providers h" "hub_routes h' = hub_routes h" "hub_queues h' = hub_queues h" "hub_callbacks h' = hub_callbacks h"
  using assms by (auto simp: put_pending_def split: if_splits)

lemma dispatch_items_frame:
  "hub_providers (fst (snd (dispatch_items clk ps d h))) = hub_providers h
   \<and> hub_routes (fst (snd (dispatch_items clk ps d h))) = hub_routes h
   \<and> hub_queues (fst (snd (dispatch_items clk ps d h))) = hub_queues h
   \<and> hub_callbacks (fst (snd (dispatch_items clk ps d h))) = hub_callbacks h"
proof (induction ps arbitrary: d h)
  case (Cons p ps)
  obtain r1 h1 where s: "select_for clk p h = (r1, h1)" by force
  obtain r2 h2 where p: "put_pending p h = (r2, h2)" by force
  obtain r3 h3 where q: "put_pending p h1 = (r3, h3)" by force
  show ?case
    using select_provider_frame [OF s [unfolded select_for_def]] put_pending_tables [OF p] put_pending_tables [OF q]
      Cons.IH [of True h1] Cons.IH [of True h2] Cons.IH [of False h3]
    by (auto simp: s p q split: prod.split sum.split option.split)
qed simp

lemma try_dispatch_frame:
  "hub_providers (fst (snd (try_dispatch_queued clk h))) = hub_providers h"
  "hub_routes (fst (snd (try_dispatch_queued clk h))) = hub_routes h"
  "hub_queues (fst (snd (try_dispatch_queued clk h))) = hub_queues h"
  "hub_callbacks (fst (snd (try_dispatch_queued clk h))) = hub_callbacks h"
  using dispatch_items_frame [of clk "hub_pending h" False "h\<lparr>hub_pending := []\<rparr>"] by (simp_all add: try_dispatch_queued_def)

lemma message_frame:
  "hub_routes (fst (snd (handle_provider_message v q data h))) = hub_routes h
   \<and> (map_of (hub_providers (fst (snd (handle_provider_message v q data h)))) pid = None \<longleftrightarrow> map_of (hub_providers h) pid = None)"
  by (auto simp: handle_provider_message_def handle_done_def handle_error_def handle_other_def Let_def split: option.split json.split)

text \<open>Where routes come from: an operation adds none but the start of a send, and only a disconnect
  takes a provider away, with every route to it.\<close>

lemma step_routes:
  assumes "map_of (hub_routes (fst (hub_step x h))) rid = Some pid"
  shows "map_of (hub_routes h) rid = Some pid
    \<or> (\<exists>now p req. x = SendStart now p req \<and> ir_request req = rid \<and> cp_id p = pid \<and> (admitted now p \<or> \<not> requires_app_attest p))"
proof (cases x)
  case (Message v q data)
  then show ?thesis using assms message_frame [of v q data h] by simp
next
  case (Select sk rep model pref mc maxp sid)
  then show ?thesis using assms select_provider_frame [OF prod.collapse [symmetric], of sk rep model pref mc maxp sid h] by simp
next
  case (SendStart now p req)
  then show ?thesis using assms by (auto simp: begin_send_def Let_def split: if_splits)
next
  case (Dispatch clk)
  then show ?thesis using assms by (simp add: try_dispatch_frame)
qed (use assms in \<open>auto simp: register_provider_def bind_connection_def record_model_def set_quarantine_def handle_heartbeat_def
    disconnect_provider_def force_disconnect_def end_send_def
    send_attestation_challenge_def handle_attestation_response_def check_attestation_timeouts_def create_response_queue_def
    remove_response_queue_def take_message_def register_billing_callback_def enqueue_request_def put_pending_def clear_queue_def Let_def
    split: option.splits list.splits if_splits\<close>)

lemma step_connected:
  assumes "hub_ok h" "map_of (hub_routes (fst (hub_step x h))) rid = Some pid" "map_of (hub_providers h) pid \<noteq> None"
  shows "map_of (hub_providers (fst (hub_step x h))) pid \<noteq> None"
proof (cases x)
  case (Message v q data)
  then show ?thesis using assms(3) message_frame [of v q data h pid] by simp
next
  case (Select sk rep model pref mc maxp sid)
  then show ?thesis using assms(3) select_provider_frame [OF prod.collapse [symmetric], of sk rep model pref mc maxp sid h] by simp
next
  case (Dispatch clk)
  then show ?thesis using assms(3) by (simp add: try_dispatch_frame)
next
  case (Disconnect q)
  then show ?thesis using assms set_routed_to [of h rid q] by (auto simp: hub_ok_def routes_ok_def disconnect_provider_def Let_def split: option.splits if_splits)
next
  case (ForceDisconnect q reason)
  then show ?thesis using assms set_routed_to [of h rid q]
    by (auto simp: hub_ok_def routes_ok_def force_disconnect_def disconnect_provider_def Let_def split: option.splits if_splits)
next
  case (CheckTimeouts now limit)
  have m: "map_of (map (\<lambda>(pid, p). (pid, time_out now limit p)) d) q = map_option (time_out now limit) (map_of d q)" for d q
    by (induction d) auto
  from CheckTimeouts show ?thesis using assms(3) by (simp add: check_attestation_timeouts_def m)
qed (use assms(3) in \<open>auto simp: register_provider_def bind_connection_def record_model_def set_quarantine_def handle_heartbeat_def
    begin_send_def end_send_def send_attestation_challenge_def handle_attestation_response_def create_response_queue_def
    remove_response_queue_def take_message_def register_billing_callback_def enqueue_request_def put_pending_def clear_queue_def Let_def
    split: option.split list.split if_splits\<close>)

lemma new_hub_routes: "hub_routes (new_hub depth) = []"
  by (simp add: new_hub_def)

text \<open>A run in which every send starts on a provider that is connected at that moment.\<close>

fun sends_live :: "'cb hub_op list \<Rightarrow> 'cb hub \<Rightarrow> bool" where
  "sends_live [] h = True"
| "sends_live (x # xs) h = ((case x of SendStart now p req \<Rightarrow> map_of (hub_providers h) (cp_id p) \<noteq> None | _ \<Rightarrow> True)
     \<and> sends_live xs (fst (hub_step x h)))"

lemma run_routes:
  assumes "map_of (hub_routes (fst (hub_run xs h))) rid = Some pid"
  shows "map_of (hub_routes h) rid = Some pid \<or> (\<exists>now p req. SendStart now p req \<in> set xs \<and> ir_request req = rid \<and> cp_id p = pid
    \<and> (admitted now p \<or> \<not> requires_app_attest p))"
  using assms
proof (induction xs arbitrary: h)
  case (Cons x xs)
  from Cons.prems have "map_of (hub_routes (fst (hub_run xs (fst (hub_step x h))))) rid = Some pid" by (simp only: hub_run_Cons)
  from Cons.IH [OF this] show ?case
  proof
    assume "map_of (hub_routes (fst (hub_step x h))) rid = Some pid"
    from step_routes [OF this] show ?thesis by (auto intro: list.set_intros)
  next
    assume "\<exists>now p req. SendStart now p req \<in> set xs \<and> ir_request req = rid \<and> cp_id p = pid \<and> (admitted now p \<or> \<not> requires_app_attest p)"
    then show ?thesis by (auto intro: list.set_intros)
  qed
qed simp

lemma run_connected:
  assumes "hub_ok h" "sends_live xs h" "\<forall>rid pid. map_of (hub_routes h) rid = Some pid \<longrightarrow> map_of (hub_providers h) pid \<noteq> None"
    "map_of (hub_routes (fst (hub_run xs h))) rid = Some pid"
  shows "map_of (hub_providers (fst (hub_run xs h))) pid \<noteq> None"
  using assms
proof (induction xs arbitrary: h)
  case (Cons x xs)
  have "map_of (hub_providers (fst (hub_step x h))) q \<noteq> None" if r: "map_of (hub_routes (fst (hub_step x h))) r = Some q" for r q
  proof (rule step_connected [OF Cons.prems(1) r])
    from step_routes [OF r] Cons.prems(2,3) show "map_of (hub_providers h) q \<noteq> None" by auto
  qed
  with Cons.IH [OF hub_step_ok [OF Cons.prems(1), of x]] Cons.prems(2,4) show ?case
    by (simp only: hub_run_Cons sends_live.simps) blast
qed simp


text \<open>The provider of \<open>sample_registration\<close> as the hub lists it, sent one request.\<close>

definition sample_infer :: inference_request where
  "sample_infer = \<lparr>ir_request = ''r1'', ir_model = ''m'', ir_messages = None, ir_encrypted = None, ir_max_tokens = 1,
     ir_temperature = 0, ir_stream = False\<rparr>"

definition sample_traffic :: "unit hub_op list" where
  "sample_traffic = [Register sample_registration ''00'' 0 0, SendStart 0 sample_provider sample_infer]"

lemma sample_traffic_run:
  "sends_live sample_traffic (new_hub 50) \<and> map_of (hub_routes (fst (hub_run sample_traffic (new_hub 50)))) ''r1'' = Some (provider_name 1)"
  by (simp add: sample_traffic_def begin_send_def sample_infer_def register_provider_def new_hub_def Let_def
      admitted_def requires_app_attest_def trust_claim_def sample_provider_def sample_caps_def)


text \<open>A provider that left after the request was given to it: the send routes the request to an id that
  is no longer connected, and no disconnect will ever fail it.\<close>

lemma stale_send_routed:
  assumes "\<not> requires_app_attest p" "map_of (hub_providers h) (cp_id p) = None"
  shows "map_of (hub_routes (fst (hub_step (SendStart now p req) h))) (ir_request req) = Some (cp_id p)
    \<and> hub_providers (fst (hub_step (SendStart now p req) h)) = hub_providers h
    \<and> disconnect_provider (cp_id p) (fst (hub_step (SendStart now p req) h)) = ([], fst (hub_step (SendStart now p req) h), [])"
  using assms by (simp add: begin_send_def disconnect_provider_def Let_def update_provider_def)

text \<open>No operation of the coordinator ever grants App Attest admission, so in every reachable state
  a provider that claims \<open>confidential\<close> is not admitted, is never selected, and a send to it is
  refused without any effect.\<close>

theorem confidential_never_routed:
  assumes "hub_reachable depth h" "map_of (hub_providers h) pid = Some p" "pc_trust (cp_caps p) = T_CONFIDENTIAL"
  shows "\<not> admitted now p \<and> fst (select_provider sk rep model pref mc maxp sid h) \<noteq> Inr (Some pid)
    \<and> send_to_provider now ok p req h = (Inl NotAdmitted, h, [])"
proof -
  from assms(1) have ok: "hub_ok h" by (rule hub_reachable_ok)
  then have v: "\<not> cp_attest_verified p" using assms(2) by (simp add: hub_ok_def providers_ok_def)
  have req: "requires_app_attest p" using assms(3) by (simp add: requires_app_attest_def trust_claim_def)
  have na: "\<not> admitted n p" for n using v req by (simp add: admitted_def)
  have "fst (select_provider sk rep model pref mc maxp sid h) \<noteq> Inr (Some pid)"
  proof
    assume "fst (select_provider sk rep model pref mc maxp sid h) = Inr (Some pid)"
    then obtain h' where s: "select_provider sk rep model pref mc maxp sid h = (Inr (Some pid), h')" by (metis prod.collapse)
    obtain conf m ms where m: "pid = mr_provider m"
      "fst (greedy_match (\<lambda>_. sk_expire sk) (\<lambda>_. sk_match sk) [route_order model pref conf maxp (session_provider sid h) (sk_order sk)]
         (live_offers (sk_admit sk) rep h)) = m # ms"
      using s by (rule select_some)
    from greedy_one_some [OF m(2) live_offers_ids [OF hub_ok_keys [OF ok]]]
    obtain f where "f \<in> set (live_offers (sk_admit sk) rep h)" "off_id f = pid" using m(1) by blast
    then obtain k q where q: "(k, q) \<in> set (hub_providers h)" "routable (sk_admit sk) q" "cp_id q = pid"
      by (auto simp: live_offer_iff)
    then have "q = p" using hub_key [OF hub_ok_keys [OF ok] q(1)] assms(2) by simp
    with q(2) na show False by (simp add: routable_def)
  qed
  with na req show ?thesis by (simp add: send_to_provider_eq)
qed

definition confidential_registration :: register_message where
  "confidential_registration = sample_registration\<lparr>reg_caps := sample_caps\<lparr>pc_trust := T_CONFIDENTIAL\<rparr>\<rparr>"

lemma confidential_never_routed_witness:
  "\<not> admitted 0 (snd (hd (hub_providers (snd (register_provider confidential_registration ''00'' 0 0 (new_hub 50 :: unit hub))))))"
proof -
  let ?h = "snd (register_provider confidential_registration ''00'' 0 0 (new_hub 50 :: unit hub))"
  have r: "hub_reachable 50 ?h"
    using hub_reachable.step [OF hub_reachable.start, of 50 "Register confidential_registration ''00'' 0 0"] by simp
  have p: "map_of (hub_providers ?h) (provider_name 1) = Some (snd (hd (hub_providers ?h)))"
    "pc_trust (cp_caps (snd (hd (hub_providers ?h)))) = T_CONFIDENTIAL"
    by (simp_all add: register_provider_def new_hub_def Let_def confidential_registration_def)
  from confidential_never_routed [OF r p] show ?thesis by blast
qed

section \<open>Billing\<close>

definition bills :: "string \<Rightarrow> 'cb hub_effect list \<Rightarrow> nat" where
  "bills rid es = length (filter (\<lambda>e. case e of Bill r _ _ \<Rightarrow> r = rid | _ \<Rightarrow> False) es)"

definition registrations :: "string \<Rightarrow> 'cb hub_op list \<Rightarrow> nat" where
  "registrations rid xs = length (filter (\<lambda>x. case x of RegisterCallback r _ \<Rightarrow> r = rid | _ \<Rightarrow> False) xs)"

definition armed :: "string \<Rightarrow> 'cb hub \<Rightarrow> nat" where
  "armed rid h = (if map_of (hub_callbacks h) rid = None then 0 else 1)"

lemma bills_simps [simp]:
  "bills rid [] = 0" "bills rid (es @ es') = bills rid es + bills rid es'"
  "bills rid (e # es) = (case e of Bill r _ _ \<Rightarrow> if r = rid then 1 else 0 | _ \<Rightarrow> 0) + bills rid es"
  by (simp_all add: bills_def split: hub_effect.split)

lemma bills_map_0: "(\<And>x r cb m. g x \<noteq> Bill r cb m) \<Longrightarrow> bills rid (map g xs) = 0"
  by (induction xs) (auto split: hub_effect.splits)

lemma registrations_simps [simp]:
  "registrations rid [] = 0" "registrations rid (xs @ ys) = registrations rid xs + registrations rid ys"
  "registrations rid (x # xs) = (case x of RegisterCallback r _ \<Rightarrow> if r = rid then 1 else 0 | _ \<Rightarrow> 0) + registrations rid xs"
  by (simp_all add: registrations_def split: hub_op.split)

lemma dispatch_items_callbacks:
  "hub_callbacks (fst (snd (dispatch_items clk ps d h))) = hub_callbacks h \<and> bills rid (snd (snd (dispatch_items clk ps d h))) = 0"
proof (induction ps arbitrary: d h)
  case (Cons p ps)
  obtain r1 h1 where s: "select_for clk p h = (r1, h1)"
    by force
  obtain r2 h2 where p: "put_pending p h = (r2, h2)" by force
  obtain r3 h3 where q: "put_pending p h1 = (r3, h3)" by force
  have c: "hub_callbacks h1 = hub_callbacks h" "hub_callbacks h2 = hub_callbacks h" "hub_callbacks h3 = hub_callbacks h"
    using select_provider_frame [OF s [unfolded select_for_def]] put_pending_frame [OF p] put_pending_frame [OF q] by simp_all
  show ?case
    using c Cons.IH [of True h1] Cons.IH [of True h2] Cons.IH [of False h3]
    by (auto simp: s p q split: prod.split sum.split option.split)
qed simp

lemma message_bills:
  "bills rid (snd (snd (handle_provider_message v pid data h))) + armed rid (fst (snd (handle_provider_message v pid data h))) \<le> armed rid h"
proof -
  have dn: "bills rid (snd (snd (handle_done pid r m h))) + armed rid (fst (snd (handle_done pid r m h))) \<le> armed rid h" for r m
    by (cases "map_of (hub_callbacks h) r") (simp_all add: handle_done_def Let_def armed_def)
  have err: "bills rid (snd (snd (handle_error pid r m h))) + armed rid (fst (snd (handle_error pid r m h))) \<le> armed rid h" for r m
    by (simp add: handle_error_def Let_def armed_def)
  have put: "armed rid (put_queue r m h) = armed rid h" for r m by (simp add: armed_def)
  have other: "bills rid (snd (snd (handle_other v pid data r h))) + armed rid (fst (snd (handle_other v pid data r h))) \<le> armed rid h" for r
    using err by (simp add: handle_other_def put split: option.split)
  show ?thesis using dn other by (simp add: handle_provider_message_def split: option.split json.split)
qed

lemma step_bills:
  "bills rid (snd (hub_step x h)) + armed rid (fst (hub_step x h)) \<le> armed rid h + registrations rid [x]"
proof (cases x)
  case (Disconnect pid)
  then show ?thesis by (simp add: disconnect_provider_def Let_def armed_def bills_map_0 split: option.split)
next
  case (ForceDisconnect pid reason)
  then show ?thesis by (simp add: force_disconnect_def disconnect_provider_def Let_def armed_def bills_map_0 split: option.split)
next
  case (Select sk rep model pref mc maxp sid)
  then show ?thesis using select_provider_state [of sk rep model pref mc maxp sid h]
    by (auto simp: armed_def)
next
  case (SendStart now p req)
  then show ?thesis by (auto simp: begin_send_def Let_def armed_def)
next
  case (SendEnd ok p req)
  then show ?thesis by (auto simp: end_send_def Let_def armed_def)
next
  case (Message v pid data)
  then show ?thesis using message_bills [of rid v pid data h] by simp
next
  case (Dispatch clk)
  then show ?thesis
    using dispatch_items_callbacks [of clk "hub_pending h" False "h\<lparr>hub_pending := []\<rparr>" rid]
    by (simp add: try_dispatch_queued_def armed_def)
next
  case (Enqueue req model pref mc maxp sid now)
  then show ?thesis by (auto simp: enqueue_request_def put_pending_def Let_def armed_def)
qed (auto simp: register_provider_def bind_connection_def record_model_def set_quarantine_def handle_heartbeat_def
    send_attestation_challenge_def handle_attestation_response_def check_attestation_timeouts_def create_response_queue_def
    remove_response_queue_def take_message_def register_billing_callback_def clear_queue_def bills_map_0 Let_def armed_def
    split: option.split list.split)

lemma run_bills_from:
  "bills rid (snd (hub_run xs h)) + armed rid (fst (hub_run xs h)) \<le> armed rid h + registrations rid xs"
proof (induction xs arbitrary: h)
  case (Cons x xs)
  have "bills rid (snd (hub_run (x # xs) h)) + armed rid (fst (hub_run (x # xs) h))
      = bills rid (snd (hub_step x h)) + (bills rid (snd (hub_run xs (fst (hub_step x h)))) + armed rid (fst (hub_run xs (fst (hub_step x h)))))"
    by (simp only: hub_run_Cons bills_simps add.assoc)
  also have "\<dots> \<le> bills rid (snd (hub_step x h)) + (armed rid (fst (hub_step x h)) + registrations rid xs)"
    using Cons.IH [of "fst (hub_step x h)"] by simp
  also have "\<dots> \<le> armed rid h + registrations rid (x # xs)"
    using step_bills [of rid x h] by simp
  finally show ?case .
qed simp

lemma run_bills: "bills rid (snd (hub_run xs (new_hub depth))) \<le> registrations rid xs"
  using run_bills_from [of rid xs "new_hub depth"] by (simp add: armed_def new_hub_def)

text \<open>A request is billed at most once per registered billing callback, whatever messages any
  provider sends and in whatever order: over any sequence of hub operations the callback invocations
  for a request id never outnumber its registrations.\<close>

theorem billed_at_most_once:
  "bills rid (snd (hub_run xs (new_hub depth))) \<le> registrations rid xs"
  by (rule run_bills)

text \<open>Billing depends on the consumer's connection. A done message bills the request whose callback
  is registered, exactly once; but when the consumer's response task has ended first, and so removed
  its response queue, the same message bills nothing.\<close>

theorem early_disconnect_unbilled:
  assumes "map_of data ''type'' = Some (JStr ''inference_done'')" "map_of data ''request_id'' = Some (JStr rid)" "rid \<noteq> ''''"
    "v_done v data = Some m" "map_of (hub_callbacks h) rid = Some cb"
  shows "bills rid (snd (snd (handle_provider_message v pid data h))) = 1
    \<and> bills rid (snd (snd (handle_provider_message v pid data (remove_response_queue rid h)))) = 0"
  using assms by (simp add: handle_provider_message_def handle_done_def remove_response_queue_def Let_def)

definition sample_done :: inference_done where
  "sample_done = \<lparr>dn_request = ''r1'', dn_tokens = 10, dn_input = 5, dn_cached = 0, dn_seconds = 1, dn_served = None\<rparr>"

definition sample_data :: trace where
  "sample_data = [(''type'', JStr ''inference_done''), (''request_id'', JStr ''r1'')]"

definition sample_validators :: validators where
  "sample_validators = \<lparr>v_chunk = (\<lambda>_. None), v_done = (\<lambda>_. Some sample_done), v_error = (\<lambda>_. None),
     v_attestation = (\<lambda>_. None), v_heartbeat = (\<lambda>_. None)\<rparr>"

lemma early_disconnect_unbilled_witness:
  "bills ''r1'' (snd (snd (handle_provider_message sample_validators ''provider-1'' sample_data
      (remove_response_queue ''r1'' (register_billing_callback ''r1'' () sample_hub))))) = 0"
  using early_disconnect_unbilled [of sample_data "''r1''" sample_validators sample_done "register_billing_callback ''r1'' () sample_hub" "()"]
  by (simp add: sample_data_def sample_validators_def register_billing_callback_def)

section \<open>The waiting queue\<close>

text \<open>What a dispatch pass should do: serve the first waiting request that a provider can take and keep
  all others in order.\<close>

definition unserved :: "(pending_request \<Rightarrow> select_clock) \<Rightarrow> 'cb hub \<Rightarrow> pending_request \<Rightarrow> bool" where
  "unserved clk h p \<longleftrightarrow> fst (select_for clk p h) = Inr None"

definition dispatch_spec :: "(pending_request \<Rightarrow> select_clock) \<Rightarrow> 'cb hub \<Rightarrow> pending_request list \<Rightarrow> pending_request list \<times> pending_request option" where
  "dispatch_spec clk h ps = (case dropWhile (unserved clk h) ps of
     [] \<Rightarrow> (ps, None) | p # post \<Rightarrow> (takeWhile (unserved clk h) ps @ post, Some p))"

definition known_level :: "pending_request \<Rightarrow> bool" where
  "known_level p \<longleftrightarrow> pn_min_conf p \<in> set levels"

lemma known_level_conf: "known_level p \<longleftrightarrow> conf_map (pn_min_conf p) \<noteq> None"
  by (auto simp: known_level_def levels_def conf_map_def)

lemma select_pending_irrelevant:
  "fst (select_provider sk rep model pref mc maxp sid (h\<lparr>hub_pending := q\<rparr>)) = fst (select_provider sk rep model pref mc maxp sid h)"
  by (simp add: select_provider_def session_provider_def live_offers_def Let_def split: option.split list.split)

lemma put_pending_room:
  "(0 < hub_max_depth h \<Longrightarrow> int (length (hub_pending h)) < hub_max_depth h) \<Longrightarrow> put_pending p h = (Inr (), h\<lparr>hub_pending := hub_pending h @ [p]\<rparr>)"
  by (auto simp: put_pending_def)

lemma dispatch_rest:
  "(0 < hub_max_depth h \<Longrightarrow> int (length (hub_pending h) + length ps) \<le> hub_max_depth h) \<Longrightarrow>
   dispatch_items clk ps True h = (Inr (), h\<lparr>hub_pending := hub_pending h @ ps\<rparr>, [])"
proof (induction ps arbitrary: h)
  case (Cons p ps)
  have "put_pending p h = (Inr (), h\<lparr>hub_pending := hub_pending h @ [p]\<rparr>)" using Cons.prems by (intro put_pending_room) force
  with Cons.IH [of "h\<lparr>hub_pending := hub_pending h @ [p]\<rparr>"] Cons.prems show ?case by simp
qed simp

lemma select_for_known:
  assumes "known_level p"
  shows "fst (select_for clk p h) = Inr None \<and> snd (select_for clk p h) = h \<or> (\<exists>pid. fst (select_for clk p h) = Inr (Some pid))"
  using assms unfolding known_level_conf by (auto simp: select_for_def select_provider_def Let_def split: list.split)

lemma dispatch_items_spec:
  assumes "\<forall>p \<in> set ps. known_level p" "0 < hub_max_depth h \<Longrightarrow> int (length (hub_pending h) + length ps) \<le> hub_max_depth h"
  shows "fst (dispatch_items clk ps False h) = Inr ()
    \<and> hub_pending (fst (snd (dispatch_items clk ps False h))) = hub_pending h @ fst (dispatch_spec clk h ps)
    \<and> (case snd (dispatch_spec clk h ps) of
         None \<Rightarrow> snd (snd (dispatch_items clk ps False h)) = [] \<and> hub_affinity (fst (snd (dispatch_items clk ps False h))) = hub_affinity h
       | Some p \<Rightarrow> \<exists>pid. fst (select_for clk p h) = Inr (Some pid)
           \<and> snd (snd (dispatch_items clk ps False h)) = [Wake (p\<lparr>pn_provider := Some pid, pn_event := True\<rparr>)])"
  using assms
proof (induction ps arbitrary: h)
  case Nil
  show ?case by (simp add: dispatch_spec_def)
next
  case (Cons p ps)
  have "known_level p" using Cons.prems(1) by simp
  from select_for_known [OF this, of clk h] show ?case
  proof (elim disjE conjE exE)
    assume none: "fst (select_for clk p h) = Inr None" "snd (select_for clk p h) = h"
    then have s: "select_for clk p h = (Inr None, h)" by (metis prod.collapse)
    let ?h = "h\<lparr>hub_pending := hub_pending h @ [p]\<rparr>"
    have put: "put_pending p h = (Inr (), ?h)" using Cons.prems(2) by (intro put_pending_room) force
    have u: "unserved clk ?h = unserved clk h" "fst (select_for clk q ?h) = fst (select_for clk q h)" for q
      by (simp_all add: unserved_def select_for_def select_pending_irrelevant fun_eq_iff)
    have "unserved clk h p" using none by (simp add: unserved_def)
    then have d: "dispatch_spec clk h (p # ps) = (p # fst (dispatch_spec clk ?h ps), snd (dispatch_spec clk ?h ps))"
      by (cases "dropWhile (unserved clk h) ps") (simp_all add: dispatch_spec_def u del: dropWhile_eq_Nil_conv)
    have "fst (dispatch_items clk ps False ?h) = Inr ()
      \<and> hub_pending (fst (snd (dispatch_items clk ps False ?h))) = hub_pending ?h @ fst (dispatch_spec clk ?h ps)
      \<and> (case snd (dispatch_spec clk ?h ps) of
           None \<Rightarrow> snd (snd (dispatch_items clk ps False ?h)) = [] \<and> hub_affinity (fst (snd (dispatch_items clk ps False ?h))) = hub_affinity ?h
         | Some p \<Rightarrow> \<exists>pid. fst (select_for clk p ?h) = Inr (Some pid)
             \<and> snd (snd (dispatch_items clk ps False ?h)) = [Wake (p\<lparr>pn_provider := Some pid, pn_event := True\<rparr>)])"
      by (rule Cons.IH) (use Cons.prems in auto)
    moreover have "dispatch_items clk (p # ps) False h = dispatch_items clk ps False ?h" by (simp add: s put)
    ultimately show ?thesis by (auto simp: d u split: option.splits)
  next
    fix pid assume some: "fst (select_for clk p h) = Inr (Some pid)"
    then obtain h' where s: "select_for clk p h = (Inr (Some pid), h')" by (metis prod.collapse)
    note fr = select_provider_frame [OF s [unfolded select_for_def]]
    have "dispatch_items clk ps True h' = (Inr (), h'\<lparr>hub_pending := hub_pending h' @ ps\<rparr>, [])"
      using Cons.prems(2) fr by (intro dispatch_rest) simp
    moreover have "\<not> unserved clk h p" using some by (simp add: unserved_def)
    ultimately show ?thesis using fr by (simp add: s dispatch_spec_def)
  qed
qed

text \<open>C30: Waiting requests are served first come, first served, and none is lost: a dispatch pass wakes
  the first waiting request for which a provider is found, hands it that provider, keeps all other
  requests in their order, wakes nobody when no provider is found, and leaves providers, routes,
  response queues and billing callbacks alone. The waiting requests are the entries of the queue; the
  entry of a consumer that has timed out stays one of them and may be the one that is woken.\<close>

theorem dispatch_serves_first:
  assumes "hub_reachable depth h" "\<forall>p \<in> set (hub_pending h). known_level p"
  shows "fst (try_dispatch_queued clk h) = Inr ()
    \<and> hub_pending (fst (snd (try_dispatch_queued clk h))) = fst (dispatch_spec clk h (hub_pending h))
    \<and> (case snd (dispatch_spec clk h (hub_pending h)) of
         None \<Rightarrow> snd (snd (try_dispatch_queued clk h)) = []
       | Some p \<Rightarrow> \<exists>pid. fst (select_for clk p h) = Inr (Some pid)
           \<and> snd (snd (try_dispatch_queued clk h)) = [Wake (p\<lparr>pn_provider := Some pid, pn_event := True\<rparr>)])
    \<and> hub_providers (fst (snd (try_dispatch_queued clk h))) = hub_providers h
    \<and> hub_routes (fst (snd (try_dispatch_queued clk h))) = hub_routes h
    \<and> hub_queues (fst (snd (try_dispatch_queued clk h))) = hub_queues h
    \<and> hub_callbacks (fst (snd (try_dispatch_queued clk h))) = hub_callbacks h"
proof (cases "hub_pending h = []")
  case True
  then show ?thesis by (simp add: try_dispatch_queued_def dispatch_spec_def)
next
  case False
  let ?h = "h\<lparr>hub_pending := []\<rparr>"
  have u: "unserved clk ?h = unserved clk h" "fst (select_for clk q ?h) = fst (select_for clk q h)" for q
    by (simp_all add: unserved_def select_for_def select_pending_irrelevant fun_eq_iff)
  have d: "dispatch_spec clk ?h = dispatch_spec clk h" unfolding dispatch_spec_def u by (rule refl)
  have b: "0 < hub_max_depth ?h \<Longrightarrow> int (length (hub_pending ?h) + length (hub_pending h)) \<le> hub_max_depth ?h"
    using hub_reachable_ok [OF assms(1)] by (simp add: hub_ok_def bounds_ok_def)
  from dispatch_items_spec [OF assms(2) b, of clk] dispatch_items_frame [of clk "hub_pending h" False ?h]
  show ?thesis using False by (auto simp: try_dispatch_queued_def d u split: option.splits)
qed

text \<open>A request waits, a provider registers, a pass runs.\<close>

definition sample_pending :: pending_request where
  "sample_pending = \<lparr>pn_request = ''r1'', pn_infer = sample_infer, pn_event = False, pn_provider = None, pn_queued_at = 0,
     pn_model = ''m'', pn_pref = ''balanced'', pn_min_conf = ''open'', pn_max_price = None, pn_session = None, pn_cleared = False\<rparr>"

definition sample_queued :: "unit hub" where
  "sample_queued = fst (hub_run [Register sample_registration ''00'' 0 0,
     Enqueue sample_infer ''m'' ''balanced'' ''open'' None None 0] (new_hub 50))"

lemma sample_queued_eq: "sample_queued = sample_hub\<lparr>hub_pending := [sample_pending]\<rparr>"
  by (simp add: sample_queued_def sample_hub_def enqueue_request_def put_pending_def register_provider_def new_hub_def Let_def
      sample_pending_def sample_infer_def)

lemma dispatch_serves_first_witness:
  "snd (snd (try_dispatch_queued (\<lambda>_. sample_clock) sample_queued))
     = [Wake (sample_pending\<lparr>pn_provider := Some (provider_name 1), pn_event := True\<rparr>)]"
proof -
  have r: "hub_reachable 50 sample_queued"
    unfolding sample_queued_def by (rule hub_reachable_run [OF hub_reachable.start])
  have k: "\<forall>p \<in> set (hub_pending sample_queued). known_level p"
    by (simp add: sample_queued_eq sample_pending_def known_level_def levels_def)
  have sel: "fst (select_for (\<lambda>_. sample_clock) sample_pending sample_queued) = Inr (Some (provider_name 1))"
    using sample_selected_pid by (simp add: select_for_def sample_queued_eq select_pending_irrelevant sample_pending_def)
  then have "dispatch_spec (\<lambda>_. sample_clock) sample_queued (hub_pending sample_queued) = ([], Some sample_pending)"
    by (simp add: dispatch_spec_def unserved_def sample_queued_eq)
  with dispatch_serves_first [OF r k, of "\<lambda>_. sample_clock"] sel show ?thesis by simp
qed

section \<open>Disconnection\<close>

text \<open>C31: When a provider disconnects, it leaves the routing table together with every request routed
  to it; each of these requests gets one \<open>provider_disconnected\<close> error in its response queue and one
  failed outcome, and every other request, queue and provider is untouched.\<close>

theorem disconnect_fails_orphans:
  assumes "hub_reachable depth h" "map_of (hub_providers h) pid = Some p" "disconnect_provider pid h = (orphans, h', es)"
  shows "map_of (hub_providers h') pid = None \<and> (\<forall>q. q \<noteq> pid \<longrightarrow> map_of (hub_providers h') q = map_of (hub_providers h) q)
    \<and> distinct orphans \<and> set orphans = {rid. map_of (hub_routes h) rid = Some pid} \<and> es = map OutcomeFailed orphans
    \<and> (\<forall>rid. map_of (hub_routes h') rid = (if rid \<in> set orphans then None else map_of (hub_routes h) rid))
    \<and> (\<forall>rid. map_of (hub_queues h') rid = (if rid \<in> set orphans
         then map_option (\<lambda>q. q @ [Failed \<lparr>er_request = rid, er_error = ''provider_disconnected''\<rparr>]) (map_of (hub_queues h) rid)
         else map_of (hub_queues h) rid))
    \<and> hub_callbacks h' = hub_callbacks h \<and> hub_pending h' = hub_pending h"
proof -
  have r: "dict_ok (hub_routes h)" using hub_reachable_ok [OF assms(1)] by (simp add: hub_ok_def routes_ok_def)
  have e: "orphans = routed_to h pid" "es = map OutcomeFailed orphans"
    "h' = (foldl orphan_request h orphans)\<lparr>hub_providers := dict_pop pid (hub_providers h)\<rparr>"
    using assms(2,3) by (auto simp: disconnect_provider_def Let_def)
  show ?thesis
    using set_routed_to [OF r, of _ pid] distinct_routed_to [OF r, of pid] orphans_queues [of orphans h]
    by (auto simp: e)
qed

lemma disconnect_fails_orphans_witness:
  "map_of (hub_providers (fst (snd (disconnect_provider (provider_name 1) (sample_hub :: unit hub))))) (provider_name 1) = None"
proof -
  have r: "hub_reachable 50 (sample_hub :: unit hub)"
    using hub_reachable.step [OF hub_reachable.start, of 50 "Register sample_registration ''00'' 0 0"] by (simp add: sample_hub_def)
  have p: "map_of (hub_providers (sample_hub :: unit hub)) (provider_name 1) = Some sample_provider"
    by (simp add: sample_hub_providers)
  obtain os h' es where d: "disconnect_provider (provider_name 1) (sample_hub :: unit hub) = (os, h', es)" by (metis prod_cases3)
  from disconnect_fails_orphans [OF r p d] show ?thesis unfolding d fst_conv snd_conv by blast
qed

section \<open>Attestation\<close>

lemma judge_closed: "\<not> nonce_open p \<Longrightarrow> judge_attestation r now p = degrade p"
  by (simp add: judge_attestation_def)

lemma judge_closes: "nonce_open p \<Longrightarrow> cp_nonce p = Some (ar_nonce r) \<Longrightarrow> cp_nonce (judge_attestation r now p) = None"
  by (simp add: judge_attestation_def degrade_def Let_def)

lemma degrade_status [simp]: "cp_att_status (degrade p) = ''degraded''"
  by (simp add: degrade_def)

lemma no_issues_hardened:
  "attestation_issues ''hardened'' r = [] \<Longrightarrow> ar_sip r \<and> ar_hardened r \<and> ar_agent_hash r \<noteq> []"
  by (simp add: attestation_issues_def split: if_splits)

lemma judge_passed:
  assumes "cp_att_status (judge_attestation r now p) = ''passed''"
  shows "nonce_open p \<and> cp_nonce p = Some (ar_nonce r) \<and> trust_claim p \<noteq> ''confidential'' \<and> attestation_issues (trust_claim p) r = []"
proof -
  have n: "nonce_open p \<and> Some (ar_nonce r) = cp_nonce p"
    using assms by (simp add: judge_attestation_def split: if_splits)
  with assms show ?thesis by (simp add: judge_attestation_def Let_def split: if_splits)
qed

text \<open>An attestation challenge is answered at most once: a response is judged only when it carries
  the nonce of the open challenge, judging it closes the challenge, so any further response degrades
  the provider; \<open>passed\<close> needs a claim below \<open>confidential\<close> and, for \<open>hardened\<close>, SIP, the hardened
  runtime and a frozen agent; and no response ever grants App Attest admission.\<close>

theorem attestation_single_use:
  "(cp_att_status (judge_attestation r now p) = ''passed'' \<longrightarrow>
      nonce_open p \<and> cp_nonce p = Some (ar_nonce r) \<and> trust_claim p \<noteq> ''confidential'' \<and> cp_nonce (judge_attestation r now p) = None
      \<and> (trust_claim p = ''hardened'' \<longrightarrow> ar_sip r \<and> ar_hardened r \<and> ar_agent_hash r \<noteq> ''''))
   \<and> (nonce_open p \<and> cp_nonce p = Some (ar_nonce r) \<longrightarrow>
      cp_att_status (judge_attestation r' later (judge_attestation r now p)) = ''degraded'')
   \<and> (\<not> nonce_open p \<longrightarrow> cp_att_status (judge_attestation r now p) = ''degraded'')
   \<and> \<not> cp_attest_verified (judge_attestation r now p)"
proof (intro conjI impI)
  assume "cp_att_status (judge_attestation r now p) = ''passed''"
  from judge_passed [OF this] judge_closes [of p r now] no_issues_hardened [of r]
  show "nonce_open p" "cp_nonce p = Some (ar_nonce r)" "trust_claim p \<noteq> ''confidential''" "cp_nonce (judge_attestation r now p) = None"
    "trust_claim p = ''hardened'' \<Longrightarrow> ar_sip r" "trust_claim p = ''hardened'' \<Longrightarrow> ar_hardened r"
    "trust_claim p = ''hardened'' \<Longrightarrow> ar_agent_hash r \<noteq> ''''"
    by simp_all
next
  assume "nonce_open p \<and> cp_nonce p = Some (ar_nonce r)"
  then have "\<not> nonce_open (judge_attestation r now p)" using judge_closes [of p r now] by (simp add: nonce_open_def [of "judge_attestation r now p"])
  then show "cp_att_status (judge_attestation r' later (judge_attestation r now p)) = ''degraded''" by (simp add: judge_closed)
qed (simp_all add: judge_closed judge_attestation_frame)

definition sample_response :: "string \<Rightarrow> attestation_response" where
  "sample_response nonce = \<lparr>ar_nonce = nonce, ar_key_id = '''', ar_app_id = '''', ar_environment = ''production'', ar_object = '''',
     ar_assertion = '''', ar_client_data = '''', ar_sip = True, ar_secure_boot = True, ar_hardware = False, ar_os = '''',
     ar_agent_hash = ''ab'', ar_server_hash = '''', ar_hardened = True, ar_deny_attach = False, ar_platform = '''',
     ar_enc_key = '''', ar_artifact = '''', ar_identity_key = '''', ar_version = ''0.1.0''\<rparr>"

lemma attestation_single_use_witness:
  "cp_att_status (judge_attestation (sample_response ''n'') 2 (judge_attestation (sample_response ''n'') 1
     (sample_provider\<lparr>cp_nonce := Some ''n''\<rparr>))) = ''degraded''"
  using attestation_single_use [of "sample_response ''n''" 1 "sample_provider\<lparr>cp_nonce := Some ''n''\<rparr>" "sample_response ''n''" 2]
  by (simp add: nonce_open_def sample_response_def)

section \<open>Heartbeats\<close>

text \<open>A provider's heartbeat sets the coordinator's own load count, unchecked: after one with
  \<open>n\<close> active requests, even negative, the provider is offered \<open>max_concurrent - n\<close> free slots, so it
  can present more free slots than its declared maximum.\<close>

theorem heartbeat_sets_capacity:
  assumes "map_of (hub_providers h) pid = Some p"
  shows "\<exists>p'. map_of (hub_providers (handle_heartbeat pid hb now h)) pid = Some p' \<and> cp_active p' = hb_active hb
    \<and> available_slots (offer_of rep p') = max 0 (pc_max_concurrent (cp_caps p) - hb_active hb)
    \<and> (hb_active hb < 0 \<longrightarrow> pc_max_concurrent (cp_caps p) < available_slots (offer_of rep p'))"
  using assms by (auto simp: handle_heartbeat_def available_slots_def)

lemma heartbeat_sets_capacity_witness:
  "\<exists>p'. map_of (hub_providers (handle_heartbeat (provider_name 1) \<lparr>hb_active = - 5, hb_models = [], hb_memory = 0, hb_cpu = 0\<rparr> 0
      (sample_hub :: unit hub))) (provider_name 1) = Some p' \<and> cp_active p' = - 5"
proof -
  have "map_of (hub_providers (sample_hub :: unit hub)) (provider_name 1) = Some sample_provider" by (simp add: sample_hub_providers)
  from heartbeat_sets_capacity [OF this, of "\<lparr>hb_active = - 5, hb_models = [], hb_memory = 0, hb_cpu = 0\<rparr>" 0] show ?thesis by auto
qed

end
