(* ===== verification/SettlementLaws.thy ===== *)
theory SettlementLaws
  imports Settlement HubLaws StoreLaws
begin

text \<open>
  Properties that join the hub and the store: a billing callback charges exactly what the completion
  reports, every charge has a completion of a registered request behind it, a request is charged at
  most once, and the composed coordinator only ever performs operations of the store.
\<close>

section \<open>One settlement\<close>

lemma settle_eq:
  "\<not> charge_raises (bill_args t cb m) \<Longrightarrow> settle cy t cb m s = s\<lparr>
     sv_db := snd (amend_request_outcome (bc_request cb) (Some (bc_consumer cb)) (completion_of t cb m) (bk_amend t)
        (snd (charge_request (bill_args t cb m) (bk_account t) (bk_charge t) (sv_db s)))),
     sv_activity := record_activity (cy_mac cy) (cy_on cy) (cp_country (bc_provider cb)) (bc_caller cb) (bc_consumer cb)
        (bc_request cb) (bk_activity t) (sv_activity s),
     sv_bus := publish (bk_event t) (bill_event t cb m (total_cost (bill_args t cb m))) (sv_bus s),
     sv_tps := (case bill_served cb m of
        Some model \<Rightarrow> if model \<noteq> '''' \<and> 0 < dn_tokens m \<and> 0 < bill_elapsed t cb
          then tps_record_request (cp_id (bc_provider cb)) model (dn_tokens m) (bill_elapsed t cb)
                 (pc_hardware (cp_caps (bc_provider cb))) (bk_tps t) (sv_tps s)
          else sv_tps s
      | None \<Rightarrow> sv_tps s)\<rparr>"
proof -
  obtain db1 where c: "charge_request (bill_args t cb m) (bk_account t) (bk_charge t) (sv_db s) =
      (Inr \<lparr>res_request = ch_request (bill_args t cb m), res_cost = total_cost (bill_args t cb m),
        res_earning = total_cost (bill_args t cb m) - platform_fee (total_cost (bill_args t cb m)),
        res_fee = platform_fee (total_cost (bill_args t cb m))\<rparr>, db1)"
    using charge_result [of "bill_args t cb m" "bk_account t" "bk_charge t" "sv_db s"] by (metis prod.collapse)
  assume "\<not> charge_raises (bill_args t cb m)"
  then show ?thesis by (simp add: settle_def c Let_def)
qed

lemma amend_frame:
  "db_txs (snd (amend_request_outcome rid c a now db)) = db_txs db"
  "db_accounts (snd (amend_request_outcome rid c a now db)) = db_accounts db"
  by (auto simp: amend_request_outcome_def serialized_write_def prune_outcomes_def Let_def split: option.split)

lemma get_account_amend [simp]: "get_account i (snd (amend_request_outcome rid c a now db)) = get_account i db"
  by (simp add: get_account_def amend_frame)

lemma charge_row_fields [simp]:
  "tx_request (charge_row a t) = ch_request a" "tx_consumer (charge_row a t) = ch_consumer a"
  "tx_provider (charge_row a t) = ch_provider a" "tx_cost (charge_row a t) = total_cost a" "tx_output (charge_row a t) = ch_output a"
  "tx_input (charge_row a t) = ch_input a" "tx_served_model (charge_row a t) = ch_served_model a"
  by (simp_all add: charge_row_def Let_def)

lemma settle_txs:
  "\<not> charge_raises (bill_args t cb m) \<Longrightarrow>
   db_txs (sv_db (settle cy t cb m s)) = db_txs (sv_db s) @ [(charge_row (bill_args t cb m) (bk_charge t))\<lparr>tx_id := Suc (seq_tx (sv_db s))\<rparr>]"
  by (simp add: settle_eq amend_frame charge_txs)

lemma bill_args_fields [simp]:
  "ch_request (bill_args t cb m) = bc_request cb" "ch_consumer (bill_args t cb m) = bc_consumer cb"
  "ch_provider (bill_args t cb m) = payee (bc_provider cb)" "ch_output (bill_args t cb m) = dn_tokens m"
  "ch_input (bill_args t cb m) = bill_input cb m" "ch_cached (bill_args t cb m) = dn_cached m"
  "ch_served_model (bill_args t cb m) = bill_served cb m"
  "ch_price_output (bill_args t cb m) = pc_price_out (cp_caps (bc_provider cb))"
  by (simp_all add: bill_args_def Let_def)

text \<open>The outcome row: the open row of the request and consumer is completed in place; rows that are
  recent and within the table's bound stay.\<close>

lemma charge_outcomes: "db_outcomes (snd (charge_request a t1 t2 db)) = db_outcomes db"
  by (simp add: charge_request_def serialized_write_def Let_def ins_tx_def ensure_account_in_transaction_def ins_account_or_ignore_def)

lemma find_key: "distinct (map f xs) \<Longrightarrow> x \<in> set xs \<Longrightarrow> find (\<lambda>r. f r = f x) xs = Some x"
  by (induction xs) (auto simp: image_iff)

lemma prune_keeps:
  assumes "r \<in> set (db_outcomes db)" "rnd (now - TRACE_RETENTION_SECONDS) \<le> out_time r" "length (db_outcomes db) \<le> TRACE_MAX_ROWS"
  shows "r \<in> set (db_outcomes (prune_outcomes now db))"
proof -
  let ?kept = "sql_delete (\<lambda>r. out_time r < rnd (now - TRACE_RETENTION_SECONDS)) (db_outcomes db)"
  have "length (sql_desc outcome_rank ?kept) \<le> TRACE_MAX_ROWS"
    using assms(3) by (metis (no_types, lifting) le_trans length_filter_le mset_eq_length mset_sql_desc sql_delete_def)
  then have "db_outcomes (prune_outcomes now db) = ?kept"
    by (simp add: prune_outcomes_def Let_def sql_delete_def)
  with assms(1,2) show ?thesis by (simp add: sql_delete_def)
qed

definition completed_row :: "bill_clock \<Rightarrow> bill_callback \<Rightarrow> inference_done \<Rightarrow> outcome \<Rightarrow> bool" where
  "completed_row t cb m row \<longleftrightarrow> out_request row = bc_request cb \<and> out_status row = ''completed''
     \<and> map_of (out_payload row) ''status'' = Some (JStr ''completed'')
     \<and> map_of (out_payload row) ''latency_ms'' = Some (JInt (bill_latency t cb))
     \<and> (case bill_served cb m of None \<Rightarrow> True | Some mo \<Rightarrow> map_of (out_payload row) ''served_model'' = Some (JStr mo))"

lemma amended_row: "out_request r = bc_request cb \<Longrightarrow> completed_row t cb m (amend_row (completion_of t cb m) r)"
  by (auto simp: completed_row_def amend_row_def amend_trace_def completion_of_def Let_def split: option.split)

lemma amend_completes:
  assumes "outcomes_ok db" "row \<in> set (db_outcomes db)" "out_request row = bc_request cb" "out_consumer row = Some (bc_consumer cb)"
    "out_status row \<in> set open_statuses"
  shows "(\<forall>r \<in> set (db_outcomes (snd (amend_request_outcome (bc_request cb) (Some (bc_consumer cb)) (completion_of t cb m) now db))).
      out_request r = bc_request cb \<longrightarrow> completed_row t cb m r)
    \<and> (rnd (now - TRACE_RETENTION_SECONDS) \<le> out_time row \<and> length (db_outcomes db) \<le> TRACE_MAX_ROWS \<longrightarrow>
      (\<exists>r \<in> set (db_outcomes (snd (amend_request_outcome (bc_request cb) (Some (bc_consumer cb)) (completion_of t cb m) now db))).
         completed_row t cb m r))"
proof -
  let ?rows = "sql_update (\<lambda>r. out_request r = bc_request cb) (amend_row (completion_of t cb m)) (db_outcomes db)"
  have "find (\<lambda>r. out_request r = bc_request cb) (db_outcomes db) = Some row"
    using find_key [of out_request "db_outcomes db" row] assms(1,2,3) by (simp add: outcomes_ok_def)
  then have e: "snd (amend_request_outcome (bc_request cb) (Some (bc_consumer cb)) (completion_of t cb m) now db)
      = prune_outcomes now (db\<lparr>db_outcomes := ?rows\<rparr>)"
    using assms(4,5) by (simp add: amend_request_outcome_def serialized_write_def)
  have all: "out_request r = bc_request cb \<Longrightarrow> completed_row t cb m r" if "r \<in> set ?rows" for r
    using that amended_row [of _ cb t m] by (auto simp: sql_update_def split: if_splits)
  have mem: "amend_row (completion_of t cb m) row \<in> set ?rows" using assms(2,3) by (auto simp: sql_update_def image_iff)
  show ?thesis unfolding e
  proof (intro conjI impI ballI)
    fix r assume "r \<in> set (db_outcomes (prune_outcomes now (db\<lparr>db_outcomes := ?rows\<rparr>)))" "out_request r = bc_request cb"
    with all prune_outcomes_subset [of now "db\<lparr>db_outcomes := ?rows\<rparr>"] show "completed_row t cb m r" by auto
  next
    assume k: "rnd (now - TRACE_RETENTION_SECONDS) \<le> out_time row \<and> length (db_outcomes db) \<le> TRACE_MAX_ROWS"
    have "out_time (amend_row (completion_of t cb m) row) = out_time row" by (simp add: amend_row_def Let_def)
    with k mem have "amend_row (completion_of t cb m) row \<in> set (db_outcomes (prune_outcomes now (db\<lparr>db_outcomes := ?rows\<rparr>)))"
      by (intro prune_keeps) (simp_all add: sql_update_def)
    then show "\<exists>r \<in> set (db_outcomes (prune_outcomes now (db\<lparr>db_outcomes := ?rows\<rparr>))). completed_row t cb m r"
      using amended_row [OF assms(3), of t m] by blast
  qed
qed

text \<open>C1: One settlement whose charge fits the database does exactly what the completion says: the consumer
  pays the price of the tokens the provider reported, at the provider's own prices; the payee is
  credited that cost less the fee; one transaction row with the request's id is appended; the consumer's
  open outcome row, unless it is pruned by age or by the bound on the rows, becomes completed with the
  served model and the latency; and the published billing event carries the charged amount. The
  coordinator's input estimate is used only when the provider reports no input tokens. A settlement
  whose charge does not fit changes nothing, and the request is recorded as failed.\<close>

theorem settlement_exact:
  assumes "payee (bc_provider cb) \<noteq> bc_consumer cb" "get_account (bc_consumer cb) (sv_db s) = Some c"
    "a = bill_args t cb m" "s' = settle cy t cb m s" "outcomes_ok (sv_db s)"
  shows "if charge_raises a then s' = s \<and> perform cy t s (Bill rid cb m) = record_failed_outcome (bk_amend t) rid s
    else perform cy t s (Bill rid cb m) = s'
    \<and> (\<exists>c'. get_account (bc_consumer cb) (sv_db s') = Some c' \<and> acc_balance c' = acc_balance c - total_cost a)
    \<and> (\<exists>p'. get_account (payee (bc_provider cb)) (sv_db s') = Some p'
        \<and> acc_balance p' = (case get_account (payee (bc_provider cb)) (sv_db s) of Some p \<Rightarrow> acc_balance p | None \<Rightarrow> 10000000)
             + (total_cost a - platform_fee (total_cost a)))
    \<and> (\<exists>row. db_txs (sv_db s') = db_txs (sv_db s) @ [row] \<and> tx_request row = bc_request cb \<and> tx_consumer row = bc_consumer cb
        \<and> tx_provider row = payee (bc_provider cb) \<and> tx_cost row = total_cost a \<and> tx_output row = dn_tokens m
        \<and> tx_input row = (if 0 < dn_input m then dn_input m else bc_estimate cb) \<and> tx_served_model row = bill_served cb m)
    \<and> (\<forall>row \<in> set (db_outcomes (sv_db s)). out_request row = bc_request cb \<and> out_consumer row = Some (bc_consumer cb)
          \<and> out_status row \<in> {''matched'', ''matched_from_queue''} \<longrightarrow>
        (\<forall>r \<in> set (db_outcomes (sv_db s')). out_request r = bc_request cb \<longrightarrow> completed_row t cb m r)
        \<and> (rnd (bk_amend t - TRACE_RETENTION_SECONDS) \<le> out_time row \<and> length (db_outcomes (sv_db s)) \<le> TRACE_MAX_ROWS \<longrightarrow>
            (\<exists>r \<in> set (db_outcomes (sv_db s')). completed_row t cb m r)))
    \<and> (\<exists>ev. eb_history (sv_bus s') = deque_append 50 ev (eb_history (sv_bus s))
        \<and> map_of ev ''request_id'' = Some (JStr (bc_request cb)) \<and> map_of ev ''cost_usd'' = Some (JFloat (int_div (total_cost a) 1000000)))"
proof (cases "charge_raises a")
  case True
  then show ?thesis using assms(3,4) by (simp add: settle_def)
next
  case fits: False
  then have nr: "\<not> charge_raises (bill_args t cb m)" using assms(3) by simp
  have acc: "get_account i (sv_db s') = get_account i (snd (charge_request a (bk_account t) (bk_charge t) (sv_db s)))" for i
    using assms(3,4) by (simp add: settle_eq [OF nr])
  have c: "get_account (bc_consumer cb) (sv_db s') = Some (debit (total_cost a) (ch_input a + ch_output a) c)"
    using assms(1,2,3) by (simp add: acc charge_account debited_def)
  have p: "\<exists>p'. get_account (payee (bc_provider cb)) (sv_db s') = Some p'
        \<and> acc_balance p' = (case get_account (payee (bc_provider cb)) (sv_db s) of Some p \<Rightarrow> acc_balance p | None \<Rightarrow> 10000000)
             + (total_cost a - platform_fee (total_cost a))"
    using assms(1,3) by (auto simp: acc charge_account debited_def credit_def new_account_def MICRO_PER_DOLLAR_def split: option.split)
  have tx: "db_txs (sv_db s') = db_txs (sv_db s) @ [(charge_row a (bk_charge t))\<lparr>tx_id := Suc (seq_tx (sv_db s))\<rparr>]"
    using settle_txs [OF nr] assms(3,4) by simp
  have ev: "eb_history (sv_bus s') = deque_append 50 (stamped (bk_event t) (bill_event t cb m (total_cost a))) (eb_history (sv_bus s))"
    using assms(3,4) by (simp add: settle_eq [OF nr] publish_def Let_def MAX_HISTORY_def)
  let ?db = "snd (charge_request (bill_args t cb m) (bk_account t) (bk_charge t) (sv_db s))"
  have out: "db_outcomes ?db = db_outcomes (sv_db s)" "outcomes_ok ?db"
    using assms(5) by (simp_all add: charge_outcomes outcomes_ok_def)
  have am: "sv_db s' = snd (amend_request_outcome (bc_request cb) (Some (bc_consumer cb)) (completion_of t cb m) (bk_amend t) ?db)"
    using assms(4) by (simp add: settle_eq [OF nr])
  have amended: "(\<forall>r \<in> set (db_outcomes (sv_db s')). out_request r = bc_request cb \<longrightarrow> completed_row t cb m r)
        \<and> (rnd (bk_amend t - TRACE_RETENTION_SECONDS) \<le> out_time row \<and> length (db_outcomes (sv_db s)) \<le> TRACE_MAX_ROWS \<longrightarrow>
            (\<exists>r \<in> set (db_outcomes (sv_db s')). completed_row t cb m r))"
    if "row \<in> set (db_outcomes (sv_db s))" "out_request row = bc_request cb" "out_consumer row = Some (bc_consumer cb)"
      "out_status row \<in> {''matched'', ''matched_from_queue''}" for row
    using amend_completes [OF out(2), of row cb t m "bk_amend t"] that unfolding out(1) am by (simp add: open_statuses_def)
  have row: "\<exists>row. db_txs (sv_db s') = db_txs (sv_db s) @ [row] \<and> tx_request row = bc_request cb \<and> tx_consumer row = bc_consumer cb
        \<and> tx_provider row = payee (bc_provider cb) \<and> tx_cost row = total_cost a \<and> tx_output row = dn_tokens m
        \<and> tx_input row = (if 0 < dn_input m then dn_input m else bc_estimate cb) \<and> tx_served_model row = bill_served cb m"
    by (rule exI [of _ "(charge_row a (bk_charge t))\<lparr>tx_id := Suc (seq_tx (sv_db s))\<rparr>"]) (simp add: tx assms(3) bill_input_def)
  have event: "\<exists>ev. eb_history (sv_bus s') = deque_append 50 ev (eb_history (sv_bus s))
        \<and> map_of ev ''request_id'' = Some (JStr (bc_request cb)) \<and> map_of ev ''cost_usd'' = Some (JFloat (int_div (total_cost a) 1000000))"
    by (rule exI [of _ "stamped (bk_event t) (bill_event t cb m (total_cost a))"]) (simp add: ev stamped_def bill_event_def Let_def)
  have paid: "\<exists>c'. get_account (bc_consumer cb) (sv_db s') = Some c' \<and> acc_balance c' = acc_balance c - total_cost a"
    by (simp add: c debit_def)
  have perf: "perform cy t s (Bill rid cb m) = s'" using nr assms(4) by simp
  show ?thesis unfolding if_not_P [OF fits]
    by (intro conjI) (use perf paid p row amended event in blast)+
qed

section \<open>Where charges come from\<close>

text \<open>A callback is registered under its own request id, as both call sites do.\<close>

definition own_request :: "bill_callback hub_op \<Rightarrow> bool" where
  "own_request x \<longleftrightarrow> (case x of RegisterCallback rid cb \<Rightarrow> bc_request cb = rid | _ \<Rightarrow> True)"

definition completes :: "string \<Rightarrow> inference_done \<Rightarrow> 'cb hub_op \<Rightarrow> bool" where
  "completes rid m x \<longleftrightarrow> (\<exists>v pid data. x = Message v pid data \<and> map_of data ''type'' = Some (JStr ''inference_done'')
     \<and> map_of data ''request_id'' = Some (JStr rid) \<and> v_done v data = Some m)"

definition callbacks_from :: "'cb hub_op set \<Rightarrow> 'cb hub \<Rightarrow> bool" where
  "callbacks_from past h \<longleftrightarrow> (\<forall>rid cb. map_of (hub_callbacks h) rid = Some cb \<longrightarrow> RegisterCallback rid cb \<in> past)"

lemma message_callbacks:
  "map_of (hub_callbacks (fst (snd (handle_provider_message v pid data h)))) rid = Some cb \<longrightarrow> map_of (hub_callbacks h) rid = Some cb"
proof -
  have dn: "map_of (hub_callbacks (fst (snd (handle_done pid r m h)))) rid = Some cb \<longrightarrow> map_of (hub_callbacks h) rid = Some cb" for r m
    by (simp add: handle_done_def Let_def)
  have err: "map_of (hub_callbacks (fst (snd (handle_error pid r m h)))) rid = Some cb \<longrightarrow> map_of (hub_callbacks h) rid = Some cb" for r m
    by (simp add: handle_error_def Let_def)
  have other: "map_of (hub_callbacks (fst (snd (handle_other v pid data r h)))) rid = Some cb \<longrightarrow> map_of (hub_callbacks h) rid = Some cb" for r
    using err by (simp add: handle_other_def split: option.split)
  show ?thesis using dn other by (simp add: handle_provider_message_def split: option.split json.split)
qed

lemma step_callbacks:
  "map_of (hub_callbacks (fst (hub_step x h))) rid = Some cb \<Longrightarrow> map_of (hub_callbacks h) rid = Some cb \<or> x = RegisterCallback rid cb"
proof (cases x)
  case (Message v pid data)
  then show "map_of (hub_callbacks (fst (hub_step x h))) rid = Some cb \<Longrightarrow> ?thesis" using message_callbacks by fastforce
next
  case (Select sk rep model pref mc maxp sid)
  then show "map_of (hub_callbacks (fst (hub_step x h))) rid = Some cb \<Longrightarrow> ?thesis"
    using select_provider_state [of sk rep model pref mc maxp sid h] by auto
next
  case (SendStart now p req)
  then show "map_of (hub_callbacks (fst (hub_step x h))) rid = Some cb \<Longrightarrow> ?thesis"
    by (auto simp: begin_send_def Let_def split: if_splits)
next
  case (SendEnd ok p req)
  then show "map_of (hub_callbacks (fst (hub_step x h))) rid = Some cb \<Longrightarrow> ?thesis"
    by (auto simp: end_send_def Let_def split: if_splits)
next
  case (Dispatch clk)
  then show "map_of (hub_callbacks (fst (hub_step x h))) rid = Some cb \<Longrightarrow> ?thesis"
    using dispatch_items_callbacks [of clk "hub_pending h" False "h\<lparr>hub_pending := []\<rparr>"] by (auto simp: try_dispatch_queued_def split: if_splits)
next
  case (Enqueue req model pref mc maxp sid now)
  then show "map_of (hub_callbacks (fst (hub_step x h))) rid = Some cb \<Longrightarrow> ?thesis"
    by (auto simp: enqueue_request_def put_pending_def Let_def split: if_splits)
qed (auto simp: register_provider_def bind_connection_def record_model_def set_quarantine_def handle_heartbeat_def
    disconnect_provider_def force_disconnect_def
    send_attestation_challenge_def handle_attestation_response_def check_attestation_timeouts_def create_response_queue_def
    remove_response_queue_def take_message_def register_billing_callback_def clear_queue_def Let_def
    split: option.splits list.splits if_splits)

lemma callbacks_from_step:
  "callbacks_from past h \<Longrightarrow> callbacks_from (insert x past) (fst (hub_step x h))"
  using step_callbacks [of x h] by (fastforce simp: callbacks_from_def)

lemma no_bills: "bills rid es = 0 \<Longrightarrow> Bill rid cb m \<notin> set es"
  by (induction es) (auto split: hub_effect.splits)

text \<open>A bill is the effect of a completion message for a request with a registered callback.\<close>

lemma message_bill:
  assumes "Bill rid cb m \<in> set (snd (snd (handle_provider_message v pid data h)))"
  shows "map_of (hub_callbacks h) rid = Some cb \<and> completes rid m (Message v pid data)"
proof -
  have err: "Bill rid cb m \<notin> set (snd (snd (handle_error pid r e h)))" for r e
    by (simp add: handle_error_def Let_def)
  have other: "Bill rid cb m \<notin> set (snd (snd (handle_other v pid data r h)))" for r
    using err by (simp add: handle_other_def split: option.split)
  have dn: "Bill rid cb m \<in> set (snd (snd (handle_done pid r e h))) \<Longrightarrow> r = rid \<and> e = m \<and> map_of (hub_callbacks h) rid = Some cb" for r e
    by (simp add: handle_done_def Let_def split: option.splits)
  obtain key where key: "map_of data ''request_id'' = Some key" "truthy key"
    using assms by (simp add: handle_provider_message_def split: option.splits if_splits)
  have ty: "map_of data ''type'' = Some (JStr (type_value INFERENCE_DONE))"
  proof (rule ccontr)
    assume "\<not> ?thesis"
    then show False using assms key other by (simp add: handle_provider_message_def split: if_splits json.splits)
  qed
  obtain e r where e: "v_done v data = Some e" "key = JStr r"
    using assms key ty by (simp add: handle_provider_message_def split: option.splits json.splits)
  with assms key ty dn [of r e] show ?thesis by (simp add: handle_provider_message_def completes_def)
qed

lemma step_bill:
  assumes "Bill rid cb m \<in> set (snd (hub_step x h))"
  shows "map_of (hub_callbacks h) rid = Some cb \<and> completes rid m x"
proof (cases x)
  case (Message v pid data)
  then show ?thesis using assms message_bill [of rid cb m v pid data h] by simp
next
  case (Dispatch clk)
  then show ?thesis using assms no_bills [of rid "snd (snd (try_dispatch_queued clk h))" cb m]
      dispatch_items_callbacks [of clk "hub_pending h" False "h\<lparr>hub_pending := []\<rparr>" rid]
    by (simp add: try_dispatch_queued_def split: if_splits)
qed (use assms in \<open>auto simp: set_quarantine_def disconnect_provider_def force_disconnect_def send_attestation_challenge_def
    end_send_def clear_queue_def Let_def split: option.splits if_splits\<close>)

section \<open>Charges over time\<close>

definition charges :: "string \<Rightarrow> db \<Rightarrow> nat" where
  "charges rid db = length (filter (\<lambda>r. tx_request r = rid) (db_txs db))"

definition own_callbacks :: "bill_callback hub \<Rightarrow> bool" where
  "own_callbacks h \<longleftrightarrow> (\<forall>rid cb. map_of (hub_callbacks h) rid = Some cb \<longrightarrow> bc_request cb = rid)"

lemma own_callbacks_step: "own_callbacks h \<Longrightarrow> own_request x \<Longrightarrow> own_callbacks (fst (hub_step x h))"
  using step_callbacks [of x h] by (fastforce simp: own_callbacks_def own_request_def)

lemma perform_txs:
  "\<exists>rows. db_txs (sv_db (perform cy t s e)) = db_txs (sv_db s) @ rows \<and> (\<forall>row \<in> set rows. \<exists>rid cb m. e = Bill rid cb m
      \<and> tx_request row = bc_request cb \<and> tx_consumer row = bc_consumer cb \<and> tx_provider row = payee (bc_provider cb) \<and> tx_output row = dn_tokens m)
    \<and> length (filter (\<lambda>r. tx_request r = rid') rows) \<le> (case e of Bill r cb m \<Rightarrow> if bc_request cb = rid' then 1 else 0 | _ \<Rightarrow> 0)"
proof (cases e)
  case (Bill rid cb m)
  show ?thesis
  proof (cases "charge_raises (bill_args t cb m)")
    case False
    with Bill show ?thesis
      by (intro exI [of _ "[(charge_row (bill_args t cb m) (bk_charge t))\<lparr>tx_id := Suc (seq_tx (sv_db s))\<rparr>]"]) (simp add: settle_txs)
  qed (use Bill in \<open>simp add: record_failed_outcome_def amend_frame\<close>)
qed (auto simp: record_failed_outcome_def amend_frame)

lemma performs_charges:
  assumes "\<forall>rid cb m. Bill rid cb m \<in> set es \<longrightarrow> bc_request cb = rid"
  shows "charges rid (sv_db (foldl (perform cy t) s es)) \<le> charges rid (sv_db s) + bills rid es"
  using assms
proof (induction es arbitrary: s)
  case (Cons e es)
  obtain rows where r: "db_txs (sv_db (perform cy t s e)) = db_txs (sv_db s) @ rows"
      "length (filter (\<lambda>r. tx_request r = rid) rows) \<le> (case e of Bill r cb m \<Rightarrow> if bc_request cb = rid then 1 else 0 | _ \<Rightarrow> 0)"
    using perform_txs [of cy t s e rid] by blast
  have "charges rid (sv_db (perform cy t s e)) \<le> charges rid (sv_db s) + bills rid [e]"
    using Cons.prems r(2) unfolding charges_def r(1) filter_append length_append by (cases e) simp_all
  moreover have "\<forall>rid cb m. Bill rid cb m \<in> set es \<longrightarrow> bc_request cb = rid" using Cons.prems by simp
  ultimately show ?case using Cons.IH [of "perform cy t s e"] by simp
qed (simp add: charges_def)

lemma serve_charges:
  assumes "\<forall>(x, t) \<in> set xs. own_request x" "own_callbacks h"
  shows "charges rid (sv_db (snd (serve cy xs h s))) \<le> charges rid (sv_db s) + bills rid (snd (hub_run (map fst xs) h))"
  using assms
proof (induction xs arbitrary: h s)
  case (Cons y xs)
  obtain x t where y: "y = (x, t)" by force
  obtain h' es where st: "hub_step x h = (h', es)" by force
  have "own_callbacks h'" using own_callbacks_step [OF Cons.prems(2), of x] Cons.prems(1) by (simp add: y st)
  moreover have own: "\<forall>rid cb m. Bill rid cb m \<in> set es \<longrightarrow> bc_request cb = rid"
    using step_bill [of _ _ _ x h] Cons.prems(2) by (auto simp: st own_callbacks_def)
  ultimately show ?case
    using Cons.IH [of h' "foldl (perform cy t) s es"] Cons.prems(1) performs_charges [OF own, of rid cy t s]
    by (fastforce simp: y st split: prod.split)
qed simp

text \<open>C3: In the composed coordinator a request is charged at most once: over any sequence of hub
  operations, each with its effects on the store, the number of charges for a request id grows by no
  more than the number of times a billing callback was registered for it; ids are fresh for every
  request, so that is once.\<close>

theorem request_charged_once:
  assumes "\<forall>(x, t) \<in> set xs. own_request x"
  shows "charges rid (sv_db (snd (serve cy xs (new_hub depth) s))) \<le> charges rid (sv_db s) + registrations rid (map fst xs)"
proof -
  have "own_callbacks (new_hub depth)" by (simp add: own_callbacks_def new_hub_def)
  from serve_charges [OF assms this, of rid cy s] run_bills [of rid "map fst xs" depth] show ?thesis by linarith
qed

definition sample_country :: country_params where
  "sample_country = \<lparr>cy_mac = (\<lambda>_ _ _. ''''), cy_on = False\<rparr>"

definition sample_bill_clock :: bill_clock where
  "sample_bill_clock = \<lparr>bk_done = 3, bk_account = 3, bk_charge = 3, bk_activity = 3, bk_amend = 3, bk_event = 3, bk_tps = 3\<rparr>"

definition sample_callback :: bill_callback where
  "sample_callback = \<lparr>bc_request = ''r1'', bc_model = ''m'', bc_provider = sample_provider, bc_consumer = ''c'', bc_estimate = 9,
     bc_start = 1, bc_preference = ''balanced'', bc_queued = False, bc_wait = 0, bc_caller = None\<rparr>"

definition sample_services :: services where
  "sample_services = \<lparr>sv_db = empty_db, sv_activity = [], sv_bus = new_bus, sv_tps = [], sv_reputation = []\<rparr>"

lemma request_charged_once_witness:
  "charges ''r1'' (sv_db (snd (serve sample_country [(RegisterCallback ''r1'' sample_callback, sample_bill_clock)] (new_hub 50) sample_services)))
    \<le> charges ''r1'' (sv_db sample_services) + 1"
proof -
  have "\<forall>(x, t) \<in> set [(RegisterCallback ''r1'' sample_callback, sample_bill_clock)]. own_request x"
    by (simp add: own_request_def sample_callback_def)
  from request_charged_once [OF this, of "''r1''" sample_country 50 sample_services] show ?thesis by simp
qed

text \<open>Every new row has a completion and a registration behind it.\<close>

definition backed :: "bill_callback hub_op set \<Rightarrow> transaction \<Rightarrow> bool" where
  "backed ops row \<longleftrightarrow> (\<exists>cb m x. RegisterCallback (tx_request row) cb \<in> ops \<and> x \<in> ops \<and> completes (tx_request row) m x
     \<and> tx_consumer row = bc_consumer cb \<and> tx_provider row = payee (bc_provider cb) \<and> tx_output row = dn_tokens m)"

lemma backed_mono: "backed A row \<Longrightarrow> A \<subseteq> B \<Longrightarrow> backed B row"
  by (auto simp: backed_def)

lemma performs_rows:
  assumes "\<forall>rid cb m. Bill rid cb m \<in> set es \<longrightarrow> bc_request cb = rid \<and> RegisterCallback rid cb \<in> ops \<and> completes rid m x" "x \<in> ops"
  shows "\<exists>rows. db_txs (sv_db (foldl (perform cy t) s es)) = db_txs (sv_db s) @ rows \<and> (\<forall>row \<in> set rows. backed ops row)"
  using assms
proof (induction es arbitrary: s)
  case (Cons e es)
  obtain rows where r: "db_txs (sv_db (perform cy t s e)) = db_txs (sv_db s) @ rows" "\<forall>row \<in> set rows. \<exists>rid cb m. e = Bill rid cb m
      \<and> tx_request row = bc_request cb \<and> tx_consumer row = bc_consumer cb \<and> tx_provider row = payee (bc_provider cb) \<and> tx_output row = dn_tokens m"
    using perform_txs [of cy t s e "''''"] by blast
  have b: "backed ops row" if "row \<in> set rows" for row
  proof -
    from r(2) that obtain rid cb m where e: "e = Bill rid cb m" "tx_request row = bc_request cb" "tx_consumer row = bc_consumer cb"
      "tx_provider row = payee (bc_provider cb)" "tx_output row = dn_tokens m" by blast
    have "bc_request cb = rid \<and> RegisterCallback rid cb \<in> ops \<and> completes rid m x" using Cons.prems(1) e(1) by simp
    with e Cons.prems(2) show ?thesis by (auto simp: backed_def)
  qed
  from Cons.IH [of "perform cy t s e"] Cons.prems obtain rows' where
    "db_txs (sv_db (foldl (perform cy t) (perform cy t s e) es)) = db_txs (sv_db (perform cy t s e)) @ rows'" "\<forall>row \<in> set rows'. backed ops row" by auto
  with r(1) b show ?case by (intro exI [of _ "rows @ rows'"]) auto
qed simp

lemma serve_rows:
  assumes "\<forall>(x, t) \<in> set xs. own_request x" "own_callbacks h" "callbacks_from past h"
  shows "\<exists>rows. db_txs (sv_db (snd (serve cy xs h s))) = db_txs (sv_db s) @ rows \<and> (\<forall>row \<in> set rows. backed (past \<union> fst ` set xs) row)"
  using assms
proof (induction xs arbitrary: h s past)
  case (Cons y xs)
  obtain x t where y: "y = (x, t)" by force
  obtain h' es where st: "hub_step x h = (h', es)" by force
  have ok: "own_callbacks h'" "callbacks_from (insert x past) h'"
    using own_callbacks_step [OF Cons.prems(2), of x] callbacks_from_step [OF Cons.prems(3), of x] Cons.prems(1) by (simp_all add: y st)
  have "bc_request cb = rid \<and> RegisterCallback rid cb \<in> insert x past \<and> completes rid m x" if "Bill rid cb m \<in> set es" for rid cb m
    using step_bill [of rid cb m x h] that Cons.prems(2,3) by (auto simp: st own_callbacks_def callbacks_from_def)
  then have es: "\<forall>rid cb m. Bill rid cb m \<in> set es \<longrightarrow> bc_request cb = rid \<and> RegisterCallback rid cb \<in> insert x past \<and> completes rid m x" by blast
  obtain rows where r: "db_txs (sv_db (foldl (perform cy t) s es)) = db_txs (sv_db s) @ rows" "\<forall>row \<in> set rows. backed (insert x past) row"
    using performs_rows [OF es] by blast
  obtain rows' where r': "db_txs (sv_db (snd (serve cy xs h' (foldl (perform cy t) s es)))) = db_txs (sv_db (foldl (perform cy t) s es)) @ rows'"
      "\<forall>row \<in> set rows'. backed (insert x past \<union> fst ` set xs) row"
    using Cons.IH [OF _ ok, of "foldl (perform cy t) s es"] Cons.prems(1) by auto
  have sub: "insert x past \<subseteq> past \<union> fst ` set (y # xs)" "insert x past \<union> fst ` set xs \<subseteq> past \<union> fst ` set (y # xs)"
    by (auto simp: y)
  have "backed (past \<union> fst ` set (y # xs)) row" if "row \<in> set (rows @ rows')" for row
    using that r(2) r'(2) backed_mono [OF _ sub(1)] backed_mono [OF _ sub(2)] by auto
  with r(1) r'(1) show ?case by (intro exI [of _ "rows @ rows'"]) (auto simp: y st)
qed simp

text \<open>C4: No charge of the inference endpoint without a completion: every transaction the hub's
  operations add, with the effects performed on the store, belongs to a request for which a billing
  callback was registered and for which a provider sent a completion; it charges the consumer and
  credits the payee of that callback, for the tokens that message reports. The confidential relay
  registers no callback and charges on its own path.\<close>

theorem charges_are_backed:
  assumes "\<forall>(x, t) \<in> set xs. own_request x"
  shows "\<exists>rows. db_txs (sv_db (snd (serve cy xs (new_hub depth) s))) = db_txs (sv_db s) @ rows
    \<and> (\<forall>row \<in> set rows. \<exists>cb m x. RegisterCallback (tx_request row) cb \<in> fst ` set xs \<and> x \<in> fst ` set xs \<and> completes (tx_request row) m x
         \<and> tx_consumer row = bc_consumer cb \<and> tx_provider row = payee (bc_provider cb) \<and> tx_output row = dn_tokens m)"
proof -
  have "own_callbacks (new_hub depth)" "callbacks_from {} (new_hub depth)" by (simp_all add: own_callbacks_def callbacks_from_def new_hub_def)
  from serve_rows [OF assms this] show ?thesis by (simp add: backed_def)
qed

text \<open>A callback is registered, then its completion arrives: one charge.\<close>

definition sample_served :: "served_op list" where
  "sample_served = [(RegisterCallback ''r1'' sample_callback, sample_bill_clock),
     (Message sample_validators (provider_name 1) sample_data, sample_bill_clock)]"

lemma sample_fits_db: "\<not> charge_raises (bill_args sample_bill_clock sample_callback sample_done)"
  by code_simp

lemma sample_served_txs:
  "length (db_txs (sv_db (snd (serve sample_country sample_served (new_hub 50) sample_services)))) = 1"
  by (simp add: sample_served_def handle_provider_message_def handle_done_def sample_data_def sample_validators_def Let_def
      register_billing_callback_def new_hub_def sample_fits_db settle_txs sample_services_def empty_db_def)

lemma charges_are_backed_witness:
  "\<exists>row. db_txs (sv_db (snd (serve sample_country sample_served (new_hub 50) sample_services))) = [row]
     \<and> (\<exists>cb (m :: inference_done). tx_consumer row = bc_consumer cb \<and> tx_output row = dn_tokens m \<and> RegisterCallback (tx_request row) cb \<in> fst ` set sample_served)"
proof -
  have own: "\<forall>(x, t) \<in> set sample_served. own_request x"
    by (simp add: sample_served_def own_request_def sample_callback_def)
  from charges_are_backed [OF own, of sample_country 50 sample_services] obtain rows where
    r: "db_txs (sv_db (snd (serve sample_country sample_served (new_hub 50) sample_services))) = db_txs (sv_db sample_services) @ rows"
      "\<forall>row \<in> set rows. \<exists>cb m x. RegisterCallback (tx_request row) cb \<in> fst ` set sample_served \<and> x \<in> fst ` set sample_served
         \<and> completes (tx_request row) m x \<and> tx_consumer row = bc_consumer cb \<and> tx_provider row = payee (bc_provider cb) \<and> tx_output row = dn_tokens m"
    by blast
  have "db_txs (sv_db sample_services) = []" by (simp add: sample_services_def empty_db_def)
  with r(1) sample_served_txs obtain row where "rows = [row]" by (auto simp: length_Suc_conv)
  then have "row \<in> set rows" by simp
  from bspec [OF r(2) this] obtain cb and m :: inference_done where
    "RegisterCallback (tx_request row) cb \<in> fst ` set sample_served" "tx_consumer row = bc_consumer cb" "tx_output row = dn_tokens m" by blast
  moreover have "db_txs (sv_db (snd (serve sample_country sample_served (new_hub 50) sample_services))) = [row]"
    using r(1) \<open>rows = [row]\<close> \<open>db_txs (sv_db sample_services) = []\<close> by simp
  ultimately show ?thesis by blast
qed

section \<open>Refinement of a billing machine\<close>

text \<open>What billing is about, without providers, queues, routes or tables: the requests that may still be
  billed, the balances, and the ledger. A callback opens a request, the end of its response task or its
  error closes it, a completion of an open request transfers its price and closes it.\<close>

record billing =
  bl_open :: "string \<Rightarrow> bill_callback option"
  bl_balance :: "string \<Rightarrow> int option"
  bl_ledger :: "(string \<times> string \<times> string \<times> int) list"

datatype billing_event = BillOpened string bill_callback | BillClosed string | BillCompleted string inference_done

definition transfer :: "string \<Rightarrow> string \<Rightarrow> int \<Rightarrow> (string \<Rightarrow> int option) \<Rightarrow> string \<Rightarrow> int option" where
  "transfer payer recipient cost bal = (let paid = bal(payer := map_option (\<lambda>x. x - cost) (bal payer))
     in paid(recipient \<mapsto> (case paid recipient of Some x \<Rightarrow> x | None \<Rightarrow> 10000000) + (cost - platform_fee cost)))"

fun billing_step :: "bill_clock \<Rightarrow> billing_event \<Rightarrow> billing \<Rightarrow> billing" where
  "billing_step t (BillOpened rid cb) b = b\<lparr>bl_open := (bl_open b)(rid \<mapsto> cb)\<rparr>"
| "billing_step t (BillClosed rid) b = b\<lparr>bl_open := (bl_open b)(rid := None)\<rparr>"
| "billing_step t (BillCompleted rid m) b = (case bl_open b rid of
     None \<Rightarrow> b
   | Some cb \<Rightarrow> (let b' = b\<lparr>bl_open := (bl_open b)(rid := None)\<rparr>; cost = total_cost (bill_args t cb m) in
       if charge_raises (bill_args t cb m) then b'
       else b'\<lparr>bl_balance := transfer (bc_consumer cb) (payee (bc_provider cb)) cost (bl_balance b),
               bl_ledger := bl_ledger b @ [(bc_request cb, bc_consumer cb, payee (bc_provider cb), cost)]\<rparr>))"

text \<open>What the machine sees of a hub operation.\<close>

definition message_event :: "validators \<Rightarrow> trace \<Rightarrow> 'cb hub \<Rightarrow> billing_event option" where
  "message_event v data h = (case map_of data ''request_id'' of
     Some (JStr rid) \<Rightarrow>
       if rid = '''' then None
       else if map_of data ''type'' = Some (JStr ''inference_done'') then map_option (BillCompleted rid) (v_done v data)
       else if map_of data ''type'' = Some (JStr ''inference_error'') \<and> map_of (hub_queues h) rid \<noteq> None \<and> v_error v data \<noteq> None
         then Some (BillClosed rid)
       else None
   | _ \<Rightarrow> None)"

fun seen :: "bill_callback hub_op \<Rightarrow> bill_callback hub \<Rightarrow> billing_event option" where
  "seen (RegisterCallback rid cb) h = Some (BillOpened rid cb)"
| "seen (RemoveQueue rid) h = Some (BillClosed rid)"
| "seen (Message v pid data) h = message_event v data h"
| "seen _ h = None"

definition billing_view :: "bill_callback hub \<Rightarrow> services \<Rightarrow> billing" where
  "billing_view h s = \<lparr>bl_open = map_of (hub_callbacks h), bl_balance = (\<lambda>i. map_option acc_balance (get_account i (sv_db s))),
     bl_ledger = map (\<lambda>r. (tx_request r, tx_consumer r, tx_provider r, tx_cost r)) (db_txs (sv_db s))\<rparr>"

fun billing_run :: "served_op list \<Rightarrow> bill_callback hub \<Rightarrow> billing \<Rightarrow> billing" where
  "billing_run [] h b = b"
| "billing_run ((x, t) # xs) h b = billing_run xs (fst (hub_step x h))
     (case seen x h of None \<Rightarrow> b | Some e \<Rightarrow> billing_step t e b)"

lemma settle_balance:
  assumes "\<not> charge_raises (bill_args t cb m)"
  shows "(\<lambda>i. map_option acc_balance (get_account i (sv_db (settle cy t cb m s))))
    = transfer (bc_consumer cb) (payee (bc_provider cb)) (total_cost (bill_args t cb m)) (\<lambda>i. map_option acc_balance (get_account i (sv_db s)))"
proof
  fix i
  have "get_account i (sv_db (settle cy t cb m s))
      = get_account i (snd (charge_request (bill_args t cb m) (bk_account t) (bk_charge t) (sv_db s)))"
    by (simp add: settle_eq [OF assms])
  then show "map_option acc_balance (get_account i (sv_db (settle cy t cb m s)))
    = transfer (bc_consumer cb) (payee (bc_provider cb)) (total_cost (bill_args t cb m)) (\<lambda>i. map_option acc_balance (get_account i (sv_db s))) i"
    by (cases "get_account i (sv_db s)")
      (auto simp: charge_account debited_def transfer_def Let_def debit_def credit_def new_account_def MICRO_PER_DOLLAR_def)
qed

lemma settle_view:
  assumes "\<not> charge_raises (bill_args t cb m)"
  shows "billing_view h (settle cy t cb m s) = (billing_view h s)\<lparr>
    bl_balance := transfer (bc_consumer cb) (payee (bc_provider cb)) (total_cost (bill_args t cb m)) (bl_balance (billing_view h s)),
    bl_ledger := bl_ledger (billing_view h s) @ [(bc_request cb, bc_consumer cb, payee (bc_provider cb), total_cost (bill_args t cb m))]\<rparr>"
  using settle_balance [OF assms, of cy s] by (simp add: billing_view_def settle_txs [OF assms])

lemma failed_view: "billing_view h (record_failed_outcome now rid s) = billing_view h s"
  by (simp add: billing_view_def record_failed_outcome_def amend_frame)

definition inert :: "'cb hub_effect \<Rightarrow> bool" where
  "inert e \<longleftrightarrow> (case e of Bill _ _ _ \<Rightarrow> False | _ \<Rightarrow> True)"

lemma inert_view: "list_all inert es \<Longrightarrow> billing_view h (foldl (perform cy t) s es) = billing_view h s"
proof (induction es arbitrary: s)
  case (Cons e es)
  then show ?case by (cases e) (simp_all add: inert_def failed_view)
qed simp

lemma view_open: "billing_view h' s = (billing_view h s)\<lparr>bl_open := map_of (hub_callbacks h')\<rparr>"
  by (simp add: billing_view_def)

lemma message_refines:
  assumes "handle_provider_message v pid data h = (r, h', es)"
  shows "billing_view h' (foldl (perform cy t) s es)
    = (case message_event v data h of None \<Rightarrow> billing_view h s | Some e \<Rightarrow> billing_step t e (billing_view h s))"
proof -
  have done_case: "billing_view h' (foldl (perform cy t) s es) = billing_step t (BillCompleted rid m) (billing_view h s)"
    if "handle_done pid rid m h = (r, h', es)" for rid m
  proof (cases "map_of (hub_callbacks h) rid")
    case None
    with that have "es = [ScheduleDispatch pid]" "hub_callbacks h' = dict_pop rid (hub_callbacks h)" by (auto simp: handle_done_def Let_def)
    moreover from None have "map_of (dict_pop rid (hub_callbacks h)) = map_of (hub_callbacks h)" by (auto simp: fun_eq_iff)
    ultimately show ?thesis using None by (simp add: billing_view_def)
  next
    case (Some cb)
    with that have e: "es = [Bill rid cb m, ScheduleDispatch pid]" "hub_callbacks h' = dict_pop rid (hub_callbacks h)"
      by (auto simp: handle_done_def Let_def)
    have o: "map_of (hub_callbacks h') = (map_of (hub_callbacks h))(rid := None)" by (auto simp: e(2))
    show ?thesis
    proof (cases "charge_raises (bill_args t cb m)")
      case True
      then show ?thesis by (simp add: e(1) failed_view Some) (simp add: billing_view_def o Some)
    next
      case False
      then show ?thesis by (simp add: e(1) settle_view Some) (simp add: billing_view_def o Some Let_def)
    qed
  qed
  have error_case: "billing_view h' (foldl (perform cy t) s es) = billing_step t (BillClosed rid) (billing_view h s)"
    if "handle_error pid rid m h = (r, h', es)" for rid m
    using that by (auto simp: handle_error_def Let_def failed_view) (auto simp: billing_view_def)
  have chunk: "billing_view (put_queue rid m h) s = billing_view h s" for rid m by (simp add: billing_view_def)
  show ?thesis
    using assms done_case error_case
    by (auto simp: chunk handle_provider_message_def handle_other_def message_event_def failed_view split: option.splits json.splits if_splits)
qed

lemma step_refines:
  assumes "hub_step x h = (h', es)"
  shows "billing_view h' (foldl (perform cy t) s es)
    = (case seen x h of None \<Rightarrow> billing_view h s | Some e \<Rightarrow> billing_step t e (billing_view h s))"
proof -
  have quiet: ?thesis if "hub_callbacks h' = hub_callbacks h" "list_all inert es" "seen x h = None"
    using that by (simp add: inert_view) (simp add: billing_view_def)
  have failed: "list_all inert (map OutcomeFailed rs)" "list_all inert (map (\<lambda>p. Wake (g p)) ps)" for rs ps and g :: "pending_request \<Rightarrow> pending_request"
    by (simp_all add: list_all_iff inert_def)
  show ?thesis
  proof (cases x)
    case (Message v pid data)
    obtain r where "handle_provider_message v pid data h = (r, h', es)" using assms Message by (cases "handle_provider_message v pid data h") auto
    from message_refines [OF this] Message show ?thesis by simp
  next
    case (Dispatch clk)
    have "Bill rid cb m \<notin> set es" for rid cb m
      using assms Dispatch no_bills [of rid es cb m] dispatch_items_callbacks [of clk "hub_pending h" False "h\<lparr>hub_pending := []\<rparr>" rid]
      by (auto simp: try_dispatch_queued_def split: if_splits)
    then have "list_all inert es" by (auto simp: list_all_iff inert_def split: hub_effect.split)
    with assms Dispatch show ?thesis using try_dispatch_frame [of clk h] by (intro quiet) auto
  next
    case (Select sk rep model pref mc maxp sid)
    with assms show ?thesis using select_provider_state [of sk rep model pref mc maxp sid h] by (intro quiet) auto
  next
    case (RegisterCallback rid cb)
    with assms show ?thesis by (auto simp: register_billing_callback_def billing_view_def)
  next
    case (RemoveQueue rid)
    with assms show ?thesis by (auto simp: remove_response_queue_def billing_view_def)
  qed (rule quiet; use assms in \<open>auto simp: failed inert_def register_provider_def bind_connection_def record_model_def set_quarantine_def
      handle_heartbeat_def disconnect_provider_def force_disconnect_def begin_send_def end_send_def
      send_attestation_challenge_def handle_attestation_response_def check_attestation_timeouts_def create_response_queue_def
      take_message_def enqueue_request_def put_pending_def clear_queue_def Let_def split: option.splits list.splits if_splits\<close>)+
qed

text \<open>C6: The coordinator refines the billing machine: seen through who may still be billed, the balances
  and the ledger, any sequence of hub operations with the effects on the store is the run of a machine
  of three rules: a registered callback opens a request, the end of its response task or its error
  closes it, and the completion of an open request takes the price from its consumer, gives it less the
  fee to its payee, writes one line into the ledger and closes it. Nothing else moves money: not a
  disconnect, a quarantine, a heartbeat, a dispatch, a second completion or a chunk.\<close>

theorem coordinator_refines_billing:
  "(case serve cy xs h s of (h', s') \<Rightarrow> billing_view h' s') = billing_run xs h (billing_view h s)"
proof (induction xs arbitrary: h s)
  case (Cons y xs)
  obtain x t where y: "y = (x, t)" by force
  obtain h' es where st: "hub_step x h = (h', es)" by force
  show ?case using Cons.IH [of h' "foldl (perform cy t) s es"] by (simp add: y st step_refines [OF st])
qed simp

section \<open>Refinement of the store\<close>

definition settling :: "store_op \<Rightarrow> bool" where
  "settling op \<longleftrightarrow> (case op of ChargeRequest _ _ _ \<Rightarrow> True | AmendRequestOutcome _ _ _ _ \<Rightarrow> True | _ \<Rightarrow> False)"

lemma perform_store: "\<exists>ops. sv_db (perform cy t s e) = store_run sha ops (sv_db s) \<and> list_all settling ops"
proof (cases e)
  case (Bill rid cb m)
  show ?thesis
  proof (cases "charge_raises (bill_args t cb m)")
    case True
    with Bill show ?thesis
      by (intro exI [of _ "[AmendRequestOutcome rid None failure (bk_amend t)]"]) (simp add: record_failed_outcome_def settling_def)
  next
    case False
    with Bill show ?thesis
      by (intro exI [of _ "[ChargeRequest (bill_args t cb m) (bk_account t) (bk_charge t),
          AmendRequestOutcome (bc_request cb) (Some (bc_consumer cb)) (completion_of t cb m) (bk_amend t)]"])
        (simp add: settle_eq settling_def)
  qed
next
  case (OutcomeFailed rid)
  then show ?thesis
    by (intro exI [of _ "[AmendRequestOutcome rid None failure (bk_amend t)]"]) (simp add: record_failed_outcome_def settling_def)
qed (intro exI [of _ "[]"]; simp)+

lemma performs_store: "\<exists>ops. sv_db (foldl (perform cy t) s es) = store_run sha ops (sv_db s) \<and> list_all settling ops"
proof (induction es arbitrary: s)
  case (Cons e es)
  obtain ops where o: "sv_db (perform cy t s e) = store_run sha ops (sv_db s)" "list_all settling ops" using perform_store by blast
  obtain ops' where "sv_db (foldl (perform cy t) (perform cy t s e) es) = store_run sha ops' (sv_db (perform cy t s e))" "list_all settling ops'"
    using Cons.IH by blast
  with o show ?case by (intro exI [of _ "ops @ ops'"]) simp
qed (intro exI [of _ "[]"], simp)

text \<open>The composed coordinator refines the store: whatever the hub does, its effects on the database
  are a sequence of charges and outcome amendments of the store, so on any database reached by store
  operations every constraint still holds and the transaction log only grows.\<close>

theorem coordinator_refines_store:
  "\<exists>ops. sv_db (snd (serve cy xs h s)) = store_run sha ops (sv_db s) \<and> list_all settling ops
    \<and> (sv_db s = store_run sha earlier empty_db \<longrightarrow> db_ok (sv_db (snd (serve cy xs h s)))
         \<and> (\<exists>new. db_txs (sv_db (snd (serve cy xs h s))) = db_txs (sv_db s) @ new))"
proof -
  have run: "\<exists>ops. sv_db (snd (serve cy xs h s)) = store_run sha ops (sv_db s) \<and> list_all settling ops" for h s
  proof (induction xs arbitrary: h s)
    case (Cons y xs)
    obtain x t where y: "y = (x, t)" by force
    obtain h' es where st: "hub_step x h = (h', es)" by force
    obtain ops where o: "sv_db (foldl (perform cy t) s es) = store_run sha ops (sv_db s)" "list_all settling ops" using performs_store by blast
    from Cons.IH [of h' "foldl (perform cy t) s es"] obtain ops' where
      "sv_db (snd (serve cy xs h' (foldl (perform cy t) s es))) = store_run sha ops' (store_run sha ops (sv_db s))" "list_all settling ops'"
      by (auto simp: o)
    with o show ?case by (intro exI [of _ "ops @ ops'"]) (simp add: y st)
  qed (intro exI [of _ "[]"], simp)
  then obtain ops where ops: "sv_db (snd (serve cy xs h s)) = store_run sha ops (sv_db s)" "list_all settling ops" by blast
  have "db_ok (store_run sha ops (sv_db s)) \<and> (\<exists>new. db_txs (store_run sha ops (sv_db s)) = db_txs (sv_db s) @ new)"
    if "sv_db s = store_run sha earlier empty_db"
    using run_on [of "sv_db s" sha ops] store_run_ok [of sha earlier] db_steps_log that by auto
  with ops show ?thesis by auto
qed

lemma coordinator_refines_store_witness:
  "db_ok (sv_db (snd (serve sample_country [(RegisterCallback ''r1'' sample_callback, sample_bill_clock)] (new_hub 50) sample_services)))"
  using coordinator_refines_store [of sample_country "[(RegisterCallback ''r1'' sample_callback, sample_bill_clock)]" "new_hub 50" sample_services id "[]"]
  by (auto simp: sample_services_def)

text \<open>A consumer with an account and a matched request, settled.\<close>

definition sample_matched :: outcome where
  "sample_matched = \<lparr>out_request = ''r1'', out_consumer = Some ''c'', out_time = 3, out_status = ''matched'', out_payload = [],
     out_provider_country = None, out_caller_country = None\<rparr>"

definition sample_paying :: services where
  "sample_paying = sample_services\<lparr>sv_db := (snd (ensure_account ''c'' ''c'' 0 empty_db))\<lparr>db_outcomes := [sample_matched]\<rparr>\<rparr>"

lemma settlement_exact_witness:
  "\<exists>r \<in> set (db_outcomes (sv_db (settle sample_country sample_bill_clock sample_callback sample_done sample_paying))).
     out_status r = ''completed''"
proof -
  have p: "payee (bc_provider sample_callback) \<noteq> bc_consumer sample_callback"
    by (simp add: payee_def sample_callback_def sample_provider_def provider_name_def)
  obtain c where c: "get_account (bc_consumer sample_callback) (sv_db sample_paying) = Some c"
    by (cases "get_account ''c'' empty_db")
      (simp_all add: sample_paying_def sample_callback_def ensure_account_def serialized_write_def get_account_ensure get_account_def
        ensure_account_in_transaction_def ins_account_or_ignore_def empty_db_def new_account_def sql_exists_def)
  have ok: "outcomes_ok (sv_db sample_paying)" by (simp add: outcomes_ok_def sample_paying_def)
  have m: "sample_matched \<in> set (db_outcomes (sv_db sample_paying))" by (simp add: sample_paying_def)
  have recent: "rnd (bk_amend sample_bill_clock - TRACE_RETENTION_SECONDS) \<le> out_time sample_matched" by code_simp
  have room: "length (db_outcomes (sv_db sample_paying)) \<le> TRACE_MAX_ROWS" by (simp add: sample_paying_def TRACE_MAX_ROWS_def)
  have mf: "out_request sample_matched = bc_request sample_callback" "out_consumer sample_matched = Some (bc_consumer sample_callback)"
    "out_status sample_matched \<in> {''matched'', ''matched_from_queue''}" by (simp_all add: sample_matched_def sample_callback_def)
  from settlement_exact [OF p c refl refl ok, of sample_bill_clock sample_done sample_country "''r1''"] m mf recent room sample_fits_db
  have "\<exists>r \<in> set (db_outcomes (sv_db (settle sample_country sample_bill_clock sample_callback sample_done sample_paying))).
      completed_row sample_bill_clock sample_callback sample_done r" unfolding if_not_P [OF sample_fits_db] by blast
  then show ?thesis by (auto simp: completed_row_def)
qed

end
