(* ===== verification/ChatRequest.thy ===== *)
theory ChatRequest
  imports LoadLimits Protocol
begin

text \<open>
  The front of the inference endpoint: the structured errors of \<open>shared/errors.py\<close>, the request model
  of \<open>routes_inference.py\<close> with its two validations, the token estimate, and the gate a request passes
  before it is routed (validation, caller, pause switch, rate limit), in the order of
  \<open>chat_completions\<close>.
\<close>

section \<open>Errors (\<open>shared/errors.py\<close>)\<close>

datatype ocip_error =
    NoProviderAvailable string
  | NoCompatibleProvider string string
  | ConfidenceUnavailable string string
  | InsufficientBalance
  | ProviderTimeout
  | ProviderError string
  | QueueFull int
  | QueueTimeout flt
  | QueueCleared
  | InferencePaused
  | ConcurrencyLimit int
  | RateLimitExceeded

fun error_status :: "ocip_error \<Rightarrow> int" where
  "error_status (NoProviderAvailable _) = 503"
| "error_status (NoCompatibleProvider _ _) = 503"
| "error_status (ConfidenceUnavailable _ _) = 503"
| "error_status InsufficientBalance = 402"
| "error_status ProviderTimeout = 504"
| "error_status (ProviderError _) = 502"
| "error_status (QueueFull _) = 503"
| "error_status (QueueTimeout _) = 503"
| "error_status QueueCleared = 503"
| "error_status InferencePaused = 503"
| "error_status (ConcurrencyLimit _) = 429"
| "error_status RateLimitExceeded = 429"

fun error_type :: "ocip_error \<Rightarrow> string" where
  "error_type (NoProviderAvailable _) = ''no_provider_available''"
| "error_type (NoCompatibleProvider c _) = c"
| "error_type (ConfidenceUnavailable _ _) = ''confidence_unavailable''"
| "error_type InsufficientBalance = ''insufficient_balance''"
| "error_type ProviderTimeout = ''provider_timeout''"
| "error_type (ProviderError _) = ''provider_error''"
| "error_type (QueueFull _) = ''queue_full''"
| "error_type (QueueTimeout _) = ''queue_timeout''"
| "error_type QueueCleared = ''queue_cleared''"
| "error_type InferencePaused = ''inference_paused''"
| "error_type (ConcurrencyLimit _) = ''concurrency_limit''"
| "error_type RateLimitExceeded = ''rate_limit_exceeded''"

fun error_message :: "ocip_error \<Rightarrow> string" where
  "error_message (NoProviderAvailable m) = m"
| "error_message (NoCompatibleProvider _ m) = m"
| "error_message (ConfidenceUnavailable l m) = ''No provider with confidence level '' @ [CHR 0x27] @ l @ [CHR 0x27]
     @ '' available for model '' @ [CHR 0x27] @ m @ [CHR 0x27]"
| "error_message InsufficientBalance = ''Insufficient account balance''"
| "error_message ProviderTimeout = ''Provider did not respond in time''"
| "error_message (ProviderError d) = d"
| "error_message (QueueFull n) = ''Request queue full ('' @ int_str n @ '' pending)''"
| "error_message (QueueTimeout s) = ''No provider available after '' @ int_str (to_int s) @ ''s wait''"
| "error_message QueueCleared = ''An operator cleared the request queue. Try again later.''"
| "error_message InferencePaused = ''Inference is paused by the operator. Try again later.''"
| "error_message (ConcurrencyLimit n) = ''Too many simultaneous requests for this account (limit '' @ int_str n
     @ ''). Wait for a request to finish.''"
| "error_message RateLimitExceeded = ''Rate limit exceeded. Try again in a few seconds.''"

text \<open>The handler \<open>_ocip_error\<close> of \<open>main.py\<close>: status and body in the OpenAI error shape.\<close>

definition ocip_response :: "ocip_error \<Rightarrow> int \<times> json" where
  "ocip_response e = (error_status e, JObj [(''error'', JObj [(''message'', JStr (error_message e)),
     (''type'', JStr (error_type e)), (''code'', JStr (error_type e))])])"

section \<open>The request\<close>

record chat_message =
  cm_role :: string
  cm_content :: string

record chat_request =
  cr_model :: "string option"
  cr_messages :: "chat_message list"
  cr_max_tokens :: int
  cr_temperature :: flt
  cr_stream :: bool
  cr_preference :: string
  cr_min_conf :: string
  cr_max_price :: "flt option"
  cr_session :: "string option"
  cr_public_key :: "string option"

definition LEVEL_ALIASES :: "(string, string) dict" where
  "LEVEL_ALIASES = [(''l0'', ''open''), (''l1'', ''contained''), (''l2'', ''hardened''), (''l3'', ''confidential'')]"

text \<open>The field validator, which runs when the request is parsed.\<close>

definition normalize_min_confidence :: "string \<Rightarrow> string" where
  "normalize_min_confidence v = (let n = str_lower (str_strip v) in dict_get LEVEL_ALIASES n n)"

definition validate_model :: "chat_request \<Rightarrow> string option" where
  "validate_model r = (case cr_model r of
     None \<Rightarrow> Some ''A concrete model ID is required. List available IDs with GET /v1/models.''
   | Some m \<Rightarrow> first_error
      [(str_strip m = '''', ''A concrete model ID is required. List available IDs with GET /v1/models.''),
       (m = ''default'', ''The 'default' model alias is not supported. Choose an ID from GET /v1/models.''),
       (m \<noteq> str_strip m, ''The model ID must match an ID from GET /v1/models exactly.'')])"

definition validate_inputs :: "chat_request \<Rightarrow> string option" where
  "validate_inputs r = first_error
     [(cr_min_conf r \<notin> set (map snd LEVEL_ALIASES),
        ''ocip_min_confidence must be open (L0), contained (L1), hardened (L2), or confidential (L3)''),
      (cr_messages r = [], ''Messages cannot be empty''),
      (100 < length (cr_messages r), ''Too many messages (max 100)''),
      (200000 < sum_list (map (\<lambda>m. length (cm_content m)) (cr_messages r)), ''Total message content too large (max 200k chars)''),
      (cr_max_tokens r < 1 \<or> 32768 < cr_max_tokens r, ''max_tokens must be 1-32768''),
      (cr_temperature r < 0 \<or> 2 < cr_temperature r, ''temperature must be 0-2'')]"

definition estimate_input_tokens :: "chat_message list \<Rightarrow> int" where
  "estimate_input_tokens ms = max 1 (int (sum_list (map (\<lambda>m. length (cm_content m)) ms)) div 4 + int (length ms) * 4)"

section \<open>The gate\<close>

text \<open>How the credentials of a request resolve (\<open>routes_auth.py\<close>): they raise, or name the caller.\<close>

datatype gate_result =
    BadRequest string string
  | AuthRaised
  | SignInRequired
  | Raised ocip_error
  | Passed string

text \<open>\<open>caller\<close> is the outcome of \<open>resolve_caller\<close>, \<open>anonymous_blocked\<close> of
  \<open>anonymous_inference_blocked\<close>; \<open>t0\<close> and \<open>now\<close> are the clock readings of the rate limiter.\<close>

definition chat_gate :: "chat_request \<Rightarrow> string option \<Rightarrow> (string \<Rightarrow> bool) \<Rightarrow> operator_controls \<Rightarrow> flt \<Rightarrow> flt \<Rightarrow> rate_limiter
    \<Rightarrow> gate_result \<times> rate_limiter" where
  "chat_gate r caller anonymous_blocked controls t0 now l = (case validate_inputs r of
     Some e \<Rightarrow> (BadRequest e ''invalid_request'', l)
   | None \<Rightarrow> (case caller of
       None \<Rightarrow> (AuthRaised, l)
     | Some c \<Rightarrow> if anonymous_blocked c then (SignInRequired, l)
         else (case validate_model r of
           Some e \<Rightarrow> (BadRequest e ''invalid_model'', l)
         | None \<Rightarrow> if oc_paused controls then (Raised InferencePaused, l)
             else (case limiter_allow c t0 now l of
               (ok, l') \<Rightarrow> (if ok then Passed c else Raised RateLimitExceeded, l')))))"

text \<open>A passed request then takes a concurrency slot (\<open>run_guarded\<close>).\<close>

definition take_slot :: "string \<Rightarrow> operator_controls \<Rightarrow> (ocip_error + unit) \<times> operator_controls" where
  "take_slot c controls = (case guard_enter c controls of
     (Inl Paused, s) \<Rightarrow> (Inl InferencePaused, s)
   | (Inl (ConcurrencyExceeded n), s) \<Rightarrow> (Inl (ConcurrencyLimit n), s)
   | (Inr (), s) \<Rightarrow> (Inr (), s))"

end
