(* ===== verification/Dispatch.thy ===== *)
theory Dispatch
  imports Settlement ChatRequest
begin

text \<open>
  \<open>_route_and_dispatch\<close> of \<open>routes_inference.py\<close>: from an admitted request to a provider that has it. The
  handler has three stretches between which it waits: \<open>route_request\<close> checks the balance, selects a
  provider, explains why none can match or queues the request; \<open>dispatch_direct\<close> sends it to the
  selected provider, with one retry; \<open>resume_queued\<close> continues after the queue woke it. Each is one step
  here (a send that waits on the socket lets other tasks run, which the code does not guard against).
  Encryption to a provider's key, the request id and the texts of exceptions are parameters.
\<close>

section \<open>Parameters and results\<close>

record dispatch_env =
  de_encrypt :: "trace \<Rightarrow> string \<Rightarrow> trace option"
  de_show_float :: "flt \<Rightarrow> string"
  de_request :: string
  de_queue_timeout :: flt
  de_failure1 :: string
  de_failure2 :: string
  de_accepts :: "string \<Rightarrow> bool"
  de_clock :: "nat \<Rightarrow> flt"
  de_select :: select_clock
  de_explain :: "string \<Rightarrow> flt"
  de_reselect :: select_clock

datatype route_result =
    PaymentRequired
  | RouteRaised ocip_error
  | RouteCrashed hub_error
  | RouteWaits pending_request
  | RouteSelected string

definition REQUEST_MODEL :: "chat_request \<Rightarrow> string" where
  "REQUEST_MODEL r = dflt '''' (cr_model r)"

definition messages_json :: "chat_request \<Rightarrow> trace list" where
  "messages_json r = map (\<lambda>m. [(''role'', JStr (cm_role m)), (''content'', JStr (cm_content m))]) (cr_messages r)"

section \<open>Traces\<close>

text \<open>The fields every outcome row starts with. The served model of a trace is what the provider alone
  determines, \<open>None\<close> without a provider.\<close>

definition trace_head :: "string \<Rightarrow> flt \<Rightarrow> string \<Rightarrow> connected_provider option \<Rightarrow> trace" where
  "trace_head rid now model p = [(''request_id'', JStr rid), (''timestamp'', JFloat now), (''model'', JStr model),
     (''requested_model'', JStr model),
     (''served_model'', j_opt JStr (case p of None \<Rightarrow> None | Some q \<Rightarrow> served_model_for_request model (cp_caps q) None))]"

definition refused_trace :: "string \<Rightarrow> flt \<Rightarrow> chat_request \<Rightarrow> string \<Rightarrow> string \<Rightarrow> nat \<Rightarrow> trace" where
  "refused_trace rid now r code message n = trace_head rid now (REQUEST_MODEL r) None
     @ [(''min_confidence'', JStr (cr_min_conf r)), (''max_price'', j_opt JFloat (cr_max_price r)),
        (''status'', JStr code), (''reason'', JStr message), (''providers_evaluated'', JInt (int n))]"

definition queue_trace :: "string \<Rightarrow> flt \<Rightarrow> chat_request \<Rightarrow> string \<Rightarrow> string \<Rightarrow> nat \<Rightarrow> trace" where
  "queue_trace rid now r status reason n = trace_head rid now (REQUEST_MODEL r) None
     @ [(''status'', JStr status), (''reason'', JStr reason), (''providers_evaluated'', JInt (int n))]"

text \<open>The scoring details of a decision, best score first.\<close>

definition scoring_entry :: "chat_request \<Rightarrow> string \<Rightarrow> connected_provider \<Rightarrow> flt \<times> trace" where
  "scoring_entry r selected p = (let s = py_round (score_for_request (REQUEST_MODEL r) (cr_preference r) p) 4 in
     (s, [(''provider_id'', JStr (cp_id p)), (''name'', JStr (cp_name p)), (''price'', JFloat (pc_price_out (cp_caps p))),
      (''trust'', JStr (trust_claim p)), (''load'', JFloat (py_round (cp_load_factor p) 2)), (''tps'', JFloat (pc_tps (cp_caps p))),
      (''score'', JFloat s), (''selected'', JBool (cp_id p = selected)), (''encrypted'', JBool (cp_enc_key p \<noteq> ''''))]))"

definition scoring_details :: "chat_request \<Rightarrow> string \<Rightarrow> 'cb hub \<Rightarrow> (flt \<times> trace) list" where
  "scoring_details r selected h = sort_key (\<lambda>(s, _). - s) (map (\<lambda>(_, p). scoring_entry r selected p) (hub_providers h))"

definition match_trace :: "string \<Rightarrow> flt \<Rightarrow> chat_request \<Rightarrow> connected_provider \<Rightarrow> (string \<times> json) list \<Rightarrow> (flt \<times> trace) list \<Rightarrow> trace" where
  "match_trace rid now r p status scoring = trace_head rid now (REQUEST_MODEL r) (Some p)
     @ [(''preference'', JStr (cr_preference r)), (''min_confidence'', JStr (cr_min_conf r)), (''max_price'', j_opt JFloat (cr_max_price r))]
     @ status
     @ [(''selected_provider'', JStr (cp_name p)), (''selected_price'', JFloat (pc_price_out (cp_caps p))),
        (''selected_price_input'', JFloat (pc_price_in (cp_caps p))), (''selected_price_cache'', JFloat (pc_price_cache (cp_caps p))),
        (''selected_trust'', JStr (trust_claim p)), (''encrypted'', JBool (cp_enc_key p \<noteq> '''')),
        (''scoring'', JList (map (JObj \<circ> snd) scoring)), (''providers_evaluated'', JInt (int (length scoring)))]"

definition save_trace :: "trace \<Rightarrow> string \<Rightarrow> flt \<Rightarrow> flt \<Rightarrow> services \<Rightarrow> services" where
  "save_trace t consumer now1 now2 s = s\<lparr>sv_db := snd (save_request_outcome t (Some consumer) now1 now2 (sv_db s))\<rparr>"

section \<open>Routing\<close>

text \<open>Looking up reputations creates an entry for every provider considered.\<close>

definition consult_reputation :: "(string \<Rightarrow> flt) \<Rightarrow> 'cb hub \<Rightarrow> reputation_tracker \<Rightarrow> reputation_tracker" where
  "consult_reputation clk h t = foldl (\<lambda>t p. snd (get_score (cp_id p) t)) t (filter (routable clk) (map snd (hub_providers h)))"

definition plain_request :: "string \<Rightarrow> chat_request \<Rightarrow> inference_request" where
  "plain_request rid r = \<lparr>ir_request = rid, ir_model = REQUEST_MODEL r, ir_messages = Some (messages_json r), ir_encrypted = None,
     ir_max_tokens = cr_max_tokens r, ir_temperature = cr_temperature r, ir_stream = cr_stream r\<rparr>"

definition encrypt_payload :: "chat_request \<Rightarrow> trace" where
  "encrypt_payload r = (''messages'', JList (map JObj (messages_json r)))
     # (case cr_public_key r of Some (c # cs) \<Rightarrow> [(''consumer_public_key'', JStr (c # cs))] | _ \<Rightarrow> [])"

text \<open>The request as a given provider receives it: encrypted to its key when it has one, otherwise plain;
  \<open>None\<close> when the encryption raises, as it does for a key that is not one.\<close>

definition request_for :: "dispatch_env \<Rightarrow> chat_request \<Rightarrow> connected_provider \<Rightarrow> inference_request option" where
  "request_for env r p = (if cp_enc_key p = '''' then Some (plain_request (de_request env) r)
     else map_option (\<lambda>body. (plain_request (de_request env) r)\<lparr>ir_messages := None, ir_encrypted := Some body\<rparr>)
            (de_encrypt env (encrypt_payload r) (cp_enc_key p)))"

definition refuse :: "dispatch_env \<Rightarrow> chat_request \<Rightarrow> string \<Rightarrow> string \<Rightarrow> string \<Rightarrow> bill_callback hub \<Rightarrow> services
    \<Rightarrow> route_result \<times> bill_callback hub \<times> services" where
  "refuse env r consumer code message h s = (RouteRaised (NoCompatibleProvider code message), h,
     save_trace (refused_trace (de_request env) (de_clock env 0) r code message (provider_count h)) consumer (de_clock env 1) (de_clock env 2) s)"

definition wait_in_queue :: "dispatch_env \<Rightarrow> chat_request \<Rightarrow> string \<Rightarrow> bill_callback hub \<Rightarrow> services
    \<Rightarrow> route_result \<times> bill_callback hub \<times> services" where
  "wait_in_queue env r consumer h s = (case enqueue_request (plain_request (de_request env) r) (REQUEST_MODEL r) (cr_preference r)
       (cr_min_conf r) (cr_max_price r) (cr_session r) (de_clock env 3) h of
     (Inl e, h') \<Rightarrow> (RouteRaised (QueueFull (hub_max_depth h)), h',
        save_trace (queue_trace (de_request env) (de_clock env 0) r ''queue_full''
          (''Queue full ('' @ int_str (hub_max_depth h) @ '' pending)'') (provider_count h)) consumer (de_clock env 1) (de_clock env 2) s)
   | (Inr p, h') \<Rightarrow> (RouteWaits p, h', s))"

definition route_request :: "dispatch_env \<Rightarrow> chat_request \<Rightarrow> string \<Rightarrow> bill_callback hub \<Rightarrow> services
    \<Rightarrow> route_result \<times> bill_callback hub \<times> services" where
  "route_request env r consumer h s = (
     if (case get_account consumer (sv_db s) of Some a \<Rightarrow> acc_balance a \<le> 0 | None \<Rightarrow> False) then (PaymentRequired, h, s)
     else (let rep = (\<lambda>pid. fst (get_score pid (sv_reputation s)));
               s1 = s\<lparr>sv_reputation := consult_reputation (sk_admit (de_select env)) h (sv_reputation s)\<rparr>
       in case select_provider (de_select env) rep (REQUEST_MODEL r) (cr_preference r) (cr_min_conf r) (cr_max_price r) (cr_session r) h of
            (Inl e, h1) \<Rightarrow> (RouteCrashed e, h1, s)
          | (Inr (Some pid), h1) \<Rightarrow> (RouteSelected pid, h1, s1)
          | (Inr None, h1) \<Rightarrow> (case explain_no_match (de_show_float env) (de_explain env) (REQUEST_MODEL r) (cr_min_conf r) (cr_max_price r) h1 of
               Inl e \<Rightarrow> (RouteCrashed e, h1, s1)
             | Inr (Some (code, message)) \<Rightarrow> refuse env r consumer code message h1 s1
             | Inr None \<Rightarrow> wait_in_queue env r consumer h1 s1)))"

section \<open>Sending\<close>

text \<open>Create the response queue, encrypt, send, and on a failed send remove the queue again. A failing
  encryption is not caught: it ends the handler and leaves the queue.\<close>

datatype send_attempt = Delivered | Unreachable | Uncipherable

definition try_send :: "flt \<Rightarrow> dispatch_env \<Rightarrow> chat_request \<Rightarrow> connected_provider \<Rightarrow> bill_callback hub
    \<Rightarrow> send_attempt \<times> bill_callback hub \<times> bill_callback hub_effect list" where
  "try_send now env r p h = (let h0 = create_response_queue (de_request env) h in
     case request_for env r p of
       None \<Rightarrow> (Uncipherable, h0, [])
     | Some req \<Rightarrow> (case send_to_provider now (de_accepts env (cp_id p)) p req h0 of
         (Inr _, h', es) \<Rightarrow> (Delivered, h', es)
       | (Inl _, h', es) \<Rightarrow> (Unreachable, remove_response_queue (de_request env) h', es)))"

definition callback_for :: "dispatch_env \<Rightarrow> chat_request \<Rightarrow> string \<Rightarrow> connected_provider \<Rightarrow> string option \<Rightarrow> bool \<Rightarrow> int \<Rightarrow> bill_callback" where
  "callback_for env r consumer p caller queued wait = \<lparr>bc_request = de_request env, bc_model = REQUEST_MODEL r, bc_provider = p,
     bc_consumer = consumer, bc_estimate = estimate_input_tokens (cr_messages r), bc_start = de_clock env 5,
     bc_preference = cr_preference r, bc_queued = queued, bc_wait = wait, bc_caller = caller\<rparr>"

definition match_event :: "dispatch_env \<Rightarrow> chat_request \<Rightarrow> connected_provider \<Rightarrow> (string \<times> json) list \<Rightarrow> trace" where
  "match_event env r p extra = [(''type'', JStr ''match''), (''request_id'', JStr (de_request env)), (''provider'', JStr (cp_name p)),
     (''model'', JStr (REQUEST_MODEL r)), (''requested_model'', JStr (REQUEST_MODEL r)),
     (''served_model'', j_opt JStr (served_model_for_request (REQUEST_MODEL r) (cp_caps p) None))] @ extra"

text \<open>After a successful send: outcome row, match event, billing callback.\<close>

definition commit_match :: "dispatch_env \<Rightarrow> chat_request \<Rightarrow> string \<Rightarrow> string option \<Rightarrow> connected_provider \<Rightarrow> (string \<times> json) list
    \<Rightarrow> (string \<times> json) list \<Rightarrow> (flt \<times> trace) list \<Rightarrow> bool \<Rightarrow> int \<Rightarrow> bill_callback hub \<Rightarrow> services \<Rightarrow> bill_callback hub \<times> services" where
  "commit_match env r consumer caller p status extra scoring queued wait h s =
     (let s1 = save_trace (match_trace (de_request env) (de_clock env 0) r p status scoring) consumer (de_clock env 1) (de_clock env 2) s;
          s2 = s1\<lparr>sv_bus := publish (de_clock env 6) (match_event env r p extra) (sv_bus s1)\<rparr>
      in (register_billing_callback (de_request env) (callback_for env r consumer p caller queued wait) h, s2))"

text \<open>\<open>max((s["score"] for s in scoring if s["selected"]), default=0)\<close>: the details name one selected
  provider, the one first selected.\<close>

definition selected_score :: "(flt \<times> trace) list \<Rightarrow> json" where
  "selected_score scoring = (case filter (\<lambda>(_, t). map_of t ''selected'' = Some (JBool True)) scoring of
     [] \<Rightarrow> JInt 0 | xs \<Rightarrow> JFloat (Max (set (map fst xs))))"

text \<open>The dispatch of a request to the selected provider, when no other task runs during its awaits.\<close>

datatype crash = RoutingCrash hub_error | EncryptionCrash

datatype send_result = Sent connected_provider | SendRaised ocip_error | SendCrashed crash

definition dispatch_direct :: "dispatch_env \<Rightarrow> chat_request \<Rightarrow> string \<Rightarrow> string option \<Rightarrow> connected_provider \<Rightarrow> bill_callback hub \<Rightarrow> services
    \<Rightarrow> send_result \<times> bill_callback hub \<times> services \<times> bill_callback hub_effect list" where
  "dispatch_direct env r consumer caller p h s =
     (let scoring = scoring_details r (cp_id p) h;
          commit = (\<lambda>q h' es. case commit_match env r consumer caller q [(''status'', JStr ''matched'')] [(''score'', selected_score scoring)]
             scoring False 0 h' s of (h'', s') \<Rightarrow> (Sent q, h'', s', es))
      in case try_send (de_clock env 4) env r p h of
        (Delivered, h1, es) \<Rightarrow> commit p h1 es
      | (Uncipherable, h1, es) \<Rightarrow> (SendCrashed EncryptionCrash, h1, s, es)
      | (Unreachable, h1, es) \<Rightarrow>
          (case select_provider (de_reselect env) (\<lambda>_. 1) (REQUEST_MODEL r) (cr_preference r) (cr_min_conf r) (cr_max_price r) None h1 of
             (Inl e, h2) \<Rightarrow> (SendCrashed (RoutingCrash e), h2, s, es)
           | (Inr None, h2) \<Rightarrow> (SendRaised (ProviderError (''Failed to reach provider: '' @ de_failure1 env)), h2, s, es)
           | (Inr (Some pid), h2) \<Rightarrow> (case map_of (hub_providers h2) pid of
               None \<Rightarrow> (SendRaised (ProviderError (''Failed to reach provider: '' @ de_failure1 env)), h2, s, es)
             | Some q \<Rightarrow>
                 if cp_id q = cp_id p then (SendRaised (ProviderError (''Failed to reach provider: '' @ de_failure1 env)), h2, s, es)
                 else (case try_send (de_clock env 9) env r q h2 of
                   (Delivered, h3, es') \<Rightarrow> commit q h3 (es @ es')
                 | (Uncipherable, h3, es') \<Rightarrow> (SendCrashed EncryptionCrash, h3, s, es @ es')
                 | (Unreachable, h3, es') \<Rightarrow> (SendRaised (ProviderError (''All providers failed: '' @ de_failure2 env)), h3, s, es @ es')))))"

text \<open>The same stretch of the handler with the await of the socket in it: create the queue, encrypt, start
  the send; \<open>during\<close> are the hub operations of other tasks while the socket is awaited; then the send
  ends and the match is committed. \<open>None\<close> when the send does not start. \<open>dispatch_direct\<close> is the case
  in which nothing comes between.\<close>

definition dispatch_across :: "dispatch_env \<Rightarrow> chat_request \<Rightarrow> string \<Rightarrow> string option \<Rightarrow> connected_provider \<Rightarrow> (string \<times> json) list
    \<Rightarrow> (string \<times> json) list \<Rightarrow> (flt \<times> trace) list \<Rightarrow> bool \<Rightarrow> int \<Rightarrow> bill_callback hub_op list \<Rightarrow> bill_callback hub \<Rightarrow> services
    \<Rightarrow> ((bill_callback hub \<times> services) \<times> bill_callback hub_effect list) option" where
  "dispatch_across env r consumer caller p status extra scoring queued wait during h s =
     (case request_for env r p of None \<Rightarrow> None
      | Some req \<Rightarrow> (case begin_send (de_clock env 4) p req (create_response_queue (de_request env) h) of
          (Inl _, _) \<Rightarrow> None
        | (Inr _, h1) \<Rightarrow> (case hub_run during h1 of (h2, es) \<Rightarrow> (case end_send True p req h2 of (_, h3, es') \<Rightarrow>
            Some (commit_match env r consumer caller p status extra scoring queued wait h3 s, es @ es')))))"

section \<open>Resuming a queued request\<close>

text \<open>How the wait for the queue ended: not within the timeout, or woken with this pending request; the
  provider it was given is an object, connected or not.\<close>

datatype wake = QueueTimedOut | Woken pending_request "connected_provider option"

definition resume_queued :: "dispatch_env \<Rightarrow> chat_request \<Rightarrow> string \<Rightarrow> string option \<Rightarrow> wake \<Rightarrow> bill_callback hub \<Rightarrow> services
    \<Rightarrow> send_result \<times> bill_callback hub \<times> services \<times> bill_callback hub_effect list" where
  "resume_queued env r consumer caller w h s = (case w of
     QueueTimedOut \<Rightarrow> (SendRaised (QueueTimeout (de_queue_timeout env)), h,
        save_trace (queue_trace (de_request env) (de_clock env 0) r ''queue_timeout''
          (''No provider available after '' @ de_show_float env (de_queue_timeout env) @ ''s wait'') (provider_count h))
          consumer (de_clock env 1) (de_clock env 2) s, [])
   | Woken pending prov \<Rightarrow>
       if pn_cleared pending then (SendRaised QueueCleared, h, s, [])
       else (case prov of
         None \<Rightarrow> (SendRaised (NoProviderAvailable ''Provider assignment failed.''), h, s, [])
       | Some p \<Rightarrow> if request_for env r p = None then (SendCrashed EncryptionCrash, h, s, [])
         else (case try_send (de_clock env 4) env r p h of
           (Uncipherable, h1, es) \<Rightarrow> (SendCrashed EncryptionCrash, h1, s, es)
         | (Unreachable, h1, es) \<Rightarrow> (SendRaised (ProviderError (''Failed to reach provider: '' @ de_failure1 env)), h1, s, es)
         | (Delivered, h1, es) \<Rightarrow>
             (case commit_match env r consumer caller p
                [(''status'', JStr ''matched_from_queue''), (''wait_seconds'', JFloat (py_round (rnd (de_clock env 7 - pn_queued_at pending)) 2))]
                [(''source'', JStr ''queue'')] (scoring_details r (cp_id p) h1) True
                (to_int (rnd (rnd (de_clock env 8 - pn_queued_at pending) * 1000))) h1 s of
              (h2, s') \<Rightarrow> (Sent p, h2, s', es)))))"

end
