(* ===== verification/Delivery.thy ===== *)
theory Delivery
  imports Dispatch
begin

text \<open>
  The consumer's side of a request in flight: \<open>_stream_response\<close> and \<open>_collect_response\<close> of
  \<open>routes_inference.py\<close>. Both read the request's response queue until a completion, an error or a timeout.
  What they read is a list of arrivals, each with the clock reading of its event; a list without an end
  is a consumer that went away, which cancels the task, and only the \<open>finally\<close> block runs.
\<close>

datatype arrival = Arrived queue_message | QueueTimeoutHit

text \<open>A server-sent event: a JSON object, or the end marker.\<close>

datatype sse = Data trace | DoneMarker

datatype stream_end = StreamSuccess | StreamTimeout | StreamDisconnect | StreamError

section \<open>Streaming\<close>

definition chunk_head :: "string \<Rightarrow> string \<Rightarrow> flt \<Rightarrow> string option \<Rightarrow> trace" where
  "chunk_head rid model now served = [(''id'', JStr (''chatcmpl-'' @ take 8 rid)), (''object'', JStr ''chat.completion.chunk''),
     (''created'', JInt (to_int now)), (''model'', JStr model), (''ocip_requested_model'', JStr model),
     (''ocip_served_model'', j_opt JStr served)]"

definition delta_choice :: "trace \<Rightarrow> json \<Rightarrow> (string \<times> json)" where
  "delta_choice delta finish = (''choices'', JList [JObj [(''index'', JInt 0), (''delta'', JObj delta), (''finish_reason'', finish)]])"

definition token_event :: "string \<Rightarrow> string \<Rightarrow> provider_capabilities \<Rightarrow> flt \<Rightarrow> response_chunk \<Rightarrow> sse" where
  "token_event rid model caps now c = Data (chunk_head rid model now (served_model_for_request model caps None)
     @ [delta_choice (if rc_token c = '''' then [] else [(''content'', JStr (rc_token c))]) (j_opt JStr (rc_finish c))]
     @ (case rc_encrypted c of Some (x # xs) \<Rightarrow> [(''ocip_encrypted_token'', JObj (x # xs))] | _ \<Rightarrow> []))"

definition stop_event :: "string \<Rightarrow> string \<Rightarrow> provider_capabilities \<Rightarrow> flt \<Rightarrow> inference_done \<Rightarrow> sse" where
  "stop_event rid model caps now m = Data (chunk_head rid model now (served_model_for_request model caps (dn_served m))
     @ [delta_choice [] (JStr ''stop'')])"

definition error_event :: "string \<Rightarrow> string \<Rightarrow> sse" where
  "error_event message ty = Data [(''error'', JObj [(''message'', JStr message), (''type'', JStr ty)])]"

text \<open>The loop: the events it yields, how it ended and how many chunks it counted; \<open>None\<close> when cancelled.\<close>

fun stream_loop :: "string \<Rightarrow> string \<Rightarrow> provider_capabilities \<Rightarrow> (arrival \<times> flt) list \<Rightarrow> nat \<Rightarrow> sse list \<times> (stream_end \<times> nat) option" where
  "stream_loop rid model caps [] n = ([], None)"
| "stream_loop rid model caps ((QueueTimeoutHit, now) # xs) n = ([error_event ''Provider timeout'' ''timeout''], Some (StreamTimeout, n))"
| "stream_loop rid model caps ((Arrived (Chunk c), now) # xs) n = (case stream_loop rid model caps xs (Suc n) of
     (es, r) \<Rightarrow> (token_event rid model caps now c # es, r))"
| "stream_loop rid model caps ((Arrived (Done m), now) # xs) n = ([stop_event rid model caps now m], Some (StreamSuccess, n))"
| "stream_loop rid model caps ((Arrived (Failed e), now) # xs) n = ([error_event (er_error e) ''provider_error''],
     Some (if er_error e = ''provider_disconnected'' then StreamDisconnect else StreamError, n))"

definition record_stream_end :: "string \<Rightarrow> stream_end \<Rightarrow> nat \<Rightarrow> int \<Rightarrow> flt \<Rightarrow> reputation_tracker \<Rightarrow> reputation_tracker" where
  "record_stream_end pid e n latency now t = (case e of
     StreamSuccess \<Rightarrow> record_success pid (int n) latency now t
   | StreamTimeout \<Rightarrow> record_timeout pid now t
   | StreamDisconnect \<Rightarrow> record_disconnect pid now t
   | StreamError \<Rightarrow> record_error pid now t)"

text \<open>\<open>elapsed_ms\<close> from the readings of \<open>start\<close> and \<open>stop\<close>; \<open>now\<close> is the time of the outcome record.\<close>

definition elapsed_ms :: "flt \<Rightarrow> flt \<Rightarrow> int" where
  "elapsed_ms start stop = to_int (rnd (rnd (stop - start) * 1000))"

definition stream_response :: "string \<Rightarrow> string \<Rightarrow> connected_provider \<Rightarrow> flt \<Rightarrow> flt \<Rightarrow> flt \<Rightarrow> (arrival \<times> flt) list
    \<Rightarrow> bill_callback hub \<Rightarrow> reputation_tracker \<Rightarrow> sse list \<times> bill_callback hub \<times> reputation_tracker" where
  "stream_response rid model p start stop now xs h t = (case stream_loop rid model (cp_caps p) xs 0 of
     (es, None) \<Rightarrow> (es, remove_response_queue rid h, t)
   | (es, Some (e, n)) \<Rightarrow> (es @ [DoneMarker], remove_response_queue rid h,
        record_stream_end (cp_id p) e n (elapsed_ms start stop) now t))"

section \<open>Collecting\<close>

datatype collect_end = Cancelled | CollectRaised ocip_error | Collected "string list" inference_done

fun collect_loop :: "(arrival \<times> flt) list \<Rightarrow> string list \<Rightarrow> collect_end" where
  "collect_loop [] toks = Cancelled"
| "collect_loop ((QueueTimeoutHit, now) # xs) toks = CollectRaised ProviderTimeout"
| "collect_loop ((Arrived (Chunk c), now) # xs) toks = collect_loop xs (toks @ [rc_token c])"
| "collect_loop ((Arrived (Done m), now) # xs) toks = Collected toks m"
| "collect_loop ((Arrived (Failed e), now) # xs) toks = CollectRaised (ProviderError (er_error e))"

definition prompt_tokens :: "inference_done \<Rightarrow> string \<Rightarrow> int" where
  "prompt_tokens m content = (if 0 < dn_input m then dn_input m else int (length content) div 4)"

definition completion_json :: "string \<Rightarrow> string \<Rightarrow> provider_capabilities \<Rightarrow> flt \<Rightarrow> string list \<Rightarrow> inference_done \<Rightarrow> json" where
  "completion_json rid model caps now toks m = (let content = concat toks in JObj
     [(''id'', JStr (''chatcmpl-'' @ take 8 rid)), (''object'', JStr ''chat.completion''), (''created'', JInt (to_int now)),
      (''model'', JStr model), (''ocip_requested_model'', JStr model),
      (''ocip_served_model'', j_opt JStr (served_model_for_request model caps (dn_served m))),
      (''choices'', JList [JObj [(''index'', JInt 0), (''message'', JObj [(''role'', JStr ''assistant''), (''content'', JStr content)]),
         (''finish_reason'', JStr ''stop'')]]),
      (''usage'', JObj [(''prompt_tokens'', JInt (prompt_tokens m content)), (''completion_tokens'', JInt (int (length toks))),
         (''total_tokens'', JInt (prompt_tokens m content + int (length toks)))])])"

text \<open>The response, or the error raised; \<open>None\<close> when the task was cancelled.\<close>

definition collect_response :: "string \<Rightarrow> string \<Rightarrow> connected_provider \<Rightarrow> flt \<Rightarrow> flt \<Rightarrow> flt \<Rightarrow> flt \<Rightarrow> (arrival \<times> flt) list
    \<Rightarrow> bill_callback hub \<Rightarrow> reputation_tracker \<Rightarrow> (ocip_error + json) option \<times> bill_callback hub \<times> reputation_tracker" where
  "collect_response rid model p start stop now created xs h t = (case collect_loop xs [] of
     Cancelled \<Rightarrow> (None, remove_response_queue rid h, t)
   | CollectRaised ProviderTimeout \<Rightarrow> (Some (Inl ProviderTimeout), remove_response_queue rid h, record_timeout (cp_id p) now t)
   | CollectRaised e \<Rightarrow> (Some (Inl e), remove_response_queue rid h, record_error (cp_id p) now t)
   | Collected toks m \<Rightarrow> (Some (Inr (completion_json rid model (cp_caps p) created toks m)), remove_response_queue rid h,
        record_success (cp_id p) (int (length toks)) (elapsed_ms start stop) now t))"

end
