(* ===== verification/DeliveryLaws.thy ===== *)
theory DeliveryLaws
  imports Delivery
begin

text \<open>
  The two ways to deliver a response agree: the stream carries the same text as the collected answer,
  ends under the same conditions, and leaves the same standing of the provider and the same hub.
\<close>

section \<open>The shape of a stream\<close>

definition is_chunk :: "arrival \<times> flt \<Rightarrow> bool" where
  "is_chunk x \<longleftrightarrow> (case fst x of Arrived (Chunk _) \<Rightarrow> True | _ \<Rightarrow> False)"

definition chunk_of :: "arrival \<times> flt \<Rightarrow> response_chunk" where
  "chunk_of x = (case fst x of Arrived (Chunk c) \<Rightarrow> c | _ \<Rightarrow> \<lparr>rc_request = '''', rc_token = '''', rc_encrypted = None, rc_finish = None\<rparr>)"

definition last_event :: "string \<Rightarrow> string \<Rightarrow> provider_capabilities \<Rightarrow> arrival \<times> flt \<Rightarrow> sse" where
  "last_event rid model caps x = (case fst x of
     Arrived (Done m) \<Rightarrow> stop_event rid model caps (snd x) m
   | Arrived (Failed e) \<Rightarrow> error_event (er_error e) ''provider_error''
   | _ \<Rightarrow> error_event ''Provider timeout'' ''timeout'')"

definition end_of :: "arrival \<times> flt \<Rightarrow> stream_end" where
  "end_of x = (case fst x of
     Arrived (Done m) \<Rightarrow> StreamSuccess
   | Arrived (Failed e) \<Rightarrow> if er_error e = ''provider_disconnected'' then StreamDisconnect else StreamError
   | _ \<Rightarrow> StreamTimeout)"

lemma chunk_simps [simp]:
  "is_chunk (Arrived (Chunk c), now)" "\<not> is_chunk (Arrived (Done m), now)" "\<not> is_chunk (Arrived (Failed e), now)"
  "\<not> is_chunk (QueueTimeoutHit, now)" "chunk_of (Arrived (Chunk c), now) = c"
  by (simp_all add: is_chunk_def chunk_of_def)

lemma stream_loop_shape:
  "stream_loop rid model caps xs n =
     (map (\<lambda>x. token_event rid model caps (snd x) (chunk_of x)) (takeWhile is_chunk xs)
        @ (case dropWhile is_chunk xs of [] \<Rightarrow> [] | x # _ \<Rightarrow> [last_event rid model caps x]),
      case dropWhile is_chunk xs of [] \<Rightarrow> None | x # _ \<Rightarrow> Some (end_of x, n + length (takeWhile is_chunk xs)))"
  by (induction rid model caps xs n rule: stream_loop.induct)
    (auto simp: last_event_def end_of_def split: list.split simp del: dropWhile_eq_Nil_conv)

lemma collect_loop_shape:
  "collect_loop xs toks = (case dropWhile is_chunk xs of [] \<Rightarrow> Cancelled
     | x # _ \<Rightarrow> (case fst x of
         Arrived (Done m) \<Rightarrow> Collected (toks @ map (\<lambda>x. rc_token (chunk_of x)) (takeWhile is_chunk xs)) m
       | Arrived (Failed e) \<Rightarrow> CollectRaised (ProviderError (er_error e))
       | _ \<Rightarrow> CollectRaised ProviderTimeout))"
  by (induction xs toks rule: collect_loop.induct)
    (auto split: list.split arrival.split queue_message.split simp del: dropWhile_eq_Nil_conv)

section \<open>What a client reads\<close>

text \<open>The text of an event, as an OpenAI client takes it from \<open>choices[0].delta.content\<close>.\<close>

definition event_text :: "sse \<Rightarrow> string" where
  "event_text e = (case e of DoneMarker \<Rightarrow> '''' | Data t \<Rightarrow> (case map_of t ''choices'' of
     Some (JList [JObj c]) \<Rightarrow> (case map_of c ''delta'' of
       Some (JObj d) \<Rightarrow> (case map_of d ''content'' of Some (JStr s) \<Rightarrow> s | _ \<Rightarrow> '''') | _ \<Rightarrow> '''') | _ \<Rightarrow> ''''))"

definition answer_text :: "json \<Rightarrow> string option" where
  "answer_text j = (case obj_get j ''choices'' of
     Some (JList [c]) \<Rightarrow> (case obj_get c ''message'' of Some m \<Rightarrow> (case obj_get m ''content'' of Some (JStr s) \<Rightarrow> Some s | _ \<Rightarrow> None) | _ \<Rightarrow> None)
   | _ \<Rightarrow> None)"

lemma event_text_simps [simp]:
  "event_text (token_event rid model caps now c) = rc_token c"
  "event_text (stop_event rid model caps now m) = ''''"
  "event_text (error_event msg ty) = ''''"
  "event_text DoneMarker = ''''"
  by (simp_all add: event_text_def token_event_def stop_event_def error_event_def chunk_head_def delta_choice_def)

lemma last_event_text [simp]: "event_text (last_event rid model caps x) = ''''"
  by (simp add: last_event_def split: arrival.split queue_message.split)

lemma last_event_not_done [simp]: "last_event rid model caps x \<noteq> DoneMarker" "DoneMarker \<noteq> last_event rid model caps x"
  by (simp_all add: last_event_def stop_event_def error_event_def split: arrival.split queue_message.split)

lemma answer_text_completion [simp]: "answer_text (completion_json rid model caps now toks m) = Some (concat toks)"
  by (simp add: answer_text_def completion_json_def Let_def)

section \<open>Standing\<close>

text \<open>A provider's standing: its reputation without the log of recent outcomes.\<close>

definition standing :: "reputation_tracker \<Rightarrow> string \<Rightarrow> reputation option" where
  "standing t pid = map_option (\<lambda>r. r\<lparr>rp_recent := []\<rparr>) (map_of t pid)"

lemma outcome_standing:
  "(record_outcome DISCONNECT a b c r)\<lparr>rp_recent := []\<rparr> = (record_outcome ERROR a b c r)\<lparr>rp_recent := []\<rparr>"
  by (simp add: record_outcome_def Let_def)

lemma standing_disconnect: "standing (record_disconnect pid now t) = standing (record_error pid now t)"
  by (rule ext) (simp add: standing_def record_disconnect_def record_error_def track_outcome_def outcome_standing split: prod.split)

text \<open>The number of tokens a collected answer reports.\<close>

definition answer_tokens :: "json \<Rightarrow> int option" where
  "answer_tokens j = (case obj_get j ''usage'' of
     Some u \<Rightarrow> (case obj_get u ''completion_tokens'' of Some (JInt n) \<Rightarrow> Some n | _ \<Rightarrow> None) | None \<Rightarrow> None)"

lemma answer_tokens_completion [simp]: "answer_tokens (completion_json rid model caps now toks m) = Some (int (length toks))"
  by (simp add: answer_tokens_def completion_json_def Let_def)

text \<open>The endings correspond. \<open>body\<close> are the events of the tokens that came before the end: after them a
  stream ends without the end marker, or with one last event and the marker.\<close>

definition same_ending :: "string \<Rightarrow> string \<Rightarrow> provider_capabilities \<Rightarrow> (ocip_error + json) option \<Rightarrow> sse list \<Rightarrow> sse list \<Rightarrow> bool" where
  "same_ending rid model caps res body es = (case res of
     None \<Rightarrow> es = body
   | Some (Inr j) \<Rightarrow> (\<exists>now m. es = body @ [stop_event rid model caps now m, DoneMarker])
       \<and> answer_text j = Some (concat (map event_text body)) \<and> answer_tokens j = Some (int (length body))
   | Some (Inl e) \<Rightarrow> (e = ProviderTimeout \<and> es = body @ [error_event ''Provider timeout'' ''timeout'', DoneMarker])
       \<or> (\<exists>text. e = ProviderError text \<and> es = body @ [error_event text ''provider_error'', DoneMarker]))"

definition is_token :: "string \<Rightarrow> string \<Rightarrow> provider_capabilities \<Rightarrow> sse \<Rightarrow> bool" where
  "is_token rid model caps e \<longleftrightarrow> (\<exists>now c. e = token_event rid model caps now c)"

text \<open>C26: Streaming and collecting are equivalent. For the same arrivals the stream is a series of token
  events with an ending, and the endings correspond: the collected answer is returned exactly when the
  stream ends with a stop event and the end marker, with the text and the number of the token events; it
  fails with a timeout exactly when the stream reports a timeout, and with a provider's error exactly
  when the stream reports that error, before the marker; and both are cancelled together, the stream
  without a marker and with nothing recorded about the provider. A client that streams has read the tokens
  before a failure, one that collects gets none of them. In every case both leave the provider with the
  same counters, averages and score, and both remove the request's response queue and nothing else from
  the hub.\<close>

theorem stream_equals_collect:
  assumes "stream_response rid model p start stop now xs h t = (es, h1, t1)"
    "collect_response rid model p start stop now created xs h t = (res, h2, t2)"
  shows "(\<exists>body. list_all (is_token rid model (cp_caps p)) body \<and> same_ending rid model (cp_caps p) res body es)
    \<and> h1 = remove_response_queue rid h \<and> h2 = h1 \<and> standing t1 = standing t2 \<and> (res = None \<longrightarrow> t1 = t \<and> t2 = t)
    \<and> (\<forall>j. res = Some (Inr j) \<longrightarrow> t1 = t2)"
proof -
  let ?caps = "cp_caps p" and ?body = "map (\<lambda>x. token_event rid model (cp_caps p) (snd x) (chunk_of x)) (takeWhile is_chunk xs)"
  have body: "list_all (is_token rid model ?caps) ?body" by (auto simp: list_all_iff is_token_def)
  have pieces: "concat (map event_text ?body) = concat (map (\<lambda>x. rc_token (chunk_of x)) (takeWhile is_chunk xs))"
    by (simp add: comp_def)
  show ?thesis
  proof (cases "dropWhile is_chunk xs")
    case Nil
    with assms have "same_ending rid model ?caps res ?body es" "res = None" "t1 = t" "t2 = t" "h1 = remove_response_queue rid h" "h2 = h1"
      by (auto simp: stream_response_def collect_response_def stream_loop_shape collect_loop_shape same_ending_def simp del: dropWhile_eq_Nil_conv)
    with body show ?thesis by auto
  next
    case (Cons x ys)
    have "\<not> is_chunk x" using Cons by (metis hd_dropWhile list.discI list.sel(1))
    then have consider_end: "(\<exists>m. fst x = Arrived (Done m)) \<or> (\<exists>e. fst x = Arrived (Failed e)) \<or> fst x = QueueTimeoutHit"
      by (cases "fst x") (auto simp: is_chunk_def split: queue_message.splits)
    have stop: "\<exists>now m'. stop_event rid model ?caps a m = stop_event rid model ?caps now m'" for a m by blast
    from consider_end have "same_ending rid model ?caps res ?body es \<and> h1 = remove_response_queue rid h \<and> h2 = h1 \<and> standing t1 = standing t2
        \<and> res \<noteq> None \<and> (\<forall>j. res = Some (Inr j) \<longrightarrow> t1 = t2)"
    proof (elim disjE exE)
      fix m assume "fst x = Arrived (Done m)"
      with assms Cons pieces show ?thesis
        by (auto simp: stream_response_def collect_response_def stream_loop_shape collect_loop_shape end_of_def record_stream_end_def
            same_ending_def last_event_def comp_def stop)
    next
      fix e assume "fst x = Arrived (Failed e)"
      with assms Cons show ?thesis
        by (auto simp: stream_response_def collect_response_def stream_loop_shape collect_loop_shape end_of_def record_stream_end_def
            standing_disconnect same_ending_def last_event_def)
    next
      assume "fst x = QueueTimeoutHit"
      with assms Cons show ?thesis
        by (auto simp: stream_response_def collect_response_def stream_loop_shape collect_loop_shape end_of_def record_stream_end_def
            same_ending_def last_event_def)
    qed
    with body show ?thesis by blast
  qed
qed

definition sample_arrivals :: "(arrival \<times> flt) list" where
  "sample_arrivals = [(Arrived (Chunk \<lparr>rc_request = ''r'', rc_token = ''hi'', rc_encrypted = None, rc_finish = None\<rparr>), 1),
     (Arrived (Done \<lparr>dn_request = ''r'', dn_tokens = 1, dn_input = 0, dn_cached = 0, dn_seconds = 1, dn_served = None\<rparr>), 2)]"

lemma stream_equals_collect_witness:
  "concat (map event_text (fst (stream_response ''r'' ''m'' sample_provider 0 3 3 sample_arrivals (new_hub 50) []))) = ''hi''"
proof -
  obtain es h1 t1 where s: "stream_response ''r'' ''m'' sample_provider 0 3 3 sample_arrivals (new_hub 50) [] = (es, h1, t1)" by (metis prod_cases3)
  obtain res h2 t2 where c: "collect_response ''r'' ''m'' sample_provider 0 3 3 3 sample_arrivals (new_hub 50) [] = (res, h2, t2)" by (metis prod_cases3)
  then obtain j where j: "res = Some (Inr j)" "answer_text j = Some ''hi''"
    by (auto simp: collect_response_def sample_arrivals_def)
  from stream_equals_collect [OF s c] j obtain body now m where
    "es = body @ [stop_event ''r'' ''m'' (cp_caps sample_provider) now m, DoneMarker]" "Some ''hi'' = Some (concat (map event_text body))"
    by (auto simp: same_ending_def)
  then show ?thesis by (simp add: s)
qed

end
