(* ===== verification/DispatchLaws.thy ===== *)
theory DispatchLaws
  imports Dispatch SettlementLaws
begin

text \<open>
  Routing and dispatch, end to end. A dispatch either hands the request to exactly one provider, in the
  form that provider may read, and leaves it routed and billable, or it leaves hub and services as they
  were. Routing refuses, queues or selects for the right reason.
\<close>

section \<open>Undoing a send\<close>

lemma dict_pop_absent: "map_of d k = None \<Longrightarrow> dict_pop k d = d"
  by (induction d) (auto split: if_splits)

lemma dict_pop_set_new: "map_of d k = None \<Longrightarrow> dict_pop k (dict_set k v d) = d"
  by (induction d) (auto simp: dict_pop_absent split: if_splits)

lemma dict_set_set: "dict_set k v (dict_set k w d) = dict_set k v d"
  by (induction d) auto

lemma dict_set_same: "map_of d k = Some v \<Longrightarrow> dict_set k v d = d"
  by (induction d) (auto split: if_splits)

lemma drop_bump: "0 \<le> cp_active p \<Longrightarrow> drop_active (bump_active p) = p"
  by (simp add: drop_active_def bump_active_def)

lemma update_provider_undo:
  assumes "\<forall>p. map_of (hub_providers h) pid = Some p \<longrightarrow> g (f p) = p"
  shows "update_provider pid g (update_provider pid f h) = h"
  using assms by (auto simp: update_provider_def dict_set_set dict_set_same split: option.split)

text \<open>The request id is new to the hub; a provider's load is not negative.\<close>

definition new_request :: "string \<Rightarrow> 'cb hub \<Rightarrow> bool" where
  "new_request rid h \<longleftrightarrow> map_of (hub_queues h) rid = None \<and> map_of (hub_routes h) rid = None \<and> map_of (hub_callbacks h) rid = None"

definition loads_ok :: "'cb hub \<Rightarrow> bool" where
  "loads_ok h \<longleftrightarrow> (\<forall>pid p. map_of (hub_providers h) pid = Some p \<longrightarrow> 0 \<le> cp_active p)"

lemma create_remove_queue: "new_request rid h \<Longrightarrow> remove_response_queue rid (create_response_queue rid h) = h"
  by (simp add: new_request_def create_response_queue_def remove_response_queue_def dict_pop_set_new dict_pop_absent)

lemma undo_in_queue:
  assumes "loads_ok h"
  shows "update_provider pid drop_active (update_provider pid bump_active (create_response_queue rid h)\<lparr>hub_routes := r\<rparr>)
    = (create_response_queue rid h)\<lparr>hub_routes := r\<rparr>"
proof -
  have "update_provider pid bump_active (create_response_queue rid h)\<lparr>hub_routes := r\<rparr>
      = update_provider pid bump_active ((create_response_queue rid h)\<lparr>hub_routes := r\<rparr>)"
    by (simp add: update_provider_def split: option.split)
  moreover have "\<forall>p. map_of (hub_providers ((create_response_queue rid h)\<lparr>hub_routes := r\<rparr>)) pid = Some p \<longrightarrow> drop_active (bump_active p) = p"
    using assms by (simp add: loads_ok_def create_response_queue_def drop_bump)
  ultimately show ?thesis by (metis update_provider_undo)
qed

section \<open>One attempt\<close>

definition in_flight :: "string \<Rightarrow> string \<Rightarrow> bill_callback hub \<Rightarrow> bill_callback hub" where
  "in_flight rid pid h = (update_provider pid bump_active (create_response_queue rid h))
     \<lparr>hub_routes := dict_set rid pid (hub_routes h)\<rparr>"

lemma request_for_id: "request_for env r p = Some req \<Longrightarrow> ir_request req = de_request env"
  by (auto simp: request_for_def plain_request_def split: if_splits)

lemma try_send_cases:
  assumes "new_request (de_request env) h" "loads_ok h" "try_send now env r p h = (a, h', es)"
  shows "case a of
      Delivered \<Rightarrow> h' = in_flight (de_request env) (cp_id p) h
        \<and> (\<exists>req. request_for env r p = Some req \<and> es = [SendRequest (cp_id p) req])
    | Unreachable \<Rightarrow> h' = h \<and> es = []
    | Uncipherable \<Rightarrow> request_for env r p = None \<and> h' = create_response_queue (de_request env) h \<and> es = []"
proof -
  have routes: "hub_routes (create_response_queue (de_request env) h) = hub_routes h" by (simp add: create_response_queue_def)
  have same: "dict_pop (de_request env) (dict_set (de_request env) (cp_id p) (hub_routes h)) = hub_routes h"
    using assms(1) by (simp add: new_request_def dict_pop_set_new)
  have id: "(create_response_queue (de_request env) h)\<lparr>hub_routes := hub_routes h\<rparr> = create_response_queue (de_request env) h"
    by (simp add: create_response_queue_def)
  show ?thesis
    using assms(3)
    by (auto simp: try_send_def send_to_provider_eq Let_def routes undo_in_queue [OF assms(2)] same id
        create_remove_queue [OF assms(1)] in_flight_def request_for_id split: if_splits option.splits)
qed

lemma in_flight_tables:
  "map_of (hub_routes (in_flight rid pid h)) rid = Some pid" "map_of (hub_queues (in_flight rid pid h)) rid = Some []"
  by (simp_all add: in_flight_def create_response_queue_def)

lemma select_no_session:
  assumes "select_provider sk rep model pref mc maxp None h = (x, h')" shows "h' = h"
  using select_provider_state [of sk rep model pref mc maxp None h] assms by (simp add: remember_affinity_def)

lemma select_found:
  assumes "hub_ok h" "select_provider sk rep model pref mc maxp sid h = (Inr (Some pid), h')"
  shows "\<exists>p conf. map_of (hub_providers h) pid = Some p \<and> conf_map mc = Some conf \<and> routable (sk_admit sk) p
    \<and> fits model conf maxp p \<and> has_slot p"
proof -
  have keys: "hub_keys_ok h" using assms(1) by (rule hub_ok_keys)
  obtain conf m ms where s: "conf_map mc = Some conf" "pid = mr_provider m"
    "fst (greedy_match (\<lambda>_. sk_expire sk) (\<lambda>_. sk_match sk) [route_order model pref conf maxp (session_provider sid h) (sk_order sk)]
       (live_offers (sk_admit sk) rep h)) = m # ms"
    using assms(2) by (rule select_some)
  from greedy_one_some [OF s(3) live_offers_ids [OF keys]]
  obtain f where f: "f \<in> set (live_offers (sk_admit sk) rep h)" "off_id f = pid"
    "hard_ok (route_order model pref conf maxp (session_provider sid h) (sk_order sk)) f" using s(2) by blast
  obtain k p where p: "(k, p) \<in> set (hub_providers h)" "routable (sk_admit sk) p" "f = offer_of (rep (cp_id p)) p"
    using f(1) live_offer_iff by metis
  have "cp_id p = pid" "map_of (hub_providers h) pid = Some p"
    using hub_key [OF keys p(1)] f(2) p(3) by auto
  with s(1) p f(3) show ?thesis by (auto simp: hard_ok_route)
qed

section \<open>All or nothing\<close>

definition committed :: "dispatch_env \<Rightarrow> chat_request \<Rightarrow> string \<Rightarrow> string option \<Rightarrow> connected_provider \<Rightarrow> bool \<Rightarrow> int
    \<Rightarrow> bill_callback hub \<Rightarrow> bill_callback hub" where
  "committed env r consumer caller q queued wait h =
     register_billing_callback (de_request env) (callback_for env r consumer q caller queued wait) (in_flight (de_request env) (cp_id q) h)"

definition eligible :: "dispatch_env \<Rightarrow> chat_request \<Rightarrow> bill_callback hub \<Rightarrow> connected_provider \<Rightarrow> bool" where
  "eligible env r h q \<longleftrightarrow> (\<exists>conf. conf_map (cr_min_conf r) = Some conf \<and> map_of (hub_providers h) (cp_id q) = Some q
     \<and> routable (sk_admit (de_reselect env)) q \<and> fits (REQUEST_MODEL r) conf (cr_max_price r) q \<and> has_slot q)"

lemma commit_match_hub: "commit_match env r consumer caller q status extra scoring queued wait h s = (h', s')
    \<Longrightarrow> h' = register_billing_callback (de_request env) (callback_for env r consumer q caller queued wait) h"
  by (auto simp: commit_match_def Let_def)

lemma select_eligible:
  assumes "hub_ok h" "map_of (hub_providers h) pid = Some q"
    "select_provider (de_reselect env) rep (REQUEST_MODEL r) pref (cr_min_conf r) (cr_max_price r) sid h = (Inr (Some pid), h')"
  shows "eligible env r h q" "cp_id q = pid"
proof -
  show i: "cp_id q = pid" using assms(1,2) by (auto simp: hub_ok_def providers_ok_def)
  from select_found [OF assms(1,3)] show "eligible env r h q" by (auto simp: eligible_def i assms(2))
qed

lemma dispatch_direct_cases:
  assumes "hub_ok h" "loads_ok h" "new_request (de_request env) h"
    "dispatch_direct env r consumer caller p h s = (res, h', s', es)"
  obtains (sent) q req where "res = Sent q" "q = p \<or> (cp_id q \<noteq> cp_id p \<and> eligible env r h q)"
      "h' = committed env r consumer caller q False 0 h" "request_for env r q = Some req" "es = [SendRequest (cp_id q) req]"
  | (failed) "\<forall>q. res \<noteq> Sent q" "res \<noteq> SendCrashed EncryptionCrash" "h' = h" "s' = s" "es = []"
  | (crashed) q where "res = SendCrashed EncryptionCrash" "request_for env r q = None" "q = p \<or> eligible env r h q"
      "h' = create_response_queue (de_request env) h" "s' = s" "es = []"
proof -
  obtain a h1 es1 where t1: "try_send (de_clock env 4) env r p h = (a, h1, es1)" by (metis prod_cases3)
  note c1 = try_send_cases [OF assms(3,2) t1]
  show ?thesis
  proof (cases a)
    case Delivered
    with c1 obtain req where "h1 = in_flight (de_request env) (cp_id p) h" "request_for env r p = Some req" "es1 = [SendRequest (cp_id p) req]"
      by auto
    with Delivered t1 assms(4) show ?thesis
      by (intro sent [of p req]) (auto simp: dispatch_direct_def Let_def committed_def dest!: commit_match_hub split: prod.splits)
  next
    case Uncipherable
    with c1 t1 assms(4) show ?thesis by (intro crashed [of p]) (auto simp: dispatch_direct_def Let_def)
  next
    case Unreachable
    then have h1: "h1 = h" "es1 = []" using c1 by simp_all
    obtain x h2 where sel: "select_provider (de_reselect env) (\<lambda>_. 1) (REQUEST_MODEL r) (cr_preference r) (cr_min_conf r) (cr_max_price r) None h = (x, h2)"
      by (metis prod.collapse)
    have h2: "h2 = h" using sel by (rule select_no_session)
    show ?thesis
    proof (cases "\<exists>pid q. x = Inr (Some pid) \<and> map_of (hub_providers h) pid = Some q \<and> cp_id q \<noteq> cp_id p")
      case True
      then obtain pid q where q: "x = Inr (Some pid)" "map_of (hub_providers h) pid = Some q" "cp_id q \<noteq> cp_id p" by blast
      obtain a2 h3 es2 where t2: "try_send (de_clock env 9) env r q h = (a2, h3, es2)" by (metis prod_cases3)
      note c2 = try_send_cases [OF assms(3,2) t2]
      have e: "eligible env r h q" using select_eligible [OF assms(1) q(2)] sel q(1) by blast
      show ?thesis
      proof (cases a2)
        case Delivered
        with c2 obtain req where "h3 = in_flight (de_request env) (cp_id q) h" "request_for env r q = Some req" "es2 = [SendRequest (cp_id q) req]"
          by auto
        with Delivered t2 t1 Unreachable h1 sel h2 q e assms(4) show ?thesis
          by (intro sent [of q req]) (auto simp: dispatch_direct_def Let_def committed_def dest!: commit_match_hub split: prod.splits)
      next
        case Unreachable2: Unreachable
        with c2 t2 t1 Unreachable h1 sel h2 q assms(4) show ?thesis
          by (intro failed) (auto simp: dispatch_direct_def Let_def)
      next
        case Uncipherable
        with c2 t2 t1 Unreachable h1 sel h2 q e assms(4) show ?thesis
          by (intro crashed [of q]) (auto simp: dispatch_direct_def Let_def)
      qed
    next
      case False
      with t1 Unreachable h1 sel h2 assms(4) show ?thesis
        by (intro failed) (auto simp: dispatch_direct_def Let_def split: sum.splits option.splits if_splits)
    qed
  qed
qed


section \<open>A sample dispatch\<close>

definition sample_chat :: chat_request where
  "sample_chat = \<lparr>cr_model = Some ''m'', cr_messages = [\<lparr>cm_role = ''user'', cm_content = ''hi''\<rparr>], cr_max_tokens = 16,
     cr_temperature = 0, cr_stream = True, cr_preference = ''balanced'', cr_min_conf = ''open'', cr_max_price = None,
     cr_session = None, cr_public_key = None\<rparr>"

definition sample_env :: dispatch_env where
  "sample_env = \<lparr>de_encrypt = (\<lambda>t k. Some [(''body'', JStr k)]), de_show_float = (\<lambda>_. ''0''), de_request = ''r1'', de_queue_timeout = 60,
     de_failure1 = ''e'', de_failure2 = ''e'', de_accepts = (\<lambda>_. True), de_clock = (\<lambda>_. 0),
     de_select = sample_clock, de_explain = (\<lambda>_. 0), de_reselect = sample_clock\<rparr>"

lemma sample_hub_ok: "hub_ok sample_hub"
  unfolding sample_hub_def by (intro register_provider_ok new_hub_ok)

lemma sample_hub_loads: "loads_ok sample_hub"
  by (auto simp: loads_ok_def sample_hub_providers sample_provider_def)

lemma sample_hub_new: "new_request rid sample_hub"
  by (simp add: new_request_def sample_hub_def register_provider_def new_hub_def Let_def)

definition sample_request :: inference_request where
  "sample_request = plain_request ''r1'' sample_chat"

lemma sample_request_for: "request_for sample_env sample_chat sample_provider = Some sample_request"
  by (simp add: request_for_def sample_provider_def sample_request_def sample_env_def)

lemma sample_send: "\<exists>h' es. try_send now sample_env sample_chat sample_provider h = (Delivered, h', es)"
  by (simp add: try_send_def send_to_provider_eq sample_request_for Let_def)
    (simp add: sample_env_def admitted_def requires_app_attest_def trust_claim_def sample_provider_def sample_caps_def)

lemma sample_sent:
  assumes "dispatch_direct sample_env sample_chat ''c'' None sample_provider sample_hub s = (res, h', s', es)"
  shows "res = Sent sample_provider"
proof -
  obtain h1 es1 where "try_send (de_clock sample_env 4) sample_env sample_chat sample_provider sample_hub = (Delivered, h1, es1)"
    using sample_send by blast
  with assms show ?thesis by (simp add: dispatch_direct_def Let_def split: prod.splits)
qed


section \<open>Continuing from the queue\<close>

lemma resume_queued_cases:
  assumes "loads_ok h" "new_request (de_request env) h" "resume_queued env r consumer caller w h s = (res, h', s', es)"
  obtains (sent) pending q wait req where "w = Woken pending (Some q)" "\<not> pn_cleared pending" "res = Sent q"
      "h' = committed env r consumer caller q True wait h" "request_for env r q = Some req" "es = [SendRequest (cp_id q) req]"
  | (failed) "\<forall>q. res \<noteq> Sent q" "h' = h" "es = []"
proof (cases "\<exists>pending q req. w = Woken pending (Some q) \<and> \<not> pn_cleared pending \<and> request_for env r q = Some req")
  case False
  with assms(3) show ?thesis
    by (intro failed) (auto simp: resume_queued_def split: wake.splits option.splits if_splits)
next
  case True
  then obtain pending q req where w: "w = Woken pending (Some q)" "\<not> pn_cleared pending" "request_for env r q = Some req" by blast
  obtain a h1 es1 where t: "try_send (de_clock env 4) env r q h = (a, h1, es1)" by (metis prod_cases3)
  note c = try_send_cases [OF assms(2,1) t]
  show ?thesis
  proof (cases a)
    case Delivered
    with assms(3) w c t show ?thesis
      by (intro sent [of pending q _ req]) (auto simp: resume_queued_def committed_def dest!: commit_match_hub split: prod.splits)
  next
    case Unreachable
    with assms(3) w c t show ?thesis by (intro failed) (auto simp: resume_queued_def)
  next
    case Uncipherable
    with w c show ?thesis by simp
  qed
qed

text \<open>C13: A provider with an encryption key never receives the messages in the clear, and what it receives is
  encrypted to its own key, also after a retry on another provider and after a wait in the queue; a
  provider without a key receives the messages as they were sent.\<close>

theorem request_sealed:
  assumes "hub_ok h" "loads_ok h" "new_request (de_request env) h"
    "dispatch_direct env r consumer caller p h s = (res, h', s', es)
      \<or> resume_queued env r consumer caller (Woken pending (Some p)) h s = (res, h', s', es)"
    "SendRequest pid m \<in> set es"
  shows "\<exists>q. cp_id q = pid \<and> (q = p \<or> map_of (hub_providers h) pid = Some q) \<and>
    (if cp_enc_key q = '''' then ir_messages m = Some (messages_json r) \<and> ir_encrypted m = None
     else ir_messages m = None \<and> (\<exists>body. de_encrypt env (encrypt_payload r) (cp_enc_key q) = Some body \<and> ir_encrypted m = Some body))"
proof -
  have "\<exists>q. (q = p \<or> map_of (hub_providers h) (cp_id q) = Some q) \<and> cp_id q = pid \<and> request_for env r q = Some m"
    using assms(4)
  proof
    assume "dispatch_direct env r consumer caller p h s = (res, h', s', es)"
    with assms(1-3) show ?thesis by (cases rule: dispatch_direct_cases) (use assms(5) in \<open>auto simp: eligible_def\<close>)
  next
    assume "resume_queued env r consumer caller (Woken pending (Some p)) h s = (res, h', s', es)"
    with assms(2,3) show ?thesis by (cases rule: resume_queued_cases) (use assms(5) in auto)
  qed
  then obtain q where q: "q = p \<or> map_of (hub_providers h) (cp_id q) = Some q" "cp_id q = pid" "request_for env r q = Some m" by blast
  show ?thesis
    by (rule exI [of _ q])
      (use q in \<open>cases "cp_enc_key q = []"; auto simp: request_for_def plain_request_def\<close>)
qed

lemma request_sealed_witness:
  "ir_messages sample_request = Some (messages_json sample_chat)"
proof -
  obtain res h' s' es where d: "dispatch_direct sample_env sample_chat ''c'' None sample_provider sample_hub sample_services = (res, h', s', es)"
    by (metis prod_cases4)
  from sample_sent [OF d] have m: "SendRequest (cp_id sample_provider) sample_request \<in> set es"
    by (cases rule: dispatch_direct_cases [OF sample_hub_ok sample_hub_loads sample_hub_new d]) (auto simp: sample_request_for)
  have k: "cp_enc_key sample_provider = ''''" by (simp add: sample_provider_def)
  have u: "map_of (hub_providers (sample_hub :: bill_callback hub)) (cp_id sample_provider) = Some sample_provider"
    by (simp add: sample_hub_providers) (simp add: sample_provider_def)
  from request_sealed [OF sample_hub_ok sample_hub_loads sample_hub_new disjI1 [OF d] m]
  obtain q where "q = sample_provider" "cp_enc_key q = '''' \<longrightarrow> ir_messages sample_request = Some (messages_json sample_chat)"
    using u by auto
  with k show ?thesis by simp
qed

section \<open>The completion of a dispatched request\<close>

text \<open>What leaves a request open: anything but its own completion or error, the end of its response task,
  and a second use of its id.\<close>

definition quiet :: "string \<Rightarrow> 'cb hub_op \<Rightarrow> bool" where
  "quiet rid x \<longleftrightarrow> (case x of RegisterCallback r _ \<Rightarrow> r \<noteq> rid | RemoveQueue r \<Rightarrow> r \<noteq> rid | CreateQueue r \<Rightarrow> r \<noteq> rid
     | Message v pid data \<Rightarrow> \<not> (map_of data ''request_id'' = Some (JStr rid)
         \<and> map_of data ''type'' \<in> {Some (JStr ''inference_done''), Some (JStr ''inference_error'')})
     | _ \<Rightarrow> True)"

lemma callbacks_unchanged:
  assumes "case x of RegisterCallback _ _ \<Rightarrow> False | RemoveQueue _ \<Rightarrow> False | Message _ _ _ \<Rightarrow> False | _ \<Rightarrow> True"
  shows "hub_callbacks (fst (hub_step x h)) = hub_callbacks h"
proof (cases x)
  case (Dispatch clk)
  then show ?thesis by (simp add: try_dispatch_frame)
next
  case (Select sk rep model pref mc maxp sid)
  then show ?thesis using select_provider_state [of sk rep model pref mc maxp sid h] by auto
qed (use assms in \<open>auto simp: register_provider_def bind_connection_def record_model_def set_quarantine_def handle_heartbeat_def
    disconnect_provider_def force_disconnect_def begin_send_def end_send_def
    send_attestation_challenge_def handle_attestation_response_def check_attestation_timeouts_def create_response_queue_def
    take_message_def enqueue_request_def put_pending_def clear_queue_def Let_def split: option.split list.split\<close>)

lemma queue_stays:
  assumes "map_of (hub_queues h) rid \<noteq> None" "\<And>r. x = RemoveQueue r \<Longrightarrow> r \<noteq> rid"
  shows "map_of (hub_queues (fst (hub_step x h))) rid \<noteq> None"
proof (cases x)
  case (Dispatch clk)
  then show ?thesis using assms by (simp add: try_dispatch_frame)
next
  case (Select sk rep model pref mc maxp sid)
  then show ?thesis using assms select_provider_state [of sk rep model pref mc maxp sid h] by auto
next
  case (Message v pid data)
  have "map_of (hub_queues (put_queue r m k)) rid \<noteq> None" if "map_of (hub_queues k) rid \<noteq> None" for r m and k :: "'a hub"
    using that by (simp add: put_queue_def split: option.split)
  then show ?thesis using assms
    by (auto simp: Message handle_provider_message_def handle_done_def handle_error_def handle_other_def Let_def split: option.splits json.splits)
next
  case (Disconnect pid)
  have "map_of (hub_queues (foldl orphan_request h rs)) rid \<noteq> None" for rs
    using assms(1) by (induction rs arbitrary: h) (auto simp: orphan_request_def Let_def put_queue_def split: option.split)
  then show ?thesis using assms by (simp add: Disconnect disconnect_provider_def Let_def split: option.split)
next
  case (ForceDisconnect pid reason)
  have "map_of (hub_queues (foldl orphan_request h rs)) rid \<noteq> None" for rs
    using assms(1) by (induction rs arbitrary: h) (auto simp: orphan_request_def Let_def put_queue_def split: option.split)
  then show ?thesis using assms by (simp add: ForceDisconnect force_disconnect_def disconnect_provider_def Let_def split: option.split)
next
  case (RemoveQueue r)
  then show ?thesis using assms by (simp add: remove_response_queue_def)
qed (use assms in \<open>auto simp: register_provider_def bind_connection_def record_model_def set_quarantine_def handle_heartbeat_def
    begin_send_def end_send_def register_billing_callback_def
    send_attestation_challenge_def handle_attestation_response_def check_attestation_timeouts_def create_response_queue_def
    take_message_def enqueue_request_def put_pending_def clear_queue_def Let_def split: option.split list.split\<close>)

lemma quiet_callback:
  assumes "quiet rid x" shows "map_of (hub_callbacks (fst (hub_step x h))) rid = map_of (hub_callbacks h) rid"
proof (cases x)
  case (RegisterCallback r cb)
  then show ?thesis using assms by (simp add: quiet_def register_billing_callback_def)
next
  case (RemoveQueue r)
  then show ?thesis using assms by (simp add: quiet_def remove_response_queue_def)
next
  case (Message v pid data)
  then show ?thesis using assms
    by (auto simp: quiet_def handle_provider_message_def handle_done_def handle_error_def handle_other_def Let_def split: option.splits json.splits)
qed (use callbacks_unchanged [of x h] in simp_all)

lemma quiet_bills: "quiet rid x \<Longrightarrow> bills rid (snd (hub_step x h)) = 0"
proof -
  assume q: "quiet rid x"
  have "Bill rid cb m \<notin> set (snd (hub_step x h))" for cb m
  proof
    assume "Bill rid cb m \<in> set (snd (hub_step x h))"
    from step_bill [OF this] q show False by (auto simp: completes_def quiet_def)
  qed
  then show ?thesis by (auto simp: bills_def filter_empty_conv split: hub_effect.splits)
qed

lemma quiet_run:
  assumes "list_all (quiet rid) xs" "map_of (hub_queues h) rid \<noteq> None"
  shows "map_of (hub_callbacks (fst (hub_run xs h))) rid = map_of (hub_callbacks h) rid
    \<and> map_of (hub_queues (fst (hub_run xs h))) rid \<noteq> None \<and> bills rid (snd (hub_run xs h)) = 0"
  using assms
proof (induction xs arbitrary: h)
  case (Cons x xs)
  have q: "quiet rid x" using Cons.prems(1) by simp
  then have "\<And>r. x = RemoveQueue r \<Longrightarrow> r \<noteq> rid" by (auto simp: quiet_def)
  from queue_stays [OF Cons.prems(2) this] have "map_of (hub_queues (fst (hub_step x h))) rid \<noteq> None" by simp
  from Cons.IH [OF _ this] Cons.prems(1) quiet_callback [OF q, of h] quiet_bills [OF q, of h] show ?case
    by (simp add: hub_run_Cons del: hub_run.simps)
qed simp

text \<open>With nothing in between, the stretch is the uninterrupted dispatch.\<close>

lemma dispatch_direct_across:
  assumes "de_accepts env (cp_id p)"
    "dispatch_across env r consumer caller p [(''status'', JStr ''matched'')] [(''score'', selected_score (scoring_details r (cp_id p) h))]
       (scoring_details r (cp_id p) h) False 0 [] h s = Some ((h', s'), es)"
  shows "dispatch_direct env r consumer caller p h s = (Sent p, h', s', es)"
  using assms
  by (auto simp: dispatch_across_def dispatch_direct_def try_send_def send_to_provider_def end_send_def Let_def
      split: option.splits prod.splits sum.splits)

text \<open>C22: A dispatched request is billed when it completes, whatever other tasks do meanwhile: take the
  stretch of the handler that creates the response queue, starts the send, awaits it and registers the
  callback, with any operations of other requests, providers and operators during the await and after
  it. If none of them ends this request, that is, neither its completion nor its error arrives during
  the await and its response task is still there, then the first completion that names it, from
  whichever provider, invokes the callback of the dispatch exactly once, with that completion, for the
  consumer and for the provider that was sent the request, and reaches its reader; nothing billed it
  before, and nothing bills it again without a new registration.\<close>

theorem sent_request_billed:
  assumes "dispatch_across env r consumer caller p status extra scoring queued wait during h s = Some ((h1, s1), es)"
    "list_all (quiet (de_request env)) during" "list_all (quiet (de_request env)) later" "h2 = fst (hub_run later h1)"
    "map_of data ''request_id'' = Some (JStr (de_request env))" "de_request env \<noteq> ''''"
    "map_of data ''type'' = Some (JStr ''inference_done'')" "v_done v data = Some m"
  shows "\<exists>h3 qs. handle_provider_message v pid data h2 =
      (Inr (), h3, [Bill (de_request env) (callback_for env r consumer p caller queued wait) m, ScheduleDispatch pid])
    \<and> map_of (hub_queues h3) (de_request env) = Some (qs @ [Done m])
    \<and> bills (de_request env) (es @ snd (hub_run later h1)) = 0
    \<and> bills (de_request env) (snd (hub_run afterwards h3)) \<le> registrations (de_request env) afterwards"
proof -
  let ?rid = "de_request env" and ?cb = "callback_for env r consumer p caller queued wait"
  from assms(1) obtain req ha hb es1 where st: "begin_send (de_clock env 4) p req (create_response_queue ?rid h) = (Inr (), ha)"
    "hub_run during ha = (hb, es1)" "commit_match env r consumer caller p status extra scoring queued wait hb s = (h1, s1)"
    "es = es1 @ [SendRequest (cp_id p) req]"
    by (auto simp: dispatch_across_def end_send_def split: option.splits prod.splits sum.splits)
  have qa: "map_of (hub_queues ha) ?rid \<noteq> None"
    using st(1) by (auto simp: begin_send_def create_response_queue_def Let_def split: if_splits)
  from quiet_run [OF assms(2) qa] st(2) have b: "map_of (hub_queues hb) ?rid \<noteq> None" "bills ?rid es1 = 0" by simp_all
  have h1: "h1 = register_billing_callback ?rid ?cb hb" using commit_match_hub [OF st(3)] .
  then have one: "map_of (hub_callbacks h1) ?rid = Some ?cb" "map_of (hub_queues h1) ?rid \<noteq> None"
    using b(1) by (simp_all add: register_billing_callback_def)
  from quiet_run [OF assms(3) one(2)] one(1) assms(4)
  have two: "map_of (hub_callbacks h2) ?rid = Some ?cb" "map_of (hub_queues h2) ?rid \<noteq> None" "bills ?rid (snd (hub_run later h1)) = 0" by simp_all
  then obtain qs where qs: "map_of (hub_queues h2) ?rid = Some qs" by blast
  let ?h3 = "fst (snd (handle_done pid ?rid m h2))"
  have msg: "handle_provider_message v pid data h2 = (Inr (), ?h3, [Bill ?rid ?cb m, ScheduleDispatch pid])"
    using two(1) by (simp add: handle_provider_message_def assms(5-8) handle_done_def Let_def)
  have three: "map_of (hub_queues ?h3) ?rid = Some (qs @ [Done m])" "armed ?rid ?h3 = 0"
    using qs by (simp_all add: handle_done_def Let_def armed_def)
  have "bills ?rid (snd (hub_run afterwards ?h3)) \<le> registrations ?rid afterwards"
    using run_bills_from [of ?rid afterwards ?h3] three(2) by simp
  moreover have "bills ?rid (es @ snd (hub_run later h1)) = 0" using st(4) b(2) two(3) by simp
  ultimately show ?thesis using msg three(1) by blast
qed

text \<open>The exception the hypothesis names: a completion during the await finds no callback.\<close>

lemma await_completion_unbilled:
  assumes "new_request (de_request env) h" "begin_send now p req (create_response_queue (de_request env) h) = (Inr (), h1)"
    "map_of data ''request_id'' = Some (JStr (de_request env))" "de_request env \<noteq> ''''"
    "map_of data ''type'' = Some (JStr ''inference_done'')" "v_done v data = Some m"
  shows "snd (snd (handle_provider_message v pid data h1)) = [ScheduleDispatch pid]"
proof -
  have "map_of (hub_callbacks h1) (de_request env) = None"
    using assms(1,2) by (auto simp: new_request_def begin_send_def create_response_queue_def Let_def split: if_splits)
  then show ?thesis by (simp add: handle_provider_message_def assms(3-6) handle_done_def Let_def)
qed

text \<open>Another provider registers and another request begins while the send is awaited; later the provider leaves.\<close>

lemma sent_request_billed_witness:
  "\<exists>h2 h3. handle_provider_message sample_validators ''provider-9'' sample_data h2 =
    (Inr (), h3, [Bill ''r1'' (callback_for sample_env sample_chat ''c'' sample_provider None False 0) sample_done, ScheduleDispatch ''provider-9''])"
proof -
  let ?during = "[Register sample_registration ''00'' 0 0, CreateQueue ''r2'']" and ?later = "[Disconnect (provider_name 1), RemoveQueue ''r2'']"
  have id: "de_request sample_env = ''r1''" by (simp add: sample_env_def)
  have adm: "\<not> requires_app_attest sample_provider"
    by (simp add: requires_app_attest_def trust_claim_def sample_provider_def sample_caps_def)
  have "dispatch_across sample_env sample_chat ''c'' None sample_provider [] [] [] False 0 ?during sample_hub sample_services \<noteq> None"
    by (simp add: dispatch_across_def sample_request_for begin_send_def adm Let_def split: prod.split)
  then obtain h1 s1 es where d: "dispatch_across sample_env sample_chat ''c'' None sample_provider [] [] [] False 0 ?during
      sample_hub sample_services = Some ((h1, s1), es)" by auto
  have "list_all (quiet (de_request sample_env)) ?during" "list_all (quiet (de_request sample_env)) ?later"
    by (simp_all add: quiet_def id)
  from sent_request_billed [OF d this refl, of sample_data sample_validators sample_done "''provider-9''" "[]"] show ?thesis
    by (auto simp: sample_data_def sample_validators_def id)
qed

section \<open>Where a request goes\<close>

text \<open>Under the hub invariant nobody is admitted as confidential, so admission does not depend on the clock.\<close>

lemma routable_clock:
  assumes "hub_ok h" "map_of (hub_providers h) pid = Some p" shows "routable c1 p = routable c2 p"
  using assms by (auto simp: hub_ok_def providers_ok_def routable_def admitted_def)

definition routable_fit :: "dispatch_env \<Rightarrow> chat_request \<Rightarrow> bill_callback hub \<Rightarrow> string \<Rightarrow> connected_provider \<Rightarrow> bool" where
  "routable_fit env r h pid p \<longleftrightarrow> map_of (hub_providers h) pid = Some p \<and> routable (sk_admit (de_select env)) p
     \<and> (\<exists>conf. conf_map (cr_min_conf r) = Some conf \<and> fits (REQUEST_MODEL r) conf (cr_max_price r) p)"

lemma validated_level: "validate_inputs r = None \<Longrightarrow> \<exists>conf. conf_map (cr_min_conf r) = Some conf"
  by (auto simp: validate_inputs_def LEVEL_ALIASES_def conf_map_def split: if_splits)

lemma explain_None_hub:
  assumes "hub_ok h" "conf_map (cr_min_conf r) = Some conf"
  shows "explain_no_match fmt clk (REQUEST_MODEL r) (cr_min_conf r) (cr_max_price r) h = Inr None
    \<longleftrightarrow> (\<exists>pid p. routable_fit env r h pid p)"
proof -
  have "p \<in> set (map snd (hub_providers h)) \<longleftrightarrow> (\<exists>pid. map_of (hub_providers h) pid = Some p)" for p
    using hub_ok_keys [OF assms(1)] by (force simp: hub_keys_ok_def dict_ok_def dest: map_of_SomeD)
  then show ?thesis
    unfolding explain_None_iff [OF assms(2)] routable_fit_def assms(2)
    using routable_clock [OF assms(1)] by blast
qed

lemma explain_known:
  assumes "conf_map mc = Some conf" shows "explain_no_match fmt clk model mc maxp h \<noteq> Inl e"
  by (simp add: explain_no_match_def list_index_levels assms)

lemma no_slot_when_missing:
  assumes "hub_ok h" "conf_map (cr_min_conf r) = Some conf" "rnd (sk_expire (de_select env) - sk_order (de_select env)) \<le> 120"
    "\<forall>pid p. map_of (hub_providers h) pid = Some p \<longrightarrow> sane_provider p \<and> 0 \<le> rep pid \<and> rep pid \<le> 1"
    "select_provider (de_select env) rep (REQUEST_MODEL r) pref (cr_min_conf r) (cr_max_price r) sid h = (Inr None, h')"
  shows "h' = h \<and> (\<forall>pid p. routable_fit env r h pid p \<longrightarrow> \<not> has_slot p)"
proof -
  have keys: "hub_keys_ok h" using assms(1) by (rule hub_ok_keys)
  show ?thesis
    using assms(2) keys
  proof (cases rule: select_cases [where sk = "de_select env" and rep = rep and model = "REQUEST_MODEL r" and pref = pref
      and maxp = "cr_max_price r" and sid = sid])
    case (found pid)
    then show ?thesis using assms(5) by simp
  next
    case missing
    have "\<not> has_slot p" if "routable_fit env r h pid p" for pid p
      using missing_no_slot [OF keys assms(3,4) missing(3)] that by (auto simp: routable_fit_def assms(2))
    with missing(2) assms(5) show ?thesis by simp
  qed
qed

definition all_busy :: "dispatch_env \<Rightarrow> chat_request \<Rightarrow> bill_callback hub \<Rightarrow> bool" where
  "all_busy env r h \<longleftrightarrow> (\<exists>pid p. routable_fit env r h pid p) \<and> (\<forall>pid p. routable_fit env r h pid p \<longrightarrow> \<not> has_slot p)"

text \<open>C12: A validated request is never lowered, lost or queued in vain: routing cannot crash on it; a selected
  provider is connected, routable, meets every constraint and has a free slot; it is refused as having no
  compatible provider only when no routable provider meets its constraints, and waits in the queue, or is
  turned away from a full one, only when such providers exist and all of them are busy. A request is refused for its
  balance exactly when the account exists and has nothing left, before anything happens.\<close>

theorem routing_outcome:
  assumes "hub_ok h" "validate_inputs r = None" "rnd (sk_expire (de_select env) - sk_order (de_select env)) \<le> 120"
    "\<forall>pid p. map_of (hub_providers h) pid = Some p \<longrightarrow> sane_provider p
      \<and> 0 \<le> fst (get_score pid (sv_reputation s)) \<and> fst (get_score pid (sv_reputation s)) \<le> 1"
    "route_request env r consumer h s = (res, h', s')"
  shows "(res = PaymentRequired \<longleftrightarrow> (\<exists>a. get_account consumer (sv_db s) = Some a \<and> acc_balance a \<le> 0)) \<and> (case res of
      PaymentRequired \<Rightarrow> h' = h \<and> s' = s
    | RouteCrashed e \<Rightarrow> False
    | RouteSelected pid \<Rightarrow> \<exists>p. routable_fit env r h pid p \<and> has_slot p
    | RouteRaised (NoCompatibleProvider code msg) \<Rightarrow> (\<forall>pid p. \<not> routable_fit env r h pid p)
    | RouteRaised (QueueFull n) \<Rightarrow> all_busy env r h
        \<and> n = hub_max_depth h \<and> 0 < n \<and> n \<le> int (length (hub_pending h)) \<and> h' = h
    | RouteRaised e \<Rightarrow> False
    | RouteWaits p \<Rightarrow> all_busy env r h
        \<and> hub_pending h' = hub_pending h @ [p])"
proof -
  obtain conf where conf: "conf_map (cr_min_conf r) = Some conf" using validated_level [OF assms(2)] by blast
  let ?rep = "\<lambda>pid. fst (get_score pid (sv_reputation s))"
  obtain x h1 where sel: "select_provider (de_select env) ?rep (REQUEST_MODEL r) (cr_preference r) (cr_min_conf r) (cr_max_price r) (cr_session r) h = (x, h1)"
    by (metis prod.collapse)
  have known: "\<exists>y. x = Inr y" using sel by (auto simp: select_provider_def conf Let_def split: list.splits if_splits)
  show ?thesis
  proof (cases "(case get_account consumer (sv_db s) of Some a \<Rightarrow> acc_balance a \<le> 0 | None \<Rightarrow> False)")
    case True
    with assms(5) show ?thesis by (auto simp: route_request_def split: option.splits)
  next
    case solvent: False
    then have pays: "\<not> (\<exists>a. get_account consumer (sv_db s) = Some a \<and> acc_balance a \<le> 0)" by (auto split: option.splits)
    from known consider pid where "x = Inr (Some pid)" | "x = Inr None" by (metis option.exhaust)
    then show ?thesis
    proof cases
      case 1
      with select_found [OF assms(1)] sel obtain p conf' where p: "map_of (hub_providers h) pid = Some p" "conf_map (cr_min_conf r) = Some conf'"
        "routable (sk_admit (de_select env)) p" "fits (REQUEST_MODEL r) conf' (cr_max_price r) p" "has_slot p" by blast
      then have "routable_fit env r h pid p" by (auto simp: routable_fit_def)
      with p(5) 1 sel solvent pays assms(5) show ?thesis by (auto simp: route_request_def Let_def)
    next
      case 2
      have none: "h1 = h" "\<forall>pid p. routable_fit env r h pid p \<longrightarrow> \<not> has_slot p"
        using no_slot_when_missing [OF assms(1) conf assms(3,4) sel [unfolded 2]] by simp_all
      obtain y where y: "explain_no_match (de_show_float env) (de_explain env) (REQUEST_MODEL r) (cr_min_conf r) (cr_max_price r) h = Inr y"
        using explain_known [OF conf] by (metis sum.exhaust)
      note e = explain_None_hub [OF assms(1) conf, of "de_show_float env" "de_explain env", unfolded y]
      show ?thesis
      proof (cases y)
        case None
        with e none(2) have busy: "all_busy env r h" by (simp add: all_busy_def)
        from None 2 sel none y solvent assms(5)
        have "wait_in_queue env r consumer h (s\<lparr>sv_reputation := consult_reputation (sk_admit (de_select env)) h (sv_reputation s)\<rparr>) = (res, h', s')"
          by (simp add: route_request_def Let_def)
        with busy pays show ?thesis
          by (auto simp: wait_in_queue_def enqueue_request_def put_pending_def Let_def split: if_splits intro: exI)
      next
        case (Some z)
        with e have "\<forall>pid p. \<not> routable_fit env r h pid p" by simp
        with Some 2 sel none y solvent pays assms(5) show ?thesis
          by (cases z) (auto simp: route_request_def Let_def refuse_def)
      qed
    qed
  qed
qed

lemma sample_validated: "validate_inputs sample_chat = None"
  by (simp add: validate_inputs_def sample_chat_def LEVEL_ALIASES_def)

lemma sample_scores: "0 \<le> fst (get_score pid []) \<and> fst (get_score pid []) \<le> 1"
  by (simp add: get_score_def rep_get_or_create_def new_reputation_def reputation_score_def)

lemma routing_outcome_witness:
  "\<forall>e. fst (route_request sample_env sample_chat ''c'' sample_hub sample_services) \<noteq> RouteCrashed e"
proof -
  obtain res h' s' where d: "route_request sample_env sample_chat ''c'' sample_hub sample_services = (res, h', s')" by (metis prod_cases3)
  have t: "rnd (sk_expire (de_select sample_env) - sk_order (de_select sample_env)) \<le> 120"
    by (simp add: sample_env_def sample_clock_def)
  have p: "\<forall>pid p. map_of (hub_providers (sample_hub :: bill_callback hub)) pid = Some p \<longrightarrow> sane_provider p
      \<and> 0 \<le> fst (get_score pid (sv_reputation sample_services)) \<and> fst (get_score pid (sv_reputation sample_services)) \<le> 1"
    by (simp add: sample_hub_providers sample_sane sample_services_def sample_scores)
  show ?thesis using routing_outcome [OF sample_hub_ok sample_validated t p d] by (auto simp: d)
qed

section \<open>A key that is not one\<close>

text \<open>A provider that registered a malformed encryption key ends every dispatch to it with an exception, no
  retry is made, and each time a response queue stays in the hub.\<close>

theorem malformed_key_leaks_queue:
  assumes "cp_enc_key p \<noteq> ''''" "de_encrypt env (encrypt_payload r) (cp_enc_key p) = None"
  shows "dispatch_direct env r consumer caller p h s = (SendCrashed EncryptionCrash, create_response_queue (de_request env) h, s, [])"
  using assms by (simp add: dispatch_direct_def try_send_def request_for_def Let_def)

end
