(* ===== verification/ProviderSession.thy ===== *)
theory ProviderSession
  imports Settlement Registration LoadLimits Capabilities StoreRuns
begin

text \<open>
  The provider WebSocket of \<open>main.py\<close> (\<open>provider_websocket\<close>): the handshake, the admission of the first
  message, the confirmation, the message loop and the clean-up, each part between two awaits as one step on
  the coordinator's state. A system has any number of such sessions, named by numbers, next to the hub
  operations of other tasks and the store operations of other endpoints, in any interleaving. Headers have
  lower-case names; clock readings are \<open>clk 0\<close>, \<open>clk 1\<close>, ... in the order they are taken. Log lines are left out.
\<close>

section \<open>State\<close>

text \<open>\<open>Waiting\<close>: accepted, before its first message, with the token's row; \<open>Confirming\<close>: registered, while the
  confirmation is sent; \<open>Serving\<close>: in the message loop.\<close>

datatype session =
    Waiting "provider_token option" "(string, string) dict"
  | Confirming string string string register_message
  | Serving string string

datatype close_frame = CloseFrame int string

record system =
  sy_hub :: "bill_callback hub"
  sy_services :: services
  sy_guard :: registration_guard
  sy_registry :: model_registry
  sy_cache :: capability_cache
  sy_audit :: audit_log
  sy_sessions :: "(nat, session) dict"

text \<open>Configuration and the parts outside the source.\<close>

record session_env =
  se_sha :: "string \<Rightarrow> string"
  se_production :: bool
  se_url_token :: string
  se_geo :: "bool \<times> string"
  se_scan :: "string \<Rightarrow> raw_json option"
  se_validate :: "trace \<Rightarrow> register_message option"
  se_site :: hub_site
  se_coercion :: coercion
  se_digest :: "trace \<Rightarrow> string"
  se_validators :: validators
  se_decode :: "string \<Rightarrow> json option"
  se_country :: country_params

record handshake =
  hk_headers :: "(string, string) dict"
  hk_query :: "(string, string) dict"

definition set_session :: "nat \<Rightarrow> session \<Rightarrow> system \<Rightarrow> system" where
  "set_session i s sys = sys\<lparr>sy_sessions := dict_set i s (sy_sessions sys)\<rparr>"

definition drop_session :: "nat \<Rightarrow> system \<Rightarrow> system" where
  "drop_session i sys = sys\<lparr>sy_sessions := dict_pop i (sy_sessions sys)\<rparr>"

definition on_db :: "(db \<Rightarrow> db) \<Rightarrow> system \<Rightarrow> system" where
  "on_db f sys = sys\<lparr>sy_services := (sy_services sys)\<lparr>sv_db := f (sv_db (sy_services sys))\<rparr>\<rparr>"

definition on_bus :: "flt \<Rightarrow> trace \<Rightarrow> system \<Rightarrow> system" where
  "on_bus now ev sys = sys\<lparr>sy_services := (sy_services sys)\<lparr>sv_bus := publish now ev (sv_bus (sy_services sys))\<rparr>\<rparr>"

abbreviation sy_db :: "system \<Rightarrow> db" where "sy_db sys \<equiv> sv_db (sy_services sys)"

text \<open>A hub operation with its effects on the services.\<close>

definition hub_effects :: "session_env \<Rightarrow> bill_clock \<Rightarrow> bill_callback hub \<times> bill_callback hub_effect list \<Rightarrow> system \<Rightarrow> system" where
  "hub_effects env bk r sys = sys\<lparr>sy_hub := fst r, sy_services := foldl (perform (se_country env) bk) (sy_services sys) (snd r)\<rparr>"

section \<open>The handshake\<close>

definition presented_token :: "session_env \<Rightarrow> handshake \<Rightarrow> close_frame + string" where
  "presented_token env hk = (let header = dict_get (hk_headers hk) ''authorization'' ''''; query = dict_get (hk_query hk) ''token'' '''' in
     if str_lower (take 7 header) = ''bearer '' then Inr (str_strip (drop 7 header))
     else if query \<noteq> '''' then
       (if str_strip (se_url_token env) = ''0'' then Inl (CloseFrame 4003 ''Provider token in URL is disabled. Send Authorization: Bearer'')
        else Inr query)
     else Inr '''')"

text \<open>The owner of the token's node, when it has one, must exist and not be suspended.\<close>

definition owner_available :: "provider_token \<Rightarrow> flt \<Rightarrow> db \<Rightarrow> bool" where
  "owner_available info now db = (case tok_node info of
     Some (c # n) \<Rightarrow> (case get_provider_node_owner (c # n) (dflt '''' (tok_billing info)) db of
         Some w \<Rightarrow> w \<noteq> '''' \<and> get_suspension w now db = None
       | None \<Rightarrow> False)
   | _ \<Rightarrow> True)"

definition authenticate :: "session_env \<Rightarrow> handshake \<Rightarrow> flt \<Rightarrow> flt \<Rightarrow> db \<Rightarrow> (close_frame + provider_token option) \<times> db" where
  "authenticate env hk t1 t2 db = (case presented_token env hk of
     Inl c \<Rightarrow> (Inl c, db)
   | Inr token \<Rightarrow>
      (if token \<noteq> '''' then
        (case validate_provider_token (se_sha env) token t1 db of
           (Inr (Some info), db') \<Rightarrow>
             (if dict_get (hk_query hk) ''token'' '''' \<noteq> '''' \<and> tok_source info = ''self_service''
                then Inl (CloseFrame 4003 ''Self-service provider credentials require Authorization header'')
              else if \<not> owner_available info t2 db' then Inl (CloseFrame 4003 ''Provider owner unavailable'')
              else Inr (Some info), db')
         | (_, db') \<Rightarrow> (Inl (CloseFrame 4003 ''Invalid provider token''), db'))
       else if se_production env \<or> db_tokens db \<noteq> []
         then (Inl (CloseFrame 4003 ''Provider token required. Create one via POST /v1/admin/provider-tokens''), db)
       else (Inr None, db)))"

definition admit_attempt :: "provider_token option \<Rightarrow> flt \<Rightarrow> registration_guard \<Rightarrow> close_frame option \<times> registration_guard" where
  "admit_attempt info now g = (case (case info of None \<Rightarrow> (True, g) | Some t \<Rightarrow> guard_allow (tok_hash t) now g) of
     (False, g1) \<Rightarrow> (Some (CloseFrame 4008 ''Too many registration attempts''), g1)
   | (True, g1) \<Rightarrow> (case guard_begin g1 of
       (False, g2) \<Rightarrow> (Some (CloseFrame 1013 ''Too many pending registrations''), g2)
     | (True, g2) \<Rightarrow> (None, g2)))"

definition open_session :: "session_env \<Rightarrow> nat \<Rightarrow> handshake \<Rightarrow> (nat \<Rightarrow> flt) \<Rightarrow> system \<Rightarrow> system \<times> close_frame list" where
  "open_session env i hk clk sys = (case authenticate env hk (clk 0) (clk 1) (sy_db sys) of
     (Inl c, db) \<Rightarrow> (on_db (\<lambda>_. db) sys, [c])
   | (Inr info, db) \<Rightarrow> (case admit_attempt info (clk 2) (sy_guard sys) of
       (Some c, g) \<Rightarrow> (on_db (\<lambda>_. db) sys\<lparr>sy_guard := g\<rparr>, [c])
     | (None, g) \<Rightarrow> (set_session i (Waiting info (hk_headers hk)) (on_db (\<lambda>_. db) sys\<lparr>sy_guard := g\<rparr>), [])))"

section \<open>Registration\<close>

text \<open>A session that ends before its registration gives its slot back.\<close>

definition abandon :: "nat \<Rightarrow> system \<Rightarrow> system" where
  "abandon i sys = drop_session i (sys\<lparr>sy_guard := guard_finish (sy_guard sys)\<rparr>)"

definition REGISTER_TIMEOUT_SECONDS :: flt where "REGISTER_TIMEOUT_SECONDS = 10"

text \<open>The wait for the first message ends without one: after the time limit, or because the peer left.\<close>

definition no_registration :: "nat \<Rightarrow> bool \<Rightarrow> system \<Rightarrow> system \<times> close_frame list" where
  "no_registration i timeout sys = (abandon i sys, if timeout then [CloseFrame 4008 ''Registration timeout''] else [])"

definition credential_active :: "provider_token option \<Rightarrow> flt \<Rightarrow> db \<Rightarrow> bool" where
  "credential_active info now db = (case info of None \<Rightarrow> True
     | Some t \<Rightarrow> provider_credential_is_active (tok_hash t) (tok_id t) now db)"

definition billing_of :: "provider_token option \<Rightarrow> string \<Rightarrow> string" where
  "billing_of info hex = (case info of Some t \<Rightarrow> dflt '''' (tok_billing t) | None \<Rightarrow> ''provider-dev-'' @ hex)"

definition first_frame :: "session_env \<Rightarrow> nat \<Rightarrow> provider_token option \<Rightarrow> (string, string) dict \<Rightarrow> string \<Rightarrow> string \<Rightarrow> string
    \<Rightarrow> (nat \<Rightarrow> flt) \<Rightarrow> system \<Rightarrow> system \<times> close_frame list" where
  "first_frame env i info headers raw hex devhex clk sys =
     (case parse_provider_registration (se_scan env) (se_validate env) (se_production env) raw of
        None \<Rightarrow> (abandon i sys, [CloseFrame 4002 ''Invalid provider registration''])
      | Some reg \<Rightarrow>
          if \<not> credential_active info (clk 0) (sy_db sys)
          then (abandon i sys, [CloseFrame 4003 ''Provider credential no longer active''])
          else (case register_provider reg hex (clk 1) (clk 2) (sy_hub sys) of
            (pid, h) \<Rightarrow> (let billing = billing_of info devhex;
                h' = bind_connection pid (trusted_country (fst (se_geo env)) (snd (se_geo env)) headers)
                       (case info of Some t \<Rightarrow> tok_id t | None \<Rightarrow> '''') billing h
              in (set_session i (Confirming pid (''conn-'' @ hex) billing reg)
                    (sys\<lparr>sy_hub := h', sy_guard := guard_finish (sy_guard sys)\<rparr>), []))))"

section \<open>The end of a session\<close>

definition disconnect_event :: "string \<Rightarrow> string \<Rightarrow> trace" where
  "disconnect_event pid name = [(''type'', JStr ''provider_disconnect''), (''provider'', JStr name), (''provider_id'', JStr pid)]"

definition end_session :: "session_env \<Rightarrow> nat \<Rightarrow> string \<Rightarrow> string \<Rightarrow> (nat \<Rightarrow> flt) \<Rightarrow> bill_clock \<Rightarrow> system \<Rightarrow> system" where
  "end_session env i pid session clk bk sys =
     (let name = (case map_of (hub_providers (sy_hub sys)) pid of Some p \<Rightarrow> cp_name p | None \<Rightarrow> pid);
          sys1 = hub_effects env bk (snd (disconnect_provider pid (sy_hub sys))) sys;
          sys2 = on_db (\<lambda>db. snd (StoreLedger.log_provider_disconnect pid session (clk 0) db)) sys1
      in drop_session i (on_bus (clk 1) (disconnect_event pid name) sys2))"

section \<open>After the confirmation\<close>

text \<open>Verification and capabilities are recorded only while the provider is still in the hub.\<close>

definition learn_model :: "session_env \<Rightarrow> (nat \<Rightarrow> flt) \<Rightarrow> string \<Rightarrow> register_message \<Rightarrow> bool \<Rightarrow> system \<Rightarrow> system" where
  "learn_model env clk pid reg verified sys =
     (if map_of (hub_providers (sy_hub sys)) pid = None then sys
      else (case resolve_capabilities (se_site env) (se_coercion env) clk (reg_caps reg) (reg_identity reg) (sy_cache sys) of
        (r, c, _) \<Rightarrow> sys\<lparr>sy_cache := c, sy_hub := record_model pid verified (dflt [] (reg_identity reg))
            (case r of Inr caps \<Rightarrow> Some caps | Inl _ \<Rightarrow> None) (sy_hub sys)\<rparr>))"

definition connect_event :: "string \<Rightarrow> register_message \<Rightarrow> trace" where
  "connect_event pid reg = [(''type'', JStr ''provider_connect''), (''provider'', JStr (reg_name reg)), (''provider_id'', JStr pid),
     (''models'', JList (map JStr (pc_models (reg_caps reg)))), (''trust_level'', JStr (trust_value (pc_trust (reg_caps reg))))]"

definition log_connection :: "string \<Rightarrow> string \<Rightarrow> string \<Rightarrow> register_message \<Rightarrow> flt \<Rightarrow> flt \<Rightarrow> db \<Rightarrow> db" where
  "log_connection pid session billing reg t1 t2 db = (let c = reg_caps reg in
     snd (StoreLedger.log_provider_connect pid (reg_name reg) (pc_hardware c) (trust_value (pc_trust c)) (pc_price_out c) (pc_tps c)
       billing session t2 (snd (get_or_create_account billing (reg_name reg) t1 db))))"

definition confirmed :: "session_env \<Rightarrow> nat \<Rightarrow> string \<Rightarrow> string \<Rightarrow> string \<Rightarrow> register_message \<Rightarrow> bool \<Rightarrow> (nat \<Rightarrow> flt) \<Rightarrow> bill_clock
    \<Rightarrow> system \<Rightarrow> system" where
  "confirmed env i pid session billing reg sent clk bk sys = (
     if \<not> sent then end_session env i pid session clk bk sys
     else (case verify_model_hash (se_site env) reg (sy_registry sys) of
        (None, g) \<Rightarrow> end_session env i pid session clk bk (sys\<lparr>sy_registry := g\<rparr>)
      | (Some ok, g) \<Rightarrow>
          (let sys1 = learn_model env (\<lambda>n. clk (n + 2)) pid reg ok (sys\<lparr>sy_registry := g\<rparr>);
               sys2 = on_bus (clk 8) (connect_event pid reg) (on_db (log_connection pid session billing reg (clk 6) (clk 7)) sys1)
           in set_session i (Serving pid session) sys2)))"

section \<open>Messages\<close>

definition WS_MAX_MESSAGE_SIZE :: nat where "WS_MAX_MESSAGE_SIZE = 1000000"

definition attestation_event_of :: "string \<Rightarrow> connected_provider \<Rightarrow> trace" where
  "attestation_event_of pid p = [(''type'', JStr ''attestation''), (''provider'', JStr (cp_name p)), (''provider_id'', JStr pid),
     (''status'', JStr (cp_att_status p))]"

definition audit_attestation :: "string \<Rightarrow> connected_provider \<Rightarrow> attestation_response \<Rightarrow> attestation_event" where
  "audit_attestation pid p r = \<lparr>ae_provider = pid, ae_name = cp_name p, ae_status = cp_att_status p, ae_sip = ar_sip r,
     ae_hardened = ar_hardened r, ae_deny_attach = ar_deny_attach r, ae_agent = ar_agent_hash r, ae_server = ar_server_hash r,
     ae_platform = ar_platform r\<rparr>"

text \<open>Whether the loop goes on, and the state after one message.\<close>

definition attested :: "session_env \<Rightarrow> string \<Rightarrow> trace \<Rightarrow> (nat \<Rightarrow> flt) \<Rightarrow> system \<Rightarrow> bool \<times> system" where
  "attested env pid d clk sys = (case handle_attestation_response (se_validators env) pid d (clk 2) (sy_hub sys) of
     (Inl _, h) \<Rightarrow> (False, sys\<lparr>sy_hub := h\<rparr>)
   | (Inr _, h) \<Rightarrow> (case (map_of (hub_providers h) pid, v_attestation (se_validators env) d) of
       (Some p, Some r) \<Rightarrow> (True, on_bus (clk 3) (attestation_event_of pid p) (sys\<lparr>sy_hub := h,
          sy_audit := log_attestation (se_digest env) (clk 4) (audit_attestation pid p r) (sy_audit sys)\<rparr>))
     | _ \<Rightarrow> (True, sys\<lparr>sy_hub := h\<rparr>)))"

definition message_type :: "trace \<Rightarrow> message_type \<Rightarrow> bool" where
  "message_type d t = (map_of d ''type'' = Some (JStr (type_value t)))"

definition provider_frame :: "session_env \<Rightarrow> string \<Rightarrow> string \<Rightarrow> (nat \<Rightarrow> flt) \<Rightarrow> bill_clock \<Rightarrow> system \<Rightarrow> bool \<times> system" where
  "provider_frame env pid raw clk bk sys = (
     if WS_MAX_MESSAGE_SIZE < length raw then (True, sys)
     else (case se_decode env raw of
       Some (JObj d) \<Rightarrow>
         if message_type d HEARTBEAT then
           (case v_heartbeat (se_validators env) d of
              None \<Rightarrow> (False, sys)
            | Some m \<Rightarrow> (True, sys\<lparr>sy_hub := handle_heartbeat pid m (clk 2) (sy_hub sys)\<rparr>))
         else if message_type d ATTESTATION_RESPONSE then attested env pid d clk sys
         else if message_type d INFERENCE_RESPONSE \<or> message_type d INFERENCE_DONE \<or> message_type d INFERENCE_ERROR then
           (case handle_provider_message (se_validators env) pid d (sy_hub sys) of
              (r, he) \<Rightarrow> (case r of Inl _ \<Rightarrow> False | Inr _ \<Rightarrow> True, hub_effects env bk he sys))
         else (True, sys)
     | _ \<Rightarrow> (False, sys)))"

definition frame :: "session_env \<Rightarrow> nat \<Rightarrow> string \<Rightarrow> string \<Rightarrow> string \<Rightarrow> (nat \<Rightarrow> flt) \<Rightarrow> bill_clock \<Rightarrow> system \<Rightarrow> system" where
  "frame env i pid session raw clk bk sys = (case provider_frame env pid raw clk bk sys of
     (go_on, sys') \<Rightarrow> if go_on then sys' else end_session env i pid session clk bk sys')"

section \<open>The system\<close>

datatype sys_op =
    Open nat handshake "nat \<Rightarrow> flt"
  | FirstFrame nat string string string "nat \<Rightarrow> flt"
  | NoRegistration nat bool
  | Confirm nat bool "nat \<Rightarrow> flt" bill_clock
  | Frame nat string "nat \<Rightarrow> flt" bill_clock
  | Leave nat "nat \<Rightarrow> flt" bill_clock
  | HubOp "bill_callback hub_op" bill_clock
  | StoreOp store_op

text \<open>Each operation applies to a session in the phase that waits for it; a new session takes a new number.\<close>

fun sys_step :: "session_env \<Rightarrow> sys_op \<Rightarrow> system \<Rightarrow> system \<times> close_frame list" where
  "sys_step env (Open i hk clk) sys =
     (if map_of (sy_sessions sys) i = None then open_session env i hk clk sys else (sys, []))"
| "sys_step env (FirstFrame i raw hex devhex clk) sys = (case map_of (sy_sessions sys) i of
     Some (Waiting info headers) \<Rightarrow> first_frame env i info headers raw hex devhex clk sys | _ \<Rightarrow> (sys, []))"
| "sys_step env (NoRegistration i timeout) sys = (case map_of (sy_sessions sys) i of
     Some (Waiting _ _) \<Rightarrow> no_registration i timeout sys | _ \<Rightarrow> (sys, []))"
| "sys_step env (Confirm i sent clk bk) sys = (case map_of (sy_sessions sys) i of
     Some (Confirming pid session billing reg) \<Rightarrow> (confirmed env i pid session billing reg sent clk bk sys, []) | _ \<Rightarrow> (sys, []))"
| "sys_step env (Frame i raw clk bk) sys = (case map_of (sy_sessions sys) i of
     Some (Serving pid session) \<Rightarrow> (frame env i pid session raw clk bk sys, []) | _ \<Rightarrow> (sys, []))"
| "sys_step env (Leave i clk bk) sys = (case map_of (sy_sessions sys) i of
     Some (Serving pid session) \<Rightarrow> (end_session env i pid session clk bk sys, []) | _ \<Rightarrow> (sys, []))"
| "sys_step env (HubOp x bk) sys = (hub_effects env bk (hub_step x (sy_hub sys)) sys, [])"
| "sys_step env (StoreOp x) sys = (on_db (store_step (se_sha env) x) sys, [])"

definition sys_run :: "session_env \<Rightarrow> sys_op list \<Rightarrow> system \<Rightarrow> system" where
  "sys_run env xs sys = foldl (\<lambda>s x. fst (sys_step env x s)) sys xs"

definition new_system :: "int \<Rightarrow> services \<Rightarrow> trace list \<Rightarrow> system" where
  "new_system depth sv file = \<lparr>sy_hub = new_hub depth, sy_services = sv, sy_guard = new_guard, sy_registry = new_registry,
     sy_cache = new_cache, sy_audit = open_audit file, sy_sessions = []\<rparr>"

end
