(* ===== verification/SessionLaws.thy ===== *)
theory SessionLaws
  imports ProviderSession SettlementLaws RegistrationLaws
begin

text \<open>
  What the provider sessions promise in any interleaving: the registration slots are exactly the sessions
  that wait, every connected provider belongs to one session and leaves the hub with it, a provider earns
  for the credential it presented and only while that was active, and every step is a sequence of store
  operations on the database.
\<close>

section \<open>Hub operations of other tasks\<close>

text \<open>Only the WebSocket endpoint registers a provider, binds its account and records its model.\<close>

definition foreign :: "'cb hub_op \<Rightarrow> bool" where
  "foreign x \<longleftrightarrow> (case x of Register _ _ _ _ \<Rightarrow> False | BindConnection _ _ _ _ \<Rightarrow> False | RecordModel _ _ _ _ \<Rightarrow> False | _ \<Rightarrow> True)"

definition same_binding :: "connected_provider \<Rightarrow> connected_provider \<Rightarrow> bool" where
  "same_binding p q \<longleftrightarrow> cp_id q = cp_id p \<and> cp_token q = cp_token p \<and> cp_billing q = cp_billing p \<and> cp_session q = cp_session p"

text \<open>The providers after are among those before, with the same id, credential, account and session.\<close>

definition inherits :: "'cb hub \<Rightarrow> 'cb hub \<Rightarrow> bool" where
  "inherits h h' \<longleftrightarrow> hub_next h' = hub_next h \<and> (\<forall>pid q. map_of (hub_providers h') pid = Some q \<longrightarrow>
     (\<exists>p. map_of (hub_providers h) pid = Some p \<and> same_binding p q))"

named_theorems hub_inherits \<open>operations that leave the bindings of the providers alone\<close>

lemma same_binding_refl [simp]: "same_binding p p"
  by (simp add: same_binding_def)

lemma inherits_same [hub_inherits]: "hub_providers h' = hub_providers h \<Longrightarrow> hub_next h' = hub_next h \<Longrightarrow> inherits h h'"
  by (simp add: inherits_def)

lemma same_binding_trans: "same_binding p q \<Longrightarrow> same_binding q r \<Longrightarrow> same_binding p r"
  by (simp add: same_binding_def)

lemma inherits_trans [trans]: "inherits h h1 \<Longrightarrow> inherits h1 h2 \<Longrightarrow> inherits h h2"
  unfolding inherits_def by (metis same_binding_trans)

lemma inherits_update: "(\<And>p. same_binding p (f p)) \<Longrightarrow> inherits h (update_provider pid f h)"
  by (auto simp: inherits_def)

lemma inherits_pop: "hub_next h' = hub_next h \<Longrightarrow> hub_providers h' = dict_pop pid (hub_providers h) \<Longrightarrow> inherits h h'"
  by (simp add: inherits_def)

lemma binding_frame [simp]: "same_binding p (bump_active p)" "same_binding p (drop_active p)" "same_binding p (judge_attestation r now p)"
  "same_binding p (time_out now limit p)"
  by (simp_all add: same_binding_def bump_active_def drop_active_def judge_attestation_def degrade_def time_out_def Let_def)

lemma handle_heartbeat_inherits [hub_inherits]: "inherits h (handle_heartbeat pid msg now h)"
  unfolding handle_heartbeat_def by (rule inherits_update) (simp add: same_binding_def)

lemma record_model_inherits [hub_inherits]: "inherits h (record_model pid ok ident caps h)"
  unfolding record_model_def by (rule inherits_update) (simp add: same_binding_def)

lemma set_quarantine_inherits [hub_inherits]: "inherits h (snd (set_quarantine pid on reason h))"
  by (auto simp: set_quarantine_def same_binding_def intro!: inherits_update inherits_same)

lemma send_challenge_inherits [hub_inherits]: "inherits h (fst (send_attestation_challenge pid nonce t1 t2 h))"
  by (auto simp: send_attestation_challenge_def same_binding_def intro!: inherits_update inherits_same split: option.split)

lemma attestation_inherits [hub_inherits]: "inherits h (snd (handle_attestation_response v pid data now h))"
  by (auto simp: handle_attestation_response_def intro!: inherits_update inherits_same split: option.split)

lemma timeouts_inherit [hub_inherits]: "inherits h (check_attestation_timeouts now limit h)"
proof -
  have m: "map_of (map (\<lambda>(pid, p). (pid, time_out now limit p)) d) q = map_option (time_out now limit) (map_of d q)" for d q
    by (induction d) auto
  show ?thesis by (auto simp: inherits_def check_attestation_timeouts_def m)
qed

lemma disconnect_inherits [hub_inherits]: "inherits h (fst (snd (disconnect_provider pid h)))"
  by (cases "map_of (hub_providers h) pid") (simp_all add: disconnect_provider_def Let_def inherits_same inherits_pop)

lemma force_disconnect_inherits [hub_inherits]: "inherits h (fst (snd (force_disconnect pid reason h)))"
  using disconnect_inherits [of h pid]
  by (cases "map_of (hub_providers h) pid") (auto simp: force_disconnect_def inherits_same split: prod.split)

lemma begin_send_inherits [hub_inherits]: "inherits h (snd (begin_send now p req h))"
  by (auto simp: begin_send_def Let_def inherits_def same_binding_def bump_active_def)

lemma end_send_inherits [hub_inherits]: "inherits h (fst (snd (end_send ok p req h)))"
  by (auto simp: end_send_def Let_def inherits_def same_binding_def drop_active_def)

lemma select_inherits [hub_inherits]: "inherits h (snd (select_provider sk rep model pref mc maxp sid h))"
  using select_provider_frame [OF prod.collapse [symmetric], of sk rep model pref mc maxp sid h] by (intro inherits_same) auto

lemma enqueue_inherits [hub_inherits]: "inherits h (snd (enqueue_request req model pref mc maxp sid now h))"
  by (auto simp: enqueue_request_def Let_def put_pending_def intro!: inherits_same)

lemma clear_inherits [hub_inherits]: "inherits h (fst (snd (clear_queue h)))"
  by (simp add: clear_queue_def inherits_same)

lemma dispatch_items_inherits: "inherits h (fst (snd (dispatch_items clk ps d h)))"
proof (induction ps arbitrary: d h)
  case (Cons p ps)
  obtain r1 h1 where s: "select_for clk p h = (r1, h1)" by force
  obtain r2 h2 where p: "put_pending p h = (r2, h2)" by force
  obtain r3 h3 where q: "put_pending p h1 = (r3, h3)" by force
  have one: "inherits h h1" using select_provider_frame [OF s [unfolded select_for_def]] by (intro inherits_same) simp_all
  have two: "inherits h h2" "inherits h1 h3" using put_pending_frame [OF p] put_pending_frame [OF q] by (auto intro!: inherits_same)
  note three = inherits_trans [OF one two(2)]
  show ?case
    using one two(1) three inherits_trans [OF one Cons.IH [of h1 True]] inherits_trans [OF two(1) Cons.IH [of h2 True]]
      inherits_trans [OF three Cons.IH [of h3 False]]
    by (auto simp: s p q split: prod.split sum.split option.split)
qed (simp add: inherits_same)

lemma try_dispatch_inherits [hub_inherits]: "inherits h (fst (snd (try_dispatch_queued clk h)))"
  using dispatch_items_inherits [of "h\<lparr>hub_pending := []\<rparr>" clk "hub_pending h" False]
  by (auto simp: try_dispatch_queued_def inherits_def)

lemma message_inherits [hub_inherits]: "inherits h (fst (snd (handle_provider_message v pid data h)))"
  by (auto simp: handle_provider_message_def handle_other_def handle_done_def handle_error_def Let_def inherits_def same_binding_def drop_active_def
      split: option.split json.split)

lemma queue_inherits [hub_inherits]: "inherits h (create_response_queue rid h)" "inherits h (remove_response_queue rid h)"
  "inherits h (take_message rid h)" "inherits h (register_billing_callback rid cb h)"
  by (auto simp: create_response_queue_def remove_response_queue_def take_message_def register_billing_callback_def
      intro!: inherits_same split: option.split list.split)

lemma hub_step_inherits: "foreign x \<Longrightarrow> inherits h (fst (hub_step x h))"
  by (cases x) (simp_all add: foreign_def hub_inherits split: option.split)

section \<open>The shape of a step\<close>

lemma system_frame [simp]:
  "sy_hub (set_session i s sys) = sy_hub sys" "sy_services (set_session i s sys) = sy_services sys" "sy_guard (set_session i s sys) = sy_guard sys"
  "sy_sessions (set_session i s sys) = dict_set i s (sy_sessions sys)"
  "sy_hub (drop_session i sys) = sy_hub sys" "sy_services (drop_session i sys) = sy_services sys" "sy_guard (drop_session i sys) = sy_guard sys"
  "sy_sessions (drop_session i sys) = dict_pop i (sy_sessions sys)"
  "sy_hub (on_db f sys) = sy_hub sys" "sy_guard (on_db f sys) = sy_guard sys" "sy_sessions (on_db f sys) = sy_sessions sys" "sy_db (on_db f sys) = f (sy_db sys)"
  "sy_hub (on_bus t ev sys) = sy_hub sys" "sy_guard (on_bus t ev sys) = sy_guard sys" "sy_sessions (on_bus t ev sys) = sy_sessions sys" "sy_db (on_bus t ev sys) = sy_db sys"
  "sy_hub (hub_effects env bk r sys) = fst r" "sy_guard (hub_effects env bk r sys) = sy_guard sys" "sy_sessions (hub_effects env bk r sys) = sy_sessions sys"
  by (simp_all add: set_session_def drop_session_def on_db_def on_bus_def hub_effects_def)

text \<open>The session's provider, once it has one.\<close>

fun session_pid :: "session \<Rightarrow> string option" where
  "session_pid (Waiting _ _) = None"
| "session_pid (Confirming pid _ _ _) = Some pid"
| "session_pid (Serving pid _) = Some pid"

lemma learn_model_frame [simp]: "sy_guard (learn_model env clk pid reg ok sys) = sy_guard sys"
  "sy_sessions (learn_model env clk pid reg ok sys) = sy_sessions sys" "sy_services (learn_model env clk pid reg ok sys) = sy_services sys"
  by (auto simp: learn_model_def split: prod.split)

lemma learn_model_inherits: "inherits (sy_hub sys) (sy_hub (learn_model env clk pid reg ok sys))"
  by (auto simp: learn_model_def intro: hub_inherits split: prod.split)

lemma provider_frame_frame:
  assumes "provider_frame env pid raw clk bk sys = (go, sys')"
  shows "sy_guard sys' = sy_guard sys" "sy_sessions sys' = sy_sessions sys" "inherits (sy_hub sys) (sy_hub sys')"
proof -
  have at: "sy_guard s' = sy_guard sys \<and> sy_sessions s' = sy_sessions sys \<and> inherits (sy_hub sys) (sy_hub s')"
    if "attested env pid d clk sys = (g, s')" for d g s'
    using that attestation_inherits [of "sy_hub sys" "se_validators env" pid d "clk 2"]
    by (auto simp: attested_def split: prod.splits sum.splits option.splits)
  have he: "inherits (sy_hub sys) (fst he)" if "handle_provider_message (se_validators env) pid d (sy_hub sys) = (r, he)" for d r he
    using message_inherits [of "sy_hub sys" "se_validators env" pid d] that by simp
  have "sy_guard sys' = sy_guard sys \<and> sy_sessions sys' = sy_sessions sys \<and> inherits (sy_hub sys) (sy_hub sys')"
    using assms at he
    by (auto simp: provider_frame_def intro: hub_inherits split: if_splits option.splits json.splits prod.splits)
  then show "sy_guard sys' = sy_guard sys" "sy_sessions sys' = sy_sessions sys" "inherits (sy_hub sys) (sy_hub sys')" by blast+
qed

lemma end_session_frame:
  "sy_guard (end_session env i pid session clk bk sys) = sy_guard sys"
  "sy_sessions (end_session env i pid session clk bk sys) = dict_pop i (sy_sessions sys)"
  "sy_hub (end_session env i pid session clk bk sys) = fst (snd (disconnect_provider pid (sy_hub sys)))"
  by (simp_all add: end_session_def Let_def)

lemma disconnect_gone: "map_of (hub_providers (fst (snd (disconnect_provider pid h)))) pid = None"
  by (cases "map_of (hub_providers h) pid") (simp_all add: disconnect_provider_def Let_def)

text \<open>A step opens a session, closes a waiting one, registers its provider, confirms it, ends it, or leaves
  the sessions alone.\<close>

datatype step_kind =
    Opened nat "provider_token option" "(string, string) dict"
  | Closed nat
  | Registered nat "provider_token option" "(string, string) dict" register_message string string "nat \<Rightarrow> flt"
  | Confirmed nat string string
  | Ended nat string
  | Quiet

definition registered_hub :: "session_env \<Rightarrow> provider_token option \<Rightarrow> (string, string) dict \<Rightarrow> register_message \<Rightarrow> string \<Rightarrow> string
    \<Rightarrow> (nat \<Rightarrow> flt) \<Rightarrow> bill_callback hub \<Rightarrow> bill_callback hub" where
  "registered_hub env info headers reg hex devhex clk h = bind_connection (provider_name (Suc (hub_next h)))
     (trusted_country (fst (se_geo env)) (snd (se_geo env)) headers) (case info of Some t \<Rightarrow> tok_id t | None \<Rightarrow> '''')
     (billing_of info devhex) (snd (register_provider reg hex (clk 1) (clk 2) h))"

fun step_is :: "session_env \<Rightarrow> step_kind \<Rightarrow> system \<Rightarrow> system \<Rightarrow> bool" where
  "step_is env (Opened i info headers) sys sys' \<longleftrightarrow> map_of (sy_sessions sys) i = None
     \<and> sy_sessions sys' = dict_set i (Waiting info headers) (sy_sessions sys) \<and> sy_hub sys' = sy_hub sys
     \<and> rg_pending (sy_guard sys) < MAX_INCOMPLETE \<and> rg_pending (sy_guard sys') = Suc (rg_pending (sy_guard sys))
     \<and> (case info of None \<Rightarrow> \<not> se_production env \<and> db_tokens (sy_db sys) = []
        | Some t \<Rightarrow> t \<in> set (db_tokens (sy_db sys)) \<and> tok_revoked t = None)"
| "step_is env (Closed i) sys sys' \<longleftrightarrow> (\<exists>info headers. map_of (sy_sessions sys) i = Some (Waiting info headers))
     \<and> sy_sessions sys' = dict_pop i (sy_sessions sys) \<and> sy_hub sys' = sy_hub sys \<and> sy_guard sys' = guard_finish (sy_guard sys)"
| "step_is env (Registered i info headers reg hex devhex clk) sys sys' \<longleftrightarrow> map_of (sy_sessions sys) i = Some (Waiting info headers)
     \<and> (\<exists>raw. parse_provider_registration (se_scan env) (se_validate env) (se_production env) raw = Some reg)
     \<and> credential_active info (clk 0) (sy_db sys)
     \<and> sy_sessions sys' = dict_set i (Confirming (provider_name (Suc (hub_next (sy_hub sys)))) (''conn-'' @ hex) (billing_of info devhex) reg) (sy_sessions sys)
     \<and> sy_hub sys' = registered_hub env info headers reg hex devhex clk (sy_hub sys) \<and> sy_guard sys' = guard_finish (sy_guard sys)"
| "step_is env (Confirmed i pid session) sys sys' \<longleftrightarrow> (\<exists>billing reg. map_of (sy_sessions sys) i = Some (Confirming pid session billing reg))
     \<and> sy_sessions sys' = dict_set i (Serving pid session) (sy_sessions sys) \<and> inherits (sy_hub sys) (sy_hub sys') \<and> sy_guard sys' = sy_guard sys"
| "step_is env (Ended i pid) sys sys' \<longleftrightarrow> (\<exists>s. map_of (sy_sessions sys) i = Some s \<and> session_pid s = Some pid)
     \<and> sy_sessions sys' = dict_pop i (sy_sessions sys) \<and> inherits (sy_hub sys) (sy_hub sys')
     \<and> map_of (hub_providers (sy_hub sys')) pid = None \<and> sy_guard sys' = sy_guard sys"
| "step_is env Quiet sys sys' \<longleftrightarrow> sy_sessions sys' = sy_sessions sys \<and> inherits (sy_hub sys) (sy_hub sys')
     \<and> rg_pending (sy_guard sys') = rg_pending (sy_guard sys)"

definition foreign_op :: "sys_op \<Rightarrow> bool" where
  "foreign_op x \<longleftrightarrow> (case x of HubOp y _ \<Rightarrow> foreign y | _ \<Rightarrow> True)"

lemma guard_allow_pending: "guard_allow tok now g = (ok, g') \<Longrightarrow> rg_pending g' = rg_pending g"
  by (auto simp: guard_allow_def Let_def split: if_splits)

lemma authenticate_info:
  assumes "authenticate env hk t1 t2 db = (Inr info, db')"
  shows "case info of None \<Rightarrow> \<not> se_production env \<and> db_tokens db = [] | Some t \<Rightarrow> t \<in> set (db_tokens db) \<and> tok_revoked t = None"
proof (cases info)
  case None
  with assms show ?thesis by (auto simp: authenticate_def split: sum.splits if_splits option.splits prod.splits)
next
  case (Some t)
  with assms obtain token where "validate_provider_token (se_sha env) token t1 db = (Inr (Some t), db')"
    by (auto simp: authenticate_def split: sum.splits if_splits option.splits prod.splits)
  then have "live_token (se_sha env token) db = Some t"
    by (auto simp: validate_provider_token_def serialized_write_def split: if_splits option.splits)
  from find_Some_in [OF this [unfolded live_token_def]] show ?thesis by (simp add: Some)
qed

lemma admit_attempt_pending:
  "admit_attempt info now g = (c, g') \<Longrightarrow> (case c of Some _ \<Rightarrow> rg_pending g' = rg_pending g
     | None \<Rightarrow> rg_pending g < MAX_INCOMPLETE \<and> rg_pending g' = Suc (rg_pending g))"
  by (cases info) (auto simp: admit_attempt_def guard_begin_def split: prod.splits bool.splits if_splits dest!: guard_allow_pending)

lemma open_session_shape:
  assumes "map_of (sy_sessions sys) i = None"
  shows "\<exists>k. step_is env k sys (fst (open_session env i hk clk sys))"
proof -
  obtain r db where a: "authenticate env hk (clk 0) (clk 1) (sy_db sys) = (r, db)" by force
  show ?thesis
  proof (cases r)
    case (Inl c)
    then have "step_is env Quiet sys (fst (open_session env i hk clk sys))" by (simp add: open_session_def a inherits_same del: One_nat_def)
    then show ?thesis by blast
  next
    case (Inr info)
    obtain c g where ad: "admit_attempt info (clk 2) (sy_guard sys) = (c, g)" by force
    note p = admit_attempt_pending [OF ad]
    show ?thesis
    proof (cases c)
      case None
      then have "step_is env (Opened i info (hk_headers hk)) sys (fst (open_session env i hk clk sys))"
        using p assms authenticate_info [OF a [unfolded Inr]] by (simp add: open_session_def a Inr ad del: One_nat_def)
      then show ?thesis by blast
    next
      case (Some f)
      then have "step_is env Quiet sys (fst (open_session env i hk clk sys))" using p by (simp add: open_session_def a Inr ad inherits_same del: One_nat_def)
      then show ?thesis by blast
    qed
  qed
qed

lemma first_frame_shape:
  assumes "map_of (sy_sessions sys) i = Some (Waiting info headers)"
  shows "\<exists>k. step_is env k sys (fst (first_frame env i info headers raw hex devhex clk sys))"
proof (cases "parse_provider_registration (se_scan env) (se_validate env) (se_production env) raw")
  case None
  then have "step_is env (Closed i) sys (fst (first_frame env i info headers raw hex devhex clk sys))"
    using assms by (simp add: first_frame_def abandon_def)
  then show ?thesis by blast
next
  case (Some reg)
  show ?thesis
  proof (cases "credential_active info (clk 0) (sy_db sys)")
    case True
    then have "step_is env (Registered i info headers reg hex devhex clk) sys (fst (first_frame env i info headers raw hex devhex clk sys))"
      using assms Some by (auto simp: first_frame_def registered_hub_def register_provider_def Let_def)
    then show ?thesis by blast
  next
    case False
    then have "step_is env (Closed i) sys (fst (first_frame env i info headers raw hex devhex clk sys))"
      using assms Some by (simp add: first_frame_def abandon_def)
    then show ?thesis by blast
  qed
qed

lemma end_session_shape:
  assumes "map_of (sy_sessions sys) i = Some s" "session_pid s = Some pid" "sy_sessions sys1 = sy_sessions sys" "sy_guard sys1 = sy_guard sys"
    "inherits (sy_hub sys) (sy_hub sys1)"
  shows "step_is env (Ended i pid) sys (end_session env i pid session clk bk sys1)"
  using assms inherits_trans [OF assms(5) disconnect_inherits] by (auto simp: end_session_frame disconnect_gone)

lemma confirmed_shape:
  assumes "map_of (sy_sessions sys) i = Some (Confirming pid session billing reg)"
  shows "\<exists>k. step_is env k sys (confirmed env i pid session billing reg sent clk bk sys)"
proof (cases "sent \<and> fst (verify_model_hash (se_site env) reg (sy_registry sys)) \<noteq> None")
  case True
  then obtain ok g where v: "verify_model_hash (se_site env) reg (sy_registry sys) = (Some ok, g)" by (cases "verify_model_hash (se_site env) reg (sy_registry sys)") auto
  have "step_is env (Confirmed i pid session) sys (confirmed env i pid session billing reg sent clk bk sys)"
    using True assms learn_model_inherits [of "sys\<lparr>sy_registry := g\<rparr>" env "\<lambda>n. clk (n + 2)" pid reg ok] by (simp add: confirmed_def v Let_def)
  then show ?thesis by blast
next
  case False
  obtain sys1 where "confirmed env i pid session billing reg sent clk bk sys = end_session env i pid session clk bk sys1"
    "sy_sessions sys1 = sy_sessions sys" "sy_guard sys1 = sy_guard sys" "sy_hub sys1 = sy_hub sys"
  proof (cases sent)
    case True
    with False obtain g where v: "verify_model_hash (se_site env) reg (sy_registry sys) = (None, g)" by (cases "verify_model_hash (se_site env) reg (sy_registry sys)") auto
    show ?thesis by (rule that [of "sys\<lparr>sy_registry := g\<rparr>"]) (simp_all add: confirmed_def True v)
  next
    case no: False
    show ?thesis by (rule that [of sys]) (simp_all add: confirmed_def no)
  qed
  with end_session_shape [OF assms, of pid sys1 env session clk bk]
  have "step_is env (Ended i pid) sys (confirmed env i pid session billing reg sent clk bk sys)"
    by (simp add: inherits_same del: step_is.simps)
  then show ?thesis by blast
qed

lemma frame_shape:
  assumes "map_of (sy_sessions sys) i = Some (Serving pid session)"
  shows "\<exists>k. step_is env k sys (frame env i pid session raw clk bk sys)"
proof -
  obtain go sys1 where f: "provider_frame env pid raw clk bk sys = (go, sys1)" by force
  note fr = provider_frame_frame [OF f]
  show ?thesis
  proof (cases go)
    case True
    then have "step_is env Quiet sys (frame env i pid session raw clk bk sys)" using fr by (simp add: frame_def f)
    then show ?thesis by blast
  next
    case False
    have "step_is env (Ended i pid) sys (frame env i pid session raw clk bk sys)"
      using end_session_shape [OF assms _ fr(2,1,3), of pid env session clk bk] by (simp add: frame_def f False)
    then show ?thesis by blast
  qed
qed

lemma quiet_step: "\<exists>k. step_is env k sys sys"
  by (rule exI [of _ Quiet]) (simp add: inherits_same)

lemma sys_step_shape:
  assumes "foreign_op x"
  shows "\<exists>k. step_is env k sys (fst (sys_step env x sys))"
proof (cases x)
  case (Open i hk clk)
  then show ?thesis using open_session_shape quiet_step by simp
next
  case (FirstFrame i raw hex devhex clk)
  show ?thesis
  proof (cases "map_of (sy_sessions sys) i")
    case (Some s)
    then show ?thesis using FirstFrame first_frame_shape quiet_step by (cases s) simp_all
  qed (use FirstFrame quiet_step in simp)
next
  case (NoRegistration i timeout)
  show ?thesis
  proof (cases "map_of (sy_sessions sys) i")
    case (Some s)
    show ?thesis
    proof (cases s)
      case (Waiting info headers)
      then have "step_is env (Closed i) sys (fst (sys_step env x sys))" by (simp add: NoRegistration Some no_registration_def abandon_def)
      then show ?thesis by blast
    qed (use NoRegistration Some quiet_step in simp_all)
  qed (use NoRegistration quiet_step in simp)
next
  case (Confirm i sent clk bk)
  show ?thesis
  proof (cases "map_of (sy_sessions sys) i")
    case (Some s)
    then show ?thesis using Confirm confirmed_shape quiet_step by (cases s) simp_all
  qed (use Confirm quiet_step in simp)
next
  case (Frame i raw clk bk)
  show ?thesis
  proof (cases "map_of (sy_sessions sys) i")
    case (Some s)
    then show ?thesis using Frame frame_shape quiet_step by (cases s) simp_all
  qed (use Frame quiet_step in simp)
next
  case (Leave i clk bk)
  show ?thesis
  proof (cases "map_of (sy_sessions sys) i")
    case (Some s)
    show ?thesis
    proof (cases s)
      case (Serving pid session)
      have "step_is env (Ended i pid) sys (end_session env i pid session clk bk sys)"
        by (rule end_session_shape [OF Some _ refl refl inherits_same [OF refl refl]]) (simp add: Serving)
      then show ?thesis by (auto simp: Leave Some Serving simp del: step_is.simps)
    qed (use Leave Some quiet_step in simp_all)
  qed (use Leave quiet_step in simp)
next
  case (HubOp y bk)
  then have "step_is env Quiet sys (fst (sys_step env x sys))" using assms by (simp add: hub_step_inherits foreign_op_def)
  then show ?thesis by blast
next
  case (StoreOp y)
  then have "step_is env Quiet sys (fst (sys_step env x sys))" by (simp add: inherits_same)
  then show ?thesis by blast
qed

section \<open>Slots and owners\<close>

definition waiting :: "system \<Rightarrow> nat set" where
  "waiting sys = {i. \<exists>info headers. map_of (sy_sessions sys) i = Some (Waiting info headers)}"

lemma waiting_finite: "finite (waiting sys)"
proof (rule finite_subset)
  show "waiting sys \<subseteq> dom (map_of (sy_sessions sys))" by (auto simp: waiting_def)
qed (rule finite_dom_map_of)

definition slots_counted :: "system \<Rightarrow> bool" where
  "slots_counted sys \<longleftrightarrow> rg_pending (sy_guard sys) = card (waiting sys) \<and> rg_pending (sy_guard sys) \<le> MAX_INCOMPLETE"

lemma waiting_changes:
  "sy_sessions sys' = dict_set i (Waiting info headers) (sy_sessions sys) \<Longrightarrow> waiting sys' = insert i (waiting sys)"
  "sy_sessions sys' = dict_pop i (sy_sessions sys) \<Longrightarrow> waiting sys' = waiting sys - {i}"
  "sy_sessions sys' = dict_set i (Confirming pid session billing reg) (sy_sessions sys) \<Longrightarrow> waiting sys' = waiting sys - {i}"
  "sy_sessions sys' = dict_set i (Serving pid session) (sy_sessions sys) \<Longrightarrow> waiting sys' = waiting sys - {i}"
  by (auto simp: waiting_def split: if_splits)

lemma slots_released:
  assumes "slots_counted sys" "i \<in> waiting sys" "waiting sys' = waiting sys - {i}" "sy_guard sys' = guard_finish (sy_guard sys)"
  shows "slots_counted sys'"
proof -
  have "card (waiting sys) = Suc (card (waiting sys'))" using assms(2,3) waiting_finite card_Suc_Diff1 [of "waiting sys" i] by simp
  with assms(1,4) show ?thesis by (simp add: slots_counted_def guard_finish_def)
qed

lemma slots_step: "step_is env k sys sys' \<Longrightarrow> slots_counted sys \<Longrightarrow> slots_counted sys'"
proof (cases k)
  case (Opened i info headers)
  assume s: "step_is env k sys sys'" "slots_counted sys"
  have "i \<notin> waiting sys" "waiting sys' = insert i (waiting sys)" using s(1) waiting_changes(1) [of sys' i] by (auto simp: Opened waiting_def)
  with s show ?thesis by (simp add: Opened slots_counted_def waiting_finite)
next
  case (Closed i)
  assume s: "step_is env k sys sys'" "slots_counted sys"
  show ?thesis by (rule slots_released [OF s(2)]) (use s(1) waiting_changes(2) in \<open>auto simp: Closed waiting_def\<close>)
next
  case (Registered i info headers reg hex devhex clk)
  assume s: "step_is env k sys sys'" "slots_counted sys"
  show ?thesis by (rule slots_released [OF s(2), of i]) (use s(1) in \<open>auto simp: Registered waiting_def split: if_splits\<close>)
next
  case (Confirmed i pid session)
  assume s: "step_is env k sys sys'" "slots_counted sys"
  have "waiting sys' = waiting sys" using s(1) waiting_changes(4) [of sys' i] by (auto simp: Confirmed waiting_def)
  with s show ?thesis by (simp add: Confirmed slots_counted_def)
next
  case (Ended i pid)
  assume s: "step_is env k sys sys'" "slots_counted sys"
  have "waiting sys' = waiting sys" using s(1) waiting_changes(2) [of sys' i] by (auto simp: Ended waiting_def)
  with s show ?thesis by (simp add: Ended slots_counted_def)
next
  case Quiet
  assume s: "step_is env k sys sys'" "slots_counted sys"
  then show ?thesis by (simp add: Quiet slots_counted_def waiting_def)
qed

definition in_hub :: "'cb hub \<Rightarrow> string \<Rightarrow> bool" where
  "in_hub h pid \<longleftrightarrow> map_of (hub_providers h) pid \<noteq> None"

definition holds :: "system \<Rightarrow> nat \<Rightarrow> string \<Rightarrow> bool" where
  "holds sys i pid \<longleftrightarrow> (\<exists>s. map_of (sy_sessions sys) i = Some s \<and> session_pid s = Some pid)"

definition owned :: "system \<Rightarrow> bool" where
  "owned sys \<longleftrightarrow> (\<forall>pid. in_hub (sy_hub sys) pid \<longrightarrow> (\<exists>i. holds sys i pid))
     \<and> (\<forall>i j pid. holds sys i pid \<and> holds sys j pid \<longrightarrow> i = j)
     \<and> (\<forall>i pid. holds sys i pid \<longrightarrow> (\<exists>n \<le> hub_next (sy_hub sys). pid = provider_name n))"

lemma registered_hub_frame:
  "hub_next (registered_hub env info headers reg hex devhex clk h) = Suc (hub_next h)"
  "in_hub (registered_hub env info headers reg hex devhex clk h) q \<longleftrightarrow> q = provider_name (Suc (hub_next h)) \<or> in_hub h q"
  by (auto simp: in_hub_def registered_hub_def bind_connection_def register_provider_def Let_def)

lemma inheritsD: "inherits h h' \<Longrightarrow> in_hub h' pid \<Longrightarrow> in_hub h pid"
  "inherits h h' \<Longrightarrow> hub_next h' = hub_next h"
  by (auto simp: inherits_def in_hub_def)

lemma owned_transfer:
  assumes "owned sys" "\<And>i pid. holds sys' i pid \<Longrightarrow> holds sys i pid" "hub_next (sy_hub sys') = hub_next (sy_hub sys)"
    "\<And>pid. in_hub (sy_hub sys') pid \<Longrightarrow> in_hub (sy_hub sys) pid"
    "\<And>i pid. in_hub (sy_hub sys') pid \<Longrightarrow> holds sys i pid \<Longrightarrow> holds sys' i pid"
  shows "owned sys'"
proof -
  have "\<exists>i. holds sys' i pid" if c: "in_hub (sy_hub sys') pid" for pid
  proof -
    obtain i where "holds sys i pid" using assms(1) assms(4) [OF c] unfolding owned_def by blast
    with assms(5) [OF c] show ?thesis by blast
  qed
  moreover have "i = j" if "holds sys' i pid" "holds sys' j pid" for i j pid
    using that assms(1,2) unfolding owned_def by blast
  moreover have "\<exists>n \<le> hub_next (sy_hub sys'). pid = provider_name n" if "holds sys' i pid" for i pid
    using that assms(1,2,3) unfolding owned_def by fastforce
  ultimately show ?thesis unfolding owned_def by blast
qed

lemma owned_registered:
  assumes "owned sys" "map_of (sy_sessions sys) i = Some (Waiting info headers)"
    "sy_sessions sys' = dict_set i (Confirming (provider_name (Suc (hub_next (sy_hub sys)))) session billing reg) (sy_sessions sys)"
    "sy_hub sys' = registered_hub env info headers reg hex devhex clk (sy_hub sys)"
  shows "owned sys'"
proof -
  let ?n = "hub_next (sy_hub sys)"
  have sv: "holds sys' j pid \<longleftrightarrow> (j = i \<and> pid = provider_name (Suc ?n)) \<or> (j \<noteq> i \<and> holds sys j pid)" for j pid
    by (auto simp: holds_def assms(3))
  have not_i: "\<not> holds sys i pid" for pid using assms(2) by (simp add: holds_def)
  have old: "holds sys j pid \<Longrightarrow> pid \<noteq> provider_name (Suc ?n)" for j pid
    using assms(1) unfolding owned_def by (metis Suc_n_not_le_n provider_name_inject)
  have "\<exists>j. holds sys' j pid" if "in_hub (sy_hub sys') pid" for pid
  proof (cases "pid = provider_name (Suc ?n)")
    case False
    with that have "in_hub (sy_hub sys) pid" unfolding assms(4) registered_hub_frame by blast
    then show ?thesis using assms(1) not_i unfolding owned_def sv by blast
  qed (auto simp: sv)
  moreover have "j = k" if "holds sys' j pid" "holds sys' k pid" for j k pid
    using that assms(1) old unfolding sv owned_def by blast
  moreover have "\<exists>n \<le> Suc ?n. pid = provider_name n" if "holds sys' j pid" for j pid
  proof (cases "pid = provider_name (Suc ?n)")
    case False
    then have "holds sys j pid" using that sv by blast
    then show ?thesis using assms(1) unfolding owned_def by (meson le_SucI)
  qed blast
  ultimately show ?thesis unfolding owned_def assms(4) registered_hub_frame(1) by blast
qed

lemma owned_step: "step_is env k sys sys' \<Longrightarrow> owned sys \<Longrightarrow> owned sys'"
proof (cases k)
  case (Opened i info headers)
  assume s: "step_is env k sys sys'" "owned sys"
  have "holds sys' j pid = holds sys j pid" for j pid using s(1) by (auto simp: Opened holds_def)
  with s show ?thesis by (simp add: Opened owned_def)
next
  case (Closed i)
  assume s: "step_is env k sys sys'" "owned sys"
  have "holds sys' j pid = holds sys j pid" for j pid using s(1) by (auto simp: Closed holds_def)
  with s show ?thesis by (simp add: Closed owned_def)
next
  case (Registered i info headers reg hex devhex clk)
  assume s: "step_is env k sys sys'" "owned sys"
  show ?thesis by (rule owned_registered [OF s(2)]) (use s(1) in \<open>auto simp: Registered\<close>)
next
  case (Confirmed i pid session)
  assume s: "step_is env k sys sys'" "owned sys"
  have sv: "holds sys' j q = holds sys j q" for j q using s(1) by (auto simp: Confirmed holds_def)
  show ?thesis
    by (rule owned_transfer [OF s(2)]) (use s(1) sv inheritsD in \<open>auto simp: Confirmed\<close>)
next
  case (Ended i pid)
  assume s: "step_is env k sys sys'" "owned sys"
  have sv: "holds sys' j q \<longleftrightarrow> j \<noteq> i \<and> holds sys j q" for j q using s(1) by (auto simp: Ended holds_def)
  have me: "holds sys i q \<longleftrightarrow> q = pid" for q using s(1) by (auto simp: Ended holds_def)
  have gone: "\<not> in_hub (sy_hub sys') pid" "inherits (sy_hub sys) (sy_hub sys')" using s(1) by (simp_all add: Ended in_hub_def)
  show ?thesis
  proof (rule owned_transfer [OF s(2)])
    show "holds sys' j q" if "in_hub (sy_hub sys') q" "holds sys j q" for j q
    proof -
      have "q \<noteq> pid" using that(1) gone(1) by auto
      with that(2) me show ?thesis unfolding sv by blast
    qed
  qed (use sv inheritsD [OF gone(2)] in auto)
next
  case Quiet
  assume s: "step_is env k sys sys'" "owned sys"
  have sv: "holds sys' j q = holds sys j q" for j q using s(1) by (simp add: Quiet holds_def)
  show ?thesis
    by (rule owned_transfer [OF s(2)]) (use s(1) sv inheritsD in \<open>auto simp: Quiet\<close>)
qed

lemma sys_run_snoc: "sys_run env (xs @ [x]) sys = fst (sys_step env x (sys_run env xs sys))"
  by (simp add: sys_run_def)

text \<open>One rule for what every step keeps.\<close>

lemma sys_run_induct [consumes 1, case_names start step]:
  assumes "list_all foreign_op xs" "P sys" "\<And>k s s'. P s \<Longrightarrow> step_is env k s s' \<Longrightarrow> P s'"
  shows "P (sys_run env xs sys)"
  using assms(1)
proof (induction xs rule: rev_induct)
  case Nil
  then show ?case using assms(2) by (simp add: sys_run_def)
next
  case (snoc x xs)
  then have "P (sys_run env xs sys)" "foreign_op x" by auto
  with sys_step_shape [of x env "sys_run env xs sys"] assms(3) show ?case unfolding sys_run_snoc by blast
qed

text \<open>C10: Provider connections account for themselves in any interleaving of sessions, hub operations and
  store operations: the registration slots taken are exactly the connections that still owe their first
  message, never more than 32, and every provider in the hub belongs to exactly one live connection, so
  none survives its connection and none is shared.\<close>

theorem sessions_account:
  assumes "list_all foreign_op xs" "sys = sys_run env xs (new_system depth sv file)"
  shows "rg_pending (sy_guard sys) = card (waiting sys) \<and> card (waiting sys) \<le> 32
    \<and> (in_hub (sy_hub sys) pid \<longrightarrow> (\<exists>!i. holds sys i pid))"
proof -
  have "slots_counted sys" unfolding assms(2) using assms(1)
  proof (induction rule: sys_run_induct)
    case start
    show ?case by (simp add: slots_counted_def waiting_def new_system_def new_guard_def)
  qed (rule slots_step)
  moreover have "owned sys" unfolding assms(2) using assms(1)
  proof (induction rule: sys_run_induct)
    case start
    show ?case by (simp add: owned_def holds_def in_hub_def new_system_def new_hub_def)
  qed (rule owned_step)
  ultimately show ?thesis unfolding owned_def slots_counted_def MAX_INCOMPLETE_def by auto
qed

text \<open>A provider that connects and registers on a fresh development coordinator.\<close>

definition sample_session_env :: session_env where
  "sample_session_env = \<lparr>se_sha = id, se_production = False, se_url_token = '''', se_geo = (False, ''''),
     se_scan = (\<lambda>_. Some sample_raw), se_validate = sample_validate,
     se_site = \<lparr>hs_repo = (\<lambda>_. None), hs_json = (\<lambda>_ _. None)\<rparr>,
     se_coercion = \<lparr>co_int = (\<lambda>_. None), co_text = (\<lambda>_. None), co_show = (\<lambda>_. '''')\<rparr>, se_digest = (\<lambda>_. ''''),
     se_validators = \<lparr>v_chunk = (\<lambda>_. None), v_done = (\<lambda>_. None), v_error = (\<lambda>_. None), v_attestation = (\<lambda>_. None), v_heartbeat = (\<lambda>_. None)\<rparr>,
     se_decode = (\<lambda>_. None), se_country = sample_country\<rparr>"

definition sample_handshake :: handshake where
  "sample_handshake = \<lparr>hk_headers = [], hk_query = []\<rparr>"

definition sample_connect :: "sys_op list" where
  "sample_connect = [Open 0 sample_handshake (\<lambda>_. 1), FirstFrame 0 '''' ''ab'' ''cd'' (\<lambda>_. 2)]"

definition sample_waiting :: system where
  "sample_waiting = (new_system 50 sample_services [])\<lparr>sy_guard := \<lparr>rg_pending = 1, rg_attempts = []\<rparr>, sy_sessions := [(0, Waiting None [])]\<rparr>"

lemma sample_opened: "sys_run sample_session_env [Open 0 sample_handshake (\<lambda>_. 1)] (new_system 50 sample_services []) = sample_waiting"
  by (simp add: sys_run_def open_session_def authenticate_def presented_token_def sample_handshake_def sample_session_env_def dict_get_def
      str_lower_def new_system_def sample_services_def empty_db_def admit_attempt_def guard_begin_def new_guard_def MAX_INCOMPLETE_def
      set_session_def on_db_def sample_waiting_def)

definition sample_registered :: system where
  "sample_registered = fst (sys_step sample_session_env (FirstFrame 0 '''' ''ab'' ''cd'' (\<lambda>_. 2)) sample_waiting)"

lemma sample_connected: "sys_run sample_session_env sample_connect (new_system 50 sample_services []) = sample_registered"
  using sample_opened by (simp add: sys_run_def sample_connect_def sample_registered_def del: sys_step.simps)

lemma sample_registered_provider:
  "\<exists>p. map_of (hub_providers (sy_hub sample_registered)) ''provider-1'' = Some p" "db_tokens (sy_db sample_registered) = []"
proof -
  have r: "parse_provider_registration (se_scan sample_session_env) (se_validate sample_session_env) (se_production sample_session_env) ''''
      = Some sample_registration" using sample_admitted by (simp add: sample_session_env_def)
  have n: "nat_str (Suc 0) = ''1''" by code_simp
  show "\<exists>p. map_of (hub_providers (sy_hub sample_registered)) ''provider-1'' = Some p" "db_tokens (sy_db sample_registered) = []"
    by (simp_all add: sample_registered_def sample_waiting_def new_system_def first_frame_def r credential_active_def register_provider_def
        new_hub_def Let_def bind_connection_def provider_name_def n sample_services_def empty_db_def)
qed

lemma sample_foreign: "list_all foreign_op sample_connect"
  by (simp add: sample_connect_def foreign_op_def)

lemma sessions_account_witness:
  "\<exists>!i. holds sample_registered i ''provider-1''"
  using sessions_account [OF sample_foreign sample_connected [symmetric], of "''provider-1''"] sample_registered_provider(1)
  by (simp add: in_hub_def)

section \<open>Every step is a sequence of store operations\<close>

definition store_reach :: "(string \<Rightarrow> string) \<Rightarrow> db \<Rightarrow> db \<Rightarrow> bool" where
  "store_reach sha db db' \<longleftrightarrow> (\<exists>ops. db' = store_run sha ops db)"

named_theorems reach_steps \<open>what a step does to the database\<close>

lemma store_reach_refl [reach_steps]: "store_reach sha db db"
  unfolding store_reach_def by (rule exI [of _ "[]"]) simp

lemma store_reach_trans: "store_reach sha db db1 \<Longrightarrow> store_reach sha db1 db2 \<Longrightarrow> store_reach sha db db2"
  unfolding store_reach_def store_run_def by (metis foldl_append)

lemma store_reach_one: "store_reach sha db (store_step sha x db)"
  unfolding store_reach_def by (rule exI [of _ "[x]"]) simp

lemma reach_validate [reach_steps]: "store_reach sha db (snd (validate_provider_token sha raw t db))"
  using store_reach_one [of sha db "ValidateProviderToken raw t"] by simp

lemma reach_disconnect [reach_steps]: "store_reach sha db (snd (StoreLedger.log_provider_disconnect p s t db))"
  using store_reach_one [of sha db "LogProviderDisconnect p s t"] by simp

lemma reach_account [reach_steps]: "store_reach sha db (snd (get_or_create_account i n t db))"
  using store_reach_one [of sha db "EnsureAccount i n t"] by (simp add: get_or_create_account_def Let_def)

lemma reach_connection [reach_steps]: "store_reach sha db (log_connection pid session billing reg t1 t2 db)"
proof -
  let ?c = "reg_caps reg" and ?db = "snd (get_or_create_account billing (reg_name reg) t1 db)"
  have "store_reach sha ?db (store_step sha (LogProviderConnect pid (reg_name reg) (pc_hardware ?c) (trust_value (pc_trust ?c))
      (pc_price_out ?c) (pc_tps ?c) billing session t2) ?db)" by (rule store_reach_one)
  from store_reach_trans [OF reach_account this] show ?thesis by (simp add: log_connection_def Let_def)
qed

lemma reach_effects [reach_steps]: "store_reach sha (sy_db sys) (sy_db (hub_effects env bk r sys))"
  using performs_store [of "se_country env" bk "sy_services sys" "snd r" sha] by (auto simp: hub_effects_def store_reach_def)

lemma reach_end: "store_reach sha (sy_db sys) (sy_db (end_session env i pid session clk bk sys))"
  using store_reach_trans [OF reach_effects reach_disconnect] by (simp add: end_session_def Let_def)

lemma authenticate_db: "authenticate env hk t1 t2 db = (r, db') \<Longrightarrow> store_reach (se_sha env) db db'"
  using reach_validate [of "se_sha env" db "projr (presented_token env hk)" t1] store_reach_refl [of "se_sha env" db]
  by (auto simp: authenticate_def split: sum.splits if_splits option.splits prod.splits)

lemma reach_frame:
  assumes "provider_frame env pid raw clk bk sys = (go, sys')"
  shows "store_reach sha (sy_db sys) (sy_db sys')"
proof -
  have at: "sy_db s' = sy_db sys" if "attested env pid d clk sys = (g, s')" for d g s'
    using that by (auto simp: attested_def split: prod.splits sum.splits option.splits)
  show ?thesis using assms reach_effects [of sha sys env bk] store_reach_refl [of sha "sy_db sys"]
    by (auto simp: provider_frame_def at split: if_splits option.splits json.splits prod.splits)
qed

lemma sys_step_store: "store_reach (se_sha env) (sy_db sys) (sy_db (fst (sys_step env x sys)))"
proof (cases x)
  case (Open i hk clk)
  obtain r db where a: "authenticate env hk (clk 0) (clk 1) (sy_db sys) = (r, db)" by force
  show ?thesis using authenticate_db [OF a] store_reach_refl [of "se_sha env" "sy_db sys"]
    by (auto simp: Open open_session_def a simp del: One_nat_def split: sum.splits prod.splits option.splits)
next
  case (FirstFrame i raw hex devhex clk)
  then show ?thesis using store_reach_refl
    by (auto simp: first_frame_def abandon_def Let_def split: option.splits session.splits prod.splits)
next
  case (NoRegistration i timeout)
  then show ?thesis using store_reach_refl
    by (auto simp: no_registration_def abandon_def split: option.splits session.splits)
next
  case (Confirm i sent clk bk)
  have c: "store_reach (se_sha env) (sy_db sys) (sy_db (confirmed env i pid session billing reg sent clk bk sys))" for pid session billing reg
    using reach_end [of "se_sha env" sys env i pid session clk bk]
      reach_end [of "se_sha env" "sys\<lparr>sy_registry := snd (verify_model_hash (se_site env) reg (sy_registry sys))\<rparr>" env i pid session clk bk]
    by (auto simp: confirmed_def Let_def reach_steps split: prod.splits option.splits)
  show ?thesis using c store_reach_refl by (auto simp: Confirm split: option.splits session.splits)
next
  case (Frame i raw clk bk)
  have c: "store_reach (se_sha env) (sy_db sys) (sy_db (frame env i pid session raw clk bk sys))" for pid session
  proof -
    obtain go sys1 where f: "provider_frame env pid raw clk bk sys = (go, sys1)" by force
    show ?thesis using reach_frame [OF f] store_reach_trans [OF reach_frame [OF f] reach_end] by (simp add: frame_def f)
  qed
  show ?thesis using c store_reach_refl by (auto simp: Frame split: option.splits session.splits)
next
  case (Leave i clk bk)
  then show ?thesis using reach_end store_reach_refl by (auto split: option.splits session.splits)
next
  case (HubOp y bk)
  then show ?thesis by (simp add: reach_effects)
next
  case (StoreOp y)
  then show ?thesis by (simp add: store_reach_one)
qed

lemma sys_run_store: "store_reach (se_sha env) (sy_db sys) (sy_db (sys_run env xs sys))"
proof (induction xs rule: rev_induct)
  case Nil
  then show ?case by (simp add: sys_run_def store_reach_refl)
next
  case (snoc x xs)
  then show ?case unfolding sys_run_snoc using sys_step_store store_reach_trans by blast
qed

section \<open>Credentials\<close>

text \<open>A token row is never removed and never changes its digest, its billing account and its id.\<close>

definition token_kept :: "provider_token \<Rightarrow> db \<Rightarrow> bool" where
  "token_kept t db \<longleftrightarrow> (\<exists>t' \<in> set (db_tokens db). tok_hash t' = tok_hash t \<and> tok_billing t' = tok_billing t \<and> tok_id t' = tok_id t)"

lemma token_kept_update:
  assumes "token_kept t db" "db_tokens db' = sql_update p f (db_tokens db)" "\<And>t. tok_hash (f t) = tok_hash t"
    "\<And>t. tok_billing (f t) = tok_billing t" "\<And>t. tok_id (f t) = tok_id t"
  shows "token_kept t db'"
proof -
  obtain t' where t': "t' \<in> set (db_tokens db)" "tok_hash t' = tok_hash t" "tok_billing t' = tok_billing t" "tok_id t' = tok_id t"
    using assms(1) by (auto simp: token_kept_def)
  then have "(if p t' then f t' else t') \<in> set (db_tokens db')" by (simp add: assms(2) set_sql_update)
  then show ?thesis unfolding token_kept_def using t'(2-4) assms(3-5) by (intro bexI) auto
qed

lemma db_step_token_kept:
  assumes "db_step sha D R db db'" "token_kept t db" shows "token_kept t db'"
  using assms(1)
proof (cases rule: db_step_shape)
  case (enroll w n p t' raw i j k r)
  then show ?thesis using assms(2) by (auto dest!: enroll_body_ok simp: token_kept_def)
next
  case (claim b w a r h' t1 t2 x)
  then show ?thesis by (auto dest!: claim_body_ok intro!: token_kept_update [OF assms(2)])
next
  case (token_upd f p)
  show ?thesis by (rule token_kept_update [OF assms(2), of _ p f]) (simp_all add: token_upd)
qed (use assms(2) in \<open>auto simp: token_kept_def\<close>)

definition tokens_prefixed :: "db \<Rightarrow> bool" where
  "tokens_prefixed db \<longleftrightarrow> (\<forall>t \<in> set (db_tokens db). \<forall>b. tok_billing t = Some b \<longrightarrow> starts_with PROVIDER_ACCT_PREFIX b)"

lemma tokens_prefixed_update:
  "tokens_prefixed db \<Longrightarrow> db_tokens db' = sql_update p f (db_tokens db) \<Longrightarrow> (\<And>t. tok_billing (f t) = tok_billing t) \<Longrightarrow> tokens_prefixed db'"
  by (auto simp: tokens_prefixed_def set_sql_update split: if_splits)

lemma db_step_tokens_prefixed:
  assumes "db_step sha D R db db'" "tokens_prefixed db" shows "tokens_prefixed db'"
  using assms(1)
proof (cases rule: db_step_shape)
  case (enroll w n p t' raw i j k r)
  then show ?thesis using assms(2) by (auto dest!: enroll_body_ok simp: tokens_prefixed_def enrolled_token_def starts_with_append)
next
  case (claim b w a r h' t1 t2 x)
  then show ?thesis by (auto dest!: claim_body_ok intro!: tokens_prefixed_update [OF assms(2)])
next
  case (token_upd f p)
  show ?thesis by (rule tokens_prefixed_update [OF assms(2), of _ p f]) (simp_all add: token_upd)
next
  case (token h n b t)
  then show ?thesis using assms(2) by (auto simp: tokens_prefixed_def new_token_def starts_with_append)
qed (use assms(2) in \<open>auto simp: tokens_prefixed_def\<close>)

lemma reach_keeps:
  assumes "store_reach sha db db'" "db_ok db"
  shows "db_ok db'" "token_kept t db \<Longrightarrow> token_kept t db'" "tokens_prefixed db \<Longrightarrow> tokens_prefixed db'"
    "token_revoked h db \<Longrightarrow> token_revoked h db'"
proof -
  obtain ops where db': "db' = store_run sha ops db" using assms(1) by (auto simp: store_reach_def)
  from run_on [OF assms(2), of sha ops] have s: "db_steps sha (deleted ops) (reset_ids ops) db db'" and ok: "db_ok db'"
    by (simp_all add: db')
  show "db_ok db'" by (rule ok)
  show "token_kept t db \<Longrightarrow> token_kept t db'" using s by (induction rule: rtranclp_induct) (auto intro: db_step_token_kept)
  show "tokens_prefixed db \<Longrightarrow> tokens_prefixed db'" using s by (induction rule: rtranclp_induct) (auto intro: db_step_tokens_prefixed)
  show "token_revoked h db \<Longrightarrow> token_revoked h db'" using db_steps_revoked [OF s] .
qed

section \<open>Earnings follow the credential\<close>

text \<open>A provider's token id and billing account come from a row of the token table; only a development
  coordinator has providers without one, with an account of their own.\<close>

definition bound :: "session_env \<Rightarrow> db \<Rightarrow> string \<Rightarrow> string \<Rightarrow> bool" where
  "bound env db tok billing \<longleftrightarrow> (\<exists>t \<in> set (db_tokens db). tok_id t = tok \<and> dflt '''' (tok_billing t) = billing)
     \<or> (\<not> se_production env \<and> tok = '''' \<and> starts_with ''provider-dev-'' billing)"

definition credited :: "session_env \<Rightarrow> system \<Rightarrow> bool" where
  "credited env sys \<longleftrightarrow> db_ok (sy_db sys) \<and> tokens_prefixed (sy_db sys)
     \<and> (\<forall>i info headers. map_of (sy_sessions sys) i = Some (Waiting info headers) \<longrightarrow>
          (case info of None \<Rightarrow> \<not> se_production env | Some t \<Rightarrow> token_kept t (sy_db sys)))
     \<and> (\<forall>pid p. map_of (hub_providers (sy_hub sys)) pid = Some p \<longrightarrow> cp_id p = pid \<and> bound env (sy_db sys) (cp_token p) (cp_billing p))"

lemma bound_kept:
  assumes "bound env db tok billing" "\<And>t. token_kept t db \<Longrightarrow> token_kept t db'" shows "bound env db' tok billing"
proof (cases "\<exists>t \<in> set (db_tokens db). tok_id t = tok \<and> dflt '''' (tok_billing t) = billing")
  case True
  then obtain t where t: "t \<in> set (db_tokens db)" "tok_id t = tok" "dflt '''' (tok_billing t) = billing" by blast
  then have "token_kept t db" by (auto simp: token_kept_def)
  from assms(2) [OF this] t(2,3) show ?thesis by (auto simp: token_kept_def bound_def)
qed (use assms(1) in \<open>auto simp: bound_def\<close>)

lemma bound_billing:
  "token_kept t db \<Longrightarrow> bound env db (tok_id t) (billing_of (Some t) hex)"
  by (auto simp: token_kept_def bound_def billing_of_def)

lemma registered_provider:
  assumes "map_of (hub_providers (registered_hub env info headers reg hex devhex clk h)) pid = Some p"
  shows "(pid = provider_name (Suc (hub_next h)) \<and> cp_token p = (case info of Some t \<Rightarrow> tok_id t | None \<Rightarrow> '''')
      \<and> cp_billing p = billing_of info devhex \<and> cp_caps p = reg_caps reg \<and> cp_id p = pid) \<or> map_of (hub_providers h) pid = Some p"
  using assms by (auto simp: registered_hub_def bind_connection_def register_provider_def Let_def split: if_splits)

lemma credited_providers_inherit:
  assumes "inherits h h'" "\<forall>pid p. map_of (hub_providers h) pid = Some p \<longrightarrow> cp_id p = pid \<and> bound env db (cp_token p) (cp_billing p)"
    "map_of (hub_providers h') pid = Some q"
  shows "cp_id q = pid \<and> bound env db (cp_token q) (cp_billing q)"
  using assms unfolding inherits_def same_binding_def by metis

lemma credited_step:
  assumes "step_is env k sys sys'" "store_reach (se_sha env) (sy_db sys) (sy_db sys')" "credited env sys"
  shows "credited env sys'"
proof -
  from assms(3) have c: "db_ok (sy_db sys)" "tokens_prefixed (sy_db sys)"
    "\<And>i info headers. map_of (sy_sessions sys) i = Some (Waiting info headers) \<Longrightarrow> (case info of None \<Rightarrow> \<not> se_production env | Some t \<Rightarrow> token_kept t (sy_db sys))"
    "\<forall>pid p. map_of (hub_providers (sy_hub sys)) pid = Some p \<longrightarrow> cp_id p = pid \<and> bound env (sy_db sys) (cp_token p) (cp_billing p)"
    unfolding credited_def by blast+
  note kp = reach_keeps [OF assms(2) c(1)]
  have w: "case info of None \<Rightarrow> \<not> se_production env | Some t \<Rightarrow> token_kept t (sy_db sys')"
    if m: "map_of (sy_sessions sys') i = Some (Waiting info headers)" for i info headers
  proof -
    have "map_of (sy_sessions sys) i = Some (Waiting info headers) \<or> (case info of None \<Rightarrow> \<not> se_production env | Some t \<Rightarrow> t \<in> set (db_tokens (sy_db sys)))"
      using assms(1) m by (cases k) (auto split: if_splits option.splits)
    then have "case info of None \<Rightarrow> \<not> se_production env | Some t \<Rightarrow> token_kept t (sy_db sys)"
    proof
      assume "map_of (sy_sessions sys) i = Some (Waiting info headers)"
      then show ?thesis by (rule c(3))
    next
      assume "case info of None \<Rightarrow> \<not> se_production env | Some t \<Rightarrow> t \<in> set (db_tokens (sy_db sys))"
      then show ?thesis by (auto simp: token_kept_def split: option.splits)
    qed
    then show ?thesis using kp(2) by (auto split: option.split)
  qed
  have inh: "cp_id p = pid \<and> bound env (sy_db sys') (cp_token p) (cp_billing p)"
    if "inherits (sy_hub sys) (sy_hub sys')" "map_of (hub_providers (sy_hub sys')) pid = Some p" for pid p
    using credited_providers_inherit [OF that(1) c(4) that(2)] bound_kept kp(2) by blast
  have p: "cp_id p = pid \<and> bound env (sy_db sys') (cp_token p) (cp_billing p)" if m: "map_of (hub_providers (sy_hub sys')) pid = Some p" for pid p
  proof (cases k)
    case (Registered i info headers reg hex devhex clk)
    with assms(1) have s: "map_of (sy_sessions sys) i = Some (Waiting info headers)"
      "sy_hub sys' = registered_hub env info headers reg hex devhex clk (sy_hub sys)" by simp_all
    have "cp_id p = pid \<and> bound env (sy_db sys) (cp_token p) (cp_billing p)"
    proof (cases "map_of (hub_providers (sy_hub sys)) pid = Some p")
      case True
      then show ?thesis using c(4) by blast
    next
      case False
      then have b: "cp_token p = (case info of Some t \<Rightarrow> tok_id t | None \<Rightarrow> '''')" "cp_billing p = billing_of info devhex" "cp_id p = pid"
        using registered_provider [OF m [unfolded s(2)]] by blast+
      show ?thesis
      proof (cases info)
        case None
        then show ?thesis using c(3) [OF s(1)] b by (simp add: bound_def billing_of_def starts_with_def)
      next
        case (Some t)
        then show ?thesis using c(3) [OF s(1)] b bound_billing [of t "sy_db sys" env devhex] by simp
      qed
    qed
    then show ?thesis using bound_kept kp(2) by blast
  qed (use assms(1) m inh inherits_same [of "sy_hub sys'" "sy_hub sys"] in auto)
  show ?thesis using kp(1,3) c(2) w p unfolding credited_def by blast
qed

lemma credited_run:
  assumes "list_all foreign_op xs" "credited env sys" shows "credited env (sys_run env xs sys)"
  using assms(1)
proof (induction xs rule: rev_induct)
  case Nil
  then show ?case using assms(2) by (simp add: sys_run_def)
next
  case (snoc x xs)
  then have "credited env (sys_run env xs sys)" "foreign_op x" by auto
  with sys_step_shape [of x env "sys_run env xs sys"] credited_step [OF _ sys_step_store] show ?case
    unfolding sys_run_snoc by blast
qed

lemma credited_start:
  assumes "sv_db sv = store_run (se_sha env) earlier empty_db"
  shows "credited env (new_system depth sv file)"
proof -
  have "store_reach (se_sha env) empty_db (sv_db sv)" unfolding store_reach_def using assms by blast
  from reach_keeps [OF this empty_db_ok] have "db_ok (sv_db sv)" "tokens_prefixed (sv_db sv)"
    by (auto simp: tokens_prefixed_def empty_db_def)
  then show ?thesis by (simp add: credited_def new_system_def new_hub_def)
qed

text \<open>Only the first frame of a waiting connection takes it out of the wait alive.\<close>

lemma waiting_until_first_frame:
  assumes "map_of (sy_sessions sys) i = Some (Waiting info headers)"
    "map_of (sy_sessions (fst (sys_step env x sys))) i = Some (Confirming pid session billing reg)"
  shows "\<exists>raw hex devhex clk. x = FirstFrame i raw hex devhex clk"
proof (cases x)
  case (Open j hk clk)
  obtain r db where a: "authenticate env hk (clk 0) (clk 1) (sy_db sys) = (r, db)" by force
  show ?thesis using assms
    by (auto simp: Open open_session_def a simp del: One_nat_def split: if_splits sum.splits prod.splits option.splits)
next
  case (FirstFrame j raw hex devhex clk)
  show ?thesis
  proof (cases "j = i")
    case False
    with assms show ?thesis
      by (auto simp: FirstFrame first_frame_def abandon_def Let_def split: option.splits session.splits if_splits prod.splits)
  qed (simp add: FirstFrame)
next
  case (NoRegistration j timeout)
  then show ?thesis using assms by (auto simp: no_registration_def abandon_def split: option.splits session.splits if_splits)
next
  case (Confirm j sent clk bk)
  then show ?thesis using assms
    by (auto simp: confirmed_def end_session_frame Let_def split: option.splits session.splits if_splits prod.splits)
next
  case (Frame j raw clk bk)
  have "map_of (sy_sessions (frame env j q c raw clk bk sys)) i \<noteq> Some (Confirming pid session billing reg)" for q c
  proof -
    obtain go sys1 where f: "provider_frame env q raw clk bk sys = (go, sys1)" by force
    show ?thesis using assms(1) provider_frame_frame(2) [OF f] by (simp add: frame_def f end_session_frame)
  qed
  then show ?thesis using assms by (auto simp: Frame split: option.splits session.splits)
next
  case (Leave j clk bk)
  then show ?thesis using assms by (auto simp: end_session_frame split: option.splits session.splits if_splits)
qed (use assms in simp_all)

text \<open>An active credential, spelled out: its row is not revoked, and when it belongs to a node, the node has
  an owner who is not suspended at that time.\<close>

definition live_credential :: "provider_token \<Rightarrow> flt \<Rightarrow> db \<Rightarrow> bool" where
  "live_credential t now db \<longleftrightarrow> (\<exists>row \<in> set (db_tokens db). tok_hash row = tok_hash t \<and> tok_id row = tok_id t \<and> tok_revoked row = None
     \<and> (tok_node row \<noteq> None \<longrightarrow> (\<exists>n \<in> set (db_nodes db). tok_node row = Some (node_id n) \<and> tok_billing row = Some (node_billing n)
          \<and> node_owner n \<noteq> '''' \<and> get_suspension (node_owner n) now db = None)))"

lemma credential_live: "credential_active (Some t) now db \<Longrightarrow> live_credential t now db"
proof -
  assume a: "credential_active (Some t) now db"
  let ?P = "\<lambda>r. tok_hash r = tok_hash t \<and> tok_id r = tok_id t \<and> tok_revoked r = None"
  from a obtain row where r: "find ?P (db_tokens db) = Some row"
    by (auto simp: credential_active_def provider_credential_is_active_def split: option.splits)
  have row: "row \<in> set (db_tokens db)" "?P row" using find_Some_in [OF r] by simp_all
  have "\<exists>n \<in> set (db_nodes db). tok_node row = Some (node_id n) \<and> tok_billing row = Some (node_billing n)
      \<and> node_owner n \<noteq> '''' \<and> get_suspension (node_owner n) now db = None" if node: "tok_node row \<noteq> None"
  proof -
    from a r node obtain n where n: "node_of_token row db = Some n" "node_owner n \<noteq> ''''"
      "\<not> suspended_at now (case find_user (node_owner n) db of None \<Rightarrow> None | Some u \<Rightarrow> usr_suspended u)"
      by (auto simp: credential_active_def provider_credential_is_active_def split: option.splits)
    then have "get_suspension (node_owner n) now db = None"
      by (auto simp: get_suspension_def suspended_at_def split: option.splits)
    with n find_Some_in [OF n(1) [unfolded node_of_token_def]] show ?thesis by auto
  qed
  with row show ?thesis unfolding live_credential_def by blast
qed

text \<open>C7: Providers enter the hub only by admission and earn only for their credential. In any interleaving,
  on any database the store can have reached: a provider that a step adds was added by the first frame of
  a waiting connection; that very frame is a registration the admission policy accepts, with those
  capabilities; the credential the connection was opened with is, at the clock reading of that frame,
  an unrevoked row of the token table whose node, if it has one, has an owner who is not suspended; the
  provider carries the id and bills to the account of that credential. A connection without a credential
  exists only outside production and gets an account of its own. Every connected provider bills to the
  account of a row of the token table with its token id, or to such an account.\<close>

theorem admission_guarded:
  assumes "list_all foreign_op xs" "foreign_op x" "sv_db sv = store_run (se_sha env) earlier empty_db"
    "sys = sys_run env xs (new_system depth sv file)"
    "map_of (hub_providers (sy_hub (fst (sys_step env x sys)))) pid = Some p"
  shows "bound env (sy_db (fst (sys_step env x sys))) (cp_token p) (cp_billing p)
    \<and> (map_of (hub_providers (sy_hub sys)) pid = None \<longrightarrow>
        (\<exists>i raw hex devhex clk info headers reg. x = FirstFrame i raw hex devhex clk
         \<and> map_of (sy_sessions sys) i = Some (Waiting info headers)
         \<and> parse_provider_registration (se_scan env) (se_validate env) (se_production env) raw = Some reg \<and> cp_caps p = reg_caps reg
         \<and> (case info of
              Some t \<Rightarrow> cp_token p = tok_id t \<and> cp_billing p = dflt '''' (tok_billing t) \<and> live_credential t (clk 0) (sy_db sys)
            | None \<Rightarrow> cp_token p = '''' \<and> cp_billing p = ''provider-dev-'' @ devhex \<and> \<not> se_production env)))"
proof -
  have c: "credited env sys" unfolding assms(4) by (rule credited_run [OF assms(1) credited_start]) (rule assms(3))
  obtain k where k: "step_is env k sys (fst (sys_step env x sys))" using sys_step_shape [OF assms(2)] by blast
  have c': "credited env (fst (sys_step env x sys))" by (rule credited_step [OF k sys_step_store c])
  have old: "map_of (hub_providers (sy_hub sys)) pid \<noteq> None" if "inherits (sy_hub sys) (sy_hub (fst (sys_step env x sys)))"
    using that assms(5) unfolding inherits_def by fastforce
  have "\<exists>i raw hex devhex clk info headers reg. x = FirstFrame i raw hex devhex clk
         \<and> map_of (sy_sessions sys) i = Some (Waiting info headers)
         \<and> parse_provider_registration (se_scan env) (se_validate env) (se_production env) raw = Some reg \<and> cp_caps p = reg_caps reg
         \<and> (case info of
              Some t \<Rightarrow> cp_token p = tok_id t \<and> cp_billing p = dflt '''' (tok_billing t) \<and> live_credential t (clk 0) (sy_db sys)
            | None \<Rightarrow> cp_token p = '''' \<and> cp_billing p = ''provider-dev-'' @ devhex \<and> \<not> se_production env)"
    if fresh: "map_of (hub_providers (sy_hub sys)) pid = None"
  proof (cases k)
    case (Registered i info headers reg' hex' devhex' clk')
    with k have w: "map_of (sy_sessions sys) i = Some (Waiting info headers)"
      "map_of (sy_sessions (fst (sys_step env x sys))) i = Some (Confirming (provider_name (Suc (hub_next (sy_hub sys)))) (''conn-'' @ hex') (billing_of info devhex') reg')"
      by simp_all
    obtain raw hex devhex clk where x: "x = FirstFrame i raw hex devhex clk" using waiting_until_first_frame [OF w] by blast
    then have st: "fst (sys_step env x sys) = fst (first_frame env i info headers raw hex devhex clk sys)" using w(1) by simp
    obtain reg where reg: "parse_provider_registration (se_scan env) (se_validate env) (se_production env) raw = Some reg"
      using w(2) unfolding st by (cases "parse_provider_registration (se_scan env) (se_validate env) (se_production env) raw")
        (auto simp: first_frame_def abandon_def)
    have act: "credential_active info (clk 0) (sy_db sys)"
      using w(2) unfolding st by (auto simp: first_frame_def abandon_def reg split: if_splits)
    have "sy_hub (fst (sys_step env x sys)) = registered_hub env info headers reg hex devhex clk (sy_hub sys)"
      unfolding st by (auto simp: first_frame_def reg act registered_hub_def register_provider_def Let_def)
    from registered_provider [OF assms(5) [unfolded this]] fresh
    have b: "cp_token p = (case info of Some t \<Rightarrow> tok_id t | None \<Rightarrow> '''')" "cp_billing p = billing_of info devhex" "cp_caps p = reg_caps reg"
      by simp_all
    have "info = None \<longrightarrow> \<not> se_production env" using c w(1) unfolding credited_def by fastforce
    with b act have "case info of
              Some t \<Rightarrow> cp_token p = tok_id t \<and> cp_billing p = dflt '''' (tok_billing t) \<and> live_credential t (clk 0) (sy_db sys)
            | None \<Rightarrow> cp_token p = '''' \<and> cp_billing p = ''provider-dev-'' @ devhex \<and> \<not> se_production env"
      by (cases info) (auto simp: billing_of_def intro: credential_live)
    with x w(1) reg b(3) show ?thesis by blast
  qed (use k old fresh inherits_same [of "sy_hub (fst (sys_step env x sys))" "sy_hub sys"] in auto)
  with c' assms(5) show ?thesis unfolding credited_def by blast
qed

lemma admission_guarded_witness:
  "\<exists>p. map_of (hub_providers (sy_hub sample_registered)) ''provider-1'' = Some p \<and> cp_billing p = ''provider-dev-cd''"
proof -
  obtain p where p: "map_of (hub_providers (sy_hub sample_registered)) ''provider-1'' = Some p"
    using sample_registered_provider(1) by blast
  have n: "map_of (hub_providers (sy_hub sample_waiting)) ''provider-1'' = None"
    by (simp add: sample_waiting_def new_system_def new_hub_def)
  have w: "map_of (sy_sessions sample_waiting) 0 = Some (Waiting None [])" by (simp add: sample_waiting_def)
  have "\<exists>i raw hex devhex clk info headers. FirstFrame 0 '''' ''ab'' ''cd'' (\<lambda>_. 2 :: flt) = FirstFrame i raw hex devhex clk
      \<and> map_of (sy_sessions sample_waiting) i = Some (Waiting info headers)
      \<and> (info = None \<longrightarrow> cp_billing p = ''provider-dev-'' @ devhex)"
    using admission_guarded [OF _ _ _ sample_opened [symmetric] p [unfolded sample_registered_def], of "[]"] n
    by (fastforce simp: foreign_op_def sample_services_def store_run_def simp del: sys_step.simps split: option.splits)
  with w have "cp_billing p = ''provider-dev-'' @ ''cd''" by auto
  then show ?thesis using p by simp
qed

end
