(* ===== verification/OperatorRoutes.thy ===== *)
theory OperatorRoutes
  imports AuthRoutes ProviderSession
begin

text \<open>
  The operator's endpoints (\<open>routes_admin.py\<close>) and a provider owner's (\<open>routes_provider.py\<close>) on the state of
  the coordinator: provider tokens, claims, suspension, runtime controls, quarantine and forced disconnects;
  enrolment and revocation by owners. A handler returns its response, or the store error it does not catch.
  Read-only views return their rows. The awaits between two forced disconnects only let other tasks run.
\<close>

type_synonym sys_handled = "(store_error + http_response) \<times> system"

definition refuse_route :: "http_response \<Rightarrow> system \<Rightarrow> sys_handled" where
  "refuse_route r sys = (Inr r, sys)"

definition on_store :: "((store_error + 'a) \<times> db) \<Rightarrow> ('a \<Rightarrow> system \<Rightarrow> sys_handled) \<Rightarrow> system \<Rightarrow> sys_handled" where
  "on_store r k sys = (case r of (Inl x, db) \<Rightarrow> (Inl x, on_db (\<lambda>_. db) sys) | (Inr a, db) \<Rightarrow> k a (on_db (\<lambda>_. db) sys))"

text \<open>The loop of forced disconnects; it lists those that were connected.\<close>

fun drop_providers :: "session_env \<Rightarrow> bill_clock \<Rightarrow> string \<Rightarrow> string list \<Rightarrow> system \<Rightarrow> string list \<times> system" where
  "drop_providers env bk reason [] sys = ([], sys)"
| "drop_providers env bk reason (pid # pids) sys = (case force_disconnect pid reason (sy_hub sys) of
     (ok, he) \<Rightarrow> (case drop_providers env bk reason pids (hub_effects env bk he sys) of
       (ds, sys') \<Rightarrow> ((if ok then [pid] else []) @ ds, sys')))"

section \<open>Operators (\<open>routes_admin.py\<close>)\<close>

text \<open>Who calls: the request, the configuration and the clock of the checks.\<close>

record admin_call =
  ad_auth :: auth_params
  ad_clock :: auth_clock
  ad_request :: http_request

definition is_admin :: "admin_call \<Rightarrow> system \<Rightarrow> bool" where
  "is_admin ad sys = is_admin_request (ap_token (ad_auth ad)) (ap_env (ad_auth ad)) (ad_clock ad) (ad_request ad) (sy_db sys)"

definition caller_claims :: "admin_call \<Rightarrow> system \<Rightarrow> trace option" where
  "caller_claims ad sys = session_user (ap_token (ad_auth ad)) (ak_token (ad_clock ad)) (ad_request ad) (sy_db sys)"

definition admin_actor :: "admin_call \<Rightarrow> system \<Rightarrow> string" where
  "admin_actor ad sys = (case caller_claims ad sys of None \<Rightarrow> ''dev-admin''
     | Some d \<Rightarrow> or_else (claim_text d ''email'') (claim_text d ''user_id''))"

definition create_provider_token_route :: "admin_call \<Rightarrow> string \<Rightarrow> string \<Rightarrow> string \<Rightarrow> flt \<Rightarrow> system \<Rightarrow> sys_handled" where
  "create_provider_token_route ad name hex16 hexb now sys = (if \<not> is_admin ad sys then refuse_route admin_required_response sys
     else on_store (create_provider_token (ap_sha (ad_auth ad)) name hex16 hexb now (sy_db sys))
       (\<lambda>raw s. (Inr (respond 200 [(''token'', JStr raw), (''name'', JStr name)]), s)) sys)"

definition token_json :: "string \<times> string \<times> string option \<times> flt \<times> flt option \<times> int \<times> flt option \<Rightarrow> json" where
  "token_json t = (case t of (i, name, billing, created, used, n, revoked) \<Rightarrow> JObj [(''token_id'', JStr i), (''name'', JStr name),
     (''billing_account_id'', j_opt JStr billing), (''created_at'', JFloat created), (''last_used_at'', j_opt JFloat used),
     (''connections'', JInt n), (''revoked_at'', j_opt JFloat revoked)])"

definition list_provider_tokens_route :: "admin_call \<Rightarrow> system \<Rightarrow> http_response" where
  "list_provider_tokens_route ad sys = (if \<not> is_admin ad sys then admin_required_response
     else respond 200 [(''tokens'', JList (map token_json (list_provider_tokens (sy_db sys))))])"

text \<open>The claim's body after validation: account, owner and reason; \<open>None\<close> is a malformed body.\<close>

definition claim_route :: "admin_call \<Rightarrow> (string \<times> string \<times> string) option \<Rightarrow> string \<Rightarrow> flt \<Rightarrow> flt \<Rightarrow> system \<Rightarrow> sys_handled" where
  "claim_route ad body hex16 t1 t2 sys = (case caller_claims ad sys of
     None \<Rightarrow> refuse_route admin_required_response sys
   | Some actor \<Rightarrow>
       if claim_text actor ''role'' \<noteq> ''admin'' \<or> \<not> is_admin ad sys then refuse_route admin_required_response sys
       else (case body of
         None \<Rightarrow> refuse_route (respond 422 (error_text ''Invalid provider claim'')) sys
       | Some (billing, owner, reason) \<Rightarrow>
           (case claim_legacy_provider billing owner (claim_text actor ''user_id'') reason hex16 t1 t2 (sy_db sys) of
              (Inl (ProviderOwnershipError msg status), db) \<Rightarrow> (Inr (respond (int status) (error_text msg)), on_db (\<lambda>_. db) sys)
            | (Inl x, db) \<Rightarrow> (Inl x, on_db (\<lambda>_. db) sys)
            | (Inr r, db) \<Rightarrow> (Inr (respond 200 [(''node'', JObj [(''node_id'', JStr (clm_node r)), (''owner_user_id'', JStr (clm_owner r)),
                (''billing_account_id'', JStr (clm_billing r)), (''name'', JStr (clm_name r))])]), on_db (\<lambda>_. db) sys))))"

definition suspension_json :: "suspension \<Rightarrow> json" where
  "suspension_json s = JObj [(''user_id'', JStr (sus_user s)), (''reason'', JStr (sus_reason s)), (''permanent'', JBool (sus_permanent s)),
     (''suspended_until'', j_opt JFloat (sus_until s))]"

text \<open>The providers that earn for one of the accounts, in the hub's order.\<close>

definition providers_billing :: "string set \<Rightarrow> 'cb hub \<Rightarrow> string list" where
  "providers_billing accounts h = map (cp_id \<circ> snd) (filter (\<lambda>(_, p). cp_billing p \<in> accounts) (hub_providers h))"

definition suspend_account_route :: "admin_call \<Rightarrow> session_env \<Rightarrow> string \<Rightarrow> string \<Rightarrow> flt option \<Rightarrow> flt \<Rightarrow> flt \<Rightarrow> bill_clock \<Rightarrow> system \<Rightarrow> sys_handled" where
  "suspend_account_route ad env user reason duration t1 t2 bk sys = (
     if \<not> is_admin ad sys then refuse_route admin_required_response sys
     else if str_strip reason = '''' then refuse_route (respond 400 (error_text ''A reason is required'')) sys
     else if (case duration of None \<Rightarrow> False | Some d \<Rightarrow> d \<le> 0)
       then refuse_route (respond 400 (error_text ''duration_seconds must be positive, or null for a permanent ban'')) sys
     else on_store (suspend_user user (str_strip reason) (admin_actor ad sys) duration t1 t2 (sy_db sys)) (\<lambda>r s.
       case r of
         None \<Rightarrow> (Inr (respond 404 (error_text ''Account not found'')), s)
       | Some sus \<Rightarrow> (case drop_providers env bk ''Provider owner suspended''
             (providers_billing (provider_billing_principals_for_owner user (sy_db s)) (sy_hub s)) s of
           (_, s') \<Rightarrow> (Inr (respond 200 [(''ok'', JBool True), (''suspension'', suspension_json sus)]), s'))) sys)"

definition unsuspend_account_route :: "admin_call \<Rightarrow> string \<Rightarrow> string \<Rightarrow> flt \<Rightarrow> system \<Rightarrow> sys_handled" where
  "unsuspend_account_route ad user reason now sys = (if \<not> is_admin ad sys then refuse_route admin_required_response sys
     else on_store (unsuspend_user user (str_strip reason) (admin_actor ad sys) now (sy_db sys)) (\<lambda>hit s.
       (Inr (if hit then respond 200 [(''ok'', JBool True)] else respond 404 (error_text ''Account not found'')), s)) sys)"

text \<open>Views: the refusal, or the rows.\<close>

definition list_accounts_route :: "admin_call \<Rightarrow> flt \<Rightarrow> system \<Rightarrow> http_response + admin_user list" where
  "list_accounts_route ad now sys = (if \<not> is_admin ad sys then Inl admin_required_response else Inr (list_users_for_admin 500 now (sy_db sys)))"

definition list_account_actions_route :: "admin_call \<Rightarrow> string option \<Rightarrow> system \<Rightarrow> http_response + account_action list" where
  "list_account_actions_route ad user sys = (if \<not> is_admin ad sys then Inl admin_required_response
     else Inr (list_account_actions user 200 (sy_db sys)))"

definition signups_route :: "admin_call \<Rightarrow> flt \<Rightarrow> system \<Rightarrow> http_response + signup_report" where
  "signups_route ad now sys = (if \<not> is_admin ad sys then Inl admin_required_response else Inr (signup_analytics now (sy_db sys)))"

subsection \<open>Controls, queue and providers\<close>

definition controls_view :: "flt \<Rightarrow> operator_controls \<Rightarrow> 'cb hub \<Rightarrow> trace" where
  "controls_view timeout c h = controls_snapshot c @ [(''queue_length'', JInt (int (pending_queue_size h))),
     (''queue_max_depth'', JInt (hub_max_depth h)), (''queue_timeout_seconds'', JFloat timeout),
     (''providers_connected'', JInt (int (provider_count h))), (''runtime_changes_persist'', JBool False)]"

definition get_controls_route :: "admin_call \<Rightarrow> flt \<Rightarrow> operator_controls \<Rightarrow> system \<Rightarrow> http_response" where
  "get_controls_route ad timeout c sys = (if \<not> is_admin ad sys then admin_required_response else respond 200 (controls_view timeout c (sy_hub sys)))"

definition update_controls_route :: "admin_call \<Rightarrow> flt \<Rightarrow> bool option \<Rightarrow> bool option \<Rightarrow> int option \<Rightarrow> operator_controls \<Rightarrow> system
    \<Rightarrow> http_response \<times> operator_controls" where
  "update_controls_route ad timeout paused signup_off limit c sys = (
     if \<not> is_admin ad sys then (admin_required_response, c)
     else if (case limit of None \<Rightarrow> False | Some n \<Rightarrow> n < 0)
       then (respond 400 (error_text ''max_concurrent_per_account must be 0 (no limit) or more''), c)
     else (case controls_update paused signup_off limit c of (_, c') \<Rightarrow> (respond 200 (controls_view timeout c' (sy_hub sys)), c')))"

definition clear_queue_route :: "admin_call \<Rightarrow> session_env \<Rightarrow> bill_clock \<Rightarrow> system \<Rightarrow> sys_handled" where
  "clear_queue_route ad env bk sys = (if \<not> is_admin ad sys then refuse_route admin_required_response sys
     else (case clear_queue (sy_hub sys) of
       (n, he) \<Rightarrow> (Inr (respond 200 [(''ok'', JBool True), (''cleared'', JInt (int n))]), hub_effects env bk he sys)))"

definition revoke_provider_token_route :: "admin_call \<Rightarrow> session_env \<Rightarrow> string \<Rightarrow> flt \<Rightarrow> bill_clock \<Rightarrow> system \<Rightarrow> sys_handled" where
  "revoke_provider_token_route ad env tid now bk sys = (if \<not> is_admin ad sys then refuse_route admin_required_response sys
     else on_store (revoke_provider_token tid now (sy_db sys)) (\<lambda>hit s.
       if \<not> hit then (Inr (respond 404 (error_text ''Token not found or already revoked'')), s)
       else (case drop_providers env bk ''Provider token revoked'' (providers_with_token tid (sy_hub s)) s of
         (ds, s') \<Rightarrow> (Inr (respond 200 [(''ok'', JBool True), (''token_id'', JStr tid), (''disconnected'', JList (map JStr ds))]), s'))) sys)"

definition not_connected_response :: http_response where
  "not_connected_response = respond 404 (error_text ''Provider not connected'')"

definition quarantine_route :: "admin_call \<Rightarrow> string \<Rightarrow> bool \<Rightarrow> string \<Rightarrow> system \<Rightarrow> sys_handled" where
  "quarantine_route ad pid on reason sys = (if \<not> is_admin ad sys then refuse_route admin_required_response sys
     else (case set_quarantine pid on (str_strip reason) (sy_hub sys) of
       (ok, h) \<Rightarrow> (Inr (if ok then respond 200 [(''ok'', JBool True), (''provider_id'', JStr pid), (''quarantined'', JBool on)]
                       else not_connected_response), sys\<lparr>sy_hub := h\<rparr>)))"

definition disconnect_route :: "admin_call \<Rightarrow> session_env \<Rightarrow> string \<Rightarrow> bill_clock \<Rightarrow> system \<Rightarrow> sys_handled" where
  "disconnect_route ad env pid bk sys = (if \<not> is_admin ad sys then refuse_route admin_required_response sys
     else (case drop_providers env bk ''Disconnected by operator'' [pid] sys of
       (ds, s') \<Rightarrow> (Inr (if ds \<noteq> [] then respond 200 [(''ok'', JBool True), (''provider_id'', JStr pid)] else not_connected_response), s')))"

section \<open>Owners (\<open>routes_provider.py\<close>)\<close>

definition owner_id :: "admin_call \<Rightarrow> system \<Rightarrow> auth_error + string" where
  "owner_id ad sys = (case caller_claims ad sys of None \<Rightarrow> Inl InvalidCredentials
     | Some d \<Rightarrow> check_not_suspended (ak_suspension (ad_clock ad)) (claim_text d ''user_id'') (sy_db sys))"

text \<open>The identity for enrolment: an Authorization header must be a session token, and is used alone; a
  cookie changes state only from the deployed origin. \<open>base\<close> is the request's base URL.\<close>

datatype management_error = NotSignedIn auth_error | NotPermitted string nat

definition header_owner :: "admin_call \<Rightarrow> string \<Rightarrow> system \<Rightarrow> trace option" where
  "header_owner ad auth sys = (
     if \<not> starts_with ''bearer '' (str_lower auth) then None
     else (let raw = str_strip (drop 7 auth) in
       if starts_with ''sk-ie-'' raw \<or> starts_with ''pt-ie-'' raw then None
       else (case verify_jwt (ap_token (ad_auth ad)) (ak_token (ad_clock ad)) raw of
         None \<Rightarrow> None
       | Some d \<Rightarrow> if d = [] then None
           else (case get_session_version (claim_text d ''user_id'') (sy_db sys) of
             None \<Rightarrow> if dict_get d ''sv'' (JInt 0) = JNull then Some d else None
           | Some v \<Rightarrow> if json_num (dict_get d ''sv'' (JInt 0)) = Some (of_int v) then Some d else None))))"

definition origin_allowed :: "admin_call \<Rightarrow> string \<Rightarrow> bool" where
  "origin_allowed ad base = (let e = ap_env (ad_auth ad); public = rstrip_char (CHR ''/'') (dict_get e ''IE_PUBLIC_URL'' '''');
       allowed = (if public = '''' \<and> \<not> is_production e then rstrip_char (CHR ''/'') base else public)
     in allowed \<noteq> '''' \<and> dict_get (hr_headers (ad_request ad)) ''origin'' '''' = allowed)"

definition management_owner :: "admin_call \<Rightarrow> string \<Rightarrow> bool \<Rightarrow> system \<Rightarrow> management_error + string" where
  "management_owner ad base mutation sys = (let auth = dict_get (hr_headers (ad_request ad)) ''authorization'' '''';
       user = (if auth \<noteq> '''' then header_owner ad auth sys else caller_claims ad sys)
     in case user of
          None \<Rightarrow> Inl (NotSignedIn InvalidCredentials)
        | Some d \<Rightarrow>
            if auth = '''' \<and> mutation \<and> \<not> origin_allowed ad base then Inl (NotPermitted ''CSRF check failed'' 403)
            else (case check_not_suspended (ak_suspension (ad_clock ad)) (claim_text d ''user_id'') (sy_db sys) of
              Inl x \<Rightarrow> Inl (NotSignedIn x)
            | Inr w \<Rightarrow> if is_github_linked_user w (sy_db sys) then Inr w
                else Inl (NotPermitted ''A linked GitHub identity is required'' 403)))"

definition management_response :: "management_error \<Rightarrow> http_response" where
  "management_response x = (case x of NotSignedIn a \<Rightarrow> auth_error_response a | NotPermitted msg status \<Rightarrow> respond (int status) (error_text msg))"

text \<open>The body of an enrolment: name and profile, \<open>None\<close> when it has another shape. The rate limiter is
  consulted before the body is read.\<close>

definition enroll_route :: "admin_call \<Rightarrow> string \<Rightarrow> (string \<times> string) option \<Rightarrow> flt \<Rightarrow> flt \<Rightarrow> string \<Rightarrow> string \<Rightarrow> string \<Rightarrow> string
    \<Rightarrow> enrollment_rate \<Rightarrow> system \<Rightarrow> sys_handled \<times> enrollment_rate" where
  "enroll_route ad base body t1 t2 h i j k rate sys = (case management_owner ad base True sys of
     Inl x \<Rightarrow> (refuse_route (management_response x) sys, rate)
   | Inr w \<Rightarrow>
       if dict_get (ap_env (ad_auth ad)) ''IE_PROVIDER_SELF_ENROLL_ENABLED'' ''0'' \<noteq> ''1''
       then (refuse_route (respond 503 (error_text ''Provider enrollment is not enabled'')) sys, rate)
       else (case enroll_allow w (caller_address (ad_request ad)) t1 rate of
         (False, rate') \<Rightarrow> (refuse_route (respond 429 (error_text ''Too many enrollment attempts'')) sys, rate')
       | (True, rate') \<Rightarrow> ((case body of
           None \<Rightarrow> refuse_route (respond 400 (error_text ''Invalid enrollment request'')) sys
         | Some (name, profile) \<Rightarrow>
             (case enroll_provider_node (ap_sha (ad_auth ad)) w name profile t2 h i j k (sy_db sys) of
                (Inl (ProviderOwnershipError msg status), db) \<Rightarrow> (Inr (respond (int status) (error_text msg)), on_db (\<lambda>_. db) sys)
              | (Inl (ValueError _), db) \<Rightarrow> (Inr (respond 400 (error_text ''Invalid enrollment request'')), on_db (\<lambda>_. db) sys)
              | (Inl x, db) \<Rightarrow> (Inl x, on_db (\<lambda>_. db) sys)
              | (Inr r, db) \<Rightarrow> (Inr (respond 201 [(''node'', JObj [(''node_id'', JStr (enr_node r)), (''name'', JStr (enr_name r)),
                     (''status'', JStr (enr_status r)), (''profile'', JStr (enr_profile r))]),
                   (''credential'', JObj [(''token_id'', JStr (enr_token_id r)), (''token'', JStr (enr_token r))]),
                   (''simulated_credits'', JBool True)]), on_db (\<lambda>_. db) sys))), rate')))"

definition list_owned_credentials_route :: "admin_call \<Rightarrow> string \<Rightarrow> system
    \<Rightarrow> http_response + (string \<times> string option \<times> string \<times> flt \<times> flt option \<times> int \<times> flt option) list" where
  "list_owned_credentials_route ad base sys = (case management_owner ad base False sys of
     Inl x \<Rightarrow> Inl (management_response x) | Inr w \<Rightarrow> Inr (list_owned_self_service_credentials w (sy_db sys)))"

definition revoke_owned_credential_route :: "admin_call \<Rightarrow> session_env \<Rightarrow> string \<Rightarrow> string \<Rightarrow> flt \<Rightarrow> bill_clock \<Rightarrow> system \<Rightarrow> sys_handled" where
  "revoke_owned_credential_route ad env base tid now bk sys = (case management_owner ad base True sys of
     Inl x \<Rightarrow> refuse_route (management_response x) sys
   | Inr w \<Rightarrow> (case revoke_owned_self_service_credential w tid now (sy_db sys) of
       (Inl (ProviderOwnershipError msg status), db) \<Rightarrow> (Inr (respond (int status) (error_text msg)), on_db (\<lambda>_. db) sys)
     | (Inl x, db) \<Rightarrow> (Inl x, on_db (\<lambda>_. db) sys)
     | (Inr False, db) \<Rightarrow> (Inr (respond 404 (error_text ''Credential not found'')), on_db (\<lambda>_. db) sys)
     | (Inr True, db) \<Rightarrow> (case drop_providers env bk ''Provider credential revoked'' (providers_with_token tid (sy_hub sys)) (on_db (\<lambda>_. db) sys) of
         (ds, s') \<Rightarrow> (Inr (respond 200 [(''ok'', JBool True), (''token_id'', JStr tid), (''disconnected'', JList (map JStr ds))]), s'))))"

subsection \<open>An owner's nodes\<close>

definition owned_sessions :: "string \<Rightarrow> owned_node \<Rightarrow> system \<Rightarrow> connected_provider list" where
  "owned_sessions w n sys = rev (sort_key cp_connected_at (rev (filter (\<lambda>p. cp_billing p = own_node_billing n
     \<and> get_provider_node_owner (own_node_id n) (cp_billing p) (sy_db sys) = Some w) (map snd (hub_providers (sy_hub sys))))))"

definition node_status :: "connected_provider list \<Rightarrow> string" where
  "node_status live = (if \<exists>p \<in> set live. 0 < cp_active p then ''busy'' else if live \<noteq> [] then ''online'' else ''offline'')"

definition newest_heartbeat :: "connected_provider list \<Rightarrow> json" where
  "newest_heartbeat live = (if live = [] then JNull else JFloat (Max (set (map cp_last_heartbeat live))))"

definition owned_node_json :: "flt \<Rightarrow> string \<Rightarrow> system \<Rightarrow> owned_node \<Rightarrow> json" where
  "owned_node_json now w sys n = (let live = owned_sessions w n sys; p = (case live of [] \<Rightarrow> None | p # _ \<Rightarrow> Some p) in
     JObj [(''node_id'', JStr (own_node_id n)), (''name'', JStr (own_node_name n)), (''created_at'', JFloat (own_node_created n)),
       (''status'', JStr (node_status live)), (''active_connections'', JInt (int (length live))),
       (''models'', JList (case p of None \<Rightarrow> [] | Some q \<Rightarrow> map JStr (pc_models (cp_caps q)))),
       (''hardware_claim'', j_opt (\<lambda>q. JStr (pc_hardware (cp_caps q))) p), (''claimed_trust_level'', j_opt (\<lambda>q. JStr (trust_claim q)) p),
       (''verified_trust_level'', j_opt JStr (Option.bind p (verified_trust_level now))),
       (''price_input_per_mtok'', j_opt (\<lambda>q. JFloat (pc_price_in (cp_caps q))) p),
       (''price_output_per_mtok'', j_opt (\<lambda>q. JFloat (pc_price_out (cp_caps q))) p),
       (''max_concurrent'', j_opt (\<lambda>q. JInt (pc_max_concurrent (cp_caps q))) p),
       (''last_heartbeat'', newest_heartbeat live)])"

definition owned_nodes_route :: "admin_call \<Rightarrow> flt \<Rightarrow> system \<Rightarrow> http_response" where
  "owned_nodes_route ad now sys = (case owner_id ad sys of
     Inl x \<Rightarrow> auth_error_response x
   | Inr w \<Rightarrow> respond 200 [(''nodes'', JList (map (owned_node_json now w sys) (list_owned_provider_nodes w (sy_db sys)))),
       (''simulated_credits'', JBool True)])"

definition owned_earnings_route :: "admin_call \<Rightarrow> string option \<Rightarrow> int \<Rightarrow> int option \<Rightarrow> flt \<Rightarrow> system \<Rightarrow> http_response + store_error + earnings_report" where
  "owned_earnings_route ad node limit before_id now sys = (case owner_id ad sys of
     Inl x \<Rightarrow> Inl (auth_error_response x)
   | Inr w \<Rightarrow> (case get_owned_provider_earnings w node limit before_id now (sy_db sys) of
       Inl e \<Rightarrow> Inr (Inl e)
     | Inr None \<Rightarrow> Inl (respond 404 (error_text ''Provider node not found''))
     | Inr (Some page) \<Rightarrow> Inr (Inr page)))"

end
