(* ===== verification/OperatorLaws.thy ===== *)
theory OperatorLaws
  imports OperatorRoutes SessionLaws AuthLaws
begin

text \<open>
  What the operator's and the owner's actions guarantee on the running system: a revoked credential earns
  nothing more and its connections are gone for good, a suspended owner's providers leave the hub and cannot
  come back while the suspension lasts, and an owner's credentials change only for a signed-in, unsuspended
  caller with a linked identity from the deployed origin.
\<close>

section \<open>Forced disconnects\<close>

lemma force_disconnect_gone: "map_of (hub_providers (fst (snd (force_disconnect pid reason h)))) pid = None"
  using disconnect_gone [of pid h] by (cases "disconnect_provider pid h") (auto simp: force_disconnect_def)

lemma inherits_gone: "inherits h h' \<Longrightarrow> map_of (hub_providers h) pid = None \<Longrightarrow> map_of (hub_providers h') pid = None"
  unfolding inherits_def by (metis not_None_eq option.distinct(1))

lemma drop_providers_result:
  assumes "drop_providers env bk reason pids sys = (ds, sys')"
  shows "inherits (sy_hub sys) (sy_hub sys') \<and> (\<forall>pid \<in> set pids. map_of (hub_providers (sy_hub sys')) pid = None)
    \<and> sy_sessions sys' = sy_sessions sys \<and> store_reach (se_sha env) (sy_db sys) (sy_db sys')"
  using assms
proof (induction pids arbitrary: sys ds)
  case Nil
  then show ?case by (simp add: inherits_same store_reach_refl)
next
  case (Cons pid pids)
  obtain ok he where f: "force_disconnect pid reason (sy_hub sys) = (ok, he)" by (rule prod.exhaust)
  obtain ds1 sys1 where d: "drop_providers env bk reason pids (hub_effects env bk he sys) = (ds1, sys1)" by force
  have s: "sys1 = sys'" using Cons.prems by (simp add: f d)
  note ih = Cons.IH [OF d [unfolded s]]
  have i: "inherits (sy_hub sys) (sy_hub (hub_effects env bk he sys))"
    using force_disconnect_inherits [of "sy_hub sys" pid reason] by (simp add: f)
  have g: "map_of (hub_providers (sy_hub (hub_effects env bk he sys))) pid = None"
    using force_disconnect_gone [of pid reason "sy_hub sys"] by (simp add: f)
  show ?case using ih inherits_trans [OF i] inherits_gone [OF _ g] store_reach_trans [OF reach_effects [of _ sys env bk he]]
    by auto
qed

section \<open>Revocation\<close>

text \<open>A credential is shut for an account: its row is revoked, and no connected provider earns for the account.\<close>

definition shut :: "provider_token \<Rightarrow> string \<Rightarrow> system \<Rightarrow> bool" where
  "shut t b sys \<longleftrightarrow> tok_billing t = Some b \<and> token_kept t (sy_db sys) \<and> token_revoked (tok_hash t) (sy_db sys)
     \<and> (\<forall>pid p. map_of (hub_providers (sy_hub sys)) pid = Some p \<longrightarrow> cp_billing p \<noteq> b)"

lemma distinct_non_null:
  "distinct (non_null (map g rows)) \<Longrightarrow> x \<in> set rows \<Longrightarrow> y \<in> set rows \<Longrightarrow> g x = Some b \<Longrightarrow> g y = Some b \<Longrightarrow> x = y"
proof (induction rows)
  case (Cons r rows)
  have n: "b \<in> set (non_null (map g rows))" if "z \<in> set rows" "g z = Some b" for z
    using that by (force simp: set_non_null)
  show ?case using Cons n by (cases "g r") auto
qed simp

lemma billing_unique:
  assumes "db_ok db" "t \<in> set (db_tokens db)" "s \<in> set (db_tokens db)" "tok_billing t = Some b" "tok_billing s = Some b"
  shows "t = s"
  using assms distinct_non_null [of tok_billing "db_tokens db"] by (simp add: db_ok_def tokens_ok_def)

lemma hash_unique:
  assumes "db_ok db" "t \<in> set (db_tokens db)" "s \<in> set (db_tokens db)" "tok_hash t = tok_hash s"
  shows "t = s"
  using assms by (auto simp: db_ok_def tokens_ok_def distinct_map inj_on_def)

lemma dev_or_acct: "starts_with PROVIDER_ACCT_PREFIX b \<Longrightarrow> \<not> starts_with ''provider-dev-'' b"
  unfolding starts_with_iff PROVIDER_ACCT_PREFIX_def by auto

lemma prefix_nonempty: "starts_with PROVIDER_ACCT_PREFIX b \<Longrightarrow> b \<noteq> ''''"
  by (auto simp: starts_with_def PROVIDER_ACCT_PREFIX_def)

lemma inactive_revoked:
  assumes "db_ok db" "token_revoked (tok_hash t) db" shows "\<not> credential_active (Some t) now db"
proof -
  have "find (\<lambda>x. tok_hash x = tok_hash t \<and> tok_id x = tok_id t \<and> tok_revoked x = None) (db_tokens db) = None"
    using assms hash_unique [OF assms(1)] unfolding find_None_iff token_revoked_def by (metis option.distinct(1))
  then show ?thesis by (simp add: credential_active_def provider_credential_is_active_def)
qed

lemma kept_prefixed: "token_kept t db \<Longrightarrow> tokens_prefixed db \<Longrightarrow> tok_billing t = Some b \<Longrightarrow> starts_with PROVIDER_ACCT_PREFIX b"
  by (auto simp: token_kept_def tokens_prefixed_def)

lemma shut_step:
  assumes "step_is env k sys sys'" "store_reach (se_sha env) (sy_db sys) (sy_db sys')" "credited env sys" "shut t b sys"
  shows "shut t b sys'"
proof -
  have c: "db_ok (sy_db sys)" "tokens_prefixed (sy_db sys)"
    "\<And>i info headers. map_of (sy_sessions sys) i = Some (Waiting info headers) \<Longrightarrow> (case info of None \<Rightarrow> \<not> se_production env | Some t \<Rightarrow> token_kept t (sy_db sys))"
    using assms(3) unfolding credited_def by blast+
  have s: "tok_billing t = Some b" "token_kept t (sy_db sys)" "token_revoked (tok_hash t) (sy_db sys)"
    "\<And>pid p. map_of (hub_providers (sy_hub sys)) pid = Some p \<Longrightarrow> cp_billing p \<noteq> b"
    using assms(4) unfolding shut_def by blast+
  note kp = reach_keeps [OF assms(2) c(1)]
  have inh: "cp_billing p \<noteq> b" if "inherits (sy_hub sys) (sy_hub sys')" "map_of (hub_providers (sy_hub sys')) pid = Some p" for pid p
    using that s(4) unfolding inherits_def same_binding_def by metis
  have "cp_billing p \<noteq> b" if m: "map_of (hub_providers (sy_hub sys')) pid = Some p" for pid p
  proof (cases k)
    case (Registered i info headers reg hex devhex clk)
    with assms(1) have w: "map_of (sy_sessions sys) i = Some (Waiting info headers)" "credential_active info (clk 0) (sy_db sys)"
      "sy_hub sys' = registered_hub env info headers reg hex devhex clk (sy_hub sys)" by auto
    show ?thesis
    proof (cases "map_of (hub_providers (sy_hub sys)) pid = Some p")
      case True
      then show ?thesis by (rule s(4))
    next
      case False
      then have bill: "cp_billing p = billing_of info devhex" using registered_provider [OF m [unfolded w(3)]] by blast
      note pre = kept_prefixed [OF s(2) c(2) s(1)]
      show ?thesis
      proof (cases info)
        case None
        then show ?thesis using bill dev_or_acct [OF pre] by (auto simp: billing_of_def starts_with_def)
      next
        case (Some x)
        show ?thesis
        proof
          assume "cp_billing p = b"
          then have x: "tok_billing x = Some b" using bill Some prefix_nonempty [OF pre] by (cases "tok_billing x") (auto simp: billing_of_def)
          have "token_kept x (sy_db sys)" using c(3) [OF w(1)] Some by simp
          with s(1,2) x have "tok_hash x = tok_hash t" unfolding token_kept_def using billing_unique [OF c(1)] by metis
          with inactive_revoked [OF c(1), of x] s(3) w(2) Some show False by simp
        qed
      qed
    qed
  qed (use assms(1) m inh inherits_same [of "sy_hub sys'" "sy_hub sys"] in auto)
  then show ?thesis unfolding shut_def using s(1) kp(2) [OF s(2)] kp(4) [OF s(3)] by blast
qed

lemma shut_run:
  assumes "list_all foreign_op xs" "credited env sys" "shut t b sys"
  shows "credited env (sys_run env xs sys) \<and> shut t b (sys_run env xs sys)"
  using assms(1)
proof (induction xs rule: rev_induct)
  case Nil
  then show ?case using assms(2,3) by (simp add: sys_run_def)
next
  case (snoc x xs)
  then have i: "credited env (sys_run env xs sys)" "shut t b (sys_run env xs sys)" and f: "foreign_op x" by auto
  obtain k where k: "step_is env k (sys_run env xs sys) (fst (sys_step env x (sys_run env xs sys)))" using sys_step_shape [OF f] by blast
  show ?case unfolding sys_run_snoc using credited_step [OF k sys_step_store i(1)] shut_step [OF k sys_step_store i] by blast
qed

lemma credited_inherits:
  assumes "credited env sys" "inherits (sy_hub sys) (sy_hub sys')" "sy_sessions sys' = sy_sessions sys"
    "store_reach (se_sha env) (sy_db sys) (sy_db sys')"
  shows "credited env sys'"
proof -
  have c: "db_ok (sy_db sys)" "tokens_prefixed (sy_db sys)"
    "\<And>i info headers. map_of (sy_sessions sys) i = Some (Waiting info headers) \<Longrightarrow> (case info of None \<Rightarrow> \<not> se_production env | Some t \<Rightarrow> token_kept t (sy_db sys))"
    "\<forall>pid p. map_of (hub_providers (sy_hub sys)) pid = Some p \<longrightarrow> cp_id p = pid \<and> bound env (sy_db sys) (cp_token p) (cp_billing p)"
    using assms(1) unfolding credited_def by blast+
  note kp = reach_keeps [OF assms(4) c(1)]
  have "cp_id p = pid \<and> bound env (sy_db sys') (cp_token p) (cp_billing p)"
    if "map_of (hub_providers (sy_hub sys')) pid = Some p" for pid p
    using credited_providers_inherit [OF assms(2) c(4) that] bound_kept kp(2) by blast
  moreover have "case info of None \<Rightarrow> \<not> se_production env | Some t \<Rightarrow> token_kept t (sy_db sys')"
    if "map_of (sy_sessions sys') i = Some (Waiting info headers)" for i info headers
    using c(3) [OF that [unfolded assms(3)]] kp(2) by (auto split: option.splits)
  ultimately show ?thesis unfolding credited_def using kp(1,3) c(2) by blast
qed

subsection \<open>The two endpoints\<close>

lemma management_refuses: "management_owner ad base m sys = Inl x \<Longrightarrow> rs_status (management_response x) \<noteq> 200"
  by (auto simp: management_owner_def management_response_def auth_error_response_def check_not_suspended_def respond_def Let_def
      invalid_credentials_response_def account_suspended_response_def split: option.splits if_splits sum.splits auth_error.splits)

lemma revoke_token_row:
  assumes "revoke_provider_token i now db = (Inr hit, db')" "t \<in> set (db_tokens db)" "tok_id t = i"
  shows "token_revoked (tok_hash t) db' \<and> store_reach sha db db'"
  using revoke_revokes [OF assms(2,3), of now] store_reach_one [of sha db "RevokeProviderToken i now"] assms(1) by simp

lemma self_service_unique:
  assumes "db_ok db" "t \<in> set (db_tokens db)" "s \<in> set (db_tokens db)" "tok_source t = ''self_service''" "tok_source s = ''self_service''"
    "tok_id t = tok_id s"
  shows "t = s"
  using assms by (auto simp: db_ok_def tokens_ok_def distinct_map inj_on_def)

lemma revoke_owned_row:
  assumes "revoke_owned_self_service_credential w i now db = (Inr True, db')" "t \<in> set (db_tokens db)" "tok_id t = i"
    "tok_source t = ''self_service''" "db_ok db"
  shows "token_revoked (tok_hash t) db' \<and> store_reach sha db db'"
proof
  show "store_reach sha db db'" using store_reach_one [of sha db "RevokeOwnedCredential w i now"] assms(1) by simp
  have l: "starts_with TOKEN_ID_PREFIX i" "length i \<le> 80" using assms(1) by (auto simp: revoke_owned_self_service_credential_def split: if_splits)
  obtain x where x: "find (\<lambda>t. tok_id t = i \<and> tok_revoked t = None \<and> owned_credential w db t) (db_tokens db) = Some x"
    using assms(1) l by (auto simp: revoke_owned_self_service_credential_def ownership_write_def Let_def split: option.splits)
  from find_Some_in [OF this] have "x = t" using self_service_unique [OF assms(5,2), of x] assms(3,4) by (auto simp: owned_credential_def)
  with assms(1) l x have "db_tokens db' = sql_update (\<lambda>s. tok_hash s = tok_hash t \<and> tok_revoked s = None) (\<lambda>s. s\<lparr>tok_revoked := Some now\<rparr>) (db_tokens db)"
    by (auto simp: revoke_owned_self_service_credential_def ownership_write_def Let_def bindE_def ins_own_def split: if_splits)
  then show "token_revoked (tok_hash t) db'" using assms(2)
    by (auto simp: token_revoked_def set_sql_update intro!: bexI [of _ "if tok_revoked t = None then t\<lparr>tok_revoked := Some now\<rparr> else t"])
qed

lemma revoke_owned_status:
  "revoke_owned_self_service_credential w i now db = (Inl (ProviderOwnershipError msg status), db') \<Longrightarrow> status \<noteq> 200"
  by (auto simp: revoke_owned_self_service_credential_def ownership_write_def Let_def bindE_def ins_own_def split: if_splits option.splits)

text \<open>Dropping the providers of a revoked token shuts its account.\<close>

lemma dropping_shuts:
  assumes "credited env sys" "t \<in> set (db_tokens (sy_db sys))" "tok_id t \<noteq> ''''" "tok_billing t = Some b"
    "token_revoked (tok_hash t) db'" "store_reach (se_sha env) (sy_db sys) db'"
    "drop_providers env bk reason (providers_with_token (tok_id t) (sy_hub sys)) (on_db (\<lambda>_. db') sys) = (ds, sys1)"
  shows "credited env sys1 \<and> shut t b sys1"
proof -
  note d = drop_providers_result [OF assms(7)]
  have r: "store_reach (se_sha env) (sy_db sys) (sy_db sys1)" using store_reach_trans [OF assms(6)] d by simp
  have c: "db_ok (sy_db sys)" "tokens_prefixed (sy_db sys)"
    "\<And>pid p. map_of (hub_providers (sy_hub sys)) pid = Some p \<Longrightarrow> bound env (sy_db sys) (cp_token p) (cp_billing p)"
    using assms(1) unfolding credited_def by blast+
  have kept: "token_kept t (sy_db sys)" using assms(2) by (auto simp: token_kept_def)
  note pre = kept_prefixed [OF kept c(2) assms(4)]
  have "cp_billing p \<noteq> b" if m: "map_of (hub_providers (sy_hub sys1)) pid = Some p" for pid p
  proof
    assume b: "cp_billing p = b"
    obtain q where q: "map_of (hub_providers (sy_hub sys)) pid = Some q" "cp_token q = cp_token p" "cp_billing q = b"
      using d m b unfolding inherits_def same_binding_def by (auto; metis)
    have "cp_token q = tok_id t"
    proof -
      from c(3) [OF q(1)] q(3) dev_or_acct [OF pre] obtain s where s: "s \<in> set (db_tokens (sy_db sys))" "tok_id s = cp_token q" "dflt '''' (tok_billing s) = b"
        by (auto simp: bound_def)
      then have "tok_billing s = Some b" using prefix_nonempty [OF pre] by (cases "tok_billing s") auto
      from billing_unique [OF c(1) s(1) assms(2) this assms(4)] s(2) show ?thesis by simp
    qed
    then have "pid \<in> set (providers_with_token (tok_id t) (sy_hub sys))"
      using map_of_SomeD [OF q(1)] assms(3) by (force simp: providers_with_token_def)
    with d m show False by auto
  qed
  moreover have "credited env sys1" by (rule credited_inherits [OF assms(1) _ _ r]) (use d in auto)
  moreover note kp = reach_keeps [OF r c(1)]
  moreover have "token_revoked (tok_hash t) (sy_db sys1)"
    using reach_keeps(4) [OF conjunct2 [OF conjunct2 [OF conjunct2 [OF d]]] _ ] assms(5) reach_keeps(1) [OF assms(6) c(1)] by simp
  ultimately show ?thesis using kp(2) [OF kept] assms(4) unfolding shut_def by blast
qed

text \<open>C8: Revoking a credential cuts off its earnings for good. Once the operator, or the owner of a self-service
  credential, has revoked a credential and the coordinator has answered 200, no provider that earns for the
  credential's account is connected, and none connects again in any later interleaving: neither a connection
  that was still waiting with the revoked credential nor a new one.\<close>

theorem revocation_cuts_off:
  assumes "list_all foreign_op xs" "list_all foreign_op ys" "sv_db sv = store_run (se_sha env) earlier empty_db"
    "sys = sys_run env xs (new_system depth sv file)"
    "t \<in> set (db_tokens (sy_db sys))" "tok_id t \<noteq> ''''" "tok_billing t = Some b"
    "revoke_provider_token_route ad env (tok_id t) now bk sys = (Inr rs, sys1)
     \<or> tok_source t = ''self_service'' \<and> revoke_owned_credential_route ad env base (tok_id t) now bk sys = (Inr rs, sys1)"
    "rs_status rs = 200"
  shows "b \<notin> cp_billing ` ran (map_of (hub_providers (sy_hub (sys_run env ys sys1))))"
proof -
  have c: "credited env sys" unfolding assms(4) by (rule credited_run [OF assms(1) credited_start]) (rule assms(3))
  have "\<exists>db' ds reason. token_revoked (tok_hash t) db' \<and> store_reach (se_sha env) (sy_db sys) db'
      \<and> drop_providers env bk reason (providers_with_token (tok_id t) (sy_hub sys)) (on_db (\<lambda>_. db') sys) = (ds, sys1)"
    using assms(8)
  proof
    assume r: "revoke_provider_token_route ad env (tok_id t) now bk sys = (Inr rs, sys1)"
    obtain res db' where v: "revoke_provider_token (tok_id t) now (sy_db sys) = (res, db')" by force
    from r assms(9) obtain hit where "res = Inr hit" and "\<exists>ds. drop_providers env bk ''Provider token revoked'' (providers_with_token (tok_id t) (sy_hub sys)) (on_db (\<lambda>_. db') sys) = (ds, sys1)"
      by (auto simp: revoke_provider_token_route_def refuse_route_def admin_required_response_def respond_def on_store_def v split: if_splits sum.splits prod.splits)
    with revoke_token_row [OF v [unfolded \<open>res = Inr hit\<close>] assms(5) refl] show ?thesis by blast
  next
    assume "tok_source t = ''self_service'' \<and> revoke_owned_credential_route ad env base (tok_id t) now bk sys = (Inr rs, sys1)"
    then have o: "tok_source t = ''self_service''" "revoke_owned_credential_route ad env base (tok_id t) now bk sys = (Inr rs, sys1)" by auto
    show ?thesis
    proof (cases "management_owner ad base True sys")
      case (Inl x)
      then show ?thesis using o(2) assms(9) management_refuses [OF Inl] by (simp add: revoke_owned_credential_route_def refuse_route_def)
    next
      case (Inr w)
      obtain res db' where v: "revoke_owned_self_service_credential w (tok_id t) now (sy_db sys) = (res, db')" by force
      have "res = Inr True \<and> (\<exists>ds. drop_providers env bk ''Provider credential revoked'' (providers_with_token (tok_id t) (sy_hub sys)) (on_db (\<lambda>_. db') sys) = (ds, sys1))"
        using o(2) assms(9) revoke_owned_status [of w "tok_id t" now "sy_db sys"]
        by (auto simp: revoke_owned_credential_route_def Inr v respond_def split: sum.splits store_error.splits bool.splits prod.splits)
      with revoke_owned_row [OF _ assms(5) refl o(1)] v c show ?thesis unfolding credited_def by blast
    qed
  qed
  then have "credited env sys1 \<and> shut t b sys1" using dropping_shuts [OF c assms(5-7)] by blast
  with shut_run [OF assms(2)] have "shut t b (sys_run env ys sys1)" by blast
  then show ?thesis unfolding shut_def ran_def by blast
qed

text \<open>A development coordinator with one credential: a provider connects with it, and the open administration
  of an installation without users revokes it.\<close>

definition sample_token :: provider_token where
  "sample_token = new_token ''pt-ie-1'' ''n'' ''provider-acct-b1'' 0"

definition token_services :: services where
  "token_services = sample_services\<lparr>sv_db := store_run id [CreateProviderToken ''n'' ''1'' ''b1'' 0] empty_db\<rparr>"

definition token_handshake :: handshake where
  "token_handshake = \<lparr>hk_headers = [(''authorization'', ''Bearer pt-ie-1'')], hk_query = []\<rparr>"

definition token_connect :: "sys_op list" where
  "token_connect = [Open 0 token_handshake (\<lambda>_. 1), FirstFrame 0 '''' ''ab'' ''cd'' (\<lambda>_. 2)]"

definition token_system :: system where
  "token_system = sys_run sample_session_env token_connect (new_system 50 token_services [])"

definition open_admin :: admin_call where
  "open_admin = \<lparr>ad_auth = \<lparr>ap_sha = id, ap_token = \<lparr>te_mac = (\<lambda>_. ''''), te_dumps = (\<lambda>_. ''''), te_loads = (\<lambda>_. None)\<rparr>, ap_env = [],
     ap_clock = (\<lambda>_. 3)\<rparr>, ad_clock = \<lparr>ak_token = 3, ak_key = 3, ak_suspension = 3\<rparr>,
     ad_request = \<lparr>hr_cookies = [], hr_headers = [], hr_client = None\<rparr>\<rparr>"

lemma sample_token_fields [simp]: "tok_hash sample_token = ''pt-ie-1''" "tok_id sample_token = ''pt-ie-1''"
  "tok_billing sample_token = Some ''provider-acct-b1''" "tok_node sample_token = None" "tok_source sample_token = ''admin''"
  by (simp_all add: sample_token_def new_token_def)

lemma token_services_db: "sv_db token_services = empty_db\<lparr>db_tokens := [sample_token]\<rparr>"
  by (simp add: token_services_def store_run_def create_provider_token_def serialized_write_def Let_def bindE_def ins_token_def sql_exists_def
      sample_token_def new_token_def empty_db_def PROVIDER_TOKEN_PREFIX_def PROVIDER_ACCT_PREFIX_def)

definition token_waiting :: system where
  "token_waiting = (new_system 50 (token_services\<lparr>sv_db := empty_db\<lparr>db_tokens := [touch_token 1 sample_token]\<rparr>\<rparr>) [])
     \<lparr>sy_guard := \<lparr>rg_pending = 1, rg_attempts = [(''pt-ie-1'', [1])]\<rparr>, sy_sessions := [(0, Waiting (Some sample_token) [(''authorization'', ''Bearer pt-ie-1'')])]\<rparr>"

lemma token_opened: "fst (sys_step sample_session_env (Open 0 token_handshake (\<lambda>_. 1)) (new_system 50 token_services [])) = token_waiting"
proof -
  have l: "str_lower ''Bearer '' = ''bearer ''" "str_strip ''pt-ie-1'' = ''pt-ie-1''" by code_simp+
  have p: "presented_token sample_session_env token_handshake = Inr ''pt-ie-1''"
    by (simp add: presented_token_def token_handshake_def dict_get_def l)
  have v: "validate_provider_token id ''pt-ie-1'' 1 (empty_db\<lparr>db_tokens := [sample_token]\<rparr>)
      = (Inr (Some sample_token), empty_db\<lparr>db_tokens := [touch_token 1 sample_token]\<rparr>)"
    by (simp add: validate_provider_token_def serialized_write_def PROVIDER_TOKEN_PREFIX_def starts_with_def live_token_def sample_token_def new_token_def
        sql_update_def)
  have a: "admit_attempt (Some sample_token) 1 new_guard = (None, \<lparr>rg_pending = 1, rg_attempts = [(''pt-ie-1'', [1])]\<rparr>)"
    by (simp add: admit_attempt_def guard_allow_def guard_begin_def new_guard_def sample_token_def new_token_def dict_get_def
        MAX_BUCKETS_def MAX_ATTEMPTS_def MAX_INCOMPLETE_def Let_def)
  have u: "authenticate sample_session_env token_handshake 1 1 (empty_db\<lparr>db_tokens := [sample_token]\<rparr>)
      = (Inr (Some sample_token), empty_db\<lparr>db_tokens := [touch_token 1 sample_token]\<rparr>)"
    by (simp add: authenticate_def p)
      (simp add: sample_session_env_def v token_handshake_def dict_get_def owner_available_def)
  have h: "hk_headers token_handshake = [(''authorization'', ''Bearer pt-ie-1'')]" by (simp add: token_handshake_def)
  show ?thesis
    by (simp add: open_session_def new_system_def token_services_db u a h set_session_def on_db_def token_waiting_def)
qed

lemma token_connected:
  "map_of (hub_providers (sy_hub token_system)) ''provider-1'' \<noteq> None"
  "sy_db token_system = empty_db\<lparr>db_tokens := [touch_token 1 sample_token]\<rparr>"
  "\<exists>p. map_of (hub_providers (sy_hub token_system)) ''provider-1'' = Some p \<and> cp_billing p = ''provider-acct-b1''"
proof -
  have t: "token_system = fst (sys_step sample_session_env (FirstFrame 0 '''' ''ab'' ''cd'' (\<lambda>_. 2)) token_waiting)"
    using token_opened by (simp add: token_system_def token_connect_def sys_run_def del: sys_step.simps)
  have r: "parse_provider_registration (se_scan sample_session_env) (se_validate sample_session_env) (se_production sample_session_env) ''''
      = Some sample_registration" using sample_admitted by (simp add: sample_session_env_def)
  have n: "nat_str (Suc 0) = ''1''" by code_simp
  have c: "credential_active (Some sample_token) 2 (empty_db\<lparr>db_tokens := [touch_token 1 sample_token]\<rparr>)"
    by (simp add: credential_active_def provider_credential_is_active_def sample_token_def new_token_def touch_token_def)
  have w: "sy_sessions token_waiting = [(0, Waiting (Some sample_token) [(''authorization'', ''Bearer pt-ie-1'')])]"
    "sy_hub token_waiting = new_hub 50" "sy_db token_waiting = empty_db\<lparr>db_tokens := [touch_token 1 sample_token]\<rparr>"
    by (simp_all add: token_waiting_def new_system_def)
  show "map_of (hub_providers (sy_hub token_system)) ''provider-1'' \<noteq> None"
    "sy_db token_system = empty_db\<lparr>db_tokens := [touch_token 1 sample_token]\<rparr>"
    "\<exists>p. map_of (hub_providers (sy_hub token_system)) ''provider-1'' = Some p \<and> cp_billing p = ''provider-acct-b1''"
    by (simp_all add: t first_frame_def r w c register_provider_def new_hub_def Let_def bind_connection_def provider_name_def n
        billing_of_def)
qed

lemma revocation_cuts_off_witness:
  "map_of (hub_providers (sy_hub token_system)) ''provider-1'' \<noteq> None
   \<and> ''provider-acct-b1'' \<notin> cp_billing ` ran (map_of (hub_providers (sy_hub (snd
       (revoke_provider_token_route open_admin sample_session_env ''pt-ie-1'' 4 sample_bill_clock token_system)))))"
proof -
  let ?t = "touch_token 1 sample_token"
  have t: "tok_id ?t = ''pt-ie-1''" "tok_billing ?t = Some ''provider-acct-b1''" by (simp_all add: touch_token_def)
  obtain rs sys1 where r: "revoke_provider_token_route open_admin sample_session_env ''pt-ie-1'' 4 sample_bill_clock token_system = (Inr rs, sys1)" "rs_status rs = 200"
  proof -
    have p: "\<not> is_production []" by code_simp
    have a: "is_admin open_admin token_system"
      by (simp add: is_admin_def open_admin_def is_admin_request_def p token_connected(2) has_users_def sql_exists_def empty_db_def)
    have v: "fst (revoke_provider_token ''pt-ie-1'' 4 (sy_db token_system)) = Inr True"
      by (simp add: token_connected(2) revoke_provider_token_def serialized_write_def touch_token_def sql_count_def)
        (simp add: sample_token_def new_token_def)
    then obtain db' where v': "revoke_provider_token ''pt-ie-1'' 4 (sy_db token_system) = (Inr True, db')" by (metis prod.collapse)
    obtain ds s' where "drop_providers sample_session_env sample_bill_clock ''Provider token revoked''
        (providers_with_token ''pt-ie-1'' (sy_hub token_system)) (on_db (\<lambda>_. db') token_system) = (ds, s')" by force
    then show thesis
      using that [of "respond 200 [(''ok'', JBool True), (''token_id'', JStr ''pt-ie-1''), (''disconnected'', JList (map JStr ds))]" s']
      by (simp add: revoke_provider_token_route_def a on_store_def v' respond_def)
  qed
  have f: "list_all foreign_op token_connect" "list_all foreign_op []" by (simp_all add: token_connect_def foreign_op_def)
  have "''provider-acct-b1'' \<notin> cp_billing ` ran (map_of (hub_providers (sy_hub (sys_run sample_session_env [] sys1))))"
    by (rule revocation_cuts_off [OF f _ token_system_def, of "[CreateProviderToken ''n'' ''1'' ''b1'' 0]" ?t])
      (use r t in \<open>simp_all add: token_connected(2) token_services_def sample_session_env_def\<close>)
  then show ?thesis using r(1) token_connected(1) by (simp add: sys_run_def)
qed

section \<open>Suspension\<close>

lemma amend_tables:
  "db_nodes (snd (amend_request_outcome rid c m now db)) = db_nodes db" "db_users (snd (amend_request_outcome rid c m now db)) = db_users db"
  "db_tokens (snd (amend_request_outcome rid c m now db)) = db_tokens db"
  by (simp_all add: amend_request_outcome_def serialized_write_def prune_outcomes_def Let_def split: option.split)

lemma failed_outcomes_tables:
  "db_nodes (sv_db (foldl (perform cy bk) s (map OutcomeFailed rs))) = db_nodes (sv_db s)
   \<and> db_users (sv_db (foldl (perform cy bk) s (map OutcomeFailed rs))) = db_users (sv_db s)
   \<and> db_tokens (sv_db (foldl (perform cy bk) s (map OutcomeFailed rs))) = db_tokens (sv_db s)"
  by (induction rs arbitrary: s) (simp_all add: record_failed_outcome_def amend_tables)

lemma drop_providers_tables:
  "drop_providers env bk reason pids sys = (ds, sys') \<Longrightarrow>
     db_nodes (sy_db sys') = db_nodes (sy_db sys) \<and> db_users (sy_db sys') = db_users (sy_db sys) \<and> db_tokens (sy_db sys') = db_tokens (sy_db sys)"
proof (induction pids arbitrary: sys ds)
  case (Cons pid pids)
  obtain ok h es where f: "force_disconnect pid reason (sy_hub sys) = (ok, h, es)" by (rule prod_cases3)
  then have "\<exists>rs. es = map OutcomeFailed rs \<or> es = map OutcomeFailed rs @ [CloseSocket pid 4003 reason]"
    by (auto simp: force_disconnect_def disconnect_provider_def Let_def split: if_splits option.splits)
  then have "db_nodes (sy_db (hub_effects env bk (h, es) sys)) = db_nodes (sy_db sys)
      \<and> db_users (sy_db (hub_effects env bk (h, es) sys)) = db_users (sy_db sys)
      \<and> db_tokens (sy_db (hub_effects env bk (h, es) sys)) = db_tokens (sy_db sys)"
    using failed_outcomes_tables [of "se_country env" bk "sy_services sys"] by (auto simp: hub_effects_def)
  with Cons show ?case by (auto simp: f split: prod.splits)
qed simp

definition suspended_until :: "flt option \<Rightarrow> flt \<Rightarrow> flt" where
  "suspended_until duration now = (case duration of None \<Rightarrow> PERMANENT_SUSPENSION | Some d \<Rightarrow> rnd (now + d))"

lemma suspend_row:
  assumes "suspend_user u reason actor duration t1 t2 db = (Inr (Some sus), db')"
  shows "(\<exists>r. find_user u db' = Some r \<and> usr_suspended r = Some (suspended_until duration t1))
    \<and> db_nodes db' = db_nodes db \<and> db_tokens db' = db_tokens db"
proof -
  obtain y where y: "find_user u db = Some y" using assms by (auto simp: suspend_user_def serialized_write_def split: if_splits)
  moreover have "usr_id y = u" using find_Some_in [OF y [unfolded find_user_def]] by simp
  ultimately show ?thesis using assms
    by (auto simp: suspend_user_def serialized_write_def Let_def ins_act_def find_user_def find_sql_update suspended_until_def)
qed

lemma inactive_suspended:
  assumes "db_ok db" "t \<in> set (db_tokens db)" "node_of_token t db = Some n" "find_user (node_owner n) db = Some r"
    "usr_suspended r = Some until" "now < until"
  shows "\<not> credential_active (Some t) now db"
proof -
  have "x = t" if "find (\<lambda>x. tok_hash x = tok_hash t \<and> tok_id x = tok_id t \<and> tok_revoked x = None) (db_tokens db) = Some x" for x
    using find_Some_in [OF that] hash_unique [OF assms(1) _ assms(2)] by blast
  moreover have "tok_node t \<noteq> None" using find_Some_in [OF assms(3) [unfolded node_of_token_def]] by auto
  ultimately show ?thesis using assms(3-6)
    by (auto simp: credential_active_def provider_credential_is_active_def suspended_at_def split: option.splits)
qed

text \<open>C27: Suspending an account takes its providers off the market. When the operator's request is answered
  with 200, no connected provider earns for an account of the suspended owner, and until the suspension ends
  no credential of the owner's nodes passes the check before registration.\<close>

theorem suspension_cuts_off:
  assumes "list_all foreign_op xs" "sv_db sv = store_run (se_sha env) earlier empty_db" "sys = sys_run env xs (new_system depth sv file)"
    "suspend_account_route ad env user reason duration t1 t2 bk sys = (Inr rs, sys1)" "rs_status rs = 200"
  shows "cp_billing ` ran (map_of (hub_providers (sy_hub sys1))) \<inter> provider_billing_principals_for_owner user (sy_db sys1) = {}
    \<and> (\<forall>t \<in> set (db_tokens (sy_db sys1)). \<forall>n. node_of_token t (sy_db sys1) = Some n \<longrightarrow> node_owner n = user \<longrightarrow>
         now < suspended_until duration t1 \<longrightarrow> \<not> credential_active (Some t) now (sy_db sys1))"
proof -
  have c: "credited env sys" unfolding assms(3) by (rule credited_run [OF assms(1) credited_start]) (rule assms(2))
  obtain res db' where v: "suspend_user user (str_strip reason) (admin_actor ad sys) duration t1 t2 (sy_db sys) = (res, db')" by force
  with assms(4,5) obtain sus ds where s: "res = Inr (Some sus)"
    "drop_providers env bk ''Provider owner suspended'' (providers_billing (provider_billing_principals_for_owner user db') (sy_hub sys)) (on_db (\<lambda>_. db') sys) = (ds, sys1)"
    by (auto simp: suspend_account_route_def refuse_route_def admin_required_response_def respond_def on_store_def
        split: if_splits sum.splits prod.splits option.splits)
  note row = suspend_row [OF v [unfolded s(1)]]
  note d = drop_providers_result [OF s(2)] and tabs = drop_providers_tables [OF s(2)]
  have p: "provider_billing_principals_for_owner user (sy_db sys1) = provider_billing_principals_for_owner user db'"
    using tabs by (simp add: provider_billing_principals_for_owner_def)
  have "cp_billing q \<notin> provider_billing_principals_for_owner user db'" if m: "map_of (hub_providers (sy_hub sys1)) pid = Some q" for pid q
  proof
    assume b: "cp_billing q \<in> provider_billing_principals_for_owner user db'"
    obtain q0 where q0: "map_of (hub_providers (sy_hub sys)) pid = Some q0" "cp_billing q0 = cp_billing q"
      using d m unfolding inherits_def same_binding_def by (auto; metis)
    have "cp_id q0 = pid" using c q0(1) unfolding credited_def by blast
    then have "pid \<in> set (providers_billing (provider_billing_principals_for_owner user db') (sy_hub sys))"
      using map_of_SomeD [OF q0(1)] b q0(2) by (force simp: providers_billing_def)
    with d m show False by auto
  qed
  moreover have "\<not> credential_active (Some t) now (sy_db sys1)"
    if "t \<in> set (db_tokens (sy_db sys1))" "node_of_token t (sy_db sys1) = Some n" "node_owner n = user" "now < suspended_until duration t1" for t n
  proof -
    have r: "store_reach (se_sha env) (sy_db sys) db'"
      using store_reach_one [of "se_sha env" "sy_db sys" "SuspendUser user (str_strip reason) (admin_actor ad sys) duration t1 t2"] v by simp
    have "store_reach (se_sha env) (sy_db sys) (sy_db sys1)" using store_reach_trans [OF r] d by simp
    then have ok: "db_ok (sy_db sys1)" using reach_keeps(1) c unfolding credited_def by blast
    from row obtain u where "find_user user db' = Some u" "usr_suspended u = Some (suspended_until duration t1)" by blast
    then have "find_user (node_owner n) (sy_db sys1) = Some u" "usr_suspended u = Some (suspended_until duration t1)"
      using tabs that(3) by (simp_all add: find_user_def)
    then show ?thesis using inactive_suspended [OF ok that(1,2)] that(4) by blast
  qed
  ultimately show ?thesis unfolding p by (auto simp: ran_def)
qed

text \<open>An administrator by address, signed in with a cookie.\<close>

definition admin_env :: environ where
  "admin_env = [(''IE_ADMIN_EMAILS'', ''a@b'')]"

definition admin_claims :: trace where
  "admin_claims = issued (session_claims admin_env ''user-1'' ''a@b'' ''ann'' ''consumer'' 0) 24 0 0"

definition admin_tokens :: token_env where
  "admin_tokens = \<lparr>te_mac = (\<lambda>s. take 2 (rev s)), te_dumps = (\<lambda>_. ''claims''), te_loads = (\<lambda>_. Some (JObj admin_claims))\<rparr>"

definition signed_in_admin :: admin_call where
  "signed_in_admin = \<lparr>ad_auth = \<lparr>ap_sha = id, ap_token = admin_tokens, ap_env = admin_env, ap_clock = (\<lambda>_. 3)\<rparr>,
     ad_clock = \<lparr>ak_token = 3, ak_key = 3, ak_suspension = 3\<rparr>,
     ad_request = cookie_request (session_token admin_tokens admin_env ''user-1'' ''a@b'' ''ann'' ''consumer'' 0 0 0)\<rparr>"

definition admin_services :: services where
  "admin_services = sample_services\<lparr>sv_db := store_run id [CreateUser ''a@b'' ''pw'' ''ann'' None ''1'' ''00'' ''k'' 0 0 0] empty_db\<rparr>"

lemma admin_db: "db_users (sv_db admin_services) = [new_user ''user-1'' ''a@b'' (password_entry id ''00'' ''pw'') ''ann'' 0 None]"
proof -
  have l: "str_strip (str_lower ''a@b'') = ''a@b''" by code_simp
  show ?thesis
    by (simp add: admin_services_def store_run_def create_user_def serialized_write_def Let_def bindE_def ins_user_or_def l or_else_def
        ins_user_def new_account_def new_user_def new_key_def
        ins_account_def ins_key_def empty_db_def sql_exists_def)
qed

lemma admin_signed_in: "sy_services sys = admin_services \<Longrightarrow> is_admin signed_in_admin sys"
proof -
  assume s: "sy_services sys = admin_services"
  have l: "role_for admin_env ''a@b'' ''consumer'' = ''admin''" by code_simp
  have u: "find_user ''user-1'' (sv_db admin_services) = Some (new_user ''user-1'' ''a@b'' (password_entry id ''00'' ''pw'') ''ann'' 0 None)"
    by (simp add: find_user_def admin_db new_user_def)
  have "json_ok admin_tokens admin_claims" by (simp add: json_ok_def admin_tokens_def)
  then have "session_user admin_tokens 3 (ad_request signed_in_admin) (sv_db admin_services) = Some admin_claims"
    unfolding signed_in_admin_def admin_claims_def by (simp add: token_accepted get_session_version_def u new_user_def to_int_def)
  then have "has_verified_admin_session admin_tokens admin_env (ad_clock signed_in_admin) (ad_request signed_in_admin) (sv_db admin_services)"
    by (simp add: has_verified_admin_session_def signed_in_admin_def admin_claims_def issued_claims get_user_def u get_suspension_def new_user_def l)
  then show ?thesis by (simp add: is_admin_def is_admin_request_def signed_in_admin_def s)
qed

lemma suspension_cuts_off_witness:
  "cp_billing ` ran (map_of (hub_providers (sy_hub (snd (suspend_account_route signed_in_admin sample_session_env ''user-1'' ''spam'' None 4 4
      sample_bill_clock (new_system 50 admin_services []))))))
   \<inter> provider_billing_principals_for_owner ''user-1'' (sy_db (snd (suspend_account_route signed_in_admin sample_session_env ''user-1'' ''spam''
      None 4 4 sample_bill_clock (new_system 50 admin_services [])))) = {}"
proof -
  let ?sys = "new_system 50 admin_services []"
  have a: "is_admin signed_in_admin ?sys" by (rule admin_signed_in) (simp add: new_system_def)
  have st: "str_strip ''spam'' = ''spam''" by code_simp
  have n: "(4::flt) < PERMANENT_SUSPENSION" by (simp add: PERMANENT_SUSPENSION_def)
  obtain sus db' where v: "suspend_user ''user-1'' ''spam'' (admin_actor signed_in_admin ?sys) None 4 4 (sy_db ?sys) = (Inr (Some sus), db')"
    using n by (auto simp: suspend_user_def serialized_write_def Let_def find_user_def new_system_def admin_db new_user_def get_suspension_def
        sql_update_def ins_act_def)
  obtain ds sys1 where d: "drop_providers sample_session_env sample_bill_clock ''Provider owner suspended''
      (providers_billing (provider_billing_principals_for_owner ''user-1'' db') (sy_hub ?sys)) (on_db (\<lambda>_. db') ?sys) = (ds, sys1)" by force
  have r: "suspend_account_route signed_in_admin sample_session_env ''user-1'' ''spam'' None 4 4 sample_bill_clock ?sys
      = (Inr (respond 200 [(''ok'', JBool True), (''suspension'', suspension_json sus)]), sys1)"
    by (simp add: suspend_account_route_def a st on_store_def v d)
  have y: "?sys = sys_run sample_session_env [] ?sys" by (simp add: sys_run_def)
  have e: "sv_db admin_services = store_run (se_sha sample_session_env) [CreateUser ''a@b'' ''pw'' ''ann'' None ''1'' ''00'' ''k'' 0 0 0] empty_db"
    by (simp add: admin_services_def sample_session_env_def)
  show ?thesis using suspension_cuts_off [OF _ e y r] by (simp add: r respond_def)
qed

section \<open>Owners\<close>

text \<open>The token by which an owner is identified: a session token in the Authorization header, which must not be
  an API key or a provider token, or without the header the cookie.\<close>

definition owner_session :: "admin_call \<Rightarrow> string \<Rightarrow> system \<Rightarrow> string \<Rightarrow> bool" where
  "owner_session ad token sys w \<longleftrightarrow> (\<exists>d v. verify_jwt (ap_token (ad_auth ad)) (ak_token (ad_clock ad)) token = Some d
     \<and> claim_text d ''user_id'' = w \<and> get_session_version w (sy_db sys) = Some v \<and> json_num (dict_get d ''sv'' (JInt 0)) = Some (of_int v))"

lemma header_owner_session:
  "header_owner ad auth sys = Some d \<Longrightarrow> is_github_linked_user (claim_text d ''user_id'') (sy_db sys) \<Longrightarrow> owner_session ad (str_strip (drop 7 auth)) sys (claim_text d ''user_id'')
     \<and> \<not> starts_with ''sk-ie-'' (str_strip (drop 7 auth)) \<and> \<not> starts_with ''pt-ie-'' (str_strip (drop 7 auth))"
  by (auto simp: header_owner_def owner_session_def is_github_linked_user_def get_session_version_def Let_def split: if_splits option.splits)

lemma cookie_owner_session:
  "caller_claims ad sys = Some d \<Longrightarrow> owner_session ad (offered_session (ad_request ad)) sys (claim_text d ''user_id'')"
  by (auto simp: caller_claims_def session_user_def owner_session_def Let_def split: if_splits option.splits)

lemma management_owner_sound:
  assumes "management_owner ad base mutation sys = Inr w"
  shows "get_suspension w (ak_suspension (ad_clock ad)) (sy_db sys) = None \<and> is_github_linked_user w (sy_db sys)
    \<and> (let auth = dict_get (hr_headers (ad_request ad)) ''authorization'' '''' in
        if auth = '''' then owner_session ad (offered_session (ad_request ad)) sys w \<and> (mutation \<longrightarrow> origin_allowed ad base)
        else owner_session ad (str_strip (drop 7 auth)) sys w
          \<and> \<not> starts_with ''sk-ie-'' (str_strip (drop 7 auth)) \<and> \<not> starts_with ''pt-ie-'' (str_strip (drop 7 auth)))"
  using assms header_owner_session [of ad "dict_get (hr_headers (ad_request ad)) ''authorization'' ''''" sys] cookie_owner_session [of ad sys]
  by (auto simp: management_owner_def check_not_suspended_def Let_def split: if_splits option.splits sum.splits)

text \<open>An owner's endpoints change the system only for an owner who may. When an enrolment or a revocation
  changes anything, the caller holds a session token that verifies and carries the user's current session
  version, the user is not suspended and has a linked GitHub identity, an API key or provider token in the
  header never counts, and a cookie counts only with the deployed origin.\<close>

theorem owner_changes_guarded:
  assumes "fst (enroll_route ad base body t1 t2 h i j k rate sys) = (res, sys1) \<or> revoke_owned_credential_route ad env base tid now bk sys = (res, sys1)"
    "sys1 \<noteq> sys"
  shows "\<exists>w. get_suspension w (ak_suspension (ad_clock ad)) (sy_db sys) = None \<and> is_github_linked_user w (sy_db sys)
    \<and> (let auth = dict_get (hr_headers (ad_request ad)) ''authorization'' '''' in
        if auth = '''' then owner_session ad (offered_session (ad_request ad)) sys w \<and> origin_allowed ad base
        else owner_session ad (str_strip (drop 7 auth)) sys w
          \<and> \<not> starts_with ''sk-ie-'' (str_strip (drop 7 auth)) \<and> \<not> starts_with ''pt-ie-'' (str_strip (drop 7 auth)))"
proof -
  obtain w where "management_owner ad base True sys = Inr w"
    using assms by (cases "management_owner ad base True sys") (auto simp: enroll_route_def revoke_owned_credential_route_def refuse_route_def)
  from management_owner_sound [OF this] show ?thesis by (intro exI [of _ w]) (simp add: Let_def)
qed

text \<open>A linked user enrols from the deployed origin, signed in with the cookie.\<close>

definition owner_env :: environ where
  "owner_env = [(''IE_PUBLIC_URL'', ''https://x''), (''IE_PROVIDER_SELF_ENROLL_ENABLED'', ''1'')]"

definition signed_in_owner :: admin_call where
  "signed_in_owner = \<lparr>ad_auth = \<lparr>ap_sha = id, ap_token = sample_tokens, ap_env = owner_env, ap_clock = (\<lambda>_. 3)\<rparr>,
     ad_clock = \<lparr>ak_token = 5, ak_key = 5, ak_suspension = 5\<rparr>,
     ad_request = (cookie_request sample_session)\<lparr>hr_headers := [(''origin'', ''https://x'')]\<rparr>\<rparr>"

definition owner_services :: services where
  "owner_services = sample_services\<lparr>sv_db := empty_db\<lparr>db_users := [(new_user ''user-1'' ''a@b'' '''' ''a'' 0 None)\<lparr>usr_github := Some ''7''\<rparr>]\<rparr>\<rparr>"

lemma owner_signed_in: "management_owner signed_in_owner base True (new_system 50 owner_services []) = Inr ''user-1''"
proof -
  have v: "verify_jwt sample_tokens 5 sample_session = Some (issued sample_payload 24 0 0)"
    unfolding sample_session_def verify_create [OF sample_json] by (simp add: to_int_def)
  then have ne: "sample_session \<noteq> []" by auto
  have o: "rstrip_char (CHR ''/'') ''https://x'' = ''https://x''" by code_simp
  have "offered_session (ad_request signed_in_owner) = sample_session"
    using ne by (simp add: signed_in_owner_def offered_session_def cookie_request_def dict_get_def)
  then have "caller_claims signed_in_owner (new_system 50 owner_services []) = Some (issued sample_payload 24 0 0)"
    using v ne by (simp add: caller_claims_def session_user_def signed_in_owner_def issued_def sample_payload_def claim_text_def dict_get_def
        get_session_version_def find_user_def owner_services_def new_system_def new_user_def)
  then show ?thesis
    by (simp add: management_owner_def origin_allowed_def signed_in_owner_def cookie_request_def dict_get_def owner_env_def o)
      (simp add: issued_def sample_payload_def claim_text_def dict_get_def check_not_suspended_def get_suspension_def is_github_linked_user_def
        find_user_def owner_services_def new_system_def new_user_def has_text_def)
qed

lemma owner_enrols:
  "snd (fst (enroll_route signed_in_owner base (Some (''mac'', SELF_SERVICE_PROFILE)) 5 5 ''aa'' ''bb'' ''cc'' ''dd'' [] (new_system 50 owner_services [])))
     \<noteq> new_system 50 owner_services []"
proof -
  have n: "valid_node_name ''mac''" by code_simp
  have a: "fst (enroll_allow ''user-1'' peer 5 [])" for peer by (simp add: enroll_allow_def enroll_history_def dict_get_def Let_def split: if_splits)
  have e: "dict_get owner_env ''IE_PROVIDER_SELF_ENROLL_ENABLED'' ''0'' = ''1''" by (simp add: owner_env_def dict_get_def)
  have b: "\<exists>r db. enroll_provider_node id ''user-1'' ''mac'' SELF_SERVICE_PROFILE 5 ''aa'' ''bb'' ''cc'' ''dd'' (sv_db owner_services) = (Inr r, db)
      \<and> db \<noteq> sv_db owner_services"
    by (simp add: enroll_provider_node_def n ownership_write_def enroll_body_def owner_services_def find_user_def new_user_def has_text_def
        suspended_at_def owned_self_service_def empty_db_def sql_count_def SELF_SERVICE_DAILY_ISSUANCE_LIMIT_def ins_account_def ins_node_def
        ins_token_def ins_own_def bindE_def sql_exists_def Let_def new_account_def)
  then obtain r db where b: "enroll_provider_node id ''user-1'' ''mac'' SELF_SERVICE_PROFILE 5 ''aa'' ''bb'' ''cc'' ''dd'' (sv_db owner_services) = (Inr r, db)"
    "db \<noteq> sv_db owner_services" by blast
  have f: "sy_db (new_system 50 owner_services []) = sv_db owner_services" by (simp add: new_system_def)
  obtain rate where "enroll_allow ''user-1'' (caller_address (ad_request signed_in_owner)) 5 [] = (True, rate)"
    using a by (metis (full_types) prod.collapse)
  then have "sy_db (snd (fst (enroll_route signed_in_owner base (Some (''mac'', SELF_SERVICE_PROFILE)) 5 5 ''aa'' ''bb'' ''cc'' ''dd'' [] (new_system 50 owner_services [])))) = db"
    by (simp add: enroll_route_def owner_signed_in) (simp add: signed_in_owner_def e b f)
  with b(2) f show ?thesis by metis
qed

lemma owner_changes_guarded_witness: "is_github_linked_user ''user-1'' (sv_db owner_services) \<and> origin_allowed signed_in_owner ''''"
proof -
  have d: "dict_get (hr_headers (ad_request signed_in_owner)) ''authorization'' '''' = ''''"
    by (simp add: signed_in_owner_def dict_get_def)
  obtain res where "fst (enroll_route signed_in_owner '''' (Some (''mac'', SELF_SERVICE_PROFILE)) 5 5 ''aa'' ''bb'' ''cc'' ''dd'' []
      (new_system 50 owner_services [])) = (res, snd (fst (enroll_route signed_in_owner '''' (Some (''mac'', SELF_SERVICE_PROFILE)) 5 5 ''aa'' ''bb'' ''cc'' ''dd'' []
      (new_system 50 owner_services []))))" by (metis prod.collapse)
  from owner_changes_guarded [OF disjI1 [OF this] owner_enrols] d have "origin_allowed signed_in_owner ''''" by auto
  then show ?thesis by (simp add: is_github_linked_user_def find_user_def owner_services_def new_user_def has_text_def)
qed

end
