(* ===== verification/Gguf.thy ===== *)
theory Gguf
  imports Prelude "HOL-Library.Word"
begin

text \<open>
  What a provider reports about its model file, \<open>provider/model_identity.py\<close>: the reader of the GGUF
  header, the file hash and the identity record. A file is its list of bytes; a read returns the front and
  the rest, shorter at the end of the file. A float keeps its bits. The recursion limit of the interpreter
  is the argument \<open>d\<close>, the number of nested calls of \<open>_read_value\<close> that it allows. UTF-8 decoding with
  replacement, the text of a value in an f-string and the digest are parameters.
\<close>

type_synonym bytes = "8 word list"

section \<open>Little-endian numbers (\<open>struct\<close>)\<close>

fun le :: "bytes \<Rightarrow> nat" where
  "le [] = 0"
| "le (b # bs) = unat b + 256 * le bs"

definition signed_of :: "nat \<Rightarrow> nat \<Rightarrow> int" where
  "signed_of w n = (if n < 2 ^ (8 * w - 1) then int n else int n - 2 ^ (8 * w))"

datatype gguf_error = StructError | StringTooLong | RecursionLimit

definition unpack :: "nat \<Rightarrow> bytes \<Rightarrow> gguf_error + nat \<times> bytes" where
  "unpack w s = (if length (take w s) < w then Inl StructError else Inr (le (take w s), drop w s))"

section \<open>Values\<close>

datatype gguf_value =
    GInt int
  | GBool bool
  | GFloat32 "32 word"
  | GFloat64 "64 word"
  | GStr string
  | GList "gguf_value option list"

definition read_string :: "(bytes \<Rightarrow> string) \<Rightarrow> bytes \<Rightarrow> gguf_error + string \<times> bytes" where
  "read_string dec s = (case unpack 8 s of
     Inl e \<Rightarrow> Inl e
   | Inr (n, s1) \<Rightarrow> if 10000 < n then Inl StringTooLong else Inr (dec (take n s1), drop n s1))"

primrec read_items :: "(bytes \<Rightarrow> gguf_error + gguf_value option \<times> bytes) \<Rightarrow> nat \<Rightarrow> bytes
    \<Rightarrow> gguf_error + gguf_value option list \<times> bytes" where
  "read_items rd 0 s = Inr ([], s)"
| "read_items rd (Suc n) s = (case rd s of
     Inl e \<Rightarrow> Inl e
   | Inr (v, s1) \<Rightarrow> (case read_items rd n s1 of Inl e \<Rightarrow> Inl e | Inr (vs, s2) \<Rightarrow> Inr (v # vs, s2)))"

definition read_number :: "nat \<Rightarrow> (nat \<Rightarrow> gguf_value) \<Rightarrow> bytes \<Rightarrow> gguf_error + gguf_value option \<times> bytes" where
  "read_number w f s = (case unpack w s of Inl e \<Rightarrow> Inl e | Inr (n, s1) \<Rightarrow> Inr (Some (f n), s1))"

definition array_text :: "nat \<Rightarrow> string" where
  "array_text n = ''[array of '' @ nat_str n @ '']''"

text \<open>An array: at most ten items are kept, the others are read and dropped.\<close>

definition read_array :: "(nat \<Rightarrow> bytes \<Rightarrow> gguf_error + gguf_value option \<times> bytes) \<Rightarrow> bytes
    \<Rightarrow> gguf_error + gguf_value option \<times> bytes" where
  "read_array rd s = (case unpack 4 s of Inl e \<Rightarrow> Inl e | Inr (ty, s1) \<Rightarrow>
     (case unpack 8 s1 of Inl e \<Rightarrow> Inl e | Inr (n, s2) \<Rightarrow>
       (case read_items (rd ty) (min n 10) s2 of Inl e \<Rightarrow> Inl e | Inr (items, s3) \<Rightarrow>
         (case read_items (rd ty) (n - min n 10) s3 of Inl e \<Rightarrow> Inl e | Inr (_, s4) \<Rightarrow>
           Inr (Some (if n \<le> 10 then GList items else GStr (array_text n)), s4)))))"

primrec read_value :: "(bytes \<Rightarrow> string) \<Rightarrow> nat \<Rightarrow> nat \<Rightarrow> bytes \<Rightarrow> gguf_error + gguf_value option \<times> bytes" where
  "read_value dec 0 ty s = Inl RecursionLimit"
| "read_value dec (Suc d) ty s =
     (if ty = 0 then read_number 1 (\<lambda>n. GInt (int n)) s
      else if ty = 1 then read_number 1 (\<lambda>n. GInt (signed_of 1 n)) s
      else if ty = 2 then read_number 2 (\<lambda>n. GInt (int n)) s
      else if ty = 3 then read_number 2 (\<lambda>n. GInt (signed_of 2 n)) s
      else if ty = 4 then read_number 4 (\<lambda>n. GInt (int n)) s
      else if ty = 5 then read_number 4 (\<lambda>n. GInt (signed_of 4 n)) s
      else if ty = 6 then read_number 4 (\<lambda>n. GFloat32 (of_nat n)) s
      else if ty = 7 then read_number 1 (\<lambda>n. GBool (n \<noteq> 0)) s
      else if ty = 8 then (case read_string dec s of Inl e \<Rightarrow> Inl e | Inr (t, s1) \<Rightarrow> Inr (Some (GStr t), s1))
      else if ty = 10 then read_number 8 (\<lambda>n. GInt (int n)) s
      else if ty = 11 then read_number 8 (\<lambda>n. GInt (signed_of 8 n)) s
      else if ty = 12 then read_number 8 (\<lambda>n. GFloat64 (of_nat n)) s
      else if ty = 9 then read_array (read_value dec d) s
      else Inr (None, s))"

section \<open>The header\<close>

definition GGUF_MAGIC :: nat where "GGUF_MAGIC = 0x46554747"

type_synonym metadata = "(string, gguf_value) dict"

definition keep_value :: "string \<Rightarrow> gguf_value option \<Rightarrow> metadata \<Rightarrow> metadata" where
  "keep_value key v md = (case v of Some x \<Rightarrow> if key \<noteq> [] then dict_set key x md else md | None \<Rightarrow> md)"

text \<open>The pairs; any failure ends the reading and keeps what was read.\<close>

primrec read_pairs :: "(bytes \<Rightarrow> string) \<Rightarrow> nat \<Rightarrow> nat \<Rightarrow> metadata \<Rightarrow> bytes \<Rightarrow> metadata" where
  "read_pairs dec d 0 md s = md"
| "read_pairs dec d (Suc n) md s = (case read_string dec s of
     Inl _ \<Rightarrow> md
   | Inr (key, s1) \<Rightarrow> (case unpack 4 s1 of
       Inl _ \<Rightarrow> md
     | Inr (ty, s2) \<Rightarrow> (case read_value dec d ty s2 of
         Inl _ \<Rightarrow> md
       | Inr (v, s3) \<Rightarrow> read_pairs dec d n (keep_value key v md) s3)))"

definition read_gguf_metadata :: "(bytes \<Rightarrow> string) \<Rightarrow> nat \<Rightarrow> bytes \<Rightarrow> metadata" where
  "read_gguf_metadata dec d s = (case unpack 4 s of
     Inl _ \<Rightarrow> []
   | Inr (magic, s1) \<Rightarrow> if magic \<noteq> GGUF_MAGIC then [] else (case unpack 4 s1 of
       Inl _ \<Rightarrow> []
     | Inr (version, s2) \<Rightarrow> (let md = [(''_gguf_version'', GInt (int version))] in
        case unpack 8 s2 of
          Inl _ \<Rightarrow> md
        | Inr (tensors, s3) \<Rightarrow> (case unpack 8 s3 of
            Inl _ \<Rightarrow> md
          | Inr (kv, s4) \<Rightarrow> read_pairs dec d (min kv 200) (dict_set ''_tensor_count'' (GInt (int tensors)) md) s4))))"

section \<open>The hash of the file\<close>

definition HASH_CHUNK :: nat where "HASH_CHUNK = 65536"

text \<open>\<open>while chunk := f.read(65536): h.update(chunk)\<close>.\<close>

function hash_chunks :: "('h \<Rightarrow> bytes \<Rightarrow> 'h) \<Rightarrow> 'h \<Rightarrow> bytes \<Rightarrow> 'h" where
  "hash_chunks upd h s = (if take HASH_CHUNK s = [] then h else hash_chunks upd (upd h (take HASH_CHUNK s)) (drop HASH_CHUNK s))"
  by pat_completeness auto
termination by (relation "measure (\<lambda>(_, _, s). length s)") (auto simp: HASH_CHUNK_def)

declare hash_chunks.simps [simp del]

record 'h hasher =
  hs_new :: 'h
  hs_update :: "'h \<Rightarrow> bytes \<Rightarrow> 'h"
  hs_digest :: "'h \<Rightarrow> string"

definition compute_file_hash :: "'h hasher \<Rightarrow> bytes \<Rightarrow> string" where
  "compute_file_hash hs s = hs_digest hs (hash_chunks (hs_update hs) (hs_new hs) s)"

section \<open>The identity\<close>

record gguf_env =
  ge_decode :: "bytes \<Rightarrow> string"
  ge_text :: "gguf_value \<Rightarrow> string"
  ge_whole :: "gguf_value \<Rightarrow> int option"
  ge_depth :: nat

text \<open>A value as a key of a dict with int keys: booleans and whole floats equal ints; a list is not
  hashable and raises.\<close>

definition as_key :: "gguf_env \<Rightarrow> gguf_value \<Rightarrow> unit + int option" where
  "as_key ge v = (case v of GInt n \<Rightarrow> Inr (Some n) | GBool b \<Rightarrow> Inr (Some (if b then 1 else 0)) | GStr _ \<Rightarrow> Inr None
     | GList _ \<Rightarrow> Inl () | x \<Rightarrow> Inr (ge_whole ge x))"

definition quant_map :: "(int \<times> string) list" where
  "quant_map = [(0, ''F32''), (1, ''F16''), (2, ''Q4_0''), (3, ''Q4_1''), (6, ''Q5_0''), (7, ''Q5_1''), (8, ''Q8_0''),
     (9, ''Q8_1''), (10, ''Q2_K''), (11, ''Q3_K_S''), (12, ''Q3_K_M''), (13, ''Q3_K_L''), (14, ''Q4_K_S''), (15, ''Q4_K_M''),
     (16, ''Q5_K_S''), (17, ''Q5_K_M''), (18, ''Q6_K''), (19, ''Q8_K'')]"

definition quantization :: "gguf_env \<Rightarrow> gguf_value \<Rightarrow> unit + string" where
  "quantization ge v = (case as_key ge v of
     Inl e \<Rightarrow> Inl e
   | Inr k \<Rightarrow> Inr (case Option.bind k (map_of quant_map) of Some q \<Rightarrow> q | None \<Rightarrow> ''type_'' @ ge_text ge v))"

definition g_truthy :: "gguf_value \<Rightarrow> bool" where
  "g_truthy v = (case v of GInt n \<Rightarrow> n \<noteq> 0 | GBool b \<Rightarrow> b | GFloat32 w \<Rightarrow> take_bit 31 w \<noteq> 0 | GFloat64 w \<Rightarrow> take_bit 63 w \<noteq> 0
     | GStr s \<Rightarrow> s \<noteq> [] | GList xs \<Rightarrow> xs \<noteq> [])"

text \<open>\<open>part.split("--", n)\<close>.\<close>

fun split_dashes :: "nat \<Rightarrow> string \<Rightarrow> string list" where
  "split_dashes n [] = [[]]"
| "split_dashes 0 s = [s]"
| "split_dashes (Suc n) [c] = [[c]]"
| "split_dashes (Suc n) (c # c' # s) = (if c = CHR ''-'' \<and> c' = CHR ''-'' then [] # split_dashes n s
     else (case split_dashes (Suc n) (c' # s) of p # ps \<Rightarrow> (c # p) # ps | [] \<Rightarrow> [[c]]))"

definition repo_of_part :: "string \<Rightarrow> string option" where
  "repo_of_part part = (case split_dashes 2 part of
     [_, org, name] \<Rightarrow> if starts_with ''models--'' part then Some (org @ ''/'' @ name) else None
   | _ \<Rightarrow> None)"

definition extract_repo_id :: "metadata \<Rightarrow> string list \<Rightarrow> gguf_value" where
  "extract_repo_id md parts = (let repo = dict_get md ''general.source.huggingface.repository'' (GStr '''') in
     if g_truthy repo then repo
     else (case find (\<lambda>p. repo_of_part p \<noteq> None) parts of Some p \<Rightarrow> GStr (the (repo_of_part p)) | None \<Rightarrow> GStr ''''))"

record model_file =
  mf_parts :: "string list"
  mf_name :: string
  mf_stem :: string
  mf_content :: bytes

record model_identity =
  gi_name :: gguf_value
  gi_architecture :: gguf_value
  gi_quantization :: string
  gi_hash :: string
  gi_size :: nat
  gi_filename :: string
  gi_context :: gguf_value
  gi_blocks :: gguf_value
  gi_embedding :: gguf_value
  gi_repo :: gguf_value

definition HASH_LIMIT :: nat where "HASH_LIMIT = 2000000000"

definition get_model_identity :: "'h hasher \<Rightarrow> gguf_env \<Rightarrow> model_file \<Rightarrow> unit + model_identity" where
  "get_model_identity hs ge mf =
     (let md = read_gguf_metadata (ge_decode ge) (ge_depth ge) (mf_content mf); size = length (mf_content mf);
          hash = (if size < HASH_LIMIT then compute_file_hash hs (mf_content mf) else ''skipped-'' @ nat_str size);
          name = dict_get md ''general.name'' (GStr (mf_stem mf));
          arch = dict_get md ''general.architecture'' (GStr ''unknown'')
      in case quantization ge (dict_get md ''general.file_type'' (GInt 0)) of
           Inl e \<Rightarrow> Inl e
         | Inr q \<Rightarrow> Inr \<lparr>gi_name = name, gi_architecture = arch, gi_quantization = q, gi_hash = hash, gi_size = size,
             gi_filename = mf_name mf, gi_context = dict_get md (ge_text ge arch @ ''.context_length'') (GInt 0),
             gi_blocks = dict_get md (ge_text ge arch @ ''.block_count'') (GInt 0),
             gi_embedding = dict_get md (ge_text ge arch @ ''.embedding_length'') (GInt 0),
             gi_repo = extract_repo_id md (mf_parts mf)\<rparr>)"

end
