(* ===== verification/GgufLaws.thy ===== *)
theory GgufLaws
  imports Gguf
begin

text \<open>
  The GGUF reader against its file format: the values a file may hold as a datatype with their bytes, the
  reader as the inverse of that encoding, and its termination: with a recursion limit above the length of
  the input over twelve the limit is never hit and does not change the result. The chunked hash is the hash
  of the whole content.
\<close>

section \<open>The format\<close>

fun le_bytes :: "nat \<Rightarrow> nat \<Rightarrow> bytes" where
  "le_bytes 0 n = []"
| "le_bytes (Suc w) n = of_nat n # le_bytes w (n div 256)"

lemma length_le_bytes [simp]: "length (le_bytes w n) = w"
  by (induction w arbitrary: n) auto

lemma le_le_bytes: "n < 256 ^ w \<Longrightarrow> le (le_bytes w n) = n"
proof (induction w arbitrary: n)
  case (Suc w)
  then have "n div 256 < 256 ^ w" by (simp add: less_mult_imp_div_less mult.commute)
  moreover have "unat (of_nat n :: 8 word) = n mod 256" by (simp add: unat_of_nat)
  ultimately show ?case using Suc.IH by simp
qed simp

lemma unpack_append [simp]: "n < 256 ^ w \<Longrightarrow> unpack w (le_bytes w n @ s) = Inr (n, s)"
  by (simp add: unpack_def le_le_bytes)

declare le_bytes.simps [simp del]

text \<open>A value as the format stores it: an integer of a width in bytes, a boolean byte, the bits of a float,
  the bytes of a string, an array of values of one element type.\<close>

datatype gguf_raw =
    RUnsigned nat nat
  | RSigned nat int
  | RBool nat
  | RFloat32 "32 word"
  | RFloat64 "64 word"
  | RStr bytes
  | RArr nat "gguf_raw list"

definition width_code :: "nat \<Rightarrow> nat" where
  "width_code w = (if w = 1 then 0 else if w = 2 then 2 else if w = 4 then 4 else 10)"

fun raw_type :: "gguf_raw \<Rightarrow> nat" where
  "raw_type (RUnsigned w n) = width_code w"
| "raw_type (RSigned w i) = width_code w + 1"
| "raw_type (RBool n) = 7"
| "raw_type (RFloat32 x) = 6"
| "raw_type (RFloat64 x) = 12"
| "raw_type (RStr b) = 8"
| "raw_type (RArr t xs) = 9"

fun raw_bytes :: "gguf_raw \<Rightarrow> bytes" where
  "raw_bytes (RUnsigned w n) = le_bytes w n"
| "raw_bytes (RSigned w i) = le_bytes w (nat (i mod 2 ^ (8 * w)))"
| "raw_bytes (RBool n) = le_bytes 1 n"
| "raw_bytes (RFloat32 x) = le_bytes 4 (unat x)"
| "raw_bytes (RFloat64 x) = le_bytes 8 (unat x)"
| "raw_bytes (RStr b) = le_bytes 8 (length b) @ b"
| "raw_bytes (RArr t xs) = le_bytes 4 t @ le_bytes 8 (length xs) @ concat (map raw_bytes xs)"

fun raw_ok :: "gguf_raw \<Rightarrow> bool" where
  "raw_ok (RUnsigned w n) = (w \<in> {1, 2, 4, 8} \<and> n < 256 ^ w)"
| "raw_ok (RSigned w i) = (w \<in> {1, 2, 4, 8} \<and> - (2 ^ (8 * w - 1)) \<le> i \<and> i < 2 ^ (8 * w - 1))"
| "raw_ok (RBool n) = (n < 256)"
| "raw_ok (RFloat32 x) = True"
| "raw_ok (RFloat64 x) = True"
| "raw_ok (RStr b) = (length b \<le> 10000)"
| "raw_ok (RArr t xs) = (t < 256 ^ 4 \<and> length xs < 256 ^ 8 \<and> list_all (\<lambda>x. raw_type x = t \<and> raw_ok x) xs)"

text \<open>How deep arrays are nested.\<close>

fun raw_depth :: "gguf_raw \<Rightarrow> nat" where
  "raw_depth (RArr t xs) = Suc (Max (insert 0 (set (map raw_depth xs))))"
| "raw_depth _ = 1"

fun raw_value :: "(bytes \<Rightarrow> string) \<Rightarrow> gguf_raw \<Rightarrow> gguf_value" where
  "raw_value dec (RUnsigned w n) = GInt (int n)"
| "raw_value dec (RSigned w i) = GInt i"
| "raw_value dec (RBool n) = GBool (n \<noteq> 0)"
| "raw_value dec (RFloat32 x) = GFloat32 x"
| "raw_value dec (RFloat64 x) = GFloat64 x"
| "raw_value dec (RStr b) = GStr (dec b)"
| "raw_value dec (RArr t xs) = (if length xs \<le> 10 then GList (map (Some \<circ> raw_value dec) xs) else GStr (array_text (length xs)))"

section \<open>The reader inverts the format\<close>

lemma signed_of_mod:
  assumes "0 < w" "- (2 ^ (8 * w - 1)) \<le> i" "i < 2 ^ (8 * w - 1)"
  shows "signed_of w (nat (i mod 2 ^ (8 * w))) = i"
proof -
  have p: "(2::int) ^ (8 * w) = 2 * 2 ^ (8 * w - 1)" using assms(1) by (simp flip: power_Suc)
  show ?thesis
  proof (cases "0 \<le> i")
    case True
    then have "i mod 2 ^ (8 * w) = i" using assms(3) p by simp
    moreover have "nat i < 2 ^ (8 * w - 1)" using True assms(3) by (simp add: nat_less_iff)
    ultimately show ?thesis using True by (simp add: signed_of_def)
  next
    case False
    have "(i + 2 ^ (8 * w)) mod 2 ^ (8 * w) = i + 2 ^ (8 * w)" using False assms(2) p by (intro mod_pos_pos_trivial) auto
    then have m: "i mod 2 ^ (8 * w) = i + 2 ^ (8 * w)" by simp
    have "2 ^ (8 * w - 1) \<le> i + 2 ^ (8 * w)" using assms(2) p by simp
    then have "\<not> nat (i + 2 ^ (8 * w)) < 2 ^ (8 * w - 1)" by (simp add: nat_less_iff not_less)
    then have "signed_of w (nat (i + 2 ^ (8 * w))) = int (nat (i + 2 ^ (8 * w))) - 2 ^ (8 * w)" by (simp add: signed_of_def)
    also have "\<dots> = i" using False assms(2) p by simp
    finally show ?thesis unfolding m .
  qed
qed

lemma nat_mod_bound: "nat (i mod 2 ^ (8 * w)) < 256 ^ w"
proof -
  have "(256::int) ^ w = 2 ^ (8 * w)" by (simp add: power_mult)
  then show ?thesis by (simp add: nat_less_iff pos_mod_bound)
qed

lemma read_number_raw [simp]: "n < 256 ^ w \<Longrightarrow> read_number w f (le_bytes w n @ s) = Inr (Some (f n), s)"
  by (simp add: read_number_def)

lemma read_items_raw:
  assumes "\<And>x s. x \<in> set xs \<Longrightarrow> rd (b x @ s) = Inr (v x, s)"
  shows "read_items rd (length xs) (concat (map b xs) @ s) = Inr (map v xs, s)"
  using assms by (induction xs arbitrary: s) (auto split: sum.split)

lemma read_string_raw: "length b \<le> 10000 \<Longrightarrow> read_string dec (le_bytes 8 (length b) @ b @ s) = Inr (dec b, s)"
  by (simp add: read_string_def)

lemma read_array_raw:
  assumes "\<And>x s. x \<in> set xs \<Longrightarrow> rd t (b x @ s) = Inr (Some (v x), s)" "t < 256 ^ 4" "length xs < 256 ^ 8"
  shows "read_array rd (le_bytes 4 t @ le_bytes 8 (length xs) @ concat (map b xs) @ s)
    = Inr (Some (if length xs \<le> 10 then GList (map (Some \<circ> v) xs) else GStr (array_text (length xs))), s)"
proof -
  define k where "k = min (length xs) 10"
  define ys zs where "ys = take k xs" and "zs = drop k xs"
  have xs: "xs = ys @ zs" "length ys = k" "length zs = length xs - k" by (simp_all add: ys_def zs_def k_def)
  have one: "read_items (rd t) k (concat (map b xs) @ s) = Inr (map (Some \<circ> v) ys, concat (map b zs) @ s)"
    using read_items_raw [of ys "rd t" b "Some \<circ> v" "concat (map b zs) @ s"] by (simp only: xs map_append concat_append append_assoc) (simp add: assms(1) xs(1))
  have two: "read_items (rd t) (length xs - k) (concat (map b zs) @ s) = Inr (map (Some \<circ> v) zs, s)"
    unfolding xs(3) [symmetric] by (rule read_items_raw) (simp add: assms(1) xs(1))
  have short: "length xs \<le> 10 \<Longrightarrow> ys = xs" by (simp add: ys_def k_def)
  have "read_array rd (le_bytes 4 t @ le_bytes 8 (length xs) @ concat (map b xs) @ s)
      = Inr (Some (if length xs \<le> 10 then GList (map (Some \<circ> v) ys) else GStr (array_text (length xs))), s)"
    unfolding read_array_def unpack_append [OF assms(2)] unpack_append [OF assms(3)] sum.case prod.case
      k_def [symmetric] one two ..
  then show ?thesis using short by simp
qed

lemma raw_depth_item: "x \<in> set xs \<Longrightarrow> raw_depth x < raw_depth (RArr t xs)"
  by (simp add: less_Suc_eq_le)

lemma read_raw: "raw_ok r \<Longrightarrow> raw_depth r \<le> d \<Longrightarrow> read_value dec d (raw_type r) (raw_bytes r @ s) = Inr (Some (raw_value dec r), s)"
proof (induction r arbitrary: d s)
  case (RArr t xs)
  then obtain d' where d: "d = Suc d'" by (cases d) auto
  have rd: "read_value dec d' t (raw_bytes x @ s') = Inr (Some (raw_value dec x), s')" if x: "x \<in> set xs" for x s'
  proof -
    have "raw_ok x" "raw_type x = t" using RArr.prems(1) x by (auto simp: list_all_iff)
    moreover have "raw_depth x \<le> d'" using less_le_trans [OF raw_depth_item [OF x] RArr.prems(2)] unfolding d by (rule less_Suc_eq_le [THEN iffD1])
    ultimately show ?thesis using RArr.IH [OF x] by blast
  qed
  show ?case using read_array_raw [of xs "read_value dec d'" t raw_bytes "raw_value dec" s, OF rd] RArr.prems(1)
    by (simp add: d)
next
  case (RUnsigned w n)
  then show ?case by (cases d) (auto simp: width_code_def)
next
  case (RSigned w i)
  then show ?case using signed_of_mod [of w i] nat_mod_bound [of i w] by (cases d) (auto simp: width_code_def)
next
  case (RFloat32 x)
  have "unat x < 256 ^ 4" using unsigned_less [of x, where ?'a = nat] by simp
  with RFloat32 show ?case by (cases d) auto
next
  case (RFloat64 x)
  have "unat x < 256 ^ 8" using unsigned_less [of x, where ?'a = nat] by simp
  with RFloat64 show ?case by (cases d) auto
next
  case (RStr b)
  then show ?case using read_string_raw [of b dec s] by (cases d) auto
next
  case (RBool n)
  then show ?case using read_number_raw [of n 1] by (cases d) auto
qed

section \<open>The header\<close>

definition pair_bytes :: "bytes \<times> gguf_raw \<Rightarrow> bytes" where
  "pair_bytes p = le_bytes 8 (length (fst p)) @ fst p @ le_bytes 4 (raw_type (snd p)) @ raw_bytes (snd p)"

definition gguf_file :: "nat \<Rightarrow> nat \<Rightarrow> (bytes \<times> gguf_raw) list \<Rightarrow> bytes" where
  "gguf_file version tensors kvs = le_bytes 4 GGUF_MAGIC @ le_bytes 4 version @ le_bytes 8 tensors @ le_bytes 8 (length kvs)
     @ concat (map pair_bytes kvs)"

definition pair_ok :: "nat \<Rightarrow> bytes \<times> gguf_raw \<Rightarrow> bool" where
  "pair_ok d p \<longleftrightarrow> length (fst p) \<le> 10000 \<and> raw_ok (snd p) \<and> raw_depth (snd p) \<le> d"

definition store_pair :: "(bytes \<Rightarrow> string) \<Rightarrow> metadata \<Rightarrow> bytes \<times> gguf_raw \<Rightarrow> metadata" where
  "store_pair dec md p = keep_value (dec (fst p)) (Some (raw_value dec (snd p))) md"

lemma raw_type_bound: "raw_type r < 256 ^ 4"
  by (cases r) (simp_all add: width_code_def)

lemma read_pairs_raw:
  "list_all (pair_ok d) kvs \<Longrightarrow> n \<le> length kvs \<Longrightarrow>
   read_pairs dec d n md (concat (map pair_bytes kvs) @ s) = foldl (store_pair dec) md (take n kvs)"
proof (induction kvs arbitrary: n md)
  case (Cons p kvs)
  show ?case
  proof (cases n)
    case (Suc m)
    have ok: "length (fst p) \<le> 10000" "raw_ok (snd p)" "raw_depth (snd p) \<le> d" using Cons.prems(1) by (auto simp: pair_ok_def)
    show ?thesis using Cons ok raw_type_bound [of "snd p"]
      by (simp add: Suc pair_bytes_def read_string_raw read_raw store_pair_def)
  qed simp
qed simp

text \<open>C36: The GGUF reader inverts the file format. Reading a well-formed file whose strings have at most
  10000 bytes (the cap of \<open>_read_string\<close>, not of the format), with anything after its pairs,
  gives its version, its tensor count and its first 200 pairs in order, the later one of equal keys
  overwriting, pairs without a key dropped; integers keep their sign and width, arrays their items up
  to ten.\<close>

theorem gguf_read_back:
  assumes "version < 256 ^ 4" "tensors < 256 ^ 8" "length kvs < 256 ^ 8" "list_all (pair_ok d) kvs"
  shows "read_gguf_metadata dec d (gguf_file version tensors kvs @ s)
    = foldl (store_pair dec) [(''_gguf_version'', GInt (int version)), (''_tensor_count'', GInt (int tensors))] (take 200 kvs)"
proof -
  have m: "GGUF_MAGIC < 256 ^ 4" by (simp add: GGUF_MAGIC_def)
  have t: "take (min (length kvs) 200) kvs = take 200 kvs" by (simp add: min_def)
  show ?thesis
    unfolding read_gguf_metadata_def gguf_file_def append_assoc unpack_append [OF m] unpack_append [OF assms(1)]
      unpack_append [OF assms(2)] unpack_append [OF assms(3)] sum.case prod.case Let_def
    by (simp add: read_pairs_raw [OF assms(4)] t)
qed

definition sample_raw :: "(bytes \<times> gguf_raw) list" where
  "sample_raw = [([103, 110], RStr [113]), ([99], RUnsigned 4 4096), ([120], RArr 1 [RSigned 1 (- 2), RSigned 1 3]),
     ([121], RArr 9 [RArr 7 [RBool 1]])]"

lemma sample_raw_ok: "list_all (pair_ok 3) sample_raw"
  by (simp add: sample_raw_def pair_ok_def width_code_def)

lemma gguf_read_back_witness:
  "read_gguf_metadata (map (\<lambda>b. char_of (unat b))) 3 (gguf_file 3 7 sample_raw @ [1, 2, 3])
    = [(''_gguf_version'', GInt 3), (''_tensor_count'', GInt 7), (''gn'', GStr ''q''), (''c'', GInt 4096),
       (''x'', GList [Some (GInt (- 2)), Some (GInt 3)]), (''y'', GList [Some (GList [Some (GBool True)])])]"
proof -
  have "read_gguf_metadata (map (\<lambda>b. char_of (unat b))) 3 (gguf_file 3 7 sample_raw @ [1, 2, 3])
    = foldl (store_pair (map (\<lambda>b. char_of (unat b)))) [(''_gguf_version'', GInt (int 3)), (''_tensor_count'', GInt (int 7))] (take 200 sample_raw)"
    by (rule gguf_read_back [OF _ _ _ sample_raw_ok]) (simp_all add: sample_raw_def)
  also have "\<dots> = [(''_gguf_version'', GInt 3), (''_tensor_count'', GInt 7), (''gn'', GStr ''q''), (''c'', GInt 4096),
       (''x'', GList [Some (GInt (- 2)), Some (GInt 3)]), (''y'', GList [Some (GList [Some (GBool True)])])]"
    by (simp add: sample_raw_def store_pair_def keep_value_def) (code_simp)
  finally show ?thesis .
qed

section \<open>Termination\<close>

text \<open>A read never gives back more than it was given.\<close>

definition shrinks :: "(bytes \<Rightarrow> gguf_error + 'a \<times> bytes) \<Rightarrow> bool" where
  "shrinks rd \<longleftrightarrow> (\<forall>s v s'. rd s = Inr (v, s') \<longrightarrow> length s' \<le> length s)"

lemma shrinksI: "(\<And>s v s'. rd s = Inr (v, s') \<Longrightarrow> length s' \<le> length s) \<Longrightarrow> shrinks rd"
  by (auto simp: shrinks_def)

lemma shrinksD: "shrinks rd \<Longrightarrow> rd s = Inr (v, s') \<Longrightarrow> length s' \<le> length s"
  by (auto simp: shrinks_def)

lemma unpack_Inr: "unpack w s = Inr (n, s') \<Longrightarrow> length s' + w = length s"
  by (auto simp: unpack_def split: if_splits)

lemma read_string_shrinks: "shrinks (read_string dec)"
  by (rule shrinksI) (auto simp: read_string_def split: sum.splits if_splits dest!: unpack_Inr)

lemma read_number_shrinks: "shrinks (read_number w f)"
  by (rule shrinksI) (auto simp: read_number_def split: sum.splits dest!: unpack_Inr)

lemma read_items_shrinks: "shrinks rd \<Longrightarrow> shrinks (read_items rd n)"
proof (induction n)
  case (Suc n)
  show ?case
  proof (rule shrinksI)
    fix s vs s' assume "read_items rd (Suc n) s = Inr (vs, s')"
    then obtain v s1 vs1 where "rd s = Inr (v, s1)" "read_items rd n s1 = Inr (vs1, s')"
      by (auto split: sum.splits)
    then show "length s' \<le> length s" using shrinksD [OF Suc.prems] shrinksD [OF Suc.IH [OF Suc.prems]] by (meson order_trans)
  qed
qed (auto intro: shrinksI)

lemma read_array_Inr:
  assumes "read_array rd s = Inr (v, s')"
  obtains ty s1 n s2 xs s3 ys where "unpack 4 s = Inr (ty, s1)" "unpack 8 s1 = Inr (n, s2)"
    "read_items (rd ty) (min n 10) s2 = Inr (xs, s3)" "read_items (rd ty) (n - min n 10) s3 = Inr (ys, s')"
  using assms by (auto simp: read_array_def split: sum.splits)

lemma read_array_shrinks:
  assumes "\<And>ty. shrinks (rd ty)"
  shows "shrinks (read_array rd)"
proof (rule shrinksI, elim read_array_Inr)
  fix s v s' ty s1 n s2 xs s3 ys
  assume "unpack 4 s = Inr (ty, s1)" "unpack 8 s1 = Inr (n, s2)"
    "read_items (rd ty) (min n 10) s2 = Inr (xs, s3)" "read_items (rd ty) (n - min n 10) s3 = Inr (ys, s')"
  from unpack_Inr [OF this(1)] unpack_Inr [OF this(2)] shrinksD [OF read_items_shrinks [OF assms] this(3)]
    shrinksD [OF read_items_shrinks [OF assms] this(4)]
  show "length s' \<le> length s" by linarith
qed

lemma read_value_Inr:
  assumes "read_value dec (Suc d) ty s = Inr (v, s')"
  shows "(\<exists>w f. read_number w f s = Inr (v, s')) \<or> (\<exists>t. read_string dec s = Inr (t, s'))
    \<or> read_array (read_value dec d) s = Inr (v, s') \<or> s' = s"
  using assms unfolding read_value.simps by (split if_split_asm; (blast | auto split: sum.splits)?)+

lemma read_value_shrinks: "shrinks (read_value dec d ty)"
proof (induction d arbitrary: ty)
  case (Suc d)
  note a = read_array_shrinks [of "read_value dec d", OF Suc.IH]
  show ?case
  proof (rule shrinksI)
    fix s v s' assume "read_value dec (Suc d) ty s = Inr (v, s')"
    from read_value_Inr [OF this] show "length s' \<le> length s"
      using shrinksD [OF read_number_shrinks] shrinksD [OF read_string_shrinks] shrinksD [OF a] by blast
  qed
qed (simp add: shrinks_def)

lemma read_items_agree:
  assumes "shrinks rd" "\<And>s'. length s' \<le> length s \<Longrightarrow> rd s' = rd' s'"
  shows "read_items rd n s = read_items rd' n s"
  using assms(2)
proof (induction n arbitrary: s)
  case (Suc n)
  have same: "rd' s = rd s" using Suc.prems [of s] by simp
  show ?case
  proof (cases "rd s")
    case (Inl e)
    then show ?thesis by (simp add: same)
  next
    case (Inr p)
    obtain v s1 where p: "p = (v, s1)" by force
    have "length s1 \<le> length s" using shrinksD [OF assms(1)] Inr unfolding p .
    then have "read_items rd n s1 = read_items rd' n s1" using Suc.prems by (intro Suc.IH) auto
    then show ?thesis by (simp add: same Inr p)
  qed
qed simp

lemma read_array_agree:
  assumes "\<And>ty. shrinks (rd ty)" "\<And>ty s'. length s' + 12 \<le> length s \<Longrightarrow> rd ty s' = rd' ty s'"
  shows "read_array rd s = read_array rd' s"
proof (cases "unpack 4 s")
  case (Inr p)
  obtain ty s1 where p: "unpack 4 s = Inr (ty, s1)" using Inr by (cases p) auto
  show ?thesis
  proof (cases "unpack 8 s1")
    case (Inr q)
    obtain n s2 where q: "unpack 8 s1 = Inr (n, s2)" using Inr by (cases q) auto
    have l: "length s2 + 12 \<le> length s" using unpack_Inr [OF p] unpack_Inr [OF q] by simp
    have one: "read_items (rd ty) (min n 10) s2 = read_items (rd' ty) (min n 10) s2"
      by (rule read_items_agree [OF assms(1)]) (use l assms(2) in auto)
    have two: "read_items (rd ty) k s3 = read_items (rd' ty) k s3" if "read_items (rd ty) (min n 10) s2 = Inr (xs, s3)" for k xs s3
      by (rule read_items_agree [OF assms(1)])
        (use l assms(2) shrinksD [OF read_items_shrinks [OF assms(1)] that] in auto)
    show ?thesis
    proof (cases "read_items (rd ty) (min n 10) s2")
      case (Inr r)
      then show ?thesis using two by (cases r) (simp add: read_array_def p q flip: one)
    qed (simp add: read_array_def p q flip: one)
  qed (simp add: read_array_def p)
qed (simp add: read_array_def)

lemma read_value_stable: "length s < 12 * d \<Longrightarrow> read_value dec (Suc d) ty s = read_value dec d ty s"
proof (induction d arbitrary: ty s)
  case (Suc d)
  have "read_array (read_value dec (Suc d)) s = read_array (read_value dec d) s"
    by (rule read_array_agree [OF read_value_shrinks]) (use Suc in auto)
  then show ?case by simp
qed simp

text \<open>An error other than a hit of the recursion limit is an error of the input.\<close>

lemma read_string_no_limit: "read_string dec s \<noteq> Inl RecursionLimit"
  by (auto simp: read_string_def unpack_def)

lemma read_number_no_limit: "read_number w f s \<noteq> Inl RecursionLimit"
  by (auto simp: read_number_def unpack_def)

lemma read_items_no_limit:
  assumes "shrinks rd" "\<And>s'. length s' \<le> length s \<Longrightarrow> rd s' \<noteq> Inl RecursionLimit"
  shows "read_items rd n s \<noteq> Inl RecursionLimit"
  using assms(2)
proof (induction n arbitrary: s)
  case (Suc n)
  show ?case
  proof (cases "rd s")
    case (Inl e)
    then show ?thesis using Suc.prems [of s] by simp
  next
    case (Inr p)
    obtain v s1 where p: "p = (v, s1)" by force
    have "length s1 \<le> length s" using shrinksD [OF assms(1)] Inr unfolding p .
    then have "read_items rd n s1 \<noteq> Inl RecursionLimit" using Suc.prems by (intro Suc.IH) auto
    then show ?thesis by (auto simp: Inr p split: sum.split)
  qed
qed simp

lemma read_array_no_limit:
  assumes "\<And>ty. shrinks (rd ty)" "\<And>ty s'. length s' + 12 \<le> length s \<Longrightarrow> rd ty s' \<noteq> Inl RecursionLimit"
  shows "read_array rd s \<noteq> Inl RecursionLimit"
proof
  assume r: "read_array rd s = Inl RecursionLimit"
  then obtain ty s1 n s2 where u: "unpack 4 s = Inr (ty, s1)" "unpack 8 s1 = Inr (n, s2)"
    by (auto simp: read_array_def unpack_def split: if_splits)
  have l: "length s2 + 12 \<le> length s" using unpack_Inr [OF u(1)] unpack_Inr [OF u(2)] by simp
  have one: "read_items (rd ty) k s3 \<noteq> Inl RecursionLimit" if "length s3 \<le> length s2" for k s3
    by (rule read_items_no_limit [OF assms(1)]) (use l that assms(2) in auto)
  show False
  proof (cases "read_items (rd ty) (min n 10) s2")
    case (Inl e)
    then show False using one [of s2 "min n 10"] r by (simp add: read_array_def u)
  next
    case (Inr p)
    obtain xs s3 where p: "p = (xs, s3)" by force
    have "length s3 \<le> length s2" using shrinksD [OF read_items_shrinks [OF assms(1)]] Inr unfolding p .
    then have "read_items (rd ty) (n - min n 10) s3 \<noteq> Inl RecursionLimit" by (rule one)
    then show False using r by (simp add: read_array_def u Inr p split: sum.splits prod.splits)
  qed
qed

lemma read_value_Inl:
  assumes "read_value dec (Suc d) ty s = Inl e"
  shows "(\<exists>w f. read_number w f s = Inl e) \<or> read_string dec s = Inl e \<or> read_array (read_value dec d) s = Inl e"
  using assms unfolding read_value.simps by (split if_split_asm; (blast | auto split: sum.splits)?)+

lemma read_value_no_limit: "length s < 12 * d \<Longrightarrow> read_value dec d ty s \<noteq> Inl RecursionLimit"
proof (induction d arbitrary: ty s)
  case (Suc d)
  have "read_array (read_value dec d) s \<noteq> Inl RecursionLimit"
    by (rule read_array_no_limit [OF read_value_shrinks]) (use Suc in auto)
  then show ?case using read_value_Inl [of dec d ty s] read_number_no_limit read_string_no_limit by blast
qed simp

lemma read_value_stable_from: "length s < 12 * d \<Longrightarrow> d \<le> d' \<Longrightarrow> read_value dec d' ty s = read_value dec d ty s"
proof (induction "d' - d" arbitrary: d')
  case (Suc n)
  then obtain e where e: "d' = Suc e" "d \<le> e" by (cases d') auto
  have "read_value dec d' ty s = read_value dec e ty s" unfolding e(1) by (rule read_value_stable) (use Suc.prems e in auto)
  also have "\<dots> = read_value dec d ty s" by (rule Suc.hyps(1)) (use Suc e in auto)
  finally show ?case .
qed simp

lemma read_pairs_stable: "length s < 12 * d \<Longrightarrow> d \<le> d' \<Longrightarrow> read_pairs dec d' n md s = read_pairs dec d n md s"
proof (induction n arbitrary: md s)
  case (Suc n)
  show ?case
  proof (cases "read_string dec s")
    case (Inr p)
    obtain key s1 where p: "p = (key, s1)" by force
    have l1: "length s1 \<le> length s" using shrinksD [OF read_string_shrinks] Inr unfolding p .
    show ?thesis
    proof (cases "unpack 4 s1")
      case i2: (Inr q)
      obtain ty s2 where q: "q = (ty, s2)" by force
      have l2: "length s2 < 12 * d" using unpack_Inr [OF i2 [unfolded q]] l1 Suc.prems by simp
      note same = read_value_stable_from [OF l2 Suc.prems(2), of dec ty]
      show ?thesis
      proof (cases "read_value dec d ty s2")
        case i3: (Inr r)
        obtain v s3 where r: "r = (v, s3)" by force
        have "length s3 \<le> length s2" using shrinksD [OF read_value_shrinks] i3 unfolding r .
        then have "read_pairs dec d' n md' s3 = read_pairs dec d n md' s3" for md' using l2 Suc.prems(2) by (intro Suc.IH) simp_all
        then show ?thesis by (simp add: Inr p i2 q same i3 r)
      qed (simp add: Inr p i2 q same)
    qed (simp add: Inr p)
  qed simp
qed simp

text \<open>The reader always terminates. On any bytes, arrays nested however a file says, a recursion limit
  above a twelfth of the input's length is never hit, the result is the same for every larger limit, and a
  value read leaves no more input than there was; so the metadata of any file depend on its bytes alone.\<close>

theorem gguf_reader_terminates:
  assumes "length s < 12 * d" "d \<le> d'"
  shows "read_value dec d ty s \<noteq> Inl RecursionLimit \<and> read_value dec d' ty s = read_value dec d ty s
    \<and> (\<forall>v s'. read_value dec d ty s = Inr (v, s') \<longrightarrow> length s' \<le> length s)
    \<and> read_gguf_metadata dec d' s = read_gguf_metadata dec d s"
proof -
  have "read_gguf_metadata dec d' s = read_gguf_metadata dec d s"
  proof -
    have l: "read_pairs dec d' n md s' = read_pairs dec d n md s'" if "length s' \<le> length s" for n md s'
      using that assms by (intro read_pairs_stable) simp_all
    show ?thesis unfolding read_gguf_metadata_def Let_def
      by (auto split: sum.split dest!: unpack_Inr intro!: l)
  qed
  then show ?thesis
    using read_value_no_limit [OF assms(1)] read_value_stable_from [OF assms] shrinksD [OF read_value_shrinks] by blast
qed

lemma gguf_reader_terminates_witness:
  "read_value (\<lambda>_. '''') 3 9 (raw_bytes (RArr 9 [RArr 0 []])) \<noteq> Inl RecursionLimit"
  using gguf_reader_terminates [of "raw_bytes (RArr 9 [RArr 0 []])" 3 3 "\<lambda>_. ''''" 9] by simp

text \<open>But an array whose element type the reader does not know consumes nothing per item: the header alone
  makes it loop as often as the length field says, up to 2 to the power of 64.\<close>

lemma unknown_items: "13 \<le> t \<Longrightarrow> read_items (read_value dec (Suc d) t) n s = Inr (replicate n None, s)"
  by (induction n) simp_all

lemma unknown_array_consumes_nothing:
  assumes "13 \<le> t" "t < 256 ^ 4" "n < 256 ^ 8"
  shows "read_value dec (Suc (Suc d)) 9 (le_bytes 4 t @ le_bytes 8 n @ s)
    = Inr (Some (if n \<le> 10 then GList (replicate n None) else GStr (array_text n)), s)"
  using assms unknown_items [OF assms(1), of dec d] by (simp add: read_array_def del: read_value.simps(2)) (simp add: read_array_def)

section \<open>The hash of the file\<close>

text \<open>Hashing in chunks hashes the whole file: as long as the digest's updates concatenate, the loop over
  chunks of 64 KiB ends and gives the digest of the full content.\<close>

theorem file_hash_whole:
  assumes "\<And>h a b. hs_update hs (hs_update hs h a) b = hs_update hs h (a @ b)" "\<And>h. hs_update hs h [] = h"
  shows "compute_file_hash hs s = hs_digest hs (hs_update hs (hs_new hs) s)"
proof -
  have "hash_chunks (hs_update hs) h s = hs_update hs h s" for h
  proof (induction "hs_update hs" h s rule: hash_chunks.induct)
    case (1 h s)
    show ?case
    proof (cases "take HASH_CHUNK s = []")
      case True
      then have "s = []" by (simp add: HASH_CHUNK_def)
      then show ?thesis by (simp add: hash_chunks.simps assms(2))
    next
      case False
      with 1 have "hash_chunks (hs_update hs) (hs_update hs h (take HASH_CHUNK s)) (drop HASH_CHUNK s)
        = hs_update hs (hs_update hs h (take HASH_CHUNK s)) (drop HASH_CHUNK s)" by blast
      with False show ?thesis by (subst hash_chunks.simps) (simp add: assms(1))
    qed
  qed
  then show ?thesis by (simp add: compute_file_hash_def)
qed

lemma file_hash_whole_witness:
  "compute_file_hash \<lparr>hs_new = [], hs_update = (@), hs_digest = map (\<lambda>b. char_of (unat b))\<rparr> [104, 105] = ''hi''"
  by (subst file_hash_whole) (simp, simp, code_simp)

end
