(* ===== verification/Consolidate.thy ===== *)
theory Consolidate
  imports StoreLedger
begin

text \<open>
  \<open>scripts/consolidate_legacy_provider_accounts.py\<close>: the operator's one-time consolidation of the ledger accounts
  of old connection names (\<open>provider-1\<close>, ...) into the account of the one provider credential. The model has
  the plan, the write transaction with its checks, and the run with backup, rehearsal and fingerprint. A
  database is the store's with the two archive tables the script creates. Parameters: SQLite's physical
  integrity check, \<open>json.dumps\<close> of a row and the fingerprint of the protected tables. Amounts are micro-dollars.
\<close>

section \<open>State\<close>

record archived_account =
  aa_original :: string
  aa_canonical :: string
  aa_row :: string
  aa_time :: flt

record archived_tx =
  at_id :: nat
  at_provider :: string
  at_canonical :: string
  at_time :: flt

text \<open>\<open>None\<close> is a table that does not exist.\<close>

record alpha =
  al_db :: db
  al_accounts :: "archived_account list option"
  al_txs :: "archived_tx list option"

datatype consolidation_error = Refused string | SqlError

record consolidation_env =
  ce_sound :: "alpha \<Rightarrow> bool"
  ce_dump :: "account \<Rightarrow> string"
  ce_digest :: "db \<Rightarrow> string"

definition require :: "bool \<Rightarrow> string \<Rightarrow> consolidation_error + unit" where
  "require ok msg = (if ok then Inr () else Inl (Refused msg))"

lemma require_simps [simp]: "require True msg = Inr ()" "require False msg = Inl (Refused msg)"
  by (simp_all add: require_def)

lemma require_Inr [simp]: "require ok msg = Inr u \<longleftrightarrow> ok"
  by (simp add: require_def)

lemma require_Inl [simp]: "require ok msg = Inl e \<longleftrightarrow> \<not> ok \<and> e = Refused msg"
  by (auto simp: require_def)

definition OPENING_MICRO :: int where "OPENING_MICRO = 10000000"

text \<open>\<open>PRAGMA foreign_key_check\<close> finds nothing.\<close>

definition foreign_keys_hold :: "alpha \<Rightarrow> bool" where
  "foreign_keys_hold al = (let db = al_db al in
     list_all (\<lambda>k. sql_exists (\<lambda>a. acc_id a = key_consumer k) (db_accounts db)) (db_keys db)
   \<and> list_all (\<lambda>t. case tok_node t of None \<Rightarrow> True | Some n \<Rightarrow> sql_exists (\<lambda>x. node_id x = n) (db_nodes db)) (db_tokens db)
   \<and> list_all (\<lambda>n. sql_exists (\<lambda>u. usr_id u = node_owner n) (db_users db)) (db_nodes db)
   \<and> list_all (\<lambda>w. sql_exists (\<lambda>n. node_id n = own_node w) (db_nodes db)) (db_owns db)
   \<and> list_all (\<lambda>x. sql_exists (\<lambda>a. aa_original a = at_provider x) (dflt [] (al_accounts al))) (dflt [] (al_txs al)))"

definition check_integrity :: "consolidation_env \<Rightarrow> alpha \<Rightarrow> consolidation_error + unit" where
  "check_integrity env al = bindE (require (ce_sound env al) ''SQLite integrity check failed'') (\<lambda>_.
     require (foreign_keys_hold al) ''SQLite foreign key check failed'')"

text \<open>Count and sums of cost, provider earnings and platform fees.\<close>

definition financial_totals :: "db \<Rightarrow> nat \<times> int \<times> int \<times> int" where
  "financial_totals db = (length (db_txs db), sum_list (map tx_cost (db_txs db)), sum_list (map tx_earning (db_txs db)),
     sum_list (map tx_fee (db_txs db)))"

section \<open>The plan\<close>

definition is_digit :: "char \<Rightarrow> bool" where
  "is_digit c = (let n = (of_char c :: nat) in 48 \<le> n \<and> n \<le> 57)"

definition is_lower_hex :: "char \<Rightarrow> bool" where
  "is_lower_hex c = (is_digit c \<or> (let n = (of_char c :: nat) in 97 \<le> n \<and> n \<le> 102))"

text \<open>\<open>provider-[0-9]+\<close> and \<open>provider-acct-[0-9a-f]+\<close>, matched in full.\<close>

definition legacy_name :: "string \<Rightarrow> bool" where
  "legacy_name s = (starts_with ''provider-'' s \<and> drop 9 s \<noteq> [] \<and> list_all is_digit (drop 9 s))"

definition canonical_name :: "string \<Rightarrow> bool" where
  "canonical_name s = (starts_with ''provider-acct-'' s \<and> drop 14 s \<noteq> [] \<and> list_all is_lower_hex (drop 14 s))"

record ledger_plan =
  pl_legacy :: "account list"
  pl_txs :: "transaction list"
  pl_all :: "transaction list"
  pl_amount :: int
  pl_current :: int
  pl_totals :: "nat \<times> int \<times> int \<times> int"

definition row_conserves :: "transaction \<Rightarrow> bool" where
  "row_conserves t = (\<not> (tx_cost t < 0 \<or> tx_earning t < 0 \<or> tx_fee t < 0 \<or> tx_cost t \<noteq> tx_earning t + tx_fee t))"

text \<open>The pass over the transactions: earnings per legacy account.\<close>

fun tally :: "transaction list \<Rightarrow> (string, int) dict \<Rightarrow> consolidation_error + (string, int) dict" where
  "tally [] per = Inr per"
| "tally (t # ts) per = bindE
     (case map_of per (tx_provider t) of
        Some n \<Rightarrow> Inr (dict_set (tx_provider t) (n + tx_earning t) per)
      | None \<Rightarrow> bindE (require (\<not> legacy_name (tx_provider t)) ''Legacy transaction references a missing account'') (\<lambda>_. Inr per))
     (\<lambda>per'. bindE (require (row_conserves t) ''Existing ledger does not conserve microUSD'') (\<lambda>_. tally ts per'))"

definition legacy_explained :: "(string, int) dict \<Rightarrow> account \<Rightarrow> bool" where
  "legacy_explained per a = (let earned = dict_get per (acc_id a) 0 in
     \<not> (acc_balance a \<noteq> OPENING_MICRO + earned \<or> acc_earned a \<noteq> earned \<or> acc_spent a \<noteq> 0 \<or> acc_requests a \<noteq> 0 \<or> acc_tokens a \<noteq> 0))"

definition principal_explained :: "int \<Rightarrow> account \<Rightarrow> bool" where
  "principal_explained earned a = (\<not> (acc_earned a \<noteq> earned \<or> acc_balance a \<noteq> OPENING_MICRO + earned \<or> acc_spent a \<noteq> 0 \<or> acc_requests a \<noteq> 0))"

definition identity_referenced :: "string list \<Rightarrow> db \<Rightarrow> bool" where
  "identity_referenced ids db = (list_ex (\<lambda>k. key_consumer k \<in> set ids) (db_keys db)
     \<or> list_ex (\<lambda>t. case tok_billing t of None \<Rightarrow> False | Some b \<Rightarrow> b \<in> set ids) (db_tokens db)
     \<or> list_ex (\<lambda>n. node_billing n \<in> set ids) (db_nodes db))"

definition plan :: "consolidation_env \<Rightarrow> string \<Rightarrow> alpha \<Rightarrow> consolidation_error + ledger_plan" where
  "plan env canonical al = (let db = al_db al in
     bindE (check_integrity env al) (\<lambda>_.
     bindE (require (canonical_name canonical) ''Canonical principal must be an exact stable provider-acct ID'') (\<lambda>_.
     bindE (require (al_accounts al = None \<and> al_txs al = None) ''Migration archive already exists; refusing to apply twice'') (\<lambda>_.
     bindE (require (case db_tokens db of [t] \<Rightarrow> tok_revoked t = None | _ \<Rightarrow> False) ''Expected exactly one active provider credential'') (\<lambda>_.
     bindE (require (tok_billing (hd (db_tokens db)) = Some canonical) ''Canonical principal does not belong to the active credential'') (\<lambda>_.
     case get_account canonical db of
       None \<Rightarrow> Inl (Refused ''Canonical provider ledger account is missing'')
     | Some owner \<Rightarrow>
       (let legacy = filter (\<lambda>a. legacy_name (acc_id a)) (db_accounts db); ids = map acc_id legacy; txs = db_txs db in
         bindE (require (legacy \<noteq> []) ''No legacy accounts to consolidate; refusing repeat'') (\<lambda>_.
         bindE (require (\<not> identity_referenced ids db) ''Legacy account has another identity reference'') (\<lambda>_.
         bindE (require (\<not> list_ex (\<lambda>t. tx_consumer t \<in> set ids) txs) ''Legacy provider account was also used as consumer'') (\<lambda>_.
         bindE (tally txs (map (\<lambda>a. (acc_id a, 0)) legacy)) (\<lambda>per.
         bindE (require (list_all (legacy_explained per) legacy) ''Unexplained legacy account balance or usage'') (\<lambda>_.
         (let current = sum_list (map tx_earning (filter (\<lambda>t. tx_provider t = canonical) txs));
              moved = filter (\<lambda>t. tx_provider t \<in> set ids) txs; totals = financial_totals db in
           bindE (require (principal_explained current owner) ''Canonical account balance has unexplained movements'') (\<lambda>_.
           bindE (require (moved \<noteq> []) ''Legacy accounts have no transactions; review separately'') (\<lambda>_.
           bindE (require (case totals of (_, cost, earning, fee) \<Rightarrow> cost = earning + fee) ''Overall ledger does not conserve microUSD'') (\<lambda>_.
           Inr \<lparr>pl_legacy = legacy, pl_txs = moved, pl_all = txs, pl_amount = sum_list (map snd per), pl_current = current,
             pl_totals = totals\<rparr>))))))))))))))))"

section \<open>The write transaction\<close>

text \<open>Statements on the archive tables and on accounts; a violated constraint is \<open>SqlError\<close>.\<close>

definition archive_account :: "archived_account \<Rightarrow> alpha \<Rightarrow> consolidation_error + alpha" where
  "archive_account r al = (case al_accounts al of
     None \<Rightarrow> Inl SqlError
   | Some rows \<Rightarrow> if sql_exists (\<lambda>x. aa_original x = aa_original r) rows then Inl SqlError
       else Inr (al\<lparr>al_accounts := Some (rows @ [r])\<rparr>))"

definition archive_tx :: "archived_tx \<Rightarrow> alpha \<Rightarrow> consolidation_error + alpha" where
  "archive_tx r al = (case al_txs al of
     None \<Rightarrow> Inl SqlError
   | Some rows \<Rightarrow> if sql_exists (\<lambda>x. at_id x = at_id r) rows \<or> \<not> sql_exists (\<lambda>a. aa_original a = at_provider r) (dflt [] (al_accounts al))
       then Inl SqlError else Inr (al\<lparr>al_txs := Some (rows @ [r])\<rparr>))"

definition remap_tx :: "string \<Rightarrow> transaction \<Rightarrow> alpha \<Rightarrow> alpha" where
  "remap_tx canonical row al = al\<lparr>al_db := (al_db al)\<lparr>db_txs :=
     sql_update (\<lambda>t. tx_id t = tx_id row \<and> tx_provider t = tx_provider row) (\<lambda>t. t\<lparr>tx_provider := canonical\<rparr>) (db_txs (al_db al))\<rparr>\<rparr>"

definition credit_canonical :: "string \<Rightarrow> int \<Rightarrow> alpha \<Rightarrow> consolidation_error + alpha" where
  "credit_canonical canonical amount al = bindE
     (require (sql_count (\<lambda>a. acc_id a = canonical) (db_accounts (al_db al)) = 1) ''Canonical account update failed'') (\<lambda>_.
     Inr (al\<lparr>al_db := (al_db al)\<lparr>db_accounts := sql_update (\<lambda>a. acc_id a = canonical)
       (\<lambda>a. a\<lparr>acc_balance := acc_balance a + amount, acc_earned := acc_earned a + amount\<rparr>) (db_accounts (al_db al))\<rparr>\<rparr>))"

definition delete_account :: "string \<Rightarrow> alpha \<Rightarrow> consolidation_error + alpha" where
  "delete_account a al = (case del_account a (al_db al) of Inl _ \<Rightarrow> Inl SqlError | Inr db \<Rightarrow> Inr (al\<lparr>al_db := db\<rparr>))"

text \<open>\<open>executemany\<close>.\<close>

fun each :: "('r \<Rightarrow> alpha \<Rightarrow> consolidation_error + alpha) \<Rightarrow> 'r list \<Rightarrow> alpha \<Rightarrow> consolidation_error + alpha" where
  "each f [] al = Inr al"
| "each f (r # rs) al = bindE (f r al) (each f rs)"

definition tx_by_id :: "nat \<Rightarrow> db \<Rightarrow> transaction option" where
  "tx_by_id i db = find (\<lambda>t. tx_id t = i) (db_txs db)"

definition blank_provider :: "transaction \<Rightarrow> transaction" where
  "blank_provider t = t\<lparr>tx_provider := ''''\<rparr>"

text \<open>The comparison of one transaction with its original.\<close>

definition check_row :: "string \<Rightarrow> nat list \<Rightarrow> db \<Rightarrow> transaction \<Rightarrow> alpha \<Rightarrow> consolidation_error + alpha" where
  "check_row canonical ids db old al = (case tx_by_id (tx_id old) db of
     None \<Rightarrow> Inl SqlError
   | Some new \<Rightarrow>
       bindE (require (tx_provider new = (if tx_id old \<in> set ids then canonical else tx_provider old)) ''Unexpected provider attribution'') (\<lambda>_.
       bindE (require (blank_provider new = blank_provider old) ''Other transaction fields changed'') (\<lambda>_. Inr al)))"

record consolidation_report =
  cr_accounts :: nat
  cr_remapped :: nat
  cr_total :: nat
  cr_legacy :: int
  cr_canonical :: int
  cr_cost :: int
  cr_earning :: int
  cr_fee :: int

definition report_of :: "ledger_plan \<Rightarrow> consolidation_report" where
  "report_of p = (case pl_totals p of (n, cost, earning, fee) \<Rightarrow>
     \<lparr>cr_accounts = length (pl_legacy p), cr_remapped = length (pl_txs p), cr_total = n, cr_legacy = pl_amount p,
      cr_canonical = pl_current p + pl_amount p, cr_cost = cost, cr_earning = earning, cr_fee = fee\<rparr>)"

text \<open>The archives and the changes, up to the checks.\<close>

definition rewrite_ledger :: "consolidation_env \<Rightarrow> string \<Rightarrow> flt \<Rightarrow> ledger_plan \<Rightarrow> alpha \<Rightarrow> consolidation_error + alpha" where
  "rewrite_ledger env canonical now p al =
     bindE (each archive_account (map (\<lambda>a. \<lparr>aa_original = acc_id a, aa_canonical = canonical, aa_row = ce_dump env a, aa_time = now\<rparr>)
       (sort_key acc_id (pl_legacy p))) (al\<lparr>al_accounts := Some [], al_txs := Some []\<rparr>)) (\<lambda>al1.
     bindE (each archive_tx (map (\<lambda>t. \<lparr>at_id = tx_id t, at_provider = tx_provider t, at_canonical = canonical, at_time = now\<rparr>) (pl_txs p)) al1) (\<lambda>al2.
     (let al3 = foldl (\<lambda>al t. remap_tx canonical t al) al2 (pl_txs p) in
     bindE (require (list_all (\<lambda>t. map_option tx_provider (tx_by_id (tx_id t) (al_db al3)) = Some canonical) (pl_txs p))
       ''Transaction remapping was incomplete'') (\<lambda>_.
     bindE (credit_canonical canonical (pl_amount p) al3) (\<lambda>al4.
     bindE (each delete_account (map acc_id (pl_legacy p)) al4) (\<lambda>al5.
     bindE (require (\<not> list_ex (\<lambda>a. get_account (acc_id a) (al_db al5) \<noteq> None) (pl_legacy p)) ''Legacy account deletion was incomplete'') (\<lambda>_.
     Inr al5)))))))"

text \<open>The checks before the commit; \<open>al\<close> is the state before, \<open>al'\<close> the state to commit.\<close>

definition verify_ledger :: "consolidation_env \<Rightarrow> string \<Rightarrow> ledger_plan \<Rightarrow> alpha \<Rightarrow> alpha \<Rightarrow> consolidation_error + unit" where
  "verify_ledger env canonical p al al' = (let db' = al_db al'; ids = map tx_id (pl_txs p);
       others = filter (\<lambda>a. acc_id a \<notin> set (map acc_id (pl_legacy p)) \<and> acc_id a \<noteq> canonical) (db_accounts (al_db al)) in
     bindE (require (set (map tx_id (pl_all p)) = set (map tx_id (db_txs db'))) ''Transaction IDs changed'') (\<lambda>_.
     bindE (each (check_row canonical ids db') (pl_all p) al') (\<lambda>_.
     bindE (require (financial_totals db' = pl_totals p) ''Transaction aggregates changed'') (\<lambda>_.
     bindE (require (\<not> list_ex (\<lambda>a. get_account (acc_id a) db' \<noteq> Some a) others) ''An unrelated account changed'') (\<lambda>_.
     case get_account canonical db' of
       None \<Rightarrow> Inl SqlError
     | Some row \<Rightarrow>
         bindE (require (\<not> (acc_earned row \<noteq> pl_current p + pl_amount p \<or> acc_balance row \<noteq> OPENING_MICRO + (pl_current p + pl_amount p)))
           ''Canonical balance failed reconciliation'') (\<lambda>_.
         bindE (require (length (dflt [] (al_accounts al')) = length (pl_legacy p)) ''Incomplete account archive'') (\<lambda>_.
         bindE (require (length (dflt [] (al_txs al')) = length ids) ''Incomplete transaction archive'') (\<lambda>_.
         check_integrity env al'))))))))"

definition consolidate :: "consolidation_env \<Rightarrow> string \<Rightarrow> flt \<Rightarrow> bool \<Rightarrow> bool \<Rightarrow> alpha
    \<Rightarrow> (consolidation_error + consolidation_report) \<times> alpha" where
  "consolidate env canonical now already_locked in_transaction al = (
     if already_locked \<and> \<not> in_transaction then (Inl (Refused ''Expected a caller-held IMMEDIATE transaction''), al)
     else (case bindE (plan env canonical al) (\<lambda>p.
         bindE (rewrite_ledger env canonical now p al) (\<lambda>al'.
         bindE (verify_ledger env canonical p al al') (\<lambda>_. Inr (report_of p, al')))) of
       Inl e \<Rightarrow> (Inl e, al)
     | Inr (r, al') \<Rightarrow> (Inr r, al')))"

section \<open>The run\<close>

definition CONFIRMATION :: string where "CONFIRMATION = ''CONSOLIDATE-ALPHA-LEGACY-PROVIDER''"

record run_args =
  ra_canonical :: string
  ra_apply :: bool
  ra_attests :: bool
  ra_confirm :: string
  ra_transactions :: "nat option"
  ra_accounts :: "nat option"
  ra_legacy_transactions :: "nat option"

datatype run_mode = RehearsalOnly | Applied

text \<open>The tables whose content the fingerprint covers.\<close>

definition protected_tables :: "db \<Rightarrow> db" where
  "protected_tables db = empty_db\<lparr>db_accounts := db_accounts db, db_txs := db_txs db, db_tokens := db_tokens db, db_history := db_history db,
     db_nodes := db_nodes db, db_owns := db_owns db, db_keys := db_keys db, db_users := db_users db\<rparr>"

definition snapshot_digest :: "consolidation_env \<Rightarrow> alpha \<Rightarrow> string" where
  "snapshot_digest env al = ce_digest env (protected_tables (al_db al))"

text \<open>The source as the plan reads it, the backup taken of it, and the live database when the write lock is
  held; between these moments the coordinator may write. The paths have passed their checks.\<close>

definition consolidation_run :: "consolidation_env \<Rightarrow> run_args \<Rightarrow> flt \<Rightarrow> flt \<Rightarrow> alpha \<Rightarrow> alpha \<Rightarrow> alpha
    \<Rightarrow> (consolidation_error + run_mode \<times> consolidation_report) \<times> alpha" where
  "consolidation_run env args t1 t2 source backup live = (case
     bindE (require (\<not> ra_apply args \<or> ra_attests args \<and> ra_confirm args = CONFIRMATION)
       ''Explicit operator attestation and exact --confirm required'') (\<lambda>_.
     bindE (require (\<not> ra_apply args \<or> ra_transactions args \<noteq> None \<and> ra_accounts args \<noteq> None \<and> ra_legacy_transactions args \<noteq> None)
       ''All three expected counts are required for --apply'') (\<lambda>_.
     bindE (plan env (ra_canonical args) source) (\<lambda>p.
     bindE (require (\<not> ra_apply args \<or> (Some (fst (pl_totals p)), Some (length (pl_legacy p)), Some (length (pl_txs p)))
         = (ra_transactions args, ra_accounts args, ra_legacy_transactions args))
       ''Source counts changed from operator-approved values'') (\<lambda>_.
     bindE (check_integrity env backup) (\<lambda>_.
     bindE (require (snapshot_digest env backup = snapshot_digest env source) ''Source changed during backup; stop and retry'') (\<lambda>_.
     fst (consolidate env (ra_canonical args) t1 False True backup)))))))
   of Inl e \<Rightarrow> (Inl e, live)
    | Inr r \<Rightarrow>
       if \<not> ra_apply args then (Inr (RehearsalOnly, r), live)
       else if snapshot_digest env live \<noteq> snapshot_digest env source
         then (Inl (Refused ''Live database changed after backup; no writes made''), live)
       else (case consolidate env (ra_canonical args) t2 True True live of
         (Inl e, live') \<Rightarrow> (Inl e, live')
       | (Inr r', live') \<Rightarrow> (Inr (Applied, r'), live')))"

end
