(* ===== verification/ConsolidateLaws.thy ===== *)
theory ConsolidateLaws
  imports Consolidate StoreLaws
begin

text \<open>
  What the consolidation guarantees: on a database that keeps its constraints it does exactly the reference
  rewriting of the ledger or nothing, its checks before the commit never fire, money and the log are conserved,
  it cannot run twice, and a run changes the live database only as the operator approved.
\<close>

section \<open>The reference rewriting\<close>

definition moved_tx :: "string \<Rightarrow> string list \<Rightarrow> transaction \<Rightarrow> transaction" where
  "moved_tx canonical ids t = (if tx_provider t \<in> set ids then t\<lparr>tx_provider := canonical\<rparr> else t)"

definition credited_row :: "string \<Rightarrow> int \<Rightarrow> account \<Rightarrow> account" where
  "credited_row canonical amount a = (if acc_id a = canonical then a\<lparr>acc_balance := acc_balance a + amount, acc_earned := acc_earned a + amount\<rparr> else a)"

definition archive_rows :: "consolidation_env \<Rightarrow> string \<Rightarrow> flt \<Rightarrow> account list \<Rightarrow> archived_account list" where
  "archive_rows env canonical now rows = map (\<lambda>a. \<lparr>aa_original = acc_id a, aa_canonical = canonical, aa_row = ce_dump env a, aa_time = now\<rparr>) rows"

definition archive_tx_rows :: "string \<Rightarrow> flt \<Rightarrow> transaction list \<Rightarrow> archived_tx list" where
  "archive_tx_rows canonical now rows = map (\<lambda>t. \<lparr>at_id = tx_id t, at_provider = tx_provider t, at_canonical = canonical, at_time = now\<rparr>) rows"

definition consolidated :: "consolidation_env \<Rightarrow> string \<Rightarrow> flt \<Rightarrow> ledger_plan \<Rightarrow> alpha \<Rightarrow> alpha" where
  "consolidated env canonical now p al = (let ids = map acc_id (pl_legacy p) in
     al\<lparr>al_db := (al_db al)\<lparr>
          db_accounts := map (credited_row canonical (pl_amount p)) (filter (\<lambda>a. acc_id a \<notin> set ids) (db_accounts (al_db al))),
          db_txs := map (moved_tx canonical ids) (db_txs (al_db al))\<rparr>,
        al_accounts := Some (archive_rows env canonical now (sort_key acc_id (pl_legacy p))),
        al_txs := Some (archive_tx_rows canonical now (pl_txs p))\<rparr>)"

section \<open>What a plan says\<close>

lemma sum_values_set:
  "distinct (map fst d) \<Longrightarrow> map_of d k = Some (n :: int) \<Longrightarrow> sum_list (map snd (dict_set k v d)) = sum_list (map snd d) - n + v"
  by (induction d) (auto split: if_splits)

lemma tally_result:
  assumes "tally ts per = Inr per'" "distinct (map fst per)"
  shows "map fst per' = map fst per \<and> list_all row_conserves ts
    \<and> (\<forall>t \<in> set ts. tx_provider t \<in> set (map fst per) \<or> \<not> legacy_name (tx_provider t))
    \<and> (\<forall>k \<in> set (map fst per). dict_get per' k 0 = dict_get per k 0 + sum_list (map tx_earning (filter (\<lambda>t. tx_provider t = k) ts)))
    \<and> sum_list (map snd per') = sum_list (map snd per) + sum_list (map tx_earning (filter (\<lambda>t. tx_provider t \<in> set (map fst per)) ts))"
  using assms
proof (induction ts arbitrary: per)
  case (Cons t ts)
  show ?case
  proof (cases "map_of per (tx_provider t)")
    case None
    then have "tx_provider t \<notin> set (map fst per)" by (simp add: map_of_eq_None_iff)
    moreover have "tally ts per = Inr per'" "row_conserves t" "\<not> legacy_name (tx_provider t)"
      using Cons.prems(1) None by (auto simp: bindE_Inr_iff)
    ultimately show ?thesis using Cons.IH [of per] Cons.prems(2) by auto
  next
    case (Some n)
    let ?per = "dict_set (tx_provider t) (n + tx_earning t) per"
    have r: "tally ts ?per = Inr per'" "row_conserves t" using Cons.prems(1) Some by (auto simp: bindE_Inr_iff)
    have k: "tx_provider t \<in> fst ` set per" using Some by (metis map_of_eq_None_iff option.distinct(1))
    have f: "map fst ?per = map fst per" using k by (simp add: update_keys)
    have d: "distinct (map fst ?per)" using Cons.prems(2) f by simp
    note ih = Cons.IH [OF r(1) d]
    have g: "dict_get ?per x 0 = dict_get per x 0 + (if x = tx_provider t then tx_earning t else 0)" for x
      using Some by (simp add: dict_get_def)
    show ?thesis using ih r(2) k sum_values_set [OF Cons.prems(2) Some, of "n + tx_earning t"] unfolding f g by auto
  qed
qed simp

lemma plan_facts:
  assumes "plan env canonical al = Inr p"
  shows "ce_sound env al" "foreign_keys_hold al" "canonical_name canonical" "al_accounts al = None" "al_txs al = None"
    "\<exists>a. get_account canonical (al_db al) = Some a \<and> principal_explained (pl_current p) a"
    "pl_legacy p = filter (\<lambda>a. legacy_name (acc_id a)) (db_accounts (al_db al))" "pl_legacy p \<noteq> []"
    "\<not> identity_referenced (map acc_id (pl_legacy p)) (al_db al)"
    "\<not> list_ex (\<lambda>t. tx_consumer t \<in> set (map acc_id (pl_legacy p))) (db_txs (al_db al))"
    "\<exists>per. tally (db_txs (al_db al)) (map (\<lambda>a. (acc_id a, 0)) (pl_legacy p)) = Inr per \<and> list_all (legacy_explained per) (pl_legacy p)
       \<and> pl_amount p = sum_list (map snd per)"
    "pl_all p = db_txs (al_db al)" "pl_txs p = filter (\<lambda>t. tx_provider t \<in> set (map acc_id (pl_legacy p))) (db_txs (al_db al))"
    "pl_current p = sum_list (map tx_earning (filter (\<lambda>t. tx_provider t = canonical) (db_txs (al_db al))))"
    "pl_totals p = financial_totals (al_db al)" "pl_txs p \<noteq> []"
  using assms by (auto simp: plan_def Let_def bindE_Inr_iff check_integrity_def split: option.splits)

lemma plan_totals: "plan env canonical al = Inr p \<Longrightarrow> (case pl_totals p of (_, cost, earning, fee) \<Rightarrow> cost = earning + fee)"
  by (auto simp: plan_def Let_def bindE_Inr_iff split: option.splits prod.splits)

lemma not_legacy: "canonical_name c \<Longrightarrow> \<not> legacy_name c"
proof
  assume "canonical_name c" "legacy_name c"
  then obtain r where "c = ''provider-acct-'' @ r" "list_all is_digit (drop 9 c)" by (auto simp: canonical_name_def legacy_name_def starts_with_iff)
  then have "is_digit (CHR ''a'')" by simp
  moreover have "\<not> is_digit (CHR ''a'')" by code_simp
  ultimately show False by blast
qed

section \<open>The statements\<close>

lemma each_archive_account:
  "al_accounts al = Some rows \<Longrightarrow> distinct (map aa_original (rows @ rs)) \<Longrightarrow> each archive_account rs al = Inr (al\<lparr>al_accounts := Some (rows @ rs)\<rparr>)"
proof (induction rs arbitrary: al rows)
  case (Cons r rs)
  have "\<not> sql_exists (\<lambda>x. aa_original x = aa_original r) rows" using Cons.prems(2) by (simp add: sql_exists_iff) (metis imageI)
  then have "archive_account r al = Inr (al\<lparr>al_accounts := Some (rows @ [r])\<rparr>)" using Cons.prems(1) by (simp add: archive_account_def)
  with Cons.IH [of "al\<lparr>al_accounts := Some (rows @ [r])\<rparr>" "rows @ [r]"] Cons.prems(2) show ?case by simp
qed simp

lemma each_archive_tx:
  "al_txs al = Some rows \<Longrightarrow> distinct (map at_id (rows @ rs)) \<Longrightarrow> al_accounts al = Some as \<Longrightarrow> at_provider ` set rs \<subseteq> aa_original ` set as
     \<Longrightarrow> each archive_tx rs al = Inr (al\<lparr>al_txs := Some (rows @ rs)\<rparr>)"
proof (induction rs arbitrary: al rows)
  case (Cons r rs)
  have "\<not> sql_exists (\<lambda>x. at_id x = at_id r) rows" using Cons.prems(2) by (simp add: sql_exists_iff) (metis imageI)
  moreover have "sql_exists (\<lambda>a. aa_original a = at_provider r) as" using Cons.prems(4) by (auto simp: sql_exists_iff)
  ultimately have "archive_tx r al = Inr (al\<lparr>al_txs := Some (rows @ [r])\<rparr>)" using Cons.prems(1,3) by (simp add: archive_tx_def)
  with Cons.IH [of "al\<lparr>al_txs := Some (rows @ [r])\<rparr>" "rows @ [r]"] Cons.prems(2-4) show ?case by simp
qed simp

lemma remap_all:
  assumes "c \<notin> tx_provider ` set rows"
  shows "foldl (\<lambda>al t. remap_tx c t al) al rows = al\<lparr>al_db := (al_db al)\<lparr>db_txs :=
     map (\<lambda>t. if \<exists>r \<in> set rows. tx_id t = tx_id r \<and> tx_provider t = tx_provider r then t\<lparr>tx_provider := c\<rparr> else t) (db_txs (al_db al))\<rparr>\<rparr>"
  using assms
proof (induction rows arbitrary: al)
  case (Cons r rows)
  let ?one = "\<lambda>t. if tx_id t = tx_id r \<and> tx_provider t = tx_provider r then t\<lparr>tx_provider := c\<rparr> else t"
  let ?all = "\<lambda>rs t. if \<exists>r \<in> set rs. tx_id t = tx_id r \<and> tx_provider t = tx_provider r then t\<lparr>tx_provider := c\<rparr> else t"
  have "?all rows (?one t) = ?all (r # rows) t" for t using Cons.prems by auto
  then have e: "map (?all rows) (map ?one (db_txs (al_db al))) = map (?all (r # rows)) (db_txs (al_db al))"
    unfolding map_map by (intro map_cong refl) (simp only: comp_apply)
  have "foldl (\<lambda>al t. remap_tx c t al) al (r # rows) = foldl (\<lambda>al t. remap_tx c t al) (remap_tx c r al) rows" by simp
  also have "\<dots> = (remap_tx c r al)\<lparr>al_db := (al_db (remap_tx c r al))\<lparr>db_txs := map (?all rows) (db_txs (al_db (remap_tx c r al)))\<rparr>\<rparr>"
    using Cons.prems by (intro Cons.IH) simp
  also have "\<dots> = al\<lparr>al_db := (al_db al)\<lparr>db_txs := map (?all rows) (map ?one (db_txs (al_db al)))\<rparr>\<rparr>"
    by (simp add: remap_tx_def sql_update_def del: map_map)
  finally show ?case unfolding e .
qed simp

lemma remap_moved:
  assumes "c \<notin> set ids"
  shows "foldl (\<lambda>al t. remap_tx c t al) al (filter (\<lambda>t. tx_provider t \<in> set ids) (db_txs (al_db al)))
    = al\<lparr>al_db := (al_db al)\<lparr>db_txs := map (moved_tx c ids) (db_txs (al_db al))\<rparr>\<rparr>"
proof -
  have "c \<notin> tx_provider ` set (filter (\<lambda>t. tx_provider t \<in> set ids) (db_txs (al_db al)))" using assms by auto
  from remap_all [OF this, of al] show ?thesis by (auto simp: moved_tx_def intro!: alpha.equality db.equality)
qed

lemma delete_all:
  assumes "\<not> list_ex (\<lambda>k. key_consumer k \<in> set ids) (db_keys (al_db al))"
  shows "each delete_account ids al = Inr (al\<lparr>al_db := (al_db al)\<lparr>db_accounts := filter (\<lambda>a. acc_id a \<notin> set ids) (db_accounts (al_db al))\<rparr>\<rparr>)"
  using assms
proof (induction ids arbitrary: al)
  case (Cons i ids)
  have "delete_account i al = Inr (al\<lparr>al_db := (al_db al)\<lparr>db_accounts := filter (\<lambda>a. acc_id a \<noteq> i) (db_accounts (al_db al))\<rparr>\<rparr>)"
    using Cons.prems by (auto simp: delete_account_def del_account_def sql_exists_iff sql_delete_def list_ex_iff)
  then show ?case using Cons.IH [of "al\<lparr>al_db := (al_db al)\<lparr>db_accounts := filter (\<lambda>a. acc_id a \<noteq> i) (db_accounts (al_db al))\<rparr>\<rparr>"] Cons.prems
    by (simp add: list_ex_iff conj_commute)
qed simp

lemma find_by_id: "distinct (map f rows) \<Longrightarrow> r \<in> set rows \<Longrightarrow> find (\<lambda>x. f x = f r) rows = Some r"
  by (induction rows) auto

lemma tx_by_id_moved:
  assumes "distinct (map tx_id txs)" "t \<in> set txs" "db_txs db = map (moved_tx c ids) txs"
  shows "tx_by_id (tx_id t) db = Some (moved_tx c ids t)"
proof -
  have i: "tx_id (moved_tx c ids x) = tx_id x" for x by (simp add: moved_tx_def)
  have "distinct (map tx_id (map (moved_tx c ids) txs))" using assms(1) by (simp add: comp_def i)
  from find_by_id [OF this, of "moved_tx c ids t"] assms(2,3) show ?thesis by (simp add: tx_by_id_def i)
qed

lemma count_one: "distinct (map f rows) \<Longrightarrow> r \<in> set rows \<Longrightarrow> sql_count (\<lambda>x. f x = f r) rows = 1"
proof (induction rows)
  case (Cons x rows)
  show ?case
  proof (cases "x = r")
    case True
    have "f r \<notin> f ` set rows" using Cons.prems(1) True by simp
    then have "filter (\<lambda>x. f x = f r) rows = []" unfolding filter_empty_conv by (metis imageI)
    then show ?thesis using True by (simp add: sql_count_def)
  next
    case False
    then have "f x \<noteq> f r" using Cons.prems by auto
    then show ?thesis using Cons False by (simp add: sql_count_def)
  qed
qed simp

section \<open>The transaction does the reference rewriting\<close>

lemma rewrite_exact:
  assumes p: "plan env canonical al = Inr p" and ok: "db_ok (al_db al)"
  shows "rewrite_ledger env canonical now p al = Inr (consolidated env canonical now p al)"
proof -
  let ?db = "al_db al" and ?ids = "map acc_id (pl_legacy p)"
  note f = plan_facts [OF p]
  have da: "distinct (map acc_id (db_accounts ?db))" and dt: "distinct (map tx_id (db_txs ?db))"
    using ok by (auto simp: db_ok_def accounts_ok_def txs_ok_def strict_sorted_iff)
  have c: "canonical \<notin> set ?ids" using not_legacy [OF f(3)] by (auto simp: f(7))
  have dl: "distinct ?ids" unfolding f(7) by (rule distinct_map_filter [OF da])
  have s1: "each archive_account (archive_rows env canonical now (sort_key acc_id (pl_legacy p))) (al\<lparr>al_accounts := Some [], al_txs := Some []\<rparr>)
      = Inr (al\<lparr>al_accounts := Some (archive_rows env canonical now (sort_key acc_id (pl_legacy p))), al_txs := Some []\<rparr>)"
  proof -
    have "distinct (map aa_original (archive_rows env canonical now (sort_key acc_id (pl_legacy p))))"
      using dl by (simp add: archive_rows_def comp_def distinct_map)
    then show ?thesis using each_archive_account [of "al\<lparr>al_accounts := Some [], al_txs := Some []\<rparr>" "[]"] by simp
  qed
  have s2: "each archive_tx (archive_tx_rows canonical now (pl_txs p)) (al\<lparr>al_accounts := Some (archive_rows env canonical now (sort_key acc_id (pl_legacy p))), al_txs := Some []\<rparr>)
      = Inr (al\<lparr>al_accounts := Some (archive_rows env canonical now (sort_key acc_id (pl_legacy p))), al_txs := Some (archive_tx_rows canonical now (pl_txs p))\<rparr>)"
  proof -
    have "distinct (map at_id (archive_tx_rows canonical now (pl_txs p)))"
      using distinct_map_filter [OF dt] by (simp add: archive_tx_rows_def comp_def f(13))
    moreover have "at_provider ` set (archive_tx_rows canonical now (pl_txs p)) \<subseteq> aa_original ` set (archive_rows env canonical now (sort_key acc_id (pl_legacy p)))"
      by (auto simp: archive_tx_rows_def archive_rows_def f(13) image_image)
    ultimately show ?thesis
      using each_archive_tx [of "al\<lparr>al_accounts := Some (archive_rows env canonical now (sort_key acc_id (pl_legacy p))), al_txs := Some []\<rparr>" "[]"] by simp
  qed
  let ?al2 = "al\<lparr>al_accounts := Some (archive_rows env canonical now (sort_key acc_id (pl_legacy p))), al_txs := Some (archive_tx_rows canonical now (pl_txs p))\<rparr>"
  let ?al3 = "?al2\<lparr>al_db := ?db\<lparr>db_txs := map (moved_tx canonical ?ids) (db_txs ?db)\<rparr>\<rparr>"
  have s3: "foldl (\<lambda>al t. remap_tx canonical t al) ?al2 (pl_txs p) = ?al3"
    using remap_moved [OF c, of ?al2] by (simp add: f(13))
  have s4: "list_all (\<lambda>t. map_option tx_provider (tx_by_id (tx_id t) (al_db ?al3)) = Some canonical) (pl_txs p)"
    unfolding list_all_iff
  proof
    fix t assume "t \<in> set (pl_txs p)"
    then have t: "t \<in> set (db_txs ?db)" "tx_provider t \<in> set ?ids" by (auto simp: f(13))
    from tx_by_id_moved [OF dt t(1), of "al_db ?al3" canonical ?ids] t(2)
    show "map_option tx_provider (tx_by_id (tx_id t) (al_db ?al3)) = Some canonical" by (simp add: moved_tx_def)
  qed
  let ?al4 = "?al3\<lparr>al_db := (al_db ?al3)\<lparr>db_accounts := map (credited_row canonical (pl_amount p)) (db_accounts ?db)\<rparr>\<rparr>"
  obtain a where a: "get_account canonical ?db = Some a" using f(6) by blast
  then have a': "a \<in> set (db_accounts ?db)" "acc_id a = canonical" by (auto simp: get_account_def dest: find_Some_in)
  have s5: "credit_canonical canonical (pl_amount p) ?al3 = Inr ?al4"
    using count_one [OF da a'(1)] a'(2) by (simp add: credit_canonical_def credited_row_def sql_update_def)
  have s6: "each delete_account ?ids ?al4 = Inr (consolidated env canonical now p al)"
  proof -
    have n: "acc_id (credited_row canonical (pl_amount p) x) = acc_id x" for x by (simp add: credited_row_def)
    have "\<not> list_ex (\<lambda>k. key_consumer k \<in> set ?ids) (db_keys (al_db ?al4))" using f(9) by (simp add: identity_referenced_def)
    from delete_all [OF this] show ?thesis
      by (simp add: consolidated_def Let_def filter_map comp_def n)
  qed
  have s7: "\<not> list_ex (\<lambda>x. get_account (acc_id x) (al_db (consolidated env canonical now p al)) \<noteq> None) (pl_legacy p)"
    by (auto simp: list_ex_iff consolidated_def Let_def get_account_def find_None_iff credited_row_def)
  show ?thesis
    using s1 s2 s3 s4 s5 s6 s7 unfolding rewrite_ledger_def archive_rows_def archive_tx_rows_def by (simp add: Let_def)
qed

lemma each_check_row:
  assumes "\<And>t. t \<in> set rows \<Longrightarrow> check_row c ids db t al = Inr al" shows "each (check_row c ids db) rows al = Inr al"
  using assms by (induction rows) simp_all

lemma account_kept:
  assumes "distinct (map acc_id rows)" "a \<in> set rows" "acc_id a \<notin> set ids" "db_accounts db = map (credited_row c n) (filter (\<lambda>a. acc_id a \<notin> set ids) rows)"
  shows "get_account (acc_id a) db = Some (credited_row c n a)"
proof -
  have i: "acc_id (credited_row c n x) = acc_id x" for x by (simp add: credited_row_def)
  have "distinct (map acc_id (map (credited_row c n) (filter (\<lambda>a. acc_id a \<notin> set ids) rows)))"
    using distinct_map_filter [OF assms(1)] by (simp add: comp_def i)
  from find_by_id [OF this, of "credited_row c n a"] assms(2-4) show ?thesis by (simp add: get_account_def i)
qed

lemma consolidated_tables:
  "db_accounts (al_db (consolidated env c now p al)) = map (credited_row c (pl_amount p)) (filter (\<lambda>a. acc_id a \<notin> set (map acc_id (pl_legacy p))) (db_accounts (al_db al)))"
  "db_txs (al_db (consolidated env c now p al)) = map (moved_tx c (map acc_id (pl_legacy p))) (db_txs (al_db al))"
  "db_keys (al_db (consolidated env c now p al)) = db_keys (al_db al)" "db_tokens (al_db (consolidated env c now p al)) = db_tokens (al_db al)"
  "db_nodes (al_db (consolidated env c now p al)) = db_nodes (al_db al)" "db_users (al_db (consolidated env c now p al)) = db_users (al_db al)"
  "db_owns (al_db (consolidated env c now p al)) = db_owns (al_db al)" "db_outcomes (al_db (consolidated env c now p al)) = db_outcomes (al_db al)"
  "seq_tx (al_db (consolidated env c now p al)) = seq_tx (al_db al)"
  "al_accounts (consolidated env c now p al) = Some (archive_rows env c now (sort_key acc_id (pl_legacy p)))"
  "al_txs (consolidated env c now p al) = Some (archive_tx_rows c now (pl_txs p))"
  by (simp_all add: consolidated_def Let_def)

lemma moved_fields [simp]:
  "tx_id (moved_tx c ids t) = tx_id t" "tx_cost (moved_tx c ids t) = tx_cost t" "tx_earning (moved_tx c ids t) = tx_earning t"
  "tx_fee (moved_tx c ids t) = tx_fee t" "tx_consumer (moved_tx c ids t) = tx_consumer t" "blank_provider (moved_tx c ids t) = blank_provider t"
  by (simp_all add: moved_tx_def blank_provider_def)

lemma consolidated_totals: "financial_totals (al_db (consolidated env c now p al)) = financial_totals (al_db al)"
  by (simp add: financial_totals_def consolidated_tables comp_def)

lemma consolidated_keys:
  assumes p: "plan env c al = Inr p" shows "foreign_keys_hold (consolidated env c now p al)"
proof -
  note f = plan_facts [OF p]
  have k: "sql_exists (\<lambda>a. acc_id a = key_consumer k) (db_accounts (al_db (consolidated env c now p al)))" if k: "k \<in> set (db_keys (al_db al))" for k
  proof -
    obtain a where a: "a \<in> set (db_accounts (al_db al))" "acc_id a = key_consumer k"
      using f(2) k unfolding foreign_keys_hold_def Let_def list_all_iff sql_exists_iff by blast
    then have "acc_id a \<notin> set (map acc_id (pl_legacy p))" using f(9) k by (auto simp: identity_referenced_def list_ex_iff)
    with a(1) have "credited_row c (pl_amount p) a \<in> set (db_accounts (al_db (consolidated env c now p al)))"
      unfolding consolidated_tables by simp
    moreover have "acc_id (credited_row c (pl_amount p) a) = key_consumer k" using a(2) by (simp add: credited_row_def)
    ultimately show ?thesis unfolding sql_exists_iff by blast
  qed
  have "sql_exists (\<lambda>a. aa_original a = at_provider x) (archive_rows env c now (sort_key acc_id (pl_legacy p)))"
    if "x \<in> set (archive_tx_rows c now (pl_txs p))" for x
    using that by (auto simp: archive_tx_rows_def archive_rows_def f(13) sql_exists_iff)
  then show ?thesis using f(2) k unfolding foreign_keys_hold_def Let_def list_all_iff consolidated_tables by simp
qed

lemma verify_exact:
  assumes p: "plan env canonical al = Inr p" and ok: "db_ok (al_db al)"
  shows "verify_ledger env canonical p al (consolidated env canonical now p al)
    = require (ce_sound env (consolidated env canonical now p al)) ''SQLite integrity check failed''"
proof -
  let ?db = "al_db al" and ?ids = "map acc_id (pl_legacy p)" and ?al = "consolidated env canonical now p al"
  note f = plan_facts [OF p]
  have da: "distinct (map acc_id (db_accounts ?db))" and dt: "distinct (map tx_id (db_txs ?db))"
    using ok by (auto simp: db_ok_def accounts_ok_def txs_ok_def strict_sorted_iff)
  have c: "canonical \<notin> set ?ids" using not_legacy [OF f(3)] by (auto simp: f(7))
  have v1: "set (map tx_id (pl_all p)) = set (map tx_id (db_txs (al_db ?al)))" by (simp add: f(12) consolidated_tables image_image)
  have v2: "each (check_row canonical (map tx_id (pl_txs p)) (al_db ?al)) (pl_all p) ?al = Inr ?al"
  proof (rule each_check_row)
    fix t assume "t \<in> set (pl_all p)"
    then have t: "t \<in> set (db_txs ?db)" by (simp add: f(12))
    have "tx_id t \<in> set (map tx_id (pl_txs p)) \<longleftrightarrow> tx_provider t \<in> set ?ids"
      using dt t by (auto simp: f(13) distinct_map inj_on_def)
    then show "check_row canonical (map tx_id (pl_txs p)) (al_db ?al) t ?al = Inr ?al"
      using tx_by_id_moved [OF dt t consolidated_tables(2)] by (simp add: check_row_def) (simp add: moved_tx_def)
  qed
  have v4: "\<not> list_ex (\<lambda>a. get_account (acc_id a) (al_db ?al) \<noteq> Some a) (filter (\<lambda>a. acc_id a \<notin> set ?ids \<and> acc_id a \<noteq> canonical) (db_accounts ?db))"
    using account_kept [OF da _ _ consolidated_tables(1)] by (auto simp: list_ex_iff credited_row_def)
  obtain a where a: "get_account canonical ?db = Some a" "principal_explained (pl_current p) a" using f(6) by blast
  then have a': "a \<in> set (db_accounts ?db)" "acc_id a = canonical" by (auto simp: get_account_def dest: find_Some_in)
  have v5: "get_account canonical (al_db ?al) = Some (credited_row canonical (pl_amount p) a)"
    using account_kept [OF da a'(1) _ consolidated_tables(1)] c a'(2) by simp
  have v6: "acc_earned (credited_row canonical (pl_amount p) a) = pl_current p + pl_amount p"
    "acc_balance (credited_row canonical (pl_amount p) a) = OPENING_MICRO + (pl_current p + pl_amount p)"
    using a(2) a'(2) by (auto simp: credited_row_def principal_explained_def)
  have v7: "length (dflt [] (al_accounts ?al)) = length (pl_legacy p)" "length (dflt [] (al_txs ?al)) = length (map tx_id (pl_txs p))"
    by (simp_all add: consolidated_tables archive_rows_def archive_tx_rows_def)
  show ?thesis
    unfolding verify_ledger_def Let_def
    using v1 v2 v4 v5 v6 v7 consolidated_totals [of env canonical now p al] consolidated_keys [OF p, of now]
    by (simp add: f(15) check_integrity_def bindE_def require_def split: sum.split)
qed

lemma consolidation_exact_eq:
  assumes "db_ok (al_db al)"
  shows "consolidate env canonical now False locked al = (case plan env canonical al of
      Inl e \<Rightarrow> (Inl e, al)
    | Inr p \<Rightarrow> if ce_sound env (consolidated env canonical now p al) then (Inr (report_of p), consolidated env canonical now p al)
        else (Inl (Refused ''SQLite integrity check failed''), al))"
proof (cases "plan env canonical al")
  case (Inr p)
  from rewrite_exact [OF Inr assms, of now] verify_exact [OF Inr assms, of now] show ?thesis
    by (simp add: consolidate_def Inr require_def)
qed (simp add: consolidate_def)

text \<open>C25: The consolidation does exactly the reference rewriting or nothing. On a database that keeps the
  store's constraints, an accepted plan is carried out as stated by \<open>consolidated\<close>: the legacy rows go to the
  archives, their transactions to the canonical account, which gets the sum of their earnings, and every other
  row stays; of the checks before the commit only SQLite's own integrity check can still fail. A refused plan
  changes nothing.\<close>

theorem consolidation_exact:
  assumes "db_ok (al_db al)"
  shows "consolidate env canonical now False locked al = (case plan env canonical al of
      Inl e \<Rightarrow> (Inl e, al)
    | Inr p \<Rightarrow> if ce_sound env (consolidated env canonical now p al) then (Inr (report_of p), consolidated env canonical now p al)
        else (Inl (Refused ''SQLite integrity check failed''), al))"
  by (rule consolidation_exact_eq) (rule assms)

section \<open>Money and the log\<close>

lemma consolidated_ok:
  assumes p: "plan env c al = Inr p" and ok: "db_ok (al_db al)" shows "db_ok (al_db (consolidated env c now p al))"
proof -
  have i: "acc_id (credited_row c n x) = acc_id x" for n x by (simp add: credited_row_def)
  have "distinct (map acc_id (db_accounts (al_db (consolidated env c now p al))))"
    using ok distinct_map_filter [of acc_id "db_accounts (al_db al)"] by (simp add: consolidated_tables comp_def i db_ok_def accounts_ok_def)
  moreover have "key_consumer ` set (db_keys (al_db al)) \<subseteq> acc_id ` set (db_accounts (al_db (consolidated env c now p al)))"
  proof -
    have k: "\<exists>a \<in> set (db_accounts (al_db (consolidated env c now p al))). acc_id a = key_consumer k" if "k \<in> set (db_keys (al_db al))" for k
      using consolidated_keys [OF p, of now] that unfolding foreign_keys_hold_def Let_def list_all_iff sql_exists_iff consolidated_tables(3) by blast
    show ?thesis
    proof (rule image_subsetI)
      fix x assume "x \<in> set (db_keys (al_db al))"
      from k [OF this] show "key_consumer x \<in> acc_id ` set (db_accounts (al_db (consolidated env c now p al)))" by (metis imageI)
    qed
  qed
  ultimately show ?thesis using ok
    by (simp add: db_ok_defs consolidated_tables(2-9) comp_def)
qed

lemma sum_credited:
  "sum_list (map acc_balance (map (credited_row c n) rows)) = sum_list (map acc_balance rows) + n * int (sql_count (\<lambda>a. acc_id a = c) rows)"
  by (induction rows) (auto simp: credited_row_def sql_count_def algebra_simps)

lemma sum_split: "sum_list (map f rows) = sum_list (map f (filter P rows)) + sum_list (map f (filter (\<lambda>x. \<not> P x) rows))" for f :: "'a \<Rightarrow> int"
  by (induction rows) auto

lemma dict_values: "distinct (map fst d) \<Longrightarrow> map (\<lambda>k. dict_get d k v) (map fst d) = map snd d"
  by (induction d) (auto simp: dict_get_def image_iff intro!: map_cong split: prod.splits)

lemma plan_amount:
  assumes p: "plan env c al = Inr p" and ok: "db_ok (al_db al)"
  shows "pl_amount p = sum_list (map tx_earning (pl_txs p))"
    "sum_list (map acc_balance (pl_legacy p)) = OPENING_MICRO * int (length (pl_legacy p)) + pl_amount p"
    "\<forall>t \<in> set (db_txs (al_db al)). tx_provider t \<in> set (map acc_id (pl_legacy p)) \<or> \<not> legacy_name (tx_provider t)"
proof -
  note f = plan_facts [OF p]
  let ?zero = "map (\<lambda>a. (acc_id a, 0)) (pl_legacy p)"
  obtain per where t: "tally (db_txs (al_db al)) ?zero = Inr per" "list_all (legacy_explained per) (pl_legacy p)" "pl_amount p = sum_list (map snd per)"
    using f(11) by blast
  have z: "map fst ?zero = map acc_id (pl_legacy p)" by (simp add: comp_def)
  have d: "distinct (map acc_id (pl_legacy p))" using ok by (auto simp: f(7) db_ok_def accounts_ok_def intro: distinct_map_filter)
  then have d0: "distinct (map fst ?zero)" unfolding z .
  note r = tally_result [OF t(1) d0, unfolded z]
  have zs: "sum_list (map snd ?zero) = 0" by (simp add: comp_def)
  show a: "pl_amount p = sum_list (map tx_earning (pl_txs p))" using r zs by (simp add: t(3) f(13))
  have "map (\<lambda>a. dict_get per (acc_id a) 0) (pl_legacy p) = map snd per"
    using dict_values [of per 0] r d by (metis (no_types, lifting) comp_apply map_eq_conv map_map)
  then have "sum_list (map (\<lambda>a. dict_get per (acc_id a) 0) (pl_legacy p)) = pl_amount p" by (simp add: t(3))
  moreover have "sum_list (map acc_balance (pl_legacy p)) = sum_list (map (\<lambda>a. OPENING_MICRO + dict_get per (acc_id a) 0) (pl_legacy p))"
    using t(2) by (intro arg_cong [where f = sum_list] map_cong) (auto simp: list_all_iff legacy_explained_def Let_def)
  ultimately show "sum_list (map acc_balance (pl_legacy p)) = OPENING_MICRO * int (length (pl_legacy p)) + pl_amount p"
    by (simp add: sum_list_addf sum_list_triv algebra_simps)
  show "\<forall>t \<in> set (db_txs (al_db al)). tx_provider t \<in> set (map acc_id (pl_legacy p)) \<or> \<not> legacy_name (tx_provider t)" using r by blast
qed

text \<open>C9: The consolidation conserves money and the log. After a successful run of the transaction the database
  keeps every constraint; counts and sums of costs, earnings and fees are unchanged, and so is every field of
  every transaction but the provider; the canonical account's totals are those of its logged earnings plus its
  opening credit; all balances together lose exactly the opening credit of the retired accounts; no legacy name
  is left, and a second consolidation is refused.\<close>

theorem consolidation_conserves:
  assumes "db_ok (al_db al)" "consolidate env canonical now False locked al = (Inr r, al')"
  shows "db_ok (al_db al') \<and> financial_totals (al_db al') = financial_totals (al_db al)
    \<and> map blank_provider (db_txs (al_db al')) = map blank_provider (db_txs (al_db al))
    \<and> (\<exists>a. get_account canonical (al_db al') = Some a \<and> acc_earned a = sum_list (map tx_earning (txs_of_provider canonical (al_db al')))
         \<and> acc_balance a = 10000000 + acc_earned a)
    \<and> sum_list (map acc_balance (db_accounts (al_db al'))) + 10000000 * int (cr_accounts r) = sum_list (map acc_balance (db_accounts (al_db al)))
    \<and> list_all (\<lambda>a. \<not> legacy_name (acc_id a)) (db_accounts (al_db al')) \<and> list_all (\<lambda>t. \<not> legacy_name (tx_provider t)) (db_txs (al_db al'))
    \<and> (\<exists>e. consolidate env canonical later False locked al' = (Inl e, al'))"
proof -
  obtain p where p: "plan env canonical al = Inr p" and r: "r = report_of p" and al': "al' = consolidated env canonical now p al"
    using assms(2) consolidation_exact_eq [OF assms(1), of env canonical now locked] by (auto split: sum.splits if_splits)
  let ?ids = "map acc_id (pl_legacy p)" and ?db = "al_db al"
  note f = plan_facts [OF p] and am = plan_amount [OF p assms(1)]
  have da: "distinct (map acc_id (db_accounts ?db))" using assms(1) by (auto simp: db_ok_def accounts_ok_def)
  have c: "canonical \<notin> set ?ids" "\<not> legacy_name canonical" using not_legacy [OF f(3)] by (auto simp: f(7))
  obtain a where a: "get_account canonical ?db = Some a" "principal_explained (pl_current p) a" using f(6) by blast
  then have a': "a \<in> set (db_accounts ?db)" "acc_id a = canonical" by (auto simp: get_account_def dest: find_Some_in)
  have g: "get_account canonical (al_db al') = Some (credited_row canonical (pl_amount p) a)"
    unfolding al' using account_kept [OF da a'(1) _ consolidated_tables(1)] c a'(2) by simp
  have e: "sum_list (map tx_earning (txs_of_provider canonical (al_db al'))) = pl_current p + pl_amount p"
  proof -
    have "sum_list (map tx_earning (filter (\<lambda>t. tx_provider t = canonical) (map (moved_tx canonical ?ids) txs)))
        = sum_list (map tx_earning (filter (\<lambda>t. tx_provider t = canonical) txs)) + sum_list (map tx_earning (filter (\<lambda>t. tx_provider t \<in> set ?ids) txs))" for txs
      using c(1) by (induction txs) (auto simp: moved_tx_def)
    then show ?thesis by (simp add: txs_of_provider_def al' consolidated_tables f(14) am(1) f(13))
  qed
  have b: "sum_list (map acc_balance (db_accounts (al_db al'))) + 10000000 * int (length (pl_legacy p)) = sum_list (map acc_balance (db_accounts ?db))"
  proof -
    have "distinct (map acc_id (filter (\<lambda>x. acc_id x \<notin> set ?ids) (db_accounts ?db)))" by (rule distinct_map_filter [OF da])
    moreover have "a \<in> set (filter (\<lambda>x. acc_id x \<notin> set ?ids) (db_accounts ?db))" using a' c(1) by simp
    ultimately have "sql_count (\<lambda>x. acc_id x = canonical) (filter (\<lambda>x. acc_id x \<notin> set ?ids) (db_accounts ?db)) = 1"
      using count_one [of acc_id _ a] a'(2) by simp
    moreover have "filter (\<lambda>x. acc_id x \<in> set ?ids) (db_accounts ?db) = pl_legacy p"
      unfolding f(7) by (auto intro!: filter_cong)
    ultimately show ?thesis
      using sum_split [of acc_balance "db_accounts ?db" "\<lambda>x. acc_id x \<in> set ?ids"] am(2)
      by (simp add: al' consolidated_tables sum_credited OPENING_MICRO_def del: map_map)
  qed
  have l1: "list_all (\<lambda>a. \<not> legacy_name (acc_id a)) (db_accounts (al_db al'))"
    by (auto simp: al' consolidated_tables list_all_iff credited_row_def f(7))
  have l2: "list_all (\<lambda>t. \<not> legacy_name (tx_provider t)) (db_txs (al_db al'))"
    using am(3) c(2) by (auto simp: al' consolidated_tables list_all_iff moved_tx_def)
  have "\<exists>e. consolidate env canonical later False locked al' = (Inl e, al')"
  proof (cases "plan env canonical al'")
    case (Inr q)
    then show ?thesis using plan_facts(4) [OF Inr] by (simp add: al' consolidated_tables)
  qed (simp add: consolidate_def)
  moreover have "cr_accounts r = length (pl_legacy p)" by (simp add: r report_of_def split: prod.split)
  ultimately show ?thesis
    using consolidated_ok [OF p assms(1), of now] consolidated_totals [of env canonical now p al] g e b l1 l2 a(2) a'(2)
    by (auto simp: al' [symmetric] credited_row_def principal_explained_def OPENING_MICRO_def) (simp_all add: al' consolidated_tables comp_def)
qed

section \<open>A run\<close>

lemma consolidate_plan:
  "consolidate env c now locked tx al = (Inr r, al') \<Longrightarrow> \<exists>p. plan env c al = Inr p \<and> r = report_of p"
  by (auto simp: consolidate_def bindE_Inr_iff split: if_splits sum.splits)

lemma consolidate_error: "consolidate env c now locked tx al = (Inl e, al') \<Longrightarrow> al' = al"
  by (auto simp: consolidate_def split: if_splits sum.splits)

lemma protected_same: "protected_tables db = protected_tables db' \<Longrightarrow> db_accounts db = db_accounts db' \<and> db_txs db = db_txs db'"
  by (simp add: protected_tables_def empty_db_def)

lemma report_sizes:
  "cr_total (report_of p) = fst (pl_totals p)" "cr_accounts (report_of p) = length (pl_legacy p)" "cr_remapped (report_of p) = length (pl_txs p)"
  by (simp_all add: report_of_def split: prod.split)

text \<open>The live ledger changes only as the operator approved. When a run changes the live database, applying was
  requested with the attestation, the exact confirmation and all three counts; the protected tables are the
  ones the plan was made on; the change is one successful consolidation of the live database; and the counts the
  operator approved are the counts of what was done. The fingerprint is assumed to tell these two contents apart.\<close>

theorem consolidation_run_guarded:
  assumes "consolidation_run env args t1 t2 source backup live = (res, live')" "live' \<noteq> live"
    "snapshot_digest env live = snapshot_digest env source \<Longrightarrow> protected_tables (al_db live) = protected_tables (al_db source)"
  shows "ra_apply args \<and> ra_attests args \<and> ra_confirm args = CONFIRMATION \<and> protected_tables (al_db live) = protected_tables (al_db source)
    \<and> (\<exists>r. res = Inr (Applied, r) \<and> consolidate env (ra_canonical args) t2 True True live = (Inr r, live')
         \<and> ra_transactions args = Some (cr_total r) \<and> ra_accounts args = Some (cr_accounts r) \<and> ra_legacy_transactions args = Some (cr_remapped r))"
proof -
  obtain r0 where r0: "bindE (require (\<not> ra_apply args \<or> ra_attests args \<and> ra_confirm args = CONFIRMATION)
       ''Explicit operator attestation and exact --confirm required'') (\<lambda>_.
     bindE (require (\<not> ra_apply args \<or> ra_transactions args \<noteq> None \<and> ra_accounts args \<noteq> None \<and> ra_legacy_transactions args \<noteq> None)
       ''All three expected counts are required for --apply'') (\<lambda>_.
     bindE (plan env (ra_canonical args) source) (\<lambda>p.
     bindE (require (\<not> ra_apply args \<or> (Some (fst (pl_totals p)), Some (length (pl_legacy p)), Some (length (pl_txs p)))
         = (ra_transactions args, ra_accounts args, ra_legacy_transactions args))
       ''Source counts changed from operator-approved values'') (\<lambda>_.
     bindE (check_integrity env backup) (\<lambda>_.
     bindE (require (snapshot_digest env backup = snapshot_digest env source) ''Source changed during backup; stop and retry'') (\<lambda>_.
     fst (consolidate env (ra_canonical args) t1 False True backup))))))) = Inr r0" (is "?checks = _")
    using assms(1,2) unfolding consolidation_run_def by (cases ?checks) auto
  then have a: "ra_apply args" "snapshot_digest env live = snapshot_digest env source" and c: "\<exists>r. res = Inr (Applied, r) \<and> consolidate env (ra_canonical args) t2 True True live = (Inr r, live')"
    using assms(1,2) unfolding consolidation_run_def by (auto split: if_splits prod.splits sum.splits dest: consolidate_error)
  then obtain r q where r: "res = Inr (Applied, r)" "consolidate env (ra_canonical args) t2 True True live = (Inr r, live')"
    "plan env (ra_canonical args) live = Inr q" "r = report_of q" using consolidate_plan by blast
  from r0 a(1) obtain p where p: "plan env (ra_canonical args) source = Inr p" "ra_attests args" "ra_confirm args = CONFIRMATION"
    "ra_transactions args = Some (fst (pl_totals p))" "ra_accounts args = Some (length (pl_legacy p))" "ra_legacy_transactions args = Some (length (pl_txs p))"
    by (auto simp: bindE_Inr_iff)
  note s = assms(3) [OF a(2)]
  have "pl_legacy q = pl_legacy p" using plan_facts(7) [OF p(1)] plan_facts(7) [OF r(3)] protected_same [OF s] by simp
  moreover have "pl_txs q = pl_txs p" using plan_facts(13) [OF p(1)] plan_facts(13) [OF r(3)] protected_same [OF s] calculation by simp
  moreover have "pl_totals q = pl_totals p" using plan_facts(15) [OF p(1)] plan_facts(15) [OF r(3)] protected_same [OF s] by (simp add: financial_totals_def)
  ultimately show ?thesis using a(1) p(2-6) r s by (simp add: report_sizes)
qed

section \<open>An instance\<close>

definition sample_alpha_env :: consolidation_env where
  "sample_alpha_env = \<lparr>ce_sound = (\<lambda>_. True), ce_dump = (\<lambda>_. ''{}''), ce_digest = (\<lambda>_. '''')\<rparr>"

definition sample_legacy :: account where
  "sample_legacy = \<lparr>acc_id = ''provider-1'', acc_name = ''p'', acc_balance = 10000007, acc_spent = 0, acc_earned = 7, acc_requests = 0,
     acc_tokens = 0, acc_created = 0\<rparr>"

definition sample_tx :: transaction where
  "sample_tx = \<lparr>tx_id = 1, tx_request = ''r'', tx_consumer = ''c'', tx_provider = ''provider-1'', tx_connection = '''', tx_provider_name = ''p'',
     tx_model = ''m'', tx_requested_model = None, tx_served_model = None, tx_input = 1, tx_output = 1, tx_cached = 0, tx_cost = 8,
     tx_cost_input = 4, tx_cost_output = 4, tx_cost_cache = 0, tx_earning = 7, tx_fee = 1, tx_trust = '''', tx_encrypted = 0,
     tx_preference = '''', tx_latency = 0, tx_ttft = 0, tx_tps = 0, tx_queued = 0, tx_queue_wait = 0, tx_time = 0\<rparr>"

definition sample_alpha :: alpha where
  "sample_alpha = \<lparr>al_db = empty_db\<lparr>db_accounts := [sample_legacy, new_account ''provider-acct-ab'' ''p'' 0], db_txs := [sample_tx], seq_tx := 1,
     db_tokens := [new_token ''h'' ''p'' ''provider-acct-ab'' 0]\<rparr>, al_accounts = None, al_txs = None\<rparr>"

definition sample_plan :: ledger_plan where
  "sample_plan = \<lparr>pl_legacy = [sample_legacy], pl_txs = [sample_tx], pl_all = [sample_tx], pl_amount = 7, pl_current = 0, pl_totals = (1, 8, 7, 1)\<rparr>"

lemma sample_alpha_ok: "db_ok (al_db sample_alpha)"
  by (simp add: sample_alpha_def db_ok_defs empty_db_def new_account_def sample_legacy_def sample_tx_def new_token_def)

lemma sample_planned: "plan sample_alpha_env ''provider-acct-ab'' sample_alpha = Inr sample_plan"
proof -
  have n: "legacy_name ''provider-1''" "\<not> legacy_name ''provider-acct-ab''" "canonical_name ''provider-acct-ab''" by code_simp+
  show ?thesis
    by (simp add: plan_def sample_alpha_def check_integrity_def sample_alpha_env_def foreign_keys_hold_def empty_db_def n Let_def
        get_account_def new_account_def sample_legacy_def sample_tx_def new_token_def identity_referenced_def row_conserves_def
        legacy_explained_def principal_explained_def OPENING_MICRO_def dict_get_def financial_totals_def sample_plan_def MICRO_PER_DOLLAR_def)
qed

lemma consolidation_exact_witness:
  "fst (consolidate sample_alpha_env ''provider-acct-ab'' 5 False False sample_alpha) = Inr (report_of sample_plan)"
  using consolidation_exact [OF sample_alpha_ok, of sample_alpha_env "''provider-acct-ab''" 5 False]
  by (simp add: sample_planned) (simp add: sample_alpha_env_def)

definition sample_consolidated :: alpha where
  "sample_consolidated = consolidated sample_alpha_env ''provider-acct-ab'' 5 sample_plan sample_alpha"

lemma sample_consolidation: "consolidate sample_alpha_env ''provider-acct-ab'' 5 False locked sample_alpha = (Inr (report_of sample_plan), sample_consolidated)"
  by (simp add: consolidation_exact_eq [OF sample_alpha_ok] sample_planned sample_consolidated_def) (simp add: sample_alpha_env_def)

lemma consolidation_conserves_witness:
  "\<exists>a. get_account ''provider-acct-ab'' (al_db sample_consolidated) = Some a \<and> acc_balance a = 10000000 + acc_earned a"
  using consolidation_conserves [OF sample_alpha_ok sample_consolidation, of 9 False] by blast

definition sample_run_args :: run_args where
  "sample_run_args = \<lparr>ra_canonical = ''provider-acct-ab'', ra_apply = True, ra_attests = True, ra_confirm = CONFIRMATION,
     ra_transactions = Some 1, ra_accounts = Some 1, ra_legacy_transactions = Some 1\<rparr>"

lemma consolidation_run_guarded_witness:
  "\<exists>r. fst (consolidation_run sample_alpha_env sample_run_args 5 5 sample_alpha sample_alpha sample_alpha) = Inr (Applied, r)"
proof -
  have l: "consolidate sample_alpha_env ''provider-acct-ab'' 5 True True sample_alpha = (Inr (report_of sample_plan), sample_consolidated)"
    "consolidate sample_alpha_env ''provider-acct-ab'' 5 False True sample_alpha = (Inr (report_of sample_plan), sample_consolidated)"
    using sample_consolidation [of True] by (simp_all add: consolidate_def)
  have i: "check_integrity sample_alpha_env sample_alpha = Inr ()"
    using plan_facts(1,2) [OF sample_planned] by (simp add: check_integrity_def)
  have r: "consolidation_run sample_alpha_env sample_run_args 5 5 sample_alpha sample_alpha sample_alpha
      = (Inr (Applied, report_of sample_plan), sample_consolidated)"
    by (simp add: consolidation_run_def sample_run_args_def sample_planned i l) (simp add: l sample_plan_def)
  have "al_accounts sample_consolidated \<noteq> al_accounts sample_alpha"
    by (simp add: sample_consolidated_def consolidated_tables) (simp add: sample_alpha_def)
  then have "sample_consolidated \<noteq> sample_alpha" by auto
  from consolidation_run_guarded [OF r this] show ?thesis by (auto simp: r)
qed

end
