(* ===== verification/Bytes.thy ===== *)
theory Bytes
  imports Base64
begin

text \<open>
  Byte strings as the end-to-end session code (\<open>shared/e2e.py\<close>, \<open>shared/handshake.py\<close>,
  \<open>coordinator/app_attest.py\<close>) uses them: UTF-8 of the text the model covers, big-endian numbers,
  standard base64 with strict decoding, and the length-prefixed framing of a transcript. A byte is a
  character; text is a sequence of code points below 256.
\<close>

section \<open>UTF-8\<close>

definition utf8_char :: "char \<Rightarrow> string" where
  "utf8_char c = (if byte c < 128 then [c] else [char_of (192 + byte c div 64), char_of (128 + byte c mod 64)])"

definition utf8 :: "string \<Rightarrow> string" where
  "utf8 s = concat (map utf8_char s)"

lemma byte_char_of [simp]: "byte (char_of n) = n mod 256"
  by (simp add: byte_def)

lemma char_of_inject: "(m :: nat) < 256 \<Longrightarrow> n < 256 \<Longrightarrow> (char_of m :: char) = char_of n \<longleftrightarrow> m = n"
  by (metis byte_char_of mod_less)

lemma byte_inject [simp]: "byte c = byte d \<longleftrightarrow> c = d"
  by (metis char_of_byte)

lemma utf8_char_prefix:
  assumes "utf8_char c @ s = utf8_char d @ t"
  shows "c = d \<and> s = t"
proof -
  have lead: "byte x div 64 < 4" "byte x mod 64 < 64" for x
    using byte_less [of x] by linarith+
  have two: "192 + byte x div 64 < 256" "128 + byte x mod 64 < 256" for x
    using lead [of x] by linarith+
  have mixed: "char_of (192 + byte x div 64) \<noteq> y" if "byte y < 128" for x y
    using that two [of x] by auto
  show ?thesis
  proof (cases "byte c < 128")
    case True
    then show ?thesis using assms mixed [of c d] by (auto simp: utf8_char_def split: if_splits)
  next
    case False
    have d: "\<not> byte d < 128" using assms False mixed [of d c] by (auto simp: utf8_char_def split: if_splits)
    have eq: "char_of (192 + byte c div 64) = (char_of (192 + byte d div 64) :: char)"
      "char_of (128 + byte c mod 64) = (char_of (128 + byte d mod 64) :: char)" "s = t"
      using assms False d by (auto simp: utf8_char_def)
    have "byte c div 64 = byte d div 64" "byte c mod 64 = byte d mod 64"
      using eq(1,2) two [of c] two [of d] by (auto simp: char_of_inject)
    then have "byte c = byte d" by (metis mod_div_mult_eq)
    then show ?thesis using eq(3) by simp
  qed
qed

lemma utf8_char_nonempty [simp]: "utf8_char c \<noteq> []"
  by (simp add: utf8_char_def)

lemma utf8_inject [simp]: "utf8 s = utf8 t \<longleftrightarrow> s = t"
proof
  show "utf8 s = utf8 t \<Longrightarrow> s = t"
  proof (induction s arbitrary: t)
    case Nil
    then show ?case by (cases t) (simp_all add: utf8_def)
  next
    case (Cons c s)
    then obtain d t' where t: "t = d # t'" by (cases t) (simp_all add: utf8_def)
    have "c = d \<and> utf8 s = utf8 t'" using Cons.prems utf8_char_prefix [of c "utf8 s" d "utf8 t'"] by (simp add: t utf8_def)
    then show ?case using Cons.IH t by simp
  qed
qed simp

section \<open>Numbers of a fixed width\<close>

text \<open>\<open>n.to_bytes(w, "big")\<close>; \<open>None\<close> is the overflow error.\<close>

primrec be :: "nat \<Rightarrow> nat \<Rightarrow> string" where
  "be 0 n = []"
| "be (Suc w) n = be w (n div 256) @ [char_of (n mod 256)]"

definition to_bytes :: "nat \<Rightarrow> nat \<Rightarrow> string option" where
  "to_bytes w n = (if n < 256 ^ w then Some (be w n) else None)"

text \<open>\<open>int.from_bytes(bs, "big")\<close>.\<close>

definition from_bytes :: "string \<Rightarrow> nat" where
  "from_bytes s = foldl (\<lambda>n c. n * 256 + byte c) 0 s"

lemma length_be [simp]: "length (be w n) = w"
  by (induction w arbitrary: n) simp_all

lemma from_bytes_be [simp]: "n < 256 ^ w \<Longrightarrow> from_bytes (be w n) = n"
proof (induction w arbitrary: n)
  case 0
  then show ?case by (simp add: from_bytes_def)
next
  case (Suc w)
  have "n div 256 < 256 ^ w" using Suc.prems by (simp add: less_mult_imp_div_less mult.commute)
  then show ?case using Suc.IH by (simp add: from_bytes_def)
qed

lemma be_inject: "n < 256 ^ w \<Longrightarrow> m < 256 ^ w \<Longrightarrow> be w n = be w m \<longleftrightarrow> n = m"
  by (metis from_bytes_be)

section \<open>Standard base64\<close>

text \<open>\<open>base64.b64encode\<close> and \<open>base64.b64decode(..., validate=True)\<close>.\<close>

definition std_char :: "char \<Rightarrow> char" where
  "std_char c = (if c = CHR ''-'' then CHR ''+'' else if c = CHR ''_'' then CHR ''/'' else c)"

definition b64encode :: "string \<Rightarrow> string" where
  "b64encode s = map std_char (urlsafe_b64encode s)"

definition std_value :: "char \<Rightarrow> nat option" where
  "std_value c = (if c = CHR ''-'' \<or> c = CHR ''_'' then None else b64_value c)"

fun b64decode_strict :: "string \<Rightarrow> string option" where
  "b64decode_strict [] = Some []"
| "b64decode_strict (a # b # c # d # rest) = (case (std_value a, std_value b) of
     (Some v, Some w) \<Rightarrow>
       if d = CHR ''='' then
         (if rest \<noteq> [] then None
          else if c = CHR ''='' then Some [char_of (v * 4 + w div 16)]
          else (case std_value c of None \<Rightarrow> None
            | Some x \<Rightarrow> Some [char_of (v * 4 + w div 16), char_of (w mod 16 * 16 + x div 4)]))
       else (case (std_value c, std_value d) of
         (Some x, Some y) \<Rightarrow> map_option (\<lambda>r. char_of (v * 4 + w div 16) # char_of (w mod 16 * 16 + x div 4)
            # char_of (x mod 4 * 64 + y) # r) (b64decode_strict rest)
       | _ \<Rightarrow> None)
   | _ \<Rightarrow> None)"
| "b64decode_strict _ = None"

lemma std_values: "list_all (\<lambda>n. std_value (std_char (b64_char n)) = Some n \<and> std_char (b64_char n) \<noteq> CHR ''='') [0..<64]"
  by code_simp

lemma std_char_simps [simp]:
  assumes "n < 64"
  shows "std_value (std_char (b64_char n)) = Some n" "std_char (b64_char n) \<noteq> CHR ''=''"
  using std_values assms by (simp_all add: list_all_iff)

lemma std_char_pad [simp]: "std_char (CHR ''='') = CHR ''=''"
  by (simp add: std_char_def)

lemma b64decode_encode [simp]: "b64decode_strict (b64encode s) = Some s"
proof (induction s rule: urlsafe_b64encode.induct)
  case 1
  then show ?case by (simp add: b64encode_def)
next
  case (2 a)
  then show ?case by (simp add: b64encode_def sextet_bounds regroup_last del: mult_less_cancel2)
next
  case (3 a b)
  then show ?case by (simp add: b64encode_def sextet_bounds regroup regroup_last del: mult_less_cancel2)
next
  case (4 a b c xs)
  then show ?case by (simp add: b64encode_def sextet_bounds regroup del: mult_less_cancel2)
qed

section \<open>Length-prefixed fields\<close>

text \<open>\<open>len(value).to_bytes(4, "big") + value\<close>, which is \<open>struct.pack("!I", len(value)) + value\<close>.\<close>

definition prefixed_field :: "string \<Rightarrow> string option" where
  "prefixed_field s = map_option (\<lambda>l. l @ s) (to_bytes 4 (length s))"

fun prefixed_fields :: "string list \<Rightarrow> string option" where
  "prefixed_fields [] = Some []"
| "prefixed_fields (x # xs) = (case (prefixed_field x, prefixed_fields xs) of
     (Some a, Some b) \<Rightarrow> Some (a @ b) | _ \<Rightarrow> None)"

lemma be_nonempty: "0 < w \<Longrightarrow> be w n \<noteq> []"
  using length_be [of w n] by (metis length_0_conv less_numeral_extra(3))

lemma prefixed_fields_Cons:
  "prefixed_fields (x # xs) = Some s \<longleftrightarrow>
    (\<exists>r. length x < 256 ^ 4 \<and> prefixed_fields xs = Some r \<and> s = be 4 (length x) @ x @ r)"
  by (auto simp: prefixed_field_def to_bytes_def simp del: be.simps split: option.splits if_splits)

text \<open>Reading the prefixes back determines the fields, so no two lists of fields share an encoding.\<close>

lemma prefixed_fields_inject:
  "prefixed_fields xs = Some s \<Longrightarrow> prefixed_fields ys = Some s \<Longrightarrow> xs = ys"
proof (induction xs arbitrary: ys s)
  case Nil
  have "length s = 0" using Nil.prems(1) by simp
  then show ?case using Nil.prems(2) by (cases ys) (auto simp: prefixed_fields_Cons be_nonempty simp del: prefixed_fields.simps(2) be.simps)
next
  case (Cons x xs)
  obtain r where r: "length x < 256 ^ 4" "prefixed_fields xs = Some r" "s = be 4 (length x) @ x @ r"
    using Cons.prems(1) unfolding prefixed_fields_Cons by blast
  obtain y ys' where ys: "ys = y # ys'" using Cons.prems(2) r(3) proof (cases ys)
    case Nil
    then have "length s = 0" using Cons.prems(2) by simp
    then show ?thesis using r(3) by (simp del: be.simps)
  qed
  obtain q where q: "length y < 256 ^ 4" "prefixed_fields ys' = Some q" "s = be 4 (length y) @ y @ q"
    using Cons.prems(2) unfolding ys prefixed_fields_Cons by blast
  have "be 4 (length x) = be 4 (length y) \<and> x @ r = y @ q" using r(3) q(3) by (simp del: be.simps)
  then have "x = y \<and> r = q" using be_inject [OF r(1) q(1)] by (metis append_eq_append_conv)
  then show ?case using Cons.IH r(2) q(2) ys by blast
qed

end
