(* ===== verification/E2ESession.thy ===== *)
theory E2ESession
  imports Bytes Json
begin

text \<open>
  \<open>shared/e2e.py\<close> and \<open>shared/handshake.py\<close>: the authenticated end-to-end session between a consumer
  and a provider. The handshake transcript, the key derivation, the encrypted messages with their
  sequence numbers, and the provider offers that a consumer checks first. The primitives are parameters:
  the AEAD cipher, X25519, HKDF, SHA-256 and Ed25519. A byte string is a \<open>string\<close> (theory \<open>Bytes\<close>).
\<close>

section \<open>Errors and primitives\<close>

text \<open>\<open>ValueError\<close> with its text (binascii's error is one), the overflow of a fixed-width number, and the
  failed authentication of the AEAD; a list or dict tested for membership in a set is a type error.\<close>

datatype e2e_error = ValueError string | NumberOverflow | InvalidTag | Unhashable

text \<open>\<open>ae_dec\<close> is \<open>None\<close> when the tag does not verify. \<open>x_shared\<close> is \<open>private.exchange(public)\<close>,
  \<open>None\<close> when it refuses the point; \<open>hkdf\<close> takes
  salt, info and secret.\<close>

record primitives =
  ae_enc :: "string \<Rightarrow> string \<Rightarrow> string \<Rightarrow> string \<Rightarrow> string"
  ae_dec :: "string \<Rightarrow> string \<Rightarrow> string \<Rightarrow> string \<Rightarrow> string option"
  x_public :: "string \<Rightarrow> string"
  x_shared :: "string \<Rightarrow> string \<Rightarrow> string option"
  hkdf :: "string \<Rightarrow> string \<Rightarrow> string \<Rightarrow> string"
  digest :: "string \<Rightarrow> string"
  ed_public :: "string \<Rightarrow> string"
  ed_sign :: "string \<Rightarrow> string \<Rightarrow> string"
  ed_verify :: "string \<Rightarrow> string \<Rightarrow> string \<Rightarrow> bool"

definition E2E_VERSION :: string where "E2E_VERSION = ''0.1.0''"
definition E2E_INFO_PREFIX :: string where "E2E_INFO_PREFIX = ''inference-exchange/e2e/v1''"
definition MAX_CIPHERTEXT :: nat where "MAX_CIPHERTEXT = 16 * 1024 * 1024"
definition MAX_SESSION_ID :: nat where "MAX_SESSION_ID = 256"

section \<open>The transcript\<close>

text \<open>What a handshake is about, in the order of the arguments of \<open>_transcript\<close>.\<close>

record handshake =
  hs_session :: string
  hs_provider :: string
  hs_identity :: string
  hs_provider_key :: string
  hs_consumer_key :: string
  hs_admission :: string
  hs_freshness :: string

definition transcript_fields :: "handshake \<Rightarrow> string list" where
  "transcript_fields h = [E2E_VERSION, utf8 (hs_session h), utf8 (hs_provider h), hs_identity h, hs_provider_key h,
     hs_consumer_key h, utf8 (hs_admission h), hs_freshness h]"

definition transcript :: "handshake \<Rightarrow> e2e_error + string" where
  "transcript h = (
     if hs_session h = '''' \<or> MAX_SESSION_ID < length (hs_session h) then Inl (ValueError ''invalid session ID'')
     else if length (hs_identity h) \<noteq> 32 then Inl (ValueError ''provider identity key must be 32 bytes'')
     else if length (hs_provider_key h) \<noteq> 32 \<or> length (hs_consumer_key h) \<noteq> 32 then
       Inl (ValueError ''ephemeral public keys must be 32 bytes'')
     else if length (hs_freshness h) < 16 \<or> 64 < length (hs_freshness h) then Inl (ValueError ''invalid handshake freshness'')
     else (case prefixed_fields (transcript_fields h) of None \<Rightarrow> Inl NumberOverflow | Some t \<Rightarrow> Inr t))"

section \<open>Sessions\<close>

record session_keys =
  send_key :: string
  receive_key :: string

record encrypted_message =
  em_session :: string
  em_direction :: string
  em_sequence :: nat
  em_nonce :: string
  em_ciphertext :: string

record e2e_session =
  es_id :: string
  es_keys :: session_keys
  es_send_direction :: string
  es_receive_direction :: string
  es_send_sequence :: nat
  es_last_received :: int

definition TO_PROVIDER :: string where "TO_PROVIDER = ''consumer_to_provider''"
definition TO_CONSUMER :: string where "TO_CONSUMER = ''provider_to_consumer''"

definition new_session :: "string \<Rightarrow> session_keys \<Rightarrow> bool \<Rightarrow> e2e_error + e2e_session" where
  "new_session sid keys is_consumer = (if sid = '''' then Inl (ValueError ''session_id is required'')
     else Inr \<lparr>es_id = sid, es_keys = keys, es_send_direction = (if is_consumer then TO_PROVIDER else TO_CONSUMER),
       es_receive_direction = (if is_consumer then TO_CONSUMER else TO_PROVIDER), es_send_sequence = 0, es_last_received = -1\<rparr>)"

definition derive :: "primitives \<Rightarrow> string \<Rightarrow> string \<Rightarrow> string \<Rightarrow> bool \<Rightarrow> e2e_error + e2e_session" where
  "derive P sid shared t is_consumer = (if length shared \<noteq> 32 then Inl (ValueError ''X25519 shared secret must be 32 bytes'')
     else (let th = digest P t;
               material = hkdf P th (E2E_INFO_PREFIX @ ''/'' @ th) shared;
               c2p = take 32 material; p2c = drop 32 material
       in new_session sid (if is_consumer then \<lparr>send_key = c2p, receive_key = p2c\<rparr> else \<lparr>send_key = p2c, receive_key = c2p\<rparr>) is_consumer))"

definition derive_session :: "primitives \<Rightarrow> string \<Rightarrow> string \<Rightarrow> handshake \<Rightarrow> bool \<Rightarrow> e2e_error + e2e_session" where
  "derive_session P private peer h is_consumer = (
     if length peer \<noteq> 32 \<or> x_shared P private peer = None then Inl (ValueError ''X25519'')
     else (case transcript h of
       Inl e \<Rightarrow> Inl e
     | Inr t \<Rightarrow> derive P (hs_session h) (the (x_shared P private peer)) t is_consumer))"

definition session_aad :: "e2e_session \<Rightarrow> nat \<Rightarrow> string \<Rightarrow> string \<Rightarrow> string option" where
  "session_aad s n direction ad = map_option (\<lambda>seq. E2E_VERSION @ ''|'' @ utf8 (es_id s) @ ''|'' @ direction @ ''|'' @ seq @ ''|'' @ ad)
     (to_bytes 8 n)"

text \<open>\<open>salt\<close> are the four random bytes of the nonce. The counter is advanced before the number is encoded.\<close>

definition encrypt :: "primitives \<Rightarrow> string \<Rightarrow> string \<Rightarrow> string \<Rightarrow> e2e_session \<Rightarrow> (e2e_error + encrypted_message) \<times> e2e_session" where
  "encrypt P salt plaintext ad s = (
     if MAX_CIPHERTEXT < length plaintext then (Inl (ValueError ''plaintext too large''), s)
     else (let n = es_send_sequence s; s' = s\<lparr>es_send_sequence := n + 1\<rparr>
       in case (to_bytes 8 n, session_aad s n (es_send_direction s) ad) of
            (Some seq, Some aad) \<Rightarrow> (let nonce = seq @ salt;
                 ciphertext = ae_enc P (send_key (es_keys s)) nonce plaintext aad
              in (Inr \<lparr>em_session = es_id s, em_direction = es_send_direction s, em_sequence = n,
                    em_nonce = b64encode nonce, em_ciphertext = b64encode ciphertext\<rparr>, s'))
          | _ \<Rightarrow> (Inl NumberOverflow, s')))"

text \<open>The plaintext of a message and the session after it; a session changes only when it accepts.\<close>

definition decrypt :: "primitives \<Rightarrow> encrypted_message \<Rightarrow> string \<Rightarrow> e2e_session \<Rightarrow> (e2e_error + string) \<times> e2e_session" where
  "decrypt P m ad s = (
     if em_session m \<noteq> es_id s then (Inl (ValueError ''session ID mismatch''), s)
     else if em_direction m \<noteq> es_receive_direction s then (Inl (ValueError ''message direction mismatch''), s)
     else if int (em_sequence m) \<le> es_last_received s then (Inl (ValueError ''replayed or out-of-order message''), s)
     else (case b64decode_strict (em_nonce m) of
       None \<Rightarrow> (Inl (ValueError ''base64''), s)
     | Some nonce \<Rightarrow> (case b64decode_strict (em_ciphertext m) of
         None \<Rightarrow> (Inl (ValueError ''base64''), s)
       | Some ciphertext \<Rightarrow>
           if length nonce \<noteq> 12 then (Inl (ValueError ''invalid AEAD nonce''), s)
           else if MAX_CIPHERTEXT + 16 < length ciphertext then (Inl (ValueError ''ciphertext too large''), s)
           else (case session_aad s (em_sequence m) (em_direction m) ad of
             None \<Rightarrow> (Inl NumberOverflow, s)
           | Some aad \<Rightarrow> (case ae_dec P (receive_key (es_keys s)) nonce ciphertext aad of
               None \<Rightarrow> (Inl InvalidTag, s)
             | Some plaintext \<Rightarrow> (Inr plaintext, s\<lparr>es_last_received := int (em_sequence m)\<rparr>))))))"

section \<open>Signatures\<close>

definition sign_handshake :: "primitives \<Rightarrow> string \<Rightarrow> handshake \<Rightarrow> e2e_error + string" where
  "sign_handshake P identity h = (case transcript (h\<lparr>hs_identity := ed_public P identity\<rparr>) of
     Inl e \<Rightarrow> Inl e | Inr t \<Rightarrow> Inr (b64encode (ed_sign P identity t)))"

text \<open>\<open>None\<close> when the signature is accepted.\<close>

definition verify_handshake :: "primitives \<Rightarrow> string \<Rightarrow> handshake \<Rightarrow> e2e_error option" where
  "verify_handshake P signature h = (case transcript h of
     Inl e \<Rightarrow> Some e
   | Inr t \<Rightarrow> (case b64decode_strict signature of
       None \<Rightarrow> Some (ValueError ''invalid provider handshake signature'')
     | Some sig \<Rightarrow> if ed_verify P (hs_identity h) sig t then None else Some (ValueError ''invalid provider handshake signature'')))"

section \<open>Messages on the wire\<close>

text \<open>\<open>EncryptedMessage.to_dict\<close> and \<open>from_dict\<close> over JSON values; a boolean is not accepted as a number.\<close>

definition message_dict :: "encrypted_message \<Rightarrow> trace" where
  "message_dict m = [(''protocol_version'', JStr E2E_VERSION), (''session_id'', JStr (em_session m)),
     (''direction'', JStr (em_direction m)), (''sequence_number'', JInt (int (em_sequence m))),
     (''nonce'', JStr (em_nonce m)), (''ciphertext'', JStr (em_ciphertext m))]"

definition message_from_dict :: "trace \<Rightarrow> e2e_error + encrypted_message" where
  "message_from_dict d = (let field_of = (\<lambda>k. dict_get d k JNull) in
     if field_of ''protocol_version'' \<noteq> JStr E2E_VERSION then Inl (ValueError ''unsupported E2E protocol version'')
     else (case field_of ''session_id'' of
       JStr sid \<Rightarrow> if sid = '''' \<or> MAX_SESSION_ID < length sid then Inl (ValueError ''invalid session ID'')
         else (case field_of ''direction'' of
           JStr dir \<Rightarrow> if dir \<notin> {TO_PROVIDER, TO_CONSUMER} then Inl (ValueError ''invalid message direction'')
             else (case field_of ''sequence_number'' of
               JInt n \<Rightarrow> if n < 0 then Inl (ValueError ''invalid sequence number'')
                 else (case (field_of ''nonce'', field_of ''ciphertext'') of
                   (JStr nonce, JStr ciphertext) \<Rightarrow> Inr \<lparr>em_session = sid, em_direction = dir, em_sequence = nat n,
                      em_nonce = nonce, em_ciphertext = ciphertext\<rparr>
                 | _ \<Rightarrow> Inl (ValueError ''invalid encrypted message''))
             | _ \<Rightarrow> Inl (ValueError ''invalid sequence number''))
         | JList _ \<Rightarrow> Inl Unhashable
         | JObj _ \<Rightarrow> Inl Unhashable
         | _ \<Rightarrow> Inl (ValueError ''invalid message direction''))
     | _ \<Rightarrow> Inl (ValueError ''invalid session ID'')))"

section \<open>Provider offers (\<open>shared/handshake.py\<close>)\<close>

record provider_record =
  of_provider :: string
  of_identity :: string
  of_attest_key :: string
  of_profile :: string
  of_version :: string
  of_models :: "string list"
  of_expires :: int
  of_admission :: string
  of_artifact :: string

definition unb64 :: "string \<Rightarrow> string option" where
  "unb64 v = (if v = '''' \<or> (\<exists>c \<in> set v. 128 \<le> byte c) then None
     else a2b 0 0 0 (v @ replicate ((4 - length v mod 4) mod 4) (CHR ''='')))"

text \<open>\<open>ProviderOffer.validate\<close>: the message of the \<open>ValueError\<close> it raises, \<open>None\<close> when it returns.\<close>

definition validate_offer :: "int \<Rightarrow> provider_record \<Rightarrow> string option" where
  "validate_offer now p = (
     if of_provider p = '''' \<or> of_identity p = '''' then Some ''incomplete provider identity''
     else if of_attest_key p = '''' then Some ''missing App Attest key id''
     else if of_profile p \<noteq> ''L2'' then Some ''provider is not admitted at L2''
     else if of_version p \<noteq> E2E_VERSION then Some ''unsupported protocol version''
     else if of_models p = [] then Some ''provider advertises no models''
     else if of_admission p = '''' \<or> of_artifact p = '''' then Some ''incomplete admission record''
     else if of_expires p \<le> now then Some ''provider admission has expired''
     else (case unb64 (of_identity p) of
       None \<Rightarrow> Some ''invalid base64 value''
     | Some key \<Rightarrow> if length key \<noteq> 32 then Some ''provider identity key must be 32 bytes'' else None))"

text \<open>\<open>HandshakeParameters.transcript\<close>: the same framing, another order of the fields. \<open>None\<close> is an overflow.\<close>

definition offer_transcript :: "string \<Rightarrow> handshake \<Rightarrow> string option" where
  "offer_transcript version h = prefixed_fields [version, utf8 (hs_session h), utf8 (hs_provider h), utf8 (hs_admission h),
     hs_identity h, hs_provider_key h, hs_consumer_key h, hs_freshness h]"

definition build_transcript :: "int \<Rightarrow> string \<Rightarrow> provider_record \<Rightarrow> string \<Rightarrow> string \<Rightarrow> string \<Rightarrow> e2e_error + string" where
  "build_transcript now sid p provider_key consumer_key freshness = (case validate_offer now p of
     Some e \<Rightarrow> Inl (ValueError e)
   | None \<Rightarrow>
       if length provider_key \<noteq> 32 \<or> length consumer_key \<noteq> 32 then Inl (ValueError ''X25519 public keys must be 32 bytes'')
       else if length freshness \<noteq> 32 then Inl (ValueError ''freshness must be 32 bytes'')
       else (case unb64 (of_identity p) of
         None \<Rightarrow> Inl (ValueError ''invalid base64 value'')
       | Some key \<Rightarrow> (case offer_transcript (of_version p)
             \<lparr>hs_session = sid, hs_provider = of_provider p, hs_identity = key, hs_provider_key = provider_key,
              hs_consumer_key = consumer_key, hs_admission = of_admission p, hs_freshness = freshness\<rparr> of
           None \<Rightarrow> Inl NumberOverflow | Some t \<Rightarrow> Inr t)))"

text \<open>The first message of a consumer; \<open>sid\<close> and \<open>fresh\<close> are random.\<close>

definition create_session_hello :: "int \<Rightarrow> string \<Rightarrow> string \<Rightarrow> provider_record \<Rightarrow> string \<Rightarrow> e2e_error + trace" where
  "create_session_hello now sid fresh p consumer_key = (case validate_offer now p of
     Some e \<Rightarrow> Inl (ValueError e)
   | None \<Rightarrow> if length consumer_key \<noteq> 32 then Inl (ValueError ''consumer X25519 public key must be 32 bytes'')
       else Inr [(''type'', JStr ''session_hello''), (''protocol_version'', JStr E2E_VERSION), (''session_id'', JStr sid),
         (''provider_id'', JStr (of_provider p)), (''admission_id'', JStr (of_admission p)),
         (''consumer_ephemeral_public_key'', JStr (b64url consumer_key)), (''freshness'', JStr (b64url fresh))])"

end
