(* ===== verification/E2ELaws.thy ===== *)
theory E2ELaws
  imports E2ESession "HOL-Library.Sublist"
begin

text \<open>
  What the end-to-end session guarantees. The transcript determines every field of the handshake; both
  ends derive linked sessions; over a network that drops, repeats, reorders and injects messages the
  receiver gets a subsequence of what was sent, in order and each at most once; nonces do not repeat; and
  messages that arrive in order are all read.
\<close>

section \<open>The transcript\<close>

lemma transcript_Inr:
  "transcript h = Inr t \<longleftrightarrow> hs_session h \<noteq> '''' \<and> length (hs_session h) \<le> MAX_SESSION_ID \<and> length (hs_identity h) = 32
    \<and> length (hs_provider_key h) = 32 \<and> length (hs_consumer_key h) = 32 \<and> 16 \<le> length (hs_freshness h)
    \<and> length (hs_freshness h) \<le> 64 \<and> prefixed_fields (transcript_fields h) = Some t"
  unfolding transcript_def by (auto split: option.splits)

lemma transcript_binds_eq:
  assumes "transcript h = Inr t" "transcript h' = Inr t"
  shows "h = h'"
proof -
  have "transcript_fields h = transcript_fields h'"
    using assms prefixed_fields_inject unfolding transcript_Inr by blast
  then show ?thesis by (simp add: transcript_fields_def)
qed

text \<open>C39: The handshake transcript binds every field: two handshakes with the same transcript are the same
  handshake, whatever the texts contain, so a signature or a key derived from one cannot be taken for another.\<close>

theorem transcript_binds:
  assumes "transcript h = Inr t" "transcript h' = Inr t"
  shows "h = h'"
  using transcript_binds_eq [OF assms] .

definition toy_handshake :: handshake where
  "toy_handshake = \<lparr>hs_session = ''s-1'', hs_provider = ''provider-1'', hs_identity = replicate 32 (CHR ''i''),
     hs_provider_key = replicate 32 (CHR ''p''), hs_consumer_key = replicate 32 (CHR ''c''), hs_admission = ''adm'',
     hs_freshness = replicate 32 (CHR ''f'')\<rparr>"

lemma prefixed_fields_total: "\<forall>x \<in> set xs. length x < 256 ^ 4 \<Longrightarrow> prefixed_fields xs \<noteq> None"
  by (induction xs) (auto simp: prefixed_field_def to_bytes_def split: option.splits)

lemma utf8_length_le: "length (utf8 s) \<le> 2 * length s"
  by (induction s) (auto simp: utf8_def utf8_char_def)

lemma transcript_total:
  assumes "hs_session h \<noteq> ''''" "length (hs_session h) \<le> 256" "length (hs_identity h) = 32" "length (hs_provider_key h) = 32"
    "length (hs_consumer_key h) = 32" "length (hs_freshness h) \<in> {16..64}"
    "length (hs_provider h) \<le> 1000000" "length (hs_admission h) \<le> 1000000"
  shows "\<exists>t. transcript h = Inr t"
proof -
  have "length (utf8 (hs_session h)) < 256 ^ 4" "length (utf8 (hs_provider h)) < 256 ^ 4" "length (utf8 (hs_admission h)) < 256 ^ 4"
    using utf8_length_le [of "hs_session h"] utf8_length_le [of "hs_provider h"] utf8_length_le [of "hs_admission h"] assms by simp_all
  then have "prefixed_fields (transcript_fields h) \<noteq> None"
    using assms by (intro prefixed_fields_total) (auto simp: transcript_fields_def E2E_VERSION_def)
  then show ?thesis using assms unfolding transcript_Inr by (auto simp: MAX_SESSION_ID_def)
qed

lemma toy_transcript: "\<exists>t. transcript toy_handshake = Inr t"
  by (rule transcript_total) (simp_all add: toy_handshake_def)

theorem transcript_binds_witness:
  "\<exists>t. {h. transcript h = Inr t} = {toy_handshake}"
proof -
  obtain t where t: "transcript toy_handshake = Inr t" using toy_transcript ..
  have "{h. transcript h = Inr t} = {toy_handshake}" using transcript_binds [OF _ t] t by auto
  then show ?thesis ..
qed

text \<open>The transcript of \<open>shared/handshake.py\<close> has another order of fields: a handshake of one module has the
  transcript of a handshake of the other only when fields of different meaning coincide.\<close>

lemma transcripts_disagree:
  assumes "transcript h = Inr t" "offer_transcript E2E_VERSION h' = Some t"
  shows "hs_identity h = utf8 (hs_admission h') \<and> hs_provider_key h = hs_identity h'
    \<and> hs_consumer_key h = hs_provider_key h' \<and> utf8 (hs_admission h) = hs_consumer_key h'"
proof -
  have "transcript_fields h = [E2E_VERSION, utf8 (hs_session h'), utf8 (hs_provider h'), utf8 (hs_admission h'),
     hs_identity h', hs_provider_key h', hs_consumer_key h', hs_freshness h']"
    using assms prefixed_fields_inject unfolding transcript_Inr offer_transcript_def by blast
  then show ?thesis by (simp add: transcript_fields_def)
qed

section \<open>Linked sessions\<close>

definition linked :: "e2e_session \<Rightarrow> e2e_session \<Rightarrow> bool" where
  "linked s r \<longleftrightarrow> es_id s = es_id r \<and> send_key (es_keys s) = receive_key (es_keys r)
    \<and> es_send_direction s = es_receive_direction r"

definition fresh_session :: "e2e_session \<Rightarrow> bool" where
  "fresh_session s \<longleftrightarrow> es_send_sequence s = 0 \<and> es_last_received s = -1"

text \<open>The two ends of a handshake derive sessions that are linked in both directions.\<close>

lemma derived_linked:
  assumes "derive_session P a ka h True = Inr s" "derive_session P b kb h False = Inr r"
    and "x_shared P a ka = x_shared P b kb"
  shows "linked s r \<and> linked r s \<and> fresh_session s \<and> fresh_session r"
  using assms
  by (auto simp: derive_session_def derive_def new_session_def linked_def fresh_session_def Let_def split: sum.splits if_splits)

section \<open>A channel over a hostile network\<close>

text \<open>One direction of a session. The network hands the receiver any message with any associated data.
  The log keeps what was encrypted and what was accepted.\<close>

record channel =
  cn_sender :: e2e_session
  cn_receiver :: e2e_session
  cn_sent :: "(encrypted_message \<times> string \<times> string) list"
  cn_got :: "(nat \<times> string \<times> string) list"

datatype channel_op = Transmit string string string | Deliver encrypted_message string

fun channel_step :: "primitives \<Rightarrow> channel_op \<Rightarrow> channel \<Rightarrow> channel" where
  "channel_step P (Transmit salt plaintext ad) c = (case encrypt P salt plaintext ad (cn_sender c) of
     (Inl _, s) \<Rightarrow> c\<lparr>cn_sender := s\<rparr>
   | (Inr m, s) \<Rightarrow> c\<lparr>cn_sender := s, cn_sent := cn_sent c @ [(m, plaintext, ad)]\<rparr>)"
| "channel_step P (Deliver m ad) c = (case decrypt P m ad (cn_receiver c) of
     (Inl _, r) \<Rightarrow> c\<lparr>cn_receiver := r\<rparr>
   | (Inr plaintext, r) \<Rightarrow> c\<lparr>cn_receiver := r, cn_got := cn_got c @ [(em_sequence m, plaintext, ad)]\<rparr>)"

abbreviation channel_run :: "primitives \<Rightarrow> channel_op list \<Rightarrow> channel \<Rightarrow> channel" where
  "channel_run P \<equiv> fold (channel_step P)"

definition open_channel :: "e2e_session \<Rightarrow> e2e_session \<Rightarrow> channel" where
  "open_channel s r = \<lparr>cn_sender = s, cn_receiver = r, cn_sent = [], cn_got = []\<rparr>"

text \<open>The integrity of the AEAD on a run: whatever verifies under the key of the direction was encrypted by
  its only holder, the sender, with that plaintext and associated data.\<close>

definition tag_genuine :: "primitives \<Rightarrow> channel \<Rightarrow> encrypted_message \<Rightarrow> string \<Rightarrow> bool" where
  "tag_genuine P c m ad = (case (b64decode_strict (em_nonce m), b64decode_strict (em_ciphertext m),
       session_aad (cn_receiver c) (em_sequence m) (em_direction m) ad) of
     (Some nonce, Some ciphertext, Some aad) \<Rightarrow>
       (case ae_dec P (receive_key (es_keys (cn_receiver c))) nonce ciphertext aad of
          None \<Rightarrow> True
        | Some plaintext \<Rightarrow> \<exists>(m', p', ad') \<in> set (cn_sent c). p' = plaintext
            \<and> session_aad (cn_sender c) (em_sequence m') (em_direction m') ad' = Some aad)
   | _ \<Rightarrow> True)"

fun unforged :: "primitives \<Rightarrow> channel_op list \<Rightarrow> channel \<Rightarrow> bool" where
  "unforged P [] c = True"
| "unforged P (x # xs) c = ((case x of Deliver m ad \<Rightarrow> tag_genuine P c m ad | _ \<Rightarrow> True)
     \<and> unforged P xs (channel_step P x c))"

subsection \<open>One step of either end\<close>

lemma session_aad_inject:
  assumes "session_aad s n d a = Some x" "session_aad r n' d a' = Some x" "es_id s = es_id r"
  shows "n = n' \<and> a = a'"
  using assms by (auto simp: session_aad_def to_bytes_def be_inject simp del: be.simps split: if_splits)

lemma encrypt_Inr:
  assumes "encrypt P salt p ad s = (Inr m, s')"
  shows "s' = s\<lparr>es_send_sequence := es_send_sequence s + 1\<rparr> \<and> em_sequence m = es_send_sequence s
    \<and> em_direction m = es_send_direction s \<and> em_session m = es_id s \<and> length p \<le> MAX_CIPHERTEXT
    \<and> es_send_sequence s < 256 ^ 8 \<and> em_nonce m = b64encode (be 8 (es_send_sequence s) @ salt)
    \<and> (\<exists>aad. session_aad s (es_send_sequence s) (es_send_direction s) ad = Some aad
        \<and> em_ciphertext m = b64encode (ae_enc P (send_key (es_keys s)) (be 8 (es_send_sequence s) @ salt) p aad))"
  using assms by (auto simp: encrypt_def to_bytes_def Let_def simp del: be.simps split: if_splits option.splits)

lemma encrypt_Inl:
  "encrypt P salt p ad s = (Inl e, s') \<Longrightarrow> s' = s \<or> s' = s\<lparr>es_send_sequence := es_send_sequence s + 1\<rparr>"
  by (auto simp: encrypt_def Let_def split: if_splits option.splits)

lemma decrypt_Inl: "decrypt P m ad r = (Inl e, r') \<Longrightarrow> r' = r"
  by (auto simp: decrypt_def split: if_splits option.splits)

lemma decrypt_Inr:
  assumes "decrypt P m ad r = (Inr p, r')"
  shows "r' = r\<lparr>es_last_received := int (em_sequence m)\<rparr> \<and> em_session m = es_id r \<and> em_direction m = es_receive_direction r
    \<and> es_last_received r < int (em_sequence m)
    \<and> (\<exists>nonce ct aad. b64decode_strict (em_nonce m) = Some nonce \<and> b64decode_strict (em_ciphertext m) = Some ct
        \<and> session_aad r (em_sequence m) (em_direction m) ad = Some aad
        \<and> ae_dec P (receive_key (es_keys r)) nonce ct aad = Some p)"
  using assms by (auto simp: decrypt_def split: if_splits option.splits)

subsection \<open>The invariant\<close>

text \<open>A log as the entries the receiver could accept.\<close>

definition offered :: "channel \<Rightarrow> (nat \<times> string \<times> string) list" where
  "offered c = map (\<lambda>(m, p, ad). (em_sequence m, p, ad)) (cn_sent c)"

definition channel_ok :: "channel \<Rightarrow> bool" where
  "channel_ok c \<longleftrightarrow> linked (cn_sender c) (cn_receiver c)
    \<and> sorted_wrt (<) (map fst (offered c)) \<and> (\<forall>n \<in> set (map fst (offered c)). n < es_send_sequence (cn_sender c))
    \<and> (\<forall>(m, p, ad) \<in> set (cn_sent c). em_direction m = es_send_direction (cn_sender c))
    \<and> sorted_wrt (<) (map fst (cn_got c)) \<and> (\<forall>n \<in> set (map fst (cn_got c)). int n \<le> es_last_received (cn_receiver c))
    \<and> set (cn_got c) \<subseteq> set (offered c)"

lemma channel_ok_open: "linked s r \<Longrightarrow> channel_ok (open_channel s r)"
  by (simp add: channel_ok_def open_channel_def offered_def)

lemma linked_frame [simp]:
  "linked (s\<lparr>es_send_sequence := n\<rparr>) r = linked s r" "linked s (r\<lparr>es_last_received := i\<rparr>) = linked s r"
  by (simp_all add: linked_def)

lemma transmit_ok:
  assumes "channel_ok c"
  shows "channel_ok (channel_step P (Transmit salt p ad) c)"
proof (cases "encrypt P salt p ad (cn_sender c)")
  case (Pair res s)
  show ?thesis
  proof (cases res)
    case (Inl e)
    then show ?thesis using assms Pair encrypt_Inl [of P salt p ad "cn_sender c" e s]
      by (auto simp: channel_ok_def offered_def)
  next
    case (Inr m)
    then show ?thesis using assms Pair encrypt_Inr [of P salt p ad "cn_sender c" m s]
      by (auto simp: channel_ok_def offered_def sorted_wrt_append)
  qed
qed

lemma deliver_ok:
  assumes ok: "channel_ok c" and genuine: "tag_genuine P c m ad"
  shows "channel_ok (channel_step P (Deliver m ad) c)"
proof (cases "decrypt P m ad (cn_receiver c)")
  case (Pair res r)
  show ?thesis
  proof (cases res)
    case (Inl e)
    then show ?thesis using ok Pair decrypt_Inl [of P m ad "cn_receiver c" e r] by simp
  next
    case (Inr p)
    obtain nonce ct aad where acc: "r = (cn_receiver c)\<lparr>es_last_received := int (em_sequence m)\<rparr>"
        "em_direction m = es_receive_direction (cn_receiver c)" "es_last_received (cn_receiver c) < int (em_sequence m)"
        "b64decode_strict (em_nonce m) = Some nonce" "b64decode_strict (em_ciphertext m) = Some ct"
        "session_aad (cn_receiver c) (em_sequence m) (em_direction m) ad = Some aad"
        "ae_dec P (receive_key (es_keys (cn_receiver c))) nonce ct aad = Some p"
      using decrypt_Inr [of P m ad "cn_receiver c" p r] Pair Inr by blast
    obtain m' ad' where sent: "(m', p, ad') \<in> set (cn_sent c)"
        "session_aad (cn_sender c) (em_sequence m') (em_direction m') ad' = Some aad"
      using genuine acc(4-7) unfolding tag_genuine_def by auto
    have same: "em_direction m' = em_direction m" "es_id (cn_sender c) = es_id (cn_receiver c)"
      using ok sent(1) acc(2) by (auto simp: channel_ok_def linked_def)
    have "em_sequence m' = em_sequence m \<and> ad' = ad"
      using session_aad_inject [OF sent(2) acc(6) [folded same(1)] same(2)] .
    then have "(em_sequence m, p, ad) \<in> set (offered c)" using sent(1) by (force simp: offered_def)
    then show ?thesis using ok Pair Inr acc(1,3) by (auto simp: channel_ok_def offered_def sorted_wrt_append)
  qed
qed

lemma channel_run_ok: "channel_ok c \<Longrightarrow> unforged P xs c \<Longrightarrow> channel_ok (channel_run P xs c)"
proof (induction xs arbitrary: c)
  case Nil
  then show ?case by simp
next
  case (Cons x xs)
  have "channel_ok (channel_step P x c)"
    using Cons.prems by (cases x) (auto intro: transmit_ok deliver_ok simp del: channel_step.simps)
  then show ?case using Cons.IH Cons.prems(2) by simp
qed

text \<open>Lists with strictly increasing keys are ordered by inclusion.\<close>

lemma increasing_subseq:
  "sorted_wrt (<) (map fst xs) \<Longrightarrow> sorted_wrt (<) (map fst ys) \<Longrightarrow> set xs \<subseteq> set ys \<Longrightarrow> subseq xs (ys :: (nat \<times> 'a) list)"
proof (induction ys arbitrary: xs)
  case Nil
  then show ?case by simp
next
  case (Cons y ys)
  show ?case
  proof (cases "y \<in> set xs")
    case False
    then have "set xs \<subseteq> set ys" using Cons.prems(3) by auto
    then show ?thesis using Cons.IH [of xs] Cons.prems(1,2) by (simp add: list_emb_Cons)
  next
    case True
    obtain x xs' where xs: "xs = x # xs'" using True by (cases xs) auto
    have "x = y"
    proof (rule ccontr)
      assume ne: "x \<noteq> y"
      then have "y \<in> set xs'" "x \<in> set ys" using True Cons.prems(3) xs by auto
      then show False using Cons.prems(1,2) xs by fastforce
    qed
    moreover have "set xs' \<subseteq> set ys" using Cons.prems(1,3) xs \<open>x = y\<close> by fastforce
    ultimately show ?thesis using Cons.IH [of xs'] Cons.prems(1,2) xs by simp
  qed
qed

section \<open>Properties of the channel\<close>

text \<open>C16: Between the two ends of a handshake, whatever the network drops, repeats, reorders or injects, the
  receiver reads a subsequence of what the sender encrypted, with the same associated data, in order and
  each message at most once, in both directions.\<close>

theorem channel_in_order:
  assumes "derive_session P a ka h True = Inr s" "derive_session P b kb h False = Inr r" "x_shared P a ka = x_shared P b kb"
    and "(x, y) \<in> {(s, r), (r, s)}" "unforged P ops (open_channel x y)" "c = channel_run P ops (open_channel x y)"
  shows "subseq (map snd (cn_got c)) (map (\<lambda>(m, p, ad). (p, ad)) (cn_sent c)) \<and> distinct (map fst (cn_got c))"
proof -
  have "linked x y" using derived_linked [OF assms(1-3)] assms(4) by auto
  then have ok: "channel_ok c" using channel_run_ok [OF channel_ok_open assms(5)] assms(6) by simp
  then have "subseq (cn_got c) (offered c)" by (auto simp: channel_ok_def intro: increasing_subseq)
  then have "subseq (map snd (cn_got c)) (map snd (offered c))" by (rule subseq_map)
  moreover have "map snd (offered c) = map (\<lambda>(m, p, ad). (p, ad)) (cn_sent c)" by (auto simp: offered_def)
  ultimately show ?thesis using ok by (auto simp: channel_ok_def strict_sorted_iff)
qed

subsection \<open>A concrete channel\<close>

text \<open>A toy cipher whose tag is key and associated data.\<close>

definition toy_primitives :: primitives where
  "toy_primitives = \<lparr>ae_enc = (\<lambda>k n p a. k @ a @ p),
     ae_dec = (\<lambda>k n c a. if take (length (k @ a)) c = k @ a then Some (drop (length (k @ a)) c) else None),
     x_public = id, x_shared = (\<lambda>_ _. Some (replicate 32 (CHR ''s''))),
     hkdf = (\<lambda>_ _ _. replicate 32 (CHR ''k'') @ replicate 32 (CHR ''l'')), digest = (\<lambda>_. ''d''),
     ed_public = id, ed_sign = (\<lambda>k m. k @ m), ed_verify = (\<lambda>k g m. g = k @ m)\<rparr>"

definition toy_end :: "bool \<Rightarrow> e2e_session" where
  "toy_end is_consumer = \<lparr>es_id = ''s-1'',
     es_keys = (if is_consumer then \<lparr>send_key = replicate 32 (CHR ''k''), receive_key = replicate 32 (CHR ''l'')\<rparr>
       else \<lparr>send_key = replicate 32 (CHR ''l''), receive_key = replicate 32 (CHR ''k'')\<rparr>),
     es_send_direction = (if is_consumer then TO_PROVIDER else TO_CONSUMER),
     es_receive_direction = (if is_consumer then TO_CONSUMER else TO_PROVIDER), es_send_sequence = 0, es_last_received = -1\<rparr>"

lemma toy_peer: "length (replicate 32 (CHR ''p'')) = 32"
  by simp

lemma toy_derived: "length ka = 32 \<Longrightarrow> derive_session toy_primitives a ka toy_handshake is_consumer = Inr (toy_end is_consumer)"
  using toy_transcript
  by (auto simp: derive_session_def derive_def new_session_def toy_primitives_def toy_end_def toy_handshake_def Let_def)

definition toy_aad :: "nat \<Rightarrow> string" where
  "toy_aad n = E2E_VERSION @ ''|'' @ utf8 ''s-1'' @ ''|'' @ TO_PROVIDER @ ''|'' @ be 8 n @ ''|'' @ ''''"

definition toy_message :: "nat \<Rightarrow> string \<Rightarrow> encrypted_message" where
  "toy_message n p = \<lparr>em_session = ''s-1'', em_direction = TO_PROVIDER, em_sequence = n, em_nonce = b64encode (be 8 n @ ''salt''),
     em_ciphertext = b64encode (replicate 32 (CHR ''k'') @ toy_aad n @ p)\<rparr>"

definition toy_run :: "channel_op list" where
  "toy_run = [Transmit ''salt'' ''first'' '''', Transmit ''salt'' ''second'' '''', Deliver (toy_message 1 ''second'') '''',
     Deliver (toy_message 0 ''first'') '''', Deliver (toy_message 1 ''second'') '''',
     Deliver ((toy_message 1 ''second'')\<lparr>em_sequence := 2\<rparr>) '''']"

lemma toy_session_aad:
  "es_id s = ''s-1'' \<Longrightarrow> n < 10 \<Longrightarrow> session_aad s n TO_PROVIDER '''' = Some (toy_aad n)"
  by (simp add: session_aad_def to_bytes_def toy_aad_def del: be.simps)

lemma toy_encrypt:
  assumes "es_id s = ''s-1''" "es_send_direction s = TO_PROVIDER" "send_key (es_keys s) = replicate 32 (CHR ''k'')"
    "es_send_sequence s < 10" "length p \<le> 100"
  shows "encrypt toy_primitives ''salt'' p '''' s = (Inr (toy_message (es_send_sequence s) p), s\<lparr>es_send_sequence := es_send_sequence s + 1\<rparr>)"
  using assms by (simp add: encrypt_def toy_session_aad to_bytes_def toy_message_def toy_primitives_def MAX_CIPHERTEXT_def Let_def del: be.simps)

lemma toy_aad_length [simp]: "length (toy_aad n) = 40"
  by (simp add: toy_aad_def E2E_VERSION_def TO_PROVIDER_def utf8_def utf8_char_def byte_def del: be.simps)

lemma toy_aad_inject: "n < 10 \<Longrightarrow> m < 10 \<Longrightarrow> toy_aad n = toy_aad m \<longleftrightarrow> n = m"
  by (simp add: toy_aad_def be_inject del: be.simps)

lemma toy_decrypt:
  assumes "es_id r = ''s-1''" "es_receive_direction r = TO_PROVIDER" "receive_key (es_keys r) = replicate 32 (CHR ''k'')"
    "n < 10" "q < 10" "length p \<le> 100"
  shows "decrypt toy_primitives ((toy_message n p)\<lparr>em_sequence := q\<rparr>) '''' r = (if int q \<le> es_last_received r then
      (Inl (ValueError ''replayed or out-of-order message''), r) else if q = n then (Inr p, r\<lparr>es_last_received := int q\<rparr>) else (Inl InvalidTag, r))"
  using assms
  by (auto simp: decrypt_def toy_message_def toy_session_aad toy_primitives_def MAX_CIPHERTEXT_def toy_aad_inject del: be.simps)

lemma toy_deliver:
  assumes "es_id r = ''s-1''" "es_receive_direction r = TO_PROVIDER" "receive_key (es_keys r) = replicate 32 (CHR ''k'')"
    "n < 10" "length p \<le> 100"
  shows "decrypt toy_primitives (toy_message n p) '''' r = (if int n \<le> es_last_received r then
      (Inl (ValueError ''replayed or out-of-order message''), r) else (Inr p, r\<lparr>es_last_received := int n\<rparr>))"
proof -
  have "(toy_message n p)\<lparr>em_sequence := n\<rparr> = toy_message n p" by (simp add: toy_message_def)
  then show ?thesis using toy_decrypt [OF assms(1-4) assms(4,5)] by simp
qed

definition toy_end_state :: channel where
  "toy_end_state = \<lparr>cn_sender = (toy_end True)\<lparr>es_send_sequence := 2\<rparr>, cn_receiver = (toy_end False)\<lparr>es_last_received := 1\<rparr>,
     cn_sent = [(toy_message 0 ''first'', ''first'', ''''), (toy_message 1 ''second'', ''second'', '''')],
     cn_got = [(1, ''second'', '''')]\<rparr>"

lemma toy_end_fields [simp]:
  "es_id (toy_end b) = ''s-1''" "es_send_direction (toy_end True) = TO_PROVIDER" "es_receive_direction (toy_end False) = TO_PROVIDER"
  "send_key (es_keys (toy_end True)) = replicate 32 (CHR ''k'')" "receive_key (es_keys (toy_end False)) = replicate 32 (CHR ''k'')"
  "es_send_sequence (toy_end b) = 0" "es_last_received (toy_end b) = -1"
  by (simp_all add: toy_end_def)

lemma toy_message_fields [simp]:
  "em_sequence (toy_message n p) = n" "em_direction (toy_message n p) = TO_PROVIDER"
  "b64decode_strict (em_nonce (toy_message n p)) = Some (be 8 n @ ''salt'')"
  "b64decode_strict (em_ciphertext (toy_message n p)) = Some (replicate 32 (CHR ''k'') @ toy_aad n @ p)"
  by (simp_all add: toy_message_def del: be.simps)

lemma toy_result: "channel_run toy_primitives toy_run (open_channel (toy_end True) (toy_end False)) = toy_end_state"
  by (simp add: toy_run_def open_channel_def toy_encrypt toy_deliver toy_decrypt toy_end_state_def del: be.simps One_nat_def)

lemma toy_unforged: "unforged toy_primitives toy_run (open_channel (toy_end True) (toy_end False))"
  by (simp add: toy_run_def open_channel_def toy_encrypt toy_deliver toy_decrypt tag_genuine_def toy_session_aad
    toy_primitives_def [THEN arg_cong [of _ _ ae_dec]] toy_aad_inject del: be.simps One_nat_def)

theorem channel_in_order_witness:
  "\<exists>c. map snd (cn_got c) = [(''second'', '''')] \<and> subseq (map snd (cn_got c)) (map (\<lambda>(m, p, ad). (p, ad)) (cn_sent c))
    \<and> distinct (map fst (cn_got c)) \<and> c = channel_run toy_primitives toy_run (open_channel (toy_end True) (toy_end False))"
  using channel_in_order [OF toy_derived [OF toy_peer] toy_derived [OF toy_peer] _ _ toy_unforged refl, of k k] toy_result
  by (simp add: toy_end_state_def toy_primitives_def)

section \<open>Nonces\<close>

definition nonces_ok :: "channel \<Rightarrow> bool" where
  "nonces_ok c \<longleftrightarrow> sorted_wrt (<) (map (em_sequence \<circ> fst) (cn_sent c))
    \<and> (\<forall>(m, p, ad) \<in> set (cn_sent c). em_sequence m < es_send_sequence (cn_sender c) \<and> em_sequence m < 256 ^ 8
        \<and> (\<exists>salt. b64decode_strict (em_nonce m) = Some (be 8 (em_sequence m) @ salt)))"

lemma nonces_step:
  assumes "nonces_ok c"
  shows "nonces_ok (channel_step P x c)"
proof (cases x)
  case (Transmit salt p ad)
  show ?thesis
  proof (cases "encrypt P salt p ad (cn_sender c)")
    case (Pair res s)
    show ?thesis
    proof (cases res)
      case (Inl e)
      then show ?thesis using assms Transmit Pair encrypt_Inl [of P salt p ad "cn_sender c" e s]
        by (fastforce simp: nonces_ok_def simp del: be.simps)
    next
      case (Inr m)
      then show ?thesis using assms Transmit Pair encrypt_Inr [of P salt p ad "cn_sender c" m s]
        by (fastforce simp: nonces_ok_def sorted_wrt_append simp del: be.simps)
    qed
  qed
next
  case (Deliver m ad)
  then show ?thesis using assms by (auto simp: nonces_ok_def split: prod.splits sum.splits)
qed

text \<open>C38: Under one key no nonce is used twice, however many messages a session encrypts and whatever the
  random part of the nonce is.\<close>

theorem nonces_never_repeat:
  "distinct (map (em_nonce \<circ> fst) (cn_sent (channel_run P ops (open_channel s r))))"
proof -
  let ?c = "channel_run P ops (open_channel s r)"
  have "nonces_ok (channel_run P ops d)" if "nonces_ok d" for d
    using that by (induction ops arbitrary: d) (auto intro: nonces_step simp del: channel_step.simps)
  then have ok: "nonces_ok ?c" by (simp add: nonces_ok_def open_channel_def)
  have "em_sequence m = em_sequence m'"
    if sent: "(m, p, ad) \<in> set (cn_sent ?c)" "(m', p', ad') \<in> set (cn_sent ?c)" and same: "em_nonce m = em_nonce m'" for m p ad m' p' ad'
  proof -
    obtain salt salt' where "b64decode_strict (em_nonce m) = Some (be 8 (em_sequence m) @ salt)" "em_sequence m < 256 ^ 8"
        "b64decode_strict (em_nonce m') = Some (be 8 (em_sequence m') @ salt')" "em_sequence m' < 256 ^ 8"
      using ok sent unfolding nonces_ok_def by blast
    then show ?thesis using same be_inject by (simp del: be.simps)
  qed
  moreover have "distinct (map (em_sequence \<circ> fst) (cn_sent ?c))"
    using ok by (auto simp: nonces_ok_def strict_sorted_iff)
  ultimately show ?thesis unfolding distinct_map inj_on_def by fastforce
qed

section \<open>Messages that arrive in order are read\<close>

definition sendable :: "string \<times> string \<times> string \<Rightarrow> bool" where
  "sendable x \<longleftrightarrow> length (fst x) = 4 \<and> length (fst (snd x)) \<le> MAX_CIPHERTEXT"

definition transmit :: "string \<times> string \<times> string \<Rightarrow> channel_op" where
  "transmit x = Transmit (fst x) (fst (snd x)) (snd (snd x))"

definition deliver :: "encrypted_message \<times> string \<times> string \<Rightarrow> channel_op" where
  "deliver x = Deliver (fst x) (snd (snd x))"

text \<open>What a well-formed message decrypts to at the other end.\<close>

definition readable :: "primitives \<Rightarrow> e2e_session \<Rightarrow> encrypted_message \<times> string \<times> string \<Rightarrow> bool" where
  "readable P r x \<longleftrightarrow> (\<forall>i < int (em_sequence (fst x)). decrypt P (fst x) (snd (snd x)) (r\<lparr>es_last_received := i\<rparr>)
     = (Inr (fst (snd x)), r\<lparr>es_last_received := int (em_sequence (fst x))\<rparr>))"

lemma encrypted_readable:
  assumes "encrypt P salt p ad s = (Inr m, s')" "linked s r" "length salt = 4"
    and aead: "\<And>k n t a. ae_dec P k n (ae_enc P k n t a) a = Some t" "\<And>k n t a. length (ae_enc P k n t a) \<le> length t + 16"
  shows "readable P r (m, p, ad)"
proof -
  obtain aad where m: "em_sequence m = es_send_sequence s" "em_direction m = es_send_direction s" "em_session m = es_id s"
    "length p \<le> MAX_CIPHERTEXT" "em_nonce m = b64encode (be 8 (es_send_sequence s) @ salt)"
    "session_aad s (es_send_sequence s) (es_send_direction s) ad = Some aad"
    "em_ciphertext m = b64encode (ae_enc P (send_key (es_keys s)) (be 8 (es_send_sequence s) @ salt) p aad)"
    using encrypt_Inr [OF assms(1)] by blast
  have small: "(MAX_CIPHERTEXT + 16 < length (ae_enc P k n p a)) = False" for k n a using aead(2) [of k n p a] m(4) by simp
  have same: "session_aad (r\<lparr>es_last_received := i\<rparr>) (es_send_sequence s) (es_send_direction s) ad = Some aad" for i
    using m(6) assms(2) by (simp add: session_aad_def linked_def)
  show ?thesis
    using m(1-3,5,7) same small assms(2,3) aead(1) by (auto simp: readable_def decrypt_def linked_def simp del: be.simps)
qed

lemma encrypt_accepts:
  assumes "sendable (salt, p, ad)" "es_send_sequence s < 256 ^ 8"
  shows "\<exists>m. encrypt P salt p ad s = (Inr m, s\<lparr>es_send_sequence := es_send_sequence s + 1\<rparr>)"
  using assms by (auto simp: encrypt_def session_aad_def to_bytes_def sendable_def Let_def simp del: be.simps)

text \<open>Sending a list of messages: each is accepted, numbered in turn and readable at the other end.\<close>

lemma transmit_step: "channel_step P (transmit (salt, p, ad)) c = channel_step P (Transmit salt p ad) c"
  by (simp add: transmit_def)

lemma transmissions:
  assumes "list_all sendable xs" "linked (cn_sender c) r" "es_send_sequence (cn_sender c) + length xs \<le> 256 ^ 8"
    and aead: "\<And>k n t a. ae_dec P k n (ae_enc P k n t a) a = Some t" "\<And>k n t a. length (ae_enc P k n t a) \<le> length t + 16"
  shows "\<exists>ys. channel_run P (map transmit xs) c = c\<lparr>cn_sender := (cn_sender c)\<lparr>es_send_sequence := es_send_sequence (cn_sender c) + length xs\<rparr>,
      cn_sent := cn_sent c @ ys\<rparr> \<and> map snd ys = map snd xs \<and> list_all (readable P r) ys
    \<and> map (em_sequence \<circ> fst) ys = [es_send_sequence (cn_sender c)..<es_send_sequence (cn_sender c) + length xs]"
  using assms(1-3)
proof (induction xs arbitrary: c)
  case Nil
  then show ?case by simp
next
  case (Cons x xs)
  obtain salt p ad where x: "x = (salt, p, ad)" by (cases x)
  let ?s = "cn_sender c"
  obtain m where m: "encrypt P salt p ad ?s = (Inr m, ?s\<lparr>es_send_sequence := es_send_sequence ?s + 1\<rparr>)"
    using encrypt_accepts [of salt p ad ?s P] Cons.prems x by auto
  let ?c = "c\<lparr>cn_sender := ?s\<lparr>es_send_sequence := es_send_sequence ?s + 1\<rparr>, cn_sent := cn_sent c @ [(m, p, ad)]\<rparr>"
  have "list_all sendable xs" "linked (cn_sender ?c) r" "es_send_sequence (cn_sender ?c) + length xs \<le> 256 ^ 8"
    using Cons.prems by simp_all
  then obtain ys where ys: "channel_run P (map transmit xs) ?c = ?c\<lparr>cn_sender := (cn_sender ?c)\<lparr>es_send_sequence := es_send_sequence (cn_sender ?c) + length xs\<rparr>,
      cn_sent := cn_sent ?c @ ys\<rparr>" "map snd ys = map snd xs" "list_all (readable P r) ys"
    "map (em_sequence \<circ> fst) ys = [es_send_sequence (cn_sender ?c)..<es_send_sequence (cn_sender ?c) + length xs]"
    using Cons.IH [of ?c] by blast
  have "readable P r (m, p, ad)"
    using encrypted_readable [OF m Cons.prems(2) _ aead] Cons.prems(1) x by (simp add: sendable_def)
  moreover have "em_sequence m = es_send_sequence ?s" using encrypt_Inr [OF m] by simp
  ultimately show ?case
    using ys x m by (intro exI [of _ "(m, p, ad) # ys"]) (simp add: transmit_step upt_conv_Cons comp_def del: upt_Suc)
qed

text \<open>Delivering readable messages with increasing numbers.\<close>

lemma deliveries:
  assumes "list_all (readable P r) ys" "sorted_wrt (<) (map (em_sequence \<circ> fst) ys)" "cn_receiver c = r\<lparr>es_last_received := i\<rparr>"
    and "\<forall>y \<in> set ys. i < int (em_sequence (fst y))"
  shows "map snd (cn_got (channel_run P (map deliver ys) c)) = map snd (cn_got c) @ map snd ys"
  using assms
proof (induction ys arbitrary: c i)
  case Nil
  then show ?case by simp
next
  case (Cons y ys)
  have "decrypt P (fst y) (snd (snd y)) (cn_receiver c) = (Inr (fst (snd y)), r\<lparr>es_last_received := int (em_sequence (fst y))\<rparr>)"
    using Cons.prems by (simp add: readable_def)
  then show ?case using Cons.prems
    by (subst list.map, simp, subst Cons.IH [where i = "int (em_sequence (fst y))"]) (auto simp: deliver_def comp_def)
qed

text \<open>C17: Messages encrypted at one end and delivered in order are all read at the other end with their
  plaintexts and associated data.\<close>

theorem session_round_trip:
  assumes "derive_session P a ka h True = Inr s" "derive_session P b kb h False = Inr r" "x_shared P a ka = x_shared P b kb"
    and "(x, y) \<in> {(s, r), (r, s)}" "list_all sendable xs" "length xs \<le> 256 ^ 8"
    and "\<And>k n t a. ae_dec P k n (ae_enc P k n t a) a = Some t" "\<And>k n t a. length (ae_enc P k n t a) \<le> length t + 16"
    and "c = channel_run P (map transmit xs) (open_channel x y)"
  shows "map snd (cn_got (channel_run P (map deliver (cn_sent c)) c)) = map snd xs"
proof -
  have link: "linked x y" "es_send_sequence x = 0" "es_last_received y = -1"
    using derived_linked [OF assms(1-3)] assms(4) by (auto simp: fresh_session_def)
  have "linked (cn_sender (open_channel x y)) y" "es_send_sequence (cn_sender (open_channel x y)) + length xs \<le> 256 ^ 8"
    using link assms(6) by (simp_all add: open_channel_def)
  then obtain ys where ys: "c = (open_channel x y)\<lparr>cn_sender := x\<lparr>es_send_sequence := length xs\<rparr>, cn_sent := ys\<rparr>"
    "map snd ys = map snd xs" "list_all (readable P y) ys" "map (em_sequence \<circ> fst) ys = [0..<length xs]"
    using transmissions [OF assms(5) _ _ assms(7,8), of "open_channel x y" y] link assms(9)
    by (auto simp: open_channel_def)
  have "cn_receiver c = y\<lparr>es_last_received := -1\<rparr>" using ys(1) link(3) by (simp add: open_channel_def)
  then have "map snd (cn_got (channel_run P (map deliver ys) c)) = map snd (cn_got c) @ map snd ys"
    using ys(3,4) by (intro deliveries) auto
  then show ?thesis using ys(1,2) by (simp add: open_channel_def)
qed

definition clear_primitives :: primitives where
  "clear_primitives = toy_primitives\<lparr>ae_enc := \<lambda>k n p a. p, ae_dec := \<lambda>k n c a. Some c\<rparr>"

lemma clear_derived: "length ka = 32 \<Longrightarrow> derive_session clear_primitives a ka toy_handshake is_consumer = Inr (toy_end is_consumer)"
  using toy_transcript
  by (auto simp: derive_session_def derive_def new_session_def clear_primitives_def toy_primitives_def toy_end_def toy_handshake_def Let_def)

theorem session_round_trip_witness:
  "\<exists>c. map snd (cn_got (channel_run clear_primitives (map deliver (cn_sent c)) c)) = [(''hello'', ''a''), (''again'', ''b'')]"
proof -
  let ?xs = "[(''salt'', ''hello'', ''a''), (''tlas'', ''again'', ''b'')]"
  have "list_all sendable ?xs" by (simp add: sendable_def MAX_CIPHERTEXT_def)
  then have "map snd (cn_got (channel_run clear_primitives (map deliver (cn_sent c)) c)) = map snd ?xs"
    if "c = channel_run clear_primitives (map transmit ?xs) (open_channel (toy_end False) (toy_end True))" for c
    using session_round_trip [OF clear_derived [OF toy_peer] clear_derived [OF toy_peer] _ _ _ _ _ _ that, of k k for k]
    by (simp add: clear_primitives_def)
  then show ?thesis by (intro exI) (simp del: fold_simps channel_step.simps)
qed

section \<open>Signed handshakes\<close>

text \<open>A consumer that accepts a handshake signature holds exactly a handshake that the provider signed, with
  its session, both ephemeral keys, admission and freshness, provided that signatures under the provider's
  identity are only made by the provider.\<close>

theorem handshake_authentic:
  assumes "verify_handshake P signature h = None"
    and "\<forall>g t. ed_verify P (hs_identity h) g t \<longrightarrow> (\<exists>h' \<in> set signed. transcript h' = Inr t)"
  shows "h \<in> set signed"
proof -
  obtain t g where t: "transcript h = Inr t" "ed_verify P (hs_identity h) g t"
    using assms(1) by (auto simp: verify_handshake_def split: sum.splits option.splits if_splits)
  obtain h' where "h' \<in> set signed" "transcript h' = Inr t" using assms(2) t(2) by blast
  then show ?thesis using transcript_binds_eq [OF t(1)] by simp
qed

lemma sign_then_verify:
  assumes "sign_handshake P identity h = Inr g" "\<And>k t. ed_verify P (ed_public P k) (ed_sign P k t) t"
  shows "verify_handshake P g (h\<lparr>hs_identity := ed_public P identity\<rparr>) = None"
  using assms by (auto simp: sign_handshake_def verify_handshake_def split: sum.splits)

text \<open>Primitives under which one identity signs one transcript only.\<close>

definition one_signature :: primitives where
  "one_signature = toy_primitives\<lparr>ed_public := \<lambda>_. hs_identity toy_handshake, ed_sign := \<lambda>_ t. t,
     ed_verify := \<lambda>k g t. g = t \<and> transcript toy_handshake = Inr t\<rparr>"

theorem handshake_authentic_witness:
  "\<exists>g. sign_handshake one_signature ''key'' toy_handshake = Inr g \<and> verify_handshake one_signature g toy_handshake = None
    \<and> toy_handshake \<in> set [toy_handshake]"
proof -
  obtain t where t: "transcript toy_handshake = Inr t" using toy_transcript by blast
  have "verify_handshake one_signature (b64encode t) toy_handshake = None"
    by (simp add: verify_handshake_def one_signature_def t)
  moreover have "toy_handshake \<in> set [toy_handshake]"
    using handshake_authentic [OF calculation, of "[toy_handshake]"] by (simp add: one_signature_def)
  moreover have "sign_handshake one_signature ''key'' toy_handshake = Inr (b64encode t)"
    using t by (simp add: sign_handshake_def one_signature_def)
  ultimately show ?thesis by blast
qed

section \<open>Messages as JSON\<close>

lemma message_dict_round_trip:
  assumes "em_session m \<noteq> ''''" "length (em_session m) \<le> MAX_SESSION_ID" "em_direction m \<in> {TO_PROVIDER, TO_CONSUMER}"
  shows "message_from_dict (message_dict m) = Inr m"
  using assms by (cases m) (auto simp: message_from_dict_def message_dict_def dict_get_def Let_def)

end
