(* ===== verification/Confidential.thy ===== *)
theory Confidential
  imports Delivery Auth E2ESession
begin

text \<open>
  The confidential relay, \<open>routes_confidential.py\<close>, and the discovery of confidential providers,
  \<open>routes_handshake.py\<close>. A consumer sends an encrypted envelope that the coordinator passes on unread. The
  handler has two stretches: the gate and \<open>relay\<close> (balance, selection, send, trace), and the answer
  (\<open>relay_stream\<close>, \<open>relay_collect\<close>), which bills from what the coordinator can count. Logs and response
  headers are left out.
\<close>

section \<open>The request and its gate\<close>

record confidential_request =
  cf_session :: string
  cf_envelope :: trace
  cf_model :: string
  cf_max_tokens :: int
  cf_temperature :: flt
  cf_stream :: bool
  cf_estimate :: int
  cf_sequence :: int
  cf_messages :: "json list option"

text \<open>The checks of \<open>confidential_infer\<close> before the concurrency slot, which is \<open>take_slot\<close>. \<open>caller\<close> is the
  outcome of \<open>resolve_caller\<close>.\<close>

definition confidential_gate :: "confidential_request \<Rightarrow> string option \<Rightarrow> environ \<Rightarrow> flt \<Rightarrow> flt \<Rightarrow> rate_limiter
    \<Rightarrow> gate_result \<times> rate_limiter" where
  "confidential_gate r caller e t0 now l = (
     if cf_messages r \<noteq> None then
       (BadRequest (''The confidential endpoint does not accept a messages field. ''
          @ ''Encrypt messages client-side and send encrypted_envelope.'') ''plaintext_rejected'', l)
     else (case caller of
       None \<Rightarrow> (AuthRaised, l)
     | Some c \<Rightarrow> if anonymous_inference_blocked e c then (SignInRequired, l)
         else (case limiter_allow c t0 now l of
           (ok, l') \<Rightarrow> (if ok then Passed c else Raised RateLimitExceeded, l'))))"

section \<open>Matching and sending\<close>

datatype relay_result =
    RelayPayment
  | RelayRaised ocip_error
  | RelayCrashed hub_error
  | Relayed connected_provider

definition relay_request :: "string \<Rightarrow> confidential_request \<Rightarrow> inference_request" where
  "relay_request rid r = \<lparr>ir_request = rid, ir_model = cf_model r, ir_messages = None, ir_encrypted = Some (cf_envelope r),
     ir_max_tokens = cf_max_tokens r, ir_temperature = cf_temperature r, ir_stream = cf_stream r\<rparr>"

definition relay_trace :: "string \<Rightarrow> flt \<Rightarrow> string \<Rightarrow> connected_provider option \<Rightarrow> trace" where
  "relay_trace rid now model p = [(''request_id'', JStr rid), (''timestamp'', JFloat now), (''model'', JStr model)]
     @ (case p of
          None \<Rightarrow> [(''status'', JStr ''no_provider''), (''confidential'', JBool True)]
        | Some q \<Rightarrow> [(''status'', JStr ''matched''), (''confidential'', JBool True), (''selected_provider'', JStr (cp_name q)),
            (''encrypted'', JBool True)])"

text \<open>\<open>_relay_confidential\<close> up to the answer. The environment is that of the dispatch: clock readings 0 to 2
  belong to the trace, 4 to the send.\<close>

definition relay :: "dispatch_env \<Rightarrow> confidential_request \<Rightarrow> string \<Rightarrow> bill_callback hub \<Rightarrow> services
    \<Rightarrow> relay_result \<times> bill_callback hub \<times> services \<times> bill_callback hub_effect list" where
  "relay env r consumer h s = (
     if (case get_account consumer (sv_db s) of Some a \<Rightarrow> acc_balance a \<le> 0 | None \<Rightarrow> False) then (RelayPayment, h, s, [])
     else (let rid = de_request env; rep = (\<lambda>pid. fst (get_score pid (sv_reputation s)));
               s1 = s\<lparr>sv_reputation := consult_reputation (sk_admit (de_select env)) h (sv_reputation s)\<rparr>
       in case select_provider (de_select env) rep (cf_model r) ''balanced'' ''open'' None (Some (cf_session r)) h of
            (Inl e, h1) \<Rightarrow> (RelayCrashed e, h1, s, [])
          | (Inr choice, h1) \<Rightarrow> (case Option.bind choice (map_of (hub_providers h1)) of
              None \<Rightarrow> (RelayRaised (NoProviderAvailable ''No provider available for this model''), h1,
                save_trace (relay_trace rid (de_clock env 0) (cf_model r) None) consumer (de_clock env 1) (de_clock env 2) s1, [])
            | Some p \<Rightarrow> (case send_to_provider (de_clock env 4) (de_accepts env (cp_id p)) p (relay_request rid r) (create_response_queue rid h1) of
                (Inl _, h2, es) \<Rightarrow> (RelayRaised (ProviderError (''Failed to reach provider: '' @ de_failure1 env)),
                   remove_response_queue rid h2, s1, es)
              | (Inr _, h2, es) \<Rightarrow> (Relayed p, h2,
                   save_trace (relay_trace rid (de_clock env 0) (cf_model r) (Some p)) consumer (de_clock env 1) (de_clock env 2) s1, es)))))"

section \<open>Billing\<close>

text \<open>The charge: estimated input, counted output, the provider's prices; the other arguments are the
  defaults of \<open>charge_request\<close>. A consumer's estimate beyond SQLite's 64 bits makes the charge raise, and
  the stream or the response with it; the relay's model leaves that case out.\<close>

definition relay_charge :: "string \<Rightarrow> confidential_request \<Rightarrow> string \<Rightarrow> connected_provider \<Rightarrow> nat \<Rightarrow> charge_args" where
  "relay_charge rid r consumer p n = \<lparr>ch_request = rid, ch_consumer = consumer, ch_provider = payee p, ch_model = cf_model r,
     ch_input = cf_estimate r, ch_output = int n, ch_price_input = pc_price_in (cp_caps p), ch_price_output = pc_price_out (cp_caps p),
     ch_cached = 0, ch_price_cache = 0, ch_provider_name = '''', ch_trust = '''', ch_encrypted = False, ch_preference = '''',
     ch_latency = 0, ch_ttft = 0, ch_tps = 0, ch_queued = False, ch_queue_wait = 0, ch_connection = cp_session p,
     ch_requested_model = None, ch_served_model = None\<rparr>"

text \<open>The clock readings after the loop: of the charge, of \<open>elapsed\<close>, of the throughput record, of
  \<open>elapsed_ms\<close> and of the reputation record. \<open>ry_start\<close> is taken before the loop.\<close>

record relay_clock =
  ry_start :: flt
  ry_account :: flt
  ry_charge :: flt
  ry_elapsed :: flt
  ry_tps :: flt
  ry_latency :: flt
  ry_outcome :: flt

definition relay_bill :: "relay_clock \<Rightarrow> string \<Rightarrow> confidential_request \<Rightarrow> string \<Rightarrow> connected_provider \<Rightarrow> nat \<Rightarrow> services \<Rightarrow> services" where
  "relay_bill t rid r consumer p n s =
     (let elapsed = rnd (ry_elapsed t - ry_start t);
          db = snd (charge_request (relay_charge rid r consumer p n) (ry_account t) (ry_charge t) (sv_db s));
          tps = (if 0 < n \<and> 0 < elapsed
            then tps_record_request (cp_id p) (cf_model r) (int n) elapsed (pc_hardware (cp_caps p)) (ry_tps t) (sv_tps s) else sv_tps s)
      in s\<lparr>sv_db := db, sv_tps := tps\<rparr>)"

section \<open>Streaming\<close>

definition relay_chunk :: "string \<Rightarrow> string \<Rightarrow> flt \<Rightarrow> json \<Rightarrow> (string \<times> json) list \<Rightarrow> sse" where
  "relay_chunk rid model now finish extra = Data ([(''id'', JStr (''chatcmpl-'' @ take 8 rid)),
     (''object'', JStr ''chat.completion.chunk''), (''created'', JInt (to_int now)), (''model'', JStr model), delta_choice [] finish] @ extra)"

definition relay_token :: "string \<Rightarrow> string \<Rightarrow> flt \<Rightarrow> response_chunk \<Rightarrow> sse" where
  "relay_token rid model now c = relay_chunk rid model now (j_opt JStr (rc_finish c))
     (case rc_encrypted c of Some (x # xs) \<Rightarrow> [(''ocip_encrypted_token'', JObj (x # xs))] | _ \<Rightarrow> [])"

definition finished :: "response_chunk \<Rightarrow> bool" where
  "finished c \<longleftrightarrow> (case rc_finish c of Some (x # xs) \<Rightarrow> True | _ \<Rightarrow> False)"

text \<open>The loop over what arrives in the queue, with the clock reading of each event: the events, and how
  it ended with the count of chunks; \<open>None\<close> when the task was cancelled while waiting.\<close>

fun relay_loop :: "string \<Rightarrow> string \<Rightarrow> (arrival \<times> flt) list \<Rightarrow> nat \<Rightarrow> sse list \<times> (stream_end \<times> nat) option" where
  "relay_loop rid model [] n = ([], None)"
| "relay_loop rid model ((QueueTimeoutHit, now) # xs) n =
     ([Data [(''error'', JObj [(''type'', JStr ''provider_timeout'')])]], Some (StreamTimeout, n))"
| "relay_loop rid model ((Arrived (Chunk c), now) # xs) n = (if finished c then ([relay_token rid model now c], Some (StreamSuccess, Suc n))
     else (case relay_loop rid model xs (Suc n) of (es, e) \<Rightarrow> (relay_token rid model now c # es, e)))"
| "relay_loop rid model ((Arrived (Done m), now) # xs) n = ([relay_chunk rid model now (JStr ''stop'') []], Some (StreamSuccess, n))"
| "relay_loop rid model ((Arrived (Failed e), now) # xs) n =
     ([Data [(''error'', JObj [(''type'', JStr ''provider_error''), (''message'', JStr (er_error e))])]], Some (StreamError, n))"

text \<open>\<open>_stream_confidential\<close>: a generator that the server closes at the event number \<open>leaves\<close> when the consumer
  is gone by then; the code after the loop runs only when the marker at the end was taken too.\<close>

definition relay_stream :: "relay_clock \<Rightarrow> string \<Rightarrow> confidential_request \<Rightarrow> string \<Rightarrow> connected_provider \<Rightarrow> nat option
    \<Rightarrow> (arrival \<times> flt) list \<Rightarrow> bill_callback hub \<Rightarrow> services \<Rightarrow> sse list \<times> bill_callback hub \<times> services" where
  "relay_stream t rid r consumer p leaves xs h s = (let (es, e) = relay_loop rid (cf_model r) xs 0;
       events = (if e = None then es else es @ [DoneMarker]);
       taken = (case leaves of None \<Rightarrow> events | Some k \<Rightarrow> take (Suc k) events);
       closed = (case leaves of None \<Rightarrow> False | Some k \<Rightarrow> k < length events)
     in (taken, remove_response_queue rid h,
         case e of
           Some (ending, n) \<Rightarrow> if closed then s
             else (let s1 = relay_bill t rid r consumer p n s;
                       latency = elapsed_ms (ry_start t) (ry_latency t)
               in s1\<lparr>sv_reputation := (case ending of
                    StreamSuccess \<Rightarrow> record_success (cp_id p) (int n) latency (ry_outcome t) (sv_reputation s1)
                  | StreamTimeout \<Rightarrow> record_timeout (cp_id p) (ry_outcome t) (sv_reputation s1)
                  | _ \<Rightarrow> record_error (cp_id p) (ry_outcome t) (sv_reputation s1))\<rparr>)
         | None \<Rightarrow> s))"

section \<open>Collecting\<close>

datatype relay_collected = RelayCancelled | RelayTimedOut | RelayFailed string | RelayTokens "trace list"

fun relay_collect_loop :: "(arrival \<times> flt) list \<Rightarrow> trace list \<Rightarrow> relay_collected" where
  "relay_collect_loop [] toks = RelayCancelled"
| "relay_collect_loop ((QueueTimeoutHit, now) # xs) toks = RelayTimedOut"
| "relay_collect_loop ((Arrived (Chunk c), now) # xs) toks =
     (let toks' = (case rc_encrypted c of Some (x # ys) \<Rightarrow> toks @ [x # ys] | _ \<Rightarrow> toks)
      in if finished c then RelayTokens toks' else relay_collect_loop xs toks')"
| "relay_collect_loop ((Arrived (Done m), now) # xs) toks = RelayTokens toks"
| "relay_collect_loop ((Arrived (Failed e), now) # xs) toks = RelayFailed (er_error e)"

definition relay_completion :: "string \<Rightarrow> confidential_request \<Rightarrow> flt \<Rightarrow> trace list \<Rightarrow> json" where
  "relay_completion rid r now toks = JObj [(''id'', JStr (''chatcmpl-'' @ take 8 rid)), (''object'', JStr ''chat.completion''),
     (''created'', JInt (to_int now)), (''model'', JStr (cf_model r)), (''ocip_encrypted_tokens'', JList (map JObj toks)),
     (''usage'', JObj [(''prompt_tokens'', JInt (cf_estimate r)), (''completion_tokens'', JInt (int (length toks))),
        (''total_tokens'', JInt (cf_estimate r + int (length toks)))])]"

text \<open>\<open>_collect_confidential\<close>; the result is \<open>None\<close> when the task was cancelled.\<close>

definition relay_collect :: "relay_clock \<Rightarrow> string \<Rightarrow> confidential_request \<Rightarrow> string \<Rightarrow> connected_provider \<Rightarrow> flt
    \<Rightarrow> (arrival \<times> flt) list \<Rightarrow> bill_callback hub \<Rightarrow> services \<Rightarrow> (ocip_error + json) option \<times> bill_callback hub \<times> services" where
  "relay_collect t rid r consumer p created xs h s = (let h' = remove_response_queue rid h in
     case relay_collect_loop xs [] of
       RelayCancelled \<Rightarrow> (None, h', s)
     | RelayTimedOut \<Rightarrow> (Some (Inl ProviderTimeout), h', s\<lparr>sv_reputation := record_timeout (cp_id p) (ry_outcome t) (sv_reputation s)\<rparr>)
     | RelayFailed e \<Rightarrow> (Some (Inl (ProviderError e)), h', s\<lparr>sv_reputation := record_error (cp_id p) (ry_outcome t) (sv_reputation s)\<rparr>)
     | RelayTokens toks \<Rightarrow> (let s1 = relay_bill t rid r consumer p (length toks) s;
            latency = to_int (rnd (rnd (ry_elapsed t - ry_start t) * 1000))
         in (Some (Inr (relay_completion rid r created toks)), h',
             s1\<lparr>sv_reputation := record_success (cp_id p) (int (length toks)) latency (ry_outcome t) (sv_reputation s1)\<rparr>)))"

section \<open>Discovery of confidential providers\<close>

text \<open>The attributes the handler reads with a default because \<open>ConnectedProvider\<close> does not have them.\<close>

record identity_binding =
  ib_identity :: string
  ib_bound :: bool
  ib_admission :: string

definition absent_binding :: identity_binding where
  "absent_binding = \<lparr>ib_identity = '''', ib_bound = False, ib_admission = ''''\<rparr>"

text \<open>One provider's entry: nothing, an offer, or the \<open>ValueError\<close> of its validation, which ends the handler.\<close>

definition confidential_offer :: "flt \<Rightarrow> identity_binding \<Rightarrow> connected_provider \<Rightarrow> (string + provider_record) option" where
  "confidential_offer now b p = (
     if trust_claim p \<noteq> ''confidential'' then None
     else if \<not> (cp_attest_verified p \<and> ib_identity b \<noteq> '''' \<and> ib_bound b) then None
     else if cp_admission_expires p \<le> now then None
     else if ib_admission b = '''' \<or> cp_attest_key p = '''' \<or> cp_artifact p = '''' then None
     else (let offer = \<lparr>of_provider = cp_id p, of_identity = ib_identity b, of_attest_key = cp_attest_key p, of_profile = ''L2'',
             of_version = ''0.1.0'', of_models = pc_models (cp_caps p), of_expires = to_int (cp_admission_expires p),
             of_admission = ib_admission b, of_artifact = cp_artifact p\<rparr>
       in case validate_offer (to_int now) offer of Some e \<Rightarrow> Some (Inl e) | None \<Rightarrow> Some (Inr offer)))"

fun collect_offers :: "(string + provider_record) option list \<Rightarrow> string + provider_record list" where
  "collect_offers [] = Inr []"
| "collect_offers (None # xs) = collect_offers xs"
| "collect_offers (Some (Inl e) # xs) = Inl e"
| "collect_offers (Some (Inr p) # xs) = map_sum id ((#) p) (collect_offers xs)"

definition confidential_offers :: "flt \<Rightarrow> 'cb hub \<Rightarrow> string + provider_record list" where
  "confidential_offers now h = collect_offers (map (\<lambda>(_, p). confidential_offer now absent_binding p) (hub_providers h))"

end
