(* ===== verification/ConfidentialLaws.thy ===== *)
theory ConfidentialLaws
  imports Confidential DispatchLaws SettlementLaws DeliveryLaws
begin

text \<open>
  The confidential relay: what the coordinator does and stores is independent of the envelope and of the
  encrypted answer, both pass unchanged, plaintext is refused, a request is charged at most once and for
  what was counted; and which providers such a request can reach.
\<close>

section \<open>The envelope\<close>

fun reseal :: "trace \<Rightarrow> 'cb hub_effect \<Rightarrow> 'cb hub_effect" where
  "reseal e (SendRequest pid req) = SendRequest pid (req\<lparr>ir_encrypted := Some e\<rparr>)"
| "reseal e x = x"

lemma send_cases:
  "send_to_provider now ok p req h = (res, h', es) \<Longrightarrow> es = [] \<or> es = [SendRequest (cp_id p) req]"
  by (auto simp: send_to_provider_eq Let_def split: if_splits)

lemma send_reseal:
  assumes "ir_request req' = ir_request req" "req' = req\<lparr>ir_encrypted := Some e\<rparr>"
  shows "send_to_provider now ok p req' h = map_prod id (map_prod id (map (reseal e))) (send_to_provider now ok p req h)"
  using assms by (simp add: send_to_provider_eq Let_def)

lemma relay_sends:
  assumes "relay env r consumer h s = (res, h', s', es)"
  shows "(es = [] \<and> (\<forall>p. res \<noteq> Relayed p)) \<or> (\<exists>p. es = [SendRequest (cp_id p) (relay_request (de_request env) r)] \<and> res = Relayed p)"
  using assms
  by (auto simp: relay_def send_to_provider_eq Let_def split: prod.splits sum.splits option.splits if_splits)

text \<open>C18: The relay is blind to the envelope: with another envelope it gives the same result, the same hub and
  the same services, and only the message to the provider differs, in the envelope alone; that message
  carries no plaintext; and a request with a plaintext messages field is refused before anything else.\<close>

theorem relay_is_blind:
  "relay env (r\<lparr>cf_envelope := e\<rparr>) consumer h s
      = map_prod id (map_prod id (map_prod id (map (reseal e)))) (relay env r consumer h s)
    \<and> (\<forall>x \<in> set (snd (snd (snd (relay env r consumer h s)))). \<exists>pid req. x = SendRequest pid req
        \<and> ir_messages req = None \<and> ir_encrypted req = Some (cf_envelope r))
    \<and> (cf_messages r \<noteq> None \<longrightarrow> (\<exists>m. confidential_gate r caller en t0 now l = (BadRequest m ''plaintext_rejected'', l)))"
proof (intro conjI)
  have req: "relay_request rid (r\<lparr>cf_envelope := e\<rparr>) = (relay_request rid r)\<lparr>ir_encrypted := Some e\<rparr>" for rid
    by (simp add: relay_request_def)
  have send: "send_to_provider now ok p ((relay_request rid r)\<lparr>ir_encrypted := Some e\<rparr>) k
      = map_prod id (map_prod id (map (reseal e))) (send_to_provider now ok p (relay_request rid r) k)" for now ok p rid k
    by (rule send_reseal) simp_all
  show "relay env (r\<lparr>cf_envelope := e\<rparr>) consumer h s
      = map_prod id (map_prod id (map_prod id (map (reseal e)))) (relay env r consumer h s)"
    by (simp add: relay_def req send Let_def split: prod.split sum.split option.split)
  show "\<forall>x \<in> set (snd (snd (snd (relay env r consumer h s)))). \<exists>pid req. x = SendRequest pid req
        \<and> ir_messages req = None \<and> ir_encrypted req = Some (cf_envelope r)"
    using relay_sends [of env r consumer h s] by (cases "relay env r consumer h s") (auto simp: relay_request_def)
  show "cf_messages r \<noteq> None \<longrightarrow> (\<exists>m. confidential_gate r caller en t0 now l = (BadRequest m ''plaintext_rejected'', l))"
    by (simp add: confidential_gate_def)
qed

section \<open>The answer\<close>

text \<open>The encrypted tokens that arrive before the end, and the ones in the events.\<close>

definition sealed_of :: "response_chunk \<Rightarrow> trace list" where
  "sealed_of c = (case rc_encrypted c of Some (x # xs) \<Rightarrow> [x # xs] | _ \<Rightarrow> [])"

fun sealed_tokens :: "(arrival \<times> flt) list \<Rightarrow> trace list" where
  "sealed_tokens ((Arrived (Chunk c), now) # xs) = sealed_of c @ (if finished c then [] else sealed_tokens xs)"
| "sealed_tokens _ = []"

fun event_tokens :: "sse \<Rightarrow> trace list" where
  "event_tokens (Data d) = (case map_of d ''ocip_encrypted_token'' of Some (JObj t) \<Rightarrow> [t] | _ \<Rightarrow> [])"
| "event_tokens DoneMarker = []"

lemma event_tokens_relay [simp]:
  "event_tokens (relay_token rid model now c) = sealed_of c" "event_tokens (relay_chunk rid model now f []) = []"
  by (auto simp: relay_token_def relay_chunk_def sealed_of_def delta_choice_def split: option.split list.split)

lemma relay_loop_tokens: "concat (map event_tokens (fst (relay_loop rid model xs n))) = sealed_tokens xs"
  by (induction rid model xs n rule: relay_loop.induct) (simp_all add: split_beta)

lemma collect_loop_tokens: "relay_collect_loop xs toks = RelayTokens ts \<Longrightarrow> ts = toks @ sealed_tokens xs"
proof (induction xs toks rule: relay_collect_loop.induct)
  case (3 c now xs toks)
  then show ?case by (auto simp: sealed_of_def Let_def split: if_splits option.splits list.splits)
qed simp_all

text \<open>How the same arrivals end for the two loops, and the chunks counted while streaming.\<close>

fun arrivals_end :: "(arrival \<times> flt) list \<Rightarrow> stream_end option" where
  "arrivals_end [] = None"
| "arrivals_end ((QueueTimeoutHit, _) # xs) = Some StreamTimeout"
| "arrivals_end ((Arrived (Chunk c), _) # xs) = (if finished c then Some StreamSuccess else arrivals_end xs)"
| "arrivals_end ((Arrived (Done m), _) # xs) = Some StreamSuccess"
| "arrivals_end ((Arrived (Failed e), _) # xs) = Some StreamError"

fun chunk_count :: "(arrival \<times> flt) list \<Rightarrow> nat" where
  "chunk_count ((Arrived (Chunk c), _) # xs) = Suc (if finished c then 0 else chunk_count xs)"
| "chunk_count _ = 0"

lemma relay_loop_end: "snd (relay_loop rid model xs n) = map_option (\<lambda>e. (e, n + chunk_count xs)) (arrivals_end xs)"
  by (induction rid model xs n rule: relay_loop.induct) (simp_all add: split_beta)

lemma collect_loop_end:
  "arrivals_end xs = (case relay_collect_loop xs toks of RelayCancelled \<Rightarrow> None | RelayTimedOut \<Rightarrow> Some StreamTimeout
    | RelayFailed _ \<Rightarrow> Some StreamError | RelayTokens _ \<Rightarrow> Some StreamSuccess)"
  by (induction xs toks rule: relay_collect_loop.induct) (simp_all add: Let_def split: option.split list.split)

text \<open>Two sequences of arrivals that look the same to a coordinator that does not read the tokens.\<close>

fun same_shape :: "arrival \<times> flt \<Rightarrow> arrival \<times> flt \<Rightarrow> bool" where
  "same_shape (Arrived (Chunk c), _) (Arrived (Chunk d), _) \<longleftrightarrow> rc_finish c = rc_finish d \<and> (sealed_of c = [] \<longleftrightarrow> sealed_of d = [])"
| "same_shape (Arrived (Done _), _) (Arrived (Done _), _) = True"
| "same_shape (Arrived (Failed _), _) (Arrived (Failed _), _) = True"
| "same_shape (QueueTimeoutHit, _) (QueueTimeoutHit, _) = True"
| "same_shape _ _ = False"

lemma finished_cong: "rc_finish c = rc_finish d \<Longrightarrow> finished c = finished d"
  by (simp add: finished_def)

lemma same_shape_loop:
  assumes "list_all2 same_shape xs ys"
  shows "snd (relay_loop rid model xs n) = snd (relay_loop rid model ys n)
    \<and> length (fst (relay_loop rid model xs n)) = length (fst (relay_loop rid model ys n))"
  using assms
proof (induction arbitrary: n rule: list_all2_induct)
  case Nil
  then show ?case by simp
next
  case (Cons x xs y ys)
  show ?case using Cons.hyps
  proof (cases rule: same_shape.cases [of "(x, y)"])
    case (1 c a d b)
    then have "rc_finish c = rc_finish d" using Cons.hyps(1) by auto
    then show ?thesis using 1 Cons.IH [of "Suc n"] finished_cong [of c d] by (simp add: split_beta)
  qed auto
qed

lemma same_shape_collect:
  assumes "list_all2 same_shape xs ys" "length ts = length us"
  shows "case (relay_collect_loop xs ts, relay_collect_loop ys us) of
      (RelayCancelled, RelayCancelled) \<Rightarrow> True | (RelayTimedOut, RelayTimedOut) \<Rightarrow> True | (RelayFailed _, RelayFailed _) \<Rightarrow> True
    | (RelayTokens a, RelayTokens b) \<Rightarrow> length a = length b | _ \<Rightarrow> False"
  using assms
proof (induction arbitrary: ts us rule: list_all2_induct)
  case Nil
  then show ?case by simp
next
  case (Cons x xs y ys)
  show ?case using Cons.hyps Cons.prems
  proof (cases rule: same_shape.cases [of "(x, y)"])
    case (1 c a d b)
    then have c: "rc_finish c = rc_finish d" "length (sealed_of c) = length (sealed_of d)"
      using Cons.hyps(1) by (auto simp: sealed_of_def split: option.splits list.splits)
    have seal: "(case rc_encrypted z of Some (x # ys) \<Rightarrow> ws @ [x # ys] | _ \<Rightarrow> ws) = ws @ sealed_of z" for z and ws :: "trace list"
      by (auto simp: sealed_of_def split: option.split list.split)
    show ?thesis using 1 c Cons.IH [of "ts @ sealed_of c" "us @ sealed_of d"] Cons.prems finished_cong [OF c(1)]
      by (simp add: seal Let_def)
  qed auto
qed

text \<open>What the stream leaves behind, in one piece: nothing when it was cancelled or closed early, otherwise the
  bill and the outcome.\<close>

definition relay_settled :: "relay_clock \<Rightarrow> string \<Rightarrow> confidential_request \<Rightarrow> string \<Rightarrow> connected_provider \<Rightarrow> stream_end \<Rightarrow> nat \<Rightarrow> services \<Rightarrow> services" where
  "relay_settled t rid r consumer p e n s = (let s1 = relay_bill t rid r consumer p n s; latency = elapsed_ms (ry_start t) (ry_latency t)
     in s1\<lparr>sv_reputation := (case e of
          StreamSuccess \<Rightarrow> record_success (cp_id p) (int n) latency (ry_outcome t) (sv_reputation s1)
        | StreamTimeout \<Rightarrow> record_timeout (cp_id p) (ry_outcome t) (sv_reputation s1)
        | _ \<Rightarrow> record_error (cp_id p) (ry_outcome t) (sv_reputation s1))\<rparr>)"

definition stayed :: "nat option \<Rightarrow> sse list \<Rightarrow> bool" where
  "stayed leaves es \<longleftrightarrow> (case leaves of None \<Rightarrow> True | Some k \<Rightarrow> length es < k)"

lemma relay_stream_state:
  "snd (relay_stream t rid r consumer p leaves xs h s) = (remove_response_queue rid h,
     case arrivals_end xs of
       Some e \<Rightarrow> if stayed leaves (fst (relay_loop rid (cf_model r) xs 0)) then relay_settled t rid r consumer p e (chunk_count xs) s else s
     | None \<Rightarrow> s)"
  by (cases "arrivals_end xs"; cases leaves)
    (auto simp: relay_stream_def relay_settled_def stayed_def split_beta Let_def relay_loop_end)

text \<open>The relay does not read answers: for two sequences of arrivals of the same shape (which messages are
  chunks, which carry a token, which end), streaming and collecting leave the same hub and the same
  services, whatever the tokens, the provider's plaintext fields and its error texts are.\<close>

theorem relay_ignores_content:
  assumes "list_all2 same_shape xs ys"
  shows "snd (relay_stream t rid r consumer p leaves xs h s) = snd (relay_stream t rid r consumer p leaves ys h s)
    \<and> snd (relay_collect t rid r consumer p created xs h s) = snd (relay_collect t rid r consumer p created ys h s)"
proof
  show "snd (relay_stream t rid r consumer p leaves xs h s) = snd (relay_stream t rid r consumer p leaves ys h s)"
    using same_shape_loop [OF assms, of rid "cf_model r" 0]
    by (auto simp: relay_stream_state relay_loop_end stayed_def split: option.splits)
  show "snd (relay_collect t rid r consumer p created xs h s) = snd (relay_collect t rid r consumer p created ys h s)"
    using same_shape_collect [OF assms, of "[]" "[]"]
    by (cases "relay_collect_loop xs []"; cases "relay_collect_loop ys []") (simp_all add: relay_collect_def Let_def)
qed

definition sealed_chunk :: "string \<Rightarrow> response_chunk" where
  "sealed_chunk t = \<lparr>rc_request = ''r1'', rc_token = '''', rc_encrypted = Some [(''ciphertext'', JStr t)], rc_finish = None\<rparr>"

definition relay_done :: inference_done where
  "relay_done = \<lparr>dn_request = ''r1'', dn_tokens = 1, dn_input = 0, dn_cached = 0, dn_seconds = 1, dn_served = None\<rparr>"

definition relay_arrivals :: "string \<Rightarrow> (arrival \<times> flt) list" where
  "relay_arrivals t = [(Arrived (Chunk (sealed_chunk t)), 1), (Arrived (Done relay_done), 2)]"

definition sample_relay_clock :: relay_clock where
  "sample_relay_clock = \<lparr>ry_start = 0, ry_account = 1, ry_charge = 1, ry_elapsed = 1, ry_tps = 1, ry_latency = 1, ry_outcome = 1\<rparr>"

definition sample_confidential :: confidential_request where
  "sample_confidential = \<lparr>cf_session = ''s'', cf_envelope = [(''ciphertext'', JStr ''x'')], cf_model = ''m'', cf_max_tokens = 16,
     cf_temperature = 0, cf_stream = True, cf_estimate = 5, cf_sequence = 0, cf_messages = None\<rparr>"

theorem relay_ignores_content_witness:
  "snd (relay_stream sample_relay_clock ''r1'' sample_confidential ''c'' sample_provider None (relay_arrivals ''yes'') sample_hub sample_services)
    = snd (relay_stream sample_relay_clock ''r1'' sample_confidential ''c'' sample_provider None (relay_arrivals ''no'') sample_hub sample_services)"
proof -
  have "list_all2 same_shape (relay_arrivals ''yes'') (relay_arrivals ''no'')"
    by (simp add: relay_arrivals_def sealed_chunk_def sealed_of_def)
  from relay_ignores_content [OF this] show ?thesis by blast
qed

text \<open>Encrypted tokens pass unchanged: the events of a whole stream carry exactly the encrypted tokens that
  arrived before the end, in order; collecting the same arrivals returns the same tokens; and both count as
  ended or not in the same way.\<close>

theorem relay_passes_tokens:
  assumes "relay_stream t rid r consumer p None xs h s = (events, h1, s1)"
    "relay_collect t rid r consumer p created xs h s = (res, h2, s2)"
  shows "concat (map event_tokens events) = sealed_tokens xs \<and> h1 = h2 \<and> (res = None \<longleftrightarrow> DoneMarker \<notin> set events)
    \<and> (\<forall>j. res = Some (Inr j) \<longrightarrow> j = relay_completion rid r created (sealed_tokens xs))"
proof -
  have no_marker: "DoneMarker \<notin> set (fst (relay_loop rid m xs n))" for m n
    by (induction rid m xs n rule: relay_loop.induct) (simp_all add: split_beta relay_token_def relay_chunk_def)
  have e: "events = fst (relay_loop rid (cf_model r) xs 0) @ (if arrivals_end xs = None then [] else [DoneMarker])"
    "h1 = remove_response_queue rid h"
    using assms(1) by (auto simp: relay_stream_def split_beta Let_def relay_loop_end split: option.splits)
  have c: "h2 = remove_response_queue rid h" "res = None \<longleftrightarrow> arrivals_end xs = None"
    "res = Some (Inr j) \<Longrightarrow> \<exists>ts. relay_collect_loop xs [] = RelayTokens ts \<and> j = relay_completion rid r created ts" for j
    using assms(2) collect_loop_end [of xs "[]"] by (auto simp: relay_collect_def Let_def split: relay_collected.splits)
  show ?thesis
    using e c no_marker collect_loop_tokens [of xs "[]"] relay_loop_tokens by auto
qed

theorem relay_passes_tokens_witness:
  "concat (map event_tokens (fst (relay_stream sample_relay_clock ''r1'' sample_confidential ''c'' sample_provider None
      (relay_arrivals ''yes'') sample_hub sample_services))) = [[(''ciphertext'', JStr ''yes'')]]"
proof -
  obtain es h1 s1 where a: "relay_stream sample_relay_clock ''r1'' sample_confidential ''c'' sample_provider None (relay_arrivals ''yes'') sample_hub
      sample_services = (es, h1, s1)" by (metis prod_cases3)
  obtain res h2 s2 where b: "relay_collect sample_relay_clock ''r1'' sample_confidential ''c'' sample_provider 0 (relay_arrivals ''yes'') sample_hub
      sample_services = (res, h2, s2)" by (metis prod_cases3)
  have "sealed_tokens (relay_arrivals ''yes'') = [[(''ciphertext'', JStr ''yes'')]]"
    by (simp add: relay_arrivals_def sealed_chunk_def sealed_of_def finished_def)
  then show ?thesis using relay_passes_tokens [OF a b] a by simp
qed

section \<open>Billing\<close>

lemma relay_bill_txs:
  "db_txs (sv_db (relay_bill t rid r consumer p n s))
     = db_txs (sv_db s) @ [(charge_row (relay_charge rid r consumer p n) (ry_charge t))\<lparr>tx_id := Suc (seq_tx (sv_db s))\<rparr>]"
  by (simp add: relay_bill_def charge_txs Let_def)

lemma relay_settled_db [simp]: "sv_db (relay_settled t rid r consumer p e n s) = sv_db (relay_bill t rid r consumer p n s)"
  by (simp add: relay_settled_def Let_def)

definition relay_row :: "string \<Rightarrow> confidential_request \<Rightarrow> string \<Rightarrow> connected_provider \<Rightarrow> nat \<Rightarrow> transaction \<Rightarrow> bool" where
  "relay_row rid r consumer p n row \<longleftrightarrow> tx_request row = rid \<and> tx_consumer row = consumer \<and> tx_provider row = payee p
     \<and> tx_input row = cf_estimate r \<and> tx_output row = int n \<and> tx_cost row = total_cost (relay_charge rid r consumer p n)"

lemma relay_row_charge: "relay_row rid r consumer p n ((charge_row (relay_charge rid r consumer p n) now)\<lparr>tx_id := i\<rparr>)"
  by (simp add: relay_row_def relay_charge_def)

text \<open>What the relay charges. A stream that ended while the consumer was still there appends exactly one
  transaction, for the estimated input and the counted chunks at the provider's prices, also when it ended
  with a timeout or an error; a stream that was cut off or left early charges nothing. Collecting charges
  only a complete answer, for its encrypted tokens.\<close>

theorem relay_billing:
  shows "(let s' = snd (snd (relay_stream t rid r consumer p leaves xs h s)) in
      if arrivals_end xs \<noteq> None \<and> stayed leaves (fst (relay_loop rid (cf_model r) xs 0))
      then \<exists>row. db_txs (sv_db s') = db_txs (sv_db s) @ [row] \<and> relay_row rid r consumer p (chunk_count xs) row
      else s' = s)
    \<and> (let s' = snd (snd (relay_collect t rid r consumer p created xs h s)) in
      if arrivals_end xs = Some StreamSuccess
      then \<exists>row. db_txs (sv_db s') = db_txs (sv_db s) @ [row] \<and> relay_row rid r consumer p (length (sealed_tokens xs)) row
      else sv_db s' = sv_db s)"
proof
  show "let s' = snd (snd (relay_stream t rid r consumer p leaves xs h s)) in
      if arrivals_end xs \<noteq> None \<and> stayed leaves (fst (relay_loop rid (cf_model r) xs 0))
      then \<exists>row. db_txs (sv_db s') = db_txs (sv_db s) @ [row] \<and> relay_row rid r consumer p (chunk_count xs) row else s' = s"
    using relay_row_charge by (auto simp: relay_stream_state relay_bill_txs Let_def split: option.split)
  have tokens: "relay_collect_loop xs [] = RelayTokens ts \<Longrightarrow> ts = sealed_tokens xs" for ts
    using collect_loop_tokens [of xs "[]" ts] by simp
  show "let s' = snd (snd (relay_collect t rid r consumer p created xs h s)) in
      if arrivals_end xs = Some StreamSuccess
      then \<exists>row. db_txs (sv_db s') = db_txs (sv_db s) @ [row] \<and> relay_row rid r consumer p (length (sealed_tokens xs)) row
      else sv_db s' = sv_db s"
    using relay_row_charge collect_loop_end [of xs "[]"] tokens
    by (auto simp: relay_collect_def relay_bill_txs Let_def split: relay_collected.splits)
qed

text \<open>Two consequences that look unintended: an answer that fails at once is billed when it is streamed and
  not when it is collected, and a chunk without a token counts when streamed only.\<close>

lemma relay_bills_failures:
  "\<exists>row. db_txs (sv_db (snd (snd (relay_stream t rid r consumer p None [(QueueTimeoutHit, now)] h s)))) = db_txs (sv_db s) @ [row]
     \<and> MIN_CHARGE_MICRO \<le> tx_cost row"
  "sv_db (snd (snd (relay_collect t rid r consumer p created [(QueueTimeoutHit, now)] h s))) = sv_db s"
  by (simp_all add: relay_stream_state stayed_def relay_bill_txs relay_collect_def total_cost_min)

section \<open>At most one charge\<close>

lemma relay_hub:
  assumes "relay env r consumer h s = (res, h', s', es)"
  shows "hub_callbacks h' = hub_callbacks h \<or> hub_callbacks h' = dict_pop (de_request env) (hub_callbacks h)"
    and "db_txs (sv_db s') = db_txs (sv_db s)"
proof -
  have sel: "hub_callbacks k = hub_callbacks h" if "select_provider sk rep m pf mc mx sid h = (x, k)" for sk rep m pf mc mx sid x k
    using select_provider_state [of sk rep m pf mc mx sid h] that by auto
  have send: "hub_callbacks k' = hub_callbacks k" if "send_to_provider now ok p req k = (x, k', ys)" for now ok p req x k k' ys
    using that by (auto simp: send_to_provider_eq Let_def split: if_splits)
  have save: "db_txs (sv_db (save_trace t c n1 n2 u)) = db_txs (sv_db u)" for t c n1 n2 u
    by (auto simp: save_trace_def save_request_outcome_def serialized_write_def prune_outcomes_def ins_outcome_def Let_def
      split: option.split json.split)
  show "hub_callbacks h' = hub_callbacks h \<or> hub_callbacks h' = dict_pop (de_request env) (hub_callbacks h)"
    using assms
    by (auto simp: relay_def Let_def create_response_queue_def remove_response_queue_def
      split: prod.splits sum.splits option.splits if_splits dest!: sel send)
  show "db_txs (sv_db s') = db_txs (sv_db s)"
    using assms by (auto simp: relay_def Let_def save split: prod.splits sum.splits option.splits if_splits)
qed

lemma charges_append: "db_txs db' = db_txs db @ rows \<Longrightarrow> charges rid db' = charges rid db + length (filter (\<lambda>r. tx_request r = rid) rows)"
  by (simp add: charges_def)


section \<open>Who serves a confidential request\<close>

text \<open>In every reachable hub, no confidential provider is offered to consumers, and every provider a
  confidential request is relayed to claims less than the confidential level.\<close>

theorem relay_never_confidential:
  assumes "hub_reachable depth h"
  shows "confidential_offers now h = Inr []
    \<and> (\<forall>env r consumer s p h' s' es. relay env r consumer h s = (Relayed p, h', s', es) \<longrightarrow> trust_claim p \<noteq> ''confidential'')"
proof (intro conjI allI impI)
  have ok: "hub_ok h" using assms by (rule hub_reachable_ok)
  have none: "collect_offers (map (\<lambda>(_, p). confidential_offer now absent_binding p) ps) = Inr []" for ps :: "(string \<times> connected_provider) list"
    by (induction ps) (auto simp: confidential_offer_def absent_binding_def)
  then show "confidential_offers now h = Inr []" by (simp add: confidential_offers_def)
  fix env r consumer s p h' s' es
  assume run: "relay env r consumer h s = (Relayed p, h', s', es)"
  obtain pid h1 where sel: "select_provider (de_select env) (\<lambda>pid. fst (get_score pid (sv_reputation s))) (cf_model r) ''balanced'' ''open'' None
      (Some (cf_session r)) h = (Inr (Some pid), h1)" "map_of (hub_providers h1) pid = Some p"
    using run by (auto simp: relay_def Let_def split: prod.splits sum.splits option.splits if_splits Option.bind_splits)
  have "hub_providers h1 = hub_providers h"
    using select_provider_state [of "de_select env" "\<lambda>pid. fst (get_score pid (sv_reputation s))" "cf_model r" "''balanced''" "''open''" None
      "Some (cf_session r)" h] sel(1) by auto
  then have p: "map_of (hub_providers h) pid = Some p" using sel(2) by simp
  obtain q where q: "map_of (hub_providers h) pid = Some q" "routable (sk_admit (de_select env)) q"
    using select_found [OF ok sel(1)] by blast
  have "\<not> cp_attest_verified p" using ok p by (auto simp: hub_ok_def providers_ok_def)
  then show "trust_claim p \<noteq> ''confidential''"
    using p q by (auto simp: routable_def admitted_def requires_app_attest_def)
qed

section \<open>A sample relay\<close>

lemma sample_relayed:
  "\<exists>h' s' es. relay sample_env sample_confidential ''c'' sample_hub sample_services = (Relayed sample_provider, h', s', es)"
proof -
  let ?rep = "\<lambda>pid. fst (get_score pid (sv_reputation sample_services))"
  let ?sel = "select_provider (de_select sample_env) ?rep (cf_model sample_confidential) ''balanced'' ''open'' None
     (Some (cf_session sample_confidential)) (sample_hub :: bill_callback hub)"
  have t: "rnd (sk_expire (de_select sample_env) - sk_order (de_select sample_env)) \<le> 120"
    by (simp add: sample_env_def sample_clock_def)
  have sane: "\<forall>pid p. map_of (hub_providers (sample_hub :: bill_callback hub)) pid = Some p \<longrightarrow> sane_provider p \<and> 0 \<le> ?rep pid \<and> ?rep pid \<le> 1"
    by (simp add: sample_hub_providers sample_sane sample_services_def sample_scores)
  have p: "map_of (hub_providers (sample_hub :: bill_callback hub)) (provider_name 1) = Some sample_provider"
    by (simp add: sample_hub_providers)
  have fit: "fits (cf_model sample_confidential) OPEN None sample_provider" using sample_fits(1) by (simp add: sample_confidential_def)
  have keys: "hub_keys_ok (sample_hub :: bill_callback hub)" by (rule sample_hub_keys)
  have "\<exists>pid. fst ?sel = Inr (Some pid)"
    using conf_map_open keys
  proof (cases rule: select_cases [where sk = "de_select sample_env" and rep = ?rep and model = "cf_model sample_confidential"
        and pref = "''balanced''" and maxp = None and sid = "Some (cf_session sample_confidential)"])
    case (found pid)
    then show ?thesis by blast
  next
    case missing
    have "\<not> (fits (cf_model sample_confidential) OPEN None sample_provider \<and> has_slot sample_provider)"
      by (rule missing_no_slot [OF keys t sane missing(3) p sample_routable])
    then show ?thesis using fit sample_fits(2) by blast
  qed
  then obtain pid h1 where sel: "?sel = (Inr (Some pid), h1)" by (metis prod.collapse)
  have "map_of (hub_providers (sample_hub :: bill_callback hub)) pid \<noteq> None" using select_found [OF sample_hub_ok sel] by auto
  then have pid: "pid = provider_name 1" by (auto simp: sample_hub_providers split: if_splits)
  have "hub_providers h1 = hub_providers (sample_hub :: bill_callback hub)"
    using select_provider_state [of "de_select sample_env" ?rep "cf_model sample_confidential" "''balanced''" "''open''" None
      "Some (cf_session sample_confidential)" "sample_hub :: bill_callback hub"] sel by auto
  then have p1: "map_of (hub_providers h1) pid = Some sample_provider" using p pid by simp
  have solvent: "get_account ''c'' (sv_db sample_services) = None"
    by (simp add: sample_services_def get_account_def empty_db_def)
  have adm: "admitted now sample_provider" for now
    by (simp add: admitted_def requires_app_attest_def trust_claim_def sample_provider_def sample_caps_def)
  have "de_accepts sample_env x" for x by (simp add: sample_env_def)
  then show ?thesis using sel p1 solvent adm by (simp add: relay_def send_to_provider_eq Let_def)
qed

theorem relay_is_blind_witness:
  "map (reseal [(''ciphertext'', JStr ''other'')]) (snd (snd (snd (relay sample_env sample_confidential ''c'' sample_hub sample_services))))
     = snd (snd (snd (relay sample_env (sample_confidential\<lparr>cf_envelope := [(''ciphertext'', JStr ''other'')]\<rparr>) ''c'' sample_hub sample_services)))
   \<and> fst (relay sample_env (sample_confidential\<lparr>cf_envelope := [(''ciphertext'', JStr ''other'')]\<rparr>) ''c'' sample_hub sample_services) = Relayed sample_provider
   \<and> (\<forall>en l. \<exists>m. confidential_gate (sample_confidential\<lparr>cf_messages := Some []\<rparr>) (Some ''c'') en 0 0 l = (BadRequest m ''plaintext_rejected'', l))"
proof (intro conjI allI)
  let ?e = "[(''ciphertext'', JStr ''other'')]"
  show "map (reseal ?e) (snd (snd (snd (relay sample_env sample_confidential ''c'' sample_hub sample_services))))
     = snd (snd (snd (relay sample_env (sample_confidential\<lparr>cf_envelope := ?e\<rparr>) ''c'' sample_hub sample_services)))"
    "fst (relay sample_env (sample_confidential\<lparr>cf_envelope := ?e\<rparr>) ''c'' sample_hub sample_services) = Relayed sample_provider"
    using relay_is_blind [where env = sample_env and r = sample_confidential and e = ?e and consumer = "''c''"
        and h = sample_hub and s = sample_services] sample_relayed by auto
  fix en l
  show "\<exists>m. confidential_gate (sample_confidential\<lparr>cf_messages := Some []\<rparr>) (Some ''c'') en 0 0 l = (BadRequest m ''plaintext_rejected'', l)"
    using relay_is_blind [where r = "sample_confidential\<lparr>cf_messages := Some []\<rparr>" and caller = "Some ''c''" and en = en and l = l
        and ?t0.0 = 0 and now = 0] by simp
qed


theorem relay_never_confidential_witness:
  "confidential_offers 0 (sample_hub :: bill_callback hub) = Inr [] \<and> trust_claim sample_provider \<noteq> ''confidential''"
proof -
  have "hub_reachable 50 (sample_hub :: bill_callback hub)"
    using hub_reachable.step [OF hub_reachable.start, of 50 "Register sample_registration ''00'' 0 0"] by (simp add: sample_hub_def)
  from relay_never_confidential [OF this, of 0] sample_relayed show ?thesis by blast
qed

end
