(* ===== verification/Agent.thy ===== *)
theory Agent
  imports Protocol ModelRegistry
begin

text \<open>
  The provider's process, \<open>ocip_agent/agent.py\<close>: the manager of the local inference server (start, health,
  restart with backoff), the connection loop with its terminal rejections, the registration it sends, the
  table of running requests, the handling of one request (decrypt, stream from the engine, answer) and the
  attestation evidence. The engine, the network, the operating system and the cipher are parameters; what
  they do on one run is a list of readings. Log lines are left out.
\<close>

section \<open>Rejections\<close>

definition PERMANENT_AUTH_REASONS :: "string list" where
  "PERMANENT_AUTH_REASONS = [''Invalid provider token'',
     ''Provider token required. Create one via POST /v1/admin/provider-tokens'',
     ''Provider token in URL is disabled. Send Authorization: Bearer'',
     ''Self-service provider credentials require Authorization header'',
     ''Provider owner unavailable'',
     ''Provider credential no longer active'',
     ''Provider credential revoked'',
     ''Provider token revoked'']"

text \<open>The close frame that arrived, code and reason; \<open>None\<close> when the connection broke without one.\<close>

definition is_permanent_auth_rejection :: "(int \<times> string) option \<Rightarrow> bool" where
  "is_permanent_auth_rejection received = (case received of
     None \<Rightarrow> False | Some (code, reason) \<Rightarrow> code = 4003 \<and> reason \<in> set PERMANENT_AUTH_REASONS)"

section \<open>The inference server\<close>

datatype process = NoProcess | Running | Exited

record inference_server =
  sm_process :: process
  sm_restarts :: nat
  sm_healthy :: bool
  sm_identity :: "json option"

definition MAX_RESTARTS :: nat where "MAX_RESTARTS = 5"
definition HEALTH_TIMEOUT :: flt where "HEALTH_TIMEOUT = 120"

definition new_server :: inference_server where
  "new_server = \<lparr>sm_process = NoProcess, sm_restarts = 0, sm_healthy = False, sm_identity = None\<rparr>"

text \<open>What one round of the wait sees: the clock, the answer of the health endpoint with the answers of the
  identity and the model endpoints after it (\<open>None\<close> when a request or its decoding fails), and whether the
  process has exited. \<open>ProbeEscapes\<close> is an exception that the loop does not catch.\<close>

datatype probe = ProbeOk "json option" "json option" | ProbeBad | ProbeUnreachable | ProbeEscapes

record wait_round =
  wr_clock :: flt
  wr_probe :: probe
  wr_exited :: bool

definition first_model_id :: "json \<Rightarrow> json option" where
  "first_model_id j = (case j of
     JObj d \<Rightarrow> (case dict_get d ''data'' (JList []) of
       JList (JObj m # _) \<Rightarrow> (let i = dict_get m ''id'' (JStr '''') in if truthy i then Some i else None)
     | _ \<Rightarrow> None)
   | _ \<Rightarrow> None)"

text \<open>\<open>_clean_model_name\<close>; \<open>stem\<close> is \<open>Path(path).stem\<close>.\<close>

definition clean_model_name :: "string \<Rightarrow> string" where
  "clean_model_name stem = (if starts_with ''sha256-'' stem then ''ollama-model'' else stem)"

text \<open>The identity after a successful probe: an identity already known is kept.\<close>

definition resolve_identity :: "string option \<Rightarrow> json option \<Rightarrow> json option \<Rightarrow> json option \<Rightarrow> json option" where
  "resolve_identity stem own models known =
     (let known1 = (case own of Some j \<Rightarrow> (if j = JNull then None else Some j) | None \<Rightarrow> known) in
      if known1 \<noteq> None then known1
      else (case Option.bind models first_model_id of
         Some i \<Rightarrow> Some (JObj [(''name'', i), (''source'', JStr ''v1/models'')])
       | None \<Rightarrow> Some (JObj [(''name'', JStr (case stem of None \<Rightarrow> ''unknown'' | Some s \<Rightarrow> clean_model_name s)),
            (''source'', JStr ''filename'')])))"

datatype start_result = Started | StartFailed string | StartEscaped | StillStarting

text \<open>\<open>_wait_for_health\<close>; an identity that is no object raises when it is logged. A list that ends before the wait does is \<open>StillStarting\<close>.\<close>

fun wait_for_health :: "string option \<Rightarrow> flt \<Rightarrow> wait_round list \<Rightarrow> inference_server \<Rightarrow> start_result \<times> inference_server" where
  "wait_for_health stem start [] s = (StillStarting, s)"
| "wait_for_health stem start (w # ws) s = (
     if \<not> rnd (wr_clock w - start) < HEALTH_TIMEOUT then (StartFailed ''did not become healthy'', s\<lparr>sm_healthy := False\<rparr>)
     else (case wr_probe w of
       ProbeOk own models \<Rightarrow> (let s' = s\<lparr>sm_healthy := True, sm_identity := resolve_identity stem own models (sm_identity s)\<rparr> in
          case sm_identity s' of Some (JObj d) \<Rightarrow> (Started, s'\<lparr>sm_restarts := 0\<rparr>) | _ \<Rightarrow> (StartEscaped, s'))
     | ProbeEscapes \<Rightarrow> (StartEscaped, s)
     | _ \<Rightarrow> if wr_exited w then (StartFailed ''crashed'', s\<lparr>sm_process := Exited, sm_healthy := False\<rparr>)
            else wait_for_health stem start ws s))"

definition start_server :: "string option \<Rightarrow> flt \<Rightarrow> wait_round list \<Rightarrow> inference_server \<Rightarrow> start_result \<times> inference_server" where
  "start_server stem start ws s = (if sm_process s = Running then (Started, s)
     else wait_for_health stem start ws (s\<lparr>sm_process := Running\<rparr>))"

text \<open>The command line: an explicit executable, one found on the path, or the Python server.\<close>

record server_host =
  ht_executable :: "string \<Rightarrow> bool"
  ht_which :: "string option"
  ht_python :: string

definition server_command :: "server_host \<Rightarrow> string \<Rightarrow> string \<Rightarrow> int \<Rightarrow> int \<Rightarrow> string list" where
  "server_command ht explicit model port layers =
     (let found = (if explicit \<noteq> '''' \<and> ht_executable ht explicit then Some explicit else ht_which ht)
      in case found of
        Some exe \<Rightarrow> [exe, ''-m'', model, ''--port'', int_str port, ''-ngl'', int_str layers, ''--host'', ''127.0.0.1'']
      | None \<Rightarrow> [ht_python ht, ''-m'', ''ocip_server.server'', ''--model'', model, ''--port'', int_str port,
          ''--n-gpu-layers'', int_str layers])"

text \<open>\<open>stop\<close>: \<open>reaped\<close> tells that the process ended within the wait; a killed process still counts as running
  at the next poll.\<close>

definition stop_server :: "bool \<Rightarrow> inference_server \<Rightarrow> inference_server" where
  "stop_server reaped s = (if sm_process s = Running
     then s\<lparr>sm_process := (if reaped then Exited else Running), sm_healthy := False\<rparr> else s)"

text \<open>\<open>restart\<close>: the result, the seconds slept before it, and the server.\<close>

definition restart_server :: "string option \<Rightarrow> bool \<Rightarrow> flt \<Rightarrow> wait_round list \<Rightarrow> inference_server
    \<Rightarrow> start_result \<times> nat option \<times> inference_server" where
  "restart_server stem reaped start ws s =
     (let s1 = s\<lparr>sm_restarts := sm_restarts s + 1\<rparr> in
      if MAX_RESTARTS < sm_restarts s1 then (StartFailed ''keeps crashing'', None, s1)
      else (case start_server stem start ws (stop_server reaped s1) of
        (r, s2) \<Rightarrow> (r, Some (min (2 ^ sm_restarts s1) 30), s2)))"

text \<open>\<open>check_health\<close>; \<open>None\<close> when an exception escapes.\<close>

definition check_health :: "probe \<Rightarrow> inference_server \<Rightarrow> bool option \<times> inference_server" where
  "check_health p s = (case p of
     ProbeOk _ _ \<Rightarrow> (Some True, s\<lparr>sm_healthy := True\<rparr>)
   | ProbeEscapes \<Rightarrow> (None, s)
   | _ \<Rightarrow> (Some False, s\<lparr>sm_healthy := False\<rparr>))"

text \<open>The property \<open>is_healthy\<close>; \<open>exited\<close> is the poll of the process.\<close>

definition is_healthy :: "bool \<Rightarrow> inference_server \<Rightarrow> bool \<times> inference_server" where
  "is_healthy exited s = (if sm_process s = NoProcess then (False, s)
     else (let s' = (if exited then s\<lparr>sm_process := Exited, sm_healthy := False\<rparr> else s) in (sm_healthy s', s')))"

section \<open>The health monitor\<close>

text \<open>One round of \<open>_health_monitor\<close>: the probe, and what happens in a restart if there is one.\<close>

record monitor_round =
  mo_probe :: probe
  mo_reaped :: bool
  mo_start :: flt
  mo_waits :: "wait_round list"

datatype monitor = Watching | GaveUp | MonitorDied | Restarting

definition monitor_step :: "string option \<Rightarrow> monitor_round \<Rightarrow> inference_server \<Rightarrow> monitor \<times> nat option \<times> inference_server" where
  "monitor_step stem m s = (case check_health (mo_probe m) s of
     (None, s1) \<Rightarrow> (MonitorDied, None, s1)
   | (Some True, s1) \<Rightarrow> (Watching, None, s1)
   | (Some False, s1) \<Rightarrow> (case restart_server stem (mo_reaped m) (mo_start m) (mo_waits m) s1 of
       (Started, b, s2) \<Rightarrow> (Watching, b, s2)
     | (StartFailed _, b, s2) \<Rightarrow> (GaveUp, b, s2)
     | (StartEscaped, b, s2) \<Rightarrow> (MonitorDied, b, s2)
     | (StillStarting, b, s2) \<Rightarrow> (Restarting, b, s2)))"

fun monitor_run :: "string option \<Rightarrow> monitor_round list \<Rightarrow> inference_server \<Rightarrow> monitor \<times> nat option list \<times> inference_server" where
  "monitor_run stem [] s = (Watching, [], s)"
| "monitor_run stem (m # ms) s = (case monitor_step stem m s of
     (Watching, b, s1) \<Rightarrow> (case monitor_run stem ms s1 of (r, bs, s2) \<Rightarrow> (r, b # bs, s2))
   | (r, b, s1) \<Rightarrow> (r, [b], s1))"

section \<open>The connection loop\<close>

text \<open>How one \<open>_connect_and_serve\<close> ended, with whether the agent was still running before it.\<close>

datatype connection_end = ConnectionDone | ConnectionClosed "(int \<times> string) option" | ConnectionRefused | ConnectionFailed

datatype run_end = RunStopped | RunRejected | RunGoesOn

text \<open>The loop of \<open>run\<close>: the seconds slept after each connection and how it ended.\<close>

fun run_loop :: "(bool \<times> connection_end) list \<Rightarrow> nat list \<times> run_end" where
  "run_loop [] = ([], RunGoesOn)"
| "run_loop ((running, c) # cs) = (if \<not> running then ([], RunStopped)
     else (case c of
       ConnectionClosed f \<Rightarrow> if is_permanent_auth_rejection f then ([], RunRejected)
         else (case run_loop cs of (ws, r) \<Rightarrow> (5 # ws, r))
     | ConnectionRefused \<Rightarrow> (case run_loop cs of (ws, r) \<Rightarrow> (5 # ws, r))
     | ConnectionFailed \<Rightarrow> (case run_loop cs of (ws, r) \<Rightarrow> (10 # ws, r))
     | ConnectionDone \<Rightarrow> (case run_loop cs of (ws, r) \<Rightarrow> (0 # ws, r))))"

text \<open>\<open>run\<close>: nothing is connected before the engine has started; whatever happens, the engine is stopped at the end.\<close>

datatype agent_exit = ExitClean | ExitRejected | ExitCrashed | ExitNotYet

definition agent_run :: "start_result \<Rightarrow> (bool \<times> connection_end) list \<Rightarrow> nat list \<times> agent_exit" where
  "agent_run start cs = (case start of
     Started \<Rightarrow> (case run_loop cs of (ws, r) \<Rightarrow>
        (ws, case r of RunStopped \<Rightarrow> ExitClean | RunRejected \<Rightarrow> ExitRejected | RunGoesOn \<Rightarrow> ExitNotYet))
   | StartFailed _ \<Rightarrow> ([], ExitClean)
   | StartEscaped \<Rightarrow> ([], ExitCrashed)
   | StillStarting \<Rightarrow> ([], ExitNotYet))"

section \<open>Registration\<close>

record agent_config =
  ac_name :: string
  ac_price_in :: flt
  ac_price_out :: flt
  ac_price_cache :: flt
  ac_trust :: string
  ac_max_concurrent :: int
  ac_repo :: string
  ac_model_path :: string
  ac_identity :: trace
  ac_public_key :: string
  ac_hardware :: string

text \<open>\<open>_detect_hardware\<close>; \<open>chip\<close> is what \<open>sysctl\<close> printed, \<open>None\<close> when it failed.\<close>

definition detect_hardware :: "string \<Rightarrow> string \<Rightarrow> string option \<Rightarrow> string" where
  "detect_hardware platform machine chip = (let system = str_lower platform in
     if system = ''darwin'' \<and> machine = ''arm64'' then
       (case map_option str_strip chip of
          Some (c # cs) \<Rightarrow> str_replace '' '' ''-'' (str_lower (str_replace ''Apple '' ''apple-'' (c # cs)))
        | _ \<Rightarrow> ''apple-silicon'')
     else system @ ''-'' @ machine)"

definition trust_of :: "string \<Rightarrow> trust_level option" where
  "trust_of s = find (\<lambda>t. trust_value t = s) [T_OPEN, T_CONTAINED, T_HARDENED, T_CONFIDENTIAL]"

definition model_format :: "agent_config \<Rightarrow> string" where
  "model_format a = (if ends_with ''.gguf'' (ac_model_path a) then ''gguf''
     else if truthy (dict_get (ac_identity a) ''_gguf_version'' JNull) \<or> truthy (dict_get (ac_identity a) ''architecture'' JNull) then ''gguf''
     else '''')"

text \<open>The message sent first; \<open>None\<close> when building it raises (an unknown trust level, or a field of another
  type than the message has).\<close>

definition agent_registration :: "agent_config \<Rightarrow> inference_server \<Rightarrow> register_message option" where
  "agent_registration a s =
     (let server_name = (case sm_identity s of Some (JObj d) \<Rightarrow> dict_get d ''name'' (JStr ''unknown'') | _ \<Rightarrow> JStr ''unknown'')
      in case (dict_get (ac_identity a) ''name'' server_name, trust_of (ac_trust a),
             dict_get (ac_identity a) ''context_length'' (JInt 0),
             if ac_repo a \<noteq> '''' then JStr (ac_repo a) else dict_get (ac_identity a) ''repo_id'' (JStr '''')) of
          (JStr name, Some trust, JInt context, JStr repo) \<Rightarrow> Some
            \<lparr>reg_version = ''0.1.0'', reg_name = ac_name a,
             reg_caps = \<lparr>pc_models = [name], pc_max_concurrent = ac_max_concurrent a, pc_trust = trust, pc_hardware = ac_hardware a,
               pc_memory = 0, pc_tps = 0, pc_price_in = ac_price_in a, pc_price_out = ac_price_out a, pc_price_cache = ac_price_cache a,
               pc_context_length = context, pc_tools = False, pc_vision = False, pc_repo_id = repo, pc_format = model_format a\<rparr>,
             reg_enc_key = ac_public_key a, reg_identity = Some (ac_identity a), reg_attest_key = '''', reg_attest_app = '''',
             reg_attest_env = ''production'', reg_artifact = '''', reg_identity_key = ''''\<rparr>
        | _ \<Rightarrow> None)"

section \<open>Running requests\<close>

text \<open>The table \<open>_active_requests\<close> maps a request id to its task; a task runs on until it reaches its end,
  where its \<open>finally\<close> block removes its request id.\<close>

record agent_tasks =
  tk_active :: "(string, nat) dict"
  tk_running :: "(nat \<times> string) list"
  tk_cancelled :: "nat list"
  tk_next :: nat

datatype task_op = TaskArrives string | TaskCancel string | TaskEnds nat | TasksDropped

fun task_step :: "task_op \<Rightarrow> agent_tasks \<Rightarrow> agent_tasks" where
  "task_step (TaskArrives rid) s = s\<lparr>tk_active := dict_set rid (tk_next s) (tk_active s),
     tk_running := tk_running s @ [(tk_next s, rid)], tk_next := tk_next s + 1\<rparr>"
| "task_step (TaskCancel rid) s = (case map_of (tk_active s) rid of
     None \<Rightarrow> s
   | Some i \<Rightarrow> s\<lparr>tk_cancelled := tk_cancelled s @ [i], tk_active := dict_pop rid (tk_active s)\<rparr>)"
| "task_step (TaskEnds i) s = (case map_of (tk_running s) i of
     None \<Rightarrow> s
   | Some rid \<Rightarrow> s\<lparr>tk_running := dict_pop i (tk_running s), tk_active := dict_pop rid (tk_active s)\<rparr>)"
| "task_step TasksDropped s = s\<lparr>tk_cancelled := tk_cancelled s @ map snd (tk_active s), tk_active := []\<rparr>"

definition no_tasks :: agent_tasks where
  "no_tasks = \<lparr>tk_active = [], tk_running = [], tk_cancelled = [], tk_next = 0\<rparr>"

definition agent_heartbeat :: "agent_tasks \<Rightarrow> string \<Rightarrow> heartbeat_message" where
  "agent_heartbeat s name = \<lparr>hb_active = int (length (tk_active s)), hb_models = [name], hb_memory = 0, hb_cpu = 0\<rparr>"

end
