(* ===== verification/AgentRequest.thy ===== *)
theory AgentRequest
  imports Agent
begin

text \<open>
  The provider's process, \<open>ocip_agent/agent.py\<close>, part two: \<open>_handle_request\<close>, from a request of the
  coordinator over the lines of the local engine's stream to the messages sent back, and
  \<open>_handle_attestation\<close>.
\<close>

section \<open>Parameters\<close>

text \<open>\<open>ag_decrypt\<close> is \<open>decrypt_json(EncryptedPayload.from_dict(body), private_key)\<close>, \<open>ag_encrypt\<close> is
  \<open>encrypt_to_recipient(text, key).to_dict()\<close>, both \<open>None\<close> when they raise; \<open>ag_loads\<close> is \<open>json.loads\<close>, \<open>None\<close> for
  a decoding error; \<open>ag_as_int\<close> is pydantic's conversion of a number field; \<open>ag_failure\<close> is the text of an
  exception raised by a library.\<close>

record agent_env =
  ag_served :: string
  ag_decrypt :: "trace \<Rightarrow> trace option"
  ag_encrypt :: "string \<Rightarrow> string \<Rightarrow> trace option"
  ag_loads :: "string \<Rightarrow> json option"
  ag_as_int :: "json \<Rightarrow> int option"
  ag_failure :: string
  ag_elapsed :: flt

datatype agent_message = AgentChunk response_chunk | AgentDone inference_done | AgentError inference_error

section \<open>Opening the request\<close>

text \<open>The messages and the consumer's key, or the text of the error.\<close>

definition open_request :: "agent_env \<Rightarrow> inference_request \<Rightarrow> string + json \<times> json" where
  "open_request ag req = (
     if ir_model req \<noteq> ''default'' \<and> ir_model req \<noteq> ag_served ag then Inl ''Requested model is not loaded by this provider''
     else (case ir_encrypted req of
       Some (f # fs) \<Rightarrow> (case ag_decrypt ag (f # fs) of
           None \<Rightarrow> Inl (ag_failure ag)
         | Some d \<Rightarrow> (case map_of d ''messages'' of
             None \<Rightarrow> Inl ([CHR 0x27] @ ''messages'' @ [CHR 0x27])
           | Some ms \<Rightarrow> Inr (ms, dict_get d ''consumer_public_key'' JNull)))
     | _ \<Rightarrow> (case ir_messages req of
           Some (m # ms) \<Rightarrow> Inr (JList (map JObj (m # ms)), JNull)
         | _ \<Rightarrow> Inl ''No messages in request'')))"

text \<open>The request to the engine.\<close>

definition engine_request :: "inference_request \<Rightarrow> json \<Rightarrow> trace" where
  "engine_request req messages = [(''messages'', messages), (''max_tokens'', JInt (ir_max_tokens req)),
     (''temperature'', JFloat (ir_temperature req)), (''stream'', JBool True),
     (''stream_options'', JObj [(''include_usage'', JBool True)])]"

section \<open>The engine's stream\<close>

text \<open>What one data object of the stream says: token counts, if it has them, and text, if it has any.
  \<open>None\<close> is an exception (a value of another type than the code expects).\<close>

definition usage_of :: "trace \<Rightarrow> (json \<times> json) option option" where
  "usage_of d = (let u = dict_get d ''usage'' JNull in
     if \<not> truthy u then Some None
     else (case u of
       JObj v \<Rightarrow> (let details = dict_get v ''prompt_tokens_details'' JNull in
          if \<not> truthy details then Some (Some (dict_get v ''prompt_tokens'' (JInt 0), JInt 0))
          else (case details of
            JObj w \<Rightarrow> Some (Some (dict_get v ''prompt_tokens'' (JInt 0), dict_get w ''cached_tokens'' (JInt 0)))
          | _ \<Rightarrow> None))
     | _ \<Rightarrow> None))"

definition content_of :: "trace \<Rightarrow> json option" where
  "content_of d = (let choices = dict_get d ''choices'' (JList []) in
     if \<not> truthy choices then Some JNull
     else (case choices of
       JList (JObj c # _) \<Rightarrow> (case dict_get c ''delta'' (JObj []) of
          JObj delta \<Rightarrow> Some (dict_get delta ''content'' JNull)
        | _ \<Rightarrow> None)
     | _ \<Rightarrow> None))"

text \<open>The message for one piece of text: encrypted to the consumer's key when there is one.\<close>

definition token_message :: "agent_env \<Rightarrow> string \<Rightarrow> json \<Rightarrow> json \<Rightarrow> agent_message option" where
  "token_message ag rid key content = (case content of
     JStr text \<Rightarrow> if truthy key then
         (case key of
            JStr k \<Rightarrow> map_option (\<lambda>sealed. AgentChunk \<lparr>rc_request = rid, rc_token = '''', rc_encrypted = Some sealed, rc_finish = None\<rparr>)
              (ag_encrypt ag text k)
          | _ \<Rightarrow> None)
       else Some (AgentChunk \<lparr>rc_request = rid, rc_token = text, rc_encrypted = None, rc_finish = None\<rparr>)
   | _ \<Rightarrow> None)"

text \<open>The lines of the stream, in order, and how the stream ends after the last: it closes, it breaks, or the
  task is cancelled while waiting for more.\<close>

datatype engine_end = EngineClosed | EngineBroke | TaskCancelled

datatype lines_end = LinesEnded "json \<times> json" nat | LinesRaised | LinesCancelled

fun relay_lines :: "agent_env \<Rightarrow> string \<Rightarrow> json \<Rightarrow> engine_end \<Rightarrow> string list \<Rightarrow> json \<times> json \<Rightarrow> nat \<Rightarrow> agent_message list \<times> lines_end" where
  "relay_lines ag rid key fin [] usage n = ([], case fin of
     EngineClosed \<Rightarrow> LinesEnded usage n | EngineBroke \<Rightarrow> LinesRaised | TaskCancelled \<Rightarrow> LinesCancelled)"
| "relay_lines ag rid key fin (line # lines) usage n = (
     if \<not> starts_with ''data: '' line then relay_lines ag rid key fin lines usage n
     else if drop 6 line = ''[DONE]'' then ([], LinesEnded usage n)
     else (case ag_loads ag (drop 6 line) of
       None \<Rightarrow> relay_lines ag rid key fin lines usage n
     | Some (JObj d) \<Rightarrow> (case usage_of d of
         None \<Rightarrow> ([], LinesRaised)
       | Some u \<Rightarrow> (let usage' = dflt usage u in
           case content_of d of
             None \<Rightarrow> ([], LinesRaised)
           | Some content \<Rightarrow> if \<not> truthy content then relay_lines ag rid key fin lines usage' n
               else (case token_message ag rid key content of
                 None \<Rightarrow> ([], LinesRaised)
               | Some m \<Rightarrow> (case relay_lines ag rid key fin lines usage' (Suc n) of (ms, e) \<Rightarrow> (m # ms, e)))))
     | Some _ \<Rightarrow> ([], LinesRaised)))"

section \<open>Handling a request\<close>

definition error_message_of :: "string \<Rightarrow> string \<Rightarrow> agent_message" where
  "error_message_of rid text = AgentError \<lparr>er_request = rid, er_error = text\<rparr>"

text \<open>The completion; a count that is not a number is an error before it is sent, and a cached count that is a
  string of digits passes the conversion but raises in the log line after it.\<close>

definition done_messages :: "agent_env \<Rightarrow> string \<Rightarrow> json \<times> json \<Rightarrow> nat \<Rightarrow> agent_message list" where
  "done_messages ag rid usage n = (case (ag_as_int ag (fst usage), ag_as_int ag (snd usage)) of
     (Some input, Some cached) \<Rightarrow> AgentDone \<lparr>dn_request = rid, dn_tokens = int n, dn_input = input, dn_cached = cached,
        dn_seconds = ag_elapsed ag, dn_served = Some (ag_served ag)\<rparr>
        # (case snd usage of JStr _ \<Rightarrow> [error_message_of rid (ag_failure ag)] | _ \<Rightarrow> [])
   | _ \<Rightarrow> [error_message_of rid (ag_failure ag)])"

text \<open>The messages of \<open>_handle_request\<close> on a connection that takes them all.\<close>

definition handle_request :: "agent_env \<Rightarrow> inference_request \<Rightarrow> engine_end \<Rightarrow> string list \<Rightarrow> agent_message list" where
  "handle_request ag req fin lines = (let rid = ir_request req in
     case open_request ag req of
       Inl e \<Rightarrow> [error_message_of rid e]
     | Inr (messages, key) \<Rightarrow> (case relay_lines ag rid key fin lines (JInt 0, JInt 0) 0 of
         (ms, LinesEnded usage n) \<Rightarrow> ms @ done_messages ag rid usage n
       | (ms, LinesRaised) \<Rightarrow> ms @ [error_message_of rid (ag_failure ag)]
       | (ms, LinesCancelled) \<Rightarrow> ms))"

text \<open>On a connection that breaks after \<open>k\<close> messages the send raises, and so does the attempt to report it.\<close>

definition sent_messages :: "nat option \<Rightarrow> agent_message list \<Rightarrow> agent_message list" where
  "sent_messages breaks ms = (case breaks of None \<Rightarrow> ms | Some k \<Rightarrow> take k ms)"

section \<open>Attestation\<close>

text \<open>What the handler reads from the system: the platform, whether \<open>csrutil\<close> ran and what it printed, the
  hash of a frozen agent and the output of \<open>codesign\<close>, and the hash of the server's binary (empty when any
  step of finding it fails).\<close>

record agent_system =
  ay_darwin :: bool
  ay_csrutil :: "string option"
  ay_frozen :: bool
  ay_agent_hash :: "string option"
  ay_codesign :: "string option"
  ay_server_hash :: string
  ay_platform :: string
  ay_os :: string

definition attestation_evidence :: "agent_system \<Rightarrow> string \<Rightarrow> attestation_response" where
  "attestation_evidence sy nonce =
     (let sip = (ay_darwin sy \<and> (case ay_csrutil sy of Some out \<Rightarrow> str_contains ''enabled'' out | None \<Rightarrow> False));
          hash = (if ay_frozen sy then ay_agent_hash sy else None);
          hardened = (hash \<noteq> None \<and> (case ay_codesign sy of Some err \<Rightarrow> str_contains ''runtime'' err | None \<Rightarrow> False))
      in \<lparr>ar_nonce = nonce, ar_key_id = '''', ar_app_id = '''', ar_environment = ''production'', ar_object = '''', ar_assertion = '''',
          ar_client_data = '''', ar_sip = sip, ar_secure_boot = False, ar_hardware = False, ar_os = ay_os sy,
          ar_agent_hash = dflt '''' hash, ar_server_hash = ay_server_hash sy, ar_hardened = hardened,
          ar_deny_attach = (hash \<noteq> None), ar_platform = ay_platform sy, ar_enc_key = '''', ar_artifact = '''',
          ar_identity_key = '''', ar_version = ''0.1.0''\<rparr>)"

end
