(* ===== verification/AgentLaws.thy ===== *)
theory AgentLaws
  imports AgentRequest ConfidentialLaws SessionLaws OperatorLaws
begin

text \<open>
  What the provider's process guarantees, and what it guarantees together with the coordinator: one answer per
  request, sealed when the consumer gave a key; the consumer's messages reach the engine and the engine's text
  reaches the consumer; a rejected credential ends the process and nothing else does; the wait for the engine
  ends; the limits of the restart counter; the count in the heartbeat; the evidence that passes the
  coordinator's check.
\<close>

section \<open>One answer per request\<close>

definition chunk_for :: "string \<Rightarrow> agent_message \<Rightarrow> bool" where
  "chunk_for rid m \<longleftrightarrow> (case m of AgentChunk c \<Rightarrow> rc_request c = rid | _ \<Rightarrow> False)"

definition ending_of :: "string \<Rightarrow> string \<Rightarrow> nat \<Rightarrow> agent_message \<Rightarrow> bool" where
  "ending_of rid served n m \<longleftrightarrow> (case m of
     AgentChunk _ \<Rightarrow> False
   | AgentDone d \<Rightarrow> dn_request d = rid \<and> dn_tokens d = int n \<and> dn_served d = Some served
   | AgentError e \<Rightarrow> er_request e = rid)"

lemma token_message_chunk: "token_message ag rid key content = Some m \<Longrightarrow> chunk_for rid m"
  by (auto simp: token_message_def chunk_for_def split: json.splits if_splits)

lemma relay_line_cases:
  obtains (stop) e where "relay_lines ag rid key fin (line # lines) usage n = ([], e)" "e = LinesEnded usage n \<or> e = LinesRaised"
  | (skip) usage' where "relay_lines ag rid key fin (line # lines) usage n = relay_lines ag rid key fin lines usage' n"
  | (emit) usage' content m where "token_message ag rid key content = Some m"
      "relay_lines ag rid key fin (line # lines) usage n
         = (m # fst (relay_lines ag rid key fin lines usage' (Suc n)), snd (relay_lines ag rid key fin lines usage' (Suc n)))"
proof (cases "\<not> starts_with ''data: '' line \<or> drop 6 line \<noteq> ''[DONE]'' \<and> ag_loads ag (drop 6 line) = None")
  case True
  show ?thesis by (rule skip [of usage]) (use True in \<open>auto\<close>)
next
  case data: False
  show ?thesis
  proof (cases "drop 6 line = ''[DONE]''")
    case True
    show ?thesis by (rule stop [of "LinesEnded usage n"]) (use data True in \<open>simp_all\<close>)
  next
    case False
    with data obtain j where j: "ag_loads ag (drop 6 line) = Some j" by auto
    show ?thesis
    proof (cases "\<exists>d u content. j = JObj d \<and> usage_of d = Some u \<and> content_of d = Some content
        \<and> (truthy content \<longrightarrow> token_message ag rid key content \<noteq> None)")
      case False
      show ?thesis by (rule stop [of LinesRaised])
        (use False data j \<open>drop 6 line \<noteq> ''[DONE]''\<close> in \<open>auto split: json.splits option.splits simp: Let_def\<close>)
    next
      case True
      then obtain d u content where d: "j = JObj d" "usage_of d = Some u" "content_of d = Some content"
        "truthy content \<longrightarrow> token_message ag rid key content \<noteq> None" by blast
      show ?thesis
      proof (cases "truthy content")
        case True
        with d obtain m where m: "token_message ag rid key content = Some m" by auto
        show ?thesis by (rule emit [OF m, of "dflt usage u"])
          (use m True d data j \<open>drop 6 line \<noteq> ''[DONE]''\<close> in \<open>simp add: split_beta Let_def\<close>)
      next
        case False
        show ?thesis by (rule skip [of "dflt usage u"])
          (use False d data j \<open>drop 6 line \<noteq> ''[DONE]''\<close> in \<open>simp add: Let_def\<close>)
      qed
    qed
  qed
qed

lemma relay_lines_shape:
  "relay_lines ag rid key fin lines usage n = (ms, e) \<Longrightarrow>
     list_all (\<lambda>m. \<exists>content. token_message ag rid key content = Some m) ms
     \<and> (\<forall>u k. e = LinesEnded u k \<longrightarrow> k = n + length ms) \<and> (e = LinesCancelled \<longrightarrow> fin = TaskCancelled)"
proof (induction lines arbitrary: usage n ms e)
  case Nil
  then show ?case by (auto split: engine_end.splits)
next
  case (Cons line lines)
  show ?case
  proof (cases rule: relay_line_cases [of ag rid key fin line lines usage n])
    case (stop e')
    then show ?thesis using Cons.prems by auto
  next
    case (skip usage')
    then show ?thesis using Cons.prems Cons.IH by metis
  next
    case (emit usage' content m)
    obtain ms' e' where r: "relay_lines ag rid key fin lines usage' (Suc n) = (ms', e')" by (cases "relay_lines ag rid key fin lines usage' (Suc n)")
    with emit Cons.prems have "ms = m # ms'" "e = e'" by auto
    then show ?thesis using Cons.IH [OF r] emit(1) by auto
  qed
qed

lemma relay_lines_chunks:
  assumes "relay_lines ag rid key fin lines usage n = (ms, e)" shows "list_all (chunk_for rid) ms"
  using relay_lines_shape [OF assms] token_message_chunk by (fastforce simp: list_all_iff)

text \<open>A completion or an error, or both when the engine reports a count as a string.\<close>

definition endings_of :: "string \<Rightarrow> string \<Rightarrow> nat \<Rightarrow> agent_message list \<Rightarrow> bool" where
  "endings_of rid served n ms \<longleftrightarrow> (\<exists>m. ms = [m] \<and> ending_of rid served n m)
     \<or> (\<exists>d e. ms = [AgentDone d, AgentError e] \<and> ending_of rid served n (AgentDone d) \<and> er_request e = rid)"

lemma endings_one: "ending_of rid served n m \<Longrightarrow> endings_of rid served n [m]"
  by (simp add: endings_of_def)

lemma done_messages_ending: "endings_of rid (ag_served ag) n (done_messages ag rid usage n)"
  by (auto simp: done_messages_def endings_of_def ending_of_def error_message_of_def split: option.split json.split)

lemma endings_not_empty: "endings_of rid served n ms \<Longrightarrow> ms \<noteq> []"
  by (auto simp: endings_of_def)

text \<open>The agent answers a request with chunks of that request and one ending after them, a completion that
  counts exactly those chunks and names the served model or an error (both when the engine sent a count as a string); there is no
  ending only when the task was cancelled.\<close>

theorem agent_answers_once:
  "\<exists>chunks ending. handle_request ag req fin lines = chunks @ ending \<and> list_all (chunk_for (ir_request req)) chunks
     \<and> (if ending = [] then fin = TaskCancelled
        else endings_of (ir_request req) (ag_served ag) (length chunks) ending)"
proof (cases "open_request ag req")
  case (Inl e)
  then show ?thesis
    by (intro exI [of _ "[]"] exI [of _ "[error_message_of (ir_request req) e]"])
      (simp add: handle_request_def endings_one ending_of_def error_message_of_def)
next
  case (Inr k)
  obtain messages key where k: "k = (messages, key)" by (cases k)
  obtain ms e where r: "relay_lines ag (ir_request req) key fin lines (JInt 0, JInt 0) 0 = (ms, e)"
    by (cases "relay_lines ag (ir_request req) key fin lines (JInt 0, JInt 0) 0")
  note all = relay_lines_chunks [OF r] and shape = relay_lines_shape [OF r]
  show ?thesis
  proof (cases e)
    case (LinesEnded usage n)
    with shape have "n = length ms" by simp
    note ends = done_messages_ending [of "ir_request req" ag n usage]
    show ?thesis
      by (rule exI [of _ ms], rule exI [of _ "done_messages ag (ir_request req) usage n"])
        (use all ends endings_not_empty [OF ends] \<open>n = length ms\<close> in \<open>simp add: handle_request_def Inr k r LinesEnded\<close>)
  next
    case LinesRaised
    then show ?thesis using all
      by (intro exI [of _ ms] exI [of _ "[error_message_of (ir_request req) (ag_failure ag)]"])
        (simp add: handle_request_def Inr k r endings_one ending_of_def error_message_of_def)
  next
    case LinesCancelled
    then have "handle_request ag req fin lines = ms" by (simp add: handle_request_def Inr k r)
    then show ?thesis using all shape LinesCancelled by (intro exI [of _ ms] exI [of _ "[]"]) simp
  qed
qed

section \<open>Sealed answers\<close>

lemma token_message_sealed:
  "token_message ag rid (JStr k) content = Some (AgentChunk c) \<Longrightarrow> k \<noteq> '''' \<Longrightarrow>
     rc_token c = '''' \<and> (\<exists>text sealed. rc_encrypted c = Some sealed \<and> ag_encrypt ag text k = Some sealed)"
  by (auto simp: token_message_def split: json.splits if_splits)

text \<open>When the consumer put a key into the sealed request, no chunk of the answer carries text: each is the
  encryption of a piece of text to that key.\<close>

theorem agent_seals_answers:
  assumes "ir_encrypted req = Some body" "body \<noteq> []" "ag_decrypt ag body = Some d"
    "map_of d ''consumer_public_key'' = Some (JStr k)" "k \<noteq> ''''"
    "AgentChunk c \<in> set (handle_request ag req fin lines)"
  shows "rc_token c = '''' \<and> (\<exists>text sealed. rc_encrypted c = Some sealed \<and> ag_encrypt ag text k = Some sealed)"
proof -
  have key: "snd x = JStr k" if "open_request ag req = Inr x" for x
    using that assms(1-4) by (auto simp: open_request_def dict_get_def split: if_splits option.splits list.splits)
  have "\<exists>content. token_message ag (ir_request req) (JStr k) content = Some (AgentChunk c)"
  proof (cases "open_request ag req")
    case (Inl e)
    then show ?thesis using assms(6) by (simp add: handle_request_def error_message_of_def)
  next
    case (Inr x)
    obtain ms e where r: "relay_lines ag (ir_request req) (JStr k) fin lines (JInt 0, JInt 0) 0 = (ms, e)"
      by (cases "relay_lines ag (ir_request req) (JStr k) fin lines (JInt 0, JInt 0) 0")
    have "AgentChunk c \<in> set ms" using assms(6) r key [OF Inr] Inr
      by (cases x) (auto simp: handle_request_def Let_def done_messages_def error_message_of_def split: lines_end.splits option.splits)
    then show ?thesis using relay_lines_shape [OF r] by (auto simp: list_all_iff)
  qed
  then show ?thesis using token_message_sealed assms(5) by blast
qed


section \<open>From the consumer to the engine and back\<close>

text \<open>The streams of an engine and what they say. \<open>engine_says ag u lines ts v\<close>: the lines, read with the
  usage \<open>u\<close> known so far, say the pieces of text \<open>ts\<close> and leave the usage \<open>v\<close>. A stream ends where it is
  closed or at its end marker, whatever follows that; a line that is no data line (the empty line that ends
  an event, a comment, an event name) and a data line that is no JSON say nothing; a data object carries a
  piece of text, or none (the role, the finish reason, an empty piece), and may report the usage, of which
  the last report counts.\<close>

inductive engine_says :: "agent_env \<Rightarrow> json \<times> json \<Rightarrow> string list \<Rightarrow> string list \<Rightarrow> json \<times> json \<Rightarrow> bool" for ag where
  closed: "engine_says ag u [] [] u"
| marker: "engine_says ag u (''data: [DONE]'' # rest) [] u"
| no_data: "\<not> starts_with ''data: '' line \<Longrightarrow> engine_says ag u lines ts v \<Longrightarrow> engine_says ag u (line # lines) ts v"
| garbled: "ag_loads ag t = None \<Longrightarrow> t \<noteq> ''[DONE]'' \<Longrightarrow> engine_says ag u lines ts v \<Longrightarrow> engine_says ag u ((''data: '' @ t) # lines) ts v"
| silent: "ag_loads ag t = Some (JObj d) \<Longrightarrow> t \<noteq> ''[DONE]'' \<Longrightarrow> usage_of d = Some w \<Longrightarrow> content_of d = Some c \<Longrightarrow> \<not> truthy c
    \<Longrightarrow> engine_says ag (dflt u w) lines ts v \<Longrightarrow> engine_says ag u ((''data: '' @ t) # lines) ts v"
| piece: "ag_loads ag t = Some (JObj d) \<Longrightarrow> t \<noteq> ''[DONE]'' \<Longrightarrow> usage_of d = Some w \<Longrightarrow> content_of d = Some (JStr p) \<Longrightarrow> p \<noteq> ''''
    \<Longrightarrow> engine_says ag (dflt u w) lines ts v \<Longrightarrow> engine_says ag u ((''data: '' @ t) # lines) (p # ts) v"

lemma starts_data: "starts_with ''data: '' (''data: '' @ t)"
  by (simp add: starts_with_def)

lemma relay_says:
  assumes "engine_says ag u lines ts v" "\<And>t. t \<in> set ts \<Longrightarrow> token_message ag rid key (JStr t) = Some (f t)"
  shows "relay_lines ag rid key EngineClosed lines u n = (map f ts, LinesEnded v (n + length ts))"
  using assms
proof (induction arbitrary: n rule: engine_says.induct)
  case (piece t d w p u lines ts v)
  then have "relay_lines ag rid key EngineClosed lines (dflt u w) (Suc n) = (map f ts, LinesEnded v (Suc n + length ts))" by simp
  moreover have "token_message ag rid key (JStr p) = Some (f p)" using piece.prems by simp
  ultimately show ?case using piece.hyps starts_data [of t] by (simp add: Let_def)
qed (simp_all add: starts_data Let_def starts_with_def)

text \<open>What the hub puts into the request's queue for a message of the agent.\<close>

fun arrival_of :: "agent_message \<Rightarrow> arrival" where
  "arrival_of (AgentChunk c) = Arrived (Chunk c)"
| "arrival_of (AgentDone d) = Arrived (Done d)"
| "arrival_of (AgentError e) = Arrived (Failed e)"

definition arrivals_of :: "agent_message list \<Rightarrow> (arrival \<times> flt) list" where
  "arrivals_of ms = map (\<lambda>m. (arrival_of m, 0)) ms"

lemma arrivals_of_append [simp]: "arrivals_of (ms @ ms') = arrivals_of ms @ arrivals_of ms'"
  by (simp add: arrivals_of_def)

lemma collect_chunks:
  "collect_loop (arrivals_of (map (\<lambda>t. AgentChunk (f t)) ts) @ xs) toks = collect_loop xs (toks @ map (rc_token \<circ> f) ts)"
  by (induction ts arbitrary: toks) (simp_all add: arrivals_of_def)

text \<open>The provider's key opens what the consumer's side seals for it, and no sealed body is empty.\<close>

definition opens :: "agent_env \<Rightarrow> dispatch_env \<Rightarrow> string \<Rightarrow> bool" where
  "opens ag env key \<longleftrightarrow> (\<forall>d body. de_encrypt env d key = Some body \<longrightarrow> body \<noteq> [] \<and> ag_decrypt ag body = Some d)"

definition plain_key :: "string option \<Rightarrow> bool" where
  "plain_key k \<longleftrightarrow> k = None \<or> k = Some ''''"

lemma request_for_opened:
  assumes "request_for env r p = Some req" "opens ag env (cp_enc_key p)" "cr_messages r \<noteq> []"
    "REQUEST_MODEL r \<in> {''default'', ag_served ag}"
  shows "open_request ag req = Inr (JList (map JObj (messages_json r)),
      if cp_enc_key p = '''' \<or> plain_key (cr_public_key r) then JNull else JStr (the (cr_public_key r)))"
proof -
  have model: "\<not> (ir_model req \<noteq> ''default'' \<and> ir_model req \<noteq> ag_served ag)"
    using assms(1,4) by (auto simp: request_for_def plain_request_def split: if_splits)
  have ms: "messages_json r \<noteq> []" using assms(3) by (simp add: messages_json_def)
  show ?thesis
  proof (cases "cp_enc_key p = ''''")
    case True
    then have "ir_encrypted req = None" "ir_messages req = Some (messages_json r)"
      using assms(1) by (auto simp: request_for_def plain_request_def)
    then show ?thesis using model ms True by (cases "messages_json r") (simp_all add: open_request_def)
  next
    case False
    then obtain body where b: "de_encrypt env (encrypt_payload r) (cp_enc_key p) = Some body" "ir_encrypted req = Some body"
      using assms(1) by (auto simp: request_for_def)
    with assms(2) obtain f fs where "body = f # fs" "ag_decrypt ag body = Some (encrypt_payload r)"
      by (cases body) (auto simp: opens_def)
    then show ?thesis using model b False
      by (auto simp: open_request_def encrypt_payload_def dict_get_def plain_key_def split: option.splits list.splits)
  qed
qed

lemma stream_chunks:
  "stream_loop rid model caps (arrivals_of (map (\<lambda>t. AgentChunk (f t)) ts) @ xs) n
     = (map (\<lambda>t. token_event rid model caps 0 (f t)) ts @ fst (stream_loop rid model caps xs (n + length ts)),
        snd (stream_loop rid model caps xs (n + length ts)))"
  by (induction ts arbitrary: n) (simp_all add: arrivals_of_def split_beta)

definition plain_chunk :: "string \<Rightarrow> string \<Rightarrow> response_chunk" where
  "plain_chunk rid t = \<lparr>rc_request = rid, rc_token = t, rc_encrypted = None, rc_finish = None\<rparr>"

definition sealed_chunk_of :: "agent_env \<Rightarrow> string \<Rightarrow> string \<Rightarrow> string \<Rightarrow> response_chunk" where
  "sealed_chunk_of ag rid k t = \<lparr>rc_request = rid, rc_token = '''', rc_encrypted = ag_encrypt ag t k, rc_finish = None\<rparr>"

definition agent_done :: "agent_env \<Rightarrow> string \<Rightarrow> nat \<Rightarrow> int \<Rightarrow> int \<Rightarrow> inference_done" where
  "agent_done ag rid n input cached = \<lparr>dn_request = rid, dn_tokens = int n, dn_input = input, dn_cached = cached,
     dn_seconds = ag_elapsed ag, dn_served = Some (ag_served ag)\<rparr>"

text \<open>The usage a stream reports, as the completion carries it: both counts are numbers.\<close>

definition counts :: "agent_env \<Rightarrow> json \<times> json \<Rightarrow> int \<Rightarrow> int \<Rightarrow> bool" where
  "counts ag v input cached \<longleftrightarrow> ag_as_int ag (fst v) = Some input \<and> ag_as_int ag (snd v) = Some cached \<and> (\<forall>t. snd v \<noteq> JStr t)"

lemma handled_says:
  assumes "open_request ag req = Inr (messages, key)" "engine_says ag (JInt 0, JInt 0) lines ts v" "counts ag v input cached"
    "\<And>t. t \<in> set ts \<Longrightarrow> token_message ag (ir_request req) key (JStr t) = Some (AgentChunk (f t))"
  shows "handle_request ag req EngineClosed lines
      = map (\<lambda>t. AgentChunk (f t)) ts @ [AgentDone (agent_done ag (ir_request req) (length ts) input cached)]"
proof -
  have "relay_lines ag (ir_request req) key EngineClosed lines (JInt 0, JInt 0) 0
      = (map (\<lambda>t. AgentChunk (f t)) ts, LinesEnded v (0 + length ts))"
    by (rule relay_says) (use assms(2,4) in auto)
  then show ?thesis using assms(1,3)
    by (auto simp: handle_request_def done_messages_def agent_done_def counts_def Let_def split: json.split)
qed

lemma event_tokens_stream [simp]:
  "event_tokens (token_event rid model caps now c) = sealed_of c" "event_tokens (stop_event rid model caps now m) = []"
  by (auto simp: token_event_def stop_event_def chunk_head_def sealed_of_def delta_choice_def split: option.split list.split)


text \<open>C15: The same with the consumer's key, at a provider that has a key itself: the events carry no text, and
  unsealing their tokens gives what the engine said, piece by piece. A provider without a key gets the
  messages in the clear and the consumer's key not at all, so there the answer is in the clear too.\<close>

theorem sealed_answer:
  assumes "request_for env r p = Some req" "opens ag env (cp_enc_key p)" "cp_enc_key p \<noteq> ''''" "cr_messages r \<noteq> []"
    "REQUEST_MODEL r \<in> {''default'', ag_served ag}" "cr_public_key r = Some k" "k \<noteq> ''''"
    "engine_says ag (JInt 0, JInt 0) lines ts v" "counts ag v input cached"
    "\<And>t. t \<in> set ts \<Longrightarrow> \<exists>body. ag_encrypt ag t k = Some body \<and> body \<noteq> [] \<and> unseal body = Some t"
  shows "(let (es, ending) = stream_loop rid model caps (arrivals_of (handle_request ag req EngineClosed lines)) 0 in
        concat (map event_text es) = '''' \<and> map unseal (concat (map event_tokens es)) = map Some ts
      \<and> ending = Some (StreamSuccess, length ts))"
proof -
  have o: "open_request ag req = Inr (JList (map JObj (messages_json r)), JStr k)"
    using request_for_opened [OF assms(1,2,4,5)] assms(3,6,7) by (simp add: plain_key_def)
  have h: "handle_request ag req EngineClosed lines = map (\<lambda>t. AgentChunk (sealed_chunk_of ag (ir_request req) k t)) ts
      @ [AgentDone (agent_done ag (ir_request req) (length ts) input cached)]"
    by (rule handled_says [OF o assms(8,9)]) (use assms(7,10) in \<open>fastforce simp: token_message_def sealed_chunk_of_def\<close>)
  have u: "map unseal (sealed_of (sealed_chunk_of ag (ir_request req) k t)) = [Some t]" if "t \<in> set ts" for t
    using assms(10) [OF that] by (auto simp: sealed_of_def sealed_chunk_of_def split: list.split)
  have "concat (map (\<lambda>t. map unseal (sealed_of (sealed_chunk_of ag (ir_request req) k t))) us) = map Some us" if "set us \<subseteq> set ts" for us
    using that by (induction us) (simp_all add: u)
  from this [of ts] show ?thesis
    by (simp add: h stream_chunks Let_def comp_def map_concat sealed_chunk_of_def) (simp add: arrivals_of_def)
qed

section \<open>A sample provider with a key\<close>

definition echo_object :: "string \<Rightarrow> json" where
  "echo_object t = JObj [(''choices'', JList [JObj [(''delta'', JObj [(''content'', JStr t)])]])]"

definition usage_object :: json where
  "usage_object = JObj [(''choices'', JList []), (''usage'', JObj [(''prompt_tokens'', JInt 5),
     (''prompt_tokens_details'', JObj [(''cached_tokens'', JInt 2)])])]"

definition sample_agent :: agent_env where
  "sample_agent = \<lparr>ag_served = ''m'', ag_decrypt = (\<lambda>b. Some (tl b)), ag_encrypt = (\<lambda>t k. Some [(k, JStr t)]),
     ag_loads = (\<lambda>s. if s = ''{'' then None else if s = ''usage'' then Some usage_object else Some (echo_object s)),
     ag_as_int = (\<lambda>j. case j of JInt i \<Rightarrow> Some i | _ \<Rightarrow> None), ag_failure = ''x'', ag_elapsed = 1\<rparr>"

definition keyed_env :: dispatch_env where
  "keyed_env = sample_env\<lparr>de_encrypt := (\<lambda>d k. Some ((''to'', JStr k) # d))\<rparr>"

definition keyed_provider :: connected_provider where
  "keyed_provider = sample_provider\<lparr>cp_enc_key := ''K''\<rparr>"

definition keyed_chat :: chat_request where
  "keyed_chat = sample_chat\<lparr>cr_public_key := Some ''C''\<rparr>"

definition keyed_request :: "chat_request \<Rightarrow> inference_request" where
  "keyed_request r = (plain_request ''r1'' r)\<lparr>ir_messages := None, ir_encrypted := Some ((''to'', JStr ''K'') # encrypt_payload r)\<rparr>"

lemma keyed_facts:
  "request_for keyed_env r keyed_provider = Some (keyed_request r)" "opens sample_agent keyed_env (cp_enc_key keyed_provider)"
  "cp_enc_key keyed_provider = ''K''" "ag_served sample_agent = ''m''"
  by (simp_all add: request_for_def keyed_env_def keyed_provider_def sample_env_def keyed_request_def opens_def sample_agent_def)

lemma keyed_chats:
  "cr_messages sample_chat \<noteq> []" "REQUEST_MODEL sample_chat = ''m''" "plain_key (cr_public_key sample_chat)"
  "cr_messages keyed_chat \<noteq> []" "REQUEST_MODEL keyed_chat = ''m''" "cr_public_key keyed_chat = Some ''C''"
  by (simp_all add: keyed_chat_def sample_chat_def REQUEST_MODEL_def plain_key_def)

text \<open>A stream with two pieces, the separators, a comment, a broken line, the usage report and the end marker.\<close>

definition sample_stream :: "string list" where
  "sample_stream = [''data: Hel'', '''', '': ping'', ''data: {'', ''data: lo'', '''', ''data: usage'', '''', ''data: [DONE]'', '''']"

lemma says_piece:
  "engine_says sample_agent u lines ts v \<Longrightarrow> t \<notin> {'''', ''{'', ''usage'', ''[DONE]''}
     \<Longrightarrow> engine_says sample_agent u ((''data: '' @ t) # lines) (t # ts) v"
  by (rule engine_says.piece [where d = "[(''choices'', JList [JObj [(''delta'', JObj [(''content'', JStr t)])]])]" and w = None])
    (simp_all add: sample_agent_def echo_object_def usage_of_def content_of_def dict_get_def)

lemma says_usage:
  "engine_says sample_agent (JInt 5, JInt 2) lines ts v \<Longrightarrow> engine_says sample_agent u (''data: usage'' # lines) ts v"
  using engine_says.silent [where ag = sample_agent and t = "''usage''" and w = "Some (JInt 5, JInt 2)" and c = JNull
      and d = "[(''choices'', JList []), (''usage'', JObj [(''prompt_tokens'', JInt 5), (''prompt_tokens_details'', JObj [(''cached_tokens'', JInt 2)])])]"
      and u = u and lines = lines and ts = ts and v = v]
  by (simp add: sample_agent_def usage_object_def usage_of_def content_of_def dict_get_def)

lemma says_nothing:
  "engine_says sample_agent u lines ts v \<Longrightarrow> engine_says sample_agent u ('''' # lines) ts v"
  "engine_says sample_agent u lines ts v \<Longrightarrow> engine_says sample_agent u ('': ping'' # lines) ts v"
  "engine_says sample_agent u lines ts v \<Longrightarrow> engine_says sample_agent u (''data: {'' # lines) ts v"
  using engine_says.garbled [where ag = sample_agent and t = "''{''" and u = u and lines = lines and ts = ts and v = v]
  by (auto intro: engine_says.no_data simp: starts_with_def sample_agent_def)

lemma sample_says: "engine_says sample_agent (JInt 0, JInt 0) sample_stream [''Hel'', ''lo''] (JInt 5, JInt 2)"
proof -
  have "engine_says sample_agent (JInt 0, JInt 0) [''data: usage'', '''', ''data: [DONE]'', ''''] [] (JInt 5, JInt 2)"
    by (intro says_usage says_nothing engine_says.marker)
  from says_piece [OF says_nothing(1) [OF this], of "''lo''"]
  have "engine_says sample_agent (JInt 0, JInt 0) (''data: lo'' # '''' # [''data: usage'', '''', ''data: [DONE]'', '''']) [''lo''] (JInt 5, JInt 2)" by simp
  from says_piece [OF says_nothing(1) [OF says_nothing(2) [OF says_nothing(3) [OF this]]], of "''Hel''"]
  show ?thesis by (simp add: sample_stream_def)
qed

lemma sample_counts: "counts sample_agent (JInt 5, JInt 2) 5 2" "counts sample_agent (JInt 0, JInt 0) 0 0"
  by (simp_all add: counts_def sample_agent_def)


definition sample_unseal :: "trace \<Rightarrow> string option" where
  "sample_unseal b = (case b of [(k, JStr t)] \<Rightarrow> Some t | _ \<Rightarrow> None)"

theorem sealed_answer_witness:
  "map sample_unseal (concat (map event_tokens (fst (stream_loop ''r1'' ''m'' sample_caps (arrivals_of
     (handle_request sample_agent (keyed_request keyed_chat) EngineClosed sample_stream)) 0)))) = [Some ''Hel'', Some ''lo'']"
proof -
  have "\<exists>body. ag_encrypt sample_agent t ''C'' = Some body \<and> body \<noteq> [] \<and> sample_unseal body = Some t" for t
    by (simp add: sample_agent_def sample_unseal_def)
  from sealed_answer [OF keyed_facts(1) keyed_facts(2) _ keyed_chats(4) _ keyed_chats(6) _ sample_says sample_counts(1) this,
      where rid = "''r1''" and model = "''m''" and caps = sample_caps] keyed_chats(5) keyed_facts(3,4)
  show ?thesis by (simp add: Let_def split_beta)
qed

theorem agent_seals_answers_witness:
  "\<exists>sealed. ag_encrypt sample_agent ''Hel'' ''C'' = Some sealed
     \<and> AgentChunk \<lparr>rc_request = ''r1'', rc_token = '''', rc_encrypted = Some sealed, rc_finish = None\<rparr>
         \<in> set (handle_request sample_agent (keyed_request keyed_chat) EngineClosed [''data: Hel''])
     \<and> (\<forall>c. AgentChunk c \<in> set (handle_request sample_agent (keyed_request keyed_chat) EngineClosed [''data: Hel'']) \<longrightarrow> rc_token c = '''')"
proof -
  have o: "open_request sample_agent (keyed_request keyed_chat) = Inr (JList (map JObj (messages_json keyed_chat)), JStr ''C'')"
    using request_for_opened [OF keyed_facts(1) keyed_facts(2) keyed_chats(4)] keyed_chats(5,6) keyed_facts(3,4) by (simp add: plain_key_def)
  have "engine_says sample_agent (JInt 0, JInt 0) [''data: Hel''] [''Hel''] (JInt 0, JInt 0)"
    using says_piece [OF engine_says.closed, of "''Hel''"] by simp
  then have h: "handle_request sample_agent (keyed_request keyed_chat) EngineClosed [''data: Hel'']
      = map (\<lambda>t. AgentChunk (sealed_chunk_of sample_agent (ir_request (keyed_request keyed_chat)) ''C'' t)) [''Hel'']
        @ [AgentDone (agent_done sample_agent (ir_request (keyed_request keyed_chat)) (length [''Hel'']) 0 0)]"
    by (rule handled_says [OF o _ sample_counts(2)]) (simp add: token_message_def sealed_chunk_of_def sample_agent_def)
  have "rc_token c = ''''" if "AgentChunk c \<in> set (handle_request sample_agent (keyed_request keyed_chat) EngineClosed [''data: Hel''])" for c
    using agent_seals_answers [OF _ _ _ _ _ that, of "(''to'', JStr ''K'') # encrypt_payload keyed_chat" "encrypt_payload keyed_chat" "''C''"]
    by (simp add: keyed_request_def sample_agent_def encrypt_payload_def keyed_chat_def)
  moreover have "sealed_chunk_of sample_agent (ir_request (keyed_request keyed_chat)) ''C'' ''Hel''
      = \<lparr>rc_request = ''r1'', rc_token = '''', rc_encrypted = Some [(''C'', JStr ''Hel'')], rc_finish = None\<rparr>"
    by (simp add: sealed_chunk_of_def sample_agent_def keyed_request_def plain_request_def)
  moreover have "ag_encrypt sample_agent ''Hel'' ''C'' = Some [(''C'', JStr ''Hel'')]" by (simp add: sample_agent_def)
  ultimately show ?thesis using h by (intro exI [of _ "[(''C'', JStr ''Hel'')]"]) simp
qed

section \<open>Rejected credentials\<close>

text \<open>The close frames of the coordinator's sessions.\<close>

lemma authenticate_frame:
  assumes "fst (authenticate env hk t1 t2 db) = Inl (CloseFrame c reason)"
  shows "c = 4003 \<and> is_permanent_auth_rejection (Some (c, reason))"
proof -
  have "c = 4003 \<and> reason \<in> {''Provider token in URL is disabled. Send Authorization: Bearer'',
     ''Self-service provider credentials require Authorization header'', ''Provider owner unavailable'', ''Invalid provider token'',
     ''Provider token required. Create one via POST /v1/admin/provider-tokens''}"
    using assms by (auto simp: authenticate_def presented_token_def Let_def split: sum.splits option.splits prod.splits if_splits)
  then show ?thesis by (auto simp: is_permanent_auth_rejection_def PERMANENT_AUTH_REASONS_def)
qed

lemma admit_frame: "fst (admit_attempt info now g) = Some (CloseFrame c reason) \<Longrightarrow> c = 4008 \<or> c = 1013"
  by (auto simp: admit_attempt_def split: prod.splits bool.splits)

lemma other_codes: "c \<noteq> 4003 \<Longrightarrow> \<not> is_permanent_auth_rejection (Some (c, reason))"
  by (simp add: is_permanent_auth_rejection_def)

lemma open_frame:
  assumes "CloseFrame c reason \<in> set (snd (open_session env i hk clk sys))"
  shows "is_permanent_auth_rejection (Some (c, reason)) \<longleftrightarrow> c = 4003"
proof (cases "authenticate env hk (clk 0) (clk 1) (sy_db sys)")
  case a: (Pair r db)
  show ?thesis
  proof (cases r)
    case (Inl f)
    then have "f = CloseFrame c reason" using assms a by (simp add: open_session_def del: One_nat_def)
    with Inl a have "fst (authenticate env hk (clk 0) (clk 1) (sy_db sys)) = Inl (CloseFrame c reason)" by (simp del: One_nat_def)
    from authenticate_frame [OF this] show ?thesis by blast
  next
    case (Inr info)
    obtain x g where x: "admit_attempt info (clk 2) (sy_guard sys) = (x, g)" by (cases "admit_attempt info (clk 2) (sy_guard sys)")
    then have "x = Some (CloseFrame c reason)"
      using assms a Inr by (cases x) (simp_all add: open_session_def del: One_nat_def)
    then have "c = 4008 \<or> c = 1013" using admit_frame [of info "clk 2" "sy_guard sys" c reason] x by simp
    then have "c \<noteq> 4003" by auto
    then show ?thesis using other_codes by simp
  qed
qed

lemma session_frames:
  "CloseFrame c reason \<in> set (snd (open_session env i hk clk sys)) \<Longrightarrow> is_permanent_auth_rejection (Some (c, reason)) \<longleftrightarrow> c = 4003"
  "CloseFrame c reason \<in> set (snd (no_registration i timeout sys)) \<Longrightarrow> is_permanent_auth_rejection (Some (c, reason)) \<longleftrightarrow> c = 4003"
  "CloseFrame c reason \<in> set (snd (first_frame env i info headers raw hex devhex clk sys)) \<Longrightarrow> is_permanent_auth_rejection (Some (c, reason)) \<longleftrightarrow> c = 4003"
    apply (rule open_frame, assumption)
   apply (simp add: no_registration_def is_permanent_auth_rejection_def split: if_splits)
  apply (auto simp: first_frame_def is_permanent_auth_rejection_def PERMANENT_AUTH_REASONS_def Let_def split: option.splits if_splits prod.splits)
  done

text \<open>The agent gives up exactly on the coordinator's refusals of its credential: of the frames with which a session
  ends before it is registered, those with code 4003 end the process and every other one (too many attempts,
  too many pending sessions, a bad or missing registration) leads to another attempt after five seconds; the
  two revocations of a running session end it too, and a kick by the operator does not.\<close>

theorem rejections_are_terminal:
  assumes "CloseFrame c reason \<in> set (snd (open_session env i hk clk sys)) \<union> set (snd (no_registration i timeout sys))
      \<union> set (snd (first_frame env i info headers raw hex devhex clk sys))"
  shows "run_loop ((True, ConnectionClosed (Some (c, reason))) # cs)
      = (if c = 4003 then ([], RunRejected) else (5 # fst (run_loop cs), snd (run_loop cs)))
    \<and> run_loop ((True, ConnectionClosed (Some (4003, ''Provider token revoked''))) # cs) = ([], RunRejected)
    \<and> run_loop ((True, ConnectionClosed (Some (4003, ''Provider credential revoked''))) # cs) = ([], RunRejected)
    \<and> run_loop ((True, ConnectionClosed (Some (4003, ''Disconnected by operator''))) # cs) = (5 # fst (run_loop cs), snd (run_loop cs))"
proof -
  have "is_permanent_auth_rejection (Some (c, reason)) \<longleftrightarrow> c = 4003" using assms by (elim UnE) (erule session_frames)+
  then show ?thesis
    by (simp add: split_beta) (simp add: is_permanent_auth_rejection_def PERMANENT_AUTH_REASONS_def)
qed

theorem rejections_are_terminal_witness:
  "run_loop [(True, ConnectionClosed (Some (4008, ''Registration timeout'')))] = ([5], RunGoesOn)"
  using rejections_are_terminal [where c = 4008 and reason = "''Registration timeout''" and timeout = True and cs = "[]"
      and env = sample_session_env and i = 0 and hk = sample_handshake and clk = "\<lambda>_. 0" and sys = "new_system 50 sample_services []"
      and info = None and headers = "[]" and raw = "''''" and hex = "''''" and devhex = "''''"]
  by (simp add: no_registration_def)

text \<open>A suspended owner's connection is closed with a reason that is not in the list, but the next handshake is
  refused with one that is: a suspension of any length ends the process.\<close>

lemma suspension_ends_agent:
  "run_loop [(True, ConnectionClosed (Some (4003, ''Provider owner suspended''))), (True, ConnectionClosed (Some (4003, ''Provider owner unavailable'')))]
     = ([5], RunRejected)"
  by (simp add: is_permanent_auth_rejection_def PERMANENT_AUTH_REASONS_def)

section \<open>The engine\<close>

lemma wait_ends_at:
  "i < length ws \<Longrightarrow> HEALTH_TIMEOUT \<le> rnd (wr_clock (ws ! i) - start) \<Longrightarrow> fst (wait_for_health stem start ws s) \<noteq> StillStarting"
  by (induction ws arbitrary: i) (auto simp: nth_Cons Let_def split: nat.splits probe.splits option.splits json.splits)

lemma rnd_timeout: "rnd HEALTH_TIMEOUT = HEALTH_TIMEOUT"
proof (rule rnd_exact)
  show "representable HEALTH_TIMEOUT"
    unfolding representable_def HEALTH_TIMEOUT_def by (rule exI [of _ 120], rule exI [of _ 0]) simp
qed

lemma wait_result:
  "wait_for_health stem start ws s = (r, s') \<Longrightarrow> (case r of
       Started \<Rightarrow> sm_healthy s' \<and> sm_restarts s' = 0 \<and> sm_identity s' \<noteq> None
     | StartFailed _ \<Rightarrow> \<not> sm_healthy s' \<and> sm_restarts s' = sm_restarts s
     | _ \<Rightarrow> sm_restarts s' = sm_restarts s)"
  by (induction ws) (auto simp: Let_def split: probe.splits option.splits json.splits if_splits)

text \<open>C40: The wait for the engine ends: when at least a second passes per round, 121 rounds are enough, and then the
  engine is healthy with a known identity and a cleared restart counter, or the start failed and the engine
  counts as unhealthy, or an exception the loop does not catch ended it.\<close>

theorem health_wait_ends:
  assumes "121 \<le> length ws" "\<forall>i < length ws. start + of_nat i \<le> wr_clock (ws ! i)"
    and "wait_for_health stem start ws s = (r, s')"
  shows "(r = Started \<and> sm_healthy s' \<and> sm_restarts s' = 0 \<and> sm_identity s' \<noteq> None)
    \<or> (\<exists>e. r = StartFailed e \<and> sm_healthy s' = False) \<or> r = StartEscaped"
proof -
  have "start + of_nat 120 \<le> wr_clock (ws ! 120)" by (rule assms(2) [rule_format]) (use assms(1) in simp)
  then have "HEALTH_TIMEOUT \<le> wr_clock (ws ! 120) - start" by (simp add: HEALTH_TIMEOUT_def)
  then have "HEALTH_TIMEOUT \<le> rnd (wr_clock (ws ! 120) - start)" using rnd_monotone rnd_timeout by metis
  with wait_ends_at [of 120 ws start stem s] assms(1,3) have "r \<noteq> StillStarting" by simp
  with wait_result [OF assms(3)] show ?thesis by (cases r) simp_all
qed

theorem health_wait_ends_witness:
  "fst (wait_for_health None 0 (map (\<lambda>i. \<lparr>wr_clock = of_nat i, wr_probe = ProbeUnreachable, wr_exited = False\<rparr>) [0..<121]) new_server) \<noteq> StillStarting"
proof -
  let ?ws = "map (\<lambda>i. \<lparr>wr_clock = of_nat i, wr_probe = ProbeUnreachable, wr_exited = False\<rparr>) [0..<121]"
  obtain r s' where w: "wait_for_health None 0 ?ws new_server = (r, s')" by (cases "wait_for_health None 0 ?ws new_server")
  have "121 \<le> length ?ws" by simp
  moreover have "\<forall>i < length ?ws. (0::flt) + of_nat i \<le> wr_clock (?ws ! i)" by simp
  ultimately show ?thesis using health_wait_ends [OF _ _ w] w by auto
qed

lemma restart_result:
  assumes "restart_server stem True start ws s = (r, b, s')" "sm_restarts s = 0"
  shows "b = Some 2 \<and> (if r = Started then sm_restarts s' = 0 else sm_restarts s' = 1)"
proof -
  define s0 where "s0 = stop_server True (s\<lparr>sm_restarts := 1\<rparr>)"
  define s1 where "s1 = s0\<lparr>sm_process := Running\<rparr>"
  have "sm_process s0 \<noteq> Running" "sm_restarts s1 = 1" by (simp_all add: s0_def s1_def stop_server_def)
  moreover have "wait_for_health stem start ws s1 = (r, s')" "b = Some 2"
    using assms calculation(1) s0_def [symmetric] s1_def [symmetric]
    by (simp_all add: restart_server_def MAX_RESTARTS_def start_server_def Let_def split: prod.splits)
  ultimately show ?thesis using wait_result [of stem start ws s1 r s'] by (cases r) simp_all
qed

lemma check_health_restarts: "sm_restarts (snd (check_health p s)) = sm_restarts s"
  by (simp add: check_health_def split: probe.split)

lemma monitor_step_result:
  assumes "monitor_step stem m s = (r, b, s')" "sm_restarts s = 0" "mo_reaped m"
  shows "b \<in> {None, Some 2} \<and> sm_restarts s' \<le> 1 \<and> (r = Watching \<longrightarrow> sm_restarts s' = 0) \<and> (r = GaveUp \<longrightarrow> b = Some 2)"
proof -
  obtain ok s1 where c: "check_health (mo_probe m) s = (ok, s1)" by (cases "check_health (mo_probe m) s")
  with check_health_restarts [of "mo_probe m" s] assms(2) have s1: "sm_restarts s1 = 0" by simp
  obtain r1 b1 s2 where r: "restart_server stem True (mo_start m) (mo_waits m) s1 = (r1, b1, s2)"
    by (cases "restart_server stem True (mo_start m) (mo_waits m) s1")
  note res = restart_result [OF r s1]
  show ?thesis using assms(1,3) res r s1 c
    by (cases r1; auto simp: monitor_step_def split: option.splits bool.splits)
qed

lemma monitor_run_nonempty: "monitor_run stem ms s = (r, [], s') \<Longrightarrow> r = Watching"
  by (cases ms) (auto split: prod.splits monitor.splits)

text \<open>The restart counter never grows. As long as a stopped engine is gone when it is restarted, the monitor
  always restarts after two seconds and with the counter at one: a successful restart clears it and a failed
  one ends the monitor, so neither the growing delay nor the limit of five restarts is ever reached.\<close>

theorem restarts_never_accumulate:
  assumes "list_all mo_reaped ms" "sm_restarts s = 0" "monitor_run stem ms s = (r, bs, s')"
  shows "set bs \<subseteq> {None, Some 2} \<and> sm_restarts s' \<le> 1 \<and> (if r = GaveUp then last bs = Some 2 else r = Watching \<longrightarrow> sm_restarts s' = 0)"
  using assms
proof (induction ms arbitrary: s bs r s')
  case Nil
  then show ?case by auto
next
  case (Cons m ms)
  obtain r1 b s1 where m: "monitor_step stem m s = (r1, b, s1)" by (cases "monitor_step stem m s")
  have step: "b \<in> {None, Some 2} \<and> sm_restarts s1 \<le> 1 \<and> (r1 = Watching \<longrightarrow> sm_restarts s1 = 0) \<and> (r1 = GaveUp \<longrightarrow> b = Some 2)"
    using monitor_step_result [OF m] Cons.prems by simp
  show ?case
  proof (cases "r1 = Watching")
    case True
    obtain r2 bs2 s2 where rest: "monitor_run stem ms s1 = (r2, bs2, s2)" by (cases "monitor_run stem ms s1")
    have "bs = b # bs2" "r = r2" "s' = s2" using Cons.prems(3) m rest True by simp_all
    moreover have "r2 = GaveUp \<longrightarrow> bs2 \<noteq> []" using rest monitor_run_nonempty by blast
    ultimately show ?thesis using Cons.IH [OF _ _ rest] Cons.prems(1) step True by (auto split: if_splits)
  next
    case False
    then have "bs = [b]" "r = r1" "s' = s1" using Cons.prems(3) m by (cases r1; simp)+
    then show ?thesis using step False by auto
  qed
qed

text \<open>An engine that has to be killed still counts as running at the next poll: the restart succeeds without a start.\<close>

lemma unreaped_restart:
  "sm_process s = Running \<Longrightarrow> sm_restarts s < MAX_RESTARTS \<Longrightarrow>
     fst (restart_server stem False start ws s) = Started \<and> sm_process (snd (snd (restart_server stem False start ws s))) = Running
     \<and> sm_healthy (snd (snd (restart_server stem False start ws s))) = False"
  by (simp add: restart_server_def stop_server_def start_server_def Let_def)

definition failing_round :: monitor_round where
  "failing_round = \<lparr>mo_probe = ProbeUnreachable, mo_reaped = True, mo_start = 0,
     mo_waits = [\<lparr>wr_clock = 0, wr_probe = ProbeUnreachable, wr_exited = True\<rparr>]\<rparr>"

lemma failing_run: "\<exists>s'. monitor_run None [failing_round] new_server = (GaveUp, [Some 2], s')"
  by (simp add: failing_round_def monitor_step_def check_health_def restart_server_def MAX_RESTARTS_def stop_server_def start_server_def
      new_server_def HEALTH_TIMEOUT_def Let_def)

theorem restarts_never_accumulate_witness:
  "\<exists>s'. monitor_run None [failing_round] new_server = (GaveUp, [Some 2], s') \<and> sm_restarts s' \<le> 1"
proof -
  obtain s' where m: "monitor_run None [failing_round] new_server = (GaveUp, [Some 2], s')" using failing_run by blast
  have "list_all mo_reaped [failing_round]" "sm_restarts new_server = 0" by (simp_all add: failing_round_def new_server_def)
  from restarts_never_accumulate [OF this m] m show ?thesis by blast
qed

section \<open>The table of running requests\<close>

definition tasks_ok :: "agent_tasks \<Rightarrow> bool" where
  "tasks_ok s \<longleftrightarrow> dict_ok (tk_active s) \<and> dict_ok (tk_running s) \<and> (\<forall>(i, rid) \<in> set (tk_running s). i < tk_next s)
     \<and> prod.swap ` set (tk_active s) \<subseteq> set (tk_running s)"

lemma tasks_step: "tasks_ok s \<Longrightarrow> tasks_ok (task_step x s)"
proof (cases x)
  case (TaskArrives rid)
  assume ok: "tasks_ok s"
  then have "tk_next s \<notin> set (dict_keys (tk_running s))" by (auto simp: tasks_ok_def)
  moreover have "prod.swap ` set (dict_set rid (tk_next s) (tk_active s)) \<subseteq> set (tk_running s @ [(tk_next s, rid)])"
  proof (intro image_subsetI)
    fix y assume "y \<in> set (dict_set rid (tk_next s) (tk_active s))"
    then have "y = (rid, tk_next s) \<or> y \<in> set (tk_active s)" using set_dict_set_subset by fast
    then show "prod.swap y \<in> set (tk_running s @ [(tk_next s, rid)])" using ok by (auto simp: tasks_ok_def image_subset_iff)
  qed
  moreover have "\<forall>(i, r) \<in> set (tk_running s @ [(tk_next s, rid)]). i < tk_next s + 1" using ok by (fastforce simp: tasks_ok_def)
  moreover have "dict_ok (tk_running s @ [(tk_next s, rid)])"
    using ok \<open>tk_next s \<notin> set (dict_keys (tk_running s))\<close> by (simp add: tasks_ok_def dict_ok_def)
  ultimately show ?thesis using ok TaskArrives by (simp add: tasks_ok_def)
next
  case (TaskCancel rid)
  assume "tasks_ok s"
  then show ?thesis using TaskCancel set_dict_pop_subset [of rid "tk_active s"] by (auto simp: tasks_ok_def split: option.split)
next
  case (TaskEnds i)
  assume ok: "tasks_ok s"
  show ?thesis
  proof (cases "map_of (tk_running s) i")
    case None
    then show ?thesis using ok TaskEnds by simp
  next
    case (Some rid)
    have sub: "prod.swap ` set (dict_pop rid (tk_active s)) \<subseteq> set (dict_pop i (tk_running s))"
    proof
      fix y assume "y \<in> prod.swap ` set (dict_pop rid (tk_active s))"
      then obtain r j where y: "y = (j, r)" "(r, j) \<in> set (tk_active s)" "r \<noteq> rid" by (auto simp: AList.delete_eq)
      then have "(j, r) \<in> set (tk_running s)" using ok by (force simp: tasks_ok_def)
      moreover have "map_of (tk_running s) j = Some r" using calculation ok dict_ok_value by (fastforce simp: tasks_ok_def)
      then have "j \<noteq> i" using Some y(3) by auto
      ultimately show "y \<in> set (dict_pop i (tk_running s))" using y(1) by (auto simp: AList.delete_eq)
    qed
    then show ?thesis using ok TaskEnds Some set_dict_pop_subset [of i "tk_running s"] by (auto simp: tasks_ok_def)
  qed
next
  case TasksDropped
  assume "tasks_ok s"
  then show ?thesis using TasksDropped by (simp add: tasks_ok_def)
qed

lemma tasks_run: "tasks_ok (foldl (\<lambda>s x. task_step x s) no_tasks xs)"
  by (induction xs rule: rev_induct) (simp_all add: tasks_step, simp add: tasks_ok_def no_tasks_def)

text \<open>The heartbeat never reports more requests than the agent is working on, after any arrivals (repeated request
  ids included), cancellations, ends and lost connections, and each entry of the table names a running task of its request.\<close>

theorem heartbeat_bounded:
  "let s = foldl (\<lambda>s x. task_step x s) no_tasks xs in
     hb_active (agent_heartbeat s name) \<le> int (length (tk_running s))
     \<and> list_all (\<lambda>(rid, i). map_of (tk_running s) i = Some rid) (tk_active s)"
proof -
  define s where "s = foldl (\<lambda>s x. task_step x s) no_tasks xs"
  have ok: "dict_ok (tk_active s)" "dict_ok (tk_running s)" "prod.swap ` set (tk_active s) \<subseteq> set (tk_running s)"
    using tasks_run [of xs] by (simp_all add: tasks_ok_def s_def)
  have "distinct (tk_active s)" using ok(1) by (simp add: dict_ok_def distinct_map)
  then have "length (tk_active s) = card (prod.swap ` set (tk_active s))" by (simp add: card_image distinct_card)
  also have "\<dots> \<le> card (set (tk_running s))" using ok(3) by (simp add: card_mono)
  also have "\<dots> \<le> length (tk_running s)" by (rule card_length)
  finally have "length (tk_active s) \<le> length (tk_running s)" .
  moreover have "map_of (tk_running s) i = Some rid" if "(rid, i) \<in> set (tk_active s)" for rid i
  proof -
    have "(i, rid) \<in> set (tk_running s)" using that ok(3) by (auto simp: image_subset_iff)
    then show ?thesis by (simp add: map_of_is_SomeI ok(2) [unfolded dict_ok_def])
  qed
  ultimately show ?thesis unfolding s_def [symmetric] by (auto simp: agent_heartbeat_def list_all_iff Let_def)
qed

section \<open>Attestation\<close>

text \<open>What an honest agent needs to pass as hardened.\<close>

definition hardened_system :: "agent_system \<Rightarrow> bool" where
  "hardened_system sy \<longleftrightarrow> ay_darwin sy \<and> (\<exists>out. ay_csrutil sy = Some out \<and> str_contains ''enabled'' out)
     \<and> ay_frozen sy \<and> (\<exists>h. ay_agent_hash sy = Some h \<and> h \<noteq> '''') \<and> (\<exists>err. ay_codesign sy = Some err \<and> str_contains ''runtime'' err)"

lemma evidence_issues:
  "attestation_issues ''hardened'' (attestation_evidence sy nonce) = [] \<longleftrightarrow> hardened_system sy"
  "attestation_issues ''confidential'' (attestation_evidence sy nonce) \<noteq> []"
  by (auto simp: attestation_issues_def attestation_evidence_def hardened_system_def Let_def dflt_def split: option.splits if_splits)

text \<open>An agent that answers the coordinator's challenge passes at the open and contained levels always, at the
  hardened level exactly when its system is hardened (integrity protection reported as enabled, a frozen
  agent with a hash, the runtime flag), and at the confidential level never.\<close>

theorem honest_evidence:
  assumes "cp_nonce p = Some nonce" "nonce \<noteq> ''''"
  shows "cp_att_status (judge_attestation (attestation_evidence sy nonce) now p)
    = (case pc_trust (cp_caps p) of T_CONFIDENTIAL \<Rightarrow> ''degraded''
       | T_HARDENED \<Rightarrow> if hardened_system sy then ''passed'' else ''degraded'' | _ \<Rightarrow> ''passed'')"
proof -
  have n: "nonce_open p" "Some (ar_nonce (attestation_evidence sy nonce)) = cp_nonce p"
    using assms by (simp_all add: nonce_open_def attestation_evidence_def Let_def)
  have other: "attestation_issues t (attestation_evidence sy nonce) = []" if "t \<noteq> ''hardened''" "t \<noteq> ''confidential''" for t
    using that by (simp add: attestation_issues_def)
  show ?thesis using n evidence_issues [of sy nonce] other
    by (cases "pc_trust (cp_caps p)") (auto simp: judge_attestation_def trust_claim_def degrade_def Let_def)
qed

definition hardened_mac :: agent_system where
  "hardened_mac = \<lparr>ay_darwin = True, ay_csrutil = Some ''System Integrity Protection status: enabled.'', ay_frozen = True,
     ay_agent_hash = Some ''ab'', ay_codesign = Some ''flags=0x10000(runtime)'', ay_server_hash = '''', ay_platform = ''darwin-arm64'', ay_os = ''macOS''\<rparr>"

lemma hardened_mac_ok: "hardened_system hardened_mac"
  unfolding hardened_system_def hardened_mac_def by simp code_simp

theorem honest_evidence_witness:
  "cp_att_status (judge_attestation (attestation_evidence hardened_mac ''n'') 0
     (sample_provider\<lparr>cp_nonce := Some ''n'', cp_caps := sample_caps\<lparr>pc_trust := T_HARDENED\<rparr>\<rparr>)) = ''passed''"
  using honest_evidence [of "sample_provider\<lparr>cp_nonce := Some ''n'', cp_caps := sample_caps\<lparr>pc_trust := T_HARDENED\<rparr>\<rparr>" "''n''" hardened_mac 0]
    hardened_mac_ok by simp

text \<open>A custom configuration of the integrity protection prints the word as well, for the parts that are still on.\<close>

lemma custom_configuration_counts:
  "str_contains ''enabled'' (''System Integrity Protection status: unknown (Custom Configuration).''
     @ '' Kext Signing: disabled Filesystem Protections: disabled NVRAM Protections: enabled'')"
  by code_simp

end
