(* ===== verification/ModelCatalog.thy ===== *)
theory ModelCatalog
  imports CountryActivity
begin

text \<open>
  \<open>coordinator/model_catalog.py\<close>: the structured form of a model name. The two searches with regular
  expressions are written out as the leftmost match of a matcher at each position; what the matcher
  does at one position is the greedy reading, which is the only one that can succeed for these patterns.
  The laws say which parts of a name the code can see.
\<close>

section \<open>The tables\<close>

definition FAMILIES :: "(string \<times> string) list" where
  "FAMILIES = [(''llama'', ''Llama''), (''qwen'', ''Qwen''), (''mistral'', ''Mistral''), (''gemma'', ''Gemma''),
     (''phi'', ''Phi''), (''deepseek'', ''DeepSeek''), (''yi'', ''Yi''), (''codellama'', ''CodeLlama''),
     (''starcoder'', ''StarCoder''), (''falcon'', ''Falcon''), (''vicuna'', ''Vicuna''), (''command'', ''Command-R''),
     (''mpt'', ''MPT''), (''olmo'', ''OLMo''), (''claude'', ''Claude''), (''gpt'', ''GPT''), (''gemini'', ''Gemini''),
     (''nova'', ''Nova''), (''grok'', ''Grok''), (''hermes'', ''Hermes''), (''glm'', ''GLM''), (''seed'', ''Seed''),
     (''ernie'', ''ERNIE''), (''internlm'', ''InternLM''), (''jamba'', ''Jamba''), (''dbrx'', ''DBRX''),
     (''arctic'', ''Arctic''), (''nemotron'', ''Nemotron''), (''aya'', ''Aya'')]"

definition VARIANT_KEYWORDS :: "(string \<times> string) list" where
  "VARIANT_KEYWORDS = [(''instruct'', ''Instruct''), (''chat'', ''Chat''), (''code'', ''Code''), (''base'', ''Base''),
     (''coder'', ''Coder''), (''math'', ''Math''), (''vision'', ''Vision'')]"

definition QUANT_PATTERNS :: "(string \<times> string) list" where
  "QUANT_PATTERNS = [(''q4_k_m'', ''Q4_K_M''), (''q4_k_s'', ''Q4_K_S''), (''q4_0'', ''Q4_0''), (''q4_1'', ''Q4_1''),
     (''q5_k_m'', ''Q5_K_M''), (''q5_k_s'', ''Q5_K_S''), (''q5_0'', ''Q5_0''), (''q5_1'', ''Q5_1''),
     (''q6_k'', ''Q6_K''), (''q8_0'', ''Q8_0''), (''q8_k'', ''Q8_K''),
     (''q2_k'', ''Q2_K''), (''q3_k_s'', ''Q3_K_S''), (''q3_k_m'', ''Q3_K_M''), (''q3_k_l'', ''Q3_K_L''),
     (''f16'', ''FP16''), (''f32'', ''FP32''), (''fp16'', ''FP16''), (''bf16'', ''BF16''),
     (''awq'', ''AWQ''), (''gptq'', ''GPTQ''), (''exl2'', ''EXL2'')]"

definition GGUF_FILE_TYPE_MAP :: "(int \<times> string) list" where
  "GGUF_FILE_TYPE_MAP = [(0, ''FP32''), (1, ''FP16''), (2, ''Q4_0''), (3, ''Q4_1''), (6, ''Q5_0''),
     (7, ''Q5_1''), (8, ''Q8_0''), (9, ''Q8_1''), (10, ''Q2_K''), (11, ''Q3_K_S''),
     (12, ''Q3_K_M''), (13, ''Q3_K_L''), (14, ''Q4_K_S''), (15, ''Q4_K_M''),
     (16, ''Q5_K_S''), (17, ''Q5_K_M''), (18, ''Q6_K''), (19, ''Q8_K'')]"

section \<open>Patterns\<close>

definition digit_char :: "char \<Rightarrow> bool" where
  "digit_char c = (let n = (of_char c :: nat) in 48 \<le> n \<and> n \<le> 57)"

text \<open>The characters of \<open>\w\<close>.\<close>

definition word_char :: "char \<Rightarrow> bool" where
  "word_char c = (let n = (of_char c :: nat) in digit_char c \<or> 65 \<le> n \<and> n \<le> 90 \<or> 97 \<le> n \<and> n \<le> 122 \<or> n = 95
     \<or> n \<in> {170, 178, 179, 181, 185, 186, 188, 189, 190} \<or> 192 \<le> n \<and> n \<noteq> 215 \<and> n \<noteq> 247)"

definition boundary :: "string \<Rightarrow> bool" where
  "boundary rest = (case rest of [] \<Rightarrow> True | c # _ \<Rightarrow> \<not> word_char c)"

text \<open>\<open>re.search\<close>: the result at the first position where the matcher succeeds.\<close>

fun leftmost :: "(string \<Rightarrow> 'a option) \<Rightarrow> string \<Rightarrow> 'a option" where
  "leftmost m [] = m []"
| "leftmost m (c # cs) = (case m (c # cs) of Some x \<Rightarrow> Some x | None \<Rightarrow> leftmost m cs)"

text \<open>\<open>\d+\.?\d*\<close>: the number at the front and the rest.\<close>

definition number_prefix :: "string \<Rightarrow> (string \<times> string) option" where
  "number_prefix s = (let d = takeWhile digit_char s; r = dropWhile digit_char s in
     if d = [] then None
     else (case r of
       c # r' \<Rightarrow> if c = CHR ''.'' then Some (d @ [c] @ takeWhile digit_char r', dropWhile digit_char r') else Some (d, r)
     | [] \<Rightarrow> Some (d, r)))"

text \<open>\<open>(\d+\.?\d*)b\b\<close>.\<close>

definition match_size :: "string \<Rightarrow> string option" where
  "match_size s = (case number_prefix s of
     Some (n, c # rest) \<Rightarrow> if c = CHR ''b'' \<and> boundary rest then Some n else None
   | _ \<Rightarrow> None)"

text \<open>\<open>(\d+)x(\d+)b\<close>.\<close>

definition match_mixture :: "string \<Rightarrow> (string \<times> string) option" where
  "match_mixture s = (let d = takeWhile digit_char s in
     if d = [] then None
     else (case dropWhile digit_char s of
       x # r \<Rightarrow> (let e = takeWhile digit_char r in
         if x = CHR ''x'' \<and> e \<noteq> [] \<and> take 1 (dropWhile digit_char r) = ''b'' then Some (d, e) else None)
     | [] \<Rightarrow> None))"

section \<open>Parsing a name\<close>

definition name_text :: "string \<Rightarrow> string" where
  "name_text name = map (\<lambda>c. if c = CHR ''-'' \<or> c = CHR ''_'' \<or> c = CHR ''/'' then CHR '' '' else c) (str_lower name)"

definition first_key :: "(string \<times> string) list \<Rightarrow> string \<Rightarrow> (string \<times> string) option" where
  "first_key table s = find (\<lambda>(k, _). str_contains k s) table"

definition detect_size :: "string \<Rightarrow> string" where
  "detect_size s = (case leftmost match_size s of
     Some n \<Rightarrow> n @ ''B''
   | None \<Rightarrow> (case leftmost match_mixture s of Some (a, b) \<Rightarrow> a @ ''x'' @ b @ ''B'' | None \<Rightarrow> ''''))"

definition detect_quant :: "string \<Rightarrow> int option \<Rightarrow> string \<Rightarrow> string" where
  "detect_quant given ftype s = (let q = (if given = '''' then (case ftype of None \<Rightarrow> '''' | Some n \<Rightarrow> dict_get GGUF_FILE_TYPE_MAP n '''') else given)
     in if q = '''' then (case first_key QUANT_PATTERNS s of Some (_, d) \<Rightarrow> d | None \<Rightarrow> '''') else q)"

definition detect_format :: "string \<Rightarrow> string \<Rightarrow> string" where
  "detect_format quant s = (if str_contains ''gguf'' s \<or> quant \<in> snd ` set GGUF_FILE_TYPE_MAP then ''GGUF''
     else if str_contains ''awq'' s then ''AWQ''
     else if str_contains ''gptq'' s then ''GPTQ''
     else if str_contains ''safetensors'' s then ''SafeTensors'' else '''')"

record model_entry =
  me_family :: string
  me_family_display :: string
  me_size :: string
  me_variant :: string
  me_quantization :: string
  me_format :: string
  me_context :: int
  me_display :: string
  me_canonical :: string
  me_original :: string

fun join_words :: "string list \<Rightarrow> string" where
  "join_words [] = ''''"
| "join_words [w] = w"
| "join_words (w # ws) = w @ '' '' @ join_words ws"

text \<open>\<open>None\<close> is the \<open>IndexError\<close> of \<open>name.split()[0]\<close> for a name without words (which has no known family).\<close>

definition parse_model_info :: "string \<Rightarrow> string \<Rightarrow> int option \<Rightarrow> int \<Rightarrow> model_entry option" where
  "parse_model_info name quantization ftype context = (let s = name_text name;
       (family, family_display) = (case first_key FAMILIES s of Some x \<Rightarrow> x | None \<Rightarrow> ('''', ''''));
       size = detect_size s;
       variant = (case first_key VARIANT_KEYWORDS s of Some (_, d) \<Rightarrow> d | None \<Rightarrow> '''');
       quant = detect_quant quantization ftype s;
       version = (if size = '''' then (case leftmost number_prefix s of Some (v, _) \<Rightarrow> v | None \<Rightarrow> '''') else '''')
     in case (if family_display \<noteq> '''' then Some family_display else case split_words name of [] \<Rightarrow> None | w # _ \<Rightarrow> Some w) of
          None \<Rightarrow> None
        | Some head \<Rightarrow> Some
            \<lparr>me_family = family, me_family_display = family_display, me_size = size, me_variant = variant,
             me_quantization = quant, me_format = detect_format quant s, me_context = context,
             me_display = join_words ([head] @ (if size = '''' then [] else [size]) @ (if variant = '''' then [] else [variant])),
             me_canonical = str_lower ((if family = '''' then ''unknown'' else family) @ ''-''
               @ (if size \<noteq> '''' then size else if version \<noteq> '''' then version else ''unknown'') @ ''-''
               @ (if variant = '''' then ''base'' else variant)),
             me_original = name\<rparr>)"

text \<open>The name of a repository id is the part after the last slash.\<close>

definition repo_name :: "string \<Rightarrow> string" where
  "repo_name r = rev (takeWhile (\<lambda>c. c \<noteq> CHR ''/'') (rev r))"

definition parse_from_hf_repo :: "string \<Rightarrow> model_entry option" where
  "parse_from_hf_repo r = parse_model_info (repo_name r) '''' None 0"

definition parse_from_gguf_identity :: "trace \<Rightarrow> model_entry option" where
  "parse_from_gguf_identity d = (case (dict_get d ''name'' (JStr ''''), dict_get d ''quantization'' (JStr ''''), dict_get d ''context_length'' (JInt 0)) of
     (JStr name, JStr quant, JInt context) \<Rightarrow> parse_model_info name quant None context
   | _ \<Rightarrow> None)"

end
