(* ===== verification/ReferencePrices.thy ===== *)
theory ReferencePrices
  imports ModelCatalog StoreLedger
begin

text \<open>
  \<open>coordinator/price_collector.py\<close> and \<open>coordinator/reference_pricing.py\<close>: the reference prices of other
  services. The fetchers (the parser of OpenRouter's answer with its bundled fallback, the table of direct
  prices), the collector with its cache, its schedule and the snapshots in the store, the references shown for a
  model and the comparison with the exchange's own prices. The answers of the network and the content of
  the bundled file are arguments; \<open>Some\<close> is a value, \<open>None\<close> an exception. Log lines are left out.
\<close>

section \<open>Entries\<close>

record price_entry =
  pe_source :: string
  pe_model :: string
  pe_display :: json
  pe_family :: string
  pe_family_key :: string
  pe_input :: flt
  pe_output :: flt
  pe_cache :: flt
  pe_cache_write :: flt
  pe_context :: json
  pe_quantization :: string
  pe_intelligence :: json
  pe_coding :: json
  pe_agentic :: json
  pe_image :: flt
  pe_web_search :: flt
  pe_reasoning :: flt
  pe_fetched :: flt

section \<open>OpenRouter\<close>

text \<open>\<open>float(pricing.get(k, "0") or "0")\<close>; \<open>to_float\<close> is Python's conversion, \<open>None\<close> when it raises.\<close>

definition price_field :: "(json \<Rightarrow> flt option) \<Rightarrow> trace \<Rightarrow> string \<Rightarrow> flt option" where
  "price_field to_float d k = (let v = dict_get d k (JStr ''0'') in to_float (if truthy v then v else JStr ''0''))"

definition per_mtok :: "flt \<Rightarrow> flt" where
  "per_mtok x = py_round (rnd (x * 1000000)) 4"

text \<open>The benchmark scores: \<open>aa.get(k) if aa else None\<close>; the object itself, \<open>None\<close> when it is of another type.\<close>

definition benchmark_scores :: "trace \<Rightarrow> trace option" where
  "benchmark_scores d = (let b = dict_get d ''benchmarks'' (JObj []) in
     if \<not> truthy b then Some []
     else (case b of
       JObj x \<Rightarrow> (let aa = dict_get x ''artificial_analysis'' (JObj []) in
          if \<not> truthy aa then Some [] else (case aa of JObj y \<Rightarrow> Some y | _ \<Rightarrow> None))
     | _ \<Rightarrow> None))"

text \<open>One model of the list: \<open>None\<close> raises, \<open>Some None\<close> is skipped for having no price.\<close>

definition parse_openrouter_model :: "(json \<Rightarrow> flt option) \<Rightarrow> flt \<Rightarrow> json \<Rightarrow> price_entry option option" where
  "parse_openrouter_model to_float now m = (case m of
     JObj d \<Rightarrow> (case dict_get d ''pricing'' (JObj []) of
       JObj pr \<Rightarrow> (case (price_field to_float pr ''prompt'', price_field to_float pr ''completion'') of
         (Some prompt, Some completion) \<Rightarrow>
           if prompt \<le> 0 \<and> completion \<le> 0 then Some None
           else (case (price_field to_float pr ''input_cache_read'', price_field to_float pr ''input_cache_write'',
               price_field to_float pr ''image'', price_field to_float pr ''web_search'', price_field to_float pr ''internal_reasoning'',
               benchmark_scores d, dict_get d ''id'' (JStr '''')) of
             (Some cr, Some cw, Some im, Some web, Some re, Some aa, JStr mid) \<Rightarrow> (case parse_model_info mid '''' None 0 of
                None \<Rightarrow> None
              | Some info \<Rightarrow> Some (Some \<lparr>pe_source = ''openrouter'', pe_model = mid, pe_display = dict_get d ''name'' (JStr mid),
                  pe_family = me_family info, pe_family_key = me_canonical info, pe_input = per_mtok prompt,
                  pe_output = per_mtok completion, pe_cache = per_mtok cr, pe_cache_write = per_mtok cw,
                  pe_context = dict_get d ''context_length'' (JInt 0), pe_quantization = '''',
                  pe_intelligence = dict_get aa ''intelligence_index'' JNull, pe_coding = dict_get aa ''coding_index'' JNull,
                  pe_agentic = dict_get aa ''agentic_index'' JNull, pe_image = per_mtok im, pe_web_search = web,
                  pe_reasoning = per_mtok re, pe_fetched = now\<rparr>))
           | _ \<Rightarrow> None)
       | _ \<Rightarrow> None)
     | _ \<Rightarrow> None)
   | _ \<Rightarrow> None)"

fun parse_models :: "(json \<Rightarrow> flt option) \<Rightarrow> flt \<Rightarrow> json list \<Rightarrow> price_entry list option" where
  "parse_models to_float now [] = Some []"
| "parse_models to_float now (m # ms) = (case parse_openrouter_model to_float now m of
     None \<Rightarrow> None
   | Some e \<Rightarrow> map_option (\<lambda>es. (case e of None \<Rightarrow> [] | Some x \<Rightarrow> [x]) @ es) (parse_models to_float now ms))"

text \<open>A value that is iterated: a list, or something empty; anything else raises on its first element or at once.\<close>

definition iterated :: "json \<Rightarrow> json list option" where
  "iterated j = (case j of JList xs \<Rightarrow> Some xs | JStr [] \<Rightarrow> Some [] | JObj [] \<Rightarrow> Some [] | _ \<Rightarrow> None)"

text \<open>\<open>_load_cache\<close>: the bundled file, \<open>None\<close> when it is missing or unreadable.\<close>

definition load_bundled :: "(json \<Rightarrow> flt option) \<Rightarrow> flt \<Rightarrow> json option \<Rightarrow> price_entry list" where
  "load_bundled to_float now bundled = dflt [] (Option.bind (Option.bind bundled iterated) (parse_models to_float now))"

text \<open>\<open>OpenRouterFetcher.fetch\<close>; \<open>live\<close> is the answer of \<open>_get_json\<close>.\<close>

definition openrouter_fetch :: "(json \<Rightarrow> flt option) \<Rightarrow> flt \<Rightarrow> json option \<Rightarrow> json option \<Rightarrow> price_entry list" where
  "openrouter_fetch to_float now live bundled = (case live of
     Some (JObj d) \<Rightarrow> if d = [] then load_bundled to_float now bundled
       else (case Option.bind (iterated (dict_get d ''data'' (JList []))) (parse_models to_float now) of
         Some es \<Rightarrow> es | None \<Rightarrow> load_bundled to_float now bundled)
   | _ \<Rightarrow> load_bundled to_float now bundled)"

section \<open>Together\<close>

text \<open>The fetcher exists but the collector does not run it. The first exception ends the loop and keeps what was read;
  \<open>Some None\<close> is a model without a price.\<close>

definition together_price :: "(json \<Rightarrow> flt option) \<Rightarrow> trace \<Rightarrow> string \<Rightarrow> string \<Rightarrow> flt option" where
  "together_price to_float d k k' = (let v = dict_get d k (dict_get d k' (JStr ''0'')) in to_float (if truthy v then v else JStr ''0''))"

definition parse_together_model :: "(json \<Rightarrow> flt option) \<Rightarrow> flt \<Rightarrow> json \<Rightarrow> price_entry option option" where
  "parse_together_model to_float now m = (case m of
     JObj d \<Rightarrow> (let pricing = dict_get d ''pricing'' (JObj []) in
       if \<not> truthy pricing then Some None
       else (case pricing of
         JObj pr \<Rightarrow> (case (together_price to_float pr ''input'' ''prompt'', together_price to_float pr ''output'' ''completion'') of
           (Some input, Some output) \<Rightarrow>
             if input \<le> 0 \<and> output \<le> 0 then Some None
             else (case dict_get d ''id'' (JStr '''') of
               JStr mid \<Rightarrow> map_option (\<lambda>info. Some \<lparr>pe_source = ''together'', pe_model = mid,
                 pe_display = dict_get d ''display_name'' (dict_get d ''name'' (JStr mid)),
                 pe_family = me_family info, pe_family_key = me_canonical info, pe_input = per_mtok input, pe_output = per_mtok output,
                 pe_cache = 0, pe_cache_write = 0, pe_context = dict_get d ''context_length'' (dict_get d ''context_window'' (JInt 0)),
                 pe_quantization = '''', pe_intelligence = JNull, pe_coding = JNull, pe_agentic = JNull, pe_image = 0,
                 pe_web_search = 0, pe_reasoning = 0, pe_fetched = now\<rparr>) (parse_model_info mid '''' None 0)
             | _ \<Rightarrow> None)
         | _ \<Rightarrow> None)
       | _ \<Rightarrow> None))
   | _ \<Rightarrow> None)"

fun together_entries :: "(json \<Rightarrow> flt option) \<Rightarrow> flt \<Rightarrow> json list \<Rightarrow> price_entry list" where
  "together_entries to_float now [] = []"
| "together_entries to_float now (m # ms) = (case parse_together_model to_float now m of
     None \<Rightarrow> [] | Some None \<Rightarrow> together_entries to_float now ms | Some (Some e) \<Rightarrow> e # together_entries to_float now ms)"

definition together_fetch :: "(json \<Rightarrow> flt option) \<Rightarrow> flt \<Rightarrow> json option \<Rightarrow> price_entry list" where
  "together_fetch to_float now live = (case live of
     Some (JList ms) \<Rightarrow> together_entries to_float now ms
   | Some (JObj d) \<Rightarrow> (if d = [] then [] else (case dict_get d ''data'' (dict_get d ''models'' (JList [])) of
       JList ms \<Rightarrow> together_entries to_float now ms | _ \<Rightarrow> []))
   | _ \<Rightarrow> [])"

section \<open>Direct prices\<close>

text \<open>Source, model, display name, prices for input, cache (0 when there is none) and output, context length.\<close>

definition DIRECT_PRICES :: "(string \<times> string \<times> string \<times> flt \<times> flt \<times> flt \<times> int) list" where
  "DIRECT_PRICES = [
     (''openai'', ''gpt-4o-mini'', ''GPT-4o Mini'', lit (3 / 20), lit (3 / 40), lit (3 / 5), 128000),
     (''openai'', ''gpt-4o'', ''GPT-4o'', lit (5 / 2), lit (5 / 4), lit (10 / 1), 128000),
     (''openai'', ''gpt-4.1-mini'', ''GPT-4.1 Mini'', lit (2 / 5), lit (1 / 10), lit (8 / 5), 1047576),
     (''openai'', ''gpt-4.1'', ''GPT-4.1'', lit (2 / 1), lit (1 / 2), lit (8 / 1), 1047576),
     (''anthropic'', ''claude-3.5-haiku'', ''Claude 3.5 Haiku'', lit (4 / 5), lit (2 / 25), lit (4 / 1), 200000),
     (''anthropic'', ''claude-sonnet-4'', ''Claude Sonnet 4'', lit (3 / 1), lit (3 / 10), lit (15 / 1), 200000),
     (''anthropic'', ''claude-opus-4'', ''Claude Opus 4'', lit (15 / 1), lit (3 / 2), lit (75 / 1), 200000),
     (''google'', ''gemini-2.0-flash'', ''Gemini 2.0 Flash'', lit (1 / 10), lit (1 / 40), lit (2 / 5), 1048576),
     (''google'', ''gemini-2.5-pro'', ''Gemini 2.5 Pro'', lit (5 / 4), lit (5 / 16), lit (10 / 1), 1048576),
     (''deepseek'', ''deepseek-chat'', ''DeepSeek V3'', lit (27 / 100), lit (7 / 100), lit (11 / 10), 65536),
     (''deepseek'', ''deepseek-reasoner'', ''DeepSeek R1'', lit (11 / 20), lit (7 / 50), lit (219 / 100), 65536),
     (''alibaba'', ''qwen-max'', ''Qwen Max'', lit (8 / 5), lit (2 / 5), lit (32 / 5), 32768),
     (''alibaba'', ''qwen-plus'', ''Qwen Plus'', lit (2 / 5), lit (1 / 10), lit (6 / 5), 131072),
     (''alibaba'', ''qwen-turbo'', ''Qwen Turbo'', lit (1 / 20), lit (1 / 100), lit (1 / 5), 131072),
     (''deepinfra'', ''meta-llama/Llama-3.1-8B-Instruct'', ''Llama 3.1 8B'', lit (3 / 50), lit (0 / 1), lit (3 / 50), 131072),
     (''deepinfra'', ''meta-llama/Llama-3.1-70B-Instruct'', ''Llama 3.1 70B'', lit (7 / 20), lit (0 / 1), lit (2 / 5), 131072),
     (''deepinfra'', ''Qwen/Qwen2.5-7B-Instruct'', ''Qwen 2.5 7B'', lit (3 / 50), lit (0 / 1), lit (3 / 50), 32768),
     (''deepinfra'', ''deepseek-ai/DeepSeek-R1'', ''DeepSeek R1'', lit (11 / 20), lit (0 / 1), lit (219 / 100), 65536),
     (''groq'', ''llama-3.1-8b-instant'', ''Llama 3.1 8B'', lit (1 / 20), lit (0 / 1), lit (2 / 25), 131072),
     (''groq'', ''llama-3.1-70b-versatile'', ''Llama 3.1 70B'', lit (59 / 100), lit (0 / 1), lit (79 / 100), 131072),
     (''groq'', ''deepseek-r1-distill-llama-70b'', ''DeepSeek R1 Distill 70B'', lit (3 / 4), lit (0 / 1), lit (99 / 100), 131072),
     (''fireworks'', ''accounts/fireworks/models/llama-v3p1-8b-instruct'', ''Llama 3.1 8B'', lit (1 / 10), lit (0 / 1), lit (1 / 10), 131072),
     (''fireworks'', ''accounts/fireworks/models/llama-v3p1-70b-instruct'', ''Llama 3.1 70B'', lit (9 / 10), lit (0 / 1), lit (9 / 10), 131072),
     (''fireworks'', ''accounts/fireworks/models/qwen2p5-72b-instruct'', ''Qwen 2.5 72B'', lit (9 / 10), lit (0 / 1), lit (9 / 10), 32768),
     (''together'', ''meta-llama/Meta-Llama-3.1-8B-Instruct-Turbo'', ''Llama 3.1 8B'', lit (9 / 50), lit (0 / 1), lit (9 / 50), 131072),
     (''together'', ''meta-llama/Meta-Llama-3.1-70B-Instruct-Turbo'', ''Llama 3.1 70B'', lit (22 / 25), lit (0 / 1), lit (22 / 25), 131072),
     (''together'', ''Qwen/Qwen2.5-72B-Instruct-Turbo'', ''Qwen 2.5 72B'', lit (6 / 5), lit (0 / 1), lit (6 / 5), 32768)]"

definition direct_entry :: "flt \<Rightarrow> string \<times> string \<times> string \<times> flt \<times> flt \<times> flt \<times> int \<Rightarrow> price_entry option" where
  "direct_entry now = (\<lambda>(source, mid, display, input, cache, output, context).
     map_option (\<lambda>info. \<lparr>pe_source = source, pe_model = mid, pe_display = JStr display, pe_family = me_family info,
       pe_family_key = me_canonical info, pe_input = input, pe_output = output, pe_cache = cache, pe_cache_write = 0,
       pe_context = JInt context, pe_quantization = '''', pe_intelligence = JNull, pe_coding = JNull, pe_agentic = JNull,
       pe_image = 0, pe_web_search = 0, pe_reasoning = 0, pe_fetched = now\<rparr>) (parse_model_info mid '''' None 0))"

definition direct_fetch :: "flt \<Rightarrow> price_entry list option" where
  "direct_fetch now = those (map (direct_entry now) DIRECT_PRICES)"

section \<open>The collector\<close>

type_synonym price_cache = "(string \<times> string, price_entry) dict"

record collector =
  co_cache :: price_cache
  co_last :: "(string, flt) dict"

definition new_collector :: collector where
  "new_collector = \<lparr>co_cache = [], co_last = []\<rparr>"

definition get_all_current :: "collector \<Rightarrow> price_entry list" where
  "get_all_current c = map snd (co_cache c)"

definition get_by_family :: "string \<Rightarrow> collector \<Rightarrow> price_entry list" where
  "get_by_family key c = filter (\<lambda>e. pe_family_key e = key) (get_all_current c)"

definition get_by_source :: "string \<Rightarrow> collector \<Rightarrow> price_entry list" where
  "get_by_source source c = filter (\<lambda>e. pe_source e = source) (get_all_current c)"

definition FETCHERS :: "(string \<times> flt) list" where
  "FETCHERS = [(''openrouter'', 1800), (''direct'', 86400)]"

definition due :: "flt \<Rightarrow> collector \<Rightarrow> string \<times> flt \<Rightarrow> bool" where
  "due now c = (\<lambda>(source, ttl). ttl \<le> rnd (now - dict_get (co_last c) source 0))"

definition put_price :: "flt \<Rightarrow> price_entry \<Rightarrow> price_cache \<Rightarrow> price_cache" where
  "put_price now e d = dict_set (pe_source e, pe_model e) (e\<lparr>pe_fetched := now\<rparr>) d"

text \<open>\<open>_run_fetcher\<close>: \<open>None\<close> is a fetch that raised.\<close>

definition run_fetcher :: "string \<Rightarrow> price_entry list option \<Rightarrow> flt \<Rightarrow> collector \<Rightarrow> collector" where
  "run_fetcher source fetched now c = (case fetched of
     None \<Rightarrow> c
   | Some es \<Rightarrow> \<lparr>co_cache = fold (put_price now) es (co_cache c), co_last = dict_set source now (co_last c)\<rparr>)"

text \<open>The row of an entry. The names of the APIs are texts or null, their context lengths ints or null (stored as 0 here).\<close>

definition stored_price :: "price_entry \<Rightarrow> reference_price" where
  "stored_price e = \<lparr>ref_id = 0, ref_source = pe_source e, ref_model = pe_model e,
     ref_display = (case pe_display e of JStr s \<Rightarrow> s | _ \<Rightarrow> ''''), ref_family = pe_family e, ref_family_key = pe_family_key e,
     ref_input = pe_input e, ref_output = pe_output e, ref_cache = pe_cache e,
     ref_context = (case pe_context e of JInt n \<Rightarrow> n | _ \<Rightarrow> 0), ref_fetched = pe_fetched e\<rparr>"

text \<open>The column \<open>display_name\<close> is not nullable, and one refused row rolls back the whole snapshot.\<close>

definition persist_snapshot :: "price_entry list \<Rightarrow> db \<Rightarrow> db" where
  "persist_snapshot es db = (if \<exists>e \<in> set es. pe_display e = JNull then db else snd (save_reference_prices (map stored_price es) db))"

definition PRUNE_DAYS :: int where "PRUNE_DAYS = 90"

text \<open>\<open>fetch_all\<close>: the fetchers that are due at \<open>now\<close> finish in some order, each with its result and the clock
  reading at its end; when there was any, the whole cache is written to the store and old rows are dropped.\<close>

definition fetch_all :: "flt \<Rightarrow> (string \<times> price_entry list option \<times> flt) list \<Rightarrow> flt \<Rightarrow> collector \<Rightarrow> db \<Rightarrow> collector \<times> db" where
  "fetch_all now results later c db = (
     if filter (due now c) FETCHERS = [] then (c, db)
     else (let c' = fold (\<lambda>(source, fetched, t). run_fetcher source fetched t) results c;
               db1 = persist_snapshot (get_all_current c') db;
               db2 = snd (prune_reference_prices (rnd (later - of_int (PRUNE_DAYS * 86400))) db1)
       in (c', db2)))"

text \<open>\<open>get_sources_metadata\<close>; \<open>stamp\<close> renders a clock reading.\<close>

definition sources_metadata :: "(flt \<Rightarrow> string) \<Rightarrow> collector \<Rightarrow> trace" where
  "sources_metadata stamp c = map (\<lambda>(s, t). (s, JStr (stamp t))) (co_last c)"

section \<open>References for a model\<close>

record price_reference =
  rf_provider :: string
  rf_model :: json
  rf_input :: flt
  rf_output :: flt
  rf_cache :: flt
  rf_kind :: "string option"

definition reference_of :: "string \<Rightarrow> price_entry \<Rightarrow> price_reference" where
  "reference_of kind e = \<lparr>rf_provider = pe_source e, rf_model = pe_display e, rf_input = py_round (pe_input e) 4,
     rf_output = py_round (pe_output e) 4, rf_cache = py_round (pe_cache e) 4, rf_kind = Some kind\<rparr>"

definition CLOSED_SOURCES :: "string list" where
  "CLOSED_SOURCES = [''openai'', ''anthropic'', ''google'', ''deepseek'', ''alibaba'']"

definition same_family :: "model_entry \<Rightarrow> price_entry \<Rightarrow> bool" where
  "same_family info e = (me_canonical info = pe_family_key e \<or> me_family info \<noteq> '''' \<and> me_family info = pe_family e)"

text \<open>The two passes over the cache; a pair of source and model is taken once.\<close>

fun take_unseen :: "(price_entry \<Rightarrow> bool) \<Rightarrow> (price_entry \<Rightarrow> string) \<Rightarrow> price_entry list \<Rightarrow> (string \<times> string) list \<Rightarrow> price_reference list
    \<Rightarrow> (string \<times> string) list \<times> price_reference list" where
  "take_unseen P kind [] seen refs = (seen, refs)"
| "take_unseen P kind (e # es) seen refs = (if P e \<and> (pe_source e, pe_model e) \<notin> set seen
     then take_unseen P kind es (seen @ [(pe_source e, pe_model e)]) (refs @ [reference_of (kind e) e])
     else take_unseen P kind es seen refs)"

definition collected_references :: "model_entry \<Rightarrow> price_entry list \<Rightarrow> price_reference list" where
  "collected_references info es = (let
       (seen, refs) = take_unseen (same_family info) (\<lambda>e. if pe_family e \<noteq> '''' then ''same_model'' else ''alternative'') es [] [];
       (_, refs') = take_unseen (\<lambda>e. pe_source e \<in> set CLOSED_SOURCES) (\<lambda>_. ''alternative'') es seen refs
     in take 8 (sort_key rf_output refs'))"

subsection \<open>Without a collector\<close>

text \<open>OpenRouter's models by id, fetched at most every ten minutes: id, name and the two prices.\<close>

record legacy_prices =
  lg_models :: "(string, json \<times> flt \<times> flt) dict"
  lg_last :: flt

definition CACHE_TTL :: flt where "CACHE_TTL = 600"

fun legacy_parse :: "(json \<Rightarrow> flt option) \<Rightarrow> json list \<Rightarrow> (string, json \<times> flt \<times> flt) dict \<Rightarrow> (string, json \<times> flt \<times> flt) dict option" where
  "legacy_parse to_float [] acc = Some acc"
| "legacy_parse to_float (m # ms) acc = (case m of
     JObj d \<Rightarrow> (case (dict_get d ''pricing'' (JObj []), dict_get d ''id'' (JStr '''')) of
       (JObj pr, JStr mid) \<Rightarrow> (case (price_field to_float pr ''prompt'', price_field to_float pr ''completion'') of
         (Some p, Some c) \<Rightarrow> legacy_parse to_float ms
            (if 0 < p \<or> 0 < c then dict_set mid (dict_get d ''name'' (JStr mid), rnd (p * 1000000), rnd (c * 1000000)) acc else acc)
       | _ \<Rightarrow> None)
     | _ \<Rightarrow> None)
   | _ \<Rightarrow> None)"

text \<open>Ids are texts. \<open>answer\<close> is the decoded answer, \<open>None\<close> when the request failed or had another status than 200.\<close>

definition legacy_fetch :: "(json \<Rightarrow> flt option) \<Rightarrow> flt \<Rightarrow> json option \<Rightarrow> legacy_prices \<Rightarrow> legacy_prices" where
  "legacy_fetch to_float now answer s = (
     if lg_models s \<noteq> [] \<and> rnd (now - lg_last s) < CACHE_TTL then s
     else (case answer of
       Some (JObj d) \<Rightarrow> (case Option.bind (iterated (dict_get d ''data'' (JList []))) (\<lambda>ms. legacy_parse to_float ms []) of
         Some models \<Rightarrow> \<lparr>lg_models = models, lg_last = now\<rparr> | None \<Rightarrow> s)
     | _ \<Rightarrow> s))"

definition LEGACY_FAMILIES :: "string list" where
  "LEGACY_FAMILIES = [''llama'', ''qwen'', ''mistral'', ''gemma'', ''phi'', ''codellama'', ''deepseek'', ''yi'']"

fun legacy_matches :: "string \<Rightarrow> (string \<times> json \<times> flt \<times> flt) list \<Rightarrow> price_reference list \<Rightarrow> price_reference list" where
  "legacy_matches family [] refs = refs"
| "legacy_matches family ((mid, name, input, output) # ms) refs =
     (let refs' = (if family \<noteq> '''' \<and> str_contains family (str_lower mid)
        then refs @ [\<lparr>rf_provider = ''OpenRouter'', rf_model = name, rf_input = py_round input 4, rf_output = py_round output 4,
            rf_cache = 0, rf_kind = None\<rparr>] else refs)
      in if 3 \<le> length refs' then refs' else legacy_matches family ms refs')"

definition legacy_references :: "string \<Rightarrow> legacy_prices \<Rightarrow> price_reference list" where
  "legacy_references name s =
     (let family = (case find (\<lambda>f. str_contains f (str_lower name)) LEGACY_FAMILIES of Some f \<Rightarrow> f | None \<Rightarrow> '''')
      in take 5 (sort_key rf_output (legacy_matches family (lg_models s) [])))"

text \<open>\<open>get_reference_prices\<close>; without prices in the collector the other source is asked, which may change its state.
  The result is \<open>None\<close> when the model's name has no words.\<close>

definition get_reference_prices :: "(json \<Rightarrow> flt option) \<Rightarrow> flt \<Rightarrow> json option \<Rightarrow> string \<Rightarrow> collector option \<Rightarrow> legacy_prices
    \<Rightarrow> price_reference list option \<times> legacy_prices" where
  "get_reference_prices to_float now answer name c s = (
     if (case c of None \<Rightarrow> False | Some k \<Rightarrow> co_cache k \<noteq> []) then
       (map_option (\<lambda>info. collected_references info (get_all_current (the c))) (parse_model_info name '''' None 0), s)
     else (let s' = legacy_fetch to_float now answer s in (Some (legacy_references name s'), s')))"

section \<open>Savings\<close>

record comparison =
  cm_provider :: string
  cm_name :: json
  cm_input :: flt
  cm_cache :: flt
  cm_output :: flt
  cm_diff :: int
  cm_diff_input :: int
  cm_diff_cache :: int
  cm_cheaper :: bool
  cm_kind :: "string option"

text \<open>\<open>round((1 - price / reference) * 100)\<close> when both are positive, otherwise 0.\<close>

definition price_diff :: "flt \<Rightarrow> flt \<Rightarrow> int" where
  "price_diff price ref = (if 0 < ref \<and> 0 < price then round_even (rnd (rnd (1 - rnd (price / ref)) * 100)) else 0)"

definition compare_price :: "flt \<Rightarrow> flt \<Rightarrow> flt \<Rightarrow> price_reference \<Rightarrow> comparison" where
  "compare_price price input cache r = \<lparr>cm_provider = rf_provider r, cm_name = rf_model r, cm_input = py_round (rf_input r) 4,
     cm_cache = py_round (rf_cache r) 4, cm_output = py_round (rf_output r) 4, cm_diff = price_diff price (rf_output r),
     cm_diff_input = price_diff input (rf_input r), cm_diff_cache = price_diff cache (rf_cache r),
     cm_cheaper = (0 < price_diff price (rf_output r)), cm_kind = rf_kind r\<rparr>"

definition compute_savings :: "flt \<Rightarrow> flt \<Rightarrow> flt \<Rightarrow> price_reference list \<Rightarrow> comparison list" where
  "compute_savings price input cache refs = map (compare_price price input cache)
     (filter (\<lambda>r. \<not> (rf_output r \<le> 0 \<and> rf_input r \<le> 0)) refs)"

end
