(* ===== verification/Grouping.thy ===== *)
theory Grouping
  imports Prelude
begin

text \<open>
  Dicts that collect items under their keys, which several views of the coordinator build with a loop: such a loop
  equals one group per key, in the order in which the keys first appear.
\<close>

text \<open>The elements of a list in the order in which they first appear.\<close>

definition first_seen :: "'a list \<Rightarrow> 'a list" where
  "first_seen xs = rev (remdups (rev xs))"

lemma first_seen_snoc: "first_seen (xs @ [x]) = (if x \<in> set xs then first_seen xs else first_seen xs @ [x])"
  by (simp add: first_seen_def)

lemma first_seen_set [simp]: "set (first_seen xs) = set xs" "distinct (first_seen xs)"
  by (simp_all add: first_seen_def)

lemma map_of_keyed: "distinct ks \<Longrightarrow> map_of (map (\<lambda>k. (k, f k)) ks) k = (if k \<in> set ks then Some (f k) else None)"
  by (induction ks) auto

lemma set_keyed: "distinct ks \<Longrightarrow> dict_set k v (map (\<lambda>k. (k, f k)) ks)
    = (if k \<in> set ks then map (\<lambda>j. (j, if j = k then v else f j)) ks else map (\<lambda>j. (j, f j)) ks @ [(k, v)])"
  by (induction ks) auto

text \<open>Collecting items under their keys: the dict has a group per key, in the order of first appearance, started by
  its first item and folded over its items.\<close>

definition group_of :: "('a \<Rightarrow> 'k) \<Rightarrow> ('a \<Rightarrow> 'g) \<Rightarrow> ('a \<Rightarrow> 'g \<Rightarrow> 'g) \<Rightarrow> 'a list \<Rightarrow> 'k \<Rightarrow> 'g" where
  "group_of key start add xs k = (let own = filter (\<lambda>x. key x = k) xs in foldl (\<lambda>g x. add x g) (start (hd own)) own)"

definition grouped :: "('a \<Rightarrow> 'k) \<Rightarrow> ('a \<Rightarrow> 'g) \<Rightarrow> ('a \<Rightarrow> 'g \<Rightarrow> 'g) \<Rightarrow> 'a list \<Rightarrow> ('k, 'g) dict" where
  "grouped key start add xs = map (\<lambda>k. (k, group_of key start add xs k)) (first_seen (map key xs))"

lemma grouped_snoc:
  "grouped key start add (xs @ [x])
    = dict_set (key x) (add x (dict_get (grouped key start add xs) (key x) (start x))) (grouped key start add xs)"
proof (cases "key x \<in> key ` set xs")
  case True
  then have "filter (\<lambda>y. key y = key x) xs \<noteq> []" by (auto simp: filter_empty_conv)
  then have own: "group_of key start add (xs @ [x]) (key x) = add x (group_of key start add xs (key x))"
    by (simp add: group_of_def Let_def)
  have other: "group_of key start add (xs @ [x]) k = group_of key start add xs k" if "k \<noteq> key x" for k
    using that by (auto simp: group_of_def)
  show ?thesis using True
    by (auto simp: grouped_def first_seen_snoc set_keyed dict_get_def map_of_keyed own other)
next
  case False
  then have e: "filter (\<lambda>y. key y = key x) xs = []" by (auto simp: filter_empty_conv image_iff)
  then have own: "group_of key start add (xs @ [x]) (key x) = add x (start x)" by (simp add: group_of_def)
  have other: "group_of key start add (xs @ [x]) k = group_of key start add xs k" if "k \<noteq> key x" for k
    using that by (auto simp: group_of_def)
  have same: "k \<noteq> key x" if "k \<in> set (first_seen (map key xs))" for k
    using that False by (metis first_seen_set(1) image_set)
  have new: "key x \<notin> set (first_seen (map key xs))" using same by blast
  have diff: "key y \<noteq> key x" if "y \<in> set xs" for y using False that by (metis imageI)
  have "grouped key start add (xs @ [x]) = grouped key start add xs @ [(key x, add x (start x))]"
    using False by (auto simp: grouped_def first_seen_snoc own intro!: other dest: diff)
  then show ?thesis using new by (simp add: grouped_def set_keyed dict_get_def map_of_keyed del: first_seen_set(1))
qed

lemma grouped_foldl:
  "foldl (\<lambda>d x. dict_set (key x) (add x (dict_get d (key x) (start x))) d) [] xs = grouped key start add xs"
proof (induction xs rule: rev_induct)
  case Nil
  then show ?case by (simp add: grouped_def first_seen_def)
next
  case (snoc x xs)
  then show ?case by (simp add: grouped_snoc)
qed

end
