(* ===== verification/CatalogLaws.thy ===== *)
theory CatalogLaws
  imports ReferencePrices Grouping
begin

text \<open>
  The catalogue and the reference prices: which keywords of a model name the parser can report; the collector's cache,
  which is keyed by its entries after any sequence of runs; and the references shown for a model, which are
  the cheapest of exactly the eligible entries.
\<close>

section \<open>Keywords\<close>

lemma str_contains_iff: "str_contains p s \<longleftrightarrow> (\<exists>a b. s = a @ p @ b)"
proof (induction s)
  case Nil
  then show ?case by simp
next
  case (Cons c s)
  have "(\<exists>a b. c # s = a @ p @ b) \<longleftrightarrow> (\<exists>b. c # s = p @ b) \<or> (\<exists>a b. s = a @ p @ b)"
  proof
    assume "\<exists>a b. c # s = a @ p @ b"
    then obtain a b where "c # s = a @ p @ b" by blast
    then show "(\<exists>b. c # s = p @ b) \<or> (\<exists>a b. s = a @ p @ b)" by (cases a) auto
  next
    assume "(\<exists>b. c # s = p @ b) \<or> (\<exists>a b. s = a @ p @ b)"
    then show "\<exists>a b. c # s = a @ p @ b" by (metis append_Cons append_Nil)
  qed
  then show ?case using Cons by (simp add: starts_with_iff)
qed

lemma str_contains_part: "str_contains q p \<Longrightarrow> str_contains p s \<Longrightarrow> str_contains q s"
  unfolding str_contains_iff by (metis append.assoc)

lemma str_contains_set: "str_contains p s \<Longrightarrow> set p \<subseteq> set s"
  by (auto simp: str_contains_iff)

lemma name_text_no_underscore: "CHR ''_'' \<notin> set (name_text name)"
  by (auto simp: name_text_def)

text \<open>The first key of a table that occurs is never one that has an earlier key of the table as a part.\<close>

lemma first_key_shadowed:
  assumes "first_key (xs @ (k, d) # ys) s = Some (k, d)" "(k, d) \<notin> set xs" "(j, e) \<in> set xs" "str_contains j k"
    "(k, d) \<notin> set ys"
  shows False
proof -
  have "str_contains k s" using assms(1) by (auto simp: first_key_def find_Some_iff)
  then have "str_contains j s" using assms(4) str_contains_part by blast
  then have "find (\<lambda>(k, _). str_contains k s) xs \<noteq> None" using assms(3) by (auto simp: find_None_iff)
  moreover have "find f (xs @ zs) = (case find f xs of None \<Rightarrow> find f zs | Some x \<Rightarrow> Some x)" for f and zs :: "(string \<times> string) list"
    by (induction xs) auto
  ultimately have "find (\<lambda>(k, _). str_contains k s) xs = Some (k, d)"
    using assms(1) by (auto simp: first_key_def split: option.splits)
  then show False using assms(2) by (metis find_Some_iff nth_mem)
qed

lemma first_key_in: "first_key t s = Some (k, d) \<Longrightarrow> (k, d) \<in> set t \<and> str_contains k s"
  by (auto simp: first_key_def find_Some_iff) (metis nth_mem)+

lemma codellama_shadowed: "first_key FAMILIES s \<noteq> Some (''codellama'', ''CodeLlama'')"
proof
  assume "first_key FAMILIES s = Some (''codellama'', ''CodeLlama'')"
  moreover have "FAMILIES = take 7 FAMILIES @ (''codellama'', ''CodeLlama'') # drop 8 FAMILIES" by code_simp
  ultimately have "first_key (take 7 FAMILIES @ (''codellama'', ''CodeLlama'') # drop 8 FAMILIES) s = Some (''codellama'', ''CodeLlama'')"
    by metis
  then show False by (rule first_key_shadowed [where j = "''llama''" and e = "''Llama''"]) (simp_all add: FAMILIES_def starts_with_def)
qed

lemma coder_shadowed: "first_key VARIANT_KEYWORDS s \<noteq> Some (''coder'', ''Coder'')"
proof
  assume "first_key VARIANT_KEYWORDS s = Some (''coder'', ''Coder'')"
  moreover have "VARIANT_KEYWORDS = take 4 VARIANT_KEYWORDS @ (''coder'', ''Coder'') # drop 5 VARIANT_KEYWORDS" by code_simp
  ultimately have "first_key (take 4 VARIANT_KEYWORDS @ (''coder'', ''Coder'') # drop 5 VARIANT_KEYWORDS) s = Some (''coder'', ''Coder'')"
    by metis
  then show False by (rule first_key_shadowed [where j = "''code''" and e = "''Code''"]) (simp_all add: VARIANT_KEYWORDS_def starts_with_def)
qed

lemma bf16_shadowed: "first_key QUANT_PATTERNS s \<noteq> Some (''bf16'', ''BF16'')"
proof
  assume "first_key QUANT_PATTERNS s = Some (''bf16'', ''BF16'')"
  moreover have "QUANT_PATTERNS = take 18 QUANT_PATTERNS @ (''bf16'', ''BF16'') # drop 19 QUANT_PATTERNS" by code_simp
  ultimately have "first_key (take 18 QUANT_PATTERNS @ (''bf16'', ''BF16'') # drop 19 QUANT_PATTERNS) s = Some (''bf16'', ''BF16'')"
    by metis
  then show False by (rule first_key_shadowed [where j = "''f16''" and e = "''FP16''"]) (simp_all add: QUANT_PATTERNS_def starts_with_def)
qed

lemma patterns_reported:
  "list_all (\<lambda>(k, d). CHR ''_'' \<in> set k \<or> d = ''BF16'' \<and> k = ''bf16'' \<or> d \<in> {''FP16'', ''FP32'', ''AWQ'', ''GPTQ'', ''EXL2''}) QUANT_PATTERNS"
  by (simp add: QUANT_PATTERNS_def)

lemma named_quantization:
  assumes "first_key QUANT_PATTERNS (name_text name) = Some (k, d)"
  shows "d \<in> {''FP16'', ''FP32'', ''AWQ'', ''GPTQ'', ''EXL2''}"
proof -
  have k: "(k, d) \<in> set QUANT_PATTERNS" and c: "str_contains k (name_text name)" using first_key_in [OF assms] by (rule conjunct1, rule conjunct2)
  have u: "CHR ''_'' \<notin> set k" using str_contains_set [OF c] name_text_no_underscore by (rule contra_subsetD)
  have b: "\<not> (d = ''BF16'' \<and> k = ''bf16'')"
  proof
    assume "d = ''BF16'' \<and> k = ''bf16''"
    then show False using assms bf16_shadowed by (simp only:)
  qed
  show ?thesis using bspec [OF patterns_reported [unfolded list_all_iff] k] u b by (simp only: prod.case) blast
qed

text \<open>Some keywords of the tables never take effect. From a name the parser never reports the family CodeLlama, the
  variant Coder or, unless the file's own data name one, any of the quantizations that are written with an
  underscore, nor BF16: the separators have been replaced before the search, or a shorter keyword comes first.\<close>

theorem keywords_unreachable:
  assumes "parse_model_info name '''' None context = Some e"
  shows "me_family_display e \<noteq> ''CodeLlama'' \<and> me_variant e \<noteq> ''Coder''
    \<and> me_quantization e \<in> {'''', ''FP16'', ''FP32'', ''AWQ'', ''GPTQ'', ''EXL2''}"
proof -
  let ?s = "name_text name"
  have f: "d \<noteq> ''CodeLlama''" if "first_key FAMILIES ?s = Some (k, d)" for k d
  proof
    assume d: "d = ''CodeLlama''"
    with first_key_in [OF that] have "k = ''codellama''" by (auto simp: FAMILIES_def)
    with that d codellama_shadowed show False by blast
  qed
  have v: "d \<noteq> ''Coder''" if "first_key VARIANT_KEYWORDS ?s = Some (k, d)" for k d
  proof
    assume d: "d = ''Coder''"
    with first_key_in [OF that] have "k = ''coder''" by (auto simp: VARIANT_KEYWORDS_def)
    with that d coder_shadowed show False by blast
  qed
  have "me_family_display e = (case first_key FAMILIES ?s of Some (k, d) \<Rightarrow> d | None \<Rightarrow> '''')
    \<and> me_variant e = (case first_key VARIANT_KEYWORDS ?s of Some (k, d) \<Rightarrow> d | None \<Rightarrow> '''')
    \<and> me_quantization e = (case first_key QUANT_PATTERNS ?s of Some (k, d) \<Rightarrow> d | None \<Rightarrow> '''')"
    using assms by (auto simp: parse_model_info_def detect_quant_def Let_def split: option.splits prod.splits list.splits)
  then show ?thesis using f v named_quantization
    by (auto split: option.splits)
qed

lemma mixtral_parsed: "map_option (\<lambda>e. (me_size e, me_quantization e)) (parse_model_info ''Mixtral-8x7B-Q4_K_M'' '''' None 0) = Some (''7B'', '''')"
  by code_simp

lemma coder_parsed: "\<exists>e. parse_model_info ''CodeLlama-7B-Coder-BF16'' '''' None 0 = Some e \<and> me_family e = ''llama''"
  by (rule exI [of _ "the (parse_model_info ''CodeLlama-7B-Coder-BF16'' '''' None 0)"]) code_simp

theorem keywords_unreachable_witness:
  "\<exists>e. parse_model_info ''CodeLlama-7B-Coder-BF16'' '''' None 0 = Some e \<and> me_family_display e \<noteq> ''CodeLlama'' \<and> me_variant e \<noteq> ''Coder''"
  using coder_parsed keywords_unreachable [of "''CodeLlama-7B-Coder-BF16''" 0] by blast

section \<open>The collector\<close>

abbreviation price_key :: "price_entry \<Rightarrow> string \<times> string" where
  "price_key e \<equiv> (pe_source e, pe_model e)"

definition cache_ok :: "price_cache \<Rightarrow> bool" where
  "cache_ok d \<longleftrightarrow> dict_ok d \<and> list_all (\<lambda>(k, e). k = price_key e) d"

lemma list_all_dict_set: "list_all P d \<Longrightarrow> P (k, v) \<Longrightarrow> list_all P (dict_set k v d)"
  by (induction d) auto

lemma put_price_ok: "cache_ok d \<Longrightarrow> cache_ok (put_price now e d)"
  by (simp add: cache_ok_def put_price_def list_all_dict_set)

lemma run_fetcher_ok: "cache_ok (co_cache c) \<Longrightarrow> cache_ok (co_cache (run_fetcher source fetched now c))"
proof -
  have "cache_ok d \<Longrightarrow> cache_ok (fold (put_price now) es d)" for es d
    by (induction es arbitrary: d) (simp_all add: put_price_ok)
  then show "cache_ok (co_cache c) \<Longrightarrow> cache_ok (co_cache (run_fetcher source fetched now c))"
    by (simp add: run_fetcher_def split: option.splits)
qed

text \<open>The runs of the collector: for each, the time, the fetchers' results in the order they end, and the time of pruning.\<close>

type_synonym collector_run = "flt \<times> (string \<times> price_entry list option \<times> flt) list \<times> flt"

definition collect_prices :: "collector_run list \<Rightarrow> collector \<times> db \<Rightarrow> collector \<times> db" where
  "collect_prices = fold (\<lambda>(now, results, later) (c, db). fetch_all now results later c db)"

lemma collector_ok:
  assumes "cache_ok (co_cache c)" shows "cache_ok (co_cache (fst (collect_prices runs (c, db))))"
  using assms unfolding collect_prices_def
proof (induction runs arbitrary: c db)
  case (Cons r runs)
  obtain now results later where r: "r = (now, results, later)" by (cases r)
  have "cache_ok (co_cache k) \<Longrightarrow> cache_ok (co_cache (fold (\<lambda>(source, fetched, t). run_fetcher source fetched t) xs k))" for xs k
    by (induction xs arbitrary: k) (auto intro: run_fetcher_ok)
  then have "cache_ok (co_cache (fst (fetch_all now results later c db)))"
    using Cons.prems by (simp add: fetch_all_def Let_def)
  then show ?case using Cons.IH [of "fst (fetch_all now results later c db)" "snd (fetch_all now results later c db)"] by (simp add: r)
qed simp

lemma cache_keys_distinct: assumes "cache_ok (co_cache c)" shows "distinct (map price_key (get_all_current c))"
proof -
  have "map price_key (map snd d) = dict_keys d" if "list_all (\<lambda>(k, e). k = price_key e) d" for d :: price_cache
    using that by (induction d) auto
  from this [of "co_cache c"] have "map price_key (get_all_current c) = dict_keys (co_cache c)"
    using assms by (simp only: cache_ok_def get_all_current_def)
  then show ?thesis using assms by (simp only: cache_ok_def dict_ok_def)
qed

section \<open>References\<close>

lemma take_unseen_exact:
  assumes "distinct (map price_key es)"
  shows "take_unseen P kind es seen refs = (seen @ map price_key (filter (\<lambda>e. P e \<and> price_key e \<notin> set seen) es),
     refs @ map (\<lambda>e. reference_of (kind e) e) (filter (\<lambda>e. P e \<and> price_key e \<notin> set seen) es))"
  using assms
proof (induction es arbitrary: seen refs)
  case (Cons e es)
  have "filter (\<lambda>x. P x \<and> price_key x \<notin> set (seen @ [price_key e])) es = filter (\<lambda>x. P x \<and> price_key x \<notin> set seen) es"
    using Cons.prems by (intro filter_cong) (auto simp: image_iff)
  then show ?case using Cons by simp
qed simp

text \<open>The entries a model is compared with: those of its family, then those of the closed services, and how each is called.\<close>

definition eligible :: "model_entry \<Rightarrow> price_entry list \<Rightarrow> price_entry list" where
  "eligible info es = filter (same_family info) es @ filter (\<lambda>e. \<not> same_family info e \<and> pe_source e \<in> set CLOSED_SOURCES) es"

definition kind_for :: "model_entry \<Rightarrow> price_entry \<Rightarrow> string" where
  "kind_for info e = (if same_family info e \<and> pe_family e \<noteq> '''' then ''same_model'' else ''alternative'')"

lemma references_eligible:
  assumes "distinct (map price_key es)"
  shows "collected_references info es = take 8 (sort_key rf_output (map (\<lambda>e. reference_of (kind_for info e) e) (eligible info es)))"
proof -
  have key: "price_key e \<in> price_key ` set (filter (same_family info) es) \<longleftrightarrow> same_family info e" if "e \<in> set es" for e
    using inj_onD [OF conjunct2 [OF assms [unfolded distinct_map]]] that by auto
  have "filter (\<lambda>e. pe_source e \<in> set CLOSED_SOURCES \<and> price_key e \<notin> price_key ` set (filter (same_family info) es)) es
      = filter (\<lambda>e. \<not> same_family info e \<and> pe_source e \<in> set CLOSED_SOURCES) es"
    using key by (intro filter_cong) auto
  moreover have "map (\<lambda>e. reference_of (if pe_family e \<noteq> '''' then ''same_model'' else ''alternative'') e) (filter (same_family info) es)
      = map (\<lambda>e. reference_of (kind_for info e) e) (filter (same_family info) es)"
    by (intro map_cong) (auto simp: kind_for_def)
  moreover have "map (reference_of ''alternative'') (filter (\<lambda>e. \<not> same_family info e \<and> pe_source e \<in> set CLOSED_SOURCES) es)
      = map (\<lambda>e. reference_of (kind_for info e) e) (filter (\<lambda>e. \<not> same_family info e \<and> pe_source e \<in> set CLOSED_SOURCES) es)"
    by (intro map_cong) (auto simp: kind_for_def)
  ultimately show ?thesis
    by (simp add: collected_references_def take_unseen_exact [OF assms] eligible_def del: map_eq_conv)
qed

text \<open>After any runs of the collector, the references of a model are the at most eight cheapest of exactly the entries of
  its family and those of the closed services, each named once, the closest first among equals.\<close>

theorem references_exact:
  "collected_references info (get_all_current (fst (collect_prices runs (new_collector, db))))
    = take 8 (sort_key rf_output (map (\<lambda>e. reference_of (kind_for info e) e)
        (eligible info (get_all_current (fst (collect_prices runs (new_collector, db)))))))"
  by (intro references_eligible cache_keys_distinct collector_ok) (simp add: cache_ok_def new_collector_def)

end
