(* ===== verification/ExchangeViews.thy ===== *)
theory ExchangeViews
  imports ReferencePrices HubRouting Quality
begin

text \<open>
  \<open>coordinator/routes_exchange.py\<close>, the public views of the market: models, providers, prices, depth, the
  model-centric market, model search, telemetry and the reference prices with their history. A dict with
  fixed keys is a record here; \<open>clk\<close> is the reading of the clock for each provider. The views only read,
  except that the market view may refresh the prices kept without a collector.
\<close>

section \<open>Providers and prices\<close>

definition trust_record :: "flt \<Rightarrow> connected_provider \<Rightarrow> trace" where
  "trust_record now p = (let verified = verified_trust_level now p in
     [(''claimed'', JStr (trust_claim p)), (''verified'', j_opt JStr verified),
      (''basis'', JStr (if verified = None then ''self_reported'' else ''attested''))])"

definition list_models :: "'cb hub \<Rightarrow> string list" where
  "list_models h = filter (\<lambda>m. m \<noteq> ''default'') (available_models h)"

definition provider_view :: "flt \<Rightarrow> connected_provider \<Rightarrow> trace" where
  "provider_view now p = (let c = cp_caps p; m = cp_model_caps p in
     [(''id'', JStr (cp_id p)), (''name'', JStr (cp_name p)), (''models'', JList (map JStr (pc_models c))),
      (''trust_level'', JStr (trust_claim p)), (''trust'', JObj (trust_record now p)), (''hardware'', JStr (pc_hardware c)),
      (''price_input'', JFloat (pc_price_in c)), (''price_output'', JFloat (pc_price_out c)), (''price_cache'', JFloat (pc_price_cache c)),
      (''measured_tps'', JFloat (pc_tps c)), (''load'', JFloat (py_round (cp_load_factor p) 2)), (''active_requests'', JInt (cp_active p)),
      (''max_concurrent'', JInt (pc_max_concurrent c)), (''status'', JStr ''online''), (''encrypted'', JBool (cp_enc_key p \<noteq> '''')),
      (''encryption_public_key'', if cp_enc_key p = '''' then JNull else JStr (cp_enc_key p)),
      (''uptime_seconds'', JInt (to_int (rnd (now - cp_connected_at p)))),
      (''model_capabilities'', JObj [(''context_length'', JInt (mc_context_length m)), (''supports_tool_calling'', JBool (mc_tools m)),
         (''supports_vision'', JBool (mc_vision m)), (''architecture'', JStr (mc_architecture m)), (''model_format'', JStr (mc_format m))])])"

definition list_providers :: "(string \<Rightarrow> flt) \<Rightarrow> 'cb hub \<Rightarrow> trace list" where
  "list_providers clk h = map (\<lambda>(_, p). provider_view (clk (cp_id p)) p) (hub_providers h)"

text \<open>The pairs of a provider and one of its models, in the order of the two nested loops.\<close>

definition offers :: "'cb hub \<Rightarrow> (connected_provider \<times> string) list" where
  "offers h = concat (map (\<lambda>(_, p). map (Pair p) (pc_models (cp_caps p))) (hub_providers h))"

record price_line =
  pl_model :: string
  pl_input :: flt
  pl_output :: flt
  pl_cheapest :: string
  pl_available :: nat

definition quote_step :: "(string, price_line) dict \<Rightarrow> connected_provider \<times> string \<Rightarrow> (string, price_line) dict" where
  "quote_step d = (\<lambda>(p, m). if (case map_of d m of None \<Rightarrow> True | Some l \<Rightarrow> pc_price_out (cp_caps p) < pl_output l)
     then dict_set m \<lparr>pl_model = m, pl_input = pc_price_in (cp_caps p), pl_output = pc_price_out (cp_caps p),
        pl_cheapest = cp_name p, pl_available = 0\<rparr> d
     else d)"

definition count_step :: "(string, price_line) dict \<Rightarrow> connected_provider \<times> string \<Rightarrow> (string, price_line) dict" where
  "count_step d = (\<lambda>(p, m). case map_of d m of None \<Rightarrow> d | Some l \<Rightarrow> dict_set m (l\<lparr>pl_available := pl_available l + 1\<rparr>) d)"

definition get_pricing :: "'cb hub \<Rightarrow> price_line list" where
  "get_pricing h = map snd (foldl count_step (foldl quote_step [] (offers h)) (offers h))"

section \<open>Depth\<close>

record depth_level =
  dl_price :: flt
  dl_total :: int
  dl_free :: int
  dl_providers :: nat
  dl_tps :: flt
  dl_trust :: string
  dl_encrypted :: nat

text \<open>\<open>round(round(price / 0.05) * 0.05, 2)\<close>.\<close>

definition price_bucket :: "flt \<Rightarrow> flt" where
  "price_bucket x = py_round (rnd (of_int (round_even (rnd (x / lit (1 / 20)))) * lit (1 / 20))) 2"

definition TRUST_ORDER :: "string list" where
  "TRUST_ORDER = [''open'', ''contained'', ''hardened'', ''confidential'']"

fun index_of :: "'a \<Rightarrow> 'a list \<Rightarrow> nat" where
  "index_of x [] = 0"
| "index_of x (y # ys) = (if x = y then 0 else Suc (index_of x ys))"

definition trust_index :: "string \<Rightarrow> nat" where
  "trust_index t = (if t \<in> set TRUST_ORDER then index_of t TRUST_ORDER else 0)"

definition higher_trust :: "string \<Rightarrow> string \<Rightarrow> string" where
  "higher_trust current t = (if trust_index current < trust_index t then t else current)"

definition new_level :: "flt \<Rightarrow> depth_level" where
  "new_level b = \<lparr>dl_price = b, dl_total = 0, dl_free = 0, dl_providers = 0, dl_tps = 0, dl_trust = ''open'', dl_encrypted = 0\<rparr>"

definition add_to_level :: "connected_provider \<Rightarrow> depth_level \<Rightarrow> depth_level" where
  "add_to_level p l = (let c = cp_caps p in
     \<lparr>dl_price = dl_price l, dl_total = dl_total l + pc_max_concurrent c, dl_free = dl_free l + (pc_max_concurrent c - cp_active p),
      dl_providers = dl_providers l + 1, dl_tps = rnd (dl_tps l + pc_tps c), dl_trust = higher_trust (dl_trust l) (trust_claim p),
      dl_encrypted = dl_encrypted l + (if cp_enc_key p \<noteq> '''' then 1 else 0)\<rparr>)"

definition depth_step :: "(flt, depth_level) dict \<Rightarrow> connected_provider \<Rightarrow> (flt, depth_level) dict" where
  "depth_step d p = (let b = price_bucket (pc_price_out (cp_caps p)) in dict_set b (add_to_level p (dict_get d b (new_level b))) d)"

definition finish_level :: "depth_level \<Rightarrow> depth_level" where
  "finish_level l = (if 0 < dl_providers l then l\<lparr>dl_tps := py_round (rnd (dl_tps l / of_nat (dl_providers l))) 1\<rparr> else l)"

definition get_depth :: "'cb hub \<Rightarrow> depth_level list \<times> int \<times> int" where
  "get_depth h = (let asks = sort_key dl_price (map (finish_level \<circ> snd) (foldl depth_step [] (map snd (hub_providers h))))
     in (asks, sum_list (map dl_total asks), sum_list (map dl_free asks)))"

section \<open>Model search\<close>

text \<open>A result of the model site: its repository id and its other fields.\<close>

definition search_parts :: "string \<Rightarrow> string list" where
  "search_parts repo = filter (\<lambda>w. 3 < length w)
     (split_words (map (\<lambda>c. if c = CHR ''/'' \<or> c = CHR ''-'' then CHR '' '' else c) (str_lower repo)))"

definition matches_parts :: "string list \<Rightarrow> string \<Rightarrow> bool" where
  "matches_parts parts m = list_ex (\<lambda>w. str_contains w m) parts"

definition search_result :: "'cb hub \<Rightarrow> string \<times> trace \<Rightarrow> trace" where
  "search_result h = (\<lambda>(repo, d). (let parts = search_parts repo; lower = map (\<lambda>(p, m). str_lower m) (offers h) in
     dict_set ''provider_count'' (JInt (int (length (filter (\<lambda>(_, p). list_ex (\<lambda>m. matches_parts parts (str_lower m)) (pc_models (cp_caps p)))
        (hub_providers h)))))
      (dict_set ''available_on_exchange'' (JBool (list_ex (matches_parts parts) lower)) d)))"

text \<open>\<open>found\<close> is what \<open>search_hf_models\<close> returns for the query.\<close>

definition search_models :: "(string \<Rightarrow> (string \<times> trace) list) \<Rightarrow> string \<Rightarrow> 'cb hub \<Rightarrow> trace list \<times> string list" where
  "search_models found q h = (if q = '''' then ([], [])
     else (map (search_result h) (found q), sort (remdups (map (\<lambda>(p, m). str_lower m) (offers h)))))"

section \<open>The market\<close>

record market_offer =
  mo_id :: string
  mo_name :: string
  mo_output :: flt
  mo_input :: flt
  mo_cache :: flt
  mo_tps :: flt
  mo_trust :: string
  mo_encrypted :: bool
  mo_load :: flt
  mo_hardware :: string
  mo_slots :: string
  mo_quantization :: json
  mo_context :: int
  mo_format :: string
  mo_verified :: bool
  mo_original :: string

record market_model =
  mk_model :: string
  mk_family :: string
  mk_size :: string
  mk_variant :: string
  mk_key :: string
  mk_caps :: "model_capabilities option"
  mk_offers :: "market_offer list"
  mk_cheapest :: "flt option"
  mk_fastest :: flt
  mk_trust :: string
  mk_references :: "comparison list"
  mk_count :: nat

definition market_offer_of :: "connected_provider \<Rightarrow> string \<Rightarrow> model_entry \<Rightarrow> market_offer" where
  "market_offer_of p m info = (let c = cp_caps p in
     \<lparr>mo_id = cp_id p, mo_name = cp_name p, mo_output = pc_price_out c, mo_input = pc_price_in c, mo_cache = pc_price_cache c,
      mo_tps = pc_tps c, mo_trust = trust_claim p, mo_encrypted = (cp_enc_key p \<noteq> ''''), mo_load = py_round (cp_load_factor p) 2,
      mo_hardware = pc_hardware c, mo_slots = int_str (cp_active p) @ ''/'' @ int_str (pc_max_concurrent c),
      mo_quantization = (if me_quantization info = '''' \<and> cp_model_identity p \<noteq> [] then dict_get (cp_model_identity p) ''quantization'' (JStr '''')
        else JStr (me_quantization info)),
      mo_context = mc_context_length (cp_model_caps p), mo_format = mc_format (cp_model_caps p), mo_verified = cp_model_verified p,
      mo_original = m\<rparr>)"

definition new_market_model :: "model_entry \<Rightarrow> market_model" where
  "new_market_model info = \<lparr>mk_model = me_display info,
     mk_family = (if me_family_display info \<noteq> '''' then me_family_display info else me_family info), mk_size = me_size info,
     mk_variant = me_variant info, mk_key = me_canonical info, mk_caps = None, mk_offers = [], mk_cheapest = None, mk_fastest = 0,
     mk_trust = ''open'', mk_references = [], mk_count = 0\<rparr>"

text \<open>\<open>mk_cheapest\<close> is \<open>None\<close> for the infinite price of a model without an offer.\<close>

definition add_offer :: "connected_provider \<Rightarrow> string \<Rightarrow> model_entry \<Rightarrow> market_model \<Rightarrow> market_model" where
  "add_offer p m info k = k\<lparr>
     mk_caps := (if mk_caps k = None \<and> 0 < mc_context_length (cp_model_caps p) then Some (cp_model_caps p) else mk_caps k),
     mk_offers := mk_offers k @ [market_offer_of p m info],
     mk_cheapest := (case mk_cheapest k of None \<Rightarrow> Some (pc_price_out (cp_caps p)) | Some x \<Rightarrow> Some (min x (pc_price_out (cp_caps p)))),
     mk_fastest := max (mk_fastest k) (pc_tps (cp_caps p)),
     mk_trust := higher_trust (mk_trust k) (trust_claim p)\<rparr>"

text \<open>The groups by canonical id; \<open>None\<close> is the exception of a model name without words.\<close>

fun market_groups :: "(connected_provider \<times> string) list \<Rightarrow> (string, market_model) dict \<Rightarrow> (string, market_model) dict option" where
  "market_groups [] d = Some d"
| "market_groups ((p, m) # xs) d = (if m = ''default'' then market_groups xs d
     else (case parse_model_info m '''' None 0 of
       None \<Rightarrow> None
     | Some info \<Rightarrow> (let key = me_canonical info in
         market_groups xs (dict_set key (add_offer p m info (dict_get d key (new_market_model info))) d))))"

definition lowest_positive :: "flt list \<Rightarrow> flt" where
  "lowest_positive xs = (case filter (\<lambda>x. 0 < x) xs of [] \<Rightarrow> 0 | y # ys \<Rightarrow> fold min ys y)"

definition no_capabilities :: model_capabilities where
  "no_capabilities = \<lparr>mc_context_length = 0, mc_vision = False, mc_tools = False, mc_architecture = '''', mc_model_type = '''',
     mc_repo_id = '''', mc_format = ''''\<rparr>"

definition finish_model :: "price_reference list \<Rightarrow> market_model \<Rightarrow> market_model" where
  "finish_model refs k = k\<lparr>
     mk_references := compute_savings (dflt 0 (mk_cheapest k)) (lowest_positive (map mo_input (mk_offers k)))
        (lowest_positive (map mo_cache (mk_offers k))) refs,
     mk_count := length (mk_offers k), mk_offers := sort_key mo_output (mk_offers k),
     mk_caps := Some (case mk_caps k of None \<Rightarrow> no_capabilities | Some c \<Rightarrow> c)\<rparr>"

text \<open>The answer and time of the request for prices that a model may cause, by its place in the list.\<close>

record price_site =
  ps_float :: "json \<Rightarrow> flt option"
  ps_clock :: "nat \<Rightarrow> flt"
  ps_answer :: "nat \<Rightarrow> json option"

fun finish_models :: "price_site \<Rightarrow> nat \<Rightarrow> collector option \<Rightarrow> market_model list \<Rightarrow> legacy_prices \<Rightarrow> market_model list option \<times> legacy_prices" where
  "finish_models ps i c [] s = (Some [], s)"
| "finish_models ps i c (k # ks) s = (case get_reference_prices (ps_float ps) (ps_clock ps i) (ps_answer ps i) (mk_model k) c s of
     (None, s1) \<Rightarrow> (None, s1)
   | (Some refs, s1) \<Rightarrow> (case finish_models ps (Suc i) c ks s1 of
       (r, s2) \<Rightarrow> (map_option ((#) (finish_model refs k)) r, s2)))"

definition get_market :: "price_site \<Rightarrow> collector option \<Rightarrow> 'cb hub \<Rightarrow> legacy_prices \<Rightarrow> (market_model list \<times> nat \<times> nat) option \<times> legacy_prices" where
  "get_market ps c h s = (case market_groups (offers h) [] of
     None \<Rightarrow> (None, s)
   | Some d \<Rightarrow> (case finish_models ps 0 c (map snd d) s of
       (None, s') \<Rightarrow> (None, s')
     | (Some ks, s') \<Rightarrow> (Some (sort_key (\<lambda>k. - int (mk_count k)) ks, provider_count h, length ks), s')))"

end
