(* ===== verification/FeedViews.thy ===== *)
theory FeedViews
  imports ExchangeViews AuthRoutes
begin

text \<open>
  \<open>coordinator/routes_exchange.py\<close>, part two: the reference prices by model family with the exchange's own
  offers among them, their daily history, and the telemetry of the engine.
\<close>

section \<open>Reference prices by family\<close>

text \<open>A line of a family: source, output price and the dict that is shown.\<close>

record family_line =
  fl_source :: string
  fl_output :: flt
  fl_shown :: trace

record price_family =
  pf_key :: string
  pf_name :: json
  pf_lines :: "family_line list"
  pf_savings :: "int option"
  pf_cheapest :: "string option"
  pf_count :: nat

definition positive_or_null :: "flt \<Rightarrow> json" where
  "positive_or_null x = (if 0 < x then JFloat x else JNull)"

definition text_or_null :: "string \<Rightarrow> json" where
  "text_or_null s = (if s = '''' then JNull else JStr s)"

definition entry_line :: "price_entry \<Rightarrow> family_line" where
  "entry_line e = \<lparr>fl_source = pe_source e, fl_output = pe_output e, fl_shown = [(''source'', JStr (pe_source e)),
     (''model_id'', JStr (pe_model e)), (''display_name'', pe_display e), (''price_input'', JFloat (pe_input e)),
     (''price_output'', JFloat (pe_output e)), (''price_cache_read'', JFloat (pe_cache e)), (''price_cache_write'', JFloat (pe_cache_write e)),
     (''context_length'', pe_context e), (''comparison_type'', JStr (if pe_family e \<noteq> '''' then ''same_model'' else ''alternative'')),
     (''quantization'', text_or_null (pe_quantization e)), (''intelligence_index'', pe_intelligence e), (''coding_index'', pe_coding e),
     (''agentic_index'', pe_agentic e), (''reasoning_price'', positive_or_null (pe_reasoning e)),
     (''web_search_price'', positive_or_null (pe_web_search e))]\<rparr>"

definition own_line :: "connected_provider \<Rightarrow> string \<Rightarrow> model_entry \<Rightarrow> family_line" where
  "own_line p m info = (let c = cp_caps p in \<lparr>fl_source = ''inference-exchange'', fl_output = pc_price_out c,
     fl_shown = [(''source'', JStr ''inference-exchange''), (''model_id'', JStr m), (''display_name'', JStr (me_display info)),
       (''price_input'', JFloat (pc_price_in c)), (''price_output'', JFloat (pc_price_out c)), (''context_length'', JInt (me_context info)),
       (''comparison_type'', JStr ''same_model''), (''trust_level'', JStr (trust_claim p)), (''encrypted'', JBool (cp_enc_key p \<noteq> '''')),
       (''quantization'', text_or_null (me_quantization info))]\<rparr>)"

definition put_line :: "string \<Rightarrow> json \<Rightarrow> family_line \<Rightarrow> (string, price_family) dict \<Rightarrow> (string, price_family) dict" where
  "put_line key name l d = (let f = dict_get d key \<lparr>pf_key = key, pf_name = name, pf_lines = [], pf_savings = None, pf_cheapest = None, pf_count = 0\<rparr>
     in dict_set key (f\<lparr>pf_lines := pf_lines f @ [l]\<rparr>) d)"

text \<open>The filters \<open>source\<close> and \<open>model\<close> of the query; both are off when empty.\<close>

definition wanted_entry :: "string \<Rightarrow> string \<Rightarrow> price_entry \<Rightarrow> bool" where
  "wanted_entry model source e = ((source = '''' \<or> pe_source e = source)
     \<and> (model = '''' \<or> str_contains (str_lower model) (pe_family_key e) \<or> str_contains (str_lower model) (pe_family e)))"

definition wanted_own :: "string \<Rightarrow> model_entry \<Rightarrow> bool" where
  "wanted_own model info = (model = '''' \<or> str_contains (str_lower model) (me_canonical info) \<or> str_contains (str_lower model) (me_family info))"

fun own_lines :: "string \<Rightarrow> (connected_provider \<times> string) list \<Rightarrow> (string, price_family) dict \<Rightarrow> (string, price_family) dict option" where
  "own_lines model [] d = Some d"
| "own_lines model ((p, m) # xs) d = (case parse_model_info m '''' None 0 of
     None \<Rightarrow> None
   | Some info \<Rightarrow> own_lines model xs
       (if wanted_own model info then put_line (me_canonical info) (JStr (me_display info)) (own_line p m info) d else d))"

fun lowest :: "flt list \<Rightarrow> flt" where
  "lowest [] = 0"
| "lowest (x # xs) = fold min xs x"

definition finish_family :: "price_family \<Rightarrow> price_family" where
  "finish_family f = (let ls = sort_key fl_output (pf_lines f);
       own = filter (\<lambda>l. fl_source l = ''inference-exchange'') ls; alt = filter (\<lambda>l. fl_source l \<noteq> ''inference-exchange'') ls;
       x = lowest (map fl_output own); y = lowest (map fl_output alt); both = (own \<noteq> [] \<and> alt \<noteq> [])
     in f\<lparr>pf_lines := ls, pf_count := length ls,
          pf_savings := (if both \<and> 0 < y then Some (round_even (rnd (rnd (1 - rnd (x / y)) * 100))) else None),
          pf_cheapest := (if both then Some (if x \<le> y then ''inference-exchange'' else fl_source (hd alt)) else None)\<rparr>)"

text \<open>The sources are a set in the code; their order has no meaning.\<close>

definition reference_view :: "string \<Rightarrow> string \<Rightarrow> collector option \<Rightarrow> 'cb hub \<Rightarrow> (price_family list \<times> string list) option" where
  "reference_view model source c h = (let all = (case c of None \<Rightarrow> [] | Some k \<Rightarrow> get_all_current k);
       d = fold (\<lambda>e. put_line (pe_family_key e) (pe_display e) (entry_line e)) (filter (wanted_entry model source) all) []
     in case own_lines model (offers h) d of
          None \<Rightarrow> None
        | Some d' \<Rightarrow> Some (sort_key (\<lambda>f. - int (pf_count f)) (map (finish_family \<circ> snd) d'),
            remdups (map pe_source all) @ [''inference-exchange'']))"

section \<open>History\<close>

text \<open>\<open>strftime("%Y-%m-%d")\<close>.\<close>

definition date_text :: "int \<Rightarrow> string" where
  "date_text n = (case civil_date n of (y, m, d) \<Rightarrow> int_str y @ ''-'' @ two_digits m @ ''-'' @ two_digits d)"

text \<open>For every day and source the latest price; rows come in the order of their time.\<close>

definition daily_step :: "(string, (string, flt \<times> flt) dict) dict \<Rightarrow> reference_price \<Rightarrow> (string, (string, flt \<times> flt) dict) dict" where
  "daily_step d r = (let k = date_text (day_of (ref_fetched r)) in
     dict_set k (dict_set (ref_source r) (py_round (ref_input r) 4, py_round (ref_output r) 4) (dict_get d k [])) d)"

definition HISTORY_DAYS :: int where "HISTORY_DAYS = 90"

text \<open>The days are shown in the order of their dates as text; \<open>None\<close> without a family.\<close>

definition price_history :: "string \<Rightarrow> int \<Rightarrow> flt \<Rightarrow> db \<Rightarrow> (string \<times> (string, flt \<times> flt) dict) list option" where
  "price_history family days now db = (if family = '''' then None
     else (let n = min days HISTORY_DAYS; rows = list_reference_price_history family (rnd (now - of_int (n * 86400))) db
       in Some (sort_key fst (foldl daily_step [] rows))))"

section \<open>Telemetry\<close>

record telemetry =
  te_match_rate :: flt
  te_requests :: nat
  te_online :: nat
  te_slots :: int
  te_used :: int
  te_utilization :: flt
  te_encrypted :: nat
  te_coverage :: flt
  te_last_1m :: nat
  te_last_5m :: nat
  te_tokens_1m :: int
  te_tokens_5m :: int
  te_avg_cost :: flt
  te_avg_tokens :: flt
  te_volume :: flt

text \<open>\<open>StoreBillingAdapter.recent_bills\<close>: the last 50 transactions, oldest first.\<close>

definition recent_bills :: "db \<Rightarrow> transaction list" where
  "recent_bills db = rev (recent_transactions 50 db)"

definition newer_than :: "flt \<Rightarrow> flt \<Rightarrow> transaction list \<Rightarrow> transaction list" where
  "newer_than now s ts = filter (\<lambda>t. rnd (now - tx_time t) < s) ts"

definition get_telemetry :: "flt \<Rightarrow> 'cb hub \<Rightarrow> db \<Rightarrow> telemetry" where
  "get_telemetry now h db = (let ps = map snd (hub_providers h); online = provider_count h;
       slots = sum_list (map (\<lambda>p. pc_max_concurrent (cp_caps p)) ps); used = sum_list (map cp_active ps);
       enc = length (filter (\<lambda>p. cp_enc_key p \<noteq> '''') ps); s = billing_summary db;
       recent = (let b = recent_bills db in drop (length b - 100) b);
       m1 = newer_than now 60 recent; m5 = newer_than now 300 recent
     in \<lparr>te_match_rate = (if 0 < sum_requests s then 1 else 0), te_requests = sum_requests s, te_online = online, te_slots = slots,
         te_used = used, te_utilization = (if 0 < slots then py_round (int_div used slots) 3 else 0), te_encrypted = enc,
         te_coverage = (if 0 < online then py_round (int_div (int enc) (int online)) 2 else 0),
         te_last_1m = length m1, te_last_5m = length m5, te_tokens_1m = sum_list (map tx_output m1),
         te_tokens_5m = sum_list (map tx_output m5),
         te_avg_cost = (if recent = [] then 0
           else py_round (rnd (int_div (sum_list (map tx_cost recent)) (int (length recent)) / 1000000)) 6),
         te_avg_tokens = (if recent = [] then 0 else py_round (int_div (sum_list (map tx_output recent)) (int (length recent))) 1),
         te_volume = py_round (sum_volume s) 6\<rparr>)"

definition get_stats :: "'cb hub \<Rightarrow> db \<Rightarrow> nat \<times> nat \<times> nat \<times> flt \<times> int" where
  "get_stats h db = (let s = billing_summary db in
     (provider_count h, length (available_models h), sum_requests s, py_round (sum_volume s) 6, sum_tokens s))"

end
