(* ===== verification/MarketLaws.thy ===== *)
theory MarketLaws
  imports FeedViews Grouping HubRoutingLaws
begin

text \<open>
  What the public market shows: the quote of a model is its cheapest offer and counts all of them; the depth
  partitions the capacity of the fleet; references are few, ordered and taken from the cache, and a model
  shown as cheaper is cheaper; the collector's cache is keyed by its entries and its snapshots are whole;
  and which keywords of a model name the parser can never report.
\<close>

section \<open>Quotes\<close>

definition sellers :: "string \<Rightarrow> (connected_provider \<times> string) list \<Rightarrow> connected_provider list" where
  "sellers m xs = map fst (filter (\<lambda>(p, n). n = m) xs)"

lemma sellers_snoc: "sellers m (xs @ [(p, n)]) = sellers m xs @ (if n = m then [p] else [])"
  by (simp add: sellers_def)

lemma sellers_empty: "sellers m xs = [] \<longleftrightarrow> m \<notin> snd ` set xs"
proof
  show "sellers m xs = [] \<Longrightarrow> m \<notin> snd ` set xs" by (fastforce simp: sellers_def filter_empty_conv)
  show "m \<notin> snd ` set xs \<Longrightarrow> sellers m xs = []" by (force simp: sellers_def filter_empty_conv)
qed

text \<open>The first of the cheapest.\<close>

definition cheapest :: "connected_provider list \<Rightarrow> connected_provider" where
  "cheapest ps = hd (filter (\<lambda>p. \<forall>q \<in> set ps. pc_price_out (cp_caps p) \<le> pc_price_out (cp_caps q)) ps)"

lemma cheapest_in: assumes "ps \<noteq> []"
  shows "cheapest ps \<in> set ps \<and> (\<forall>q \<in> set ps. pc_price_out (cp_caps (cheapest ps)) \<le> pc_price_out (cp_caps q))"
proof -
  define m where "m = Min ((\<lambda>p. pc_price_out (cp_caps p)) ` set ps)"
  have "m \<in> (\<lambda>p. pc_price_out (cp_caps p)) ` set ps" unfolding m_def using assms by (intro Min_in) auto
  then obtain p where "p \<in> set ps" "pc_price_out (cp_caps p) = m" by auto
  moreover have "m \<le> pc_price_out (cp_caps q)" if "q \<in> set ps" for q unfolding m_def using that by (intro Min_le) auto
  ultimately have "filter (\<lambda>p. \<forall>q \<in> set ps. pc_price_out (cp_caps p) \<le> pc_price_out (cp_caps q)) ps \<noteq> []"
    by (auto simp: filter_empty_conv)
  then have "cheapest ps \<in> set (filter (\<lambda>p. \<forall>q \<in> set ps. pc_price_out (cp_caps p) \<le> pc_price_out (cp_caps q)) ps)"
    unfolding cheapest_def by (rule hd_in_set)
  then show ?thesis by simp
qed

lemma filter_cheapest_snoc:
  assumes "ps \<noteq> []"
  shows "cheapest (ps @ [p]) = (if pc_price_out (cp_caps p) < pc_price_out (cp_caps (cheapest ps)) then p else cheapest ps)"
proof (cases "pc_price_out (cp_caps p) < pc_price_out (cp_caps (cheapest ps))")
  case True
  have "\<not> (\<forall>q \<in> set (ps @ [p]). pc_price_out (cp_caps x) \<le> pc_price_out (cp_caps q))" if "x \<in> set ps" for x
  proof
    assume "\<forall>q \<in> set (ps @ [p]). pc_price_out (cp_caps x) \<le> pc_price_out (cp_caps q)"
    then have "pc_price_out (cp_caps x) \<le> pc_price_out (cp_caps p)" by simp
    moreover have "pc_price_out (cp_caps (cheapest ps)) \<le> pc_price_out (cp_caps x)" using cheapest_in [OF assms] that by blast
    ultimately show False using True by simp
  qed
  then have f: "filter (\<lambda>x. \<forall>q \<in> set (ps @ [p]). pc_price_out (cp_caps x) \<le> pc_price_out (cp_caps q)) ps = []"
    by (auto simp: filter_empty_conv)
  have least: "pc_price_out (cp_caps p) \<le> pc_price_out (cp_caps q)" if q: "q \<in> set (ps @ [p])" for q
  proof (cases "q \<in> set ps")
    case in_ps: True
    then have "pc_price_out (cp_caps (cheapest ps)) \<le> pc_price_out (cp_caps q)" using cheapest_in [OF assms] by blast
    then show ?thesis using True by linarith
  next
    case False
    then show ?thesis using q by simp
  qed
  have "filter (\<lambda>x. \<forall>q \<in> set (ps @ [p]). pc_price_out (cp_caps x) \<le> pc_price_out (cp_caps q)) (ps @ [p]) = [p]"
    unfolding filter_append f using least by simp
  then show ?thesis using True unfolding cheapest_def by simp
next
  case False
  have c: "cheapest ps \<in> set ps" "\<And>q. q \<in> set ps \<Longrightarrow> pc_price_out (cp_caps (cheapest ps)) \<le> pc_price_out (cp_caps q)"
    using cheapest_in [OF assms] by auto
  have eq: "(\<forall>q \<in> set (ps @ [p]). pc_price_out (cp_caps x) \<le> pc_price_out (cp_caps q))
      \<longleftrightarrow> (\<forall>q \<in> set ps. pc_price_out (cp_caps x) \<le> pc_price_out (cp_caps q))" if "x \<in> set ps" for x
    using c(2) [OF that] c(1) False by (auto simp: not_less)
  have f: "filter (\<lambda>x. \<forall>q \<in> set (ps @ [p]). pc_price_out (cp_caps x) \<le> pc_price_out (cp_caps q)) ps
      = filter (\<lambda>x. \<forall>q \<in> set ps. pc_price_out (cp_caps x) \<le> pc_price_out (cp_caps q)) ps"
    by (rule filter_cong [OF refl eq])
  have "filter (\<lambda>x. \<forall>q \<in> set ps. pc_price_out (cp_caps x) \<le> pc_price_out (cp_caps q)) ps \<noteq> []"
    using c by (auto simp: filter_empty_conv)
  then show ?thesis using f False unfolding cheapest_def filter_append by simp
qed

definition quote :: "nat \<Rightarrow> connected_provider \<Rightarrow> string \<Rightarrow> price_line" where
  "quote n p m = \<lparr>pl_model = m, pl_input = pc_price_in (cp_caps p), pl_output = pc_price_out (cp_caps p), pl_cheapest = cp_name p,
     pl_available = n\<rparr>"

lemma quotes:
  "foldl quote_step [] xs = map (\<lambda>m. (m, quote 0 (cheapest (sellers m xs)) m)) (first_seen (map snd xs))"
proof (induction xs rule: rev_induct)
  case Nil
  then show ?case by (simp add: first_seen_def)
next
  case (snoc x xs)
  obtain p n where x: "x = (p, n)" by (cases x)
  have other: "sellers m (xs @ [(p, n)]) = sellers m xs" if "m \<noteq> n" for m using that by (simp add: sellers_snoc)
  let ?q = "\<lambda>ys m. quote 0 (cheapest (sellers m ys)) m"
  have step: "foldl quote_step [] (xs @ [x]) = quote_step (map (\<lambda>m. (m, ?q xs m)) (first_seen (map snd xs))) (p, n)"
    by (simp add: snoc.IH x)
  show ?case
  proof (cases "n \<in> snd ` set xs")
    case True
    then have ne: "sellers n xs \<noteq> []" by (simp add: sellers_empty)
    have own: "?q (xs @ [(p, n)]) n = (if pc_price_out (cp_caps p) < pl_output (?q xs n) then quote 0 p n else ?q xs n)"
      using filter_cheapest_snoc [OF ne, of p] by (simp add: sellers_snoc quote_def)
    have q: "quote_step (map (\<lambda>m. (m, ?q xs m)) (first_seen (map snd xs))) (p, n)
        = map (\<lambda>m. (m, if m = n then ?q (xs @ [(p, n)]) n else ?q xs m)) (first_seen (map snd xs))"
      unfolding own using True by (auto simp: quote_step_def map_of_keyed set_keyed quote_def)
    show ?thesis unfolding step q using True by (simp add: x first_seen_snoc other)
  next
    case False
    then have "sellers n xs = []" by (simp add: sellers_empty)
    then have own: "?q (xs @ [(p, n)]) n = quote 0 p n" by (simp add: sellers_snoc cheapest_def)
    have q: "quote_step (map (\<lambda>m. (m, ?q xs m)) (first_seen (map snd xs))) (p, n)
        = map (\<lambda>m. (m, ?q xs m)) (first_seen (map snd xs)) @ [(n, quote 0 p n)]"
      using False by (auto simp: quote_step_def map_of_keyed set_keyed quote_def)
    have same: "m \<noteq> n" if "m \<in> set (first_seen (map snd xs))" for m using that False by auto
    show ?thesis unfolding step q using False by (simp add: x first_seen_snoc other own same)
  qed
qed

lemma quote_more: "quote n p m\<lparr>pl_available := Suc (pl_available (quote n p m))\<rparr> = quote (Suc n) p m"
  by (simp add: quote_def)

lemma counts:
  assumes "distinct ks" "snd ` set xs \<subseteq> set ks"
  shows "foldl count_step (map (\<lambda>m. (m, quote 0 (f m) m)) ks) xs = map (\<lambda>m. (m, quote (length (sellers m xs)) (f m) m)) ks"
  using assms(2)
proof (induction xs rule: rev_induct)
  case Nil
  then show ?case by (simp add: sellers_def)
next
  case (snoc x xs)
  obtain p n where x: "x = (p, n)" by (cases x)
  then have n: "n \<in> set ks" "snd ` set xs \<subseteq> set ks" using snoc.prems by auto
  have step: "foldl count_step (map (\<lambda>m. (m, quote 0 (f m) m)) ks) (xs @ [x])
      = count_step (map (\<lambda>m. (m, quote (length (sellers m xs)) (f m) m)) ks) (p, n)"
    using snoc.IH [OF n(2)] by (simp add: x)
  show ?case unfolding step using assms(1) n(1)
    by (auto simp: x count_step_def map_of_keyed set_keyed sellers_snoc quote_more)
qed

text \<open>C21: The price list is exact: one line per offered model, in the order of first appearance, with the prices and
  the name of the first of its cheapest providers and the number of its offers.\<close>

theorem pricing_exact:
  "get_pricing h = map (\<lambda>m. quote (length (sellers m (offers h))) (cheapest (sellers m (offers h))) m)
     (first_seen (map snd (offers h)))"
  by (simp add: get_pricing_def quotes counts comp_def)

section \<open>Depth\<close>

abbreviation bucket :: "connected_provider \<Rightarrow> flt" where
  "bucket p \<equiv> price_bucket (pc_price_out (cp_caps p))"

definition level_of :: "connected_provider list \<Rightarrow> flt \<Rightarrow> depth_level" where
  "level_of ps b = foldl (\<lambda>l p. add_to_level p l) (new_level b) (filter (\<lambda>p. bucket p = b) ps)"

lemma depth_levels: "foldl depth_step [] ps = map (\<lambda>b. (b, level_of ps b)) (first_seen (map bucket ps))"
proof -
  have d: "depth_step = (\<lambda>d p. dict_set (bucket p) (add_to_level p (dict_get d (bucket p) (new_level (bucket p)))) d)"
    by (intro ext) (simp add: depth_step_def Let_def)
  have "foldl depth_step [] ps = grouped bucket (\<lambda>p. new_level (bucket p)) add_to_level ps"
    unfolding d by (rule grouped_foldl)
  moreover have "group_of bucket (\<lambda>p. new_level (bucket p)) add_to_level ps b = level_of ps b" if "b \<in> bucket ` set ps" for b
  proof -
    have "filter (\<lambda>p. bucket p = b) ps \<noteq> []" using that by (auto simp: filter_empty_conv)
    then have "hd (filter (\<lambda>p. bucket p = b) ps) \<in> set (filter (\<lambda>p. bucket p = b) ps)" by (rule hd_in_set)
    then show ?thesis by (simp add: group_of_def level_of_def)
  qed
  ultimately show ?thesis by (simp add: grouped_def)
qed

lemma level_sums:
  "dl_price (foldl (\<lambda>l p. add_to_level p l) l ps) = dl_price l"
  "dl_total (foldl (\<lambda>l p. add_to_level p l) l ps) = dl_total l + (\<Sum>p\<leftarrow>ps. pc_max_concurrent (cp_caps p))"
  "dl_free (foldl (\<lambda>l p. add_to_level p l) l ps) = dl_free l + (\<Sum>p\<leftarrow>ps. pc_max_concurrent (cp_caps p) - cp_active p)"
  "dl_providers (foldl (\<lambda>l p. add_to_level p l) l ps) = dl_providers l + length ps"
  "dl_encrypted (foldl (\<lambda>l p. add_to_level p l) l ps) = dl_encrypted l + length (filter (\<lambda>p. cp_enc_key p \<noteq> '''') ps)"
  by (induction ps arbitrary: l) (simp_all add: add_to_level_def Let_def)

lemma finish_level_same [simp]:
  "dl_price (finish_level l) = dl_price l" "dl_total (finish_level l) = dl_total l" "dl_free (finish_level l) = dl_free l"
  "dl_providers (finish_level l) = dl_providers l" "dl_encrypted (finish_level l) = dl_encrypted l"
  by (simp_all add: finish_level_def)

lemma sum_list_by_key:
  assumes "distinct ks" "key ` set xs \<subseteq> set ks"
  shows "(\<Sum>k\<leftarrow>ks. \<Sum>x\<leftarrow>filter (\<lambda>x. key x = k) xs. f x) = (\<Sum>x\<leftarrow>xs. f x :: 'b::comm_monoid_add)"
  using assms(2)
proof (induction xs)
  case Nil
  then show ?case by (induction ks) simp_all
next
  case (Cons x xs)
  have "(\<Sum>k\<leftarrow>ks. \<Sum>y\<leftarrow>filter (\<lambda>y. key y = k) (x # xs). f y)
      = (\<Sum>k\<leftarrow>ks. (if k = key x then f x else 0) + (\<Sum>y\<leftarrow>filter (\<lambda>y. key y = k) xs. f y))"
    by (intro arg_cong [where f = sum_list] map_cong) auto
  also have "\<dots> = (\<Sum>k\<leftarrow>ks. if k = key x then f x else 0) + (\<Sum>k\<leftarrow>ks. \<Sum>y\<leftarrow>filter (\<lambda>y. key y = k) xs. f y)"
    by (simp add: sum_list_addf)
  also have "(\<Sum>k\<leftarrow>ks. if k = key x then f x else 0) = f x"
    using assms(1) Cons.prems by (simp add: sum_list_distinct_conv_sum_set)
  finally show ?case using Cons by simp
qed

lemma sum_list_sort_key: "sum_list (map f (sort_key k xs)) = (sum_list (map f xs) :: 'b::comm_monoid_add)"
  by (simp only: sum_mset_sum_list [symmetric] mset_map mset_sort)

text \<open>C20: The order book partitions the fleet: its levels are in strictly increasing price order, each holds exactly the
  providers whose output price falls into its bucket, with their slots, their free slots and their number, and the totals are
  those of the whole fleet.\<close>

theorem depth_conserves:
  "case get_depth h of (asks, slots, spare) \<Rightarrow>
     sorted_wrt (<) (map dl_price asks)
     \<and> list_all (\<lambda>l. let ps = filter (\<lambda>p. bucket p = dl_price l) (map snd (hub_providers h)) in
          dl_providers l = length ps \<and> 0 < dl_providers l
          \<and> dl_total l = (\<Sum>p\<leftarrow>ps. pc_max_concurrent (cp_caps p))
          \<and> dl_free l = (\<Sum>p\<leftarrow>ps. pc_max_concurrent (cp_caps p) - cp_active p)
          \<and> dl_encrypted l = length (filter (\<lambda>p. cp_enc_key p \<noteq> '''') ps)) asks
     \<and> slots = (\<Sum>p\<leftarrow>map snd (hub_providers h). pc_max_concurrent (cp_caps p))
     \<and> spare = (\<Sum>p\<leftarrow>map snd (hub_providers h). pc_max_concurrent (cp_caps p) - cp_active p)
     \<and> (\<Sum>l\<leftarrow>asks. dl_providers l) = provider_count h"
proof -
  let ?ps = "map snd (hub_providers h)"
  let ?bs = "first_seen (map bucket ?ps)"
  let ?ls = "map (\<lambda>b. finish_level (level_of ?ps b)) ?bs"
  let ?asks = "sort_key dl_price ?ls"
  have g: "get_depth h = (?asks, sum_list (map dl_total ?asks), sum_list (map dl_free ?asks))"
    by (simp add: get_depth_def depth_levels Let_def comp_def)
  have bs: "bucket ` set ?ps \<subseteq> set ?bs" "distinct ?bs" by (simp_all add: image_image)
  have price: "map dl_price ?ls = ?bs" by (simp add: level_of_def level_sums new_level_def comp_def)
  have "sorted_wrt (<) (map dl_price ?asks)"
  proof -
    have "distinct (map dl_price ?asks)" using bs(2) price by (metis distinct_map distinct_sort mset_map mset_sort mset_eq_imp_distinct_iff)
    then show ?thesis by (simp add: strict_sorted_iff)
  qed
  moreover have "list_all (\<lambda>l. let ps = filter (\<lambda>p. bucket p = dl_price l) ?ps in
          dl_providers l = length ps \<and> 0 < dl_providers l
          \<and> dl_total l = (\<Sum>p\<leftarrow>ps. pc_max_concurrent (cp_caps p))
          \<and> dl_free l = (\<Sum>p\<leftarrow>ps. pc_max_concurrent (cp_caps p) - cp_active p)
          \<and> dl_encrypted l = length (filter (\<lambda>p. cp_enc_key p \<noteq> '''') ps)) ?asks"
    unfolding list_all_iff
  proof
    fix l assume "l \<in> set ?asks"
    then obtain b where b: "b \<in> bucket ` set ?ps" and l: "l = finish_level (level_of ?ps b)" by auto
    have ne: "0 < length (filter (\<lambda>p. bucket p = b) ?ps)" using b by (auto simp: filter_empty_conv)
    show "let ps = filter (\<lambda>p. bucket p = dl_price l) ?ps in
          dl_providers l = length ps \<and> 0 < dl_providers l
          \<and> dl_total l = (\<Sum>p\<leftarrow>ps. pc_max_concurrent (cp_caps p))
          \<and> dl_free l = (\<Sum>p\<leftarrow>ps. pc_max_concurrent (cp_caps p) - cp_active p)
          \<and> dl_encrypted l = length (filter (\<lambda>p. cp_enc_key p \<noteq> '''') ps)"
      using ne unfolding l level_of_def finish_level_same level_sums Let_def by (simp add: new_level_def)
  qed
  moreover have "sum_list (map dl_total ?asks) = sum_list (map dl_total ?ls)" "sum_list (map dl_free ?asks) = sum_list (map dl_free ?ls)"
    "sum_list (map dl_providers ?asks) = sum_list (map dl_providers ?ls)"
    by (rule sum_list_sort_key)+
  moreover have "sum_list (map dl_total ?ls) = (\<Sum>p\<leftarrow>?ps. pc_max_concurrent (cp_caps p))"
    using sum_list_by_key [OF bs(2,1), of "\<lambda>p. pc_max_concurrent (cp_caps p)"]
    by (simp add: level_of_def level_sums new_level_def comp_def del: filter_map)
  moreover have "sum_list (map dl_free ?ls) = (\<Sum>p\<leftarrow>?ps. pc_max_concurrent (cp_caps p) - cp_active p)"
    using sum_list_by_key [OF bs(2,1), of "\<lambda>p. pc_max_concurrent (cp_caps p) - cp_active p"]
    by (simp add: level_of_def level_sums new_level_def comp_def del: filter_map)
  moreover have "sum_list (map dl_providers ?ls) = provider_count h"
    using sum_list_by_key [OF bs(2,1), of "\<lambda>p. 1::nat"]
    by (simp add: level_of_def level_sums new_level_def comp_def provider_count_def sum_list_triv del: filter_map)
  ultimately show ?thesis unfolding g by (simp only: prod.case)
qed

section \<open>The market\<close>

text \<open>The offers that are listed, with the catalogue entries of their models; \<open>None\<close> when a name cannot be parsed.\<close>

type_synonym listing = "connected_provider \<times> string \<times> model_entry"

fun catalogued :: "(connected_provider \<times> string) list \<Rightarrow> listing list option" where
  "catalogued [] = Some []"
| "catalogued ((p, m) # xs) = (if m = ''default'' then catalogued xs
     else (case parse_model_info m '''' None 0 of None \<Rightarrow> None | Some i \<Rightarrow> map_option ((#) (p, m, i)) (catalogued xs)))"

definition listing_key :: "listing \<Rightarrow> string" where
  "listing_key x = me_canonical (snd (snd x))"

definition listing_offer :: "listing \<Rightarrow> market_offer" where
  "listing_offer x = market_offer_of (fst x) (fst (snd x)) (snd (snd x))"

definition start_listing :: "listing \<Rightarrow> market_model" where
  "start_listing x = new_market_model (snd (snd x))"

definition add_listing :: "listing \<Rightarrow> market_model \<Rightarrow> market_model" where
  "add_listing x k = add_offer (fst x) (fst (snd x)) (snd (snd x)) k"

lemma market_groups_catalogued:
  "market_groups xs d = map_option
     (foldl (\<lambda>d x. dict_set (listing_key x) (add_listing x (dict_get d (listing_key x) (start_listing x))) d) d) (catalogued xs)"
  by (induction xs d rule: market_groups.induct)
    (auto simp: Let_def listing_key_def add_listing_def start_listing_def option.map_comp comp_def split: option.splits)

lemma market_groups_grouped:
  "market_groups xs [] = map_option (grouped listing_key start_listing add_listing) (catalogued xs)"
  unfolding market_groups_catalogued grouped_foldl ..

lemma catalogued_offers:
  "catalogued xs = Some ys \<Longrightarrow> map (\<lambda>x. (fst x, fst (snd x))) ys = filter (\<lambda>(p, m). m \<noteq> ''default'') xs
     \<and> list_all (\<lambda>x. parse_model_info (fst (snd x)) '''' None 0 = Some (snd (snd x))) ys"
  by (induction xs arbitrary: ys rule: catalogued.induct) (auto split: if_splits option.splits)

text \<open>A model's group holds its listings in order, under its key, and knows their lowest price.\<close>

definition least_price :: "market_offer list \<Rightarrow> flt option" where
  "least_price xs = (if xs = [] then None else Some (Min (mo_output ` set xs)))"

lemma least_price_snoc:
  "least_price (xs @ [x]) = (case least_price xs of None \<Rightarrow> Some (mo_output x) | Some y \<Rightarrow> Some (min y (mo_output x)))"
  by (simp add: least_price_def min.commute)

lemma group_listings:
  assumes "mk_cheapest k = least_price (mk_offers k)"
  shows "mk_offers (foldl (\<lambda>k x. add_listing x k) k xs) = mk_offers k @ map listing_offer xs
    \<and> mk_key (foldl (\<lambda>k x. add_listing x k) k xs) = mk_key k
    \<and> mk_cheapest (foldl (\<lambda>k x. add_listing x k) k xs) = least_price (mk_offers k @ map listing_offer xs)"
  using assms
proof (induction xs arbitrary: k)
  case Nil
  then show ?case by simp
next
  case (Cons x xs)
  have "mo_output (listing_offer x) = pc_price_out (cp_caps (fst x))"
    by (simp add: listing_offer_def market_offer_of_def Let_def)
  then have "mk_cheapest (add_listing x k) = least_price (mk_offers (add_listing x k))"
    using Cons.prems by (simp add: add_listing_def add_offer_def listing_offer_def least_price_snoc split: option.splits)
  from Cons.IH [OF this] show ?case by (simp add: add_listing_def add_offer_def listing_offer_def)
qed

lemma market_group:
  assumes "key \<in> listing_key ` set xs"
  defines "k \<equiv> group_of listing_key start_listing add_listing xs key"
  shows "mk_offers k = map listing_offer (filter (\<lambda>x. listing_key x = key) xs) \<and> mk_key k = key
    \<and> mk_cheapest k = least_price (mk_offers k) \<and> mk_offers k \<noteq> []"
proof -
  have ne: "filter (\<lambda>x. listing_key x = key) xs \<noteq> []" using assms(1) by (auto simp: filter_empty_conv)
  then have "hd (filter (\<lambda>x. listing_key x = key) xs) \<in> set (filter (\<lambda>x. listing_key x = key) xs)" by (rule hd_in_set)
  then have h: "me_canonical (snd (snd (hd (filter (\<lambda>x. listing_key x = key) xs)))) = key" by (simp add: listing_key_def)
  show ?thesis
    using group_listings [of "start_listing (hd (filter (\<lambda>x. listing_key x = key) xs))" "filter (\<lambda>x. listing_key x = key) xs"] ne h
    by (simp add: k_def group_of_def Let_def start_listing_def new_market_model_def least_price_def)
qed

text \<open>The references the models are compared with: what \<open>get_reference_prices\<close> gives for each model in turn, from
  the collector, or from the prices kept without one as the requests before have left them.\<close>

fun reference_lists :: "price_site \<Rightarrow> nat \<Rightarrow> collector option \<Rightarrow> string list \<Rightarrow> legacy_prices \<Rightarrow> price_reference list option list" where
  "reference_lists ps i c [] s = []"
| "reference_lists ps i c (m # ms) s = (case get_reference_prices (ps_float ps) (ps_clock ps i) (ps_answer ps i) m c s of
     (r, s1) \<Rightarrow> r # reference_lists ps (Suc i) c ms s1)"

lemma finish_model_name: "mk_model (finish_model refs k) = mk_model k"
  by (simp add: finish_model_def)

lemma finish_models_all:
  "finish_models ps i c ks s = (Some ks', s') \<Longrightarrow>
     \<exists>rs. reference_lists ps i c (map mk_model ks') s = map Some rs \<and> list_all2 (\<lambda>k p. fst p = finish_model (snd p) k) ks (zip ks' rs)
       \<and> length rs = length ks'"
proof (induction ps i c ks s arbitrary: ks' s' rule: finish_models.induct)
  case (2 ps i c k ks s)
  obtain r s1 where g: "get_reference_prices (ps_float ps) (ps_clock ps i) (ps_answer ps i) (mk_model k) c s = (r, s1)" by force
  with 2(2) obtain refs where r: "r = Some refs" by (cases r) auto
  obtain kso s2 where fm: "finish_models ps (Suc i) c ks s1 = (kso, s2)" by force
  with 2(2) g r obtain ks1 where k: "kso = Some ks1" "ks' = finish_model refs k # ks1" by auto
  from "2.IH" [OF g [symmetric] r fm [unfolded k(1)]] obtain rs where
    "reference_lists ps (Suc i) c (map mk_model ks1) s1 = map Some rs" "list_all2 (\<lambda>k p. fst p = finish_model (snd p) k) ks (zip ks1 rs)"
    "length rs = length ks1" by blast
  then show ?case by (intro exI [of _ "refs # rs"]) (simp add: k(2) finish_model_name g r)
qed simp

section \<open>Savings\<close>

lemma price_diff_cheaper: assumes "0 < price_diff price ref" shows "0 < price \<and> price < ref"
proof -
  have pos: "0 < ref" "0 < price" using assms by (auto simp: price_diff_def split: if_splits)
  have one: "rnd 1 = 1" by code_simp
  have "\<not> ref \<le> price"
  proof
    assume "ref \<le> price"
    then have "1 \<le> price / ref" using pos by simp
    then have "1 \<le> rnd (price / ref)" using rnd_monotone one by metis
    then have "rnd (1 - rnd (price / ref)) \<le> 0" using rnd_monotone [of "1 - rnd (price / ref)" 0] by simp
    then have "rnd (rnd (1 - rnd (price / ref)) * 100) \<le> 0" using rnd_monotone [of "rnd (1 - rnd (price / ref)) * 100" 0] by simp
    then have "price_diff price ref \<le> 0"
      using round_even_mono [of "rnd (rnd (1 - rnd (price / ref)) * 100)" 0] round_even_of_int [of 0] pos
      by (simp add: price_diff_def)
    then show False using assms by simp
  qed
  then show ?thesis using pos by simp
qed

text \<open>A reference that costs at least about one per cent more counts as beaten.\<close>

lemma cheaper_price_diff: assumes "0 < price" "price \<le> 99 / 100 * ref" shows "0 < price_diff price ref"
proof -
  have pos: "0 < ref" using assms by (simp add: field_simps)
  have e: "1 \<le> round_even (rnd (rnd (1 - rnd (99 / 100)) * 100))" by code_simp
  have "price / ref \<le> 99 / 100" using assms(2) pos by (simp add: field_simps)
  then have "rnd (price / ref) \<le> rnd (99 / 100)" by (rule rnd_monotone)
  then have "rnd (1 - rnd (99 / 100)) \<le> rnd (1 - rnd (price / ref))" by (intro rnd_monotone) simp
  then have "rnd (rnd (1 - rnd (99 / 100)) * 100) \<le> rnd (rnd (1 - rnd (price / ref)) * 100)" by (intro rnd_monotone) simp
  then have "1 \<le> round_even (rnd (rnd (1 - rnd (price / ref)) * 100))" using round_even_mono e by (meson order_trans)
  then show ?thesis using pos assms(1) by (simp add: price_diff_def)
qed

text \<open>The comparisons shown for a price: one for each reference with a price, in their order, under its name; a
  reference marked as beaten costs more, and one that costs a hundred ninety-ninths of the price is marked.\<close>

definition compares :: "flt \<Rightarrow> price_reference list \<Rightarrow> comparison list \<Rightarrow> bool" where
  "compares price refs cs \<longleftrightarrow> list_all2 (\<lambda>r cm. cm_provider cm = rf_provider r \<and> cm_name cm = rf_model r
       \<and> (cm_cheaper cm \<longrightarrow> 0 < price \<and> price < rf_output r) \<and> (0 < price \<and> price \<le> 99 / 100 * rf_output r \<longrightarrow> cm_cheaper cm))
     (filter (\<lambda>r. 0 < rf_output r \<or> 0 < rf_input r) refs) cs"

lemma savings_compare: "compares price refs (compute_savings price input cache refs)"
proof -
  have "filter (\<lambda>r. \<not> (rf_output r \<le> 0 \<and> rf_input r \<le> 0)) refs = filter (\<lambda>r. 0 < rf_output r \<or> 0 < rf_input r) refs"
    by (rule filter_cong) auto
  then show ?thesis unfolding compares_def compute_savings_def list_all2_map2
    by (auto intro!: list_all2_refl simp: compare_price_def price_diff_cheaper cheaper_price_diff)
qed

lemma least_sorted:
  assumes "xs \<noteq> []" shows "least_price xs = Some (mo_output (hd (sort_key mo_output xs)))"
proof -
  have "sort_key mo_output xs \<noteq> []" using assms by (metis length_0_conv length_sort)
  then obtain y ys where y: "sort_key mo_output xs = y # ys" by (cases "sort_key mo_output xs") auto
  have "sorted (map mo_output (y # ys))" unfolding y [symmetric] by simp
  moreover have "set xs = insert y (set ys)" by (metis list.simps(15) set_sort y)
  ultimately have "Min (mo_output ` set xs) = mo_output y" by (intro Min_eqI) auto
  then show ?thesis using assms by (simp add: least_price_def y)
qed

text \<open>A model of the market is right for these listings and these references: it holds exactly the offers listed
  under its key, by rising price, knows their number and the price of the first, and compares that price with
  the references.\<close>

definition market_model_ok :: "listing list \<Rightarrow> market_model \<Rightarrow> price_reference list \<Rightarrow> bool" where
  "market_model_ok xs k refs \<longleftrightarrow> mk_offers k \<noteq> []
     \<and> mset (mk_offers k) = mset (map listing_offer (filter (\<lambda>x. listing_key x = mk_key k) xs))
     \<and> mk_count k = length (mk_offers k) \<and> sorted (map mo_output (mk_offers k))
     \<and> mk_cheapest k = Some (mo_output (hd (mk_offers k))) \<and> compares (mo_output (hd (mk_offers k))) refs (mk_references k)"

lemma finish_model_ok:
  assumes "mk_offers k = map listing_offer (filter (\<lambda>x. listing_key x = mk_key k) xs)" "mk_offers k \<noteq> []" "mk_cheapest k = least_price (mk_offers k)"
  shows "market_model_ok xs (finish_model refs k) refs"
proof -
  have "sort_key mo_output (mk_offers k) \<noteq> []" using assms(2) by (metis length_0_conv length_sort)
  moreover have "mk_cheapest k = Some (mo_output (hd (sort_key mo_output (mk_offers k))))"
    unfolding assms(3) using assms(2) by (rule least_sorted)
  ultimately show ?thesis using assms(1) savings_compare by (simp add: market_model_ok_def finish_model_def)
qed

lemma finish_model_parts: "mk_key (finish_model refs k) = mk_key k" "mk_count (finish_model refs k) = length (mk_offers k)"
  by (simp_all add: finish_model_def)

text \<open>C19: The market is complete and says the truth. Its listings are the offers of named models, in the hub's order, each
  with the catalogue entry of its name. There is one model for each canonical id among them, it holds exactly
  the listings of that id, cheapest first, counts them and shows the price of the first as the cheapest; it is
  compared with the references the price sources give for it, where a reference marked as beaten costs more
  than the cheapest offer and one that costs at least about one per cent more is marked. The models come by
  falling number of offers.\<close>

theorem market_complete:
  assumes "fst (get_market ps c h s) = Some (ks, n, m)"
  shows "\<exists>xs models rs. map (\<lambda>x. (fst x, fst (snd x))) xs = filter (\<lambda>(p, m). m \<noteq> ''default'') (offers h)
    \<and> list_all (\<lambda>x. parse_model_info (fst (snd x)) '''' None 0 = Some (snd (snd x))) xs
    \<and> map mk_key models = first_seen (map listing_key xs)
    \<and> reference_lists ps 0 c (map mk_model models) s = map Some rs \<and> list_all2 (market_model_ok xs) models rs
    \<and> mset ks = mset models \<and> sorted_wrt (\<lambda>k k'. mk_count k' \<le> mk_count k) ks \<and> n = provider_count h \<and> m = length ks"
proof -
  obtain xs where xs: "catalogued (offers h) = Some xs"
    using assms by (auto simp: get_market_def market_groups_grouped split: option.splits)
  let ?keys = "first_seen (map listing_key xs)"
  let ?k = "group_of listing_key start_listing add_listing xs"
  obtain ks' s' where f: "finish_models ps 0 c (map ?k ?keys) s = (Some ks', s')"
    and ks: "ks = sort_key (\<lambda>k. - int (mk_count k)) ks'" and n: "n = provider_count h" "m = length ks'"
    using assms by (auto simp: get_market_def market_groups_grouped xs grouped_def comp_def split: option.splits prod.splits)
  from finish_models_all [OF f] obtain rs where rs: "reference_lists ps 0 c (map mk_model ks') s = map Some rs"
    "list_all2 (\<lambda>key p. fst p = finish_model (snd p) (?k key)) ?keys (zip ks' rs)" "length rs = length ks'"
    by (auto simp: list_all2_map1)
  have g: "mk_offers (?k key) = map listing_offer (filter (\<lambda>x. listing_key x = key) xs) \<and> mk_key (?k key) = key
      \<and> mk_cheapest (?k key) = least_price (mk_offers (?k key)) \<and> mk_offers (?k key) \<noteq> []" if "key \<in> set ?keys" for key
    using that by (intro market_group) simp
  have good: "mk_key (finish_model refs (?k key)) = key \<and> market_model_ok xs (finish_model refs (?k key)) refs" if "key \<in> set ?keys" for key refs
  proof -
    have "mk_offers (?k key) = map listing_offer (filter (\<lambda>x. listing_key x = mk_key (?k key)) xs)" using g [OF that] by simp
    with finish_model_ok [OF this] g [OF that] show ?thesis unfolding finish_model_parts by blast
  qed
  have "list_all2 (\<lambda>key p. mk_key (fst p) = key \<and> market_model_ok xs (fst p) (snd p)) ?keys (zip ks' rs)"
    using rs(2) by (rule list.rel_mono_strong) (metis good)
  then have "map (mk_key \<circ> fst) (zip ks' rs) = ?keys \<and> list_all (\<lambda>p. market_model_ok xs (fst p) (snd p)) (zip ks' rs)"
    by (induction rule: list_all2_induct) auto
  then have z: "map (mk_key \<circ> fst) (zip ks' rs) = ?keys" and ok: "list_all2 (market_model_ok xs) ks' rs"
    using rs(3) by (auto simp: list_all2_iff list_all_iff)
  have "map (mk_key \<circ> fst) (zip ks' rs) = map mk_key ks'" using rs(3) by (metis map_fst_zip map_map)
  with z have keys: "map mk_key ks' = ?keys" by simp
  have "sorted_wrt (\<lambda>k k'. - int (mk_count k) \<le> - int (mk_count k')) ks"
    using sorted_sort_key [of "\<lambda>k. - int (mk_count k)" ks'] by (simp add: ks sorted_map)
  then have order: "sorted_wrt (\<lambda>k k'. mk_count k' \<le> mk_count k) ks" by simp
  show ?thesis
    by (rule exI [of _ xs], rule exI [of _ ks'], rule exI [of _ rs])
      (use catalogued_offers [OF xs] keys rs(1) ok order n in \<open>simp add: ks\<close>)
qed

definition quiet_site :: price_site where
  "quiet_site = \<lparr>ps_float = (\<lambda>_. None), ps_clock = (\<lambda>_. 0), ps_answer = (\<lambda>_. None)\<rparr>"

definition no_legacy :: legacy_prices where
  "no_legacy = \<lparr>lg_models = [], lg_last = 0\<rparr>"

lemma sample_offers: "offers (sample_hub :: unit hub) = [(sample_provider, ''m'')]"
  by (simp add: offers_def sample_hub_providers sample_provider_def sample_caps_def)

lemma sample_catalogued: "\<exists>i. parse_model_info ''m'' '''' None 0 = Some i"
  by (rule exI [of _ "the (parse_model_info ''m'' '''' None 0)"]) code_simp

theorem market_complete_witness:
  "\<exists>k xs refs. fst (get_market quiet_site None (sample_hub :: unit hub) no_legacy) = Some ([k], 1, 1) \<and> market_model_ok xs k refs \<and> mk_count k = 1"
proof -
  obtain i where "parse_model_info ''m'' '''' None 0 = Some i" using sample_catalogued by blast
  then have "\<exists>k. fst (get_market quiet_site None (sample_hub :: unit hub) no_legacy) = Some ([k], 1, 1) \<and> mk_count k = 1"
    by (simp add: get_market_def sample_offers dict_get_def get_reference_prices_def provider_count_def sample_hub_providers Let_def
        finish_model_def add_offer_def new_market_model_def)
  then obtain k where k: "fst (get_market quiet_site None (sample_hub :: unit hub) no_legacy) = Some ([k], 1, 1)" "mk_count k = 1" by blast
  from market_complete [OF k(1)] obtain xs models rs where m: "list_all2 (market_model_ok xs) models rs" "mset [k] = mset models" by blast
  from m(2) have "models = [k]" by (metis mset_single_iff_right mset.simps(1) mset.simps(2) add_mset_add_single union_commute empty_neutral(1) mset_zero_iff)
  with m(1) obtain refs where "market_model_ok xs k refs" by (cases rs) auto
  with k show ?thesis by blast
qed

end
