(* ===== verification/AccountViews.thy ===== *)
theory AccountViews
  imports FeedViews StoreOutcomes StoreKeys
begin

text \<open>
  \<open>coordinator/routes_exchange.py\<close>, part three: what a caller sees of its own account (balance, history, usage,
  traces), what operators see, and the public activity. Every handler resolves its caller first; resolving
  an API key and pruning old outcomes write to the store, which is passed on.
\<close>

section \<open>Callers\<close>

record view_call =
  vc_auth :: auth_params
  vc_clock :: auth_clock
  vc_request :: http_request

text \<open>What a handler shows, or how it ends without.\<close>

datatype 'a view_result = Shown 'a | AuthFailed auth_error | NotFound | AdminRequired | StoreFailed store_error | ViewCrashed

definition private_caller :: "view_call \<Rightarrow> db \<Rightarrow> (auth_error + string) \<times> db" where
  "private_caller vc db = resolve_private_caller (ap_sha (vc_auth vc)) (ap_token (vc_auth vc)) (ap_env (vc_auth vc)) (vc_clock vc) (vc_request vc) db"

definition admin_caller :: "view_call \<Rightarrow> db \<Rightarrow> bool" where
  "admin_caller vc db = is_admin_request (ap_token (vc_auth vc)) (ap_env (vc_auth vc)) (vc_clock vc) (vc_request vc) db"

definition for_caller :: "view_call \<Rightarrow> (string \<Rightarrow> db \<Rightarrow> 'a view_result \<times> db) \<Rightarrow> db \<Rightarrow> 'a view_result \<times> db" where
  "for_caller vc k db = (case private_caller vc db of (Inl e, db') \<Rightarrow> (AuthFailed e, db') | (Inr c, db') \<Rightarrow> k c db')"

definition from_store :: "((store_error + 'a) \<times> db) \<Rightarrow> 'a view_result \<times> db" where
  "from_store r = (case r of (Inl e, db) \<Rightarrow> (StoreFailed e, db) | (Inr a, db) \<Rightarrow> (Shown a, db))"

section \<open>Balance, history and usage\<close>

definition balance_view :: "string \<Rightarrow> account \<Rightarrow> trace" where
  "balance_view c a = [(''consumer_id'', JStr c), (''balance_usd'', JFloat (py_round (int_div (acc_balance a) 1000000) 6)),
     (''total_spent_usd'', JFloat (py_round (int_div (acc_spent a) 1000000) 6)), (''requests_made'', JInt (acc_requests a)),
     (''tokens_consumed'', JInt (acc_tokens a))]"

definition get_balance :: "view_call \<Rightarrow> flt \<Rightarrow> db \<Rightarrow> trace view_result \<times> db" where
  "get_balance vc now = for_caller vc (\<lambda>c db. case get_or_create_account c ''Consumer'' now db of
     (None, db') \<Rightarrow> (ViewCrashed, db') | (Some a, db') \<Rightarrow> (Shown (balance_view c a), db'))"

definition minimum_applied :: "transaction \<Rightarrow> bool" where
  "minimum_applied t = (tx_cost t = MIN_CHARGE_MICRO \<and> tx_cost_input t + tx_cost_output t + tx_cost_cache t < MIN_CHARGE_MICRO)"

definition history_row :: "transaction \<Rightarrow> trace" where
  "history_row t = (let money = (\<lambda>n. JFloat (py_round (int_div n 1000000) 6)) in
     [(''request_id'', JStr (take 8 (tx_request t))), (''full_request_id'', JStr (tx_request t)), (''model'', JStr (tx_model t)),
      (''requested_model'', JStr (case tx_requested_model t of Some (c # cs) \<Rightarrow> c # cs | _ \<Rightarrow> tx_model t)),
      (''served_model'', j_opt JStr (tx_served_model t)), (''provider_name'', JStr (tx_provider_name t)),
      (''input_tokens'', JInt (tx_input t)), (''output_tokens'', JInt (tx_output t)), (''cached_tokens'', JInt (tx_cached t)),
      (''tokens'', JInt (tx_input t + tx_output t)), (''cost_usd'', money (tx_cost t)), (''cost_micro'', JInt (tx_cost t)),
      (''provider_earning_micro'', JInt (tx_earning t)), (''platform_fee_micro'', JInt (tx_fee t)),
      (''minimum_applied'', JBool (minimum_applied t)), (''cost_input_usd'', money (tx_cost_input t)),
      (''cost_output_usd'', money (tx_cost_output t)), (''cost_cache_usd'', money (tx_cost_cache t)),
      (''trust_level'', JStr (tx_trust t)), (''encrypted'', JBool (tx_encrypted t \<noteq> 0)), (''preference'', JStr (tx_preference t)),
      (''latency_ms'', JInt (tx_latency t)), (''tps'', JFloat (tx_tps t)), (''queued'', JBool (tx_queued t \<noteq> 0)),
      (''queue_wait_ms'', JInt (tx_queue_wait t)), (''timestamp'', JFloat (tx_time t))])"

definition get_history :: "view_call \<Rightarrow> db \<Rightarrow> trace list view_result \<times> db" where
  "get_history vc = for_caller vc (\<lambda>c db. (Shown (map history_row (list_consumer_transactions c 50 db)), db))"

definition get_usage :: "view_call \<Rightarrow> db \<Rightarrow> usage_report view_result \<times> db" where
  "get_usage vc = for_caller vc (\<lambda>c db. (Shown (consumer_usage c db), db))"

definition billing_config :: "environ \<Rightarrow> trace" where
  "billing_config e = [(''allow_balance_reset'', JBool (\<not> is_production e)), (''minimum_charge_micro'', JInt MIN_CHARGE_MICRO),
     (''minimum_charge_usd'', JFloat (int_div MIN_CHARGE_MICRO 1000000)), (''platform_fee_percent'', JInt PLATFORM_FEE_PERCENT),
     (''simulated_credits'', JBool True)]"

section \<open>Traces and activity\<close>

text \<open>With a store, \<open>traces_for\<close> reads the outcome rows.\<close>

definition get_traces :: "view_call \<Rightarrow> flt \<Rightarrow> db \<Rightarrow> outcome_view list view_result \<times> db" where
  "get_traces vc now = for_caller vc (\<lambda>c db. from_store (request_outcomes (if admin_caller vc db then None else Some c) 30 False now db))"

definition get_trace :: "view_call \<Rightarrow> string \<Rightarrow> flt \<Rightarrow> db \<Rightarrow> trace view_result \<times> db" where
  "get_trace vc rid now = for_caller vc (\<lambda>c db. case request_outcome rid (if admin_caller vc db then None else Some c) now db of
     (Inl e, db') \<Rightarrow> (StoreFailed e, db') | (Inr None, db') \<Rightarrow> (NotFound, db') | (Inr (Some t), db') \<Rightarrow> (Shown t, db'))"

text \<open>Switching the collection of countries off hides the retained ones as well.\<close>

definition hide_countries :: "bool \<Rightarrow> outcome_view \<Rightarrow> outcome_view" where
  "hide_countries on v = (case v of CompletedView rid t p c \<Rightarrow> CompletedView rid t (if on then p else None) (if on then c else None)
     | TraceView t \<Rightarrow> TraceView (if on then t else dict_set ''caller_country'' JNull (dict_set ''provider_country'' JNull t)))"

definition get_recent_activity :: "view_call \<Rightarrow> bool \<Rightarrow> flt \<Rightarrow> db \<Rightarrow> (bool \<times> outcome_view list) view_result \<times> db" where
  "get_recent_activity vc on now = for_caller vc (\<lambda>c db. let admin = admin_caller vc db in
     case request_outcomes (if admin then None else Some c) 30 True now db of
       (Inl e, db') \<Rightarrow> (StoreFailed e, db') | (Inr rows, db') \<Rightarrow> (Shown (admin, map (hide_countries on) rows), db'))"

definition get_network_activity :: "bool \<Rightarrow> flt \<Rightarrow> db \<Rightarrow> network_activity view_result \<times> db" where
  "get_network_activity on now db = from_store (public_network_activity on now db)"

definition get_provider_earnings :: "view_call \<Rightarrow> string \<Rightarrow> db \<Rightarrow> admin_earnings view_result" where
  "get_provider_earnings vc pid db = (if admin_caller vc db then Shown (admin_provider_earnings pid db) else AdminRequired)"

section \<open>The operator's dashboard\<close>

text \<open>\<open>routes_admin.py\<close>, \<open>get_admin_state\<close>: the weights it shows for the score.\<close>

definition shown_weights :: "string \<Rightarrow> (flt \<times> flt \<times> flt \<times> flt) option" where
  "shown_weights pref = map_of [(''cheapest'', (lit (6 / 10), lit (15 / 100), lit (1 / 10), lit (15 / 100))), (''fastest'', (lit (1 / 10), lit (6 / 10), lit (1 / 10), lit (2 / 10))),
     (''most_secure'', (lit (1 / 10), lit (1 / 10), lit (6 / 10), lit (2 / 10))), (''balanced'', (lit (35 / 100), lit (25 / 100), lit (2 / 10), lit (2 / 10)))] pref"

definition admin_provider_row :: "flt \<Rightarrow> flt \<Rightarrow> connected_provider \<Rightarrow> trace" where
  "admin_provider_row t1 t2 p = (let c = cp_caps p in
     [(''provider_id'', JStr (cp_id p)), (''billing_account_id'', JStr (cp_billing p)), (''session_id'', JStr (cp_session p)),
      (''name'', JStr (cp_name p)), (''models'', JList (map JStr (pc_models c))), (''trust_level'', JStr (trust_claim p)),
      (''hardware'', JStr (pc_hardware c)), (''price_input'', JFloat (pc_price_in c)), (''price_output'', JFloat (pc_price_out c)),
      (''measured_tps'', JFloat (pc_tps c)), (''max_concurrent'', JInt (pc_max_concurrent c)), (''active_requests'', JInt (cp_active p)),
      (''load'', JFloat (py_round (cp_load_factor p) 2)), (''encrypted'', JBool (cp_enc_key p \<noteq> '''')),
      (''encryption_key_preview'', if cp_enc_key p = '''' then JNull else JStr (take 16 (cp_enc_key p) @ ''...'')),
      (''connected_at'', JFloat (cp_connected_at p)), (''uptime_seconds'', JInt (to_int (rnd (t1 - cp_connected_at p)))),
      (''last_heartbeat'', JFloat (cp_last_heartbeat p)), (''seconds_since_heartbeat'', JInt (to_int (rnd (t2 - cp_last_heartbeat p)))),
      (''token_id'', JStr (cp_token p)), (''quarantined'', JBool (cp_quarantined p)), (''quarantine_reason'', JStr (cp_quarantine_reason p))])"

definition admin_bill_row :: "transaction \<Rightarrow> trace" where
  "admin_bill_row t = (let money = (\<lambda>n. JFloat (py_round (int_div n 1000000) 6)) in
     [(''request_id'', JStr (take 8 (tx_request t))), (''consumer_id'', JStr (tx_consumer t)), (''provider_id'', JStr (tx_provider t)),
      (''model'', JStr (tx_model t)), (''input_tokens'', JInt (tx_input t)), (''output_tokens'', JInt (tx_output t)),
      (''cost_usd'', money (tx_cost t)), (''provider_earned_usd'', money (tx_earning t)), (''platform_fee_usd'', money (tx_fee t)),
      (''timestamp'', JFloat (tx_time t))])"

definition admin_account_row :: "account \<Rightarrow> trace" where
  "admin_account_row a = (let money = (\<lambda>n. JFloat (py_round (int_div n 1000000) 6)) in
     [(''account_id'', JStr (acc_id a)), (''name'', JStr (acc_name a)), (''balance_usd'', money (acc_balance a)),
      (''total_spent_usd'', money (acc_spent a)), (''total_earned_usd'', money (acc_earned a)), (''requests_made'', JInt (acc_requests a)),
      (''tokens_consumed'', JInt (acc_tokens a))])"

record admin_state =
  as_accounts :: "trace list"
  as_keys :: "(string \<times> string \<times> string \<times> flt \<times> flt option \<times> int) list"
  as_providers :: "trace list"
  as_connections :: nat
  as_online :: nat
  as_queues :: nat
  as_traced :: nat
  as_transactions :: nat
  as_summary :: billing_totals
  as_bills :: "trace list"
  as_fee :: int
  as_traces :: "outcome_view list"

text \<open>The two reads of traces prune at their own times. Of the providers, \<open>c1\<close> and \<open>c2\<close> are the two clock readings each.\<close>

definition get_admin_state :: "view_call \<Rightarrow> (string \<Rightarrow> flt) \<Rightarrow> (string \<Rightarrow> flt) \<Rightarrow> flt \<Rightarrow> flt \<Rightarrow> 'cb hub \<Rightarrow> db \<Rightarrow> admin_state view_result \<times> db" where
  "get_admin_state vc c1 c2 t1 t2 h db = (if \<not> admin_caller vc db then (AdminRequired, db)
     else (case request_outcomes None 100 False t1 db of
       (Inl e, db1) \<Rightarrow> (StoreFailed e, db1)
     | (Inr traced, db1) \<Rightarrow> (case request_outcomes None 20 False t2 db1 of
         (Inl e, db2) \<Rightarrow> (StoreFailed e, db2)
       | (Inr traces, db2) \<Rightarrow> (Shown
           \<lparr>as_accounts = map admin_account_row (list_accounts db), as_keys = list_keys db1,
            as_providers = map (\<lambda>(_, p). admin_provider_row (c1 (cp_id p)) (c2 (cp_id p)) p) (hub_providers h),
            as_connections = hub_next h, as_online = provider_count h, as_queues = length (hub_queues h), as_traced = length traced,
            as_transactions = sum_requests (billing_summary db1), as_summary = billing_summary db1,
            as_bills = map admin_bill_row (recent_bills db1), as_fee = PLATFORM_FEE_PERCENT, as_traces = traces\<rparr>, db2))))"

end
