(* ===== verification/AccountLaws.thy ===== *)
theory AccountLaws
  imports AccountViews
begin

text \<open>
  What the account views reveal: the pages of a caller who is no operator depend only on the caller's own rows,
  whatever else the database holds.
\<close>

section \<open>Own rows\<close>

definition own_txs :: "string \<Rightarrow> db \<Rightarrow> transaction list" where
  "own_txs c db = filter (\<lambda>t. tx_consumer t = c) (db_txs db)"

definition own_outcomes :: "string \<Rightarrow> db \<Rightarrow> outcome list" where
  "own_outcomes c db = filter (\<lambda>r. out_consumer r = Some c) (db_outcomes db)"

text \<open>Below the row limit, pruning goes by age only.\<close>

definition few_outcomes :: "db \<Rightarrow> bool" where
  "few_outcomes db \<longleftrightarrow> length (db_outcomes db) \<le> TRACE_MAX_ROWS"

lemma own_outcomes_pruned:
  assumes "few_outcomes db"
  shows "own_outcomes c (prune_outcomes now db)
    = filter (\<lambda>r. \<not> out_time r < rnd (now - TRACE_RETENTION_SECONDS)) (own_outcomes c db)"
proof -
  let ?kept = "sql_delete (\<lambda>r. out_time r < rnd (now - TRACE_RETENTION_SECONDS)) (db_outcomes db)"
  have "length ?kept \<le> TRACE_MAX_ROWS"
    using assms length_filter_le unfolding few_outcomes_def sql_delete_def by (rule order.trans [rotated])
  then have "drop TRACE_MAX_ROWS (sql_desc outcome_rank ?kept) = []" by (simp add: sql_desc_def)
  then show ?thesis
    by (simp add: prune_outcomes_def own_outcomes_def Let_def sql_delete_def conj_commute)
qed

lemma outcome_page_own:
  "outcome_page (Some c) limit completed db
    = take (nat (min (max limit 1) 100)) (sql_desc outcome_rank (filter (\<lambda>r. \<not> completed \<or> out_status r = ''completed'') (own_outcomes c db)))"
  by (simp add: outcome_page_def own_outcomes_def conj_commute)

lemma request_outcomes_own:
  assumes "few_outcomes db" "few_outcomes db'" "own_outcomes c db = own_outcomes c db'"
  shows "fst (request_outcomes (Some c) limit completed now db) = fst (request_outcomes (Some c) limit completed now db')"
  using assms by (simp add: request_outcomes_def serialized_write_def outcome_page_own own_outcomes_pruned)

text \<open>With unique ids, the row of an id is the caller's or it is not shown.\<close>

lemma find_own:
  assumes "distinct (map out_request rows)"
  shows "(case find (\<lambda>r. out_request r = rid) rows of None \<Rightarrow> None | Some r \<Rightarrow> if out_consumer r \<noteq> Some c then None else Some r)
    = find (\<lambda>r. out_request r = rid) (filter (\<lambda>r. out_consumer r = Some c) rows)"
  using assms
proof (induction rows)
  case Nil
  then show ?case by simp
next
  case (Cons r rows)
  have "find (\<lambda>r. out_request r = rid) (filter (\<lambda>r. out_consumer r = Some c) rows) = None"
    if "out_request r = rid" using that Cons.prems by (auto simp: find_None_iff image_iff)
  then show ?case using Cons by auto
qed

lemma request_outcome_own:
  assumes "few_outcomes db" "outcomes_ok db"
  shows "fst (request_outcome rid (Some c) now db)
    = Inr (map_option (\<lambda>r. public_trace (out_payload r)) (find (\<lambda>r. out_request r = rid) (own_outcomes c (prune_outcomes now db))))"
proof -
  have "distinct (map out_request (db_outcomes (prune_outcomes now db)))"
    using assms(2) by (simp add: outcomes_ok_def prune_outcomes_def Let_def distinct_map_sql_delete)
  from find_own [OF this, where rid = rid and c = c, symmetric] show ?thesis
    unfolding own_outcomes_def
    by (auto simp: request_outcome_def serialized_write_def Let_def split: option.splits)
qed

text \<open>The views of a resolved caller who is no operator.\<close>

lemma views_of_caller:
  assumes "private_caller vc db = (Inr c, db1)" "\<not> admin_caller vc db1"
  shows "fst (get_history vc db) = Shown (map history_row (sql_limit 50 (sql_desc tx_time (own_txs c db1))))"
    "fst (get_usage vc db) = Shown (consumer_usage c db1)"
    "fst (get_traces vc now db) = fst (from_store (request_outcomes (Some c) 30 False now db1))"
    "fst (get_recent_activity vc on now db) = (case fst (request_outcomes (Some c) 30 True now db1) of
        Inl e \<Rightarrow> StoreFailed e | Inr rows \<Rightarrow> Shown (False, map (hide_countries on) rows))"
    "fst (get_trace vc rid now db) = (case fst (request_outcome rid (Some c) now db1) of
        Inl e \<Rightarrow> StoreFailed e | Inr None \<Rightarrow> NotFound | Inr (Some t) \<Rightarrow> Shown t)"
  using assms
  by (auto simp: get_history_def get_usage_def get_traces_def get_recent_activity_def get_trace_def for_caller_def
      list_consumer_transactions_def own_txs_def from_store_def split: prod.splits sum.splits option.splits)

text \<open>C29: A caller who is no operator sees of history, usage, traces, a single trace and recent activity only what is in its
  own rows: two databases that agree on them give the same pages, whatever other consumers' rows they hold (up to
  the global limit on retained outcomes).\<close>

theorem views_isolated:
  assumes "private_caller vc db = (Inr c, db1)" "private_caller vc db' = (Inr c, db1')"
    and "\<not> admin_caller vc db1" "\<not> admin_caller vc db1'"
    and "own_txs c db1 = own_txs c db1'" "own_outcomes c db1 = own_outcomes c db1'"
    and "outcomes_ok db1" "outcomes_ok db1'" "few_outcomes db1" "few_outcomes db1'"
  shows "fst (get_history vc db) = fst (get_history vc db')
    \<and> fst (get_usage vc db) = fst (get_usage vc db')
    \<and> fst (get_traces vc now db) = fst (get_traces vc now db')
    \<and> fst (get_trace vc rid now db) = fst (get_trace vc rid now db')
    \<and> fst (get_recent_activity vc on now db) = fst (get_recent_activity vc on now db')"
proof -
  note A = views_of_caller [OF assms(1,3)] and B = views_of_caller [OF assms(2,4)]
  have usage: "consumer_usage c db1 = consumer_usage c db1'"
    using assms(5) by (simp add: consumer_usage_def txs_of_consumer_def own_txs_def)
  have page: "fst (request_outcomes (Some c) n f now db1) = fst (request_outcomes (Some c) n f now db1')" for n f
    using assms(9,10,6) by (rule request_outcomes_own)
  have one: "fst (request_outcome rid (Some c) now db1) = fst (request_outcome rid (Some c) now db1')"
    using assms(6-10) by (simp add: request_outcome_own own_outcomes_pruned)
  have shown: "fst (from_store r) = fst (from_store r')" if "fst r = fst r'" for r r' :: "(store_error + outcome_view list) \<times> db"
    using that by (auto simp: from_store_def split: prod.splits sum.splits)
  have traces: "fst (from_store (request_outcomes (Some c) 30 False now db1)) = fst (from_store (request_outcomes (Some c) 30 False now db1'))"
    using page by (rule shown)
  show ?thesis unfolding A B usage traces page one assms(5) by simp
qed

text \<open>A caller without credentials among the users of a development server, and what others may have done.\<close>

definition some_token :: token_env where
  "some_token = \<lparr>te_mac = (\<lambda>s. s), te_dumps = (\<lambda>_. ''''), te_loads = (\<lambda>_. None)\<rparr>"

definition anonymous_call :: view_call where
  "anonymous_call = \<lparr>vc_auth = \<lparr>ap_sha = (\<lambda>s. s), ap_token = some_token, ap_env = [], ap_clock = (\<lambda>_. 0)\<rparr>,
     vc_clock = \<lparr>ak_token = 0, ak_key = 0, ak_suspension = 0\<rparr>, vc_request = \<lparr>hr_cookies = [], hr_headers = [], hr_client = None\<rparr>\<rparr>"

definition outcome_for :: "string \<Rightarrow> string \<Rightarrow> outcome" where
  "outcome_for rid c = \<lparr>out_request = rid, out_consumer = Some c, out_time = 10, out_status = ''completed'',
     out_payload = [(''request_id'', JStr rid)], out_provider_country = None, out_caller_country = None\<rparr>"

definition db_mine :: db where
  "db_mine = empty_db\<lparr>db_users := [new_user ''u1'' ''a@b'' '''' ''A'' 0 None], db_outcomes := [outcome_for ''r1'' DEFAULT_CONSUMER_ID]\<rparr>"

definition db_ours :: db where
  "db_ours = db_mine\<lparr>db_outcomes := [outcome_for ''r0'' ''u1'', outcome_for ''r1'' DEFAULT_CONSUMER_ID]\<rparr>"

lemma sample_caller:
  "private_caller anonymous_call db_mine = (Inr DEFAULT_CONSUMER_ID, db_mine)"
  "private_caller anonymous_call db_ours = (Inr DEFAULT_CONSUMER_ID, db_ours)"
  "\<not> admin_caller anonymous_call db_mine" "\<not> admin_caller anonymous_call db_ours"
  by code_simp+

lemma sample_own:
  "own_txs DEFAULT_CONSUMER_ID db_mine = own_txs DEFAULT_CONSUMER_ID db_ours"
  "own_outcomes DEFAULT_CONSUMER_ID db_mine = own_outcomes DEFAULT_CONSUMER_ID db_ours"
  "outcomes_ok db_mine" "outcomes_ok db_ours" "few_outcomes db_mine" "few_outcomes db_ours"
  by code_simp+

theorem views_isolated_witness:
  "fst (get_traces anonymous_call 20 db_mine) = fst (get_traces anonymous_call 20 db_ours)
    \<and> fst (get_trace anonymous_call ''r0'' 20 db_mine) = fst (get_trace anonymous_call ''r0'' 20 db_ours)
    \<and> length (db_outcomes db_mine) < length (db_outcomes db_ours)"
proof -
  have "length (db_outcomes db_mine) < length (db_outcomes db_ours)" by (simp add: db_ours_def db_mine_def)
  with views_isolated [OF sample_caller sample_own, of 20 "''r0''" True] show ?thesis by blast
qed

end
