(* ===== verification/Metrics.thy ===== *)
theory Metrics
  imports AuthRoutes HubQueue StoreLedger
begin

text \<open>
  \<open>coordinator/metrics.py\<close>: request counters and latency histograms in the Prometheus text format. Method
  and route template of a request are arguments; \<open>show_float\<close> renders a float, \<open>show6\<close> one with six digits.
\<close>

definition LATENCY_BUCKETS :: "flt list" where
  "LATENCY_BUCKETS = [lit (1 / 100), lit (5 / 100), lit (1 / 10), lit (25 / 100), lit (5 / 10), 1, lit (25 / 10), 5, 10, 30, 60]"

text \<open>The bounds as they are printed.\<close>

definition BUCKET_LABELS :: "string list" where
  "BUCKET_LABELS = [''0.01'', ''0.05'', ''0.1'', ''0.25'', ''0.5'', ''1'', ''2.5'', ''5'', ''10'', ''30'', ''60'']"

record metrics =
  mx_requests :: "(string \<times> string \<times> string, nat) dict"
  mx_counts :: "(string \<times> string, nat list) dict"
  mx_sum :: "(string \<times> string, flt) dict"

definition no_metrics :: metrics where
  "no_metrics = \<lparr>mx_requests = [], mx_counts = [], mx_sum = []\<rparr>"

text \<open>The counts of one route: one per bucket and the total.\<close>

definition empty_counts :: "nat list" where
  "empty_counts = replicate (length LATENCY_BUCKETS + 1) 0"

definition count_latency :: "flt \<Rightarrow> nat list \<Rightarrow> nat list" where
  "count_latency seconds counts = (let bumped = map2 (\<lambda>upper n. if seconds \<le> upper then n + 1 else n) LATENCY_BUCKETS counts
     in bumped @ [last counts + 1])"

definition observe :: "string \<Rightarrow> string option \<Rightarrow> int \<Rightarrow> flt \<Rightarrow> metrics \<Rightarrow> metrics" where
  "observe meth path status seconds m = (let route = dflt ''unmatched'' path; k = (meth, route); r = (meth, route, int_str status)
     in m\<lparr>mx_requests := dict_set r (dict_get (mx_requests m) r 0 + 1) (mx_requests m),
          mx_counts := dict_set k (count_latency seconds (dict_get (mx_counts m) k empty_counts)) (mx_counts m),
          mx_sum := dict_set k (rnd (dict_get (mx_sum m) k 0 + seconds)) (mx_sum m)\<rparr>)"

text \<open>The middleware: a request that raised counts with status 500, and the metrics endpoint itself is not counted.\<close>

definition metrics_middleware :: "string \<Rightarrow> string option \<Rightarrow> string \<Rightarrow> int option \<Rightarrow> flt \<Rightarrow> flt \<Rightarrow> metrics \<Rightarrow> metrics" where
  "metrics_middleware meth path url status start stop m = (if url = ''/metrics'' then m
     else observe meth path (dflt 500 status) (rnd (stop - start)) m)"

section \<open>Rendering\<close>

definition labels_of :: "string \<Rightarrow> string \<Rightarrow> string" where
  "labels_of meth route = ''method=\"'' @ meth @ ''\",route=\"'' @ route @ ''\"''"

definition gauge_lines :: "(flt \<Rightarrow> string) \<Rightarrow> 'cb hub \<Rightarrow> db \<Rightarrow> string list" where
  "gauge_lines show_float h db = (let s = billing_summary db in
     [''# TYPE ie_providers_connected gauge'', ''ie_providers_connected '' @ nat_str (provider_count h),
      ''# TYPE ie_queue_depth gauge'', ''ie_queue_depth '' @ nat_str (length (hub_pending h)),
      ''# TYPE ie_models_available gauge'', ''ie_models_available '' @ nat_str (length (available_models h)),
      ''# TYPE ie_billed_requests_total counter'', ''ie_billed_requests_total '' @ nat_str (sum_requests s),
      ''# TYPE ie_billed_volume_usd_total counter'', ''ie_billed_volume_usd_total '' @ show_float (sum_volume s),
      ''# TYPE ie_http_requests_total counter''])"

definition request_lines :: "metrics \<Rightarrow> string list" where
  "request_lines m = map (\<lambda>((meth, route, status), n). ''ie_http_requests_total{'' @ labels_of meth route @ '',status=\"'' @ status @ ''\"} '' @ nat_str n)
     (sort_key fst (mx_requests m))"

definition histogram_lines :: "(flt \<Rightarrow> string) \<Rightarrow> metrics \<Rightarrow> string list" where
  "histogram_lines show6 m = concat (map (\<lambda>((meth, route), counts). let l = labels_of meth route in
       map2 (\<lambda>upper n. ''ie_http_request_duration_seconds_bucket{'' @ l @ '',le=\"'' @ upper @ ''\"} '' @ nat_str n) BUCKET_LABELS counts
     @ [''ie_http_request_duration_seconds_bucket{'' @ l @ '',le=\"+Inf\"} '' @ nat_str (last counts),
        ''ie_http_request_duration_seconds_sum{'' @ l @ ''} '' @ show6 (dict_get (mx_sum m) (meth, route) 0),
        ''ie_http_request_duration_seconds_count{'' @ l @ ''} '' @ nat_str (last counts)])
     (sort_key fst (mx_counts m)))"

definition render_metrics :: "(flt \<Rightarrow> string) \<Rightarrow> (flt \<Rightarrow> string) \<Rightarrow> 'cb hub \<Rightarrow> db \<Rightarrow> metrics \<Rightarrow> string" where
  "render_metrics show_float show6 h db m = concat (map (\<lambda>l. l @ [CHR 0x0A])
     (gauge_lines show_float h db @ request_lines m @ [''# TYPE ie_http_request_duration_seconds histogram'']
        @ histogram_lines show6 m))"

text \<open>The endpoint; the token comes from the environment.\<close>

definition metrics_route :: "environ \<Rightarrow> (string, string) dict \<Rightarrow> string \<Rightarrow> int \<times> string" where
  "metrics_route e headers body = (let token = dict_get e ''IE_METRICS_TOKEN'' '''' in
     if token = '''' \<and> is_production e then (404, ''not found'' @ [CHR 0x0A])
     else if token \<noteq> '''' \<and> dict_get headers ''authorization'' '''' \<noteq> ''Bearer '' @ token then (401, ''unauthorized'' @ [CHR 0x0A])
     else (200, body))"

end
