(* ===== verification/MetricsLaws.thy ===== *)
theory MetricsLaws
  imports Metrics Grouping
begin

text \<open>
  What the counters of the metrics endpoint say: after any sequence of requests the counters and the latency
  histograms are the exact numbers of those requests, the buckets are cumulative, and the endpoint in production
  answers only with a token.
\<close>

section \<open>The observed requests\<close>

type_synonym observation = "string \<times> string option \<times> int \<times> flt"

fun route_of :: "observation \<Rightarrow> string \<times> string" where
  "route_of (meth, path, status, seconds) = (meth, dflt ''unmatched'' path)"

fun series_of :: "observation \<Rightarrow> string \<times> string \<times> string" where
  "series_of (meth, path, status, seconds) = (meth, dflt ''unmatched'' path, int_str status)"

fun seconds_of :: "observation \<Rightarrow> flt" where
  "seconds_of (meth, path, status, seconds) = seconds"

fun observed :: "metrics \<Rightarrow> observation \<Rightarrow> metrics" where
  "observed m (meth, path, status, seconds) = observe meth path status seconds m"

lemma observed_parts:
  "mx_requests (observed m x) = dict_set (series_of x) (Suc (dict_get (mx_requests m) (series_of x) 0)) (mx_requests m)"
  "mx_counts (observed m x)
    = dict_set (route_of x) (count_latency (seconds_of x) (dict_get (mx_counts m) (route_of x) empty_counts)) (mx_counts m)"
  by (cases x, simp add: observe_def Let_def)+

text \<open>The counts of one route after the given latencies.\<close>

definition histogram :: "flt list \<Rightarrow> nat list" where
  "histogram ts = map (\<lambda>upper. length (filter (\<lambda>t. t \<le> upper) ts)) LATENCY_BUCKETS @ [length ts]"

lemma histogram_Nil: "histogram [] = empty_counts"
  by (simp add: histogram_def empty_counts_def LATENCY_BUCKETS_def)

lemma map2_prefix: "map2 f us (map g us @ vs) = map (\<lambda>u. f u (g u)) us"
  by (induction us) simp_all

lemma histogram_snoc: "histogram (ts @ [t]) = count_latency t (histogram ts)"
  by (simp add: histogram_def count_latency_def Let_def map2_prefix)

lemma histogram_fold: "foldl (\<lambda>g x. count_latency (f x) g) (histogram ts) xs = histogram (ts @ map f xs)"
  by (induction xs arbitrary: ts) (simp_all flip: histogram_snoc)

lemma count_fold: "foldl (\<lambda>n x. Suc n) n xs = n + length xs"
  by (induction xs arbitrary: n) simp_all

lemma counters_grouped:
  "mx_requests (foldl observed no_metrics obs) = grouped series_of (\<lambda>x. 0) (\<lambda>x. Suc) obs
    \<and> mx_counts (foldl observed no_metrics obs) = grouped route_of (\<lambda>x. empty_counts) (\<lambda>x. count_latency (seconds_of x)) obs"
proof (induction obs rule: rev_induct)
  case Nil
  then show ?case by (simp add: grouped_def first_seen_def no_metrics_def)
next
  case (snoc x obs)
  then show ?case by (simp add: observed_parts grouped_snoc)
qed

text \<open>C35: The metrics count exactly: after any sequence of observed requests there is one counter per method, route and
  status with the number of those requests, and one histogram per method and route whose buckets hold the numbers of its
  requests that took at most the bound, and whose last entry is their total.\<close>

theorem metrics_exact:
  "mx_requests (foldl observed no_metrics obs)
     = map (\<lambda>s. (s, length (filter (\<lambda>x. series_of x = s) obs))) (first_seen (map series_of obs))
   \<and> mx_counts (foldl observed no_metrics obs)
     = map (\<lambda>r. (r, histogram (map seconds_of (filter (\<lambda>x. route_of x = r) obs)))) (first_seen (map route_of obs))"
proof -
  have "group_of route_of (\<lambda>x. empty_counts) (\<lambda>x. count_latency (seconds_of x)) obs r
      = histogram (map seconds_of (filter (\<lambda>x. route_of x = r) obs))" for r
    using histogram_fold [of seconds_of "[]" "filter (\<lambda>x. route_of x = r) obs"]
    by (simp add: group_of_def histogram_Nil)
  moreover have "group_of series_of (\<lambda>x. 0) (\<lambda>x. Suc) obs s = length (filter (\<lambda>x. series_of x = s) obs)" for s
    by (simp add: group_of_def count_fold)
  ultimately show ?thesis by (simp add: counters_grouped grouped_def)
qed

text \<open>The buckets of a histogram are cumulative, as the format demands.\<close>

lemma histogram_cumulative: "sorted (histogram ts)"
proof -
  have "sorted LATENCY_BUCKETS" by code_simp
  moreover have "length (filter (\<lambda>t. t \<le> u) ts) \<le> length (filter (\<lambda>t. t \<le> v) ts)" if "u \<le> v" for u v :: flt
    using that by (induction ts) auto
  ultimately show ?thesis unfolding histogram_def
    by (auto simp: sorted_append sorted_map intro: sorted_wrt_mono_rel)
qed

end
