(* ===== verification/Spec2Isabelle.thy ===== *)
theory Spec2Isabelle
  imports AuthLaws StoreLaws CountryActivity MatchingLaws LoadLaws RegistrationLaws QualityLaws EventLaws ModelLaws
    SettlementLaws DeliveryLaws DispatchLaws SessionLaws OperatorLaws GgufLaws ConsolidateLaws E2ELaws
    ConfidentialLaws AgentLaws CatalogLaws MarketLaws AccountLaws MetricsLaws
begin

text \<open>
  Verification development of the inference exchange: its coordinator, the Python package
  \<open>inference_exchange/coordinator\<close> with \<open>inference_exchange/shared\<close>, the provider's process \<open>ocip_agent\<close> and the
  model file parser of \<open>inference_exchange/provider\<close>.

  \<^bold>\<open>The program.\<close> Consumers send OpenAI-style chat requests to a coordinator; providers hold a WebSocket
  to it. A request passes a gate (validation, caller, pause switch, rate limit, concurrency slot), is
  matched to a provider by a composite score, or waits in a bounded queue, is encrypted to the provider's
  key and sent; the provider's chunks go to a response queue from which the consumer's stream is fed; the
  completion message fires a billing callback that charges the store, counts the country pair, completes
  the request's outcome row, publishes a billing event and records the throughput. A confidential request
  travels as an envelope the coordinator cannot open, and is charged when its answer ends. The provider's agent
  keeps an engine alive, opens what it is sent, runs it and reports tokens and usage back.

  \<^bold>\<open>Theories and code.\<close>
  \<^item> \<^theory_text>\<open>Prelude\<close>: result types, insertion-ordered dicts, Python's integer and string operations; the
    interfaces \<open>keyed_map\<close> (a dict) and the rate window, both interpreted on the code's own structures.
  \<^item> \<^theory_text>\<open>PyFloat\<close>: IEEE doubles as rationals with a rounding function, the locale of what rounding guarantees
    and its interpretation; floats that overflow or are not numbers do not occur in the model.
  \<^item> \<^theory_text>\<open>Json\<close>: JSON values, the model of the dicts the code builds.
  \<^item> Store (\<open>store.py\<close>): \<^theory_text>\<open>StoreSchema\<close> (tables, constraints, transactions), \<^theory_text>\<open>StoreLedger\<close> (accounts,
    \<open>charge_request\<close>, reports), \<^theory_text>\<open>StoreKeys\<close> (API keys, provider tokens), \<^theory_text>\<open>StoreNodes\<close> (claims, enrolment,
    revocation, user deletion), \<^theory_text>\<open>StoreUsers\<close> (accounts of people, sessions, suspension), \<^theory_text>\<open>StoreOutcomes\<close>
    (request history), \<^theory_text>\<open>StoreRuns\<close> and \<^theory_text>\<open>StoreLaws\<close> (all state-changing operations as steps; integrity, the
    ledger equations, revocation, claims, suspension as properties of every reachable database).
  \<^item> \<^theory_text>\<open>CountryActivity\<close> (\<open>country_activity.py\<close>): the bounded daily counters and their suppressed snapshot.
  \<^item> Matching (\<open>matching/models.py\<close>, \<open>matching/strategy.py\<close>): \<^theory_text>\<open>Matching\<close> (the score and its hard constraints),
    \<^theory_text>\<open>MatchingStrategies\<close>, \<^theory_text>\<open>MatchingBatch\<close> (the greedy and the batch strategy), \<^theory_text>\<open>MatchingLaws\<close> (a locale of
    what a strategy promises, interpreted on both).
  \<^item> \<^theory_text>\<open>Protocol\<close> (\<open>shared/protocol.py\<close>): the messages.
  \<^item> Hub (\<open>provider_hub.py\<close>): \<^theory_text>\<open>HubState\<close> (connections, attestation), \<^theory_text>\<open>HubRouting\<close> (selection, explanation),
    \<^theory_text>\<open>HubQueue\<close> (response queues, sending, the waiting queue, provider messages), \<^theory_text>\<open>HubRuns\<close> (operations as
    steps, reachability as an inductive predicate); \<^theory_text>\<open>HubInvariant\<close>, \<^theory_text>\<open>HubRoutingLaws\<close>, \<^theory_text>\<open>HubLaws\<close>. The method
    \<open>send_to_provider\<close> awaits the socket in its middle, so it is \<open>begin_send\<close> followed by \<open>end_send\<close>, and a run has
    the two halves as the operations \<open>SendStart\<close> and \<open>SendEnd\<close> with anything between them.
  \<^item> \<^theory_text>\<open>LoadLimits\<close>, \<^theory_text>\<open>LoadLaws\<close> (\<open>rate_limiter.py\<close>, the guards of \<open>provider_registration.py\<close> and
    \<open>routes_provider.py\<close>, \<open>operator_controls.py\<close>): token buckets, attempt windows, concurrency slots; the
    attempt window is a locale interpreted on both guards.
  \<^item> \<^theory_text>\<open>Registration\<close>, \<^theory_text>\<open>RegistrationLaws\<close> (\<open>provider_registration.py\<close>): the admission policy.
  \<^item> \<^theory_text>\<open>Quality\<close>, \<^theory_text>\<open>QualityLaws\<close> (\<open>reputation.py\<close>, \<open>tps_tracker.py\<close>): averages and anomaly detection.
  \<^item> \<^theory_text>\<open>Events\<close>, \<^theory_text>\<open>EventLaws\<close> (\<open>event_bus.py\<close>, \<open>audit_log.py\<close>, the traces of \<open>dependencies.py\<close>).
  \<^item> \<^theory_text>\<open>ModelRegistry\<close>, \<^theory_text>\<open>Capabilities\<close>, \<^theory_text>\<open>ModelLaws\<close> (\<open>model_registry.py\<close>, \<open>model_attribution.py\<close>,
    \<open>verify_model_hash\<close> of \<open>main.py\<close>, \<open>capability_resolver.py\<close>).
  \<^item> The inference endpoint (\<open>routes_inference.py\<close>, \<open>shared/errors.py\<close>): \<^theory_text>\<open>ChatRequest\<close> (validation and the
    gate), \<^theory_text>\<open>Dispatch\<close> and \<^theory_text>\<open>DispatchLaws\<close> (\<open>_route_and_dispatch\<close>; \<open>dispatch_direct\<close> when no other task
    interrupts it, \<open>dispatch_across\<close> with the hub operations of other tasks during the send), \<^theory_text>\<open>Delivery\<close> and \<^theory_text>\<open>DeliveryLaws\<close>
    (\<open>_stream_response\<close>, \<open>_collect_response\<close>), \<^theory_text>\<open>Settlement\<close> and \<^theory_text>\<open>SettlementLaws\<close> (the billing callback
    and the hub composed with store, counters, bus and trackers; a charge with a value beyond SQLite's 64 bits
    raises, and the hub then records the request as failed).
  \<^item> Sign-in (\<open>routes_auth.py\<close>, \<open>oauth_github.py\<close>, parts of \<open>config.py\<close> and \<open>main.py\<close>): \<^theory_text>\<open>Base64\<close>, \<^theory_text>\<open>Auth\<close>
    (signed tokens, sessions, callers, administrators), \<^theory_text>\<open>AuthRoutes\<close> (the endpoints, the cross-site check,
    attempts per address), \<^theory_text>\<open>OAuth\<close> (the GitHub flow), \<^theory_text>\<open>AuthLaws\<close>.
  \<^item> The provider's connection (\<open>provider_websocket\<close> of \<open>main.py\<close>): \<^theory_text>\<open>ProviderSession\<close> composes hub, services,
    registration guard, registry, capability cache and audit log to one system with any number of connections;
    \<^theory_text>\<open>SessionLaws\<close> has its invariants over every interleaving and the refinement to store operations.
  \<^item> \<^theory_text>\<open>OperatorRoutes\<close>, \<^theory_text>\<open>OperatorLaws\<close> (\<open>routes_admin.py\<close>, \<open>routes_provider.py\<close>): the operator's and the owner's
    endpoints on that system.
  \<^item> \<^theory_text>\<open>Gguf\<close>, \<^theory_text>\<open>GgufLaws\<close> (\<open>provider/model_identity.py\<close>): the provider's parser of model file headers and the
    file hash.
  \<^item> \<^theory_text>\<open>Consolidate\<close>, \<^theory_text>\<open>ConsolidateLaws\<close> (\<open>scripts/consolidate_legacy_provider_accounts.py\<close>): the operator's
    one-time consolidation of old ledger accounts, against a reference rewriting of the ledger.
  \<^item> Confidential requests: \<^theory_text>\<open>Bytes\<close>, \<^theory_text>\<open>E2ESession\<close>, \<^theory_text>\<open>E2ELaws\<close> (\<open>shared/e2e.py\<close>, \<open>shared/handshake.py\<close>: transcript,
    keys, sequence numbers, messages; \<open>channel_step\<close> is the network between two sessions), \<^theory_text>\<open>Confidential\<close> and
    \<^theory_text>\<open>ConfidentialLaws\<close> (\<open>routes_confidential.py\<close>, \<open>routes_handshake.py\<close>: gate, relay, stream, collection, charge).
  \<^item> \<^theory_text>\<open>Agent\<close>, \<^theory_text>\<open>AgentRequest\<close>, \<^theory_text>\<open>AgentLaws\<close> (\<open>ocip_agent/agent.py\<close>): the engine's process with health wait and
    restarts, the connection loop, the running requests, and the handling of one. \<open>engine_says\<close> is what an engine
    may send as its event stream: chunks of text, silent and usage chunks, blank lines, comments, garbled data
    and the end marker.
  \<^item> The exchange: \<^theory_text>\<open>ModelCatalog\<close> (\<open>model_catalog.py\<close>), \<^theory_text>\<open>ReferencePrices\<close> (\<open>price_collector.py\<close>,
    \<open>reference_pricing.py\<close>), \<^theory_text>\<open>CatalogLaws\<close>; \<^theory_text>\<open>Grouping\<close> (folds that group a list), \<^theory_text>\<open>ExchangeViews\<close>, \<^theory_text>\<open>FeedViews\<close>,
    \<^theory_text>\<open>AccountViews\<close> (\<open>routes_exchange.py\<close>: offers, prices, depth, market, telemetry, a caller's own pages),
    \<^theory_text>\<open>MarketLaws\<close>, \<^theory_text>\<open>AccountLaws\<close>; \<^theory_text>\<open>Metrics\<close>, \<^theory_text>\<open>MetricsLaws\<close> (\<open>metrics.py\<close>).

  \<^bold>\<open>What is shown.\<close> Money: a charge moves exactly the price; a settlement does exactly what the completion says,
  the outcome row included, and a charge that does not fit moves nothing; on the inference endpoint a request is
  charged at most once and never without a completion, on the confidential relay at most once when its answer
  ends; the ledger equations hold in every reachable database; hub and services together refine a billing
  machine of three rules, seen through balances, ledger and open requests; the consolidation of old accounts
  conserves sums and rows and runs once. Routing: matches and selections respect every hard constraint and pick
  the best score; the explanation of a failure agrees with the selection; routing, dispatch and delivery end as
  documented on every branch; the hub's tables stay well formed over every interleaving, and routes lead to
  connected providers as long as no send acts on a provider that has gone. A request whose send other tasks
  interrupt is billed by its first later completion, unless one of them completed, failed or cancelled it; a
  completion that arrives inside the await of the send is not billed, which is shown too. Delivery: streaming
  and collecting end alike. Confidentiality: messages go to a provider with a key only encrypted to that key;
  the relay does not depend on what is in an envelope; an end-to-end session accepts only what was sent, in
  order and once, never repeats a nonce, and its transcript binds every field of the handshake; public views,
  feeds and counters reveal only what they may. From prompt to answer: what the engine is asked is what the
  consumer wrote, and what its stream says is what the consumer reads. Accounts: revocation, suspension, claims
  and enrolment limits hold in any later interleaving, callers and administrators are resolved from live
  sessions and keys only. Connections: a provider enters the hub only by an admitted first frame and with a
  credential active at that moment, belongs to one connection and earns for its credential. Load: rates,
  attempts and slots are bounded. The exchange: market, depth and prices equal independent references. Model
  files: the parser reads well-formed headers back.

  \<^bold>\<open>Conventions.\<close> State is passed explicitly; a method that touches the outside (socket, clock, random
  numbers) gets the readings as arguments and returns what it would do as effects. Exceptions are values.
  Each asynchronous stretch between two awaits is one step; what happens between steps is any sequence of
  steps. Parameters stand for code outside the repository: SHA-256 and HMAC, encryption, the JSON text
  format, pydantic's validation of already decoded messages, the model site, Python's rendering of floats.
  Every loop is a structural recursion or has a proved measure; the one bound is the depth of nested arrays in
  \<^theory_text>\<open>Gguf\<close>, the recursion limit of the interpreter, and it is an argument of the theorems. Loops that wait for the
  outside are folds over what arrives; the agent's wait for its engine is shown to end within 121 rounds of at
  least a second, its timeout being 120 seconds.

  \<^bold>\<open>Not modelled.\<close> The wiring of the web application (CORS, background loops, static files), App Attest
  certificates, the NaCl and AES primitives (parameters), the endless loops that poll prices and the network,
  the SDK clients, the in-memory ledger and keys that only tests use, the development provider with its mock
  engine, the command line, the notebooks and the other scripts; log lines, cookie attributes and response
  headers. On the relay, a charge beyond SQLite's 64 bits is left out. The reasons are listed with the
  components.
\<close>

end
